(* ===== verification/GoPrelude.thy ===== *)
theory GoPrelude
  imports Main "HOL-Library.AList"
begin

text \<open>
  The fragment of Go and of its standard library that the modelled code uses, and the
  generic lemmas every component shares.

  \<^item> A Go \<open>string\<close> is a byte sequence: HOL's \<open>string\<close>, whose \<open>char\<close> is a byte.
    Comparison, \<open>len\<close> and slicing are therefore byte-wise, as in Go.
  \<^item> \<open>strings.TrimSpace\<close> is modelled with its whole set of Unicode white space, in UTF-8.
    \<open>strings.ToLower\<close> is modelled on the ASCII letters; other bytes are left alone.
  \<^item> \<open>time.Time\<close> is the number of nanoseconds since Go's zero time, so \<open>IsZero\<close> is
    \<open>t = 0\<close>; \<open>Sub\<close> saturates at the range of \<open>time.Duration\<close>, as in Go.
  \<^item> A Go map is an association list with distinct keys; the order in which \<open>range\<close>
    visits it is a parameter of every operation that ranges over one.
  \<^item> Go's \<open>int\<close> and \<open>int64\<close> are \<open>int\<close>. Where values that come from outside are added,
    the sum wraps with \<open>wrap64\<close>; counters that grow by one per operation do not wrap.
\<close>

type_synonym gostring = string
type_synonym gotime = int
type_synonym goduration = int

named_theorems go_simps "unfolding rules for the small helpers of the model"

subsection \<open>Integers of 64 bits\<close>

definition wrap64 :: "int \<Rightarrow> int" where
  "wrap64 x = (x + 2 ^ 63) mod 2 ^ 64 - 2 ^ 63"

definition in64 :: "int \<Rightarrow> bool" where
  "in64 x \<longleftrightarrow> - (2 ^ 63) \<le> x \<and> x < 2 ^ 63"

lemma wrap64_id: "in64 x \<Longrightarrow> wrap64 x = x"
  by (simp add: wrap64_def in64_def)

lemma in64_wrap64: "in64 (wrap64 x)"
proof -
  have "0 \<le> (x + 2 ^ 63) mod 2 ^ 64" and "(x + 2 ^ 63) mod 2 ^ 64 < (2 ^ 64 :: int)"
    by simp_all
  then have "- (2 ^ 63) \<le> (x + 2 ^ 63) mod 2 ^ 64 - 2 ^ 63"
    and "(x + 2 ^ 63) mod 2 ^ 64 - 2 ^ 63 < (2 ^ 63 :: int)" by simp_all
  then show ?thesis by (simp add: in64_def wrap64_def)
qed

lemma wrap64_idem [simp]: "wrap64 (wrap64 x) = wrap64 x"
  by (rule wrap64_id) (rule in64_wrap64)

lemma wrap64_add_left [simp]: "wrap64 (wrap64 x + y) = wrap64 (x + y)"
proof -
  have "((x + 2 ^ 63) mod 2 ^ 64 - 2 ^ 63 + y + 2 ^ 63) mod 2 ^ 64
      = ((x + 2 ^ 63) mod 2 ^ 64 + y) mod (2 ^ 64 :: int)" by (simp add: algebra_simps)
  also have "\<dots> = (x + 2 ^ 63 + y) mod 2 ^ 64" by (rule mod_add_left_eq)
  finally show ?thesis by (simp add: wrap64_def algebra_simps)
qed

lemma wrap64_diff_left [simp]: "wrap64 (wrap64 x - y) = wrap64 (x - y)"
  using wrap64_add_left [of x "- y"] by simp

lemma wrap64_diff_right [simp]: "wrap64 (x - wrap64 y) = wrap64 (x - y)"
proof -
  have "(x - ((y + 2 ^ 63) mod 2 ^ 64 - 2 ^ 63) + 2 ^ 63) mod 2 ^ 64
      = ((x + 2 ^ 64) - (y + 2 ^ 63) mod 2 ^ 64) mod (2 ^ 64 :: int)"
    by (simp add: algebra_simps)
  also have "\<dots> = (x + 2 ^ 64 - (y + 2 ^ 63)) mod 2 ^ 64" by (rule mod_diff_right_eq)
  finally show ?thesis by (simp add: wrap64_def algebra_simps)
qed

text \<open>Go's division truncates towards zero.\<close>

definition quot :: "int \<Rightarrow> int \<Rightarrow> int" where
  "quot a b = (if a < 0 then - ((- a) div b) else a div b)"

subsection \<open>Time\<close>

definition minDuration :: goduration where "minDuration = - (2 ^ 63)"
definition maxDuration :: goduration where "maxDuration = 2 ^ 63 - 1"

definition nanosecond :: goduration where [go_simps]: "nanosecond = 1"
definition millisecond :: goduration where [go_simps]: "millisecond = 1000000"
definition second :: goduration where [go_simps]: "second = 1000000000"
definition minute :: goduration where [go_simps]: "minute = 60 * 1000000000"
definition hour :: goduration where [go_simps]: "hour = 3600 * 1000000000"

definition time_is_zero :: "gotime \<Rightarrow> bool" where [go_simps]:
  "time_is_zero t \<longleftrightarrow> t = 0"

definition time_sub :: "gotime \<Rightarrow> gotime \<Rightarrow> goduration" where
  "time_sub t u = max minDuration (min maxDuration (t - u))"

definition time_add :: "gotime \<Rightarrow> goduration \<Rightarrow> gotime" where [go_simps]:
  "time_add t d = t + d"

lemma time_sub_exact: "in64 (t - u) \<Longrightarrow> time_sub t u = t - u"
  by (simp add: time_sub_def in64_def minDuration_def maxDuration_def)

lemma time_sub_nonneg [simp]: "0 \<le> time_sub t u \<longleftrightarrow> u \<le> t"
  by (auto simp: time_sub_def minDuration_def maxDuration_def)

lemma time_sub_pos: "0 < time_sub t u \<longleftrightarrow> u < t"
  by (auto simp: time_sub_def minDuration_def maxDuration_def)

lemma time_sub_gt: "d < maxDuration \<Longrightarrow> minDuration \<le> d \<Longrightarrow> d < time_sub t u \<longleftrightarrow> d < t - u"
  by (auto simp: time_sub_def)

lemma time_sub_less: "minDuration < d \<Longrightarrow> d \<le> maxDuration \<Longrightarrow> time_sub t u < d \<longleftrightarrow> t - u < d"
  by (auto simp: time_sub_def)

subsection \<open>Strings\<close>

definition has_prefix :: "gostring \<Rightarrow> gostring \<Rightarrow> bool" where
  "has_prefix s p \<longleftrightarrow> take (length p) s = p"

lemma has_prefix_iff: "has_prefix s p \<longleftrightarrow> (\<exists>t. s = p @ t)"
  by (metis append_eq_conv_conj append_take_drop_id has_prefix_def)

lemma has_prefix_append [simp]: "has_prefix (p @ t) p"
  by (simp add: has_prefix_def)

lemma has_prefix_Nil [simp]: "has_prefix s []"
  by (simp add: has_prefix_def)

lemma has_prefix_drop: "has_prefix s p \<Longrightarrow> p @ drop (length p) s = s"
  by (auto simp: has_prefix_iff)

definition has_suffix :: "gostring \<Rightarrow> gostring \<Rightarrow> bool" where
  "has_suffix s p \<longleftrightarrow> has_prefix (rev s) (rev p)"

definition trim_prefix :: "gostring \<Rightarrow> gostring \<Rightarrow> gostring" where
  "trim_prefix s p = (if has_prefix s p then drop (length p) s else s)"

definition trim_suffix :: "gostring \<Rightarrow> gostring \<Rightarrow> gostring" where
  "trim_suffix s p = (if has_suffix s p then take (length s - length p) s else s)"

definition cut_prefix :: "gostring \<Rightarrow> gostring \<Rightarrow> gostring option" where
  "cut_prefix s p = (if has_prefix s p then Some (drop (length p) s) else None)"

fun index_byte :: "gostring \<Rightarrow> char \<Rightarrow> nat option" where
  "index_byte [] c = None"
| "index_byte (x # xs) c = (if x = c then Some 0 else map_option Suc (index_byte xs c))"

text \<open>The encodings of the code points that \<open>unicode.IsSpace\<close> accepts.\<close>

definition space_encodings :: "gostring list" where
  "space_encodings =
     [[CHR 0x20], [CHR 0x09], [CHR 0x0A], [CHR 0x0B], [CHR 0x0C], [CHR 0x0D],
      [CHR 0xC2, CHR 0x85], [CHR 0xC2, CHR 0xA0], [CHR 0xE1, CHR 0x9A, CHR 0x80],
      [CHR 0xE2, CHR 0x80, CHR 0x80], [CHR 0xE2, CHR 0x80, CHR 0x81],
      [CHR 0xE2, CHR 0x80, CHR 0x82], [CHR 0xE2, CHR 0x80, CHR 0x83],
      [CHR 0xE2, CHR 0x80, CHR 0x84], [CHR 0xE2, CHR 0x80, CHR 0x85],
      [CHR 0xE2, CHR 0x80, CHR 0x86], [CHR 0xE2, CHR 0x80, CHR 0x87],
      [CHR 0xE2, CHR 0x80, CHR 0x88], [CHR 0xE2, CHR 0x80, CHR 0x89],
      [CHR 0xE2, CHR 0x80, CHR 0x8A], [CHR 0xE2, CHR 0x80, CHR 0xA8],
      [CHR 0xE2, CHR 0x80, CHR 0xA9], [CHR 0xE2, CHR 0x80, CHR 0xAF],
      [CHR 0xE2, CHR 0x81, CHR 0x9F], [CHR 0xE3, CHR 0x80, CHR 0x80]]"

definition strip_one :: "gostring list \<Rightarrow> gostring \<Rightarrow> gostring option" where
  "strip_one ps s = map_option (\<lambda>p. drop (length p) s) (find (has_prefix s) ps)"

fun strip_all :: "nat \<Rightarrow> gostring list \<Rightarrow> gostring \<Rightarrow> gostring" where
  "strip_all 0 ps s = s"
| "strip_all (Suc n) ps s = (case strip_one ps s of None \<Rightarrow> s | Some t \<Rightarrow> strip_all n ps t)"

text \<open>Every stripped encoding has at least one byte, so the length of the string is fuel enough.\<close>

definition trim_left :: "gostring \<Rightarrow> gostring" where
  "trim_left s = strip_all (length s) space_encodings s"

definition trim_right :: "gostring \<Rightarrow> gostring" where
  "trim_right s = rev (strip_all (length s) (map rev space_encodings) (rev s))"

definition trim_space :: "gostring \<Rightarrow> gostring" where
  "trim_space s = trim_right (trim_left s)"

lemma strip_one_shorter:
  assumes "[] \<notin> set ps" and "strip_one ps s = Some t"
  shows "length t < length s"
proof -
  from assms(2) obtain p where p: "find (has_prefix s) ps = Some p" "t = drop (length p) s"
    by (auto simp: strip_one_def)
  then have "p \<in> set ps" and "has_prefix s p"
    by (auto simp: find_Some_iff)
  moreover from this assms(1) have "p \<noteq> []" by auto
  ultimately show ?thesis using p(2) by (auto simp: has_prefix_iff)
qed

lemma strip_all_stuck:
  "[] \<notin> set ps \<Longrightarrow> length s \<le> n \<Longrightarrow> strip_one ps (strip_all n ps s) = None"
proof (induction n arbitrary: s)
  case 0
  then show ?case using strip_one_shorter [of ps "[]"] by (cases "strip_one ps []") auto
next
  case (Suc n)
  then show ?case
    using strip_one_shorter [of ps s] by (fastforce split: option.split)
qed

text \<open>\<open>trim_left\<close> leaves no white space in front: the fuel is enough.\<close>

lemma trim_left_no_space: "strip_one space_encodings (trim_left s) = None"
  unfolding trim_left_def by (rule strip_all_stuck) (simp_all add: space_encodings_def)

definition lower_char :: "char \<Rightarrow> char" where
  "lower_char c = (if 65 \<le> (of_char c :: nat) \<and> (of_char c :: nat) \<le> 90
                   then char_of ((of_char c :: nat) + 32) else c)"

definition to_lower :: "gostring \<Rightarrow> gostring" where
  "to_lower s = map lower_char s"

definition upper_char :: "char \<Rightarrow> char" where
  "upper_char c = (if 97 \<le> (of_char c :: nat) \<and> (of_char c :: nat) \<le> 122
                   then char_of ((of_char c :: nat) - 32) else c)"

definition to_upper :: "gostring \<Rightarrow> gostring" where
  "to_upper s = map upper_char s"

definition contains :: "gostring \<Rightarrow> gostring \<Rightarrow> bool" where
  "contains s p \<longleftrightarrow> list_ex (\<lambda>i. has_prefix (drop i s) p) [0..<Suc (length s)]"

text \<open>Decimal printing, as \<open>strconv.Itoa\<close> and \<open>strconv.FormatInt\<close> do.\<close>

definition digit_char :: "nat \<Rightarrow> char" where
  "digit_char d = char_of (d + 48)"

fun nat_digits :: "nat \<Rightarrow> gostring" where
  "nat_digits n = (if n < 10 then [digit_char n] else nat_digits (n div 10) @ [digit_char (n mod 10)])"

declare nat_digits.simps [simp del]

definition itoa :: "int \<Rightarrow> gostring" where
  "itoa i = (if i < 0 then CHR ''-'' # nat_digits (nat (- i)) else nat_digits (nat i))"

definition hex_digit :: "nat \<Rightarrow> char" where
  "hex_digit d = (if d < 10 then char_of (d + 48) else char_of (d + 87))"

definition hex_encode :: "gostring \<Rightarrow> gostring" where
  "hex_encode bs = concat (map (\<lambda>b. [hex_digit (of_char b div 16), hex_digit (of_char b mod 16)]) bs)"

lemma nat_digits_snoc:
  "nat_digits n = (if n < 10 then [] else nat_digits (n div 10)) @ [digit_char (n mod 10)]"
  by (subst nat_digits.simps) simp

text \<open>Reading decimal numbers.\<close>

definition decimal_char :: "char \<Rightarrow> bool" where
  "decimal_char c \<longleftrightarrow> 48 \<le> (of_char c :: nat) \<and> (of_char c :: nat) \<le> 57"

definition decimal_value :: "gostring \<Rightarrow> nat" where
  "decimal_value s = foldl (\<lambda>n c. n * 10 + (of_char c - 48)) 0 s"

text \<open>\<open>strconv.ParseInt(s, 10, 64)\<close>; \<open>None\<close> is an error.\<close>

definition parse_int64 :: "gostring \<Rightarrow> int option" where
  "parse_int64 s =
     (let (negative, digits) =
        (case s of
           [] \<Rightarrow> (False, [])
         | c # t \<Rightarrow> if c = CHR ''-'' then (True, t) else if c = CHR ''+'' then (False, t) else (False, s))
      in if digits = [] \<or> \<not> list_all decimal_char digits then None
         else
           let v = (if negative then - int (decimal_value digits) else int (decimal_value digits)) in
           if in64 v then Some v else None)"

lemma of_digit_char: "d < 10 \<Longrightarrow> (of_char (digit_char d) :: nat) = d + 48"
  by (simp add: digit_char_def of_char_of)

lemma decimal_digit_char: "d < 10 \<Longrightarrow> decimal_char (digit_char d)"
  by (simp add: decimal_char_def of_digit_char)

lemma nat_digits_decimal: "list_all decimal_char (nat_digits n) \<and> nat_digits n \<noteq> [] \<and> decimal_value (nat_digits n) = n"
proof (induction n rule: nat_digits.induct)
  case (1 n)
  show ?case
  proof (cases "n < 10")
    case True
    then show ?thesis
      by (simp add: nat_digits.simps [of n] decimal_digit_char of_digit_char decimal_value_def)
  next
    case False
    then show ?thesis
      using 1 by (simp add: nat_digits.simps [of n] decimal_digit_char of_digit_char decimal_value_def)
  qed
qed

lemma itoa_cases: "\<exists>c t. itoa i = c # t \<and> (c = CHR ''-'' \<and> i < 0 \<and> t = nat_digits (nat (- i)) \<or>
    decimal_char c \<and> 0 \<le> i \<and> nat_digits (nat i) = c # t)"
proof (cases "i < 0")
  case False
  obtain c t where ct: "nat_digits (nat i) = c # t"
    using nat_digits_decimal [of "nat i"] by (cases "nat_digits (nat i)") auto
  then have "decimal_char c" using nat_digits_decimal [of "nat i"] by simp
  with False ct show ?thesis by (simp add: itoa_def)
qed (simp add: itoa_def)

lemma decimal_char_sign: "decimal_char c \<Longrightarrow> c \<noteq> CHR ''-'' \<and> c \<noteq> CHR ''+''"
  by (auto simp: decimal_char_def)

lemma parse_itoa: "in64 i \<Longrightarrow> parse_int64 (itoa i) = Some i"
  using itoa_cases [of i] nat_digits_decimal [of "nat i"] nat_digits_decimal [of "nat (- i)"]
  by (auto simp: parse_int64_def Let_def dest: decimal_char_sign)

lemma nat_digits_inject [simp]: "nat_digits m = nat_digits n \<longleftrightarrow> m = n"
  by (metis nat_digits_decimal)

lemma nat_digits_decimal_hd: "nat_digits n = c # t \<Longrightarrow> decimal_char c"
  using nat_digits_decimal [of n] by simp

lemma nat_digits_not_minus [simp]: "nat_digits n \<noteq> CHR ''-'' # t"
  using nat_digits_decimal_hd [of n "CHR ''-''"] decimal_char_sign by blast

lemma itoa_inject [simp]: "itoa i = itoa j \<longleftrightarrow> i = j"
  using nat_digits_not_minus [of "nat i"] nat_digits_not_minus [of "nat j"]
  by (auto simp: itoa_def eq_nat_nat_iff) (metis nat_digits_not_minus)+

text \<open>No decimal number starts with a letter.\<close>

lemma itoa_not_word: "\<not> decimal_char c \<Longrightarrow> c \<noteq> CHR ''-'' \<Longrightarrow> itoa i \<noteq> c # t"
  using itoa_cases [of i] by (auto dest: nat_digits_decimal_hd)

subsection \<open>Lists\<close>

lemma find_SomeD: "find P xs = Some x \<Longrightarrow> x \<in> set xs \<and> P x"
  by (metis find_Some_iff nth_mem)

subsection \<open>Maps\<close>

type_synonym ('k, 'v) gomap = "('k \<times> 'v) list"

definition map_wf :: "('k, 'v) gomap \<Rightarrow> bool" where
  "map_wf m \<longleftrightarrow> distinct (map fst m)"

abbreviation map_get :: "('k, 'v) gomap \<Rightarrow> 'k \<Rightarrow> 'v option" where
  "map_get m k \<equiv> map_of m k"

abbreviation map_put :: "'k \<Rightarrow> 'v \<Rightarrow> ('k, 'v) gomap \<Rightarrow> ('k, 'v) gomap" where
  "map_put k v m \<equiv> AList.update k v m"

abbreviation map_del :: "'k \<Rightarrow> ('k, 'v) gomap \<Rightarrow> ('k, 'v) gomap" where
  "map_del k m \<equiv> AList.delete k m"

lemma map_wf_Nil [simp]: "map_wf []"
  by (simp add: map_wf_def)

lemma map_wf_put [simp]: "map_wf m \<Longrightarrow> map_wf (map_put k v m)"
  by (simp add: map_wf_def distinct_update)

lemma map_wf_del [simp]: "map_wf m \<Longrightarrow> map_wf (map_del k m)"
  by (simp add: map_wf_def distinct_delete)

lemma map_get_put [simp]: "map_get (map_put k v m) k' = (if k' = k then Some v else map_get m k')"
  by (simp add: update_conv')

lemma map_get_del [simp]: "map_get (map_del k m) k' = (if k' = k then None else map_get m k')"
  by (simp add: delete_conv')

lemma length_del_le [simp]: "length (map_del k m) \<le> length m"
  by (induction m) auto

lemma length_put: "map_wf m \<Longrightarrow> length (map_put k v m) = (if map_get m k = None then Suc (length m) else length m)"
  by (induction m) (force simp: map_wf_def map_of_eq_None_iff)+

lemma map_get_None_iff: "map_get m k = None \<longleftrightarrow> k \<notin> set (map fst m)"
  by (simp add: map_of_eq_None_iff)

lemma length_del_less: "map_get m k \<noteq> None \<Longrightarrow> length (map_del k m) < length m"
proof (induction m)
  case (Cons a m)
  then show ?case
    using length_del_le [of k m] by (auto simp: less_Suc_eq_le split: if_splits)
qed simp

text \<open>A \<open>range\<close> loop may visit the keys of a map in any order, each once.\<close>

definition range_order :: "('k, 'v) gomap \<Rightarrow> 'k list \<Rightarrow> bool" where
  "range_order m ks \<longleftrightarrow> distinct ks \<and> set ks = set (map fst m)"

lemma range_order_self: "map_wf m \<Longrightarrow> range_order m (map fst m)"
  by (simp add: range_order_def map_wf_def)

lemma range_order_get: "range_order m ks \<Longrightarrow> k \<in> set ks \<Longrightarrow> map_get m k \<noteq> None"
  by (simp add: range_order_def map_of_eq_None_iff)

text \<open>
  The order of a \<open>range\<close> loop as a parameter without conditions: the keys sorted by an
  arbitrary ranking. Every order of the keys is the one of some ranking.
\<close>

definition visit :: "('k \<Rightarrow> nat) \<Rightarrow> ('k, 'v) gomap \<Rightarrow> 'k list" where
  "visit rk m = sort_key rk (map fst m)"

lemma set_visit [simp]: "set (visit rk m) = fst ` set m"
  by (simp add: visit_def)

lemma visit_range_order: "map_wf m \<Longrightarrow> range_order m (visit rk m)"
  by (simp add: range_order_def map_wf_def visit_def distinct_sort)

lemma range_order_visit:
  assumes "range_order m ks" and "map_wf m"
  shows "\<exists>rk. visit rk m = ks"
proof
  from assms(1) have d: "distinct ks" and same: "set ks = fst ` set m" by (auto simp: range_order_def)
  define rk where "rk k = (LEAST i. i < length ks \<and> ks ! i = k)" for k
  have rk: "rk (ks ! i) = i" if "i < length ks" for i
    unfolding rk_def using that d by (intro Least_equality) (auto simp: nth_eq_iff_index_eq)
  have "map rk ks = [0..<length ks]" by (rule nth_equalityI) (simp_all add: rk)
  then have "sorted (map rk ks)" "distinct (map rk ks)" by simp_all
  moreover have inj: "inj_on rk (set ks)" by (rule inj_onI) (metis in_set_conv_nth rk)
  moreover have v: "set (visit rk m) = set ks" by (simp add: same)
  moreover have "distinct (visit rk m)" using visit_range_order [OF assms(2)] by (simp add: range_order_def)
  moreover from this inj v have "distinct (map rk (visit rk m))" by (metis distinct_map)
  moreover have "sorted (map rk (visit rk m))" unfolding visit_def by (rule sorted_sort_key)
  ultimately show "visit rk m = ks" by (intro map_sorted_distinct_set_unique) simp_all
qed

subsection \<open>The oldest entry of a map\<close>

text \<open>
  The eviction loops keep the first key they meet with the smallest time. They evict an
  entry whenever there is one.
\<close>

fun oldest_from :: "('v \<Rightarrow> gotime) \<Rightarrow> ('k, 'v) gomap \<Rightarrow> 'k list \<Rightarrow> ('k \<times> gotime) option \<Rightarrow> ('k \<times> gotime) option" where
  "oldest_from f m [] best = best"
| "oldest_from f m (k # ks) best =
     (case map_get m k of
        None \<Rightarrow> oldest_from f m ks best
      | Some e \<Rightarrow>
          oldest_from f m ks
            (case best of
               None \<Rightarrow> Some (k, f e)
             | Some (bk, bt) \<Rightarrow> if f e < bt then Some (k, f e) else best))"

definition oldest_key :: "('v \<Rightarrow> gotime) \<Rightarrow> ('k \<Rightarrow> nat) \<Rightarrow> ('k, 'v) gomap \<Rightarrow> 'k option" where
  "oldest_key f rk m = map_option fst (oldest_from f m (visit rk m) None)"

lemma oldest_from_mem:
  assumes "\<And>bk bt. best = Some (bk, bt) \<Longrightarrow> map_get m bk \<noteq> None"
    and "oldest_from f m ks best = Some (k, t)"
  shows "map_get m k \<noteq> None"
  using assms
proof (induction ks arbitrary: best)
  case (Cons a ks)
  show ?case
  proof (cases "map_get m a")
    case None
    show ?thesis by (rule Cons.IH [of best]) (use Cons.prems None in \<open>auto\<close>)
  next
    case (Some e)
    show ?thesis
      by (rule Cons.IH) (use Cons.prems Some in \<open>auto split: option.splits if_splits\<close>)
  qed
qed simp

lemma oldest_from_some:
  "best \<noteq> None \<or> (\<exists>k \<in> set ks. map_get m k \<noteq> None) \<Longrightarrow> oldest_from f m ks best \<noteq> None"
proof (induction ks arbitrary: best)
  case (Cons a ks)
  show ?case
  proof (cases "map_get m a")
    case None
    with Cons.prems have "best \<noteq> None \<or> (\<exists>k \<in> set ks. map_get m k \<noteq> None)" by auto
    with None show ?thesis using Cons.IH [of best] by simp
  next
    case (Some e)
    then show ?thesis using Cons.IH by (auto split: option.split)
  qed
qed simp

lemma oldest_key_mem: "oldest_key f rk m = Some k \<Longrightarrow> map_get m k \<noteq> None"
  unfolding oldest_key_def using oldest_from_mem [of None m f "visit rk m" k] by auto

lemma oldest_key_some: "m \<noteq> [] \<Longrightarrow> \<exists>k. oldest_key f rk m = Some k"
proof -
  assume "m \<noteq> []"
  then have "\<exists>k \<in> set (visit rk m). map_get m k \<noteq> None"
    by (cases m) (auto simp: map_of_eq_None_iff)
  from oldest_from_some [OF disjI2 [OF this]] show ?thesis by (auto simp: oldest_key_def)
qed

definition evict_oldest :: "('v \<Rightarrow> gotime) \<Rightarrow> ('k \<Rightarrow> nat) \<Rightarrow> ('k, 'v) gomap \<Rightarrow> ('k, 'v) gomap" where
  "evict_oldest f rk m = (case oldest_key f rk m of None \<Rightarrow> m | Some k \<Rightarrow> map_del k m)"

lemma evict_oldest_wf [simp]: "map_wf m \<Longrightarrow> map_wf (evict_oldest f rk m)"
  by (simp add: evict_oldest_def split: option.split)

lemma evict_oldest_less: "m \<noteq> [] \<Longrightarrow> length (evict_oldest f rk m) < length m"
  using oldest_key_some [of m f rk] oldest_key_mem [of f rk m]
  by (auto simp: evict_oldest_def length_del_less)

lemma evict_oldest_None: "map_get m k = None \<Longrightarrow> map_get (evict_oldest f rk m) k = None"
  by (simp add: evict_oldest_def split: option.split)

lemma map_wf_filter [simp]: "map_wf m \<Longrightarrow> map_wf (filter P m)"
  by (simp add: map_wf_def distinct_map_filter)

lemma map_get_filter_None: "map_get m k = None \<Longrightarrow> map_get (filter P m) k = None"
  by (auto simp: map_of_eq_None_iff)

lemma map_get_filter: "map_wf m \<Longrightarrow> map_get (filter (\<lambda>(k, v). P k v) m) k =
    (case map_get m k of Some v \<Rightarrow> if P k v then Some v else None | None \<Rightarrow> None)"
  by (induction m) (auto simp: map_wf_def map_of_eq_None_iff split: option.split)

end
