(* ===== verification/CompatTypes.thy ===== *)
theory CompatTypes
  imports GoPrelude
begin

text \<open>
  The wire types of \<open>pkg/apicompat/types.go\<close> that the response converters read and
  write, field by field, and the model-name tests of \<open>pkg/claude/effort_catalog.go\<close>.
  A pointer field is an \<open>option\<close>; a \<open>json.RawMessage\<close> is its bytes, and the nil
  message is the empty string. A slice is a list, nil or empty alike, since the code
  only takes its length, ranges over it and appends to it.
\<close>

subsection \<open>Anthropic Messages types\<close>

record AnthropicCacheControl =
  cc_Type :: gostring
  cc_TTL :: gostring

record AnthropicImageSource =
  is_Type :: gostring
  is_MediaType :: gostring
  is_Data :: gostring

record AnthropicContentBlock =
  cb_Type :: gostring
  cb_CacheControl :: "AnthropicCacheControl option"
  cb_Text :: gostring
  cb_Thinking :: gostring
  cb_Signature :: gostring
  cb_Data :: gostring
  cb_Source :: "AnthropicImageSource option"
  cb_ID :: gostring
  cb_Name :: gostring
  cb_Input :: gostring
  cb_ToolUseID :: gostring
  cb_Content :: gostring
  cb_IsError :: bool

definition emptyBlock :: AnthropicContentBlock where
  "emptyBlock = \<lparr>cb_Type = [], cb_CacheControl = None, cb_Text = [], cb_Thinking = [],
     cb_Signature = [], cb_Data = [], cb_Source = None, cb_ID = [], cb_Name = [],
     cb_Input = [], cb_ToolUseID = [], cb_Content = [], cb_IsError = False\<rparr>"

record AnthropicPromptTokensDetails =
  ptd_CachedTokens :: int

record AnthropicUsage =
  au_InputTokens :: int
  au_OutputTokens :: int
  au_CacheCreationInputTokens :: int
  au_CacheReadInputTokens :: int
  au_PromptTokens :: int
  au_CachedTokens :: int
  au_PromptTokensDetails :: "AnthropicPromptTokensDetails option"
  au_PromptCacheHitTokens :: "int option"
  au_PromptCacheMissTokens :: "int option"

definition emptyAnthropicUsage :: AnthropicUsage where
  "emptyAnthropicUsage = \<lparr>au_InputTokens = 0, au_OutputTokens = 0,
     au_CacheCreationInputTokens = 0, au_CacheReadInputTokens = 0, au_PromptTokens = 0,
     au_CachedTokens = 0, au_PromptTokensDetails = None, au_PromptCacheHitTokens = None,
     au_PromptCacheMissTokens = None\<rparr>"

record AnthropicResponse =
  ar_ID :: gostring
  ar_Type :: gostring
  ar_Role :: gostring
  ar_Content :: "AnthropicContentBlock list"
  ar_Model :: gostring
  ar_StopReason :: "gostring option"
  ar_StopSequence :: "gostring option"
  ar_Usage :: AnthropicUsage

definition AnthropicStopReasonPtr :: "gostring \<Rightarrow> gostring option" where
  "AnthropicStopReasonPtr s = Some s"

definition AnthropicStopReasonString :: "gostring option \<Rightarrow> gostring" where
  "AnthropicStopReasonString p = (case p of None \<Rightarrow> [] | Some s \<Rightarrow> s)"

lemma stop_reason_roundtrip [simp]: "AnthropicStopReasonString (AnthropicStopReasonPtr s) = s"
  by (simp add: AnthropicStopReasonString_def AnthropicStopReasonPtr_def)

record AnthropicDelta =
  ad_Type :: gostring
  ad_Text :: gostring
  ad_PartialJSON :: gostring
  ad_Thinking :: gostring
  ad_Signature :: gostring
  ad_StopReason :: gostring
  ad_StopSequence :: "gostring option"

definition emptyDelta :: AnthropicDelta where
  "emptyDelta = \<lparr>ad_Type = [], ad_Text = [], ad_PartialJSON = [], ad_Thinking = [],
     ad_Signature = [], ad_StopReason = [], ad_StopSequence = None\<rparr>"

record AnthropicStreamEvent =
  ae_Type :: gostring
  ae_Message :: "AnthropicResponse option"
  ae_Index :: "int option"
  ae_ContentBlock :: "AnthropicContentBlock option"
  ae_Delta :: "AnthropicDelta option"
  ae_Usage :: "AnthropicUsage option"

definition anthropicEvent :: "gostring \<Rightarrow> AnthropicStreamEvent" where
  "anthropicEvent t = \<lparr>ae_Type = t, ae_Message = None, ae_Index = None,
     ae_ContentBlock = None, ae_Delta = None, ae_Usage = None\<rparr>"

subsection \<open>OpenAI Responses types\<close>

record ResponsesContentPart =
  cp_PromptCacheBreakpoint :: gostring
  cp_Type :: gostring
  cp_Text :: gostring
  cp_Refusal :: gostring
  cp_ImageURL :: gostring
  cp_Filename :: gostring
  cp_FileData :: gostring
  cp_FileID :: gostring

definition textPart :: "gostring \<Rightarrow> ResponsesContentPart" where
  "textPart s = \<lparr>cp_PromptCacheBreakpoint = [], cp_Type = ''output_text'', cp_Text = s,
     cp_Refusal = [], cp_ImageURL = [], cp_Filename = [], cp_FileData = [], cp_FileID = []\<rparr>"

lemma textPart_simps [simp]:
  "cp_Type (textPart s) = ''output_text''" "cp_Text (textPart s) = s"
  by (simp_all add: textPart_def)

record ResponsesSummary =
  rs_Type :: gostring
  rs_Text :: gostring

record WebSearchAction =
  ws_Type :: gostring
  ws_Query :: gostring

record ResponsesOutput =
  ro_Type :: gostring
  ro_ID :: gostring
  ro_Role :: gostring
  ro_Content :: "ResponsesContentPart list"
  ro_Status :: gostring
  ro_EncryptedContent :: gostring
  ro_Summary :: "ResponsesSummary list"
  ro_CallID :: gostring
  ro_Name :: gostring
  ro_Arguments :: gostring
  ro_Namespace :: gostring
  ro_Input :: gostring
  ro_Action :: "WebSearchAction option"

definition emptyOutput :: ResponsesOutput where
  "emptyOutput = \<lparr>ro_Type = [], ro_ID = [], ro_Role = [], ro_Content = [], ro_Status = [],
     ro_EncryptedContent = [], ro_Summary = [], ro_CallID = [], ro_Name = [],
     ro_Arguments = [], ro_Namespace = [], ro_Input = [], ro_Action = None\<rparr>"

record ResponsesInputTokensDetails =
  itd_CachedTokens :: int
  itd_AudioTokens :: int
  itd_CacheCreationTokens :: int
  itd_CacheWriteTokens :: int

record ResponsesOutputTokensDetails =
  otd_ReasoningTokens :: int
  otd_AudioTokens :: int
  otd_AcceptedPredictionTokens :: int
  otd_RejectedPredictionTokens :: int

record ResponsesUsage =
  ru_InputTokens :: int
  ru_OutputTokens :: int
  ru_TotalTokens :: int
  ru_CacheCreationInputTokens :: int
  ru_InputTokensDetails :: "ResponsesInputTokensDetails option"
  ru_OutputTokensDetails :: "ResponsesOutputTokensDetails option"

record ResponsesIncompleteDetails =
  id_Reason :: gostring

record ResponsesError =
  re_Code :: gostring
  re_Message :: gostring

record ResponsesResponse =
  rr_ID :: gostring
  rr_Object :: gostring
  rr_CreatedAt :: int
  rr_Model :: gostring
  rr_Status :: gostring
  rr_Output :: "ResponsesOutput list"
  rr_Usage :: "ResponsesUsage option"
  rr_ServiceTier :: gostring
  rr_IncompleteDetails :: "ResponsesIncompleteDetails option"
  rr_Error :: "ResponsesError option"

record ResponsesStreamEvent =
  se_Type :: gostring
  se_Response :: "ResponsesResponse option"
  se_Usage :: "ResponsesUsage option"
  se_Item :: "ResponsesOutput option"
  se_OutputIndex :: int
  se_ContentIndex :: int
  se_Delta :: gostring
  se_Text :: gostring
  se_ItemID :: gostring
  se_CallID :: gostring
  se_Name :: gostring
  se_Arguments :: gostring
  se_Input :: gostring
  se_SummaryIndex :: int
  se_Part :: "ResponsesContentPart option"
  se_Code :: gostring
  se_Param :: gostring
  se_SequenceNumber :: int

definition emptyEvent :: ResponsesStreamEvent where
  "emptyEvent = \<lparr>se_Type = [], se_Response = None, se_Usage = None, se_Item = None,
     se_OutputIndex = 0, se_ContentIndex = 0, se_Delta = [], se_Text = [], se_ItemID = [],
     se_CallID = [], se_Name = [], se_Arguments = [], se_Input = [], se_SummaryIndex = 0,
     se_Part = None, se_Code = [], se_Param = [], se_SequenceNumber = 0\<rparr>"

lemma emptyEvent_simps [simp]:
  "se_Type emptyEvent = []" "se_Response emptyEvent = None" "se_Item emptyEvent = None"
  "se_Delta emptyEvent = []" "se_OutputIndex emptyEvent = 0" "se_ItemID emptyEvent = []"
  "se_Arguments emptyEvent = []" "se_SequenceNumber emptyEvent = 0" "se_Usage emptyEvent = None"
  by (simp_all add: emptyEvent_def)

lemma anthropicEvent_simps [simp]:
  "ae_Type (anthropicEvent t) = t" "ae_Index (anthropicEvent t) = None"
  "ae_Delta (anthropicEvent t) = None" "ae_ContentBlock (anthropicEvent t) = None"
  "ae_Usage (anthropicEvent t) = None" "ae_Message (anthropicEvent t) = None"
  by (simp_all add: anthropicEvent_def)

lemma emptyOutput_simps [simp]:
  "ro_Type emptyOutput = []" "ro_ID emptyOutput = []" "ro_Content emptyOutput = []"
  "ro_Arguments emptyOutput = []" "ro_Summary emptyOutput = []" "ro_CallID emptyOutput = []"
  "ro_Name emptyOutput = []" "ro_EncryptedContent emptyOutput = []" "ro_Status emptyOutput = []"
  by (simp_all add: emptyOutput_def)

lemma emptyDelta_simps [simp]:
  "ad_Type emptyDelta = []" "ad_Text emptyDelta = []" "ad_PartialJSON emptyDelta = []"
  "ad_Thinking emptyDelta = []" "ad_Signature emptyDelta = []" "ad_StopReason emptyDelta = []"
  by (simp_all add: emptyDelta_def)

lemma emptyBlock_simps [simp]:
  "cb_Type emptyBlock = []" "cb_Text emptyBlock = []" "cb_Thinking emptyBlock = []"
  "cb_Signature emptyBlock = []" "cb_Data emptyBlock = []" "cb_Input emptyBlock = []"
  "cb_ID emptyBlock = []" "cb_Name emptyBlock = []"
  by (simp_all add: emptyBlock_def)

subsection \<open>Identifiers of tool calls\<close>

definition toResponsesCallID :: "gostring \<Rightarrow> gostring" where
  "toResponsesCallID i = i"

definition fromResponsesCallID :: "gostring \<Rightarrow> gostring" where
  "fromResponsesCallID i =
     (case cut_prefix i ''fc_'' of
        Some after \<Rightarrow>
          if has_prefix after ''toolu_'' \<or> has_prefix after ''call_'' then after else i
      | None \<Rightarrow> i)"

lemma callID_roundtrip:
  "\<not> has_prefix i ''fc_toolu_'' \<Longrightarrow> \<not> has_prefix i ''fc_call_'' \<Longrightarrow>
   fromResponsesCallID (toResponsesCallID i) = i"
  by (auto simp: fromResponsesCallID_def toResponsesCallID_def cut_prefix_def has_prefix_iff)

lemma fromResponsesCallID_legacy:
  "fromResponsesCallID (''fc_toolu_'' @ s) = ''toolu_'' @ s"
  "fromResponsesCallID (''fc_call_'' @ s) = ''call_'' @ s"
  by (simp_all add: fromResponsesCallID_def cut_prefix_def has_prefix_def)

end
