(* ===== verification/JsonText.thy ===== *)
theory JsonText
  imports GoPrelude "HOL-Library.Char_ord" "HOL-Library.List_Lexorder"
begin

text \<open>
  The part of \<open>encoding/json\<close>, \<open>encoding/base64\<close> and \<open>unicode/utf8\<close> that the
  modelled code calls, on bytes: UTF-8 validity, quoting of strings with HTML escaping,
  \<open>json.Valid\<close>, \<open>json.Unmarshal\<close> into a \<open>map[string]json.RawMessage\<close>,
  \<open>json.Marshal\<close> of such a map, and the unpadded standard base64 encoding. The nesting
  limit of the Go decoder (10000 levels) is not modelled.
\<close>

subsection \<open>UTF-8\<close>

definition byte :: "char \<Rightarrow> nat" where
  "byte c = of_char c"

definition cont_byte :: "char \<Rightarrow> bool" where
  "cont_byte c \<longleftrightarrow> 0x80 \<le> byte c \<and> byte c \<le> 0xBF"

definition second_ok :: "nat \<Rightarrow> nat \<Rightarrow> bool" where
  "second_ok b0 b1 \<longleftrightarrow>
     (if b0 = 0xE0 then 0xA0 else if b0 = 0xF0 then 0x90 else 0x80) \<le> b1 \<and>
     b1 \<le> (if b0 = 0xED then 0x9F else if b0 = 0xF4 then 0x8F else 0xBF)"

text \<open>The width of the encoded rune at the head of a string, 0 where the bytes are invalid.\<close>

fun utf8_width :: "gostring \<Rightarrow> nat" where
  "utf8_width [] = 0"
| "utf8_width (a # s) =
     (if byte a < 0x80 then 1
      else if 0xC2 \<le> byte a \<and> byte a \<le> 0xDF then
        (case s of b # _ \<Rightarrow> if cont_byte b then 2 else 0 | _ \<Rightarrow> 0)
      else if 0xE0 \<le> byte a \<and> byte a \<le> 0xEF then
        (case s of b # c # _ \<Rightarrow> if second_ok (byte a) (byte b) \<and> cont_byte c then 3 else 0
         | _ \<Rightarrow> 0)
      else if 0xF0 \<le> byte a \<and> byte a \<le> 0xF4 then
        (case s of b # c # d # _ \<Rightarrow>
             if second_ok (byte a) (byte b) \<and> cont_byte c \<and> cont_byte d then 4 else 0
         | _ \<Rightarrow> 0)
      else 0)"

function valid_utf8 :: "gostring \<Rightarrow> bool" where
  "valid_utf8 s =
     (if s = [] then True
      else if utf8_width s = 0 then False
      else valid_utf8 (drop (utf8_width s) s))"
  by pat_completeness auto
termination
  by (relation "measure length") auto

declare valid_utf8.simps [simp del]

subsection \<open>Quoting\<close>

definition backslash :: char where "backslash = CHR 0x5C"
definition dquote :: char where "dquote = CHR 0x22"

definition u_escape :: "nat \<Rightarrow> gostring" where
  "u_escape n = [backslash, CHR ''u'', hex_digit (n div 4096 mod 16),
     hex_digit (n div 256 mod 16), hex_digit (n div 16 mod 16), hex_digit (n mod 16)]"

definition escape_byte :: "char \<Rightarrow> gostring" where
  "escape_byte c =
     (if c = dquote \<or> c = backslash then [backslash, c]
      else if byte c = 8 then [backslash, CHR ''b'']
      else if byte c = 12 then [backslash, CHR ''f'']
      else if byte c = 10 then [backslash, CHR ''n'']
      else if byte c = 13 then [backslash, CHR ''r'']
      else if byte c = 9 then [backslash, CHR ''t'']
      else if byte c < 32 \<or> c \<in> {CHR ''<'', CHR ''>'', CHR ''&''} then u_escape (byte c)
      else [c])"

definition line_sep :: "gostring \<Rightarrow> nat option" where
  "line_sep s =
     (if has_prefix s [CHR 0xE2, CHR 0x80, CHR 0xA8] then Some 0x2028
      else if has_prefix s [CHR 0xE2, CHR 0x80, CHR 0xA9] then Some 0x2029 else None)"

function quote_body :: "gostring \<Rightarrow> gostring" where
  "quote_body s =
     (if s = [] then []
      else if utf8_width s = 0 then u_escape 0xFFFD @ quote_body (drop 1 s)
      else if utf8_width s = 1 then escape_byte (hd s) @ quote_body (drop 1 s)
      else (case line_sep s of
              Some n \<Rightarrow> u_escape n
            | None \<Rightarrow> take (utf8_width s) s) @ quote_body (drop (utf8_width s) s))"
  by pat_completeness auto
termination
  by (relation "measure length") auto

declare quote_body.simps [simp del]

definition json_quote :: "gostring \<Rightarrow> gostring" where
  "json_quote s = dquote # quote_body s @ [dquote]"

subsection \<open>Scanning\<close>

definition json_space :: "char \<Rightarrow> bool" where
  "json_space c \<longleftrightarrow> byte c \<in> {0x20, 0x09, 0x0A, 0x0D}"

definition skip_space :: "gostring \<Rightarrow> gostring" where
  "skip_space s = dropWhile json_space s"

definition is_digit :: "char \<Rightarrow> bool" where
  "is_digit c \<longleftrightarrow> 48 \<le> byte c \<and> byte c \<le> 57"

definition is_hex :: "char \<Rightarrow> bool" where
  "is_hex c \<longleftrightarrow> is_digit c \<or> (65 \<le> byte c \<and> byte c \<le> 70) \<or> (97 \<le> byte c \<and> byte c \<le> 102)"

text \<open>The rest of a string literal after its opening quote.\<close>

fun scan_string :: "gostring \<Rightarrow> gostring option" where
  "scan_string [] = None"
| "scan_string (c # s) =
     (if c = dquote then Some s
      else if byte c < 32 then None
      else if c = backslash then
        (case s of
           [] \<Rightarrow> None
         | e # t \<Rightarrow>
             if e \<in> {dquote, backslash, CHR ''/'', CHR ''b'', CHR ''f'', CHR ''n'', CHR ''r'', CHR ''t''}
             then scan_string t
             else if e = CHR ''u'' then
               (case t of
                  h1 # h2 # h3 # h4 # r \<Rightarrow>
                    if is_hex h1 \<and> is_hex h2 \<and> is_hex h3 \<and> is_hex h4 then scan_string r else None
                | _ \<Rightarrow> None)
             else None)
      else scan_string s)"

definition scan_digits :: "gostring \<Rightarrow> gostring option" where
  "scan_digits s = (case s of c # _ \<Rightarrow> if is_digit c then Some (dropWhile is_digit s) else None | [] \<Rightarrow> None)"

definition scan_frac :: "gostring \<Rightarrow> gostring option" where
  "scan_frac s = (case s of c # t \<Rightarrow> if c = CHR ''.'' then scan_digits t else Some s | [] \<Rightarrow> Some s)"

definition scan_exp :: "gostring \<Rightarrow> gostring option" where
  "scan_exp s =
     (case s of
        c # t \<Rightarrow>
          if c = CHR ''e'' \<or> c = CHR ''E'' then
            (case t of
               d # u \<Rightarrow> if d = CHR ''+'' \<or> d = CHR ''-'' then scan_digits u else scan_digits t
             | [] \<Rightarrow> None)
          else Some s
      | [] \<Rightarrow> Some s)"

definition scan_number :: "gostring \<Rightarrow> gostring option" where
  "scan_number s =
     (let t = (case s of c # u \<Rightarrow> if c = CHR ''-'' then u else s | [] \<Rightarrow> s) in
      case t of
        [] \<Rightarrow> None
      | c # u \<Rightarrow>
          if \<not> is_digit c then None
          else Option.bind (scan_frac (if c = CHR ''0'' then u else dropWhile is_digit t)) scan_exp)"

text \<open>
  One value at the head of a string: the rest after it, or \<open>None\<close> where it is not
  valid. Every call consumes a byte, so the length of the text is fuel enough.
\<close>

fun scan_value :: "nat \<Rightarrow> gostring \<Rightarrow> gostring option"
and scan_items :: "nat \<Rightarrow> gostring \<Rightarrow> gostring option"
and scan_members :: "nat \<Rightarrow> gostring \<Rightarrow> gostring option" where
  "scan_value 0 s = None"
| "scan_value (Suc n) s =
     (case s of
        [] \<Rightarrow> None
      | c # t \<Rightarrow>
          if c = dquote then scan_string t
          else if c = CHR ''['' then
            (case skip_space t of
               [] \<Rightarrow> None
             | d # r \<Rightarrow> if d = CHR '']'' then Some r else scan_items n (skip_space t))
          else if c = CHR ''{'' then
            (case skip_space t of
               [] \<Rightarrow> None
             | d # r \<Rightarrow> if d = CHR ''}'' then Some r else scan_members n (skip_space t))
          else if has_prefix s ''true'' then Some (drop 4 s)
          else if has_prefix s ''false'' then Some (drop 5 s)
          else if has_prefix s ''null'' then Some (drop 4 s)
          else scan_number s)"
| "scan_items 0 s = None"
| "scan_items (Suc n) s =
     (case scan_value n s of
        None \<Rightarrow> None
      | Some r \<Rightarrow>
          (case skip_space r of
             [] \<Rightarrow> None
           | d # u \<Rightarrow> if d = CHR '']'' then Some u
                      else if d = CHR '','' then scan_items n (skip_space u) else None))"
| "scan_members 0 s = None"
| "scan_members (Suc n) s =
     (case s of
        [] \<Rightarrow> None
      | q # t \<Rightarrow>
          if q \<noteq> dquote then None
          else (case scan_string t of
             None \<Rightarrow> None
           | Some r \<Rightarrow>
               (case skip_space r of
                  [] \<Rightarrow> None
                | d # u \<Rightarrow>
                    if d \<noteq> CHR '':'' then None
                    else (case scan_value n (skip_space u) of
                       None \<Rightarrow> None
                     | Some v \<Rightarrow>
                         (case skip_space v of
                            [] \<Rightarrow> None
                          | e # w \<Rightarrow> if e = CHR ''}'' then Some w
                                     else if e = CHR '','' then scan_members n (skip_space w)
                                     else None)))))"

definition json_fuel :: "gostring \<Rightarrow> nat" where
  "json_fuel s = 2 * length s + 2"

definition json_valid :: "gostring \<Rightarrow> bool" where
  "json_valid s =
     (case scan_value (json_fuel s) (skip_space s) of
        None \<Rightarrow> False
      | Some r \<Rightarrow> skip_space r = [])"

subsection \<open>Decoding an object\<close>

definition hex_val :: "char \<Rightarrow> nat" where
  "hex_val c = (if is_digit c then byte c - 48 else if byte c < 97 then byte c - 55 else byte c - 87)"

definition hex4 :: "char \<Rightarrow> char \<Rightarrow> char \<Rightarrow> char \<Rightarrow> nat" where
  "hex4 a b c d = ((hex_val a * 16 + hex_val b) * 16 + hex_val c) * 16 + hex_val d"

definition utf8_encode :: "nat \<Rightarrow> gostring" where
  "utf8_encode n =
     (if n < 0x80 then [char_of n]
      else if n < 0x800 then [char_of (0xC0 + n div 64), char_of (0x80 + n mod 64)]
      else if n < 0x10000 then
        [char_of (0xE0 + n div 4096), char_of (0x80 + n div 64 mod 64), char_of (0x80 + n mod 64)]
      else [char_of (0xF0 + n div 262144), char_of (0x80 + n div 4096 mod 64),
            char_of (0x80 + n div 64 mod 64), char_of (0x80 + n mod 64)])"

definition unescape_char :: "char \<Rightarrow> char" where
  "unescape_char e =
     (if e = CHR ''b'' then char_of (8 :: nat) else if e = CHR ''f'' then char_of (12 :: nat)
      else if e = CHR ''n'' then char_of (10 :: nat) else if e = CHR ''r'' then char_of (13 :: nat)
      else if e = CHR ''t'' then char_of (9 :: nat) else e)"

text \<open>
  The value of a valid string literal, from its bytes after the opening quote up to the
  closing one: escapes are decoded, a lone surrogate and an invalid byte become U+FFFD.
\<close>

function unquote :: "gostring \<Rightarrow> gostring" where
  "unquote s =
     (case s of
        [] \<Rightarrow> []
      | c # t \<Rightarrow>
          if c = dquote then []
          else if c = backslash then
            (case t of
               CHR ''u'' # h1 # h2 # h3 # h4 # r \<Rightarrow>
                 (let n = hex4 h1 h2 h3 h4 in
                  if 0xD800 \<le> n \<and> n < 0xE000 then
                    (case r of
                       b # CHR ''u'' # k1 # k2 # k3 # k4 # q \<Rightarrow>
                         if b = backslash \<and> n < 0xDC00 \<and> 0xDC00 \<le> hex4 k1 k2 k3 k4 \<and> hex4 k1 k2 k3 k4 < 0xE000
                         then utf8_encode (0x10000 + (n - 0xD800) * 1024 + (hex4 k1 k2 k3 k4 - 0xDC00)) @ unquote q
                         else utf8_encode 0xFFFD @ unquote r
                     | _ \<Rightarrow> utf8_encode 0xFFFD @ unquote r)
                  else utf8_encode n @ unquote r)
             | e # r \<Rightarrow> unescape_char e # unquote r
             | [] \<Rightarrow> [])
          else if utf8_width s = 0 then utf8_encode 0xFFFD @ unquote t
          else take (utf8_width s) s @ unquote (drop (utf8_width s) s))"
  by pat_completeness auto
termination
  by (relation "measure length") auto

declare unquote.simps [simp del]

text \<open>
  The members of a valid object, from its text after the opening brace: decoded keys
  with the raw bytes of their values.
\<close>

fun object_members :: "nat \<Rightarrow> gostring \<Rightarrow> (gostring \<times> gostring) list" where
  "object_members 0 s = []"
| "object_members (Suc n) s =
     (case s of
        [] \<Rightarrow> []
      | q # t \<Rightarrow>
          (case scan_string t of
             None \<Rightarrow> []
           | Some r \<Rightarrow>
               (let u = skip_space (drop 1 (skip_space r)) in
                case scan_value (json_fuel u) u of
                  None \<Rightarrow> []
                | Some v \<Rightarrow>
                    (unquote t, take (length u - length v) u) #
                    (case skip_space v of
                       e # w \<Rightarrow> if e = CHR '','' then object_members n (skip_space w) else []
                     | [] \<Rightarrow> []))))"

text \<open>
  \<open>json.Unmarshal\<close> into a \<open>map[string]json.RawMessage\<close>: \<open>None\<close> is an error; the
  literal \<open>null\<close> leaves the map nil; the last of several equal keys wins.
\<close>

definition unmarshal_object :: "gostring \<Rightarrow> (gostring, gostring) gomap option" where
  "unmarshal_object s =
     (if \<not> json_valid s then None
      else (case skip_space s of
              CHR ''{'' # t \<Rightarrow>
                Some (fold (\<lambda>(k, v) m. map_put k v m)
                        (case skip_space t of
                           CHR ''}'' # _ \<Rightarrow> []
                         | u \<Rightarrow> object_members (length u) u) [])
            | CHR ''n'' # _ \<Rightarrow> Some []
            | _ \<Rightarrow> None))"

subsection \<open>Encoding an object\<close>

text \<open>\<open>json.Compact\<close> with HTML escaping; the flag says whether the text is inside a string.\<close>

fun compact_json :: "bool \<Rightarrow> gostring \<Rightarrow> gostring" where
  "compact_json i [] = []"
| "compact_json False (c # s) =
     (if json_space c then compact_json False s
      else c # compact_json (c = dquote) s)"
| "compact_json True (c # s) =
     (if c = dquote then c # compact_json False s
      else if c = backslash then
        (case s of e # t \<Rightarrow> c # e # compact_json True t | [] \<Rightarrow> [c])
      else if c \<in> {CHR ''<'', CHR ''>'', CHR ''&''} then u_escape (byte c) @ compact_json True s
      else if c = CHR 0xE2 then
        (case s of
           b # d # t \<Rightarrow>
             (case line_sep [c, b, d] of
                Some n \<Rightarrow> u_escape n @ compact_json True t
              | None \<Rightarrow> c # compact_json True s)
         | _ \<Rightarrow> c # compact_json True s)
      else c # compact_json True s)"

definition marshal_member :: "gostring \<times> gostring \<Rightarrow> gostring" where
  "marshal_member kv = json_quote (fst kv) @ CHR '':'' # compact_json False (snd kv)"

fun join :: "gostring \<Rightarrow> gostring list \<Rightarrow> gostring" where
  "join sep [] = []"
| "join sep [x] = x"
| "join sep (x # y # ys) = x @ sep @ join sep (y # ys)"

text \<open>\<open>json.Marshal\<close> of a map: the keys in byte order, the raw values compacted.\<close>

definition marshal_object :: "(gostring, gostring) gomap \<Rightarrow> gostring" where
  "marshal_object m = CHR ''{'' # join '','' (map marshal_member (sort_key fst m)) @ ''}''"

subsection \<open>Base64\<close>

definition b64_char :: "nat \<Rightarrow> char" where
  "b64_char n =
     (if n < 26 then char_of (n + 65) else if n < 52 then char_of (n + 71)
      else if n < 62 then char_of (n - 4) else if n = 62 then CHR ''+'' else CHR ''/'')"

fun base64_raw :: "gostring \<Rightarrow> gostring" where
  "base64_raw [] = []"
| "base64_raw [a] = [b64_char (byte a div 4), b64_char (byte a mod 4 * 16)]"
| "base64_raw [a, b] =
     [b64_char (byte a div 4), b64_char (byte a mod 4 * 16 + byte b div 16),
      b64_char (byte b mod 16 * 4)]"
| "base64_raw (a # b # c # s) =
     [b64_char (byte a div 4), b64_char (byte a mod 4 * 16 + byte b div 16),
      b64_char (byte b mod 16 * 4 + byte c div 64), b64_char (byte c mod 64)] @ base64_raw s"

subsection \<open>Where a scanned value ends\<close>

text \<open>
  Every scanner consumes at least one byte, and the last byte it consumes can end a JSON
  value. So a text that ends with any other byte is not valid.
\<close>

definition value_end :: "char \<Rightarrow> bool" where
  "value_end c \<longleftrightarrow> c = dquote \<or> c = CHR '']'' \<or> c = CHR ''}'' \<or> c = CHR ''e'' \<or> c = CHR ''l'' \<or> is_digit c"

text \<open>\<open>r\<close> is what is left of \<open>s\<close> after a part that can end a value.\<close>

definition consumed :: "gostring \<Rightarrow> gostring \<Rightarrow> bool" where
  "consumed s r \<longleftrightarrow> (\<exists>u c. s = u @ c # r \<and> value_end c)"

lemma consumed_append: "consumed s r \<Longrightarrow> consumed (p @ s) r"
  unfolding consumed_def by (metis append.assoc)

lemma consumed_Cons: "consumed s r \<Longrightarrow> consumed (c # s) r"
  using consumed_append [of s r "[c]"] by simp

lemma consumed_skip: "consumed (skip_space s) r \<Longrightarrow> consumed s r"
  using consumed_append [of "skip_space s" r "takeWhile json_space s"] by (simp add: skip_space_def)

lemma consumed_here: "value_end c \<Longrightarrow> consumed (c # r) r"
  by (auto simp: consumed_def intro: exI [of _ "[]"])

lemma skip_space_tail: "skip_space s = d # r \<Longrightarrow> consumed (d # r) q \<Longrightarrow> consumed s q"
  by (metis consumed_skip)

lemma consumed_trans: "consumed s r \<Longrightarrow> consumed r q \<Longrightarrow> consumed s q"
  unfolding consumed_def by (metis append.assoc append_Cons)

lemma scan_string_consumed: "scan_string s = Some r \<Longrightarrow> consumed s r"
proof (induction s rule: scan_string.induct)
  case (2 c s)
  then show ?case
    by (auto simp: value_end_def intro!: consumed_Cons consumed_here split: if_splits list.splits)
qed simp

lemma digits_consumed:
  assumes "is_digit c" shows "consumed (c # s) (dropWhile is_digit (c # s))"
proof -
  let ?u = "takeWhile is_digit (c # s)"
  have "?u \<noteq> []" using assms by simp
  then have "?u = butlast ?u @ [last ?u]" by simp
  moreover have "is_digit (last ?u)" using \<open>?u \<noteq> []\<close> by (metis last_in_set set_takeWhileD)
  moreover have "c # s = ?u @ dropWhile is_digit (c # s)" by (rule takeWhile_dropWhile_id [symmetric])
  ultimately show ?thesis unfolding consumed_def value_end_def
    by (metis append.assoc append_Cons append_Nil)
qed

lemma scan_digits_consumed: "scan_digits s = Some r \<Longrightarrow> consumed s r"
  using digits_consumed by (auto simp: scan_digits_def split: list.splits if_splits)

definition consumed_le :: "gostring \<Rightarrow> gostring \<Rightarrow> bool" where
  "consumed_le s r \<longleftrightarrow> s = r \<or> consumed s r"

lemma scan_frac_le: "scan_frac s = Some r \<Longrightarrow> consumed_le s r"
  by (auto simp: scan_frac_def consumed_le_def intro: consumed_Cons scan_digits_consumed split: list.splits if_splits)

lemma scan_exp_le: "scan_exp s = Some r \<Longrightarrow> consumed_le s r"
  by (auto simp: scan_exp_def consumed_le_def intro: consumed_Cons scan_digits_consumed split: list.splits if_splits)

lemma scan_number_consumed: "scan_number s = Some r \<Longrightarrow> consumed s r"
proof -
  assume *: "scan_number s = Some r"
  define t where "t = (case s of c # u \<Rightarrow> if c = CHR ''-'' then u else s | [] \<Rightarrow> s)"
  have s: "s = t \<or> (\<exists>c. s = c # t)" by (auto simp: t_def split: list.splits)
  from * obtain c u r1 where t: "t = c # u" "is_digit c"
    and f: "scan_frac (if c = CHR ''0'' then u else dropWhile is_digit t) = Some r1" "scan_exp r1 = Some r"
    by (auto simp: scan_number_def t_def [symmetric] Let_def bind_eq_Some_conv split: list.splits if_splits)
  have "consumed t (if c = CHR ''0'' then u else dropWhile is_digit t)"
    using t digits_consumed [of c u] by (auto intro: consumed_here simp: value_end_def)
  with scan_frac_le [OF f(1)] scan_exp_le [OF f(2)] have "consumed t r"
    by (auto simp: consumed_le_def intro: consumed_trans)
  with s show ?thesis by (auto intro: consumed_Cons)
qed

lemma literal_consumed:
  "has_prefix s (p @ [c]) \<Longrightarrow> value_end c \<Longrightarrow> consumed s (drop (Suc (length p)) s)"
  by (auto simp: has_prefix_iff consumed_def)

lemma scan_consumed:
  "scan_value n s = Some r \<Longrightarrow> consumed s r"
  "scan_items n s = Some r \<Longrightarrow> consumed s r"
  "scan_members n s = Some r \<Longrightarrow> consumed s r"
proof (induction n s and n s and n s arbitrary: r and r and r
    rule: scan_value_scan_items_scan_members.induct)
  case (2 n s)
  have lit: "consumed s (drop 4 s)" if "has_prefix s ''true''"
    using literal_consumed [of s "''tru''" "CHR ''e''"] that by (simp add: value_end_def numeral_eq_Suc)
  have lit2: "consumed s (drop 5 s)" if "has_prefix s ''false''"
    using literal_consumed [of s "''fals''" "CHR ''e''"] that by (simp add: value_end_def numeral_eq_Suc)
  have lit3: "consumed s (drop 4 s)" if "has_prefix s ''null''"
    using literal_consumed [of s "''nul''" "CHR ''l''"] that by (simp add: value_end_def numeral_eq_Suc)
  obtain c t where s: "s = c # t" using 2(3) by (cases s) auto
  consider (str) "c = dquote" | (arr) "c = CHR ''[''" | (obj) "c = CHR ''{''"
    | (other) "c \<noteq> dquote" "c \<noteq> CHR ''[''" "c \<noteq> CHR ''{''" by blast
  then show ?case
  proof cases
    case str
    with 2(3) s show ?thesis by (auto intro: consumed_Cons scan_string_consumed)
  next
    case arr
    have "skip_space t \<noteq> []" using 2(3) unfolding s arr by (intro notI) (simp add: dquote_def)
    then obtain d u where d: "skip_space t = d # u" by (cases "skip_space t") auto
    have "consumed (skip_space t) r"
    proof (cases "d = CHR '']''")
      case True
      with 2(3) s arr d show ?thesis by (auto simp: dquote_def value_end_def intro: consumed_here)
    next
      case False
      with 2(3) s arr d have "scan_items n (d # u) = Some r" by (simp add: dquote_def)
      with 2(1) [OF s _ arr d False] arr d show ?thesis by (simp add: dquote_def)
    qed
    then show ?thesis unfolding s by (rule consumed_Cons [OF consumed_skip])
  next
    case obj
    have "skip_space t \<noteq> []" using 2(3) unfolding s obj by (intro notI) (simp add: dquote_def)
    then obtain d u where d: "skip_space t = d # u" by (cases "skip_space t") auto
    have "consumed (skip_space t) r"
    proof (cases "d = CHR ''}''")
      case True
      with 2(3) s obj d show ?thesis by (auto simp: dquote_def value_end_def intro: consumed_here)
    next
      case False
      with 2(3) s obj d have "scan_members n (d # u) = Some r" by (simp add: dquote_def)
      with 2(2) [OF s _ _ obj d False] obj d show ?thesis by (simp add: dquote_def)
    qed
    then show ?thesis unfolding s by (rule consumed_Cons [OF consumed_skip])
  next
    case other
    with 2(3) s lit lit2 lit3 scan_number_consumed show ?thesis by (auto split: if_splits)
  qed
next
  case (4 n s)
  then obtain r1 d u where 1: "scan_value n s = Some r1" "skip_space r1 = d # u"
    by (auto split: option.splits list.splits)
  from 4(1) 1 have c1: "consumed s r1" by simp
  have "consumed (d # u) r"
  proof (cases "d = CHR '']''")
    case True
    with 4(3) 1 show ?thesis by (auto intro: consumed_here simp: value_end_def)
  next
    case False
    with 4(3) 1 have "d = CHR '',''" "scan_items n (skip_space u) = Some r" by (auto split: if_splits)
    with 4(2) [OF 1 False] show ?thesis by (auto intro: consumed_Cons consumed_skip)
  qed
  with c1 1 show ?case by (metis consumed_skip consumed_trans)
next
  case (6 n s)
  then obtain t r1 u v e w where 1: "s = dquote # t" "scan_string t = Some r1"
    "skip_space r1 = CHR '':'' # u" "scan_value n (skip_space u) = Some v" "skip_space v = e # w"
    by (auto split: list.splits option.splits if_splits)
  have "consumed t r1" using scan_string_consumed [OF 1(2)] .
  moreover have "consumed r1 v"
    using 6(1) 1 by (metis consumed_Cons consumed_skip)
  moreover have "consumed (e # w) r"
  proof (cases "e = CHR ''}''")
    case True
    with 6(3) 1 show ?thesis by (auto intro: consumed_here simp: value_end_def)
  next
    case False
    with 6(3) 1 have "e = CHR '',''" "scan_members n (skip_space w) = Some r" by (auto split: if_splits)
    with 6(2) 1 False show ?thesis by (metis consumed_Cons consumed_skip)
  qed
  ultimately show ?case using 1 by (metis consumed_Cons consumed_skip consumed_trans)
qed simp_all

lemma json_valid_end:
  assumes "json_valid (s @ [c])"
  shows "json_space c \<or> value_end c"
proof -
  from assms obtain r where r: "scan_value (json_fuel (s @ [c])) (skip_space (s @ [c])) = Some r" "skip_space r = []"
    by (auto simp: json_valid_def split: option.splits)
  from scan_consumed(1) [OF r(1)] consumed_skip obtain u d where "s @ [c] = u @ d # r" "value_end d"
    unfolding consumed_def by (metis append.assoc skip_space_def takeWhile_dropWhile_id)
  then show ?thesis
    using r(2) by (cases r rule: rev_cases) (auto simp: skip_space_def dropWhile_eq_Nil_conv)
qed

end
