(* ===== verification/ClaudeModels.thy ===== *)
theory ClaudeModels
  imports GoPrelude
begin

text \<open>
  Model identifiers: the tests and tables of \<open>pkg/claude/effort_catalog.go\<close> and the
  short-name maps of \<open>pkg/claude/constants.go\<close>. A response converter asks them whether
  the signed thinking of a model has to be preserved. \<open>unicode.IsDigit\<close> is modelled on
  the ASCII digits.
\<close>

definition ModelIDOverrides :: "(gostring, gostring) gomap" where
  "ModelIDOverrides =
     [(''claude-sonnet-4-5'', ''claude-sonnet-4-5-20250929''),
      (''claude-opus-4-5'', ''claude-opus-4-5-20251101''),
      (''claude-haiku-4-5'', ''claude-haiku-4-5-20251001'')]"

definition ModelIDReverseOverrides :: "(gostring, gostring) gomap" where
  "ModelIDReverseOverrides =
     [(''claude-sonnet-4-5-20250929'', ''claude-sonnet-4-5''),
      (''claude-opus-4-5-20251101'', ''claude-opus-4-5''),
      (''claude-haiku-4-5-20251001'', ''claude-haiku-4-5'')]"

definition NormalizeModelID :: "gostring \<Rightarrow> gostring" where
  "NormalizeModelID i =
     (if i = [] then i
      else case map_get ModelIDOverrides i of Some mapped \<Rightarrow> mapped | None \<Rightarrow> i)"

definition DenormalizeModelID :: "gostring \<Rightarrow> gostring" where
  "DenormalizeModelID i =
     (if i = [] then i
      else case map_get ModelIDReverseOverrides i of Some mapped \<Rightarrow> mapped | None \<Rightarrow> i)"

definition ascii_digit :: "char \<Rightarrow> bool" where
  "ascii_digit c \<longleftrightarrow> 48 \<le> (of_char c :: nat) \<and> (of_char c :: nat) \<le> 57"

definition dotted_alias :: "gostring \<Rightarrow> gostring" where
  "dotted_alias i =
     (if i = ''claude-opus-5.5'' then ''claude-opus-5-5''
      else if i = ''claude-sonnet-5.5'' then ''claude-sonnet-5-5''
      else if i = ''claude-haiku-5.5'' then ''claude-haiku-5-5'' else i)"

definition drop_date_suffix :: "gostring \<Rightarrow> gostring" where
  "drop_date_suffix i =
     (if 9 \<le> length i then
        (let suffix = drop (length i - 9) i in
         if hd suffix = CHR ''-'' \<and> list_all ascii_digit (tl suffix)
         then take (length i - 9) i else i)
      else i)"

definition normalizeEffortModelID :: "gostring \<Rightarrow> gostring" where
  "normalizeEffortModelID model =
     (let i0 = trim_prefix (to_lower (trim_space model)) ''models/'';
          i1 = (case index_byte i0 (CHR ''/'') of
                  Some slash \<Rightarrow> trim_prefix (trim_space (drop (slash + 1) i0)) ''models/''
                | None \<Rightarrow> i0);
          i2 = fold (\<lambda>p i. trim_prefix i p)
                 [''us.'', ''eu.'', ''apac.'', ''jp.'', ''au.'', ''us-gov.'', ''global.''] i1;
          i3 = trim_suffix (trim_prefix i2 ''anthropic.'') ''-thinking'';
          i4 = dotted_alias i3;
          i5 = (case map_get ModelIDReverseOverrides i4 of Some mapped \<Rightarrow> mapped | None \<Rightarrow> i4)
      in drop_date_suffix i5)"

definition IsOpus55 :: "gostring \<Rightarrow> bool" where
  "IsOpus55 model \<longleftrightarrow> normalizeEffortModelID model = ''claude-opus-5-5''"

definition IsSonnet55 :: "gostring \<Rightarrow> bool" where
  "IsSonnet55 model \<longleftrightarrow> normalizeEffortModelID model = ''claude-sonnet-5-5''"

definition IsHaiku55 :: "gostring \<Rightarrow> bool" where
  "IsHaiku55 model \<longleftrightarrow> normalizeEffortModelID model = ''claude-haiku-5-5''"

definition effortLowMediumHigh :: "gostring list" where
  "effortLowMediumHigh = [''low'', ''medium'', ''high'']"

definition effortLowMediumHighMax :: "gostring list" where
  "effortLowMediumHighMax = [''low'', ''medium'', ''high'', ''max'']"

definition effortLowMediumHighXHighMax :: "gostring list" where
  "effortLowMediumHighXHighMax = [''low'', ''medium'', ''high'', ''xhigh'', ''max'']"

definition effortFamilies :: "(gostring \<times> gostring list) list" where
  "effortFamilies =
     [(''claude-mythos-preview'', effortLowMediumHighMax),
      (''claude-mythos-5'', effortLowMediumHighXHighMax),
      (''claude-fable-5'', effortLowMediumHighXHighMax),
      (''claude-sonnet-4-6'', effortLowMediumHighMax),
      (''claude-sonnet-5-5'', effortLowMediumHighXHighMax),
      (''claude-sonnet-5'', effortLowMediumHighXHighMax),
      (''claude-opus-4-8'', effortLowMediumHighXHighMax),
      (''claude-opus-4-7'', effortLowMediumHighXHighMax),
      (''claude-opus-4-6'', effortLowMediumHighMax),
      (''claude-opus-4-5'', effortLowMediumHigh),
      (''claude-opus-5-5'', effortLowMediumHighXHighMax),
      (''claude-opus-5'', effortLowMediumHighXHighMax),
      (''claude-haiku-5-5'', effortLowMediumHighXHighMax)]"

definition EffortLevelsForModel :: "gostring \<Rightarrow> gostring list" where
  "EffortLevelsForModel model =
     (let i = normalizeEffortModelID model in
      case find (\<lambda>(family, levels). i = family \<or> has_prefix i (family @ ''-'')) effortFamilies of
        Some (family, levels) \<Rightarrow> levels
      | None \<Rightarrow> [])"

lemma normalize_denormalize:
  "map_get ModelIDReverseOverrides i = None \<Longrightarrow> DenormalizeModelID (NormalizeModelID i) = i"
  by (auto simp: NormalizeModelID_def DenormalizeModelID_def ModelIDOverrides_def
      ModelIDReverseOverrides_def split: if_splits)

lemma effort_levels_known:
  "set (EffortLevelsForModel model) \<subseteq> {''low'', ''medium'', ''high'', ''xhigh'', ''max''}"
proof (cases "find (\<lambda>(family, levels). normalizeEffortModelID model = family \<or>
    has_prefix (normalizeEffortModelID model) (family @ ''-'')) effortFamilies")
  case None
  then show ?thesis by (simp add: EffortLevelsForModel_def Let_def)
next
  case (Some fl)
  then have "fl \<in> set effortFamilies" by (auto dest: find_SomeD)
  then have "set (snd fl) \<subseteq> {''low'', ''medium'', ''high'', ''xhigh'', ''max''}"
    by (auto simp: effortFamilies_def effortLowMediumHigh_def effortLowMediumHighMax_def
        effortLowMediumHighXHighMax_def)
  with Some show ?thesis by (cases fl) (simp add: EffortLevelsForModel_def Let_def)
qed

end
