(* ===== verification/StreamRun.thy ===== *)
theory StreamRun
  imports GoPrelude
begin

text \<open>
  What the two stream converters share. A converter is a step function from a state and
  an input event to a state and output events; the handler runs it over the events of
  the upstream stream and sends the outputs in order. A monitor is an automaton over
  output events that stands for what a client of the stream relies on.

  The interface \<open>monitored\<close> is the contract between a converter and such a client: every
  step drives the monitor from the abstraction of the old state to that of the new one.
  From it follows, once and for all, that the monitor accepts a whole run.
  \<open>numbered\<close> is the special contract of streams whose events carry consecutive numbers.
\<close>

fun run_stream :: "('s \<Rightarrow> 'i \<Rightarrow> 's \<times> 'o list) \<Rightarrow> 's \<Rightarrow> 'i list \<Rightarrow> 's \<times> 'o list" where
  "run_stream f s [] = (s, [])"
| "run_stream f s (i # is) =
     (let (s1, os1) = f s i; (s2, os2) = run_stream f s1 is in (s2, os1 @ os2))"

fun monitor_run :: "('m \<Rightarrow> 'o \<Rightarrow> 'm option) \<Rightarrow> 'm \<Rightarrow> 'o list \<Rightarrow> 'm option" where
  "monitor_run mon m [] = Some m"
| "monitor_run mon m (ev # os) = (case mon m ev of None \<Rightarrow> None | Some m1 \<Rightarrow> monitor_run mon m1 os)"

lemma run_stream_Cons:
  "fst (run_stream f s (i # is)) = fst (run_stream f (fst (f s i)) is)"
  "snd (run_stream f s (i # is)) = snd (f s i) @ snd (run_stream f (fst (f s i)) is)"
  by (simp_all split: prod.split)

lemma run_stream_append:
  "run_stream f s (xs @ ys) =
     (let (s1, os1) = run_stream f s xs; (s2, os2) = run_stream f s1 ys in (s2, os1 @ os2))"
  by (induction xs arbitrary: s) (auto simp: Let_def split: prod.split)

lemma monitor_run_append:
  "monitor_run mon m (xs @ ys) =
     (case monitor_run mon m xs of None \<Rightarrow> None | Some m1 \<Rightarrow> monitor_run mon m1 ys)"
  by (induction xs arbitrary: m) (auto split: option.split)

lemma monitor_run_appendI:
  "monitor_run mon m xs = Some m1 \<Longrightarrow> monitor_run mon m1 ys = Some m2 \<Longrightarrow>
   monitor_run mon m (xs @ ys) = Some m2"
  by (simp add: monitor_run_append)

definition next_number :: "('o \<Rightarrow> int) \<Rightarrow> int \<Rightarrow> 'o \<Rightarrow> int option" where
  "next_number num n ev = (if num ev = n then Some (n + 1) else None)"

lemma next_number_run:
  "monitor_run (next_number num) n os = Some n' \<longleftrightarrow>
     map num os = map (\<lambda>i. n + int i) [0..<length os] \<and> n' = n + int (length os)"
proof (induction os arbitrary: n)
  case Nil
  then show ?case by auto
next
  case (Cons ev os)
  have "map (\<lambda>i. n + int i) [0..<length (ev # os)] = n # map (\<lambda>i. n + 1 + int i) [0..<length os]"
    by (simp add: upt_conv_Cons map_Suc_upt [symmetric] comp_def algebra_simps del: upt_Suc)
  then show ?case
    using Cons.IH [of "n + 1"] by (auto simp: next_number_def algebra_simps simp del: upt_Suc)
qed

locale monitored =
  fixes step :: "'s \<Rightarrow> 'i \<Rightarrow> 's \<times> 'o list"
    and inv :: "'s \<Rightarrow> bool"
    and mon :: "'m \<Rightarrow> 'o \<Rightarrow> 'm option"
    and abs_state :: "'s \<Rightarrow> 'm"
  assumes step_inv: "inv s \<Longrightarrow> inv (fst (step s i))"
    and step_accepts:
      "inv s \<Longrightarrow> monitor_run mon (abs_state s) (snd (step s i)) = Some (abs_state (fst (step s i)))"
begin

lemma run_accepts:
  "inv s \<Longrightarrow> inv (fst (run_stream step s is)) \<and>
     monitor_run mon (abs_state s) (snd (run_stream step s is)) =
       Some (abs_state (fst (run_stream step s is)))"
proof (induction "is" arbitrary: s)
  case Nil
  then show ?case by simp
next
  case (Cons i "is")
  obtain s1 os1 where 1: "step s i = (s1, os1)" by fastforce
  obtain s2 os2 where 2: "run_stream step s1 is = (s2, os2)" by fastforce
  from Cons.prems 1 step_inv [of s i] step_accepts [of s i]
  have "inv s1" and "monitor_run mon (abs_state s) os1 = Some (abs_state s1)" by simp_all
  with Cons.IH [of s1] 1 2 show ?case
    by (simp add: monitor_run_append)
qed

lemma run_inv: "inv s \<Longrightarrow> inv (fst (run_stream step s is))"
  using run_accepts by blast

lemma run_monitor:
  "inv s \<Longrightarrow> monitor_run mon (abs_state s) (snd (run_stream step s is)) =
     Some (abs_state (fst (run_stream step s is)))"
  using run_accepts by blast

end

locale numbered =
  fixes step :: "'s \<Rightarrow> 'i \<Rightarrow> 's \<times> 'o list"
    and num :: "'o \<Rightarrow> int"
    and counter :: "'s \<Rightarrow> int"
  assumes step_numbers:
    "map num (snd (step s i)) = map (\<lambda>k. counter s + int k) [0..<length (snd (step s i))]"
    and step_counter: "counter (fst (step s i)) = counter s + int (length (snd (step s i)))"

sublocale numbered \<subseteq> numbers: monitored step "\<lambda>_. True" "next_number num" counter
  by unfold_locales (simp_all add: next_number_run step_numbers step_counter)

context numbered
begin

lemma run_numbers:
  "map num (snd (run_stream step s is)) =
     map (\<lambda>k. counter s + int k) [0..<length (snd (run_stream step s is))]"
  using numbers.run_monitor [of s "is"] by (simp add: next_number_run)

end

end
