(* ===== verification/AnthropicToResponses.thy ===== *)
theory AnthropicToResponses
  imports CompatTypes JsonText ClaudeModels StreamRun
begin

text \<open>
  The converter from Anthropic Messages responses to OpenAI Responses responses,
  \<open>pkg/apicompat/anthropic_to_responses_response.go\<close>: the whole-response function, and
  the stateful conversion of an event stream with its finaliser.

  \<open>crypto/rand\<close> is the parameter \<open>rnd\<close>, which gives the bytes of the n-th draw; the
  state counts the draws in \<open>A_Draws\<close>, the one field the Go struct does not have.
  \<open>time.Now().Unix()\<close> is the parameter \<open>now\<close>.
\<close>

subsection \<open>Whole responses\<close>

definition anthropicThinkingEnvelopePrefix :: gostring where
  "anthropicThinkingEnvelopePrefix = ''anthropic-thinking-v1:''"

definition json_field :: "gostring \<Rightarrow> gostring \<Rightarrow> gostring" where
  "json_field k v = json_quote k @ CHR '':'' # json_quote v"

definition encodeAnthropicThinking :: "AnthropicContentBlock \<Rightarrow> gostring" where
  "encodeAnthropicThinking block =
     (let fields =
        [json_field ''type'' (cb_Type block), json_field ''thinking'' (cb_Thinking block)] @
        (if cb_Signature block = [] then [] else [json_field ''signature'' (cb_Signature block)]) @
        (if cb_Data block = [] then [] else [json_field ''data'' (cb_Data block)])
      in anthropicThinkingEnvelopePrefix @ base64_raw (CHR ''{'' # join '','' fields @ ''}''))"

definition generateResponsesID :: "(nat \<Rightarrow> gostring) \<Rightarrow> nat \<Rightarrow> gostring" where
  "generateResponsesID rnd n = ''resp_'' @ hex_encode (rnd n)"

definition generateItemID :: "(nat \<Rightarrow> gostring) \<Rightarrow> nat \<Rightarrow> gostring" where
  "generateItemID rnd n = ''item_'' @ hex_encode (rnd n)"

definition preservesThinking :: "gostring \<Rightarrow> bool" where
  "preservesThinking model \<longleftrightarrow> IsOpus55 model \<or> IsSonnet55 model \<or> IsHaiku55 model"

definition summaryText :: "gostring \<Rightarrow> ResponsesSummary" where
  "summaryText s = \<lparr>rs_Type = ''summary_text'', rs_Text = s\<rparr>"

definition messageOutput :: "gostring \<Rightarrow> ResponsesContentPart list \<Rightarrow> ResponsesOutput" where
  "messageOutput i parts = emptyOutput\<lparr>ro_Type := ''message'', ro_ID := i,
     ro_Role := ''assistant'', ro_Status := ''completed'', ro_Content := parts\<rparr>"

text \<open>
  One block of the loop over \<open>resp.Content\<close>: the draws made so far, the output items
  and the text parts collected for the final message item.
\<close>

definition convertBlock ::
  "(nat \<Rightarrow> gostring) \<Rightarrow> gostring \<Rightarrow> AnthropicContentBlock \<Rightarrow>
   nat \<times> ResponsesOutput list \<times> ResponsesContentPart list \<Rightarrow>
   nat \<times> ResponsesOutput list \<times> ResponsesContentPart list" where
  "convertBlock rnd model block acc =
     (case acc of (n, outputs, parts) \<Rightarrow>
        if cb_Type block = ''thinking'' \<or> cb_Type block = ''redacted_thinking'' then
          (if preservesThinking model \<and> (cb_Signature block \<noteq> [] \<or> cb_Data block \<noteq> []) then
             (Suc n,
              outputs @ [emptyOutput\<lparr>ro_Type := ''reasoning'', ro_ID := generateItemID rnd n,
                 ro_EncryptedContent := encodeAnthropicThinking block,
                 ro_Summary := (if cb_Thinking block \<noteq> [] then [summaryText (cb_Thinking block)] else [])\<rparr>],
              parts)
           else if cb_Thinking block \<noteq> [] then
             (Suc n,
              outputs @ [emptyOutput\<lparr>ro_Type := ''reasoning'', ro_ID := generateItemID rnd n,
                 ro_Summary := [summaryText (cb_Thinking block)]\<rparr>],
              parts)
           else acc)
        else if cb_Type block = ''text'' then
          (if preservesThinking model \<and> cb_Text block \<noteq> [] then
             (Suc n, outputs @ [messageOutput (generateItemID rnd n) [textPart (cb_Text block)]], parts)
           else if cb_Text block \<noteq> [] then (n, outputs, parts @ [textPart (cb_Text block)])
           else acc)
        else if cb_Type block = ''tool_use'' then
          (Suc n,
           outputs @ [emptyOutput\<lparr>ro_Type := ''function_call'', ro_ID := generateItemID rnd n,
              ro_CallID := toResponsesCallID (cb_ID block), ro_Name := cb_Name block,
              ro_Arguments := (if cb_Input block \<noteq> [] then cb_Input block else ''{}''),
              ro_Status := ''completed''\<rparr>],
           parts)
        else acc)"

definition anthropicStopReasonToResponsesStatus ::
  "gostring \<Rightarrow> AnthropicContentBlock list \<Rightarrow> gostring" where
  "anthropicStopReasonToResponsesStatus stopReason blocks =
     (if stopReason = ''max_tokens'' then ''incomplete''
      else if stopReason = ''end_turn'' \<or> stopReason = ''tool_use'' \<or> stopReason = ''stop_sequence''
      then ''completed''
      else ''completed'')"

text \<open>The usage both converters build: OpenAI counts the cached tokens into the input.\<close>

definition responsesUsageOf :: "int \<Rightarrow> int \<Rightarrow> int \<Rightarrow> int \<Rightarrow> ResponsesUsage" where
  "responsesUsageOf input out cacheRead cacheCreation =
     (let total = wrap64 (wrap64 (input + cacheRead) + cacheCreation) in
      \<lparr>ru_InputTokens = total, ru_OutputTokens = out, ru_TotalTokens = wrap64 (total + out),
       ru_CacheCreationInputTokens = cacheCreation,
       ru_InputTokensDetails =
         (if 0 < cacheRead
          then Some \<lparr>itd_CachedTokens = cacheRead, itd_AudioTokens = 0,
                     itd_CacheCreationTokens = 0, itd_CacheWriteTokens = 0\<rparr>
          else None),
       ru_OutputTokensDetails = None\<rparr>)"

definition convertedOutputs ::
  "(nat \<Rightarrow> gostring) \<Rightarrow> nat \<Rightarrow> AnthropicResponse \<Rightarrow> ResponsesOutput list" where
  "convertedOutputs rnd n0 resp =
     (case fold (convertBlock rnd (ar_Model resp)) (ar_Content resp) (n0, [], []) of
        (n, outputs, parts) \<Rightarrow>
          (let outputs1 = (if parts \<noteq> [] then outputs @ [messageOutput (generateItemID rnd n) parts]
                           else outputs)
           in if outputs1 = [] then [messageOutput (generateItemID rnd n) [textPart []]]
              else outputs1))"

definition AnthropicToResponsesResponse ::
  "(nat \<Rightarrow> gostring) \<Rightarrow> int \<Rightarrow> AnthropicResponse \<Rightarrow> ResponsesResponse" where
  "AnthropicToResponsesResponse rnd now resp =
     (let generated = ar_ID resp = [];
          status = anthropicStopReasonToResponsesStatus
                     (AnthropicStopReasonString (ar_StopReason resp)) (ar_Content resp);
          usage = ar_Usage resp in
      \<lparr>rr_ID = (if generated then generateResponsesID rnd 0 else ar_ID resp),
       rr_Object = ''response'', rr_CreatedAt = now, rr_Model = ar_Model resp,
       rr_Status = status,
       rr_Output = convertedOutputs rnd (if generated then 1 else 0) resp,
       rr_Usage = Some (responsesUsageOf (au_InputTokens usage) (au_OutputTokens usage)
                          (au_CacheReadInputTokens usage) (au_CacheCreationInputTokens usage)),
       rr_ServiceTier = [],
       rr_IncompleteDetails =
         (if status = ''incomplete'' then Some \<lparr>id_Reason = ''max_output_tokens''\<rparr> else None),
       rr_Error = None\<rparr>)"

subsection \<open>The state of the stream conversion\<close>

record AnthropicEventToResponsesState =
  A_ResponseID :: gostring
  A_Model :: gostring
  A_Created :: int
  A_SequenceNumber :: int
  A_CreatedSent :: bool
  A_CompletedSent :: bool
  A_OutputIndex :: int
  A_CurrentItemID :: gostring
  A_CurrentItemType :: gostring
  A_ContentIndex :: int
  A_TextAccum :: gostring
  A_CurrentCallID :: gostring
  A_CurrentName :: gostring
  A_CurrentContent :: "ResponsesContentPart list"
  A_CurrentArgs :: gostring
  A_CurrentSummary :: gostring
  A_CurrentThinking :: AnthropicContentBlock
  A_PreserveThinkingSignatures :: bool
  A_PendingToolInput :: gostring
  A_Outputs :: "ResponsesOutput list"
  A_InputTokens :: int
  A_OutputTokens :: int
  A_CacheReadInputTokens :: int
  A_CacheCreationInputTokens :: int
  A_StopReason :: gostring
  A_Draws :: nat

type_synonym a2r_result = "AnthropicEventToResponsesState \<times> ResponsesStreamEvent list"

definition NewAnthropicEventToResponsesState :: "int \<Rightarrow> AnthropicEventToResponsesState" where
  "NewAnthropicEventToResponsesState now =
     \<lparr>A_ResponseID = [], A_Model = [], A_Created = now, A_SequenceNumber = 0,
      A_CreatedSent = False, A_CompletedSent = False, A_OutputIndex = 0, A_CurrentItemID = [],
      A_CurrentItemType = [], A_ContentIndex = 0, A_TextAccum = [], A_CurrentCallID = [],
      A_CurrentName = [], A_CurrentContent = [], A_CurrentArgs = [], A_CurrentSummary = [],
      A_CurrentThinking = emptyBlock, A_PreserveThinkingSignatures = False,
      A_PendingToolInput = [], A_Outputs = [], A_InputTokens = 0, A_OutputTokens = 0,
      A_CacheReadInputTokens = 0, A_CacheCreationInputTokens = 0, A_StopReason = [],
      A_Draws = 0\<rparr>"

subsection \<open>Helpers of the handlers\<close>

definition makeResponsesEvent ::
  "AnthropicEventToResponsesState \<Rightarrow> gostring \<Rightarrow> ResponsesStreamEvent \<Rightarrow>
   AnthropicEventToResponsesState \<times> ResponsesStreamEvent" where
  "makeResponsesEvent st eventType template =
     (st\<lparr>A_SequenceNumber := A_SequenceNumber st + 1\<rparr>,
      template\<lparr>se_Type := eventType, se_SequenceNumber := A_SequenceNumber st\<rparr>)"

definition makeResponsesCreatedEvent ::
  "AnthropicEventToResponsesState \<Rightarrow> AnthropicEventToResponsesState \<times> ResponsesStreamEvent" where
  "makeResponsesCreatedEvent st =
     (st\<lparr>A_SequenceNumber := A_SequenceNumber st + 1\<rparr>,
      emptyEvent\<lparr>se_Type := ''response.created'', se_SequenceNumber := A_SequenceNumber st,
        se_Response := Some \<lparr>rr_ID = A_ResponseID st, rr_Object = ''response'',
          rr_CreatedAt = A_Created st, rr_Model = A_Model st, rr_Status = ''in_progress'',
          rr_Output = [], rr_Usage = None, rr_ServiceTier = [], rr_IncompleteDetails = None,
          rr_Error = None\<rparr>\<rparr>)"

definition makeResponsesCompletedEvent ::
  "AnthropicEventToResponsesState \<Rightarrow> gostring \<Rightarrow> ResponsesIncompleteDetails option \<Rightarrow>
   AnthropicEventToResponsesState \<times> ResponsesStreamEvent" where
  "makeResponsesCompletedEvent st status incompleteDetails =
     (st\<lparr>A_SequenceNumber := A_SequenceNumber st + 1\<rparr>,
      emptyEvent\<lparr>
        se_Type := (if status = ''incomplete'' then ''response.incomplete'' else ''response.completed''),
        se_SequenceNumber := A_SequenceNumber st,
        se_Response := Some \<lparr>rr_ID = A_ResponseID st, rr_Object = ''response'',
          rr_CreatedAt = A_Created st, rr_Model = A_Model st, rr_Status = status,
          rr_Output = A_Outputs st,
          rr_Usage = Some (responsesUsageOf (A_InputTokens st) (A_OutputTokens st)
                       (A_CacheReadInputTokens st) (A_CacheCreationInputTokens st)),
          rr_ServiceTier = [], rr_IncompleteDetails = incompleteDetails, rr_Error = None\<rparr>\<rparr>)"

definition anthropicResponsesStreamTerminalState ::
  "gostring \<Rightarrow> gostring \<times> ResponsesIncompleteDetails option" where
  "anthropicResponsesStreamTerminalState stopReason =
     (if stopReason = ''max_tokens'' then (''incomplete'', Some \<lparr>id_Reason = ''max_output_tokens''\<rparr>)
      else (''completed'', None))"

definition seedToolArguments :: "gostring \<Rightarrow> gostring" where
  "seedToolArguments input =
     (let trimmed = trim_space input in
      if trimmed = [] \<or> trimmed = ''{}'' \<or> trimmed = ''null'' then [] else trimmed)"

text \<open>The item that is closed, as \<open>output_item.done\<close> and the terminal event carry it.\<close>

definition currentItem :: "AnthropicEventToResponsesState \<Rightarrow> ResponsesOutput" where
  "currentItem st =
     (let item = emptyOutput\<lparr>ro_Type := A_CurrentItemType st, ro_ID := A_CurrentItemID st,
                             ro_Status := ''completed''\<rparr> in
      if A_CurrentItemType st = ''message'' then
        item\<lparr>ro_Role := ''assistant'', ro_Content := A_CurrentContent st\<rparr>
      else if A_CurrentItemType st = ''function_call'' then
        item\<lparr>ro_CallID := A_CurrentCallID st, ro_Name := A_CurrentName st,
             ro_Arguments := (if A_CurrentArgs st = [] then ''{}'' else A_CurrentArgs st)\<rparr>
      else if A_CurrentItemType st = ''reasoning'' then
        item\<lparr>ro_EncryptedContent :=
               (if A_PreserveThinkingSignatures st \<and>
                   (cb_Signature (A_CurrentThinking st) \<noteq> [] \<or> cb_Data (A_CurrentThinking st) \<noteq> [])
                then encodeAnthropicThinking
                       ((A_CurrentThinking st)\<lparr>cb_Thinking := A_CurrentSummary st\<rparr>)
                else []),
             ro_Summary :=
               (if A_CurrentSummary st \<noteq> [] then [summaryText (A_CurrentSummary st)] else [])\<rparr>
      else item)"

definition resetItem :: "AnthropicEventToResponsesState \<Rightarrow> AnthropicEventToResponsesState" where
  "resetItem st =
     st\<lparr>A_CurrentItemType := [], A_CurrentItemID := [], A_CurrentCallID := [],
        A_CurrentName := [], A_CurrentContent := [], A_CurrentArgs := [],
        A_PendingToolInput := [], A_CurrentSummary := [], A_CurrentThinking := emptyBlock,
        A_TextAccum := [], A_OutputIndex := A_OutputIndex st + 1, A_ContentIndex := 0\<rparr>"

definition closeCurrentResponsesItem :: "AnthropicEventToResponsesState \<Rightarrow> a2r_result" where
  "closeCurrentResponsesItem st =
     (if A_CurrentItemType st = [] then (st, [])
      else
        let item = currentItem st;
            st1 = resetItem (st\<lparr>A_Outputs := A_Outputs st @ [item]\<rparr>);
            (st2, ev) = makeResponsesEvent st1 ''response.output_item.done''
                          (emptyEvent\<lparr>se_OutputIndex := A_OutputIndex st1 - 1, se_Item := Some item\<rparr>)
        in (st2, [ev]))"

subsection \<open>The handlers\<close>

definition keepPositive :: "int \<Rightarrow> int \<Rightarrow> int" where
  "keepPositive new old = (if 0 < new then new else old)"

definition anthToResHandleMessageStart ::
  "AnthropicStreamEvent \<Rightarrow> AnthropicEventToResponsesState \<Rightarrow> a2r_result" where
  "anthToResHandleMessageStart evt st =
     (let st1 =
        (case ae_Message evt of
           None \<Rightarrow> st
         | Some m \<Rightarrow>
             st\<lparr>A_ResponseID := ar_ID m,
                A_PreserveThinkingSignatures :=
                  A_PreserveThinkingSignatures st \<or> preservesThinking (ar_Model m),
                A_Model := (if A_Model st = [] then ar_Model m else A_Model st),
                A_InputTokens := keepPositive (au_InputTokens (ar_Usage m)) (A_InputTokens st),
                A_CacheReadInputTokens :=
                  keepPositive (au_CacheReadInputTokens (ar_Usage m)) (A_CacheReadInputTokens st),
                A_CacheCreationInputTokens :=
                  keepPositive (au_CacheCreationInputTokens (ar_Usage m))
                    (A_CacheCreationInputTokens st)\<rparr>) in
      if A_CreatedSent st1 then (st1, [])
      else
        let (st2, ev) = makeResponsesCreatedEvent (st1\<lparr>A_CreatedSent := True\<rparr>) in (st2, [ev]))"

definition startReasoning ::
  "(nat \<Rightarrow> gostring) \<Rightarrow> AnthropicContentBlock \<Rightarrow> AnthropicEventToResponsesState \<Rightarrow> a2r_result" where
  "startReasoning rnd block st =
     (let (st1, evs) = closeCurrentResponsesItem st;
          st2 = st1\<lparr>A_CurrentItemID := generateItemID rnd (A_Draws st1), A_Draws := Suc (A_Draws st1),
                    A_CurrentItemType := ''reasoning'', A_CurrentThinking := block,
                    A_CurrentSummary := cb_Thinking block, A_ContentIndex := 0\<rparr>;
          (st3, ev) = makeResponsesEvent st2 ''response.output_item.added''
                        (emptyEvent\<lparr>se_OutputIndex := A_OutputIndex st2,
                           se_Item := Some (emptyOutput\<lparr>ro_Type := ''reasoning'',
                                              ro_ID := A_CurrentItemID st2\<rparr>)\<rparr>)
      in (st3, evs @ [ev]))"

definition openMessage ::
  "(nat \<Rightarrow> gostring) \<Rightarrow> AnthropicEventToResponsesState \<Rightarrow> a2r_result" where
  "openMessage rnd st =
     (if A_CurrentItemType st = ''message'' then (st, [])
      else
        let (st1, evs) = closeCurrentResponsesItem st;
            st2 = st1\<lparr>A_CurrentItemID := generateItemID rnd (A_Draws st1), A_Draws := Suc (A_Draws st1),
                      A_CurrentItemType := ''message'', A_ContentIndex := 0\<rparr>;
            (st3, ev) = makeResponsesEvent st2 ''response.output_item.added''
                          (emptyEvent\<lparr>se_OutputIndex := A_OutputIndex st2,
                             se_Item := Some (emptyOutput\<lparr>ro_Type := ''message'',
                                ro_ID := A_CurrentItemID st2, ro_Role := ''assistant'',
                                ro_Status := ''in_progress''\<rparr>)\<rparr>)
        in (st3, evs @ [ev]))"

definition startText ::
  "(nat \<Rightarrow> gostring) \<Rightarrow> AnthropicEventToResponsesState \<Rightarrow> a2r_result" where
  "startText rnd st =
     (let (st1, evs) = openMessage rnd st;
          (st2, ev) = makeResponsesEvent st1 ''response.content_part.added''
                        (emptyEvent\<lparr>se_OutputIndex := A_OutputIndex st1,
                           se_ContentIndex := A_ContentIndex st1, se_ItemID := A_CurrentItemID st1,
                           se_Part := Some (textPart [])\<rparr>)
      in (st2\<lparr>A_TextAccum := []\<rparr>, evs @ [ev]))"

definition startToolUse ::
  "(nat \<Rightarrow> gostring) \<Rightarrow> AnthropicContentBlock \<Rightarrow> AnthropicEventToResponsesState \<Rightarrow> a2r_result" where
  "startToolUse rnd block st =
     (let (st1, evs) = closeCurrentResponsesItem st;
          st2 = st1\<lparr>A_CurrentItemID := generateItemID rnd (A_Draws st1), A_Draws := Suc (A_Draws st1),
                    A_CurrentItemType := ''function_call'',
                    A_CurrentCallID := toResponsesCallID (cb_ID block),
                    A_CurrentName := cb_Name block,
                    A_PendingToolInput := seedToolArguments (cb_Input block)\<rparr>;
          (st3, ev) = makeResponsesEvent st2 ''response.output_item.added''
                        (emptyEvent\<lparr>se_OutputIndex := A_OutputIndex st2,
                           se_Item := Some (emptyOutput\<lparr>ro_Type := ''function_call'',
                              ro_ID := A_CurrentItemID st2, ro_CallID := A_CurrentCallID st2,
                              ro_Name := A_CurrentName st2, ro_Status := ''in_progress''\<rparr>)\<rparr>)
      in (st3, evs @ [ev]))"

definition anthToResHandleContentBlockStart ::
  "(nat \<Rightarrow> gostring) \<Rightarrow> AnthropicStreamEvent \<Rightarrow> AnthropicEventToResponsesState \<Rightarrow> a2r_result" where
  "anthToResHandleContentBlockStart rnd evt st =
     (case ae_ContentBlock evt of
        None \<Rightarrow> (st, [])
      | Some block \<Rightarrow>
          if cb_Type block = ''thinking'' \<or> cb_Type block = ''redacted_thinking''
          then startReasoning rnd block st
          else if cb_Type block = ''text'' then startText rnd st
          else if cb_Type block = ''tool_use'' then startToolUse rnd block st
          else (st, []))"

definition functionArgumentsDelta ::
  "AnthropicEventToResponsesState \<Rightarrow> gostring \<Rightarrow> ResponsesStreamEvent" where
  "functionArgumentsDelta st d =
     emptyEvent\<lparr>se_OutputIndex := A_OutputIndex st, se_Delta := d, se_ItemID := A_CurrentItemID st,
                se_CallID := A_CurrentCallID st, se_Name := A_CurrentName st\<rparr>"

definition emitOne ::
  "AnthropicEventToResponsesState \<Rightarrow> gostring \<Rightarrow> ResponsesStreamEvent \<Rightarrow> a2r_result" where
  "emitOne st t template = (let (st1, ev) = makeResponsesEvent st t template in (st1, [ev]))"

definition anthToResHandleContentBlockDelta ::
  "AnthropicStreamEvent \<Rightarrow> AnthropicEventToResponsesState \<Rightarrow> a2r_result" where
  "anthToResHandleContentBlockDelta evt st =
     (case ae_Delta evt of
        None \<Rightarrow> (st, [])
      | Some d \<Rightarrow>
          if ad_Type d = ''text_delta'' then
            (if ad_Text d = [] then (st, [])
             else emitOne (st\<lparr>A_TextAccum := A_TextAccum st @ ad_Text d\<rparr>) ''response.output_text.delta''
                    (emptyEvent\<lparr>se_OutputIndex := A_OutputIndex st, se_ContentIndex := A_ContentIndex st,
                       se_Delta := ad_Text d, se_ItemID := A_CurrentItemID st\<rparr>))
          else if ad_Type d = ''thinking_delta'' then
            (if ad_Thinking d = [] then (st, [])
             else emitOne (st\<lparr>A_CurrentSummary := A_CurrentSummary st @ ad_Thinking d\<rparr>)
                    ''response.reasoning_summary_text.delta''
                    (emptyEvent\<lparr>se_OutputIndex := A_OutputIndex st, se_SummaryIndex := 0,
                       se_Delta := ad_Thinking d, se_ItemID := A_CurrentItemID st\<rparr>))
          else if ad_Type d = ''input_json_delta'' then
            (if ad_PartialJSON d = [] then (st, [])
             else emitOne (st\<lparr>A_PendingToolInput := [],
                              A_CurrentArgs := A_CurrentArgs st @ ad_PartialJSON d\<rparr>)
                    ''response.function_call_arguments.delta''
                    (functionArgumentsDelta st (ad_PartialJSON d)))
          else if ad_Type d = ''signature_delta'' then
            (if A_PreserveThinkingSignatures st
             then (st\<lparr>A_CurrentThinking := (A_CurrentThinking st)\<lparr>cb_Signature :=
                        cb_Signature (A_CurrentThinking st) @ ad_Signature d\<rparr>\<rparr>, [])
             else (st, []))
          else (st, []))"

definition stopReasoning :: "AnthropicEventToResponsesState \<Rightarrow> a2r_result" where
  "stopReasoning st =
     (let (st1, ev) = makeResponsesEvent st ''response.reasoning_summary_text.done''
                        (emptyEvent\<lparr>se_OutputIndex := A_OutputIndex st, se_SummaryIndex := 0,
                           se_ItemID := A_CurrentItemID st\<rparr>);
          (st2, evs) = closeCurrentResponsesItem st1
      in (st2, ev # evs))"

definition flushPendingInput :: "AnthropicEventToResponsesState \<Rightarrow> a2r_result" where
  "flushPendingInput st =
     (if A_CurrentArgs st = [] \<and> A_PendingToolInput st \<noteq> [] then
        let (st1, ev) = makeResponsesEvent (st\<lparr>A_CurrentArgs := A_PendingToolInput st\<rparr>)
                          ''response.function_call_arguments.delta''
                          (functionArgumentsDelta st (A_PendingToolInput st))
        in (st1\<lparr>A_PendingToolInput := []\<rparr>, [ev])
      else (st\<lparr>A_PendingToolInput := []\<rparr>, []))"

definition stopFunctionCall :: "AnthropicEventToResponsesState \<Rightarrow> a2r_result" where
  "stopFunctionCall st =
     (let (st1, evs1) = flushPendingInput st;
          (st2, ev) = makeResponsesEvent st1 ''response.function_call_arguments.done''
                        (emptyEvent\<lparr>se_OutputIndex := A_OutputIndex st1, se_ItemID := A_CurrentItemID st1,
                           se_CallID := A_CurrentCallID st1, se_Name := A_CurrentName st1,
                           se_Arguments := A_CurrentArgs st1\<rparr>);
          (st3, evs3) = closeCurrentResponsesItem st2
      in (st3, evs1 @ ev # evs3))"

definition stopText :: "AnthropicEventToResponsesState \<Rightarrow> a2r_result" where
  "stopText st =
     (let text = A_TextAccum st;
          contentIndex = A_ContentIndex st;
          st1 = st\<lparr>A_TextAccum := [], A_CurrentContent := A_CurrentContent st @ [textPart text],
                   A_ContentIndex := A_ContentIndex st + 1\<rparr>;
          (st2, ev1) = makeResponsesEvent st1 ''response.output_text.done''
                         (emptyEvent\<lparr>se_OutputIndex := A_OutputIndex st1, se_ContentIndex := contentIndex,
                            se_ItemID := A_CurrentItemID st1, se_Text := text\<rparr>);
          (st3, ev2) = makeResponsesEvent st2 ''response.content_part.done''
                         (emptyEvent\<lparr>se_OutputIndex := A_OutputIndex st2, se_ContentIndex := contentIndex,
                            se_ItemID := A_CurrentItemID st2, se_Part := Some (textPart text)\<rparr>)
      in (st3, [ev1, ev2]))"

definition anthToResHandleContentBlockStop ::
  "AnthropicStreamEvent \<Rightarrow> AnthropicEventToResponsesState \<Rightarrow> a2r_result" where
  "anthToResHandleContentBlockStop evt st =
     (if A_CurrentItemType st = ''reasoning'' then stopReasoning st
      else if A_CurrentItemType st = ''function_call'' then stopFunctionCall st
      else if A_CurrentItemType st = ''message'' then stopText st
      else (st, []))"

definition anthToResHandleMessageDelta ::
  "AnthropicStreamEvent \<Rightarrow> AnthropicEventToResponsesState \<Rightarrow> a2r_result" where
  "anthToResHandleMessageDelta evt st =
     (let st1 =
        (case ae_Usage evt of
           None \<Rightarrow> st
         | Some u \<Rightarrow>
             st\<lparr>A_OutputTokens := au_OutputTokens u,
                A_InputTokens := keepPositive (au_InputTokens u) (A_InputTokens st),
                A_CacheReadInputTokens :=
                  keepPositive (au_CacheReadInputTokens u) (A_CacheReadInputTokens st),
                A_CacheCreationInputTokens :=
                  keepPositive (au_CacheCreationInputTokens u) (A_CacheCreationInputTokens st)\<rparr>) in
      (case ae_Delta evt of
         None \<Rightarrow> st1
       | Some d \<Rightarrow> if ad_StopReason d \<noteq> [] then st1\<lparr>A_StopReason := ad_StopReason d\<rparr> else st1, []))"

text \<open>Closing the open item and emitting the terminal event, for both ways a stream ends.\<close>

definition terminateResponsesStream :: "AnthropicEventToResponsesState \<Rightarrow> a2r_result" where
  "terminateResponsesStream st =
     (let (st1, evs) = closeCurrentResponsesItem st;
          (status, details) = anthropicResponsesStreamTerminalState (A_StopReason st1);
          (st2, ev) = makeResponsesCompletedEvent st1 status details
      in (st2\<lparr>A_CompletedSent := True\<rparr>, evs @ [ev]))"

definition anthToResHandleMessageStop :: "AnthropicEventToResponsesState \<Rightarrow> a2r_result" where
  "anthToResHandleMessageStop st =
     (if A_CompletedSent st then (st, []) else terminateResponsesStream st)"

definition AnthropicEventToResponsesEvents ::
  "(nat \<Rightarrow> gostring) \<Rightarrow> AnthropicEventToResponsesState \<Rightarrow> AnthropicStreamEvent \<Rightarrow> a2r_result" where
  "AnthropicEventToResponsesEvents rnd st evt =
     (if ae_Type evt = ''message_start'' then anthToResHandleMessageStart evt st
      else if ae_Type evt = ''content_block_start'' then anthToResHandleContentBlockStart rnd evt st
      else if ae_Type evt = ''content_block_delta'' then anthToResHandleContentBlockDelta evt st
      else if ae_Type evt = ''content_block_stop'' then anthToResHandleContentBlockStop evt st
      else if ae_Type evt = ''message_delta'' then anthToResHandleMessageDelta evt st
      else if ae_Type evt = ''message_stop'' then anthToResHandleMessageStop st
      else (st, []))"

definition FinalizeAnthropicResponsesStream :: "AnthropicEventToResponsesState \<Rightarrow> a2r_result" where
  "FinalizeAnthropicResponsesStream st =
     (if \<not> A_CreatedSent st \<or> A_CompletedSent st then (st, []) else terminateResponsesStream st)"

end
