(* ===== verification/AnthropicStreamProofs.thy ===== *)
theory AnthropicStreamProofs
  imports AnthropicToResponses
begin

text \<open>
  What a client of the converted stream relies on, as monitors over the emitted events,
  and the proofs that every run of \<open>AnthropicEventToResponsesEvents\<close> satisfies them.
\<close>

named_theorems a2r_handlers "the definitions of the handlers and their helpers"

declare makeResponsesEvent_def [a2r_handlers] makeResponsesCreatedEvent_def [a2r_handlers]
  makeResponsesCompletedEvent_def [a2r_handlers] closeCurrentResponsesItem_def [a2r_handlers]
  resetItem_def [a2r_handlers] emitOne_def [a2r_handlers] functionArgumentsDelta_def [a2r_handlers]
  anthToResHandleMessageStart_def [a2r_handlers] startReasoning_def [a2r_handlers]
  openMessage_def [a2r_handlers] startText_def [a2r_handlers] startToolUse_def [a2r_handlers]
  anthToResHandleContentBlockStart_def [a2r_handlers]
  anthToResHandleContentBlockDelta_def [a2r_handlers] stopReasoning_def [a2r_handlers]
  flushPendingInput_def [a2r_handlers] stopFunctionCall_def [a2r_handlers] stopText_def [a2r_handlers]
  anthToResHandleContentBlockStop_def [a2r_handlers] anthToResHandleMessageDelta_def [a2r_handlers]
  terminateResponsesStream_def [a2r_handlers] anthToResHandleMessageStop_def [a2r_handlers]
  FinalizeAnthropicResponsesStream_def [a2r_handlers]
  anthropicResponsesStreamTerminalState_def [a2r_handlers]

lemma currentItem_simps [simp]:
  "ro_ID (currentItem st) = A_CurrentItemID st" "ro_Type (currentItem st) = A_CurrentItemType st"
  by (simp_all add: currentItem_def Let_def)

text \<open>
  A step of the converter is one of these handlers; a fact that each of them keeps, and
  that doing nothing keeps, is kept by the step.
\<close>

lemma a2r_step_cases:
  assumes "P (st, [])" and "P (anthToResHandleMessageStart evt st)"
    and "\<And>block. P (startReasoning rnd block st)" and "P (startText rnd st)"
    and "\<And>block. P (startToolUse rnd block st)"
    and "P (anthToResHandleContentBlockDelta evt st)"
    and "P (stopReasoning st)" and "P (stopFunctionCall st)" and "P (stopText st)"
    and "P (anthToResHandleMessageDelta evt st)" and "P (anthToResHandleMessageStop st)"
  shows "P (AnthropicEventToResponsesEvents rnd st evt)"
  using assms unfolding AnthropicEventToResponsesEvents_def
    anthToResHandleContentBlockStart_def anthToResHandleContentBlockStop_def
  by (auto split: option.split)

subsection \<open>Sequence numbers\<close>

definition numbers_ok :: "AnthropicEventToResponsesState \<Rightarrow> a2r_result \<Rightarrow> bool" where
  "numbers_ok st r \<longleftrightarrow>
     monitor_run (next_number se_SequenceNumber) (A_SequenceNumber st) (snd r) =
       Some (A_SequenceNumber (fst r))"

lemma numbers_ok_step: "numbers_ok st (AnthropicEventToResponsesEvents rnd st evt)"
  by (rule a2r_step_cases)
    (auto simp: numbers_ok_def a2r_handlers next_number_def Let_def split: option.split)

lemma numbers_ok_finalize: "numbers_ok st (FinalizeAnthropicResponsesStream st)"
  by (auto simp: numbers_ok_def a2r_handlers next_number_def Let_def split: prod.split)

interpretation a2r_seq: numbered "AnthropicEventToResponsesEvents rnd" se_SequenceNumber A_SequenceNumber
  for rnd
  using numbers_ok_step [unfolded numbers_ok_def next_number_run]
  by unfold_locales simp_all

subsection \<open>Items: opened, closed, and repeated by the terminal event\<close>

record item_client =
  k_next :: int
  k_open :: "gostring option"
  k_items :: "ResponsesOutput list"

definition is_terminal :: "ResponsesStreamEvent \<Rightarrow> bool" where
  "is_terminal ev \<longleftrightarrow> se_Type ev = ''response.completed'' \<or> se_Type ev = ''response.incomplete''"

definition item_monitor :: "item_client \<Rightarrow> ResponsesStreamEvent \<Rightarrow> item_client option" where
  "item_monitor k ev =
     (if se_Type ev = ''response.output_item.added'' then
        (case se_Item ev of
           Some it \<Rightarrow> if k_open k = None \<and> se_OutputIndex ev = k_next k
                      then Some (k\<lparr>k_open := Some (ro_ID it)\<rparr>) else None
         | None \<Rightarrow> None)
      else if se_Type ev = ''response.output_item.done'' then
        (case se_Item ev of
           Some it \<Rightarrow> if k_open k = Some (ro_ID it) \<and> se_OutputIndex ev = k_next k
                      then Some \<lparr>k_next = k_next k + 1, k_open = None, k_items = k_items k @ [it]\<rparr>
                      else None
         | None \<Rightarrow> None)
      else if is_terminal ev then
        (case se_Response ev of
           Some r \<Rightarrow> if k_open k = None \<and> rr_Output r = k_items k then Some k else None
         | None \<Rightarrow> None)
      else Some k)"

definition item_view :: "AnthropicEventToResponsesState \<Rightarrow> item_client" where
  "item_view st = \<lparr>k_next = A_OutputIndex st,
     k_open = (if A_CurrentItemType st = [] then None else Some (A_CurrentItemID st)),
     k_items = A_Outputs st\<rparr>"

definition items_ok :: "AnthropicEventToResponsesState \<Rightarrow> a2r_result \<Rightarrow> bool" where
  "items_ok st r \<longleftrightarrow> monitor_run item_monitor (item_view st) (snd r) = Some (item_view (fst r))"

lemma items_ok_step: "items_ok st (AnthropicEventToResponsesEvents rnd st evt)"
  by (rule a2r_step_cases)
    (auto simp: items_ok_def a2r_handlers item_monitor_def item_view_def is_terminal_def Let_def
      split: option.split)

lemma items_ok_finalize: "items_ok st (FinalizeAnthropicResponsesStream st)"
  by (auto simp: items_ok_def a2r_handlers item_monitor_def item_view_def is_terminal_def Let_def)

interpretation a2r_items: monitored "AnthropicEventToResponsesEvents rnd" "\<lambda>_. True" item_monitor item_view
  for rnd
  by unfold_locales (use items_ok_step [unfolded items_ok_def] in simp_all)

subsection \<open>One terminal event, one created event\<close>

definition count_events :: "(ResponsesStreamEvent \<Rightarrow> bool) \<Rightarrow> ResponsesStreamEvent list \<Rightarrow> nat" where
  "count_events p evs = length (filter p evs)"

lemma count_events_simps [simp]:
  "count_events p [] = 0" "count_events p (ev # evs) = (if p ev then 1 else 0) + count_events p evs"
  "count_events p (xs @ ys) = count_events p xs + count_events p ys"
  by (simp_all add: count_events_def)

definition is_created :: "ResponsesStreamEvent \<Rightarrow> bool" where
  "is_created ev \<longleftrightarrow> se_Type ev = ''response.created''"

definition flag :: "bool \<Rightarrow> nat" where
  "flag b = (if b then 1 else 0)"

lemma flag_le [simp]: "flag b \<le> 1"
  by (simp add: flag_def)

definition once_ok :: "AnthropicEventToResponsesState \<Rightarrow> a2r_result \<Rightarrow> bool" where
  "once_ok st r \<longleftrightarrow>
     flag (A_CompletedSent st) + count_events is_terminal (snd r) = flag (A_CompletedSent (fst r)) \<and>
     flag (A_CreatedSent st) + count_events is_created (snd r) = flag (A_CreatedSent (fst r))"

lemma once_ok_step: "once_ok st (AnthropicEventToResponsesEvents rnd st evt)"
  by (rule a2r_step_cases)
    (auto simp: once_ok_def a2r_handlers is_terminal_def is_created_def flag_def Let_def
      split: option.split)

lemma once_ok_finalize: "once_ok st (FinalizeAnthropicResponsesStream st)"
  by (auto simp: once_ok_def a2r_handlers is_terminal_def is_created_def flag_def Let_def)

lemma once_ok_run: "once_ok st (run_stream (AnthropicEventToResponsesEvents rnd) st is)"
proof (induction "is" arbitrary: st)
  case Nil
  then show ?case by (simp add: once_ok_def)
next
  case (Cons i "is")
  obtain s1 os1 where 1: "AnthropicEventToResponsesEvents rnd st i = (s1, os1)" by fastforce
  obtain s2 os2 where 2: "run_stream (AnthropicEventToResponsesEvents rnd) s1 is = (s2, os2)"
    by fastforce
  from 1 2 Cons.IH [of s1] once_ok_step [of st rnd i] show ?case
    by (simp add: once_ok_def)
qed

subsection \<open>A whole stream\<close>

text \<open>
  The stream a client sees: every upstream event converted in order from a fresh state,
  then whatever the finaliser adds when the upstream ends.
\<close>

definition converted_stream ::
  "(nat \<Rightarrow> gostring) \<Rightarrow> int \<Rightarrow> AnthropicStreamEvent list \<Rightarrow> a2r_result" where
  "converted_stream rnd now evts =
     (let (st, os) = run_stream (AnthropicEventToResponsesEvents rnd)
                       (NewAnthropicEventToResponsesState now) evts;
          (st1, os1) = FinalizeAnthropicResponsesStream st
      in (st1, os @ os1))"

lemma converted_stream_split:
  obtains st os st1 os1 where
    "run_stream (AnthropicEventToResponsesEvents rnd) (NewAnthropicEventToResponsesState now) evts = (st, os)"
    "FinalizeAnthropicResponsesStream st = (st1, os1)"
    "converted_stream rnd now evts = (st1, os @ os1)"
  unfolding converted_stream_def
  by (cases "run_stream (AnthropicEventToResponsesEvents rnd) (NewAnthropicEventToResponsesState now) evts";
      cases "FinalizeAnthropicResponsesStream (fst (run_stream (AnthropicEventToResponsesEvents rnd)
        (NewAnthropicEventToResponsesState now) evts))") simp

lemma converted_stream_items:
  "monitor_run item_monitor \<lparr>k_next = 0, k_open = None, k_items = []\<rparr> (snd (converted_stream rnd now evts)) =
     Some (item_view (fst (converted_stream rnd now evts)))"
proof (rule converted_stream_split [of rnd now evts])
  fix st os st1 os1
  assume run: "run_stream (AnthropicEventToResponsesEvents rnd)
      (NewAnthropicEventToResponsesState now) evts = (st, os)"
    and fin: "FinalizeAnthropicResponsesStream st = (st1, os1)"
    and whole: "converted_stream rnd now evts = (st1, os @ os1)"
  have "item_view (NewAnthropicEventToResponsesState now) =
      \<lparr>k_next = 0, k_open = None, k_items = []\<rparr>"
    by (simp add: item_view_def NewAnthropicEventToResponsesState_def)
  then show ?thesis
    using a2r_items.run_monitor [of "NewAnthropicEventToResponsesState now" rnd evts]
      items_ok_finalize [of st] run fin whole
    by (simp add: items_ok_def monitor_run_append)
qed

definition done_items :: "ResponsesStreamEvent list \<Rightarrow> ResponsesOutput list" where
  "done_items evs = concat (map (\<lambda>ev.
     if se_Type ev = ''response.output_item.done'' then
       (case se_Item ev of Some it \<Rightarrow> [it] | None \<Rightarrow> []) else []) evs)"

lemma item_monitor_items:
  "monitor_run item_monitor k evs = Some k' \<Longrightarrow> k_items k' = k_items k @ done_items evs"
proof (induction evs arbitrary: k)
  case Nil
  then show ?case by (simp add: done_items_def)
next
  case (Cons ev evs)
  from Cons.prems obtain k1 where k1: "item_monitor k ev = Some k1"
    and rest: "monitor_run item_monitor k1 evs = Some k'" by (auto split: option.splits)
  from k1 have "k_items k1 = k_items k @ done_items [ev]"
    by (auto simp: item_monitor_def done_items_def split: if_splits option.splits)
  with Cons.IH [OF rest] show ?case by (simp add: done_items_def)
qed

text \<open>The events of a converted stream carry consecutive sequence numbers from 0.\<close>

theorem converted_stream_numbers:
  "map se_SequenceNumber (snd (converted_stream rnd now evts)) =
     map int [0..<length (snd (converted_stream rnd now evts))]"
proof (rule converted_stream_split [of rnd now evts])
  fix st os st1 os1
  assume run: "run_stream (AnthropicEventToResponsesEvents rnd)
      (NewAnthropicEventToResponsesState now) evts = (st, os)"
    and fin: "FinalizeAnthropicResponsesStream st = (st1, os1)"
    and whole: "converted_stream rnd now evts = (st1, os @ os1)"
  have "monitor_run (next_number se_SequenceNumber) 0 (os @ os1) = Some (A_SequenceNumber st1)"
    using a2r_seq.numbers.run_monitor [of "NewAnthropicEventToResponsesState now" rnd evts]
      numbers_ok_finalize [of st] run fin
    by (simp add: numbers_ok_def monitor_run_append NewAnthropicEventToResponsesState_def)
  then show ?thesis by (simp add: whole next_number_run)
qed

text \<open>
  C19: whatever the upstream sends, the terminal event of a converted stream repeats, in
  order, exactly the items that were closed by \<open>output_item.done\<close> events before it.
\<close>

theorem terminal_repeats_closed_items:
  assumes "snd (converted_stream rnd now evts) = xs @ t # ys" and "is_terminal t"
  shows "map_option rr_Output (se_Response t) = Some (done_items xs)"
proof -
  let ?k0 = "\<lparr>k_next = 0, k_open = None, k_items = []\<rparr>"
  from converted_stream_items [of rnd now evts] assms(1)
  obtain k where k: "monitor_run item_monitor ?k0 xs = Some k" and "item_monitor k t \<noteq> None"
    by (auto simp: monitor_run_append split: option.splits)
  with assms(2) have "map_option rr_Output (se_Response t) = Some (k_items k)"
    by (auto simp: item_monitor_def is_terminal_def split: if_splits option.splits)
  with item_monitor_items [OF k] show ?thesis by simp
qed

definition demo_stream :: "AnthropicStreamEvent list" where
  "demo_stream = [anthropicEvent ''message_start'',
     (anthropicEvent ''content_block_start'')\<lparr>ae_ContentBlock :=
        Some (emptyBlock\<lparr>cb_Type := ''text''\<rparr>)\<rparr>,
     (anthropicEvent ''content_block_delta'')\<lparr>ae_Delta :=
        Some (emptyDelta\<lparr>ad_Type := ''text_delta'', ad_Text := ''hi''\<rparr>)\<rparr>,
     anthropicEvent ''content_block_stop'']"

lemma demo_stream_terminal:
  "\<exists>xs t. snd (converted_stream (\<lambda>_. ''x'') 0 demo_stream) = xs @ [t] \<and> is_terminal t"
  by (simp add: converted_stream_def demo_stream_def AnthropicEventToResponsesEvents_def a2r_handlers
      NewAnthropicEventToResponsesState_def is_terminal_def Let_def)

theorem terminal_repeats_closed_items_witness:
  "\<exists>xs t. snd (converted_stream (\<lambda>_. ''x'') 0 demo_stream) = xs @ [t] \<and>
     map_option rr_Output (se_Response t) = Some (done_items xs)"
  using demo_stream_terminal terminal_repeats_closed_items [of "\<lambda>_. ''x''" 0 demo_stream _ _ "[]"]
  by blast

lemma fresh_state_simps [simp]:
  "A_CreatedSent (NewAnthropicEventToResponsesState now) = False"
  "A_CompletedSent (NewAnthropicEventToResponsesState now) = False"
  "A_SequenceNumber (NewAnthropicEventToResponsesState now) = 0"
  "A_CurrentItemType (NewAnthropicEventToResponsesState now) = []"
  "A_CurrentContent (NewAnthropicEventToResponsesState now) = []"
  "A_CurrentArgs (NewAnthropicEventToResponsesState now) = []"
  "A_Outputs (NewAnthropicEventToResponsesState now) = []"
  "A_OutputIndex (NewAnthropicEventToResponsesState now) = 0"
  by (simp_all add: NewAnthropicEventToResponsesState_def)

lemma once_ok_converted:
  "\<exists>st. flag (A_CompletedSent st) + count_events is_terminal (snd (FinalizeAnthropicResponsesStream st))
        = count_events is_terminal (snd (converted_stream rnd now evts)) \<and>
      count_events is_created (snd (converted_stream rnd now evts)) = flag (A_CreatedSent st) \<and>
      st = fst (run_stream (AnthropicEventToResponsesEvents rnd)
                  (NewAnthropicEventToResponsesState now) evts)"
proof (rule converted_stream_split [of rnd now evts])
  fix st os st1 os1
  assume run: "run_stream (AnthropicEventToResponsesEvents rnd)
      (NewAnthropicEventToResponsesState now) evts = (st, os)"
    and fin: "FinalizeAnthropicResponsesStream st = (st1, os1)"
    and whole: "converted_stream rnd now evts = (st1, os @ os1)"
  have "A_CreatedSent st1 = A_CreatedSent st"
    using arg_cong [OF fin, of fst]
    by (auto simp: FinalizeAnthropicResponsesStream_def terminateResponsesStream_def
        closeCurrentResponsesItem_def makeResponsesCompletedEvent_def makeResponsesEvent_def
        resetItem_def Let_def split: if_splits prod.splits)
  then show ?thesis
    using once_ok_run [of "NewAnthropicEventToResponsesState now" rnd evts] once_ok_finalize [of st]
    by (intro exI [of _ st])
      (simp add: run fin whole once_ok_def flag_def)
qed

lemma created_stays:
  "A_CreatedSent st \<Longrightarrow> A_CreatedSent (fst (run_stream (AnthropicEventToResponsesEvents rnd) st is))"
  using once_ok_run [of st rnd "is"] by (auto simp: once_ok_def flag_def split: if_splits)

lemma message_start_creates:
  "ae_Type evt = ''message_start'' \<Longrightarrow> A_CreatedSent (fst (AnthropicEventToResponsesEvents rnd st evt))"
  by (auto simp: AnthropicEventToResponsesEvents_def a2r_handlers Let_def split: option.split)

lemma run_creates:
  "\<exists>evt \<in> set evts. ae_Type evt = ''message_start'' \<Longrightarrow>
   A_CreatedSent (fst (run_stream (AnthropicEventToResponsesEvents rnd) st evts))"
proof (induction evts arbitrary: st)
  case (Cons i evts)
  obtain s1 os1 where 1: "AnthropicEventToResponsesEvents rnd st i = (s1, os1)" by fastforce
  show ?case
  proof (cases "ae_Type i = ''message_start''")
    case True
    with message_start_creates [of i rnd st] 1 have "A_CreatedSent s1" by simp
    from created_stays [OF this, of rnd evts] 1 show ?thesis by (simp add: run_stream_Cons del: run_stream.simps)
  next
    case False
    with Cons.prems have "\<exists>evt \<in> set evts. ae_Type evt = ''message_start''" by auto
    from Cons.IH [OF this, of s1] 1 show ?thesis by (simp add: run_stream_Cons del: run_stream.simps)
  qed
qed simp

text \<open>
  C22: a converted stream has at most one \<open>response.created\<close> and at most one terminal
  event, and exactly one of each when the upstream started a message, even when it broke
  off without \<open>message_stop\<close>.
\<close>

theorem converted_stream_terminates_once:
  "count_events is_created (snd (converted_stream rnd now evts)) \<le> 1 \<and>
   count_events is_terminal (snd (converted_stream rnd now evts)) \<le> 1 \<and>
   ((\<exists>evt. evt \<in> set evts \<and> ae_Type evt = ''message_start'') \<longrightarrow>
      count_events is_created (snd (converted_stream rnd now evts)) = 1 \<and>
      count_events is_terminal (snd (converted_stream rnd now evts)) = 1)"
proof -
  obtain st where final: "flag (A_CompletedSent st) + count_events is_terminal (snd (FinalizeAnthropicResponsesStream st))
        = count_events is_terminal (snd (converted_stream rnd now evts))"
    and created: "count_events is_created (snd (converted_stream rnd now evts)) = flag (A_CreatedSent st)"
    and st: "st = fst (run_stream (AnthropicEventToResponsesEvents rnd)
                  (NewAnthropicEventToResponsesState now) evts)"
    using once_ok_converted [of rnd now evts] by blast
  have fin: "flag (A_CompletedSent st) + count_events is_terminal (snd (FinalizeAnthropicResponsesStream st))
      = flag (A_CompletedSent st \<or> A_CreatedSent st)"
    by (auto simp: a2r_handlers is_terminal_def flag_def Let_def)
  have "(\<exists>evt. evt \<in> set evts \<and> ae_Type evt = ''message_start'') \<longrightarrow> A_CreatedSent st"
    using run_creates [of evts rnd "NewAnthropicEventToResponsesState now"] st by blast
  with final created fin show ?thesis by (auto simp: flag_def)
qed

theorem converted_stream_terminates_once_witness:
  "count_events is_terminal (snd (converted_stream (\<lambda>_. ''x'') 0 demo_stream)) = 1"
proof -
  have "anthropicEvent ''message_start'' \<in> set demo_stream \<and>
      ae_Type (anthropicEvent ''message_start'') = ''message_start''"
    by (simp add: demo_stream_def)
  then show ?thesis
    using converted_stream_terminates_once [of "\<lambda>_. ''x''" 0 demo_stream] by blast
qed

end
