(* ===== verification/AnthropicBlocks.thy ===== *)
theory AnthropicBlocks
  imports AnthropicStreamProofs
begin

text \<open>
  What happens to the content of a well-formed upstream message: the argument text of a
  tool call, the visible text, and the items of whole responses.
\<close>

subsection \<open>Runs over the blocks of a well-formed upstream message\<close>

definition blockStart :: "AnthropicContentBlock \<Rightarrow> AnthropicStreamEvent" where
  "blockStart b = (anthropicEvent ''content_block_start'')\<lparr>ae_ContentBlock := Some b\<rparr>"

definition blockDelta :: "AnthropicDelta \<Rightarrow> AnthropicStreamEvent" where
  "blockDelta d = (anthropicEvent ''content_block_delta'')\<lparr>ae_Delta := Some d\<rparr>"

definition blockStop :: AnthropicStreamEvent where
  "blockStop = anthropicEvent ''content_block_stop''"

definition argDelta :: "gostring \<Rightarrow> AnthropicStreamEvent" where
  "argDelta s = blockDelta (emptyDelta\<lparr>ad_Type := ''input_json_delta'', ad_PartialJSON := s\<rparr>)"

definition textDelta :: "gostring \<Rightarrow> AnthropicStreamEvent" where
  "textDelta s = blockDelta (emptyDelta\<lparr>ad_Type := ''text_delta'', ad_Text := s\<rparr>)"

definition thinkingDelta :: "gostring \<Rightarrow> AnthropicStreamEvent" where
  "thinkingDelta s = blockDelta (emptyDelta\<lparr>ad_Type := ''thinking_delta'', ad_Thinking := s\<rparr>)"

lemma step_blockStart:
  "AnthropicEventToResponsesEvents rnd st (blockStart b) =
     anthToResHandleContentBlockStart rnd (blockStart b) st"
  by (simp add: AnthropicEventToResponsesEvents_def blockStart_def)

lemma step_blockDelta:
  "AnthropicEventToResponsesEvents rnd st (blockDelta d) =
     anthToResHandleContentBlockDelta (blockDelta d) st"
  by (simp add: AnthropicEventToResponsesEvents_def blockDelta_def)

lemma step_blockStop:
  "AnthropicEventToResponsesEvents rnd st blockStop = anthToResHandleContentBlockStop blockStop st"
  by (simp add: AnthropicEventToResponsesEvents_def blockStop_def)

lemmas block_steps = step_blockStart step_blockDelta step_blockStop

definition arg_deltas :: "ResponsesStreamEvent list \<Rightarrow> gostring" where
  "arg_deltas evs =
     concat (map (\<lambda>ev. if se_Type ev = ''response.function_call_arguments.delta'' then se_Delta ev else []) evs)"

definition arg_dones :: "ResponsesStreamEvent list \<Rightarrow> gostring list" where
  "arg_dones evs =
     concat (map (\<lambda>ev. if se_Type ev = ''response.function_call_arguments.done'' then [se_Arguments ev] else []) evs)"

lemma event_projections [simp]:
  "arg_deltas [] = []" "arg_deltas (xs @ ys) = arg_deltas xs @ arg_deltas ys"
  "arg_dones [] = []" "arg_dones (xs @ ys) = arg_dones xs @ arg_dones ys"
  "done_items [] = []" "done_items (xs @ ys) = done_items xs @ done_items ys"
  by (simp_all add: arg_deltas_def arg_dones_def done_items_def)

lemma event_projections_Cons:
  "arg_deltas (ev # evs) =
     (if se_Type ev = ''response.function_call_arguments.delta'' then se_Delta ev else []) @ arg_deltas evs"
  "arg_dones (ev # evs) =
     (if se_Type ev = ''response.function_call_arguments.done'' then [se_Arguments ev] else []) @ arg_dones evs"
  "done_items (ev # evs) =
     (if se_Type ev = ''response.output_item.done'' then
       (case se_Item ev of Some it \<Rightarrow> [it] | None \<Rightarrow> []) else []) @ done_items evs"
  by (simp_all add: arg_deltas_def arg_dones_def done_items_def)

lemma arg_delta_step:
  assumes "d \<noteq> []"
  obtains ev where
    "AnthropicEventToResponsesEvents rnd st (argDelta d) =
       (st\<lparr>A_PendingToolInput := [], A_CurrentArgs := A_CurrentArgs st @ d,
           A_SequenceNumber := A_SequenceNumber st + 1\<rparr>, [ev])"
    "arg_deltas [ev] = d" "arg_dones [ev] = []" "done_items [ev] = []"
proof -
  let ?ev = "(functionArgumentsDelta st d)\<lparr>se_Type := ''response.function_call_arguments.delta'',
      se_SequenceNumber := A_SequenceNumber st\<rparr>"
  have "AnthropicEventToResponsesEvents rnd st (argDelta d) =
       (st\<lparr>A_PendingToolInput := [], A_CurrentArgs := A_CurrentArgs st @ d,
           A_SequenceNumber := A_SequenceNumber st + 1\<rparr>, [?ev])"
    using assms unfolding argDelta_def step_blockDelta
    by (simp add: blockDelta_def emitOne_def anthToResHandleContentBlockDelta_def makeResponsesEvent_def)
  then show thesis
    by (rule that) (simp_all add: event_projections_Cons functionArgumentsDelta_def)
qed

lemma arg_deltas_run:
  assumes "[] \<notin> set ds"
  shows "\<exists>os. run_stream (AnthropicEventToResponsesEvents rnd) st (map argDelta ds) =
           (st\<lparr>A_PendingToolInput := (if ds = [] then A_PendingToolInput st else []),
               A_CurrentArgs := A_CurrentArgs st @ concat ds,
               A_SequenceNumber := A_SequenceNumber st + int (length ds)\<rparr>, os) \<and>
         arg_deltas os = concat ds \<and> arg_dones os = [] \<and> done_items os = []"
  using assms
proof (induction ds arbitrary: st)
  case Nil
  then show ?case by simp
next
  case (Cons d ds)
  from Cons.prems have "d \<noteq> []" and ds: "[] \<notin> set ds" by auto
  obtain ev where ev: "AnthropicEventToResponsesEvents rnd st (argDelta d) =
       (st\<lparr>A_PendingToolInput := [], A_CurrentArgs := A_CurrentArgs st @ d,
           A_SequenceNumber := A_SequenceNumber st + 1\<rparr>, [ev])"
    "arg_deltas [ev] = d" "arg_dones [ev] = []" "done_items [ev] = []"
    using arg_delta_step [OF \<open>d \<noteq> []\<close>] by blast
  show ?case
    using Cons.IH [OF ds, of "st\<lparr>A_PendingToolInput := [], A_CurrentArgs := A_CurrentArgs st @ d,
        A_SequenceNumber := A_SequenceNumber st + 1\<rparr>"] ev
      event_projections(2) [of "[ev]"] event_projections(4) [of "[ev]"] event_projections(6) [of "[ev]"]
    by (auto simp: algebra_simps)
qed

subsection \<open>Tool calls\<close>

lemma arg_projections_close [simp]:
  "arg_deltas (snd (closeCurrentResponsesItem st)) = []"
  "arg_dones (snd (closeCurrentResponsesItem st)) = []"
  by (simp_all add: closeCurrentResponsesItem_def makeResponsesEvent_def Let_def event_projections_Cons)

definition toolBlock :: "gostring \<Rightarrow> gostring \<Rightarrow> gostring \<Rightarrow> AnthropicContentBlock" where
  "toolBlock i n inp = emptyBlock\<lparr>cb_Type := ''tool_use'', cb_ID := i, cb_Name := n, cb_Input := inp\<rparr>"

definition in_call ::
  "gostring \<Rightarrow> gostring \<Rightarrow> gostring \<Rightarrow> gostring \<Rightarrow> AnthropicEventToResponsesState \<Rightarrow> bool" where
  "in_call i n args pending st \<longleftrightarrow>
     A_CurrentItemType st = ''function_call'' \<and> A_CurrentCallID st = i \<and> A_CurrentName st = n \<and>
     A_CurrentArgs st = args \<and> A_PendingToolInput st = pending"

text \<open>Between items no arguments are left over.\<close>

definition args_clean :: "AnthropicEventToResponsesState \<Rightarrow> bool" where
  "args_clean st \<longleftrightarrow> (A_CurrentItemType st = [] \<longrightarrow> A_CurrentArgs st = [])"

lemma close_clean: "args_clean st \<Longrightarrow> A_CurrentArgs (fst (closeCurrentResponsesItem st)) = []"
  by (auto simp: args_clean_def closeCurrentResponsesItem_def makeResponsesEvent_def resetItem_def Let_def)

lemma call_start:
  assumes "args_clean st"
  shows "\<exists>st' os. AnthropicEventToResponsesEvents rnd st (blockStart (toolBlock i n inp)) = (st', os) \<and>
     arg_deltas os = [] \<and> arg_dones os = [] \<and> in_call i n [] (seedToolArguments inp) st'"
proof -
  have "ae_ContentBlock (blockStart (toolBlock i n inp)) = Some (toolBlock i n inp)"
    by (simp add: blockStart_def)
  moreover have "cb_Type (toolBlock i n inp) = ''tool_use''" "cb_ID (toolBlock i n inp) = i"
    "cb_Name (toolBlock i n inp) = n" "cb_Input (toolBlock i n inp) = inp"
    by (simp_all add: toolBlock_def)
  ultimately show ?thesis
    unfolding step_blockStart
    using close_clean [OF assms]
    by (simp add: anthToResHandleContentBlockStart_def startToolUse_def split_def Let_def
        makeResponsesEvent_def event_projections_Cons in_call_def toResponsesCallID_def)
qed

lemma call_stop:
  assumes "in_call i n args pending st"
  defines "final \<equiv> if args = [] then pending else args"
  shows "\<exists>st' os it. AnthropicEventToResponsesEvents rnd st blockStop = (st', os) \<and>
     arg_deltas os = (if args = [] then pending else []) \<and> arg_dones os = [final] \<and>
     done_items os = [it] \<and> ro_Type it = ''function_call'' \<and> ro_CallID it = i \<and> ro_Name it = n \<and>
     ro_Arguments it = (if final = [] then ''{}'' else final)"
  using assms(1)
  by (auto simp: step_blockStop in_call_def final_def anthToResHandleContentBlockStop_def
      stopFunctionCall_def flushPendingInput_def closeCurrentResponsesItem_def makeResponsesEvent_def
      functionArgumentsDelta_def currentItem_def resetItem_def event_projections_Cons Let_def)

definition call_events :: "AnthropicContentBlock \<Rightarrow> gostring list \<Rightarrow> AnthropicStreamEvent list" where
  "call_events b ds = blockStart b # map argDelta ds @ [blockStop]"

text \<open>
  C21: a tool call of the upstream, in whatever clean state it begins: the argument deltas,
  the \<open>arguments.done\<close> event and the closed item agree, and carry the streamed fragments
  or, when none came, the input of the block's start event; an empty input becomes \<open>{}\<close> in
  the item.
\<close>

theorem tool_arguments_reconciled:
  assumes "args_clean st" and "[] \<notin> set ds"
  shows "\<exists>st' os it. run_stream (AnthropicEventToResponsesEvents rnd) st
           (call_events (toolBlock i n inp) ds) = (st', os) \<and>
     arg_deltas os = (if ds = [] then seedToolArguments inp else concat ds) \<and>
     arg_dones os = [arg_deltas os] \<and>
     it \<in> set (done_items os) \<and> ro_CallID it = i \<and> ro_Name it = n \<and>
     ro_Arguments it = (if arg_deltas os = [] then ''{}'' else arg_deltas os)"
proof -
  obtain st1 os1 where 1: "AnthropicEventToResponsesEvents rnd st (blockStart (toolBlock i n inp)) = (st1, os1)"
    "arg_deltas os1 = []" "arg_dones os1 = []" "in_call i n [] (seedToolArguments inp) st1"
    using call_start [OF assms(1)] by blast
  obtain st2 os2 where 2: "run_stream (AnthropicEventToResponsesEvents rnd) st1 (map argDelta ds) = (st2, os2)"
    "arg_deltas os2 = concat ds" "arg_dones os2 = []"
    "in_call i n (concat ds) (if ds = [] then seedToolArguments inp else []) st2"
    using arg_deltas_run [OF assms(2), of rnd st1] 1(4) by (auto simp: in_call_def)
  have "concat ds = [] \<longleftrightarrow> ds = []" using assms(2) by (cases ds) auto
  with call_stop [OF 2(4), of rnd] obtain st3 os3 it where 3:
    "AnthropicEventToResponsesEvents rnd st2 blockStop = (st3, os3)"
    "arg_deltas os3 = (if ds = [] then seedToolArguments inp else [])"
    "arg_dones os3 = [if ds = [] then seedToolArguments inp else concat ds]"
    "done_items os3 = [it]" "ro_CallID it = i" "ro_Name it = n"
    "ro_Arguments it = (if (if ds = [] then seedToolArguments inp else concat ds) = [] then ''{}''
       else if ds = [] then seedToolArguments inp else concat ds)"
    by (auto split: if_splits)
  from 1(1) 2(1) 3(1) have "run_stream (AnthropicEventToResponsesEvents rnd) st
      (call_events (toolBlock i n inp) ds) = (st3, os1 @ os2 @ os3)"
    by (simp add: call_events_def run_stream_append)
  then show ?thesis
    using 1 2 3 by (intro exI [of _ st3] exI [of _ "os1 @ os2 @ os3"] exI [of _ it]) auto
qed

theorem tool_arguments_reconciled_witness:
  "\<exists>st' os it. run_stream (AnthropicEventToResponsesEvents (\<lambda>_. ''x''))
       (NewAnthropicEventToResponsesState 0)
       (call_events (toolBlock ''toolu_1'' ''f'' ''{}'') [''[1'', '',2]'']) = (st', os) \<and>
     arg_deltas os = ''[1,2]'' \<and> it \<in> set (done_items os) \<and> ro_Arguments it = ''[1,2]''"
  using tool_arguments_reconciled [of "NewAnthropicEventToResponsesState 0" "[''[1'', '',2]'']"
      "\<lambda>_. ''x''" "''toolu_1''" "''f''" "''{}''"]
  by (auto simp: args_clean_def NewAnthropicEventToResponsesState_def)

end
