(* ===== verification/ResponsesToAnthropic.thy ===== *)
theory ResponsesToAnthropic
  imports CompatTypes JsonText StreamRun AnthropicToResponses
begin

text \<open>
  The converter from OpenAI Responses responses to Anthropic Messages responses,
  \<open>pkg/apicompat/responses_to_anthropic.go\<close>: the whole-response function, the removal
  of an empty \<open>pages\<close> argument from \<open>Read\<close> calls, and the stateful conversion of an event
  stream with its finaliser. \<open>time.Now().Unix()\<close> is the parameter \<open>now\<close>.
\<close>

subsection \<open>Whole responses\<close>

definition anthropicUsageFromResponsesUsage :: "ResponsesUsage option \<Rightarrow> AnthropicUsage" where
  "anthropicUsageFromResponsesUsage usage =
     (case usage of
        None \<Rightarrow> emptyAnthropicUsage
      | Some u \<Rightarrow>
          (let cachedTokens = (case ru_InputTokensDetails u of
                                 None \<Rightarrow> 0 | Some d \<Rightarrow> itd_CachedTokens d);
               inputTokens = wrap64 (wrap64 (ru_InputTokens u - cachedTokens)
                                     - ru_CacheCreationInputTokens u) in
           emptyAnthropicUsage\<lparr>au_InputTokens := (if inputTokens < 0 then 0 else inputTokens),
             au_OutputTokens := ru_OutputTokens u,
             au_CacheReadInputTokens := cachedTokens,
             au_CacheCreationInputTokens := ru_CacheCreationInputTokens u\<rparr>))"

definition containsAnthropicToolUseBlock :: "AnthropicContentBlock list \<Rightarrow> bool" where
  "containsAnthropicToolUseBlock blocks = list_ex (\<lambda>b. cb_Type b = ''tool_use'') blocks"

definition responsesStatusToAnthropicStopReason ::
  "gostring \<Rightarrow> ResponsesIncompleteDetails option \<Rightarrow> AnthropicContentBlock list \<Rightarrow> gostring" where
  "responsesStatusToAnthropicStopReason status details blocks =
     (if status = ''incomplete'' then
        (case details of
           Some d \<Rightarrow> if id_Reason d = ''max_output_tokens'' then ''max_tokens'' else ''end_turn''
         | None \<Rightarrow> ''end_turn'')
      else if status = ''completed'' then
        (if containsAnthropicToolUseBlock blocks then ''tool_use'' else ''end_turn'')
      else ''end_turn'')"

definition sanitizeAnthropicToolUseInput :: "gostring \<Rightarrow> gostring \<Rightarrow> gostring" where
  "sanitizeAnthropicToolUseInput name raw =
     (if name \<noteq> ''Read'' \<or> raw = [] then raw
      else
        (case unmarshal_object raw of
           None \<Rightarrow> raw
         | Some input \<Rightarrow>
             if map_get input ''pages'' \<noteq> Some [dquote, dquote] then raw
             else marshal_object (map_del ''pages'' input)))"

text \<open>\<open>json.Marshal(map[string]string{"query": query})\<close>\<close>

definition webSearchInput :: "ResponsesOutput \<Rightarrow> gostring" where
  "webSearchInput item =
     CHR ''{'' # json_field ''query''
       (case ro_Action item of None \<Rightarrow> [] | Some a \<Rightarrow> ws_Query a) @ ''}''"

definition webSearchBlocks :: "ResponsesOutput \<Rightarrow> AnthropicContentBlock list" where
  "webSearchBlocks item =
     (let toolUseID = ''srvtoolu_'' @ ro_ID item in
      [emptyBlock\<lparr>cb_Type := ''server_tool_use'', cb_ID := toolUseID, cb_Name := ''web_search'',
         cb_Input := webSearchInput item\<rparr>,
       emptyBlock\<lparr>cb_Type := ''web_search_tool_result'', cb_ToolUseID := toolUseID,
         cb_Content := ''[]''\<rparr>])"

definition summaryTextOf :: "ResponsesSummary list \<Rightarrow> gostring" where
  "summaryTextOf ss =
     concat (map (\<lambda>s. if rs_Type s = ''summary_text'' \<and> rs_Text s \<noteq> [] then rs_Text s else []) ss)"

definition itemBlocks :: "ResponsesOutput \<Rightarrow> AnthropicContentBlock list" where
  "itemBlocks item =
     (if ro_Type item = ''reasoning'' then
        (if summaryTextOf (ro_Summary item) \<noteq> [] \<or> trim_space (ro_EncryptedContent item) \<noteq> []
         then [emptyBlock\<lparr>cb_Type := ''thinking'', cb_Thinking := summaryTextOf (ro_Summary item),
                 cb_Signature := ro_EncryptedContent item\<rparr>]
         else [])
      else if ro_Type item = ''message'' then
        map (\<lambda>part. emptyBlock\<lparr>cb_Type := ''text'', cb_Text := cp_Text part\<rparr>)
          (filter (\<lambda>part. cp_Type part = ''output_text'' \<and> cp_Text part \<noteq> []) (ro_Content item))
      else if ro_Type item = ''function_call'' then
        [emptyBlock\<lparr>cb_Type := ''tool_use'', cb_ID := fromResponsesCallID (ro_CallID item),
           cb_Name := ro_Name item,
           cb_Input := sanitizeAnthropicToolUseInput (ro_Name item) (ro_Arguments item)\<rparr>]
      else if ro_Type item = ''web_search_call'' then webSearchBlocks item
      else [])"

definition ResponsesToAnthropic :: "ResponsesResponse \<Rightarrow> gostring \<Rightarrow> AnthropicResponse" where
  "ResponsesToAnthropic resp model =
     (let blocks0 = concat (map itemBlocks (rr_Output resp));
          blocks = (if blocks0 = [] then [emptyBlock\<lparr>cb_Type := ''text'', cb_Text := []\<rparr>]
                    else blocks0) in
      \<lparr>ar_ID = rr_ID resp, ar_Type = ''message'', ar_Role = ''assistant'', ar_Content = blocks,
       ar_Model = model,
       ar_StopReason = AnthropicStopReasonPtr
         (responsesStatusToAnthropicStopReason (rr_Status resp) (rr_IncompleteDetails resp) blocks),
       ar_StopSequence = None,
       ar_Usage = anthropicUsageFromResponsesUsage (rr_Usage resp)\<rparr>)"

subsection \<open>The state of the stream conversion\<close>

text \<open>A part of the response text: its output index and its content index.\<close>

type_synonym responsesTextPart = "int \<times> int"

record ResponsesEventToAnthropicState =
  R_MessageStartSent :: bool
  R_MessageStopSent :: bool
  R_ContentBlockIndex :: int
  R_ContentBlockOpen :: bool
  R_CurrentBlockType :: gostring
  R_CurrentToolName :: gostring
  R_CurrentToolArgs :: gostring
  R_CurrentToolHadDelta :: bool
  R_PendingThinkingSignature :: gostring
  R_HasToolCall :: bool
  R_OutputIndexToBlockIdx :: "(int, int) gomap"
  R_textByPart :: "(responsesTextPart, gostring) gomap"
  R_textDelivered :: bool
  R_InputTokens :: int
  R_OutputTokens :: int
  R_CacheReadInputTokens :: int
  R_CacheCreationInputTokens :: int
  R_ResponseID :: gostring
  R_Model :: gostring
  R_Created :: int

type_synonym r2a_result = "ResponsesEventToAnthropicState \<times> AnthropicStreamEvent list"

definition NewResponsesEventToAnthropicState :: "int \<Rightarrow> ResponsesEventToAnthropicState" where
  "NewResponsesEventToAnthropicState now =
     \<lparr>R_MessageStartSent = False, R_MessageStopSent = False, R_ContentBlockIndex = 0,
      R_ContentBlockOpen = False, R_CurrentBlockType = [], R_CurrentToolName = [],
      R_CurrentToolArgs = [], R_CurrentToolHadDelta = False, R_PendingThinkingSignature = [],
      R_HasToolCall = False, R_OutputIndexToBlockIdx = [], R_textByPart = [],
      R_textDelivered = False, R_InputTokens = 0, R_OutputTokens = 0,
      R_CacheReadInputTokens = 0, R_CacheCreationInputTokens = 0, R_ResponseID = [],
      R_Model = [], R_Created = now\<rparr>"

subsection \<open>Events\<close>

definition blockStartEvent :: "int \<Rightarrow> AnthropicContentBlock \<Rightarrow> AnthropicStreamEvent" where
  "blockStartEvent idx b =
     (anthropicEvent ''content_block_start'')\<lparr>ae_Index := Some idx, ae_ContentBlock := Some b\<rparr>"

definition blockDeltaEvent :: "int \<Rightarrow> AnthropicDelta \<Rightarrow> AnthropicStreamEvent" where
  "blockDeltaEvent idx d =
     (anthropicEvent ''content_block_delta'')\<lparr>ae_Index := Some idx, ae_Delta := Some d\<rparr>"

definition blockStopEvent :: "int \<Rightarrow> AnthropicStreamEvent" where
  "blockStopEvent idx = (anthropicEvent ''content_block_stop'')\<lparr>ae_Index := Some idx\<rparr>"

definition inputJSONDelta :: "gostring \<Rightarrow> AnthropicDelta" where
  "inputJSONDelta s = emptyDelta\<lparr>ad_Type := ''input_json_delta'', ad_PartialJSON := s\<rparr>"

text \<open>The \<open>message_delta\<close> and \<open>message_stop\<close> events that end a message.\<close>

definition messageEndEvents ::
  "ResponsesEventToAnthropicState \<Rightarrow> gostring \<Rightarrow> AnthropicStreamEvent list" where
  "messageEndEvents st stopReason =
     [(anthropicEvent ''message_delta'')\<lparr>
        ae_Delta := Some (emptyDelta\<lparr>ad_StopReason := stopReason\<rparr>),
        ae_Usage := Some (emptyAnthropicUsage\<lparr>au_InputTokens := R_InputTokens st,
          au_OutputTokens := R_OutputTokens st,
          au_CacheReadInputTokens := R_CacheReadInputTokens st,
          au_CacheCreationInputTokens := R_CacheCreationInputTokens st\<rparr>)\<rparr>,
      anthropicEvent ''message_stop'']"

subsection \<open>The handlers\<close>

definition closeCurrentBlock :: "ResponsesEventToAnthropicState \<Rightarrow> r2a_result" where
  "closeCurrentBlock st =
     (if \<not> R_ContentBlockOpen st then (st, [])
      else
        let idx = R_ContentBlockIndex st;
            sig = trim_space (R_PendingThinkingSignature st);
            thinking = R_CurrentBlockType st = ''thinking'';
            evs = (if thinking \<and> sig \<noteq> []
                   then [blockDeltaEvent idx
                           (emptyDelta\<lparr>ad_Type := ''signature_delta'', ad_Signature := sig\<rparr>)]
                   else []);
            st1 = (if thinking then st\<lparr>R_PendingThinkingSignature := []\<rparr> else st)
        in (st1\<lparr>R_ContentBlockOpen := False, R_ContentBlockIndex := idx + 1,
                R_CurrentToolName := [], R_CurrentToolArgs := [],
                R_CurrentToolHadDelta := False\<rparr>,
            evs @ [blockStopEvent idx]))"

definition resToAnthHandleBlockDone :: "ResponsesEventToAnthropicState \<Rightarrow> r2a_result" where
  "resToAnthHandleBlockDone st =
     (if \<not> R_ContentBlockOpen st then (st, []) else closeCurrentBlock st)"

definition resToAnthHandleCreated ::
  "ResponsesStreamEvent \<Rightarrow> ResponsesEventToAnthropicState \<Rightarrow> r2a_result" where
  "resToAnthHandleCreated evt st =
     (let st1 =
        (case se_Response evt of
           None \<Rightarrow> st
         | Some r \<Rightarrow> st\<lparr>R_ResponseID := rr_ID r,
                       R_Model := (if R_Model st = [] then rr_Model r else R_Model st)\<rparr>) in
      if R_MessageStartSent st1 then (st1, [])
      else
        (st1\<lparr>R_MessageStartSent := True\<rparr>,
         [(anthropicEvent ''message_start'')\<lparr>ae_Message := Some
            \<lparr>ar_ID = R_ResponseID st1, ar_Type = ''message'', ar_Role = ''assistant'',
             ar_Content = [], ar_Model = R_Model st1, ar_StopReason = None,
             ar_StopSequence = None, ar_Usage = emptyAnthropicUsage\<rparr>\<rparr>]))"

definition startToolBlock ::
  "ResponsesStreamEvent \<Rightarrow> ResponsesOutput \<Rightarrow> ResponsesEventToAnthropicState \<Rightarrow> r2a_result" where
  "startToolBlock evt item st =
     (let (st1, evs) = closeCurrentBlock st;
          idx = R_ContentBlockIndex st1
      in (st1\<lparr>R_OutputIndexToBlockIdx := map_put (se_OutputIndex evt) idx (R_OutputIndexToBlockIdx st1),
              R_ContentBlockOpen := True, R_CurrentBlockType := ''tool_use'',
              R_CurrentToolName := ro_Name item, R_CurrentToolArgs := [],
              R_CurrentToolHadDelta := False, R_HasToolCall := True\<rparr>,
          evs @ [blockStartEvent idx (emptyBlock\<lparr>cb_Type := ''tool_use'',
                   cb_ID := fromResponsesCallID (ro_CallID item), cb_Name := ro_Name item,
                   cb_Input := ''{}''\<rparr>)]))"

definition startThinkingBlock ::
  "ResponsesStreamEvent \<Rightarrow> ResponsesOutput \<Rightarrow> ResponsesEventToAnthropicState \<Rightarrow> r2a_result" where
  "startThinkingBlock evt item st =
     (let (st1, evs) = closeCurrentBlock st;
          idx = R_ContentBlockIndex st1
      in (st1\<lparr>R_OutputIndexToBlockIdx := map_put (se_OutputIndex evt) idx (R_OutputIndexToBlockIdx st1),
              R_ContentBlockOpen := True, R_CurrentBlockType := ''thinking'',
              R_PendingThinkingSignature := trim_space (ro_EncryptedContent item)\<rparr>,
          evs @ [blockStartEvent idx (emptyBlock\<lparr>cb_Type := ''thinking''\<rparr>)]))"

definition resToAnthHandleOutputItemAdded ::
  "ResponsesStreamEvent \<Rightarrow> ResponsesEventToAnthropicState \<Rightarrow> r2a_result" where
  "resToAnthHandleOutputItemAdded evt st =
     (case se_Item evt of
        None \<Rightarrow> (st, [])
      | Some item \<Rightarrow>
          if ro_Type item = ''function_call'' \<or> ro_Type item = ''custom_tool_call''
          then startToolBlock evt item st
          else if ro_Type item = ''reasoning'' then startThinkingBlock evt item st
          else (st, []))"

definition resToAnthTextPartOf :: "ResponsesStreamEvent \<Rightarrow> responsesTextPart" where
  "resToAnthTextPartOf evt = (se_OutputIndex evt, se_ContentIndex evt)"

definition openTextBlock :: "ResponsesEventToAnthropicState \<Rightarrow> r2a_result" where
  "openTextBlock st =
     (if \<not> R_ContentBlockOpen st \<or> R_CurrentBlockType st \<noteq> ''text'' then
        let (st1, evs) = closeCurrentBlock st
        in (st1\<lparr>R_ContentBlockOpen := True, R_CurrentBlockType := ''text''\<rparr>,
            evs @ [blockStartEvent (R_ContentBlockIndex st1) (emptyBlock\<lparr>cb_Type := ''text''\<rparr>)])
      else (st, []))"

definition delivered :: "ResponsesEventToAnthropicState \<Rightarrow> responsesTextPart \<Rightarrow> gostring" where
  "delivered st part = (case map_get (R_textByPart st) part of None \<Rightarrow> [] | Some s \<Rightarrow> s)"

definition resToAnthEmitText ::
  "gostring \<Rightarrow> responsesTextPart \<Rightarrow> ResponsesEventToAnthropicState \<Rightarrow> r2a_result" where
  "resToAnthEmitText text part st =
     (if text = [] then (st, [])
      else
        let (st1, evs) = openTextBlock st
        in (st1\<lparr>R_textByPart := map_put part (delivered st1 part @ text) (R_textByPart st1),
                R_textDelivered := True\<rparr>,
            evs @ [blockDeltaEvent (R_ContentBlockIndex st1)
                     (emptyDelta\<lparr>ad_Type := ''text_delta'', ad_Text := text\<rparr>)]))"

definition resToAnthHandleTextDelta ::
  "ResponsesStreamEvent \<Rightarrow> ResponsesEventToAnthropicState \<Rightarrow> r2a_result" where
  "resToAnthHandleTextDelta evt st = resToAnthEmitText (se_Delta evt) (resToAnthTextPartOf evt) st"

definition resToAnthRecoverText ::
  "gostring \<Rightarrow> responsesTextPart \<Rightarrow> ResponsesEventToAnthropicState \<Rightarrow> r2a_result" where
  "resToAnthRecoverText text part st =
     (let known = map_get (R_textByPart st) part \<noteq> None in
      if \<not> known \<and> R_textDelivered st then (st, [])
      else if text = delivered st part \<or> \<not> has_prefix text (delivered st part) then (st, [])
      else resToAnthEmitText (drop (length (delivered st part)) text) part st)"

definition resToAnthHandleTextDone ::
  "ResponsesStreamEvent \<Rightarrow> ResponsesEventToAnthropicState \<Rightarrow> r2a_result" where
  "resToAnthHandleTextDone evt st =
     (if R_MessageStopSent st then resToAnthHandleBlockDone st
      else
        let (st1, evs1) = resToAnthRecoverText (se_Text evt) (resToAnthTextPartOf evt) st;
            (st2, evs2) = resToAnthHandleBlockDone st1
        in (st2, evs1 @ evs2))"

definition emitReadArgs ::
  "ResponsesStreamEvent \<Rightarrow> ResponsesEventToAnthropicState \<Rightarrow> r2a_result" where
  "emitReadArgs evt st =
     (let st1 = st\<lparr>R_CurrentToolArgs := R_CurrentToolArgs st @ se_Delta evt\<rparr> in
      if R_CurrentToolHadDelta st1 \<or> \<not> json_valid (R_CurrentToolArgs st1) then (st1, [])
      else
        (case map_get (R_OutputIndexToBlockIdx st1) (se_OutputIndex evt) of
           None \<Rightarrow> (st1, [])
         | Some blockIdx \<Rightarrow>
             (st1\<lparr>R_CurrentToolHadDelta := True\<rparr>,
              [blockDeltaEvent blockIdx (inputJSONDelta
                 (sanitizeAnthropicToolUseInput (R_CurrentToolName st1) (R_CurrentToolArgs st1)))])))"

definition resToAnthHandleFuncArgsDelta ::
  "ResponsesStreamEvent \<Rightarrow> ResponsesEventToAnthropicState \<Rightarrow> r2a_result" where
  "resToAnthHandleFuncArgsDelta evt st =
     (if se_Delta evt = [] then (st, [])
      else if R_CurrentBlockType st = ''tool_use'' \<and> R_CurrentToolName st = ''Read''
      then emitReadArgs evt st
      else
        let st1 = (if R_CurrentBlockType st = ''tool_use''
                   then st\<lparr>R_CurrentToolHadDelta := True\<rparr> else st) in
        (case map_get (R_OutputIndexToBlockIdx st1) (se_OutputIndex evt) of
           None \<Rightarrow> (st1, [])
         | Some blockIdx \<Rightarrow> (st1, [blockDeltaEvent blockIdx (inputJSONDelta (se_Delta evt))])))"

text \<open>The arguments of a \<open>done\<close> event for a block without deltas, and the end of the block.\<close>

definition emitDoneArgs ::
  "ResponsesStreamEvent \<Rightarrow> gostring \<Rightarrow> ResponsesEventToAnthropicState \<Rightarrow> r2a_result" where
  "emitDoneArgs evt raw st =
     (let blockIdx = (case map_get (R_OutputIndexToBlockIdx st) (se_OutputIndex evt) of
                        None \<Rightarrow> R_ContentBlockIndex st | Some i \<Rightarrow> i) in
      if \<not> R_ContentBlockOpen st \<or> blockIdx \<noteq> R_ContentBlockIndex st then (st, [])
      else
        let (st1, evs) = closeCurrentBlock st
        in (st1, blockDeltaEvent blockIdx (inputJSONDelta raw) # evs))"

definition resToAnthHandleFuncArgsDone ::
  "ResponsesStreamEvent \<Rightarrow> ResponsesEventToAnthropicState \<Rightarrow> r2a_result" where
  "resToAnthHandleFuncArgsDone evt st =
     (if \<not> R_ContentBlockOpen st then (st, [])
      else if R_CurrentBlockType st \<noteq> ''tool_use'' then resToAnthHandleBlockDone st
      else
        let raw = (if se_Arguments evt = [] then R_CurrentToolArgs st else se_Arguments evt) in
        if raw = [] \<or> R_CurrentToolHadDelta st then closeCurrentBlock st
        else if R_CurrentToolName st = ''Read'' then
          (let sanitized = sanitizeAnthropicToolUseInput (R_CurrentToolName st) raw in
           if sanitized = [] then closeCurrentBlock st else emitDoneArgs evt sanitized st)
        else emitDoneArgs evt raw st)"

definition resToAnthHandleReasoningDelta ::
  "ResponsesStreamEvent \<Rightarrow> ResponsesEventToAnthropicState \<Rightarrow> r2a_result" where
  "resToAnthHandleReasoningDelta evt st =
     (if se_Delta evt = [] then (st, [])
      else
        (case map_get (R_OutputIndexToBlockIdx st) (se_OutputIndex evt) of
           None \<Rightarrow> (st, [])
         | Some blockIdx \<Rightarrow>
             (st, [blockDeltaEvent blockIdx
                     (emptyDelta\<lparr>ad_Type := ''thinking_delta'', ad_Thinking := se_Delta evt\<rparr>)])))"

definition resToAnthHandleWebSearchDone ::
  "ResponsesOutput \<Rightarrow> ResponsesEventToAnthropicState \<Rightarrow> r2a_result" where
  "resToAnthHandleWebSearchDone item st =
     (let (st1, evs) = closeCurrentBlock st;
          idx1 = R_ContentBlockIndex st1;
          blocks = webSearchBlocks item
      in (st1\<lparr>R_ContentBlockIndex := idx1 + 1 + 1\<rparr>,
          evs @ [blockStartEvent idx1 (blocks ! 0), blockStopEvent idx1,
                 blockStartEvent (idx1 + 1) (blocks ! 1), blockStopEvent (idx1 + 1)]))"

definition resToAnthHandleOutputItemDone ::
  "ResponsesStreamEvent \<Rightarrow> ResponsesEventToAnthropicState \<Rightarrow> r2a_result" where
  "resToAnthHandleOutputItemDone evt st =
     (case se_Item evt of
        None \<Rightarrow> (st, [])
      | Some item \<Rightarrow>
          if ro_Type item = ''web_search_call'' \<and> ro_Status item = ''completed''
          then resToAnthHandleWebSearchDone item st
          else
            let sig = trim_space (ro_EncryptedContent item);
                st1 = (if ro_Type item = ''reasoning'' \<and> sig \<noteq> []
                       then st\<lparr>R_PendingThinkingSignature := sig\<rparr> else st)
            in if R_ContentBlockOpen st1 then closeCurrentBlock st1 else (st1, []))"

text \<open>The text parts of a terminal payload, in order, with their indices.\<close>

definition terminalTextParts ::
  "ResponsesOutput list \<Rightarrow> (responsesTextPart \<times> gostring) list" where
  "terminalTextParts outputs =
     concat (map (\<lambda>(outputIndex, item).
       if ro_Type item \<noteq> ''message'' then []
       else concat (map (\<lambda>(contentIndex, content).
              if cp_Type content \<noteq> ''output_text'' then []
              else [((int outputIndex, int contentIndex), cp_Text content)])
            (enumerate 0 (ro_Content item))))
     (enumerate 0 outputs))"

fun emitParts ::
  "(responsesTextPart \<times> gostring) list \<Rightarrow> ResponsesEventToAnthropicState \<Rightarrow> r2a_result" where
  "emitParts [] st = (st, [])"
| "emitParts ((part, text) # rest) st =
     (let (st1, evs1) = resToAnthEmitText text part st;
          (st2, evs2) = emitParts rest st1
      in (st2, evs1 @ evs2))"

definition resToAnthRecoverTerminalText ::
  "ResponsesStreamEvent \<Rightarrow> ResponsesEventToAnthropicState \<Rightarrow> r2a_result" where
  "resToAnthRecoverTerminalText evt st =
     (case se_Response evt of
        None \<Rightarrow> (st, [])
      | Some r \<Rightarrow>
          if R_textDelivered st then (st, [])
          else
            let (st1, evs) = emitParts (terminalTextParts (rr_Output r)) st in
            if evs \<noteq> [] then (let (st2, evs2) = closeCurrentBlock st1 in (st2, evs @ evs2))
            else (st1, evs))"

definition storeUsage ::
  "ResponsesUsage option \<Rightarrow> ResponsesEventToAnthropicState \<Rightarrow> ResponsesEventToAnthropicState" where
  "storeUsage u st =
     (case u of
        None \<Rightarrow> st
      | Some _ \<Rightarrow>
          (let usage = anthropicUsageFromResponsesUsage u in
           st\<lparr>R_InputTokens := au_InputTokens usage, R_OutputTokens := au_OutputTokens usage,
              R_CacheReadInputTokens := au_CacheReadInputTokens usage,
              R_CacheCreationInputTokens := au_CacheCreationInputTokens usage\<rparr>))"

definition completedStopReason ::
  "ResponsesStreamEvent \<Rightarrow> ResponsesEventToAnthropicState \<Rightarrow> gostring" where
  "completedStopReason evt st =
     (case se_Response evt of
        None \<Rightarrow> ''end_turn''
      | Some r \<Rightarrow>
          if rr_Status r = ''incomplete'' then
            (case rr_IncompleteDetails r of
               Some d \<Rightarrow> if id_Reason d = ''max_output_tokens'' then ''max_tokens'' else ''end_turn''
             | None \<Rightarrow> ''end_turn'')
          else if rr_Status r = ''completed'' \<and> R_HasToolCall st then ''tool_use''
          else ''end_turn'')"

definition resToAnthHandleCompleted ::
  "ResponsesStreamEvent \<Rightarrow> ResponsesEventToAnthropicState \<Rightarrow> r2a_result" where
  "resToAnthHandleCompleted evt st =
     (if R_MessageStopSent st then (st, [])
      else
        let (st1, evs1) = closeCurrentBlock st;
            (st2, evs2) = resToAnthRecoverTerminalText evt st1;
            st3 = storeUsage (se_Usage evt) st2;
            st4 = storeUsage (case se_Response evt of None \<Rightarrow> None | Some r \<Rightarrow> rr_Usage r) st3
        in (st4\<lparr>R_MessageStopSent := True\<rparr>,
            evs1 @ evs2 @ messageEndEvents st4 (completedStopReason evt st4)))"

definition ResponsesEventToAnthropicEvents ::
  "ResponsesEventToAnthropicState \<Rightarrow> ResponsesStreamEvent \<Rightarrow> r2a_result" where
  "ResponsesEventToAnthropicEvents st evt =
     (if se_Type evt = ''response.created'' then resToAnthHandleCreated evt st
      else if se_Type evt = ''response.output_item.added'' then resToAnthHandleOutputItemAdded evt st
      else if se_Type evt = ''response.output_text.delta'' then resToAnthHandleTextDelta evt st
      else if se_Type evt = ''response.output_text.done'' then resToAnthHandleTextDone evt st
      else if se_Type evt = ''response.function_call_arguments.delta'' \<or>
              se_Type evt = ''response.custom_tool_call_input.delta''
      then resToAnthHandleFuncArgsDelta evt st
      else if se_Type evt = ''response.function_call_arguments.done''
      then resToAnthHandleFuncArgsDone evt st
      else if se_Type evt = ''response.output_item.done'' then resToAnthHandleOutputItemDone evt st
      else if se_Type evt = ''response.reasoning_summary_text.delta'' \<or>
              se_Type evt = ''response.reasoning_text.delta''
      then resToAnthHandleReasoningDelta evt st
      else if se_Type evt = ''response.reasoning_summary_text.done'' then (st, [])
      else if se_Type evt = ''response.completed'' \<or> se_Type evt = ''response.done'' \<or>
              se_Type evt = ''response.incomplete'' \<or> se_Type evt = ''response.failed''
      then resToAnthHandleCompleted evt st
      else (st, []))"

definition FinalizeResponsesAnthropicStream :: "ResponsesEventToAnthropicState \<Rightarrow> r2a_result" where
  "FinalizeResponsesAnthropicStream st =
     (if \<not> R_MessageStartSent st \<or> R_MessageStopSent st then (st, [])
      else
        let (st1, evs) = closeCurrentBlock st
        in (st1\<lparr>R_MessageStopSent := True\<rparr>,
            evs @ messageEndEvents st1 (if R_HasToolCall st1 then ''tool_use'' else ''end_turn'')))"

end
