(* ===== verification/ResponsesStreamProofs.thy ===== *)
theory ResponsesStreamProofs
  imports ResponsesToAnthropic
begin

text \<open>
  What a client of the converted Anthropic stream relies on: blocks are bracketed, their
  indices are consecutive, the message ends once, text is complete and never repeated,
  and the arguments of a tool call arrive exactly once.
\<close>

named_theorems r2a_handlers "the definitions of the handlers and their helpers"

declare closeCurrentBlock_def [r2a_handlers] resToAnthHandleBlockDone_def [r2a_handlers]
  resToAnthHandleCreated_def [r2a_handlers] startToolBlock_def [r2a_handlers]
  startThinkingBlock_def [r2a_handlers] openTextBlock_def [r2a_handlers]
  resToAnthEmitText_def [r2a_handlers] resToAnthHandleTextDelta_def [r2a_handlers]
  resToAnthRecoverText_def [r2a_handlers] resToAnthHandleTextDone_def [r2a_handlers]
  emitReadArgs_def [r2a_handlers] resToAnthHandleFuncArgsDelta_def [r2a_handlers]
  emitDoneArgs_def [r2a_handlers] resToAnthHandleFuncArgsDone_def [r2a_handlers]
  resToAnthHandleReasoningDelta_def [r2a_handlers] resToAnthHandleWebSearchDone_def [r2a_handlers]
  resToAnthHandleOutputItemDone_def [r2a_handlers] resToAnthHandleOutputItemAdded_def [r2a_handlers]
  resToAnthRecoverTerminalText_def [r2a_handlers] resToAnthHandleCompleted_def [r2a_handlers]
  messageEndEvents_def [r2a_handlers]

named_theorems r2a_events "the constructors of the emitted events"

declare blockStartEvent_def [r2a_events] blockDeltaEvent_def [r2a_events]
  blockStopEvent_def [r2a_events] inputJSONDelta_def [r2a_events]

lemma storeUsage_keeps [simp]:
  "R_ContentBlockIndex (storeUsage u st) = R_ContentBlockIndex st"
  "R_ContentBlockOpen (storeUsage u st) = R_ContentBlockOpen st"
  "R_CurrentBlockType (storeUsage u st) = R_CurrentBlockType st"
  "R_OutputIndexToBlockIdx (storeUsage u st) = R_OutputIndexToBlockIdx st"
  "R_textByPart (storeUsage u st) = R_textByPart st"
  "R_textDelivered (storeUsage u st) = R_textDelivered st"
  "R_MessageStartSent (storeUsage u st) = R_MessageStartSent st"
  "R_MessageStopSent (storeUsage u st) = R_MessageStopSent st"
  "R_HasToolCall (storeUsage u st) = R_HasToolCall st"
  by (auto simp: storeUsage_def Let_def split: option.split)

text \<open>A fact of results that holds where nothing happens and is kept by composition.\<close>

definition r2a_then ::
  "r2a_result \<Rightarrow> (ResponsesEventToAnthropicState \<Rightarrow> r2a_result) \<Rightarrow> r2a_result" where
  "r2a_then r f = (let (st1, evs1) = r; (st2, evs2) = f st1 in (st2, evs1 @ evs2))"

lemma emitParts_Cons:
  "emitParts (p # rest) st = r2a_then (resToAnthEmitText (snd p) (fst p) st) (emitParts rest)"
  by (cases p) (simp add: r2a_then_def)

lemma r2a_step_cases:
  assumes "P (st, [])" and "P (resToAnthHandleCreated evt st)"
    and "\<And>item. P (startToolBlock evt item st)" and "\<And>item. P (startThinkingBlock evt item st)"
    and "P (resToAnthHandleTextDelta evt st)" and "P (resToAnthHandleTextDone evt st)"
    and "P (resToAnthHandleFuncArgsDelta evt st)" and "P (resToAnthHandleFuncArgsDone evt st)"
    and "P (resToAnthHandleOutputItemDone evt st)" and "P (resToAnthHandleReasoningDelta evt st)"
    and "P (resToAnthHandleCompleted evt st)"
  shows "P (ResponsesEventToAnthropicEvents st evt)"
  using assms unfolding ResponsesEventToAnthropicEvents_def resToAnthHandleOutputItemAdded_def
  by (auto split: option.split)

subsection \<open>Blocks are bracketed\<close>

record block_client =
  b_next :: int
  b_open :: bool

text \<open>
  The client opens the blocks 0, 1, 2 and so on, one at a time. Text and signature deltas
  must address the open block; deltas that address an output item may arrive late, but
  never for a block that was not started. The message ends between blocks.
\<close>

definition block_monitor :: "block_client \<Rightarrow> AnthropicStreamEvent \<Rightarrow> block_client option" where
  "block_monitor k ev =
     (if ae_Type ev = ''content_block_start'' then
        (if \<not> b_open k \<and> ae_Index ev = Some (b_next k) then Some (k\<lparr>b_open := True\<rparr>) else None)
      else if ae_Type ev = ''content_block_stop'' then
        (if b_open k \<and> ae_Index ev = Some (b_next k)
         then Some \<lparr>b_next = b_next k + 1, b_open = False\<rparr> else None)
      else if ae_Type ev = ''content_block_delta'' then
        (case (ae_Index ev, ae_Delta ev) of
           (Some i, Some d) \<Rightarrow>
             if ad_Type d = ''text_delta'' \<or> ad_Type d = ''signature_delta'' then
               (if b_open k \<and> i = b_next k then Some k else None)
             else if 0 \<le> i \<and> (i < b_next k \<or> i = b_next k \<and> b_open k) then Some k else None
         | _ \<Rightarrow> None)
      else if ae_Type ev = ''message_delta'' \<or> ae_Type ev = ''message_stop'' then
        (if b_open k then None else Some k)
      else Some k)"

definition block_view :: "ResponsesEventToAnthropicState \<Rightarrow> block_client" where
  "block_view st = \<lparr>b_next = R_ContentBlockIndex st, b_open = R_ContentBlockOpen st\<rparr>"

text \<open>Every output item maps to a block that was started.\<close>

definition blocks_inv :: "ResponsesEventToAnthropicState \<Rightarrow> bool" where
  "blocks_inv st \<longleftrightarrow> 0 \<le> R_ContentBlockIndex st \<and>
     (\<forall>oi i. map_get (R_OutputIndexToBlockIdx st) oi = Some i \<longrightarrow>
        0 \<le> i \<and> (i < R_ContentBlockIndex st \<or> i = R_ContentBlockIndex st \<and> R_ContentBlockOpen st))"

definition blocks_ok :: "ResponsesEventToAnthropicState \<Rightarrow> r2a_result \<Rightarrow> bool" where
  "blocks_ok st r \<longleftrightarrow> (blocks_inv st \<longrightarrow> blocks_inv (fst r) \<and>
     monitor_run block_monitor (block_view st) (snd r) = Some (block_view (fst r)))"

lemma blocks_ok_step:
  assumes "blocks_ok st r" and "blocks_ok (fst r) (st2, evs2)"
  shows "blocks_ok st (st2, snd r @ evs2)"
  using assms by (simp add: blocks_ok_def monitor_run_append)

lemma blocks_ok_refl [simp]: "blocks_ok st (st, [])"
  by (simp add: blocks_ok_def)

lemma blocks_ok_then:
  assumes "blocks_ok st r" and "\<And>st1. blocks_ok st1 (f st1)"
  shows "blocks_ok st (r2a_then r f)"
  using assms(1) assms(2) [of "fst r"]
  by (cases r; cases "f (fst r)") (simp add: blocks_ok_def r2a_then_def monitor_run_append)

lemma block_monitor_simps [simp]:
  "block_monitor k (blockStartEvent i b) =
     (if \<not> b_open k \<and> i = b_next k then Some (k\<lparr>b_open := True\<rparr>) else None)"
  "block_monitor k (blockStopEvent i) =
     (if b_open k \<and> i = b_next k then Some \<lparr>b_next = b_next k + 1, b_open = False\<rparr> else None)"
  "block_monitor k (blockDeltaEvent i d) =
     (if ad_Type d = ''text_delta'' \<or> ad_Type d = ''signature_delta'' then
        (if b_open k \<and> i = b_next k then Some k else None)
      else if 0 \<le> i \<and> (i < b_next k \<or> i = b_next k \<and> b_open k) then Some k else None)"
  by (simp_all add: block_monitor_def r2a_events)

lemma block_monitor_message:
  "ae_Type ev = ''message_start'' \<Longrightarrow> block_monitor k ev = Some k"
  "ae_Type ev = ''message_delta'' \<or> ae_Type ev = ''message_stop'' \<Longrightarrow>
     block_monitor k ev = (if b_open k then None else Some k)"
  by (auto simp: block_monitor_def)

lemma block_view_simps [simp]:
  "b_next (block_view st) = R_ContentBlockIndex st" "b_open (block_view st) = R_ContentBlockOpen st"
  by (simp_all add: block_view_def)

lemma block_client_eq: "k = \<lparr>b_next = n, b_open = o1\<rparr> \<longleftrightarrow> b_next k = n \<and> b_open k = o1"
  by (cases k) auto

lemma closeCurrentBlock_state [simp]:
  "R_ContentBlockOpen (fst (closeCurrentBlock st)) = False"
  "R_ContentBlockIndex (fst (closeCurrentBlock st)) =
     (if R_ContentBlockOpen st then R_ContentBlockIndex st + 1 else R_ContentBlockIndex st)"
  "R_OutputIndexToBlockIdx (fst (closeCurrentBlock st)) = R_OutputIndexToBlockIdx st"
  "R_textByPart (fst (closeCurrentBlock st)) = R_textByPart st"
  "R_textDelivered (fst (closeCurrentBlock st)) = R_textDelivered st"
  "R_MessageStartSent (fst (closeCurrentBlock st)) = R_MessageStartSent st"
  "R_MessageStopSent (fst (closeCurrentBlock st)) = R_MessageStopSent st"
  "R_HasToolCall (fst (closeCurrentBlock st)) = R_HasToolCall st"
  by (auto simp: closeCurrentBlock_def Let_def)

lemma closeCurrentBlock_monitor:
  "monitor_run block_monitor (block_view st) (snd (closeCurrentBlock st)) =
     Some (block_view (fst (closeCurrentBlock st)))"
  by (simp add: closeCurrentBlock_def Let_def block_view_def)

lemma blocks_ok_close: "blocks_ok st (closeCurrentBlock st)"
  by (auto simp: blocks_ok_def blocks_inv_def closeCurrentBlock_monitor)
    (force split: if_splits)+

lemma openTextBlock_state [simp]:
  "R_ContentBlockOpen (fst (openTextBlock st)) = True"
  "R_textByPart (fst (openTextBlock st)) = R_textByPart st"
  "R_textDelivered (fst (openTextBlock st)) = R_textDelivered st"
  "R_MessageStartSent (fst (openTextBlock st)) = R_MessageStartSent st"
  "R_MessageStopSent (fst (openTextBlock st)) = R_MessageStopSent st"
  "R_HasToolCall (fst (openTextBlock st)) = R_HasToolCall st"
  "R_CurrentBlockType (fst (openTextBlock st)) = ''text''"
  by (simp_all add: openTextBlock_def split_def Let_def)


lemmas block_step_defs = blocks_ok_def blocks_inv_def block_view_def

text \<open>One event sent while a block is open, or the start of one while none is.\<close>

lemma blocks_ok_delta:
  assumes "R_ContentBlockOpen st1" and "d = \<lparr>ad_Type = t, ad_Text = x, ad_PartialJSON = j,
      ad_Thinking = th, ad_Signature = g, ad_StopReason = r, ad_StopSequence = q\<rparr>"
    and "R_ContentBlockIndex st2 = R_ContentBlockIndex st1" and "R_ContentBlockOpen st2"
    and "R_OutputIndexToBlockIdx st2 = R_OutputIndexToBlockIdx st1"
  shows "blocks_ok st1 (st2, [blockDeltaEvent (R_ContentBlockIndex st1) d])"
  using assms by (simp add: block_step_defs)

lemma blocks_ok_start:
  assumes "\<not> R_ContentBlockOpen st1" and "R_ContentBlockOpen st2"
    and "R_ContentBlockIndex st2 = R_ContentBlockIndex st1"
    and "R_OutputIndexToBlockIdx st2 = R_OutputIndexToBlockIdx st1 \<or>
      R_OutputIndexToBlockIdx st2 =
        map_put oi (R_ContentBlockIndex st1) (R_OutputIndexToBlockIdx st1)"
  shows "blocks_ok st1 (st2, [blockStartEvent (R_ContentBlockIndex st1) b])"
  using assms by (auto simp: block_step_defs split: if_splits)

lemma blocks_ok_openText: "blocks_ok st (openTextBlock st)"
  unfolding openTextBlock_def split_def Let_def
  by (cases "\<not> R_ContentBlockOpen st \<or> R_CurrentBlockType st \<noteq> ''text''")
    (simp_all only: if_True if_False blocks_ok_refl, intro blocks_ok_step blocks_ok_close blocks_ok_start, simp_all)

lemma blocks_ok_emit: "blocks_ok st (resToAnthEmitText text part st)"
  by (simp add: resToAnthEmitText_def split_def Let_def blocks_ok_step blocks_ok_openText
      blocks_ok_delta emptyDelta_def)

lemma blocks_ok_parts: "blocks_ok st (emitParts ps st)"
  by (induction ps arbitrary: st)
    (simp_all add: emitParts_Cons blocks_ok_then blocks_ok_emit del: emitParts.simps(2))

lemma blocks_ok_done: "blocks_ok st (resToAnthHandleBlockDone st)"
  by (simp add: resToAnthHandleBlockDone_def blocks_ok_close)

lemma blocks_ok_recover: "blocks_ok st (resToAnthRecoverText text part st)"
  by (simp add: resToAnthRecoverText_def Let_def blocks_ok_emit)

lemma blocks_ok_created: "blocks_ok st (resToAnthHandleCreated evt st)"
  by (auto simp: resToAnthHandleCreated_def Let_def blocks_ok_def blocks_inv_def block_view_def
      block_monitor_message split: option.split)

lemma blocks_ok_startTool: "blocks_ok st (startToolBlock evt item st)"
  unfolding startToolBlock_def split_def Let_def
  by (intro blocks_ok_step blocks_ok_close blocks_ok_start [of _ _ "se_OutputIndex evt"]) simp_all

lemma blocks_ok_startThinking: "blocks_ok st (startThinkingBlock evt item st)"
  unfolding startThinkingBlock_def split_def Let_def
  by (intro blocks_ok_step blocks_ok_close blocks_ok_start [of _ _ "se_OutputIndex evt"]) simp_all

lemma blocks_ok_textDone: "blocks_ok st (resToAnthHandleTextDone evt st)"
proof -
  have "resToAnthHandleTextDone evt st =
      (if R_MessageStopSent st then resToAnthHandleBlockDone st
       else r2a_then (resToAnthRecoverText (se_Text evt) (resToAnthTextPartOf evt) st)
              resToAnthHandleBlockDone)"
    by (simp add: resToAnthHandleTextDone_def r2a_then_def)
  then show ?thesis by (simp add: blocks_ok_done blocks_ok_then blocks_ok_recover)
qed

lemma inputJSONDelta_simps [simp]:
  "ad_Type (inputJSONDelta s) = ''input_json_delta''" "ad_PartialJSON (inputJSONDelta s) = s"
  "ad_Text (inputJSONDelta s) = []"
  by (simp_all add: inputJSONDelta_def)

lemma blocks_ok_argsDelta: "blocks_ok st (resToAnthHandleFuncArgsDelta evt st)"
  by (auto simp: resToAnthHandleFuncArgsDelta_def emitReadArgs_def Let_def blocks_ok_def
      blocks_inv_def block_view_def split: option.split)

lemma blocks_ok_doneArgs: "blocks_ok st (emitDoneArgs evt raw st)"
  using blocks_ok_close [of st]
  by (auto simp: emitDoneArgs_def split_def Let_def blocks_ok_def blocks_inv_def)

lemma blocks_ok_argsDone: "blocks_ok st (resToAnthHandleFuncArgsDone evt st)"
  by (simp add: resToAnthHandleFuncArgsDone_def Let_def blocks_ok_close blocks_ok_done
      blocks_ok_doneArgs)

lemma blocks_ok_reasoning: "blocks_ok st (resToAnthHandleReasoningDelta evt st)"
  by (auto simp: resToAnthHandleReasoningDelta_def blocks_ok_def blocks_inv_def block_view_def
      split: option.split)

lemma blocks_ok_webSearch: "blocks_ok st (resToAnthHandleWebSearchDone item st)"
  unfolding resToAnthHandleWebSearchDone_def split_def Let_def
  by (rule blocks_ok_step [OF blocks_ok_close]) (fastforce simp: block_step_defs split: if_splits)

lemma blocks_ok_itemDone: "blocks_ok st (resToAnthHandleOutputItemDone evt st)"
proof -
  have "blocks_ok st (closeCurrentBlock (st\<lparr>R_PendingThinkingSignature := s\<rparr>))" for s
    using blocks_ok_close [of "st\<lparr>R_PendingThinkingSignature := s\<rparr>"]
    by (simp add: blocks_ok_def blocks_inv_def block_view_def)
  moreover have "blocks_ok st (st\<lparr>R_PendingThinkingSignature := s\<rparr>, [])" for s
    by (simp add: blocks_ok_def blocks_inv_def block_view_def)
  ultimately show ?thesis
    by (auto simp: resToAnthHandleOutputItemDone_def Let_def blocks_ok_webSearch blocks_ok_close
        split: option.split)
qed

lemma blocks_ok_terminalText: "blocks_ok st (resToAnthRecoverTerminalText evt st)"
proof -
  have "blocks_ok st (r2a_then (emitParts ps st) closeCurrentBlock)" for ps
    by (simp add: blocks_ok_then blocks_ok_parts blocks_ok_close)
  moreover have "snd (emitParts ps st) = [] \<Longrightarrow> blocks_ok st (fst (emitParts ps st), [])" for ps
    using blocks_ok_parts [of st ps] by (metis prod.collapse)
  ultimately show ?thesis
    by (auto simp: resToAnthRecoverTerminalText_def Let_def split_def r2a_then_def split: option.split)
qed

lemma blocks_ok_end:
  assumes "\<not> R_ContentBlockOpen st1" and "R_ContentBlockIndex st2 = R_ContentBlockIndex st1"
    and "\<not> R_ContentBlockOpen st2" and "R_OutputIndexToBlockIdx st2 = R_OutputIndexToBlockIdx st1"
  shows "blocks_ok st1 (st2, messageEndEvents st3 reason)"
  using assms by (simp add: block_step_defs messageEndEvents_def block_monitor_message)

lemma terminalText_closed:
  "\<not> R_ContentBlockOpen st \<Longrightarrow> \<not> R_ContentBlockOpen (fst (resToAnthRecoverTerminalText evt st))"
proof -
  assume closed: "\<not> R_ContentBlockOpen st"
  have quiet: "snd (emitParts ps st) = [] \<Longrightarrow> R_ContentBlockOpen (fst (emitParts ps st)) = R_ContentBlockOpen st"
    for ps st
  proof (induction ps arbitrary: st)
    case (Cons p ps)
    then show ?case
      by (cases "snd p = []")
        (simp_all add: emitParts_Cons r2a_then_def split_def Let_def resToAnthEmitText_def del: emitParts.simps(2))
  qed simp
  show ?thesis
    using closed quiet [of _ st]
    by (auto simp: resToAnthRecoverTerminalText_def split_def Let_def split: option.split)
qed

lemma blocks_ok_completed: "blocks_ok st (resToAnthHandleCompleted evt st)"
proof (cases "R_MessageStopSent st")
  case False
  let ?st2 = "fst (resToAnthRecoverTerminalText evt (fst (closeCurrentBlock st)))"
  have closed: "\<not> R_ContentBlockOpen ?st2" by (simp add: terminalText_closed)
  have "blocks_ok st (?st2, snd (closeCurrentBlock st) @
      snd (resToAnthRecoverTerminalText evt (fst (closeCurrentBlock st))))"
    by (rule blocks_ok_step [OF blocks_ok_close]) (simp add: blocks_ok_terminalText)
  from blocks_ok_step [OF this blocks_ok_end] closed False show ?thesis
    by (simp add: resToAnthHandleCompleted_def split_def Let_def)
qed (simp add: resToAnthHandleCompleted_def)

lemma blocks_ok_handler: "blocks_ok st (ResponsesEventToAnthropicEvents st evt)"
  by (rule r2a_step_cases)
    (simp_all add: blocks_ok_created blocks_ok_startTool blocks_ok_startThinking blocks_ok_textDone
      blocks_ok_argsDelta blocks_ok_argsDone blocks_ok_itemDone blocks_ok_reasoning
      blocks_ok_completed resToAnthHandleTextDelta_def blocks_ok_emit)

lemma blocks_ok_finalize: "blocks_ok st (FinalizeResponsesAnthropicStream st)"
proof (cases "\<not> R_MessageStartSent st \<or> R_MessageStopSent st")
  case False
  then show ?thesis
    using blocks_ok_step [OF blocks_ok_close blocks_ok_end]
    by (simp add: FinalizeResponsesAnthropicStream_def split_def Let_def)
qed (auto simp: FinalizeResponsesAnthropicStream_def)

interpretation r2a_blocks: monitored ResponsesEventToAnthropicEvents blocks_inv block_monitor block_view
  using blocks_ok_handler by unfold_locales (simp_all add: blocks_ok_def)

subsection \<open>A whole stream\<close>

definition anthropic_stream :: "int \<Rightarrow> ResponsesStreamEvent list \<Rightarrow> r2a_result" where
  "anthropic_stream now evts =
     r2a_then (run_stream ResponsesEventToAnthropicEvents (NewResponsesEventToAnthropicState now) evts)
       FinalizeResponsesAnthropicStream"

lemma fresh_r2a_simps [simp]:
  "R_MessageStartSent (NewResponsesEventToAnthropicState now) = False"
  "R_MessageStopSent (NewResponsesEventToAnthropicState now) = False"
  "R_ContentBlockIndex (NewResponsesEventToAnthropicState now) = 0"
  "R_ContentBlockOpen (NewResponsesEventToAnthropicState now) = False"
  "R_textByPart (NewResponsesEventToAnthropicState now) = []"
  "R_textDelivered (NewResponsesEventToAnthropicState now) = False"
  "R_OutputIndexToBlockIdx (NewResponsesEventToAnthropicState now) = []"
  by (simp_all add: NewResponsesEventToAnthropicState_def)

lemma fresh_blocks_inv [simp]: "blocks_inv (NewResponsesEventToAnthropicState now)"
  by (simp add: blocks_inv_def)

text \<open>
  C20: whatever events the upstream sends, in whatever order, a client that insists on
  consecutive block indices, one open block at a time, text and signature deltas for the
  open block and no delta for a block that was never started accepts the converted stream.
\<close>

theorem anthropic_stream_bracketed:
  "monitor_run block_monitor \<lparr>b_next = 0, b_open = False\<rparr> (snd (anthropic_stream now evts)) =
     Some (block_view (fst (anthropic_stream now evts)))"
proof -
  let ?s0 = "NewResponsesEventToAnthropicState now"
  have "block_view ?s0 = \<lparr>b_next = 0, b_open = False\<rparr>" by (simp add: block_view_def)
  moreover have "blocks_ok ?s0 (run_stream ResponsesEventToAnthropicEvents ?s0 evts)"
    using r2a_blocks.run_accepts [of ?s0 evts] by (simp add: blocks_ok_def)
  ultimately show ?thesis
    using blocks_ok_then [OF _ blocks_ok_finalize] unfolding anthropic_stream_def
    by (metis (no_types, lifting) blocks_ok_def fresh_blocks_inv)
qed

subsection \<open>The message starts once and ends once\<close>

definition events_of :: "gostring \<Rightarrow> AnthropicStreamEvent list \<Rightarrow> nat" where
  "events_of t evs = length (filter (\<lambda>ev. ae_Type ev = t) evs)"

lemma events_of_simps [simp]:
  "events_of t [] = 0" "events_of t (xs @ ys) = events_of t xs + events_of t ys"
  "events_of t (ev # evs) = (if ae_Type ev = t then Suc (events_of t evs) else events_of t evs)"
  by (simp_all add: events_of_def)

lemma event_types [simp]:
  "ae_Type (blockStartEvent i b) = ''content_block_start''"
  "ae_Type (blockDeltaEvent i d) = ''content_block_delta''"
  "ae_Type (blockStopEvent i) = ''content_block_stop''"
  by (simp_all add: r2a_events)

definition sent :: "bool \<Rightarrow> nat" where
  "sent b = (if b then 1 else 0)"

definition ends_ok :: "ResponsesEventToAnthropicState \<Rightarrow> r2a_result \<Rightarrow> bool" where
  "ends_ok st r \<longleftrightarrow>
     sent (R_MessageStartSent st) + events_of ''message_start'' (snd r) =
       sent (R_MessageStartSent (fst r)) \<and>
     sent (R_MessageStopSent st) + events_of ''message_stop'' (snd r) =
       sent (R_MessageStopSent (fst r)) \<and>
     events_of ''message_delta'' (snd r) = events_of ''message_stop'' (snd r)"

lemma ends_ok_refl [simp]: "ends_ok st (st, [])"
  by (simp add: ends_ok_def)

lemma ends_ok_then:
  assumes "ends_ok st r" and "\<And>st1. ends_ok st1 (f st1)"
  shows "ends_ok st (r2a_then r f)"
  using assms(1) assms(2) [of "fst r"]
  by (cases r; cases "f (fst r)") (simp add: ends_ok_def r2a_then_def)

text \<open>Every handler but the first and the last leaves the ends of the message alone.\<close>

definition inner :: "ResponsesEventToAnthropicState \<Rightarrow> r2a_result \<Rightarrow> bool" where
  "inner st r \<longleftrightarrow>
     R_MessageStartSent (fst r) = R_MessageStartSent st \<and>
     R_MessageStopSent (fst r) = R_MessageStopSent st \<and>
     events_of ''message_start'' (snd r) = 0 \<and> events_of ''message_stop'' (snd r) = 0 \<and>
     events_of ''message_delta'' (snd r) = 0"

lemma inner_ends: "inner st r \<Longrightarrow> ends_ok st r"
  by (simp add: inner_def ends_ok_def)

lemma inner_refl [simp]: "inner st (st, [])"
  by (simp add: inner_def)

lemma inner_step:
  "inner st r \<Longrightarrow> inner (fst r) (st2, evs2) \<Longrightarrow> inner st (st2, snd r @ evs2)"
  by (simp add: inner_def)

lemma inner_then: "inner st r \<Longrightarrow> inner (fst r) (f (fst r)) \<Longrightarrow> inner st (r2a_then r f)"
  by (simp add: inner_def r2a_then_def split_def Let_def)

lemma inner_close: "inner st (closeCurrentBlock st)"
  by (simp add: inner_def closeCurrentBlock_def Let_def)

lemma inner_emit: "inner st (resToAnthEmitText text part st)"
  using inner_close [of st]
  by (simp add: inner_def resToAnthEmitText_def openTextBlock_def split_def Let_def)

lemma inner_parts: "inner st (emitParts ps st)"
  by (induction ps arbitrary: st)
    (simp_all add: emitParts_Cons inner_then inner_emit del: emitParts.simps(2))

lemma inner_terminalText: "inner st (resToAnthRecoverTerminalText evt st)"
proof -
  have "inner st (r2a_then (emitParts ps st) closeCurrentBlock)" for ps
    by (simp add: inner_then inner_parts inner_close)
  moreover have "snd (emitParts ps st) = [] \<Longrightarrow> inner st (fst (emitParts ps st), [])" for ps
    using inner_parts [of st ps] by (metis prod.collapse)
  ultimately show ?thesis
    by (auto simp: resToAnthRecoverTerminalText_def split_def Let_def r2a_then_def split: option.split)
qed

lemma ends_ok_completed: "ends_ok st (resToAnthHandleCompleted evt st)"
proof -
  have "inner st (r2a_then (closeCurrentBlock st) (resToAnthRecoverTerminalText evt))"
    by (simp add: inner_then inner_close inner_terminalText)
  then show ?thesis
    by (simp add: resToAnthHandleCompleted_def inner_def r2a_then_def ends_ok_def split_def Let_def
        messageEndEvents_def sent_def)
qed

lemma inner_blockDone: "inner st (resToAnthHandleBlockDone st)"
  by (simp add: resToAnthHandleBlockDone_def inner_close)

lemma inner_recover: "inner st (resToAnthRecoverText text part st)"
  by (simp add: resToAnthRecoverText_def Let_def inner_emit)

lemma inner_textDone: "inner st (resToAnthHandleTextDone evt st)"
proof -
  have "inner st (r2a_then (resToAnthRecoverText t p st) resToAnthHandleBlockDone)" for t p
    by (simp add: inner_then inner_recover inner_blockDone)
  then show ?thesis by (simp add: resToAnthHandleTextDone_def r2a_then_def inner_blockDone)
qed

lemma inner_argsDone: "inner st (resToAnthHandleFuncArgsDone evt st)"
proof -
  have "inner st (emitDoneArgs evt raw st)" for raw
    using inner_close [of st] by (simp add: emitDoneArgs_def inner_def split_def Let_def)
  then show ?thesis
    by (simp add: resToAnthHandleFuncArgsDone_def Let_def inner_close inner_blockDone)
qed

lemma inner_itemDone: "inner st (resToAnthHandleOutputItemDone evt st)"
proof -
  have "inner st (resToAnthHandleWebSearchDone item st)" for item
    using inner_close [of st] by (simp add: resToAnthHandleWebSearchDone_def inner_def split_def Let_def)
  moreover have "inner st (closeCurrentBlock (st\<lparr>R_PendingThinkingSignature := g\<rparr>))" for g
    using inner_close [of "st\<lparr>R_PendingThinkingSignature := g\<rparr>"] by (simp add: inner_def)
  ultimately show ?thesis
    using inner_close [of st]
    by (auto simp: resToAnthHandleOutputItemDone_def Let_def inner_def split: option.split)
qed

lemma ends_ok_handler: "ends_ok st (ResponsesEventToAnthropicEvents st evt)"
proof (rule r2a_step_cases)
  show "ends_ok st (resToAnthHandleCreated evt st)"
    by (auto simp: resToAnthHandleCreated_def ends_ok_def sent_def Let_def split: option.split)
  show "ends_ok st (startToolBlock evt item st)" "ends_ok st (startThinkingBlock evt item st)" for item
    using inner_close [of st]
    by (simp_all add: startToolBlock_def startThinkingBlock_def inner_def ends_ok_def split_def Let_def)
  show "ends_ok st (resToAnthHandleFuncArgsDelta evt st)" "ends_ok st (resToAnthHandleReasoningDelta evt st)"
    by (auto simp: resToAnthHandleFuncArgsDelta_def emitReadArgs_def resToAnthHandleReasoningDelta_def
        ends_ok_def Let_def split: option.split)
qed (simp_all add: inner_ends inner_emit inner_textDone inner_argsDone inner_itemDone
      ends_ok_completed resToAnthHandleTextDelta_def)

lemma ends_ok_finalize: "ends_ok st (FinalizeResponsesAnthropicStream st)"
  using inner_close [of st]
  by (auto simp: FinalizeResponsesAnthropicStream_def inner_def ends_ok_def split_def Let_def
      messageEndEvents_def sent_def)

lemma ends_ok_run: "ends_ok st (run_stream ResponsesEventToAnthropicEvents st evts)"
proof (induction evts arbitrary: st)
  case (Cons evt evts)
  have "run_stream ResponsesEventToAnthropicEvents st (evt # evts) =
      r2a_then (ResponsesEventToAnthropicEvents st evt)
        (\<lambda>st1. run_stream ResponsesEventToAnthropicEvents st1 evts)"
    by (simp add: r2a_then_def)
  then show ?case using ends_ok_then [OF ends_ok_handler Cons.IH] by simp
qed simp

text \<open>
  A converted stream has at most one \<open>message_start\<close> and at most one \<open>message_stop\<close>,
  preceded by its \<open>message_delta\<close>; once the message has started, the stream is terminated
  exactly once, whether the upstream completed, failed or broke off.
\<close>

theorem anthropic_stream_ends_once:
  "events_of ''message_start'' (snd (anthropic_stream now evts)) \<le> 1 \<and>
   events_of ''message_stop'' (snd (anthropic_stream now evts)) \<le> 1 \<and>
   events_of ''message_delta'' (snd (anthropic_stream now evts)) =
     events_of ''message_stop'' (snd (anthropic_stream now evts)) \<and>
   events_of ''message_start'' (snd (anthropic_stream now evts)) \<le>
     events_of ''message_stop'' (snd (anthropic_stream now evts))"
proof -
  let ?s0 = "NewResponsesEventToAnthropicState now"
  have "ends_ok ?s0 (anthropic_stream now evts)"
    unfolding anthropic_stream_def by (intro ends_ok_then ends_ok_run ends_ok_finalize)
  moreover have "R_MessageStartSent (fst (FinalizeResponsesAnthropicStream st)) \<Longrightarrow>
      R_MessageStopSent (fst (FinalizeResponsesAnthropicStream st))" for st
    by (auto simp: FinalizeResponsesAnthropicStream_def split_def Let_def split: if_splits)
  then have "R_MessageStartSent (fst (anthropic_stream now evts)) \<Longrightarrow>
      R_MessageStopSent (fst (anthropic_stream now evts))"
    by (simp add: anthropic_stream_def r2a_then_def split_def Let_def)
  ultimately show ?thesis by (auto simp: ends_ok_def sent_def split: if_splits)
qed

end
