(* ===== verification/ResponsesContent.thy ===== *)
theory ResponsesContent
  imports ResponsesStreamProofs
begin

text \<open>
  The content a client of the converted Anthropic stream receives: the visible text of
  every part arrives completely and once, whichever of the upstream's delta, done and
  terminal events carry it, and so do the arguments of every tool call.
\<close>

subsection \<open>The text and the arguments a client receives\<close>

definition text_of :: "AnthropicStreamEvent \<Rightarrow> gostring" where
  "text_of ev = (case ae_Delta ev of
     Some d \<Rightarrow> if ad_Type d = ''text_delta'' then ad_Text d else [] | None \<Rightarrow> [])"

definition args_of :: "AnthropicStreamEvent \<Rightarrow> gostring" where
  "args_of ev = (case ae_Delta ev of
     Some d \<Rightarrow> if ad_Type d = ''input_json_delta'' then ad_PartialJSON d else [] | None \<Rightarrow> [])"

definition client_text :: "AnthropicStreamEvent list \<Rightarrow> gostring" where
  "client_text evs = concat (map text_of evs)"

definition client_args :: "AnthropicStreamEvent list \<Rightarrow> gostring" where
  "client_args evs = concat (map args_of evs)"

lemma client_simps [simp]:
  "client_text [] = []" "client_text (ev # evs) = text_of ev @ client_text evs"
  "client_text (xs @ ys) = client_text xs @ client_text ys"
  "client_args [] = []" "client_args (ev # evs) = args_of ev @ client_args evs"
  "client_args (xs @ ys) = client_args xs @ client_args ys"
  by (simp_all add: client_text_def client_args_def)

lemma content_of_events [simp]:
  "text_of (blockStartEvent i b) = []" "args_of (blockStartEvent i b) = []"
  "text_of (blockStopEvent i) = []" "args_of (blockStopEvent i) = []"
  "text_of (blockDeltaEvent i d) = (if ad_Type d = ''text_delta'' then ad_Text d else [])"
  "args_of (blockDeltaEvent i d) = (if ad_Type d = ''input_json_delta'' then ad_PartialJSON d else [])"
  by (simp_all add: text_of_def args_of_def r2a_events)

lemma content_close [simp]:
  "client_text (snd (closeCurrentBlock st)) = []" "client_args (snd (closeCurrentBlock st)) = []"
  by (simp_all add: closeCurrentBlock_def Let_def)

lemma content_blockDone [simp]:
  "client_text (snd (resToAnthHandleBlockDone st)) = []"
  "client_args (snd (resToAnthHandleBlockDone st)) = []"
  by (simp_all add: resToAnthHandleBlockDone_def)

lemma blockDone_state [simp]:
  "R_textByPart (fst (resToAnthHandleBlockDone st)) = R_textByPart st"
  "R_textDelivered (fst (resToAnthHandleBlockDone st)) = R_textDelivered st"
  "R_MessageStopSent (fst (resToAnthHandleBlockDone st)) = R_MessageStopSent st"
  by (simp_all add: resToAnthHandleBlockDone_def)

lemma content_messageEnd [simp]: "client_text (messageEndEvents st r) = []"
  by (simp add: messageEndEvents_def text_of_def)

lemma content_openText [simp]:
  "client_text (snd (openTextBlock st)) = []" "client_args (snd (openTextBlock st)) = []"
  by (simp_all add: openTextBlock_def split_def Let_def)

lemma emit_text_content [simp]:
  "client_text (snd (resToAnthEmitText text part st)) = text"
  "client_args (snd (resToAnthEmitText text part st)) = []"
  by (simp_all add: resToAnthEmitText_def split_def Let_def)

lemma emit_text_state [simp]:
  "R_textDelivered (fst (resToAnthEmitText text part st)) = (R_textDelivered st \<or> text \<noteq> [])"
  "R_MessageStopSent (fst (resToAnthEmitText text part st)) = R_MessageStopSent st"
  "map_get (R_textByPart (fst (resToAnthEmitText text part st))) q =
     (if q = part \<and> text \<noteq> [] then Some (delivered st part @ text)
      else map_get (R_textByPart st) q)"
  by (auto simp: resToAnthEmitText_def split_def Let_def delivered_def)

lemma delivered_emit [simp]:
  "delivered (fst (resToAnthEmitText text part st)) part = delivered st part @ text"
  by (simp add: delivered_def)

subsection \<open>Text parts\<close>

definition textDeltaOf :: "responsesTextPart \<Rightarrow> gostring \<Rightarrow> ResponsesStreamEvent" where
  "textDeltaOf p s = emptyEvent\<lparr>se_Type := ''response.output_text.delta'',
     se_OutputIndex := fst p, se_ContentIndex := snd p, se_Delta := s\<rparr>"

definition textDoneOf :: "responsesTextPart \<Rightarrow> gostring \<Rightarrow> ResponsesStreamEvent" where
  "textDoneOf p s = emptyEvent\<lparr>se_Type := ''response.output_text.done'',
     se_OutputIndex := fst p, se_ContentIndex := snd p, se_Text := s\<rparr>"

lemma step_textDelta:
  "ResponsesEventToAnthropicEvents st (textDeltaOf p s) = resToAnthEmitText s p st"
  by (simp add: ResponsesEventToAnthropicEvents_def resToAnthHandleTextDelta_def
      textDeltaOf_def resToAnthTextPartOf_def)

lemma step_textDone:
  "\<not> R_MessageStopSent st \<Longrightarrow> ResponsesEventToAnthropicEvents st (textDoneOf p s) =
     r2a_then (resToAnthRecoverText s p st) resToAnthHandleBlockDone"
  by (simp add: ResponsesEventToAnthropicEvents_def resToAnthHandleTextDone_def
      textDoneOf_def resToAnthTextPartOf_def r2a_then_def)

lemma text_deltas_run:
  "\<exists>st' os. run_stream ResponsesEventToAnthropicEvents st (map (textDeltaOf p) ds) = (st', os) \<and>
     client_text os = concat ds \<and>
     R_textDelivered st' = (R_textDelivered st \<or> concat ds \<noteq> []) \<and>
     R_MessageStopSent st' = R_MessageStopSent st \<and>
     (\<forall>q. map_get (R_textByPart st') q =
        (if q = p \<and> concat ds \<noteq> [] then Some (delivered st p @ concat ds)
         else map_get (R_textByPart st) q))"
proof (induction ds arbitrary: st)
  case (Cons d ds)
  obtain st1 os1 where 1: "resToAnthEmitText d p st = (st1, os1)" by fastforce
  obtain st' os where 2: "run_stream ResponsesEventToAnthropicEvents st1 (map (textDeltaOf p) ds) = (st', os)"
    and ih: "client_text os = concat ds" "R_textDelivered st' = (R_textDelivered st1 \<or> concat ds \<noteq> [])"
      "R_MessageStopSent st' = R_MessageStopSent st1"
      "\<And>q. map_get (R_textByPart st') q =
        (if q = p \<and> concat ds \<noteq> [] then Some (delivered st1 p @ concat ds)
         else map_get (R_textByPart st1) q)"
    using Cons.IH [of st1] by blast
  have "client_text os1 = d" "R_textDelivered st1 = (R_textDelivered st \<or> d \<noteq> [])"
    "R_MessageStopSent st1 = R_MessageStopSent st" "delivered st1 p = delivered st p @ d"
    "\<And>q. map_get (R_textByPart st1) q = (if q = p \<and> d \<noteq> [] then Some (delivered st p @ d)
       else map_get (R_textByPart st) q)"
    using 1 emit_text_content(1) [of d p st] emit_text_state [of d p st] delivered_emit [of d p st]
    by simp_all
  with 1 2 ih show ?case by (auto simp: step_textDelta)
qed simp

text \<open>
  What a text part's own done event adds: exactly the tail that its deltas did not
  deliver, for the first text of the message or for a part the client has seen.
\<close>

lemma text_done_step:
  assumes "\<not> R_MessageStopSent st" and "delivered st p = got"
    and "map_get (R_textByPart st) p \<noteq> None \<or> \<not> R_textDelivered st"
  shows "\<exists>st' os. ResponsesEventToAnthropicEvents st (textDoneOf p (got @ rest)) = (st', os) \<and>
     client_text os = rest \<and> \<not> R_MessageStopSent st' \<and>
     R_textDelivered st' = (R_textDelivered st \<or> rest \<noteq> []) \<and>
     (\<forall>q. q \<noteq> p \<longrightarrow> map_get (R_textByPart st') q = map_get (R_textByPart st) q)"
proof -
  have recover: "resToAnthRecoverText (got @ rest) p st = resToAnthEmitText rest p st"
    using assms(2,3) by (auto simp: resToAnthRecoverText_def Let_def resToAnthEmitText_def)
  obtain st1 os1 where 1: "resToAnthEmitText rest p st = (st1, os1)" by fastforce
  obtain st2 os2 where 2: "resToAnthHandleBlockDone st1 = (st2, os2)" by fastforce
  from 1 have "client_text os1 = rest" "R_textDelivered st1 = (R_textDelivered st \<or> rest \<noteq> [])"
    "R_MessageStopSent st1 = R_MessageStopSent st"
    "\<And>q. q \<noteq> p \<Longrightarrow> map_get (R_textByPart st1) q = map_get (R_textByPart st) q"
    using emit_text_content(1) [of rest p st] emit_text_state [of rest p st] by simp_all
  moreover from 2 have "client_text os2 = []" "R_textDelivered st2 = R_textDelivered st1"
    "R_MessageStopSent st2 = R_MessageStopSent st1" "R_textByPart st2 = R_textByPart st1"
    using content_blockDone(1) [of st1] blockDone_state [of st1] by simp_all
  ultimately show ?thesis
    using assms(1) by (simp add: step_textDone recover r2a_then_def 1 2)
qed

type_synonym text_part_log = "responsesTextPart \<times> gostring list \<times> gostring"

text \<open>A part with its deltas and the tail that only its done event carries.\<close>

definition part_events :: "text_part_log \<Rightarrow> ResponsesStreamEvent list" where
  "part_events l = (case l of (p, ds, tail) \<Rightarrow>
     map (textDeltaOf p) ds @ [textDoneOf p (concat ds @ tail)])"

definition part_text :: "text_part_log \<Rightarrow> gostring" where
  "part_text l = concat (fst (snd l)) @ snd (snd l)"

lemma part_run:
  assumes "\<not> R_MessageStopSent st" and "map_get (R_textByPart st) (fst l) = None"
    and "concat (fst (snd l)) \<noteq> [] \<or> \<not> R_textDelivered st"
  shows "\<exists>st' os. run_stream ResponsesEventToAnthropicEvents st (part_events l) = (st', os) \<and>
     client_text os = part_text l \<and> \<not> R_MessageStopSent st' \<and>
     R_textDelivered st' = (R_textDelivered st \<or> part_text l \<noteq> []) \<and>
     (\<forall>q. q \<noteq> fst l \<longrightarrow> map_get (R_textByPart st') q = map_get (R_textByPart st) q)"
proof -
  obtain p ds tail where l: "l = (p, ds, tail)" by (cases l)
  from assms(2) l have fresh: "delivered st p = []" by (simp add: delivered_def)
  obtain st1 os1 where 1: "run_stream ResponsesEventToAnthropicEvents st (map (textDeltaOf p) ds) = (st1, os1)"
    and f1: "client_text os1 = concat ds" "R_textDelivered st1 = (R_textDelivered st \<or> concat ds \<noteq> [])"
      "R_MessageStopSent st1 = R_MessageStopSent st"
      "\<And>q. map_get (R_textByPart st1) q = (if q = p \<and> concat ds \<noteq> [] then Some (concat ds)
         else map_get (R_textByPart st) q)"
    using text_deltas_run [of st p ds] unfolding fresh append_Nil by blast
  have "delivered st1 p = concat ds" using f1(4) assms(2) l by (simp add: delivered_def)
  moreover have "map_get (R_textByPart st1) p \<noteq> None \<or> \<not> R_textDelivered st1"
    using f1 assms(3) l by auto
  ultimately obtain st2 os2 where
    "ResponsesEventToAnthropicEvents st1 (textDoneOf p (concat ds @ tail)) = (st2, os2)"
    "client_text os2 = tail" "\<not> R_MessageStopSent st2"
    "R_textDelivered st2 = (R_textDelivered st1 \<or> tail \<noteq> [])"
    "\<And>q. q \<noteq> p \<Longrightarrow> map_get (R_textByPart st2) q = map_get (R_textByPart st1) q"
    using text_done_step [of st1 p "concat ds" tail] assms(1) f1(3) by blast
  with 1 f1 l show ?thesis by (auto simp: part_events_def part_text_def run_stream_append)
qed

lemma distinct_head_neq: "distinct (map fst (l # ls)) \<Longrightarrow> m \<in> set ls \<Longrightarrow> fst m \<noteq> fst l"
  by (auto simp: image_iff)

lemma parts_run:
  assumes "\<not> R_MessageStopSent st" and "R_textDelivered st" and "distinct (map fst ls)"
    and "\<And>l. l \<in> set ls \<Longrightarrow> concat (fst (snd l)) \<noteq> []"
    and "\<And>l. l \<in> set ls \<Longrightarrow> map_get (R_textByPart st) (fst l) = None"
  shows "\<exists>st' os. run_stream ResponsesEventToAnthropicEvents st (concat (map part_events ls)) = (st', os) \<and>
     client_text os = concat (map part_text ls) \<and> \<not> R_MessageStopSent st' \<and> R_textDelivered st'"
  using assms
proof (induction ls arbitrary: st)
  case (Cons l ls)
  obtain st1 os1 where 1: "run_stream ResponsesEventToAnthropicEvents st (part_events l) = (st1, os1)"
    and f1: "client_text os1 = part_text l" "\<not> R_MessageStopSent st1"
      "R_textDelivered st1 = (R_textDelivered st \<or> part_text l \<noteq> [])"
      "\<And>q. q \<noteq> fst l \<Longrightarrow> map_get (R_textByPart st1) q = map_get (R_textByPart st) q"
    using part_run [of st l] Cons.prems by (metis list.set_intros(1))
  have "map_get (R_textByPart st1) (fst l') = None" if "l' \<in> set ls" for l'
    using that Cons.prems(5) [of l'] f1(4) distinct_head_neq [OF Cons.prems(3) that] by simp
  then obtain st2 os2 where "run_stream ResponsesEventToAnthropicEvents st1 (concat (map part_events ls)) = (st2, os2)"
    "client_text os2 = concat (map part_text ls)" "\<not> R_MessageStopSent st2" "R_textDelivered st2"
    using Cons.IH [of st1] Cons.prems f1(2,3) by (metis distinct.simps(2) list.set_intros(2) list.simps(9))
  with 1 f1(1) show ?case by (simp add: run_stream_append)
qed simp

lemma step_created:
  assumes "se_Type ev = ''response.created''" and "\<not> R_MessageStartSent st"
  shows "\<exists>st' os. ResponsesEventToAnthropicEvents st ev = (st', os) \<and> client_text os = [] \<and>
     R_MessageStopSent st' = R_MessageStopSent st \<and> R_textDelivered st' = R_textDelivered st \<and>
     R_textByPart st' = R_textByPart st"
  using assms
  by (simp add: ResponsesEventToAnthropicEvents_def resToAnthHandleCreated_def Let_def text_of_def
      split: option.split)

lemma step_completed:
  "se_Type ev = ''response.completed'' \<Longrightarrow>
   ResponsesEventToAnthropicEvents st ev = resToAnthHandleCompleted ev st"
  by (simp add: ResponsesEventToAnthropicEvents_def)

lemma emitParts_text: "client_text (snd (emitParts ps st)) = concat (map snd ps)"
  by (induction ps arbitrary: st)
    (simp_all add: emitParts_Cons r2a_then_def split_def Let_def del: emitParts.simps(2))

lemma terminalText_content:
  "client_text (snd (resToAnthRecoverTerminalText ev st)) =
     (case se_Response ev of None \<Rightarrow> []
      | Some r \<Rightarrow> if R_textDelivered st then [] else concat (map snd (terminalTextParts (rr_Output r))))"
proof (cases "se_Response ev")
  case (Some r)
  show ?thesis
  proof (cases "R_textDelivered st")
    case False
    have "snd (emitParts ps st) = [] \<Longrightarrow> concat (map snd ps) = []" for ps
      using emitParts_text [of ps st] by simp
    then show ?thesis
      using Some False emitParts_text [of "terminalTextParts (rr_Output r)" st]
      by (simp add: resToAnthRecoverTerminalText_def split_def Let_def del: concat_eq_Nil_conv)
  qed (simp add: resToAnthRecoverTerminalText_def Some)
qed (simp add: resToAnthRecoverTerminalText_def)

lemma completed_content:
  assumes "\<not> R_MessageStopSent st"
  shows "client_text (snd (resToAnthHandleCompleted ev st)) =
     (case se_Response ev of None \<Rightarrow> []
      | Some r \<Rightarrow> if R_textDelivered st then [] else concat (map snd (terminalTextParts (rr_Output r))))"
    and "R_MessageStopSent (fst (resToAnthHandleCompleted ev st))"
  using assms
  by (simp_all add: resToAnthHandleCompleted_def split_def Let_def terminalText_content
      split: option.split)

lemma stopped_final: "R_MessageStopSent st \<Longrightarrow> FinalizeResponsesAnthropicStream st = (st, [])"
  by (simp add: FinalizeResponsesAnthropicStream_def)

text \<open>
  the client receives the text of every part completely and exactly once, in order,
  although each part's text comes twice, as deltas and in its done event, and a third time
  in the terminal payload: a done event adds exactly the tail that the deltas missed.
  Every part but the first is expected to have been streamed at least in part.
\<close>

theorem text_delivered_once:
  assumes "se_Type created = ''response.created''" and "se_Type completed = ''response.completed''"
    and "distinct (map fst (l # ls))" and "part_text l \<noteq> []"
    and "\<And>m. m \<in> set ls \<Longrightarrow> concat (fst (snd m)) \<noteq> []"
  shows "client_text (snd (anthropic_stream now
           (created # concat (map part_events (l # ls)) @ [completed]))) =
         concat (map part_text (l # ls))"
proof -
  obtain st1 os1 where 1: "ResponsesEventToAnthropicEvents (NewResponsesEventToAnthropicState now) created = (st1, os1)"
    and f1: "client_text os1 = []" "\<not> R_MessageStopSent st1" "\<not> R_textDelivered st1" "R_textByPart st1 = []"
    using step_created [OF assms(1), of "NewResponsesEventToAnthropicState now"] by auto
  obtain st2 os2 where 2: "run_stream ResponsesEventToAnthropicEvents st1 (part_events l) = (st2, os2)"
    and f2: "client_text os2 = part_text l" "\<not> R_MessageStopSent st2" "R_textDelivered st2"
      "\<And>q. q \<noteq> fst l \<Longrightarrow> map_get (R_textByPart st2) q = None"
    using part_run [of st1 l] f1 assms(4) by auto
  have "map_get (R_textByPart st2) (fst m) = None" if "m \<in> set ls" for m
    using f2(4) distinct_head_neq [OF assms(3) that] by blast
  then obtain st3 os3 where 3: "run_stream ResponsesEventToAnthropicEvents st2 (concat (map part_events ls)) = (st3, os3)"
    and f3: "client_text os3 = concat (map part_text ls)" "\<not> R_MessageStopSent st3" "R_textDelivered st3"
    using parts_run [of st2 ls] f2 assms(3,5) by auto
  obtain st4 os4 where 4: "resToAnthHandleCompleted completed st3 = (st4, os4)" by fastforce
  with completed_content [of st3 completed] f3 have "client_text os4 = []" "R_MessageStopSent st4"
    by (auto split: option.splits)
  with 1 2 3 4 f1 f2 f3 show ?thesis
    by (simp add: anthropic_stream_def run_stream_append r2a_then_def step_completed assms(2) stopped_final)
qed

theorem text_delivered_once_witness:
  "client_text (snd (anthropic_stream 0
     (emptyEvent\<lparr>se_Type := ''response.created''\<rparr> #
      concat (map part_events [((0, 0), [''Hel'', ''l''], ''o''), ((2, 0), ['' wor''], ''ld'')]) @
      [emptyEvent\<lparr>se_Type := ''response.completed''\<rparr>]))) = ''Hello world''"
  by (subst text_delivered_once) (auto simp: part_text_def)

text \<open>
  when the upstream streamed no text at all, the text of its terminal payload reaches
  the client, in order and completely.
\<close>

theorem terminal_text_recovered:
  assumes "se_Type created = ''response.created''" and "se_Type completed = ''response.completed''"
    and "se_Response completed = Some r"
  shows "client_text (snd (anthropic_stream now [created, completed])) =
         concat (map snd (terminalTextParts (rr_Output r)))"
proof -
  obtain st1 os1 where 1: "ResponsesEventToAnthropicEvents (NewResponsesEventToAnthropicState now) created = (st1, os1)"
    and f1: "client_text os1 = []" "\<not> R_MessageStopSent st1" "\<not> R_textDelivered st1"
    using step_created [OF assms(1), of "NewResponsesEventToAnthropicState now"] by auto
  obtain st2 os2 where 2: "resToAnthHandleCompleted completed st1 = (st2, os2)" by fastforce
  with completed_content [of st1 completed] f1 assms(3)
  have "client_text os2 = concat (map snd (terminalTextParts (rr_Output r)))" "R_MessageStopSent st2"
    by auto
  with 1 2 f1 show ?thesis
    by (simp add: anthropic_stream_def r2a_then_def step_completed assms(2) stopped_final)
qed

definition greeting :: ResponsesResponse where
  "greeting = \<lparr>rr_ID = ''r'', rr_Object = ''response'', rr_CreatedAt = 0,
     rr_Model = ''m'', rr_Status = ''completed'',
     rr_Output = [messageOutput ''i'' [textPart ''Hi'', textPart ''!'']], rr_Usage = None,
     rr_ServiceTier = [], rr_IncompleteDetails = None, rr_Error = None\<rparr>"

theorem terminal_text_recovered_witness:
  "client_text (snd (anthropic_stream 0
     [emptyEvent\<lparr>se_Type := ''response.created''\<rparr>,
      emptyEvent\<lparr>se_Type := ''response.completed'', se_Response := Some greeting\<rparr>])) = ''Hi!''"
  by (subst terminal_text_recovered [where r = greeting])
    (simp_all add: terminalTextParts_def messageOutput_def greeting_def)

subsection \<open>Tool calls\<close>

definition toolAddedOf :: "int \<Rightarrow> ResponsesOutput \<Rightarrow> ResponsesStreamEvent" where
  "toolAddedOf oi item = emptyEvent\<lparr>se_Type := ''response.output_item.added'',
     se_OutputIndex := oi, se_Item := Some item\<rparr>"

definition argsDeltaOf :: "int \<Rightarrow> gostring \<Rightarrow> ResponsesStreamEvent" where
  "argsDeltaOf oi s = emptyEvent\<lparr>se_Type := ''response.function_call_arguments.delta'',
     se_OutputIndex := oi, se_Delta := s\<rparr>"

definition argsDoneOf :: "int \<Rightarrow> gostring \<Rightarrow> ResponsesStreamEvent" where
  "argsDoneOf oi s = emptyEvent\<lparr>se_Type := ''response.function_call_arguments.done'',
     se_OutputIndex := oi, se_Arguments := s\<rparr>"

lemma step_toolAdded:
  "ro_Type item = ''function_call'' \<or> ro_Type item = ''custom_tool_call'' \<Longrightarrow>
   ResponsesEventToAnthropicEvents st (toolAddedOf oi item) = startToolBlock (toolAddedOf oi item) item st"
  by (simp add: ResponsesEventToAnthropicEvents_def resToAnthHandleOutputItemAdded_def toolAddedOf_def)

lemma step_argsDelta:
  "ResponsesEventToAnthropicEvents st (argsDeltaOf oi s) =
     resToAnthHandleFuncArgsDelta (argsDeltaOf oi s) st"
  by (simp add: ResponsesEventToAnthropicEvents_def argsDeltaOf_def)

lemma step_argsDone:
  "ResponsesEventToAnthropicEvents st (argsDoneOf oi s) =
     resToAnthHandleFuncArgsDone (argsDoneOf oi s) st"
  by (simp add: ResponsesEventToAnthropicEvents_def argsDoneOf_def)

lemma args_event_simps [simp]:
  "se_Delta (argsDeltaOf oi s) = s" "se_OutputIndex (argsDeltaOf oi s) = oi"
  "se_Arguments (argsDoneOf oi s) = s" "se_OutputIndex (argsDoneOf oi s) = oi"
  "se_OutputIndex (toolAddedOf oi item) = oi"
  by (simp_all add: argsDeltaOf_def argsDoneOf_def toolAddedOf_def)

text \<open>The state between a tool call's start and its end.\<close>

definition in_tool :: "int \<Rightarrow> gostring \<Rightarrow> bool \<Rightarrow> gostring \<Rightarrow> ResponsesEventToAnthropicState \<Rightarrow> bool" where
  "in_tool oi name hadDelta args st \<longleftrightarrow>
     R_ContentBlockOpen st \<and> R_CurrentBlockType st = ''tool_use'' \<and> R_CurrentToolName st = name \<and>
     R_CurrentToolHadDelta st = hadDelta \<and> R_CurrentToolArgs st = args \<and>
     map_get (R_OutputIndexToBlockIdx st) oi = Some (R_ContentBlockIndex st)"

lemma tool_start:
  assumes "ro_Type item = ''function_call'' \<or> ro_Type item = ''custom_tool_call''"
  shows "\<exists>st' os. ResponsesEventToAnthropicEvents st (toolAddedOf oi item) = (st', os) \<and>
     client_args os = [] \<and> in_tool oi (ro_Name item) False [] st'"
  unfolding step_toolAdded [OF assms] startToolBlock_def split_def Let_def
  by (simp add: in_tool_def)

lemma tool_delta:
  assumes "in_tool oi name h a st" and "name \<noteq> ''Read'' \<or> h" and "d \<noteq> []"
  shows "\<exists>st' os a'. ResponsesEventToAnthropicEvents st (argsDeltaOf oi d) = (st', os) \<and>
     client_args os = (if name = ''Read'' then [] else d) \<and> in_tool oi name True a' st'"
  using assms unfolding step_argsDelta
  by (auto simp: resToAnthHandleFuncArgsDelta_def emitReadArgs_def in_tool_def)

lemma tool_deltas:
  assumes "in_tool oi name h a st" and "name \<noteq> ''Read'' \<or> h" and "[] \<notin> set ds"
  shows "\<exists>st' os a'. run_stream ResponsesEventToAnthropicEvents st (map (argsDeltaOf oi) ds) = (st', os) \<and>
     client_args os = (if name = ''Read'' then [] else concat ds) \<and>
     in_tool oi name (h \<or> ds \<noteq> []) a' st' \<and> (ds = [] \<longrightarrow> a' = a)"
  using assms
proof (induction ds arbitrary: st h a)
  case (Cons d ds)
  from Cons.prems(3) have "d \<noteq> []" by auto
  then obtain st1 os1 a1 where 1: "ResponsesEventToAnthropicEvents st (argsDeltaOf oi d) = (st1, os1)"
    "client_args os1 = (if name = ''Read'' then [] else d)" "in_tool oi name True a1 st1"
    using tool_delta [OF Cons.prems(1,2)] by blast
  moreover obtain st2 os2 a2 where
    "run_stream ResponsesEventToAnthropicEvents st1 (map (argsDeltaOf oi) ds) = (st2, os2)"
    "client_args os2 = (if name = ''Read'' then [] else concat ds)" "in_tool oi name True a2 st2"
    using Cons.IH [OF 1(3)] Cons.prems(3) by auto
  ultimately show ?case by auto
qed auto

lemma tool_done:
  assumes "in_tool oi name h a st"
  shows "client_args (snd (ResponsesEventToAnthropicEvents st (argsDoneOf oi args))) =
     (if h then [] else sanitizeAnthropicToolUseInput name (if args = [] then a else args))"
  using assms unfolding step_argsDone
  by (auto simp: resToAnthHandleFuncArgsDone_def emitDoneArgs_def in_tool_def split_def Let_def
      sanitizeAnthropicToolUseInput_def)

definition tool_events :: "int \<Rightarrow> ResponsesOutput \<Rightarrow> gostring list \<Rightarrow> gostring \<Rightarrow> ResponsesStreamEvent list" where
  "tool_events oi item ds args =
     toolAddedOf oi item # map (argsDeltaOf oi) ds @ [argsDoneOf oi args]"

text \<open>
  in whatever state a tool call begins, the client receives its arguments exactly once:
  the streamed fragments when there were any, and the done event's arguments when there
  were none.
\<close>

theorem tool_arguments_once:
  assumes "ro_Type item = ''function_call'' \<or> ro_Type item = ''custom_tool_call''"
    and "ro_Name item \<noteq> ''Read''" and "[] \<notin> set ds"
  shows "client_args (snd (run_stream ResponsesEventToAnthropicEvents st (tool_events oi item ds args))) =
         (if ds = [] then args else concat ds)"
proof -
  obtain st1 os1 where 1: "ResponsesEventToAnthropicEvents st (toolAddedOf oi item) = (st1, os1)"
    "client_args os1 = []" "in_tool oi (ro_Name item) False [] st1"
    using tool_start [OF assms(1)] by blast
  obtain st2 os2 a2 where 2: "run_stream ResponsesEventToAnthropicEvents st1 (map (argsDeltaOf oi) ds) = (st2, os2)"
    "client_args os2 = concat ds" "in_tool oi (ro_Name item) (ds \<noteq> []) a2 st2" "ds = [] \<longrightarrow> a2 = []"
    using tool_deltas [OF 1(3), of ds] assms(2,3) by auto
  obtain st3 os3 where 3: "ResponsesEventToAnthropicEvents st2 (argsDoneOf oi args) = (st3, os3)" by fastforce
  with tool_done [OF 2(3), of args] 2(4) assms(2)
  have "client_args os3 = (if ds = [] then args else [])"
    by (auto simp: sanitizeAnthropicToolUseInput_def)
  with 1 2 3 show ?thesis by (simp add: tool_events_def run_stream_append)
qed

theorem tool_arguments_once_witness:
  "client_args (snd (run_stream ResponsesEventToAnthropicEvents (NewResponsesEventToAnthropicState 0)
     (tool_events 0 (emptyOutput\<lparr>ro_Type := ''function_call'', ro_Name := ''Bash''\<rparr>)
        [''[1'', '',2]''] ''[1,2]''))) = ''[1,2]''"
  by (subst tool_arguments_once) simp_all

text \<open>
  The \<open>Read\<close> tool: fragments are held back until they make a valid JSON text, which is
  sent once, without an empty \<open>pages\<close> argument.
\<close>

lemma read_held:
  assumes "in_tool oi ''Read'' False a st"
    and "[] \<notin> set ds" and "\<And>k. 0 < k \<Longrightarrow> k \<le> length ds \<Longrightarrow> \<not> json_valid (a @ concat (take k ds))"
  shows "\<exists>st' os. run_stream ResponsesEventToAnthropicEvents st (map (argsDeltaOf oi) ds) = (st', os) \<and>
     client_args os = [] \<and> in_tool oi ''Read'' False (a @ concat ds) st'"
  using assms
proof (induction ds arbitrary: st a)
  case (Cons d ds)
  have "\<not> json_valid (a @ d)" using Cons.prems(3) [of 1] by simp
  then have 1: "ResponsesEventToAnthropicEvents st (argsDeltaOf oi d) =
      (st\<lparr>R_CurrentToolArgs := a @ d\<rparr>, [])"
    using Cons.prems(1,2) unfolding step_argsDelta
    by (simp add: resToAnthHandleFuncArgsDelta_def emitReadArgs_def in_tool_def Let_def)
  have "in_tool oi ''Read'' False (a @ d) (st\<lparr>R_CurrentToolArgs := a @ d\<rparr>)"
    using Cons.prems(1) by (simp add: in_tool_def)
  moreover have "\<not> json_valid ((a @ d) @ concat (take k ds))" if "0 < k" "k \<le> length ds" for k
    using Cons.prems(3) [of "Suc k"] that by simp
  ultimately obtain st' os where
    "run_stream ResponsesEventToAnthropicEvents (st\<lparr>R_CurrentToolArgs := a @ d\<rparr>) (map (argsDeltaOf oi) ds) = (st', os)"
    "client_args os = []" "in_tool oi ''Read'' False ((a @ d) @ concat ds) st'"
    using Cons.IH Cons.prems(2) by (metis list.set_intros(2))
  with 1 show ?case by simp
qed simp

text \<open>
  a \<open>Read\<close> call whose fragments first make a valid JSON text at the n-th fragment
  reaches the client as that text, sanitized, exactly once; later fragments and the done
  event add nothing.
\<close>

theorem read_arguments_once:
  assumes "ro_Type item = ''function_call''" and "ro_Name item = ''Read''" and "[] \<notin> set (ds @ [d] @ es)"
    and "\<And>k. 0 < k \<Longrightarrow> k \<le> length ds \<Longrightarrow> \<not> json_valid (concat (take k ds))"
    and "json_valid (concat ds @ d)"
  shows "client_args (snd (run_stream ResponsesEventToAnthropicEvents st (tool_events oi item (ds @ [d] @ es) args))) =
         sanitizeAnthropicToolUseInput ''Read'' (concat ds @ d)"
proof -
  obtain st1 os1 where 1: "ResponsesEventToAnthropicEvents st (toolAddedOf oi item) = (st1, os1)"
    "client_args os1 = []" "in_tool oi ''Read'' False [] st1"
    using tool_start [of item st oi] assms(1,2) by auto
  obtain st2 os2 where 2: "run_stream ResponsesEventToAnthropicEvents st1 (map (argsDeltaOf oi) ds) = (st2, os2)"
    "client_args os2 = []" "in_tool oi ''Read'' False (concat ds) st2"
    using read_held [OF 1(3), of ds] assms(3,4) by auto
  let ?st3 = "st2\<lparr>R_CurrentToolArgs := concat ds @ d, R_CurrentToolHadDelta := True\<rparr>"
  have 3: "\<exists>os3. ResponsesEventToAnthropicEvents st2 (argsDeltaOf oi d) = (?st3, os3) \<and>
      client_args os3 = sanitizeAnthropicToolUseInput ''Read'' (concat ds @ d)"
    using 2(3) assms(3,5) unfolding step_argsDelta
    by (auto simp: resToAnthHandleFuncArgsDelta_def emitReadArgs_def in_tool_def Let_def)
  have "in_tool oi ''Read'' True (concat ds @ d) ?st3" using 2(3) by (simp add: in_tool_def)
  from tool_deltas [OF this, of es] assms(3) obtain st4 os4 a4 where
    4: "run_stream ResponsesEventToAnthropicEvents ?st3 (map (argsDeltaOf oi) es) = (st4, os4)"
    "client_args os4 = []" "in_tool oi ''Read'' True a4 st4" by auto
  obtain st5 os5 where 5: "ResponsesEventToAnthropicEvents st4 (argsDoneOf oi args) = (st5, os5)" by fastforce
  with tool_done [OF 4(3), of args] have "client_args os5 = []" by simp
  with 1 2 3 4 5 show ?thesis by (auto simp: tool_events_def run_stream_append)
qed

definition read_fragments :: "gostring list" where
  "read_fragments = [''{'' @ json_quote ''f'' @ '':1,'', json_quote ''pages'' @ '':'', [dquote, dquote] @ ''}'']"

theorem read_arguments_once_witness:
  "client_args (snd (run_stream ResponsesEventToAnthropicEvents (NewResponsesEventToAnthropicState 0)
     (tool_events 0 (emptyOutput\<lparr>ro_Type := ''function_call'', ro_Name := ''Read''\<rparr>)
        (take 2 read_fragments @ [read_fragments ! 2] @ []) []))) = ''{'' @ json_quote ''f'' @ '':1}''"
proof (subst read_arguments_once)
  have "\<not> json_valid (concat (take 1 read_fragments))" "\<not> json_valid (concat (take 2 read_fragments))"
    by code_simp+
  then show "\<not> json_valid (concat (take k (take 2 read_fragments)))"
    if "0 < k" "k \<le> length (take 2 read_fragments)" for k :: nat
  proof -
    from that have "k = 1 \<or> k = 2" by (auto simp: read_fragments_def)
    then show ?thesis
      using \<open>\<not> json_valid (concat (take 1 read_fragments))\<close> \<open>\<not> json_valid (concat (take 2 read_fragments))\<close>
      by auto
  qed
qed (simp, simp, simp add: read_fragments_def json_quote_def, code_simp, code_simp)

end
