(* ===== verification/ConverterRoundtrip.thy ===== *)
theory ConverterRoundtrip
  imports AnthropicBlocks ResponsesContent
begin

text \<open>
  The two whole-response converters against each other: an Anthropic response that went
  to the Responses format and back keeps its text, its thinking text, its tool calls, its
  token counts and the meaning of its stop reason.
\<close>

subsection \<open>Token counts\<close>

text \<open>
  The token counts that one converter adds up, the other separates again. The counts
  survive even where the total of 64 bits wraps around.
\<close>

theorem usage_roundtrip:
  assumes "0 \<le> i" and "in64 i" and "0 \<le> cr"
  shows "anthropicUsageFromResponsesUsage (Some (responsesUsageOf i out cr cc)) =
     emptyAnthropicUsage\<lparr>au_InputTokens := i, au_OutputTokens := out,
       au_CacheReadInputTokens := cr, au_CacheCreationInputTokens := cc\<rparr>"
proof -
  have "wrap64 (wrap64 (wrap64 (wrap64 (i + cr) + cc) - cr) - cc) = wrap64 (i + cr + cc - cr - cc)"
    by simp
  also have "\<dots> = i" using assms(2) by (simp add: wrap64_id)
  finally have sep: "wrap64 (i + cr + cc - cr - cc) = i" by simp
  show ?thesis
  proof (cases "0 < cr")
    case True
    with sep assms(1) show ?thesis
      by (simp add: anthropicUsageFromResponsesUsage_def responsesUsageOf_def Let_def)
  next
    case False
    with assms(3) have "cr = 0" by simp
    with sep assms(1,2) show ?thesis
      by (simp add: anthropicUsageFromResponsesUsage_def responsesUsageOf_def Let_def wrap64_id)
  qed
qed

theorem usage_roundtrip_witness:
  "au_InputTokens (anthropicUsageFromResponsesUsage
     (Some (responsesUsageOf (2 ^ 63 - 1) 7 5 3))) = 2 ^ 63 - 1"
  by (subst usage_roundtrip) (simp_all add: in64_def)

subsection \<open>Content\<close>

definition block_texts :: "AnthropicContentBlock list \<Rightarrow> gostring" where
  "block_texts bs = concat (map (\<lambda>b. if cb_Type b = ''text'' then cb_Text b else []) bs)"

definition block_thinking :: "AnthropicContentBlock list \<Rightarrow> gostring" where
  "block_thinking bs = concat (map (\<lambda>b.
     if cb_Type b = ''thinking'' \<or> cb_Type b = ''redacted_thinking'' then cb_Thinking b else []) bs)"

definition block_tools :: "AnthropicContentBlock list \<Rightarrow> (gostring \<times> gostring \<times> gostring) list" where
  "block_tools bs = map (\<lambda>b. (cb_ID b, cb_Name b, cb_Input b)) (filter (\<lambda>b. cb_Type b = ''tool_use'') bs)"

lemma block_obs_simps [simp]:
  "block_texts [] = []" "block_texts (xs @ ys) = block_texts xs @ block_texts ys"
  "block_texts (b # bs) = (if cb_Type b = ''text'' then cb_Text b else []) @ block_texts bs"
  "block_thinking [] = []" "block_thinking (xs @ ys) = block_thinking xs @ block_thinking ys"
  "block_thinking (b # bs) = (if cb_Type b = ''thinking'' \<or> cb_Type b = ''redacted_thinking''
     then cb_Thinking b else []) @ block_thinking bs"
  "block_tools [] = []" "block_tools (xs @ ys) = block_tools xs @ block_tools ys"
  "block_tools (b # bs) = (if cb_Type b = ''tool_use''
     then (cb_ID b, cb_Name b, cb_Input b) # block_tools bs else block_tools bs)"
  by (simp_all add: block_texts_def block_thinking_def block_tools_def)

definition item_list_blocks :: "ResponsesOutput list \<Rightarrow> AnthropicContentBlock list" where
  "item_list_blocks items = concat (map itemBlocks items)"

lemma item_list_blocks_simps [simp]:
  "item_list_blocks [] = []" "item_list_blocks (xs @ ys) = item_list_blocks xs @ item_list_blocks ys"
  "item_list_blocks (x # xs) = itemBlocks x @ item_list_blocks xs"
  by (simp_all add: item_list_blocks_def)

definition part_texts :: "ResponsesContentPart list \<Rightarrow> gostring" where
  "part_texts ps = concat (map (\<lambda>p. if cp_Type p = ''output_text'' then cp_Text p else []) ps)"

lemma part_texts_simps [simp]:
  "part_texts [] = []" "part_texts (ps @ qs) = part_texts ps @ part_texts qs"
  "part_texts (p # ps) = (if cp_Type p = ''output_text'' then cp_Text p else []) @ part_texts ps"
  by (simp_all add: part_texts_def)

lemma message_item_obs [simp]:
  "block_texts (itemBlocks (messageOutput i ps)) = part_texts ps"
  "block_thinking (itemBlocks (messageOutput i ps)) = []"
  "block_tools (itemBlocks (messageOutput i ps)) = []"
  by (induction ps) (auto simp: itemBlocks_def messageOutput_def)

lemma reasoning_item_obs [simp]:
  "block_texts (itemBlocks (emptyOutput\<lparr>ro_Type := ''reasoning'', ro_ID := i, ro_EncryptedContent := e,
     ro_Summary := ss\<rparr>)) = []"
  "block_thinking (itemBlocks (emptyOutput\<lparr>ro_Type := ''reasoning'', ro_ID := i, ro_EncryptedContent := e,
     ro_Summary := ss\<rparr>)) = summaryTextOf ss"
  "block_tools (itemBlocks (emptyOutput\<lparr>ro_Type := ''reasoning'', ro_ID := i, ro_EncryptedContent := e,
     ro_Summary := ss\<rparr>)) = []"
  "block_texts (itemBlocks (emptyOutput\<lparr>ro_Type := ''reasoning'', ro_ID := i, ro_Summary := ss\<rparr>)) = []"
  "block_thinking (itemBlocks (emptyOutput\<lparr>ro_Type := ''reasoning'', ro_ID := i, ro_Summary := ss\<rparr>)) =
     summaryTextOf ss"
  "block_tools (itemBlocks (emptyOutput\<lparr>ro_Type := ''reasoning'', ro_ID := i, ro_Summary := ss\<rparr>)) = []"
  by (auto simp: itemBlocks_def)

lemma summaryTextOf_simps [simp]:
  "summaryTextOf [] = []" "summaryTextOf [summaryText s] = s"
  by (simp_all add: summaryTextOf_def summaryText_def)

text \<open>What a tool call's identifier and input become on the way there and back.\<close>

definition tool_back :: "gostring \<times> gostring \<times> gostring \<Rightarrow> gostring \<times> gostring \<times> gostring" where
  "tool_back t = (case t of (i, n, inp) \<Rightarrow>
     (fromResponsesCallID i, n, sanitizeAnthropicToolUseInput n (if inp \<noteq> [] then inp else ''{}'')))"

definition kept ::
  "gostring \<Rightarrow> AnthropicContentBlock list \<Rightarrow> ResponsesOutput list \<times> ResponsesContentPart list \<Rightarrow>
   ResponsesOutput list \<times> ResponsesContentPart list \<Rightarrow> bool" where
  "kept model bs a a' \<longleftrightarrow>
     (if preservesThinking model then snd a' = [] else block_texts (item_list_blocks (fst a')) = []) \<and>
     block_texts (item_list_blocks (fst a')) @ part_texts (snd a') =
       block_texts (item_list_blocks (fst a)) @ part_texts (snd a) @ block_texts bs \<and>
     block_thinking (item_list_blocks (fst a')) =
       block_thinking (item_list_blocks (fst a)) @ block_thinking bs \<and>
     block_tools (item_list_blocks (fst a')) =
       block_tools (item_list_blocks (fst a)) @ map tool_back (block_tools bs)"

lemma tool_item_obs:
  "itemBlocks (emptyOutput\<lparr>ro_Type := ''function_call'', ro_ID := i, ro_CallID := c, ro_Name := n,
     ro_Arguments := a, ro_Status := s\<rparr>) =
   [emptyBlock\<lparr>cb_Type := ''tool_use'', cb_ID := fromResponsesCallID c, cb_Name := n,
      cb_Input := sanitizeAnthropicToolUseInput n a\<rparr>]"
  by (simp add: itemBlocks_def)

lemma convertBlock_kept:
  assumes "if preservesThinking model then snd a = [] else block_texts (item_list_blocks (fst a)) = []"
  shows "kept model [b] a (snd (convertBlock rnd model b (n, a)))"
  using assms
  by (cases a) (auto simp: kept_def convertBlock_def tool_item_obs tool_back_def toResponsesCallID_def)

lemma convertBlocks_kept:
  assumes "if preservesThinking model then snd a = [] else block_texts (item_list_blocks (fst a)) = []"
  shows "kept model bs a (snd (fold (convertBlock rnd model) bs (n, a)))"
  using assms
proof (induction bs arbitrary: n a)
  case (Cons b bs)
  obtain n1 a1 where 1: "convertBlock rnd model b (n, a) = (n1, a1)" by (metis surj_pair)
  with convertBlock_kept [OF Cons.prems, of b rnd n] have "kept model [b] a a1" by simp
  moreover from this have "if preservesThinking model then snd a1 = [] else block_texts (item_list_blocks (fst a1)) = []"
    by (simp add: kept_def)
  from Cons.IH [OF this, of n1] have "kept model bs a1 (snd (fold (convertBlock rnd model) bs (n1, a1)))" .
  ultimately show ?case by (auto simp: kept_def 1)
qed (simp add: kept_def)

lemma convertedOutputs_obs:
  "block_texts (item_list_blocks (convertedOutputs rnd n resp)) = block_texts (ar_Content resp)"
  "block_thinking (item_list_blocks (convertedOutputs rnd n resp)) = block_thinking (ar_Content resp)"
  "block_tools (item_list_blocks (convertedOutputs rnd n resp)) =
     map tool_back (block_tools (ar_Content resp))"
proof -
  obtain m os ps where f: "fold (convertBlock rnd (ar_Model resp)) (ar_Content resp) (n, [], []) = (m, os, ps)"
    by (metis prod.exhaust)
  with convertBlocks_kept [of "ar_Model resp" "([], [])" "ar_Content resp" rnd n]
  have k: "kept (ar_Model resp) (ar_Content resp) ([], []) (os, ps)" by simp
  show "block_texts (item_list_blocks (convertedOutputs rnd n resp)) = block_texts (ar_Content resp)"
    "block_thinking (item_list_blocks (convertedOutputs rnd n resp)) = block_thinking (ar_Content resp)"
    "block_tools (item_list_blocks (convertedOutputs rnd n resp)) =
     map tool_back (block_tools (ar_Content resp))"
    using k by (auto simp: convertedOutputs_def f Let_def kept_def)
qed

lemma content_there_and_back:
  fixes resp rnd now model
  defines "bs \<equiv> ar_Content (ResponsesToAnthropic (AnthropicToResponsesResponse rnd now resp) model)"
  shows "block_texts bs = block_texts (ar_Content resp)"
    and "block_thinking bs = block_thinking (ar_Content resp)"
    and "block_tools bs = map tool_back (block_tools (ar_Content resp))"
proof -
  let ?n = "if ar_ID resp = [] then 1 else 0"
  let ?bs = "item_list_blocks (convertedOutputs rnd ?n resp)"
  have "bs = (if ?bs = [] then [emptyBlock\<lparr>cb_Type := ''text'', cb_Text := []\<rparr>] else ?bs)"
    by (simp add: bs_def ResponsesToAnthropic_def AnthropicToResponsesResponse_def Let_def item_list_blocks_def)
  then show "block_texts bs = block_texts (ar_Content resp)"
    "block_thinking bs = block_thinking (ar_Content resp)"
    "block_tools bs = map tool_back (block_tools (ar_Content resp))"
    using convertedOutputs_obs [of rnd ?n resp] by auto
qed

text \<open>
  C34: a response that went to the Responses format and back has the same text, the same
  thinking text and the same tool calls with their identifiers, names and inputs, up to
  what \<open>tool_back\<close> says of legacy identifiers and of absent or empty-\<open>pages\<close> inputs.
\<close>

theorem content_roundtrip:
  "block_texts (ar_Content (ResponsesToAnthropic (AnthropicToResponsesResponse rnd now resp) model)) =
     block_texts (ar_Content resp) \<and>
   block_thinking (ar_Content (ResponsesToAnthropic (AnthropicToResponsesResponse rnd now resp) model)) =
     block_thinking (ar_Content resp) \<and>
   block_tools (ar_Content (ResponsesToAnthropic (AnthropicToResponsesResponse rnd now resp) model)) =
     map tool_back (block_tools (ar_Content resp))"
  by (simp add: content_there_and_back)

lemma contains_tool_use: "containsAnthropicToolUseBlock bs = (block_tools bs \<noteq> [])"
  by (induction bs) (simp_all add: containsAnthropicToolUseBlock_def)

text \<open>
  The stop reason there and back: \<open>max_tokens\<close> survives, and every other reason becomes
  \<open>tool_use\<close> if the response calls a tool and \<open>end_turn\<close> if it does not.
\<close>

theorem stop_reason_there_and_back:
  "ar_StopReason (ResponsesToAnthropic (AnthropicToResponsesResponse rnd now resp) model) =
     Some (if AnthropicStopReasonString (ar_StopReason resp) = ''max_tokens'' then ''max_tokens''
           else if block_tools (ar_Content resp) \<noteq> [] then ''tool_use'' else ''end_turn'')"
proof -
  let ?r = "AnthropicToResponsesResponse rnd now resp"
  let ?a = "ResponsesToAnthropic ?r model"
  have "ar_StopReason ?a = Some (responsesStatusToAnthropicStopReason (rr_Status ?r)
      (rr_IncompleteDetails ?r) (ar_Content ?a))"
    by (simp add: ResponsesToAnthropic_def Let_def AnthropicStopReasonPtr_def)
  moreover have "containsAnthropicToolUseBlock (ar_Content ?a) = (block_tools (ar_Content resp) \<noteq> [])"
    by (simp add: contains_tool_use content_there_and_back)
  moreover have "rr_Status ?r =
      (if AnthropicStopReasonString (ar_StopReason resp) = ''max_tokens'' then ''incomplete'' else ''completed'')"
    by (simp add: AnthropicToResponsesResponse_def Let_def anthropicStopReasonToResponsesStatus_def)
  moreover have "rr_IncompleteDetails ?r = (if AnthropicStopReasonString (ar_StopReason resp) = ''max_tokens''
      then Some \<lparr>id_Reason = ''max_output_tokens''\<rparr> else None)"
    by (simp add: AnthropicToResponsesResponse_def Let_def anthropicStopReasonToResponsesStatus_def)
  ultimately show ?thesis by (simp add: responsesStatusToAnthropicStopReason_def)
qed

end
