(* ===== verification/Idempotency.thy ===== *)
theory Idempotency
  imports JsonText
begin

text \<open>
  Idempotent execution of write requests: the coordinator of \<open>service/idempotency.go\<close> and
  the table \<open>idempotency_records\<close> behind it, \<open>repository/idempotency_repo.go\<close>.

  The repository interface of the code is a record of functions on a store state; a call
  that returns an error is \<open>None\<close>. SHA-256, \<open>json.Marshal\<close> of the payload and of the
  result, and the redaction of stored bodies are parameters (\<open>idem_env\<close>); the readings of
  the clock are arguments. Metrics and audit logs are left out. A decoded stored body is
  represented by the JSON text it was decoded from.
\<close>

subsection \<open>Records, configuration and errors\<close>

definition IdempotencyStatusProcessing :: gostring where "IdempotencyStatusProcessing = ''processing''"
definition IdempotencyStatusSucceeded :: gostring where "IdempotencyStatusSucceeded = ''succeeded''"
definition IdempotencyStatusFailedRetryable :: gostring where
  "IdempotencyStatusFailedRetryable = ''failed_retryable''"

lemmas idem_status_defs = IdempotencyStatusProcessing_def IdempotencyStatusSucceeded_def
  IdempotencyStatusFailedRetryable_def

record IdempotencyRecord =
  ir_ID :: int
  ir_Scope :: gostring
  ir_IdempotencyKeyHash :: gostring
  ir_RequestFingerprint :: gostring
  ir_Status :: gostring
  ir_ResponseStatus :: "int option"
  ir_ResponseBody :: "gostring option"
  ir_ErrorReason :: "gostring option"
  ir_LockedUntil :: "gotime option"
  ir_ExpiresAt :: gotime

record 's IdempotencyRepository =
  repo_CreateProcessing :: "IdempotencyRecord \<Rightarrow> 's \<Rightarrow> (bool \<times> IdempotencyRecord) option \<times> 's"
  repo_GetByScopeAndKeyHash :: "gostring \<Rightarrow> gostring \<Rightarrow> 's \<Rightarrow> IdempotencyRecord option option"
  repo_TryReclaim :: "int \<Rightarrow> gostring \<Rightarrow> gotime \<Rightarrow> gotime \<Rightarrow> gotime \<Rightarrow> 's \<Rightarrow> bool option \<times> 's"
  repo_ExtendProcessingLock :: "int \<Rightarrow> gostring \<Rightarrow> gotime \<Rightarrow> gotime \<Rightarrow> 's \<Rightarrow> bool option \<times> 's"
  repo_MarkSucceeded :: "int \<Rightarrow> int \<Rightarrow> gostring \<Rightarrow> gotime \<Rightarrow> 's \<Rightarrow> unit option \<times> 's"
  repo_MarkFailedRetryable :: "int \<Rightarrow> gostring \<Rightarrow> gotime \<Rightarrow> gotime \<Rightarrow> 's \<Rightarrow> unit option \<times> 's"
  repo_DeleteExpired :: "gotime \<Rightarrow> int \<Rightarrow> 's \<Rightarrow> int option \<times> 's"

record IdempotencyConfig =
  ic_DefaultTTL :: goduration
  ic_SystemOperationTTL :: goduration
  ic_ProcessingTimeout :: goduration
  ic_FailedRetryBackoff :: goduration
  ic_MaxStoredResponseLen :: int
  ic_ObserveOnly :: bool

definition DefaultIdempotencyConfig :: IdempotencyConfig where
  "DefaultIdempotencyConfig =
     \<lparr>ic_DefaultTTL = 24 * hour, ic_SystemOperationTTL = 1 * hour, ic_ProcessingTimeout = 30 * second,
      ic_FailedRetryBackoff = 5 * second, ic_MaxStoredResponseLen = 64 * 1024, ic_ObserveOnly = True\<rparr>"

text \<open>The payload is its JSON encoding, \<open>None\<close> where encoding it fails.\<close>

record IdempotencyExecuteOptions =
  io_Scope :: gostring
  io_ActorScope :: gostring
  io_Method :: gostring
  io_Route :: gostring
  io_IdempotencyKey :: gostring
  io_Payload :: "gostring option"
  io_TTL :: goduration
  io_RequireKey :: bool
  io_ExecutionTimeout :: goduration

datatype idem_error =
    KeyRequired | KeyInvalid | KeyConflict | InProgress "int option" | RetryBackoff "int option"
  | StoreUnavail | InvalidPayload | ExecutorNil | ScopeRequired | ExecError gostring

datatype 'd idem_answer = Fresh 'd | Replayed gostring | Refused idem_error

record 'd idem_env =
  env_sha256 :: "gostring \<Rightarrow> gostring"
  env_marshal :: "'d \<Rightarrow> gostring option"
  env_redact :: "gostring \<Rightarrow> gostring"

definition DefaultWriteIdempotencyTTL :: "IdempotencyConfig option \<Rightarrow> goduration" where
  "DefaultWriteIdempotencyTTL coordinator =
     (case coordinator of
        Some cfg \<Rightarrow> if 0 < ic_DefaultTTL cfg then ic_DefaultTTL cfg
                    else ic_DefaultTTL DefaultIdempotencyConfig
      | None \<Rightarrow> ic_DefaultTTL DefaultIdempotencyConfig)"

definition DefaultSystemOperationIdempotencyTTL :: "IdempotencyConfig option \<Rightarrow> goduration" where
  "DefaultSystemOperationIdempotencyTTL coordinator =
     (case coordinator of
        Some cfg \<Rightarrow> if 0 < ic_SystemOperationTTL cfg then ic_SystemOperationTTL cfg
                    else ic_SystemOperationTTL DefaultIdempotencyConfig
      | None \<Rightarrow> ic_SystemOperationTTL DefaultIdempotencyConfig)"

subsection \<open>Keys and fingerprints\<close>

text \<open>
  The loop ranges over the runes of the key. A rune between 33 and 126 is one byte, and
  every other rune makes the key invalid, so the bytes decide.
\<close>

definition key_byte :: "char \<Rightarrow> bool" where
  "key_byte c \<longleftrightarrow> 33 \<le> byte c \<and> byte c \<le> 126"

definition NormalizeIdempotencyKey :: "gostring \<Rightarrow> idem_error + gostring" where
  "NormalizeIdempotencyKey raw =
     (let key = trim_space raw in
      if key = [] then Inr []
      else if length key > 128 then Inl KeyInvalid
      else if \<not> list_all key_byte key then Inl KeyInvalid
      else Inr key)"

definition HashIdempotencyKey :: "'d idem_env \<Rightarrow> gostring \<Rightarrow> gostring" where
  "HashIdempotencyKey env key = hex_encode (env_sha256 env key)"

definition newline :: char where "newline = CHR 0x0A"

definition BuildIdempotencyFingerprint ::
  "'d idem_env \<Rightarrow> gostring \<Rightarrow> gostring \<Rightarrow> gostring \<Rightarrow> gostring option \<Rightarrow> idem_error + gostring" where
  "BuildIdempotencyFingerprint env method route actorScope payload =
     (let method = (if method = [] then ''POST'' else method);
          route = (if route = [] then ''/'' else route);
          actorScope = (if actorScope = [] then ''anonymous'' else actorScope) in
      case payload of
        None \<Rightarrow> Inl InvalidPayload
      | Some raw \<Rightarrow>
          Inr (hex_encode (env_sha256 env
            (to_upper method @ newline # route @ newline # actorScope @ newline # raw))))"

subsection \<open>Retry hints and stored bodies\<close>

text \<open>
  \<open>int(d.Seconds())\<close> truncates towards zero; only durations longer than 90 days can be
  rounded up to a full second by the conversion to \<open>float64\<close>.
\<close>

definition retrySeconds :: "gotime \<Rightarrow> gotime \<Rightarrow> int" where
  "retrySeconds lockedUntil now =
     (let d = time_sub lockedUntil now;
          sec = (if d < 0 then - ((- d) div second) else d div second) in
      if sec \<le> 0 then 1 else sec)"

definition conflictWithRetryAfter ::
  "(int option \<Rightarrow> idem_error) \<Rightarrow> gotime option \<Rightarrow> gotime \<Rightarrow> idem_error" where
  "conflictWithRetryAfter base lockedUntil now =
     (case lockedUntil of
        None \<Rightarrow> base None
      | Some l \<Rightarrow> base (Some (retrySeconds l now)))"

fun shrinkUTF8 :: "gostring \<Rightarrow> nat \<Rightarrow> nat" where
  "shrinkUTF8 s 0 = 0"
| "shrinkUTF8 s (Suc n) = (if valid_utf8 (take (Suc n) s) then Suc n else shrinkUTF8 s n)"

definition truncateUTF8 :: "gostring \<Rightarrow> int \<Rightarrow> gostring" where
  "truncateUTF8 s maxBytes =
     (if maxBytes \<le> 0 \<or> int (length s) \<le> maxBytes then s
      else take (shrinkUTF8 s (nat maxBytes)) s)"

definition marshalStoredResponse :: "'d idem_env \<Rightarrow> IdempotencyConfig \<Rightarrow> 'd \<Rightarrow> gostring option" where
  "marshalStoredResponse env cfg data =
     (case env_marshal env data of
        None \<Rightarrow> None
      | Some raw \<Rightarrow>
          (let redacted = env_redact env raw in
           Some (if 0 < ic_MaxStoredResponseLen cfg \<and>
                    ic_MaxStoredResponseLen cfg < int (length redacted)
                 then truncateUTF8 redacted (ic_MaxStoredResponseLen cfg) @ ''...(truncated)''
                 else redacted)))"

definition decodeStoredResponse :: "gostring option \<Rightarrow> gostring option" where
  "decodeStoredResponse stored =
     (case stored of
        None \<Rightarrow> Some ''{}''
      | Some s \<Rightarrow>
          if trim_space s = [] then Some ''{}''
          else if json_valid s then Some s else None)"

subsection \<open>The coordinator\<close>

datatype idem_claim = Claimed int | Answered "idem_error + gostring"

text \<open>The answer to a request whose record exists and was not reclaimed as expired.\<close>

definition decideExisting ::
  "'s IdempotencyRepository \<Rightarrow> IdempotencyRecord \<Rightarrow> gotime \<Rightarrow> gotime \<Rightarrow> gotime \<Rightarrow> 's \<Rightarrow> idem_claim \<times> 's" where
  "decideExisting repo existing now lockedUntil expiresAt s =
     (if ir_Status existing = IdempotencyStatusSucceeded then
        (case decodeStoredResponse (ir_ResponseBody existing) of
           None \<Rightarrow> (Answered (Inl StoreUnavail), s)
         | Some data \<Rightarrow> (Answered (Inr data), s))
      else if ir_Status existing = IdempotencyStatusProcessing then
        (Answered (Inl (conflictWithRetryAfter InProgress (ir_LockedUntil existing) now)), s)
      else if ir_Status existing = IdempotencyStatusFailedRetryable then
        (if (case ir_LockedUntil existing of Some l \<Rightarrow> now < l | None \<Rightarrow> False) then
           (Answered (Inl (conflictWithRetryAfter RetryBackoff (ir_LockedUntil existing) now)), s)
         else
           (case repo_TryReclaim repo (ir_ID existing) IdempotencyStatusFailedRetryable now lockedUntil expiresAt s of
              (None, s1) \<Rightarrow> (Answered (Inl StoreUnavail), s1)
            | (Some taken, s1) \<Rightarrow>
                if \<not> taken
                then (Answered (Inl (conflictWithRetryAfter InProgress (ir_LockedUntil existing) now)), s1)
                else (Claimed (ir_ID existing), s1)))
      else (Answered (Inl KeyConflict), s))"

text \<open>A record whose lifetime is over is reclaimed, or read again when another request won.\<close>

definition reclaimExpired ::
  "'s IdempotencyRepository \<Rightarrow> gostring \<Rightarrow> gostring \<Rightarrow> gostring \<Rightarrow> IdempotencyRecord \<Rightarrow>
   gotime \<Rightarrow> gotime \<Rightarrow> gotime \<Rightarrow> 's \<Rightarrow> idem_claim \<times> 's" where
  "reclaimExpired repo scope keyHash fingerprint existing now lockedUntil expiresAt s =
     (case repo_TryReclaim repo (ir_ID existing) (ir_Status existing) now lockedUntil expiresAt s of
        (None, s1) \<Rightarrow> (Answered (Inl StoreUnavail), s1)
      | (Some taken, s1) \<Rightarrow>
          if taken then (Claimed (ir_ID existing), s1)
          else
            (case repo_GetByScopeAndKeyHash repo scope keyHash s1 of
               None \<Rightarrow> (Answered (Inl StoreUnavail), s1)
             | Some None \<Rightarrow> (Answered (Inl StoreUnavail), s1)
             | Some (Some latest) \<Rightarrow>
                 if ir_RequestFingerprint latest \<noteq> fingerprint then (Answered (Inl KeyConflict), s1)
                 else decideExisting repo latest now lockedUntil expiresAt s1))"

definition reuseExisting ::
  "'s IdempotencyRepository \<Rightarrow> gostring \<Rightarrow> gostring \<Rightarrow> gostring \<Rightarrow> gotime \<Rightarrow> gotime \<Rightarrow> gotime \<Rightarrow> 's \<Rightarrow>
   idem_claim \<times> 's" where
  "reuseExisting repo scope keyHash fingerprint now lockedUntil expiresAt s =
     (case repo_GetByScopeAndKeyHash repo scope keyHash s of
        None \<Rightarrow> (Answered (Inl StoreUnavail), s)
      | Some None \<Rightarrow> (Answered (Inl StoreUnavail), s)
      | Some (Some existing) \<Rightarrow>
          if ir_RequestFingerprint existing \<noteq> fingerprint then (Answered (Inl KeyConflict), s)
          else if ir_ExpiresAt existing \<le> now
          then reclaimExpired repo scope keyHash fingerprint existing now lockedUntil expiresAt s
          else decideExisting repo existing now lockedUntil expiresAt s)"

definition newRecord ::
  "gostring \<Rightarrow> gostring \<Rightarrow> gostring \<Rightarrow> gotime \<Rightarrow> gotime \<Rightarrow> IdempotencyRecord" where
  "newRecord scope keyHash fingerprint lockedUntil expiresAt =
     \<lparr>ir_ID = 0, ir_Scope = scope, ir_IdempotencyKeyHash = keyHash,
      ir_RequestFingerprint = fingerprint, ir_Status = IdempotencyStatusProcessing,
      ir_ResponseStatus = None, ir_ResponseBody = None, ir_ErrorReason = None,
      ir_LockedUntil = Some lockedUntil, ir_ExpiresAt = expiresAt\<rparr>"

text \<open>From the first repository call to the decision who executes.\<close>

definition claimRecord ::
  "'s IdempotencyRepository \<Rightarrow> gostring \<Rightarrow> gostring \<Rightarrow> gostring \<Rightarrow> gotime \<Rightarrow> gotime \<Rightarrow> gotime \<Rightarrow> 's \<Rightarrow>
   idem_claim \<times> 's" where
  "claimRecord repo scope keyHash fingerprint now lockedUntil expiresAt s =
     (case repo_CreateProcessing repo (newRecord scope keyHash fingerprint lockedUntil expiresAt) s of
        (None, s1) \<Rightarrow> (Answered (Inl StoreUnavail), s1)
      | (Some (owner, record), s1) \<Rightarrow>
          (case (if owner then (Claimed (ir_ID record), s1)
                 else reuseExisting repo scope keyHash fingerprint now lockedUntil expiresAt s1) of
             (Claimed i, s2) \<Rightarrow> if i = 0 then (Answered (Inl StoreUnavail), s2) else (Claimed i, s2)
           | r \<Rightarrow> r))"

text \<open>
  The lease renewal that runs beside a bounded execution, at the given ticks of its
  ticker: an error is skipped, a lost lease ends the renewal.
\<close>

definition leaseOf :: "IdempotencyConfig \<Rightarrow> goduration" where
  "leaseOf cfg = (if ic_ProcessingTimeout cfg \<le> 0 then ic_ProcessingTimeout DefaultIdempotencyConfig
                  else ic_ProcessingTimeout cfg)"

definition go_third :: "int \<Rightarrow> int" where
  "go_third a = (if a < 0 then - ((- a) div 3) else a div 3)"

definition renewInterval :: "IdempotencyConfig \<Rightarrow> goduration \<Rightarrow> goduration" where
  "renewInterval cfg ttl =
     (let interval = min (go_third (leaseOf cfg)) (go_third ttl) in
      if interval < millisecond then millisecond else interval)"

fun renewProcessingLease ::
  "'s IdempotencyRepository \<Rightarrow> int \<Rightarrow> gostring \<Rightarrow> goduration \<Rightarrow> goduration \<Rightarrow> gotime list \<Rightarrow> 's \<Rightarrow> 's" where
  "renewProcessingLease repo i fingerprint lease ttl [] s = s"
| "renewProcessingLease repo i fingerprint lease ttl (now # ticks) s =
     (case repo_ExtendProcessingLock repo i fingerprint (time_add now lease) (time_add now ttl) s of
        (None, s1) \<Rightarrow> renewProcessingLease repo i fingerprint lease ttl ticks s1
      | (Some ok, s1) \<Rightarrow>
          if ok then renewProcessingLease repo i fingerprint lease ttl ticks s1 else s1)"

text \<open>The execution by the request that claimed the record, and what is stored of it.\<close>

definition finishClaimed ::
  "'d idem_env \<Rightarrow> 's IdempotencyRepository \<Rightarrow> IdempotencyConfig \<Rightarrow> int \<Rightarrow> (gostring + 'd) \<Rightarrow>
   gotime \<Rightarrow> gotime \<Rightarrow> 's \<Rightarrow> 'd idem_answer \<times> 's" where
  "finishClaimed env repo cfg i result endTime expiresAt s =
     (case result of
        Inl reason \<Rightarrow>
          (Refused (ExecError reason),
           snd (repo_MarkFailedRetryable repo i (if reason = [] then ''EXECUTION_FAILED'' else reason)
                  (time_add endTime (ic_FailedRetryBackoff cfg)) expiresAt s))
      | Inr data \<Rightarrow>
          (case marshalStoredResponse env cfg data of
             None \<Rightarrow> (Refused StoreUnavail, s)
           | Some storedBody \<Rightarrow>
               (case repo_MarkSucceeded repo i 200 storedBody expiresAt s of
                  (None, s1) \<Rightarrow> (Refused StoreUnavail, s1)
                | (Some _, s1) \<Rightarrow> (Fresh data, s1))))"

text \<open>
  \<open>Execute\<close>. The handler is its result, \<open>None\<close> where the function is nil; the second
  component of the answer says whether the handler ran. \<open>startTime\<close> and \<open>endTime\<close> are
  the readings of the clock before the claim and after the execution, \<open>ticks\<close> those of
  the renewals in between.
\<close>

definition Execute ::
  "'d idem_env \<Rightarrow> 's IdempotencyRepository option \<Rightarrow> IdempotencyConfig \<Rightarrow> IdempotencyExecuteOptions \<Rightarrow>
   (gostring + 'd) option \<Rightarrow> gotime \<Rightarrow> gotime list \<Rightarrow> gotime \<Rightarrow> 's \<Rightarrow> ('d idem_answer \<times> bool) \<times> 's" where
  "Execute env repo cfg opts execute startTime ticks endTime s =
     (case execute of
        None \<Rightarrow> ((Refused ExecutorNil, False), s)
      | Some result \<Rightarrow>
     (case NormalizeIdempotencyKey (io_IdempotencyKey opts) of
        Inl err \<Rightarrow> ((Refused err, False), s)
      | Inr key \<Rightarrow>
        if key = [] then
          (if io_RequireKey opts \<and> \<not> ic_ObserveOnly cfg then ((Refused KeyRequired, False), s)
           else ((case result of Inl reason \<Rightarrow> Refused (ExecError reason) | Inr data \<Rightarrow> Fresh data, True), s))
        else
     (case repo of
        None \<Rightarrow> ((Refused StoreUnavail, False), s)
      | Some repo \<Rightarrow>
        if io_Scope opts = [] then ((Refused ScopeRequired, False), s)
        else
     (case BuildIdempotencyFingerprint env (io_Method opts) (io_Route opts) (io_ActorScope opts) (io_Payload opts) of
        Inl err \<Rightarrow> ((Refused err, False), s)
      | Inr fingerprint \<Rightarrow>
        (let ttl = (if io_TTL opts \<le> 0 then ic_DefaultTTL cfg else io_TTL opts);
             expiresAt = time_add startTime ttl;
             lockedUntil = time_add startTime (ic_ProcessingTimeout cfg);
             keyHash = HashIdempotencyKey env key in
         case claimRecord repo (io_Scope opts) keyHash fingerprint startTime lockedUntil expiresAt s of
           (Answered (Inl err), s1) \<Rightarrow> ((Refused err, False), s1)
         | (Answered (Inr data), s1) \<Rightarrow> ((Replayed data, False), s1)
         | (Claimed i, s1) \<Rightarrow>
             (let bounded = 0 < io_ExecutionTimeout opts;
                  s2 = (if bounded then renewProcessingLease repo i fingerprint (leaseOf cfg) ttl ticks s1 else s1);
                  expires2 = (if bounded then time_add endTime ttl else expiresAt);
                  (answer, s3) = finishClaimed env repo cfg i result endTime expires2 s2
              in ((answer, True), s3)))))))"

subsection \<open>The table\<close>

record idem_table =
  it_rows :: "IdempotencyRecord list"
  it_next :: int

definition row_key :: "IdempotencyRecord \<Rightarrow> gostring \<times> gostring" where
  "row_key r = (ir_Scope r, ir_IdempotencyKeyHash r)"

text \<open>The insert draws an id from the sequence also when the unique index rejects it.\<close>

definition CreateProcessing ::
  "IdempotencyRecord \<Rightarrow> idem_table \<Rightarrow> (bool \<times> IdempotencyRecord) option \<times> idem_table" where
  "CreateProcessing record t =
     (if list_ex (\<lambda>r. row_key r = row_key record) (it_rows t)
      then (Some (False, record), t\<lparr>it_next := it_next t + 1\<rparr>)
      else
        (let row = record\<lparr>ir_ID := it_next t, ir_ResponseStatus := None, ir_ResponseBody := None,
                          ir_ErrorReason := None\<rparr>
         in (Some (True, record\<lparr>ir_ID := it_next t\<rparr>),
             \<lparr>it_rows = it_rows t @ [row], it_next = it_next t + 1\<rparr>)))"

definition GetByScopeAndKeyHash ::
  "gostring \<Rightarrow> gostring \<Rightarrow> idem_table \<Rightarrow> IdempotencyRecord option option" where
  "GetByScopeAndKeyHash scope keyHash t = Some (find (\<lambda>r. row_key r = (scope, keyHash)) (it_rows t))"

text \<open>\<open>UPDATE ... SET f WHERE p\<close>: the updated rows and whether there was any.\<close>

definition update_where ::
  "(IdempotencyRecord \<Rightarrow> bool) \<Rightarrow> (IdempotencyRecord \<Rightarrow> IdempotencyRecord) \<Rightarrow> idem_table \<Rightarrow> bool \<times> idem_table" where
  "update_where p f t =
     (list_ex p (it_rows t), t\<lparr>it_rows := map (\<lambda>r. if p r then f r else r) (it_rows t)\<rparr>)"

definition lock_free :: "gotime \<Rightarrow> IdempotencyRecord \<Rightarrow> bool" where
  "lock_free now r \<longleftrightarrow> (case ir_LockedUntil r of None \<Rightarrow> True | Some l \<Rightarrow> l \<le> now)"

definition reclaimedRow :: "gotime \<Rightarrow> gotime \<Rightarrow> IdempotencyRecord \<Rightarrow> IdempotencyRecord" where
  "reclaimedRow newLockedUntil newExpiresAt r =
     r\<lparr>ir_Status := IdempotencyStatusProcessing, ir_LockedUntil := Some newLockedUntil,
       ir_ErrorReason := None, ir_ExpiresAt := newExpiresAt\<rparr>"

definition reclaimable :: "int \<Rightarrow> gostring \<Rightarrow> gotime \<Rightarrow> IdempotencyRecord \<Rightarrow> bool" where
  "reclaimable i fromStatus now r \<longleftrightarrow> ir_ID r = i \<and> ir_Status r = fromStatus \<and> lock_free now r"

definition TryReclaim ::
  "int \<Rightarrow> gostring \<Rightarrow> gotime \<Rightarrow> gotime \<Rightarrow> gotime \<Rightarrow> idem_table \<Rightarrow> bool option \<times> idem_table" where
  "TryReclaim i fromStatus now newLockedUntil newExpiresAt t =
     (let (hit, t1) = update_where (reclaimable i fromStatus now)
                        (reclaimedRow newLockedUntil newExpiresAt) t
      in (Some hit, t1))"

definition extendable :: "int \<Rightarrow> gostring \<Rightarrow> IdempotencyRecord \<Rightarrow> bool" where
  "extendable i fingerprint r \<longleftrightarrow> ir_ID r = i \<and> ir_Status r = IdempotencyStatusProcessing \<and>
     ir_RequestFingerprint r = fingerprint"

definition extendedRow :: "gotime \<Rightarrow> gotime \<Rightarrow> IdempotencyRecord \<Rightarrow> IdempotencyRecord" where
  "extendedRow newLockedUntil newExpiresAt r =
     r\<lparr>ir_LockedUntil := Some newLockedUntil, ir_ExpiresAt := newExpiresAt\<rparr>"

definition ExtendProcessingLock ::
  "int \<Rightarrow> gostring \<Rightarrow> gotime \<Rightarrow> gotime \<Rightarrow> idem_table \<Rightarrow> bool option \<times> idem_table" where
  "ExtendProcessingLock i fingerprint newLockedUntil newExpiresAt t =
     (let (hit, t1) = update_where (extendable i fingerprint) (extendedRow newLockedUntil newExpiresAt) t
      in (Some hit, t1))"

definition succeededRow :: "int \<Rightarrow> gostring \<Rightarrow> gotime \<Rightarrow> IdempotencyRecord \<Rightarrow> IdempotencyRecord" where
  "succeededRow responseStatus responseBody expiresAt r =
     r\<lparr>ir_Status := IdempotencyStatusSucceeded, ir_ResponseStatus := Some responseStatus,
       ir_ResponseBody := Some responseBody, ir_ErrorReason := None, ir_LockedUntil := None,
       ir_ExpiresAt := expiresAt\<rparr>"

definition MarkSucceeded :: "int \<Rightarrow> int \<Rightarrow> gostring \<Rightarrow> gotime \<Rightarrow> idem_table \<Rightarrow> unit option \<times> idem_table" where
  "MarkSucceeded i responseStatus responseBody expiresAt t =
     (Some (), snd (update_where (\<lambda>r. ir_ID r = i) (succeededRow responseStatus responseBody expiresAt) t))"

definition failedRow :: "gostring \<Rightarrow> gotime \<Rightarrow> gotime \<Rightarrow> IdempotencyRecord \<Rightarrow> IdempotencyRecord" where
  "failedRow errorReason lockedUntil expiresAt r =
     r\<lparr>ir_Status := IdempotencyStatusFailedRetryable, ir_ErrorReason := Some errorReason,
       ir_LockedUntil := Some lockedUntil, ir_ExpiresAt := expiresAt\<rparr>"

definition MarkFailedRetryable :: "int \<Rightarrow> gostring \<Rightarrow> gotime \<Rightarrow> gotime \<Rightarrow> idem_table \<Rightarrow> unit option \<times> idem_table" where
  "MarkFailedRetryable i errorReason lockedUntil expiresAt t =
     (Some (), snd (update_where (\<lambda>r. ir_ID r = i) (failedRow errorReason lockedUntil expiresAt) t))"

text \<open>Equal expiry times are broken by the order of the table.\<close>

definition DeleteExpired :: "gotime \<Rightarrow> int \<Rightarrow> idem_table \<Rightarrow> int option \<times> idem_table" where
  "DeleteExpired now limit t =
     (let limit = (if limit \<le> 0 then 500 else limit);
          victims = map ir_ID (take (nat limit)
            (sort_key ir_ExpiresAt (filter (\<lambda>r. ir_ExpiresAt r \<le> now) (it_rows t))));
          rest = filter (\<lambda>r. ir_ID r \<notin> set victims) (it_rows t)
      in (Some (int (length (it_rows t)) - int (length rest)), t\<lparr>it_rows := rest\<rparr>))"

definition idempotencyRepository :: "idem_table IdempotencyRepository" where
  "idempotencyRepository =
     \<lparr>repo_CreateProcessing = CreateProcessing, repo_GetByScopeAndKeyHash = GetByScopeAndKeyHash,
      repo_TryReclaim = TryReclaim, repo_ExtendProcessingLock = ExtendProcessingLock,
      repo_MarkSucceeded = MarkSucceeded, repo_MarkFailedRetryable = MarkFailedRetryable,
      repo_DeleteExpired = DeleteExpired\<rparr>"

definition table_wf :: "idem_table \<Rightarrow> bool" where
  "table_wf t \<longleftrightarrow> distinct (map row_key (it_rows t)) \<and> distinct (map ir_ID (it_rows t)) \<and>
     0 < it_next t \<and> (\<forall>r \<in> set (it_rows t). 0 < ir_ID r \<and> ir_ID r < it_next t)"

end
