(* ===== verification/IdempotencyProofs.thy ===== *)
theory IdempotencyProofs
  imports Idempotency
begin

text \<open>
  The contract between the coordinator and its repository as a locale, its interpretation
  on the table, and what callers rely on: one claim per lease, replays without execution,
  conflicts for reused keys.
\<close>

subsection \<open>The contract of the repository\<close>

definition updated ::
  "(IdempotencyRecord \<Rightarrow> bool) \<Rightarrow> (IdempotencyRecord \<Rightarrow> IdempotencyRecord) \<Rightarrow>
   ('k \<Rightarrow> IdempotencyRecord option) \<Rightarrow> 'k \<Rightarrow> IdempotencyRecord option" where
  "updated p f v = (\<lambda>k. map_option (\<lambda>r. if p r then f r else r) (v k))"

lemma updated_Some: "updated p f v k = Some r' \<longleftrightarrow> (\<exists>r. v k = Some r \<and> r' = (if p r then f r else r))"
  by (cases "v k") (auto simp: updated_def)

text \<open>
  When a request is granted the execution: there was no rec, or the rec is of the
  same payload, nobody holds its lock, and it failed before or its lifetime is over.
\<close>

definition claimable :: "gostring \<Rightarrow> gotime \<Rightarrow> IdempotencyRecord option \<Rightarrow> bool" where
  "claimable fingerprint now old \<longleftrightarrow>
     (case old of None \<Rightarrow> True
      | Some r \<Rightarrow> ir_RequestFingerprint r = fingerprint \<and> lock_free now r \<and>
          (ir_Status r = IdempotencyStatusFailedRetryable \<or> ir_ExpiresAt r \<le> now))"

definition granted ::
  "gostring \<Rightarrow> int \<Rightarrow> gotime \<Rightarrow> gotime \<Rightarrow> IdempotencyRecord option \<Rightarrow> bool" where
  "granted fingerprint i lockedUntil expiresAt new \<longleftrightarrow>
     (case new of None \<Rightarrow> False
      | Some r \<Rightarrow> ir_ID r = i \<and> ir_Status r = IdempotencyStatusProcessing \<and>
          ir_LockedUntil r = Some lockedUntil \<and> ir_ExpiresAt r = expiresAt \<and>
          ir_RequestFingerprint r = fingerprint)"

locale idempotency_store =
  fixes repo :: "'s IdempotencyRepository"
    and view :: "'s \<Rightarrow> gostring \<times> gostring \<Rightarrow> IdempotencyRecord option"
    and inv :: "'s \<Rightarrow> bool"
  assumes view_row: "inv s \<Longrightarrow> view s k = Some r \<Longrightarrow> row_key r = k \<and> 0 < ir_ID r"
    and view_id: "inv s \<Longrightarrow> view s k = Some r \<Longrightarrow> view s k' = Some r' \<Longrightarrow> ir_ID r = ir_ID r' \<Longrightarrow> k = k'"
    and create: "inv s \<Longrightarrow> repo_CreateProcessing repo rec s = (Some (owner, rec'), s') \<Longrightarrow>
      inv s' \<and> (if owner then view s (row_key rec) = None \<and>
                  view s' = (view s)(row_key rec \<mapsto> rec\<lparr>ir_ID := ir_ID rec', ir_ResponseStatus := None,
                    ir_ResponseBody := None, ir_ErrorReason := None\<rparr>)
                else view s (row_key rec) \<noteq> None \<and> view s' = view s)"
    and get_view: "inv s \<Longrightarrow> repo_GetByScopeAndKeyHash repo scope h s = Some x \<Longrightarrow> x = view s (scope, h)"
    and reclaim: "inv s \<Longrightarrow> repo_TryReclaim repo i st now l e s = (Some taken, s') \<Longrightarrow>
      inv s' \<and> view s' = updated (reclaimable i st now) (reclaimedRow l e) (view s) \<and>
      (taken \<longleftrightarrow> (\<exists>k r. view s k = Some r \<and> reclaimable i st now r))"
begin

lemma reclaim_grants:
  assumes "inv s" and "view s k = Some r" and "ir_RequestFingerprint r = fingerprint"
    and "ir_Status r = IdempotencyStatusFailedRetryable \<or> ir_ExpiresAt r \<le> now"
    and "repo_TryReclaim repo (ir_ID r) (ir_Status r) now l e s = (Some True, s')"
  shows "claimable fingerprint now (view s k) \<and> granted fingerprint (ir_ID r) l e (view s' k) \<and> inv s'"
proof -
  from reclaim [OF assms(1,5)] obtain k' r' where inv: "inv s'"
    and v: "view s' = updated (reclaimable (ir_ID r) (ir_Status r) now) (reclaimedRow l e) (view s)"
    and r': "view s k' = Some r'" "reclaimable (ir_ID r) (ir_Status r) now r'" by auto
  from r' assms(1,2) view_id [of s k r k' r'] have "r' = r" by (auto simp: reclaimable_def)
  with r' have "reclaimable (ir_ID r) (ir_Status r) now r" by simp
  with v assms(2-4) inv show ?thesis
    by (simp add: claimable_def granted_def updated_def reclaimable_def reclaimedRow_def)
qed

lemma decide_claims:
  assumes "inv s" and "view s k = Some r" and "ir_RequestFingerprint r = fingerprint"
    and "decideExisting repo r now l e s = (Claimed i, s')"
  shows "claimable fingerprint now (view s k) \<and> granted fingerprint i l e (view s' k) \<and> inv s'"
  using assms(4) reclaim_grants [OF assms(1-3), of now l e s']
  by (auto simp: decideExisting_def split: if_splits option.splits prod.splits)

lemma failed_reclaim_keeps:
  assumes "inv s" and "repo_TryReclaim repo i st now l e s = (Some False, s')"
  shows "inv s' \<and> view s' = view s"
proof -
  from reclaim [OF assms] have "inv s'" and v: "view s' = updated (reclaimable i st now) (reclaimedRow l e) (view s)"
    and none: "\<And>k r. view s k = Some r \<Longrightarrow> \<not> reclaimable i st now r" by auto
  have "view s' k = view s k" for k using none [of k] by (cases "view s k") (simp_all add: v updated_def)
  with \<open>inv s'\<close> show ?thesis by auto
qed

lemma expired_claims:
  assumes "inv s" and "view s (scope, h) = Some r" and "ir_RequestFingerprint r = fingerprint"
    and "ir_ExpiresAt r \<le> now"
    and "reclaimExpired repo scope h fingerprint r now l e s = (Claimed i, s')"
  shows "claimable fingerprint now (view s (scope, h)) \<and> granted fingerprint i l e (view s' (scope, h)) \<and> inv s'"
proof -
  obtain res s1 where 1: "repo_TryReclaim repo (ir_ID r) (ir_Status r) now l e s = (res, s1)" by fastforce
  show ?thesis
  proof (cases "res = Some True")
    case True
    with 1 assms(5) have "i = ir_ID r" "s' = s1" by (auto simp: reclaimExpired_def)
    with reclaim_grants [OF assms(1-3), of now l e s1] assms(4) 1 True show ?thesis by blast
  next
    case False
    with 1 assms(5) have "res = Some False" by (auto simp: reclaimExpired_def split: option.splits)
    with 1 failed_reclaim_keeps [OF assms(1)] have s1: "inv s1" "view s1 = view s" by blast+
    with 1 \<open>res = Some False\<close> assms(5) get_view [OF s1(1)] assms(2)
    have "decideExisting repo r now l e s1 = (Claimed i, s')"
      by (auto simp: reclaimExpired_def split: option.splits if_splits)
    from decide_claims [OF s1(1) _ assms(3) this] s1(2) assms(2) show ?thesis by simp
  qed
qed

lemma claim_sound:
  assumes "inv s" and "claimRecord repo scope h fingerprint now l e s = (Claimed i, s')"
  shows "claimable fingerprint now (view s (scope, h)) \<and> granted fingerprint i l e (view s' (scope, h)) \<and> inv s'"
proof -
  let ?new = "newRecord scope h fingerprint l e"
  have key: "row_key ?new = (scope, h)" by (simp add: newRecord_def row_key_def)
  obtain owner rec s1 where 1: "repo_CreateProcessing repo ?new s = (Some (owner, rec), s1)"
    using assms(2) by (auto simp: claimRecord_def split: prod.splits option.splits)
  note c = create [OF assms(1) 1, unfolded key]
  show ?thesis
  proof (cases owner)
    case True
    with assms(2) 1 have "i = ir_ID rec" "s' = s1"
      by (auto simp: claimRecord_def split: if_splits)
    with True c show ?thesis
      by (simp add: claimable_def granted_def newRecord_def)
  next
    case False
    with c obtain r where r: "view s (scope, h) = Some r" and s1: "inv s1" "view s1 = view s" by auto
    from False assms(2) 1 have "reuseExisting repo scope h fingerprint now l e s1 = (Claimed i, s')"
      by (auto simp: claimRecord_def split: if_splits prod.splits idem_claim.splits)
    then have "ir_RequestFingerprint r = fingerprint \<and>
        (if ir_ExpiresAt r \<le> now then reclaimExpired repo scope h fingerprint r now l e s1 = (Claimed i, s')
         else decideExisting repo r now l e s1 = (Claimed i, s'))"
      using get_view [OF s1(1)] r s1(2)
      by (auto simp: reuseExisting_def split: option.splits if_splits)
    then show ?thesis
      using expired_claims [OF s1(1), of scope h r] decide_claims [OF s1(1), of "(scope, h)" r] r s1(2)
      by (auto split: if_splits)
  qed
qed

lemma granted_replays:
  assumes "inv s" and "view s (scope, h) = Some r" and "ir_RequestFingerprint r = fingerprint"
    and "now < ir_ExpiresAt r" and "ir_Status r = IdempotencyStatusSucceeded"
    and "decodeStoredResponse (ir_ResponseBody r) = Some data"
    and "repo_CreateProcessing repo (newRecord scope h fingerprint l e) s = (Some c, s1)"
    and "repo_GetByScopeAndKeyHash repo scope h s1 \<noteq> None"
  shows "claimRecord repo scope h fingerprint now l e s = (Answered (Inr data), s1) \<and> view s1 = view s"
proof -
  obtain owner rec where c: "c = (owner, rec)" by (cases c)
  have key: "row_key (newRecord scope h fingerprint l e) = (scope, h)"
    by (simp add: newRecord_def row_key_def)
  from create [OF assms(1) assms(7)[unfolded c], unfolded key] assms(2)
  have s1: "\<not> owner" "inv s1" "view s1 = view s" by (auto split: if_splits)
  from assms(8) get_view [OF s1(2)] assms(2) s1(3)
  have "repo_GetByScopeAndKeyHash repo scope h s1 = Some (Some r)" by fastforce
  with s1 assms(3-7) c show ?thesis
    by (simp add: claimRecord_def reuseExisting_def decideExisting_def)
qed

lemma other_payload_refused:
  assumes "inv s" and "view s (scope, h) = Some r" and "ir_RequestFingerprint r \<noteq> fingerprint"
    and "repo_CreateProcessing repo (newRecord scope h fingerprint l e) s = (Some c, s1)"
    and "repo_GetByScopeAndKeyHash repo scope h s1 \<noteq> None"
  shows "claimRecord repo scope h fingerprint now l e s = (Answered (Inl KeyConflict), s1) \<and> view s1 = view s"
proof -
  obtain owner rec where c: "c = (owner, rec)" by (cases c)
  have key: "row_key (newRecord scope h fingerprint l e) = (scope, h)"
    by (simp add: newRecord_def row_key_def)
  from create [OF assms(1) assms(4)[unfolded c], unfolded key] assms(2)
  have s1: "\<not> owner" "inv s1" "view s1 = view s" by (auto split: if_splits)
  from assms(5) get_view [OF s1(2)] assms(2) s1(3)
  have "repo_GetByScopeAndKeyHash repo scope h s1 = Some (Some r)" by fastforce
  with s1 assms(3,4) c show ?thesis
    by (simp add: claimRecord_def reuseExisting_def)
qed

end

subsection \<open>The table keeps the contract\<close>

definition table_view :: "idem_table \<Rightarrow> gostring \<times> gostring \<Rightarrow> IdempotencyRecord option" where
  "table_view t k = find (\<lambda>r. row_key r = k) (it_rows t)"

lemma find_map_key:
  "(\<And>r. P (g r) = P r) \<Longrightarrow> find P (map g xs) = map_option g (find P xs)"
  by (induction xs) auto

lemma row_updates_key [simp]:
  "row_key (reclaimedRow l e r) = row_key r" "row_key (extendedRow l e r) = row_key r"
  "row_key (succeededRow c b e r) = row_key r" "row_key (failedRow q l e r) = row_key r"
  "ir_ID (reclaimedRow l e r) = ir_ID r" "ir_ID (extendedRow l e r) = ir_ID r"
  "ir_ID (succeededRow c b e r) = ir_ID r" "ir_ID (failedRow q l e r) = ir_ID r"
  by (simp_all add: reclaimedRow_def extendedRow_def succeededRow_def failedRow_def row_key_def)

lemma table_view_row:
  "table_view t k = Some r \<Longrightarrow> r \<in> set (it_rows t) \<and> row_key r = k"
  unfolding table_view_def by (auto dest: find_SomeD)

lemma table_view_iff:
  assumes "table_wf t"
  shows "table_view t k = Some r \<longleftrightarrow> r \<in> set (it_rows t) \<and> row_key r = k"
proof
  assume r: "r \<in> set (it_rows t) \<and> row_key r = k"
  then have "table_view t k \<noteq> None" by (auto simp: table_view_def find_None_iff)
  then obtain r' where r': "table_view t k = Some r'" by auto
  with table_view_row r assms have "r' = r"
    by (metis (no_types, lifting) distinct_map inj_onD table_wf_def)
  with r' show "table_view t k = Some r" by simp
qed (rule table_view_row)

lemma update_where_wf:
  assumes "table_wf t" and "\<And>r. row_key (f r) = row_key r" and "\<And>r. ir_ID (f r) = ir_ID r"
  shows "table_wf (snd (update_where p f t))"
proof -
  have "map row_key (map (\<lambda>r. if p r then f r else r) rs) = map row_key rs"
    and "map ir_ID (map (\<lambda>r. if p r then f r else r) rs) = map ir_ID rs" for rs
    using assms(2,3) by (induction rs) auto
  then show ?thesis using assms(1,3) by (auto simp: table_wf_def update_where_def simp del: map_map)
qed

lemma update_where_view:
  assumes "\<And>r. row_key (f r) = row_key r"
  shows "table_view (snd (update_where p f t)) = updated p f (table_view t)"
proof
  fix k
  have "find (\<lambda>r. row_key r = k) (map (\<lambda>r. if p r then f r else r) (it_rows t)) =
      map_option (\<lambda>r. if p r then f r else r) (find (\<lambda>r. row_key r = k) (it_rows t))"
    by (rule find_map_key) (simp add: assms)
  then show "table_view (snd (update_where p f t)) k = updated p f (table_view t) k"
    by (simp add: table_view_def update_where_def updated_def)
qed

lemma update_where_hit:
  "table_wf t \<Longrightarrow> fst (update_where p f t) \<longleftrightarrow> (\<exists>k r. table_view t k = Some r \<and> p r)"
  by (auto simp: update_where_def list_ex_iff table_view_iff) (metis surj_pair)

lemma CreateProcessing_law:
  assumes "table_wf t" and "CreateProcessing rec t = (Some (owner, rec'), t')"
  shows "table_wf t' \<and> (if owner then table_view t (row_key rec) = None \<and>
      table_view t' = (table_view t)(row_key rec \<mapsto> rec\<lparr>ir_ID := ir_ID rec',
        ir_ResponseStatus := None, ir_ResponseBody := None, ir_ErrorReason := None\<rparr>)
     else table_view t (row_key rec) \<noteq> None \<and> table_view t' = table_view t)"
proof (cases "list_ex (\<lambda>r. row_key r = row_key rec) (it_rows t)")
  case True
  with assms show ?thesis
    by (auto simp: CreateProcessing_def table_wf_def table_view_def list_ex_iff find_None_iff fun_eq_iff)
      (metis less_imp_le)
next
  case False
  let ?row = "rec\<lparr>ir_ID := it_next t, ir_ResponseStatus := None, ir_ResponseBody := None,
                     ir_ErrorReason := None\<rparr>"
  from False assms(2) have t': "t' = \<lparr>it_rows = it_rows t @ [?row], it_next = it_next t + 1\<rparr>"
    and o: "owner" "rec' = rec\<lparr>ir_ID := it_next t\<rparr>" by (auto simp: CreateProcessing_def)
  have key: "row_key ?row = row_key rec" by (simp add: row_key_def)
  from False have new: "row_key rec \<notin> row_key ` set (it_rows t)" by (auto simp: list_ex_iff)
  then have none: "table_view t (row_key rec) = None"
    by (auto simp: table_view_def find_None_iff image_iff)
  have "table_wf t'" using assms(1) new unfolding t' by (auto simp: table_wf_def key)
  moreover have "table_view t' = (table_view t)(row_key rec \<mapsto> ?row)"
  proof
    fix k
    have "find P (xs @ [x]) = (case find P xs of None \<Rightarrow> if P x then Some x else None | Some y \<Rightarrow> Some y)"
      for P :: "IdempotencyRecord \<Rightarrow> bool" and xs x
      by (induction xs) auto
    then show "table_view t' k = ((table_view t)(row_key rec \<mapsto> ?row)) k"
      using none by (auto simp: t' table_view_def key split: option.split)
  qed
  ultimately show ?thesis using none o by simp
qed

interpretation sqlrepo: idempotency_store idempotencyRepository table_view table_wf
proof
  fix t :: idem_table
  assume wf: "table_wf t"
  show "row_key r = k \<and> 0 < ir_ID r" if "table_view t k = Some r" for k r
    using that wf table_view_row [OF that] by (auto simp: table_wf_def)
  show "k = k'" if "table_view t k = Some r" "table_view t k' = Some r'" "ir_ID r = ir_ID r'" for k k' r r'
    using that wf by (metis (no_types, lifting) distinct_map inj_onD table_view_row table_wf_def)
  show "table_wf t' \<and> (if owner then table_view t (row_key rec) = None \<and>
      table_view t' = (table_view t)(row_key rec \<mapsto> rec\<lparr>ir_ID := ir_ID rec',
        ir_ResponseStatus := None, ir_ResponseBody := None, ir_ErrorReason := None\<rparr>)
     else table_view t (row_key rec) \<noteq> None \<and> table_view t' = table_view t)"
    if "repo_CreateProcessing idempotencyRepository rec t = (Some (owner, rec'), t')"
    for rec owner rec' t'
    using CreateProcessing_law [OF wf] that by (simp add: idempotencyRepository_def)
  show "x = table_view t (scope, h)"
    if "repo_GetByScopeAndKeyHash idempotencyRepository scope h t = Some x" for scope h x
    using that by (simp add: idempotencyRepository_def GetByScopeAndKeyHash_def table_view_def)
  show "table_wf t' \<and> table_view t' = updated (reclaimable i st now) (reclaimedRow l e) (table_view t) \<and>
      taken = (\<exists>k r. table_view t k = Some r \<and> reclaimable i st now r)"
    if "repo_TryReclaim idempotencyRepository i st now l e t = (Some taken, t')" for i st now l e taken t'
  proof -
    from that have "taken = fst (update_where (reclaimable i st now) (reclaimedRow l e) t)"
      and "t' = snd (update_where (reclaimable i st now) (reclaimedRow l e) t)"
      by (simp_all add: idempotencyRepository_def TryReclaim_def split_def Let_def)
    with wf show ?thesis by (simp add: update_where_wf update_where_view update_where_hit)
  qed
qed


lemma sql_create_total: "\<exists>c t'. repo_CreateProcessing idempotencyRepository rec t = (Some c, t')"
  by (simp add: idempotencyRepository_def CreateProcessing_def Let_def) blast

lemma sql_get_total: "repo_GetByScopeAndKeyHash idempotencyRepository scope h t \<noteq> None"
  by (simp add: idempotencyRepository_def GetByScopeAndKeyHash_def)

subsection \<open>Requests with a key\<close>

text \<open>What a request looks up: its scope, the hash of its key and its fingerprint.\<close>

definition keyed ::
  "'d idem_env \<Rightarrow> IdempotencyExecuteOptions \<Rightarrow> gostring \<Rightarrow> gostring \<Rightarrow> bool" where
  "keyed env opts h fingerprint \<longleftrightarrow>
     (\<exists>key. NormalizeIdempotencyKey (io_IdempotencyKey opts) = Inr key \<and> key \<noteq> [] \<and>
        h = HashIdempotencyKey env key) \<and>
     io_Scope opts \<noteq> [] \<and>
     BuildIdempotencyFingerprint env (io_Method opts) (io_Route opts) (io_ActorScope opts)
       (io_Payload opts) = Inr fingerprint"

definition ttlOf :: "IdempotencyConfig \<Rightarrow> IdempotencyExecuteOptions \<Rightarrow> goduration" where
  "ttlOf cfg opts = (if io_TTL opts \<le> 0 then ic_DefaultTTL cfg else io_TTL opts)"

lemma Execute_keyed:
  assumes "keyed env opts h fingerprint"
  shows "Execute env (Some repo) cfg opts (Some result) t0 ticks t1 s =
     (case claimRecord repo (io_Scope opts) h fingerprint t0 (t0 + ic_ProcessingTimeout cfg)
             (t0 + ttlOf cfg opts) s of
        (Answered (Inl err), s1) \<Rightarrow> ((Refused err, False), s1)
      | (Answered (Inr data), s1) \<Rightarrow> ((Replayed data, False), s1)
      | (Claimed i, s1) \<Rightarrow>
          (let bounded = 0 < io_ExecutionTimeout opts;
               s2 = (if bounded then renewProcessingLease repo i fingerprint (leaseOf cfg)
                       (ttlOf cfg opts) ticks s1 else s1);
               (answer, s3) = finishClaimed env repo cfg i result t1
                 (if bounded then t1 + ttlOf cfg opts else t0 + ttlOf cfg opts) s2
           in ((answer, True), s3)))"
proof -
  from assms obtain key where "NormalizeIdempotencyKey (io_IdempotencyKey opts) = Inr key" "key \<noteq> []"
    "h = HashIdempotencyKey env key" "io_Scope opts \<noteq> []"
    "BuildIdempotencyFingerprint env (io_Method opts) (io_Route opts) (io_ActorScope opts)
       (io_Payload opts) = Inr fingerprint" by (auto simp: keyed_def)
  then show ?thesis unfolding Execute_def Let_def time_add_def ttlOf_def by simp
qed

lemma Execute_claims:
  assumes "keyed env opts h fingerprint" and "table_wf t"
    and "Execute env (Some idempotencyRepository) cfg opts (Some result) t0 ticks t1 t = ((answer, True), t')"
  obtains i s1 where
    "claimRecord idempotencyRepository (io_Scope opts) h fingerprint t0 (t0 + ic_ProcessingTimeout cfg)
       (t0 + ttlOf cfg opts) t = (Claimed i, s1)"
    "claimable fingerprint t0 (table_view t (io_Scope opts, h))"
    "granted fingerprint i (t0 + ic_ProcessingTimeout cfg) (t0 + ttlOf cfg opts)
       (table_view s1 (io_Scope opts, h))" "table_wf s1"
proof -
  obtain c s1 where 1: "claimRecord idempotencyRepository (io_Scope opts) h fingerprint t0
      (t0 + ic_ProcessingTimeout cfg) (t0 + ttlOf cfg opts) t = (c, s1)" by fastforce
  with assms(3) obtain i where "c = Claimed i"
    unfolding Execute_keyed [OF assms(1)] by (cases c) (auto split: sum.splits)
  with 1 sqlrepo.claim_sound [OF assms(2)] that show thesis by blast
qed

text \<open>
  a keyed request executes only if no record of its key exists, or the record has the
  same fingerprint, its lock is free, and it failed before or its lifetime is over. So a
  succeeded record, a running one and one in its backoff window are never executed again
  before they expire.
\<close>

theorem execution_granted:
  assumes "keyed env opts h fingerprint" and "table_wf t"
    and "Execute env (Some idempotencyRepository) cfg opts (Some result) t0 ticks t1 t = ((answer, True), t')"
  shows "claimable fingerprint t0 (table_view t (io_Scope opts, h))"
  using Execute_claims [OF assms] by blast

subsection \<open>Replays\<close>

lemma renew_view:
  assumes "table_wf t" and "table_view t k = Some r"
  shows "table_wf (renewProcessingLease idempotencyRepository i fp lease ttl ticks t) \<and>
     (\<exists>r'. table_view (renewProcessingLease idempotencyRepository i fp lease ttl ticks t) k = Some r' \<and>
        ir_ID r' = ir_ID r \<and> ir_RequestFingerprint r' = ir_RequestFingerprint r)"
  using assms
proof (induction ticks arbitrary: t r)
  case (Cons now ticks)
  let ?u = "update_where (extendable i fp) (extendedRow (now + lease) (now + ttl)) t"
  have step: "repo_ExtendProcessingLock idempotencyRepository i fp (time_add now lease) (time_add now ttl) t =
      (Some (fst ?u), snd ?u)"
    by (simp add: idempotencyRepository_def ExtendProcessingLock_def split_def Let_def time_add_def)
  have wf: "table_wf (snd ?u)" using Cons.prems(1) by (simp add: update_where_wf)
  let ?r1 = "if extendable i fp r then extendedRow (now + lease) (now + ttl) r else r"
  have r1: "table_view (snd ?u) k = Some ?r1"
    using Cons.prems(2) by (simp add: update_where_view updated_def)
  have "ir_ID ?r1 = ir_ID r" "ir_RequestFingerprint ?r1 = ir_RequestFingerprint r"
    by (simp_all add: extendedRow_def)
  with Cons.IH [OF wf r1] wf r1 step show ?case by simp
qed simp

lemma succeeded_view:
  assumes "table_wf t" and "table_view t k = Some r" and "ir_ID r = i"
  shows "table_wf (snd (repo_MarkSucceeded idempotencyRepository i c b e t)) \<and>
     table_view (snd (repo_MarkSucceeded idempotencyRepository i c b e t)) k = Some (succeededRow c b e r)"
  using assms
  by (simp add: idempotencyRepository_def MarkSucceeded_def update_where_wf update_where_view updated_def)

lemma finish_success:
  "marshalStoredResponse env cfg d = Some body \<Longrightarrow>
   finishClaimed env idempotencyRepository cfg i (Inr d) t1 e s =
     (Fresh d, snd (repo_MarkSucceeded idempotencyRepository i 200 body e s))"
  by (simp add: finishClaimed_def idempotencyRepository_def MarkSucceeded_def)


subsection \<open>Conflicts and stored bodies\<close>

text \<open>
  a key that is reused with another payload is refused with a conflict, without
  executing and without touching the records.
\<close>

theorem other_payload_conflicts:
  assumes "keyed env opts h fingerprint" and "table_wf t"
    and "table_view t (io_Scope opts, h) = Some r" and "ir_RequestFingerprint r \<noteq> fingerprint"
  shows "\<exists>t'. Execute env (Some idempotencyRepository) cfg opts (Some result) t0 ticks t1 t =
     ((Refused KeyConflict, False), t') \<and> table_view t' = table_view t"
proof -
  obtain c s1 where "repo_CreateProcessing idempotencyRepository
      (newRecord (io_Scope opts) h fingerprint (t0 + ic_ProcessingTimeout cfg) (t0 + ttlOf cfg opts)) t = (Some c, s1)"
    using sql_create_total by blast
  from sqlrepo.other_payload_refused [OF assms(2-4) this sql_get_total]
  show ?thesis by (simp add: Execute_keyed [OF assms(1)])
qed

lemma trim_space_end:
  "trim_space (s @ [CHR '')'']) \<noteq> []"
proof -
  have left: "trim_left (s @ [CHR '')'']) \<noteq> [] \<and> last (trim_left (s @ [CHR '')''])) = CHR '')''"
  proof -
    have strip: "strip_all n space_encodings u \<noteq> [] \<and> last (strip_all n space_encodings u) = CHR '')''"
      if "u \<noteq> []" "last u = CHR '')''" for n u
      using that
    proof (induction n arbitrary: u)
      case (Suc n)
      show ?case
      proof (cases "strip_one space_encodings u")
        case (Some v)
        then obtain p where p: "p \<in> set space_encodings" "u = p @ v"
          unfolding strip_one_def by (auto dest!: find_SomeD simp: has_prefix_drop)
        from p(1) have "last p \<noteq> CHR '')''" by (auto simp: space_encodings_def)
        with p(2) Suc.prems have "v \<noteq> []" "last v = CHR '')''" by (cases "v = []", simp_all)+
        with Suc.IH Some show ?thesis by simp
      qed (simp add: Suc.prems)
    qed simp
    show ?thesis unfolding trim_left_def by (rule strip) simp_all
  qed
  define u where "u = trim_left (s @ [CHR '')''])"
  from left have "rev u = CHR '')'' # rev (butlast u)"
    unfolding u_def by (metis append_butlast_last_id rev.simps(2) rev_rev_ident rev_swap)
  moreover have "strip_one (map rev space_encodings) (CHR '')'' # w) = None" for w
    by (simp add: strip_one_def space_encodings_def has_prefix_def)
  ultimately have "strip_one (map rev space_encodings) (rev u) = None" by metis
  then have "strip_all n (map rev space_encodings) (rev u) = rev u" for n by (cases n) simp_all
  with left show ?thesis by (simp add: trim_space_def trim_right_def u_def)
qed


subsection \<open>Keys, hints and cuts\<close>

lemma strip_key_bytes:
  assumes "list_all key_byte s" and "s \<noteq> []" and "ps = space_encodings \<or> ps = map rev space_encodings"
  shows "strip_one ps s = None"
proof -
  have heads: "list_all (\<lambda>p. \<not> key_byte (hd p) \<and> p \<noteq> []) space_encodings"
    "list_all (\<lambda>p. \<not> key_byte (hd p) \<and> p \<noteq> []) (map rev space_encodings)" by code_simp+
  have "\<not> has_prefix s p" if "p \<in> set ps" for p
  proof
    assume "has_prefix s p"
    then obtain t where "s = p @ t" by (auto simp: has_prefix_iff)
    moreover from heads that assms(3) have "\<not> key_byte (hd p)" "p \<noteq> []" by (auto simp: list_all_iff)
    ultimately show False using assms(1) by (cases p) auto
  qed
  then show ?thesis by (auto simp: strip_one_def find_None_iff)
qed

lemma trim_key_bytes:
  assumes "list_all key_byte s" and "s \<noteq> []"
  shows "trim_space s = s"
proof -
  have keep: "strip_all n ps u = u"
    if "list_all key_byte u" "u \<noteq> []" "ps = space_encodings \<or> ps = map rev space_encodings" for n ps u
    using strip_key_bytes [OF that] by (cases n) simp_all
  have left: "trim_left s = s" unfolding trim_left_def using assms by (intro keep) simp_all
  have "strip_all (length s) (map rev space_encodings) (rev s) = rev s"
    using assms by (intro keep) (simp_all add: list_all_rev)
  then show ?thesis by (simp add: trim_space_def trim_right_def left)
qed

text \<open>
  An accepted key consists of at most 128 visible ASCII characters, and normalizing it
  again changes nothing.
\<close>

theorem normalized_key_stable:
  assumes "NormalizeIdempotencyKey raw = Inr key"
  shows "length key \<le> 128 \<and> list_all key_byte key \<and> NormalizeIdempotencyKey key = Inr key"
proof (cases "key = []")
  case True
  then show ?thesis by (simp add: NormalizeIdempotencyKey_def trim_space_def trim_left_def trim_right_def)
next
  case False
  with assms have "length key \<le> 128" "list_all key_byte key"
    by (auto simp: NormalizeIdempotencyKey_def Let_def split: if_splits)
  with trim_key_bytes [OF this(2) False] False show ?thesis by (simp add: NormalizeIdempotencyKey_def)
qed

theorem normalized_key_stable_witness: "NormalizeIdempotencyKey ''a-1'' = Inr ''a-1''"
proof -
  have "NormalizeIdempotencyKey '' a-1 '' = Inr ''a-1''" by code_simp
  from normalized_key_stable [OF this] show ?thesis by blast
qed

lemma shrink_longest:
  "shrinkUTF8 s n \<le> n \<and> valid_utf8 (take (shrinkUTF8 s n) s) \<and>
   (\<forall>k. shrinkUTF8 s n < k \<and> k \<le> n \<longrightarrow> \<not> valid_utf8 (take k s))"
  by (induction n) (auto simp: le_Suc_eq valid_utf8.simps [of "[]"])

text \<open>
  Cutting a text to a positive number of bytes yields a prefix within that size; if
  something is cut off, it is the longest such prefix that is valid UTF-8.
\<close>

theorem truncateUTF8_longest:
  assumes "0 < m"
  shows "\<exists>n. truncateUTF8 s m = take n s \<and> int (length (truncateUTF8 s m)) \<le> m \<and>
     (m < int (length s) \<longrightarrow> valid_utf8 (take n s) \<and>
        (\<forall>k. n < k \<and> int k \<le> m \<longrightarrow> \<not> valid_utf8 (take k s)))"
proof (cases "int (length s) \<le> m")
  case True
  then show ?thesis by (intro exI [of _ "length s"]) (simp add: truncateUTF8_def)
next
  case False
  then show ?thesis
    using assms shrink_longest [of s "nat m"]
    by (intro exI [of _ "shrinkUTF8 s (nat m)"]) (auto simp: truncateUTF8_def nat_le_iff le_nat_iff)
qed

theorem truncateUTF8_longest_witness:
  "\<exists>n. truncateUTF8 [CHR ''a'', CHR 0xC3, CHR 0xA9] 2 = take n [CHR ''a'', CHR 0xC3, CHR 0xA9] \<and>
     valid_utf8 (take n [CHR ''a'', CHR 0xC3, CHR 0xA9])"
  using truncateUTF8_longest [of 2 "[CHR ''a'', CHR 0xC3, CHR 0xA9]"] by auto

text \<open>
  The lease of a bounded execution is renewed at least three times before it or the
  record runs out, and never faster than once a millisecond.
\<close>

lemma renewal_in_time:
  assumes "3 * millisecond \<le> leaseOf cfg" and "3 * millisecond \<le> ttl"
  shows "millisecond \<le> renewInterval cfg ttl \<and> 3 * renewInterval cfg ttl \<le> leaseOf cfg \<and>
     3 * renewInterval cfg ttl \<le> ttl"
  using assms by (auto simp: renewInterval_def Let_def go_third_def millisecond_def min_def)

definition demo_env :: "gostring idem_env" where
  "demo_env = \<lparr>env_sha256 = \<lambda>s. s, env_marshal = Some, env_redact = \<lambda>s. s\<rparr>"

definition demo_opts :: IdempotencyExecuteOptions where
  "demo_opts = \<lparr>io_Scope = ''s'', io_ActorScope = [], io_Method = ''POST'', io_Route = ''/r'',
     io_IdempotencyKey = '' k1 '', io_Payload = Some ''{}'', io_TTL = 0, io_RequireKey = True,
     io_ExecutionTimeout = 0\<rparr>"

definition empty_table :: idem_table where
  "empty_table = \<lparr>it_rows = [], it_next = 1\<rparr>"

definition demo_fingerprint :: gostring where
  "demo_fingerprint = projr (BuildIdempotencyFingerprint demo_env ''POST'' ''/r'' [] (Some ''{}''))"

lemma demo_keyed: "keyed demo_env demo_opts (HashIdempotencyKey demo_env ''k1'') demo_fingerprint"
proof -
  have "NormalizeIdempotencyKey (io_IdempotencyKey demo_opts) = Inr ''k1''" by code_simp
  then show ?thesis
    by (auto simp: keyed_def demo_fingerprint_def BuildIdempotencyFingerprint_def demo_opts_def Let_def)
qed

lemma empty_table_wf: "table_wf empty_table"
  by (simp add: table_wf_def empty_table_def)

definition demo_run :: "(gostring idem_answer \<times> bool) \<times> idem_table" where
  "demo_run = Execute demo_env (Some idempotencyRepository) DefaultIdempotencyConfig demo_opts
     (Some (Inr ''[1]'')) 5 [] 6 empty_table"

lemma demo_run_fresh: "fst demo_run = (Fresh ''[1]'', True)"
  by code_simp

theorem execution_granted_witness:
  "claimable demo_fingerprint 5 (table_view empty_table (''s'', HashIdempotencyKey demo_env ''k1''))"
  using execution_granted [OF demo_keyed empty_table_wf, of DefaultIdempotencyConfig "Inr ''[1]''" 5 "[]" 6
      "Fresh ''[1]''" "snd demo_run"] demo_run_fresh
  by (simp add: demo_run_def prod_eq_iff demo_opts_def)


theorem other_payload_conflicts_witness:
  "fst (Execute demo_env (Some idempotencyRepository) DefaultIdempotencyConfig
     (demo_opts\<lparr>io_Payload := Some ''[]''\<rparr>) (Some (Inr ''[2]'')) 7 [] 8 (snd demo_run)) =
     (Refused KeyConflict, False)"
proof -
  let ?opts = "demo_opts\<lparr>io_Payload := Some ''[]''\<rparr>"
  let ?fp = "projr (BuildIdempotencyFingerprint demo_env ''POST'' ''/r'' [] (Some ''[]''))"
  have "NormalizeIdempotencyKey (io_IdempotencyKey ?opts) = Inr ''k1''" by code_simp
  then have "keyed demo_env ?opts (HashIdempotencyKey demo_env ''k1'') ?fp"
    by (auto simp: keyed_def BuildIdempotencyFingerprint_def demo_opts_def Let_def)
  moreover have "table_wf (snd demo_run)" by code_simp
  moreover have "(case table_view (snd demo_run) (io_Scope ?opts, HashIdempotencyKey demo_env ''k1'') of
      None \<Rightarrow> False | Some r \<Rightarrow> ir_RequestFingerprint r \<noteq> ?fp)" by code_simp
  moreover from this obtain r where
    "table_view (snd demo_run) (io_Scope ?opts, HashIdempotencyKey demo_env ''k1'') = Some r"
    "ir_RequestFingerprint r \<noteq> ?fp" by (auto split: option.splits)
  ultimately have "\<exists>t'. Execute demo_env (Some idempotencyRepository) DefaultIdempotencyConfig ?opts
      (Some (Inr ''[2]'')) 7 [] 8 (snd demo_run) = ((Refused KeyConflict, False), t') \<and>
      table_view t' = table_view (snd demo_run)"
    by (intro other_payload_conflicts)
  then show ?thesis by auto
qed


end
