(* ===== verification/IdempotencyLease.thy ===== *)
theory IdempotencyLease
  imports IdempotencyProofs
begin

text \<open>
  Many requests against one table: an interleaving of claims, renewals, completions and
  purges. While every execution completes and renews within its lease, no record is ever
  executed twice at the same time; an execution that completes late breaks that, because
  completion does not check who holds the record.
\<close>

subsection \<open>A repository whose calls do not fail\<close>

locale reliable_store = idempotency_store repo view inv
  for repo :: "'s IdempotencyRepository" and view and inv +
  assumes create_ok: "\<exists>c s'. repo_CreateProcessing repo rec s = (Some c, s')"
    and get_ok: "repo_GetByScopeAndKeyHash repo scope h s \<noteq> None"
    and reclaim_ok: "\<exists>b s'. repo_TryReclaim repo i st now l e s = (Some b, s')"
begin

definition only_row :: "'s \<Rightarrow> gostring \<times> gostring \<Rightarrow> idem_claim \<times> 's \<Rightarrow> bool" where
  "only_row s k r \<longleftrightarrow> inv (snd r) \<and> (\<forall>k'. k' \<noteq> k \<longrightarrow> view (snd r) k' = view s k') \<and>
     (\<forall>a. fst r = Answered a \<longrightarrow> view (snd r) = view s)"

lemma reclaim_one:
  assumes "inv s" and "view s k = Some r" and "repo_TryReclaim repo (ir_ID r) st now l e s = (Some b, s')"
  shows "inv s' \<and> (\<forall>k'. k' \<noteq> k \<longrightarrow> view s' k' = view s k') \<and> (\<not> b \<longrightarrow> view s' = view s)"
proof -
  from reclaim [OF assms(1,3)] have inv: "inv s'"
    and v: "view s' = updated (reclaimable (ir_ID r) st now) (reclaimedRow l e) (view s)" by auto
  have "view s' k' = view s k'" if "k' \<noteq> k" for k'
  proof (cases "view s k'")
    case (Some r')
    with that view_id [OF assms(1,2)] have "ir_ID r' \<noteq> ir_ID r" by metis
    with Some show ?thesis by (simp add: v updated_def reclaimable_def)
  qed (simp add: v updated_def)
  with inv failed_reclaim_keeps [OF assms(1)] assms(3) show ?thesis by (cases b) auto
qed

lemma decide_only:
  assumes "inv s" and "view s k = Some r"
  shows "only_row s k (decideExisting repo r now l e s)"
proof -
  obtain b s' where "repo_TryReclaim repo (ir_ID r) IdempotencyStatusFailedRetryable now l e s = (Some b, s')"
    using reclaim_ok by blast
  with reclaim_one [OF assms this] assms show ?thesis
    by (auto simp: decideExisting_def only_row_def split: option.split)
qed

lemma expired_only:
  assumes "inv s" and "view s (scope, h) = Some r" and "ir_RequestFingerprint r = fingerprint"
  shows "only_row s (scope, h) (reclaimExpired repo scope h fingerprint r now l e s)"
proof -
  obtain b s1 where 1: "repo_TryReclaim repo (ir_ID r) (ir_Status r) now l e s = (Some b, s1)"
    using reclaim_ok by blast
  note r1 = reclaim_one [OF assms(1,2) 1]
  show ?thesis
  proof (cases b)
    case False
    with r1 have s1: "inv s1" "view s1 = view s" by auto
    from get_ok [of scope h s1] get_view [OF s1(1)] assms(2) s1(2)
    have "repo_GetByScopeAndKeyHash repo scope h s1 = Some (Some r)" by fastforce
    with 1 False assms(3) decide_only [OF s1(1), of "(scope, h)" r now l e] s1(2) assms(2) show ?thesis
      by (simp add: reclaimExpired_def only_row_def)
  qed (use 1 r1 in \<open>simp add: reclaimExpired_def only_row_def\<close>)
qed

lemma claim_only:
  assumes "inv s"
  shows "only_row s (scope, h) (claimRecord repo scope h fingerprint now l e s)"
proof -
  let ?new = "newRecord scope h fingerprint l e"
  have key: "row_key ?new = (scope, h)" by (simp add: newRecord_def row_key_def)
  obtain owner rec s1 where 1: "repo_CreateProcessing repo ?new s = (Some (owner, rec), s1)"
    using create_ok by (metis surj_pair)
  note c = create [OF assms 1, unfolded key]
  show ?thesis
  proof (cases owner)
    case True
    with c view_row [of s1 "(scope, h)"] have "0 < ir_ID rec" by fastforce
    with True c 1 show ?thesis by (simp add: claimRecord_def only_row_def)
  next
    case False
    with c obtain r where r: "view s (scope, h) = Some r" and s1: "inv s1" "view s1 = view s" by auto
    from get_ok [of scope h s1] get_view [OF s1(1)] r s1(2)
    have get: "repo_GetByScopeAndKeyHash repo scope h s1 = Some (Some r)" by fastforce
    have reuse: "only_row s1 (scope, h) (reuseExisting repo scope h fingerprint now l e s1)"
      using expired_only [OF s1(1)] decide_only [OF s1(1)] r s1 get
      by (auto simp: reuseExisting_def only_row_def)
    obtain a s2 where 2: "reuseExisting repo scope h fingerprint now l e s1 = (a, s2)" by fastforce
    have nonzero: "i \<noteq> 0" if "a = Claimed i" for i
    proof
      assume "i = 0"
      with 2 that have "reuseExisting repo scope h fingerprint now l e s1 = (Claimed 0, s2)" by simp
      then have "ir_RequestFingerprint r = fingerprint \<and>
          (if ir_ExpiresAt r \<le> now then reclaimExpired repo scope h fingerprint r now l e s1 = (Claimed 0, s2)
           else decideExisting repo r now l e s1 = (Claimed 0, s2))"
        using get by (auto simp: reuseExisting_def split: if_splits)
      then have "granted fingerprint 0 l e (view s2 (scope, h)) \<and> inv s2"
        using expired_claims [OF s1(1), of scope h r] decide_claims [OF s1(1), of "(scope, h)" r] r s1(2)
        by (auto split: if_splits)
      then show False
        using view_row [of s2 "(scope, h)"] by (auto simp: granted_def split: option.splits)
    qed
    have "claimRecord repo scope h fingerprint now l e s = (a, s2)"
      using 1 2 False nonzero by (cases a) (simp_all add: claimRecord_def)
    with reuse 2 s1(2) show ?thesis by (simp add: only_row_def)
  qed
qed

end

interpretation sqlstore: reliable_store idempotencyRepository table_view table_wf
proof unfold_locales
  show "\<exists>c s'. repo_CreateProcessing idempotencyRepository rec s = (Some c, s')" for rec s
    by (rule sql_create_total)
  show "repo_GetByScopeAndKeyHash idempotencyRepository scope h s \<noteq> None" for scope h s
    by (rule sql_get_total)
  show "\<exists>b s'. repo_TryReclaim idempotencyRepository i st now l e s = (Some b, s')" for i st now l e s
    by (simp add: idempotencyRepository_def TryReclaim_def split_def Let_def)
qed

subsection \<open>Interleaved requests\<close>

text \<open>A run is an execution in progress: its record and the end of its lease.\<close>

type_synonym idem_run = "int \<times> gotime"

record idem_world =
  iw_now :: gotime
  iw_table :: idem_table
  iw_runs :: "idem_run list"

text \<open>
  The steps of any number of requests and of the cleanup service. With \<open>strict\<close>, a run
  renews and completes only before the end of its lease.
\<close>

inductive idem_step :: "bool \<Rightarrow> idem_world \<Rightarrow> idem_world \<Rightarrow> bool" for strict where
  Tick: "iw_now w \<le> n \<Longrightarrow> idem_step strict w (w\<lparr>iw_now := n\<rparr>)"
| Claim: "claimRecord idempotencyRepository scope h fp (iw_now w) l e (iw_table w) = (Claimed i, t) \<Longrightarrow>
    l \<le> e \<Longrightarrow> idem_step strict w (w\<lparr>iw_table := t, iw_runs := (i, l) # iw_runs w\<rparr>)"
| Answer: "claimRecord idempotencyRepository scope h fp (iw_now w) l e (iw_table w) = (Answered a, t) \<Longrightarrow>
    idem_step strict w (w\<lparr>iw_table := t\<rparr>)"
| Renew: "iw_runs w = xs @ (i, u) # ys \<Longrightarrow> strict \<longrightarrow> iw_now w < u \<Longrightarrow>
    ExtendProcessingLock i fp l e (iw_table w) = (Some True, t) \<Longrightarrow> u \<le> l \<Longrightarrow> l \<le> e \<Longrightarrow>
    idem_step strict w (w\<lparr>iw_table := t, iw_runs := xs @ (i, l) # ys\<rparr>)"
| Succeed: "iw_runs w = xs @ (i, u) # ys \<Longrightarrow> strict \<longrightarrow> iw_now w < u \<Longrightarrow>
    MarkSucceeded i c b e (iw_table w) = (Some r, t) \<Longrightarrow>
    idem_step strict w (w\<lparr>iw_table := t, iw_runs := xs @ ys\<rparr>)"
| Fail: "iw_runs w = xs @ (i, u) # ys \<Longrightarrow> strict \<longrightarrow> iw_now w < u \<Longrightarrow>
    MarkFailedRetryable i q l e (iw_table w) = (Some r, t) \<Longrightarrow>
    idem_step strict w (w\<lparr>iw_table := t, iw_runs := xs @ ys\<rparr>)"
| Purge: "DeleteExpired (iw_now w) limit (iw_table w) = (Some n, t) \<Longrightarrow>
    idem_step strict w (w\<lparr>iw_table := t\<rparr>)"

inductive_cases idem_stepE: "idem_step strict w w'"

inductive idem_reachable :: "bool \<Rightarrow> idem_world \<Rightarrow> bool" for strict where
  Start: "iw_table w = empty_table \<Longrightarrow> iw_runs w = [] \<Longrightarrow> idem_reachable strict w"
| Step: "idem_reachable strict w \<Longrightarrow> idem_step strict w w' \<Longrightarrow> idem_reachable strict w'"

text \<open>A live run owns its record: processing, locked and alive to the end of the lease.\<close>

definition owns :: "idem_table \<Rightarrow> idem_run \<Rightarrow> bool" where
  "owns t run \<longleftrightarrow> (\<exists>k r. table_view t k = Some r \<and> ir_ID r = fst run \<and>
     ir_Status r = IdempotencyStatusProcessing \<and>
     (\<exists>l. ir_LockedUntil r = Some l \<and> snd run \<le> l) \<and> snd run \<le> ir_ExpiresAt r)"

definition live :: "idem_world \<Rightarrow> idem_run list" where
  "live w = filter (\<lambda>run. iw_now w < snd run) (iw_runs w)"

definition lease_inv :: "idem_world \<Rightarrow> bool" where
  "lease_inv w \<longleftrightarrow> table_wf (iw_table w) \<and> distinct (map fst (live w)) \<and>
     (\<forall>run \<in> set (live w). owns (iw_table w) run)"

lemma live_owns: "lease_inv w \<Longrightarrow> run \<in> set (live w) \<Longrightarrow> owns (iw_table w) run"
  unfolding lease_inv_def by blast

lemma lease_inv_tick:
  assumes "lease_inv w" and "iw_now w \<le> n"
  shows "lease_inv (w\<lparr>iw_now := n\<rparr>)"
proof -
  have "live (w\<lparr>iw_now := n\<rparr>) = filter (\<lambda>run. n < snd run) (live w)"
    using assms(2) by (auto simp: live_def intro!: filter_cong)
  with assms show ?thesis by (auto simp: lease_inv_def distinct_map_filter)
qed

lemma owns_other:
  assumes "owns t run" and "\<And>k r. table_view t k = Some r \<Longrightarrow> ir_ID r = fst run \<Longrightarrow> table_view t' k = Some r"
  shows "owns t' run"
  using assms unfolding owns_def by blast

lemma lease_inv_claim:
  assumes "lease_inv w" and "l \<le> e"
    and "claimRecord idempotencyRepository scope h fp (iw_now w) l e (iw_table w) = (Claimed i, t)"
  shows "lease_inv (w\<lparr>iw_table := t, iw_runs := (i, l) # iw_runs w\<rparr>)"
proof -
  let ?t0 = "iw_table w" and ?k = "(scope, h)"
  from assms(1) have wf: "table_wf ?t0" by (simp add: lease_inv_def)
  from sqlrepo.claim_sound [OF wf assms(3)]
  have c: "claimable fp (iw_now w) (table_view ?t0 ?k)" "granted fp i l e (table_view t ?k)" "table_wf t" by auto
  from sqlstore.claim_only [OF wf, of scope h fp "iw_now w" l e] assms(3)
  have others: "\<And>k'. k' \<noteq> ?k \<Longrightarrow> table_view t k' = table_view ?t0 k'"
    by (simp add: sqlstore.only_row_def del: split_paired_All)
  from c(2) obtain r where r: "table_view t ?k = Some r" "ir_ID r = i"
    "ir_Status r = IdempotencyStatusProcessing" "ir_LockedUntil r = Some l" "ir_ExpiresAt r = e"
    by (auto simp: granted_def split: option.splits)
  have new: "owns t (i, l)" using r assms(2) by (auto simp: owns_def)
  have old: "fst run \<noteq> i \<and> owns t run" if "run \<in> set (live w)" for run
  proof -
    from that have "owns ?t0 run" and now: "iw_now w < snd run"
      using live_owns [OF assms(1)] by (simp_all add: live_def)
    then obtain k r' where k: "table_view ?t0 k = Some r'" "ir_ID r' = fst run"
      "ir_Status r' = IdempotencyStatusProcessing" "\<exists>l. ir_LockedUntil r' = Some l \<and> snd run \<le> l"
      "snd run \<le> ir_ExpiresAt r'"
      unfolding owns_def by blast
    have "k \<noteq> ?k" using c(1) k now by (auto simp: claimable_def lock_free_def)
    with others k have "table_view t k = Some r'" by simp
    moreover from this r \<open>k \<noteq> ?k\<close> sqlrepo.view_id [OF c(3)] have "ir_ID r' \<noteq> i" by metis
    ultimately show ?thesis unfolding owns_def using k by metis
  qed
  have "live (w\<lparr>iw_table := t, iw_runs := (i, l) # iw_runs w\<rparr>) =
      (if iw_now w < l then (i, l) # live w else live w)"
    by (simp add: live_def)
  with assms(1) c(3) new old show ?thesis by (auto simp: lease_inv_def)
qed

lemma lease_inv_answer:
  assumes "lease_inv w"
    and "claimRecord idempotencyRepository scope h fp (iw_now w) l e (iw_table w) = (Answered a, t)"
  shows "lease_inv (w\<lparr>iw_table := t\<rparr>)"
proof -
  from assms(1) have "table_wf (iw_table w)" by (simp add: lease_inv_def)
  from sqlstore.claim_only [OF this, of scope h fp "iw_now w" l e] assms(2)
  have "table_wf t" "table_view t = table_view (iw_table w)" by (simp_all add: sqlstore.only_row_def)
  with assms(1) show ?thesis by (simp add: lease_inv_def live_def owns_def)
qed

text \<open>A run's own update of its row leaves the rows of the other live runs alone.\<close>

lemma owns_update:
  assumes "owns t run" and "\<And>r. ir_ID r = fst run \<Longrightarrow> \<not> p r" and "\<And>r. row_key (f r) = row_key r"
  shows "owns (snd (update_where p f t)) run"
  using assms(1)
  by (rule owns_other) (simp add: update_where_view assms(2,3) updated_def)

lemma live_split:
  assumes "iw_runs w = xs @ (i, u) # ys" and "distinct (map fst (live w))" and "iw_now w < u"
    and "run \<in> set (filter (\<lambda>run. iw_now w < snd run) (xs @ ys))"
  shows "fst run \<noteq> i"
  using assms by (auto simp: live_def image_iff)

lemma lease_inv_finish:
  assumes "lease_inv w" and "iw_runs w = xs @ (i, u) # ys" and "iw_now w < u"
    and "t = snd (update_where (\<lambda>r. ir_ID r = i) f (iw_table w))"
    and "\<And>r. row_key (f r) = row_key r" and "\<And>r. ir_ID (f r) = ir_ID r"
  shows "lease_inv (w\<lparr>iw_table := t, iw_runs := xs @ ys\<rparr>)"
proof -
  let ?live = "live (w\<lparr>iw_table := t, iw_runs := xs @ ys\<rparr>)"
  from assms(1) have inv: "table_wf (iw_table w)" "distinct (map fst (live w))"
    "\<And>run. run \<in> set (live w) \<Longrightarrow> owns (iw_table w) run" by (auto simp: lease_inv_def)
  have "owns t run" if "run \<in> set ?live" for run
    unfolding assms(4)
  proof (rule owns_update)
    show "owns (iw_table w) run" using that by (intro inv(3)) (auto simp: live_def assms(2))
    have "fst run \<noteq> i" using that live_split [OF assms(2) inv(2) assms(3)] by (simp add: live_def)
    then show "ir_ID r \<noteq> i" if "ir_ID r = fst run" for r using that by simp
  qed (rule assms(5))
  moreover have "table_wf t" unfolding assms(4) using inv(1) assms(5,6) by (rule update_where_wf)
  moreover have "distinct (map fst ?live)" using inv(2) by (auto simp: live_def assms(2) split: if_splits)
  ultimately show ?thesis by (simp add: lease_inv_def)
qed

lemma lease_inv_renew:
  assumes "lease_inv w" and "iw_runs w = xs @ (i, u) # ys" and "iw_now w < u" and "u \<le> l" and "l \<le> e"
    and "ExtendProcessingLock i fp l e (iw_table w) = (Some True, t)"
  shows "lease_inv (w\<lparr>iw_table := t, iw_runs := xs @ (i, l) # ys\<rparr>)"
proof -
  let ?live = "live (w\<lparr>iw_table := t, iw_runs := xs @ (i, l) # ys\<rparr>)"
  from assms(1) have inv: "table_wf (iw_table w)" "distinct (map fst (live w))"
    "\<And>run. run \<in> set (live w) \<Longrightarrow> owns (iw_table w) run" by (auto simp: lease_inv_def)
  from assms(6) have t: "t = snd (update_where (extendable i fp) (extendedRow l e) (iw_table w))"
    and hit: "fst (update_where (extendable i fp) (extendedRow l e) (iw_table w))"
    by (simp_all add: ExtendProcessingLock_def split_def Let_def)
  from hit obtain k r where r: "table_view (iw_table w) k = Some r" "extendable i fp r"
    using update_where_hit [OF inv(1)] by blast
  then have "table_view t k = Some (extendedRow l e r)" by (simp add: t update_where_view updated_def)
  then have new: "owns t (i, l)"
    using r(2) assms(5) unfolding owns_def
    by (intro exI [of _ k] exI [of _ "extendedRow l e r"]) (simp add: extendedRow_def extendable_def)
  have old: "owns t run" if "run \<in> set (filter (\<lambda>run. iw_now w < snd run) (xs @ ys))" for run
    unfolding t
  proof (rule owns_update)
    show "owns (iw_table w) run" using that by (intro inv(3)) (auto simp: live_def assms(2))
    have "fst run \<noteq> i" using that live_split [OF assms(2) inv(2) assms(3)] by simp
    then show "\<not> extendable i fp r" if "ir_ID r = fst run" for r using that by (simp add: extendable_def)
  qed simp
  have "table_wf t" unfolding t using inv(1) by (rule update_where_wf) simp_all
  moreover have "map fst ?live = map fst (live w)" using assms(3,4) by (simp add: live_def assms(2))
  moreover have "run = (i, l) \<or> run \<in> set (filter (\<lambda>run. iw_now w < snd run) (xs @ ys))"
    if "run \<in> set ?live" for run using that by (auto simp: live_def split: if_splits)
  ultimately show ?thesis using inv(2) new old by (fastforce simp: lease_inv_def)
qed

lemma lease_inv_purge:
  assumes "lease_inv w" and "DeleteExpired (iw_now w) limit (iw_table w) = (Some n, t)"
  shows "lease_inv (w\<lparr>iw_table := t\<rparr>)"
proof -
  let ?t0 = "iw_table w"
  from assms(1) have wf: "table_wf ?t0" by (simp add: lease_inv_def)
  define expired where "expired = filter (\<lambda>r. ir_ExpiresAt r \<le> iw_now w) (it_rows ?t0)"
  define victims where "victims = map ir_ID (take (nat (if limit \<le> 0 then 500 else limit)) (sort_key ir_ExpiresAt expired))"
  from assms(2) have t: "t = ?t0\<lparr>it_rows := filter (\<lambda>r. ir_ID r \<notin> set victims) (it_rows ?t0)\<rparr>"
    by (simp add: DeleteExpired_def Let_def victims_def expired_def)
  have vs: "i \<in> set victims \<Longrightarrow> \<exists>r \<in> set (it_rows ?t0). ir_ID r = i \<and> ir_ExpiresAt r \<le> iw_now w" for i
    unfolding victims_def by (auto simp: expired_def dest!: in_set_takeD)
  have wf': "table_wf t" using wf by (auto simp: t table_wf_def distinct_map_filter)
  have keep: "table_view t k = Some r"
    if "table_view ?t0 k = Some r" "iw_now w < ir_ExpiresAt r" for k r
  proof -
    from that(1) have r: "r \<in> set (it_rows ?t0)" "row_key r = k" by (auto dest: table_view_row)
    have "ir_ID r \<notin> set victims"
      using vs [of "ir_ID r"] r(1) that(2) wf by (force simp: table_wf_def distinct_map inj_on_def)
    with r have "r \<in> set (it_rows t)" by (simp add: t)
    with r(2) table_view_iff [OF wf'] show ?thesis by blast
  qed
  have "owns t run" if "run \<in> set (live w)" for run
  proof -
    from that have "owns ?t0 run" "iw_now w < snd run"
      using live_owns [OF assms(1)] by (simp_all add: live_def)
    then show ?thesis unfolding owns_def using keep by (meson less_le_trans)
  qed
  with assms(1) wf' show ?thesis by (simp add: lease_inv_def live_def)
qed

lemma lease_inv_step:
  assumes "idem_step strict w w'" and "strict" and "lease_inv w"
  shows "lease_inv w'"
  using assms
proof (induction rule: idem_step.induct)
  case (Tick w n)
  then show ?case by (simp add: lease_inv_tick)
next
  case (Claim scope h fp w l e i t)
  from lease_inv_claim [OF Claim(4,2,1)] show ?case .
next
  case (Answer scope h fp w l e a t)
  from lease_inv_answer [OF Answer(3,1)] show ?case .
next
  case (Renew w xs i u ys fp l e t)
  from Renew(2,6) have "iw_now w < u" by simp
  from lease_inv_renew [OF Renew(7,1) this Renew(4,5,3)] show ?case .
next
  case (Succeed w xs i u ys c b e r t)
  from Succeed(2,4) have "iw_now w < u" by simp
  moreover from Succeed(3) have "t = snd (update_where (\<lambda>r. ir_ID r = i) (succeededRow c b e) (iw_table w))"
    by (simp add: MarkSucceeded_def)
  ultimately show ?case by (intro lease_inv_finish [OF Succeed(5,1), where f = "succeededRow c b e"]) simp_all
next
  case (Fail w xs i u ys q l e r t)
  from Fail(2,4) have "iw_now w < u" by simp
  moreover from Fail(3) have "t = snd (update_where (\<lambda>r. ir_ID r = i) (failedRow q l e) (iw_table w))"
    by (simp add: MarkFailedRetryable_def)
  ultimately show ?case by (intro lease_inv_finish [OF Fail(5,1), where f = "failedRow q l e"]) simp_all
next
  case (Purge w limit n t)
  from lease_inv_purge [OF Purge(3,1)] show ?case .
qed


subsection \<open>Completing late\<close>

text \<open>
  Request A claims the key with a lease to 10 and a lifetime to 10, B claims it at 20 when
  both are over, A fails late and marks the record failed although B runs, and C claims
  it at 30.
\<close>

definition late_claim :: "gotime \<Rightarrow> gotime \<Rightarrow> idem_table \<Rightarrow> idem_claim \<times> idem_table" where
  "late_claim now l t = claimRecord idempotencyRepository ''s'' ''h'' ''f'' now l l t"

definition late_tables :: "idem_table list" where
  "late_tables =
     (let t1 = snd (late_claim 0 10 empty_table);
          t2 = snd (late_claim 20 120 t1);
          t3 = snd (MarkFailedRetryable 1 ''E'' 25 300 t2);
          t4 = snd (late_claim 30 130 t3) in [t1, t2, t3, t4])"

lemma late_claims:
  "late_claim 0 10 empty_table = (Claimed 1, late_tables ! 0)"
  "late_claim 20 120 (late_tables ! 0) = (Claimed 1, late_tables ! 1)"
  "MarkFailedRetryable 1 ''E'' 25 300 (late_tables ! 1) = (Some (), late_tables ! 2)"
  "late_claim 30 130 (late_tables ! 2) = (Claimed 1, late_tables ! 3)"
proof -
  have "fst (late_claim 0 10 empty_table) = Claimed 1" "fst (late_claim 20 120 (late_tables ! 0)) = Claimed 1"
    "fst (late_claim 30 130 (late_tables ! 2)) = Claimed 1" by code_simp+
  then show "late_claim 0 10 empty_table = (Claimed 1, late_tables ! 0)"
    "late_claim 20 120 (late_tables ! 0) = (Claimed 1, late_tables ! 1)"
    "late_claim 30 130 (late_tables ! 2) = (Claimed 1, late_tables ! 3)"
    by (simp_all add: late_tables_def Let_def prod_eq_iff)
  show "MarkFailedRetryable 1 ''E'' 25 300 (late_tables ! 1) = (Some (), late_tables ! 2)"
    by (simp add: late_tables_def Let_def MarkFailedRetryable_def)
qed

text \<open>
  completion does not check the lease: when a run completes after its lease, a record
  can be executed by two runs at once, both within their leases.
\<close>

theorem late_completion_breaks_exclusivity:
  "\<exists>w. idem_reachable False w \<and> \<not> distinct (map fst (live w))"
proof -
  define w where "w n t rs = \<lparr>iw_now = n, iw_table = t, iw_runs = rs\<rparr>" for n t rs
  note claim = Claim [where scope = "''s''" and h = "''h''" and fp = "''f''", folded late_claim_def]
  have "idem_reachable False (w 0 empty_table [])" by (rule Start) (simp_all add: w_def)
  from Step [OF this claim [of "w 0 empty_table []" 10 10 1 "late_tables ! 0" False]]
  have "idem_reachable False (w 0 (late_tables ! 0) [(1, 10)])"
    using late_claims(1) by (simp add: w_def late_claim_def)
  from Step [OF this Tick [of _ 20]] have "idem_reachable False (w 20 (late_tables ! 0) [(1, 10)])"
    by (simp add: w_def)
  from Step [OF this Claim [where scope = "''s''" and h = "''h''" and fp = "''f''" and l = 120 and e = 120]]
  have "idem_reachable False (w 20 (late_tables ! 1) [(1, 120), (1, 10)])"
    using late_claims(2) by (simp add: w_def late_claim_def)
  from Step [OF this Fail [of _ "[(1, 120)]" 1 10 "[]" False "''E''" 25 300 "()" "late_tables ! 2"]]
  have "idem_reachable False (w 20 (late_tables ! 2) [(1, 120)])"
    using late_claims(3) by (simp add: w_def)
  from Step [OF this Tick [of _ 30]] have "idem_reachable False (w 30 (late_tables ! 2) [(1, 120)])"
    by (simp add: w_def)
  from Step [OF this Claim [where scope = "''s''" and h = "''h''" and fp = "''f''" and l = 130 and e = 130]]
  have "idem_reachable False (w 30 (late_tables ! 3) [(1, 130), (1, 120)])"
    using late_claims(4) by (simp add: w_def late_claim_def)
  moreover have "\<not> distinct (map fst (live (w 30 (late_tables ! 3) [(1, 130), (1, 120)])))"
    by (simp add: live_def w_def)
  ultimately show ?thesis by blast
qed


end
