(* ===== verification/Breakers.thy ===== *)
theory Breakers
  imports GoPrelude
begin

text \<open>
  The two in-process circuit breakers of the OpenAI gateway: per proxy
  (\<open>service/openai_proxy_stream_circuit.go\<close>) and per account and model
  (\<open>service/openai_account_model_transient.go\<close>). Both keep a bounded map. The methods are
  pure functions of the state under their mutex; \<open>now\<close> is an argument, and \<open>rk\<close> ranks the
  keys in the order in which the eviction loop visits them. Logging is left out.
\<close>

subsection \<open>Proxies\<close>

definition defaultOpenAIProxyStreamFailureThreshold :: int where
  "defaultOpenAIProxyStreamFailureThreshold = 2"
definition defaultOpenAIProxyStreamFailureWindow :: goduration where
  "defaultOpenAIProxyStreamFailureWindow = minute"
definition defaultOpenAIProxyStreamQuarantineTTL :: goduration where
  "defaultOpenAIProxyStreamQuarantineTTL = 10 * minute"
definition defaultOpenAIProxyStreamCircuitMaxEntries :: int where
  "defaultOpenAIProxyStreamCircuitMaxEntries = 4096"
definition defaultOpenAIProxyStreamFailureCollapse :: goduration where
  "defaultOpenAIProxyStreamFailureCollapse = 3 * second"

record openAIProxyStreamCircuitSettings =
  cs_disabled :: bool
  cs_failureThreshold :: int
  cs_failureWindow :: goduration
  cs_quarantineTTL :: goduration
  cs_collapseInterval :: goduration
  cs_maxEntries :: int

record openAIProxyStreamCircuitEntry =
  ce_failureCount :: int
  ce_windowStart :: gotime
  ce_lastFailureAt :: gotime
  ce_blockedUntil :: gotime
  ce_lastTouched :: gotime

record openAIProxyStreamCircuit =
  pc_settings :: openAIProxyStreamCircuitSettings
  pc_entries :: "(int, openAIProxyStreamCircuitEntry) gomap"

text \<open>The section \<open>Gateway.OpenAIProxyStreamCircuit\<close> of the configuration.\<close>

record proxyCircuitConfig =
  pcc_Disabled :: bool
  pcc_FailureThreshold :: int
  pcc_WindowSeconds :: int
  pcc_TTLSeconds :: int

definition resolveOpenAIProxyStreamCircuitSettings ::
  "proxyCircuitConfig option \<Rightarrow> openAIProxyStreamCircuitSettings" where
  "resolveOpenAIProxyStreamCircuitSettings cfg =
     (let settings = \<lparr>cs_disabled = False,
            cs_failureThreshold = defaultOpenAIProxyStreamFailureThreshold,
            cs_failureWindow = defaultOpenAIProxyStreamFailureWindow,
            cs_quarantineTTL = defaultOpenAIProxyStreamQuarantineTTL,
            cs_collapseInterval = defaultOpenAIProxyStreamFailureCollapse,
            cs_maxEntries = defaultOpenAIProxyStreamCircuitMaxEntries\<rparr> in
      case cfg of
        None \<Rightarrow> settings
      | Some c \<Rightarrow>
          settings\<lparr>cs_disabled := pcc_Disabled c,
            cs_failureThreshold := (if 0 < pcc_FailureThreshold c then pcc_FailureThreshold c
                                    else cs_failureThreshold settings),
            cs_failureWindow := (if 0 < pcc_WindowSeconds c then wrap64 (pcc_WindowSeconds c * second)
                                 else cs_failureWindow settings),
            cs_quarantineTTL := (if 0 < pcc_TTLSeconds c then wrap64 (pcc_TTLSeconds c * second)
                                 else cs_quarantineTTL settings)\<rparr>)"

definition newOpenAIProxyStreamCircuit :: "openAIProxyStreamCircuitSettings \<Rightarrow> openAIProxyStreamCircuit" where
  "newOpenAIProxyStreamCircuit s =
     \<lparr>pc_settings =
        s\<lparr>cs_failureThreshold := (if cs_failureThreshold s \<le> 0
             then defaultOpenAIProxyStreamFailureThreshold else cs_failureThreshold s),
          cs_failureWindow := (if cs_failureWindow s \<le> 0
             then defaultOpenAIProxyStreamFailureWindow else cs_failureWindow s),
          cs_quarantineTTL := (if cs_quarantineTTL s \<le> 0
             then defaultOpenAIProxyStreamQuarantineTTL else cs_quarantineTTL s),
          cs_maxEntries := (if cs_maxEntries s \<le> 0
             then defaultOpenAIProxyStreamCircuitMaxEntries else cs_maxEntries s),
          cs_collapseInterval := (if cs_collapseInterval s < 0 then 0 else cs_collapseInterval s)\<rparr>,
      pc_entries = []\<rparr>"

definition entryFinished ::
  "openAIProxyStreamCircuitSettings \<Rightarrow> gotime \<Rightarrow> openAIProxyStreamCircuitEntry \<Rightarrow> bool" where
  "entryFinished settings now e \<longleftrightarrow>
     (ce_blockedUntil e = 0 \<and> cs_failureWindow settings < time_sub now (ce_lastTouched e)) \<or>
     (ce_blockedUntil e \<noteq> 0 \<and> \<not> now < ce_blockedUntil e)"

text \<open>
  The loop over the map deletes finished entries; the second one looks for the oldest and
  takes the id 0 for "none seen yet", which no entry has.
\<close>

definition ensureCapacityLocked ::
  "(int \<Rightarrow> nat) \<Rightarrow> gotime \<Rightarrow> openAIProxyStreamCircuit \<Rightarrow> openAIProxyStreamCircuit" where
  "ensureCapacityLocked rk now c =
     (if int (length (pc_entries c)) < cs_maxEntries (pc_settings c) then c
      else
        let m = filter (\<lambda>(_, e). \<not> entryFinished (pc_settings c) now e) (pc_entries c) in
        if int (length m) < cs_maxEntries (pc_settings c) then c\<lparr>pc_entries := m\<rparr>
        else c\<lparr>pc_entries := evict_oldest ce_lastTouched rk m\<rparr>)"

definition newEntry :: openAIProxyStreamCircuitEntry where
  "newEntry = \<lparr>ce_failureCount = 0, ce_windowStart = 0, ce_lastFailureAt = 0, ce_blockedUntil = 0,
     ce_lastTouched = 0\<rparr>"

definition restartWindow ::
  "openAIProxyStreamCircuitSettings \<Rightarrow> gotime \<Rightarrow> openAIProxyStreamCircuitEntry \<Rightarrow> openAIProxyStreamCircuitEntry" where
  "restartWindow settings now e =
     (if time_is_zero (ce_windowStart e) \<or> now < ce_windowStart e \<or>
         cs_failureWindow settings < time_sub now (ce_windowStart e)
      then e\<lparr>ce_failureCount := 0, ce_windowStart := now, ce_blockedUntil := 0\<rparr>
      else e)"

definition collapses ::
  "openAIProxyStreamCircuitSettings \<Rightarrow> gotime \<Rightarrow> openAIProxyStreamCircuitEntry \<Rightarrow> bool" where
  "collapses settings now e \<longleftrightarrow>
     0 < cs_collapseInterval settings \<and> \<not> time_is_zero (ce_lastFailureAt e) \<and>
     0 \<le> time_sub now (ce_lastFailureAt e) \<and>
     time_sub now (ce_lastFailureAt e) < cs_collapseInterval settings"

definition countFailure ::
  "openAIProxyStreamCircuitSettings \<Rightarrow> gotime \<Rightarrow> openAIProxyStreamCircuitEntry \<Rightarrow> openAIProxyStreamCircuitEntry" where
  "countFailure settings now e =
     (let e1 = e\<lparr>ce_failureCount := ce_failureCount e + 1, ce_lastFailureAt := now, ce_lastTouched := now\<rparr>
      in if cs_failureThreshold settings \<le> ce_failureCount e1
         then e1\<lparr>ce_blockedUntil := time_add now (cs_quarantineTTL settings)\<rparr> else e1)"

definition recordFailure ::
  "(int \<Rightarrow> nat) \<Rightarrow> int \<Rightarrow> gotime \<Rightarrow> openAIProxyStreamCircuit \<Rightarrow>
   openAIProxyStreamCircuit \<times> bool \<times> gotime" where
  "recordFailure rk proxyID now c =
     (if cs_disabled (pc_settings c) \<or> proxyID \<le> 0 then (c, False, 0)
      else
        (case map_get (pc_entries c) proxyID of
           Some entry \<Rightarrow>
             if now < ce_blockedUntil entry
             then (c\<lparr>pc_entries := map_put proxyID (entry\<lparr>ce_lastTouched := now\<rparr>) (pc_entries c)\<rparr>,
                   False, ce_blockedUntil entry)
             else
               (let e = restartWindow (pc_settings c) now entry in
                if collapses (pc_settings c) now e
                then (c\<lparr>pc_entries := map_put proxyID (e\<lparr>ce_lastTouched := now\<rparr>) (pc_entries c)\<rparr>, False, 0)
                else
                  let e1 = countFailure (pc_settings c) now e in
                  (c\<lparr>pc_entries := map_put proxyID e1 (pc_entries c)\<rparr>,
                   cs_failureThreshold (pc_settings c) \<le> ce_failureCount e1, ce_blockedUntil e1))
         | None \<Rightarrow>
             (let c1 = ensureCapacityLocked rk now c;
                  e = restartWindow (pc_settings c) now newEntry in
              if collapses (pc_settings c) now e
              then (c1\<lparr>pc_entries := map_put proxyID (e\<lparr>ce_lastTouched := now\<rparr>) (pc_entries c1)\<rparr>, False, 0)
              else
                let e1 = countFailure (pc_settings c) now e in
                (c1\<lparr>pc_entries := map_put proxyID e1 (pc_entries c1)\<rparr>,
                 cs_failureThreshold (pc_settings c) \<le> ce_failureCount e1, ce_blockedUntil e1))))"

definition recordSuccess :: "int \<Rightarrow> openAIProxyStreamCircuit \<Rightarrow> openAIProxyStreamCircuit \<times> bool" where
  "recordSuccess proxyID c =
     (if proxyID \<le> 0 then (c, False)
      else (case map_get (pc_entries c) proxyID of
              None \<Rightarrow> (c, False)
            | Some _ \<Rightarrow> (c\<lparr>pc_entries := map_del proxyID (pc_entries c)\<rparr>, True)))"

definition isBlocked :: "int \<Rightarrow> gotime \<Rightarrow> openAIProxyStreamCircuit \<Rightarrow> openAIProxyStreamCircuit \<times> bool" where
  "isBlocked proxyID now c =
     (if cs_disabled (pc_settings c) \<or> proxyID \<le> 0 then (c, False)
      else
        (case map_get (pc_entries c) proxyID of
           None \<Rightarrow> (c, False)
         | Some entry \<Rightarrow>
             if time_is_zero (ce_blockedUntil entry) then (c, False)
             else if \<not> now < ce_blockedUntil entry
             then (c\<lparr>pc_entries := map_del proxyID (pc_entries c)\<rparr>, False)
             else (c, True)))"

definition activeBlockCount :: "gotime \<Rightarrow> openAIProxyStreamCircuit \<Rightarrow> int" where
  "activeBlockCount now c =
     (if cs_disabled (pc_settings c) then 0
      else int (length (filter (\<lambda>(_, e). ce_blockedUntil e \<noteq> 0 \<and> now < ce_blockedUntil e) (pc_entries c))))"

text \<open>Which streams count: those of OpenAI accounts behind a proxy, cancellations apart.\<close>

record proxyAccount =
  pa_Platform :: gostring
  pa_ProxyID :: "int option"

datatype streamError = Canceled | DeadlineExceeded | OtherError

definition openAIProxyStreamCircuitProxyID :: "proxyAccount option \<Rightarrow> int option" where
  "openAIProxyStreamCircuitProxyID account =
     (case account of
        None \<Rightarrow> None
      | Some a \<Rightarrow>
          if pa_Platform a \<noteq> ''openai'' then None
          else (case pa_ProxyID a of None \<Rightarrow> None | Some p \<Rightarrow> if p \<le> 0 then None else Some p))"

definition recordOpenAIProxyStreamDisconnect ::
  "(int \<Rightarrow> nat) \<Rightarrow> proxyAccount option \<Rightarrow> streamError option \<Rightarrow> gotime \<Rightarrow>
   openAIProxyStreamCircuit \<Rightarrow> openAIProxyStreamCircuit" where
  "recordOpenAIProxyStreamDisconnect rk account streamErr now c =
     (case (openAIProxyStreamCircuitProxyID account, streamErr) of
        (Some proxyID, Some OtherError) \<Rightarrow> fst (recordFailure rk proxyID now c)
      | _ \<Rightarrow> c)"

definition clearOpenAIProxyStreamDisconnect ::
  "proxyAccount option \<Rightarrow> openAIProxyStreamCircuit \<Rightarrow> openAIProxyStreamCircuit" where
  "clearOpenAIProxyStreamDisconnect account c =
     (case openAIProxyStreamCircuitProxyID account of
        None \<Rightarrow> c
      | Some proxyID \<Rightarrow> fst (recordSuccess proxyID c))"

definition isOpenAIProxyStreamQuarantined ::
  "bool \<Rightarrow> proxyAccount option \<Rightarrow> gotime \<Rightarrow> openAIProxyStreamCircuit \<Rightarrow> openAIProxyStreamCircuit \<times> bool" where
  "isOpenAIProxyStreamQuarantined bypassed account now c =
     (case openAIProxyStreamCircuitProxyID account of
        None \<Rightarrow> (c, False)
      | Some proxyID \<Rightarrow> if bypassed then (c, False) else isBlocked proxyID now c)"

subsection \<open>Accounts and models\<close>

definition openAIModelTransientStreakTTL :: goduration where
  "openAIModelTransientStreakTTL = 30 * minute"
definition openAIModelTransientShortCooldown :: goduration where
  "openAIModelTransientShortCooldown = 10 * second"
definition openAIModelTransientLongCooldown :: goduration where
  "openAIModelTransientLongCooldown = 45 * second"
definition openAIModelTransientDefaultMax :: int where "openAIModelTransientDefaultMax = 4096"
definition openAIModelTransientMaxModelBytes :: nat where "openAIModelTransientMaxModelBytes = 512"

type_synonym openAIAccountModelKey = "int \<times> gostring"

record openAIAccountModelTransientEntry =
  te_failureStreak :: int
  te_lastFailure :: gotime
  te_blockUntil :: gotime
  te_lastTouched :: gotime

record openAIAccountModelTransientDecision =
  td_FailureStreak :: int
  td_Cooldown :: goduration
  td_BlockUntil :: gotime

record openAIAccountModelTransientState =
  ts_entries :: "(openAIAccountModelKey, openAIAccountModelTransientEntry) gomap"
  ts_maxEntries :: int

definition newOpenAIAccountModelTransientState :: "int \<Rightarrow> openAIAccountModelTransientState" where
  "newOpenAIAccountModelTransientState maxEntries =
     \<lparr>ts_entries = [], ts_maxEntries = (if maxEntries \<le> 0 then openAIModelTransientDefaultMax else maxEntries)\<rparr>"

definition normalizeOpenAIAccountModelTransientModel :: "gostring \<Rightarrow> gostring" where
  "normalizeOpenAIAccountModelTransientModel model =
     (let m = trim_space model in
      if length m > openAIModelTransientMaxModelBytes then [] else to_lower m)"

definition transientKey :: "int \<Rightarrow> gostring \<Rightarrow> openAIAccountModelKey option" where
  "transientKey accountID model =
     (let m = normalizeOpenAIAccountModelTransientModel model in
      if accountID \<le> 0 \<or> m = [] then None else Some (accountID, m))"

definition evictOldestLocked ::
  "(openAIAccountModelKey \<Rightarrow> nat) \<Rightarrow> openAIAccountModelTransientState \<Rightarrow> openAIAccountModelTransientState" where
  "evictOldestLocked rk s =
     (if int (length (ts_entries s)) < ts_maxEntries s then s
      else s\<lparr>ts_entries := evict_oldest te_lastTouched rk (ts_entries s)\<rparr>)"

definition cooldownOf :: "int \<Rightarrow> goduration" where
  "cooldownOf streak =
     (if 3 \<le> streak then openAIModelTransientLongCooldown
      else if streak = 2 then openAIModelTransientShortCooldown else 0)"

definition emptyTransientEntry :: openAIAccountModelTransientEntry where
  "emptyTransientEntry = \<lparr>te_failureStreak = 0, te_lastFailure = 0, te_blockUntil = 0, te_lastTouched = 0\<rparr>"

text \<open>The callers pass the current time, so the fallback for a zero time is \<open>wallClock\<close>.\<close>

definition recordTransientFailure ::
  "(openAIAccountModelKey \<Rightarrow> nat) \<Rightarrow> gotime \<Rightarrow> int \<Rightarrow> gostring \<Rightarrow> gotime \<Rightarrow> openAIAccountModelTransientState \<Rightarrow>
   openAIAccountModelTransientState \<times> openAIAccountModelTransientDecision" where
  "recordTransientFailure rk wallClock accountID model now s =
     (case transientKey accountID model of
        None \<Rightarrow> (s, \<lparr>td_FailureStreak = 0, td_Cooldown = 0, td_BlockUntil = 0\<rparr>)
      | Some key \<Rightarrow>
          (let now = (if time_is_zero now then wallClock else now);
               s1 = s\<lparr>ts_maxEntries := (if ts_maxEntries s \<le> 0 then openAIModelTransientDefaultMax
                                        else ts_maxEntries s)\<rparr>;
               found = map_get (ts_entries s1) key;
               entry = (case found of None \<Rightarrow> emptyTransientEntry | Some e \<Rightarrow> e);
               s2 = (if found = None then evictOldestLocked rk s1 else s1);
               stale = found = None \<or> time_is_zero (te_lastFailure entry) \<or>
                       openAIModelTransientStreakTTL < time_sub now (te_lastFailure entry) \<or>
                       now < te_lastFailure entry;
               streak = (if stale then 0 else te_failureStreak entry) + 1;
               cooldown = cooldownOf streak;
               blockUntil = (if 0 < cooldown then time_add now cooldown else 0);
               entry1 = \<lparr>te_failureStreak = streak, te_lastFailure = now, te_blockUntil = blockUntil,
                         te_lastTouched = now\<rparr>
           in (s2\<lparr>ts_entries := map_put key entry1 (ts_entries s2)\<rparr>,
               \<lparr>td_FailureStreak = streak, td_Cooldown = cooldown, td_BlockUntil = blockUntil\<rparr>)))"

definition recordTransientSuccess ::
  "int \<Rightarrow> gostring \<Rightarrow> openAIAccountModelTransientState \<Rightarrow> openAIAccountModelTransientState" where
  "recordTransientSuccess accountID model s =
     (case transientKey accountID model of
        None \<Rightarrow> s
      | Some key \<Rightarrow> s\<lparr>ts_entries := map_del key (ts_entries s)\<rparr>)"

definition isTransientBlocked ::
  "gotime \<Rightarrow> int \<Rightarrow> gostring \<Rightarrow> gotime \<Rightarrow> openAIAccountModelTransientState \<Rightarrow>
   openAIAccountModelTransientState \<times> bool" where
  "isTransientBlocked wallClock accountID model now s =
     (case transientKey accountID model of
        None \<Rightarrow> (s, False)
      | Some key \<Rightarrow>
          (let now = (if time_is_zero now then wallClock else now) in
           case map_get (ts_entries s) key of
             None \<Rightarrow> (s, False)
           | Some entry \<Rightarrow>
               if \<not> time_is_zero (te_lastFailure entry) \<and>
                  openAIModelTransientStreakTTL < time_sub now (te_lastFailure entry)
               then (s\<lparr>ts_entries := map_del key (ts_entries s)\<rparr>, False)
               else (s\<lparr>ts_entries := map_put key (entry\<lparr>te_lastTouched := now\<rparr>) (ts_entries s)\<rparr>,
                     \<not> time_is_zero (te_blockUntil entry) \<and> now < te_blockUntil entry)))"

definition transientSize :: "openAIAccountModelTransientState \<Rightarrow> int" where
  "transientSize s = int (length (ts_entries s))"

end
