(* ===== verification/BreakerProofs.thy ===== *)
theory BreakerProofs
  imports Breakers
begin

text \<open>
  The breakers stay within their capacity, trip when they should, do not trip on a burst
  that is one incident, and release what they blocked.
\<close>

subsection \<open>Bounded tables\<close>

text \<open>The contract of a table that evicts before it inserts, and what runs of it keep.\<close>

locale bounded_table =
  fixes step :: "'s \<Rightarrow> 'i \<Rightarrow> 's" and inv :: "'s \<Rightarrow> bool" and size :: "'s \<Rightarrow> int" and cap :: "'s \<Rightarrow> int"
  assumes step_inv: "inv s \<Longrightarrow> inv (step s i)"
    and step_cap: "inv s \<Longrightarrow> cap (step s i) = cap s"
    and step_bound: "inv s \<Longrightarrow> size s \<le> cap s \<Longrightarrow> size (step s i) \<le> cap s"
begin

lemma run_bound:
  "inv s \<Longrightarrow> size s \<le> cap s \<Longrightarrow>
   inv (foldl step s is) \<and> cap (foldl step s is) = cap s \<and> size (foldl step s is) \<le> cap s"
proof (induction "is" arbitrary: s)
  case (Cons i "is")
  then show ?case using step_inv [of s i] step_cap [of s i] step_bound [of s i] Cons.IH [of "step s i"]
    by simp
qed simp

end

subsection \<open>The proxy circuit\<close>

datatype proxy_op = ProxyFails int gotime | ProxySucceeds int | ProxyAsked int gotime

definition proxy_step :: "(int \<Rightarrow> nat) \<Rightarrow> openAIProxyStreamCircuit \<Rightarrow> proxy_op \<Rightarrow> openAIProxyStreamCircuit" where
  "proxy_step rk c x = (case x of ProxyFails p t \<Rightarrow> fst (recordFailure rk p t c)
     | ProxySucceeds p \<Rightarrow> fst (recordSuccess p c) | ProxyAsked p t \<Rightarrow> fst (isBlocked p t c))"

definition circuit_inv :: "openAIProxyStreamCircuit \<Rightarrow> bool" where
  "circuit_inv c \<longleftrightarrow> map_wf (pc_entries c) \<and> 0 < cs_maxEntries (pc_settings c)"

definition circuit_size :: "openAIProxyStreamCircuit \<Rightarrow> int" where
  "circuit_size c = int (length (pc_entries c))"

lemma ensureCapacity_settings [simp]: "pc_settings (ensureCapacityLocked rk now c) = pc_settings c"
  by (simp add: ensureCapacityLocked_def Let_def)

lemma ensureCapacity_room:
  assumes "circuit_inv c" and "circuit_size c \<le> cs_maxEntries (pc_settings c)"
  shows "map_wf (pc_entries (ensureCapacityLocked rk now c)) \<and>
     circuit_size (ensureCapacityLocked rk now c) < cs_maxEntries (pc_settings c)"
proof -
  define m where "m = filter (\<lambda>(_, e). \<not> entryFinished (pc_settings c) now e) (pc_entries c)"
  have "length m \<le> length (pc_entries c)" unfolding m_def by (rule length_filter_le)
  moreover have "m \<noteq> [] \<Longrightarrow> length (evict_oldest ce_lastTouched rk m) < length m"
    by (rule evict_oldest_less)
  moreover have "evict_oldest ce_lastTouched rk [] = []"
    by (simp add: evict_oldest_def split: option.split)
  moreover have "map_wf m" using assms(1) by (simp add: m_def circuit_inv_def)
  ultimately show ?thesis
    using assms
    by (cases "m = []") (auto simp: ensureCapacityLocked_def circuit_inv_def circuit_size_def Let_def
        m_def [symmetric] split: if_splits)
qed

lemma recordFailure_settings [simp]: "pc_settings (fst (recordFailure rk p t c)) = pc_settings c"
  by (simp add: recordFailure_def Let_def split: option.split)

text \<open>What a failure makes of the entry of its proxy.\<close>

definition noteFailure ::
  "openAIProxyStreamCircuitSettings \<Rightarrow> gotime \<Rightarrow> openAIProxyStreamCircuitEntry option \<Rightarrow>
   openAIProxyStreamCircuitEntry" where
  "noteFailure settings t old =
     (case old of
        Some e \<Rightarrow> if t < ce_blockedUntil e then e\<lparr>ce_lastTouched := t\<rparr>
          else (let e1 = restartWindow settings t e in
                if collapses settings t e1 then e1\<lparr>ce_lastTouched := t\<rparr> else countFailure settings t e1)
      | None \<Rightarrow> (let e1 = restartWindow settings t newEntry in
                if collapses settings t e1 then e1\<lparr>ce_lastTouched := t\<rparr> else countFailure settings t e1))"

lemma recordFailure_shape:
  assumes "\<not> cs_disabled (pc_settings c)" and "0 < p"
  shows "fst (recordFailure rk p t c) =
     (let c1 = (if map_get (pc_entries c) p = None then ensureCapacityLocked rk t c else c)
      in c1\<lparr>pc_entries := map_put p (noteFailure (pc_settings c) t (map_get (pc_entries c) p)) (pc_entries c1)\<rparr>)"
  using assms by (simp add: recordFailure_def noteFailure_def Let_def split: option.split)

lemma recordFailure_off:
  "cs_disabled (pc_settings c) \<or> p \<le> 0 \<Longrightarrow> fst (recordFailure rk p t c) = c"
  by (simp add: recordFailure_def)

lemma recordFailure_bound:
  assumes "circuit_inv c" and "circuit_size c \<le> cs_maxEntries (pc_settings c)"
  shows "circuit_inv (fst (recordFailure rk p t c)) \<and>
     circuit_size (fst (recordFailure rk p t c)) \<le> cs_maxEntries (pc_settings c)"
proof (cases "cs_disabled (pc_settings c) \<or> p \<le> 0")
  case False
  define c1 where "c1 = (if map_get (pc_entries c) p = None then ensureCapacityLocked rk t c else c)"
  have wf: "map_wf (pc_entries c1)" and max: "pc_settings c1 = pc_settings c"
    using ensureCapacity_room [OF assms] assms(1) by (simp_all add: c1_def circuit_inv_def)
  have "int (length (map_put p e (pc_entries c1))) \<le> cs_maxEntries (pc_settings c)" for e
    using ensureCapacity_room [OF assms, of rk t] assms length_put [OF wf, of p e]
    by (auto simp: c1_def circuit_size_def split: if_splits)
  with False wf max assms(1) show ?thesis
    by (simp add: recordFailure_shape c1_def [symmetric] Let_def circuit_inv_def circuit_size_def)
qed (use assms in \<open>simp add: recordFailure_off\<close>)

lemma proxy_step_bound:
  assumes "circuit_inv c" and "circuit_size c \<le> cs_maxEntries (pc_settings c)"
  shows "circuit_size (proxy_step rk c x) \<le> cs_maxEntries (pc_settings c)"
proof -
  have "length (map_del p (pc_entries c)) \<le> length (pc_entries c)" for p by simp
  then show ?thesis
    using recordFailure_bound [OF assms] assms(2)
    by (auto simp: proxy_step_def recordSuccess_def isBlocked_def circuit_size_def
        split: proxy_op.split option.split intro: order_trans [of _ "int (length (pc_entries c))"])
qed

lemma proxy_step_keeps:
  assumes "circuit_inv c" and "circuit_size c \<le> cs_maxEntries (pc_settings c)"
  shows "circuit_inv (proxy_step rk c x)"
  using recordFailure_bound [OF assms] assms(1)
  by (auto simp: proxy_step_def recordSuccess_def isBlocked_def circuit_inv_def
      split: proxy_op.split option.split)

interpretation proxies: bounded_table "proxy_step rk"
    "\<lambda>c. circuit_inv c \<and> circuit_size c \<le> cs_maxEntries (pc_settings c)" circuit_size
    "\<lambda>c. cs_maxEntries (pc_settings c)"
  for rk
proof
  fix c x
  assume c: "circuit_inv c \<and> circuit_size c \<le> cs_maxEntries (pc_settings c)"
  have "pc_settings (proxy_step rk c x) = pc_settings c"
    by (auto simp: proxy_step_def recordSuccess_def isBlocked_def split: proxy_op.split option.split)
  with c show "circuit_inv (proxy_step rk c x) \<and>
      circuit_size (proxy_step rk c x) \<le> cs_maxEntries (pc_settings (proxy_step rk c x))"
    "cs_maxEntries (pc_settings (proxy_step rk c x)) = cs_maxEntries (pc_settings c)"
    "circuit_size (proxy_step rk c x) \<le> cs_maxEntries (pc_settings c)"
    using proxy_step_keeps proxy_step_bound by simp_all
qed

text \<open>
  however failures, successes and queries of any number of proxies follow each other,
  a circuit never holds more entries than its maximum.
\<close>

theorem proxy_circuit_bounded:
  "circuit_size (foldl (proxy_step rk) (newOpenAIProxyStreamCircuit settings) ops) \<le>
     cs_maxEntries (pc_settings (newOpenAIProxyStreamCircuit settings))"
proof -
  let ?c = "newOpenAIProxyStreamCircuit settings"
  have "circuit_inv ?c" "circuit_size ?c \<le> cs_maxEntries (pc_settings ?c)"
    by (simp_all add: newOpenAIProxyStreamCircuit_def circuit_inv_def circuit_size_def
        defaultOpenAIProxyStreamCircuitMaxEntries_def)
  then show ?thesis using proxies.run_bound [of ?c] by simp
qed

subsection \<open>Tripping\<close>

definition settings_ok :: "openAIProxyStreamCircuitSettings \<Rightarrow> bool" where
  "settings_ok s \<longleftrightarrow> \<not> cs_disabled s \<and> 0 < cs_failureThreshold s \<and> 0 < cs_failureWindow s \<and>
     cs_failureWindow s < maxDuration \<and> 0 < cs_quarantineTTL s \<and>
     0 \<le> cs_collapseInterval s \<and> cs_collapseInterval s \<le> maxDuration"

fun spaced :: "goduration \<Rightarrow> gotime \<Rightarrow> gotime list \<Rightarrow> bool" where
  "spaced d t [] = True"
| "spaced d t (u # us) = (t + d \<le> u \<and> spaced d u us)"

lemma spaced_le: "0 \<le> d \<Longrightarrow> spaced d t us \<Longrightarrow> u \<in> set us \<Longrightarrow> t + d \<le> u"
  by (induction us arbitrary: t) fastforce+

definition proxy_failures ::
  "(int \<Rightarrow> nat) \<Rightarrow> int \<Rightarrow> gotime list \<Rightarrow> openAIProxyStreamCircuit \<Rightarrow> openAIProxyStreamCircuit" where
  "proxy_failures rk p ts c = foldl (\<lambda>c t. fst (recordFailure rk p t c)) c ts"

lemma proxy_failures_entry:
  assumes "\<not> cs_disabled (pc_settings c)" and "0 < p"
  shows "pc_settings (proxy_failures rk p ts c) = pc_settings c \<and>
     map_get (pc_entries (proxy_failures rk p ts c)) p =
       foldl (\<lambda>e t. Some (noteFailure (pc_settings c) t e)) (map_get (pc_entries c) p) ts"
  using assms
proof (induction ts arbitrary: c)
  case (Cons t ts)
  have "map_get (pc_entries (fst (recordFailure rk p t c))) p =
      Some (noteFailure (pc_settings c) t (map_get (pc_entries c) p))"
    using Cons.prems by (simp add: recordFailure_shape Let_def)
  with Cons.IH [of "fst (recordFailure rk p t c)"] Cons.prems show ?case
    by (simp add: proxy_failures_def)
qed (simp add: proxy_failures_def)

text \<open>An entry that counted k failures in the window that began at w, the last at t.\<close>

definition counting :: "int \<Rightarrow> gotime \<Rightarrow> gotime \<Rightarrow> openAIProxyStreamCircuitEntry \<Rightarrow> bool" where
  "counting k w t e \<longleftrightarrow> ce_failureCount e = k \<and> ce_windowStart e = w \<and> ce_lastFailureAt e = t \<and>
     ce_blockedUntil e = 0"

lemma note_first:
  assumes "settings_ok s" and "0 < t"
  shows "noteFailure s t None = countFailure s t (newEntry\<lparr>ce_windowStart := t\<rparr>)"
  using assms
  by (simp add: noteFailure_def restartWindow_def collapses_def newEntry_def go_simps Let_def)

lemma note_next:
  assumes "settings_ok s" and "counting k w t e" and "0 < w" and "w \<le> t" and "0 < u"
    and "t + cs_collapseInterval s \<le> u" and "u - w \<le> cs_failureWindow s"
  shows "noteFailure s u (Some e) = countFailure s u e"
proof -
  have "restartWindow s u e = e"
    using assms time_sub_gt [of "cs_failureWindow s" u w]
    by (auto simp: restartWindow_def counting_def settings_ok_def go_simps minDuration_def)
  moreover have "\<not> collapses s u e"
    using assms time_sub_less [of "cs_collapseInterval s" u t]
    by (auto simp: collapses_def counting_def settings_ok_def go_simps minDuration_def)
  ultimately show ?thesis using assms by (simp add: noteFailure_def counting_def Let_def)
qed

lemma count_below:
  "counting k w t e \<Longrightarrow> k + 1 < cs_failureThreshold s \<Longrightarrow> counting (k + 1) w u (countFailure s u e)"
  by (simp add: counting_def countFailure_def Let_def)

lemma counted_run:
  assumes "settings_ok s" and "counting k w t e" and "0 < w" and "w \<le> t"
    and "spaced (cs_collapseInterval s) t us" and "us \<noteq> []"
    and "\<And>u. u \<in> set us \<Longrightarrow> u - w \<le> cs_failureWindow s"
    and "k + int (length us) = cs_failureThreshold s"
  shows "map_option ce_blockedUntil (foldl (\<lambda>e t. Some (noteFailure s t e)) (Some e) us) =
     Some (last us + cs_quarantineTTL s)"
  using assms
proof (induction us arbitrary: k t e)
  case (Cons u us)
  have "t \<le> u" "0 < u" using Cons.prems(1,3,4,5) by (auto simp: settings_ok_def)
  then have step: "noteFailure s u (Some e) = countFailure s u e"
    using note_next [OF Cons.prems(1,2,3,4)] Cons.prems(5,7) by simp
  show ?case
  proof (cases "us = []")
    case True
    with Cons.prems(2,8) step show ?thesis by (simp add: countFailure_def counting_def Let_def time_add_def)
  next
    case False
    with Cons.prems(8) have "k + 1 < cs_failureThreshold s" by (cases us) auto
    with count_below [OF Cons.prems(2)] have "counting (k + 1) w u (countFailure s u e)" by blast
    from Cons.IH [OF Cons.prems(1) this Cons.prems(3) _ _ False] Cons.prems \<open>t \<le> u\<close> step False show ?thesis
      by simp
  qed
qed simp

lemma isBlocked_entry:
  assumes "\<not> cs_disabled (pc_settings c)" and "0 < p" and "map_get (pc_entries c) p = Some e"
  shows "snd (isBlocked p now c) \<longleftrightarrow> ce_blockedUntil e \<noteq> 0 \<and> now < ce_blockedUntil e"
  using assms by (simp add: isBlocked_def go_simps)


definition demo_circuit :: openAIProxyStreamCircuit where
  "demo_circuit = newOpenAIProxyStreamCircuit (resolveOpenAIProxyStreamCircuitSettings None)"

lemma demo_circuit_ok: "settings_ok (pc_settings demo_circuit)" "pc_entries demo_circuit = []"
  by (simp_all add: demo_circuit_def newOpenAIProxyStreamCircuit_def settings_ok_def go_simps
      resolveOpenAIProxyStreamCircuitSettings_def defaultOpenAIProxyStreamFailureThreshold_def
      defaultOpenAIProxyStreamFailureWindow_def defaultOpenAIProxyStreamQuarantineTTL_def
      defaultOpenAIProxyStreamFailureCollapse_def defaultOpenAIProxyStreamCircuitMaxEntries_def
      maxDuration_def Let_def)

lemma demo_circuit_values:
  "cs_failureThreshold (pc_settings demo_circuit) = 2"
  "cs_collapseInterval (pc_settings demo_circuit) = 3 * second"
  "cs_failureWindow (pc_settings demo_circuit) = minute"
  "cs_quarantineTTL (pc_settings demo_circuit) = 10 * minute"
  by (simp_all add: demo_circuit_def newOpenAIProxyStreamCircuit_def go_simps
      resolveOpenAIProxyStreamCircuitSettings_def defaultOpenAIProxyStreamFailureThreshold_def
      defaultOpenAIProxyStreamFailureWindow_def defaultOpenAIProxyStreamQuarantineTTL_def
      defaultOpenAIProxyStreamFailureCollapse_def defaultOpenAIProxyStreamCircuitMaxEntries_def
      Let_def)


lemma burst_run:
  assumes "settings_ok s" and "counting k w t e" and "0 < t" and "w \<le> t" and "0 < w"
    and "\<And>u. u \<in> set us \<Longrightarrow> t \<le> u \<and> u < t + cs_collapseInterval s \<and> u - w \<le> cs_failureWindow s"
  shows "\<exists>e'. foldl (\<lambda>e t. Some (noteFailure s t e)) (Some e) us = Some e' \<and> counting k w t e'"
  using assms(2,6)
proof (induction us arbitrary: e)
  case (Cons u us)
  have u: "t \<le> u" "u < t + cs_collapseInterval s" "u - w \<le> cs_failureWindow s" using Cons.prems(2) by auto
  have "restartWindow s u e = e"
    using assms(1,4,5) Cons.prems(1) u time_sub_gt [of "cs_failureWindow s" u w]
    by (auto simp: restartWindow_def counting_def settings_ok_def go_simps minDuration_def)
  moreover have "collapses s u e"
    using assms(1,3) Cons.prems(1) u time_sub_less [of "cs_collapseInterval s" u t]
    by (auto simp: collapses_def counting_def settings_ok_def go_simps minDuration_def)
  ultimately have "noteFailure s u (Some e) = e\<lparr>ce_lastTouched := u\<rparr>"
    using Cons.prems(1) assms(3) u(1) by (simp add: noteFailure_def counting_def Let_def)
  moreover have "counting k w t (e\<lparr>ce_lastTouched := u\<rparr>)" using Cons.prems(1) by (simp add: counting_def)
  ultimately show ?case using Cons.IH Cons.prems(2) by simp
qed simp

text \<open>
  One incident does not trip the circuit: any number of failures within the collapse
  interval of the first count as one, so with a threshold of two or more the proxy is not
  blocked at any time.
\<close>

theorem burst_counts_once:
  assumes "settings_ok (pc_settings c)" and "0 < p" and "map_get (pc_entries c) p = None"
    and "0 < t" and "2 \<le> cs_failureThreshold (pc_settings c)"
    and "cs_collapseInterval (pc_settings c) \<le> cs_failureWindow (pc_settings c)"
    and "\<And>u. u \<in> set us \<Longrightarrow> t \<le> u \<and> u < t + cs_collapseInterval (pc_settings c)"
  shows "\<not> snd (isBlocked p now (proxy_failures rk p (t # us) c))"
proof -
  let ?s = "pc_settings c"
  from assms(1) have on: "\<not> cs_disabled ?s" by (simp add: settings_ok_def)
  have "counting 1 t t (countFailure ?s t (newEntry\<lparr>ce_windowStart := t\<rparr>))"
    using assms(5) by (simp add: counting_def countFailure_def newEntry_def Let_def)
  from burst_run [OF assms(1) this assms(4) order_refl assms(4), of us] assms(6,7) obtain e where
    "foldl (\<lambda>e t. Some (noteFailure ?s t e)) None (t # us) = Some e" "counting 1 t t e"
    by (fastforce simp: note_first [OF assms(1,4)])
  with proxy_failures_entry [OF on assms(2), of rk "t # us"] assms(3)
  have "map_get (pc_entries (proxy_failures rk p (t # us) c)) p = Some e" "ce_blockedUntil e = 0"
    by (simp_all add: counting_def)
  with isBlocked_entry [OF _ assms(2), of "proxy_failures rk p (t # us) c" e now]
    proxy_failures_entry [OF on assms(2), of rk "t # us"] on
  show ?thesis by simp
qed

theorem burst_counts_once_witness:
  "\<not> snd (isBlocked 7 (4 * second)
     (proxy_failures (\<lambda>_. 0) 7 [second, second, 2 * second, 3 * second] demo_circuit))"
  by (rule burst_counts_once)
    (auto simp: demo_circuit_ok demo_circuit_values go_simps)

subsection \<open>The account and model breaker\<close>

datatype transient_op =
    TransientFails gotime int gostring gotime | TransientSucceeds int gostring
  | TransientAsked gotime int gostring gotime

definition transient_step ::
  "(openAIAccountModelKey \<Rightarrow> nat) \<Rightarrow> openAIAccountModelTransientState \<Rightarrow> transient_op \<Rightarrow>
   openAIAccountModelTransientState" where
  "transient_step rk s x = (case x of
       TransientFails wall a m t \<Rightarrow> fst (recordTransientFailure rk wall a m t s)
     | TransientSucceeds a m \<Rightarrow> recordTransientSuccess a m s
     | TransientAsked wall a m t \<Rightarrow> fst (isTransientBlocked wall a m t s))"

definition transient_inv :: "openAIAccountModelTransientState \<Rightarrow> bool" where
  "transient_inv s \<longleftrightarrow> map_wf (ts_entries s) \<and> 0 < ts_maxEntries s \<and> transientSize s \<le> ts_maxEntries s"

lemma evictOldest_room:
  assumes "transient_inv s"
  shows "map_wf (ts_entries (evictOldestLocked rk s)) \<and> ts_maxEntries (evictOldestLocked rk s) = ts_maxEntries s \<and>
     int (length (ts_entries (evictOldestLocked rk s))) < ts_maxEntries s"
proof (cases "int (length (ts_entries s)) < ts_maxEntries s")
  case True
  then show ?thesis using assms by (simp add: evictOldestLocked_def transient_inv_def)
next
  case False
  then have "ts_entries s \<noteq> []" using assms by (auto simp: transient_inv_def)
  from evict_oldest_less [OF this, of te_lastTouched rk] False assms show ?thesis
    by (simp add: evictOldestLocked_def transient_inv_def transientSize_def)
qed

lemma transient_insert:
  assumes "transient_inv s"
  shows "transient_inv (let s2 = (if map_get (ts_entries s) key = None then evictOldestLocked rk s else s)
      in s2\<lparr>ts_entries := map_put key e (ts_entries s2)\<rparr>) \<and>
    ts_maxEntries (let s2 = (if map_get (ts_entries s) key = None then evictOldestLocked rk s else s)
      in s2\<lparr>ts_entries := map_put key e (ts_entries s2)\<rparr>) = ts_maxEntries s"
proof (cases "map_get (ts_entries s) key")
  case None
  from evictOldest_room [OF assms, of rk] have "map_wf (ts_entries (evictOldestLocked rk s))" by blast
  from length_put [OF this, of key e] evictOldest_room [OF assms, of rk] None assms show ?thesis
    by (simp add: transient_inv_def transientSize_def Let_def split: if_splits)
next
  case (Some e')
  then show ?thesis
    using assms length_put [of "ts_entries s" key e] by (simp add: transient_inv_def transientSize_def Let_def)
qed

lemma transient_step_keeps:
  assumes "transient_inv s"
  shows "transient_inv (transient_step rk s x) \<and> ts_maxEntries (transient_step rk s x) = ts_maxEntries s"
proof -
  have max: "s\<lparr>ts_maxEntries := (if ts_maxEntries s \<le> 0 then openAIModelTransientDefaultMax else ts_maxEntries s)\<rparr> = s"
    using assms by (simp add: transient_inv_def)
  have drop: "transient_inv (s\<lparr>ts_entries := map_del key (ts_entries s)\<rparr>)" for key
    using assms length_del_le [of key "ts_entries s"]
    by (simp add: transient_inv_def transientSize_def del: length_del_le)
  have fails: "transient_inv (fst (recordTransientFailure rk wall a m t s)) \<and>
      ts_maxEntries (fst (recordTransientFailure rk wall a m t s)) = ts_maxEntries s" for wall a m t
  proof (cases "transientKey a m")
    case None
    then show ?thesis using assms by (simp add: recordTransientFailure_def)
  next
    case (Some key)
    have "\<exists>e. fst (recordTransientFailure rk wall a m t s) =
        (let s2 = (if map_get (ts_entries s) key = None then evictOldestLocked rk s else s)
         in s2\<lparr>ts_entries := map_put key e (ts_entries s2)\<rparr>)"
      unfolding recordTransientFailure_def Some option.case Let_def max fst_conv by (rule exI, rule refl)
    then obtain e where "fst (recordTransientFailure rk wall a m t s) =
        (let s2 = (if map_get (ts_entries s) key = None then evictOldestLocked rk s else s)
         in s2\<lparr>ts_entries := map_put key e (ts_entries s2)\<rparr>)" by blast
    then show ?thesis using transient_insert [OF assms, of key rk e] by metis
  qed
  have asked: "transient_inv (fst (isTransientBlocked wall a m t s)) \<and>
      ts_maxEntries (fst (isTransientBlocked wall a m t s)) = ts_maxEntries s" for wall a m t
    using assms drop length_put [of "ts_entries s"]
    by (auto simp: isTransientBlocked_def Let_def transient_inv_def transientSize_def split: option.split)
  show ?thesis
    using fails asked drop assms
    by (auto simp: transient_step_def recordTransientSuccess_def split: transient_op.split option.split)
qed

interpretation transients: bounded_table "transient_step rk" transient_inv transientSize ts_maxEntries
  for rk
proof
  fix s x
  assume s: "transient_inv s"
  from transient_step_keeps [OF s, of rk x] show "transient_inv (transient_step rk s x)"
    "ts_maxEntries (transient_step rk s x) = ts_maxEntries s" by simp_all
  from transient_step_keeps [OF s, of rk x] show "transientSize (transient_step rk s x) \<le> ts_maxEntries s"
    by (simp add: transient_inv_def)
qed

text \<open>
  The account and model breaker never holds more entries than its maximum, whatever
  pairs fail, succeed and are asked for.
\<close>

theorem transient_state_bounded:
  "transientSize (foldl (transient_step rk) (newOpenAIAccountModelTransientState maxEntries) ops) \<le>
     ts_maxEntries (newOpenAIAccountModelTransientState maxEntries)"
proof -
  have "transient_inv (newOpenAIAccountModelTransientState maxEntries)"
    by (simp add: newOpenAIAccountModelTransientState_def transient_inv_def transientSize_def
        openAIModelTransientDefaultMax_def)
  then show ?thesis
    using transients.run_bound [of "newOpenAIAccountModelTransientState maxEntries" rk ops]
    by (simp add: transient_inv_def)
qed

definition transient_failures ::
  "(openAIAccountModelKey \<Rightarrow> nat) \<Rightarrow> int \<Rightarrow> gostring \<Rightarrow> gotime list \<Rightarrow> openAIAccountModelTransientState \<Rightarrow>
   openAIAccountModelTransientState" where
  "transient_failures rk a m ts s = foldl (\<lambda>s t. fst (recordTransientFailure rk 0 a m t s)) s ts"

text \<open>The entry after a streak of n failures, the last at t.\<close>

definition streakEntry :: "int \<Rightarrow> gotime \<Rightarrow> openAIAccountModelTransientEntry" where
  "streakEntry n t = \<lparr>te_failureStreak = n, te_lastFailure = t,
     te_blockUntil = (if 0 < cooldownOf n then t + cooldownOf n else 0), te_lastTouched = t\<rparr>"

fun streak_times :: "gotime \<Rightarrow> gotime list \<Rightarrow> bool" where
  "streak_times t [] = True"
| "streak_times t (u # us) = (t \<le> u \<and> u - t \<le> openAIModelTransientStreakTTL \<and> streak_times u us)"

lemma transient_next:
  assumes "transientKey a m = Some key" and "map_get (ts_entries s) key = Some (streakEntry n t)"
    and "0 < t" and "t \<le> u" and "u - t \<le> openAIModelTransientStreakTTL"
  shows "map_get (ts_entries (fst (recordTransientFailure rk wall a m u s))) key = Some (streakEntry (n + 1) u)"
proof -
  have "\<not> openAIModelTransientStreakTTL < time_sub u t"
    using assms(5) time_sub_gt [of openAIModelTransientStreakTTL u t]
    by (simp add: openAIModelTransientStreakTTL_def go_simps maxDuration_def minDuration_def)
  with assms show ?thesis
    by (simp add: recordTransientFailure_def streakEntry_def go_simps Let_def)
qed

lemma transient_first:
  assumes "transientKey a m = Some key" and "map_get (ts_entries s) key = None" and "0 < u"
  shows "map_get (ts_entries (fst (recordTransientFailure rk wall a m u s))) key = Some (streakEntry 1 u)"
  using assms
  by (simp add: recordTransientFailure_def streakEntry_def emptyTransientEntry_def cooldownOf_def go_simps Let_def)

lemma transient_streak_run:
  assumes "transientKey a m = Some key" and "map_get (ts_entries s) key = Some (streakEntry n t)"
    and "0 < t" and "streak_times t us"
  shows "map_get (ts_entries (transient_failures rk a m us s)) key =
     Some (streakEntry (n + int (length us)) (last (t # us)))"
  using assms(2-4)
proof (induction us arbitrary: s n t)
  case (Cons u us)
  from transient_next [OF assms(1) Cons.prems(1,2)] Cons.prems(3)
  have "map_get (ts_entries (fst (recordTransientFailure rk 0 a m u s))) key = Some (streakEntry (n + 1) u)"
    by simp
  from Cons.IH [OF this] Cons.prems(2,3) show ?case by (simp add: transient_failures_def algebra_simps)
qed (simp add: transient_failures_def)

text \<open>
  N failures in a row without a success, no two further apart than the streak's
  lifetime, block the pair for nothing, 10 or 45 seconds after the last, for n = 1, n = 2
  and n of at least 3; how long the streak takes does not matter.
\<close>

theorem transient_streak_cooldown:
  assumes "transientKey a m = Some key" and "map_get (ts_entries s) key = None"
    and "0 < t" and "streak_times t us" and "last (t # us) \<le> now"
  shows "snd (isTransientBlocked wall a m now (transient_failures rk a m (t # us) s)) \<longleftrightarrow>
     now < last (t # us) + cooldownOf (1 + int (length us))"
proof -
  let ?s = "transient_failures rk a m (t # us) s" and ?l = "last (t # us)"
  let ?n = "1 + int (length us)"
  have e: "map_get (ts_entries ?s) key = Some (streakEntry ?n ?l)"
    using transient_streak_run [OF assms(1) transient_first [OF assms(1-3)] assms(3,4), of rk rk 0]
    by (simp add: transient_failures_def)
  have mono: "streak_times x xs \<Longrightarrow> x \<le> last (x # xs)" for x xs
    by (induction xs arbitrary: x) fastforce+
  from mono [OF assms(4)] assms(3) have l: "0 < ?l" by simp
  have cool: "0 \<le> cooldownOf ?n" "cooldownOf ?n < openAIModelTransientStreakTTL"
    by (simp_all add: cooldownOf_def openAIModelTransientShortCooldown_def
        openAIModelTransientLongCooldown_def openAIModelTransientStreakTTL_def go_simps)
  have stale: "openAIModelTransientStreakTTL < time_sub now ?l \<longleftrightarrow> openAIModelTransientStreakTTL < now - ?l"
    by (rule time_sub_gt) (simp_all add: openAIModelTransientStreakTTL_def go_simps maxDuration_def minDuration_def)
  show ?thesis
    using e l cool stale assms(1,5)
    by (auto simp: isTransientBlocked_def streakEntry_def go_simps Let_def)
qed

theorem transient_streak_cooldown_witness:
  "snd (isTransientBlocked 0 3 '' GPT-5 '' (40 * second)
     (transient_failures (\<lambda>_. 0) 3 '' GPT-5 '' [second, 2 * second, 3 * second]
        (newOpenAIAccountModelTransientState 10)))"
proof -
  have "transientKey 3 '' GPT-5 '' = Some (3, ''gpt-5'')" by code_simp
  moreover have "map_get (ts_entries (newOpenAIAccountModelTransientState 10)) (3, ''gpt-5'') = None"
    by (simp add: newOpenAIAccountModelTransientState_def)
  ultimately have "snd (isTransientBlocked 0 3 '' GPT-5 '' (40 * second)
      (transient_failures (\<lambda>_. 0) 3 '' GPT-5 '' [second, 2 * second, 3 * second]
        (newOpenAIAccountModelTransientState 10))) \<longleftrightarrow>
      40 * second < last [second, 2 * second, 3 * second] + cooldownOf (1 + int (length [2 * second, 3 * second]))"
    by (rule transient_streak_cooldown)
      (simp_all add: openAIModelTransientStreakTTL_def go_simps)
  then show ?thesis
    by (simp add: cooldownOf_def openAIModelTransientLongCooldown_def go_simps)
qed

end
