(* ===== verification/AuthAbuse.thy ===== *)
theory AuthAbuse
  imports BreakerProofs "HOL-Library.Word"
begin

text \<open>
  The limiter of failed authentications, \<open>service/invalid_auth_abuse_limiter.go\<close>: 16
  shards by FNV-1a hash, a capacity over all shards with an atomic counter, one overflow
  bucket for clients that do not fit, and cleanup of one shard at a time at capacity.
  The methods are modelled one after another: each critical section is atomic, and the
  counters are read and written together with it. \<open>now\<close> is an argument.
\<close>

subsection \<open>The state\<close>

definition invalidAuthAbuseShardCount :: nat where "invalidAuthAbuseShardCount = 16"

record invalidAuthAbuseEntry =
  iae_failures :: int
  iae_windowStart :: gotime
  iae_blockedUntil :: gotime

type_synonym invalidAuthAbuseShard = "(gostring, invalidAuthAbuseEntry) gomap"

record invalidAuthAbuseLimiter =
  al_threshold :: int
  al_window :: goduration
  al_block :: goduration
  al_capacity :: int
  al_shards :: "invalidAuthAbuseShard list"
  al_overflow :: invalidAuthAbuseEntry
  al_tracked :: int
  al_recorded :: int
  al_blocked :: int
  al_rejected :: int
  al_expired :: int
  al_overflowed :: int
  al_globalBlocked :: int
  al_cleanupNext :: int
  al_cleanupCursor :: "32 word"

record invalidAbuseConfig =
  iac_Enabled :: bool
  iac_Threshold :: int
  iac_WindowSeconds :: int
  iac_BlockSeconds :: int
  iac_Capacity :: int

definition newInvalidAuthAbuseLimiter :: "invalidAbuseConfig option \<Rightarrow> invalidAuthAbuseLimiter option" where
  "newInvalidAuthAbuseLimiter cfg =
     (case cfg of
        None \<Rightarrow> None
      | Some c \<Rightarrow>
          if \<not> iac_Enabled c then None
          else if iac_Threshold c \<le> 0 \<or> iac_WindowSeconds c \<le> 0 \<or> iac_BlockSeconds c \<le> 0 \<or>
                  iac_Capacity c \<le> 0 then None
          else Some \<lparr>al_threshold = iac_Threshold c, al_window = wrap64 (iac_WindowSeconds c * second),
                     al_block = wrap64 (iac_BlockSeconds c * second), al_capacity = iac_Capacity c,
                     al_shards = replicate invalidAuthAbuseShardCount [],
                     al_overflow = \<lparr>iae_failures = 0, iae_windowStart = 0, iae_blockedUntil = 0\<rparr>,
                     al_tracked = 0, al_recorded = 0, al_blocked = 0, al_rejected = 0, al_expired = 0,
                     al_overflowed = 0, al_globalBlocked = 0, al_cleanupNext = 0,
                     al_cleanupCursor = 0\<rparr>)"

subsection \<open>Shards\<close>

definition fnv_step :: "char \<Rightarrow> 32 word \<Rightarrow> 32 word" where
  "fnv_step c h = xor h (word_of_nat (of_char c)) * 16777619"

definition fnv1a :: "gostring \<Rightarrow> 32 word" where
  "fnv1a s = fold fnv_step s 2166136261"

definition shardIndex :: "gostring \<Rightarrow> nat" where
  "shardIndex clientKey = unat (fnv1a clientKey) mod invalidAuthAbuseShardCount"

definition entryExpired :: "goduration \<Rightarrow> gotime \<Rightarrow> invalidAuthAbuseEntry \<Rightarrow> bool" where
  "entryExpired window now e \<longleftrightarrow>
     \<not> now < iae_blockedUntil e \<and> \<not> now < iae_windowStart e \<and> \<not> now < time_add (iae_windowStart e) window"

text \<open>\<open>UnixNano\<close> of a time, from Go's zero time to the Unix epoch.\<close>

definition unixNano :: "gotime \<Rightarrow> int" where
  "unixNano t = wrap64 (t - 62135596800 * second)"

definition maybeCleanupAtCapacity :: "gotime \<Rightarrow> invalidAuthAbuseLimiter \<Rightarrow> invalidAuthAbuseLimiter" where
  "maybeCleanupAtCapacity now l =
     (if al_tracked l < al_capacity l then l
      else if unixNano now < al_cleanupNext l then l
      else
        let index = unat (al_cleanupCursor l) mod invalidAuthAbuseShardCount;
            shard = al_shards l ! index;
            kept = filter (\<lambda>(_, e). \<not> entryExpired (al_window l) now e) shard;
            removed = int (length shard) - int (length kept)
        in l\<lparr>al_cleanupNext := unixNano (time_add now (100 * millisecond)),
             al_cleanupCursor := al_cleanupCursor l + 1,
             al_shards := (al_shards l)[index := kept],
             al_tracked := al_tracked l - removed,
             al_expired := al_expired l + removed\<rparr>)"

definition shardOf :: "invalidAuthAbuseLimiter \<Rightarrow> gostring \<Rightarrow> invalidAuthAbuseShard" where
  "shardOf l k = al_shards l ! shardIndex k"

definition putShard :: "gostring \<Rightarrow> invalidAuthAbuseShard \<Rightarrow> invalidAuthAbuseLimiter \<Rightarrow> invalidAuthAbuseLimiter" where
  "putShard k m l = l\<lparr>al_shards := (al_shards l)[shardIndex k := m]\<rparr>"

text \<open>What both methods do first in the client's shard: drop an expired entry.\<close>

definition dropExpired ::
  "gotime \<Rightarrow> gostring \<Rightarrow> invalidAuthAbuseLimiter \<Rightarrow> invalidAuthAbuseLimiter \<times> invalidAuthAbuseEntry option" where
  "dropExpired now k l =
     (case map_get (shardOf l k) k of
        None \<Rightarrow> (l, None)
      | Some e \<Rightarrow>
          if entryExpired (al_window l) now e
          then ((putShard k (map_del k (shardOf l k)) l)\<lparr>al_tracked := al_tracked l - 1,
                  al_expired := al_expired l + 1\<rparr>, None)
          else (l, Some e))"

subsection \<open>Checking and recording\<close>

definition checkOverflow :: "gotime \<Rightarrow> invalidAuthAbuseLimiter \<Rightarrow> goduration option" where
  "checkOverflow now l =
     (if now < iae_blockedUntil (al_overflow l) then Some (time_sub (iae_blockedUntil (al_overflow l)) now)
      else None)"

definition check :: "gostring \<Rightarrow> gotime \<Rightarrow> invalidAuthAbuseLimiter \<Rightarrow>
   invalidAuthAbuseLimiter \<times> goduration \<times> bool" where
  "check clientKey now l =
     (if clientKey = [] then (l, 0, False)
      else
        let (l1, entry) = dropExpired now clientKey (maybeCleanupAtCapacity now l) in
        if (case entry of Some e \<Rightarrow> now < iae_blockedUntil e | None \<Rightarrow> False)
        then (l1\<lparr>al_rejected := al_rejected l1 + 1\<rparr>,
              (case entry of Some e \<Rightarrow> time_sub (iae_blockedUntil e) now | None \<Rightarrow> 0), True)
        else if entry = None \<and> al_capacity l1 \<le> al_tracked l1 then
          (case checkOverflow now l1 of
             Some retry \<Rightarrow> (l1\<lparr>al_rejected := al_rejected l1 + 1,
                              al_globalBlocked := al_globalBlocked l1 + 1\<rparr>, retry, True)
           | None \<Rightarrow> (l1, 0, False))
        else (l1, 0, False))"

text \<open>One failure on an entry: the new entry, and whether it starts a block.\<close>

definition failEntry ::
  "invalidAuthAbuseLimiter \<Rightarrow> gotime \<Rightarrow> invalidAuthAbuseEntry \<Rightarrow> invalidAuthAbuseEntry \<times> bool" where
  "failEntry l now e =
     (let e1 = e\<lparr>iae_failures := iae_failures e + 1\<rparr> in
      if al_threshold l \<le> iae_failures e1
      then (e1\<lparr>iae_failures := 0, iae_blockedUntil := time_add now (al_block l),
               iae_windowStart := time_add now (al_block l)\<rparr>, True)
      else (e1, False))"

definition addBlock :: "bool \<Rightarrow> invalidAuthAbuseLimiter \<Rightarrow> invalidAuthAbuseLimiter" where
  "addBlock b l = (if b then l\<lparr>al_blocked := al_blocked l + 1\<rparr> else l)"

definition recordOverflow :: "gotime \<Rightarrow> invalidAuthAbuseLimiter \<Rightarrow> invalidAuthAbuseLimiter" where
  "recordOverflow now l =
     (let l1 = l\<lparr>al_overflowed := al_overflowed l + 1\<rparr>; o1 = al_overflow l1 in
      if now < iae_blockedUntil o1 then l1
      else
        let o2 = (if time_is_zero (iae_windowStart o1) \<or>
                     \<not> now < time_add (iae_windowStart o1) (al_window l1)
                  then o1\<lparr>iae_windowStart := now, iae_failures := 0\<rparr> else o1);
            (o3, tripped) = failEntry l1 now o2
        in addBlock tripped (l1\<lparr>al_overflow := o3\<rparr>))"

definition record_failure :: "gostring \<Rightarrow> gotime \<Rightarrow> invalidAuthAbuseLimiter \<Rightarrow> invalidAuthAbuseLimiter" where
  "record_failure clientKey now l =
     (if clientKey = [] then l
      else
        let l0 = maybeCleanupAtCapacity now (l\<lparr>al_recorded := al_recorded l + 1\<rparr>);
            (l1, found) = dropExpired now clientKey l0 in
        if found = None \<and> al_capacity l1 \<le> al_tracked l1 then recordOverflow now l1
        else
          let l2 = (if found = None then l1\<lparr>al_tracked := al_tracked l1 + 1\<rparr> else l1);
              entry = (case found of Some e \<Rightarrow> e
                       | None \<Rightarrow> \<lparr>iae_failures = 0, iae_windowStart = now, iae_blockedUntil = 0\<rparr>);
              l3 = putShard clientKey (map_put clientKey entry (shardOf l2 clientKey)) l2 in
          if now < iae_blockedUntil entry then l3
          else
            let e1 = (if now < iae_windowStart entry \<or>
                         \<not> now < time_add (iae_windowStart entry) (al_window l3)
                      then entry\<lparr>iae_windowStart := now, iae_failures := 0\<rparr> else entry);
                (e2, tripped) = failEntry l3 now e1
            in addBlock tripped (putShard clientKey (map_put clientKey e2 (shardOf l3 clientKey)) l3))"

record InvalidAuthAbuseHealth =
  ih_Enabled :: bool
  ih_Tracked :: int
  ih_Capacity :: int
  ih_Recorded :: int
  ih_Blocks :: int
  ih_Rejected :: int
  ih_Expired :: int
  ih_Overflowed :: int
  ih_GlobalBlocked :: int

definition health :: "invalidAuthAbuseLimiter option \<Rightarrow> InvalidAuthAbuseHealth" where
  "health limiter =
     (case limiter of
        None \<Rightarrow> \<lparr>ih_Enabled = False, ih_Tracked = 0, ih_Capacity = 0, ih_Recorded = 0, ih_Blocks = 0,
                 ih_Rejected = 0, ih_Expired = 0, ih_Overflowed = 0, ih_GlobalBlocked = 0\<rparr>
      | Some l \<Rightarrow> \<lparr>ih_Enabled = True, ih_Tracked = al_tracked l, ih_Capacity = al_capacity l,
                   ih_Recorded = al_recorded l, ih_Blocks = al_blocked l, ih_Rejected = al_rejected l,
                   ih_Expired = al_expired l, ih_Overflowed = al_overflowed l,
                   ih_GlobalBlocked = al_globalBlocked l\<rparr>)"

definition CheckInvalidAuthAbuse ::
  "gostring \<Rightarrow> gotime \<Rightarrow> invalidAuthAbuseLimiter option \<Rightarrow> invalidAuthAbuseLimiter option \<times> goduration \<times> bool" where
  "CheckInvalidAuthAbuse clientKey now limiter =
     (case limiter of
        None \<Rightarrow> (None, 0, False)
      | Some l \<Rightarrow> (case check clientKey now l of (l1, r) \<Rightarrow> (Some l1, r)))"

definition RecordInvalidAuthFailure ::
  "gostring \<Rightarrow> gotime \<Rightarrow> invalidAuthAbuseLimiter option \<Rightarrow> invalidAuthAbuseLimiter option" where
  "RecordInvalidAuthFailure clientKey now limiter = map_option (record_failure clientKey now) limiter"

subsection \<open>The counter counts the entries, and stays within the capacity\<close>

definition entry_count :: "invalidAuthAbuseLimiter \<Rightarrow> int" where
  "entry_count l = sum_list (map (\<lambda>m. int (length m)) (al_shards l))"

definition limiter_inv :: "invalidAuthAbuseLimiter \<Rightarrow> bool" where
  "limiter_inv l \<longleftrightarrow> length (al_shards l) = invalidAuthAbuseShardCount \<and>
     list_all map_wf (al_shards l) \<and> al_tracked l = entry_count l \<and> al_tracked l \<le> al_capacity l"

lemma shardIndex_less [simp]: "shardIndex k < invalidAuthAbuseShardCount"
  by (simp add: shardIndex_def invalidAuthAbuseShardCount_def)

lemma shardIndex_bound: "length (al_shards l) = invalidAuthAbuseShardCount \<Longrightarrow> shardIndex k < length (al_shards l)"
  by (simp add: shardIndex_def invalidAuthAbuseShardCount_def)

lemma sum_list_update_int:
  "i < length xs \<Longrightarrow> sum_list (map f (xs[i := m])) = sum_list (map f xs) - f (xs ! i) + (f m :: int)"
proof (induction xs arbitrary: i)
  case (Cons x xs)
  then show ?case by (cases i) auto
qed simp

lemma entry_count_update:
  "i < length (al_shards l) \<Longrightarrow> entry_count (l\<lparr>al_shards := (al_shards l)[i := m]\<rparr>) =
     entry_count l - int (length (al_shards l ! i)) + int (length m)"
  unfolding entry_count_def
  using sum_list_update_int [of i "al_shards l" "\<lambda>m. int (length m)" m] by simp

lemma entry_count_other [simp]:
  "entry_count (l\<lparr>al_tracked := a\<rparr>) = entry_count l" "entry_count (l\<lparr>al_recorded := a\<rparr>) = entry_count l"
  "entry_count (l\<lparr>al_blocked := a\<rparr>) = entry_count l" "entry_count (l\<lparr>al_rejected := a\<rparr>) = entry_count l"
  "entry_count (l\<lparr>al_expired := a\<rparr>) = entry_count l" "entry_count (l\<lparr>al_overflowed := a\<rparr>) = entry_count l"
  "entry_count (l\<lparr>al_globalBlocked := a\<rparr>) = entry_count l" "entry_count (l\<lparr>al_overflow := ov\<rparr>) = entry_count l"
  by (simp_all add: entry_count_def)

lemma wf_update: "list_all map_wf ms \<Longrightarrow> map_wf m \<Longrightarrow> list_all map_wf (ms[i := m])"
  by (auto simp: list_all_iff dest!: set_update_subset_insert [THEN subsetD])

lemma cleanup_inv: "limiter_inv l \<Longrightarrow> limiter_inv (maybeCleanupAtCapacity now l)"
proof -
  assume inv: "limiter_inv l"
  let ?i = "unat (al_cleanupCursor l) mod invalidAuthAbuseShardCount"
  define kept where "kept = filter (\<lambda>(_, e). \<not> entryExpired (al_window l) now e) (al_shards l ! ?i)"
  have i: "?i < length (al_shards l)" using inv by (simp add: limiter_inv_def invalidAuthAbuseShardCount_def)
  have "map_wf kept" unfolding kept_def using inv i by (intro map_wf_filter) (simp add: limiter_inv_def list_all_length)
  moreover have "length kept \<le> length (al_shards l ! ?i)" unfolding kept_def by (rule length_filter_le)
  ultimately show ?thesis
    using inv i sum_list_update_int [of ?i "al_shards l" "\<lambda>m. int (length m)" kept]
    by (auto simp: maybeCleanupAtCapacity_def Let_def limiter_inv_def kept_def [symmetric] entry_count_def wf_update)
qed

lemma putShard_inv:
  assumes "length (al_shards l) = invalidAuthAbuseShardCount" and "list_all map_wf (al_shards l)" and "map_wf m"
  shows "length (al_shards (putShard k m l)) = invalidAuthAbuseShardCount"
    and "list_all map_wf (al_shards (putShard k m l))"
    and "entry_count (putShard k m l) = entry_count l - int (length (shardOf l k)) + int (length m)"
    and "al_tracked (putShard k m l) = al_tracked l" and "al_capacity (putShard k m l) = al_capacity l"
  using assms shardIndex_bound [OF assms(1), of k]
  by (simp_all add: putShard_def wf_update entry_count_update shardOf_def)

lemma shardOf_wf: "limiter_inv l \<Longrightarrow> map_wf (shardOf l k)"
  using shardIndex_bound [of l k] by (simp add: limiter_inv_def shardOf_def list_all_length)

lemma length_del:
  "map_wf m \<Longrightarrow> map_get m k \<noteq> None \<Longrightarrow> int (length (map_del k m)) = int (length m) - 1"
proof (induction m)
  case (Cons a m)
  then show ?case
  proof (cases "fst a = k")
    case True
    with Cons.prems(1) have "map_del k m = m" by (auto simp: map_wf_def intro: delete_id)
    with True show ?thesis by simp
  next
    case False
    with Cons show ?thesis by (auto simp: map_wf_def)
  qed
qed simp

lemma dropExpired_inv:
  assumes "limiter_inv l"
  shows "limiter_inv (fst (dropExpired now k l)) \<and>
     snd (dropExpired now k l) = map_get (shardOf (fst (dropExpired now k l)) k) k"
proof (cases "map_get (shardOf l k) k")
  case (Some e)
  have i: "shardIndex k < length (al_shards l)" using assms by (simp add: limiter_inv_def)
  from Some have pos: "0 < length (shardOf l k)" by (cases "shardOf l k") auto
  note put = putShard_inv [of l "map_del k (shardOf l k)" k]
  show ?thesis
    using Some assms i pos put shardOf_wf [OF assms, of k] length_del [OF shardOf_wf [OF assms], of k k]
    by (auto simp: dropExpired_def limiter_inv_def shardOf_def putShard_def entry_count_update wf_update
        entry_count_def sum_list_update_int)
qed (simp add: dropExpired_def assms)

lemma check_inv: "limiter_inv l \<Longrightarrow> limiter_inv (fst (check k now l))"
proof -
  assume inv: "limiter_inv l"
  have bump: "limiter_inv (m\<lparr>al_rejected := a\<rparr>)" "limiter_inv (m\<lparr>al_rejected := a, al_globalBlocked := b\<rparr>)"
    if "limiter_inv m" for m a b
    using that by (simp_all add: limiter_inv_def entry_count_def)
  have "limiter_inv (fst (dropExpired now k (maybeCleanupAtCapacity now l)))"
    using dropExpired_inv [OF cleanup_inv [OF inv]] by blast
  with inv bump show ?thesis by (simp add: check_def split_def Let_def split: option.split)
qed

lemma addBlock_inv: "limiter_inv l \<Longrightarrow> limiter_inv (addBlock b l)"
  by (simp add: addBlock_def limiter_inv_def entry_count_def)

lemma recordOverflow_inv: "limiter_inv l \<Longrightarrow> limiter_inv (recordOverflow now l)"
  by (auto simp: recordOverflow_def Let_def addBlock_def limiter_inv_def entry_count_def split_def)

lemma putShard_replace:
  assumes "limiter_inv l" and "map_get (shardOf l k) k \<noteq> None"
  shows "limiter_inv (putShard k (map_put k e (shardOf l k)) l)"
  using assms putShard_inv [of l "map_put k e (shardOf l k)" k] shardOf_wf [OF assms(1)]
  by (simp add: limiter_inv_def length_put)

lemma putShard_insert:
  assumes "limiter_inv l" and "map_get (shardOf l k) k = None" and "al_tracked l < al_capacity l"
  shows "limiter_inv (putShard k (map_put k e (shardOf l k)) (l\<lparr>al_tracked := al_tracked l + 1\<rparr>))"
  using assms putShard_inv [of "l\<lparr>al_tracked := al_tracked l + 1\<rparr>" "map_put k e (shardOf l k)" k]
    shardOf_wf [OF assms(1)]
  by (simp add: limiter_inv_def length_put shardOf_def)

lemma shardOf_put [simp]:
  "length (al_shards l) = invalidAuthAbuseShardCount \<Longrightarrow> shardOf (putShard k m l) k = m"
  by (simp add: shardOf_def putShard_def)

lemma record_inv: "limiter_inv l \<Longrightarrow> limiter_inv (record_failure k now l)"
proof (cases "k = []")
  case False
  assume inv: "limiter_inv l"
  obtain l1 found where d: "dropExpired now k (maybeCleanupAtCapacity now (l\<lparr>al_recorded := al_recorded l + 1\<rparr>)) = (l1, found)"
    by fastforce
  have "limiter_inv (l\<lparr>al_recorded := al_recorded l + 1\<rparr>)" using inv by (simp add: limiter_inv_def)
  from dropExpired_inv [OF cleanup_inv [OF this, of now], of now k] d
  have l1: "limiter_inv l1" "found = map_get (shardOf l1 k) k" by simp_all
  define l2 where "l2 = (if found = None then l1\<lparr>al_tracked := al_tracked l1 + 1\<rparr> else l1)"
  define entry where "entry = (case found of Some e \<Rightarrow> e
      | None \<Rightarrow> \<lparr>iae_failures = 0, iae_windowStart = now, iae_blockedUntil = 0\<rparr>)"
  define l3 where "l3 = putShard k (map_put k entry (shardOf l2 k)) l2"
  have l3: "limiter_inv l3 \<and> map_get (shardOf l3 k) k \<noteq> None"
    if "\<not> (found = None \<and> al_capacity l1 \<le> al_tracked l1)"
  proof -
    have "shardOf l2 k = shardOf l1 k" "length (al_shards l2) = invalidAuthAbuseShardCount"
      using l1 by (simp_all add: l2_def shardOf_def limiter_inv_def)
    then show ?thesis
      using that l1 putShard_replace [OF l1(1), of k entry] putShard_insert [OF l1(1), of k entry]
      by (cases found) (auto simp: l2_def l3_def)
  qed
  have "record_failure k now l =
      (if found = None \<and> al_capacity l1 \<le> al_tracked l1 then recordOverflow now l1
       else if now < iae_blockedUntil entry then l3
       else
         let e1 = (if now < iae_windowStart entry \<or> \<not> now < time_add (iae_windowStart entry) (al_window l3)
                   then entry\<lparr>iae_windowStart := now, iae_failures := 0\<rparr> else entry);
             (e2, tripped) = failEntry l3 now e1
         in addBlock tripped (putShard k (map_put k e2 (shardOf l3 k)) l3))"
    using False by (simp add: record_failure_def d Let_def l2_def [symmetric] entry_def [symmetric] l3_def [symmetric])
  then show ?thesis
    using l3 recordOverflow_inv [OF l1(1)] putShard_replace addBlock_inv
    by (simp add: Let_def split_def)
qed (simp add: record_failure_def)

datatype abuse_op = AbuseCheck gostring gotime | AbuseFailure gostring gotime

definition abuse_step :: "invalidAuthAbuseLimiter \<Rightarrow> abuse_op \<Rightarrow> invalidAuthAbuseLimiter" where
  "abuse_step l x = (case x of AbuseCheck k t \<Rightarrow> fst (check k t l) | AbuseFailure k t \<Rightarrow> record_failure k t l)"

lemma abuse_step_inv: "limiter_inv l \<Longrightarrow> limiter_inv (abuse_step l x)"
  by (simp add: abuse_step_def check_inv record_inv split: abuse_op.split)

lemma abuse_step_capacity [simp]: "al_capacity (abuse_step l x) = al_capacity l"
proof -
  have c: "al_capacity (maybeCleanupAtCapacity now l) = al_capacity l" for now l
    by (simp add: maybeCleanupAtCapacity_def Let_def)
  have d: "al_capacity (fst (dropExpired now k l)) = al_capacity l" for now k l
    by (simp add: dropExpired_def putShard_def split: option.split)
  have "al_capacity (fst (check k now l)) = al_capacity l" for k now
    by (simp add: check_def split_def Let_def c d split: option.split)
  moreover have "al_capacity (record_failure k now l) = al_capacity l" for k now
    by (simp add: record_failure_def recordOverflow_def addBlock_def putShard_def split_def Let_def c d)
  ultimately show ?thesis by (simp add: abuse_step_def split: abuse_op.split)
qed

interpretation abuse: bounded_table abuse_step limiter_inv al_tracked al_capacity
proof
  fix l x
  assume l: "limiter_inv l"
  show "limiter_inv (abuse_step l x)" by (rule abuse_step_inv [OF l])
  then show "al_tracked (abuse_step l x) \<le> al_capacity l" by (simp add: limiter_inv_def)
qed simp

lemma new_limiter_inv: "newInvalidAuthAbuseLimiter cfg = Some l \<Longrightarrow> limiter_inv l"
  by (auto simp: newInvalidAuthAbuseLimiter_def limiter_inv_def entry_count_def sum_list_replicate list_all_iff
      split: option.splits if_splits)

text \<open>
  C24: whatever clients fail and are checked, in any order and at any times, the counter of
  a limiter is the number of entries in its shards, and never exceeds the capacity.
\<close>

theorem abuse_limiter_bounded:
  assumes "newInvalidAuthAbuseLimiter cfg = Some l"
  shows "al_tracked (foldl abuse_step l ops) = entry_count (foldl abuse_step l ops) \<and>
     al_tracked (foldl abuse_step l ops) \<le> al_capacity l"
proof -
  have "limiter_inv l" using new_limiter_inv [OF assms] .
  then show ?thesis
    using abuse.run_bound [of l ops] by (simp add: limiter_inv_def)
qed

subsection \<open>Blocking\<close>

text \<open>The entry of a client that is not over at a time; cleanup does not change it.\<close>

definition liveEntry :: "gotime \<Rightarrow> gostring \<Rightarrow> invalidAuthAbuseLimiter \<Rightarrow> invalidAuthAbuseEntry option" where
  "liveEntry now k l =
     (case map_get (shardOf l k) k of
        None \<Rightarrow> None
      | Some e \<Rightarrow> if entryExpired (al_window l) now e then None else Some e)"

lemma cleanup_live:
  assumes "limiter_inv l"
  shows "liveEntry now k (maybeCleanupAtCapacity now l) = liveEntry now k l"
proof -
  let ?i = "unat (al_cleanupCursor l) mod invalidAuthAbuseShardCount"
  have len: "length (al_shards l) = invalidAuthAbuseShardCount" "list_all map_wf (al_shards l)"
    using assms by (simp_all add: limiter_inv_def)
  have "map_wf (al_shards l ! ?i)" using len by (simp add: list_all_length invalidAuthAbuseShardCount_def)
  then have "map_get (filter (\<lambda>(_, e). \<not> entryExpired (al_window l) now e) (al_shards l ! ?i)) k =
      (case map_get (al_shards l ! ?i) k of Some e \<Rightarrow> if \<not> entryExpired (al_window l) now e then Some e else None
       | None \<Rightarrow> None)"
    by (rule map_get_filter)
  then show ?thesis
    using len
    by (cases "?i = shardIndex k")
      (auto simp: maybeCleanupAtCapacity_def liveEntry_def shardOf_def Let_def nth_list_update split: option.split)
qed

lemma dropExpired_live: "snd (dropExpired now k l) = liveEntry now k l"
  by (simp add: dropExpired_def liveEntry_def split: option.split)

lemma cleanup_frame:
  "al_threshold (maybeCleanupAtCapacity now l) = al_threshold l"
  "al_window (maybeCleanupAtCapacity now l) = al_window l"
  "al_block (maybeCleanupAtCapacity now l) = al_block l"
  by (simp_all add: maybeCleanupAtCapacity_def Let_def)

lemma dropExpired_frame:
  "al_threshold (fst (dropExpired now k l)) = al_threshold l"
  "al_window (fst (dropExpired now k l)) = al_window l"
  "al_block (fst (dropExpired now k l)) = al_block l"
  by (simp_all add: dropExpired_def putShard_def split: option.split)

text \<open>What a failure makes of the live entry of its client.\<close>

definition failed ::
  "invalidAuthAbuseLimiter \<Rightarrow> gotime \<Rightarrow> invalidAuthAbuseEntry option \<Rightarrow> invalidAuthAbuseEntry" where
  "failed l now old =
     (let e = (case old of Some e \<Rightarrow> e
               | None \<Rightarrow> \<lparr>iae_failures = 0, iae_windowStart = now, iae_blockedUntil = 0\<rparr>) in
      if now < iae_blockedUntil e then e
      else fst (failEntry l now
             (if now < iae_windowStart e \<or> \<not> now < time_add (iae_windowStart e) (al_window l)
              then e\<lparr>iae_windowStart := now, iae_failures := 0\<rparr> else e)))"

lemma putShard_frame [simp]:
  "al_threshold (putShard k m l) = al_threshold l" "al_window (putShard k m l) = al_window l"
  "al_block (putShard k m l) = al_block l" "length (al_shards (putShard k m l)) = length (al_shards l)"
  by (simp_all add: putShard_def)

lemma addBlock_frame [simp]:
  "al_threshold (addBlock b l) = al_threshold l" "al_window (addBlock b l) = al_window l"
  "al_block (addBlock b l) = al_block l" "shardOf (addBlock b l) k = shardOf l k"
  by (simp_all add: addBlock_def shardOf_def)

lemma shardOf_tracked [simp]: "shardOf (l\<lparr>al_tracked := n\<rparr>) k = shardOf l k"
  by (simp add: shardOf_def)

lemma record_entry:
  assumes "limiter_inv l" and "k \<noteq> []" and "liveEntry now k l \<noteq> None \<or> al_tracked l < al_capacity l"
  shows "map_get (shardOf (record_failure k now l) k) k = Some (failed l now (liveEntry now k l)) \<and>
     al_threshold (record_failure k now l) = al_threshold l \<and> al_window (record_failure k now l) = al_window l \<and>
     al_block (record_failure k now l) = al_block l"
proof -
  let ?l = "l\<lparr>al_recorded := al_recorded l + 1\<rparr>"
  define l0 where "l0 = maybeCleanupAtCapacity now ?l"
  define l1 where "l1 = fst (dropExpired now k l0)"
  have inv: "limiter_inv ?l" using assms(1) by (simp add: limiter_inv_def)
  have inv1: "limiter_inv l1" unfolding l1_def l0_def using dropExpired_inv [OF cleanup_inv [OF inv]] by blast
  have found: "snd (dropExpired now k l0) = liveEntry now k l"
    unfolding dropExpired_live l0_def cleanup_live [OF inv]
    by (simp add: liveEntry_def shardOf_def split: option.split)
  have room: "\<not> (liveEntry now k l = None \<and> al_capacity l1 \<le> al_tracked l1)"
  proof (cases "al_tracked l < al_capacity l")
    case True
    then have "l0 = ?l" by (simp add: l0_def maybeCleanupAtCapacity_def)
    moreover have "al_tracked (fst (dropExpired now k ?l)) \<le> al_tracked l"
      "al_capacity (fst (dropExpired now k ?l)) = al_capacity l"
      by (simp_all add: dropExpired_def putShard_def split: option.split)
    ultimately show ?thesis using True by (simp add: l1_def)
  qed (use assms(3) in simp)
  have frame: "al_threshold l1 = al_threshold l" "al_window l1 = al_window l" "al_block l1 = al_block l"
    by (simp_all add: l1_def l0_def cleanup_frame dropExpired_frame)
  have len: "length (al_shards l1) = invalidAuthAbuseShardCount" using inv1 by (simp add: limiter_inv_def)
  have split: "dropExpired now k l0 = (l1, liveEntry now k l)" using found by (simp add: l1_def prod_eq_iff)
  have fe: "failEntry (putShard k m (l1\<lparr>al_tracked := n\<rparr>)) now e = failEntry l now e"
    "failEntry (putShard k m l1) now e = failEntry l now e" for m n e
    using frame by (simp_all add: failEntry_def Let_def)
  show ?thesis
    using assms(2) room frame len
    by (cases "liveEntry now k l")
      (simp_all add: record_failure_def l0_def [symmetric] split split_def Let_def failed_def fe)
qed

definition abuse_failures :: "gostring \<Rightarrow> gotime list \<Rightarrow> invalidAuthAbuseLimiter \<Rightarrow> invalidAuthAbuseLimiter" where
  "abuse_failures k ts l = foldl (\<lambda>l t. record_failure k t l) l ts"

definition countingEntry :: "int \<Rightarrow> gotime \<Rightarrow> invalidAuthAbuseEntry" where
  "countingEntry n w = \<lparr>iae_failures = n, iae_windowStart = w, iae_blockedUntil = 0\<rparr>"

definition blockedEntry :: "gotime \<Rightarrow> invalidAuthAbuseEntry" where
  "blockedEntry u = \<lparr>iae_failures = 0, iae_windowStart = u, iae_blockedUntil = u\<rparr>"

lemma failed_counting:
  assumes "old = None \<and> n = 0 \<and> w = now \<or> old = Some (countingEntry n w)"
    and "0 < w" and "w \<le> now" and "now < w + al_window l"
  shows "failed l now old =
     (if al_threshold l \<le> n + 1 then blockedEntry (now + al_block l) else countingEntry (n + 1) w)"
  using assms
  by (auto simp: failed_def failEntry_def countingEntry_def blockedEntry_def time_add_def Let_def)

lemma live_counting:
  assumes "map_get (shardOf l k) k = Some (countingEntry n w)" and "0 < now" and "now < w + al_window l"
  shows "liveEntry now k l = Some (countingEntry n w)"
  using assms by (simp add: liveEntry_def entryExpired_def countingEntry_def time_add_def)

lemma counting_run:
  assumes "limiter_inv l" and "k \<noteq> []" and "map_get (shardOf l k) k = Some (countingEntry n w)"
    and "0 < w" and "us \<noteq> []" and "n + int (length us) = al_threshold l"
    and "\<And>u. u \<in> set us \<Longrightarrow> w \<le> u \<and> u < w + al_window l"
  shows "map_get (shardOf (abuse_failures k us l) k) k = Some (blockedEntry (last us + al_block l)) \<and>
     limiter_inv (abuse_failures k us l)"
  using assms(1,3,5-7)
proof (induction us arbitrary: l n)
  case (Cons u us)
  have u: "w \<le> u" "u < w + al_window l" using Cons.prems(5) by auto
  with live_counting [OF Cons.prems(2)] assms(4)
  have live: "liveEntry u k l = Some (countingEntry n w)" by simp
  with record_entry [OF Cons.prems(1) assms(2), of u]
  have r: "map_get (shardOf (record_failure k u l) k) k = Some (failed l u (Some (countingEntry n w)))"
    "al_threshold (record_failure k u l) = al_threshold l" "al_window (record_failure k u l) = al_window l"
    "al_block (record_failure k u l) = al_block l" by simp_all
  have inv: "limiter_inv (record_failure k u l)" by (rule record_inv [OF Cons.prems(1)])
  note f = failed_counting [of "Some (countingEntry n w)" n w u l, OF disjI2 [OF refl] assms(4) u]
  show ?case
  proof (cases "us = []")
    case True
    with Cons.prems(4) r(1) f inv show ?thesis by (simp add: abuse_failures_def)
  next
    case False
    with Cons.prems(4) have "\<not> al_threshold l \<le> n + 1" by (cases us) auto
    with r(1) f have "map_get (shardOf (record_failure k u l) k) k = Some (countingEntry (n + 1) w)" by simp
    from Cons.IH [OF inv this False] Cons.prems(4,5) r False show ?thesis by (simp add: abuse_failures_def)
  qed
qed simp

lemma check_blocked:
  assumes "limiter_inv l" and "k \<noteq> []" and "map_get (shardOf l k) k = Some (blockedEntry u)" and "now < u"
  shows "snd (check k now l) = (time_sub u now, True)"
proof -
  have "liveEntry now k l = Some (blockedEntry u)"
    using assms(3,4) by (simp add: liveEntry_def entryExpired_def blockedEntry_def)
  with assms show ?thesis
    by (simp add: check_def split_def Let_def dropExpired_live cleanup_live blockedEntry_def)
qed

text \<open>
  a client without an entry that fails as often as the threshold within one window,
  while there is room for it, is rejected from its last failure for the whole block time,
  and is told the time that is left.
\<close>

theorem abuser_blocked:
  assumes "limiter_inv l" and "k \<noteq> []" and "map_get (shardOf l k) k = None"
    and "al_tracked l < al_capacity l" and "0 < t" and "0 < al_window l"
    and "\<And>u. u \<in> set us \<Longrightarrow> t \<le> u \<and> u < t + al_window l"
    and "1 + int (length us) = al_threshold l"
    and "now < last (t # us) + al_block l"
  shows "snd (check k now (abuse_failures k (t # us) l)) = (time_sub (last (t # us) + al_block l) now, True)"
proof -
  let ?l1 = "record_failure k t l"
  have live: "liveEntry t k l = None" using assms(3) by (simp add: liveEntry_def)
  have inv: "limiter_inv ?l1" by (rule record_inv [OF assms(1)])
  have r: "map_get (shardOf ?l1 k) k = Some (failed l t None)" "al_threshold ?l1 = al_threshold l"
    "al_window ?l1 = al_window l" "al_block ?l1 = al_block l"
    using record_entry [OF assms(1,2), of t] live assms(4) by simp_all
  have f: "failed l t None = (if al_threshold l \<le> 0 + 1 then blockedEntry (t + al_block l) else countingEntry (0 + 1) t)"
    using assms(5,6) by (intro failed_counting) simp_all
  have "map_get (shardOf (abuse_failures k (t # us) l) k) k = Some (blockedEntry (last (t # us) + al_block l)) \<and>
      limiter_inv (abuse_failures k (t # us) l)"
  proof (cases "us = []")
    case True
    with assms(8) r(1) f inv show ?thesis by (simp add: abuse_failures_def)
  next
    case False
    with assms(8) have "\<not> al_threshold l \<le> 0 + 1" by (cases us) auto
    with r(1) f have "map_get (shardOf ?l1 k) k = Some (countingEntry 1 t)" by simp
    from counting_run [OF inv assms(2) this assms(5) False] assms(7,8) r False show ?thesis
      by (simp add: abuse_failures_def)
  qed
  with check_blocked [OF _ assms(2)] assms(9) show ?thesis by blast
qed

definition demo_limiter :: invalidAuthAbuseLimiter where
  "demo_limiter = the (newInvalidAuthAbuseLimiter (Some \<lparr>iac_Enabled = True, iac_Threshold = 3,
     iac_WindowSeconds = 60, iac_BlockSeconds = 120, iac_Capacity = 2\<rparr>))"

lemma demo_limiter_new:
  "newInvalidAuthAbuseLimiter (Some \<lparr>iac_Enabled = True, iac_Threshold = 3,
     iac_WindowSeconds = 60, iac_BlockSeconds = 120, iac_Capacity = 2\<rparr>) = Some demo_limiter"
  by (simp add: demo_limiter_def newInvalidAuthAbuseLimiter_def)

lemma demo_limiter_values:
  "al_threshold demo_limiter = 3" "al_window demo_limiter = minute" "al_block demo_limiter = 2 * minute"
  "al_capacity demo_limiter = 2" "al_tracked demo_limiter = 0"
  "map_get (shardOf demo_limiter k) k = None"
  by (simp_all add: demo_limiter_def newInvalidAuthAbuseLimiter_def shardOf_def go_simps wrap64_def)

theorem abuse_limiter_bounded_witness:
  "al_tracked (foldl abuse_step demo_limiter [AbuseFailure ''a'' 1, AbuseFailure ''b'' 2, AbuseFailure ''c'' 3])
     \<le> al_capacity demo_limiter"
  using abuse_limiter_bounded [OF demo_limiter_new] by blast

theorem abuser_blocked_witness:
  "snd (check ''ip'' minute (abuse_failures ''ip'' [second, 2 * second, 3 * second] demo_limiter)) =
     (time_sub (3 * second + 2 * minute) minute, True)"
proof -
  have "snd (check ''ip'' minute (abuse_failures ''ip'' [second, 2 * second, 3 * second] demo_limiter)) =
      (time_sub (last [second, 2 * second, 3 * second] + al_block demo_limiter) minute, True)"
    by (rule abuser_blocked)
      (auto simp: demo_limiter_values new_limiter_inv [OF demo_limiter_new] go_simps)
  then show ?thesis by (simp add: demo_limiter_values)
qed

end
