(* ===== verification/CompositeRoute.thy ===== *)
theory CompositeRoute
  imports GoPrelude "HOL-Library.Product_Lexorder"
begin

text \<open>
  How a request to a composite group finds its provider: the registry of platforms
  (\<open>domain/platforms.go\<close>), the detector of well-known model names and the request context
  (\<open>service/composite_platform.go\<close>), the route records (\<open>service/composite_model_route.go\<close>)
  and the resolver (\<open>service/composite_route_resolver.go\<close>). The route repository and the
  account ownership resolver are parameters; an error of theirs is \<open>None\<close>.
\<close>

subsection \<open>Platforms\<close>

definition PlatformAnthropic :: gostring where "PlatformAnthropic = ''anthropic''"
definition PlatformOpenAI :: gostring where "PlatformOpenAI = ''openai''"
definition PlatformGemini :: gostring where "PlatformGemini = ''gemini''"
definition PlatformAntigravity :: gostring where "PlatformAntigravity = ''antigravity''"
definition PlatformGrok :: gostring where "PlatformGrok = ''grok''"
definition PlatformKimi :: gostring where "PlatformKimi = ''kimi''"
definition PlatformZhipu :: gostring where "PlatformZhipu = ''zhipu''"
definition PlatformDeepseek :: gostring where "PlatformDeepseek = ''deepseek''"
definition PlatformMiniMax :: gostring where "PlatformMiniMax = ''minimax''"
definition PlatformTypeSafe :: gostring where "PlatformTypeSafe = ''typesafe''"
definition PlatformOpenCodeGo :: gostring where "PlatformOpenCodeGo = ''opencode_go''"
definition PlatformCommandCode :: gostring where "PlatformCommandCode = ''command_code''"
definition PlatformCline :: gostring where "PlatformCline = ''cline''"
definition PlatformComposite :: gostring where "PlatformComposite = ''composite''"

lemmas platform_defs = PlatformAnthropic_def PlatformOpenAI_def PlatformGemini_def
  PlatformAntigravity_def PlatformGrok_def PlatformKimi_def PlatformZhipu_def PlatformDeepseek_def
  PlatformMiniMax_def PlatformTypeSafe_def PlatformOpenCodeGo_def PlatformCommandCode_def
  PlatformCline_def PlatformComposite_def

datatype PlatformGateway = PlatformGatewayAnthropic | PlatformGatewayOpenAI | PlatformGatewayGemini
  | PlatformGatewayAntigravity

record PlatformSpec =
  ps_ID :: gostring
  ps_DisplayName :: gostring
  ps_Gateway :: PlatformGateway
  ps_CNProvider :: bool
  ps_LiteLLMProvider :: gostring

definition platform :: "gostring \<Rightarrow> gostring \<Rightarrow> PlatformGateway \<Rightarrow> bool \<Rightarrow> gostring \<Rightarrow> PlatformSpec" where
  "platform i n g cn l = \<lparr>ps_ID = i, ps_DisplayName = n, ps_Gateway = g, ps_CNProvider = cn,
     ps_LiteLLMProvider = l\<rparr>"

definition platformList :: "PlatformSpec list" where
  "platformList =
     [platform PlatformAnthropic ''Anthropic'' PlatformGatewayAnthropic False ''anthropic'',
      platform PlatformOpenAI ''OpenAI'' PlatformGatewayOpenAI False ''openai'',
      platform PlatformGemini ''Gemini'' PlatformGatewayGemini False ''gemini'',
      platform PlatformAntigravity ''Antigravity'' PlatformGatewayAntigravity False ''anthropic'',
      platform PlatformGrok ''Grok'' PlatformGatewayOpenAI False ''xai'',
      platform PlatformKimi ''Kimi'' PlatformGatewayOpenAI True ''moonshot'',
      platform PlatformZhipu ''Zhipu GLM'' PlatformGatewayOpenAI True ''zhipu'',
      platform PlatformDeepseek ''DeepSeek'' PlatformGatewayOpenAI True ''deepseek'',
      platform PlatformMiniMax ''MiniMax'' PlatformGatewayOpenAI True ''minimax'',
      platform PlatformOpenCodeGo ''OpenCode'' PlatformGatewayOpenAI False ''opencode-go'',
      platform PlatformTypeSafe ''TypeSafe / Jev'' PlatformGatewayAnthropic False ''typesafe'',
      platform PlatformCommandCode ''Command Code'' PlatformGatewayOpenAI False [],
      platform PlatformCline ''Cline'' PlatformGatewayOpenAI False []]"

definition LookupPlatform :: "gostring \<Rightarrow> PlatformSpec option" where
  "LookupPlatform i = find (\<lambda>s. ps_ID s = i) platformList"

definition IsConcretePlatform :: "gostring \<Rightarrow> bool" where
  "IsConcretePlatform i \<longleftrightarrow> LookupPlatform i \<noteq> None"

definition IsGroupPlatform :: "gostring \<Rightarrow> bool" where
  "IsGroupPlatform i \<longleftrightarrow> i = PlatformComposite \<or> IsConcretePlatform i"

definition PlatformIDsWhere :: "(PlatformSpec \<Rightarrow> bool) \<Rightarrow> gostring list" where
  "PlatformIDsWhere match = map ps_ID (filter match platformList)"

definition ConcretePlatformIDs :: "gostring list" where
  "ConcretePlatformIDs = PlatformIDsWhere (\<lambda>_. True)"

definition compositePrecedenceHead :: "gostring list" where
  "compositePrecedenceHead = [PlatformAnthropic, PlatformGemini, PlatformOpenAI]"

definition CompositePrecedencePlatformIDs :: "gostring list" where
  "CompositePrecedencePlatformIDs =
     (let out = filter IsConcretePlatform compositePrecedenceHead in
      out @ map ps_ID (filter (\<lambda>s. ps_ID s \<notin> set out) platformList))"

definition UsesOpenAIGateway :: "gostring \<Rightarrow> bool" where
  "UsesOpenAIGateway i =
     (case LookupPlatform i of None \<Rightarrow> False | Some s \<Rightarrow> ps_Gateway s = PlatformGatewayOpenAI)"

definition IsCNProviderPlatform :: "gostring \<Rightarrow> bool" where
  "IsCNProviderPlatform i = (case LookupPlatform i of None \<Rightarrow> False | Some s \<Rightarrow> ps_CNProvider s)"

subsection \<open>The detector\<close>

definition hasOpenAISeriesPrefix :: "gostring \<Rightarrow> bool" where
  "hasOpenAISeriesPrefix model =
     list_ex (\<lambda>p. model = p \<or> has_prefix model (p @ ''-'')) [''o1'', ''o3'', ''o4'', ''o5'']"

definition providerPlatform :: "gostring \<Rightarrow> gostring option" where
  "providerPlatform provider =
     (if provider \<in> {''anthropic'', ''claude''} then Some PlatformAnthropic
      else if provider \<in> {''openai'', ''chatgpt''} then Some PlatformOpenAI
      else if provider \<in> {''google'', ''google-ai-studio'', ''gemini''} then Some PlatformGemini
      else if provider \<in> {''xai'', ''x-ai'', ''grok''} then Some PlatformGrok
      else if provider \<in> {''kimi'', ''moonshot''} then Some PlatformKimi
      else if provider \<in> {''zhipu'', ''glm'', ''bigmodel''} then Some PlatformZhipu
      else if provider = ''deepseek'' then Some PlatformDeepseek
      else if provider = ''minimax'' then Some PlatformMiniMax
      else if provider \<in> {''typesafe'', ''jev''} then Some PlatformTypeSafe
      else None)"

definition has_any_prefix :: "gostring \<Rightarrow> gostring list \<Rightarrow> bool" where
  "has_any_prefix s ps = list_ex (has_prefix s) ps"

definition namePlatform :: "gostring \<Rightarrow> gostring option" where
  "namePlatform n =
     (if has_any_prefix n [''anthropic.claude-'', ''claude-''] then Some PlatformAnthropic
      else if has_any_prefix n [''gpt-'', ''chatgpt-'', ''codex-'', ''text-embedding-'',
                ''text-moderation-'', ''omni-moderation-'', ''dall-e-'', ''gpt-image-'', ''tts-'',
                ''whisper-''] \<or> hasOpenAISeriesPrefix n then Some PlatformOpenAI
      else if has_any_prefix n [''gemini-'', ''learnlm-''] then Some PlatformGemini
      else if n = ''grok'' \<or> has_prefix n ''grok-'' then Some PlatformGrok
      else if n = ''k3'' \<or> n = ''k3-256k'' \<or> has_any_prefix n [''kimi-'', ''moonshot-'']
        then Some PlatformKimi
      else if has_prefix n ''glm-'' then Some PlatformZhipu
      else if has_prefix n ''deepseek-'' then Some PlatformDeepseek
      else if has_any_prefix n [''minimax-'', ''abab5'', ''abab6'', ''abab7''] then Some PlatformMiniMax
      else if n = ''jev-latest'' \<or> has_prefix n ''jev-'' then Some PlatformTypeSafe
      else None)"

definition DetectModelPlatform :: "gostring \<Rightarrow> gostring option" where
  "DetectModelPlatform model =
     (let normalized = to_lower (trim_space model) in
      if normalized = [] then None
      else
        let normalized = trim_prefix normalized ''models/'' in
        (case index_byte normalized (CHR ''/'') of
           None \<Rightarrow> namePlatform normalized
         | Some slash \<Rightarrow>
             if slash = 0 then namePlatform normalized
             else
               let provider = trim_space (take slash normalized);
                   rest = trim_space (drop (slash + 1) normalized) in
               (case providerPlatform provider of
                  Some p \<Rightarrow> Some p
                | None \<Rightarrow> namePlatform (if rest \<noteq> [] then trim_prefix rest ''models/'' else normalized))))"

subsection \<open>Routes\<close>

record CompositeModelRoute =
  mr_ID :: int
  mr_GroupID :: int
  mr_PublicModel :: gostring
  mr_MatchType :: gostring
  mr_TargetPlatform :: gostring
  mr_UpstreamModel :: gostring
  mr_Endpoint :: gostring
  mr_Priority :: int
  mr_Enabled :: bool
  mr_Notes :: gostring

record CompositeModelOwnership =
  mo_TargetPlatform :: gostring
  mo_Matched :: bool
  mo_Ambiguous :: bool
  mo_OpenAIGatewayOAuthClaimed :: bool

record CompositeRouteDecision =
  rd_Matched :: bool
  rd_Source :: gostring
  rd_GroupID :: int
  rd_PublicModel :: gostring
  rd_TargetPlatform :: gostring
  rd_UpstreamModel :: gostring
  rd_Endpoint :: gostring
  rd_Route :: "CompositeModelRoute option"
  rd_Reason :: gostring

record CompositeRouteInput =
  ri_PublicModel :: gostring
  ri_MatchType :: gostring
  ri_TargetPlatform :: gostring
  ri_UpstreamModel :: gostring
  ri_Endpoint :: gostring
  ri_Priority :: int
  ri_Enabled :: bool
  ri_Notes :: gostring

definition normalizeCompositeRouteEndpoint :: "gostring \<Rightarrow> gostring" where
  "normalizeCompositeRouteEndpoint endpoint =
     (let e = to_lower (trim_space endpoint) in
      if e = [] then ''any''
      else if e \<in> {''messages'', ''count_tokens'', ''responses'', ''chat_completions'', ''embeddings'',
                   ''images'', ''gemini''} then e
      else ''any'')"

definition normalizeCompositeRouteMatchType :: "gostring \<Rightarrow> gostring" where
  "normalizeCompositeRouteMatchType matchType =
     (if to_lower (trim_space matchType) = ''prefix'' then ''prefix'' else ''exact'')"

definition normalizeCompositeRouteInput :: "CompositeRouteInput \<Rightarrow> CompositeRouteInput" where
  "normalizeCompositeRouteInput input =
     (let i = input\<lparr>ri_PublicModel := trim_space (ri_PublicModel input),
                    ri_MatchType := normalizeCompositeRouteMatchType (ri_MatchType input),
                    ri_TargetPlatform := trim_space (ri_TargetPlatform input),
                    ri_UpstreamModel := trim_space (ri_UpstreamModel input),
                    ri_Endpoint := normalizeCompositeRouteEndpoint (ri_Endpoint input)\<rparr>;
          i2 = (if ri_UpstreamModel i = [] \<and> ri_MatchType i = ''exact''
                then i\<lparr>ri_UpstreamModel := ri_PublicModel i\<rparr> else i)
      in i2\<lparr>ri_Notes := trim_space (ri_Notes input)\<rparr>)"

subsection \<open>Matching\<close>

record candidate =
  ca_route :: CompositeModelRoute
  ca_matchStrength :: int
  ca_endpointWeight :: int
  ca_prefixLen :: int

definition candidateOf :: "gostring \<Rightarrow> gostring \<Rightarrow> CompositeModelRoute \<Rightarrow> candidate option" where
  "candidateOf model endpoint route =
     (let e = normalizeCompositeRouteEndpoint (mr_Endpoint route);
          mt = normalizeCompositeRouteMatchType (mr_MatchType route);
          r = route\<lparr>mr_Endpoint := e, mr_MatchType := mt\<rparr>;
          publicModel = trim_space (mr_PublicModel route);
          weight = (if e = endpoint then 1 else 0) in
      if e \<noteq> endpoint \<and> e \<noteq> ''any'' then None
      else if publicModel = [] then None
      else if mt = ''exact'' then
        (if publicModel \<noteq> model then None
         else Some \<lparr>ca_route = r, ca_matchStrength = 2, ca_endpointWeight = weight,
                    ca_prefixLen = int (length publicModel)\<rparr>)
      else if mt = ''prefix'' then
        (if \<not> has_prefix model publicModel then None
         else Some \<lparr>ca_route = r, ca_matchStrength = 1, ca_endpointWeight = weight,
                    ca_prefixLen = int (length publicModel)\<rparr>)
      else None)"

text \<open>
  The comparison of \<open>sort.SliceStable\<close> is the lexicographic order of this key, and
  \<open>sort_key\<close> is stable too.
\<close>

definition candidateKey :: "candidate \<Rightarrow> int \<times> int \<times> int \<times> int \<times> int" where
  "candidateKey c = (- ca_matchStrength c, - ca_endpointWeight c, - ca_prefixLen c,
     mr_Priority (ca_route c), mr_ID (ca_route c))"

definition matchCompositeRoute ::
  "CompositeModelRoute list \<Rightarrow> gostring \<Rightarrow> gostring \<Rightarrow> CompositeModelRoute option" where
  "matchCompositeRoute routes model endpoint =
     (case sort_key candidateKey (List.map_filter (candidateOf model endpoint) routes) of
        [] \<Rightarrow> None
      | c # _ \<Rightarrow> Some (ca_route c))"

definition filterSystemOneRouteModels ::
  "CompositeModelRoute list \<Rightarrow> gostring list \<Rightarrow> gostring \<Rightarrow> gostring list" where
  "filterSystemOneRouteModels routes models endpoint =
     filter (\<lambda>model.
       case matchCompositeRoute routes model (normalizeCompositeRouteEndpoint endpoint) of
         None \<Rightarrow> True | Some route \<Rightarrow> mr_TargetPlatform route \<noteq> PlatformTypeSafe) models"

subsection \<open>Resolving\<close>

record CompositeRouteResolver =
  cr_repo :: "(int \<Rightarrow> CompositeModelRoute list option) option"
  cr_ownership :: "(int \<Rightarrow> gostring \<Rightarrow> CompositeModelOwnership option) option"

definition ListExactPublicModels ::
  "CompositeRouteResolver \<Rightarrow> int \<Rightarrow> gostring \<Rightarrow> bool \<Rightarrow> gostring list option" where
  "ListExactPublicModels r groupID endpoint includeSystemOne =
     (case cr_repo r of
        None \<Rightarrow> Some []
      | Some list_routes \<Rightarrow>
          if groupID \<le> 0 then Some []
          else
            (case list_routes groupID of
               None \<Rightarrow> None
             | Some routes \<Rightarrow>
                 (let models = map (\<lambda>route. trim_space (mr_PublicModel route))
                        (filter (\<lambda>route. mr_Enabled route \<and> mr_MatchType route = ''exact'' \<and>
                           (endpoint = [] \<or> normalizeCompositeRouteEndpoint (mr_Endpoint route) = ''any'' \<or>
                            normalizeCompositeRouteEndpoint (mr_Endpoint route) = endpoint) \<and>
                           trim_space (mr_PublicModel route) \<noteq> []) routes) in
                  Some (if includeSystemOne then models
                        else filterSystemOneRouteModels routes models endpoint))))"

definition FilterCodexModels :: "CompositeRouteResolver \<Rightarrow> int \<Rightarrow> gostring list \<Rightarrow> gostring list option" where
  "FilterCodexModels r groupID models =
     (case cr_repo r of
        None \<Rightarrow> Some models
      | Some list_routes \<Rightarrow>
          if groupID \<le> 0 then Some models
          else (case list_routes groupID of
                  None \<Rightarrow> None
                | Some routes \<Rightarrow> Some (filterSystemOneRouteModels routes models ''responses'')))"

datatype route_error = ListFailed | OwnershipFailed

definition CompositeRouteReasonAmbiguous :: gostring where
  "CompositeRouteReasonAmbiguous = ''model is exposed by multiple provider platforms''"

definition CompositeRouteReasonOAuthAmbiguous :: gostring where
  "CompositeRouteReasonOAuthAmbiguous =
     ''model is exposed by multiple provider platforms including OAuth accounts''"

definition undecided :: "int \<Rightarrow> gostring \<Rightarrow> gostring \<Rightarrow> gostring \<Rightarrow> CompositeRouteDecision" where
  "undecided groupID model endpoint reason =
     \<lparr>rd_Matched = False, rd_Source = [], rd_GroupID = groupID, rd_PublicModel = model,
      rd_TargetPlatform = [], rd_UpstreamModel = [], rd_Endpoint = endpoint, rd_Route = None,
      rd_Reason = reason\<rparr>"

definition decided ::
  "gostring \<Rightarrow> int \<Rightarrow> gostring \<Rightarrow> gostring \<Rightarrow> gostring \<Rightarrow> gostring \<Rightarrow> CompositeModelRoute option \<Rightarrow>
   CompositeRouteDecision" where
  "decided source groupID model target upstream endpoint route =
     \<lparr>rd_Matched = True, rd_Source = source, rd_GroupID = groupID, rd_PublicModel = model,
      rd_TargetPlatform = target, rd_UpstreamModel = upstream, rd_Endpoint = endpoint,
      rd_Route = route, rd_Reason = []\<rparr>"

text \<open>The first step of \<open>Resolve\<close>: an explicit route of the group.\<close>

definition explicitDecision ::
  "CompositeRouteResolver \<Rightarrow> int \<Rightarrow> gostring \<Rightarrow> gostring \<Rightarrow> (route_error + CompositeRouteDecision) option" where
  "explicitDecision r groupID model endpoint =
     (case cr_repo r of
        None \<Rightarrow> None
      | Some list_routes \<Rightarrow>
          if groupID \<le> 0 then None
          else
            (case list_routes groupID of
               None \<Rightarrow> Some (Inl ListFailed)
             | Some routes \<Rightarrow>
                 (case matchCompositeRoute routes model endpoint of
                    None \<Rightarrow> None
                  | Some route \<Rightarrow>
                      Some (Inr (decided ''route'' groupID model (mr_TargetPlatform route)
                        (if trim_space (mr_UpstreamModel route) = [] then model
                         else trim_space (mr_UpstreamModel route)) endpoint (Some route))))))"

text \<open>The second step: the provider whose accounts expose the model.\<close>

definition ownershipDecision ::
  "CompositeRouteResolver \<Rightarrow> int \<Rightarrow> gostring \<Rightarrow> gostring \<Rightarrow> (route_error + CompositeRouteDecision) option" where
  "ownershipDecision r groupID model endpoint =
     (case cr_ownership r of
        None \<Rightarrow> None
      | Some resolver \<Rightarrow>
          if groupID \<le> 0 then None
          else
            (case resolver groupID model of
               None \<Rightarrow> if DetectModelPlatform model = None then Some (Inl OwnershipFailed) else None
             | Some ownership \<Rightarrow>
                 if mo_Ambiguous ownership then
                   Some (Inr (undecided groupID model endpoint
                     (case DetectModelPlatform model of
                        Some guessed \<Rightarrow>
                          if mo_OpenAIGatewayOAuthClaimed ownership \<and> UsesOpenAIGateway guessed
                          then CompositeRouteReasonOAuthAmbiguous else CompositeRouteReasonAmbiguous
                      | None \<Rightarrow> CompositeRouteReasonAmbiguous)))
                 else if mo_Matched ownership then
                   (let target = trim_space (mo_TargetPlatform ownership) in
                    Some (Inr (if \<not> IsConcretePlatform target
                               then undecided groupID model endpoint
                                      ''account model ownership has no concrete target platform''
                               else decided ''account_model'' groupID model target model endpoint None)))
                 else None))"

definition Resolve ::
  "CompositeRouteResolver \<Rightarrow> int \<Rightarrow> gostring \<Rightarrow> gostring \<Rightarrow> route_error + CompositeRouteDecision" where
  "Resolve r groupID model endpoint =
     (let model = trim_space model; endpoint = normalizeCompositeRouteEndpoint endpoint in
      if model = [] then Inr (undecided groupID model endpoint ''model is required'')
      else
        (case explicitDecision r groupID model endpoint of
           Some d \<Rightarrow> d
         | None \<Rightarrow>
             (case ownershipDecision r groupID model endpoint of
                Some d \<Rightarrow> d
              | None \<Rightarrow>
                  (case DetectModelPlatform model of
                     Some p \<Rightarrow> Inr (decided ''detector'' groupID model p model endpoint None)
                   | None \<Rightarrow> Inr (undecided groupID model endpoint
                               ''no explicit route or built-in detector match'')))))"

definition OAuthAmbiguous :: "CompositeRouteDecision \<Rightarrow> bool" where
  "OAuthAmbiguous d \<longleftrightarrow> \<not> rd_Matched d \<and> rd_Reason d = CompositeRouteReasonOAuthAmbiguous"

subsection \<open>The request context\<close>

record request_context =
  cx_ResolvedTargetPlatform :: "gostring option"
  cx_ResolvedUpstreamModel :: "gostring option"
  cx_RequestedPublicModel :: "gostring option"
  cx_CompositeRouteSource :: "gostring option"

definition WithResolvedTargetPlatform :: "request_context option \<Rightarrow> gostring \<Rightarrow> request_context option" where
  "WithResolvedTargetPlatform ctx p =
     (let p = trim_space p in
      if p = [] then ctx else map_option (\<lambda>c. c\<lparr>cx_ResolvedTargetPlatform := Some p\<rparr>) ctx)"

text \<open>A context value counts if it is a string that is not blank.\<close>

definition contextValue :: "(request_context \<Rightarrow> gostring option) \<Rightarrow> request_context option \<Rightarrow> gostring option" where
  "contextValue get ctx =
     (case ctx of
        None \<Rightarrow> None
      | Some c \<Rightarrow> (case get c of
                     None \<Rightarrow> None
                   | Some s \<Rightarrow> if trim_space s = [] then None else Some (trim_space s)))"

definition ResolvedTargetPlatformFromContext :: "request_context option \<Rightarrow> gostring option" where
  "ResolvedTargetPlatformFromContext = contextValue cx_ResolvedTargetPlatform"

definition ResolvedUpstreamModelFromContext :: "request_context option \<Rightarrow> gostring option" where
  "ResolvedUpstreamModelFromContext = contextValue cx_ResolvedUpstreamModel"

definition RequestedPublicModelFromContext :: "request_context option \<Rightarrow> gostring option" where
  "RequestedPublicModelFromContext = contextValue cx_RequestedPublicModel"

definition CompositeRouteSourceFromContext :: "request_context option \<Rightarrow> gostring option" where
  "CompositeRouteSourceFromContext = contextValue cx_CompositeRouteSource"

definition WithCompositeRouteDecision ::
  "request_context option \<Rightarrow> CompositeRouteDecision \<Rightarrow> request_context option" where
  "WithCompositeRouteDecision ctx d =
     (if \<not> rd_Matched d then ctx
      else
        map_option
          ((\<lambda>c. if trim_space (rd_Source d) = [] then c
                else c\<lparr>cx_CompositeRouteSource := Some (trim_space (rd_Source d))\<rparr>) \<circ>
           (\<lambda>c. if trim_space (rd_PublicModel d) = [] then c
                else c\<lparr>cx_RequestedPublicModel := Some (trim_space (rd_PublicModel d))\<rparr>) \<circ>
           (\<lambda>c. if trim_space (rd_UpstreamModel d) = [] then c
                else c\<lparr>cx_ResolvedUpstreamModel := Some (trim_space (rd_UpstreamModel d))\<rparr>))
          (WithResolvedTargetPlatform ctx (rd_TargetPlatform d)))"

text \<open>A group is its id and its platform.\<close>

definition resolveCompositeRouteDecision ::
  "CompositeRouteResolver \<Rightarrow> request_context option \<Rightarrow> (int \<times> gostring) option \<Rightarrow> gostring \<Rightarrow> gostring \<Rightarrow>
   (route_error + CompositeRouteDecision) option" where
  "resolveCompositeRouteDecision r ctx grp requestedModel endpoint =
     (case grp of
        None \<Rightarrow> None
      | Some (groupID, groupPlatform) \<Rightarrow>
          if groupPlatform \<noteq> PlatformComposite then None
          else
            (case ResolvedTargetPlatformFromContext ctx of
               Some p \<Rightarrow>
                 Some (Inr (decided
                   (case CompositeRouteSourceFromContext ctx of None \<Rightarrow> ''detector'' | Some s \<Rightarrow> s)
                   groupID requestedModel p
                   (case ResolvedUpstreamModelFromContext ctx of None \<Rightarrow> requestedModel | Some m \<Rightarrow> m)
                   (normalizeCompositeRouteEndpoint endpoint) None))
             | None \<Rightarrow> Some (Resolve r groupID requestedModel endpoint)))"

end
