(* ===== verification/CompositeRouteProofs.thy ===== *)
theory CompositeRouteProofs
  imports CompositeRoute "HOL-Library.Multiset"
begin

text \<open>
  Properties of composite routing: which route wins, that the order in which the repository
  lists the routes does not matter, that a guessed or owned target is a concrete provider, and
  that a decision survives its passage through the request context.
\<close>

subsection \<open>White space\<close>

lemma strip_all_drop: "\<exists>k. strip_all n ps s = drop k s"
proof (induction n arbitrary: s)
  case 0
  then show ?case by (auto intro: exI [of _ 0])
next
  case (Suc n)
  show ?case
  proof (cases "strip_one ps s")
    case None
    then show ?thesis by (auto intro: exI [of _ 0])
  next
    case (Some t)
    then obtain j where "t = drop j s" by (auto simp: strip_one_def)
    moreover obtain k where "strip_all n ps t = drop k t" using Suc.IH by blast
    ultimately show ?thesis using Some by auto
  qed
qed

lemma strip_all_id: "strip_one ps s = None \<Longrightarrow> strip_all n ps s = s"
  by (cases n) simp_all

lemma trim_right_take: "\<exists>k. trim_right s = take k s"
proof -
  obtain k where "strip_all (length s) (map rev space_encodings) (rev s) = drop k (rev s)"
    using strip_all_drop by blast
  then have "trim_right s = take (length s - k) s"
    by (simp add: trim_right_def drop_rev)
  then show ?thesis by blast
qed

lemma has_prefix_take: "has_prefix (take k s) p \<Longrightarrow> has_prefix s p"
  unfolding has_prefix_iff by (metis append_assoc append_take_drop_id)

lemma trim_space_left_stuck: "strip_one space_encodings (trim_space s) = None"
proof -
  obtain k where k: "trim_space s = take k (trim_left s)"
    using trim_right_take [of "trim_left s"] by (auto simp: trim_space_def)
  have "find (has_prefix (trim_left s)) space_encodings = None"
    using trim_left_no_space [of s] by (simp add: strip_one_def)
  then have "\<not> has_prefix (trim_left s) p" if "p \<in> set space_encodings" for p
    using that by (auto simp: find_None_iff)
  then have "\<not> has_prefix (take k (trim_left s)) p" if "p \<in> set space_encodings" for p
    using that has_prefix_take by blast
  then show ?thesis unfolding k by (auto simp: strip_one_def find_None_iff)
qed

lemma trim_space_right_stuck: "strip_one (map rev space_encodings) (rev (trim_space s)) = None"
proof -
  have "[] \<notin> set (map rev space_encodings)" by (simp add: space_encodings_def)
  then have "strip_one (map rev space_encodings)
      (strip_all (length (rev (trim_left s))) (map rev space_encodings) (rev (trim_left s))) = None"
    by (intro strip_all_stuck) simp_all
  then show ?thesis by (simp add: trim_space_def trim_right_def)
qed

lemma trim_space_idem [simp]: "trim_space (trim_space s) = trim_space s"
proof -
  have "trim_left (trim_space s) = trim_space s"
    unfolding trim_left_def by (rule strip_all_id) (rule trim_space_left_stuck)
  moreover have "trim_right (trim_space s) = trim_space s"
    unfolding trim_right_def by (subst strip_all_id) (simp_all add: trim_space_right_stuck)
  ultimately show ?thesis by (simp add: trim_space_def [of "trim_space s"])
qed

lemma trim_space_Nil [simp]: "trim_space [] = []"
  by (simp add: trim_space_def trim_left_def trim_right_def)

subsection \<open>The winning route\<close>

text \<open>
  What the code calls a match, written over the route itself: the endpoint agrees or is
  \<open>any\<close>, and the public model is the requested one or, for a prefix route, a prefix of it.
\<close>

definition covers :: "gostring \<Rightarrow> gostring \<Rightarrow> CompositeModelRoute \<Rightarrow> bool" where
  "covers model endpoint route \<longleftrightarrow>
     normalizeCompositeRouteEndpoint (mr_Endpoint route) \<in> {endpoint, ''any''} \<and>
     trim_space (mr_PublicModel route) \<noteq> [] \<and>
     (if normalizeCompositeRouteMatchType (mr_MatchType route) = ''exact''
      then trim_space (mr_PublicModel route) = model
      else has_prefix model (trim_space (mr_PublicModel route)))"

text \<open>
  The precedence: an exact route before a prefix, the endpoint's own route before one for any
  endpoint, the longer public model first, then the smaller priority, then the older route.
\<close>

definition preferred :: "gostring \<Rightarrow> CompositeModelRoute \<Rightarrow> int \<times> int \<times> int \<times> int \<times> int" where
  "preferred endpoint route =
     (if normalizeCompositeRouteMatchType (mr_MatchType route) = ''exact'' then - 2 else - 1,
      if normalizeCompositeRouteEndpoint (mr_Endpoint route) = endpoint then - 1 else 0,
      - int (length (trim_space (mr_PublicModel route))), mr_Priority route, mr_ID route)"

definition normalized_route :: "CompositeModelRoute \<Rightarrow> CompositeModelRoute" where
  "normalized_route route =
     route\<lparr>mr_Endpoint := normalizeCompositeRouteEndpoint (mr_Endpoint route),
           mr_MatchType := normalizeCompositeRouteMatchType (mr_MatchType route)\<rparr>"

lemma match_type_cases:
  "normalizeCompositeRouteMatchType t = ''exact'' \<or> normalizeCompositeRouteMatchType t = ''prefix''"
  by (simp add: normalizeCompositeRouteMatchType_def)

lemma candidateOf_eq:
  "candidateOf model endpoint route =
     (if covers model endpoint route
      then Some \<lparr>ca_route = normalized_route route,
                 ca_matchStrength =
                   (if normalizeCompositeRouteMatchType (mr_MatchType route) = ''exact'' then 2 else 1),
                 ca_endpointWeight =
                   (if normalizeCompositeRouteEndpoint (mr_Endpoint route) = endpoint then 1 else 0),
                 ca_prefixLen = int (length (trim_space (mr_PublicModel route)))\<rparr>
      else None)"
  using match_type_cases [of "mr_MatchType route"]
  by (auto simp: candidateOf_def covers_def normalized_route_def Let_def)

lemma candidateOf_key:
  "candidateOf model endpoint route = Some c \<Longrightarrow>
   covers model endpoint route \<and> ca_route c = normalized_route route \<and>
   candidateKey c = preferred endpoint route"
  by (auto simp: candidateOf_eq candidateKey_def preferred_def normalized_route_def split: if_splits)

lemma covers_candidate:
  "covers model endpoint route \<Longrightarrow> \<exists>c. candidateOf model endpoint route = Some c"
  by (simp add: candidateOf_eq)

lemma set_map_filter: "set (List.map_filter f xs) = {y. \<exists>x \<in> set xs. f x = Some y}"
  unfolding List.map_filter_def by force

lemma sort_key_head:
  assumes "sort_key k xs = c # cs"
  shows "c \<in> set xs" and "\<And>x. x \<in> set xs \<Longrightarrow> k c \<le> k x"
proof -
  have s: "set (c # cs) = set xs" using assms by (metis set_sort)
  then show "c \<in> set xs" by auto
  have "sorted (map k (c # cs))" using assms by (metis sorted_sort_key)
  then show "k c \<le> k x" if "x \<in> set xs" for x
    using that s by auto
qed

lemma match_none:
  "matchCompositeRoute routes model endpoint = None \<longleftrightarrow>
   (\<forall>route \<in> set routes. \<not> covers model endpoint route)"
proof -
  have "matchCompositeRoute routes model endpoint = None \<longleftrightarrow>
      sort_key candidateKey (List.map_filter (candidateOf model endpoint) routes) = []"
    by (simp add: matchCompositeRoute_def split: list.split)
  also have "\<dots> \<longleftrightarrow> set (List.map_filter (candidateOf model endpoint) routes) = {}"
    by (metis set_empty set_sort)
  also have "\<dots> \<longleftrightarrow> (\<forall>route \<in> set routes. candidateOf model endpoint route = None)"
    by (auto simp: set_map_filter) (metis not_None_eq)
  also have "\<dots> \<longleftrightarrow> (\<forall>route \<in> set routes. \<not> covers model endpoint route)"
    by (simp add: candidateOf_eq)
  finally show ?thesis .
qed

lemma match_some:
  assumes "matchCompositeRoute routes model endpoint = Some best"
  shows "\<exists>route \<in> set routes. covers model endpoint route \<and> best = normalized_route route \<and>
           (\<forall>other \<in> set routes. covers model endpoint other \<longrightarrow>
              preferred endpoint route \<le> preferred endpoint other)"
proof -
  from assms obtain c cs
    where s: "sort_key candidateKey (List.map_filter (candidateOf model endpoint) routes) = c # cs"
      and best: "best = ca_route c"
    by (auto simp: matchCompositeRoute_def split: list.splits)
  obtain route where r: "route \<in> set routes" "candidateOf model endpoint route = Some c"
    using sort_key_head(1) [OF s] by (auto simp: set_map_filter)
  have "preferred endpoint route \<le> preferred endpoint other"
    if other: "other \<in> set routes" "covers model endpoint other" for other
  proof -
    obtain d where d: "candidateOf model endpoint other = Some d"
      using covers_candidate [OF other(2)] by blast
    then have "candidateKey c \<le> candidateKey d"
      using sort_key_head(2) [OF s] other(1) by (auto simp: set_map_filter)
    then show ?thesis using candidateOf_key [OF r(2)] candidateOf_key [OF d] by simp
  qed
  then show ?thesis using r candidateOf_key [OF r(2)] best by blast
qed

text \<open>C23: the route that \<open>matchCompositeRoute\<close> returns is one of the group's routes that
  covers the requested model and endpoint, and no other covering route comes before it in the
  precedence exact over prefix, own endpoint over any, longer name, smaller priority, older
  route; nothing is returned exactly when no route covers the request.\<close>

theorem most_specific_route_wins:
  "case matchCompositeRoute routes model endpoint of
     None \<Rightarrow> \<forall>route \<in> set routes. \<not> covers model endpoint route
   | Some best \<Rightarrow>
       \<exists>route \<in> set routes. covers model endpoint route \<and> best = normalized_route route \<and>
         (\<forall>other \<in> set routes. covers model endpoint other \<longrightarrow>
            preferred endpoint route \<le> preferred endpoint other)"
proof (cases "matchCompositeRoute routes model endpoint")
  case None
  then have "\<forall>route \<in> set routes. \<not> covers model endpoint route" by (simp only: match_none)
  then show ?thesis using None by simp
next
  case (Some best)
  show ?thesis using match_some [OF Some] Some by simp
qed

definition example_route :: "int \<Rightarrow> gostring \<Rightarrow> gostring \<Rightarrow> gostring \<Rightarrow> CompositeModelRoute" where
  "example_route i public kind target =
     \<lparr>mr_ID = i, mr_GroupID = 7, mr_PublicModel = public, mr_MatchType = kind,
      mr_TargetPlatform = target, mr_UpstreamModel = [], mr_Endpoint = ''any'', mr_Priority = 0,
      mr_Enabled = True, mr_Notes = []\<rparr>"

definition example_routes :: "CompositeModelRoute list" where
  "example_routes = [example_route 1 ''gpt'' ''prefix'' ''openai'',
                     example_route 2 ''gpt-5'' ''prefix'' ''grok'',
                     example_route 3 ''gpt-5-jev'' ''exact'' ''typesafe'']"

text \<open>Of two prefix routes the longer one wins, although the other was created first.\<close>

theorem most_specific_route_wins_witness:
  "map_option mr_ID (matchCompositeRoute example_routes ''gpt-5-mini'' ''responses'') = Some 2 \<and>
   (\<exists>route \<in> set example_routes. covers ''gpt-5-mini'' ''responses'' route \<and>
      (\<forall>other \<in> set example_routes. covers ''gpt-5-mini'' ''responses'' other \<longrightarrow>
         preferred ''responses'' route \<le> preferred ''responses'' other))"
proof -
  have e: "map_option mr_ID (matchCompositeRoute example_routes ''gpt-5-mini'' ''responses'') = Some 2"
    by code_simp
  then obtain best
    where "matchCompositeRoute example_routes ''gpt-5-mini'' ''responses'' = Some best" by auto
  then show ?thesis
    using e most_specific_route_wins [of example_routes "''gpt-5-mini''" "''responses''"] by auto
qed

subsection \<open>The order of the routes does not matter\<close>

lemma mset_map_filter: "mset xs = mset ys \<Longrightarrow> mset (List.map_filter f xs) = mset (List.map_filter f ys)"
  by (simp add: List.map_filter_def)

lemma candidates_inj:
  assumes "distinct (map mr_ID routes)"
  shows "inj_on candidateKey (set (List.map_filter (candidateOf model endpoint) routes))"
proof (rule inj_onI)
  fix c d
  assume "c \<in> set (List.map_filter (candidateOf model endpoint) routes)"
    and "d \<in> set (List.map_filter (candidateOf model endpoint) routes)"
    and k: "candidateKey c = candidateKey d"
  then obtain r s where r: "r \<in> set routes" "candidateOf model endpoint r = Some c"
    and s: "s \<in> set routes" "candidateOf model endpoint s = Some d"
    by (auto simp: set_map_filter)
  have "mr_ID r = mr_ID s"
    using k candidateOf_key [OF r(2)] candidateOf_key [OF s(2)]
    by (simp add: candidateKey_def normalized_route_def)
  then have "r = s" using assms r(1) s(1) by (auto simp: distinct_map inj_on_def)
  then show "c = d" using r(2) s(2) by simp
qed

lemma match_permuted:
  assumes "mset routes = mset routes'" and "distinct (map mr_ID routes)"
  shows "matchCompositeRoute routes = matchCompositeRoute routes'"
proof (intro ext)
  fix model endpoint
  define cs where "cs = List.map_filter (candidateOf model endpoint) routes"
  define ds where "ds = List.map_filter (candidateOf model endpoint) routes'"
  have "mset cs = mset ds" unfolding cs_def ds_def by (rule mset_map_filter) (rule assms(1))
  then have "mset cs = mset (sort_key candidateKey ds)" by simp
  then have "sort_key candidateKey cs = sort_key candidateKey ds"
    by (rule sort_key_inj_key_eq)
      (auto simp: cs_def intro: candidates_inj [OF assms(2)])
  then show "matchCompositeRoute routes model endpoint = matchCompositeRoute routes' model endpoint"
    by (simp add: matchCompositeRoute_def cs_def ds_def)
qed

text \<open>C32: the decision for a request is the same whatever the order in which the repository
  lists the routes of the group, as long as the routes have distinct ids (which the database's
  primary key gives): the comparison of the code is a total order on them.\<close>

theorem route_order_irrelevant:
  assumes "mset routes = mset routes'" and "distinct (map mr_ID routes)"
  shows "Resolve \<lparr>cr_repo = Some (\<lambda>_. Some routes), cr_ownership = own\<rparr> g model endpoint
       = Resolve \<lparr>cr_repo = Some (\<lambda>_. Some routes'), cr_ownership = own\<rparr> g model endpoint"
proof -
  let ?r = "\<lambda>rs. \<lparr>cr_repo = Some (\<lambda>_. Some rs), cr_ownership = own\<rparr> :: CompositeRouteResolver"
  have "explicitDecision (?r routes) = explicitDecision (?r routes')"
    by (intro ext) (simp add: explicitDecision_def match_permuted [OF assms])
  moreover have "ownershipDecision (?r routes) = ownershipDecision (?r routes')"
    by (intro ext) (simp add: ownershipDecision_def)
  ultimately show ?thesis unfolding Resolve_def by (simp only:)
qed

theorem route_order_irrelevant_witness:
  "Resolve \<lparr>cr_repo = Some (\<lambda>_. Some example_routes), cr_ownership = None\<rparr> 7 ''gpt-5-mini'' ''responses''
   = Resolve \<lparr>cr_repo = Some (\<lambda>_. Some (rev example_routes)), cr_ownership = None\<rparr>
       7 ''gpt-5-mini'' ''responses''
   \<and> distinct (map mr_ID example_routes)"
  using route_order_irrelevant [of example_routes "rev example_routes" None 7 "''gpt-5-mini''" "''responses''"]
  by (simp add: example_routes_def example_route_def)

subsection \<open>Concrete targets\<close>

lemma concrete_platforms:
  "IsConcretePlatform p \<longleftrightarrow> p \<in> set ConcretePlatformIDs"
  by (auto simp: IsConcretePlatform_def LookupPlatform_def find_None_iff ConcretePlatformIDs_def
      PlatformIDsWhere_def)

lemma set_ConcretePlatformIDs:
  "set ConcretePlatformIDs =
     {PlatformAnthropic, PlatformOpenAI, PlatformGemini, PlatformAntigravity, PlatformGrok,
      PlatformKimi, PlatformZhipu, PlatformDeepseek, PlatformMiniMax, PlatformOpenCodeGo,
      PlatformTypeSafe, PlatformCommandCode, PlatformCline}"
  by (auto simp: ConcretePlatformIDs_def PlatformIDsWhere_def platformList_def platform_def)

lemma providerPlatform_concrete:
  "providerPlatform n = Some p \<Longrightarrow> p \<in> set ConcretePlatformIDs"
  by (auto simp: providerPlatform_def set_ConcretePlatformIDs split: if_splits)

lemma namePlatform_concrete:
  "namePlatform n = Some p \<Longrightarrow> p \<in> set ConcretePlatformIDs"
  by (auto simp: namePlatform_def set_ConcretePlatformIDs split: if_splits)

lemma detected_concrete:
  "DetectModelPlatform model = Some p \<Longrightarrow> IsConcretePlatform p"
  by (auto simp: DetectModelPlatform_def concrete_platforms Let_def
      dest: providerPlatform_concrete namePlatform_concrete split: if_splits option.splits)

lemma owned_concrete:
  "ownershipDecision r g model endpoint = Some (Inr d) \<Longrightarrow> rd_Matched d \<Longrightarrow>
   IsConcretePlatform (rd_TargetPlatform d)"
  by (auto simp: ownershipDecision_def undecided_def decided_def Let_def
      split: if_splits option.splits)

lemma explicit_source:
  "explicitDecision r g model endpoint = Some (Inr d) \<Longrightarrow> rd_Source d = ''route''"
  by (auto simp: explicitDecision_def decided_def split: if_splits option.splits)

text \<open>C33: a request that no explicit route decides and that is still matched goes to a concrete
  provider of the registry: neither an account's exposed model nor the detector of well-known
  names ever yields \<open>composite\<close> or an unknown platform.\<close>

theorem resolved_target_concrete:
  assumes "Resolve r g model endpoint = Inr d" and "rd_Matched d" and "rd_Source d \<noteq> ''route''"
  shows "IsConcretePlatform (rd_TargetPlatform d) \<and> rd_TargetPlatform d \<noteq> PlatformComposite"
proof -
  have "IsConcretePlatform (rd_TargetPlatform d)"
    using assms
    by (auto simp: Resolve_def Let_def undecided_def decided_def
        dest: explicit_source owned_concrete detected_concrete split: if_splits option.splits)
  moreover have "\<not> IsConcretePlatform PlatformComposite" by code_simp
  ultimately show ?thesis by metis
qed

theorem resolved_target_concrete_witness:
  "\<exists>d. Resolve \<lparr>cr_repo = None, cr_ownership = None\<rparr> 7 '' Claude-Opus '' ''messages'' = Inr d \<and>
       IsConcretePlatform (rd_TargetPlatform d) \<and> rd_TargetPlatform d \<noteq> PlatformComposite"
proof -
  have "Resolve \<lparr>cr_repo = None, cr_ownership = None\<rparr> 7 '' Claude-Opus '' ''messages''
      = Inr (decided ''detector'' 7 ''Claude-Opus'' PlatformAnthropic ''Claude-Opus'' ''messages'' None)"
    by code_simp
  moreover from resolved_target_concrete [OF this]
  have "IsConcretePlatform PlatformAnthropic \<and> PlatformAnthropic \<noteq> PlatformComposite"
    by (simp add: decided_def)
  ultimately show ?thesis by (simp add: decided_def)
qed

subsection \<open>A decision in the request context\<close>

lemma trim_in_context:
  "contextValue get (Some c) =
     (case get c of None \<Rightarrow> None | Some s \<Rightarrow> if trim_space s = [] then None else Some (trim_space s))"
  by (simp add: contextValue_def)

lemma Resolve_trimmed:
  assumes "Resolve r g model endpoint = Inr d" and "rd_Matched d"
  shows "trim_space (rd_UpstreamModel d) = rd_UpstreamModel d" and "rd_UpstreamModel d \<noteq> []"
    and "rd_PublicModel d = trim_space model" and "trim_space model \<noteq> []"
    and "rd_Source d \<in> {''route'', ''account_model'', ''detector''}"
  using assms
  by (auto simp: Resolve_def explicitDecision_def ownershipDecision_def Let_def undecided_def
      decided_def split: if_splits option.splits)

text \<open>a matched decision whose target is not blank, stored in a request context by
  \<open>WithCompositeRouteDecision\<close>, is what a later \<open>resolveCompositeRouteDecision\<close> of the same
  request finds there: the target (trimmed), the upstream model and the source come back,
  whatever the model and endpoint it then asks for and whatever the routes say by then; the
  context also carries the public model.\<close>

theorem decision_survives_context:
  assumes "Resolve r g model endpoint = Inr d" and "rd_Matched d"
    and "trim_space (rd_TargetPlatform d) \<noteq> []"
  shows "resolveCompositeRouteDecision r' (WithCompositeRouteDecision (Some c) d)
           (Some (g', PlatformComposite)) model' endpoint'
         = Some (Inr (decided (rd_Source d) g' model' (trim_space (rd_TargetPlatform d))
             (rd_UpstreamModel d) (normalizeCompositeRouteEndpoint endpoint') None)) \<and>
         RequestedPublicModelFromContext (WithCompositeRouteDecision (Some c) d) = Some (rd_PublicModel d)"
proof -
  note d = Resolve_trimmed [OF assms(1,2)]
  have src: "trim_space (rd_Source d) = rd_Source d \<and> rd_Source d \<noteq> []"
  proof -
    have "trim_space ''route'' = ''route'' \<and> trim_space ''account_model'' = ''account_model'' \<and>
          trim_space ''detector'' = ''detector''" by code_simp
    then show ?thesis using d(5) by auto
  qed
  let ?c = "c\<lparr>cx_ResolvedTargetPlatform := Some (trim_space (rd_TargetPlatform d)),
              cx_ResolvedUpstreamModel := Some (rd_UpstreamModel d),
              cx_RequestedPublicModel := Some (rd_PublicModel d),
              cx_CompositeRouteSource := Some (rd_Source d)\<rparr>"
  have "WithCompositeRouteDecision (Some c) d = Some ?c"
    using assms(2,3) d src by (simp add: WithCompositeRouteDecision_def WithResolvedTargetPlatform_def)
  then show ?thesis
    using assms(2,3) d src
    by (simp add: resolveCompositeRouteDecision_def ResolvedTargetPlatformFromContext_def
        ResolvedUpstreamModelFromContext_def CompositeRouteSourceFromContext_def
        RequestedPublicModelFromContext_def trim_in_context)
qed

definition empty_context :: request_context where
  "empty_context = \<lparr>cx_ResolvedTargetPlatform = None, cx_ResolvedUpstreamModel = None,
     cx_RequestedPublicModel = None, cx_CompositeRouteSource = None\<rparr>"

theorem decision_survives_context_witness:
  "\<exists>d. Resolve \<lparr>cr_repo = Some (\<lambda>_. Some example_routes), cr_ownership = None\<rparr> 7
         ''gpt-5-mini'' ''responses'' = Inr d \<and>
     resolveCompositeRouteDecision \<lparr>cr_repo = None, cr_ownership = None\<rparr>
       (WithCompositeRouteDecision (Some empty_context) d) (Some (7, PlatformComposite)) ''other'' ''gemini''
     = Some (Inr (decided ''route'' 7 ''other'' ''grok'' ''gpt-5-mini'' ''gemini'' None))"
proof -
  define d where "d = decided ''route'' 7 ''gpt-5-mini'' ''grok'' ''gpt-5-mini'' ''responses''
    (Some (example_route 2 ''gpt-5'' ''prefix'' ''grok''))"
  have r: "Resolve \<lparr>cr_repo = Some (\<lambda>_. Some example_routes), cr_ownership = None\<rparr> 7
         ''gpt-5-mini'' ''responses'' = Inr d"
    unfolding d_def by code_simp
  have t: "trim_space ''grok'' = ''grok''" and n: "normalizeCompositeRouteEndpoint ''gemini'' = ''gemini''"
    by code_simp+
  have "resolveCompositeRouteDecision \<lparr>cr_repo = None, cr_ownership = None\<rparr>
       (WithCompositeRouteDecision (Some empty_context) d) (Some (7, PlatformComposite)) ''other'' ''gemini''
     = Some (Inr (decided ''route'' 7 ''other'' ''grok'' ''gpt-5-mini'' ''gemini'' None))"
    using decision_survives_context [OF r, of "\<lparr>cr_repo = None, cr_ownership = None\<rparr>" empty_context 7
        "''other''" "''gemini''"]
    by (simp add: d_def decided_def t n)
  then show ?thesis using r by blast
qed

subsection \<open>The Codex catalog\<close>

lemma normalize_responses: "normalizeCompositeRouteEndpoint ''responses'' = ''responses''"
  by code_simp

lemma explicit_route_decides:
  assumes "Resolve \<lparr>cr_repo = Some (\<lambda>_. Some routes), cr_ownership = own\<rparr> g model endpoint = Inr d"
    and "rd_Matched d" and "rd_Source d = ''route''" and "trim_space model = model"
  shows "map_option mr_TargetPlatform
           (matchCompositeRoute routes model (normalizeCompositeRouteEndpoint endpoint))
         = Some (rd_TargetPlatform d)"
  using assms
  by (auto simp: Resolve_def explicitDecision_def ownershipDecision_def Let_def undecided_def
      decided_def split: if_splits option.splits)

lemma explicit_route_found:
  assumes "matchCompositeRoute routes model (normalizeCompositeRouteEndpoint endpoint) = Some route"
    and "0 < g" and "trim_space model = model" and "model \<noteq> []"
  shows "\<exists>d. Resolve \<lparr>cr_repo = Some (\<lambda>_. Some routes), cr_ownership = own\<rparr> g model endpoint = Inr d \<and>
           rd_Matched d \<and> rd_Source d = ''route'' \<and> rd_TargetPlatform d = mr_TargetPlatform route"
  using assms by (simp add: Resolve_def explicitDecision_def decided_def Let_def)

text \<open>The Codex catalog of a group hides exactly the models that a Responses request would
  be routed to the TypeSafe (System One) platform for: \<open>FilterCodexModels\<close> and \<open>Resolve\<close> agree
  on every trimmed, non-empty model name.\<close>

theorem codex_catalog_agrees:
  assumes "0 < g" and "trim_space m = m" and "m \<noteq> []"
  shows "\<exists>kept. FilterCodexModels \<lparr>cr_repo = Some (\<lambda>_. Some routes), cr_ownership = own\<rparr> g models = Some kept \<and>
     (m \<in> set kept \<longleftrightarrow> m \<in> set models \<and>
        \<not> (\<exists>d. Resolve \<lparr>cr_repo = Some (\<lambda>_. Some routes), cr_ownership = own\<rparr> g m ''responses'' = Inr d \<and>
               rd_Matched d \<and> rd_Source d = ''route'' \<and> rd_TargetPlatform d = PlatformTypeSafe))"
proof -
  let ?r = "\<lparr>cr_repo = Some (\<lambda>_. Some routes), cr_ownership = own\<rparr> :: CompositeRouteResolver"
  let ?hit = "map_option mr_TargetPlatform (matchCompositeRoute routes m ''responses'')"
  have k: "FilterCodexModels ?r g models = Some (filterSystemOneRouteModels routes models ''responses'')"
    using assms(1) by (simp add: FilterCodexModels_def)
  have "m \<in> set (filterSystemOneRouteModels routes models ''responses'') \<longleftrightarrow>
        m \<in> set models \<and> ?hit \<noteq> Some PlatformTypeSafe"
    by (auto simp: filterSystemOneRouteModels_def normalize_responses split: option.splits)
  moreover have "?hit = Some PlatformTypeSafe \<longleftrightarrow>
      (\<exists>d. Resolve ?r g m ''responses'' = Inr d \<and> rd_Matched d \<and> rd_Source d = ''route'' \<and>
           rd_TargetPlatform d = PlatformTypeSafe)"
  proof
    assume "?hit = Some PlatformTypeSafe"
    then obtain route where "matchCompositeRoute routes m ''responses'' = Some route"
      and "mr_TargetPlatform route = PlatformTypeSafe" by auto
    then show "\<exists>d. Resolve ?r g m ''responses'' = Inr d \<and> rd_Matched d \<and> rd_Source d = ''route'' \<and>
           rd_TargetPlatform d = PlatformTypeSafe"
      using explicit_route_found [of routes m "''responses''" route g own] assms
      by (simp add: normalize_responses)
  next
    assume "\<exists>d. Resolve ?r g m ''responses'' = Inr d \<and> rd_Matched d \<and> rd_Source d = ''route'' \<and>
           rd_TargetPlatform d = PlatformTypeSafe"
    then show "?hit = Some PlatformTypeSafe"
      using explicit_route_decides [of routes own g m "''responses''"] assms
      by (auto simp: normalize_responses)
  qed
  ultimately show ?thesis using k by metis
qed

theorem codex_catalog_agrees_witness:
  "\<exists>kept. FilterCodexModels \<lparr>cr_repo = Some (\<lambda>_. Some example_routes), cr_ownership = None\<rparr> 7
            [''gpt-5-jev''] = Some kept \<and>
     (''gpt-5-jev'' \<in> set kept \<longleftrightarrow> ''gpt-5-jev'' \<in> set [''gpt-5-jev''] \<and>
        \<not> (\<exists>d. Resolve \<lparr>cr_repo = Some (\<lambda>_. Some example_routes), cr_ownership = None\<rparr> 7
                 ''gpt-5-jev'' ''responses'' = Inr d \<and>
               rd_Matched d \<and> rd_Source d = ''route'' \<and> rd_TargetPlatform d = PlatformTypeSafe))"
proof -
  have "trim_space ''gpt-5-jev'' = ''gpt-5-jev''" by code_simp
  then show ?thesis
    by (intro codex_catalog_agrees) simp_all
qed

end
