(* ===== verification/Subscriptions.thy ===== *)
theory Subscriptions
  imports GoPrelude Complex_Main
begin

text \<open>
  The usage windows of subscriptions: \<open>service/user_subscription.go\<close>, the window part of
  \<open>service/subscription_service.go\<close> and the conditional updates of
  \<open>repository/user_subscription_repo.go\<close>.

  Midnight and the next calendar day depend on the time zone data, so they are functions of
  the record \<open>calendar\<close>. A \<open>float64\<close> amount is the real number it stands for; \<open>fl\<close> rounds the
  result of an addition to the nearest one. The table holds the rows that are not deleted, and
  its operations fail only where the row is missing. Columns and fields that no modelled
  operation reads are left out, and so are the caches.
\<close>

subsection \<open>Subscriptions and groups\<close>

record calendar =
  cal_StartOfDay :: "gotime \<Rightarrow> gotime"
  cal_startOfDay :: "gotime \<Rightarrow> gotime"
  cal_NextDay :: "gotime \<Rightarrow> gotime"

record UserSubscription =
  us_ID :: int
  us_StartsAt :: gotime
  us_ExpiresAt :: gotime
  us_Status :: gostring
  us_DailyWindowStart :: "gotime option"
  us_WeeklyWindowStart :: "gotime option"
  us_MonthlyWindowStart :: "gotime option"
  us_DailyUsageUSD :: real
  us_WeeklyUsageUSD :: real
  us_MonthlyUsageUSD :: real

record group_limits =
  gl_DailyLimitUSD :: "real option"
  gl_WeeklyLimitUSD :: "real option"
  gl_MonthlyLimitUSD :: "real option"

definition SubscriptionStatusActive :: gostring where "SubscriptionStatusActive = ''active''"
definition SubscriptionStatusExpired :: gostring where "SubscriptionStatusExpired = ''expired''"
definition SubscriptionStatusSuspended :: gostring where "SubscriptionStatusSuspended = ''suspended''"

lemmas subscription_status_defs = SubscriptionStatusActive_def SubscriptionStatusExpired_def
  SubscriptionStatusSuspended_def

definition subscriptionDayDuration :: goduration where "subscriptionDayDuration = 24 * hour"
definition weekPeriod :: goduration where "weekPeriod = 7 * (24 * hour)"
definition monthPeriod :: goduration where "monthPeriod = 30 * (24 * hour)"

definition IsActive :: "UserSubscription \<Rightarrow> gotime \<Rightarrow> bool" where
  "IsActive s now \<longleftrightarrow> us_Status s = SubscriptionStatusActive \<and> now < us_ExpiresAt s"

definition IsExpired :: "UserSubscription \<Rightarrow> gotime \<Rightarrow> bool" where
  "IsExpired s now \<longleftrightarrow> us_ExpiresAt s < now"

definition daysRemainingAt :: "UserSubscription \<Rightarrow> gotime \<Rightarrow> int" where
  "daysRemainingAt s now =
     (let remaining = time_sub (us_ExpiresAt s) now in
      if remaining \<le> 0 then 0
      else quot remaining subscriptionDayDuration +
        (if remaining mod subscriptionDayDuration \<noteq> 0 then 1 else 0))"

definition IsWindowActivated :: "UserSubscription \<Rightarrow> bool" where
  "IsWindowActivated s \<longleftrightarrow>
     us_DailyWindowStart s \<noteq> None \<or> us_WeeklyWindowStart s \<noteq> None \<or> us_MonthlyWindowStart s \<noteq> None"

definition HasOneTimeDailyQuota :: "calendar \<Rightarrow> UserSubscription \<Rightarrow> bool" where
  "HasOneTimeDailyQuota cal s \<longleftrightarrow>
     \<not> (time_is_zero (us_StartsAt s) \<or> time_is_zero (us_ExpiresAt s)) \<and>
     \<not> cal_NextDay cal (us_StartsAt s) < us_ExpiresAt s"

subsection \<open>The current window\<close>

definition automaticDailyWindowStartAt :: "calendar \<Rightarrow> UserSubscription \<Rightarrow> gotime \<Rightarrow> gotime option" where
  "automaticDailyWindowStartAt cal s now =
     (case us_DailyWindowStart s of
        None \<Rightarrow> None
      | Some w \<Rightarrow>
          if HasOneTimeDailyQuota cal s then None
          else if \<not> cal_StartOfDay cal w < cal_StartOfDay cal now then None
          else Some (cal_StartOfDay cal now))"

definition windowResetAnchor :: "calendar \<Rightarrow> UserSubscription \<Rightarrow> gotime \<Rightarrow> gotime" where
  "windowResetAnchor cal s previous =
     (let legacyAnchor = cal_startOfDay cal (us_StartsAt s) in
      if legacyAnchor < us_StartsAt s \<and> previous = legacyAnchor then us_StartsAt s else previous)"

definition automaticWindowStartAt ::
  "calendar \<Rightarrow> UserSubscription \<Rightarrow> gotime option \<Rightarrow> goduration \<Rightarrow> gotime \<Rightarrow> gotime option" where
  "automaticWindowStartAt cal s previous period now =
     (case previous of
        None \<Rightarrow> None
      | Some p \<Rightarrow>
          (let anchor = windowResetAnchor cal s p;
               next_start = time_add anchor period in
           if now < next_start \<or> \<not> next_start < us_ExpiresAt s then None
           else
             let periods = quot (time_sub now anchor) period;
                 lastPeriodBeforeExpiry = quot (time_sub (us_ExpiresAt s) anchor - 1) period;
                 periods = (if lastPeriodBeforeExpiry < periods then lastPeriodBeforeExpiry else periods)
             in Some (time_add anchor (wrap64 (periods * period)))))"

definition canAutomaticallyResetDailyAt :: "calendar \<Rightarrow> UserSubscription \<Rightarrow> gotime \<Rightarrow> bool" where
  "canAutomaticallyResetDailyAt cal s now \<longleftrightarrow> automaticDailyWindowStartAt cal s now \<noteq> None"

definition canAutomaticallyResetWeeklyAt :: "calendar \<Rightarrow> UserSubscription \<Rightarrow> gotime \<Rightarrow> bool" where
  "canAutomaticallyResetWeeklyAt cal s now \<longleftrightarrow>
     automaticWindowStartAt cal s (us_WeeklyWindowStart s) weekPeriod now \<noteq> None"

definition canAutomaticallyResetMonthlyAt :: "calendar \<Rightarrow> UserSubscription \<Rightarrow> gotime \<Rightarrow> bool" where
  "canAutomaticallyResetMonthlyAt cal s now \<longleftrightarrow>
     automaticWindowStartAt cal s (us_MonthlyWindowStart s) monthPeriod now \<noteq> None"

definition NeedsDailyResetAt :: "calendar \<Rightarrow> UserSubscription \<Rightarrow> gotime \<Rightarrow> bool" where
  "NeedsDailyResetAt cal s now \<longleftrightarrow> automaticDailyWindowStartAt cal s now \<noteq> None"

definition NeedsWeeklyResetAt :: "UserSubscription \<Rightarrow> gotime \<Rightarrow> bool" where
  "NeedsWeeklyResetAt s now =
     (case us_WeeklyWindowStart s of None \<Rightarrow> False | Some w \<Rightarrow> \<not> now < time_add w weekPeriod)"

definition NeedsMonthlyResetAt :: "UserSubscription \<Rightarrow> gotime \<Rightarrow> bool" where
  "NeedsMonthlyResetAt s now =
     (case us_MonthlyWindowStart s of None \<Rightarrow> False | Some w \<Rightarrow> \<not> now < time_add w monthPeriod)"

definition DailyResetTime :: "calendar \<Rightarrow> UserSubscription \<Rightarrow> gotime option" where
  "DailyResetTime cal s =
     (case us_DailyWindowStart s of
        None \<Rightarrow> None
      | Some w \<Rightarrow> Some (if HasOneTimeDailyQuota cal s then us_ExpiresAt s
                       else cal_NextDay cal (cal_StartOfDay cal w)))"

definition WeeklyResetTime :: "calendar \<Rightarrow> UserSubscription \<Rightarrow> gotime option" where
  "WeeklyResetTime cal s =
     map_option (\<lambda>w. time_add (windowResetAnchor cal s w) weekPeriod) (us_WeeklyWindowStart s)"

definition MonthlyResetTime :: "calendar \<Rightarrow> UserSubscription \<Rightarrow> gotime option" where
  "MonthlyResetTime cal s =
     map_option (\<lambda>w. time_add (windowResetAnchor cal s w) monthPeriod) (us_MonthlyWindowStart s)"

subsection \<open>Limits\<close>

definition HasDailyLimit :: "group_limits \<Rightarrow> bool" where
  "HasDailyLimit g = (case gl_DailyLimitUSD g of None \<Rightarrow> False | Some l \<Rightarrow> 0 < l)"

definition HasWeeklyLimit :: "group_limits \<Rightarrow> bool" where
  "HasWeeklyLimit g = (case gl_WeeklyLimitUSD g of None \<Rightarrow> False | Some l \<Rightarrow> 0 < l)"

definition HasMonthlyLimit :: "group_limits \<Rightarrow> bool" where
  "HasMonthlyLimit g = (case gl_MonthlyLimitUSD g of None \<Rightarrow> False | Some l \<Rightarrow> 0 < l)"

definition CheckDailyLimit ::
  "(real \<Rightarrow> real) \<Rightarrow> UserSubscription \<Rightarrow> group_limits \<Rightarrow> real \<Rightarrow> bool" where
  "CheckDailyLimit fl s g additionalCost \<longleftrightarrow>
     \<not> HasDailyLimit g \<or> fl (us_DailyUsageUSD s + additionalCost) \<le> the (gl_DailyLimitUSD g)"

definition CheckWeeklyLimit ::
  "(real \<Rightarrow> real) \<Rightarrow> UserSubscription \<Rightarrow> group_limits \<Rightarrow> real \<Rightarrow> bool" where
  "CheckWeeklyLimit fl s g additionalCost \<longleftrightarrow>
     \<not> HasWeeklyLimit g \<or> fl (us_WeeklyUsageUSD s + additionalCost) \<le> the (gl_WeeklyLimitUSD g)"

definition CheckMonthlyLimit ::
  "(real \<Rightarrow> real) \<Rightarrow> UserSubscription \<Rightarrow> group_limits \<Rightarrow> real \<Rightarrow> bool" where
  "CheckMonthlyLimit fl s g additionalCost \<longleftrightarrow>
     \<not> HasMonthlyLimit g \<or> fl (us_MonthlyUsageUSD s + additionalCost) \<le> the (gl_MonthlyLimitUSD g)"

definition CheckAllLimits ::
  "(real \<Rightarrow> real) \<Rightarrow> UserSubscription \<Rightarrow> group_limits \<Rightarrow> real \<Rightarrow> bool \<times> bool \<times> bool" where
  "CheckAllLimits fl s g additionalCost =
     (CheckDailyLimit fl s g additionalCost, CheckWeeklyLimit fl s g additionalCost,
      CheckMonthlyLimit fl s g additionalCost)"

datatype sub_error = SubscriptionExpired | SubscriptionSuspended | SubscriptionNotFound
  | DailyLimitExceeded | WeeklyLimitExceeded | MonthlyLimitExceeded | InvalidInput

definition CheckUsageLimits ::
  "(real \<Rightarrow> real) \<Rightarrow> UserSubscription \<Rightarrow> group_limits \<Rightarrow> real \<Rightarrow> sub_error option" where
  "CheckUsageLimits fl s g additionalCost =
     (if \<not> CheckDailyLimit fl s g additionalCost then Some DailyLimitExceeded
      else if \<not> CheckWeeklyLimit fl s g additionalCost then Some WeeklyLimitExceeded
      else if \<not> CheckMonthlyLimit fl s g additionalCost then Some MonthlyLimitExceeded
      else None)"

text \<open>The usage of finished windows does not count any more.\<close>

definition forgetFinished :: "calendar \<Rightarrow> gotime \<Rightarrow> UserSubscription \<Rightarrow> UserSubscription" where
  "forgetFinished cal now s =
     s\<lparr>us_DailyUsageUSD := (if canAutomaticallyResetDailyAt cal s now then 0 else us_DailyUsageUSD s),
       us_WeeklyUsageUSD := (if canAutomaticallyResetWeeklyAt cal s now then 0 else us_WeeklyUsageUSD s),
       us_MonthlyUsageUSD := (if canAutomaticallyResetMonthlyAt cal s now then 0 else us_MonthlyUsageUSD s)\<rparr>"

text \<open>\<open>ValidateAndCheckLimits\<close>: needs maintenance, error, and the subscription it corrected.\<close>

definition ValidateAndCheckLimits ::
  "(real \<Rightarrow> real) \<Rightarrow> calendar \<Rightarrow> gotime \<Rightarrow> UserSubscription \<Rightarrow> group_limits \<Rightarrow>
   bool \<times> sub_error option \<times> UserSubscription" where
  "ValidateAndCheckLimits fl cal now s g =
     (if us_Status s = SubscriptionStatusExpired then (False, Some SubscriptionExpired, s)
      else if us_Status s = SubscriptionStatusSuspended then (False, Some SubscriptionSuspended, s)
      else if \<not> now < us_ExpiresAt s then (False, Some SubscriptionExpired, s)
      else
        (canAutomaticallyResetDailyAt cal s now \<or> canAutomaticallyResetWeeklyAt cal s now \<or>
           canAutomaticallyResetMonthlyAt cal s now \<or> \<not> IsWindowActivated s,
         CheckUsageLimits fl (forgetFinished cal now s) g 0,
         forgetFinished cal now s))"

definition normalizeExpiredWindowsAt ::
  "calendar \<Rightarrow> gotime \<Rightarrow> UserSubscription list \<Rightarrow> UserSubscription list" where
  "normalizeExpiredWindowsAt cal now subs =
     map (\<lambda>s.
       let s1 = (if canAutomaticallyResetDailyAt cal s now
                 then s\<lparr>us_DailyWindowStart := None, us_DailyUsageUSD := 0\<rparr> else s);
           s2 = (if canAutomaticallyResetWeeklyAt cal s1 now
                 then s1\<lparr>us_WeeklyWindowStart := None, us_WeeklyUsageUSD := 0\<rparr> else s1)
       in if canAutomaticallyResetMonthlyAt cal s2 now
          then s2\<lparr>us_MonthlyWindowStart := None, us_MonthlyUsageUSD := 0\<rparr> else s2) subs"

definition normalizeSubscriptionStatus :: "gotime \<Rightarrow> UserSubscription list \<Rightarrow> UserSubscription list" where
  "normalizeSubscriptionStatus now subs =
     map (\<lambda>s. if us_Status s = SubscriptionStatusActive \<and> \<not> now < us_ExpiresAt s
              then s\<lparr>us_Status := SubscriptionStatusExpired\<rparr> else s) subs"

subsection \<open>The table\<close>

type_synonym sub_table = "UserSubscription list"

definition GetByID :: "int \<Rightarrow> sub_table \<Rightarrow> sub_error + UserSubscription" where
  "GetByID i t = (case find (\<lambda>r. us_ID r = i) t of None \<Rightarrow> Inl SubscriptionNotFound | Some r \<Rightarrow> Inr r)"

text \<open>
  A conditional update. Where no row matches it is a no-op, and an error only if there is no
  row with this id at all.
\<close>

definition conditionalUpdate ::
  "int \<Rightarrow> (UserSubscription \<Rightarrow> bool) \<Rightarrow> (UserSubscription \<Rightarrow> UserSubscription) \<Rightarrow> sub_table \<Rightarrow>
   sub_error option \<times> sub_table" where
  "conditionalUpdate i p f t =
     (if list_ex (\<lambda>r. us_ID r = i \<and> p r) t
      then (None, map (\<lambda>r. if us_ID r = i \<and> p r then f r else r) t)
      else if list_ex (\<lambda>r. us_ID r = i) t then (None, t)
      else (Some SubscriptionNotFound, t))"

definition ActivateWindows :: "int \<Rightarrow> gotime \<Rightarrow> gotime \<Rightarrow> sub_table \<Rightarrow> sub_error option \<times> sub_table" where
  "ActivateWindows i dailyStart periodicStart =
     conditionalUpdate i (\<lambda>r. \<not> IsWindowActivated r)
       (\<lambda>r. r\<lparr>us_DailyWindowStart := Some dailyStart, us_WeeklyWindowStart := Some periodicStart,
              us_MonthlyWindowStart := Some periodicStart\<rparr>)"

definition ResetDailyUsage :: "int \<Rightarrow> gotime option \<Rightarrow> gotime \<Rightarrow> sub_table \<Rightarrow> sub_error option \<times> sub_table" where
  "ResetDailyUsage i expected newStart =
     conditionalUpdate i (\<lambda>r. us_DailyWindowStart r = expected)
       (\<lambda>r. r\<lparr>us_DailyUsageUSD := 0, us_DailyWindowStart := Some newStart\<rparr>)"

definition ResetWeeklyUsage :: "int \<Rightarrow> gotime option \<Rightarrow> gotime \<Rightarrow> sub_table \<Rightarrow> sub_error option \<times> sub_table" where
  "ResetWeeklyUsage i expected newStart =
     conditionalUpdate i (\<lambda>r. us_WeeklyWindowStart r = expected)
       (\<lambda>r. r\<lparr>us_WeeklyUsageUSD := 0, us_WeeklyWindowStart := Some newStart\<rparr>)"

definition ResetMonthlyUsage :: "int \<Rightarrow> gotime option \<Rightarrow> gotime \<Rightarrow> sub_table \<Rightarrow> sub_error option \<times> sub_table" where
  "ResetMonthlyUsage i expected newStart =
     conditionalUpdate i (\<lambda>r. us_MonthlyWindowStart r = expected)
       (\<lambda>r. r\<lparr>us_MonthlyUsageUSD := 0, us_MonthlyWindowStart := Some newStart\<rparr>)"

definition ResetUsageWindows ::
  "int \<Rightarrow> bool \<Rightarrow> bool \<Rightarrow> bool \<Rightarrow> gotime \<Rightarrow> gotime \<Rightarrow> sub_table \<Rightarrow> sub_error option \<times> sub_table" where
  "ResetUsageWindows i resetDaily resetWeekly resetMonthly dailyStart periodicStart =
     conditionalUpdate i (\<lambda>_. True)
       ((\<lambda>r. if resetMonthly then r\<lparr>us_MonthlyUsageUSD := 0, us_MonthlyWindowStart := Some periodicStart\<rparr> else r) \<circ>
        (\<lambda>r. if resetWeekly then r\<lparr>us_WeeklyUsageUSD := 0, us_WeeklyWindowStart := Some periodicStart\<rparr> else r) \<circ>
        (\<lambda>r. if resetDaily then r\<lparr>us_DailyUsageUSD := 0, us_DailyWindowStart := Some dailyStart\<rparr> else r))"

text \<open>
  The columns are \<open>numeric\<close>: the database adds them with \<open>numeric_add\<close>. \<open>groupLive\<close> says
  whether the subscription's group is in the table of groups and not deleted.
\<close>

definition IncrementUsage ::
  "(real \<Rightarrow> real \<Rightarrow> real) \<Rightarrow> (int \<Rightarrow> bool) \<Rightarrow> int \<Rightarrow> real \<Rightarrow> sub_table \<Rightarrow> sub_error option \<times> sub_table" where
  "IncrementUsage numeric_add groupLive i costUSD t =
     (if list_ex (\<lambda>r. us_ID r = i \<and> groupLive (us_ID r)) t
      then (None, map (\<lambda>r. if us_ID r = i \<and> groupLive (us_ID r)
              then r\<lparr>us_DailyUsageUSD := numeric_add (us_DailyUsageUSD r) costUSD,
                     us_WeeklyUsageUSD := numeric_add (us_WeeklyUsageUSD r) costUSD,
                     us_MonthlyUsageUSD := numeric_add (us_MonthlyUsageUSD r) costUSD\<rparr>
              else r) t)
      else (Some SubscriptionNotFound, t))"

subsection \<open>Maintenance\<close>

definition checkAndActivateWindowAt ::
  "calendar \<Rightarrow> UserSubscription \<Rightarrow> gotime \<Rightarrow> sub_table \<Rightarrow> sub_error option \<times> sub_table" where
  "checkAndActivateWindowAt cal s now t =
     (if IsWindowActivated s then (None, t)
      else ActivateWindows (us_ID s) (cal_StartOfDay cal now) now t)"

definition AdminResetQuota ::
  "calendar \<Rightarrow> int \<Rightarrow> bool \<Rightarrow> bool \<Rightarrow> bool \<Rightarrow> gotime \<Rightarrow> sub_table \<Rightarrow>
   (sub_error + UserSubscription) \<times> sub_table" where
  "AdminResetQuota cal i resetDaily resetWeekly resetMonthly now t =
     (if \<not> resetDaily \<and> \<not> resetWeekly \<and> \<not> resetMonthly then (Inl InvalidInput, t)
      else
        (case GetByID i t of
           Inl e \<Rightarrow> (Inl e, t)
         | Inr s \<Rightarrow>
             (case ResetUsageWindows (us_ID s) resetDaily resetWeekly resetMonthly
                     (cal_StartOfDay cal now) now t of
                (Some e, t1) \<Rightarrow> (Inl e, t1)
              | (None, t1) \<Rightarrow> (GetByID i t1, t1))))"

text \<open>One window: the conditional update, then the copy in memory.\<close>

definition resetDailyStep ::
  "calendar \<Rightarrow> gotime \<Rightarrow> UserSubscription \<Rightarrow> sub_table \<Rightarrow> (sub_error + UserSubscription) \<times> sub_table" where
  "resetDailyStep cal now s t =
     (case automaticDailyWindowStartAt cal s now of
        None \<Rightarrow> (Inr s, t)
      | Some w \<Rightarrow>
          (case ResetDailyUsage (us_ID s) (us_DailyWindowStart s) w t of
             (Some e, t1) \<Rightarrow> (Inl e, t1)
           | (None, t1) \<Rightarrow> (Inr (s\<lparr>us_DailyWindowStart := Some w, us_DailyUsageUSD := 0\<rparr>), t1)))"

definition resetWeeklyStep ::
  "calendar \<Rightarrow> gotime \<Rightarrow> UserSubscription \<Rightarrow> sub_table \<Rightarrow> (sub_error + UserSubscription) \<times> sub_table" where
  "resetWeeklyStep cal now s t =
     (case automaticWindowStartAt cal s (us_WeeklyWindowStart s) weekPeriod now of
        None \<Rightarrow> (Inr s, t)
      | Some w \<Rightarrow>
          (case ResetWeeklyUsage (us_ID s) (us_WeeklyWindowStart s) w t of
             (Some e, t1) \<Rightarrow> (Inl e, t1)
           | (None, t1) \<Rightarrow> (Inr (s\<lparr>us_WeeklyWindowStart := Some w, us_WeeklyUsageUSD := 0\<rparr>), t1)))"

definition resetMonthlyStep ::
  "calendar \<Rightarrow> gotime \<Rightarrow> UserSubscription \<Rightarrow> sub_table \<Rightarrow> (sub_error + UserSubscription) \<times> sub_table" where
  "resetMonthlyStep cal now s t =
     (case automaticWindowStartAt cal s (us_MonthlyWindowStart s) monthPeriod now of
        None \<Rightarrow> (Inr s, t)
      | Some w \<Rightarrow>
          (case ResetMonthlyUsage (us_ID s) (us_MonthlyWindowStart s) w t of
             (Some e, t1) \<Rightarrow> (Inl e, t1)
           | (None, t1) \<Rightarrow> (Inr (s\<lparr>us_MonthlyWindowStart := Some w, us_MonthlyUsageUSD := 0\<rparr>), t1)))"

definition thenStep ::
  "(sub_error + UserSubscription) \<times> sub_table \<Rightarrow>
   (UserSubscription \<Rightarrow> sub_table \<Rightarrow> (sub_error + UserSubscription) \<times> sub_table) \<Rightarrow>
   (sub_error + UserSubscription) \<times> sub_table" where
  "thenStep r f = (case r of (Inl e, t) \<Rightarrow> (Inl e, t) | (Inr s, t) \<Rightarrow> f s t)"

definition CheckAndResetWindows ::
  "calendar \<Rightarrow> gotime \<Rightarrow> UserSubscription \<Rightarrow> sub_table \<Rightarrow> (sub_error + UserSubscription) \<times> sub_table" where
  "CheckAndResetWindows cal now s t =
     thenStep (thenStep (resetDailyStep cal now s t) (resetWeeklyStep cal now)) (resetMonthlyStep cal now)"

text \<open>The two readings of the clock are \<open>now1\<close> and \<open>now2\<close>.\<close>

definition EnsureWindowMaintenance ::
  "calendar \<Rightarrow> gotime \<Rightarrow> gotime \<Rightarrow> UserSubscription \<Rightarrow> sub_table \<Rightarrow>
   (sub_error + UserSubscription) \<times> sub_table" where
  "EnsureWindowMaintenance cal now1 now2 s t =
     (case checkAndActivateWindowAt cal s now1 t of
        (Some e, t1) \<Rightarrow> (Inl e, t1)
      | (None, t1) \<Rightarrow>
          (case CheckAndResetWindows cal now2 s t1 of
             (Inl e, t2) \<Rightarrow> (Inl e, t2)
           | (Inr _, t2) \<Rightarrow> (GetByID (us_ID s) t2, t2)))"

end
