(* ===== verification/SubscriptionProofs.thy ===== *)
theory SubscriptionProofs
  imports Subscriptions
begin

text \<open>
  Properties of the usage windows: where an automatic reset puts a window, how many resets a
  subscription can get before it expires, that maintenance settles all windows, that a request
  with a stale snapshot never wipes usage, and that the check in memory agrees with the check
  of the maintained row.
\<close>

subsection \<open>Where a window starts\<close>

lemma windowResetAnchor_ge: "p \<le> windowResetAnchor cal s p"
  by (simp add: windowResetAnchor_def Let_def)

lemma quot_steps:
  assumes "0 < (b :: int)" and "b \<le> a"
  shows "1 \<le> quot a b \<and> quot a b * b \<le> a \<and> a < (quot a b + 1) * b"
proof -
  define q m where "q = a div b" and "m = a mod b"
  have "quot a b = q" using assms by (simp add: quot_def q_def)
  moreover have "b div b \<le> q" unfolding q_def using assms by (intro zdiv_mono1) simp_all
  moreover have "q * b + m = a" by (simp add: q_def m_def)
  moreover have "0 \<le> m" "m < b" using assms by (simp_all add: m_def)
  ultimately show ?thesis using assms by (simp add: distrib_right)
qed

text \<open>The new start is the last one that is neither after \<open>now\<close> nor at or after the expiry.\<close>

lemma automatic_window:
  assumes "automaticWindowStartAt cal s (Some p) period now = Some w" and "0 < period"
    and "now - p < 2 ^ 63" and "us_ExpiresAt s - p < 2 ^ 63"
  shows "\<exists>k \<ge> 1. w = windowResetAnchor cal s p + k * period \<and> w \<le> now \<and> w < us_ExpiresAt s \<and>
           (now < w + period \<or> us_ExpiresAt s \<le> w + period)"
proof -
  define a where "a = windowResetAnchor cal s p"
  have pa: "p \<le> a" unfolding a_def by (rule windowResetAnchor_ge)
  have n1: "\<not> now < a + period" and n2: "a + period < us_ExpiresAt s"
    using assms(1) by (auto simp: automaticWindowStartAt_def Let_def time_add_def a_def split: if_splits)
  have d1: "time_sub now a = now - a"
    using n1 pa assms(2,3) by (intro time_sub_exact) (simp add: in64_def)
  have d2: "time_sub (us_ExpiresAt s) a = us_ExpiresAt s - a"
    using n2 pa assms(2,4) by (intro time_sub_exact) (simp add: in64_def)
  define k1 where "k1 = quot (now - a) period"
  define k2 where "k2 = quot (us_ExpiresAt s - a - 1) period"
  have k1: "1 \<le> k1 \<and> k1 * period \<le> now - a \<and> now - a < (k1 + 1) * period"
    unfolding k1_def by (rule quot_steps) (use n1 assms(2) in simp_all)
  have k2: "1 \<le> k2 \<and> k2 * period \<le> us_ExpiresAt s - a - 1 \<and> us_ExpiresAt s - a - 1 < (k2 + 1) * period"
    unfolding k2_def by (rule quot_steps) (use n2 assms(2) in simp_all)
  define k where "k = (if k2 < k1 then k2 else k1)"
  have le: "k * period \<le> k1 * period" "k * period \<le> k2 * period"
    using assms(2) by (auto simp: k_def intro: mult_right_mono)
  have "1 \<le> k" using k1 k2 by (simp add: k_def)
  then have "0 \<le> k * period" using assms(2) by simp
  then have wr: "wrap64 (k * period) = k * period"
    using k1 le(1) pa assms(3) by (intro wrap64_id) (simp add: in64_def)
  have "w = a + wrap64 (k * period)"
    using assms(1) n1 n2 by (simp add: automaticWindowStartAt_def Let_def time_add_def
        a_def [symmetric] d1 d2 k1_def [symmetric] k2_def [symmetric] k_def)
  then have w: "w = a + k * period" by (simp add: wr)
  have "now < w + period \<or> us_ExpiresAt s \<le> w + period"
    using k1 k2 w by (auto simp: k_def algebra_simps)
  moreover have "w \<le> now" "w < us_ExpiresAt s" using w le k1 k2 by simp_all
  ultimately show ?thesis using \<open>1 \<le> k\<close> w a_def by auto
qed

lemma automatic_settled:
  assumes "automaticWindowStartAt cal s (Some p) period now = Some w" and "0 < period"
    and "now - p < 2 ^ 63" and "us_ExpiresAt s - p < 2 ^ 63"
  shows "automaticWindowStartAt cal s (Some w) period now = None"
  using automatic_window [OF assms] windowResetAnchor_ge [of w cal s]
  by (auto simp: automaticWindowStartAt_def Let_def time_add_def)

lemma period_pos [simp]: "0 < weekPeriod" "0 < monthPeriod"
  by (simp_all add: weekPeriod_def monthPeriod_def go_simps)

text \<open>The automatic start depends on the lifetime of the subscription only.\<close>

lemma automatic_same:
  assumes "us_StartsAt s' = us_StartsAt s" and "us_ExpiresAt s' = us_ExpiresAt s"
  shows "automaticWindowStartAt cal s' = automaticWindowStartAt cal s"
  unfolding fun_eq_iff automaticWindowStartAt_def windowResetAnchor_def assms by simp

lemma automatic_daily_same:
  assumes "us_StartsAt s' = us_StartsAt s" and "us_ExpiresAt s' = us_ExpiresAt s"
    and "us_DailyWindowStart s' = us_DailyWindowStart s"
  shows "automaticDailyWindowStartAt cal s' = automaticDailyWindowStartAt cal s"
  unfolding fun_eq_iff automaticDailyWindowStartAt_def HasOneTimeDailyQuota_def assms by simp

subsection \<open>Rows and conditional updates\<close>

lemma conditionalUpdate_row:
  assumes "GetByID i t = Inr r" and "\<And>r. us_ID (f r) = us_ID r"
  shows "fst (conditionalUpdate i p f t) = None"
    and "GetByID i (snd (conditionalUpdate i p f t)) = Inr (if p r then f r else r)"
    and "j \<noteq> i \<Longrightarrow> GetByID j (snd (conditionalUpdate i p f t)) = GetByID j t"
proof -
  have ex: "list_ex (\<lambda>r. us_ID r = i) t"
    using assms(1) by (auto simp: GetByID_def find_Some_iff list_ex_length split: option.splits)
  then show "fst (conditionalUpdate i p f t) = None" by (simp add: conditionalUpdate_def)
  have row: "find (\<lambda>r. us_ID r = j) (map (\<lambda>r. if us_ID r = i \<and> p r then f r else r) t) =
      map_option (\<lambda>r. if us_ID r = i \<and> p r then f r else r) (find (\<lambda>r. us_ID r = j) t)" for j
    by (induction t) (simp_all add: assms(2))
  have fi: "find (\<lambda>r. us_ID r = i) t = Some r"
    using assms(1) by (simp add: GetByID_def split: option.splits)
  then have "us_ID r = i" by (auto simp: find_Some_iff)
  moreover have "p r \<Longrightarrow> list_ex (\<lambda>r. us_ID r = i \<and> p r) t"
    using fi by (auto simp: find_Some_iff list_ex_length)
  ultimately show "GetByID i (snd (conditionalUpdate i p f t)) = Inr (if p r then f r else r)"
    using ex fi by (auto simp: conditionalUpdate_def GetByID_def row)
  show "GetByID j (snd (conditionalUpdate i p f t)) = GetByID j t" if "j \<noteq> i"
  proof (cases "find (\<lambda>r. us_ID r = j) t")
    case None
    then show ?thesis using row [of j] by (simp add: conditionalUpdate_def GetByID_def)
  next
    case (Some q)
    then have "us_ID q = j" by (auto simp: find_Some_iff)
    then show ?thesis using Some row [of j] that by (simp add: conditionalUpdate_def GetByID_def)
  qed
qed

text \<open>What a maintenance with the snapshot \<open>s\<close> makes of the row \<open>r\<close>, window by window.\<close>

definition casDaily :: "calendar \<Rightarrow> gotime \<Rightarrow> UserSubscription \<Rightarrow> UserSubscription \<Rightarrow> UserSubscription" where
  "casDaily cal now s r =
     (case automaticDailyWindowStartAt cal s now of
        None \<Rightarrow> r
      | Some w \<Rightarrow> if us_DailyWindowStart r = us_DailyWindowStart s
                  then r\<lparr>us_DailyUsageUSD := 0, us_DailyWindowStart := Some w\<rparr> else r)"

definition casWeekly :: "calendar \<Rightarrow> gotime \<Rightarrow> UserSubscription \<Rightarrow> UserSubscription \<Rightarrow> UserSubscription" where
  "casWeekly cal now s r =
     (case automaticWindowStartAt cal s (us_WeeklyWindowStart s) weekPeriod now of
        None \<Rightarrow> r
      | Some w \<Rightarrow> if us_WeeklyWindowStart r = us_WeeklyWindowStart s
                  then r\<lparr>us_WeeklyUsageUSD := 0, us_WeeklyWindowStart := Some w\<rparr> else r)"

definition casMonthly :: "calendar \<Rightarrow> gotime \<Rightarrow> UserSubscription \<Rightarrow> UserSubscription \<Rightarrow> UserSubscription" where
  "casMonthly cal now s r =
     (case automaticWindowStartAt cal s (us_MonthlyWindowStart s) monthPeriod now of
        None \<Rightarrow> r
      | Some w \<Rightarrow> if us_MonthlyWindowStart r = us_MonthlyWindowStart s
                  then r\<lparr>us_MonthlyUsageUSD := 0, us_MonthlyWindowStart := Some w\<rparr> else r)"

definition maintained :: "calendar \<Rightarrow> gotime \<Rightarrow> UserSubscription \<Rightarrow> UserSubscription \<Rightarrow> UserSubscription" where
  "maintained cal now s r = casMonthly cal now s (casWeekly cal now s (casDaily cal now s r))"

lemmas cas_defs = casDaily_def casWeekly_def casMonthly_def

lemma cas_id [simp]:
  "us_ID (casDaily cal now s r) = us_ID r" "us_ID (casWeekly cal now s r) = us_ID r"
  "us_ID (casMonthly cal now s r) = us_ID r"
  by (simp_all add: cas_defs split: option.split)

lemma cas_other [simp]:
  "us_WeeklyWindowStart (casDaily cal now s r) = us_WeeklyWindowStart r"
  "us_MonthlyWindowStart (casDaily cal now s r) = us_MonthlyWindowStart r"
  "us_DailyWindowStart (casWeekly cal now s r) = us_DailyWindowStart r"
  "us_MonthlyWindowStart (casWeekly cal now s r) = us_MonthlyWindowStart r"
  "us_DailyWindowStart (casMonthly cal now s r) = us_DailyWindowStart r"
  "us_WeeklyWindowStart (casMonthly cal now s r) = us_WeeklyWindowStart r"
  "us_WeeklyUsageUSD (casDaily cal now s r) = us_WeeklyUsageUSD r"
  "us_MonthlyUsageUSD (casDaily cal now s r) = us_MonthlyUsageUSD r"
  "us_DailyUsageUSD (casWeekly cal now s r) = us_DailyUsageUSD r"
  "us_MonthlyUsageUSD (casWeekly cal now s r) = us_MonthlyUsageUSD r"
  "us_DailyUsageUSD (casMonthly cal now s r) = us_DailyUsageUSD r"
  "us_WeeklyUsageUSD (casMonthly cal now s r) = us_WeeklyUsageUSD r"
  by (simp_all add: cas_defs split: option.split)

lemma cas_lifetime [simp]:
  "us_StartsAt (casDaily cal now s r) = us_StartsAt r" "us_ExpiresAt (casDaily cal now s r) = us_ExpiresAt r"
  "us_StartsAt (casWeekly cal now s r) = us_StartsAt r" "us_ExpiresAt (casWeekly cal now s r) = us_ExpiresAt r"
  "us_StartsAt (casMonthly cal now s r) = us_StartsAt r" "us_ExpiresAt (casMonthly cal now s r) = us_ExpiresAt r"
  "us_Status (casDaily cal now s r) = us_Status r" "us_Status (casWeekly cal now s r) = us_Status r"
  "us_Status (casMonthly cal now s r) = us_Status r"
  by (simp_all add: cas_defs split: option.split)

subsection \<open>Maintenance, row by row\<close>

lemma resetDailyStep_row:
  assumes "GetByID (us_ID s) t = Inr r"
  shows "\<exists>t'. resetDailyStep cal now s t = (Inr (casDaily cal now s s), t') \<and>
     GetByID (us_ID s) t' = Inr (casDaily cal now s r) \<and>
     (\<forall>j. j \<noteq> us_ID s \<longrightarrow> GetByID j t' = GetByID j t)"
proof (cases "automaticDailyWindowStartAt cal s now")
  case None
  then show ?thesis using assms by (simp add: resetDailyStep_def casDaily_def)
next
  case (Some w)
  let ?u = "conditionalUpdate (us_ID s) (\<lambda>r. us_DailyWindowStart r = us_DailyWindowStart s)
       (\<lambda>r. r\<lparr>us_DailyUsageUSD := 0, us_DailyWindowStart := Some w\<rparr>) t"
  have u: "fst ?u = None" "GetByID (us_ID s) (snd ?u) = Inr (casDaily cal now s r)"
    "\<And>j. j \<noteq> us_ID s \<Longrightarrow> GetByID j (snd ?u) = GetByID j t"
    using conditionalUpdate_row [OF assms] Some by (simp_all add: casDaily_def)
  have "resetDailyStep cal now s t = (Inr (casDaily cal now s s), snd ?u)"
    using u(1) Some by (cases ?u) (simp add: resetDailyStep_def ResetDailyUsage_def casDaily_def)
  then show ?thesis using u by blast
qed

lemma resetWeeklyStep_row:
  assumes "GetByID (us_ID s) t = Inr r"
  shows "\<exists>t'. resetWeeklyStep cal now s t = (Inr (casWeekly cal now s s), t') \<and>
     GetByID (us_ID s) t' = Inr (casWeekly cal now s r) \<and>
     (\<forall>j. j \<noteq> us_ID s \<longrightarrow> GetByID j t' = GetByID j t)"
proof (cases "automaticWindowStartAt cal s (us_WeeklyWindowStart s) weekPeriod now")
  case None
  then show ?thesis using assms by (simp add: resetWeeklyStep_def casWeekly_def)
next
  case (Some w)
  let ?u = "conditionalUpdate (us_ID s) (\<lambda>r. us_WeeklyWindowStart r = us_WeeklyWindowStart s)
       (\<lambda>r. r\<lparr>us_WeeklyUsageUSD := 0, us_WeeklyWindowStart := Some w\<rparr>) t"
  have u: "fst ?u = None" "GetByID (us_ID s) (snd ?u) = Inr (casWeekly cal now s r)"
    "\<And>j. j \<noteq> us_ID s \<Longrightarrow> GetByID j (snd ?u) = GetByID j t"
    using conditionalUpdate_row [OF assms] Some by (simp_all add: casWeekly_def)
  have "resetWeeklyStep cal now s t = (Inr (casWeekly cal now s s), snd ?u)"
    using u(1) Some by (cases ?u) (simp add: resetWeeklyStep_def ResetWeeklyUsage_def casWeekly_def)
  then show ?thesis using u by blast
qed

lemma resetMonthlyStep_row:
  assumes "GetByID (us_ID s) t = Inr r"
  shows "\<exists>t'. resetMonthlyStep cal now s t = (Inr (casMonthly cal now s s), t') \<and>
     GetByID (us_ID s) t' = Inr (casMonthly cal now s r) \<and>
     (\<forall>j. j \<noteq> us_ID s \<longrightarrow> GetByID j t' = GetByID j t)"
proof (cases "automaticWindowStartAt cal s (us_MonthlyWindowStart s) monthPeriod now")
  case None
  then show ?thesis using assms by (simp add: resetMonthlyStep_def casMonthly_def)
next
  case (Some w)
  let ?u = "conditionalUpdate (us_ID s) (\<lambda>r. us_MonthlyWindowStart r = us_MonthlyWindowStart s)
       (\<lambda>r. r\<lparr>us_MonthlyUsageUSD := 0, us_MonthlyWindowStart := Some w\<rparr>) t"
  have u: "fst ?u = None" "GetByID (us_ID s) (snd ?u) = Inr (casMonthly cal now s r)"
    "\<And>j. j \<noteq> us_ID s \<Longrightarrow> GetByID j (snd ?u) = GetByID j t"
    using conditionalUpdate_row [OF assms] Some by (simp_all add: casMonthly_def)
  have "resetMonthlyStep cal now s t = (Inr (casMonthly cal now s s), snd ?u)"
    using u(1) Some by (cases ?u) (simp add: resetMonthlyStep_def ResetMonthlyUsage_def casMonthly_def)
  then show ?thesis using u by blast
qed

lemma casWeekly_snapshot:
  assumes "us_StartsAt s' = us_StartsAt s" and "us_ExpiresAt s' = us_ExpiresAt s"
    and "us_WeeklyWindowStart s' = us_WeeklyWindowStart s"
  shows "casWeekly cal now s' = casWeekly cal now s"
  unfolding fun_eq_iff casWeekly_def automatic_same [OF assms(1,2)] assms(3) by simp

lemma casMonthly_snapshot:
  assumes "us_StartsAt s' = us_StartsAt s" and "us_ExpiresAt s' = us_ExpiresAt s"
    and "us_MonthlyWindowStart s' = us_MonthlyWindowStart s"
  shows "casMonthly cal now s' = casMonthly cal now s"
  unfolding fun_eq_iff casMonthly_def automatic_same [OF assms(1,2)] assms(3) by simp

lemma CheckAndResetWindows_row:
  assumes "GetByID (us_ID s) t = Inr r"
  shows "\<exists>t'. CheckAndResetWindows cal now s t = (Inr (maintained cal now s s), t') \<and>
     GetByID (us_ID s) t' = Inr (maintained cal now s r) \<and>
     (\<forall>j. j \<noteq> us_ID s \<longrightarrow> GetByID j t' = GetByID j t)"
proof -
  obtain t1 where t1: "resetDailyStep cal now s t = (Inr (casDaily cal now s s), t1)"
    "GetByID (us_ID s) t1 = Inr (casDaily cal now s r)" "\<forall>j. j \<noteq> us_ID s \<longrightarrow> GetByID j t1 = GetByID j t"
    using resetDailyStep_row [OF assms] by blast
  let ?s1 = "casDaily cal now s s"
  have w: "casWeekly cal now ?s1 = casWeekly cal now s" by (rule casWeekly_snapshot) simp_all
  obtain t2 where t2: "resetWeeklyStep cal now ?s1 t1 = (Inr (casWeekly cal now s ?s1), t2)"
    "GetByID (us_ID s) t2 = Inr (casWeekly cal now s (casDaily cal now s r))"
    "\<forall>j. j \<noteq> us_ID s \<longrightarrow> GetByID j t2 = GetByID j t1"
    using resetWeeklyStep_row [of ?s1 t1 "casDaily cal now s r" cal now] t1(2) w by auto
  let ?s2 = "casWeekly cal now s ?s1"
  have m: "casMonthly cal now ?s2 = casMonthly cal now s" by (rule casMonthly_snapshot) simp_all
  obtain t3 where t3: "resetMonthlyStep cal now ?s2 t2 = (Inr (casMonthly cal now s ?s2), t3)"
    "GetByID (us_ID s) t3 = Inr (casMonthly cal now s (casWeekly cal now s (casDaily cal now s r)))"
    "\<forall>j. j \<noteq> us_ID s \<longrightarrow> GetByID j t3 = GetByID j t2"
    using resetMonthlyStep_row [of ?s2 t2 "casWeekly cal now s (casDaily cal now s r)" cal now] t2(2) m
    by auto
  have "CheckAndResetWindows cal now s t = (Inr (maintained cal now s s), t3)"
    by (simp add: CheckAndResetWindows_def thenStep_def t1(1) t2(1) t3(1) maintained_def)
  then show ?thesis using t1(3) t2(3) t3(2,3) by (simp add: maintained_def)
qed

subsection \<open>Maintenance settles the windows\<close>

text \<open>The differences with the window starts stay below the 292 years a duration can hold.\<close>

definition measurable :: "UserSubscription \<Rightarrow> gotime \<Rightarrow> bool" where
  "measurable s now \<longleftrightarrow>
     (\<forall>w \<in> set_option (us_WeeklyWindowStart s) \<union> set_option (us_MonthlyWindowStart s).
        now - w < 2 ^ 63 \<and> us_ExpiresAt s - w < 2 ^ 63)"

definition settled :: "calendar \<Rightarrow> gotime \<Rightarrow> UserSubscription \<Rightarrow> bool" where
  "settled cal now s \<longleftrightarrow> IsWindowActivated s \<and> \<not> canAutomaticallyResetDailyAt cal s now \<and>
     \<not> canAutomaticallyResetWeeklyAt cal s now \<and> \<not> canAutomaticallyResetMonthlyAt cal s now"

lemma maintained_lifetime [simp]:
  "us_StartsAt (maintained cal now s r) = us_StartsAt r"
  "us_ExpiresAt (maintained cal now s r) = us_ExpiresAt r"
  "us_Status (maintained cal now s r) = us_Status r" "us_ID (maintained cal now s r) = us_ID r"
  by (simp_all add: maintained_def)

lemma maintained_windows:
  "us_DailyWindowStart (maintained cal now s r) = us_DailyWindowStart (casDaily cal now s r)"
  "us_WeeklyWindowStart (maintained cal now s r) = us_WeeklyWindowStart (casWeekly cal now s r)"
  "us_MonthlyWindowStart (maintained cal now s r) = us_MonthlyWindowStart (casMonthly cal now s r)"
  "us_DailyUsageUSD (maintained cal now s r) = us_DailyUsageUSD (casDaily cal now s r)"
  "us_WeeklyUsageUSD (maintained cal now s r) = us_WeeklyUsageUSD (casWeekly cal now s r)"
  "us_MonthlyUsageUSD (maintained cal now s r) = us_MonthlyUsageUSD (casMonthly cal now s r)"
  by (simp_all add: maintained_def cas_defs split: option.split)

lemma daily_settled:
  assumes "\<And>t. cal_StartOfDay cal (cal_StartOfDay cal t) = cal_StartOfDay cal t"
  shows "automaticDailyWindowStartAt cal (maintained cal now s s) now = None"
proof -
  have q: "HasOneTimeDailyQuota cal (maintained cal now s s) = HasOneTimeDailyQuota cal s"
    by (simp add: HasOneTimeDailyQuota_def)
  show ?thesis
    by (auto simp: automaticDailyWindowStartAt_def maintained_windows casDaily_def q assms
        split: option.splits if_splits)
qed

lemma weekly_settled:
  assumes "measurable s now"
  shows "automaticWindowStartAt cal s (us_WeeklyWindowStart (casWeekly cal now s s)) weekPeriod now = None"
proof (cases "us_WeeklyWindowStart s")
  case None
  then show ?thesis by (simp add: casWeekly_def automaticWindowStartAt_def)
next
  case (Some p)
  then have "now - p < 2 ^ 63" "us_ExpiresAt s - p < 2 ^ 63" using assms by (auto simp: measurable_def)
  then show ?thesis
    using automatic_settled [of cal s p weekPeriod now] Some
    by (cases "automaticWindowStartAt cal s (Some p) weekPeriod now") (simp_all add: casWeekly_def)
qed

lemma monthly_settled:
  assumes "measurable s now"
  shows "automaticWindowStartAt cal s (us_MonthlyWindowStart (casMonthly cal now s s)) monthPeriod now = None"
proof (cases "us_MonthlyWindowStart s")
  case None
  then show ?thesis by (simp add: casMonthly_def automaticWindowStartAt_def)
next
  case (Some p)
  then have "now - p < 2 ^ 63" "us_ExpiresAt s - p < 2 ^ 63" using assms by (auto simp: measurable_def)
  then show ?thesis
    using automatic_settled [of cal s p monthPeriod now] Some
    by (cases "automaticWindowStartAt cal s (Some p) monthPeriod now") (simp_all add: casMonthly_def)
qed

lemma maintained_settled:
  assumes "\<And>t. cal_StartOfDay cal (cal_StartOfDay cal t) = cal_StartOfDay cal t"
    and "measurable s now" and "IsWindowActivated s"
  shows "settled cal now (maintained cal now s s)"
proof -
  have a: "automaticWindowStartAt cal (maintained cal now s s) = automaticWindowStartAt cal s"
    by (rule automatic_same) simp_all
  have "IsWindowActivated (maintained cal now s s)"
    using assms(3) by (auto simp: IsWindowActivated_def maintained_windows cas_defs split: option.splits)
  then show ?thesis
    using daily_settled [OF assms(1)] weekly_settled [OF assms(2)] monthly_settled [OF assms(2)]
    by (simp add: settled_def canAutomaticallyResetDailyAt_def canAutomaticallyResetWeeklyAt_def
        canAutomaticallyResetMonthlyAt_def a maintained_windows)
qed

text \<open>A subscription that was never used is activated, and nothing is reset.\<close>

lemma inactive_maintained:
  assumes "\<not> IsWindowActivated s"
  shows "maintained cal now s r = r"
  using assms
  by (simp add: IsWindowActivated_def maintained_def cas_defs automaticDailyWindowStartAt_def
      automaticWindowStartAt_def)

definition activated :: "calendar \<Rightarrow> gotime \<Rightarrow> UserSubscription \<Rightarrow> UserSubscription" where
  "activated cal now s = s\<lparr>us_DailyWindowStart := Some (cal_StartOfDay cal now),
     us_WeeklyWindowStart := Some now, us_MonthlyWindowStart := Some now\<rparr>"

lemma activated_settled:
  assumes "\<And>t. cal_StartOfDay cal (cal_StartOfDay cal t) = cal_StartOfDay cal t"
    and "cal_StartOfDay cal now2 = cal_StartOfDay cal now1" and "now2 < now1 + weekPeriod"
  shows "settled cal now2 (activated cal now1 s)"
proof -
  have "now2 < windowResetAnchor cal (activated cal now1 s) now1 + weekPeriod"
    using assms(3) windowResetAnchor_ge [of now1 cal "activated cal now1 s"] by linarith
  moreover have "weekPeriod \<le> monthPeriod" by (simp add: weekPeriod_def monthPeriod_def go_simps)
  ultimately show ?thesis
    by (simp add: settled_def activated_def IsWindowActivated_def canAutomaticallyResetDailyAt_def
        canAutomaticallyResetWeeklyAt_def canAutomaticallyResetMonthlyAt_def time_add_def Let_def
        automaticDailyWindowStartAt_def automaticWindowStartAt_def assms(1,2))
qed

lemma EnsureWindowMaintenance_row:
  assumes "GetByID (us_ID s) t = Inr s"
  shows "\<exists>t'. EnsureWindowMaintenance cal now1 now2 s t =
       (Inr (if IsWindowActivated s then maintained cal now2 s s else activated cal now1 s), t') \<and>
     (\<forall>j. GetByID j t' = (if j = us_ID s
         then Inr (if IsWindowActivated s then maintained cal now2 s s else activated cal now1 s)
         else GetByID j t))"
proof (cases "IsWindowActivated s")
  case True
  then have "checkAndActivateWindowAt cal s now1 t = (None, t)"
    by (simp add: checkAndActivateWindowAt_def)
  then show ?thesis
    using CheckAndResetWindows_row [OF assms, of cal now2] True
    by (auto simp: EnsureWindowMaintenance_def)
next
  case False
  let ?u = "ActivateWindows (us_ID s) (cal_StartOfDay cal now1) now1 t"
  have u: "fst ?u = None" "GetByID (us_ID s) (snd ?u) = Inr (activated cal now1 s)"
    "\<And>j. j \<noteq> us_ID s \<Longrightarrow> GetByID j (snd ?u) = GetByID j t"
    using conditionalUpdate_row [OF assms] False by (simp_all add: ActivateWindows_def activated_def)
  have c: "checkAndActivateWindowAt cal s now1 t = (None, snd ?u)"
    using u(1) False by (cases ?u) (simp add: checkAndActivateWindowAt_def)
  obtain t' where "CheckAndResetWindows cal now2 s (snd ?u) = (Inr (maintained cal now2 s s), t')"
    "GetByID (us_ID s) t' = Inr (maintained cal now2 s (activated cal now1 s))"
    "\<forall>j. j \<noteq> us_ID s \<longrightarrow> GetByID j t' = GetByID j (snd ?u)"
    using CheckAndResetWindows_row [OF u(2), of cal now2] by blast
  then show ?thesis using c u(3) False
    by (auto simp: EnsureWindowMaintenance_def inactive_maintained)
qed

text \<open>
  C27: window maintenance with a fresh snapshot succeeds and returns the row as it now is in the
  table, with active windows that are all current: no further automatic reset is due. No other
  row changes. The hypotheses say that midnight is a fixed point of \<open>StartOfDay\<close>, that the two
  readings of the clock lie on one day, and that durations do not saturate.
\<close>

theorem maintenance_settles_windows:
  assumes "GetByID (us_ID s) t = Inr s"
    and "\<And>x. cal_StartOfDay cal (cal_StartOfDay cal x) = cal_StartOfDay cal x"
    and "cal_StartOfDay cal now2 = cal_StartOfDay cal now1" and "now2 < now1 + weekPeriod"
    and "measurable s now2"
  shows "\<exists>r t'. EnsureWindowMaintenance cal now1 now2 s t = (Inr r, t') \<and> GetByID (us_ID s) t' = Inr r \<and>
     settled cal now2 r \<and> (\<forall>j. j \<noteq> us_ID s \<longrightarrow> GetByID j t' = GetByID j t)"
proof -
  let ?r = "if IsWindowActivated s then maintained cal now2 s s else activated cal now1 s"
  have "settled cal now2 ?r"
    using maintained_settled [OF assms(2,5)] activated_settled [OF assms(2,3,4)] by simp
  then show ?thesis using EnsureWindowMaintenance_row [OF assms(1), of cal now1 now2] by auto
qed

text \<open>A zone with a fixed offset to UTC, and a subscription of five weeks in it.\<close>

definition fixed_zone :: "goduration \<Rightarrow> calendar" where
  "fixed_zone off =
     \<lparr>cal_StartOfDay = (\<lambda>t. (t + off) div (24 * hour) * (24 * hour) - off),
      cal_startOfDay = (\<lambda>t. (t + off) div (24 * hour) * (24 * hour) - off),
      cal_NextDay = (\<lambda>t. t + 24 * hour)\<rparr>"

lemma fixed_zone_midnight:
  "cal_StartOfDay (fixed_zone off) (cal_StartOfDay (fixed_zone off) t) = cal_StartOfDay (fixed_zone off) t"
  by (simp add: fixed_zone_def go_simps)

definition demo_day :: goduration where "demo_day = 24 * hour"

definition demo_subscription :: UserSubscription where
  "demo_subscription = \<lparr>us_ID = 9, us_StartsAt = 1000 * demo_day + 5, us_ExpiresAt = 1035 * demo_day + 5,
     us_Status = ''active'', us_DailyWindowStart = Some (1001 * demo_day),
     us_WeeklyWindowStart = Some (1001 * demo_day + 7), us_MonthlyWindowStart = Some (1001 * demo_day + 7),
     us_DailyUsageUSD = 3, us_WeeklyUsageUSD = 4, us_MonthlyUsageUSD = 5\<rparr>"

lemmas demo_subscription_defs = demo_subscription_def demo_day_def fixed_zone_def hour_def

lemma demo_measurable: "measurable demo_subscription (1016 * demo_day)"
  by (simp add: measurable_def demo_subscription_defs)

theorem maintenance_settles_windows_witness:
  "\<exists>r t'. EnsureWindowMaintenance (fixed_zone 0) (1016 * demo_day) (1016 * demo_day) demo_subscription
       [demo_subscription] = (Inr r, t') \<and> GetByID 9 t' = Inr r \<and> settled (fixed_zone 0) (1016 * demo_day) r"
proof -
  have "GetByID (us_ID demo_subscription) [demo_subscription] = Inr demo_subscription"
    by (simp add: GetByID_def)
  then have "\<exists>r t'. EnsureWindowMaintenance (fixed_zone 0) (1016 * demo_day) (1016 * demo_day) demo_subscription
       [demo_subscription] = (Inr r, t') \<and> GetByID (us_ID demo_subscription) t' = Inr r \<and>
       settled (fixed_zone 0) (1016 * demo_day) r \<and>
       (\<forall>j. j \<noteq> us_ID demo_subscription \<longrightarrow> GetByID j t' = GetByID j [demo_subscription])"
    by (intro maintenance_settles_windows fixed_zone_midnight demo_measurable) simp_all
  then show ?thesis by (simp add: demo_subscription_def) blast
qed

subsection \<open>How many quotas a subscription gets\<close>

text \<open>
  Maintenance at the given times, each with a fresh snapshot: how often the weekly usage of
  subscription \<open>i\<close> is reset.
\<close>

fun weekly_resets :: "calendar \<Rightarrow> int \<Rightarrow> gotime list \<Rightarrow> sub_table \<Rightarrow> int" where
  "weekly_resets cal i [] t = 0"
| "weekly_resets cal i (now # rest) t =
     (case GetByID i t of
        Inl _ \<Rightarrow> 0
      | Inr s \<Rightarrow> (if canAutomaticallyResetWeeklyAt cal s now then 1 else 0) +
                 weekly_resets cal i rest (snd (CheckAndResetWindows cal now s t)))"

lemma GetByID_id: "GetByID i t = Inr s \<Longrightarrow> us_ID s = i"
  by (auto simp: GetByID_def find_Some_iff split: option.splits)

lemma weekly_resets_bound:
  assumes "GetByID i t = Inr s" and "us_WeeklyWindowStart s = Some w"
    and "us_ExpiresAt s - w < 2 ^ 63" and "\<And>now. now \<in> set ts \<Longrightarrow> now - w < 2 ^ 63"
    and "windowResetAnchor cal s w < us_ExpiresAt s" and "cal_startOfDay cal (us_StartsAt s) \<le> w"
  shows "weekly_resets cal i ts t * weekPeriod < us_ExpiresAt s - windowResetAnchor cal s w"
  using assms
proof (induction ts arbitrary: t s w)
  case Nil
  then show ?case by simp
next
  case (Cons now ts)
  have i: "us_ID s = i" using GetByID_id [OF Cons.prems(1)] .
  obtain t' where t': "CheckAndResetWindows cal now s t = (Inr (maintained cal now s s), t')"
    "GetByID i t' = Inr (maintained cal now s s)"
    using CheckAndResetWindows_row [of s t s cal now] Cons.prems(1) i by auto
  let ?s' = "maintained cal now s s"
  have anchor: "windowResetAnchor cal ?s' = windowResetAnchor cal s"
    unfolding fun_eq_iff windowResetAnchor_def maintained_lifetime by simp
  show ?case
  proof (cases "automaticWindowStartAt cal s (Some w) weekPeriod now")
    case None
    then have "us_WeeklyWindowStart ?s' = Some w" and "\<not> canAutomaticallyResetWeeklyAt cal s now"
      using Cons.prems(2) by (simp_all add: maintained_windows casWeekly_def canAutomaticallyResetWeeklyAt_def)
    then show ?thesis
      using Cons.IH [of t' ?s' w] Cons.prems t' anchor by simp
  next
    case (Some w')
    have n: "now - w < 2 ^ 63" using Cons.prems(4) by simp
    obtain k where k: "1 \<le> k" "w' = windowResetAnchor cal s w + k * weekPeriod" "w' < us_ExpiresAt s"
      using automatic_window [OF Some period_pos(1) n Cons.prems(3)] by blast
    have a': "w' \<le> windowResetAnchor cal s w'" and aw: "w \<le> windowResetAnchor cal s w"
      by (rule windowResetAnchor_ge)+
    have kp: "weekPeriod \<le> k * weekPeriod" using k(1) by simp
    then have ww: "w \<le> w'" using k(2) aw period_pos(1) by linarith
    have start: "us_WeeklyWindowStart ?s' = Some w'" and can: "canAutomaticallyResetWeeklyAt cal s now"
      using Some Cons.prems(2) by (simp_all add: maintained_windows casWeekly_def canAutomaticallyResetWeeklyAt_def)
    have "cal_startOfDay cal (us_StartsAt s) < w'"
      using Cons.prems(6) kp k(2) aw period_pos(1) by linarith
    then have "windowResetAnchor cal s w' = w'" by (simp add: windowResetAnchor_def Let_def)
    then have less: "windowResetAnchor cal s w' < us_ExpiresAt s" using k(3) by simp
    have before: "now' - w' < 2 ^ 63" if "now' \<in> set ts" for now'
      using Cons.prems(4) [of now'] that ww by simp
    have "weekly_resets cal i ts t' * weekPeriod < us_ExpiresAt s - windowResetAnchor cal s w'"
      using Cons.IH [OF t'(2) start _ before] Cons.prems(3,6) ww anchor less by simp
    then have "weekly_resets cal i (now # ts) t * weekPeriod
        < us_ExpiresAt s - windowResetAnchor cal s w' + weekPeriod"
      using Cons.prems(1) t'(1) can by (simp add: distrib_right)
    also have "\<dots> \<le> us_ExpiresAt s - windowResetAnchor cal s w" using a' k(2) kp by linarith
    finally show ?thesis .
  qed
qed

text \<open>
  however often and whenever the windows are maintained, a subscription gets at most as many
  weekly resets as whole weeks begin after its start and before its expiry: the number of resets
  times seven days is less than its lifetime, so an incomplete last week is granted once and not
  repeatedly. The window is active and does not lie before the subscription (but for the initial
  midnight anchor), and durations do not saturate.
\<close>

theorem weekly_grants_bounded:
  assumes "GetByID i t = Inr s" and "us_WeeklyWindowStart s = Some w"
    and "cal_startOfDay cal (us_StartsAt s) \<le> w" and "us_StartsAt s \<le> windowResetAnchor cal s w"
    and "windowResetAnchor cal s w < us_ExpiresAt s" and "us_ExpiresAt s - w < 2 ^ 63"
    and "\<And>now. now \<in> set ts \<Longrightarrow> now - w < 2 ^ 63"
  shows "weekly_resets cal i ts t * weekPeriod < us_ExpiresAt s - us_StartsAt s"
proof -
  have "weekly_resets cal i ts t * weekPeriod < us_ExpiresAt s - windowResetAnchor cal s w"
    by (rule weekly_resets_bound) (use assms in auto)
  then show ?thesis using assms(4) by linarith
qed

theorem weekly_grants_bounded_witness:
  "weekly_resets (fixed_zone 0) 9 [1016 * demo_day, 1016 * demo_day, 1034 * demo_day, 1100 * demo_day]
     [demo_subscription] * weekPeriod < 35 * demo_day"
proof -
  have g: "GetByID 9 [demo_subscription] = Inr demo_subscription"
    by (simp add: GetByID_def demo_subscription_def)
  have w: "us_WeeklyWindowStart demo_subscription = Some (1001 * demo_day + 7)"
    by (simp add: demo_subscription_def)
  have "weekly_resets (fixed_zone 0) 9 [1016 * demo_day, 1016 * demo_day, 1034 * demo_day, 1100 * demo_day]
     [demo_subscription] * weekPeriod < us_ExpiresAt demo_subscription - us_StartsAt demo_subscription"
    by (rule weekly_grants_bounded [OF g w]) (auto simp: windowResetAnchor_def Let_def demo_subscription_defs)
  then show ?thesis by (simp add: demo_subscription_def)
qed

subsection \<open>Stale snapshots\<close>

lemma IncrementUsage_row:
  assumes "GetByID i t = Inr r" and "groupLive i"
  shows "\<exists>t'. IncrementUsage numeric_add groupLive i c t = (None, t') \<and>
     GetByID i t' = Inr (r\<lparr>us_DailyUsageUSD := numeric_add (us_DailyUsageUSD r) c,
       us_WeeklyUsageUSD := numeric_add (us_WeeklyUsageUSD r) c,
       us_MonthlyUsageUSD := numeric_add (us_MonthlyUsageUSD r) c\<rparr>)"
proof -
  let ?f = "\<lambda>r. r\<lparr>us_DailyUsageUSD := numeric_add (us_DailyUsageUSD r) c,
       us_WeeklyUsageUSD := numeric_add (us_WeeklyUsageUSD r) c,
       us_MonthlyUsageUSD := numeric_add (us_MonthlyUsageUSD r) c\<rparr>"
  have fi: "find (\<lambda>r. us_ID r = i) t = Some r" using assms(1) by (simp add: GetByID_def split: option.splits)
  have "find (\<lambda>r. us_ID r = i) (map (\<lambda>r. if us_ID r = i \<and> groupLive (us_ID r) then ?f r else r) t) =
      map_option ?f (find (\<lambda>r. us_ID r = i) t)"
    using assms(2) by (induction t) auto
  moreover have "list_ex (\<lambda>r. us_ID r = i \<and> groupLive (us_ID r)) t"
    using fi assms(2) by (auto simp: find_Some_iff list_ex_length)
  ultimately show ?thesis using fi by (auto simp: IncrementUsage_def GetByID_def)
qed

lemma stale_maintained:
  "us_DailyWindowStart r \<noteq> us_DailyWindowStart s \<Longrightarrow>
     us_DailyUsageUSD (maintained cal now s r) = us_DailyUsageUSD r"
  "us_WeeklyWindowStart r \<noteq> us_WeeklyWindowStart s \<Longrightarrow>
     us_WeeklyUsageUSD (maintained cal now s r) = us_WeeklyUsageUSD r"
  "us_MonthlyWindowStart r \<noteq> us_MonthlyWindowStart s \<Longrightarrow>
     us_MonthlyUsageUSD (maintained cal now s r) = us_MonthlyUsageUSD r"
  by (simp_all add: maintained_windows cas_defs split: option.split)

lemma daily_moves:
  assumes "canAutomaticallyResetDailyAt cal s now"
    and "\<And>x. cal_StartOfDay cal (cal_StartOfDay cal x) = cal_StartOfDay cal x"
  shows "us_DailyWindowStart (maintained cal now s s) \<noteq> us_DailyWindowStart s \<and>
     us_DailyUsageUSD (maintained cal now s s) = 0"
  using assms
  by (auto simp: canAutomaticallyResetDailyAt_def maintained_windows casDaily_def
      automaticDailyWindowStartAt_def split: option.splits if_splits)

lemma weekly_moves:
  assumes "canAutomaticallyResetWeeklyAt cal s now" and "measurable s now"
  shows "us_WeeklyWindowStart (maintained cal now s s) \<noteq> us_WeeklyWindowStart s \<and>
     us_WeeklyUsageUSD (maintained cal now s s) = 0"
proof -
  obtain w where w: "automaticWindowStartAt cal s (us_WeeklyWindowStart s) weekPeriod now = Some w"
    using assms(1) by (auto simp: canAutomaticallyResetWeeklyAt_def)
  then have "us_WeeklyWindowStart s \<noteq> Some w"
    using weekly_settled [OF assms(2), of cal] w by (auto simp: casWeekly_def)
  then show ?thesis using w by (simp add: maintained_windows casWeekly_def)
qed

lemma monthly_moves:
  assumes "canAutomaticallyResetMonthlyAt cal s now" and "measurable s now"
  shows "us_MonthlyWindowStart (maintained cal now s s) \<noteq> us_MonthlyWindowStart s \<and>
     us_MonthlyUsageUSD (maintained cal now s s) = 0"
proof -
  obtain w where w: "automaticWindowStartAt cal s (us_MonthlyWindowStart s) monthPeriod now = Some w"
    using assms(1) by (auto simp: canAutomaticallyResetMonthlyAt_def)
  then have "us_MonthlyWindowStart s \<noteq> Some w"
    using monthly_settled [OF assms(2), of cal] w by (auto simp: casMonthly_def)
  then show ?thesis using w by (simp add: maintained_windows casMonthly_def)
qed

text \<open>
  two requests read the same snapshot of a subscription. The first maintains its windows and
  its cost is recorded; when the second then maintains them with its stale snapshot, at whatever
  time, the recorded cost stays: every window that the first request advanced keeps its usage.
\<close>

theorem stale_maintenance_keeps_usage:
  assumes "GetByID i t = Inr s" and "groupLive i" and "measurable s now"
    and "\<And>x. cal_StartOfDay cal (cal_StartOfDay cal x) = cal_StartOfDay cal x"
  shows "\<exists>t1 t2 t3 r. CheckAndResetWindows cal now s t = (Inr (maintained cal now s s), t1) \<and>
     IncrementUsage numeric_add groupLive i cost t1 = (None, t2) \<and>
     t3 = snd (CheckAndResetWindows cal later s t2) \<and> GetByID i t3 = Inr r \<and>
     (canAutomaticallyResetDailyAt cal s now \<longrightarrow> us_DailyUsageUSD r = numeric_add 0 cost) \<and>
     (canAutomaticallyResetWeeklyAt cal s now \<longrightarrow> us_WeeklyUsageUSD r = numeric_add 0 cost) \<and>
     (canAutomaticallyResetMonthlyAt cal s now \<longrightarrow> us_MonthlyUsageUSD r = numeric_add 0 cost)"
proof -
  have i: "us_ID s = i" by (rule GetByID_id [OF assms(1)])
  let ?m = "maintained cal now s s"
  obtain t1 where t1: "CheckAndResetWindows cal now s t = (Inr ?m, t1)" "GetByID i t1 = Inr ?m"
    using CheckAndResetWindows_row [of s t s cal now] assms(1) i by auto
  define u where "u = ?m\<lparr>us_DailyUsageUSD := numeric_add (us_DailyUsageUSD ?m) cost,
       us_WeeklyUsageUSD := numeric_add (us_WeeklyUsageUSD ?m) cost,
       us_MonthlyUsageUSD := numeric_add (us_MonthlyUsageUSD ?m) cost\<rparr>"
  obtain t2 where t2: "IncrementUsage numeric_add groupLive i cost t1 = (None, t2)" "GetByID i t2 = Inr u"
    using IncrementUsage_row [where i = i and groupLive = groupLive, OF t1(2) assms(2)]
    unfolding u_def by blast
  obtain t3 where t3: "t3 = snd (CheckAndResetWindows cal later s t2)"
    "GetByID i t3 = Inr (maintained cal later s u)"
    using CheckAndResetWindows_row [of s t2 u cal later] t2(2) i by auto
  have "canAutomaticallyResetDailyAt cal s now \<longrightarrow> us_DailyUsageUSD (maintained cal later s u) = numeric_add 0 cost"
    using daily_moves [of cal s now] assms(4) by (simp add: stale_maintained u_def)
  moreover have "canAutomaticallyResetWeeklyAt cal s now \<longrightarrow>
      us_WeeklyUsageUSD (maintained cal later s u) = numeric_add 0 cost"
    using weekly_moves [of cal s now] assms(3) by (simp add: stale_maintained u_def)
  moreover have "canAutomaticallyResetMonthlyAt cal s now \<longrightarrow>
      us_MonthlyUsageUSD (maintained cal later s u) = numeric_add 0 cost"
    using monthly_moves [of cal s now] assms(3) by (simp add: stale_maintained u_def)
  ultimately show ?thesis using t1(1) t2(1) t3 by blast
qed

theorem stale_maintenance_keeps_usage_witness:
  "canAutomaticallyResetWeeklyAt (fixed_zone 0) demo_subscription (1016 * demo_day) \<and>
   (\<exists>t1 t2 r. CheckAndResetWindows (fixed_zone 0) (1016 * demo_day) demo_subscription [demo_subscription]
        = (Inr (maintained (fixed_zone 0) (1016 * demo_day) demo_subscription demo_subscription), t1) \<and>
      IncrementUsage (+) (\<lambda>_. True) 9 2 t1 = (None, t2) \<and>
      GetByID 9 (snd (CheckAndResetWindows (fixed_zone 0) (1017 * demo_day) demo_subscription t2)) = Inr r \<and>
      us_WeeklyUsageUSD r = 2)"
proof -
  have can: "canAutomaticallyResetWeeklyAt (fixed_zone 0) demo_subscription (1016 * demo_day)"
    by (simp add: canAutomaticallyResetWeeklyAt_def automaticWindowStartAt_def Let_def time_add_def
        windowResetAnchor_def weekPeriod_def demo_subscription_defs)
  have g: "GetByID 9 [demo_subscription] = Inr demo_subscription"
    by (simp add: GetByID_def demo_subscription_def)
  show ?thesis
    using stale_maintenance_keeps_usage [OF g, of "\<lambda>_. True" "1016 * demo_day" "fixed_zone 0"
        "(+)" 2 "1017 * demo_day"] can fixed_zone_midnight demo_measurable
    by auto
qed

subsection \<open>The check in memory and the check of the row\<close>

definition same_usage :: "UserSubscription \<Rightarrow> UserSubscription \<Rightarrow> bool" where
  "same_usage a b \<longleftrightarrow> us_DailyUsageUSD a = us_DailyUsageUSD b \<and>
     us_WeeklyUsageUSD a = us_WeeklyUsageUSD b \<and> us_MonthlyUsageUSD a = us_MonthlyUsageUSD b"

lemma same_usage_limits:
  "same_usage a b \<Longrightarrow> CheckUsageLimits fl a g c = CheckUsageLimits fl b g c"
  by (simp add: same_usage_def CheckUsageLimits_def CheckDailyLimit_def CheckWeeklyLimit_def
      CheckMonthlyLimit_def)

lemma maintained_usage: "same_usage (maintained cal now s s) (forgetFinished cal now s)"
  by (auto simp: same_usage_def forgetFinished_def maintained_windows cas_defs
      canAutomaticallyResetDailyAt_def canAutomaticallyResetWeeklyAt_def
      canAutomaticallyResetMonthlyAt_def split: option.splits)

lemma activated_usage:
  "\<not> IsWindowActivated s \<Longrightarrow> same_usage (activated cal now1 s) (forgetFinished cal now s)"
  by (simp add: same_usage_def forgetFinished_def activated_def IsWindowActivated_def
      canAutomaticallyResetDailyAt_def canAutomaticallyResetWeeklyAt_def
      canAutomaticallyResetMonthlyAt_def automaticDailyWindowStartAt_def automaticWindowStartAt_def)

lemma settled_forget: "settled cal now r \<Longrightarrow> forgetFinished cal now r = r"
  by (simp add: settled_def forgetFinished_def)

text \<open>
  the check in memory of a fresh snapshot gives the verdict that the maintained row gives:
  after maintenance at the same time the row needs no maintenance, and it is refused for the same
  reason or admitted as the snapshot was.
\<close>

theorem precheck_agrees_with_row:
  assumes "GetByID (us_ID s) t = Inr s"
    and "\<And>x. cal_StartOfDay cal (cal_StartOfDay cal x) = cal_StartOfDay cal x"
    and "measurable s now"
    and "ValidateAndCheckLimits fl cal now s g = (need, verdict, s1)"
  shows "\<exists>r t'. EnsureWindowMaintenance cal now now s t = (Inr r, t') \<and>
     ValidateAndCheckLimits fl cal now r g = (False, verdict, r)"
proof -
  define r where "r = (if IsWindowActivated s then maintained cal now s s else activated cal now s)"
  have st: "settled cal now r"
    unfolding r_def using maintained_settled [OF assms(2,3)] activated_settled [OF assms(2), of now now s]
    by simp
  have u: "same_usage r (forgetFinished cal now s)"
    unfolding r_def using maintained_usage activated_usage by simp
  have life: "us_Status r = us_Status s" "us_ExpiresAt r = us_ExpiresAt s"
    by (simp_all add: r_def activated_def)
  have v: "verdict = fst (snd (ValidateAndCheckLimits fl cal now s g))" using assms(4) by simp
  have "ValidateAndCheckLimits fl cal now r g = (False, verdict, r)"
    unfolding v using st same_usage_limits [OF u, of fl g 0]
    by (simp add: ValidateAndCheckLimits_def life settled_forget [OF st] settled_def)
  then show ?thesis
    using EnsureWindowMaintenance_row [OF assms(1), of cal now now] unfolding r_def by blast
qed

definition demo_limits :: group_limits where
  "demo_limits = \<lparr>gl_DailyLimitUSD = None, gl_WeeklyLimitUSD = Some 3, gl_MonthlyLimitUSD = Some 4\<rparr>"

text \<open>The weekly usage of 4 is above the limit of 3, but of a finished week; the month still runs.\<close>

theorem precheck_agrees_with_row_witness:
  "\<exists>r t'. EnsureWindowMaintenance (fixed_zone 0) (1016 * demo_day) (1016 * demo_day) demo_subscription
       [demo_subscription] = (Inr r, t') \<and>
     ValidateAndCheckLimits (\<lambda>x. x) (fixed_zone 0) (1016 * demo_day) r demo_limits
       = (False, Some MonthlyLimitExceeded, r)"
proof -
  have g: "GetByID (us_ID demo_subscription) [demo_subscription] = Inr demo_subscription"
    by (simp add: GetByID_def)
  have "ValidateAndCheckLimits (\<lambda>x. x) (fixed_zone 0) (1016 * demo_day) demo_subscription demo_limits
      = (True, Some MonthlyLimitExceeded, forgetFinished (fixed_zone 0) (1016 * demo_day) demo_subscription)"
    by (simp add: ValidateAndCheckLimits_def forgetFinished_def canAutomaticallyResetDailyAt_def
        canAutomaticallyResetWeeklyAt_def canAutomaticallyResetMonthlyAt_def automaticWindowStartAt_def
        automaticDailyWindowStartAt_def HasOneTimeDailyQuota_def time_is_zero_def Let_def time_add_def
        windowResetAnchor_def weekPeriod_def monthPeriod_def CheckUsageLimits_def CheckDailyLimit_def
        CheckWeeklyLimit_def CheckMonthlyLimit_def HasDailyLimit_def HasWeeklyLimit_def
        HasMonthlyLimit_def demo_limits_def subscription_status_defs demo_subscription_defs)
  from precheck_agrees_with_row [OF g fixed_zone_midnight demo_measurable this]
  show ?thesis by blast
qed

lemma daysRemaining_ceiling:
  assumes "now < us_ExpiresAt s" and "us_ExpiresAt s - now < 2 ^ 63"
  shows "(daysRemainingAt s now - 1) * subscriptionDayDuration < us_ExpiresAt s - now \<and>
     us_ExpiresAt s - now \<le> daysRemainingAt s now * subscriptionDayDuration"
proof -
  define d r where "d = subscriptionDayDuration" and "r = us_ExpiresAt s - now"
  have d: "0 < d" by (simp add: d_def subscriptionDayDuration_def go_simps)
  have r: "time_sub (us_ExpiresAt s) now = r" "0 < r"
    using assms by (simp_all add: r_def time_sub_exact in64_def)
  define q m where "q = r div d" and "m = r mod d"
  have qm: "r = q * d + m" "0 \<le> m" "m < d" using d by (simp_all add: q_def m_def)
  have "daysRemainingAt s now = q + (if m \<noteq> 0 then 1 else 0)"
    using r by (simp add: daysRemainingAt_def quot_def q_def m_def d_def)
  then show ?thesis
    using qm by (simp add: d_def [symmetric] r_def [symmetric] distrib_right left_diff_distrib)
qed

end
