(* ===== verification/Inflight.thy ===== *)
theory Inflight
  imports GoPrelude Complex_Main
begin

text \<open>
  Reservations of money for requests in flight: the Redis scripts of
  \<open>repository/billing_inflight_cache.go\<close> and the reservation handle of
  \<open>service/billing_inflight_reservation.go\<close>.

  The two keys of a user or scope are a sorted set and a hash, here association lists, each with
  the time at which it expires; an empty key does not exist. \<open>now\<close> is the clock of the caller,
  \<open>srv\<close> the clock of the Redis server, both in milliseconds. A \<open>float64\<close> is the real number it
  stands for and \<open>fl\<close> rounds the result of an addition or subtraction; \<open>HVALS\<close> returns the
  values in the order of the list. The scripts answer a sum as a text, which has fewer digits
  than the number: \<open>txt\<close> is what is read back from it. Logging and connection errors are left out.
\<close>

subsection \<open>The keys\<close>

record inflight_keys =
  ik_zset :: "(gostring, int) gomap"
  ik_hash :: "(gostring, real) gomap"
  ik_zexpire :: "int option"
  ik_hexpire :: "int option"

definition noKeys :: inflight_keys where
  "noKeys = \<lparr>ik_zset = [], ik_hash = [], ik_zexpire = None, ik_hexpire = None\<rparr>"

text \<open>What the server still has of the keys at its time \<open>srv\<close>.\<close>

definition expired_at :: "int \<Rightarrow> int option \<Rightarrow> bool" where
  "expired_at srv e = (case e of None \<Rightarrow> False | Some x \<Rightarrow> x \<le> srv)"

definition liveKeys :: "int \<Rightarrow> inflight_keys \<Rightarrow> inflight_keys" where
  "liveKeys srv k =
     (let k1 = (if expired_at srv (ik_zexpire k) then k\<lparr>ik_zset := [], ik_zexpire := None\<rparr> else k)
      in if expired_at srv (ik_hexpire k1) then k1\<lparr>ik_hash := [], ik_hexpire := None\<rparr> else k1)"

text \<open>A key that has become empty is gone, with its expiry.\<close>

definition tidy :: "inflight_keys \<Rightarrow> inflight_keys" where
  "tidy k = k\<lparr>ik_zexpire := (if ik_zset k = [] then None else ik_zexpire k),
              ik_hexpire := (if ik_hash k = [] then None else ik_hexpire k)\<rparr>"

definition dropFinished :: "int \<Rightarrow> inflight_keys \<Rightarrow> inflight_keys" where
  "dropFinished now k =
     (let finished = map fst (filter (\<lambda>(_, score). score \<le> now) (ik_zset k)) in
      tidy (k\<lparr>ik_zset := filter (\<lambda>(_, score). \<not> score \<le> now) (ik_zset k),
              ik_hash := filter (\<lambda>(m, _). m \<notin> set finished) (ik_hash k)\<rparr>))"

definition inflightSum :: "(real \<Rightarrow> real) \<Rightarrow> inflight_keys \<Rightarrow> real" where
  "inflightSum fl k = foldl (\<lambda>sum v. fl (sum + v)) 0 (map snd (ik_hash k))"

text \<open>\<open>ZADD\<close>, \<open>HSET\<close> and \<open>PEXPIRE\<close> of both keys.\<close>

definition addMember :: "int \<Rightarrow> int \<Rightarrow> gostring \<Rightarrow> real \<Rightarrow> int \<Rightarrow> inflight_keys \<Rightarrow> inflight_keys" where
  "addMember srv expireAt member amount ttlMs k =
     k\<lparr>ik_zset := map_put member expireAt (ik_zset k), ik_hash := map_put member amount (ik_hash k),
       ik_zexpire := Some (srv + ttlMs), ik_hexpire := Some (srv + ttlMs)\<rparr>"

definition reserveInflightBalanceScript ::
  "(real \<Rightarrow> real) \<Rightarrow> int \<Rightarrow> int \<Rightarrow> int \<Rightarrow> gostring \<Rightarrow> real \<Rightarrow> real \<Rightarrow> int \<Rightarrow> inflight_keys \<Rightarrow>
   (bool \<times> real \<times> int) \<times> inflight_keys" where
  "reserveInflightBalanceScript fl srv now expireAt member amount balance ttlMs k =
     (let k1 = dropFinished now (liveKeys srv k);
          pending = inflightSum fl k1;
          cnt = int (length (ik_zset k1)) in
      if 0 < cnt \<and> fl (balance - pending) < amount then ((False, pending, cnt), k1)
      else ((True, pending, cnt), addMember srv expireAt member amount ttlMs k1))"

definition extendExpiry :: "int \<Rightarrow> int \<Rightarrow> int option \<Rightarrow> int option" where
  "extendExpiry srv ttlMs e =
     (case e of None \<Rightarrow> Some (srv + ttlMs)
              | Some x \<Rightarrow> if x - srv < ttlMs then Some (srv + ttlMs) else Some x)"

definition releaseInflightBalanceScript :: "int \<Rightarrow> gostring \<Rightarrow> inflight_keys \<Rightarrow> inflight_keys" where
  "releaseInflightBalanceScript srv member k =
     (let k1 = liveKeys srv k in
      tidy (k1\<lparr>ik_zset := map_del member (ik_zset k1), ik_hash := map_del member (ik_hash k1)\<rparr>))"

definition renewInflightBalanceScript ::
  "int \<Rightarrow> int \<Rightarrow> gostring \<Rightarrow> int \<Rightarrow> int \<Rightarrow> inflight_keys \<Rightarrow> bool \<times> inflight_keys" where
  "renewInflightBalanceScript srv now member expireAt ttlMs k =
     (let k1 = liveKeys srv k in
      case map_get (ik_zset k1) member of
        None \<Rightarrow> (False, k1)
      | Some score \<Rightarrow>
          if score \<le> now then
            (False, tidy (k1\<lparr>ik_zset := map_del member (ik_zset k1), ik_hash := map_del member (ik_hash k1)\<rparr>))
          else
            (True, tidy (k1\<lparr>ik_zset := map_put member expireAt (ik_zset k1),
                            ik_zexpire := extendExpiry srv ttlMs (ik_zexpire k1),
                            ik_hexpire := extendExpiry srv ttlMs (ik_hexpire k1)\<rparr>)))"

definition reserveInflightScopeScript ::
  "(real \<Rightarrow> real) \<Rightarrow> int \<Rightarrow> int \<Rightarrow> int \<Rightarrow> gostring \<Rightarrow> real \<Rightarrow> int \<Rightarrow> inflight_keys \<Rightarrow> real \<times> inflight_keys" where
  "reserveInflightScopeScript fl srv now expireAt member amount ttlMs k =
     (let k1 = dropFinished now (liveKeys srv k) in
      (inflightSum fl k1, addMember srv expireAt member amount ttlMs k1))"

subsection \<open>The cache\<close>

record inflight_cache =
  ic_users :: "int \<Rightarrow> inflight_keys"
  ic_scopes :: "gostring \<Rightarrow> inflight_keys"

text \<open>The readings of the two clocks.\<close>

record clocks =
  ck_now :: int
  ck_srv :: int

definition ttlMillis :: "goduration \<Rightarrow> int" where
  "ttlMillis ttl = (let ms = (if ttl < 0 then - ((- ttl) div millisecond) else ttl div millisecond) in
     if ms \<le> 0 then 1 else ms)"

definition ReserveInflightBalance ::
  "(real \<Rightarrow> real) \<Rightarrow> (real \<Rightarrow> real) \<Rightarrow> clocks \<Rightarrow> int \<Rightarrow> gostring \<Rightarrow> real \<Rightarrow> real \<Rightarrow> goduration \<Rightarrow> inflight_cache \<Rightarrow>
   (bool \<times> real) \<times> inflight_cache" where
  "ReserveInflightBalance fl txt ck userID requestID amount balance ttl c =
     (case reserveInflightBalanceScript fl (ck_srv ck) (ck_now ck) (ck_now ck + ttlMillis ttl) requestID
             amount balance (ttlMillis ttl) (ic_users c userID) of
        ((allowed, pending, _), k) \<Rightarrow> ((allowed, txt pending), c\<lparr>ic_users := (ic_users c)(userID := k)\<rparr>))"

definition ReleaseInflightBalance :: "clocks \<Rightarrow> int \<Rightarrow> gostring \<Rightarrow> inflight_cache \<Rightarrow> inflight_cache" where
  "ReleaseInflightBalance ck userID requestID c =
     c\<lparr>ic_users := (ic_users c)(userID := releaseInflightBalanceScript (ck_srv ck) requestID (ic_users c userID))\<rparr>"

definition RenewInflightBalance ::
  "clocks \<Rightarrow> int \<Rightarrow> gostring \<Rightarrow> goduration \<Rightarrow> inflight_cache \<Rightarrow> bool \<times> inflight_cache" where
  "RenewInflightBalance ck userID requestID ttl c =
     (case renewInflightBalanceScript (ck_srv ck) (ck_now ck) requestID (ck_now ck + ttlMillis ttl)
             (ttlMillis ttl) (ic_users c userID) of
        (alive, k) \<Rightarrow> (alive, c\<lparr>ic_users := (ic_users c)(userID := k)\<rparr>))"

definition ReserveInflightScope ::
  "(real \<Rightarrow> real) \<Rightarrow> (real \<Rightarrow> real) \<Rightarrow> clocks \<Rightarrow> gostring \<Rightarrow> gostring \<Rightarrow> real \<Rightarrow> goduration \<Rightarrow> inflight_cache \<Rightarrow>
   real \<times> inflight_cache" where
  "ReserveInflightScope fl txt ck scope requestID amount ttl c =
     (case reserveInflightScopeScript fl (ck_srv ck) (ck_now ck) (ck_now ck + ttlMillis ttl) requestID
             amount (ttlMillis ttl) (ic_scopes c scope) of
        (pending, k) \<Rightarrow> (txt pending, c\<lparr>ic_scopes := (ic_scopes c)(scope := k)\<rparr>))"

definition ReleaseInflightScope :: "clocks \<Rightarrow> gostring \<Rightarrow> gostring \<Rightarrow> inflight_cache \<Rightarrow> inflight_cache" where
  "ReleaseInflightScope ck scope requestID c =
     c\<lparr>ic_scopes := (ic_scopes c)(scope := releaseInflightBalanceScript (ck_srv ck) requestID (ic_scopes c scope))\<rparr>"

subsection \<open>Reserving\<close>

datatype float64 = Fin real | PosInf | NegInf | NaN

definition defaultInflightReservationTTL :: goduration where
  "defaultInflightReservationTTL = 15 * minute"

record inflight_config =
  if_Enabled :: bool
  if_SimpleMode :: bool
  if_MaxReservationUSD :: real
  if_TTLSeconds :: int

text \<open>
  The handle: whether it holds a reservation of the balance, the scopes in which it holds one,
  the reference count, the \<open>sync.Once\<close> flags and whether the renewal goroutine runs.
\<close>

record InflightReservation =
  rv_hasBalance :: bool
  rv_userID :: int
  rv_requestID :: gostring
  rv_amount :: real
  rv_ttl :: goduration
  rv_scopes :: "gostring list"
  rv_refs :: int
  rv_released :: bool
  rv_stopped :: bool
  rv_renewing :: bool

definition inflightReservationConfig :: "inflight_config option \<Rightarrow> inflight_config option" where
  "inflightReservationConfig cfg =
     (case cfg of
        None \<Rightarrow> None
      | Some c \<Rightarrow> if \<not> if_Enabled c \<or> if_SimpleMode c then None else Some c)"

definition reservationTTL :: "inflight_config \<Rightarrow> goduration" where
  "reservationTTL cfg =
     (if 0 < if_TTLSeconds cfg then wrap64 (if_TTLSeconds cfg * second) else defaultInflightReservationTTL)"

definition capEstimate :: "inflight_config \<Rightarrow> bool \<Rightarrow> float64 \<Rightarrow> float64" where
  "capEstimate cfg capped estimate =
     (if capped \<and> 0 < if_MaxReservationUSD cfg \<and>
         (case estimate of Fin x \<Rightarrow> if_MaxReservationUSD cfg < x | PosInf \<Rightarrow> True | _ \<Rightarrow> False)
      then Fin (if_MaxReservationUSD cfg) else estimate)"

datatype reserve_error = InsufficientBalance

text \<open>
  The balance is \<open>None\<close> where reading it fails, the store \<open>None\<close> where the cache has no
  reservations, and \<open>works\<close> tells whether the call reaches the store; where one of them fails,
  the request is admitted without a reservation.
\<close>

definition reserveInflight ::
  "(real \<Rightarrow> real) \<Rightarrow> (real \<Rightarrow> real) \<Rightarrow> inflight_config option \<Rightarrow> clocks \<Rightarrow> gostring \<Rightarrow> int option \<Rightarrow> bool \<Rightarrow> float64 \<Rightarrow>
   bool \<Rightarrow> bool \<Rightarrow> real option \<Rightarrow> bool \<Rightarrow> inflight_cache option \<Rightarrow>
   (reserve_error + InflightReservation option) \<times> inflight_cache option" where
  "reserveInflight fl txt cfg ck uuid user bySubscription estimate renew capped balance works cache =
     (case (inflightReservationConfig cfg, user) of
        (Some cf, Some userID) \<Rightarrow>
          if bySubscription then (Inr None, cache)
          else
            (case capEstimate cf capped estimate of
               Fin amount \<Rightarrow>
                 if amount \<le> 0 \<or> \<not> works then (Inr None, cache)
                 else
                   (case (cache, balance) of
                      (Some c, Some b) \<Rightarrow>
                        (let ((allowed, _), c1) =
                           ReserveInflightBalance fl txt ck userID uuid amount b (reservationTTL cf) c in
                         if \<not> allowed then (Inl InsufficientBalance, Some c1)
                         else
                           (Inr (Some \<lparr>rv_hasBalance = True, rv_userID = userID, rv_requestID = uuid,
                              rv_amount = amount, rv_ttl = reservationTTL cf, rv_scopes = [], rv_refs = 1,
                              rv_released = False, rv_stopped = False, rv_renewing = renew\<rparr>), Some c1))
                    | _ \<Rightarrow> (Inr None, cache))
             | _ \<Rightarrow> (Inr None, cache))
      | _ \<Rightarrow> (Inr None, cache))"

definition reserveInflightScope ::
  "(real \<Rightarrow> real) \<Rightarrow> (real \<Rightarrow> real) \<Rightarrow> inflight_config option \<Rightarrow> clocks \<Rightarrow> gostring \<Rightarrow> InflightReservation option \<Rightarrow> int \<Rightarrow>
   gostring \<Rightarrow> real \<Rightarrow> bool \<Rightarrow> inflight_cache option \<Rightarrow>
   (InflightReservation option \<times> real) \<times> inflight_cache option" where
  "reserveInflightScope fl txt cfg ck uuid res userID scope amount works cache =
     (case (inflightReservationConfig cfg, cache) of
        (Some cf, Some c) \<Rightarrow>
          (let r = (case res of
                      Some r \<Rightarrow> r
                    | None \<Rightarrow> \<lparr>rv_hasBalance = False, rv_userID = userID, rv_requestID = uuid,
                        rv_amount = amount, rv_ttl = reservationTTL cf, rv_scopes = [], rv_refs = 1,
                        rv_released = False, rv_stopped = False, rv_renewing = False\<rparr>);
               (pending, c1) = ReserveInflightScope fl txt ck scope (rv_requestID r) amount (rv_ttl r) c
           in if \<not> works then ((Some r, 0), cache) else ((Some (r\<lparr>rv_scopes := rv_scopes r @ [scope]\<rparr>), pending), Some c1))
      | _ \<Rightarrow> ((res, 0), cache))"

subsection \<open>The handle\<close>

text \<open>\<open>Acquire\<close>: the compare-and-swap loop takes effect in one step, or gives the no-op.\<close>

definition Acquire :: "InflightReservation \<Rightarrow> InflightReservation \<times> bool" where
  "Acquire r = (if rv_refs r \<le> 0 then (r, False) else (r\<lparr>rv_refs := rv_refs r + 1\<rparr>, True))"

text \<open>The decrement of \<open>decRef\<close>, and whether the release has to follow.\<close>

definition decRef :: "InflightReservation \<Rightarrow> InflightReservation \<times> bool" where
  "decRef r = (r\<lparr>rv_refs := rv_refs r - 1\<rparr>, rv_refs r - 1 \<le> 0)"

definition stopRenewal :: "InflightReservation \<Rightarrow> InflightReservation" where
  "stopRenewal r = r\<lparr>rv_renewing := False\<rparr>"

text \<open>\<open>HandlerDone\<close> up to the decrement: the first call stops the renewal.\<close>

definition HandlerDone :: "InflightReservation \<Rightarrow> InflightReservation \<times> bool" where
  "HandlerDone r = (if rv_stopped r then (r, False) else (stopRenewal (r\<lparr>rv_stopped := True\<rparr>), True))"

definition Release :: "clocks \<Rightarrow> InflightReservation \<Rightarrow> inflight_cache \<Rightarrow> InflightReservation \<times> inflight_cache" where
  "Release ck r c =
     (let r1 = stopRenewal r in
      if rv_released r1 then (r1, c)
      else
        (r1\<lparr>rv_released := True, rv_refs := 0\<rparr>,
         fold (\<lambda>scope. ReleaseInflightScope ck scope (rv_requestID r1)) (rv_scopes r1)
           (if rv_hasBalance r1 then ReleaseInflightBalance ck (rv_userID r1) (rv_requestID r1) c else c)))"

text \<open>One tick of the renewal goroutine.\<close>

definition renewTick :: "clocks \<Rightarrow> InflightReservation \<Rightarrow> inflight_cache \<Rightarrow> InflightReservation \<times> inflight_cache" where
  "renewTick ck r c =
     (if \<not> rv_renewing r then (r, c)
      else
        (case RenewInflightBalance ck (rv_userID r) (rv_requestID r) (rv_ttl r) c of
           (alive, c1) \<Rightarrow> (if alive then r else r\<lparr>rv_renewing := False\<rparr>, c1)))"

end
