(* ===== verification/InflightProofs.thy ===== *)
theory InflightProofs
  imports Inflight
begin

text \<open>
  Properties of the reservations in flight: the two keys of a user stay consistent, the
  reservations admitted beside each other never add up to more than the balance, a reservation
  lasts until its expiry whatever other requests do, and the handle gives it back exactly once,
  when the handler and all its billing tasks are done.
\<close>

subsection \<open>The two keys agree\<close>

definition keys_ok :: "inflight_keys \<Rightarrow> bool" where
  "keys_ok k \<longleftrightarrow> map_wf (ik_zset k) \<and> map_wf (ik_hash k) \<and>
     set (map fst (ik_zset k)) = set (map fst (ik_hash k)) \<and> ik_zexpire k = ik_hexpire k"

lemma keys_ok_empty: "keys_ok noKeys"
  by (simp add: keys_ok_def noKeys_def)

lemma keys_ok_both_empty: "keys_ok k \<Longrightarrow> ik_zset k = [] \<longleftrightarrow> ik_hash k = []"
  by (auto simp: keys_ok_def)

lemma keys_ok_length: "keys_ok k \<Longrightarrow> length (ik_zset k) = length (ik_hash k)"
  unfolding keys_ok_def map_wf_def by (metis distinct_card length_map)

lemma keys_ok_tidy: "keys_ok k \<Longrightarrow> keys_ok (tidy k)"
  using keys_ok_both_empty [of k] by (simp add: keys_ok_def tidy_def)

lemma keys_ok_live: "keys_ok k \<Longrightarrow> keys_ok (liveKeys srv k)"
  by (auto simp: keys_ok_def liveKeys_def Let_def expired_at_def split: option.splits)

lemma keys_ok_drop:
  assumes "keys_ok k"
  shows "keys_ok (dropFinished now k)"
proof -
  let ?z = "filter (\<lambda>(_, score). \<not> score \<le> now) (ik_zset k)"
  let ?f = "set (map fst (filter (\<lambda>(_, score). score \<le> now) (ik_zset k)))"
  let ?h = "filter (\<lambda>(m, _). m \<notin> ?f) (ik_hash k)"
  have wf: "map_wf (ik_zset k)" and keys: "fst ` set (ik_zset k) = fst ` set (ik_hash k)"
    using assms by (simp_all add: keys_ok_def)
  have one: "a = b" if "(m, a) \<in> set (ik_zset k)" "(m, b) \<in> set (ik_zset k)" for m a b
    using that wf by (simp add: map_wf_def eq_key_imp_eq_value)
  have "m \<in> fst ` set ?z \<longleftrightarrow> m \<in> fst ` set ?h" for m
  proof
    assume "m \<in> fst ` set ?z"
    then obtain a where a: "(m, a) \<in> set (ik_zset k)" "\<not> a \<le> now" by auto
    have "m \<notin> ?f" using one [OF a(1)] a(2) by auto
    moreover from a(1) have "m \<in> fst ` set (ik_hash k)" unfolding keys [symmetric] by force
    ultimately show "m \<in> fst ` set ?h" by force
  next
    assume "m \<in> fst ` set ?h"
    then obtain b where b: "(m, b) \<in> set ?h" by force
    then have nf: "m \<notin> ?f" by simp
    have "(m, b) \<in> set (ik_hash k)" using b by simp
    then have "m \<in> fst ` set (ik_zset k)" unfolding keys by force
    then obtain a where za: "(m, a) \<in> set (ik_zset k)" by auto
    moreover have "\<not> a \<le> now"
    proof
      assume "a \<le> now"
      then have "(m, a) \<in> set (filter (\<lambda>(_, score). score \<le> now) (ik_zset k))" using za by simp
      then have "fst (m, a) \<in> fst ` set (filter (\<lambda>(_, score). score \<le> now) (ik_zset k))" by (rule imageI)
      then show False using nf by simp
    qed
    ultimately show "m \<in> fst ` set ?z" by force
  qed
  then have "set (map fst ?z) = set (map fst ?h)" by auto
  then have "keys_ok (k\<lparr>ik_zset := ?z, ik_hash := ?h\<rparr>)"
    using assms by (simp add: keys_ok_def)
  then show ?thesis by (simp add: dropFinished_def Let_def keys_ok_tidy)
qed

lemma keys_ok_add: "keys_ok k \<Longrightarrow> keys_ok (addMember srv e m a ttl k)"
  by (simp add: keys_ok_def addMember_def dom_update)

lemma keys_ok_del:
  "keys_ok k \<Longrightarrow> keys_ok (tidy (k\<lparr>ik_zset := map_del m (ik_zset k), ik_hash := map_del m (ik_hash k)\<rparr>))"
  by (rule keys_ok_tidy) (simp add: keys_ok_def delete_keys)

subsection \<open>Sequences of operations\<close>

text \<open>
  What the requests of one user do to the user's keys, each at its own time. The sums that are
  answered do not matter here.
\<close>

datatype user_op = OpReserve gostring real real goduration | OpRenew gostring goduration | OpRelease gostring

fun user_step :: "(real \<Rightarrow> real) \<Rightarrow> int \<Rightarrow> clocks \<times> user_op \<Rightarrow> inflight_cache \<Rightarrow> inflight_cache" where
  "user_step fl u (ck, OpReserve m amount balance ttl) c = snd (ReserveInflightBalance fl (\<lambda>x. x) ck u m amount balance ttl c)"
| "user_step fl u (ck, OpRenew m ttl) c = snd (RenewInflightBalance ck u m ttl c)"
| "user_step fl u (ck, OpRelease m) c = ReleaseInflightBalance ck u m c"

definition user_run :: "(real \<Rightarrow> real) \<Rightarrow> int \<Rightarrow> (clocks \<times> user_op) list \<Rightarrow> inflight_cache \<Rightarrow> inflight_cache" where
  "user_run fl u ops c = fold (user_step fl u) ops c"

definition noReservations :: inflight_cache where
  "noReservations = \<lparr>ic_users = (\<lambda>_. noKeys), ic_scopes = (\<lambda>_. noKeys)\<rparr>"

text \<open>The step on the keys of the user.\<close>

fun keys_step :: "(real \<Rightarrow> real) \<Rightarrow> clocks \<times> user_op \<Rightarrow> inflight_keys \<Rightarrow> inflight_keys" where
  "keys_step fl (ck, OpReserve m amount balance ttl) k =
     snd (reserveInflightBalanceScript fl (ck_srv ck) (ck_now ck) (ck_now ck + ttlMillis ttl) m amount
       balance (ttlMillis ttl) k)"
| "keys_step fl (ck, OpRenew m ttl) k =
     snd (renewInflightBalanceScript (ck_srv ck) (ck_now ck) m (ck_now ck + ttlMillis ttl) (ttlMillis ttl) k)"
| "keys_step fl (ck, OpRelease m) k = releaseInflightBalanceScript (ck_srv ck) m k"

lemma user_step_keys: "ic_users (user_step fl u op c) u = keys_step fl op (ic_users c u)"
  by (cases "(fl, u, op, c)" rule: user_step.cases)
    (simp_all add: ReserveInflightBalance_def RenewInflightBalance_def ReleaseInflightBalance_def
      split: prod.split)

lemma user_run_keys: "ic_users (user_run fl u ops c) u = fold (keys_step fl) ops (ic_users c u)"
  unfolding user_run_def by (induction ops arbitrary: c) (simp_all add: user_step_keys)

lemma reserve_cases:
  "snd (reserveInflightBalanceScript fl srv now e m a b ttl k) =
     (let k1 = dropFinished now (liveKeys srv k) in
      if ik_zset k1 \<noteq> [] \<and> fl (b - inflightSum fl k1) < a then k1 else addMember srv e m a ttl k1)"
  by (simp add: reserveInflightBalanceScript_def Let_def)

lemma keys_ok_renewed:
  assumes "keys_ok k" and "map_get (ik_zset k) m = Some score"
  shows "keys_ok (tidy (k\<lparr>ik_zset := map_put m e (ik_zset k),
     ik_zexpire := extendExpiry srv ttl (ik_zexpire k), ik_hexpire := extendExpiry srv ttl (ik_hexpire k)\<rparr>))"
proof -
  have "m \<in> set (map fst (ik_hash k))"
    using assms map_get_None_iff [of "ik_zset k" m] by (auto simp: keys_ok_def)
  then show ?thesis
    using assms(1) by (intro keys_ok_tidy) (auto simp: keys_ok_def dom_update)
qed

lemma keys_step_ok: "keys_ok k \<Longrightarrow> keys_ok (keys_step fl op k)"
proof (cases "(fl, op, k)" rule: keys_step.cases)
  case (1 fl' ck m amount balance ttl k')
  moreover assume "keys_ok k"
  ultimately show ?thesis
    by (simp add: reserve_cases Let_def keys_ok_drop keys_ok_live keys_ok_add)
next
  case (2 fl' ck m ttl k')
  assume "keys_ok k"
  then have "keys_ok (liveKeys (ck_srv ck) k)" by (rule keys_ok_live)
  then show ?thesis
    using 2 keys_ok_renewed keys_ok_del
    by (simp add: renewInflightBalanceScript_def Let_def split: option.split)
next
  case (3 fl' ck m k')
  moreover assume "keys_ok k"
  ultimately show ?thesis
    by (simp add: releaseInflightBalanceScript_def Let_def keys_ok_del keys_ok_live)
qed

subsection \<open>No overcommitment\<close>

definition reserved_sum :: "inflight_keys \<Rightarrow> real" where
  "reserved_sum k = sum_list (map snd (ik_hash k))"

lemma inflightSum_exact: "inflightSum (\<lambda>x. x) k = reserved_sum k"
proof -
  have "foldl (\<lambda>s v. s + v) a vs = a + sum_list vs" for a :: real and vs
    by (induction vs arbitrary: a) simp_all
  then show ?thesis by (simp add: inflightSum_def reserved_sum_def)
qed

definition covered :: "real \<Rightarrow> inflight_keys \<Rightarrow> bool" where
  "covered B k \<longleftrightarrow> (\<forall>a \<in> set (map snd (ik_hash k)). 0 < a) \<and>
     (length (ik_hash k) \<le> 1 \<or> reserved_sum k \<le> B)"

lemma sum_list_filter_le:
  "(\<forall>a \<in> snd ` set m. 0 < (a :: real)) \<Longrightarrow> sum_list (map snd (filter P m)) \<le> sum_list (map snd m)"
  by (induction m) auto

lemma covered_filter: "covered B k \<Longrightarrow> covered B (k\<lparr>ik_hash := filter P (ik_hash k)\<rparr>)"
proof -
  assume c: "covered B k"
  then have pos: "\<forall>a \<in> snd ` set (ik_hash k). 0 < a" by (simp add: covered_def)
  have le: "length (filter P (ik_hash k)) \<le> length (ik_hash k)" by (rule length_filter_le)
  have "length (filter P (ik_hash k)) \<le> 1 \<or> sum_list (map snd (filter P (ik_hash k))) \<le> B"
  proof (cases "length (ik_hash k) \<le> 1")
    case True
    then show ?thesis using le by (intro disjI1) (rule le_trans)
  next
    case False
    then show ?thesis
      using c sum_list_filter_le [OF pos, of P] by (intro disjI2) (simp add: covered_def reserved_sum_def)
  qed
  then show ?thesis using pos by (auto simp: covered_def reserved_sum_def)
qed

lemma map_del_filter: "map_del m xs = filter (\<lambda>(k, _). k \<noteq> m) xs"
  by (auto simp: AList.delete_eq intro: filter_cong)

lemma covered_same_hash: "ik_hash k' = ik_hash k \<Longrightarrow> covered B k' = covered B k"
  by (simp add: covered_def reserved_sum_def)

lemma covered_live: "covered B k \<Longrightarrow> covered B (liveKeys srv k)"
  by (auto simp: covered_def reserved_sum_def liveKeys_def Let_def)

lemma covered_drop: "covered B k \<Longrightarrow> covered B (dropFinished now k)"
  using covered_filter [of B k] by (simp add: dropFinished_def Let_def tidy_def covered_def reserved_sum_def)

lemma covered_del: "covered B k \<Longrightarrow> covered B (tidy (k\<lparr>ik_zset := z, ik_hash := map_del m (ik_hash k)\<rparr>))"
  using covered_filter [of B k] by (simp add: map_del_filter tidy_def covered_def reserved_sum_def)

text \<open>A new reservation comes on top, or replaces one of the same id, which only lowers the sum.\<close>

lemma sum_put:
  assumes "\<forall>a \<in> snd ` set m. 0 < (a :: real)"
  shows "sum_list (map snd (map_put k v m)) \<le> sum_list (map snd m) + v"
  using assms by (induction m) auto

lemma put_positive: "\<forall>a \<in> snd ` set m. 0 < (a :: real) \<Longrightarrow> 0 < v \<Longrightarrow> \<forall>a \<in> snd ` set (map_put k v m). 0 < a"
  by (induction m) auto

lemma covered_reserve:
  assumes "keys_ok k" and "covered B k" and "0 < a" and "b \<le> B"
  shows "covered B (snd (reserveInflightBalanceScript (\<lambda>x. x) srv now e m a b ttl k))"
proof -
  define k1 where "k1 = dropFinished now (liveKeys srv k)"
  have c1: "covered B k1" and ok1: "keys_ok k1"
    using assms by (simp_all add: k1_def covered_drop covered_live keys_ok_drop keys_ok_live)
  have pos: "\<forall>x \<in> snd ` set (ik_hash k1). 0 < x" using c1 by (simp add: covered_def)
  have "covered B (addMember srv e m a ttl k1)"
    if "ik_zset k1 = [] \<or> a \<le> b - reserved_sum k1"
  proof (cases "ik_hash k1 = []")
    case True
    then show ?thesis using assms(3) by (simp add: covered_def addMember_def)
  next
    case False
    then have "ik_zset k1 \<noteq> []" using keys_ok_both_empty [OF ok1] by simp
    then have "reserved_sum k1 + a \<le> B" using that assms(4) by simp
    then have "sum_list (map snd (map_put m a (ik_hash k1))) \<le> B"
      using sum_put [OF pos, of m a] by (simp add: reserved_sum_def)
    then show ?thesis
      using put_positive [OF pos assms(3), of m] by (simp add: covered_def addMember_def reserved_sum_def)
  qed
  then show ?thesis
    using c1 by (auto simp: reserve_cases Let_def k1_def [symmetric] inflightSum_exact)
qed

definition small_op :: "real \<Rightarrow> user_op \<Rightarrow> bool" where
  "small_op B op = (case op of OpReserve m a b ttl \<Rightarrow> 0 < a \<and> b \<le> B | _ \<Rightarrow> True)"

lemma covered_step:
  assumes "keys_ok k" and "covered B k" and "small_op B (snd op)"
  shows "covered B (keys_step (\<lambda>x. x) op k)"
proof (cases "(\<lambda>x::real. x, op, k)" rule: keys_step.cases)
  case (1 fl ck m amount balance ttl k')
  then show ?thesis using assms covered_reserve [OF assms(1,2)] by (auto simp: small_op_def)
next
  case (2 fl ck m ttl k')
  have "covered B (liveKeys (ck_srv ck) k)" using assms(2) by (rule covered_live)
  then show ?thesis
    using 2 covered_del [of B "liveKeys (ck_srv ck) k"]
    by (auto simp: renewInflightBalanceScript_def Let_def tidy_def covered_def reserved_sum_def
        split: option.split)
next
  case (3 fl ck m k')
  then show ?thesis
    using covered_del [OF covered_live [OF assms(2), of "ck_srv ck"]]
    by (simp add: releaseInflightBalanceScript_def Let_def)
qed

text \<open>
  C17: whatever reservations, renewals and releases the requests of a user make, in whatever order
  and with whatever clocks, the two keys have the same members, and the reservations in flight
  never add up to more than the largest balance any of them was checked against, as soon as there
  are two of them: only a request that is alone is admitted without that check. The amounts are
  positive, and sums are taken exactly.
\<close>

theorem no_overcommit:
  assumes "\<And>op. op \<in> set ops \<Longrightarrow> small_op B (snd op)"
  shows "let k = ic_users (user_run (\<lambda>x. x) u ops noReservations) u in
     keys_ok k \<and> (length (ik_hash k) \<le> 1 \<or> reserved_sum k \<le> B)"
proof -
  have "keys_ok k \<Longrightarrow> covered B k \<Longrightarrow> keys_ok (fold (keys_step (\<lambda>x. x)) ops k) \<and>
      covered B (fold (keys_step (\<lambda>x. x)) ops k)" for k
    using assms
  proof (induction ops arbitrary: k)
    case (Cons op ops)
    have "keys_ok (keys_step (\<lambda>x. x) op k)" "covered B (keys_step (\<lambda>x. x) op k)"
      using keys_step_ok [OF Cons.prems(1)] covered_step [OF Cons.prems(1,2)] Cons.prems(3) by simp_all
    then show ?case using Cons.IH Cons.prems(3) by simp
  qed simp
  moreover have "covered B noKeys" by (simp add: covered_def noKeys_def)
  ultimately show ?thesis
    using keys_ok_empty by (simp add: user_run_keys noReservations_def covered_def Let_def)
qed

definition at_time :: "int \<Rightarrow> clocks" where
  "at_time t = \<lparr>ck_now = t, ck_srv = t\<rparr>"

definition demo_ops :: "(clocks \<times> user_op) list" where
  "demo_ops = [(at_time 0, OpReserve ''a'' 6 10 minute), (at_time 5, OpReserve ''b'' 5 10 minute),
     (at_time 9, OpReserve ''c'' 4 10 minute)]"

text \<open>The second of three requests is refused: 6 and 5 exceed 10, 6 and 4 do not.\<close>

theorem no_overcommit_witness:
  "let k = ic_users (user_run (\<lambda>x. x) 7 demo_ops noReservations) 7 in
     map fst (ik_hash k) = [''a'', ''c''] \<and> (length (ik_hash k) \<le> 1 \<or> reserved_sum k \<le> 10)"
proof -
  have s: "\<And>op. op \<in> set demo_ops \<Longrightarrow> small_op 10 (snd op)"
    by (auto simp: demo_ops_def small_op_def)
  have "map fst (ik_hash (ic_users (user_run (\<lambda>x. x) 7 demo_ops noReservations) 7)) = [''a'', ''c'']"
    by (simp add: user_run_keys demo_ops_def noReservations_def reserve_cases dropFinished_def liveKeys_def
        noKeys_def addMember_def tidy_def expired_at_def inflightSum_def at_time_def ttlMillis_def
        minute_def millisecond_def Let_def)
  then show ?thesis
    using no_overcommit [of demo_ops 10 7, OF s] by (simp add: Let_def)
qed

subsection \<open>A reservation lasts\<close>

definition holds :: "gostring \<Rightarrow> real \<Rightarrow> int \<Rightarrow> inflight_keys \<Rightarrow> bool" where
  "holds m amount until k \<longleftrightarrow> keys_ok k \<and> map_get (ik_hash k) m = Some amount \<and>
     (\<exists>e. map_get (ik_zset k) m = Some e \<and> until \<le> e) \<and> (\<exists>x. ik_zexpire k = Some x \<and> until \<le> x)"

lemma holds_nonempty: "holds m amount until k \<Longrightarrow> ik_zset k \<noteq> [] \<and> ik_hash k \<noteq> []"
  by (auto simp: holds_def)

lemma holds_live: "holds m amount until k \<Longrightarrow> srv < until \<Longrightarrow> liveKeys srv k = k"
  by (auto simp: holds_def keys_ok_def liveKeys_def expired_at_def Let_def split: option.splits)

lemma holds_tidy: "holds m amount until k \<Longrightarrow> tidy k = k"
  using holds_nonempty [of m amount until k] by (simp add: tidy_def)

lemma holds_drop:
  assumes "holds m amount until k" and "now < until"
  shows "holds m amount until (dropFinished now k)"
proof -
  obtain e where e: "map_get (ik_zset k) m = Some e" "until \<le> e" using assms(1) by (auto simp: holds_def)
  have wf: "map_wf (ik_zset k)" "map_wf (ik_hash k)" using assms(1) by (simp_all add: holds_def keys_ok_def)
  define f where "f = set (map fst (filter (\<lambda>(_, score). score \<le> now) (ik_zset k)))"
  define z where "z = filter (\<lambda>(k, score). \<not> score \<le> now) (ik_zset k)"
  define h where "h = filter (\<lambda>(k, v). k \<notin> f) (ik_hash k)"
  have "map_get (filter (\<lambda>(k, score). score \<le> now) (ik_zset k)) m = None"
    unfolding map_get_filter [OF wf(1), of "\<lambda>k score. score \<le> now"] using e assms(2) by simp
  then have "m \<notin> f" unfolding f_def map_get_None_iff by simp
  then have "map_get h m = Some amount"
    unfolding h_def map_get_filter [OF wf(2), of "\<lambda>k v. k \<notin> f"] using assms(1) by (simp add: holds_def)
  moreover have "map_get z m = Some e"
    unfolding z_def map_get_filter [OF wf(1), of "\<lambda>k score. \<not> score \<le> now"] using e assms(2) by simp
  moreover have "dropFinished now k = tidy (k\<lparr>ik_zset := z, ik_hash := h\<rparr>)"
    by (simp add: dropFinished_def z_def h_def f_def Let_def)
  moreover from calculation have "z \<noteq> []" "h \<noteq> []" by auto
  ultimately show ?thesis
    using keys_ok_drop [of k now] assms(1) e(2) by (auto simp: holds_def tidy_def)
qed

definition other_op :: "gostring \<Rightarrow> goduration \<Rightarrow> user_op \<Rightarrow> bool" where
  "other_op m ttl op =
     (case op of OpReserve m' _ _ ttl' \<Rightarrow> m' \<noteq> m \<and> ttl' = ttl
               | OpRenew _ ttl' \<Rightarrow> ttl' = ttl
               | OpRelease m' \<Rightarrow> m' \<noteq> m)"

lemma holds_add:
  assumes "holds m amount until k" and "m' \<noteq> m" and "until \<le> srv + ttl"
  shows "holds m amount until (addMember srv e m' a ttl k)"
proof -
  have "keys_ok (addMember srv e m' a ttl k)" using assms(1) by (simp add: holds_def keys_ok_add)
  then show ?thesis using assms by (auto simp: holds_def addMember_def)
qed

lemma holds_del:
  assumes "holds m amount until k" and "m' \<noteq> m"
  shows "holds m amount until (tidy (k\<lparr>ik_zset := map_del m' (ik_zset k), ik_hash := map_del m' (ik_hash k)\<rparr>))"
proof -
  let ?k = "k\<lparr>ik_zset := map_del m' (ik_zset k), ik_hash := map_del m' (ik_hash k)\<rparr>"
  have "keys_ok ?k" using assms(1) by (simp add: holds_def keys_ok_def delete_keys)
  then have "holds m amount until ?k" using assms by (auto simp: holds_def)
  then show ?thesis by (simp only: holds_tidy)
qed

lemma holds_renew:
  assumes "holds m amount until k" and "until \<le> srv + ttl" and "until \<le> e"
    and "map_get (ik_zset k) m' = Some score"
  shows "holds m amount until (tidy (k\<lparr>ik_zset := map_put m' e (ik_zset k),
     ik_zexpire := extendExpiry srv ttl (ik_zexpire k), ik_hexpire := extendExpiry srv ttl (ik_hexpire k)\<rparr>))"
proof -
  let ?k = "k\<lparr>ik_zset := map_put m' e (ik_zset k),
     ik_zexpire := extendExpiry srv ttl (ik_zexpire k), ik_hexpire := extendExpiry srv ttl (ik_hexpire k)\<rparr>"
  have "keys_ok (tidy ?k)" using assms(1,4) by (intro keys_ok_renewed) (simp_all add: holds_def)
  moreover have "ik_zset ?k \<noteq> []" "ik_hash ?k \<noteq> []"
    using holds_nonempty [OF assms(1)] by (cases "ik_zset k", auto)+
  moreover from this have "tidy ?k = ?k" by (simp add: tidy_def)
  ultimately show ?thesis using assms(1-3) by (auto simp: holds_def extendExpiry_def)
qed

lemma holds_step:
  assumes "holds m amount until k" and "other_op m ttl op" and "t < until" and "until \<le> t + ttlMillis ttl"
  shows "holds m amount until (keys_step fl (at_time t, op) k)"
proof (cases op)
  case (OpReserve m' a b ttl')
  have l: "liveKeys t k = k" using holds_live [OF assms(1,3)] .
  have d: "holds m amount until (dropFinished t k)" using holds_drop [OF assms(1,3)] .
  then show ?thesis
    using OpReserve assms(2,4) holds_add [OF d]
    by (simp add: reserve_cases at_time_def l Let_def other_op_def)
next
  case (OpRenew m' ttl')
  have l: "liveKeys t k = k" using holds_live [OF assms(1,3)] .
  show ?thesis
  proof (cases "map_get (ik_zset k) m'")
    case None
    then show ?thesis using assms(1) OpRenew by (simp add: renewInflightBalanceScript_def at_time_def l Let_def)
  next
    case (Some score)
    have "m' \<noteq> m" if "score \<le> t" using that Some assms(1,3) by (auto simp: holds_def)
    then show ?thesis
      using OpRenew Some assms(2,4) holds_del [OF assms(1), of m'] holds_renew [OF assms(1) assms(4) assms(4) Some]
      by (simp add: renewInflightBalanceScript_def at_time_def l Let_def other_op_def)
  qed
next
  case (OpRelease m')
  then show ?thesis
    using assms(2) holds_del [OF assms(1), of m'] holds_live [OF assms(1,3)]
    by (simp add: releaseInflightBalanceScript_def at_time_def Let_def other_op_def)
qed

text \<open>
  An admitted reservation is counted until its time is over, whatever other requests of the
  user reserve, renew or release meanwhile: as long as nobody releases it, it is still in the keys,
  with its amount, at every time before its expiry, and so no later request is admitted without
  it. Client and server clocks agree, and all requests use the same lifetime.
\<close>

theorem reservation_survives:
  assumes "ReserveInflightBalance fl txt (at_time t0) u m amount balance ttl c = ((True, pending), c1)"
    and "keys_ok (ic_users c u)"
    and "\<And>t op. (t, op) \<in> set ops \<Longrightarrow> t0 \<le> t \<and> t < t0 + ttlMillis ttl \<and> other_op m ttl op"
    and "t < t0 + ttlMillis ttl"
  shows "map_get (ik_hash (dropFinished t (liveKeys t
     (ic_users (user_run fl u (map (\<lambda>(t, op). (at_time t, op)) ops) c1) u)))) m = Some amount"
proof -
  define until where "until = t0 + ttlMillis ttl"
  have "holds m amount until (addMember t0 until m amount (ttlMillis ttl) k)" if "keys_ok k" for k
  proof -
    have "keys_ok (addMember t0 until m amount (ttlMillis ttl) k)" using that by (rule keys_ok_add)
    then show ?thesis by (simp add: holds_def addMember_def until_def)
  qed
  moreover have "ic_users c1 u =
      addMember t0 until m amount (ttlMillis ttl) (dropFinished t0 (liveKeys t0 (ic_users c u)))"
    using assms(1) by (auto simp: ReserveInflightBalance_def reserveInflightBalanceScript_def Let_def
        at_time_def until_def split: if_splits)
  ultimately have start: "holds m amount until (ic_users c1 u)"
    using assms(2) by (simp add: keys_ok_drop keys_ok_live)
  have "holds m amount until k \<Longrightarrow>
      holds m amount until (fold (keys_step fl) (map (\<lambda>(t, op). (at_time t, op)) ops) k)" for k
    using assms(3)
  proof (induction ops arbitrary: k)
    case (Cons o1 ops)
    obtain t1 op1 where o1: "o1 = (t1, op1)" by (cases o1)
    have c: "t0 \<le> t1 \<and> t1 < until \<and> other_op m ttl op1"
      using Cons.prems(2) [of t1 op1] o1 by (simp add: until_def)
    then have "holds m amount until (keys_step fl (at_time t1, op1) k)"
      using Cons.prems(1) by (intro holds_step [of m amount until k ttl]) (simp_all add: until_def)
    then have h: "holds m amount until (keys_step fl (at_time t1, op1) k)"
      by simp
    have rest: "t0 \<le> t' \<and> t' < t0 + ttlMillis ttl \<and> other_op m ttl op" if "(t', op) \<in> set ops" for t' op
      using Cons.prems(2) [of t' op] that by simp
    show ?case using Cons.IH [OF h rest] o1 by simp
  qed simp
  then have "holds m amount until (ic_users (user_run fl u (map (\<lambda>(t, op). (at_time t, op)) ops) c1) u)"
    using start by (simp add: user_run_keys)
  then have "holds m amount until (dropFinished t (liveKeys t
      (ic_users (user_run fl u (map (\<lambda>(t, op). (at_time t, op)) ops) c1) u)))"
    using assms(4) holds_live [of m amount until _ t] holds_drop [of m amount until _ t]
    by (simp add: until_def)
  then show ?thesis by (simp add: holds_def)
qed

theorem reservation_survives_witness:
  "\<exists>pending c1. ReserveInflightBalance (\<lambda>x. x) (\<lambda>x. x) (at_time 100) 7 ''a'' 6 10 minute noReservations = ((True, pending), c1) \<and>
     map_get (ik_hash (dropFinished 50000 (liveKeys 50000 (ic_users (user_run (\<lambda>x. x) 7
       (map (\<lambda>(t, op). (at_time t, op)) [(200, OpReserve ''b'' 1 10 minute), (300, OpRelease ''b'')]) c1) 7)))) ''a''
     = Some 6"
proof -
  obtain pending c1 where r:
    "ReserveInflightBalance (\<lambda>x. x) (\<lambda>x. x) (at_time 100) 7 ''a'' 6 10 minute noReservations = ((True, pending), c1)"
    by (simp add: ReserveInflightBalance_def reserveInflightBalanceScript_def noReservations_def noKeys_def
        dropFinished_def liveKeys_def expired_at_def tidy_def Let_def)
  have ok: "keys_ok (ic_users noReservations 7)" by (simp add: noReservations_def keys_ok_empty)
  have "map_get (ik_hash (dropFinished 50000 (liveKeys 50000 (ic_users (user_run (\<lambda>x. x) 7
       (map (\<lambda>(t, op). (at_time t, op)) [(200, OpReserve ''b'' 1 10 minute), (300, OpRelease ''b'')]) c1) 7)))) ''a''
     = Some 6"
    by (rule reservation_survives [OF r ok])
      (auto simp: other_op_def ttlMillis_def minute_def millisecond_def)
  then show ?thesis using r by blast
qed

end
