(* ===== verification/InflightHandle.thy ===== *)
theory InflightHandle
  imports InflightProofs
begin

text \<open>
  The life of a reservation handle as a transition system: the handler, the billing tasks it hands
  the reservation to, the renewal goroutine and the other requests of the user interleave in any
  order. A decrement of the reference count and the release it may call for are separate steps, as
  in \<open>decRef\<close>. The direct calls of \<open>Release\<close>, which do not wait for the references, are no steps
  here.
\<close>

subsection \<open>The transition system\<close>

text \<open>
  \<open>w_tasks\<close> counts the acquired references whose task has not ended, \<open>w_dec\<close> the calls of
  \<open>decRef\<close> that are about to decrement, \<open>w_dropping\<close> those that have reached zero and are about
  to release.
\<close>

record handle_world =
  w_handle :: InflightReservation
  w_cache :: inflight_cache
  w_tasks :: nat
  w_dec :: nat
  w_dropping :: nat

inductive handle_step :: "(real \<Rightarrow> real) \<Rightarrow> int \<Rightarrow> handle_world \<Rightarrow> handle_world \<Rightarrow> bool"
  for fl :: "real \<Rightarrow> real" and until :: int where
  acquired: "Acquire (w_handle w) = (r, True) \<Longrightarrow>
     handle_step fl until w (w\<lparr>w_handle := r, w_tasks := w_tasks w + 1\<rparr>)"
| refused: "Acquire (w_handle w) = (r, False) \<Longrightarrow> handle_step fl until w (w\<lparr>w_handle := r\<rparr>)"
| task_done: "w_tasks w = Suc n \<Longrightarrow> handle_step fl until w (w\<lparr>w_tasks := n, w_dec := w_dec w + 1\<rparr>)"
| handler_done: "HandlerDone (w_handle w) = (r, first) \<Longrightarrow>
     handle_step fl until w (w\<lparr>w_handle := r, w_dec := w_dec w + (if first then 1 else 0)\<rparr>)"
| decrement: "w_dec w = Suc n \<Longrightarrow> decRef (w_handle w) = (r, isZero) \<Longrightarrow>
     handle_step fl until w
       (w\<lparr>w_handle := r, w_dec := n, w_dropping := w_dropping w + (if isZero then 1 else 0)\<rparr>)"
| release: "w_dropping w = Suc n \<Longrightarrow> Release ck (w_handle w) (w_cache w) = (r, c) \<Longrightarrow>
     handle_step fl until w (w\<lparr>w_handle := r, w_cache := c, w_dropping := n\<rparr>)"
| renew: "t < until \<Longrightarrow> until \<le> t + ttlMillis (rv_ttl (w_handle w)) \<Longrightarrow>
     renewTick (at_time t) (w_handle w) (w_cache w) = (r, c) \<Longrightarrow>
     handle_step fl until w (w\<lparr>w_handle := r, w_cache := c\<rparr>)"
| other: "t < until \<Longrightarrow> until \<le> t + ttlMillis (rv_ttl (w_handle w)) \<Longrightarrow>
     other_op (rv_requestID (w_handle w)) (rv_ttl (w_handle w)) op \<Longrightarrow>
     handle_step fl until w
       (w\<lparr>w_cache := user_step fl (rv_userID (w_handle w)) (at_time t, op) (w_cache w)\<rparr>)"

inductive handle_reaches :: "(real \<Rightarrow> real) \<Rightarrow> int \<Rightarrow> handle_world \<Rightarrow> handle_world \<Rightarrow> bool"
  for fl :: "real \<Rightarrow> real" and until :: int and w0 :: handle_world where
  start: "handle_reaches fl until w0 w0"
| more: "handle_reaches fl until w0 w \<Longrightarrow> handle_step fl until w w' \<Longrightarrow> handle_reaches fl until w0 w'"

inductive_cases reserved_world_stepE: "handle_step fl until w w'"

definition fresh_world :: "InflightReservation \<Rightarrow> inflight_cache \<Rightarrow> handle_world" where
  "fresh_world r c = \<lparr>w_handle = r, w_cache = c, w_tasks = 0, w_dec = 0, w_dropping = 0\<rparr>"

subsection \<open>The invariant\<close>

definition same_reservation :: "InflightReservation \<Rightarrow> InflightReservation \<Rightarrow> bool" where
  "same_reservation a b \<longleftrightarrow> rv_hasBalance a = rv_hasBalance b \<and> rv_userID a = rv_userID b \<and>
     rv_requestID a = rv_requestID b \<and> rv_amount a = rv_amount b \<and> rv_ttl a = rv_ttl b"

definition refs_inv :: "handle_world \<Rightarrow> bool" where
  "refs_inv w \<longleftrightarrow>
     rv_refs (w_handle w) =
       (if rv_stopped (w_handle w) then 0 else 1) + int (w_tasks w) + int (w_dec w) \<and>
     w_dropping w = (if rv_refs (w_handle w) = 0 \<and> \<not> rv_released (w_handle w) then 1 else 0) \<and>
     (rv_released (w_handle w) \<longrightarrow> rv_refs (w_handle w) = 0) \<and>
     (rv_stopped (w_handle w) \<longrightarrow> \<not> rv_renewing (w_handle w))"

text \<open>What the keys of the user hold of the reservation, before and after its release.\<close>

definition stored :: "int \<Rightarrow> InflightReservation \<Rightarrow> inflight_keys \<Rightarrow> bool" where
  "stored until r k \<longleftrightarrow>
     (if rv_released r then keys_ok k \<and> map_get (ik_hash k) (rv_requestID r) = None
      else holds (rv_requestID r) (rv_amount r) until k)"

definition store_inv :: "int \<Rightarrow> handle_world \<Rightarrow> bool" where
  "store_inv until w \<longleftrightarrow> stored until (w_handle w) (ic_users (w_cache w) (rv_userID (w_handle w)))"

lemma Acquire_cases:
  "Acquire r = (r', got) \<Longrightarrow>
     got = (0 < rv_refs r) \<and> r' = (if 0 < rv_refs r then r\<lparr>rv_refs := rv_refs r + 1\<rparr> else r)"
  by (auto simp: Acquire_def split: if_splits)

lemma HandlerDone_cases:
  "HandlerDone r = (r', first) \<Longrightarrow>
     first = (\<not> rv_stopped r) \<and>
     r' = (if rv_stopped r then r else r\<lparr>rv_stopped := True, rv_renewing := False\<rparr>)"
  by (auto simp: HandlerDone_def stopRenewal_def split: if_splits)

lemma decRef_cases: "decRef r = (r', isZero) \<Longrightarrow> r' = r\<lparr>rv_refs := rv_refs r - 1\<rparr> \<and> isZero = (rv_refs r \<le> 1)"
  by (auto simp: decRef_def)

lemma ReleaseScope_users: "ic_users (ReleaseInflightScope ck scope m c) = ic_users c"
  by (simp add: ReleaseInflightScope_def)

lemma release_scopes_users:
  "ic_users (fold (\<lambda>scope. ReleaseInflightScope ck scope m) scopes c) = ic_users c"
  by (induction scopes arbitrary: c) (simp_all add: ReleaseScope_users)

lemma Release_handle:
  "Release ck r c = (r', c') \<Longrightarrow>
     r' = (if rv_released r then r\<lparr>rv_renewing := False\<rparr>
           else r\<lparr>rv_renewing := False, rv_released := True, rv_refs := 0\<rparr>)"
  by (auto simp: Release_def Let_def stopRenewal_def split: if_splits)

lemma Release_users:
  "Release ck r c = (r', c') \<Longrightarrow> rv_hasBalance r \<Longrightarrow>
     ic_users c' (rv_userID r) =
       (if rv_released r then ic_users c (rv_userID r)
        else releaseInflightBalanceScript (ck_srv ck) (rv_requestID r) (ic_users c (rv_userID r)))"
  by (auto simp: Release_def Let_def stopRenewal_def release_scopes_users ReleaseInflightBalance_def
      split: if_splits)

lemma renewTick_cases:
  "renewTick ck r c = (r', c') \<Longrightarrow>
     (\<exists>b. r' = r\<lparr>rv_renewing := b\<rparr> \<and> (b \<longrightarrow> rv_renewing r)) \<and>
     c' = (if rv_renewing r
           then user_step fl (rv_userID r) (ck, OpRenew (rv_requestID r) (rv_ttl r)) c else c)"
proof -
  assume a: "renewTick ck r c = (r', c')"
  have self: "r = r\<lparr>rv_renewing := rv_renewing r\<rparr>" by simp
  show ?thesis
  proof (cases "rv_renewing r")
    case False
    then have "r' = r" "c' = c" using a by (simp_all add: renewTick_def)
    moreover from False have "r = r\<lparr>rv_renewing := False\<rparr>" by simp
    ultimately show ?thesis using False by (intro conjI exI [of _ False]) simp_all
  next
    case True
    obtain alive c1 where rn: "RenewInflightBalance ck (rv_userID r) (rv_requestID r) (rv_ttl r) c = (alive, c1)"
      by (cases "RenewInflightBalance ck (rv_userID r) (rv_requestID r) (rv_ttl r) c")
    then have "r' = r\<lparr>rv_renewing := alive\<rparr>" "c' = c1"
      using a True self by (auto simp: renewTick_def)
    then show ?thesis using True rn by auto
  qed
qed

lemma step_same: "handle_step fl until w w' \<Longrightarrow> same_reservation (w_handle w') (w_handle w)"
proof (induction rule: handle_step.induct)
  case (renew t w r c)
  then show ?case using renewTick_cases [OF renew(3), of fl] by (auto simp: same_reservation_def)
qed (auto simp: same_reservation_def dest!: Acquire_cases HandlerDone_cases decRef_cases Release_handle
    split: if_splits)

lemma step_refs: "handle_step fl until w w' \<Longrightarrow> refs_inv w \<Longrightarrow> refs_inv w'"
proof (induction rule: handle_step.induct)
  case (acquired w r)
  then show ?case using Acquire_cases [OF acquired(1)] by (auto simp: refs_inv_def)
next
  case (refused w r)
  then show ?case using Acquire_cases [OF refused(1)] by (auto simp: refs_inv_def)
next
  case (task_done w n)
  then show ?case by (auto simp: refs_inv_def split: if_splits)
next
  case (handler_done w r first)
  then show ?case using HandlerDone_cases [OF handler_done(1)] by (auto simp: refs_inv_def)
next
  case (decrement w n r isZero)
  then show ?case using decRef_cases [OF decrement(2)] by (auto simp: refs_inv_def split: if_splits)
next
  case (release w n ck r c)
  then show ?case using Release_handle [OF release(2)] by (auto simp: refs_inv_def split: if_splits)
next
  case (renew t w r c)
  then show ?case using renewTick_cases [OF renew(3), of fl] by (auto simp: refs_inv_def)
next
  case (other t w op)
  then show ?case by (auto simp: refs_inv_def split: if_splits)
qed

text \<open>A member that has been released does not come back by what others do.\<close>

lemma gone_step:
  assumes "keys_ok k" and "map_get (ik_hash k) m = None" and "other_op m ttl op"
  shows "map_get (ik_hash (keys_step fl (ck, op) k)) m = None"
proof -
  have live: "map_get (ik_hash (liveKeys srv k)) m = None" for srv
    using assms(2) by (simp add: liveKeys_def Let_def)
  have okl: "keys_ok (liveKeys srv k)" for srv using assms(1) by (rule keys_ok_live)
  have drop: "map_get (ik_hash (dropFinished now (liveKeys srv k))) m = None" for now srv
  proof -
    have "m \<notin> set (map fst (ik_hash (liveKeys srv k)))" using live [of srv] by (simp add: map_get_None_iff)
    then have "m \<notin> set (map fst (ik_hash (dropFinished now (liveKeys srv k))))"
      by (auto simp: dropFinished_def tidy_def Let_def)
    then show ?thesis by (simp add: map_get_None_iff)
  qed
  have del: "map_get (map_del m' (ik_hash (liveKeys srv k))) m = None" for m' srv
    using live [of srv] by (simp add: map_get_None_iff delete_keys)
  show ?thesis
    using assms(3) live drop del
    by (cases op) (simp_all add: other_op_def reserve_cases renewInflightBalanceScript_def
        releaseInflightBalanceScript_def addMember_def tidy_def Let_def split: option.split)
qed

lemma stored_step:
  assumes "stored until r k" and "t < until" and "until \<le> t + ttlMillis (rv_ttl r)"
    and "other_op (rv_requestID r) (rv_ttl r) op"
  shows "stored until r (keys_step fl (at_time t, op) k)"
proof (cases "rv_released r")
  case True
  then show ?thesis
    using assms(1) keys_step_ok [of k fl "(at_time t, op)"] gone_step [OF _ _ assms(4), of k fl "at_time t"]
    by (simp add: stored_def)
next
  case False
  then show ?thesis using assms(1) holds_step [OF _ assms(4,2,3)] by (simp add: stored_def)
qed

lemma stored_release:
  assumes "stored until r k" and "\<not> rv_released r" and "rv_released r'"
    and "rv_requestID r' = rv_requestID r"
  shows "stored until r' (releaseInflightBalanceScript srv (rv_requestID r) k)"
proof -
  have ok: "keys_ok k" using assms(1,2) by (simp add: stored_def holds_def)
  have "keys_ok (releaseInflightBalanceScript srv (rv_requestID r) k)"
    using keys_step_ok [OF ok, of undefined "(\<lparr>ck_now = 0, ck_srv = srv\<rparr>, OpRelease (rv_requestID r))"] by simp
  moreover have "map_get (ik_hash (releaseInflightBalanceScript srv (rv_requestID r) k)) (rv_requestID r) = None"
    by (simp add: releaseInflightBalanceScript_def tidy_def Let_def map_get_None_iff delete_keys)
  ultimately show ?thesis using assms(3,4) by (simp add: stored_def)
qed

lemma stored_same:
  "same_reservation r' r \<Longrightarrow> rv_released r' = rv_released r \<Longrightarrow> stored until r' k = stored until r k"
  by (simp add: stored_def same_reservation_def)

lemma store_step:
  assumes "rv_hasBalance (w_handle w)" and "refs_inv w" and "store_inv until w"
    and "handle_step fl until w w'"
  shows "store_inv until w'"
  using assms(4) assms(1-3)
proof (induction rule: handle_step.induct)
  case (acquired w r)
  then show ?case using Acquire_cases [OF acquired(1)] by (simp add: store_inv_def stored_def)
next
  case (refused w r)
  then show ?case using Acquire_cases [OF refused(1)] by (simp add: store_inv_def stored_def)
next
  case (task_done w n)
  then show ?case by (simp add: store_inv_def)
next
  case (handler_done w r first)
  then show ?case using HandlerDone_cases [OF handler_done(1)] by (auto simp: store_inv_def stored_def)
next
  case (decrement w n r isZero)
  then show ?case using decRef_cases [OF decrement(2)] by (auto simp: store_inv_def stored_def)
next
  case (release w n ck r c)
  have nr: "\<not> rv_released (w_handle w)" using release(1,4) by (auto simp: refs_inv_def split: if_splits)
  then show ?case
    using release(5) Release_users [OF release(2,3)] Release_handle [OF release(2)]
      stored_release [of until "w_handle w" _ r]
    by (simp add: store_inv_def)
next
  case (renew t w r c)
  let ?r = "w_handle w"
  let ?op = "OpRenew (rv_requestID ?r) (rv_ttl ?r)"
  obtain b where r: "r = ?r\<lparr>rv_renewing := b\<rparr>" using renewTick_cases [OF renew(3), of fl] by auto
  have "ic_users c (rv_userID ?r) =
      (if rv_renewing ?r then keys_step fl (at_time t, ?op) (ic_users (w_cache w) (rv_userID ?r))
       else ic_users (w_cache w) (rv_userID ?r))"
    using renewTick_cases [OF renew(3), of fl] user_step_keys [of fl "rv_userID ?r" "(at_time t, ?op)" "w_cache w"]
    by presburger
  moreover have "other_op (rv_requestID ?r) (rv_ttl ?r) ?op" by (simp add: other_op_def)
  note stored_step [OF _ renew(1,2) this, of "ic_users (w_cache w) (rv_userID ?r)" fl]
  moreover have "stored until r = stored until ?r" unfolding fun_eq_iff using r by (simp add: stored_def)
  ultimately show ?case using renew(6) r by (simp add: store_inv_def)
next
  case (other t w op)
  then show ?case
    using stored_step [OF _ other(1,2,3)] by (simp add: store_inv_def user_step_keys)
qed

lemma world_inv:
  assumes "handle_reaches fl until w0 w"
    and "rv_hasBalance (w_handle w0)" and "refs_inv w0" and "store_inv until w0"
  shows "same_reservation (w_handle w) (w_handle w0) \<and> refs_inv w \<and> store_inv until w"
  using assms(1)
proof (induction rule: handle_reaches.induct)
  case start
  then show ?case using assms(3,4) by (simp add: same_reservation_def)
next
  case (more w w')
  then have "rv_hasBalance (w_handle w)" using assms(2) by (simp add: same_reservation_def)
  then have "store_inv until w'" using store_step [OF _ _ _ more(2)] more.IH by simp
  moreover have "refs_inv w'" using step_refs [OF more(2)] more.IH by simp
  moreover have "same_reservation (w_handle w') (w_handle w0)"
    using step_same [OF more(2)] more.IH by (simp add: same_reservation_def)
  ultimately show ?case by simp
qed

subsection \<open>Held until charged\<close>

lemma reserveInflight_cases:
  assumes "reserveInflight fl txt cfg ck m (Some u) bySubscription estimate renewing capped balance True (Some c0)
     = (Inr (Some r), Some c)"
  shows "\<exists>b pending. ReserveInflightBalance fl txt ck u m (rv_amount r) b (rv_ttl r) c0 = ((True, pending), c) \<and>
     rv_hasBalance r \<and> rv_userID r = u \<and> rv_requestID r = m \<and> rv_refs r = 1 \<and>
     \<not> rv_released r \<and> \<not> rv_stopped r \<and> 0 < rv_amount r"
  using assms
  by (simp add: reserveInflight_def Let_def split: option.splits if_splits float64.splits prod.splits)
    (hypsubst, simp, intro exI, assumption)

lemma reserved_holds:
  assumes "ReserveInflightBalance fl txt (at_time t) u m amount balance ttl c0 = ((True, pending), c)"
    and "keys_ok (ic_users c0 u)"
  shows "holds m amount (t + ttlMillis ttl) (ic_users c u)"
proof -
  define until where "until = t + ttlMillis ttl"
  have ok: "keys_ok (dropFinished t (liveKeys t (ic_users c0 u)))"
    using assms(2) by (simp add: keys_ok_drop keys_ok_live)
  have "ic_users c u = addMember t until m amount (ttlMillis ttl) (dropFinished t (liveKeys t (ic_users c0 u)))"
    using assms(1) by (auto simp: ReserveInflightBalance_def reserveInflightBalanceScript_def Let_def
        at_time_def until_def split: if_splits)
  then show ?thesis
    using keys_ok_add [OF ok, of t until m amount "ttlMillis ttl"]
    by (simp add: holds_def addMember_def until_def)
qed

text \<open>
  C18: a reservation that admits a request stays counted against the balance, with its amount, as
  long as the handler has not ended, or a billing task it handed the reservation to has not yet
  charged, or a decrement is still under way, however handler, tasks, renewals and the other
  requests of the user interleave before the reservation would expire. Once all of them are done
  it has been given back: it is in the store no more, and it is not renewed. At most one of them
  comes to release it.
\<close>

theorem reservation_held_until_charged:
  assumes "reserveInflight fl txt cfg (at_time t0) m (Some u) bySubscription estimate renewing capped balance True
      (Some c0) = (Inr (Some r), Some c)"
    and "keys_ok (ic_users c0 u)"
    and "handle_reaches fl (t0 + ttlMillis (rv_ttl r)) (fresh_world r c) w"
  shows "w_dropping w \<le> 1 \<and>
    (if \<not> rv_stopped (w_handle w) \<or> 0 < w_tasks w \<or> 0 < w_dec w
     then map_get (ik_hash (ic_users (w_cache w) u)) m = Some (rv_amount r)
     else w_dropping w = 1 \<or>
       map_get (ik_hash (ic_users (w_cache w) u)) m = None \<and> \<not> rv_renewing (w_handle w) \<and>
       snd (Acquire (w_handle w)) = False)"
proof -
  obtain b pending where r: "ReserveInflightBalance fl txt (at_time t0) u m (rv_amount r) b (rv_ttl r) c0 = ((True, pending), c)"
    and f: "rv_hasBalance r" "rv_userID r = u" "rv_requestID r = m" "rv_refs r = 1" "\<not> rv_released r" "\<not> rv_stopped r"
    using reserveInflight_cases [OF assms(1)] by auto
  have "store_inv (t0 + ttlMillis (rv_ttl r)) (fresh_world r c)"
    using reserved_holds [OF r assms(2)] f by (simp add: store_inv_def stored_def fresh_world_def)
  moreover have "refs_inv (fresh_world r c)" using f by (simp add: refs_inv_def fresh_world_def)
  ultimately have inv: "same_reservation (w_handle w) r" "refs_inv w" "store_inv (t0 + ttlMillis (rv_ttl r)) w"
    using world_inv [OF assms(3)] f(1) by (simp_all add: fresh_world_def)
  have st: "stored (t0 + ttlMillis (rv_ttl r)) (w_handle w) (ic_users (w_cache w) u)"
    using inv(1,3) f(2) by (simp add: store_inv_def same_reservation_def)
  show ?thesis
  proof (cases "rv_released (w_handle w)")
    case True
    then have z: "rv_refs (w_handle w) = 0" "w_dropping w = 0"
      "rv_stopped (w_handle w)" "w_tasks w = 0" "w_dec w = 0" "\<not> rv_renewing (w_handle w)"
      using inv(2) by (auto simp: refs_inv_def split: if_splits)
    moreover have "map_get (ik_hash (ic_users (w_cache w) u)) m = None"
      using st True inv(1) f(3) by (simp add: stored_def same_reservation_def)
    ultimately show ?thesis by (simp add: Acquire_def)
  next
    case False
    then have "map_get (ik_hash (ic_users (w_cache w) u)) m = Some (rv_amount r)"
      using st inv(1) f(3) by (simp add: stored_def holds_def same_reservation_def)
    moreover have "w_dropping w \<le> 1" using inv(2) by (simp add: refs_inv_def)
    moreover have "w_dropping w = 1" if "rv_stopped (w_handle w)" "w_tasks w = 0" "w_dec w = 0"
      using that inv(2) False by (simp add: refs_inv_def)
    ultimately show ?thesis by auto
  qed
qed

definition demo_inflight :: inflight_config where
  "demo_inflight = \<lparr>if_Enabled = True, if_SimpleMode = False, if_MaxReservationUSD = 0, if_TTLSeconds = 60\<rparr>"

definition demo_reserved :: "(reserve_error + InflightReservation option) \<times> inflight_cache option" where
  "demo_reserved = reserveInflight (\<lambda>x. x) (\<lambda>x. x) (Some demo_inflight) (at_time 0) ''a'' (Some 7) False (Fin 6) True True
     (Some 10) True (Some noReservations)"

text \<open>The handler hands the reservation to one task and ends; it is still held.\<close>

theorem reservation_held_until_charged_witness:
  "\<exists>r c w. demo_reserved = (Inr (Some r), Some c) \<and>
     handle_reaches (\<lambda>x. x) 60000 (fresh_world r c) w \<and> rv_stopped (w_handle w) \<and>
     w_dropping w \<le> 1 \<and> map_get (ik_hash (ic_users (w_cache w) 7)) ''a'' = Some 6"
proof -
  obtain r c where rc: "demo_reserved = (Inr (Some r), Some c)"
    and f: "rv_refs r = 1" "\<not> rv_stopped r" "rv_ttl r = 60 * second" "rv_amount r = 6"
    by (simp add: demo_reserved_def reserveInflight_def inflightReservationConfig_def demo_inflight_def
        capEstimate_def ReserveInflightBalance_def reserveInflightBalanceScript_def noReservations_def
        noKeys_def dropFinished_def liveKeys_def expired_at_def tidy_def at_time_def reservationTTL_def
        wrap64_def second_def Let_def)
  define r1 where "r1 = r\<lparr>rv_refs := 2\<rparr>"
  define r2 where "r2 = r1\<lparr>rv_stopped := True, rv_renewing := False\<rparr>"
  define w1 where "w1 = (fresh_world r c)\<lparr>w_handle := r1, w_tasks := w_tasks (fresh_world r c) + 1\<rparr>"
  define w2 where "w2 = w1\<lparr>w_handle := r2, w_dec := w_dec w1 + (if True then 1 else 0)\<rparr>"
  have "handle_step (\<lambda>x. x) 60000 (fresh_world r c) w1"
    unfolding w1_def by (rule acquired) (simp add: Acquire_def fresh_world_def f(1) r1_def)
  moreover have "handle_step (\<lambda>x. x) 60000 w1 w2"
    unfolding w2_def
    by (rule handler_done) (simp add: HandlerDone_def stopRenewal_def w1_def r1_def r2_def f(2))
  ultimately have reach: "handle_reaches (\<lambda>x. x) 60000 (fresh_world r c) w2"
    by (meson handle_reaches.intros)
  have "ttlMillis (rv_ttl r) = 60000" by (simp add: f(3) ttlMillis_def second_def millisecond_def)
  then have "handle_reaches (\<lambda>x. x) (0 + ttlMillis (rv_ttl r)) (fresh_world r c) w2" using reach by simp
  note reservation_held_until_charged [OF rc [unfolded demo_reserved_def] _ this]
  then have "w_dropping w2 \<le> 1 \<and> map_get (ik_hash (ic_users (w_cache w2) 7)) ''a'' = Some 6"
    by (simp add: noReservations_def keys_ok_empty w2_def w1_def fresh_world_def f(4))
  then show ?thesis using rc reach by (intro exI conjI) (assumption, assumption, simp_all add: w2_def r2_def)
qed

end
