(* ===== verification/BillingRates.thy ===== *)
theory BillingRates
  imports GoPrelude Complex_Main
begin

text \<open>
  The monetary windows of an API key: \<open>service/api_key.go\<close>, the rate limit part of
  \<open>service/billing_cache_service.go\<close>, the cached copy of the windows in
  \<open>repository/billing_cache.go\<close> and the row updates of \<open>repository/api_key_repo.go\<close>.

  The cached copy keeps whole Unix seconds, the row the full time. \<open>fl\<close> rounds the sums of
  \<open>float64\<close>, \<open>add\<close> is the addition of the database or of Redis, and \<open>txt\<close> what is read back
  from a number the script stores as a text. Failing connections are left out, save for reads
  that find nothing; the cache may lose an entry at any time.
\<close>

subsection \<open>Keys and windows\<close>

definition RateLimitWindow5h :: goduration where "RateLimitWindow5h = 5 * hour"
definition RateLimitWindow1d :: goduration where "RateLimitWindow1d = 24 * hour"
definition RateLimitWindow7d :: goduration where "RateLimitWindow7d = 7 * 24 * hour"

lemmas rate_window_defs = RateLimitWindow5h_def RateLimitWindow1d_def RateLimitWindow7d_def

record APIKey =
  ak_ID :: int
  ak_Quota :: real
  ak_QuotaUsed :: real
  ak_RateLimit5h :: real
  ak_RateLimit1d :: real
  ak_RateLimit7d :: real

record APIKeyRateLimitData =
  rl_QuotaUsed :: real
  rl_Usage5h :: real
  rl_Usage1d :: real
  rl_Usage7d :: real
  rl_Window5hStart :: "gotime option"
  rl_Window1dStart :: "gotime option"
  rl_Window7dStart :: "gotime option"

record APIKeyRateLimitCacheData =
  rc_Usage5h :: real
  rc_Usage1d :: real
  rc_Usage7d :: real
  rc_Window5h :: int
  rc_Window1d :: int
  rc_Window7d :: int

definition HasRateLimits :: "APIKey \<Rightarrow> bool" where
  "HasRateLimits k \<longleftrightarrow> 0 < ak_RateLimit5h k \<or> 0 < ak_RateLimit1d k \<or> 0 < ak_RateLimit7d k"

definition IsWindowExpired :: "gotime \<Rightarrow> gotime option \<Rightarrow> goduration \<Rightarrow> bool" where
  "IsWindowExpired now windowStart d =
     (case windowStart of None \<Rightarrow> True | Some w \<Rightarrow> d \<le> time_sub now w)"

definition EffectiveUsage5h :: "gotime \<Rightarrow> APIKeyRateLimitData \<Rightarrow> real" where
  "EffectiveUsage5h now d =
     (if IsWindowExpired now (rl_Window5hStart d) RateLimitWindow5h then 0 else rl_Usage5h d)"

definition EffectiveUsage1d :: "gotime \<Rightarrow> APIKeyRateLimitData \<Rightarrow> real" where
  "EffectiveUsage1d now d =
     (if IsWindowExpired now (rl_Window1dStart d) RateLimitWindow1d then 0 else rl_Usage1d d)"

definition EffectiveUsage7d :: "gotime \<Rightarrow> APIKeyRateLimitData \<Rightarrow> real" where
  "EffectiveUsage7d now d =
     (if IsWindowExpired now (rl_Window7dStart d) RateLimitWindow7d then 0 else rl_Usage7d d)"

lemmas effective_usage_defs = EffectiveUsage5h_def EffectiveUsage1d_def EffectiveUsage7d_def

subsection \<open>Unix seconds\<close>

definition unixEpoch :: gotime where "unixEpoch = 62135596800 * second"

definition time_Unix :: "gotime \<Rightarrow> int" where
  "time_Unix t = (t - unixEpoch) div second"

definition unix_time :: "int \<Rightarrow> gotime" where
  "unix_time n = n * second + unixEpoch"

lemma unix_of_time [simp]: "time_Unix (unix_time n) = n"
  by (simp add: time_Unix_def unix_time_def second_def)

lemma time_of_unix: "unix_time (time_Unix t) \<le> t" "t < unix_time (time_Unix t) + second"
proof -
  have "t - unixEpoch = (t - unixEpoch) div second * second + (t - unixEpoch) mod second"
    by simp
  moreover have "0 \<le> (t - unixEpoch) mod second" "(t - unixEpoch) mod second < second"
    by (simp_all add: second_def)
  ultimately have "unix_time (time_Unix t) \<le> t \<and> t < unix_time (time_Unix t) + second"
    unfolding unix_time_def time_Unix_def by linarith
  then show "unix_time (time_Unix t) \<le> t" "t < unix_time (time_Unix t) + second" by simp_all
qed

subsection \<open>The row\<close>

text \<open>One column pair of \<open>IncrementRateLimitUsage\<close>; \<open>NOW()\<close> is the database's clock.\<close>

definition incrementWindow ::
  "(real \<Rightarrow> real \<Rightarrow> real) \<Rightarrow> gotime \<Rightarrow> real \<Rightarrow> goduration \<Rightarrow> real \<Rightarrow> gotime option \<Rightarrow> real \<times> gotime option" where
  "incrementWindow add now cost d usage windowStart =
     ((case windowStart of Some w \<Rightarrow> if time_add w d \<le> now then cost else add usage cost
                         | None \<Rightarrow> add usage cost),
      (case windowStart of None \<Rightarrow> Some now
                         | Some w \<Rightarrow> if time_add w d \<le> now then Some now else Some w))"

definition IncrementRateLimitUsage ::
  "(real \<Rightarrow> real \<Rightarrow> real) \<Rightarrow> gotime \<Rightarrow> real \<Rightarrow> APIKeyRateLimitData \<Rightarrow> APIKeyRateLimitData" where
  "IncrementRateLimitUsage add now cost d =
     (let (u5, w5) = incrementWindow add now cost (5 * hour) (rl_Usage5h d) (rl_Window5hStart d);
          (u1, w1) = incrementWindow add now cost (24 * hour) (rl_Usage1d d) (rl_Window1dStart d);
          (u7, w7) = incrementWindow add now cost (7 * 24 * hour) (rl_Usage7d d) (rl_Window7dStart d)
      in d\<lparr>rl_Usage5h := u5, rl_Usage1d := u1, rl_Usage7d := u7,
           rl_Window5hStart := w5, rl_Window1dStart := w1, rl_Window7dStart := w7\<rparr>)"

definition resetWindow :: "gotime \<Rightarrow> goduration \<Rightarrow> real \<Rightarrow> gotime option \<Rightarrow> real \<times> gotime option" where
  "resetWindow now d usage windowStart =
     (case windowStart of
        Some w \<Rightarrow> if time_add w d \<le> now then (0, Some now) else (usage, Some w)
      | None \<Rightarrow> (usage, None))"

definition ResetRateLimitWindows :: "gotime \<Rightarrow> APIKeyRateLimitData \<Rightarrow> APIKeyRateLimitData" where
  "ResetRateLimitWindows now d =
     (let (u5, w5) = resetWindow now (5 * hour) (rl_Usage5h d) (rl_Window5hStart d);
          (u1, w1) = resetWindow now (24 * hour) (rl_Usage1d d) (rl_Window1dStart d);
          (u7, w7) = resetWindow now (7 * 24 * hour) (rl_Usage7d d) (rl_Window7dStart d)
      in d\<lparr>rl_Usage5h := u5, rl_Usage1d := u1, rl_Usage7d := u7,
           rl_Window5hStart := w5, rl_Window1dStart := w1, rl_Window7dStart := w7\<rparr>)"

subsection \<open>The cached copy\<close>

type_synonym rate_store = "int \<Rightarrow> APIKeyRateLimitCacheData option"

definition update_window ::
  "(real \<Rightarrow> real \<Rightarrow> real) \<Rightarrow> (real \<Rightarrow> real) \<Rightarrow> int \<Rightarrow> real \<Rightarrow> int \<Rightarrow> real \<Rightarrow> int \<Rightarrow> real \<times> int" where
  "update_window add txt now cost d usage w =
     (if w = 0 \<or> d \<le> now - w then (txt cost, now) else (add usage cost, w))"

definition updateRateLimitUsageScript ::
  "(real \<Rightarrow> real \<Rightarrow> real) \<Rightarrow> (real \<Rightarrow> real) \<Rightarrow> int \<Rightarrow> real \<Rightarrow> APIKeyRateLimitCacheData option \<Rightarrow>
   APIKeyRateLimitCacheData option" where
  "updateRateLimitUsageScript add txt now cost e =
     map_option (\<lambda>c.
       let (u5, w5) = update_window add txt now cost (5 * 3600) (rc_Usage5h c) (rc_Window5h c);
           (u1, w1) = update_window add txt now cost (24 * 3600) (rc_Usage1d c) (rc_Window1d c);
           (u7, w7) = update_window add txt now cost (7 * 24 * 3600) (rc_Usage7d c) (rc_Window7d c)
       in c\<lparr>rc_Usage5h := u5, rc_Usage1d := u1, rc_Usage7d := u7,
            rc_Window5h := w5, rc_Window1d := w1, rc_Window7d := w7\<rparr>) e"

definition GetAPIKeyRateLimit :: "int \<Rightarrow> rate_store \<Rightarrow> APIKeyRateLimitCacheData option" where
  "GetAPIKeyRateLimit keyID s = s keyID"

definition SetAPIKeyRateLimit :: "int \<Rightarrow> APIKeyRateLimitCacheData \<Rightarrow> rate_store \<Rightarrow> rate_store" where
  "SetAPIKeyRateLimit keyID d s = s(keyID := Some d)"

definition UpdateAPIKeyRateLimitUsage ::
  "(real \<Rightarrow> real \<Rightarrow> real) \<Rightarrow> (real \<Rightarrow> real) \<Rightarrow> gotime \<Rightarrow> int \<Rightarrow> real \<Rightarrow> rate_store \<Rightarrow> rate_store" where
  "UpdateAPIKeyRateLimitUsage add txt now keyID cost s =
     s(keyID := updateRateLimitUsageScript add txt (time_Unix now) cost (s keyID))"

definition InvalidateAPIKeyRateLimit :: "int \<Rightarrow> rate_store \<Rightarrow> rate_store" where
  "InvalidateAPIKeyRateLimit keyID s = s(keyID := None)"

text \<open>The entry built from a row.\<close>

definition unixOf :: "gotime option \<Rightarrow> int" where
  "unixOf w = (case w of None \<Rightarrow> 0 | Some t \<Rightarrow> time_Unix t)"

definition cacheEntryOf :: "APIKeyRateLimitData \<Rightarrow> APIKeyRateLimitCacheData" where
  "cacheEntryOf d =
     \<lparr>rc_Usage5h = rl_Usage5h d, rc_Usage1d = rl_Usage1d d, rc_Usage7d = rl_Usage7d d,
      rc_Window5h = unixOf (rl_Window5hStart d), rc_Window1d = unixOf (rl_Window1dStart d),
      rc_Window7d = unixOf (rl_Window7dStart d)\<rparr>"

definition windowOf :: "int \<Rightarrow> gotime option" where
  "windowOf w = (if 0 < w then Some (unix_time w) else None)"

subsection \<open>Checking the windows\<close>

datatype rate_error = RateLimit5hExceeded | RateLimit1dExceeded | RateLimit7dExceeded | RateServiceUnavailable

definition exceedsLimit :: "(real \<Rightarrow> real) \<Rightarrow> real \<Rightarrow> real \<Rightarrow> real \<Rightarrow> bool" where
  "exceedsLimit fl pending usage limit \<longleftrightarrow> 0 < limit \<and> (limit \<le> usage \<or> limit < fl (usage + pending))"

text \<open>The error, and whether a reset of the row's expired windows is started beside the request.\<close>

definition evaluateRateLimits ::
  "(real \<Rightarrow> real) \<Rightarrow> gotime \<Rightarrow> APIKey \<Rightarrow> real \<Rightarrow> real \<Rightarrow> real \<Rightarrow> gotime option \<Rightarrow> gotime option \<Rightarrow>
   gotime option \<Rightarrow> real \<Rightarrow> rate_error option \<times> bool" where
  "evaluateRateLimits fl now k usage5h usage1d usage7d w5h w1d w7d pending =
     (let e5 = IsWindowExpired now w5h RateLimitWindow5h;
          e1 = IsWindowExpired now w1d RateLimitWindow1d;
          e7 = IsWindowExpired now w7d RateLimitWindow7d;
          usage5h = (if e5 then 0 else usage5h);
          usage1d = (if e1 then 0 else usage1d);
          usage7d = (if e7 then 0 else usage7d)
      in (if exceedsLimit fl pending usage5h (ak_RateLimit5h k) then Some RateLimit5hExceeded
          else if exceedsLimit fl pending usage1d (ak_RateLimit1d k) then Some RateLimit1dExceeded
          else if exceedsLimit fl pending usage7d (ak_RateLimit7d k) then Some RateLimit7dExceeded
          else None,
          e5 \<or> e1 \<or> e7))"

text \<open>The cache and the loader of rows are \<open>None\<close> where they are not configured.\<close>

type_synonym rate_loader = "int \<Rightarrow> APIKeyRateLimitData option"

definition evaluateCached ::
  "(real \<Rightarrow> real) \<Rightarrow> gotime \<Rightarrow> APIKey \<Rightarrow> APIKeyRateLimitCacheData \<Rightarrow> real \<Rightarrow> rate_error option \<times> bool" where
  "evaluateCached fl now k c pending =
     evaluateRateLimits fl now k (rc_Usage5h c) (rc_Usage1d c) (rc_Usage7d c)
       (windowOf (rc_Window5h c)) (windowOf (rc_Window1d c)) (windowOf (rc_Window7d c)) pending"

definition checkAPIKeyRateLimitsWithPending ::
  "(real \<Rightarrow> real) \<Rightarrow> gotime \<Rightarrow> rate_loader option \<Rightarrow> APIKey \<Rightarrow> real \<Rightarrow> rate_store option \<Rightarrow>
   (rate_error option \<times> bool) \<times> rate_store option" where
  "checkAPIKeyRateLimitsWithPending fl now loader k pending cache =
     (case cache of
        None \<Rightarrow>
          (case Option.bind loader (\<lambda>l. l (ak_ID k)) of
             None \<Rightarrow> ((None, False), cache)
           | Some d \<Rightarrow>
               (evaluateRateLimits fl now k (rl_Usage5h d) (rl_Usage1d d) (rl_Usage7d d)
                  (rl_Window5hStart d) (rl_Window1dStart d) (rl_Window7dStart d) pending, cache))
      | Some s \<Rightarrow>
          (case GetAPIKeyRateLimit (ak_ID k) s of
             Some c \<Rightarrow> (evaluateCached fl now k c pending, cache)
           | None \<Rightarrow>
               (case Option.bind loader (\<lambda>l. l (ak_ID k)) of
                  None \<Rightarrow> ((None, False), cache)
                | Some d \<Rightarrow>
                    (evaluateCached fl now k (cacheEntryOf d) pending,
                     Some (SetAPIKeyRateLimit (ak_ID k) (cacheEntryOf d) s)))))"

definition checkAPIKeyRateLimits ::
  "(real \<Rightarrow> real) \<Rightarrow> gotime \<Rightarrow> rate_loader option \<Rightarrow> APIKey \<Rightarrow> rate_store option \<Rightarrow>
   (rate_error option \<times> bool) \<times> rate_store option" where
  "checkAPIKeyRateLimits fl now loader k = checkAPIKeyRateLimitsWithPending fl now loader k 0"

definition checkSimpleModeAPIKeyRateLimits ::
  "gotime \<Rightarrow> rate_loader option \<Rightarrow> APIKey option \<Rightarrow> rate_error option" where
  "checkSimpleModeAPIKeyRateLimits now loader key =
     (case key of
        None \<Rightarrow> None
      | Some k \<Rightarrow>
          if \<not> HasRateLimits k then None
          else
            (case Option.bind loader (\<lambda>l. l (ak_ID k)) of
               None \<Rightarrow> Some RateServiceUnavailable
             | Some d \<Rightarrow>
                 if 0 < ak_RateLimit5h k \<and> ak_RateLimit5h k \<le> EffectiveUsage5h now d then Some RateLimit5hExceeded
                 else if 0 < ak_RateLimit1d k \<and> ak_RateLimit1d k \<le> EffectiveUsage1d now d then Some RateLimit1dExceeded
                 else if 0 < ak_RateLimit7d k \<and> ak_RateLimit7d k \<le> EffectiveUsage7d now d then Some RateLimit7dExceeded
                 else None))"

end
