(* ===== verification/PlatformQuota.thy ===== *)
theory PlatformQuota
  imports BillingRates
begin

text \<open>
  The quota of a user on a platform: \<open>checkUserPlatformQuotaEligibility\<close> and its helpers in
  \<open>service/billing_cache_service.go\<close>, the cached entry in \<open>repository/billing_cache.go\<close> and
  the row of \<open>repository/user_platform_quota_repo.go\<close>.

  The days and weeks of the configured time zone are a parameter. An entry is stored as texts:
  its times are cut to whole seconds, numbers come back as they were. The set of dirty keys, the
  shared load of concurrent misses and the expiry of entries are left out; an entry may
  disappear at any time.
\<close>

subsection \<open>Entries and rows\<close>

record quota_calendar =
  qc_StartOfDay :: "gotime \<Rightarrow> gotime"
  qc_StartOfWeek :: "gotime \<Rightarrow> gotime"
  qc_AddDays :: "gotime \<Rightarrow> int \<Rightarrow> gotime"

record UserPlatformQuotaCacheEntry =
  qe_DailyUsageUSD :: real
  qe_WeeklyUsageUSD :: real
  qe_MonthlyUsageUSD :: real
  qe_Version :: int
  qe_SchemaVersion :: int
  qe_DailyLimitUSD :: "real option"
  qe_WeeklyLimitUSD :: "real option"
  qe_MonthlyLimitUSD :: "real option"
  qe_DailyWindowStart :: "gotime option"
  qe_WeeklyWindowStart :: "gotime option"
  qe_MonthlyWindowStart :: "gotime option"

record UserPlatformQuotaRecord =
  qr_DailyLimitUSD :: "real option"
  qr_WeeklyLimitUSD :: "real option"
  qr_MonthlyLimitUSD :: "real option"
  qr_DailyUsageUSD :: real
  qr_WeeklyUsageUSD :: real
  qr_MonthlyUsageUSD :: real
  qr_DailyWindowStart :: "gotime option"
  qr_WeeklyWindowStart :: "gotime option"
  qr_MonthlyWindowStart :: "gotime option"

definition UserPlatformQuotaCacheSchemaV1 :: int where "UserPlatformQuotaCacheSchemaV1 = 1"

definition monthWindow :: goduration where "monthWindow = 30 * 24 * hour"

subsection \<open>Windows\<close>

definition quotaWindowExpired :: "gotime option \<Rightarrow> gotime \<Rightarrow> bool" where
  "quotaWindowExpired start currWindowStart =
     (case start of None \<Rightarrow> True | Some s \<Rightarrow> s < currWindowStart)"

definition monthlyQuotaWindowExpired :: "gotime option \<Rightarrow> gotime \<Rightarrow> bool" where
  "monthlyQuotaWindowExpired start now =
     (case start of None \<Rightarrow> True | Some s \<Rightarrow> monthWindow \<le> time_sub now s)"

definition nextDailyReset :: "quota_calendar \<Rightarrow> gotime \<Rightarrow> gotime" where
  "nextDailyReset cal now = qc_AddDays cal (qc_StartOfDay cal now) 1"

definition nextWeeklyReset :: "quota_calendar \<Rightarrow> gotime \<Rightarrow> gotime" where
  "nextWeeklyReset cal now = qc_AddDays cal (qc_StartOfWeek cal now) 7"

definition nextMonthlyResetFrom :: "gotime option \<Rightarrow> gotime \<Rightarrow> gotime" where
  "nextMonthlyResetFrom start now =
     (case start of
        None \<Rightarrow> time_add now monthWindow
      | Some s \<Rightarrow> if monthWindow \<le> time_sub now s then time_add now monthWindow else time_add s monthWindow)"

subsection \<open>The row\<close>

definition maybeReset ::
  "(real \<Rightarrow> real) \<Rightarrow> real \<Rightarrow> gotime option \<Rightarrow> gotime \<Rightarrow> real \<Rightarrow> real" where
  "maybeReset fl prevUsage prevStart currStart cost =
     (if prevStart \<noteq> Some currStart then cost else fl (prevUsage + cost))"

definition monthlyMaybeReset ::
  "(real \<Rightarrow> real) \<Rightarrow> real \<Rightarrow> gotime option \<Rightarrow> real \<Rightarrow> gotime \<Rightarrow> real \<times> gotime" where
  "monthlyMaybeReset fl prevUsage prevStart cost now =
     (case prevStart of
        None \<Rightarrow> (cost, now)
      | Some s \<Rightarrow> if monthWindow \<le> time_sub now s then (cost, now) else (fl (prevUsage + cost), s))"

definition IncrementUsageWithReset ::
  "(real \<Rightarrow> real) \<Rightarrow> quota_calendar \<Rightarrow> gotime \<Rightarrow> real \<Rightarrow> UserPlatformQuotaRecord option \<Rightarrow>
   UserPlatformQuotaRecord option" where
  "IncrementUsageWithReset fl cal now cost row =
     map_option (\<lambda>r.
       let (newMonthly, newMonthlyStart) =
             monthlyMaybeReset fl (qr_MonthlyUsageUSD r) (qr_MonthlyWindowStart r) cost now
       in r\<lparr>qr_DailyUsageUSD :=
              maybeReset fl (qr_DailyUsageUSD r) (qr_DailyWindowStart r) (qc_StartOfDay cal now) cost,
            qr_WeeklyUsageUSD :=
              maybeReset fl (qr_WeeklyUsageUSD r) (qr_WeeklyWindowStart r) (qc_StartOfWeek cal now) cost,
            qr_MonthlyUsageUSD := newMonthly,
            qr_DailyWindowStart := Some (qc_StartOfDay cal now),
            qr_WeeklyWindowStart := Some (qc_StartOfWeek cal now),
            qr_MonthlyWindowStart := Some newMonthlyStart\<rparr>) row"

subsection \<open>The cached entry\<close>

definition storedTime :: "gotime option \<Rightarrow> gotime option" where
  "storedTime t = map_option (\<lambda>x. unix_time (time_Unix x)) t"

text \<open>\<open>SetUserPlatformQuotaCache\<close>: what \<open>parseUserPlatformQuotaHash\<close> reads back.\<close>

definition SetUserPlatformQuotaCache :: "UserPlatformQuotaCacheEntry \<Rightarrow> UserPlatformQuotaCacheEntry" where
  "SetUserPlatformQuotaCache e =
     e\<lparr>qe_DailyWindowStart := storedTime (qe_DailyWindowStart e),
       qe_WeeklyWindowStart := storedTime (qe_WeeklyWindowStart e),
       qe_MonthlyWindowStart := storedTime (qe_MonthlyWindowStart e)\<rparr>"

definition updateUserPlatformQuotaUsageScript ::
  "(real \<Rightarrow> real \<Rightarrow> real) \<Rightarrow> real \<Rightarrow> UserPlatformQuotaCacheEntry option \<Rightarrow> UserPlatformQuotaCacheEntry option" where
  "updateUserPlatformQuotaUsageScript add cost entry =
     (case entry of
        None \<Rightarrow> None
      | Some e \<Rightarrow>
          if qe_SchemaVersion e \<noteq> UserPlatformQuotaCacheSchemaV1 then Some e
          else Some (e\<lparr>qe_DailyUsageUSD := add (qe_DailyUsageUSD e) cost,
                       qe_WeeklyUsageUSD := add (qe_WeeklyUsageUSD e) cost,
                       qe_MonthlyUsageUSD := add (qe_MonthlyUsageUSD e) cost,
                       qe_Version := qe_Version e + 1\<rparr>))"

text \<open>\<open>IncrementUserPlatformQuotaUsage\<close>, for a cache that is configured.\<close>

definition IncrementUserPlatformQuotaUsage ::
  "(real \<Rightarrow> real \<Rightarrow> real) \<Rightarrow> gostring \<Rightarrow> real \<Rightarrow> UserPlatformQuotaCacheEntry option \<Rightarrow>
   UserPlatformQuotaCacheEntry option" where
  "IncrementUserPlatformQuotaUsage add platform cost entry =
     (if platform = [] \<or> cost \<le> 0 then entry else updateUserPlatformQuotaUsageScript add cost entry)"

subsection \<open>The check\<close>

datatype quota_error = DailyQuotaExhausted gotime | WeeklyQuotaExhausted gotime | MonthlyQuotaExhausted gotime

text \<open>What reading the cache gives; \<open>CacheFails\<close> also stands for a cache that is not configured.\<close>

datatype quota_read = CacheFails | CacheMiss | CacheHit UserPlatformQuotaCacheEntry

text \<open>What loading the row gives; a failing load and a cancelled request are admitted.\<close>

datatype quota_load = LoadFails | NoRow | Row UserPlatformQuotaRecord

definition atLimit :: "real option \<Rightarrow> real \<Rightarrow> bool" where
  "atLimit limit usage = (case limit of None \<Rightarrow> False | Some l \<Rightarrow> l \<le> usage)"

definition quotaExceeded ::
  "quota_calendar \<Rightarrow> gotime \<Rightarrow> real option \<Rightarrow> real \<Rightarrow> real option \<Rightarrow> real \<Rightarrow> real option \<Rightarrow> real \<Rightarrow>
   gotime option \<Rightarrow> quota_error option" where
  "quotaExceeded cal now dl du wl wu ml mu monthlyStart =
     (if atLimit dl du then Some (DailyQuotaExhausted (nextDailyReset cal now))
      else if atLimit wl wu then Some (WeeklyQuotaExhausted (nextWeeklyReset cal now))
      else if atLimit ml mu then Some (MonthlyQuotaExhausted (nextMonthlyResetFrom monthlyStart now))
      else None)"

text \<open>The entry with its finished windows started anew.\<close>

definition refreshedEntry ::
  "quota_calendar \<Rightarrow> gotime \<Rightarrow> UserPlatformQuotaCacheEntry \<Rightarrow> UserPlatformQuotaCacheEntry" where
  "refreshedEntry cal now e =
     (let d = quotaWindowExpired (qe_DailyWindowStart e) (qc_StartOfDay cal now);
          w = quotaWindowExpired (qe_WeeklyWindowStart e) (qc_StartOfWeek cal now);
          m = monthlyQuotaWindowExpired (qe_MonthlyWindowStart e) now
      in \<lparr>qe_DailyUsageUSD = (if d then 0 else qe_DailyUsageUSD e),
          qe_WeeklyUsageUSD = (if w then 0 else qe_WeeklyUsageUSD e),
          qe_MonthlyUsageUSD = (if m then 0 else qe_MonthlyUsageUSD e),
          qe_Version = 0, qe_SchemaVersion = UserPlatformQuotaCacheSchemaV1,
          qe_DailyLimitUSD = qe_DailyLimitUSD e, qe_WeeklyLimitUSD = qe_WeeklyLimitUSD e,
          qe_MonthlyLimitUSD = qe_MonthlyLimitUSD e,
          qe_DailyWindowStart = (if d then Some (qc_StartOfDay cal now) else qe_DailyWindowStart e),
          qe_WeeklyWindowStart = (if w then Some (qc_StartOfWeek cal now) else qe_WeeklyWindowStart e),
          qe_MonthlyWindowStart = (if m then Some now else qe_MonthlyWindowStart e)\<rparr>)"

definition anyWindowExpired :: "quota_calendar \<Rightarrow> gotime \<Rightarrow> UserPlatformQuotaCacheEntry \<Rightarrow> bool" where
  "anyWindowExpired cal now e \<longleftrightarrow>
     quotaWindowExpired (qe_DailyWindowStart e) (qc_StartOfDay cal now) \<or>
     quotaWindowExpired (qe_WeeklyWindowStart e) (qc_StartOfWeek cal now) \<or>
     monthlyQuotaWindowExpired (qe_MonthlyWindowStart e) now"

definition isSentinel :: "UserPlatformQuotaCacheEntry \<Rightarrow> bool" where
  "isSentinel e \<longleftrightarrow> qe_DailyLimitUSD e = None \<and> qe_WeeklyLimitUSD e = None \<and> qe_MonthlyLimitUSD e = None"

definition sentinelEntry :: "quota_calendar \<Rightarrow> gotime \<Rightarrow> UserPlatformQuotaCacheEntry" where
  "sentinelEntry cal now =
     \<lparr>qe_DailyUsageUSD = 0, qe_WeeklyUsageUSD = 0, qe_MonthlyUsageUSD = 0, qe_Version = 0,
      qe_SchemaVersion = UserPlatformQuotaCacheSchemaV1, qe_DailyLimitUSD = None,
      qe_WeeklyLimitUSD = None, qe_MonthlyLimitUSD = None,
      qe_DailyWindowStart = Some (qc_StartOfDay cal now),
      qe_WeeklyWindowStart = Some (qc_StartOfWeek cal now), qe_MonthlyWindowStart = Some now\<rparr>"

text \<open>The entry filled from a row, its finished windows started anew.\<close>

definition entryOfRow :: "quota_calendar \<Rightarrow> gotime \<Rightarrow> UserPlatformQuotaRecord \<Rightarrow> UserPlatformQuotaCacheEntry" where
  "entryOfRow cal now r =
     (let d = quotaWindowExpired (qr_DailyWindowStart r) (qc_StartOfDay cal now);
          w = quotaWindowExpired (qr_WeeklyWindowStart r) (qc_StartOfWeek cal now);
          m = monthlyQuotaWindowExpired (qr_MonthlyWindowStart r) now
      in \<lparr>qe_DailyUsageUSD = (if d then 0 else qr_DailyUsageUSD r),
          qe_WeeklyUsageUSD = (if w then 0 else qr_WeeklyUsageUSD r),
          qe_MonthlyUsageUSD = (if m then 0 else qr_MonthlyUsageUSD r),
          qe_Version = 0, qe_SchemaVersion = UserPlatformQuotaCacheSchemaV1,
          qe_DailyLimitUSD = qr_DailyLimitUSD r, qe_WeeklyLimitUSD = qr_WeeklyLimitUSD r,
          qe_MonthlyLimitUSD = qr_MonthlyLimitUSD r,
          qe_DailyWindowStart = (if d then Some (qc_StartOfDay cal now) else qr_DailyWindowStart r),
          qe_WeeklyWindowStart = (if w then Some (qc_StartOfWeek cal now) else qr_WeeklyWindowStart r),
          qe_MonthlyWindowStart = (if m then Some now else qr_MonthlyWindowStart r)\<rparr>)"

text \<open>
  The answer and the entry that is written. The clock is read once; \<open>hasRepo\<close> tells whether the
  table of quotas is configured.
\<close>

definition checkQuotaHit ::
  "quota_calendar \<Rightarrow> gotime \<Rightarrow> UserPlatformQuotaCacheEntry \<Rightarrow>
   quota_error option \<times> UserPlatformQuotaCacheEntry option" where
  "checkQuotaHit cal now e =
     (let r = refreshedEntry cal now e in
      (quotaExceeded cal now (qe_DailyLimitUSD e) (qe_DailyUsageUSD r) (qe_WeeklyLimitUSD e)
         (qe_WeeklyUsageUSD r) (qe_MonthlyLimitUSD e) (qe_MonthlyUsageUSD r) (qe_MonthlyWindowStart e),
       if anyWindowExpired cal now e \<and> \<not> isSentinel e then Some r else None))"

definition checkQuotaRow ::
  "quota_calendar \<Rightarrow> gotime \<Rightarrow> UserPlatformQuotaRecord \<Rightarrow> quota_error option" where
  "checkQuotaRow cal now r =
     (let e = entryOfRow cal now r in
      quotaExceeded cal now (qr_DailyLimitUSD r) (qe_DailyUsageUSD e) (qr_WeeklyLimitUSD r)
        (qe_WeeklyUsageUSD e) (qr_MonthlyLimitUSD r) (qe_MonthlyUsageUSD e) (qe_MonthlyWindowStart e))"

definition checkUserPlatformQuotaEligibility ::
  "quota_calendar \<Rightarrow> gotime \<Rightarrow> gostring \<Rightarrow> bool \<Rightarrow> quota_read \<Rightarrow> quota_load \<Rightarrow>
   quota_error option \<times> UserPlatformQuotaCacheEntry option" where
  "checkUserPlatformQuotaEligibility cal now platform hasRepo cached loaded =
     (if platform = [] \<or> \<not> hasRepo then (None, None)
      else
        (case cached of
           CacheHit e \<Rightarrow>
             if qe_SchemaVersion e = UserPlatformQuotaCacheSchemaV1 then checkQuotaHit cal now e
             else
               (case loaded of
                  LoadFails \<Rightarrow> (None, None)
                | NoRow \<Rightarrow> (None, Some (sentinelEntry cal now))
                | Row r \<Rightarrow> (checkQuotaRow cal now r, Some (entryOfRow cal now r)))
         | CacheMiss \<Rightarrow>
             (case loaded of
                LoadFails \<Rightarrow> (None, None)
              | NoRow \<Rightarrow> (None, Some (sentinelEntry cal now))
              | Row r \<Rightarrow> (checkQuotaRow cal now r, Some (entryOfRow cal now r)))
         | CacheFails \<Rightarrow>
             (case loaded of
                LoadFails \<Rightarrow> (None, None)
              | NoRow \<Rightarrow> (None, None)
              | Row r \<Rightarrow> (checkQuotaRow cal now r, None))))"

definition HasUserPlatformQuotaLimit :: "bool \<Rightarrow> quota_read \<Rightarrow> bool" where
  "HasUserPlatformQuotaLimit simple cached =
     (if simple then False
      else (case cached of CacheHit e \<Rightarrow> \<not> isSentinel e | _ \<Rightarrow> True))"

end
