(* ===== verification/BillingGate.thy ===== *)
theory BillingGate
  imports PlatformQuota Subscriptions Inflight
begin

text \<open>
  The admission of a request before it is forwarded: \<open>CheckBillingEligibility\<close> of
  \<open>service/billing_cache_service.go\<close> with the circuit breaker, the checks of balance,
  subscription, quota, key windows and requests per minute, and \<open>ReserveFixedCharge\<close>; the
  counters per minute are those of \<open>repository/user_rpm_cache.go\<close>.

  What the caches and tables answer to a read is an argument: \<open>None\<close> for an error. Each handler
  reads the clock once here. The state of the breaker changes in one step, under its mutex.
  Logging and the queue of cache writes are left out.
\<close>

subsection \<open>The circuit breaker\<close>

datatype billingCircuitBreakerState = billingCircuitClosed | billingCircuitOpen | billingCircuitHalfOpen

record CircuitBreakerConfig =
  cc_Enabled :: bool
  cc_FailureThreshold :: int
  cc_ResetTimeoutSeconds :: int
  cc_HalfOpenRequests :: int

record billingCircuitBreaker =
  cb_state :: billingCircuitBreakerState
  cb_failures :: int
  cb_openedAt :: gotime
  cb_failureThreshold :: int
  cb_resetTimeout :: goduration
  cb_halfOpenRequests :: int
  cb_halfOpenRemaining :: int

definition newBillingCircuitBreaker :: "CircuitBreakerConfig \<Rightarrow> billingCircuitBreaker option" where
  "newBillingCircuitBreaker cfg =
     (if \<not> cc_Enabled cfg then None
      else
        let resetTimeout = wrap64 (cc_ResetTimeoutSeconds cfg * second);
            resetTimeout = (if resetTimeout \<le> 0 then 30 * second else resetTimeout);
            halfOpen = (if cc_HalfOpenRequests cfg \<le> 0 then 1 else cc_HalfOpenRequests cfg);
            threshold = (if cc_FailureThreshold cfg \<le> 0 then 5 else cc_FailureThreshold cfg)
        in Some \<lparr>cb_state = billingCircuitClosed, cb_failures = 0, cb_openedAt = 0,
             cb_failureThreshold = threshold, cb_resetTimeout = resetTimeout,
             cb_halfOpenRequests = halfOpen, cb_halfOpenRemaining = 0\<rparr>)"

definition takeHalfOpenSlot :: "billingCircuitBreaker \<Rightarrow> bool \<times> billingCircuitBreaker" where
  "takeHalfOpenSlot b =
     (if cb_halfOpenRemaining b \<le> 0 then (False, b)
      else (True, b\<lparr>cb_halfOpenRemaining := cb_halfOpenRemaining b - 1\<rparr>))"

definition Allow :: "gotime \<Rightarrow> billingCircuitBreaker \<Rightarrow> bool \<times> billingCircuitBreaker" where
  "Allow now b =
     (case cb_state b of
        billingCircuitClosed \<Rightarrow> (True, b)
      | billingCircuitOpen \<Rightarrow>
          if time_sub now (cb_openedAt b) < cb_resetTimeout b then (False, b)
          else takeHalfOpenSlot
            (b\<lparr>cb_state := billingCircuitHalfOpen, cb_halfOpenRemaining := cb_halfOpenRequests b\<rparr>)
      | billingCircuitHalfOpen \<Rightarrow> takeHalfOpenSlot b)"

definition OnFailure :: "gotime \<Rightarrow> billingCircuitBreaker \<Rightarrow> billingCircuitBreaker" where
  "OnFailure now b =
     (case cb_state b of
        billingCircuitOpen \<Rightarrow> b
      | billingCircuitHalfOpen \<Rightarrow>
          b\<lparr>cb_state := billingCircuitOpen, cb_openedAt := now, cb_halfOpenRemaining := 0\<rparr>
      | billingCircuitClosed \<Rightarrow>
          if cb_failureThreshold b \<le> cb_failures b + 1
          then b\<lparr>cb_failures := cb_failures b + 1, cb_state := billingCircuitOpen, cb_openedAt := now,
                 cb_halfOpenRemaining := 0\<rparr>
          else b\<lparr>cb_failures := cb_failures b + 1\<rparr>)"

definition OnSuccess :: "billingCircuitBreaker \<Rightarrow> billingCircuitBreaker" where
  "OnSuccess b = b\<lparr>cb_state := billingCircuitClosed, cb_failures := 0, cb_halfOpenRemaining := 0\<rparr>"

definition circuitStateString :: "billingCircuitBreakerState \<Rightarrow> gostring" where
  "circuitStateString s =
     (case s of billingCircuitClosed \<Rightarrow> ''closed'' | billingCircuitOpen \<Rightarrow> ''open''
              | billingCircuitHalfOpen \<Rightarrow> ''half-open'')"

subsection \<open>Requests per minute\<close>

text \<open>
  The counters, by user, group and minute, and by user and minute. A counter outlives its minute,
  which is the only time it is used.
\<close>

record rpm_counters =
  rpm_userGroup :: "int \<times> int \<times> int \<Rightarrow> int"
  rpm_user :: "int \<times> int \<Rightarrow> int"

definition minuteTS :: "gotime \<Rightarrow> int" where
  "minuteTS t = time_Unix t div 60"

definition IncrementUserGroupRPM :: "gotime \<Rightarrow> int \<Rightarrow> int \<Rightarrow> rpm_counters \<Rightarrow> int \<times> rpm_counters" where
  "IncrementUserGroupRPM t userID groupID c =
     (let n = rpm_userGroup c (userID, groupID, minuteTS t) + 1 in
      (n, c\<lparr>rpm_userGroup := (rpm_userGroup c)((userID, groupID, minuteTS t) := n)\<rparr>))"

definition IncrementUserRPM :: "gotime \<Rightarrow> int \<Rightarrow> rpm_counters \<Rightarrow> int \<times> rpm_counters" where
  "IncrementUserRPM t userID c =
     (let n = rpm_user c (userID, minuteTS t) + 1 in
      (n, c\<lparr>rpm_user := (rpm_user c)((userID, minuteTS t) := n)\<rparr>))"

definition GetUserGroupRPM :: "gotime \<Rightarrow> int \<Rightarrow> int \<Rightarrow> rpm_counters \<Rightarrow> int" where
  "GetUserGroupRPM t userID groupID c = rpm_userGroup c (userID, groupID, minuteTS t)"

definition GetUserRPM :: "gotime \<Rightarrow> int \<Rightarrow> rpm_counters \<Rightarrow> int" where
  "GetUserRPM t userID c = rpm_user c (userID, minuteTS t)"

record rpm_user_view =
  ru_ID :: int
  ru_RPMLimit :: int
  ru_UserGroupRPMOverride :: "int option"

record rpm_group_view =
  rg_ID :: int
  rg_RPMLimit :: int
  rg_subscription :: bool
  rg_limits :: group_limits

datatype billing_error = BillingServiceUnavailable | InsufficientFunds | SubscriptionInvalid
  | Limit sub_error | Quota quota_error | Rate rate_error | KeyQuotaExhausted
  | GroupRPMExceeded | UserRPMExceeded

text \<open>
  \<open>rowOverride\<close> is what the table gives where the request does not know the user's override;
  \<open>works\<close> tells whether the two increments reach the store.
\<close>

definition rpmOverride :: "rpm_user_view \<Rightarrow> int option \<Rightarrow> int option" where
  "rpmOverride u rowOverride =
     (case ru_UserGroupRPMOverride u of Some n \<Rightarrow> Some n | None \<Rightarrow> rowOverride)"

definition groupRPMLimit :: "rpm_user_view \<Rightarrow> rpm_group_view \<Rightarrow> int option \<Rightarrow> int" where
  "groupRPMLimit u g rowOverride =
     (case rpmOverride u rowOverride of Some n \<Rightarrow> n | None \<Rightarrow> rg_RPMLimit g)"

definition checkGroupRPM ::
  "gotime \<Rightarrow> rpm_user_view \<Rightarrow> rpm_group_view option \<Rightarrow> int option \<Rightarrow> bool \<Rightarrow> rpm_counters \<Rightarrow>
   billing_error option \<times> rpm_counters" where
  "checkGroupRPM t u grp rowOverride works c =
     (case grp of
        None \<Rightarrow> (None, c)
      | Some g \<Rightarrow>
          if groupRPMLimit u g rowOverride \<le> 0 \<or> \<not> works then (None, c)
          else
            (case IncrementUserGroupRPM t (ru_ID u) (rg_ID g) c of
               (n, c1) \<Rightarrow> (if groupRPMLimit u g rowOverride < n then Some GroupRPMExceeded else None, c1)))"

definition checkUserRPM ::
  "gotime \<Rightarrow> rpm_user_view \<Rightarrow> bool \<Rightarrow> rpm_counters \<Rightarrow> billing_error option \<times> rpm_counters" where
  "checkUserRPM t u works c =
     (if ru_RPMLimit u \<le> 0 \<or> \<not> works then (None, c)
      else
        (case IncrementUserRPM t (ru_ID u) c of
           (n, c1) \<Rightarrow> (if ru_RPMLimit u < n then Some UserRPMExceeded else None, c1)))"

definition checkRPM ::
  "gotime \<Rightarrow> rpm_user_view option \<Rightarrow> rpm_group_view option \<Rightarrow> int option \<Rightarrow> bool \<Rightarrow> bool \<Rightarrow>
   rpm_counters option \<Rightarrow> billing_error option \<times> rpm_counters option" where
  "checkRPM t user grp rowOverride groupWorks userWorks counters =
     (case (counters, user) of
        (Some c, Some u) \<Rightarrow>
          (case checkGroupRPM t u grp rowOverride groupWorks c of
             (Some e, c1) \<Rightarrow> (Some e, Some c1)
           | (None, c1) \<Rightarrow> (case checkUserRPM t u userWorks c1 of (e, c2) \<Rightarrow> (e, Some c2)))
      | _ \<Rightarrow> (None, counters))"

subsection \<open>Balance and subscription\<close>

text \<open>The cached balance: \<open>None\<close> without a cache, \<open>Some None\<close> for a miss.\<close>

definition GetUserBalance :: "real option option \<Rightarrow> real option \<Rightarrow> real option" where
  "GetUserBalance cached row =
     (case cached of Some (Some b) \<Rightarrow> Some b | _ \<Rightarrow> row)"

definition minimumBalanceReserve :: "real option \<Rightarrow> real" where
  "minimumBalanceReserve cfg = (case cfg of None \<Rightarrow> 0 | Some m \<Rightarrow> if m \<le> 0 then 0 else m)"

definition balanceBelowEligibilityThreshold :: "real option \<Rightarrow> real \<Rightarrow> bool" where
  "balanceBelowEligibilityThreshold cfg balance \<longleftrightarrow>
     balance \<le> 0 \<or> 0 < minimumBalanceReserve cfg \<and> balance < minimumBalanceReserve cfg"

definition report :: "gotime \<Rightarrow> bool \<Rightarrow> billingCircuitBreaker option \<Rightarrow> billingCircuitBreaker option" where
  "report now ok = map_option (if ok then OnSuccess else OnFailure now)"

definition checkBalanceEligibility ::
  "gotime \<Rightarrow> real option \<Rightarrow> real option \<Rightarrow> billingCircuitBreaker option \<Rightarrow>
   billing_error option \<times> billingCircuitBreaker option" where
  "checkBalanceEligibility now cfg balance br =
     (case balance of
        None \<Rightarrow> (Some BillingServiceUnavailable, report now False br)
      | Some b \<Rightarrow>
          (if balanceBelowEligibilityThreshold cfg b then Some InsufficientFunds else None, report now True br))"

record subscriptionCacheData =
  sc_Status :: gostring
  sc_ExpiresAt :: gotime
  sc_DailyUsage :: real
  sc_WeeklyUsage :: real
  sc_MonthlyUsage :: real

definition getSubscriptionFromDB :: "UserSubscription option \<Rightarrow> subscriptionCacheData option" where
  "getSubscriptionFromDB row =
     map_option (\<lambda>s. \<lparr>sc_Status = us_Status s, sc_ExpiresAt = us_ExpiresAt s, sc_DailyUsage = us_DailyUsageUSD s,
       sc_WeeklyUsage = us_WeeklyUsageUSD s, sc_MonthlyUsage = us_MonthlyUsageUSD s\<rparr>) row"

definition GetSubscriptionStatus ::
  "subscriptionCacheData option option \<Rightarrow> UserSubscription option \<Rightarrow> subscriptionCacheData option" where
  "GetSubscriptionStatus cached row =
     (case cached of Some (Some d) \<Rightarrow> Some d | _ \<Rightarrow> getSubscriptionFromDB row)"

definition subscriptionDataError ::
  "gotime \<Rightarrow> group_limits \<Rightarrow> subscriptionCacheData \<Rightarrow> billing_error option" where
  "subscriptionDataError now g d =
     (if sc_Status d \<noteq> SubscriptionStatusActive then Some SubscriptionInvalid
      else if sc_ExpiresAt d < now then Some SubscriptionInvalid
      else if HasDailyLimit g \<and> the (gl_DailyLimitUSD g) \<le> sc_DailyUsage d then Some (Limit DailyLimitExceeded)
      else if HasWeeklyLimit g \<and> the (gl_WeeklyLimitUSD g) \<le> sc_WeeklyUsage d then Some (Limit WeeklyLimitExceeded)
      else if HasMonthlyLimit g \<and> the (gl_MonthlyLimitUSD g) \<le> sc_MonthlyUsage d then Some (Limit MonthlyLimitExceeded)
      else None)"

definition checkSubscriptionEligibility ::
  "gotime \<Rightarrow> group_limits \<Rightarrow> subscriptionCacheData option \<Rightarrow> billingCircuitBreaker option \<Rightarrow>
   billing_error option \<times> billingCircuitBreaker option" where
  "checkSubscriptionEligibility now g data br =
     (case data of
        None \<Rightarrow> (Some BillingServiceUnavailable, report now False br)
      | Some d \<Rightarrow> (subscriptionDataError now g d, report now True br))"

subsection \<open>The whole check\<close>

text \<open>What the check reads, and the state that it changes.\<close>

record billing_reads =
  br_simpleMode :: bool
  br_simpleModeKeyRateLimit :: bool
  br_minimumReserve :: "real option"
  br_balance :: "real option"
  br_subscription :: "subscriptionCacheData option"
  br_hasQuotaRepo :: bool
  br_quotaRead :: quota_read
  br_quotaLoad :: quota_load
  br_loader :: "rate_loader option"
  br_rpmOverride :: "int option"
  br_groupCounts :: bool
  br_userCounts :: bool

record billing_state =
  bs_breaker :: "billingCircuitBreaker option"
  bs_quotaEntry :: "UserPlatformQuotaCacheEntry option"
  bs_rates :: "rate_store option"
  bs_rpm :: "rpm_counters option"

definition admitBreaker :: "gotime \<Rightarrow> billing_state \<Rightarrow> bool \<times> billing_state" where
  "admitBreaker now s =
     (case bs_breaker s of
        None \<Rightarrow> (True, s)
      | Some b \<Rightarrow> (case Allow now b of (ok, b1) \<Rightarrow> (ok, s\<lparr>bs_breaker := Some b1\<rparr>)))"

definition checkFunds ::
  "gotime \<Rightarrow> rpm_group_view option \<Rightarrow> bool \<Rightarrow> billing_reads \<Rightarrow> billing_state \<Rightarrow> billing_error option \<times> billing_state" where
  "checkFunds now grp hasSubscription rd s =
     (case (case grp of
              Some g \<Rightarrow>
                if rg_subscription g \<and> hasSubscription
                then checkSubscriptionEligibility now (rg_limits g) (br_subscription rd) (bs_breaker s)
                else checkBalanceEligibility now (br_minimumReserve rd) (br_balance rd) (bs_breaker s)
            | None \<Rightarrow> checkBalanceEligibility now (br_minimumReserve rd) (br_balance rd) (bs_breaker s)) of
        (e, b) \<Rightarrow> (e, s\<lparr>bs_breaker := b\<rparr>))"

definition subscriptionMode :: "rpm_group_view option \<Rightarrow> bool \<Rightarrow> bool" where
  "subscriptionMode grp hasSubscription =
     (case grp of None \<Rightarrow> False | Some g \<Rightarrow> rg_subscription g \<and> hasSubscription)"

definition checkQuotaStep ::
  "quota_calendar \<Rightarrow> gotime \<Rightarrow> gostring \<Rightarrow> billing_reads \<Rightarrow> billing_state \<Rightarrow> billing_error option \<times> billing_state" where
  "checkQuotaStep cal now platform rd s =
     (case checkUserPlatformQuotaEligibility cal now platform (br_hasQuotaRepo rd) (br_quotaRead rd) (br_quotaLoad rd) of
        (e, w) \<Rightarrow>
          (map_option Quota e,
           case w of None \<Rightarrow> s | Some en \<Rightarrow> s\<lparr>bs_quotaEntry := Some (SetUserPlatformQuotaCache en)\<rparr>))"

definition checkRatesStep ::
  "(real \<Rightarrow> real) \<Rightarrow> gotime \<Rightarrow> APIKey option \<Rightarrow> billing_reads \<Rightarrow> billing_state \<Rightarrow> billing_error option \<times> billing_state" where
  "checkRatesStep fl now apiKey rd s =
     (case apiKey of
        None \<Rightarrow> (None, s)
      | Some k \<Rightarrow>
          if \<not> HasRateLimits k then (None, s)
          else
            (case checkAPIKeyRateLimits fl now (br_loader rd) k (bs_rates s) of
               ((e, _), r) \<Rightarrow> (map_option Rate e, s\<lparr>bs_rates := r\<rparr>)))"

definition andThen ::
  "billing_error option \<times> billing_state \<Rightarrow> (billing_state \<Rightarrow> billing_error option \<times> billing_state) \<Rightarrow>
   billing_error option \<times> billing_state" where
  "andThen r f = (case r of (Some e, s) \<Rightarrow> (Some e, s) | (None, s) \<Rightarrow> f s)"

definition CheckBillingEligibility ::
  "(real \<Rightarrow> real) \<Rightarrow> quota_calendar \<Rightarrow> gotime \<Rightarrow> rpm_user_view \<Rightarrow> APIKey option \<Rightarrow> rpm_group_view option \<Rightarrow>
   bool \<Rightarrow> gostring \<Rightarrow> billing_reads \<Rightarrow> billing_state \<Rightarrow> billing_error option \<times> billing_state" where
  "CheckBillingEligibility fl cal now user apiKey grp hasSubscription platform rd s =
     (if br_simpleMode rd then
        (if br_simpleModeKeyRateLimit rd
         then (map_option Rate (checkSimpleModeAPIKeyRateLimits now (br_loader rd) apiKey), s)
         else (None, s))
      else
        (case admitBreaker now s of
           (False, s1) \<Rightarrow> (Some BillingServiceUnavailable, s1)
         | (True, s1) \<Rightarrow>
             andThen
               (andThen
                  (andThen (checkFunds now grp hasSubscription rd s1)
                     (\<lambda>s2. if subscriptionMode grp hasSubscription then (None, s2)
                           else checkQuotaStep cal now platform rd s2))
                  (checkRatesStep fl now apiKey rd))
               (\<lambda>s4. case checkRPM now (Some user) grp (br_rpmOverride rd) (br_groupCounts rd)
                              (br_userCounts rd) (bs_rpm s4) of
                       (e, c) \<Rightarrow> (e, s4\<lparr>bs_rpm := c\<rparr>))))"

subsection \<open>Charges that are known before\<close>

definition inflightSubscriptionScope :: "int \<Rightarrow> gostring" where
  "inflightSubscriptionScope subscriptionID = ''sub:'' @ itoa subscriptionID"

definition inflightAPIKeyScope :: "int \<Rightarrow> gostring" where
  "inflightAPIKeyScope apiKeyID = ''apikey:'' @ itoa apiKeyID"

definition checkFixedChargeSubscription ::
  "(real \<Rightarrow> real) \<Rightarrow> group_limits \<Rightarrow> subscriptionCacheData option \<Rightarrow> real \<Rightarrow> billing_error option" where
  "checkFixedChargeSubscription fl g data pending =
     (case data of
        None \<Rightarrow> Some BillingServiceUnavailable
      | Some d \<Rightarrow>
          if HasDailyLimit g \<and> the (gl_DailyLimitUSD g) < fl (sc_DailyUsage d + pending)
          then Some (Limit DailyLimitExceeded)
          else if HasWeeklyLimit g \<and> the (gl_WeeklyLimitUSD g) < fl (sc_WeeklyUsage d + pending)
          then Some (Limit WeeklyLimitExceeded)
          else if HasMonthlyLimit g \<and> the (gl_MonthlyLimitUSD g) < fl (sc_MonthlyUsage d + pending)
          then Some (Limit MonthlyLimitExceeded)
          else None)"

definition exceedsFixed :: "(real \<Rightarrow> real) \<Rightarrow> real \<Rightarrow> real \<Rightarrow> real \<Rightarrow> bool" where
  "exceedsFixed fl pending usage limit \<longleftrightarrow> 0 < limit \<and> limit < fl (usage + pending)"

definition checkFixedChargeAPIKey ::
  "(real \<Rightarrow> real) \<Rightarrow> gotime \<Rightarrow> rate_loader option \<Rightarrow> APIKey \<Rightarrow> real \<Rightarrow> rate_store option \<Rightarrow>
   billing_error option \<times> rate_store option" where
  "checkFixedChargeAPIKey fl now loader k pending rates =
     (if ak_Quota k \<le> 0 \<and> \<not> HasRateLimits k then (None, rates)
      else
        (case loader of
           None \<Rightarrow>
             if exceedsFixed fl pending (ak_QuotaUsed k) (ak_Quota k) then (Some KeyQuotaExhausted, rates)
             else if HasRateLimits k then
               (case checkAPIKeyRateLimitsWithPending fl now None k pending rates of
                  ((e, _), r) \<Rightarrow> (map_option Rate e, r))
             else (None, rates)
         | Some l \<Rightarrow>
             (case l (ak_ID k) of
                None \<Rightarrow> (Some BillingServiceUnavailable, rates)
              | Some d \<Rightarrow>
                  (if exceedsFixed fl pending (rl_QuotaUsed d) (ak_Quota k) then Some KeyQuotaExhausted
                   else if exceedsFixed fl pending (EffectiveUsage5h now d) (ak_RateLimit5h k)
                   then Some (Rate RateLimit5hExceeded)
                   else if exceedsFixed fl pending (EffectiveUsage1d now d) (ak_RateLimit1d k)
                   then Some (Rate RateLimit1dExceeded)
                   else if exceedsFixed fl pending (EffectiveUsage7d now d) (ak_RateLimit7d k)
                   then Some (Rate RateLimit7dExceeded)
                   else None, rates))))"

text \<open>
  First the reservations: of the balance, and, where limits apply, in the scopes of the subscription
  and of the key, with what others have reserved there. The balance is read twice.
\<close>

record fixed_request =
  fr_simpleMode :: bool
  fr_userID :: "int option"
  fr_group :: "rpm_group_view option"
  fr_subscriptionID :: "int option"
  fr_apiKey :: "APIKey option"
  fr_amount :: float64

definition subscriptionBill :: "fixed_request \<Rightarrow> bool" where
  "subscriptionBill f \<longleftrightarrow> subscriptionMode (fr_group f) (fr_subscriptionID f \<noteq> None)"

definition hasAnyLimit :: "group_limits \<Rightarrow> bool" where
  "hasAnyLimit g \<longleftrightarrow> HasDailyLimit g \<or> HasWeeklyLimit g \<or> HasMonthlyLimit g"

definition fixedChargeReserve ::
  "(real \<Rightarrow> real) \<Rightarrow> (real \<Rightarrow> real) \<Rightarrow> inflight_config option \<Rightarrow> clocks \<Rightarrow> gostring \<Rightarrow> fixed_request \<Rightarrow>
   int \<Rightarrow> real \<Rightarrow> real option \<Rightarrow> real option \<Rightarrow> bool \<Rightarrow> inflight_cache option \<Rightarrow>
   (billing_error + InflightReservation option \<times> real \<times> real) \<times> inflight_cache option" where
  "fixedChargeReserve fl txt cfg ck uuid f userID amount balance balance2 works cache =
     (if \<not> subscriptionBill f \<and> balance = None then (Inl BillingServiceUnavailable, cache)
      else if \<not> subscriptionBill f \<and> the balance < amount then (Inl InsufficientFunds, cache)
      else
        (case reserveInflight fl txt cfg ck uuid (Some userID) (subscriptionBill f) (Fin amount) False False
                balance2 works cache of
           (Inl InsufficientBalance, c1) \<Rightarrow> (Inl InsufficientFunds, c1)
         | (Inr res, c1) \<Rightarrow>
             (let ((res1, subPending), c2) =
                    (if subscriptionBill f \<and> hasAnyLimit (rg_limits (the (fr_group f)))
                     then reserveInflightScope fl txt cfg ck uuid res userID
                       (inflightSubscriptionScope (the (fr_subscriptionID f))) amount works c1
                     else ((res, 0), c1));
                  ((res2, keyPending), c3) =
                    (case fr_apiKey f of
                       None \<Rightarrow> ((res1, 0), c2)
                     | Some k \<Rightarrow>
                         if 0 < ak_Quota k \<or> HasRateLimits k
                         then reserveInflightScope fl txt cfg ck uuid res1 userID
                           (inflightAPIKeyScope (ak_ID k)) amount works c2
                         else ((res1, 0), c2))
              in (Inr (res2, subPending, keyPending), c3))))"

text \<open>Then the usage that is read after that.\<close>

definition fixedChargeCheck ::
  "(real \<Rightarrow> real) \<Rightarrow> gotime \<Rightarrow> fixed_request \<Rightarrow> subscriptionCacheData option \<Rightarrow> rate_loader option \<Rightarrow>
   real \<Rightarrow> real \<Rightarrow> real \<Rightarrow> rate_store option \<Rightarrow> billing_error option \<times> rate_store option" where
  "fixedChargeCheck fl now f data loader amount subPending keyPending rates =
     (case (if subscriptionBill f
            then checkFixedChargeSubscription fl (rg_limits (the (fr_group f))) data (fl (amount + subPending))
            else None) of
        Some e \<Rightarrow> (Some e, rates)
      | None \<Rightarrow>
          (case fr_apiKey f of
             None \<Rightarrow> (None, rates)
           | Some k \<Rightarrow> checkFixedChargeAPIKey fl now loader k (fl (amount + keyPending)) rates))"

definition ReserveFixedCharge ::
  "(real \<Rightarrow> real) \<Rightarrow> (real \<Rightarrow> real) \<Rightarrow> inflight_config option \<Rightarrow> clocks \<Rightarrow> gotime \<Rightarrow> gostring \<Rightarrow> fixed_request \<Rightarrow>
   real option \<Rightarrow> real option \<Rightarrow> subscriptionCacheData option \<Rightarrow> rate_loader option \<Rightarrow> bool \<Rightarrow>
   inflight_cache option \<Rightarrow> rate_store option \<Rightarrow>
   (billing_error + InflightReservation option) \<times> inflight_cache option \<times> rate_store option" where
  "ReserveFixedCharge fl txt cfg ck now uuid f balance balance2 data loader works cache rates =
     (case (fr_userID f, fr_amount f) of
        (Some userID, Fin amount) \<Rightarrow>
          if amount \<le> 0 \<or> fr_simpleMode f then (Inr None, cache, rates)
          else
            (case fixedChargeReserve fl txt cfg ck uuid f userID amount balance balance2 works cache of
               (Inl e, c) \<Rightarrow> (Inl e, c, rates)
             | (Inr (res, subPending, keyPending), c) \<Rightarrow>
                 (case fixedChargeCheck fl now f data loader amount subPending keyPending rates of
                    (None, r) \<Rightarrow> (Inr res, c, r)
                  | (Some e, r) \<Rightarrow>
                      (Inl e,
                       (case (res, c) of (Some rv, Some cc) \<Rightarrow> Some (snd (Release ck rv cc)) | _ \<Rightarrow> c), r)))
      | _ \<Rightarrow> (Inr None, cache, rates))"

end
