(* ===== verification/FixedCharge.thy ===== *)
theory FixedCharge
  imports BillingGate InflightProofs
begin

text \<open>
  Charges whose amount is known before: each request reserves its amount in the scope of the
  subscription, then reads the usage and decides. However the requests interleave, the admitted
  ones together stay within the limit.
\<close>

subsection \<open>The store of a scope\<close>

text \<open>Every reservation that is held lasts at least until \<open>until\<close>.\<close>

definition lasting :: "int \<Rightarrow> inflight_keys \<Rightarrow> bool" where
  "lasting until k \<longleftrightarrow> keys_ok k \<and> (\<forall>e \<in> snd ` set (ik_zset k). until \<le> e) \<and>
     (ik_zset k = [] \<or> (\<exists>x. ik_zexpire k = Some x \<and> until \<le> x)) \<and>
     (ik_zset k = [] \<longrightarrow> ik_zexpire k = None)"

lemma lasting_live: "lasting until k \<Longrightarrow> t < until \<Longrightarrow> liveKeys t k = k"
  by (auto simp: lasting_def keys_ok_def liveKeys_def expired_at_def Let_def split: option.splits)

lemma lasting_tidy: "lasting until k \<Longrightarrow> tidy k = k"
  using keys_ok_both_empty [of k] by (auto simp: lasting_def tidy_def keys_ok_def)

lemma lasting_drop:
  assumes "lasting until k" and "t < until"
  shows "dropFinished t k = k"
proof -
  have late: "\<not> e \<le> t" if "(m, e) \<in> set (ik_zset k)" for m e
    using that assms by (force simp: lasting_def)
  have none: "filter (\<lambda>(_, score). score \<le> t) (ik_zset k) = []"
    using late by (auto simp: filter_empty_conv)
  have all: "filter (\<lambda>(_, score). \<not> score \<le> t) (ik_zset k) = ik_zset k"
    using late by (auto intro!: filter_True)
  show ?thesis using lasting_tidy [OF assms(1)] by (simp add: dropFinished_def none all Let_def)
qed

lemma put_fresh: "m \<notin> set (map fst xs) \<Longrightarrow> map_put m v xs = xs @ [(m, v)]"
  by (induction xs) auto

lemma lasting_add:
  assumes "lasting until k" and "until \<le> t + d" and "m \<notin> set (map fst (ik_hash k))"
  shows "lasting until (addMember t (t + d) m a d k)"
proof -
  have ok: "keys_ok (addMember t (t + d) m a d k)" using assms(1) by (simp add: lasting_def keys_ok_add)
  have "m \<notin> set (map fst (ik_zset k))" using assms(1,3) by (simp add: lasting_def keys_ok_def)
  then have "ik_zset (addMember t (t + d) m a d k) = ik_zset k @ [(m, t + d)]"
    by (simp add: addMember_def put_fresh)
  then show ?thesis using ok assms(1,2) by (simp add: lasting_def addMember_def)
qed

lemma lasting_release:
  assumes "lasting until k" and "t < until"
  shows "lasting until (releaseInflightBalanceScript t m k)"
    and "ik_hash (releaseInflightBalanceScript t m k) = map_del m (ik_hash k)"
proof -
  let ?k = "k\<lparr>ik_zset := map_del m (ik_zset k), ik_hash := map_del m (ik_hash k)\<rparr>"
  have r: "releaseInflightBalanceScript t m k = tidy ?k"
    by (simp add: releaseInflightBalanceScript_def lasting_live [OF assms])
  have "keys_ok (tidy ?k)" using assms(1) by (intro keys_ok_del) (simp add: lasting_def)
  moreover have "set (map_del m (ik_zset k)) \<subseteq> set (ik_zset k)" by (auto simp: map_del_filter)
  ultimately show "lasting until (releaseInflightBalanceScript t m k)"
    using assms(1) unfolding r by (auto simp: lasting_def tidy_def)
  show "ik_hash (releaseInflightBalanceScript t m k) = map_del m (ik_hash k)" by (simp add: r tidy_def)
qed

subsection \<open>The requests\<close>

text \<open>
  A request is pending with the sum that others had reserved before it, then admitted or refused;
  an admitted one is charged, and only then gives its reservation back.
\<close>

datatype charge_phase = Pending real | Admitted | Charged | Finished | Refused

record charge_world =
  cw_cache :: inflight_cache
  cw_usage :: real
  cw_requests :: "(gostring \<times> real \<times> charge_phase) list"

definition usage_data :: "real \<Rightarrow> subscriptionCacheData" where
  "usage_data u = \<lparr>sc_Status = SubscriptionStatusActive, sc_ExpiresAt = 0, sc_DailyUsage = u,
     sc_WeeklyUsage = 0, sc_MonthlyUsage = 0\<rparr>"

definition daily_limit :: "real \<Rightarrow> group_limits" where
  "daily_limit l = \<lparr>gl_DailyLimitUSD = Some l, gl_WeeklyLimitUSD = None, gl_MonthlyLimitUSD = None\<rparr>"

inductive charge_step ::
  "gostring \<Rightarrow> real \<Rightarrow> int \<Rightarrow> goduration \<Rightarrow> charge_world \<Rightarrow> charge_world \<Rightarrow> bool"
  for scope :: gostring and limit :: real and until :: int and ttl :: goduration where
  reserve: "t < until \<Longrightarrow> until \<le> t + ttlMillis ttl \<Longrightarrow> 0 < a \<Longrightarrow> m \<notin> fst ` set (cw_requests w) \<Longrightarrow>
     ReserveInflightScope (\<lambda>x. x) (\<lambda>x. x) (at_time t) scope m a ttl (cw_cache w) = (pending, c) \<Longrightarrow>
     charge_step scope limit until ttl w
       (w\<lparr>cw_cache := c, cw_requests := cw_requests w @ [(m, a, Pending pending)]\<rparr>)"
| admit: "cw_requests w = xs @ (m, a, Pending p) # ys \<Longrightarrow>
     checkFixedChargeSubscription (\<lambda>x. x) (daily_limit limit) (Some (usage_data (cw_usage w))) (a + p) = None \<Longrightarrow>
     charge_step scope limit until ttl w (w\<lparr>cw_requests := xs @ (m, a, Admitted) # ys\<rparr>)"
| refuse: "t < until \<Longrightarrow> cw_requests w = xs @ (m, a, Pending p) # ys \<Longrightarrow>
     checkFixedChargeSubscription (\<lambda>x. x) (daily_limit limit) (Some (usage_data (cw_usage w))) (a + p) = Some e \<Longrightarrow>
     charge_step scope limit until ttl w
       (w\<lparr>cw_cache := ReleaseInflightScope (at_time t) scope m (cw_cache w),
          cw_requests := xs @ (m, a, Refused) # ys\<rparr>)"
| charge: "cw_requests w = xs @ (m, a, Admitted) # ys \<Longrightarrow>
     charge_step scope limit until ttl w (w\<lparr>cw_usage := cw_usage w + a, cw_requests := xs @ (m, a, Charged) # ys\<rparr>)"
| finish: "t < until \<Longrightarrow> cw_requests w = xs @ (m, a, Charged) # ys \<Longrightarrow>
     charge_step scope limit until ttl w
       (w\<lparr>cw_cache := ReleaseInflightScope (at_time t) scope m (cw_cache w),
          cw_requests := xs @ (m, a, Finished) # ys\<rparr>)"
| other_usage: "0 \<le> x \<Longrightarrow> charge_step scope limit until ttl w (w\<lparr>cw_usage := cw_usage w + x\<rparr>)"

inductive charge_reaches ::
  "gostring \<Rightarrow> real \<Rightarrow> int \<Rightarrow> goduration \<Rightarrow> charge_world \<Rightarrow> charge_world \<Rightarrow> bool"
  for scope :: gostring and limit :: real and until :: int and ttl :: goduration and w0 :: charge_world where
  start: "charge_reaches scope limit until ttl w0 w0"
| more: "charge_reaches scope limit until ttl w0 w \<Longrightarrow> charge_step scope limit until ttl w w' \<Longrightarrow>
     charge_reaches scope limit until ttl w0 w'"

subsection \<open>The invariant\<close>

fun holding :: "charge_phase \<Rightarrow> bool" where
  "holding (Pending p) = True"
| "holding Admitted = True"
| "holding Charged = True"
| "holding ph = False"

fun paid :: "charge_phase \<Rightarrow> bool" where
  "paid Charged = True"
| "paid Finished = True"
| "paid ph = False"

fun granted :: "charge_phase \<Rightarrow> bool" where
  "granted Admitted = True"
| "granted Charged = True"
| "granted Finished = True"
| "granted ph = False"

fun sum_where :: "(charge_phase \<Rightarrow> bool) \<Rightarrow> (gostring \<times> real \<times> charge_phase) list \<Rightarrow> real" where
  "sum_where P [] = 0"
| "sum_where P ((m, a, ph) # rs) = (if P ph then a else 0) + sum_where P rs"

lemma sum_where_append [simp]: "sum_where P (xs @ ys) = sum_where P xs + sum_where P ys"
  by (induction P xs rule: sum_where.induct) simp_all

definition not_refused :: "charge_phase \<Rightarrow> bool" where
  "not_refused ph \<longleftrightarrow> ph \<noteq> Refused"

lemma not_refused_split: "not_refused ph \<longleftrightarrow> holding ph \<or> ph = Finished"
  by (cases ph) (simp_all add: not_refused_def)

lemma sum_not_refused_le:
  "\<forall>r \<in> set rs. 0 < fst (snd r) \<Longrightarrow> sum_where not_refused rs \<le> sum_where holding rs + sum_where paid rs"
proof (induction rs)
  case (Cons r rs)
  obtain m a ph where "r = (m, a, ph)" by (cases r)
  then show ?case using Cons by (cases ph) (simp_all add: not_refused_def)
qed simp

definition reqs_positive :: "charge_world \<Rightarrow> bool" where
  "reqs_positive w \<longleftrightarrow> (\<forall>r \<in> set (cw_requests w). 0 < fst (snd r)) \<and> distinct (map fst (cw_requests w))"

definition store_matches :: "gostring \<Rightarrow> int \<Rightarrow> charge_world \<Rightarrow> bool" where
  "store_matches scope until w \<longleftrightarrow> lasting until (ic_scopes (cw_cache w) scope) \<and>
     ik_hash (ic_scopes (cw_cache w) scope) =
       map (\<lambda>(m, a, ph). (m, a)) (filter (\<lambda>(m, a, ph). holding ph) (cw_requests w))"

text \<open>What a request relies on, given the requests that reserved before it.\<close>

fun request_ok :: "real \<Rightarrow> real \<Rightarrow> real \<Rightarrow> (gostring \<times> real \<times> charge_phase) list \<Rightarrow> (gostring \<times> real \<times> charge_phase) \<Rightarrow> bool" where
  "request_ok base limit usage before (m, a, Pending p) \<longleftrightarrow> base + sum_where not_refused before \<le> usage + p"
| "request_ok base limit usage before (m, a, Refused) \<longleftrightarrow> True"
| "request_ok base limit usage before (m, a, ph) \<longleftrightarrow> base + sum_where not_refused before + a \<le> limit"

definition requests_ok :: "real \<Rightarrow> real \<Rightarrow> charge_world \<Rightarrow> bool" where
  "requests_ok base limit w \<longleftrightarrow>
     (\<forall>xs r ys. cw_requests w = xs @ r # ys \<longrightarrow> request_ok base limit (cw_usage w) xs r)"

definition charge_inv :: "gostring \<Rightarrow> real \<Rightarrow> int \<Rightarrow> real \<Rightarrow> charge_world \<Rightarrow> bool" where
  "charge_inv scope limit until base w \<longleftrightarrow> reqs_positive w \<and> store_matches scope until w \<and>
     requests_ok base limit w \<and> base + sum_where paid (cw_requests w) \<le> cw_usage w"

lemma request_ok_mono:
  "request_ok base limit u xs r \<Longrightarrow> u \<le> u' \<Longrightarrow> sum_where not_refused xs' \<le> sum_where not_refused xs \<Longrightarrow>
     request_ok base limit u' xs' r"
  by (cases "(base, limit, u, xs, r)" rule: request_ok.cases) simp_all

lemma requests_okD: "requests_ok base limit w \<Longrightarrow> cw_requests w = xs @ r # ys \<Longrightarrow> request_ok base limit (cw_usage w) xs r"
  unfolding requests_ok_def by blast

lemma requests_ok_snoc:
  assumes "requests_ok base limit w" and "request_ok base limit (cw_usage w) (cw_requests w) r"
    and "cw_requests w' = cw_requests w @ [r]" and "cw_usage w' = cw_usage w"
  shows "requests_ok base limit w'"
  unfolding requests_ok_def
proof (intro allI impI)
  fix xs r' ys assume "cw_requests w' = xs @ r' # ys"
  then have eq: "cw_requests w @ [r] = xs @ r' # ys" using assms(3) by simp
  show "request_ok base limit (cw_usage w') xs r'"
  proof (cases ys rule: rev_cases)
    case Nil
    then show ?thesis using eq assms(2,4) by simp
  next
    case (snoc zs z)
    then have "cw_requests w = xs @ r' # zs" using eq by (simp del: append_assoc add: append_assoc [symmetric])
    then show ?thesis using requests_okD [OF assms(1)] assms(4) by simp
  qed
qed

text \<open>Changing the phase of one request keeps the others, unless it takes back a refusal.\<close>

lemma requests_ok_change:
  assumes "requests_ok base limit w" and "cw_requests w = xs @ (m, a, ph) # ys"
    and "cw_requests w' = xs @ (m, a, ph') # ys" and "cw_usage w \<le> cw_usage w'"
    and "not_refused ph" and "0 < a"
    and "request_ok base limit (cw_usage w') xs (m, a, ph')"
  shows "requests_ok base limit w'"
  unfolding requests_ok_def
proof (intro allI impI)
  fix us r vs assume split: "cw_requests w' = us @ r # vs"
  then have eq: "us @ r # vs = xs @ (m, a, ph') # ys" using assms(3) by simp
  consider "us = xs" "r = (m, a, ph')" | zs where "xs = us @ r # zs"
    | zs where "us = xs @ (m, a, ph') # zs" "ys = zs @ r # vs"
    using eq by (auto simp: append_eq_append_conv2 Cons_eq_append_conv append_eq_Cons_conv)
  then show "request_ok base limit (cw_usage w') us r"
  proof cases
    case 1
    then show ?thesis using assms(7) by simp
  next
    case 2
    then have "cw_requests w = us @ r # (zs @ (m, a, ph) # ys)" using assms(2) by simp
    then have "request_ok base limit (cw_usage w) us r" using assms(1) unfolding requests_ok_def by blast
    then show ?thesis using assms(4) by (rule request_ok_mono) simp
  next
    case 3
    then have "cw_requests w = (xs @ (m, a, ph) # zs) @ r # vs" using assms(2) by simp
    then have "request_ok base limit (cw_usage w) (xs @ (m, a, ph) # zs) r"
      using assms(1) unfolding requests_ok_def by blast
    then show ?thesis using assms(4) by (rule request_ok_mono) (use 3 assms(5,6) in simp)
  qed
qed

lemma check_daily:
  "0 < limit \<Longrightarrow>
     checkFixedChargeSubscription (\<lambda>x. x) (daily_limit limit) (Some (usage_data u)) x = None \<longleftrightarrow> u + x \<le> limit"
  by (auto simp: checkFixedChargeSubscription_def daily_limit_def usage_data_def HasDailyLimit_def
      HasWeeklyLimit_def HasMonthlyLimit_def)

lemma store_sum:
  "store_matches scope until w \<Longrightarrow> reserved_sum (ic_scopes (cw_cache w) scope) = sum_where holding (cw_requests w)"
proof -
  have "sum_list (map snd (map (\<lambda>(m, a, ph). (m, a)) (filter (\<lambda>(m, a, ph). holding ph) rs))) = sum_where holding rs" for rs
    by (induction holding rs rule: sum_where.induct) auto
  then show "store_matches scope until w \<Longrightarrow> ?thesis" by (simp add: store_matches_def reserved_sum_def)
qed

subsection \<open>Every step keeps it\<close>

lemma inv_reserve:
  assumes "charge_inv scope limit until base w" and "t < until" and "until \<le> t + ttlMillis ttl" and "0 < a"
    and "m \<notin> fst ` set (cw_requests w)"
    and "ReserveInflightScope (\<lambda>x. x) (\<lambda>x. x) (at_time t) scope m a ttl (cw_cache w) = (pending, c)"
  shows "charge_inv scope limit until base (w\<lparr>cw_cache := c, cw_requests := cw_requests w @ [(m, a, Pending pending)]\<rparr>)"
proof -
  define k where "k = ic_scopes (cw_cache w) scope"
  define rs where "rs = cw_requests w"
  have sm: "store_matches scope until w" and l: "lasting until k"
    using assms(1) by (simp_all add: charge_inv_def store_matches_def k_def)
  have k1: "dropFinished t (liveKeys t k) = k" using lasting_live [OF l assms(2)] lasting_drop [OF l assms(2)] by simp
  have c: "ic_scopes c scope = addMember t (t + ttlMillis ttl) m a (ttlMillis ttl) k" and p: "pending = reserved_sum k"
    using assms(6) by (auto simp: ReserveInflightScope_def reserveInflightScopeScript_def at_time_def k1
        k_def [symmetric] inflightSum_exact)
  have hash: "ik_hash k = map (\<lambda>(m, a, ph). (m, a)) (filter (\<lambda>(m, a, ph). holding ph) rs)"
    using sm by (simp add: store_matches_def k_def rs_def)
  then have fresh: "m \<notin> set (map fst (ik_hash k))" using assms(5) by (force simp: rs_def)
  have "ik_hash (ic_scopes c scope) = ik_hash k @ [(m, a)]"
    by (simp add: c addMember_def put_fresh [OF fresh])
  then have "ik_hash (ic_scopes c scope) =
      map (\<lambda>(m, a, ph). (m, a)) (filter (\<lambda>(m, a, ph). holding ph) (rs @ [(m, a, Pending pending)]))"
    by (simp add: hash)
  then have "store_matches scope until (w\<lparr>cw_cache := c, cw_requests := rs @ [(m, a, Pending pending)]\<rparr>)"
    using lasting_add [OF l assms(3) fresh, of a] by (simp add: store_matches_def c)
  moreover have pos: "\<forall>r \<in> set rs. 0 < fst (snd r)" "distinct (map fst rs)"
    using assms(1) by (simp_all add: charge_inv_def reqs_positive_def rs_def)
  then have "reqs_positive (w\<lparr>cw_cache := c, cw_requests := rs @ [(m, a, Pending pending)]\<rparr>)"
    using assms(4,5) by (simp add: reqs_positive_def rs_def)
  moreover have "base + sum_where not_refused rs \<le> cw_usage w + pending"
    using assms(1) sum_not_refused_le [OF pos(1)] store_sum [OF sm] p
    by (simp add: charge_inv_def k_def rs_def)
  then have "requests_ok base limit (w\<lparr>cw_cache := c, cw_requests := rs @ [(m, a, Pending pending)]\<rparr>)"
    using requests_ok_snoc [of base limit w "(m, a, Pending pending)"
        "w\<lparr>cw_cache := c, cw_requests := rs @ [(m, a, Pending pending)]\<rparr>"] assms(1)
    by (simp add: charge_inv_def rs_def)
  ultimately show ?thesis using assms(1) by (simp add: charge_inv_def rs_def)
qed

lemma del_middle:
  assumes "m \<notin> fst ` set xs" and "m \<notin> fst ` set ys"
  shows "map_del m (xs @ (m, a) # ys) = xs @ ys"
proof -
  have "filter (\<lambda>(k, _). k \<noteq> m) zs = zs" if "m \<notin> fst ` set zs" for zs :: "('a \<times> 'b) list"
    using that by (intro filter_True) force
  then show ?thesis using assms by (simp add: map_del_filter)
qed

text \<open>A change of phase, with or without giving back the reservation.\<close>

lemma inv_change:
  assumes inv: "charge_inv scope limit until base w" and rs: "cw_requests w = xs @ (m, a, ph) # ys"
    and hold: "holding ph"
    and rs': "cw_requests w' = xs @ (m, a, ph') # ys" and u: "cw_usage w \<le> cw_usage w'"
    and cache: "cw_cache w' = (if holding ph' then cw_cache w else ReleaseInflightScope (at_time t) scope m (cw_cache w))"
    and t: "t < until"
    and ok: "request_ok base limit (cw_usage w') xs (m, a, ph')"
    and paid: "sum_where paid (cw_requests w') - sum_where paid (cw_requests w) \<le> cw_usage w' - cw_usage w"
  shows "charge_inv scope limit until base w'"
proof -
  define k where "k = ic_scopes (cw_cache w) scope"
  have pos: "0 < a" "m \<notin> fst ` set xs" "m \<notin> fst ` set ys" and p: "reqs_positive w"
    using inv rs by (auto simp: charge_inv_def reqs_positive_def)
  have p': "reqs_positive w'" using p rs rs' by (simp add: reqs_positive_def)
  have nr: "not_refused ph" using hold by (cases ph) (simp_all add: not_refused_def)
  have r: "requests_ok base limit w'"
    using requests_ok_change [OF _ rs rs' u nr pos(1) ok] inv by (simp add: charge_inv_def)
  have l: "lasting until k" and h: "ik_hash k = map (\<lambda>(m, a, ph). (m, a)) (filter (\<lambda>(m, a, ph). holding ph) (cw_requests w))"
    using inv by (simp_all add: charge_inv_def store_matches_def k_def)
  define hx hy where "hx = map (\<lambda>(m, a, ph). (m, a)) (filter (\<lambda>(m, a, ph). holding ph) xs)"
    and "hy = map (\<lambda>(m, a, ph). (m, a)) (filter (\<lambda>(m, a, ph). holding ph) ys)"
  have "fst ` set hx \<subseteq> fst ` set xs" "fst ` set hy \<subseteq> fst ` set ys" by (force simp: hx_def hy_def)+
  then have nm: "m \<notin> fst ` set hx" "m \<notin> fst ` set hy" using pos by blast+
  have h1: "ik_hash k = hx @ (m, a) # hy" using h rs hold by (simp add: hx_def hy_def)
  have "store_matches scope until w'"
  proof (cases "holding ph'")
    case True
    then show ?thesis using l h1 cache by (simp add: store_matches_def rs' k_def hx_def hy_def)
  next
    case False
    have "ic_scopes (cw_cache w') scope = releaseInflightBalanceScript t m k"
      using False cache by (simp add: ReleaseInflightScope_def at_time_def k_def)
    then show ?thesis
      using lasting_release [OF l t, of m] del_middle [OF nm, of a] False
      by (simp add: store_matches_def rs' h1 hx_def hy_def)
  qed
  moreover have "base + sum_where paid (cw_requests w') \<le> cw_usage w'" using inv paid by (simp add: charge_inv_def)
  ultimately show ?thesis using p' r by (simp add: charge_inv_def)
qed

lemma inv_step:
  assumes "charge_step scope limit until ttl w w'" and "0 < limit" and "charge_inv scope limit until base w"
  shows "charge_inv scope limit until base w'"
  using assms(1,3)
proof (induction rule: charge_step.induct)
  case (reserve t a m w pending c)
  then show ?case by (intro inv_reserve)
next
  case (admit w xs m a p ys)
  have "cw_usage w + (a + p) \<le> limit" using admit(2) check_daily [OF assms(2)] by simp
  moreover have "request_ok base limit (cw_usage w) xs (m, a, Pending p)"
    using admit(1,3) unfolding charge_inv_def requests_ok_def by blast
  ultimately have ok: "request_ok base limit (cw_usage w) xs (m, a, Admitted)" by simp
  show ?case
    by (rule inv_change [OF admit(3,1), where ph' = Admitted and t = "until - 1"])
      (use ok admit(1) in simp_all)
next
  case (refuse t w xs m a p ys e)
  show ?case
    by (rule inv_change [OF refuse(4,2), where ph' = Refused and t = t]) (use refuse(1,2) in simp_all)
next
  case (charge w xs m a ys)
  have "request_ok base limit (cw_usage w) xs (m, a, Admitted)"
    using charge unfolding charge_inv_def requests_ok_def by blast
  moreover have "0 < a" using charge by (simp add: charge_inv_def reqs_positive_def)
  ultimately show ?case
    by (intro inv_change [OF charge(2,1), where ph' = Charged and t = "until - 1"])
      (use charge(1) in simp_all)
next
  case (finish t w xs m a ys)
  have "request_ok base limit (cw_usage w) xs (m, a, Charged)"
    using finish unfolding charge_inv_def requests_ok_def by blast
  then show ?case
    by (intro inv_change [OF finish(3,2), where ph' = Finished and t = t]) (use finish(1,2) in simp_all)
next
  case (other_usage x w)
  have "requests_ok base limit (w\<lparr>cw_usage := cw_usage w + x\<rparr>)"
    unfolding requests_ok_def
  proof (intro allI impI)
    fix xs r ys assume "cw_requests (w\<lparr>cw_usage := cw_usage w + x\<rparr>) = xs @ r # ys"
    then have "request_ok base limit (cw_usage w) xs r"
      using other_usage(2) requests_okD [of base limit w xs r ys] by (simp add: charge_inv_def)
    then show "request_ok base limit (cw_usage (w\<lparr>cw_usage := cw_usage w + x\<rparr>)) xs r"
      by (rule request_ok_mono) (use other_usage(1) in simp_all)
  qed
  then show ?case
    using other_usage by (simp add: charge_inv_def reqs_positive_def store_matches_def)
qed

lemma granted_within:
  assumes "requests_ok base limit w" and "reqs_positive w" and "\<exists>r \<in> set (cw_requests w). granted (snd (snd r))"
  shows "base + sum_where granted (cw_requests w) \<le> limit"
proof -
  obtain xs r ys where split: "cw_requests w = xs @ r # ys" and g: "granted (snd (snd r))"
    and last: "\<forall>y \<in> set ys. \<not> granted (snd (snd y))"
    using split_list_last_prop [of "cw_requests w" "\<lambda>r. granted (snd (snd r))"] assms(3) by blast
  obtain m a ph where r: "r = (m, a, ph)" by (cases r)
  have "request_ok base limit (cw_usage w) xs r" using assms(1) split unfolding requests_ok_def by blast
  then have b: "base + sum_where not_refused xs + a \<le> limit" using g r by (cases ph) simp_all
  have le: "\<forall>r \<in> set rs. 0 < fst (snd r) \<Longrightarrow> sum_where granted rs \<le> sum_where not_refused rs" for rs
  proof (induction rs)
    case (Cons r rs)
    obtain m a ph where "r = (m, a, ph)" by (cases r)
    then show ?case using Cons by (cases ph) (simp_all add: not_refused_def)
  qed simp
  have z: "\<forall>y \<in> set rs. \<not> granted (snd (snd y)) \<Longrightarrow> sum_where granted rs = 0" for rs
    by (induction granted rs rule: sum_where.induct) auto
  show ?thesis
    using b le [of xs] z [OF last] g r assms(2) split by (simp add: reqs_positive_def)
qed

definition empty_charges :: "inflight_cache \<Rightarrow> real \<Rightarrow> charge_world" where
  "empty_charges c base = \<lparr>cw_cache = c, cw_usage = base, cw_requests = []\<rparr>"

text \<open>
  C16: concurrent charges of one subscription never exceed its daily limit together: each request
  first reserves its amount and then reads the usage, so that whatever requests reserve, read, are
  admitted or refused, are charged and give back their reservations, in whatever order, and
  whatever else is charged beside them, the amounts of all admitted requests and the usage at the
  start add up to at most the limit. All of it happens before the first reservation would expire
  and within one day; sums are taken exactly.
\<close>

theorem fixed_charges_within_limit:
  assumes "charge_reaches scope limit until ttl (empty_charges c base) w" and "0 < limit"
    and "ic_scopes c scope = noKeys"
    and "\<exists>r \<in> set (cw_requests w). granted (snd (snd r))"
  shows "base + sum_where granted (cw_requests w) \<le> limit"
proof -
  have "lasting until noKeys" using keys_ok_empty by (simp add: lasting_def) (simp add: noKeys_def)
  then have "charge_inv scope limit until base (empty_charges c base)"
    using assms(3) by (simp add: charge_inv_def reqs_positive_def store_matches_def requests_ok_def
        empty_charges_def) (simp add: noKeys_def)
  with assms(1) have "charge_inv scope limit until base w"
  proof (induction rule: charge_reaches.induct)
    case (more w w')
    then show ?case using inv_step [OF more(2) assms(2)] by blast
  qed
  then show ?thesis
    using granted_within assms(4) by (simp add: charge_inv_def)
qed

text \<open>A request of 60 is admitted under a limit of 100 while another of 60 is pending.\<close>

theorem fixed_charges_within_limit_witness:
  "\<exists>w. charge_reaches ''sub:1'' 100 500 minute (empty_charges noReservations 20) w \<and>
     map (\<lambda>(m, a, ph). (m, granted ph)) (cw_requests w) = [(''a'', True), (''b'', False)] \<and>
     20 + sum_where granted (cw_requests w) \<le> 100"
proof -
  obtain p1 c1 where r1: "ReserveInflightScope (\<lambda>x. x) (\<lambda>x. x) (at_time 0) ''sub:1'' ''a'' 60 minute noReservations = (p1, c1)"
    by fastforce
  have p1: "p1 = 0"
    using r1 by (simp add: ReserveInflightScope_def reserveInflightScopeScript_def noReservations_def noKeys_def
        liveKeys_def expired_at_def dropFinished_def tidy_def inflightSum_def Let_def)
  obtain p2 c2 where r2: "ReserveInflightScope (\<lambda>x. x) (\<lambda>x. x) (at_time 9) ''sub:1'' ''b'' 60 minute c1 = (p2, c2)"
    by fastforce
  let ?w0 = "empty_charges noReservations 20"
  define w1 where "w1 = ?w0\<lparr>cw_cache := c1, cw_requests := cw_requests ?w0 @ [(''a'', 60, Pending p1)]\<rparr>"
  define w2 where "w2 = w1\<lparr>cw_cache := c2, cw_requests := cw_requests w1 @ [(''b'', 60, Pending p2)]\<rparr>"
  define w3 where "w3 = w2\<lparr>cw_requests := [] @ (''a'', 60, Admitted) # [(''b'', 60, Pending p2)]\<rparr>"
  have ttl: "ttlMillis minute = 60000" by (simp add: ttlMillis_def minute_def millisecond_def)
  have "charge_step ''sub:1'' 100 500 minute ?w0 w1"
    unfolding w1_def by (rule reserve [where t = 0]) (simp_all add: ttl empty_charges_def r1)
  moreover have "charge_step ''sub:1'' 100 500 minute w1 w2"
    unfolding w2_def by (rule reserve [where t = 9]) (simp_all add: ttl w1_def empty_charges_def r2)
  moreover have "charge_step ''sub:1'' 100 500 minute w2 w3"
    unfolding w3_def
    by (rule admit [where p = p1]) (simp_all add: w2_def w1_def empty_charges_def p1 check_daily)
  ultimately have reach: "charge_reaches ''sub:1'' 100 500 minute ?w0 w3"
    by (meson charge_reaches.intros)
  have "20 + sum_where granted (cw_requests w3) \<le> 100"
    by (rule fixed_charges_within_limit [OF reach]) (simp_all add: noReservations_def w3_def)
  then show ?thesis using reach by (intro exI [of _ w3]) (simp add: w3_def)
qed

text \<open>The steps are those of \<open>ReserveFixedCharge\<close>, for a group with a daily limit.\<close>

lemma fixedCharge_phases:
  assumes "subscriptionBill f" and "rg_limits (the (fr_group f)) = daily_limit limit" and "0 < limit"
    and "fr_apiKey f = None" and "fr_subscriptionID f = Some i" and "inflightReservationConfig cfg = Some cf"
  shows "\<exists>r. fixedChargeReserve fl txt cfg ck m f u a balance balance2 True (Some c) =
      (Inr (Some r, fst (ReserveInflightScope fl txt ck (inflightSubscriptionScope i) m a (reservationTTL cf) c), 0),
       Some (snd (ReserveInflightScope fl txt ck (inflightSubscriptionScope i) m a (reservationTTL cf) c)))"
    and "fst (fixedChargeCheck fl now f data loader a p q rates) =
      checkFixedChargeSubscription fl (daily_limit limit) data (fl (a + p))"
  using assms
  by (simp_all add: fixedChargeReserve_def reserveInflight_def reserveInflightScope_def hasAnyLimit_def
      daily_limit_def HasDailyLimit_def fixedChargeCheck_def Let_def split: prod.split option.split)

end
