(* ===== verification/BillingRateProofs.thy ===== *)
theory BillingRateProofs
  imports BillingRates
begin

text \<open>
  The cached copy of a key's windows simulates the row: it holds the same usage, and its windows
  end with those of the row up to the second that is lost in the cache.
\<close>

subsection \<open>Windows in whole seconds\<close>

definition clear_of_end :: "gotime \<Rightarrow> goduration \<Rightarrow> gotime option \<Rightarrow> bool" where
  "clear_of_end now d windowStart =
     (case windowStart of None \<Rightarrow> True | Some w \<Rightarrow> \<not> (w + d - second < now \<and> now < w + d))"

definition valid_start :: "gotime option \<Rightarrow> bool" where
  "valid_start windowStart = (case windowStart of None \<Rightarrow> True | Some w \<Rightarrow> unixEpoch + second \<le> w)"

lemma time_Unix_mono: "t \<le> u \<Longrightarrow> time_Unix t \<le> time_Unix u"
  unfolding time_Unix_def by (intro zdiv_mono1) (simp_all add: second_def)

lemma time_Unix_add: "time_Unix (t + n * second) = time_Unix t + n"
  unfolding time_Unix_def by (simp add: second_def algebra_simps)

lemma time_Unix_pos: "unixEpoch + second \<le> t \<Longrightarrow> 0 < time_Unix t"
  using time_Unix_mono [of "unixEpoch + second" t] by (simp add: time_Unix_def second_def)

lemma unix_expired:
  assumes "clear_of_end now (n * second) (Some w)"
  shows "n \<le> time_Unix now - time_Unix w \<longleftrightarrow> w + n * second \<le> now"
proof
  assume "n \<le> time_Unix now - time_Unix w"
  then have "time_Unix w + n \<le> time_Unix now" by simp
  then have "unix_time (time_Unix w + n) \<le> unix_time (time_Unix now)"
    by (simp add: unix_time_def second_def)
  then have "unix_time (time_Unix w) + n * second \<le> now"
    using time_of_unix(1) [of now] by (simp add: unix_time_def algebra_simps)
  then have "w + n * second - second < now" using time_of_unix(2) [of w] by linarith
  then show "w + n * second \<le> now" using assms by (simp add: clear_of_end_def)
next
  assume "w + n * second \<le> now"
  then show "n \<le> time_Unix now - time_Unix w" using time_Unix_mono [of "w + n * second" now]
    by (simp add: time_Unix_add)
qed

lemma cached_expired:
  assumes "clear_of_end now d (Some w)" and "0 \<le> d" and "d < maxDuration"
  shows "d \<le> time_sub now (unix_time (time_Unix w)) \<longleftrightarrow> d \<le> time_sub now w"
proof -
  have m: "minDuration < d" using assms(2) by (simp add: minDuration_def)
  have "d \<le> now - unix_time (time_Unix w) \<longleftrightarrow> d \<le> now - w"
  proof
    assume "d \<le> now - unix_time (time_Unix w)"
    then have "w + d - second < now" using time_of_unix(2) [of w] by linarith
    then show "d \<le> now - w" using assms(1) by (simp add: clear_of_end_def)
  next
    assume "d \<le> now - w"
    then show "d \<le> now - unix_time (time_Unix w)" using time_of_unix(1) [of w] by linarith
  qed
  then show ?thesis
    using time_sub_less [OF m, of now w] time_sub_less [OF m, of now "unix_time (time_Unix w)"] assms(3)
    by (auto simp: not_less [symmetric])
qed

lemma windowOf_unixOf:
  "valid_start w \<Longrightarrow> windowOf (unixOf w) = map_option (\<lambda>t. unix_time (time_Unix t)) w"
  by (cases w) (simp_all add: windowOf_def unixOf_def valid_start_def time_Unix_pos)

lemma IsWindowExpired_cached:
  assumes "clear_of_end now d w" and "valid_start w" and "0 \<le> d" and "d < maxDuration"
  shows "IsWindowExpired now (windowOf (unixOf w)) d = IsWindowExpired now w d"
  using assms(1,2) cached_expired [OF _ assms(3,4)]
  by (cases w) (simp_all add: windowOf_unixOf IsWindowExpired_def)

subsection \<open>One charge\<close>

definition started :: "real \<Rightarrow> gotime option \<Rightarrow> bool" where
  "started usage w \<longleftrightarrow> valid_start w \<and> (w = None \<longrightarrow> usage = 0)"

lemma update_window_tracks:
  assumes "started usage w" and "clear_of_end now (n * second) w"
  shows "update_window (+) (\<lambda>x. x) (time_Unix now) cost n usage (unixOf w) =
    (let (u, w') = incrementWindow (+) now cost (n * second) usage w in (u, unixOf w'))"
proof (cases w)
  case None
  then show ?thesis using assms(1) by (simp add: started_def update_window_def incrementWindow_def unixOf_def)
next
  case (Some s)
  then have "0 < time_Unix s" using assms(1) by (simp add: started_def valid_start_def time_Unix_pos)
  then show ?thesis
    using Some unix_expired [of now n s] assms(2)
    by (simp add: update_window_def incrementWindow_def unixOf_def time_add_def)
qed

lemma increment_started:
  "started usage w \<Longrightarrow> unixEpoch + second \<le> now \<Longrightarrow>
     case incrementWindow add now cost d usage w of (u, w') \<Rightarrow> started u w'"
  by (auto simp: incrementWindow_def started_def valid_start_def split: option.split)

definition row_ok :: "APIKeyRateLimitData \<Rightarrow> bool" where
  "row_ok d \<longleftrightarrow> started (rl_Usage5h d) (rl_Window5hStart d) \<and> started (rl_Usage1d d) (rl_Window1dStart d) \<and>
     started (rl_Usage7d d) (rl_Window7dStart d)"

definition row_clear :: "gotime \<Rightarrow> APIKeyRateLimitData \<Rightarrow> bool" where
  "row_clear now d \<longleftrightarrow> clear_of_end now RateLimitWindow5h (rl_Window5hStart d) \<and>
     clear_of_end now RateLimitWindow1d (rl_Window1dStart d) \<and>
     clear_of_end now RateLimitWindow7d (rl_Window7dStart d)"

lemma window_seconds:
  "RateLimitWindow5h = 5 * 3600 * second" "RateLimitWindow1d = 24 * 3600 * second"
  "RateLimitWindow7d = 7 * 24 * 3600 * second"
  "5 * hour = 5 * 3600 * second" "24 * hour = 24 * 3600 * second" "7 * 24 * hour = 7 * 24 * 3600 * second"
  by (simp_all add: rate_window_defs hour_def second_def)

lemma charge_tracks:
  assumes "row_ok d" and "row_clear now d" and "unixEpoch + second \<le> now"
  shows "updateRateLimitUsageScript (+) (\<lambda>x. x) (time_Unix now) cost (Some (cacheEntryOf d)) =
      Some (cacheEntryOf (IncrementRateLimitUsage (+) now cost d))"
    and "row_ok (IncrementRateLimitUsage (+) now cost d)"
proof -
  obtain u5 w5 where i5: "incrementWindow (+) now cost (5 * 3600 * second) (rl_Usage5h d) (rl_Window5hStart d) = (u5, w5)"
    by fastforce
  obtain u1 w1 where i1: "incrementWindow (+) now cost (24 * 3600 * second) (rl_Usage1d d) (rl_Window1dStart d) = (u1, w1)"
    by fastforce
  obtain u7 w7 where i7: "incrementWindow (+) now cost (7 * 24 * 3600 * second) (rl_Usage7d d) (rl_Window7dStart d) = (u7, w7)"
    by fastforce
  have row: "IncrementRateLimitUsage (+) now cost d =
      d\<lparr>rl_Usage5h := u5, rl_Usage1d := u1, rl_Usage7d := u7,
        rl_Window5hStart := w5, rl_Window1dStart := w1, rl_Window7dStart := w7\<rparr>"
    unfolding IncrementRateLimitUsage_def window_seconds(4-6) i5 i1 i7 by simp
  have s5: "started (rl_Usage5h d) (rl_Window5hStart d)" and s1: "started (rl_Usage1d d) (rl_Window1dStart d)"
    and s7: "started (rl_Usage7d d) (rl_Window7dStart d)" using assms(1) by (simp_all add: row_ok_def)
  have c5: "clear_of_end now (5 * 3600 * second) (rl_Window5hStart d)"
    and c1: "clear_of_end now (24 * 3600 * second) (rl_Window1dStart d)"
    and c7: "clear_of_end now (7 * 24 * 3600 * second) (rl_Window7dStart d)"
    using assms(2) unfolding row_clear_def window_seconds(1-3) by blast+
  show "updateRateLimitUsageScript (+) (\<lambda>x. x) (time_Unix now) cost (Some (cacheEntryOf d)) =
      Some (cacheEntryOf (IncrementRateLimitUsage (+) now cost d))"
    using update_window_tracks [OF s5 c5, of cost] update_window_tracks [OF s1 c1, of cost]
      update_window_tracks [OF s7 c7, of cost] i5 i1 i7
    by (simp add: row updateRateLimitUsageScript_def cacheEntryOf_def)
  show "row_ok (IncrementRateLimitUsage (+) now cost d)"
    using increment_started [OF s5 assms(3), of "(+)" cost "5 * 3600 * second"]
      increment_started [OF s1 assms(3), of "(+)" cost "24 * 3600 * second"]
      increment_started [OF s7 assms(3), of "(+)" cost "7 * 24 * 3600 * second"] i5 i1 i7
    by (auto simp: row row_ok_def)
qed

subsection \<open>Sequences of charges\<close>

fun charge_row :: "(gotime \<times> real) list \<Rightarrow> APIKeyRateLimitData \<Rightarrow> APIKeyRateLimitData" where
  "charge_row [] d = d"
| "charge_row ((t, cost) # cs) d = charge_row cs (IncrementRateLimitUsage (+) t cost d)"

fun charge_cache :: "int \<Rightarrow> (gotime \<times> real) list \<Rightarrow> rate_store \<Rightarrow> rate_store" where
  "charge_cache keyID [] s = s"
| "charge_cache keyID ((t, cost) # cs) s =
     charge_cache keyID cs (UpdateAPIKeyRateLimitUsage (+) (\<lambda>x. x) t keyID cost s)"

fun charges_clear :: "(gotime \<times> real) list \<Rightarrow> APIKeyRateLimitData \<Rightarrow> bool" where
  "charges_clear [] d = True"
| "charges_clear ((t, cost) # cs) d \<longleftrightarrow>
     row_clear t d \<and> unixEpoch + second \<le> t \<and> charges_clear cs (IncrementRateLimitUsage (+) t cost d)"

lemma charges_track:
  "row_ok d \<Longrightarrow> charges_clear cs d \<Longrightarrow> s keyID = Some (cacheEntryOf d) \<Longrightarrow>
     charge_cache keyID cs s keyID = Some (cacheEntryOf (charge_row cs d)) \<and> row_ok (charge_row cs d)"
proof (induction cs arbitrary: d s)
  case (Cons c cs)
  obtain t cost where c: "c = (t, cost)" by (cases c)
  let ?s = "UpdateAPIKeyRateLimitUsage (+) (\<lambda>x. x) t keyID cost s"
  have "?s keyID = Some (cacheEntryOf (IncrementRateLimitUsage (+) t cost d))"
    using charge_tracks(1) [OF Cons.prems(1)] Cons.prems(2,3) c by (simp add: UpdateAPIKeyRateLimitUsage_def)
  moreover have "row_ok (IncrementRateLimitUsage (+) t cost d)"
    using charge_tracks(2) [OF Cons.prems(1)] Cons.prems(2) c by simp
  ultimately show ?case using Cons.IH [of "IncrementRateLimitUsage (+) t cost d" ?s] Cons.prems(2) c by simp
qed simp

lemma evaluate_tracks:
  assumes "row_ok d" and "row_clear now d"
  shows "evaluateCached fl now k (cacheEntryOf d) pending =
    evaluateRateLimits fl now k (rl_Usage5h d) (rl_Usage1d d) (rl_Usage7d d)
      (rl_Window5hStart d) (rl_Window1dStart d) (rl_Window7dStart d) pending"
proof -
  have e: "IsWindowExpired now (windowOf (unixOf (rl_Window5hStart d))) RateLimitWindow5h =
      IsWindowExpired now (rl_Window5hStart d) RateLimitWindow5h"
    "IsWindowExpired now (windowOf (unixOf (rl_Window1dStart d))) RateLimitWindow1d =
      IsWindowExpired now (rl_Window1dStart d) RateLimitWindow1d"
    "IsWindowExpired now (windowOf (unixOf (rl_Window7dStart d))) RateLimitWindow7d =
      IsWindowExpired now (rl_Window7dStart d) RateLimitWindow7d"
    using assms
    by (intro IsWindowExpired_cached;
        simp add: row_ok_def row_clear_def started_def rate_window_defs hour_def maxDuration_def)+
  show ?thesis by (simp add: evaluateCached_def evaluateRateLimits_def cacheEntryOf_def e)
qed

text \<open>
  a request that finds the windows of its key in the cache is decided as if it had read the
  row: after any sequence of charges, each applied to the row and to the entry that was once built
  from the row, the entry is again the one that would be built from the row, and the check gives
  the same answer with either, at any time. Charges and the check keep clear of the last second
  of a window, which the cache, in whole seconds, cuts off; a window that has not started holds no
  usage; sums are taken exactly.
\<close>

theorem rate_cache_tracks_row:
  assumes "row_ok d" and "charges_clear cs d" and "row_clear now (charge_row cs d)"
    and "s (ak_ID k) = Some (cacheEntryOf d)"
  shows "checkAPIKeyRateLimitsWithPending fl now loader k pending (Some (charge_cache (ak_ID k) cs s)) =
     (fst (checkAPIKeyRateLimitsWithPending fl now (Some (\<lambda>_. Some (charge_row cs d))) k pending None),
      Some (charge_cache (ak_ID k) cs s)) \<and>
     charge_cache (ak_ID k) cs s (ak_ID k) = Some (cacheEntryOf (charge_row cs d))"
  using charges_track [where s = s and keyID = "ak_ID k", OF assms(1,2,4)] evaluate_tracks [OF _ assms(3), of fl k pending]
  by (simp add: checkAPIKeyRateLimitsWithPending_def GetAPIKeyRateLimit_def)

definition demo_key :: APIKey where
  "demo_key = \<lparr>ak_ID = 5, ak_Quota = 0, ak_QuotaUsed = 0, ak_RateLimit5h = 3, ak_RateLimit1d = 0,
     ak_RateLimit7d = 0\<rparr>"

definition fresh_row :: APIKeyRateLimitData where
  "fresh_row = \<lparr>rl_QuotaUsed = 0, rl_Usage5h = 0, rl_Usage1d = 0, rl_Usage7d = 0, rl_Window5hStart = None,
     rl_Window1dStart = None, rl_Window7dStart = None\<rparr>"

definition demo_charges :: "(gotime \<times> real) list" where
  "demo_charges = [(unixEpoch + hour, 2), (unixEpoch + 2 * hour + 7, 2)]"

text \<open>Two charges of 2 exceed a limit of 3 in five hours.\<close>

theorem rate_cache_tracks_row_witness:
  "fst (checkAPIKeyRateLimitsWithPending (\<lambda>x. x) (unixEpoch + 3 * hour) None demo_key 0
     (Some (charge_cache 5 demo_charges (\<lambda>_. Some (cacheEntryOf fresh_row))))) = (Some RateLimit5hExceeded, False)"
proof -
  have run: "charge_row demo_charges fresh_row =
      fresh_row\<lparr>rl_Usage5h := 4, rl_Usage1d := 4, rl_Usage7d := 4,
        rl_Window5hStart := Some (unixEpoch + hour), rl_Window1dStart := Some (unixEpoch + hour),
        rl_Window7dStart := Some (unixEpoch + hour)\<rparr>"
    by (simp add: demo_charges_def fresh_row_def IncrementRateLimitUsage_def incrementWindow_def time_add_def
        hour_def)
  have ok: "row_ok fresh_row" by (simp add: row_ok_def fresh_row_def started_def valid_start_def)
  have clear: "charges_clear demo_charges fresh_row"
    by (simp add: demo_charges_def fresh_row_def IncrementRateLimitUsage_def incrementWindow_def time_add_def
        row_clear_def clear_of_end_def rate_window_defs hour_def second_def)
  have now: "row_clear (unixEpoch + 3 * hour) (charge_row demo_charges fresh_row)"
    by (simp add: run row_clear_def clear_of_end_def rate_window_defs hour_def second_def)
  have "fst (checkAPIKeyRateLimitsWithPending (\<lambda>x. x) (unixEpoch + 3 * hour)
      (Some (\<lambda>_. Some (charge_row demo_charges fresh_row))) demo_key 0 None) = (Some RateLimit5hExceeded, False)"
    by (simp add: checkAPIKeyRateLimitsWithPending_def run evaluateRateLimits_def IsWindowExpired_def
        rate_window_defs demo_key_def exceedsLimit_def time_sub_def minDuration_def
        maxDuration_def hour_def Let_def)
  moreover have id: "ak_ID demo_key = 5" by (simp add: demo_key_def)
  ultimately show ?thesis
    using rate_cache_tracks_row [OF ok clear now, of "\<lambda>_. Some (cacheEntryOf fresh_row)" demo_key "\<lambda>x. x" None 0]
    by simp
qed

text \<open>
  A window that has not started but holds usage, which the code calls stale, is where they part:
  the row adds the charge to it, the cache starts from the charge.
\<close>

theorem unstarted_window_diverges:
  "rl_Window5hStart d = None \<Longrightarrow>
     rl_Usage5h (IncrementRateLimitUsage (+) now cost d) = rl_Usage5h d + cost \<and>
     map_option rc_Usage5h (updateRateLimitUsageScript (+) (\<lambda>x. x) n cost (Some (cacheEntryOf d))) = Some cost"
  by (simp add: IncrementRateLimitUsage_def incrementWindow_def updateRateLimitUsageScript_def
      update_window_def cacheEntryOf_def unixOf_def split: prod.split)

end
