(* ===== verification/PlatformQuotaProofs.thy ===== *)
theory PlatformQuotaProofs
  imports PlatformQuota
begin

text \<open>
  The cached quota entry and the row of the quota table: as long as charges stay within the day
  and the week of the entry, a check answers the same with either; a charge that comes after the
  end of the entry's day is lost for the cached check.
\<close>

subsection \<open>Answers\<close>

datatype quota_kind = Daily | Weekly | Monthly

fun kind_of :: "quota_error \<Rightarrow> quota_kind" where
  "kind_of (DailyQuotaExhausted t) = Daily"
| "kind_of (WeeklyQuotaExhausted t) = Weekly"
| "kind_of (MonthlyQuotaExhausted t) = Monthly"

lemma kind_quotaExceeded:
  "map_option kind_of (quotaExceeded cal now dl du wl wu ml mu ms) =
     (if atLimit dl du then Some Daily else if atLimit wl wu then Some Weekly
      else if atLimit ml mu then Some Monthly else None)"
  by (simp add: quotaExceeded_def)

subsection \<open>Entry and row agree\<close>

text \<open>
  \<open>D\<close> and \<open>W\<close> are the day and the week of the entry. A row whose window is an older one has
  none of its usage in the entry.
\<close>

definition day_agrees :: "gotime \<Rightarrow> real \<Rightarrow> gotime option \<Rightarrow> real \<Rightarrow> gotime option \<Rightarrow> bool" where
  "day_agrees D eu es ru rs \<longleftrightarrow>
     es = Some D \<and> (case rs of None \<Rightarrow> eu = 0 | Some s \<Rightarrow> s \<le> D \<and> eu = (if s = D then ru else 0))"

definition month_agrees :: "gotime \<Rightarrow> real \<Rightarrow> gotime option \<Rightarrow> real \<Rightarrow> gotime option \<Rightarrow> bool" where
  "month_agrees m eu es ru rs \<longleftrightarrow>
     es = Some m \<and> (case rs of None \<Rightarrow> eu = 0
       | Some s \<Rightarrow> if m \<le> s then eu = ru else eu = 0 \<and> s + monthWindow < m + second)"

definition agrees :: "gotime \<Rightarrow> gotime \<Rightarrow> gotime \<Rightarrow> UserPlatformQuotaCacheEntry \<Rightarrow> UserPlatformQuotaRecord \<Rightarrow> bool" where
  "agrees D W m e r \<longleftrightarrow>
     qe_SchemaVersion e = UserPlatformQuotaCacheSchemaV1 \<and>
     qe_DailyLimitUSD e = qr_DailyLimitUSD r \<and> qe_WeeklyLimitUSD e = qr_WeeklyLimitUSD r \<and>
     qe_MonthlyLimitUSD e = qr_MonthlyLimitUSD r \<and>
     day_agrees D (qe_DailyUsageUSD e) (qe_DailyWindowStart e) (qr_DailyUsageUSD r) (qr_DailyWindowStart r) \<and>
     day_agrees W (qe_WeeklyUsageUSD e) (qe_WeeklyWindowStart e) (qr_WeeklyUsageUSD r) (qr_WeeklyWindowStart r) \<and>
     month_agrees m (qe_MonthlyUsageUSD e) (qe_MonthlyWindowStart e) (qr_MonthlyUsageUSD r) (qr_MonthlyWindowStart r)"

definition month_running :: "gotime \<Rightarrow> gotime \<Rightarrow> bool" where
  "month_running m now \<longleftrightarrow> m + second \<le> now \<and> now < m + monthWindow"

lemma month_expired_iff: "monthWindow \<le> time_sub now s \<longleftrightarrow> s + monthWindow \<le> now"
  using time_sub_less [of monthWindow now s]
  by (auto simp: not_less [symmetric] monthWindow_def hour_def minDuration_def maxDuration_def)

lemma day_charge:
  assumes "day_agrees D eu es ru rs"
  shows "day_agrees D (eu + cost) es (maybeReset (\<lambda>x. x) ru rs D cost) (Some D)"
  using assms by (auto simp: day_agrees_def maybeReset_def split: option.splits if_splits)

lemma month_charge:
  assumes "month_agrees m eu es ru rs" and "month_running m t"
  shows "case monthlyMaybeReset (\<lambda>x. x) ru rs cost t of (u, s) \<Rightarrow> month_agrees m (eu + cost) es u (Some s)"
  using assms
  by (auto simp: month_agrees_def monthlyMaybeReset_def month_expired_iff month_running_def second_def
      split: option.splits if_splits)

definition in_windows :: "quota_calendar \<Rightarrow> gotime \<Rightarrow> gotime \<Rightarrow> gotime \<Rightarrow> gotime \<Rightarrow> bool" where
  "in_windows cal D W m t \<longleftrightarrow> qc_StartOfDay cal t = D \<and> qc_StartOfWeek cal t = W \<and> month_running m t"

definition charge_entry :: "real \<Rightarrow> UserPlatformQuotaCacheEntry \<Rightarrow> UserPlatformQuotaCacheEntry" where
  "charge_entry cost e = the (updateUserPlatformQuotaUsageScript (+) cost (Some e))"

definition charge_quota_row ::
  "quota_calendar \<Rightarrow> gotime \<Rightarrow> real \<Rightarrow> UserPlatformQuotaRecord \<Rightarrow> UserPlatformQuotaRecord" where
  "charge_quota_row cal t cost r = the (IncrementUsageWithReset (\<lambda>x. x) cal t cost (Some r))"

lemma charge_agrees:
  assumes "agrees D W m e r" and "in_windows cal D W m t"
  shows "agrees D W m (charge_entry cost e) (charge_quota_row cal t cost r)"
proof -
  obtain u s where m: "monthlyMaybeReset (\<lambda>x. x) (qr_MonthlyUsageUSD r) (qr_MonthlyWindowStart r) cost t = (u, s)"
    by fastforce
  show ?thesis
    using assms day_charge month_charge [of m "qe_MonthlyUsageUSD e" "qe_MonthlyWindowStart e"
        "qr_MonthlyUsageUSD r" "qr_MonthlyWindowStart r" t cost] m
    by (simp add: agrees_def charge_entry_def charge_quota_row_def updateUserPlatformQuotaUsageScript_def
        IncrementUsageWithReset_def in_windows_def)
qed

text \<open>The usage that counts at a later time.\<close>

lemma day_counts:
  assumes "day_agrees D eu es ru rs" and "D \<le> today"
  shows "(if quotaWindowExpired es today then 0 else eu) = (if quotaWindowExpired rs today then 0 else ru)"
  using assms by (auto simp: day_agrees_def quotaWindowExpired_def split: option.splits if_splits)

lemma month_counts:
  assumes "month_agrees m eu es ru rs" and "month_running m now"
  shows "(if monthlyQuotaWindowExpired es now then 0 else eu) = (if monthlyQuotaWindowExpired rs now then 0 else ru)"
  using assms
  by (auto simp: month_agrees_def monthlyQuotaWindowExpired_def month_expired_iff month_running_def
      split: option.splits if_splits)

lemma check_agrees:
  assumes "agrees D W m e r" and "D \<le> qc_StartOfDay cal now" and "W \<le> qc_StartOfWeek cal now"
    and "month_running m now"
  shows "map_option kind_of (fst (checkQuotaHit cal now e)) = map_option kind_of (checkQuotaRow cal now r)"
proof -
  let ?ed = "if quotaWindowExpired (qe_DailyWindowStart e) (qc_StartOfDay cal now) then 0 else qe_DailyUsageUSD e"
    and ?ew = "if quotaWindowExpired (qe_WeeklyWindowStart e) (qc_StartOfWeek cal now) then 0 else qe_WeeklyUsageUSD e"
    and ?em = "if monthlyQuotaWindowExpired (qe_MonthlyWindowStart e) now then 0 else qe_MonthlyUsageUSD e"
  let ?rd = "if quotaWindowExpired (qr_DailyWindowStart r) (qc_StartOfDay cal now) then 0 else qr_DailyUsageUSD r"
    and ?rw = "if quotaWindowExpired (qr_WeeklyWindowStart r) (qc_StartOfWeek cal now) then 0 else qr_WeeklyUsageUSD r"
    and ?rm = "if monthlyQuotaWindowExpired (qr_MonthlyWindowStart r) now then 0 else qr_MonthlyUsageUSD r"
  have d: "?ed = ?rd" and w: "?ew = ?rw" and m: "?em = ?rm"
    using assms(1) day_counts [OF _ assms(2)] day_counts [OF _ assms(3)] month_counts [OF _ assms(4)]
    unfolding agrees_def by blast+
  have lim: "qe_DailyLimitUSD e = qr_DailyLimitUSD r" "qe_WeeklyLimitUSD e = qr_WeeklyLimitUSD r"
    "qe_MonthlyLimitUSD e = qr_MonthlyLimitUSD r" using assms(1) by (simp_all add: agrees_def)
  have "map_option kind_of (fst (checkQuotaHit cal now e)) =
      (if atLimit (qe_DailyLimitUSD e) ?ed then Some Daily else if atLimit (qe_WeeklyLimitUSD e) ?ew then Some Weekly
       else if atLimit (qe_MonthlyLimitUSD e) ?em then Some Monthly else None)"
    unfolding checkQuotaHit_def Let_def fst_conv kind_quotaExceeded by (simp only: refreshedEntry_def Let_def
        UserPlatformQuotaCacheEntry.select_convs)
  also have "\<dots> = (if atLimit (qr_DailyLimitUSD r) ?rd then Some Daily else if atLimit (qr_WeeklyLimitUSD r) ?rw then Some Weekly
       else if atLimit (qr_MonthlyLimitUSD r) ?rm then Some Monthly else None)"
    by (simp only: d w m lim)
  also have "\<dots> = map_option kind_of (checkQuotaRow cal now r)"
    unfolding checkQuotaRow_def Let_def kind_quotaExceeded by (simp only: entryOfRow_def Let_def
        UserPlatformQuotaCacheEntry.select_convs)
  finally show ?thesis .
qed

subsection \<open>An entry that is filled from the row\<close>

definition row_starts_before ::
  "quota_calendar \<Rightarrow> gotime \<Rightarrow> UserPlatformQuotaRecord \<Rightarrow> bool" where
  "row_starts_before cal t r \<longleftrightarrow>
     (case qr_DailyWindowStart r of None \<Rightarrow> True | Some s \<Rightarrow> s \<le> qc_StartOfDay cal t) \<and>
     (case qr_WeeklyWindowStart r of None \<Rightarrow> True | Some s \<Rightarrow> s \<le> qc_StartOfWeek cal t)"

definition whole_second :: "gotime \<Rightarrow> bool" where
  "whole_second t \<longleftrightarrow> unix_time (time_Unix t) = t"

definition entry_month :: "gotime \<Rightarrow> UserPlatformQuotaRecord \<Rightarrow> gotime" where
  "entry_month t r =
     unix_time (time_Unix (if monthlyQuotaWindowExpired (qr_MonthlyWindowStart r) t then t
                           else the (qr_MonthlyWindowStart r)))"

lemma filled_day:
  assumes "case rs of None \<Rightarrow> True | Some s \<Rightarrow> s \<le> D" and "whole_second D"
  shows "day_agrees D (if quotaWindowExpired rs D then 0 else ru)
     (storedTime (if quotaWindowExpired rs D then Some D else rs)) ru rs"
  using assms
  by (auto simp: day_agrees_def quotaWindowExpired_def storedTime_def whole_second_def split: option.splits)

lemma filled_month:
  "month_agrees (entry_month t r)
     (if monthlyQuotaWindowExpired (qr_MonthlyWindowStart r) t then 0 else qr_MonthlyUsageUSD r)
     (storedTime (if monthlyQuotaWindowExpired (qr_MonthlyWindowStart r) t then Some t else qr_MonthlyWindowStart r))
     (qr_MonthlyUsageUSD r) (qr_MonthlyWindowStart r)"
proof (cases "qr_MonthlyWindowStart r")
  case None
  then show ?thesis
    by (simp add: month_agrees_def monthlyQuotaWindowExpired_def storedTime_def entry_month_def)
next
  case (Some s)
  show ?thesis
  proof (cases "s + monthWindow \<le> t")
    case True
    then have lt: "s + monthWindow < unix_time (time_Unix t) + second" using time_of_unix(2) [of t] by linarith
    then have "\<not> unix_time (time_Unix t) \<le> s" by (simp add: monthWindow_def hour_def second_def)
    then show ?thesis
      using Some True lt
      by (simp add: month_agrees_def monthlyQuotaWindowExpired_def storedTime_def entry_month_def month_expired_iff)
  next
    case False
    then show ?thesis
      using Some time_of_unix(1) [of s]
      by (simp add: month_agrees_def monthlyQuotaWindowExpired_def storedTime_def entry_month_def month_expired_iff)
  qed
qed

lemma filled_agrees:
  assumes "row_starts_before cal t r" and "whole_second (qc_StartOfDay cal t)" and "whole_second (qc_StartOfWeek cal t)"
  shows "agrees (qc_StartOfDay cal t) (qc_StartOfWeek cal t) (entry_month t r)
     (SetUserPlatformQuotaCache (entryOfRow cal t r)) r"
  using assms filled_day [where rs = "qr_DailyWindowStart r" and D = "qc_StartOfDay cal t" and ru = "qr_DailyUsageUSD r"]
    filled_day [where rs = "qr_WeeklyWindowStart r" and D = "qc_StartOfWeek cal t" and ru = "qr_WeeklyUsageUSD r"] filled_month [of t r]
  by (simp add: agrees_def SetUserPlatformQuotaCache_def entryOfRow_def row_starts_before_def Let_def)

subsection \<open>Sequences of charges\<close>

fun charges_entry :: "(gotime \<times> real) list \<Rightarrow> UserPlatformQuotaCacheEntry option \<Rightarrow> UserPlatformQuotaCacheEntry option" where
  "charges_entry [] e = e"
| "charges_entry ((t, cost) # cs) e = charges_entry cs (IncrementUserPlatformQuotaUsage (+) ''anthropic'' cost e)"

fun charges_row ::
  "quota_calendar \<Rightarrow> (gotime \<times> real) list \<Rightarrow> UserPlatformQuotaRecord option \<Rightarrow> UserPlatformQuotaRecord option" where
  "charges_row cal [] r = r"
| "charges_row cal ((t, cost) # cs) r = charges_row cal cs (IncrementUsageWithReset (\<lambda>x. x) cal t cost r)"

lemma charges_agree:
  assumes "agrees D W m e r" and "\<And>t cost. (t, cost) \<in> set cs \<Longrightarrow> 0 < cost \<and> in_windows cal D W m t"
  shows "\<exists>e' r'. charges_entry cs (Some e) = Some e' \<and> charges_row cal cs (Some r) = Some r' \<and> agrees D W m e' r'"
  using assms
proof (induction cs arbitrary: e r)
  case (Cons c cs)
  obtain t cost where c: "c = (t, cost)" by (cases c)
  have ok: "0 < cost" "in_windows cal D W m t" using Cons.prems(2) [of t cost] c by simp_all
  have rest: "0 < cost' \<and> in_windows cal D W m t'" if "(t', cost') \<in> set cs" for t' cost'
    using Cons.prems(2) [of t' cost'] that by simp
  have "qe_SchemaVersion e = UserPlatformQuotaCacheSchemaV1" using Cons.prems(1) by (simp add: agrees_def)
  then have "IncrementUserPlatformQuotaUsage (+) ''anthropic'' cost (Some e) = Some (charge_entry cost e)"
    using ok(1) by (simp add: IncrementUserPlatformQuotaUsage_def charge_entry_def
        updateUserPlatformQuotaUsageScript_def)
  moreover have "IncrementUsageWithReset (\<lambda>x. x) cal t cost (Some r) = Some (charge_quota_row cal t cost r)"
    by (simp add: charge_quota_row_def IncrementUsageWithReset_def)
  ultimately show ?case
    using Cons.IH [OF charge_agrees [OF Cons.prems(1) ok(2)] rest] c by simp
qed auto

text \<open>
  C25: the cached quota of a user answers like the quota table: an entry that was filled from the
  row on a miss, and then charged together with the row any number of times within the day and
  the week of the fill, gives a later check the same answer as the row, the same window being
  named as exhausted, on that day or any later one, until the entry's month ends. Sums are taken
  exactly, days start on whole seconds, and the row's day and week are not ahead of the clock.
\<close>

theorem quota_cache_tracks_row:
  assumes "row_starts_before cal t0 r" and "whole_second (qc_StartOfDay cal t0)" and "whole_second (qc_StartOfWeek cal t0)"
    and "checkUserPlatformQuotaEligibility cal t0 platform True CacheMiss (Row r) = (answer, Some e)"
    and "\<And>t cost. (t, cost) \<in> set cs \<Longrightarrow>
      0 < cost \<and> in_windows cal (qc_StartOfDay cal t0) (qc_StartOfWeek cal t0) (entry_month t0 r) t"
    and "qc_StartOfDay cal t0 \<le> qc_StartOfDay cal now" and "qc_StartOfWeek cal t0 \<le> qc_StartOfWeek cal now"
    and "month_running (entry_month t0 r) now"
  shows "\<exists>e' r'. charges_entry cs (Some (SetUserPlatformQuotaCache e)) = Some e' \<and>
     charges_row cal cs (Some r) = Some r' \<and>
     map_option kind_of (fst (checkUserPlatformQuotaEligibility cal now platform True (CacheHit e') (Row r'))) =
     map_option kind_of (fst (checkUserPlatformQuotaEligibility cal now platform True CacheFails (Row r')))"
proof -
  have e: "e = entryOfRow cal t0 r" and p: "platform \<noteq> []"
    using assms(4) by (auto simp: checkUserPlatformQuotaEligibility_def split: if_splits)
  obtain e' r' where run: "charges_entry cs (Some (SetUserPlatformQuotaCache e)) = Some e'"
    "charges_row cal cs (Some r) = Some r'"
    "agrees (qc_StartOfDay cal t0) (qc_StartOfWeek cal t0) (entry_month t0 r) e' r'"
    using charges_agree [OF filled_agrees [OF assms(1-3)] assms(5)] e by blast
  moreover have "qe_SchemaVersion e' = UserPlatformQuotaCacheSchemaV1" using run(3) by (simp add: agrees_def)
  ultimately show ?thesis
    using check_agrees [OF run(3) assms(6-8)] p by (simp add: checkUserPlatformQuotaEligibility_def)
qed

definition utc_calendar :: quota_calendar where
  "utc_calendar = \<lparr>qc_StartOfDay = (\<lambda>t. t div (24 * hour) * (24 * hour)),
     qc_StartOfWeek = (\<lambda>t. t div (168 * hour) * (168 * hour)), qc_AddDays = (\<lambda>t n. t + n * (24 * hour))\<rparr>"

definition demo_quota :: UserPlatformQuotaRecord where
  "demo_quota = \<lparr>qr_DailyLimitUSD = Some 3, qr_WeeklyLimitUSD = None, qr_MonthlyLimitUSD = None,
     qr_DailyUsageUSD = 1, qr_WeeklyUsageUSD = 1, qr_MonthlyUsageUSD = 1, qr_DailyWindowStart = None,
     qr_WeeklyWindowStart = None, qr_MonthlyWindowStart = None\<rparr>"

definition demo_noon :: gotime where "demo_noon = unixEpoch + 12 * hour"

theorem quota_cache_tracks_row_witness:
  "\<exists>e e' r'. checkUserPlatformQuotaEligibility utc_calendar demo_noon ''anthropic'' True CacheMiss (Row demo_quota) = (None, Some e) \<and>
     charges_entry [(demo_noon + hour, 2), (demo_noon + 2 * hour, 2)] (Some (SetUserPlatformQuotaCache e)) = Some e' \<and>
     charges_row utc_calendar [(demo_noon + hour, 2), (demo_noon + 2 * hour, 2)] (Some demo_quota) = Some r' \<and>
     map_option kind_of (fst (checkUserPlatformQuotaEligibility utc_calendar (demo_noon + 3 * hour) ''anthropic'' True
       (CacheHit e') (Row r'))) =
     map_option kind_of (fst (checkUserPlatformQuotaEligibility utc_calendar (demo_noon + 3 * hour) ''anthropic'' True
       CacheFails (Row r')))"
proof -
  have m: "entry_month demo_noon demo_quota = demo_noon"
    by (simp add: entry_month_def demo_quota_def monthlyQuotaWindowExpired_def demo_noon_def time_Unix_def
        unix_time_def unixEpoch_def second_def hour_def)
  have w: "whole_second (qc_StartOfDay utc_calendar demo_noon)" "whole_second (qc_StartOfWeek utc_calendar demo_noon)"
    by (simp_all add: whole_second_def utc_calendar_def demo_noon_def time_Unix_def unix_time_def unixEpoch_def
        second_def hour_def)
  have b: "row_starts_before utc_calendar demo_noon demo_quota"
    by (simp add: row_starts_before_def demo_quota_def)
  have c: "checkUserPlatformQuotaEligibility utc_calendar demo_noon ''anthropic'' True CacheMiss (Row demo_quota) =
      (None, Some (entryOfRow utc_calendar demo_noon demo_quota))"
    by (simp add: checkUserPlatformQuotaEligibility_def checkQuotaRow_def entryOfRow_def demo_quota_def
        quotaWindowExpired_def monthlyQuotaWindowExpired_def quotaExceeded_def atLimit_def)
  have i: "0 < cost \<and> in_windows utc_calendar (qc_StartOfDay utc_calendar demo_noon)
      (qc_StartOfWeek utc_calendar demo_noon) (entry_month demo_noon demo_quota) t"
    if "(t, cost) \<in> set [(demo_noon + hour, 2 :: real), (demo_noon + 2 * hour, 2)]" for t cost
    using that unfolding m
    by (auto simp: in_windows_def utc_calendar_def demo_noon_def month_running_def unixEpoch_def
        second_def hour_def monthWindow_def)
  have n: "qc_StartOfDay utc_calendar demo_noon \<le> qc_StartOfDay utc_calendar (demo_noon + 3 * hour)"
    "qc_StartOfWeek utc_calendar demo_noon \<le> qc_StartOfWeek utc_calendar (demo_noon + 3 * hour)"
    "month_running (entry_month demo_noon demo_quota) (demo_noon + 3 * hour)"
    unfolding m by (simp_all add: utc_calendar_def demo_noon_def month_running_def unixEpoch_def second_def
        hour_def monthWindow_def)
  show ?thesis using quota_cache_tracks_row [OF b w c i n] c by blast
qed

subsection \<open>A charge after midnight\<close>

text \<open>
  C40: a charge that reaches the cached entry after the entry's day has ended, before any other
  request has started the new day in it, is forgotten: the next check finds the old day finished,
  sets the day's usage to zero and admits the user, although the charge alone exhausts the daily
  limit and the row, charged the same way, refuses. The reset that the comments expect from the
  database leaves the entry as it is.
\<close>

theorem charge_after_midnight_lost:
  assumes "qe_SchemaVersion e = UserPlatformQuotaCacheSchemaV1" and "qe_DailyWindowStart e = Some D"
    and "D < qc_StartOfDay cal t" and "qc_StartOfDay cal now = qc_StartOfDay cal t"
    and "qe_DailyLimitUSD e = Some limit" and "qe_WeeklyLimitUSD e = None" and "qe_MonthlyLimitUSD e = None"
    and "qr_DailyLimitUSD r = Some limit" and "0 < limit" and "limit \<le> cost"
    and "qr_DailyWindowStart r = Some D" and "platform \<noteq> []"
  shows "\<exists>e' r' e''. IncrementUserPlatformQuotaUsage (+) platform cost (Some e) = Some e' \<and>
     IncrementUsageWithReset (\<lambda>x. x) cal t cost (Some r) = Some r' \<and>
     checkUserPlatformQuotaEligibility cal now platform True (CacheHit e') (Row r') = (None, Some e'') \<and>
     qe_DailyUsageUSD e'' = 0 \<and>
     checkUserPlatformQuotaEligibility cal now platform True CacheFails (Row r') =
       (Some (DailyQuotaExhausted (nextDailyReset cal now)), None)"
proof -
  let ?e = "charge_entry cost e" and ?r = "charge_quota_row cal t cost r"
  have entry: "IncrementUserPlatformQuotaUsage (+) platform cost (Some e) = Some ?e"
    using assms(1,9,10,12) by (simp add: IncrementUserPlatformQuotaUsage_def charge_entry_def
        updateUserPlatformQuotaUsageScript_def)
  have row: "IncrementUsageWithReset (\<lambda>x. x) cal t cost (Some r) = Some ?r"
    by (simp add: charge_quota_row_def IncrementUsageWithReset_def)
  have e: "qe_SchemaVersion ?e = UserPlatformQuotaCacheSchemaV1" "qe_DailyWindowStart ?e = Some D"
    "qe_DailyLimitUSD ?e = Some limit" "qe_WeeklyLimitUSD ?e = None" "qe_MonthlyLimitUSD ?e = None"
    using assms by (simp_all add: charge_entry_def updateUserPlatformQuotaUsageScript_def)
  have r: "qr_DailyLimitUSD ?r = Some limit" "qr_DailyUsageUSD ?r = cost"
    "qr_DailyWindowStart ?r = Some (qc_StartOfDay cal t)"
    using assms(3,8,11) by (simp_all add: charge_quota_row_def IncrementUsageWithReset_def maybeReset_def
        split: prod.split)
  have "checkUserPlatformQuotaEligibility cal now platform True (CacheHit ?e) (Row ?r) =
      (None, Some (refreshedEntry cal now ?e))" and "qe_DailyUsageUSD (refreshedEntry cal now ?e) = 0"
    using assms(3,4,9,12) e
    by (simp_all add: checkUserPlatformQuotaEligibility_def checkQuotaHit_def quotaExceeded_def atLimit_def
        refreshedEntry_def anyWindowExpired_def isSentinel_def quotaWindowExpired_def Let_def)
  moreover have "checkUserPlatformQuotaEligibility cal now platform True CacheFails (Row ?r) =
      (Some (DailyQuotaExhausted (nextDailyReset cal now)), None)"
    using assms(4,10,12) r
    by (simp add: checkUserPlatformQuotaEligibility_def checkQuotaRow_def entryOfRow_def quotaExceeded_def
        atLimit_def quotaWindowExpired_def Let_def)
  ultimately show ?thesis using entry row by blast
qed

definition demo_entry :: UserPlatformQuotaCacheEntry where
  "demo_entry = SetUserPlatformQuotaCache (entryOfRow utc_calendar demo_noon demo_quota)"

theorem charge_after_midnight_lost_witness:
  "\<exists>e' r' e''. IncrementUserPlatformQuotaUsage (+) ''anthropic'' 5 (Some demo_entry) = Some e' \<and>
     IncrementUsageWithReset (\<lambda>x. x) utc_calendar (demo_noon + 13 * hour) 5
       (Some (demo_quota\<lparr>qr_DailyWindowStart := Some unixEpoch\<rparr>)) = Some r' \<and>
     checkUserPlatformQuotaEligibility utc_calendar (demo_noon + 14 * hour) ''anthropic'' True (CacheHit e') (Row r') =
       (None, Some e'') \<and>
     qe_DailyUsageUSD e'' = 0 \<and>
     checkUserPlatformQuotaEligibility utc_calendar (demo_noon + 14 * hour) ''anthropic'' True CacheFails (Row r') =
       (Some (DailyQuotaExhausted (nextDailyReset utc_calendar (demo_noon + 14 * hour))), None)"
  by (rule charge_after_midnight_lost [where D = unixEpoch and limit = 3])
    (simp_all add: demo_entry_def SetUserPlatformQuotaCache_def entryOfRow_def demo_quota_def
      quotaWindowExpired_def monthlyQuotaWindowExpired_def Let_def storedTime_def utc_calendar_def demo_noon_def time_Unix_def unix_time_def
      unixEpoch_def second_def hour_def)

end
