(* ===== verification/BillingGateProofs.thy ===== *)
theory BillingGateProofs
  imports BillingGate
begin

text \<open>
  The admission of requests: when the whole check admits, how the circuit breaker isolates a
  failing database, and how many requests get through in a minute.
\<close>

subsection \<open>When a request is admitted\<close>

text \<open>The conditions, read off the inputs.\<close>

definition breaker_lets_through :: "gotime \<Rightarrow> billingCircuitBreaker option \<Rightarrow> bool" where
  "breaker_lets_through now br \<longleftrightarrow>
     (case br of None \<Rightarrow> True
      | Some b \<Rightarrow>
          cb_state b = billingCircuitClosed \<or>
          cb_state b = billingCircuitOpen \<and> cb_resetTimeout b \<le> time_sub now (cb_openedAt b) \<and> 0 < cb_halfOpenRequests b \<or>
          cb_state b = billingCircuitHalfOpen \<and> 0 < cb_halfOpenRemaining b)"

definition funds_cover :: "gotime \<Rightarrow> rpm_group_view option \<Rightarrow> bool \<Rightarrow> billing_reads \<Rightarrow> bool" where
  "funds_cover now grp hasSubscription rd \<longleftrightarrow>
     (if subscriptionMode grp hasSubscription
      then \<exists>d. br_subscription rd = Some d \<and> sc_Status d = SubscriptionStatusActive \<and> now \<le> sc_ExpiresAt d \<and>
        (HasDailyLimit (rg_limits (the grp)) \<longrightarrow> sc_DailyUsage d < the (gl_DailyLimitUSD (rg_limits (the grp)))) \<and>
        (HasWeeklyLimit (rg_limits (the grp)) \<longrightarrow> sc_WeeklyUsage d < the (gl_WeeklyLimitUSD (rg_limits (the grp)))) \<and>
        (HasMonthlyLimit (rg_limits (the grp)) \<longrightarrow> sc_MonthlyUsage d < the (gl_MonthlyLimitUSD (rg_limits (the grp))))
      else \<exists>b. br_balance rd = Some b \<and> 0 < b \<and> (case br_minimumReserve rd of None \<Rightarrow> True | Some r \<Rightarrow> r \<le> 0 \<or> r \<le> b))"

text \<open>The usage and the start of the three windows, as far as they are known.\<close>

type_synonym key_windows = "(real \<times> gotime option) \<times> (real \<times> gotime option) \<times> (real \<times> gotime option)"

definition row_windows :: "APIKeyRateLimitData \<Rightarrow> key_windows" where
  "row_windows d = ((rl_Usage5h d, rl_Window5hStart d), (rl_Usage1d d, rl_Window1dStart d),
     (rl_Usage7d d, rl_Window7dStart d))"

definition cached_windows :: "APIKeyRateLimitCacheData \<Rightarrow> key_windows" where
  "cached_windows c = ((rc_Usage5h c, windowOf (rc_Window5h c)), (rc_Usage1d c, windowOf (rc_Window1d c)),
     (rc_Usage7d c, windowOf (rc_Window7d c)))"

definition known_windows :: "APIKey \<Rightarrow> rate_loader option \<Rightarrow> rate_store option \<Rightarrow> key_windows option" where
  "known_windows k loader rates =
     (let row = Option.bind loader (\<lambda>l. l (ak_ID k)) in
      case rates of
        None \<Rightarrow> map_option row_windows row
      | Some s \<Rightarrow>
          (case s (ak_ID k) of
             Some c \<Rightarrow> Some (cached_windows c)
           | None \<Rightarrow> map_option (\<lambda>d. cached_windows (cacheEntryOf d)) row))"

definition window_left :: "(real \<Rightarrow> real) \<Rightarrow> gotime \<Rightarrow> goduration \<Rightarrow> real \<Rightarrow> real \<times> gotime option \<Rightarrow> bool" where
  "window_left fl now d l uw \<longleftrightarrow>
     0 < l \<longrightarrow> (let u = (if IsWindowExpired now (snd uw) d then 0 else fst uw) in u < l \<and> fl u \<le> l)"

definition key_left :: "(real \<Rightarrow> real) \<Rightarrow> gotime \<Rightarrow> APIKey option \<Rightarrow> rate_loader option \<Rightarrow> rate_store option \<Rightarrow> bool" where
  "key_left fl now key loader rates \<longleftrightarrow>
     (case key of None \<Rightarrow> True
      | Some k \<Rightarrow>
          (case known_windows k loader rates of None \<Rightarrow> True
           | Some (w5, w1, w7) \<Rightarrow>
               window_left fl now RateLimitWindow5h (ak_RateLimit5h k) w5 \<and>
               window_left fl now RateLimitWindow1d (ak_RateLimit1d k) w1 \<and>
               window_left fl now RateLimitWindow7d (ak_RateLimit7d k) w7))"

definition requests_left :: "gotime \<Rightarrow> rpm_user_view \<Rightarrow> rpm_group_view option \<Rightarrow> billing_reads \<Rightarrow> rpm_counters option \<Rightarrow> bool" where
  "requests_left now u grp rd counters \<longleftrightarrow>
     (case counters of
        None \<Rightarrow> True
      | Some c \<Rightarrow>
          (case grp of None \<Rightarrow> True
           | Some g \<Rightarrow> br_groupCounts rd \<and> 0 < groupRPMLimit u g (br_rpmOverride rd) \<longrightarrow>
               GetUserGroupRPM now (ru_ID u) (rg_ID g) c < groupRPMLimit u g (br_rpmOverride rd)) \<and>
          (br_userCounts rd \<and> 0 < ru_RPMLimit u \<longrightarrow> GetUserRPM now (ru_ID u) c < ru_RPMLimit u))"

lemma Allow_iff: "fst (Allow now b) \<longleftrightarrow> breaker_lets_through now (Some b)"
  by (auto simp: Allow_def takeHalfOpenSlot_def breaker_lets_through_def split: billingCircuitBreakerState.splits)

lemma admitBreaker_fst: "fst (admitBreaker now s) \<longleftrightarrow> breaker_lets_through now (bs_breaker s)"
proof (cases "bs_breaker s")
  case None
  then show ?thesis by (simp add: admitBreaker_def breaker_lets_through_def)
next
  case (Some b)
  then show ?thesis using Allow_iff [of now b] by (cases "Allow now b") (simp add: admitBreaker_def)
qed

lemma subscriptionDataError_None:
  "subscriptionDataError now g d = None \<longleftrightarrow> sc_Status d = SubscriptionStatusActive \<and> now \<le> sc_ExpiresAt d \<and>
     (HasDailyLimit g \<longrightarrow> sc_DailyUsage d < the (gl_DailyLimitUSD g)) \<and>
     (HasWeeklyLimit g \<longrightarrow> sc_WeeklyUsage d < the (gl_WeeklyLimitUSD g)) \<and>
     (HasMonthlyLimit g \<longrightarrow> sc_MonthlyUsage d < the (gl_MonthlyLimitUSD g))"
  by (simp add: subscriptionDataError_def not_le not_less)

lemma balance_threshold:
  "balanceBelowEligibilityThreshold cfg b \<longleftrightarrow>
     b \<le> 0 \<or> (case cfg of None \<Rightarrow> False | Some r \<Rightarrow> 0 < r \<and> b < r)"
  by (cases cfg) (auto simp: balanceBelowEligibilityThreshold_def minimumBalanceReserve_def)

lemma checkFunds_None: "fst (checkFunds now grp hasSubscription rd s) = None \<longleftrightarrow> funds_cover now grp hasSubscription rd"
proof (cases "subscriptionMode grp hasSubscription")
  case True
  then obtain g where g: "grp = Some g" "rg_subscription g" "hasSubscription"
    by (cases grp) (simp_all add: subscriptionMode_def)
  then show ?thesis
    using True subscriptionDataError_None [of now "rg_limits g"]
    by (cases "br_subscription rd")
      (simp_all add: checkFunds_def checkSubscriptionEligibility_def funds_cover_def)
next
  case False
  then have c: "fst (checkFunds now grp hasSubscription rd s) =
      fst (checkBalanceEligibility now (br_minimumReserve rd) (br_balance rd) (bs_breaker s))"
    by (cases grp) (auto simp: checkFunds_def subscriptionMode_def split: prod.split)
  show ?thesis
    using False
    by (cases "br_balance rd"; cases "br_minimumReserve rd")
      (auto simp: c checkBalanceEligibility_def funds_cover_def balance_threshold)
qed

lemma checkFunds_rest:
  "bs_quotaEntry (snd (checkFunds now grp hs rd s)) = bs_quotaEntry s"
  "bs_rates (snd (checkFunds now grp hs rd s)) = bs_rates s"
  "bs_rpm (snd (checkFunds now grp hs rd s)) = bs_rpm s"
  by (simp_all add: checkFunds_def split: prod.split)

lemma checkQuotaStep_rest:
  "fst (checkQuotaStep cal now platform rd s) = map_option Quota
     (fst (checkUserPlatformQuotaEligibility cal now platform (br_hasQuotaRepo rd) (br_quotaRead rd) (br_quotaLoad rd)))"
  "bs_rates (snd (checkQuotaStep cal now platform rd s)) = bs_rates s"
  "bs_rpm (snd (checkQuotaStep cal now platform rd s)) = bs_rpm s"
  by (simp_all add: checkQuotaStep_def split: prod.split option.split)

lemma admitBreaker_rest:
  "bs_quotaEntry (snd (admitBreaker now s)) = bs_quotaEntry s"
  "bs_rates (snd (admitBreaker now s)) = bs_rates s" "bs_rpm (snd (admitBreaker now s)) = bs_rpm s"
  by (simp_all add: admitBreaker_def split: option.split prod.split)

lemma checkRatesStep_rpm: "bs_rpm (snd (checkRatesStep fl now k rd s)) = bs_rpm s"
  by (simp add: checkRatesStep_def split: option.split prod.split)

lemma checkRatesStep_rates:
  "bs_rates s = bs_rates s' \<Longrightarrow> fst (checkRatesStep fl now k rd s) = fst (checkRatesStep fl now k rd s')"
  by (simp add: checkRatesStep_def split: option.split prod.split)

lemma exceeds_window:
  "window_left fl now d l (u, w) \<longleftrightarrow> \<not> exceedsLimit fl 0 (if IsWindowExpired now w d then 0 else u) l"
  by (auto simp: window_left_def exceedsLimit_def not_le not_less Let_def)

lemma first_error_None:
  "(if a then Some x else if b then Some y else if c then Some z else None) = None \<longleftrightarrow> \<not> a \<and> \<not> b \<and> \<not> c"
  by simp

lemma evaluateRateLimits_None:
  "fst (evaluateRateLimits fl now k u5 u1 u7 w5 w1 w7 0) = None \<longleftrightarrow>
     window_left fl now RateLimitWindow5h (ak_RateLimit5h k) (u5, w5) \<and>
     window_left fl now RateLimitWindow1d (ak_RateLimit1d k) (u1, w1) \<and>
     window_left fl now RateLimitWindow7d (ak_RateLimit7d k) (u7, w7)"
  unfolding evaluateRateLimits_def Let_def fst_conv first_error_None exceeds_window ..

lemma checkRates_None:
  "fst (fst (checkAPIKeyRateLimits fl now loader k rates)) = None \<longleftrightarrow> key_left fl now (Some k) loader rates"
  by (auto simp: checkAPIKeyRateLimits_def checkAPIKeyRateLimitsWithPending_def key_left_def known_windows_def
      evaluateCached_def evaluateRateLimits_None row_windows_def cached_windows_def GetAPIKeyRateLimit_def
      split: option.split)

lemma window_left_free: "l \<le> 0 \<Longrightarrow> window_left fl now d l uw"
  by (simp add: window_left_def)

lemma checkRatesStep_None:
  "fst (checkRatesStep fl now key rd s) = None \<longleftrightarrow> key_left fl now key (br_loader rd) (bs_rates s)"
proof (cases key)
  case None
  then show ?thesis by (simp add: checkRatesStep_def key_left_def)
next
  case (Some k)
  show ?thesis
  proof (cases "HasRateLimits k")
    case True
    then show ?thesis
      using checkRates_None [of fl now "br_loader rd" k "bs_rates s"]
      by (cases "checkAPIKeyRateLimits fl now (br_loader rd) k (bs_rates s)")
        (auto simp: checkRatesStep_def Some split: prod.split)
  next
    case False
    then show ?thesis
      by (auto simp: checkRatesStep_def Some key_left_def HasRateLimits_def window_left_free split: option.split)
  qed
qed

lemma checkGroupRPM_None:
  "fst (checkGroupRPM now u grp ov works c) = None \<longleftrightarrow>
     (case grp of None \<Rightarrow> True | Some g \<Rightarrow> works \<and> 0 < groupRPMLimit u g ov \<longrightarrow>
        GetUserGroupRPM now (ru_ID u) (rg_ID g) c < groupRPMLimit u g ov)"
  by (cases grp) (simp_all add: checkGroupRPM_def IncrementUserGroupRPM_def GetUserGroupRPM_def Let_def)

lemma checkGroupRPM_user: "rpm_user (snd (checkGroupRPM now u grp ov works c)) = rpm_user c"
  by (cases grp) (simp_all add: checkGroupRPM_def IncrementUserGroupRPM_def Let_def)

lemma checkUserRPM_None:
  "fst (checkUserRPM now u works c) = None \<longleftrightarrow>
     (works \<and> 0 < ru_RPMLimit u \<longrightarrow> GetUserRPM now (ru_ID u) c < ru_RPMLimit u)"
  by (simp add: checkUserRPM_def IncrementUserRPM_def GetUserRPM_def Let_def)

lemma checkRPM_None:
  "fst (checkRPM now (Some u) grp (br_rpmOverride rd) (br_groupCounts rd) (br_userCounts rd) counters) = None \<longleftrightarrow>
     requests_left now u grp rd counters"
proof (cases counters)
  case None
  then show ?thesis by (simp add: checkRPM_def requests_left_def)
next
  case (Some c)
  obtain e c1 where g: "checkGroupRPM now u grp (br_rpmOverride rd) (br_groupCounts rd) c = (e, c1)" by fastforce
  have "GetUserRPM now (ru_ID u) c1 = GetUserRPM now (ru_ID u) c"
    using checkGroupRPM_user [of now u grp "br_rpmOverride rd" "br_groupCounts rd" c] g by (simp add: GetUserRPM_def)
  then show ?thesis
    using checkGroupRPM_None [of now u grp "br_rpmOverride rd" "br_groupCounts rd" c] g
      checkUserRPM_None [of now u "br_userCounts rd" c1]
    by (cases "checkUserRPM now u (br_userCounts rd) c1"; cases e; cases grp)
      (simp_all add: Some checkRPM_def requests_left_def)
qed

lemma rpm_errors:
  "fst (checkRPM now user grp ov w1 w2 counters) \<in> {None, Some GroupRPMExceeded, Some UserRPMExceeded}"
  by (cases user; cases counters; cases grp)
    (simp_all add: checkRPM_def checkGroupRPM_def checkUserRPM_def Let_def split: prod.split)

lemma andThen_None: "fst (andThen r f) = None \<longleftrightarrow> fst r = None \<and> fst (f (snd r)) = None"
  by (cases r) (auto simp: andThen_def split: option.split)

lemma andThen_refused: "fst r \<noteq> None \<Longrightarrow> andThen r f = r"
  by (cases r) (auto simp: andThen_def split: option.split)

text \<open>
  outside the simple mode a request is admitted exactly if the breaker lets it through, its
  subscription is active, not expired and below every limit it has, or else its balance is
  positive and at least the configured reserve and its quota on the platform is not exhausted,
  every window of its key has something left, and the minute has requests left for the user and
  the group; and a request that any of the checks of money refuses is not counted against the
  requests per minute.
\<close>

theorem admitted_iff_covered:
  assumes "\<not> br_simpleMode rd"
    and "CheckBillingEligibility fl cal now u key grp hasSubscription platform rd s = (e, s')"
  shows "(e = None \<longleftrightarrow>
      breaker_lets_through now (bs_breaker s) \<and> funds_cover now grp hasSubscription rd \<and>
      (subscriptionMode grp hasSubscription \<or>
       fst (checkUserPlatformQuotaEligibility cal now platform (br_hasQuotaRepo rd) (br_quotaRead rd) (br_quotaLoad rd)) = None) \<and>
      key_left fl now key (br_loader rd) (bs_rates s) \<and>
      requests_left now u grp rd (bs_rpm s)) \<and>
    (e \<noteq> None \<and> e \<noteq> Some GroupRPMExceeded \<and> e \<noteq> Some UserRPMExceeded \<longrightarrow> bs_rpm s' = bs_rpm s)"
proof -
  obtain ok s1 where b: "admitBreaker now s = (ok, s1)" by fastforce
  define f2 where "f2 = checkFunds now grp hasSubscription rd s1"
  define f3 where "f3 = andThen f2 (\<lambda>s2. if subscriptionMode grp hasSubscription then (None, s2)
      else checkQuotaStep cal now platform rd s2)"
  define f4 where "f4 = andThen f3 (checkRatesStep fl now key rd)"
  have s1: "bs_rates s1 = bs_rates s" "bs_rpm s1 = bs_rpm s"
    using admitBreaker_rest(2,3) [of now s] b by simp_all
  have rates3: "bs_rates (snd f3) = bs_rates s" and rpm3: "bs_rpm (snd f3) = bs_rpm s"
    using s1 checkFunds_rest(2,3) [of now grp hasSubscription rd s1]
      checkQuotaStep_rest(2,3) [of cal now platform rd]
    by (cases f2; simp add: f3_def andThen_def f2_def split: option.split; fail)+
  have rpm4: "bs_rpm (snd f4) = bs_rpm s"
    using rpm3 checkRatesStep_rpm [of fl now key rd]
    by (cases f3) (simp add: f4_def andThen_def split: option.split)
  have n2: "fst f2 = None \<longleftrightarrow> funds_cover now grp hasSubscription rd"
    by (simp only: f2_def checkFunds_None)
  have n3: "fst f3 = None \<longleftrightarrow> fst f2 = None \<and> (subscriptionMode grp hasSubscription \<or>
       fst (checkUserPlatformQuotaEligibility cal now platform (br_hasQuotaRepo rd) (br_quotaRead rd) (br_quotaLoad rd)) = None)"
    unfolding f3_def andThen_None using checkQuotaStep_rest(1) [of cal now platform rd] by simp
  have n4: "fst f4 = None \<longleftrightarrow> fst f3 = None \<and> key_left fl now key (br_loader rd) (bs_rates s)"
    unfolding f4_def andThen_None checkRatesStep_None rates3 ..
  show ?thesis
  proof (cases ok)
    case False
    then have "e = Some BillingServiceUnavailable" "s' = s1" using assms b by (simp_all add: CheckBillingEligibility_def)
    then show ?thesis using admitBreaker_fst [of now s] b False s1 by simp
  next
    case True
    define last where "last = (\<lambda>s4 :: billing_state. case checkRPM now (Some u) grp (br_rpmOverride rd) (br_groupCounts rd)
        (br_userCounts rd) (bs_rpm s4) of (e, c) \<Rightarrow> (e, s4\<lparr>bs_rpm := c\<rparr>))"
    have r: "andThen f4 last = (e, s')"
      using assms b True
      by (simp add: CheckBillingEligibility_def f2_def [symmetric] f3_def [symmetric] f4_def [symmetric] last_def)
    have "fst (last (snd f4)) = None \<longleftrightarrow> requests_left now u grp rd (bs_rpm s)"
      using checkRPM_None [of now u grp rd "bs_rpm s"]
      by (simp add: last_def rpm4 prod.case_eq_if)
    then have "e = None \<longleftrightarrow> fst f4 = None \<and> requests_left now u grp rd (bs_rpm s)"
      using andThen_None [of f4 last] r by simp
    moreover have "breaker_lets_through now (bs_breaker s)" using admitBreaker_fst [of now s] b True by simp
    moreover have "bs_rpm s' = bs_rpm s" if "fst f4 \<noteq> None"
    proof -
      have "f4 = (e, s')" using andThen_refused [OF that, of last] r by simp
      then show ?thesis using rpm4 by simp
    qed
    moreover have "e = Some GroupRPMExceeded \<or> e = Some UserRPMExceeded" if "fst f4 = None" "e \<noteq> None"
    proof -
      have "e = fst (last (snd f4))" using that(1) r by (cases f4) (simp add: andThen_def)
      then have "e = fst (checkRPM now (Some u) grp (br_rpmOverride rd) (br_groupCounts rd) (br_userCounts rd) (bs_rpm s))"
        by (simp add: last_def rpm4 prod.case_eq_if)
      then show ?thesis
        using that(2) rpm_errors [of now "Some u" grp "br_rpmOverride rd" "br_groupCounts rd" "br_userCounts rd" "bs_rpm s"]
        by auto
    qed
    ultimately show ?thesis using n2 n3 n4 by (cases "fst f4 = None"; cases "e = None") auto
  qed
qed

definition demo_user :: rpm_user_view where
  "demo_user = \<lparr>ru_ID = 7, ru_RPMLimit = 2, ru_UserGroupRPMOverride = None\<rparr>"

definition demo_reads :: billing_reads where
  "demo_reads = \<lparr>br_simpleMode = False, br_simpleModeKeyRateLimit = False, br_minimumReserve = Some 1,
     br_balance = Some 5, br_subscription = None, br_hasQuotaRepo = False, br_quotaRead = CacheMiss,
     br_quotaLoad = NoRow, br_loader = None, br_rpmOverride = None, br_groupCounts = True, br_userCounts = True\<rparr>"

definition demo_state :: billing_state where
  "demo_state = \<lparr>bs_breaker = None, bs_quotaEntry = None, bs_rates = None,
     bs_rpm = Some \<lparr>rpm_userGroup = (\<lambda>_. 0), rpm_user = (\<lambda>_. 0)\<rparr>\<rparr>"

definition one_day :: quota_calendar where
  "one_day = \<lparr>qc_StartOfDay = (\<lambda>_. 0), qc_StartOfWeek = (\<lambda>_. 0), qc_AddDays = (\<lambda>t n. t + n * 24 * hour)\<rparr>"

theorem admitted_iff_covered_witness:
  "fst (CheckBillingEligibility (\<lambda>x. x) one_day 0 demo_user None None False ''anthropic'' demo_reads demo_state) = None \<and>
   fst (CheckBillingEligibility (\<lambda>x. x) one_day 0 demo_user None None False ''anthropic''
     (demo_reads\<lparr>br_balance := Some (1 / 2)\<rparr>) demo_state) \<noteq> None"
proof -
  have m: "\<not> br_simpleMode demo_reads" "\<not> br_simpleMode (demo_reads\<lparr>br_balance := Some (1 / 2)\<rparr>)"
    by (simp_all add: demo_reads_def)
  show ?thesis
    using admitted_iff_covered [OF m(1) surjective_pairing, of "\<lambda>x. x" one_day 0 demo_user None None False "''anthropic''" demo_state]
      admitted_iff_covered [OF m(2) surjective_pairing, of "\<lambda>x. x" one_day 0 demo_user None None False "''anthropic''" demo_state]
    by (simp add: demo_reads_def demo_state_def demo_user_def breaker_lets_through_def funds_cover_def
        subscriptionMode_def key_left_def requests_left_def GetUserRPM_def checkUserPlatformQuotaEligibility_def)
qed

subsection \<open>The circuit breaker\<close>

datatype breaker_event = Ask gotime | Fail gotime

fun breaker_run :: "breaker_event list \<Rightarrow> billingCircuitBreaker \<Rightarrow> gotime list \<times> billingCircuitBreaker" where
  "breaker_run [] b = ([], b)"
| "breaker_run (Ask t # es) b =
     (case Allow t b of (ok, b1) \<Rightarrow>
        (case breaker_run es b1 of (ts, b2) \<Rightarrow> (if ok then t # ts else ts, b2)))"
| "breaker_run (Fail t # es) b = breaker_run es (OnFailure t b)"

fun event_time :: "breaker_event \<Rightarrow> gotime" where
  "event_time (Ask t) = t"
| "event_time (Fail t) = t"

definition failures :: "breaker_event list \<Rightarrow> nat" where
  "failures es = length (filter (\<lambda>e. case e of Fail t \<Rightarrow> True | Ask t \<Rightarrow> False) es)"

lemma failures_simps [simp]:
  "failures [] = 0" "failures (Ask t # es) = failures es" "failures (Fail t # es) = Suc (failures es)"
  by (simp_all add: failures_def)

text \<open>How many requests the breaker may still let through before the next failure.\<close>

definition budget :: "billingCircuitBreaker \<Rightarrow> nat" where
  "budget b =
     (case cb_state b of
        billingCircuitOpen \<Rightarrow> nat (cb_halfOpenRequests b)
      | billingCircuitHalfOpen \<Rightarrow> nat (cb_halfOpenRemaining b)
      | billingCircuitClosed \<Rightarrow> 0)"

lemma Allow_budget:
  assumes "cb_state b \<noteq> billingCircuitClosed"
  shows "case Allow t b of (ok, b1) \<Rightarrow> cb_state b1 \<noteq> billingCircuitClosed \<and> budget b1 + (if ok then 1 else 0) \<le> budget b \<and>
    cb_halfOpenRequests b1 = cb_halfOpenRequests b \<and> cb_resetTimeout b1 = cb_resetTimeout b"
  using assms by (auto simp: Allow_def takeHalfOpenSlot_def budget_def split: billingCircuitBreakerState.splits)

lemma OnFailure_budget:
  assumes "cb_state b \<noteq> billingCircuitClosed"
  shows "cb_state (OnFailure t b) \<noteq> billingCircuitClosed \<and> budget (OnFailure t b) \<le> nat (cb_halfOpenRequests b) \<and>
    cb_halfOpenRequests (OnFailure t b) = cb_halfOpenRequests b"
  using assms by (auto simp: OnFailure_def budget_def split: billingCircuitBreakerState.splits)

lemma run_budget:
  "cb_state b \<noteq> billingCircuitClosed \<Longrightarrow>
     length (fst (breaker_run es b)) \<le> budget b + nat (cb_halfOpenRequests b) * failures es"
proof (induction es b rule: breaker_run.induct)
  case (2 t es b)
  obtain ok b1 where a: "Allow t b = (ok, b1)" by fastforce
  then have "cb_state b1 \<noteq> billingCircuitClosed" "budget b1 + (if ok then 1 else 0) \<le> budget b"
    "cb_halfOpenRequests b1 = cb_halfOpenRequests b" using Allow_budget [OF 2(2), of t] by simp_all
  then show ?case using 2(1) [OF a [symmetric]] a by (simp add: prod.case_eq_if split: if_splits)
next
  case (3 t es b)
  then show ?case using OnFailure_budget [OF 3(2), of t] by simp
qed simp

lemma breaker_run_append:
  "breaker_run (es @ later) b =
     (case breaker_run es b of (ts, b1) \<Rightarrow> (case breaker_run later b1 of (us, b2) \<Rightarrow> (ts @ us, b2)))"
proof (induction es b rule: breaker_run.induct)
  case (2 t es b)
  then show ?case by (cases "Allow t b") (simp add: prod.case_eq_if)
qed (simp_all add: prod.case_eq_if)

text \<open>While the timeout runs, an open breaker stays as it is.\<close>

lemma run_waits:
  "cb_state b = billingCircuitOpen \<Longrightarrow> (\<And>e. e \<in> set es \<Longrightarrow> time_sub (event_time e) (cb_openedAt b) < cb_resetTimeout b) \<Longrightarrow>
     breaker_run es b = ([], b)"
proof (induction es)
  case (Cons e es)
  have "time_sub (event_time e) (cb_openedAt b) < cb_resetTimeout b" using Cons.prems(2) by simp
  then have step: "(case e of Ask t \<Rightarrow> Allow t b = (False, b) | Fail t \<Rightarrow> OnFailure t b = b)"
    using Cons.prems(1) by (cases e) (simp_all add: Allow_def OnFailure_def)
  moreover have "breaker_run es b = ([], b)" using Cons.IH [OF Cons.prems(1)] Cons.prems(2) by simp
  ultimately show ?case by (cases e) simp_all
qed simp

text \<open>
  C26: an open breaker isolates the failing store: until its timeout has passed it lets no request
  through, whatever comes, late failures included, and it stays open since the same time; and as
  long as no request succeeds, it lets at most the configured number of probes through, and at
  most as many again for each further failure.
\<close>

theorem billing_breaker_isolates:
  assumes "cb_state b = billingCircuitOpen"
    and "\<And>e. e \<in> set es \<Longrightarrow> time_sub (event_time e) (cb_openedAt b) < cb_resetTimeout b"
  shows "breaker_run (es @ later) b = breaker_run later b \<and>
    length (fst (breaker_run (es @ later) b)) \<le> nat (cb_halfOpenRequests b) * (1 + failures later)"
proof -
  have w: "breaker_run es b = ([], b)" using run_waits [OF assms(1,2)] .
  have "length (fst (breaker_run later b)) \<le> nat (cb_halfOpenRequests b) + nat (cb_halfOpenRequests b) * failures later"
    using run_budget [of b later] assms(1) by (simp add: budget_def)
  then show ?thesis by (simp add: breaker_run_append w)
qed

definition demo_breaker :: billingCircuitBreaker where
  "demo_breaker = \<lparr>cb_state = billingCircuitOpen, cb_failures = 5, cb_openedAt = 0, cb_failureThreshold = 5,
     cb_resetTimeout = 30 * second, cb_halfOpenRequests = 1, cb_halfOpenRemaining = 0\<rparr>"

theorem billing_breaker_isolates_witness:
  "fst (breaker_run ([Ask second, Fail (2 * second)] @ [Ask (40 * second), Ask (41 * second)]) demo_breaker) = [40 * second] \<and>
   length (fst (breaker_run ([Ask second, Fail (2 * second)] @ [Ask (40 * second), Ask (41 * second)]) demo_breaker)) \<le> 1"
proof -
  have first: "fst (breaker_run ([Ask second, Fail (2 * second)] @ [Ask (40 * second), Ask (41 * second)]) demo_breaker) = [40 * second]"
    by (simp add: demo_breaker_def Allow_def OnFailure_def takeHalfOpenSlot_def time_sub_def minDuration_def
        maxDuration_def second_def)
  have st: "cb_state demo_breaker = billingCircuitOpen" by (simp add: demo_breaker_def)
  have w: "time_sub (event_time e) (cb_openedAt demo_breaker) < cb_resetTimeout demo_breaker"
    if "e \<in> set [Ask second, Fail (2 * second)]" for e
    using that by (auto simp: demo_breaker_def time_sub_def minDuration_def maxDuration_def second_def)
  have "nat (cb_halfOpenRequests demo_breaker) * (1 + failures [Ask (40 * second), Ask (41 * second)]) = 1"
    by (simp add: demo_breaker_def)
  then show ?thesis
    using first conjunct2 [OF billing_breaker_isolates [OF st w, of "[Ask (40 * second), Ask (41 * second)]"]]
    by simp
qed

subsection \<open>Requests per minute\<close>

record rpm_request =
  rq_time :: gotime
  rq_user :: rpm_user_view
  rq_group :: "rpm_group_view option"
  rq_override :: "int option"

fun rpm_run :: "rpm_request list \<Rightarrow> rpm_counters \<Rightarrow> rpm_request list" where
  "rpm_run [] c = []"
| "rpm_run (q # qs) c =
     (case checkRPM (rq_time q) (Some (rq_user q)) (rq_group q) (rq_override q) True True (Some c) of
        (None, Some c1) \<Rightarrow> q # rpm_run qs c1
      | (Some e, Some c1) \<Rightarrow> rpm_run qs c1
      | (_, None) \<Rightarrow> [])"

definition of_user :: "int \<Rightarrow> int \<Rightarrow> rpm_request \<Rightarrow> bool" where
  "of_user u m q \<longleftrightarrow> ru_ID (rq_user q) = u \<and> minuteTS (rq_time q) = m"

definition of_group :: "int \<Rightarrow> int \<Rightarrow> int \<Rightarrow> rpm_request \<Rightarrow> bool" where
  "of_group u g m q \<longleftrightarrow> of_user u m q \<and> (\<exists>gr. rq_group q = Some gr \<and> rg_ID gr = g)"

definition checked :: "rpm_request \<Rightarrow> rpm_counters \<Rightarrow> billing_error option \<times> rpm_counters" where
  "checked q c =
     (case checkGroupRPM (rq_time q) (rq_user q) (rq_group q) (rq_override q) True c of
        (Some e, c1) \<Rightarrow> (Some e, c1)
      | (None, c1) \<Rightarrow> checkUserRPM (rq_time q) (rq_user q) True c1)"

lemma checkRPM_checked:
  "checkRPM (rq_time q) (Some (rq_user q)) (rq_group q) (rq_override q) True True (Some c) =
     (fst (checked q c), Some (snd (checked q c)))"
  by (simp add: checkRPM_def checked_def split: prod.split option.split)

lemma rpm_run_Cons:
  "rpm_run (q # qs) c = (if fst (checked q c) = None then q # rpm_run qs (snd (checked q c)) else rpm_run qs (snd (checked q c)))"
  by (simp add: checkRPM_checked split: option.split)

lemma checkGroupRPM_counts:
  "rpm_userGroup c k \<le> rpm_userGroup (snd (checkGroupRPM t u grp ov True c)) k"
  "fst (checkGroupRPM t u (Some g) ov True c) = None \<Longrightarrow> 0 < groupRPMLimit u g ov \<Longrightarrow>
     rpm_userGroup (snd (checkGroupRPM t u (Some g) ov True c)) (ru_ID u, rg_ID g, minuteTS t) =
       rpm_userGroup c (ru_ID u, rg_ID g, minuteTS t) + 1 \<and>
     rpm_userGroup c (ru_ID u, rg_ID g, minuteTS t) + 1 \<le> groupRPMLimit u g ov"
  by (auto simp: checkGroupRPM_def IncrementUserGroupRPM_def Let_def split: option.split if_splits)

lemma checkUserRPM_counts:
  "rpm_user c k \<le> rpm_user (snd (checkUserRPM t u True c)) k"
  "rpm_userGroup (snd (checkUserRPM t u True c)) = rpm_userGroup c"
  "fst (checkUserRPM t u True c) = None \<Longrightarrow> 0 < ru_RPMLimit u \<Longrightarrow>
     rpm_user (snd (checkUserRPM t u True c)) (ru_ID u, minuteTS t) = rpm_user c (ru_ID u, minuteTS t) + 1 \<and>
     rpm_user c (ru_ID u, minuteTS t) + 1 \<le> ru_RPMLimit u"
  by (auto simp: checkUserRPM_def IncrementUserRPM_def Let_def split: if_splits)

lemma checked_user:
  "rpm_user c k \<le> rpm_user (snd (checked q c)) k"
  "fst (checked q c) = None \<Longrightarrow> 0 < ru_RPMLimit (rq_user q) \<Longrightarrow>
     rpm_user (snd (checked q c)) (ru_ID (rq_user q), minuteTS (rq_time q)) =
       rpm_user c (ru_ID (rq_user q), minuteTS (rq_time q)) + 1 \<and>
     rpm_user c (ru_ID (rq_user q), minuteTS (rq_time q)) + 1 \<le> ru_RPMLimit (rq_user q)"
proof -
  obtain e c1 where g: "checkGroupRPM (rq_time q) (rq_user q) (rq_group q) (rq_override q) True c = (e, c1)" by fastforce
  have u: "rpm_user c1 = rpm_user c"
    using checkGroupRPM_user [of "rq_time q" "rq_user q" "rq_group q" "rq_override q" True c] g by simp
  show "rpm_user c k \<le> rpm_user (snd (checked q c)) k"
    using checkUserRPM_counts(1) [of c1] by (cases e) (simp_all add: checked_def g u)
  show "fst (checked q c) = None \<Longrightarrow> 0 < ru_RPMLimit (rq_user q) \<Longrightarrow>
     rpm_user (snd (checked q c)) (ru_ID (rq_user q), minuteTS (rq_time q)) =
       rpm_user c (ru_ID (rq_user q), minuteTS (rq_time q)) + 1 \<and>
     rpm_user c (ru_ID (rq_user q), minuteTS (rq_time q)) + 1 \<le> ru_RPMLimit (rq_user q)"
    using checkUserRPM_counts(3) [of "rq_time q" "rq_user q" c1] by (cases e) (simp_all add: checked_def g u)
qed

lemma checked_group:
  "rpm_userGroup c k \<le> rpm_userGroup (snd (checked q c)) k"
  "fst (checked q c) = None \<Longrightarrow> rq_group q = Some g \<Longrightarrow> 0 < groupRPMLimit (rq_user q) g (rq_override q) \<Longrightarrow>
     rpm_userGroup (snd (checked q c)) (ru_ID (rq_user q), rg_ID g, minuteTS (rq_time q)) =
       rpm_userGroup c (ru_ID (rq_user q), rg_ID g, minuteTS (rq_time q)) + 1 \<and>
     rpm_userGroup c (ru_ID (rq_user q), rg_ID g, minuteTS (rq_time q)) + 1 \<le> groupRPMLimit (rq_user q) g (rq_override q)"
proof -
  obtain e c1 where g: "checkGroupRPM (rq_time q) (rq_user q) (rq_group q) (rq_override q) True c = (e, c1)" by fastforce
  show "rpm_userGroup c k \<le> rpm_userGroup (snd (checked q c)) k"
    using checkGroupRPM_counts(1) [of c k "rq_time q" "rq_user q" "rq_group q" "rq_override q"] g
    by (cases e) (simp_all add: checked_def checkUserRPM_counts(2))
  show "fst (checked q c) = None \<Longrightarrow> rq_group q = Some g \<Longrightarrow> 0 < groupRPMLimit (rq_user q) g (rq_override q) \<Longrightarrow>
     rpm_userGroup (snd (checked q c)) (ru_ID (rq_user q), rg_ID g, minuteTS (rq_time q)) =
       rpm_userGroup c (ru_ID (rq_user q), rg_ID g, minuteTS (rq_time q)) + 1 \<and>
     rpm_userGroup c (ru_ID (rq_user q), rg_ID g, minuteTS (rq_time q)) + 1 \<le> groupRPMLimit (rq_user q) g (rq_override q)"
    using checkGroupRPM_counts(2) [of "rq_time q" "rq_user q" g "rq_override q" c] g
    by (cases e) (simp_all add: checked_def checkUserRPM_counts(2))
qed

text \<open>Counting with any counter that grows with each admitted request of a kind.\<close>

lemma run_counts:
  assumes "\<And>q c. cnt c \<le> cnt (snd (checked q c))"
    and "\<And>q c. q \<in> set qs \<Longrightarrow> P q \<Longrightarrow> fst (checked q c) = None \<Longrightarrow> cnt (snd (checked q c)) = cnt c + 1 \<and> cnt c + 1 \<le> l"
  shows "int (length (filter P (rpm_run qs c))) \<le> max 0 (l - cnt c)"
  using assms(2)
proof (induction qs arbitrary: c)
  case (Cons q qs)
  let ?c1 = "snd (checked q c)"
  have ih: "int (length (filter P (rpm_run qs ?c1))) \<le> max 0 (l - cnt ?c1)"
    by (rule Cons.IH) (use Cons.prems in auto)
  show ?case
  proof (cases "P q \<and> fst (checked q c) = None")
    case True
    then have "cnt ?c1 = cnt c + 1 \<and> cnt c + 1 \<le> l" using Cons.prems [of q c] by simp
    then show ?thesis using ih True by (simp add: rpm_run_Cons del: rpm_run.simps)
  next
    case False
    then have "filter P (rpm_run (q # qs) c) = filter P (rpm_run qs ?c1)"
      by (auto simp: rpm_run_Cons simp del: rpm_run.simps)
    then show ?thesis using ih assms(1) [of c q] by simp
  qed
qed simp

definition no_requests :: rpm_counters where
  "no_requests = \<lparr>rpm_userGroup = (\<lambda>_. 0), rpm_user = (\<lambda>_. 0)\<rparr>"

text \<open>
  in no minute more requests get through than allowed, whatever users, groups and overrides
  the requests come with and in whatever order: for a user, the user's limit; for a user in a
  group, the override or else the group's limit, and the user's limit holds beside it in every
  group. The store of the counters answers.
\<close>

theorem requests_per_minute_bounded:
  assumes "0 < l"
  shows "((\<forall>q \<in> set qs. of_user u m q \<longrightarrow> ru_RPMLimit (rq_user q) = l) \<longrightarrow>
      int (length (filter (of_user u m) (rpm_run qs no_requests))) \<le> l) \<and>
    ((\<forall>q \<in> set qs. of_group u g m q \<longrightarrow> groupRPMLimit (rq_user q) (the (rq_group q)) (rq_override q) = l) \<longrightarrow>
      int (length (filter (of_group u g m) (rpm_run qs no_requests))) \<le> l)"
proof (intro conjI impI)
  assume a: "\<forall>q \<in> set qs. of_user u m q \<longrightarrow> ru_RPMLimit (rq_user q) = l"
  have "int (length (filter (of_user u m) (rpm_run qs no_requests))) \<le> max 0 (l - rpm_user no_requests (u, m))"
  proof (rule run_counts [where cnt = "\<lambda>c. rpm_user c (u, m)"])
    show "rpm_user c (u, m) \<le> rpm_user (snd (checked q c)) (u, m)" for q c by (rule checked_user)
    show "rpm_user (snd (checked q c)) (u, m) = rpm_user c (u, m) + 1 \<and> rpm_user c (u, m) + 1 \<le> l"
      if "q \<in> set qs" "of_user u m q" "fst (checked q c) = None" for q c
      using checked_user(2) [of q c] that a assms by (auto simp: of_user_def)
  qed
  then show "int (length (filter (of_user u m) (rpm_run qs no_requests))) \<le> l"
    using assms by (simp add: no_requests_def)
next
  assume a: "\<forall>q \<in> set qs. of_group u g m q \<longrightarrow> groupRPMLimit (rq_user q) (the (rq_group q)) (rq_override q) = l"
  have "int (length (filter (of_group u g m) (rpm_run qs no_requests))) \<le> max 0 (l - rpm_userGroup no_requests (u, g, m))"
  proof (rule run_counts [where cnt = "\<lambda>c. rpm_userGroup c (u, g, m)"])
    show "rpm_userGroup c (u, g, m) \<le> rpm_userGroup (snd (checked q c)) (u, g, m)" for q c by (rule checked_group)
    show "rpm_userGroup (snd (checked q c)) (u, g, m) = rpm_userGroup c (u, g, m) + 1 \<and> rpm_userGroup c (u, g, m) + 1 \<le> l"
      if q: "q \<in> set qs" "of_group u g m q" "fst (checked q c) = None" for q c
    proof -
      obtain gr where gr: "rq_group q = Some gr" "rg_ID gr = g" and ou: "of_user u m q"
        using q(2) by (auto simp: of_group_def)
      have "groupRPMLimit (rq_user q) gr (rq_override q) = l" using a q(1,2) gr(1) by fastforce
      then show ?thesis
        using checked_group(2) [OF q(3) gr(1)] gr(2) ou assms by (simp add: of_user_def)
    qed
  qed
  then show "int (length (filter (of_group u g m) (rpm_run qs no_requests))) \<le> l"
    using assms by (simp add: no_requests_def)
qed

definition demo_request :: "gotime \<Rightarrow> rpm_request" where
  "demo_request t = \<lparr>rq_time = t, rq_user = demo_user, rq_group = None, rq_override = None\<rparr>"

text \<open>Of three requests in a minute two get through, and the next minute is free again.\<close>

theorem requests_per_minute_bounded_witness:
  "map rq_time (rpm_run (map demo_request [unixEpoch, unixEpoch + 1, unixEpoch + second, unixEpoch + minute]) no_requests) =
     [unixEpoch, unixEpoch + 1, unixEpoch + minute] \<and>
   int (length (filter (of_user 7 0) (rpm_run (map demo_request
     [unixEpoch, unixEpoch + 1, unixEpoch + second, unixEpoch + minute]) no_requests))) \<le> 2"
proof
  show "map rq_time (rpm_run (map demo_request [unixEpoch, unixEpoch + 1, unixEpoch + second, unixEpoch + minute]) no_requests) =
     [unixEpoch, unixEpoch + 1, unixEpoch + minute]"
    by (simp add: demo_request_def demo_user_def checkRPM_def checkGroupRPM_def checkUserRPM_def
        IncrementUserRPM_def no_requests_def minuteTS_def time_Unix_def second_def minute_def)
  have "\<forall>q \<in> set (map demo_request [unixEpoch, unixEpoch + 1, unixEpoch + second, unixEpoch + minute]).
      of_user 7 0 q \<longrightarrow> ru_RPMLimit (rq_user q) = 2"
    by (simp add: demo_request_def demo_user_def)
  then show "int (length (filter (of_user 7 0) (rpm_run (map demo_request
     [unixEpoch, unixEpoch + 1, unixEpoch + second, unixEpoch + minute]) no_requests))) \<le> 2"
    by (rule mp [OF conjunct1 [OF requests_per_minute_bounded [where g = 0]], rotated]) simp
qed

end
