(* ===== verification/RedisKeys.thy ===== *)
theory RedisKeys
  imports GoPrelude "HOL-Library.Char_ord" "HOL-Library.List_Lexorder" "HOL-Library.Product_Lexorder"
begin

text \<open>
  The commands on Redis keys that the scripts and pipelines of
  \<open>repository/concurrency_cache.go\<close> use: sorted sets with integer scores, counters, flags and the
  expiry of keys. The server reads one clock per command or script, \<open>srv\<close>, in milliseconds;
  \<open>TIME\<close> gives whole seconds. A key that has become empty or has expired does not exist.
\<close>

subsection \<open>Sorted sets\<close>

record zset_key =
  zk_members :: "(gostring, int) gomap"
  zk_expire :: "int option"

definition noZset :: zset_key where
  "noZset = \<lparr>zk_members = [], zk_expire = None\<rparr>"

definition zset_at :: "int \<Rightarrow> zset_key \<Rightarrow> zset_key" where
  "zset_at srv z = (case zk_expire z of None \<Rightarrow> z | Some e \<Rightarrow> if e \<le> srv then noZset else z)"

definition zset_tidy :: "zset_key \<Rightarrow> zset_key" where
  "zset_tidy z = (if zk_members z = [] then noZset else z)"

record redis =
  rd_zsets :: "gostring \<Rightarrow> zset_key"
  rd_counts :: "gostring \<Rightarrow> (int \<times> int option) option"
  rd_flags :: "gostring \<Rightarrow> bool"

definition emptyRedis :: redis where
  "emptyRedis = \<lparr>rd_zsets = (\<lambda>_. noZset), rd_counts = (\<lambda>_. None), rd_flags = (\<lambda>_. False)\<rparr>"

definition zsetNow :: "int \<Rightarrow> gostring \<Rightarrow> redis \<Rightarrow> zset_key" where
  "zsetNow srv key s = zset_at srv (rd_zsets s key)"

definition zsetPut :: "gostring \<Rightarrow> zset_key \<Rightarrow> redis \<Rightarrow> redis" where
  "zsetPut key z s = s\<lparr>rd_zsets := (rd_zsets s)(key := z)\<rparr>"

definition ZADD :: "int \<Rightarrow> gostring \<Rightarrow> int \<Rightarrow> gostring \<Rightarrow> redis \<Rightarrow> redis" where
  "ZADD srv key score member s =
     (let z = zsetNow srv key s in zsetPut key (z\<lparr>zk_members := map_put member score (zk_members z)\<rparr>) s)"

definition ZREM :: "int \<Rightarrow> gostring \<Rightarrow> gostring \<Rightarrow> redis \<Rightarrow> redis" where
  "ZREM srv key member s =
     (let z = zsetNow srv key s in
      zsetPut key (zset_tidy (z\<lparr>zk_members := map_del member (zk_members z)\<rparr>)) s)"

text \<open>\<open>ZREMRANGEBYSCORE key -inf cutoff\<close>.\<close>

definition ZREMRANGEBYSCORE :: "int \<Rightarrow> gostring \<Rightarrow> int \<Rightarrow> redis \<Rightarrow> redis" where
  "ZREMRANGEBYSCORE srv key cutoff s =
     (let z = zsetNow srv key s in
      zsetPut key (zset_tidy (z\<lparr>zk_members := filter (\<lambda>(_, score). \<not> score \<le> cutoff) (zk_members z)\<rparr>)) s)"

definition ZCARD :: "int \<Rightarrow> gostring \<Rightarrow> redis \<Rightarrow> int" where
  "ZCARD srv key s = int (length (zk_members (zsetNow srv key s)))"

definition ZSCORE :: "int \<Rightarrow> gostring \<Rightarrow> gostring \<Rightarrow> redis \<Rightarrow> int option" where
  "ZSCORE srv key member s = map_get (zk_members (zsetNow srv key s)) member"

text \<open>\<open>ZRANGE key 0 -1\<close> and \<open>ZRANGE key -inf max BYSCORE LIMIT 0 n\<close>: by score, then by member.\<close>

definition zsetOrder :: "(gostring, int) gomap \<Rightarrow> (gostring, int) gomap" where
  "zsetOrder m = sort_key (\<lambda>(member, score). (score, member)) m"

definition ZRANGE :: "int \<Rightarrow> gostring \<Rightarrow> redis \<Rightarrow> gostring list" where
  "ZRANGE srv key s = map fst (zsetOrder (zk_members (zsetNow srv key s)))"

definition ZRANGEBYSCORE :: "int \<Rightarrow> gostring \<Rightarrow> int \<Rightarrow> nat \<Rightarrow> redis \<Rightarrow> gostring list" where
  "ZRANGEBYSCORE srv key maxScore n s =
     take n (map fst (zsetOrder (filter (\<lambda>(_, score). score \<le> maxScore) (zk_members (zsetNow srv key s)))))"

text \<open>\<open>EXPIRE\<close> of a sorted set; a time to live that is not positive deletes the key.\<close>

definition EXPIRE :: "int \<Rightarrow> gostring \<Rightarrow> int \<Rightarrow> redis \<Rightarrow> redis" where
  "EXPIRE srv key ttl s =
     (let z = zsetNow srv key s in
      if zk_members z = [] then s
      else if ttl \<le> 0 then zsetPut key noZset s
      else zsetPut key (z\<lparr>zk_expire := Some (srv + ttl * 1000)\<rparr>) s)"

definition DEL :: "gostring \<Rightarrow> redis \<Rightarrow> redis" where
  "DEL key s = s\<lparr>rd_zsets := (rd_zsets s)(key := noZset), rd_counts := (rd_counts s)(key := None)\<rparr>"

subsection \<open>Counters\<close>

definition GET :: "int \<Rightarrow> gostring \<Rightarrow> redis \<Rightarrow> int option" where
  "GET srv key s =
     (case rd_counts s key of
        None \<Rightarrow> None
      | Some (n, None) \<Rightarrow> Some n
      | Some (n, Some e) \<Rightarrow> if e \<le> srv then None else Some n)"

definition countExpiry :: "int \<Rightarrow> gostring \<Rightarrow> redis \<Rightarrow> int option" where
  "countExpiry srv key s = (if GET srv key s = None then None else Option.bind (rd_counts s key) snd)"

definition countPut :: "gostring \<Rightarrow> (int \<times> int option) option \<Rightarrow> redis \<Rightarrow> redis" where
  "countPut key v s = s\<lparr>rd_counts := (rd_counts s)(key := v)\<rparr>"

text \<open>\<open>INCR\<close> and \<open>DECR\<close> keep the expiry of the key.\<close>

definition INCRBY :: "int \<Rightarrow> gostring \<Rightarrow> int \<Rightarrow> redis \<Rightarrow> redis" where
  "INCRBY srv key d s =
     countPut key (Some ((case GET srv key s of None \<Rightarrow> 0 | Some n \<Rightarrow> n) + d, countExpiry srv key s)) s"

definition EXPIRE_count :: "int \<Rightarrow> gostring \<Rightarrow> int \<Rightarrow> redis \<Rightarrow> redis" where
  "EXPIRE_count srv key ttl s =
     (case GET srv key s of
        None \<Rightarrow> s
      | Some n \<Rightarrow> countPut key (if ttl \<le> 0 then None else Some (n, Some (srv + ttl * 1000))) s)"

end
