(* ===== verification/ConcurrencySlots.thy ===== *)
theory ConcurrencySlots
  imports RedisKeys
begin

text \<open>
  Concurrency limits of accounts, users and API keys: \<open>repository/concurrency_cache.go\<close>. A slot is
  a member of a sorted set whose score is the second at which it was taken; live leases of long
  sessions are counted against the same limit; waiting requests are counted by a counter. The
  active indices name the accounts and users with slots or waiting requests, so that the cleanup
  finds them. One call of the cache is one step with one reading of the Redis clock; connection
  errors and logging are left out, and so is the cutting of the pipelines into chunks.
\<close>

subsection \<open>Constants and keys\<close>

definition accountSlotKeyPrefix :: gostring where "accountSlotKeyPrefix = ''concurrency:account:''"
definition userSlotKeyPrefix :: gostring where "userSlotKeyPrefix = ''concurrency:user:''"
definition apiKeySlotKeyPrefix :: gostring where "apiKeySlotKeyPrefix = ''concurrency:api_key:''"
definition liveAccountSlotKeyPrefix :: gostring where
  "liveAccountSlotKeyPrefix = ''concurrency:live:account:''"
definition liveUserSlotKeyPrefix :: gostring where "liveUserSlotKeyPrefix = ''concurrency:live:user:''"
definition liveAPIKeySlotKeyPrefix :: gostring where
  "liveAPIKeySlotKeyPrefix = ''concurrency:live:api_key:''"
definition openAIWSIngressLeaseKeyPrefix :: gostring where
  "openAIWSIngressLeaseKeyPrefix = ''concurrency:openai_ws_ingress:api_key:''"
definition waitQueueKeyPrefix :: gostring where "waitQueueKeyPrefix = ''concurrency:wait:''"
definition accountWaitKeyPrefix :: gostring where "accountWaitKeyPrefix = ''wait:account:''"

definition openAIWSIngressLeaseTTLSeconds :: int where "openAIWSIngressLeaseTTLSeconds = 60"
definition liveLeaseTTLSeconds :: int where "liveLeaseTTLSeconds = 60"
definition defaultSlotTTLMinutes :: int where "defaultSlotTTLMinutes = 15"
definition activeIndexCleanupBatchSize :: nat where "activeIndexCleanupBatchSize = 1000"

definition accountActiveIndexKey :: gostring where
  "accountActiveIndexKey = ''concurrency:account:active_index''"
definition userActiveIndexKey :: gostring where "userActiveIndexKey = ''concurrency:user:active_index''"
definition legacyWaitSweepMarkerKey :: gostring where
  "legacyWaitSweepMarkerKey = ''concurrency:startup:legacy_wait_sweep:v1''"

definition accountSlotKey :: "int \<Rightarrow> gostring" where "accountSlotKey i = accountSlotKeyPrefix @ itoa i"
definition userSlotKey :: "int \<Rightarrow> gostring" where "userSlotKey i = userSlotKeyPrefix @ itoa i"
definition apiKeySlotKey :: "int \<Rightarrow> gostring" where "apiKeySlotKey i = apiKeySlotKeyPrefix @ itoa i"
definition liveAccountSlotKey :: "int \<Rightarrow> gostring" where
  "liveAccountSlotKey i = liveAccountSlotKeyPrefix @ itoa i"
definition liveUserSlotKey :: "int \<Rightarrow> gostring" where "liveUserSlotKey i = liveUserSlotKeyPrefix @ itoa i"
definition liveAPIKeySlotKey :: "int \<Rightarrow> gostring" where
  "liveAPIKeySlotKey i = liveAPIKeySlotKeyPrefix @ itoa i"
definition openAIWSIngressLeaseKey :: "int \<Rightarrow> gostring" where
  "openAIWSIngressLeaseKey i = openAIWSIngressLeaseKeyPrefix @ itoa i"
definition waitQueueKey :: "int \<Rightarrow> gostring" where "waitQueueKey i = waitQueueKeyPrefix @ itoa i"
definition accountWaitKey :: "int \<Rightarrow> gostring" where "accountWaitKey i = accountWaitKeyPrefix @ itoa i"

subsection \<open>The cache\<close>

record concurrencyCache =
  slotTTLSeconds :: int
  waitQueueTTLSeconds :: int

definition NewConcurrencyCache :: "int \<Rightarrow> int \<Rightarrow> concurrencyCache" where
  "NewConcurrencyCache slotTTLMinutes waitTTL =
     (let minutes = (if slotTTLMinutes \<le> 0 then defaultSlotTTLMinutes else slotTTLMinutes)
      in \<lparr>slotTTLSeconds = minutes * 60, waitQueueTTLSeconds = (if waitTTL \<le> 0 then minutes * 60 else waitTTL)\<rparr>)"

definition unixSeconds :: "int \<Rightarrow> int" where
  "unixSeconds srv = srv div 1000"

text \<open>\<open>ZADD\<close> and \<open>EXPIRE\<close> of a slot, as every script ends.\<close>

definition takeSlot :: "int \<Rightarrow> gostring \<Rightarrow> int \<Rightarrow> gostring \<Rightarrow> redis \<Rightarrow> redis" where
  "takeSlot srv key ttl member s = EXPIRE srv key ttl (ZADD srv key (unixSeconds srv) member s)"

definition acquireScript ::
  "int \<Rightarrow> gostring \<Rightarrow> gostring \<Rightarrow> int \<Rightarrow> int \<Rightarrow> gostring \<Rightarrow> redis \<Rightarrow> (bool \<times> int) \<times> redis" where
  "acquireScript srv key liveKey maxConcurrency ttl requestID s =
     (let now = unixSeconds srv;
          s1 = ZREMRANGEBYSCORE srv key (now - ttl) s;
          s2 = ZREMRANGEBYSCORE srv liveKey (now - 60) s1 in
      if ZSCORE srv key requestID s2 \<noteq> None then ((True, now), takeSlot srv key ttl requestID s2)
      else if ZCARD srv key s2 + ZCARD srv liveKey s2 < maxConcurrency
      then ((True, now), takeSlot srv key ttl requestID s2)
      else ((False, now), s2))"

definition getCountScript :: "int \<Rightarrow> gostring \<Rightarrow> gostring \<Rightarrow> int \<Rightarrow> redis \<Rightarrow> int \<times> redis" where
  "getCountScript srv key liveKey ttl s =
     (let now = unixSeconds srv;
          s2 = ZREMRANGEBYSCORE srv liveKey (now - 60) (ZREMRANGEBYSCORE srv key (now - ttl) s)
      in (ZCARD srv key s2 + ZCARD srv liveKey s2, s2))"

definition acquireLiveLeaseScript ::
  "int \<Rightarrow> gostring \<Rightarrow> gostring \<Rightarrow> gostring \<Rightarrow> gostring \<Rightarrow> gostring \<Rightarrow> int \<Rightarrow> int \<Rightarrow> int \<Rightarrow> gostring \<Rightarrow> int \<Rightarrow>
   redis \<Rightarrow> bool \<times> redis" where
  "acquireLiveLeaseScript srv accountRegular accountLive userRegular userLive apiLive accountMax userMax ttl
     leaseID replacing s =
     (let liveExpireBefore = unixSeconds srv - ttl;
          s3 = ZREMRANGEBYSCORE srv apiLive liveExpireBefore
                 (ZREMRANGEBYSCORE srv userLive liveExpireBefore
                   (ZREMRANGEBYSCORE srv accountLive liveExpireBefore s)) in
      if ZSCORE srv accountLive leaseID s3 \<noteq> None then (True, s3)
      else
        let accountCount = ZCARD srv accountRegular s3 + ZCARD srv accountLive s3;
            userCount = ZCARD srv userRegular s3 + ZCARD srv userLive s3;
            allowance = (if replacing = 1 then 1 else 0) in
        if 0 < accountMax \<and> accountMax + allowance \<le> accountCount then (False, s3)
        else if 0 < userMax \<and> userMax + allowance \<le> userCount then (False, s3)
        else (True, takeSlot srv apiLive ttl leaseID
                      (takeSlot srv userLive ttl leaseID (takeSlot srv accountLive ttl leaseID s3))))"

text \<open>The first loop of \<open>refreshLiveLeaseScript\<close>: every key still has the lease.\<close>

fun leaseHeld :: "int \<Rightarrow> int \<Rightarrow> gostring \<Rightarrow> gostring list \<Rightarrow> redis \<Rightarrow> bool \<times> redis" where
  "leaseHeld srv expireBefore leaseID [] s = (True, s)"
| "leaseHeld srv expireBefore leaseID (key # keys) s =
     (let s1 = ZREMRANGEBYSCORE srv key expireBefore s in
      if ZSCORE srv key leaseID s1 = None then (False, s1)
      else leaseHeld srv expireBefore leaseID keys s1)"

definition refreshLiveLeaseScript ::
  "int \<Rightarrow> gostring list \<Rightarrow> int \<Rightarrow> gostring \<Rightarrow> redis \<Rightarrow> bool \<times> redis" where
  "refreshLiveLeaseScript srv keys ttl leaseID s =
     (case leaseHeld srv (unixSeconds srv - ttl) leaseID keys s of
        (False, s1) \<Rightarrow> (False, s1)
      | (True, s1) \<Rightarrow> (True, fold (\<lambda>key. takeSlot srv key ttl leaseID) keys s1))"

definition trackSlotScript :: "int \<Rightarrow> gostring \<Rightarrow> int \<Rightarrow> gostring \<Rightarrow> redis \<Rightarrow> redis" where
  "trackSlotScript srv key ttl requestID s =
     takeSlot srv key ttl requestID (ZREMRANGEBYSCORE srv key (unixSeconds srv - ttl) s)"

definition acquireOpenAIWSIngressLeaseScript ::
  "int \<Rightarrow> gostring \<Rightarrow> int \<Rightarrow> int \<Rightarrow> gostring \<Rightarrow> redis \<Rightarrow> bool \<times> redis" where
  "acquireOpenAIWSIngressLeaseScript srv key maxConnections ttl leaseID s =
     (let s1 = ZREMRANGEBYSCORE srv key (unixSeconds srv - ttl) s in
      if ZSCORE srv key leaseID s1 \<noteq> None then (True, takeSlot srv key ttl leaseID s1)
      else if ZCARD srv key s1 < maxConnections then (True, takeSlot srv key ttl leaseID s1)
      else (False, s1))"

definition refreshOpenAIWSIngressLeaseScript ::
  "int \<Rightarrow> gostring \<Rightarrow> int \<Rightarrow> gostring \<Rightarrow> redis \<Rightarrow> bool \<times> redis" where
  "refreshOpenAIWSIngressLeaseScript srv key ttl leaseID s =
     (let s1 = ZREMRANGEBYSCORE srv key (unixSeconds srv - ttl) s in
      if ZSCORE srv key leaseID s1 = None then (False, s1) else (True, takeSlot srv key ttl leaseID s1))"

definition incrementWaitScript :: "int \<Rightarrow> gostring \<Rightarrow> int \<Rightarrow> int \<Rightarrow> redis \<Rightarrow> (bool \<times> int) \<times> redis" where
  "incrementWaitScript srv key maxWait ttl s =
     (let current = (case GET srv key s of None \<Rightarrow> 0 | Some n \<Rightarrow> n);
          now = unixSeconds srv in
      if maxWait \<le> current then ((False, now), s)
      else ((True, now), EXPIRE_count srv key ttl (INCRBY srv key 1 s)))"

definition decrementWaitScript :: "int \<Rightarrow> gostring \<Rightarrow> redis \<Rightarrow> redis" where
  "decrementWaitScript srv key s =
     (case GET srv key s of
        None \<Rightarrow> s
      | Some current \<Rightarrow> if 0 < current then INCRBY srv key (- 1) s else s)"

definition cleanupExpiredSlotsScript :: "int \<Rightarrow> gostring \<Rightarrow> int \<Rightarrow> redis \<Rightarrow> redis" where
  "cleanupExpiredSlotsScript srv key ttl s =
     (let s1 = ZREMRANGEBYSCORE srv key (unixSeconds srv - ttl) s in
      if ZCARD srv key s1 = 0 then DEL key s1 else EXPIRE srv key ttl s1)"

definition startupCleanupSlotScript :: "int \<Rightarrow> gostring \<Rightarrow> gostring \<Rightarrow> int \<Rightarrow> redis \<Rightarrow> (int \<times> int) \<times> redis" where
  "startupCleanupSlotScript srv key activePrefix slotTTL s =
     (let stale = filter (\<lambda>member. \<not> has_prefix member activePrefix) (ZRANGE srv key s);
          s1 = fold (ZREM srv key) stale s;
          remaining = ZCARD srv key s1 in
      ((int (length stale), remaining), if remaining = 0 then DEL key s1 else EXPIRE srv key slotTTL s1))"


subsection \<open>The active indices\<close>

record slotIndexSpec =
  si_indexKey :: gostring
  si_slotKey :: "int \<Rightarrow> gostring"
  si_waitKey :: "int \<Rightarrow> gostring"

definition accountSlotIndex :: slotIndexSpec where
  "accountSlotIndex =
     \<lparr>si_indexKey = accountActiveIndexKey, si_slotKey = accountSlotKey, si_waitKey = accountWaitKey\<rparr>"

definition userSlotIndex :: slotIndexSpec where
  "userSlotIndex = \<lparr>si_indexKey = userActiveIndexKey, si_slotKey = userSlotKey, si_waitKey = waitQueueKey\<rparr>"

definition touchActiveIndexAt :: "int \<Rightarrow> gostring \<Rightarrow> int \<Rightarrow> int \<Rightarrow> redis \<Rightarrow> redis" where
  "touchActiveIndexAt srv indexKey i expireAt s =
     (if i \<le> 0 \<or> expireAt \<le> 0 then s else ZADD srv indexKey expireAt (itoa i) s)"

record activeIndexLoad =
  al_member :: gostring
  al_slotCount :: int
  al_waitCount :: int

definition activeIndexTTL :: "concurrencyCache \<Rightarrow> int \<Rightarrow> int \<Rightarrow> int" where
  "activeIndexTTL c slotCount waitCount =
     (let ttl = (if 0 < slotCount then slotTTLSeconds c else 0)
      in if 0 < waitCount \<and> ttl < waitQueueTTLSeconds c then waitQueueTTLSeconds c else ttl)"

definition positiveCount :: "int option \<Rightarrow> int" where
  "positiveCount v = (case v of Some n \<Rightarrow> if 0 < n then n else 0 | None \<Rightarrow> 0)"

definition readActiveLoadForKey ::
  "concurrencyCache \<Rightarrow> int \<Rightarrow> gostring \<Rightarrow> gostring \<Rightarrow> gostring \<Rightarrow> redis \<Rightarrow> activeIndexLoad \<times> redis" where
  "readActiveLoadForKey c srv member slotKey waitKey s =
     (let s1 = ZREMRANGEBYSCORE srv slotKey (unixSeconds srv - slotTTLSeconds c) s
      in (\<lparr>al_member = member, al_slotCount = ZCARD srv slotKey s1,
            al_waitCount = positiveCount (GET srv waitKey s1)\<rparr>, s1))"

definition loadEmpty :: "activeIndexLoad \<Rightarrow> bool" where
  "loadEmpty l \<longleftrightarrow> al_slotCount l = 0 \<and> al_waitCount l \<le> 0"

definition refreshActiveIndex ::
  "concurrencyCache \<Rightarrow> int \<Rightarrow> gostring \<Rightarrow> int \<Rightarrow> gostring \<Rightarrow> gostring \<Rightarrow> redis \<Rightarrow> redis" where
  "refreshActiveIndex c srv indexKey i slotKey waitKey s =
     (if i \<le> 0 then s
      else
        (case readActiveLoadForKey c srv (itoa i) slotKey waitKey s of
           (load, s1) \<Rightarrow>
             if loadEmpty load then ZREM srv indexKey (itoa i) s1
             else
               let ttl = activeIndexTTL c (al_slotCount load) (al_waitCount load) in
               if ttl \<le> 0 then s1 else touchActiveIndexAt srv indexKey i (unixSeconds srv + ttl) s1))"

definition refreshAccountActiveIndex :: "concurrencyCache \<Rightarrow> int \<Rightarrow> int \<Rightarrow> redis \<Rightarrow> redis" where
  "refreshAccountActiveIndex c srv i =
     refreshActiveIndex c srv accountActiveIndexKey i (accountSlotKey i) (accountWaitKey i)"

definition refreshUserActiveIndex :: "concurrencyCache \<Rightarrow> int \<Rightarrow> int \<Rightarrow> redis \<Rightarrow> redis" where
  "refreshUserActiveIndex c srv i =
     refreshActiveIndex c srv userActiveIndexKey i (userSlotKey i) (waitQueueKey i)"

text \<open>Members of an index that are no positive id are stale; the others are read one by one.\<close>

definition indexId :: "gostring \<Rightarrow> int option" where
  "indexId member = (case parse_int64 member of Some i \<Rightarrow> if i \<le> 0 then None else Some i | None \<Rightarrow> None)"

fun readIndexLoads ::
  "concurrencyCache \<Rightarrow> int \<Rightarrow> slotIndexSpec \<Rightarrow> gostring list \<Rightarrow> redis \<Rightarrow>
   (activeIndexLoad list \<times> gostring list) \<times> redis" where
  "readIndexLoads c srv spec [] s = (([], []), s)"
| "readIndexLoads c srv spec (member # members) s =
     (case indexId member of
        None \<Rightarrow>
          (case readIndexLoads c srv spec members s of
             ((loads, stale), s2) \<Rightarrow> ((loads, member # stale), s2))
      | Some i \<Rightarrow>
          (case readActiveLoadForKey c srv member (si_slotKey spec i) (si_waitKey spec i) s of
             (load, s1) \<Rightarrow>
               (case readIndexLoads c srv spec members s1 of
                  ((loads, stale), s2) \<Rightarrow> ((load # loads, stale), s2))))"

definition removeActiveIndexMembers :: "int \<Rightarrow> gostring \<Rightarrow> gostring list \<Rightarrow> redis \<Rightarrow> redis" where
  "removeActiveIndexMembers srv indexKey members s = fold (ZREM srv indexKey) members s"

subsection \<open>Slots\<close>

definition AcquireAccountSlot ::
  "concurrencyCache \<Rightarrow> int \<Rightarrow> int \<Rightarrow> int \<Rightarrow> gostring \<Rightarrow> redis \<Rightarrow> bool \<times> redis" where
  "AcquireAccountSlot c srv accountID maxConcurrency requestID s =
     (case acquireScript srv (accountSlotKey accountID) (liveAccountSlotKey accountID) maxConcurrency
             (slotTTLSeconds c) requestID s of
        ((ok, now), s1) \<Rightarrow>
          (ok, if ok then touchActiveIndexAt srv accountActiveIndexKey accountID (now + slotTTLSeconds c) s1
               else s1))"

definition ReleaseAccountSlot :: "concurrencyCache \<Rightarrow> int \<Rightarrow> int \<Rightarrow> gostring \<Rightarrow> redis \<Rightarrow> redis" where
  "ReleaseAccountSlot c srv accountID requestID s =
     refreshAccountActiveIndex c srv accountID (ZREM srv (accountSlotKey accountID) requestID s)"

definition GetAccountConcurrency :: "concurrencyCache \<Rightarrow> int \<Rightarrow> int \<Rightarrow> redis \<Rightarrow> int \<times> redis" where
  "GetAccountConcurrency c srv accountID s =
     getCountScript srv (accountSlotKey accountID) (liveAccountSlotKey accountID) (slotTTLSeconds c) s"

text \<open>The two purges and counts of one id in the batch pipelines.\<close>

definition countSlots :: "concurrencyCache \<Rightarrow> int \<Rightarrow> gostring \<Rightarrow> gostring \<Rightarrow> redis \<Rightarrow> int \<times> redis" where
  "countSlots c srv slotKey liveKey s =
     (let s1 = ZREMRANGEBYSCORE srv slotKey (unixSeconds srv - slotTTLSeconds c) s;
          s2 = ZREMRANGEBYSCORE srv liveKey (unixSeconds srv - liveLeaseTTLSeconds) s1
      in (ZCARD srv slotKey s2 + ZCARD srv liveKey s2, s2))"

definition GetAccountConcurrencyBatch ::
  "concurrencyCache \<Rightarrow> int \<Rightarrow> int list \<Rightarrow> redis \<Rightarrow> (int, int) gomap \<times> redis" where
  "GetAccountConcurrencyBatch c srv accountIDs s =
     fold (\<lambda>i (result, s). case countSlots c srv (accountSlotKey i) (liveAccountSlotKey i) s of
             (n, s1) \<Rightarrow> (map_put i n result, s1)) accountIDs ([], s)"

definition AcquireUserSlot ::
  "concurrencyCache \<Rightarrow> int \<Rightarrow> int \<Rightarrow> int \<Rightarrow> gostring \<Rightarrow> redis \<Rightarrow> bool \<times> redis" where
  "AcquireUserSlot c srv userID maxConcurrency requestID s =
     (case acquireScript srv (userSlotKey userID) (liveUserSlotKey userID) maxConcurrency
             (slotTTLSeconds c) requestID s of
        ((ok, now), s1) \<Rightarrow>
          (ok, if ok then touchActiveIndexAt srv userActiveIndexKey userID (now + slotTTLSeconds c) s1 else s1))"

definition ReleaseUserSlot :: "concurrencyCache \<Rightarrow> int \<Rightarrow> int \<Rightarrow> gostring \<Rightarrow> redis \<Rightarrow> redis" where
  "ReleaseUserSlot c srv userID requestID s =
     refreshUserActiveIndex c srv userID (ZREM srv (userSlotKey userID) requestID s)"

definition GetUserConcurrency :: "concurrencyCache \<Rightarrow> int \<Rightarrow> int \<Rightarrow> redis \<Rightarrow> int \<times> redis" where
  "GetUserConcurrency c srv userID s =
     getCountScript srv (userSlotKey userID) (liveUserSlotKey userID) (slotTTLSeconds c) s"

definition TrackAPIKeySlot :: "concurrencyCache \<Rightarrow> int \<Rightarrow> int \<Rightarrow> gostring \<Rightarrow> redis \<Rightarrow> redis" where
  "TrackAPIKeySlot c srv apiKeyID requestID s =
     trackSlotScript srv (apiKeySlotKey apiKeyID) (slotTTLSeconds c) requestID s"

definition ReleaseAPIKeySlot :: "int \<Rightarrow> int \<Rightarrow> gostring \<Rightarrow> redis \<Rightarrow> redis" where
  "ReleaseAPIKeySlot srv apiKeyID requestID s = ZREM srv (apiKeySlotKey apiKeyID) requestID s"

definition GetAPIKeyConcurrencyBatch ::
  "concurrencyCache \<Rightarrow> int \<Rightarrow> int list \<Rightarrow> redis \<Rightarrow> (int, int) gomap \<times> redis" where
  "GetAPIKeyConcurrencyBatch c srv apiKeyIDs s =
     fold (\<lambda>i (result, s). case countSlots c srv (apiKeySlotKey i) (liveAPIKeySlotKey i) s of
             (n, s1) \<Rightarrow> (map_put i n result, s1)) apiKeyIDs ([], s)"

subsection \<open>Leases\<close>

definition AcquireOpenAIWSIngressLease :: "int \<Rightarrow> int \<Rightarrow> int \<Rightarrow> gostring \<Rightarrow> redis \<Rightarrow> bool \<times> redis" where
  "AcquireOpenAIWSIngressLease srv apiKeyID maxConnections leaseID s =
     (if apiKeyID \<le> 0 \<or> maxConnections \<le> 0 \<or> leaseID = [] then (False, s)
      else acquireOpenAIWSIngressLeaseScript srv (openAIWSIngressLeaseKey apiKeyID) maxConnections
             openAIWSIngressLeaseTTLSeconds leaseID s)"

definition RefreshOpenAIWSIngressLease :: "int \<Rightarrow> int \<Rightarrow> gostring \<Rightarrow> redis \<Rightarrow> bool \<times> redis" where
  "RefreshOpenAIWSIngressLease srv apiKeyID leaseID s =
     (if apiKeyID \<le> 0 \<or> leaseID = [] then (False, s)
      else refreshOpenAIWSIngressLeaseScript srv (openAIWSIngressLeaseKey apiKeyID)
             openAIWSIngressLeaseTTLSeconds leaseID s)"

definition ReleaseOpenAIWSIngressLease :: "int \<Rightarrow> int \<Rightarrow> gostring \<Rightarrow> redis \<Rightarrow> redis" where
  "ReleaseOpenAIWSIngressLease srv apiKeyID leaseID s =
     (if apiKeyID \<le> 0 \<or> leaseID = [] then s else ZREM srv (openAIWSIngressLeaseKey apiKeyID) leaseID s)"

definition AcquireLiveLease ::
  "int \<Rightarrow> int \<Rightarrow> int \<Rightarrow> int \<Rightarrow> int \<Rightarrow> int \<Rightarrow> gostring \<Rightarrow> bool \<Rightarrow> redis \<Rightarrow> bool \<times> redis" where
  "AcquireLiveLease srv accountID accountMax userID userMax apiKeyID leaseID replacingRegularSlots s =
     (if accountID \<le> 0 \<or> userID \<le> 0 \<or> apiKeyID \<le> 0 \<or> leaseID = [] then (False, s)
      else acquireLiveLeaseScript srv (accountSlotKey accountID) (liveAccountSlotKey accountID)
             (userSlotKey userID) (liveUserSlotKey userID) (liveAPIKeySlotKey apiKeyID)
             accountMax userMax liveLeaseTTLSeconds leaseID (if replacingRegularSlots then 1 else 0) s)"

definition liveLeaseKeys :: "int \<Rightarrow> int \<Rightarrow> int \<Rightarrow> gostring list" where
  "liveLeaseKeys accountID userID apiKeyID =
     [liveAccountSlotKey accountID, liveUserSlotKey userID, liveAPIKeySlotKey apiKeyID]"

definition RefreshLiveLease :: "int \<Rightarrow> int \<Rightarrow> int \<Rightarrow> int \<Rightarrow> gostring \<Rightarrow> redis \<Rightarrow> bool \<times> redis" where
  "RefreshLiveLease srv accountID userID apiKeyID leaseID s =
     (if leaseID = [] then (False, s)
      else refreshLiveLeaseScript srv (liveLeaseKeys accountID userID apiKeyID) liveLeaseTTLSeconds leaseID s)"

definition ReleaseLiveLease :: "int \<Rightarrow> int \<Rightarrow> int \<Rightarrow> int \<Rightarrow> gostring \<Rightarrow> redis \<Rightarrow> redis" where
  "ReleaseLiveLease srv accountID userID apiKeyID leaseID s =
     (if leaseID = [] then s
      else fold (\<lambda>key. ZREM srv key leaseID) (liveLeaseKeys accountID userID apiKeyID) s)"

subsection \<open>Waiting requests\<close>

definition IncrementWaitCount :: "concurrencyCache \<Rightarrow> int \<Rightarrow> int \<Rightarrow> int \<Rightarrow> redis \<Rightarrow> bool \<times> redis" where
  "IncrementWaitCount c srv userID maxWait s =
     (case incrementWaitScript srv (waitQueueKey userID) maxWait (waitQueueTTLSeconds c) s of
        ((ok, now), s1) \<Rightarrow>
          (ok, if ok then touchActiveIndexAt srv userActiveIndexKey userID (now + waitQueueTTLSeconds c) s1
               else s1))"

definition DecrementWaitCount :: "concurrencyCache \<Rightarrow> int \<Rightarrow> int \<Rightarrow> redis \<Rightarrow> redis" where
  "DecrementWaitCount c srv userID s =
     refreshUserActiveIndex c srv userID (decrementWaitScript srv (waitQueueKey userID) s)"

definition IncrementAccountWaitCount :: "concurrencyCache \<Rightarrow> int \<Rightarrow> int \<Rightarrow> int \<Rightarrow> redis \<Rightarrow> bool \<times> redis" where
  "IncrementAccountWaitCount c srv accountID maxWait s =
     (case incrementWaitScript srv (accountWaitKey accountID) maxWait (waitQueueTTLSeconds c) s of
        ((ok, now), s1) \<Rightarrow>
          (ok, if ok then touchActiveIndexAt srv accountActiveIndexKey accountID (now + waitQueueTTLSeconds c) s1
               else s1))"

definition DecrementAccountWaitCount :: "concurrencyCache \<Rightarrow> int \<Rightarrow> int \<Rightarrow> redis \<Rightarrow> redis" where
  "DecrementAccountWaitCount c srv accountID s =
     refreshAccountActiveIndex c srv accountID (decrementWaitScript srv (accountWaitKey accountID) s)"

definition GetAccountWaitingCount :: "int \<Rightarrow> int \<Rightarrow> redis \<Rightarrow> int" where
  "GetAccountWaitingCount srv accountID s = (case GET srv (accountWaitKey accountID) s of None \<Rightarrow> 0 | Some n \<Rightarrow> n)"

subsection \<open>Load\<close>

record WithConcurrency =
  wc_ID :: int
  wc_MaxConcurrency :: int

record LoadInfo =
  li_ID :: int
  li_CurrentConcurrency :: int
  li_WaitingCount :: int
  li_LoadRate :: int

definition loadInfo :: "WithConcurrency \<Rightarrow> int \<Rightarrow> int option \<Rightarrow> LoadInfo" where
  "loadInfo a current waiting =
     (let w = (case waiting of None \<Rightarrow> 0 | Some n \<Rightarrow> n)
      in \<lparr>li_ID = wc_ID a, li_CurrentConcurrency = current, li_WaitingCount = w,
          li_LoadRate = (if 0 < wc_MaxConcurrency a then quot ((current + w) * 100) (wc_MaxConcurrency a) else 0)\<rparr>)"

definition GetAccountsLoadBatch ::
  "concurrencyCache \<Rightarrow> int \<Rightarrow> WithConcurrency list \<Rightarrow> redis \<Rightarrow> (int, LoadInfo) gomap \<times> redis" where
  "GetAccountsLoadBatch c srv accounts s =
     fold (\<lambda>a (result, s).
             case countSlots c srv (accountSlotKey (wc_ID a)) (liveAccountSlotKey (wc_ID a)) s of
               (n, s1) \<Rightarrow> (map_put (wc_ID a) (loadInfo a n (GET srv (accountWaitKey (wc_ID a)) s1)) result, s1))
       accounts ([], s)"

definition GetUsersLoadBatch ::
  "concurrencyCache \<Rightarrow> int \<Rightarrow> WithConcurrency list \<Rightarrow> redis \<Rightarrow> (int, LoadInfo) gomap \<times> redis" where
  "GetUsersLoadBatch c srv users s =
     fold (\<lambda>u (result, s).
             case countSlots c srv (userSlotKey (wc_ID u)) (liveUserSlotKey (wc_ID u)) s of
               (n, s1) \<Rightarrow> (map_put (wc_ID u) (loadInfo u n (GET srv (waitQueueKey (wc_ID u)) s1)) result, s1))
       users ([], s)"

subsection \<open>Cleanup\<close>

definition CleanupExpiredAccountSlots :: "concurrencyCache \<Rightarrow> int \<Rightarrow> int \<Rightarrow> redis \<Rightarrow> redis" where
  "CleanupExpiredAccountSlots c srv accountID s =
     refreshAccountActiveIndex c srv accountID
       (cleanupExpiredSlotsScript srv (accountSlotKey accountID) (slotTTLSeconds c) s)"

definition reconcileExpiredIndexCandidates :: "concurrencyCache \<Rightarrow> int \<Rightarrow> slotIndexSpec \<Rightarrow> redis \<Rightarrow> redis" where
  "reconcileExpiredIndexCandidates c srv spec s =
     (let now = unixSeconds srv;
          members = ZRANGEBYSCORE srv (si_indexKey spec) now activeIndexCleanupBatchSize s;
          ((loads, stale), s1) = readIndexLoads c srv spec members s;
          gone = stale @ map al_member (filter loadEmpty loads);
          s2 = fold (\<lambda>l. ZADD srv (si_indexKey spec) (now + activeIndexTTL c (al_slotCount l) (al_waitCount l))
                           (al_member l)) (filter (\<lambda>l. \<not> loadEmpty l) loads) s1
      in removeActiveIndexMembers srv (si_indexKey spec) gone s2)"

definition CleanupExpiredAccountSlotKeys :: "concurrencyCache \<Rightarrow> int \<Rightarrow> redis \<Rightarrow> redis" where
  "CleanupExpiredAccountSlotKeys c srv s =
     reconcileExpiredIndexCandidates c srv userSlotIndex (reconcileExpiredIndexCandidates c srv accountSlotIndex s)"

text \<open>The keys that match one of the two patterns are deleted, once in the life of the server.\<close>

definition sweepLegacyWaitKeysOnce :: "redis \<Rightarrow> redis" where
  "sweepLegacyWaitKeysOnce s =
     (if rd_flags s legacyWaitSweepMarkerKey then s
      else
        s\<lparr>rd_counts := (\<lambda>key. if has_prefix key accountWaitKeyPrefix \<or> has_prefix key waitQueueKeyPrefix
                               then None else rd_counts s key),
          rd_flags := (rd_flags s)(legacyWaitSweepMarkerKey := True)\<rparr>)"

fun cleanupStaleMembers ::
  "concurrencyCache \<Rightarrow> int \<Rightarrow> slotIndexSpec \<Rightarrow> gostring \<Rightarrow> gostring list \<Rightarrow> redis \<Rightarrow>
   (gostring list \<times> gostring list) \<times> redis" where
  "cleanupStaleMembers c srv spec activeRequestPrefix [] s = (([], []), s)"
| "cleanupStaleMembers c srv spec activeRequestPrefix (member # members) s =
     (case indexId member of
        None \<Rightarrow>
          (case cleanupStaleMembers c srv spec activeRequestPrefix members s of
             ((kept, stale), s2) \<Rightarrow> ((kept, member # stale), s2))
      | Some i \<Rightarrow>
          (case startupCleanupSlotScript srv (si_slotKey spec i) activeRequestPrefix (slotTTLSeconds c) s of
             ((_, remaining), s1) \<Rightarrow>
               (case cleanupStaleMembers c srv spec activeRequestPrefix members (DEL (si_waitKey spec i) s1) of
                  ((kept, stale), s2) \<Rightarrow>
                    (if 0 < remaining then (member # kept, stale) else (kept, member # stale), s2))))"

definition cleanupStaleProcessSlotsForIndex ::
  "concurrencyCache \<Rightarrow> int \<Rightarrow> slotIndexSpec \<Rightarrow> gostring \<Rightarrow> redis \<Rightarrow> redis" where
  "cleanupStaleProcessSlotsForIndex c srv spec activeRequestPrefix s =
     (case cleanupStaleMembers c srv spec activeRequestPrefix (ZRANGE srv (si_indexKey spec) s) s of
        ((kept, stale), s1) \<Rightarrow>
          removeActiveIndexMembers srv (si_indexKey spec) stale
            (fold (ZADD srv (si_indexKey spec) (unixSeconds srv + slotTTLSeconds c)) kept s1))"

definition CleanupStaleProcessSlots :: "concurrencyCache \<Rightarrow> int \<Rightarrow> gostring \<Rightarrow> redis \<Rightarrow> redis" where
  "CleanupStaleProcessSlots c srv activeRequestPrefix s =
     (if activeRequestPrefix = [] then s
      else cleanupStaleProcessSlotsForIndex c srv userSlotIndex activeRequestPrefix
             (cleanupStaleProcessSlotsForIndex c srv accountSlotIndex activeRequestPrefix
               (sweepLegacyWaitKeysOnce s)))"

end
