(* ===== verification/ConcurrencyService.thy ===== *)
theory ConcurrencyService
  imports ConcurrencySlots BreakerProofs
begin

text \<open>
  The service over the concurrency cache: \<open>service/concurrency_service.go\<close>. It numbers the requests,
  turns a limit that is not positive into no limit, lets requests through where the waiting
  counters cannot be reached, keeps the leases of connections alive and caches the loads of
  batches of accounts for a moment.

  The state of the cache is the parameter \<open>redis\<close>; \<open>works\<close> tells whether a call reaches it, and a call
  that fails leaves it as it is. SHA-256 and the random prefix of the process are parameters.
  Cancellation of contexts, logging and the merging of equal calls by \<open>singleflight\<close> are left out.
\<close>

subsection \<open>Request ids\<close>

definition base36_digit :: "nat \<Rightarrow> char" where
  "base36_digit d = (if d < 10 then char_of (d + 48) else char_of (d + 87))"

fun base36 :: "nat \<Rightarrow> gostring" where
  "base36 n = (if n < 36 then [base36_digit n] else base36 (n div 36) @ [base36_digit (n mod 36)])"

declare base36.simps [simp del]

definition initRequestIDPrefix :: "nat \<Rightarrow> gostring" where
  "initRequestIDPrefix random = CHR ''r'' # base36 random"

text \<open>The counter is atomic; its new value ends the id.\<close>

definition generateRequestID :: "gostring \<Rightarrow> nat \<Rightarrow> gostring \<times> nat" where
  "generateRequestID prefix counter =
     (let seq = (counter + 1) mod 2 ^ 64 in (prefix @ ''-'' @ base36 seq, seq))"

definition CleanupStaleProcessSlots_svc :: "concurrencyCache option \<Rightarrow> bool \<Rightarrow> int \<Rightarrow> gostring \<Rightarrow> redis \<Rightarrow> redis" where
  "CleanupStaleProcessSlots_svc cache works srv prefix s =
     (case cache of None \<Rightarrow> s | Some c \<Rightarrow> if works then CleanupStaleProcessSlots c srv prefix s else s)"

subsection \<open>Slots\<close>

datatype 'a outcome = Fails | Answers 'a

text \<open>The release function: nothing, or the id of the slot that it gives back.\<close>

datatype slot_release = NoRelease | ReleaseSlot int gostring

record AcquireResult =
  ar_Acquired :: bool
  ar_ReleaseFunc :: "slot_release option"

definition AcquireAccountSlot_svc ::
  "concurrencyCache \<Rightarrow> bool \<Rightarrow> int \<Rightarrow> gostring \<Rightarrow> nat \<Rightarrow> int \<Rightarrow> int \<Rightarrow> redis \<Rightarrow>
   AcquireResult outcome \<times> nat \<times> redis" where
  "AcquireAccountSlot_svc c works srv prefix counter accountID maxConcurrency s =
     (if maxConcurrency \<le> 0
      then (Answers \<lparr>ar_Acquired = True, ar_ReleaseFunc = Some NoRelease\<rparr>, counter, s)
      else
        (case generateRequestID prefix counter of
           (requestID, counter1) \<Rightarrow>
             if \<not> works then (Fails, counter1, s)
             else
               (case AcquireAccountSlot c srv accountID maxConcurrency requestID s of
                  (acquired, s1) \<Rightarrow>
                    (Answers (if acquired
                       then \<lparr>ar_Acquired = True, ar_ReleaseFunc = Some (ReleaseSlot accountID requestID)\<rparr>
                       else \<lparr>ar_Acquired = False, ar_ReleaseFunc = None\<rparr>), counter1, s1))))"

definition AcquireUserSlot_svc ::
  "concurrencyCache \<Rightarrow> bool \<Rightarrow> int \<Rightarrow> gostring \<Rightarrow> nat \<Rightarrow> int \<Rightarrow> int \<Rightarrow> redis \<Rightarrow>
   AcquireResult outcome \<times> nat \<times> redis" where
  "AcquireUserSlot_svc c works srv prefix counter userID maxConcurrency s =
     (if maxConcurrency \<le> 0
      then (Answers \<lparr>ar_Acquired = True, ar_ReleaseFunc = Some NoRelease\<rparr>, counter, s)
      else
        (case generateRequestID prefix counter of
           (requestID, counter1) \<Rightarrow>
             if \<not> works then (Fails, counter1, s)
             else
               (case AcquireUserSlot c srv userID maxConcurrency requestID s of
                  (acquired, s1) \<Rightarrow>
                    (Answers (if acquired
                       then \<lparr>ar_Acquired = True, ar_ReleaseFunc = Some (ReleaseSlot userID requestID)\<rparr>
                       else \<lparr>ar_Acquired = False, ar_ReleaseFunc = None\<rparr>), counter1, s1))))"

definition releaseAccountFunc :: "concurrencyCache \<Rightarrow> bool \<Rightarrow> int \<Rightarrow> slot_release \<Rightarrow> redis \<Rightarrow> redis" where
  "releaseAccountFunc c works srv r s =
     (case r of NoRelease \<Rightarrow> s
      | ReleaseSlot accountID requestID \<Rightarrow> if works then ReleaseAccountSlot c srv accountID requestID s else s)"

definition releaseUserFunc :: "concurrencyCache \<Rightarrow> bool \<Rightarrow> int \<Rightarrow> slot_release \<Rightarrow> redis \<Rightarrow> redis" where
  "releaseUserFunc c works srv r s =
     (case r of NoRelease \<Rightarrow> s
      | ReleaseSlot userID requestID \<Rightarrow> if works then ReleaseUserSlot c srv userID requestID s else s)"

definition TrackAPIKeySlot_svc ::
  "concurrencyCache option \<Rightarrow> bool \<Rightarrow> int \<Rightarrow> gostring \<Rightarrow> nat \<Rightarrow> int \<Rightarrow> redis \<Rightarrow> slot_release \<times> nat \<times> redis" where
  "TrackAPIKeySlot_svc cache works srv prefix counter apiKeyID s =
     (case cache of
        None \<Rightarrow> (NoRelease, counter, s)
      | Some c \<Rightarrow>
          if apiKeyID \<le> 0 then (NoRelease, counter, s)
          else
            (case generateRequestID prefix counter of
               (requestID, counter1) \<Rightarrow>
                 if \<not> works then (NoRelease, counter1, s)
                 else (ReleaseSlot apiKeyID requestID, counter1, TrackAPIKeySlot c srv apiKeyID requestID s)))"

definition releaseAPIKeyFunc :: "bool \<Rightarrow> int \<Rightarrow> slot_release \<Rightarrow> redis \<Rightarrow> redis" where
  "releaseAPIKeyFunc works srv r s =
     (case r of NoRelease \<Rightarrow> s
      | ReleaseSlot apiKeyID requestID \<Rightarrow> if works then ReleaseAPIKeySlot srv apiKeyID requestID s else s)"

definition zeroAPIKeyConcurrencyMap :: "int list \<Rightarrow> (int, int) gomap" where
  "zeroAPIKeyConcurrencyMap ids = fold (\<lambda>i. map_put i 0) ids []"

definition GetAPIKeyConcurrencyBatch_svc ::
  "concurrencyCache option \<Rightarrow> bool \<Rightarrow> int \<Rightarrow> int list \<Rightarrow> redis \<Rightarrow> (int, int) gomap \<times> redis" where
  "GetAPIKeyConcurrencyBatch_svc cache works srv ids s =
     (let zeros = zeroAPIKeyConcurrencyMap ids in
      case cache of
        None \<Rightarrow> (zeros, s)
      | Some c \<Rightarrow>
          if ids = [] \<or> \<not> works then (zeros, s)
          else
            (case GetAPIKeyConcurrencyBatch c srv ids s of
               (counts, s1) \<Rightarrow>
                 (fold (\<lambda>i. map_put i (case map_get counts i of None \<Rightarrow> 0 | Some n \<Rightarrow> n)) ids zeros, s1)))"

definition GetAccountConcurrencyBatch_svc ::
  "concurrencyCache option \<Rightarrow> bool \<Rightarrow> int \<Rightarrow> int list \<Rightarrow> redis \<Rightarrow> (int, int) gomap outcome \<times> redis" where
  "GetAccountConcurrencyBatch_svc cache works srv ids s =
     (if ids = [] then (Answers [], s)
      else
        (case cache of
           None \<Rightarrow> (Answers (fold (\<lambda>i. map_put i 0) ids []), s)
         | Some c \<Rightarrow>
             if \<not> works then (Fails, s)
             else (case GetAccountConcurrencyBatch c srv ids s of (m, s1) \<Rightarrow> (Answers m, s1))))"

subsection \<open>Waiting\<close>

text \<open>Requests are let through where the counter cannot be reached.\<close>

definition IncrementWaitCount_svc :: "concurrencyCache option \<Rightarrow> bool \<Rightarrow> int \<Rightarrow> int \<Rightarrow> int \<Rightarrow> redis \<Rightarrow> bool \<times> redis" where
  "IncrementWaitCount_svc cache works srv userID maxWait s =
     (case cache of
        None \<Rightarrow> (True, s)
      | Some c \<Rightarrow> if works then IncrementWaitCount c srv userID maxWait s else (True, s))"

definition DecrementWaitCount_svc :: "concurrencyCache option \<Rightarrow> bool \<Rightarrow> int \<Rightarrow> int \<Rightarrow> redis \<Rightarrow> redis" where
  "DecrementWaitCount_svc cache works srv userID s =
     (case cache of None \<Rightarrow> s | Some c \<Rightarrow> if works then DecrementWaitCount c srv userID s else s)"

definition IncrementAccountWaitCount_svc ::
  "concurrencyCache option \<Rightarrow> bool \<Rightarrow> int \<Rightarrow> int \<Rightarrow> int \<Rightarrow> redis \<Rightarrow> bool \<times> redis" where
  "IncrementAccountWaitCount_svc cache works srv accountID maxWait s =
     (case cache of
        None \<Rightarrow> (True, s)
      | Some c \<Rightarrow> if works then IncrementAccountWaitCount c srv accountID maxWait s else (True, s))"

definition DecrementAccountWaitCount_svc :: "concurrencyCache option \<Rightarrow> bool \<Rightarrow> int \<Rightarrow> int \<Rightarrow> redis \<Rightarrow> redis" where
  "DecrementAccountWaitCount_svc cache works srv accountID s =
     (case cache of None \<Rightarrow> s | Some c \<Rightarrow> if works then DecrementAccountWaitCount c srv accountID s else s)"

definition GetAccountWaitingCount_svc :: "concurrencyCache option \<Rightarrow> bool \<Rightarrow> int \<Rightarrow> int \<Rightarrow> redis \<Rightarrow> int outcome" where
  "GetAccountWaitingCount_svc cache works srv accountID s =
     (case cache of
        None \<Rightarrow> Answers 0
      | Some c \<Rightarrow> if works then Answers (GetAccountWaitingCount srv accountID s) else Fails)"

definition defaultExtraWaitSlots :: int where "defaultExtraWaitSlots = 20"

definition CalculateMaxWait :: "int \<Rightarrow> int" where
  "CalculateMaxWait userConcurrency =
     wrap64 ((if userConcurrency \<le> 0 then 1 else userConcurrency) + defaultExtraWaitSlots)"

subsection \<open>Connection leases\<close>

definition openAIWSIngressLeaseTTL :: goduration where "openAIWSIngressLeaseTTL = 60 * second"

record OpenAIWSIngressLease =
  wl_apiKeyID :: int
  wl_leaseID :: gostring
  wl_stopped :: bool
  wl_lost :: bool
  wl_lastConfirmedAt :: gotime

datatype lease_answer = LeaseDisabled | LeaseRefused | LeaseError | LeaseTaken OpenAIWSIngressLease

definition AcquireOpenAIWSIngressLease_svc ::
  "concurrencyCache option \<Rightarrow> bool \<Rightarrow> int \<Rightarrow> gotime \<Rightarrow> gostring \<Rightarrow> nat \<Rightarrow> int \<Rightarrow> int \<Rightarrow> redis \<Rightarrow>
   lease_answer \<times> nat \<times> redis" where
  "AcquireOpenAIWSIngressLease_svc cache works srv now prefix counter apiKeyID maxConnections s =
     (if maxConnections \<le> 0 then (LeaseDisabled, counter, s)
      else if cache = None \<or> apiKeyID \<le> 0 then (LeaseError, counter, s)
      else
        (case generateRequestID prefix counter of
           (leaseID, counter1) \<Rightarrow>
             if \<not> works then (LeaseError, counter1, s)
             else
               (case AcquireOpenAIWSIngressLease srv apiKeyID maxConnections leaseID s of
                  (False, s1) \<Rightarrow> (LeaseRefused, counter1, s1)
                | (True, s1) \<Rightarrow>
                    (LeaseTaken \<lparr>wl_apiKeyID = apiKeyID, wl_leaseID = leaseID, wl_stopped = False,
                       wl_lost = False, wl_lastConfirmedAt = now\<rparr>, counter1, s1))))"

text \<open>
  One tick of \<open>refreshLoop\<close>: a refresh that is confirmed moves the time of the last confirmation; a
  lease that is gone, or could not be confirmed for its whole life, is lost. \<open>after\<close> is the clock
  after the call.
\<close>

definition refresh ::
  "bool \<Rightarrow> int \<Rightarrow> gotime \<Rightarrow> OpenAIWSIngressLease \<Rightarrow> redis \<Rightarrow> OpenAIWSIngressLease \<times> redis" where
  "refresh works srv after l s =
     (let (owned, s1) = (if works then RefreshOpenAIWSIngressLease srv (wl_apiKeyID l) (wl_leaseID l) s else (False, s)) in
      if works \<and> owned then (l\<lparr>wl_lastConfirmedAt := after\<rparr>, s1)
      else if works \<or> openAIWSIngressLeaseTTL \<le> time_sub after (wl_lastConfirmedAt l)
      then (l\<lparr>wl_lost := True\<rparr>, s1)
      else (l, s1))"

definition refreshTick ::
  "bool \<Rightarrow> int \<Rightarrow> gotime \<Rightarrow> OpenAIWSIngressLease \<Rightarrow> redis \<Rightarrow> OpenAIWSIngressLease \<times> redis" where
  "refreshTick works srv after l s = (if wl_stopped l \<or> wl_lost l then (l, s) else refresh works srv after l s)"

text \<open>\<open>Release\<close> runs once.\<close>

definition ReleaseLease :: "bool \<Rightarrow> int \<Rightarrow> OpenAIWSIngressLease \<Rightarrow> redis \<Rightarrow> OpenAIWSIngressLease \<times> redis" where
  "ReleaseLease works srv l s =
     (if wl_stopped l then (l, s)
      else
        (l\<lparr>wl_stopped := True\<rparr>,
         if wl_apiKeyID l \<le> 0 \<or> wl_leaseID l = [] \<or> \<not> works then s
         else ReleaseOpenAIWSIngressLease srv (wl_apiKeyID l) (wl_leaseID l) s))"

subsection \<open>The cache of loads\<close>

definition defaultAccountLoadBatchCacheTTL :: goduration where "defaultAccountLoadBatchCacheTTL = 200 * millisecond"
definition maxAccountLoadBatchCacheEntries :: int where "maxAccountLoadBatchCacheEntries = 256"

record cachedAccountLoadBatch =
  cb_loadMap :: "(int, LoadInfo) gomap"
  cb_expiresAt :: gotime

record ConcurrencyService =
  sv_accountLoadCacheTTL :: goduration
  sv_accountLoadCache :: "(gostring, cachedAccountLoadBatch) gomap"

definition SetAccountLoadBatchCacheTTL :: "goduration \<Rightarrow> ConcurrencyService \<Rightarrow> ConcurrencyService" where
  "SetAccountLoadBatchCacheTTL ttl sv =
     (let sv1 = sv\<lparr>sv_accountLoadCacheTTL := ttl\<rparr> in if ttl \<le> 0 then sv1\<lparr>sv_accountLoadCache := []\<rparr> else sv1)"

definition NewConcurrencyService :: ConcurrencyService where
  "NewConcurrencyService = SetAccountLoadBatchCacheTTL defaultAccountLoadBatchCacheTTL
     \<lparr>sv_accountLoadCacheTTL = 0, sv_accountLoadCache = []\<rparr>"

text \<open>The eight bytes of an integer, the lowest first.\<close>

definition putUint64 :: "int \<Rightarrow> gostring" where
  "putUint64 i = map (\<lambda>k. char_of (nat (i mod 2 ^ 64) div 256 ^ k mod 256)) [0..<8]"

definition accountLoadBatchCacheKey :: "(gostring \<Rightarrow> gostring) \<Rightarrow> WithConcurrency list \<Rightarrow> gostring" where
  "accountLoadBatchCacheKey sha accounts =
     itoa (int (length accounts)) @ '':'' @
     hex_encode (sha (concat (map (\<lambda>a. putUint64 (wc_ID a) @ putUint64 (wc_MaxConcurrency a)) accounts)))"

definition getCachedAccountLoadBatch ::
  "gostring \<Rightarrow> gotime \<Rightarrow> ConcurrencyService \<Rightarrow> (int, LoadInfo) gomap option \<times> ConcurrencyService" where
  "getCachedAccountLoadBatch key now sv =
     (case map_get (sv_accountLoadCache sv) key of
        None \<Rightarrow> (None, sv)
      | Some cached \<Rightarrow>
          if \<not> now < cb_expiresAt cached
          then (None, sv\<lparr>sv_accountLoadCache := map_del key (sv_accountLoadCache sv)\<rparr>)
          else (Some (cb_loadMap cached), sv))"

text \<open>A full cache first loses its expired entries, then entries in the order \<open>rk\<close> of the map.\<close>

fun dropEntries :: "(gostring \<Rightarrow> nat) \<Rightarrow> nat \<Rightarrow> (gostring, cachedAccountLoadBatch) gomap \<Rightarrow>
    (gostring, cachedAccountLoadBatch) gomap" where
  "dropEntries rk 0 m = m"
| "dropEntries rk (Suc n) m =
     (if int (length m) < maxAccountLoadBatchCacheEntries then m
      else case visit rk m of [] \<Rightarrow> m | k # _ \<Rightarrow> dropEntries rk n (map_del k m))"

definition storeCachedAccountLoadBatch ::
  "(gostring \<Rightarrow> nat) \<Rightarrow> gotime \<Rightarrow> gostring \<Rightarrow> (int, LoadInfo) gomap \<Rightarrow> gotime \<Rightarrow> ConcurrencyService \<Rightarrow> ConcurrencyService" where
  "storeCachedAccountLoadBatch rk now key loadMap expiresAt sv =
     (let m = sv_accountLoadCache sv;
          m1 = (if maxAccountLoadBatchCacheEntries \<le> int (length m)
                then let live = filter (\<lambda>(_, c). now < cb_expiresAt c) m in dropEntries rk (length live) live
                else m)
      in sv\<lparr>sv_accountLoadCache := map_put key \<lparr>cb_loadMap = loadMap, cb_expiresAt = expiresAt\<rparr> m1\<rparr>)"

definition fetchAccountsLoadBatch ::
  "concurrencyCache option \<Rightarrow> bool \<Rightarrow> int \<Rightarrow> WithConcurrency list \<Rightarrow> redis \<Rightarrow> (int, LoadInfo) gomap outcome \<times> redis" where
  "fetchAccountsLoadBatch cache works srv accounts s =
     (case cache of
        None \<Rightarrow> (Answers [], s)
      | Some c \<Rightarrow>
          if \<not> works then (Fails, s)
          else (case GetAccountsLoadBatch c srv accounts s of (m, s1) \<Rightarrow> (Answers m, s1)))"

text \<open>\<open>now\<close> is the clock of the lookups; \<open>stored\<close> the one that \<open>storeCachedAccountLoadBatch\<close> reads.\<close>

definition getAccountsLoadBatch ::
  "(gostring \<Rightarrow> gostring) \<Rightarrow> (gostring \<Rightarrow> nat) \<Rightarrow> concurrencyCache option \<Rightarrow> bool \<Rightarrow> int \<Rightarrow> gotime \<Rightarrow> gotime \<Rightarrow>
   WithConcurrency list \<Rightarrow> bool \<Rightarrow> ConcurrencyService \<Rightarrow> redis \<Rightarrow>
   (int, LoadInfo) gomap outcome \<times> ConcurrencyService \<times> redis" where
  "getAccountsLoadBatch sha rk cache works srv now stored accounts allowCache sv s =
     (if accounts = [] \<or> cache = None then (Answers [], sv, s)
      else
        let ttl = sv_accountLoadCacheTTL sv in
        if \<not> allowCache \<or> ttl \<le> 0 then
          (case fetchAccountsLoadBatch cache works srv accounts s of (r, s1) \<Rightarrow> (r, sv, s1))
        else
          let key = accountLoadBatchCacheKey sha accounts in
          (case getCachedAccountLoadBatch key now sv of
             (Some cached, sv1) \<Rightarrow> (Answers cached, sv1, s)
           | (None, sv1) \<Rightarrow>
               (case fetchAccountsLoadBatch cache works srv accounts s of
                  (Fails, s1) \<Rightarrow> (Fails, sv1, s1)
                | (Answers m, s1) \<Rightarrow>
                    (Answers m, storeCachedAccountLoadBatch rk stored key m (time_add now ttl) sv1, s1))))"

definition GetAccountsLoadBatch_svc where
  "GetAccountsLoadBatch_svc sha rk cache works srv now stored accounts sv s =
     getAccountsLoadBatch sha rk cache works srv now stored accounts True sv s"

definition GetAccountsLoadBatchFresh where
  "GetAccountsLoadBatchFresh sha rk cache works srv now stored accounts sv s =
     getAccountsLoadBatch sha rk cache works srv now stored accounts False sv s"

definition GetUsersLoadBatch_svc ::
  "concurrencyCache option \<Rightarrow> bool \<Rightarrow> int \<Rightarrow> WithConcurrency list \<Rightarrow> redis \<Rightarrow> (int, LoadInfo) gomap outcome \<times> redis" where
  "GetUsersLoadBatch_svc cache works srv users s =
     (case cache of
        None \<Rightarrow> (Answers [], s)
      | Some c \<Rightarrow>
          if \<not> works then (Fails, s)
          else (case GetUsersLoadBatch c srv users s of (m, s1) \<Rightarrow> (Answers m, s1)))"

definition CleanupExpiredAccountSlots_svc :: "concurrencyCache option \<Rightarrow> bool \<Rightarrow> int \<Rightarrow> int \<Rightarrow> redis \<Rightarrow> redis" where
  "CleanupExpiredAccountSlots_svc cache works srv accountID s =
     (case cache of None \<Rightarrow> s | Some c \<Rightarrow> if works then CleanupExpiredAccountSlots c srv accountID s else s)"

end
