(* ===== verification/SlotPool.thy ===== *)
theory SlotPool
  imports ConcurrencySlots
begin

text \<open>
  What a pool of slots keeps under any sequence of operations: the locale \<open>leased_pool\<close> states the
  contract of a bounded set of holders whose claims lapse, and the lemmas below say what each
  Redis command does to the sorted set of a pool.
\<close>

subsection \<open>Bounded pools\<close>

text \<open>
  Operations run at the times of the server, and the holders are recorded beside the state: a
  holder is granted a slot, or has it confirmed, by an operation that says so, and loses it by
  one that drops it. Whoever was granted a slot less than its time to live ago is running.
\<close>

fun held_step ::
  "(int \<Rightarrow> 'op \<Rightarrow> 's \<Rightarrow> bool \<times> 's) \<Rightarrow> (int \<Rightarrow> 's \<Rightarrow> 'op \<Rightarrow> 'h option) \<Rightarrow> ('op \<Rightarrow> 'h \<Rightarrow> bool) \<Rightarrow>
   int \<times> 'op \<Rightarrow> 's \<times> ('h, int) gomap \<Rightarrow> 's \<times> ('h, int) gomap" where
  "held_step step asks drops (srv, op) (s, held) =
     (case step srv op s of
        (ok, s') \<Rightarrow>
          (s', let kept = filter (\<lambda>(h, _). \<not> drops op h) held in
               case asks srv s op of
                 Some h \<Rightarrow> if ok then map_put h (unixSeconds srv) kept else kept
               | None \<Rightarrow> kept))"

definition running :: "('h \<Rightarrow> int) \<Rightarrow> int \<Rightarrow> ('h, int) gomap \<Rightarrow> 'h list" where
  "running ttl srv held = map fst (filter (\<lambda>(h, t). unixSeconds srv - t < ttl h) held)"

fun ordered_from :: "int \<Rightarrow> (int \<times> 'op) list \<Rightarrow> bool" where
  "ordered_from srv [] = True"
| "ordered_from srv ((t, op) # ops) = (srv \<le> t \<and> ordered_from t ops)"

fun end_time :: "int \<Rightarrow> (int \<times> 'op) list \<Rightarrow> int" where
  "end_time srv [] = srv"
| "end_time srv ((t, op) # ops) = end_time t ops"

definition pool_covers ::
  "(int \<Rightarrow> 's \<Rightarrow> bool) \<Rightarrow> ('s \<Rightarrow> ('h, int) gomap) \<Rightarrow> ('h \<Rightarrow> int) \<Rightarrow> int \<Rightarrow>
   's \<times> ('h, int) gomap \<Rightarrow> bool" where
  "pool_covers ok members ttl srv w \<longleftrightarrow> ok srv (fst w) \<and> map_wf (snd w) \<and>
     (\<forall>(h, t) \<in> set (snd w). unixSeconds srv - t < ttl h \<longrightarrow>
        (\<exists>t' \<ge> t. map_get (members (fst w)) h = Some t'))"

lemma map_put_mem:
  assumes "map_wf m" and "(k, v) \<in> set (map_put a b m)"
  shows "k = a \<and> v = b \<or> k \<noteq> a \<and> (k, v) \<in> set m"
proof -
  have "map_get (map_put a b m) k = Some v"
    using assms(2) map_wf_put [OF assms(1), unfolded map_wf_def] by (simp only: map_of_is_SomeI)
  then show ?thesis by (auto split: if_splits dest: map_of_SomeD)
qed

locale leased_pool =
  fixes step :: "int \<Rightarrow> 'op \<Rightarrow> 's \<Rightarrow> bool \<times> 's"
    and asks :: "int \<Rightarrow> 's \<Rightarrow> 'op \<Rightarrow> 'h option"
    and drops :: "'op \<Rightarrow> 'h \<Rightarrow> bool"
    and members :: "'s \<Rightarrow> ('h, int) gomap"
    and ttl :: "'h \<Rightarrow> int"
    and ok :: "int \<Rightarrow> 's \<Rightarrow> bool"
    and allowed :: "'op \<Rightarrow> bool"
    and limit :: int
  assumes ok_later: "ok srv s \<Longrightarrow> srv \<le> srv' \<Longrightarrow> ok srv' s"
    and ok_step: "ok srv s \<Longrightarrow> allowed op \<Longrightarrow> ok srv (snd (step srv op s))"
    and keeps: "ok srv s \<Longrightarrow> allowed op \<Longrightarrow> map_get (members s) h = Some t \<Longrightarrow>
      unixSeconds srv - t < ttl h \<Longrightarrow> \<not> drops op h \<Longrightarrow>
      \<exists>t' \<ge> t. map_get (members (snd (step srv op s))) h = Some t'"
    and grants: "ok srv s \<Longrightarrow> allowed op \<Longrightarrow> asks srv s op = Some h \<Longrightarrow> fst (step srv op s) \<Longrightarrow>
      map_get (members (snd (step srv op s))) h = Some (unixSeconds srv)"
    and bounded: "ok srv s \<Longrightarrow>
      int (length (filter (\<lambda>(h, t). unixSeconds srv - t < ttl h) (members s))) \<le> limit"
begin

lemma covered_later: "pool_covers ok members ttl srv w \<Longrightarrow> srv \<le> srv' \<Longrightarrow> pool_covers ok members ttl srv' w"
proof -
  assume c: "pool_covers ok members ttl srv w" and le: "srv \<le> srv'"
  have "unixSeconds srv \<le> unixSeconds srv'" unfolding unixSeconds_def using le by (rule zdiv_mono1) simp
  then show ?thesis using c le ok_later by (fastforce simp: pool_covers_def)
qed

lemma cover_step:
  assumes "pool_covers ok members ttl srv w" and "allowed op"
  shows "pool_covers ok members ttl srv (held_step step asks drops (srv, op) w)"
proof -
  obtain s held where w: "w = (s, held)" by (cases w)
  obtain good s' where st: "step srv op s = (good, s')" by (cases "step srv op s")
  define kept where "kept = filter (\<lambda>(h, _). \<not> drops op h) held"
  have ok: "ok srv s" and wf: "map_wf held" using assms(1) by (simp_all add: pool_covers_def w)
  have ok': "ok srv s'" using ok_step [OF ok assms(2)] by (simp add: st)
  have kept: "\<exists>t' \<ge> t. map_get (members s') h = Some t'"
    if in_kept: "(h, t) \<in> set kept" and alive: "unixSeconds srv - t < ttl h" for h t
  proof -
    from in_kept have h: "(h, t) \<in> set held" "\<not> drops op h" by (auto simp: kept_def)
    then obtain t' where t': "t \<le> t'" "map_get (members s) h = Some t'"
      using assms(1) alive by (fastforce simp: pool_covers_def w)
    have "unixSeconds srv - t' < ttl h" using t'(1) alive by simp
    from keeps [OF ok assms(2) t'(2) this h(2)] st t'(1) show ?thesis by force
  qed
  have wfk: "map_wf kept" using wf by (simp add: kept_def)
  have c: "pool_covers ok members ttl srv (s', kept)" using ok' wfk kept by (auto simp: pool_covers_def)
  show ?thesis
  proof (cases "\<exists>h. asks srv s op = Some h \<and> good")
    case False
    then show ?thesis using c by (auto simp: w st kept_def Let_def split: option.split)
  next
    case True
    then obtain h where h: "asks srv s op = Some h" "good" by auto
    have now: "map_get (members s') h = Some (unixSeconds srv)"
      using grants [OF ok assms(2) h(1)] h(2) st by simp
    have "\<exists>t' \<ge> t. map_get (members s') h' = Some t'"
      if put: "(h', t) \<in> set (map_put h (unixSeconds srv) kept)" and alive: "unixSeconds srv - t < ttl h'" for h' t
      using map_put_mem [OF wfk put] now kept alive by auto
    then have "pool_covers ok members ttl srv (s', map_put h (unixSeconds srv) kept)"
      using ok' wfk by (auto simp: pool_covers_def)
    then show ?thesis using h by (simp add: w st kept_def Let_def)
  qed
qed

lemma covered_run:
  assumes "pool_covers ok members ttl srv w" and "ordered_from srv ops" and "\<forall>x \<in> set ops. allowed (snd x)"
  shows "pool_covers ok members ttl (end_time srv ops) (fold (held_step step asks drops) ops w)"
  using assms
proof (induction ops arbitrary: srv w)
  case (Cons x ops)
  obtain t op where x: "x = (t, op)" by (cases x)
  have "pool_covers ok members ttl t (held_step step asks drops (t, op) w)"
  proof (rule cover_step)
    show "pool_covers ok members ttl t w"
      by (rule covered_later [of srv]) (use Cons.prems x in \<open>simp_all\<close>)
    show "allowed op" using Cons.prems(3) x by simp
  qed
  then have "pool_covers ok members ttl (end_time t ops)
      (fold (held_step step asks drops) ops (held_step step asks drops (t, op) w))"
    by (rule Cons.IH) (use Cons.prems x in \<open>simp_all\<close>)
  then show ?case using x by simp
qed simp

lemma covered_bound:
  assumes "pool_covers ok members ttl srv w"
  shows "int (length (running ttl srv (snd w))) \<le> limit"
proof -
  have "distinct (map fst (filter (\<lambda>(h, t). unixSeconds srv - t < ttl h) (snd w)))"
    using assms by (simp add: pool_covers_def map_wf_def distinct_map_filter)
  then have d: "distinct (running ttl srv (snd w))" by (simp add: running_def)
  let ?alive = "filter (\<lambda>(h, t). unixSeconds srv - t < ttl h) (members (fst w))"
  have "set (running ttl srv (snd w)) \<subseteq> set (map fst ?alive)"
  proof
    fix h assume "h \<in> set (running ttl srv (snd w))"
    then obtain t where h: "(h, t) \<in> set (snd w)" "unixSeconds srv - t < ttl h" by (auto simp: running_def)
    with assms obtain t' where t': "t \<le> t'" "map_get (members (fst w)) h = Some t'"
      by (fastforce simp: pool_covers_def)
    then have "(h, t') \<in> set ?alive" using h(2) by (auto dest: map_of_SomeD)
    then show "h \<in> set (map fst ?alive)" by force
  qed
  then have "length (running ttl srv (snd w)) \<le> length (map fst ?alive)"
    using d by (metis card_mono distinct_card card_length finite_set le_trans)
  moreover have "int (length ?alive) \<le> limit" using assms by (intro bounded) (simp add: pool_covers_def)
  ultimately show ?thesis by simp
qed

lemma running_bounded:
  assumes "ok srv s" and "ordered_from srv ops" and "\<forall>x \<in> set ops. allowed (snd x)"
    and "end_time srv ops \<le> now"
  shows "int (length (running ttl now (snd (fold (held_step step asks drops) ops (s, []))))) \<le> limit"
proof (rule covered_bound, rule covered_later [OF covered_run])
  show "pool_covers ok members ttl srv (s, [])" using assms(1) by (simp add: pool_covers_def)
qed (use assms in auto)

end

end
