(* ===== verification/SlotProofs.thy ===== *)
theory SlotProofs
  imports SlotPool
begin

text \<open>
  The slots of an account or a user, with the live leases counted beside them, and the
  connections of an API key are bounded pools: whatever sequence of operations runs, the holders
  whose slot has not lapsed are never more than the limit.
\<close>

subsection \<open>The commands, key by key\<close>

named_theorems zset_frames "what the commands leave alone"

lemma zsets_put [zset_frames]: "rd_zsets (zsetPut key z s) k = (if k = key then z else rd_zsets s k)"
  by (simp add: zsetPut_def)

lemma zsets_count [zset_frames]: "rd_zsets (countPut key v s) k = rd_zsets s k"
  by (simp add: countPut_def)

lemma zsets_INCRBY [zset_frames]: "rd_zsets (INCRBY srv key d s) k = rd_zsets s k"
  by (simp add: INCRBY_def zset_frames)

lemma zsets_EXPIRE_count [zset_frames]: "rd_zsets (EXPIRE_count srv key ttl s) k = rd_zsets s k"
  by (simp add: EXPIRE_count_def zset_frames split: option.split)

lemma zsets_sweep [zset_frames]: "rd_zsets (sweepLegacyWaitKeysOnce s) k = rd_zsets s k"
  by (simp add: sweepLegacyWaitKeysOnce_def)

lemma zsets_ZADD [zset_frames]: "k \<noteq> key \<Longrightarrow> rd_zsets (ZADD srv key score m s) k = rd_zsets s k"
  by (simp add: ZADD_def Let_def zset_frames)

lemma zsets_touch [zset_frames]: "k \<noteq> key \<Longrightarrow> rd_zsets (touchActiveIndexAt srv key i e s) k = rd_zsets s k"
  by (simp add: touchActiveIndexAt_def zset_frames)

lemma zsets_ZREM [zset_frames]: "k \<noteq> key \<Longrightarrow> rd_zsets (ZREM srv key m s) k = rd_zsets s k"
  by (simp add: ZREM_def Let_def zset_frames)

lemma zsets_ZREMRANGE [zset_frames]: "k \<noteq> key \<Longrightarrow> rd_zsets (ZREMRANGEBYSCORE srv key cutoff s) k = rd_zsets s k"
  by (simp add: ZREMRANGEBYSCORE_def Let_def zset_frames)

lemma zsets_EXPIRE [zset_frames]: "k \<noteq> key \<Longrightarrow> rd_zsets (EXPIRE srv key ttl s) k = rd_zsets s k"
  by (simp add: EXPIRE_def Let_def zset_frames)

lemma zsets_take [zset_frames]: "k \<noteq> key \<Longrightarrow> rd_zsets (takeSlot srv key ttl m s) k = rd_zsets s k"
  by (simp add: takeSlot_def zset_frames)

lemma zsets_DEL [zset_frames]: "k \<noteq> key \<Longrightarrow> rd_zsets (DEL key s) k = rd_zsets s k"
  by (simp add: DEL_def)

subsection \<open>The sorted set of a pool\<close>

text \<open>
  Scores are in the past and the key outlives its members. \<open>passes\<close> says what an operation does
  to the set of a pool: at most \<open>n\<close> members are added, and nobody whose slot has not lapsed loses
  it, unless \<open>D\<close> says so.
\<close>

definition slot_ok :: "int \<Rightarrow> int \<Rightarrow> zset_key \<Rightarrow> bool" where
  "slot_ok ttl srv z \<longleftrightarrow> map_wf (zk_members z) \<and>
     (\<forall>(m, t) \<in> set (zk_members z). t \<le> unixSeconds srv \<and> (\<exists>e. zk_expire z = Some e \<and> (t + ttl) * 1000 \<le> e))"

definition zset_size :: "int \<Rightarrow> zset_key \<Rightarrow> nat" where
  "zset_size srv z = length (zk_members (zset_at srv z))"

definition passes :: "int \<Rightarrow> int \<Rightarrow> (gostring \<Rightarrow> bool) \<Rightarrow> nat \<Rightarrow> zset_key \<Rightarrow> zset_key \<Rightarrow> bool" where
  "passes ttl srv D n z z' \<longleftrightarrow>
     (slot_ok ttl srv z \<longrightarrow>
        slot_ok ttl srv z' \<and> zset_size srv z' \<le> zset_size srv z + n \<and>
        (\<forall>m t. map_get (zk_members z) m = Some t \<and> unixSeconds srv - t < ttl \<and> \<not> D m \<longrightarrow>
           (\<exists>t' \<ge> t. map_get (zk_members z') m = Some t')))"

lemma unix_mono: "srv \<le> srv' \<Longrightarrow> unixSeconds srv \<le> unixSeconds srv'"
  unfolding unixSeconds_def by (rule zdiv_mono1) simp_all

lemma unix_bounds: "unixSeconds srv * 1000 \<le> srv" "srv < unixSeconds srv * 1000 + 1000"
  unfolding unixSeconds_def by linarith+

lemma slot_ok_later: "slot_ok ttl srv z \<Longrightarrow> srv \<le> srv' \<Longrightarrow> slot_ok ttl srv' z"
  using unix_mono [of srv srv'] by (fastforce simp: slot_ok_def)

lemma slot_ok_noZset [simp]: "slot_ok ttl srv noZset"
  by (simp add: slot_ok_def noZset_def)

lemma noZset_members [simp]: "zk_members noZset = []"
  by (simp add: noZset_def)

lemma zset_size_noZset [simp]: "zset_size srv noZset = 0"
  by (simp add: zset_size_def zset_at_def noZset_def)

lemma passes_refl [simp]: "passes ttl srv D n z z"
  by (auto simp: passes_def)

lemma passes_trans:
  assumes "passes ttl srv D i z z'" and "passes ttl srv D j z' z''" and "i + j \<le> n"
  shows "passes ttl srv D n z z''"
  unfolding passes_def
proof (intro impI conjI allI)
  assume ok: "slot_ok ttl srv z"
  then have ok': "slot_ok ttl srv z'" using assms(1) by (simp add: passes_def)
  then show "slot_ok ttl srv z''" using assms(2) by (simp add: passes_def)
  have "zset_size srv z' \<le> zset_size srv z + i" using ok assms(1) by (simp add: passes_def)
  moreover have "zset_size srv z'' \<le> zset_size srv z' + j" using ok' assms(2) by (simp add: passes_def)
  ultimately show "zset_size srv z'' \<le> zset_size srv z + n" using assms(3) by linarith
  fix m t
  assume a: "map_get (zk_members z) m = Some t \<and> unixSeconds srv - t < ttl \<and> \<not> D m"
  then obtain t' where t': "t \<le> t'" "map_get (zk_members z') m = Some t'"
    using assms(1) ok by (auto simp: passes_def)
  moreover have "unixSeconds srv - t' < ttl" using a t'(1) by simp
  ultimately obtain t'' where "t' \<le> t''" "map_get (zk_members z'') m = Some t''"
    using assms(2) ok' a unfolding passes_def by blast
  with t'(1) show "\<exists>t' \<ge> t. map_get (zk_members z'') m = Some t'" by force
qed

text \<open>A key with a member that has not lapsed has not expired.\<close>

lemma zset_at_alive:
  assumes "slot_ok ttl srv z" and "map_get (zk_members z) m = Some t" and "unixSeconds srv - t < ttl"
  shows "zset_at srv z = z"
proof -
  have "(m, t) \<in> set (zk_members z)" using assms(2) by (rule map_of_SomeD)
  then obtain e where e: "zk_expire z = Some e" "(t + ttl) * 1000 \<le> e" using assms(1) by (auto simp: slot_ok_def)
  have "(unixSeconds srv + 1) * 1000 \<le> (t + ttl) * 1000" using assms(3) by simp
  then have "srv < (t + ttl) * 1000" using unix_bounds(2) [of srv] by simp
  then have "srv < e" using e(2) by simp
  then show ?thesis by (simp add: zset_at_def e(1))
qed

lemma slot_ok_at: "slot_ok ttl srv z \<Longrightarrow> slot_ok ttl srv (zset_at srv z)"
  by (simp add: zset_at_def split: option.split)

lemma zset_at_at [simp]: "zset_at srv (zset_at srv z) = zset_at srv z"
  by (auto simp: zset_at_def noZset_def split: option.splits)

lemma zset_at_length: "length (zk_members (zset_at srv z)) \<le> length (zk_members z)"
  by (simp add: zset_at_def noZset_def split: option.split)

lemma zset_size_at [simp]: "zset_size srv (zset_at srv z) = zset_size srv z"
  by (simp add: zset_size_def)

lemma zset_size_le: "zset_size srv z \<le> length (zk_members z)"
  by (simp add: zset_size_def zset_at_length)

lemma passes_at: "passes ttl srv D n z (zset_at srv z)"
  unfolding passes_def
  using zset_at_alive [of ttl srv z] slot_ok_at [of ttl srv z] by fastforce

lemma slot_ok_sub:
  assumes "slot_ok ttl srv z" and "map_wf m" and "set m \<subseteq> set (zk_members z)"
  shows "slot_ok ttl srv (zset_tidy (z\<lparr>zk_members := m\<rparr>))"
  using assms by (auto simp: slot_ok_def zset_tidy_def noZset_def)

lemma zset_tidy_members [simp]: "zk_members (zset_tidy z) = zk_members z"
  by (simp add: zset_tidy_def noZset_def)

lemma passes_sub:
  assumes "slot_ok ttl srv z \<Longrightarrow> map_wf m" and "set m \<subseteq> set (zk_members z)" and "length m \<le> zset_size srv z"
    and "\<And>r t. slot_ok ttl srv z \<Longrightarrow> map_get (zk_members z) r = Some t \<Longrightarrow> unixSeconds srv - t < ttl \<Longrightarrow> \<not> D r \<Longrightarrow>
      map_get m r = Some t"
  shows "passes ttl srv D n z (zset_tidy (z\<lparr>zk_members := m\<rparr>))"
  unfolding passes_def
proof (intro impI conjI allI)
  assume ok: "slot_ok ttl srv z"
  then show "slot_ok ttl srv (zset_tidy (z\<lparr>zk_members := m\<rparr>))" by (intro slot_ok_sub assms)
  show "zset_size srv (zset_tidy (z\<lparr>zk_members := m\<rparr>)) \<le> zset_size srv z + n"
    using assms(3) zset_size_le [of srv "zset_tidy (z\<lparr>zk_members := m\<rparr>)"] by simp
  fix r t
  assume "map_get (zk_members z) r = Some t \<and> unixSeconds srv - t < ttl \<and> \<not> D r"
  then show "\<exists>t' \<ge> t. map_get (zk_members (zset_tidy (z\<lparr>zk_members := m\<rparr>))) r = Some t'"
    using assms(4) [OF ok] by auto
qed

lemma map_del_subset: "set (map_del k m) \<subseteq> set m"
  by (auto simp: AList.delete_eq)

lemma passes_ZREM:
  assumes "key = k \<Longrightarrow> D m"
  shows "passes ttl srv D n (rd_zsets s k) (rd_zsets (ZREM srv key m s) k)"
proof (cases "key = k")
  case True
  let ?z = "zset_at srv (rd_zsets s k)"
  have "passes ttl srv D 0 ?z (zset_tidy (?z\<lparr>zk_members := map_del m (zk_members ?z)\<rparr>))"
    using assms True by (intro passes_sub) (simp_all add: slot_ok_def map_del_subset zset_size_def, blast)
  then show ?thesis using True passes_trans [OF passes_at [of ttl srv D 0]]
    by (force simp: ZREM_def zsetNow_def Let_def zset_frames)
qed (simp add: zset_frames)

lemma passes_ZREMRANGE:
  assumes "key = k \<Longrightarrow> cutoff \<le> unixSeconds srv - ttl"
  shows "passes ttl srv D n (rd_zsets s k) (rd_zsets (ZREMRANGEBYSCORE srv key cutoff s) k)"
proof (cases "key = k")
  case True
  let ?z = "zset_at srv (rd_zsets s k)"
  have "passes ttl srv D 0 ?z (zset_tidy (?z\<lparr>zk_members := filter (\<lambda>(_, score). \<not> score \<le> cutoff) (zk_members ?z)\<rparr>))"
    using assms True by (intro passes_sub) (auto simp: slot_ok_def map_get_filter zset_size_def split: option.split)
  then show ?thesis using True passes_trans [OF passes_at [of ttl srv D 0]]
    by (force simp: ZREMRANGEBYSCORE_def zsetNow_def Let_def zset_frames)
qed (simp add: zset_frames)

lemma passes_EXPIRE:
  assumes "key = k \<Longrightarrow> ttl \<le> ttl'" and "0 < ttl"
  shows "passes ttl srv D n (rd_zsets s k) (rd_zsets (EXPIRE srv key ttl' s) k)"
proof (cases "key = k")
  case True
  let ?z = "zset_at srv (rd_zsets s k)"
  have "passes ttl srv D 0 ?z (?z\<lparr>zk_expire := Some (srv + ttl' * 1000)\<rparr>)"
    using assms(1) [OF True] unix_bounds(1) [of srv] zset_size_le [of srv "?z\<lparr>zk_expire := Some (srv + ttl' * 1000)\<rparr>"]
    by (auto simp: passes_def slot_ok_def zset_size_def)
  then have "passes ttl srv D n (rd_zsets s k) (?z\<lparr>zk_expire := Some (srv + ttl' * 1000)\<rparr>)"
    using passes_trans [OF passes_at [of ttl srv D 0]] by force
  then show ?thesis using True assms by (auto simp: EXPIRE_def zsetNow_def Let_def zset_frames)
qed (simp add: zset_frames)

lemma length_put_le: "length (map_put k v m) \<le> length m + 1"
  by (induction m) auto

lemma length_put_present: "map_get m k \<noteq> None \<Longrightarrow> length (map_put k v m) = length m"
  by (induction m) auto

lemma takeSlot_members:
  "0 < ttl \<Longrightarrow> zk_members (rd_zsets (takeSlot srv key ttl m s) key) =
     map_put m (unixSeconds srv) (zk_members (zset_at srv (rd_zsets s key)))"
  by (auto simp: takeSlot_def EXPIRE_def ZADD_def zsetNow_def Let_def zset_frames zset_at_def noZset_def
      split: option.splits)

lemma takeSlot_expire:
  "0 < ttl \<Longrightarrow> zk_expire (rd_zsets (takeSlot srv key ttl m s) key) = Some (srv + ttl * 1000)"
  by (auto simp: takeSlot_def EXPIRE_def ZADD_def zsetNow_def Let_def zset_frames zset_at_def noZset_def
      update_nonempty split: option.splits)

lemma passes_takeSlot:
  assumes "key = k \<Longrightarrow> ttl \<le> ttl'" and "0 < ttl" and "key = k \<Longrightarrow> ZSCORE srv k m s = None \<Longrightarrow> 1 \<le> n"
  shows "passes ttl srv D n (rd_zsets s k) (rd_zsets (takeSlot srv key ttl' m s) k)"
proof (cases "key = k")
  case True
  let ?z = "zset_at srv (rd_zsets s k)"
  let ?z' = "rd_zsets (takeSlot srv key ttl' m s) k"
  have mem: "zk_members ?z' = map_put m (unixSeconds srv) (zk_members ?z)"
    using True assms(1,2) takeSlot_members [of ttl' srv k m s] by simp
  have exp: "zk_expire ?z' = Some (srv + ttl' * 1000)"
    using True assms(1,2) takeSlot_expire [of ttl' srv k m s] by simp
  have len: "length (zk_members ?z') \<le> zset_size srv (rd_zsets s k) + n"
  proof (cases "map_get (zk_members ?z) m")
    case None
    then have "1 \<le> n" using assms(3) True by (simp add: ZSCORE_def zsetNow_def)
    then show ?thesis using mem length_put_le [of m "unixSeconds srv" "zk_members ?z"] by (simp add: zset_size_def)
  next
    case (Some t)
    then show ?thesis using mem length_put_present [of "zk_members ?z" m "unixSeconds srv"] by (simp add: zset_size_def)
  qed
  have "passes ttl srv D n ?z ?z'"
    unfolding passes_def
  proof (intro impI conjI allI)
    assume ok: "slot_ok ttl srv ?z"
    then have "(r, t) \<in> set (zk_members ?z') \<Longrightarrow> t \<le> unixSeconds srv" for r t
      unfolding mem by (auto simp: slot_ok_def dest!: map_put_mem [rotated])
    then show "slot_ok ttl srv ?z'"
      using ok unix_bounds(1) [of srv] assms(1) [OF True] by (fastforce simp: slot_ok_def mem exp)
    show "zset_size srv ?z' \<le> zset_size srv ?z + n" using len zset_size_le [of srv ?z'] by simp
    fix r t
    assume "map_get (zk_members ?z) r = Some t \<and> unixSeconds srv - t < ttl \<and> \<not> D r"
    moreover from this have "t \<le> unixSeconds srv" using ok by (auto simp: slot_ok_def dest: map_of_SomeD)
    ultimately show "\<exists>t' \<ge> t. map_get (zk_members ?z') r = Some t'" by (simp add: mem)
  qed
  then show ?thesis using passes_trans [OF passes_at [of ttl srv D 0]] by force
qed (simp add: zset_frames)

lemma ZCARD_zsets: "ZCARD srv key s = int (length (zk_members (zset_at srv (rd_zsets s key))))"
  by (simp add: ZCARD_def zsetNow_def)

lemma passes_DEL:
  assumes "key = k \<Longrightarrow> ZCARD srv k s = 0"
  shows "passes ttl srv D n (rd_zsets s k) (rd_zsets (DEL key s) k)"
proof (cases "key = k")
  case True
  have "zk_members (zset_at srv (rd_zsets s k)) = []" using assms True by (simp add: ZCARD_zsets)
  then have "passes ttl srv D n (zset_at srv (rd_zsets s k)) noZset" by (auto simp: passes_def)
  moreover have "rd_zsets (DEL key s) k = noZset" using True by (simp add: DEL_def)
  ultimately show ?thesis using passes_trans [OF passes_at [of ttl srv D 0]] by (metis add_0 le_refl)
qed (simp add: zset_frames)

lemma passes_fold:
  assumes "\<And>x s. x \<in> set xs \<Longrightarrow> passes ttl srv D 0 (rd_zsets s k) (rd_zsets (f x s) k)"
  shows "passes ttl srv D n (rd_zsets s k) (rd_zsets (fold f xs s) k)"
  using assms
proof (induction xs arbitrary: s)
  case (Cons x xs)
  have "passes ttl srv D 0 (rd_zsets s k) (rd_zsets (f x s) k)" using Cons.prems by simp
  moreover have "passes ttl srv D n (rd_zsets (f x s) k) (rd_zsets (fold f xs (f x s)) k)"
    using Cons by simp
  ultimately show ?case by (auto intro: passes_trans)
qed simp


lemma zsetNow_at: "zset_at srv (rd_zsets s k) = zsetNow srv k s"
  by (simp add: zsetNow_def)

subsection \<open>The scripts\<close>

text \<open>The slots of a regular key and the leases of a live key count together.\<close>

definition pool_size :: "int \<Rightarrow> gostring \<Rightarrow> gostring \<Rightarrow> redis \<Rightarrow> int" where
  "pool_size srv k l s = ZCARD srv k s + ZCARD srv l s"

lemma ZCARD_size: "ZCARD srv k s = int (zset_size srv (rd_zsets s k))"
  by (simp add: ZCARD_zsets zset_size_def)

definition pool_ok :: "int \<Rightarrow> gostring \<Rightarrow> gostring \<Rightarrow> int \<Rightarrow> int \<Rightarrow> redis \<Rightarrow> bool" where
  "pool_ok ttl k l limit srv s \<longleftrightarrow>
     slot_ok ttl srv (rd_zsets s k) \<and> slot_ok liveLeaseTTLSeconds srv (rd_zsets s l) \<and> pool_size srv k l s \<le> limit"

definition pool_passes ::
  "int \<Rightarrow> gostring \<Rightarrow> gostring \<Rightarrow> int \<Rightarrow> (gostring \<Rightarrow> bool) \<Rightarrow> (gostring \<Rightarrow> bool) \<Rightarrow> int \<Rightarrow> redis \<Rightarrow> redis \<Rightarrow> bool" where
  "pool_passes ttl k l limit D E srv s s' \<longleftrightarrow>
     passes ttl srv D 1 (rd_zsets s k) (rd_zsets s' k) \<and>
     passes liveLeaseTTLSeconds srv E 1 (rd_zsets s l) (rd_zsets s' l) \<and>
     (pool_ok ttl k l limit srv s \<longrightarrow> pool_size srv k l s' \<le> limit)"

lemma passes_more: "passes ttl srv D 0 z z' \<Longrightarrow> passes ttl srv D n z z'"
  by (auto simp: passes_def)

lemma passes_size: "passes ttl srv D n z z' \<Longrightarrow> slot_ok ttl srv z \<Longrightarrow>
    zset_size srv z' \<le> zset_size srv z + n"
  by (simp add: passes_def)

lemma pool_passes_still:
  assumes "passes ttl srv D 0 (rd_zsets s k) (rd_zsets s' k)"
    and "passes liveLeaseTTLSeconds srv E 0 (rd_zsets s l) (rd_zsets s' l)"
  shows "pool_passes ttl k l limit D E srv s s'"
  using assms passes_size [OF assms(1)] passes_size [OF assms(2)]
  by (auto simp: pool_passes_def pool_ok_def pool_size_def ZCARD_size passes_more)

lemma pool_passes_same: "rd_zsets s' k = rd_zsets s k \<Longrightarrow> rd_zsets s' l = rd_zsets s l \<Longrightarrow>
    pool_passes ttl k l limit D E srv s s'"
  by (rule pool_passes_still) simp_all

lemma purge_two:
  assumes "key = k \<Longrightarrow> ttl' = ttl" and "liveKey = k \<Longrightarrow> ttl = 60"
  shows "passes ttl srv D 0 (rd_zsets s k)
     (rd_zsets (ZREMRANGEBYSCORE srv liveKey (unixSeconds srv - 60)
        (ZREMRANGEBYSCORE srv key (unixSeconds srv - ttl') s)) k)"
  by (rule passes_trans [OF passes_ZREMRANGE [where n = 0] passes_ZREMRANGE [where n = 0]]) (use assms in auto)

lemma acquireScript_passes:
  assumes "key = k \<Longrightarrow> ttl' = ttl" and "liveKey = k \<Longrightarrow> ttl = 60" and "0 < ttl" and "key = k \<Longrightarrow> 1 \<le> n"
  shows "passes ttl srv D n (rd_zsets s k) (rd_zsets (snd (acquireScript srv key liveKey mx ttl' req s)) k)"
proof -
  define s2 where "s2 = ZREMRANGEBYSCORE srv liveKey (unixSeconds srv - 60)
        (ZREMRANGEBYSCORE srv key (unixSeconds srv - ttl') s)"
  have p: "passes ttl srv D 0 (rd_zsets s k) (rd_zsets s2 k)"
    unfolding s2_def by (rule purge_two) (use assms in auto)
  have "passes ttl srv D n (rd_zsets s2 k) (rd_zsets (takeSlot srv key ttl' req s2) k)"
    by (rule passes_takeSlot) (use assms in auto)
  then have "passes ttl srv D n (rd_zsets s k) (rd_zsets (takeSlot srv key ttl' req s2) k)"
    using passes_trans [OF p] by force
  then show ?thesis using p by (auto simp: acquireScript_def Let_def passes_more simp flip: s2_def)
qed

text \<open>A slot taken is one more, unless it was there.\<close>

lemma takeSlot_card:
  assumes "0 < ttl"
  shows "ZCARD srv key (takeSlot srv key ttl m s) \<le> ZCARD srv key s + (if ZSCORE srv key m s = None then 1 else 0)"
proof -
  let ?ms = "zk_members (zset_at srv (rd_zsets s key))"
  have "ZCARD srv key (takeSlot srv key ttl m s) \<le> int (length (map_put m (unixSeconds srv) ?ms))"
    using zset_at_length [of srv "rd_zsets (takeSlot srv key ttl m s) key"]
    by (simp add: ZCARD_zsets takeSlot_members [OF assms])
  moreover have "int (length (map_put m (unixSeconds srv) ?ms)) \<le> int (length ?ms) + (if map_get ?ms m = None then 1 else 0)"
    using length_put_le [of m "unixSeconds srv" ?ms] length_put_present [of ?ms m "unixSeconds srv"] by auto
  ultimately show ?thesis by (simp add: ZSCORE_def zsetNow_def ZCARD_zsets)
qed

lemma acquireScript_room:
  assumes "key \<noteq> liveKey" and "0 < ttl" and "mx \<le> limit" and "pool_ok ttl key liveKey limit srv s"
  shows "pool_size srv key liveKey (snd (acquireScript srv key liveKey mx ttl req s)) \<le> limit"
proof -
  define s1 where "s1 = ZREMRANGEBYSCORE srv key (unixSeconds srv - ttl) s"
  define s2 where "s2 = ZREMRANGEBYSCORE srv liveKey (unixSeconds srv - 60) s1"
  have p: "passes ttl srv (\<lambda>_. False) 0 (rd_zsets s key) (rd_zsets s2 key)"
    unfolding s1_def s2_def by (rule purge_two) (use assms in auto)
  have q: "passes 60 srv (\<lambda>_. False) 0 (rd_zsets s liveKey) (rd_zsets s2 liveKey)"
    unfolding s1_def s2_def by (rule purge_two) (use assms(1) in auto)
  have room: "pool_size srv key liveKey s2 \<le> limit"
    using assms(4) passes_size [OF p] passes_size [OF q]
    by (auto simp: pool_ok_def pool_size_def ZCARD_size liveLeaseTTLSeconds_def)
  have l: "ZCARD srv liveKey (takeSlot srv key ttl req s2) = ZCARD srv liveKey s2"
    using assms(1) by (simp add: ZCARD_zsets zset_frames)
  have "pool_size srv key liveKey (takeSlot srv key ttl req s2) \<le> limit" if "ZSCORE srv key req s2 \<noteq> None"
    using that room l takeSlot_card [OF assms(2), of srv key req s2] by (auto simp: pool_size_def)
  moreover have "pool_size srv key liveKey (takeSlot srv key ttl req s2) \<le> limit"
    if "ZCARD srv key s2 + ZCARD srv liveKey s2 < mx"
    using that assms(3) l takeSlot_card [OF assms(2), of srv key req s2] by (simp add: pool_size_def split: if_splits)
  ultimately show ?thesis using room by (simp add: acquireScript_def Let_def flip: s1_def s2_def)
qed

lemma acquireScript_grants:
  assumes "0 < ttl" and "fst (fst (acquireScript srv key liveKey mx ttl req s))"
  shows "map_get (zk_members (rd_zsets (snd (acquireScript srv key liveKey mx ttl req s)) key)) req =
     Some (unixSeconds srv)"
  using assms by (auto simp: acquireScript_def Let_def takeSlot_members split: if_splits)


lemma ZSCORE_frame: "rd_zsets s' k = rd_zsets s k \<Longrightarrow> ZSCORE srv k m s' = ZSCORE srv k m s"
  by (simp add: ZSCORE_def zsetNow_def)

lemma ZCARD_frame: "rd_zsets s' k = rd_zsets s k \<Longrightarrow> ZCARD srv k s' = ZCARD srv k s"
  by (simp add: ZCARD_def zsetNow_def)

subsection \<open>Live leases\<close>

lemma purge_three:
  assumes "\<And>key. key \<in> {x, y, z} \<Longrightarrow> key = k \<Longrightarrow> ttl' = ttl"
  shows "passes ttl srv D 0 (rd_zsets s k)
     (rd_zsets (ZREMRANGEBYSCORE srv z (unixSeconds srv - ttl')
        (ZREMRANGEBYSCORE srv y (unixSeconds srv - ttl') (ZREMRANGEBYSCORE srv x (unixSeconds srv - ttl') s))) k)"
  by (rule passes_trans [OF passes_trans [OF passes_ZREMRANGE [where n = 0] passes_ZREMRANGE [where n = 0]]
        passes_ZREMRANGE [where n = 0]]) (use assms in auto)

lemma acquireLive_passes:
  assumes "k \<in> {al, ul, pl} \<Longrightarrow> ttl' = ttl" and "distinct [al, ul, pl]" and "0 < ttl"
  shows "passes ttl srv D 1 (rd_zsets s k)
     (rd_zsets (snd (acquireLiveLeaseScript srv ar al ur ul pl am um ttl' lease repl s)) k)"
proof -
  define s3 where "s3 = ZREMRANGEBYSCORE srv pl (unixSeconds srv - ttl')
        (ZREMRANGEBYSCORE srv ul (unixSeconds srv - ttl') (ZREMRANGEBYSCORE srv al (unixSeconds srv - ttl') s))"
  define s4 where "s4 = takeSlot srv pl ttl' lease (takeSlot srv ul ttl' lease (takeSlot srv al ttl' lease s3))"
  have p: "passes ttl srv D 0 (rd_zsets s k) (rd_zsets s3 k)"
    unfolding s3_def by (rule purge_three) (use assms(1) in auto)
  have one: "passes ttl srv D 1 (rd_zsets s' k) (rd_zsets (takeSlot srv k ttl' lease s') k)"
    if "k \<in> {al, ul, pl}" for s'
    by (rule passes_takeSlot) (use assms that in auto)
  have "passes ttl srv D 1 (rd_zsets s3 k) (rd_zsets s4 k)"
  proof (cases "k \<in> {al, ul, pl}")
    case True
    then consider "k = al" | "k = ul" | "k = pl" by auto
    then show ?thesis
    proof cases
      case 1
      then have "rd_zsets s4 k = rd_zsets (takeSlot srv k ttl' lease s3) k"
        using assms(2) by (simp add: s4_def zset_frames)
      then show ?thesis using one [OF True] by simp
    next
      case 2
      then have "rd_zsets s4 k = rd_zsets (takeSlot srv k ttl' lease (takeSlot srv al ttl' lease s3)) k"
        using assms(2) by (simp add: s4_def zset_frames)
      moreover have "k \<noteq> al" using 2 assms(2) by auto
      then have "rd_zsets (takeSlot srv al ttl' lease s3) k = rd_zsets s3 k" by (simp add: zset_frames)
      ultimately show ?thesis using one [OF True, of "takeSlot srv al ttl' lease s3"] by simp
    next
      case 3
      let ?s = "takeSlot srv ul ttl' lease (takeSlot srv al ttl' lease s3)"
      have "k \<noteq> al" "k \<noteq> ul" using 3 assms(2) by auto
      then have "rd_zsets ?s k = rd_zsets s3 k" by (simp add: zset_frames)
      then show ?thesis using one [OF True, of ?s] 3 by (simp add: s4_def)
    qed
  next
    case False
    then show ?thesis by (simp add: s4_def zset_frames)
  qed
  then have q: "passes ttl srv D 1 (rd_zsets s k) (rd_zsets s4 k)" by (rule passes_trans [OF p]) simp
  have "snd (acquireLiveLeaseScript srv ar al ur ul pl am um ttl' lease repl s) = s3 \<or>
      snd (acquireLiveLeaseScript srv ar al ur ul pl am um ttl' lease repl s) = s4"
    by (simp add: acquireLiveLeaseScript_def Let_def flip: s3_def s4_def)
  then show ?thesis using q passes_more [OF p, of 1] by auto
qed

lemma acquireLive_room:
  assumes "distinct [al, ul, pl]" and "{ar, ur} \<inter> {al, ul, pl} = {}" and "l \<in> {al, ul}"
    and "k = (if l = al then ar else ur)" and "m = (if l = al then am else um)"
    and "0 < m" and "m + (if repl = 1 then 1 else 0) \<le> limit"
    and "pool_ok ttl k l limit srv s"
  shows "pool_size srv k l (snd (acquireLiveLeaseScript srv ar al ur ul pl am um liveLeaseTTLSeconds lease repl s)) \<le> limit"
proof -
  let ?t = liveLeaseTTLSeconds
  define s3 where "s3 = ZREMRANGEBYSCORE srv pl (unixSeconds srv - ?t)
        (ZREMRANGEBYSCORE srv ul (unixSeconds srv - ?t) (ZREMRANGEBYSCORE srv al (unixSeconds srv - ?t) s))"
  define s4 where "s4 = takeSlot srv pl ?t lease (takeSlot srv ul ?t lease (takeSlot srv al ?t lease s3))"
  have k: "k \<notin> {al, ul, pl}" using assms(2,4) by auto
  have "passes ?t srv (\<lambda>_. False) 0 (rd_zsets s l) (rd_zsets s3 l)"
    unfolding s3_def by (rule purge_three) simp
  moreover have "rd_zsets s3 k = rd_zsets s k" using k by (simp add: s3_def zset_frames)
  ultimately have room: "pool_size srv k l s3 \<le> limit"
    using assms(8) passes_size by (fastforce simp: pool_ok_def pool_size_def ZCARD_size)
  have "rd_zsets s4 k = rd_zsets s3 k" using k by (simp add: s4_def zset_frames)
  then have kc: "ZCARD srv k s4 = ZCARD srv k s3" by (rule ZCARD_frame)
  have "\<exists>s'. rd_zsets s' l = rd_zsets s3 l \<and> rd_zsets s4 l = rd_zsets (takeSlot srv l ?t lease s') l"
  proof (cases "l = al")
    case True
    then show ?thesis using assms(1) by (intro exI [of _ s3]) (simp add: s4_def zset_frames)
  next
    case False
    then show ?thesis using assms(1,3)
      by (intro exI [of _ "takeSlot srv al ?t lease s3"]) (auto simp: s4_def zset_frames)
  qed
  then obtain s' where s': "rd_zsets s' l = rd_zsets s3 l" "rd_zsets s4 l = rd_zsets (takeSlot srv l ?t lease s') l"
    by auto
  have "ZCARD srv l s4 \<le> ZCARD srv l s' + 1"
    using takeSlot_card [of ?t srv l lease s'] ZCARD_frame [OF s'(2), of srv]
    by (auto simp: liveLeaseTTLSeconds_def split: if_splits)
  then have lc: "ZCARD srv l s4 \<le> ZCARD srv l s3 + 1" using ZCARD_frame [OF s'(1), of srv] by simp
  have "pool_size srv k l s4 \<le> limit"
    if "\<not> (0 < am \<and> am + (if repl = 1 then 1 else 0) \<le> ZCARD srv ar s3 + ZCARD srv al s3)"
      "\<not> (0 < um \<and> um + (if repl = 1 then 1 else 0) \<le> ZCARD srv ur s3 + ZCARD srv ul s3)"
    using that kc lc assms(1,3-7) by (auto simp: pool_size_def)
  then show ?thesis using room by (auto simp: acquireLiveLeaseScript_def Let_def simp flip: s3_def s4_def)
qed

lemma acquireLive_grants:
  assumes "distinct [al, ul, pl]" and "l \<in> {al, ul}" and "0 < ttl"
    and "ZSCORE srv al lease (ZREMRANGEBYSCORE srv al (unixSeconds srv - ttl) s) = None"
    and "fst (acquireLiveLeaseScript srv ar al ur ul pl am um ttl lease repl s)"
  shows "map_get (zk_members (rd_zsets (snd (acquireLiveLeaseScript srv ar al ur ul pl am um ttl lease repl s)) l)) lease =
     Some (unixSeconds srv)"
proof -
  have "ZSCORE srv al lease (ZREMRANGEBYSCORE srv pl (unixSeconds srv - ttl)
        (ZREMRANGEBYSCORE srv ul (unixSeconds srv - ttl) (ZREMRANGEBYSCORE srv al (unixSeconds srv - ttl) s))) = None"
    using assms(1,4) by (simp add: ZSCORE_def zsetNow_def zset_frames)
  then show ?thesis
    using assms(1-3,5) by (auto simp: acquireLiveLeaseScript_def Let_def takeSlot_members zset_frames split: if_splits)
qed

lemma leaseHeld_passes:
  assumes "k \<in> set keys \<Longrightarrow> cutoff \<le> unixSeconds srv - ttl"
  shows "passes ttl srv D 0 (rd_zsets s k) (rd_zsets (snd (leaseHeld srv cutoff lease keys s)) k)"
  using assms
proof (induction keys arbitrary: s)
  case (Cons key keys)
  let ?s = "ZREMRANGEBYSCORE srv key cutoff s"
  have p: "passes ttl srv D 0 (rd_zsets s k) (rd_zsets ?s k)" using Cons.prems by (intro passes_ZREMRANGE) auto
  moreover have "passes ttl srv D 0 (rd_zsets ?s k) (rd_zsets (snd (leaseHeld srv cutoff lease keys ?s)) k)"
    using Cons by simp
  ultimately show ?case using passes_trans [OF p] by (auto simp: Let_def)
qed simp

lemma leaseHeld_frame: "k \<notin> set keys \<Longrightarrow> rd_zsets (snd (leaseHeld srv cutoff lease keys s)) k = rd_zsets s k"
  by (induction keys arbitrary: s) (auto simp: Let_def zset_frames)

lemma leaseHeld_present:
  "leaseHeld srv cutoff lease keys s = (True, s') \<Longrightarrow> distinct keys \<Longrightarrow> key \<in> set keys \<Longrightarrow>
    ZSCORE srv key lease s' \<noteq> None"
proof (induction keys arbitrary: s)
  case (Cons k keys)
  let ?s = "ZREMRANGEBYSCORE srv k cutoff s"
  have held: "ZSCORE srv k lease ?s \<noteq> None" "leaseHeld srv cutoff lease keys ?s = (True, s')"
    using Cons.prems(1) by (auto simp: Let_def split: if_splits)
  show ?case
  proof (cases "key = k")
    case True
    then have "rd_zsets s' k = rd_zsets ?s k"
      using leaseHeld_frame [of k keys srv cutoff lease ?s] held(2) Cons.prems(2) by simp
    then show ?thesis using held(1) True ZSCORE_frame [of s' k ?s srv lease] by simp
  next
    case False
    then show ?thesis using Cons.IH [OF held(2)] Cons.prems by simp
  qed
qed simp

lemma fold_take:
  assumes "distinct keys" and "\<And>key. key \<in> set keys \<Longrightarrow> ZSCORE srv key lease s \<noteq> None"
    and "k \<in> set keys \<Longrightarrow> ttl' = ttl" and "0 < ttl"
  shows "passes ttl srv D 0 (rd_zsets s k) (rd_zsets (fold (\<lambda>key. takeSlot srv key ttl' lease) keys s) k)"
  using assms
proof (induction keys arbitrary: s)
  case (Cons key keys)
  let ?s = "takeSlot srv key ttl' lease s"
  have p: "passes ttl srv D 0 (rd_zsets s k) (rd_zsets ?s k)"
    using Cons.prems(2) [of key] Cons.prems(3,4) by (intro passes_takeSlot) auto
  have "ZSCORE srv x lease ?s \<noteq> None" if "x \<in> set keys" for x
  proof -
    have "x \<noteq> key" using that Cons.prems(1) by auto
    then have "ZSCORE srv x lease ?s = ZSCORE srv x lease s" by (intro ZSCORE_frame) (simp add: zset_frames)
    then show ?thesis using that Cons.prems(2) [of x] by simp
  qed
  then have "passes ttl srv D 0 (rd_zsets ?s k) (rd_zsets (fold (\<lambda>key. takeSlot srv key ttl' lease) keys ?s) k)"
    using Cons by simp
  then show ?case using passes_trans [OF p] by simp
qed simp

lemma fold_take_frame: "k \<notin> set keys \<Longrightarrow>
    rd_zsets (fold (\<lambda>key. takeSlot srv key ttl lease) keys s) k = rd_zsets s k"
  by (induction keys arbitrary: s) (auto simp: zset_frames)

lemma fold_take_grants: "distinct keys \<Longrightarrow> k \<in> set keys \<Longrightarrow> 0 < ttl \<Longrightarrow>
    map_get (zk_members (rd_zsets (fold (\<lambda>key. takeSlot srv key ttl lease) keys s) k)) lease = Some (unixSeconds srv)"
  by (induction keys arbitrary: s) (auto simp: fold_take_frame takeSlot_members)

lemma refreshLive_passes:
  assumes "distinct keys" and "k \<in> set keys \<Longrightarrow> ttl' = ttl" and "0 < ttl"
  shows "passes ttl srv D 0 (rd_zsets s k) (rd_zsets (snd (refreshLiveLeaseScript srv keys ttl' lease s)) k)"
proof -
  obtain held s1 where h: "leaseHeld srv (unixSeconds srv - ttl') lease keys s = (held, s1)" by fastforce
  have p: "passes ttl srv D 0 (rd_zsets s k) (rd_zsets s1 k)"
    using leaseHeld_passes [of k keys "unixSeconds srv - ttl'" srv ttl D s lease] assms(2) h by auto
  have "held \<Longrightarrow> passes ttl srv D 0 (rd_zsets s1 k)
      (rd_zsets (fold (\<lambda>key. takeSlot srv key ttl' lease) keys s1) k)"
    using leaseHeld_present [of srv _ lease keys s s1] h assms by (intro fold_take) auto
  then show ?thesis using p passes_trans [OF p] by (cases held) (auto simp: refreshLiveLeaseScript_def h)
qed

lemma refreshLive_grants:
  assumes "distinct keys" and "k \<in> set keys" and "0 < ttl" and "fst (refreshLiveLeaseScript srv keys ttl lease s)"
  shows "map_get (zk_members (rd_zsets (snd (refreshLiveLeaseScript srv keys ttl lease s)) k)) lease = Some (unixSeconds srv)"
  using assms by (auto simp: refreshLiveLeaseScript_def fold_take_grants split: prod.splits bool.splits)

subsection \<open>Later times\<close>

lemma zset_size_later: "srv \<le> srv' \<Longrightarrow> zset_size srv' z \<le> zset_size srv z"
  by (auto simp: zset_size_def zset_at_def split: option.split)

text \<open>The holders that have not lapsed are among those the server sees.\<close>

lemma alive_size:
  assumes "slot_ok ttl srv z"
  shows "length (filter (\<lambda>(m, t). unixSeconds srv - t < ttl) (zk_members z)) \<le> zset_size srv z"
proof (cases "filter (\<lambda>(m, t). unixSeconds srv - t < ttl) (zk_members z) = []")
  case False
  then obtain m t where m: "(m, t) \<in> set (zk_members z)" "unixSeconds srv - t < ttl"
    by (auto simp: filter_empty_conv)
  have "map_get (zk_members z) m = Some t" using assms m(1) by (simp add: slot_ok_def map_wf_def)
  then have "zset_at srv z = z" using zset_at_alive [OF assms _ m(2)] by simp
  then show ?thesis by (simp add: zset_size_def)
qed simp

end
