(* ===== verification/SlotRuns.thy ===== *)
theory SlotRuns
  imports SlotProofs
begin

text \<open>
  All operations of the concurrency cache as one step relation, and the theorems about any
  sequence of them: accounts, users and the connections of an API key stay within their limits,
  and so do the queues of waiting requests.
\<close>

subsection \<open>Operations\<close>

datatype slot_op =
  AcquireAccount int int gostring
  | ReleaseAccount int gostring
  | AcquireUser int int gostring
  | ReleaseUser int gostring
  | TrackKey int gostring
  | ReleaseKey int gostring
  | AcquireIngress int int gostring
  | RefreshIngress int gostring
  | ReleaseIngress int gostring
  | AcquireLive int int int int int gostring bool
  | RefreshLive int int int gostring
  | ReleaseLive int int int gostring
  | WaitUser int int
  | LeaveUser int
  | WaitAccount int int
  | LeaveAccount int
  | CountAccount int
  | CountUser int
  | CountAccounts "int list"
  | CountKeys "int list"
  | LoadAccounts "WithConcurrency list"
  | LoadUsers "WithConcurrency list"
  | CleanAccount int
  | CleanIndices
  | Startup gostring

fun slot_step :: "concurrencyCache \<Rightarrow> int \<Rightarrow> slot_op \<Rightarrow> redis \<Rightarrow> bool \<times> redis" where
  "slot_step c srv (AcquireAccount a mx r) s = AcquireAccountSlot c srv a mx r s"
| "slot_step c srv (ReleaseAccount a r) s = (True, ReleaseAccountSlot c srv a r s)"
| "slot_step c srv (AcquireUser u mx r) s = AcquireUserSlot c srv u mx r s"
| "slot_step c srv (ReleaseUser u r) s = (True, ReleaseUserSlot c srv u r s)"
| "slot_step c srv (TrackKey i r) s = (True, TrackAPIKeySlot c srv i r s)"
| "slot_step c srv (ReleaseKey i r) s = (True, ReleaseAPIKeySlot srv i r s)"
| "slot_step c srv (AcquireIngress i mx l) s = AcquireOpenAIWSIngressLease srv i mx l s"
| "slot_step c srv (RefreshIngress i l) s = RefreshOpenAIWSIngressLease srv i l s"
| "slot_step c srv (ReleaseIngress i l) s = (True, ReleaseOpenAIWSIngressLease srv i l s)"
| "slot_step c srv (AcquireLive a am u um i l repl) s = AcquireLiveLease srv a am u um i l repl s"
| "slot_step c srv (RefreshLive a u i l) s = RefreshLiveLease srv a u i l s"
| "slot_step c srv (ReleaseLive a u i l) s = (True, ReleaseLiveLease srv a u i l s)"
| "slot_step c srv (WaitUser u mx) s = IncrementWaitCount c srv u mx s"
| "slot_step c srv (LeaveUser u) s = (True, DecrementWaitCount c srv u s)"
| "slot_step c srv (WaitAccount a mx) s = IncrementAccountWaitCount c srv a mx s"
| "slot_step c srv (LeaveAccount a) s = (True, DecrementAccountWaitCount c srv a s)"
| "slot_step c srv (CountAccount a) s = (True, snd (GetAccountConcurrency c srv a s))"
| "slot_step c srv (CountUser u) s = (True, snd (GetUserConcurrency c srv u s))"
| "slot_step c srv (CountAccounts as) s = (True, snd (GetAccountConcurrencyBatch c srv as s))"
| "slot_step c srv (CountKeys is) s = (True, snd (GetAPIKeyConcurrencyBatch c srv is s))"
| "slot_step c srv (LoadAccounts as) s = (True, snd (GetAccountsLoadBatch c srv as s))"
| "slot_step c srv (LoadUsers us) s = (True, snd (GetUsersLoadBatch c srv us s))"
| "slot_step c srv (CleanAccount a) s = (True, CleanupExpiredAccountSlots c srv a s)"
| "slot_step c srv CleanIndices s = (True, CleanupExpiredAccountSlotKeys c srv s)"
| "slot_step c srv (Startup p) s = (True, CleanupStaleProcessSlots c srv p s)"

subsection \<open>Keys do not meet\<close>

lemmas slot_prefixes = accountSlotKeyPrefix_def userSlotKeyPrefix_def apiKeySlotKeyPrefix_def
  liveAccountSlotKeyPrefix_def liveUserSlotKeyPrefix_def liveAPIKeySlotKeyPrefix_def
  openAIWSIngressLeaseKeyPrefix_def waitQueueKeyPrefix_def accountWaitKeyPrefix_def
  accountActiveIndexKey_def userActiveIndexKey_def

lemmas slot_keys = accountSlotKey_def userSlotKey_def apiKeySlotKey_def liveAccountSlotKey_def
  liveUserSlotKey_def liveAPIKeySlotKey_def openAIWSIngressLeaseKey_def waitQueueKey_def accountWaitKey_def

lemma itoa_not_active [simp]: "itoa i \<noteq> ''active_index''"
  by (rule itoa_not_word) (simp_all add: decimal_char_def)

lemma account_keys [simp]:
  "accountSlotKey a = accountSlotKey b \<longleftrightarrow> a = b" "accountSlotKey a \<noteq> userSlotKey b"
  "accountSlotKey a \<noteq> apiKeySlotKey b" "accountSlotKey a \<noteq> liveAccountSlotKey b"
  "accountSlotKey a \<noteq> liveUserSlotKey b" "accountSlotKey a \<noteq> liveAPIKeySlotKey b"
  "accountSlotKey a \<noteq> openAIWSIngressLeaseKey b" "accountSlotKey a \<noteq> accountActiveIndexKey"
  "accountSlotKey a \<noteq> userActiveIndexKey"
  by (simp_all add: slot_keys slot_prefixes)

lemma user_keys [simp]:
  "userSlotKey a = userSlotKey b \<longleftrightarrow> a = b" "userSlotKey a \<noteq> accountSlotKey b"
  "userSlotKey a \<noteq> apiKeySlotKey b" "userSlotKey a \<noteq> liveAccountSlotKey b"
  "userSlotKey a \<noteq> liveUserSlotKey b" "userSlotKey a \<noteq> liveAPIKeySlotKey b"
  "userSlotKey a \<noteq> openAIWSIngressLeaseKey b" "userSlotKey a \<noteq> accountActiveIndexKey"
  "userSlotKey a \<noteq> userActiveIndexKey"
  by (simp_all add: slot_keys slot_prefixes)

lemma live_account_keys [simp]:
  "liveAccountSlotKey a = liveAccountSlotKey b \<longleftrightarrow> a = b" "liveAccountSlotKey a \<noteq> accountSlotKey b"
  "liveAccountSlotKey a \<noteq> userSlotKey b" "liveAccountSlotKey a \<noteq> apiKeySlotKey b"
  "liveAccountSlotKey a \<noteq> liveUserSlotKey b" "liveAccountSlotKey a \<noteq> liveAPIKeySlotKey b"
  "liveAccountSlotKey a \<noteq> openAIWSIngressLeaseKey b" "liveAccountSlotKey a \<noteq> accountActiveIndexKey"
  "liveAccountSlotKey a \<noteq> userActiveIndexKey"
  by (simp_all add: slot_keys slot_prefixes)

lemma live_user_keys [simp]:
  "liveUserSlotKey a = liveUserSlotKey b \<longleftrightarrow> a = b" "liveUserSlotKey a \<noteq> accountSlotKey b"
  "liveUserSlotKey a \<noteq> userSlotKey b" "liveUserSlotKey a \<noteq> apiKeySlotKey b"
  "liveUserSlotKey a \<noteq> liveAccountSlotKey b" "liveUserSlotKey a \<noteq> liveAPIKeySlotKey b"
  "liveUserSlotKey a \<noteq> openAIWSIngressLeaseKey b" "liveUserSlotKey a \<noteq> accountActiveIndexKey"
  "liveUserSlotKey a \<noteq> userActiveIndexKey"
  by (simp_all add: slot_keys slot_prefixes)

lemma ingress_keys [simp]:
  "openAIWSIngressLeaseKey a = openAIWSIngressLeaseKey b \<longleftrightarrow> a = b"
  "openAIWSIngressLeaseKey a \<noteq> accountSlotKey b" "openAIWSIngressLeaseKey a \<noteq> userSlotKey b"
  "openAIWSIngressLeaseKey a \<noteq> apiKeySlotKey b" "openAIWSIngressLeaseKey a \<noteq> liveAccountSlotKey b"
  "openAIWSIngressLeaseKey a \<noteq> liveUserSlotKey b" "openAIWSIngressLeaseKey a \<noteq> liveAPIKeySlotKey b"
  "openAIWSIngressLeaseKey a \<noteq> accountActiveIndexKey" "openAIWSIngressLeaseKey a \<noteq> userActiveIndexKey"
  by (simp_all add: slot_keys slot_prefixes)

lemma api_keys [simp]:
  "apiKeySlotKey a \<noteq> accountSlotKey b" "apiKeySlotKey a \<noteq> userSlotKey b"
  "apiKeySlotKey a \<noteq> liveAccountSlotKey b" "apiKeySlotKey a \<noteq> liveUserSlotKey b"
  "apiKeySlotKey a \<noteq> openAIWSIngressLeaseKey b" "liveAPIKeySlotKey a \<noteq> accountSlotKey b"
  "liveAPIKeySlotKey a \<noteq> userSlotKey b" "liveAPIKeySlotKey a \<noteq> liveAccountSlotKey b"
  "liveAPIKeySlotKey a \<noteq> liveUserSlotKey b" "liveAPIKeySlotKey a \<noteq> openAIWSIngressLeaseKey b"
  by (simp_all add: slot_keys slot_prefixes)

lemma wait_keys [simp]:
  "accountWaitKey a \<noteq> accountSlotKey b" "accountWaitKey a \<noteq> userSlotKey b"
  "accountWaitKey a \<noteq> liveAccountSlotKey b" "accountWaitKey a \<noteq> liveUserSlotKey b"
  "accountWaitKey a \<noteq> openAIWSIngressLeaseKey b" "waitQueueKey a \<noteq> accountSlotKey b"
  "waitQueueKey a \<noteq> userSlotKey b" "waitQueueKey a \<noteq> liveAccountSlotKey b"
  "waitQueueKey a \<noteq> liveUserSlotKey b" "waitQueueKey a \<noteq> openAIWSIngressLeaseKey b"
  by (simp_all add: slot_keys slot_prefixes)

lemma live_lease_keys_distinct: "distinct (liveLeaseKeys a u i)"
proof -
  have "liveLeaseKeys a u i = [liveAccountSlotKey a, liveUserSlotKey u, liveAPIKeySlotKey i]"
    by (simp add: liveLeaseKeys_def)
  then show ?thesis by simp
qed


subsection \<open>What an operation does to a key\<close>

text \<open>\<open>pool_key\<close>: the members of the key live for \<open>ttl\<close> seconds, whatever operation reads it.\<close>

definition pool_key :: "concurrencyCache \<Rightarrow> gostring \<Rightarrow> int \<Rightarrow> bool" where
  "pool_key c k ttl \<longleftrightarrow> 0 < ttl \<and> k \<noteq> accountActiveIndexKey \<and> k \<noteq> userActiveIndexKey \<and>
     (\<forall>i. accountWaitKey i \<noteq> k \<and> waitQueueKey i \<noteq> k) \<and>
     (\<forall>i. accountSlotKey i = k \<or> userSlotKey i = k \<or> apiKeySlotKey i = k \<longrightarrow> slotTTLSeconds c = ttl) \<and>
     (\<forall>i. liveAccountSlotKey i = k \<or> liveUserSlotKey i = k \<or> liveAPIKeySlotKey i = k \<or>
          openAIWSIngressLeaseKey i = k \<longrightarrow> ttl = 60)"

fun removes :: "slot_op \<Rightarrow> gostring \<Rightarrow> gostring \<Rightarrow> bool" where
  "removes (ReleaseAccount a r) k m \<longleftrightarrow> accountSlotKey a = k \<and> m = r"
| "removes (ReleaseUser u r) k m \<longleftrightarrow> userSlotKey u = k \<and> m = r"
| "removes (ReleaseKey i r) k m \<longleftrightarrow> apiKeySlotKey i = k \<and> m = r"
| "removes (ReleaseIngress i l) k m \<longleftrightarrow> openAIWSIngressLeaseKey i = k \<and> m = l"
| "removes (ReleaseLive a u i l) k m \<longleftrightarrow> k \<in> set (liveLeaseKeys a u i) \<and> m = l"
| "removes (Startup p) k m \<longleftrightarrow> p \<noteq> [] \<and> \<not> has_prefix m p"
| "removes op k m \<longleftrightarrow> False"

fun grows :: "slot_op \<Rightarrow> gostring \<Rightarrow> bool" where
  "grows (AcquireAccount a mx r) k \<longleftrightarrow> accountSlotKey a = k"
| "grows (AcquireUser u mx r) k \<longleftrightarrow> userSlotKey u = k"
| "grows (TrackKey i r) k \<longleftrightarrow> apiKeySlotKey i = k"
| "grows (AcquireIngress i mx l) k \<longleftrightarrow> openAIWSIngressLeaseKey i = k"
| "grows (AcquireLive a am u um i l repl) k \<longleftrightarrow> k \<in> set (liveLeaseKeys a u i)"
| "grows op k \<longleftrightarrow> False"

lemma readLoad_passes:
  assumes "slotKey = k \<Longrightarrow> slotTTLSeconds c = ttl"
  shows "passes ttl srv D 0 (rd_zsets s k) (rd_zsets (snd (readActiveLoadForKey c srv m slotKey waitKey s)) k)"
  using assms by (auto simp: readActiveLoadForKey_def Let_def intro: passes_ZREMRANGE)

lemma refreshIndex_passes:
  assumes "k \<noteq> indexKey" and "slotKey = k \<Longrightarrow> slotTTLSeconds c = ttl"
  shows "passes ttl srv D 0 (rd_zsets s k) (rd_zsets (refreshActiveIndex c srv indexKey i slotKey waitKey s) k)"
proof -
  obtain load s1 where l: "readActiveLoadForKey c srv (itoa i) slotKey waitKey s = (load, s1)" by fastforce
  have "passes ttl srv D 0 (rd_zsets s k)
      (rd_zsets (snd (readActiveLoadForKey c srv (itoa i) slotKey waitKey s)) k)"
    by (rule readLoad_passes) (use assms(2) in auto)
  then have "passes ttl srv D 0 (rd_zsets s k) (rd_zsets s1 k)" using l by simp
  then show ?thesis using assms(1) by (simp add: refreshActiveIndex_def Let_def l zset_frames)
qed

lemma countSlots_passes:
  assumes "slotKey = k \<Longrightarrow> slotTTLSeconds c = ttl" and "liveKey = k \<Longrightarrow> ttl = 60"
  shows "passes ttl srv D 0 (rd_zsets s k) (rd_zsets (snd (countSlots c srv slotKey liveKey s)) k)"
  using purge_two [of slotKey k "slotTTLSeconds c" ttl liveKey srv D s] assms
  by (auto simp: countSlots_def Let_def liveLeaseTTLSeconds_def)

lemma count_fold_passes:
  assumes "\<And>x. slotKey x = k \<Longrightarrow> slotTTLSeconds c = ttl" and "\<And>x. liveKey x = k \<Longrightarrow> ttl = 60"
  shows "passes ttl srv D 0 (rd_zsets s k)
     (rd_zsets (snd (fold (\<lambda>x (result, s). case countSlots c srv (slotKey x) (liveKey x) s of
        (n, s1) \<Rightarrow> (g x n s1 result, s1)) xs (r, s))) k)"
proof (induction xs arbitrary: r s)
  case (Cons x xs)
  obtain n s1 where c: "countSlots c srv (slotKey x) (liveKey x) s = (n, s1)" by fastforce
  have "passes ttl srv D 0 (rd_zsets s k) (rd_zsets (snd (countSlots c srv (slotKey x) (liveKey x) s)) k)"
    by (rule countSlots_passes) (use assms in auto)
  then have p: "passes ttl srv D 0 (rd_zsets s k) (rd_zsets s1 k)" using c by simp
  show ?case using passes_trans [OF p Cons.IH [of s1 "g x n s1 r"]] c by simp
qed simp

lemma readIndexLoads_passes:
  assumes "\<And>i. si_slotKey spec i = k \<Longrightarrow> slotTTLSeconds c = ttl"
  shows "passes ttl srv D 0 (rd_zsets s k) (rd_zsets (snd (readIndexLoads c srv spec members s)) k)"
proof (induction members arbitrary: s)
  case (Cons m members)
  show ?case
  proof (cases "indexId m")
    case None
    obtain loads stale s2 where "readIndexLoads c srv spec members s = ((loads, stale), s2)" by (metis prod.exhaust)
    then show ?thesis using Cons.IH [of s] None by simp
  next
    case (Some i)
    obtain load s1 where l: "readActiveLoadForKey c srv m (si_slotKey spec i) (si_waitKey spec i) s = (load, s1)"
      by fastforce
    obtain loads stale s2 where r: "readIndexLoads c srv spec members s1 = ((loads, stale), s2)"
      by (metis prod.exhaust)
    have "passes ttl srv D 0 (rd_zsets s k)
        (rd_zsets (snd (readActiveLoadForKey c srv m (si_slotKey spec i) (si_waitKey spec i) s)) k)"
      by (rule readLoad_passes) (use assms in auto)
    then have p: "passes ttl srv D 0 (rd_zsets s k) (rd_zsets s1 k)" using l by simp
    show ?thesis using passes_trans [OF p Cons.IH [of s1]] Some l r by simp
  qed
qed simp

lemma fold_frame: "(\<And>x s. rd_zsets (f x s) k = rd_zsets s k) \<Longrightarrow> rd_zsets (fold f xs s) k = rd_zsets s k"
  by (induction xs arbitrary: s) simp_all

lemma reconcile_passes:
  assumes "k \<noteq> si_indexKey spec" and "\<And>i. si_slotKey spec i = k \<Longrightarrow> slotTTLSeconds c = ttl"
  shows "passes ttl srv D 0 (rd_zsets s k) (rd_zsets (reconcileExpiredIndexCandidates c srv spec s) k)"
proof -
  let ?ms = "ZRANGEBYSCORE srv (si_indexKey spec) (unixSeconds srv) activeIndexCleanupBatchSize s"
  obtain loads stale s1 where r: "readIndexLoads c srv spec ?ms s = ((loads, stale), s1)" by (metis prod.exhaust)
  have "passes ttl srv D 0 (rd_zsets s k) (rd_zsets (snd (readIndexLoads c srv spec ?ms s)) k)"
    by (rule readIndexLoads_passes) (use assms(2) in auto)
  then show ?thesis using assms(1) r
    by (simp add: reconcileExpiredIndexCandidates_def removeActiveIndexMembers_def Let_def fold_frame zset_frames)
qed

lemma startupScript_passes:
  assumes "key = k \<Longrightarrow> slotTTL = ttl" and "\<And>m. \<not> has_prefix m p \<Longrightarrow> D m" and "0 < ttl"
  shows "passes ttl srv D 0 (rd_zsets s k) (rd_zsets (snd (startupCleanupSlotScript srv key p slotTTL s)) k)"
proof -
  define s1 where "s1 = fold (ZREM srv key) (filter (\<lambda>m. \<not> has_prefix m p) (ZRANGE srv key s)) s"
  have q: "passes ttl srv D 0 (rd_zsets s k) (rd_zsets s1 k)"
    unfolding s1_def using assms(2) by (intro passes_fold passes_ZREM) auto
  have "passes ttl srv D 0 (rd_zsets s1 k) (rd_zsets (if ZCARD srv key s1 = 0 then DEL key s1 else EXPIRE srv key slotTTL s1) k)"
  proof (cases "ZCARD srv key s1 = 0")
    case True
    then have "passes ttl srv D 0 (rd_zsets s1 k) (rd_zsets (DEL key s1) k)" by (intro passes_DEL) auto
    then show ?thesis using True by simp
  next
    case False
    have "passes ttl srv D 0 (rd_zsets s1 k) (rd_zsets (EXPIRE srv key slotTTL s1) k)"
      using assms by (intro passes_EXPIRE) auto
    then show ?thesis using False by simp
  qed
  then have "passes ttl srv D 0 (rd_zsets s k) (rd_zsets (if ZCARD srv key s1 = 0 then DEL key s1 else EXPIRE srv key slotTTL s1) k)"
    by (rule passes_trans [OF q]) simp
  then show ?thesis by (simp only: startupCleanupSlotScript_def Let_def snd_conv flip: s1_def)
qed

lemma cleanupStale_passes:
  assumes "\<And>i. si_slotKey spec i = k \<Longrightarrow> slotTTLSeconds c = ttl" and "\<And>i. si_waitKey spec i \<noteq> k"
    and "\<And>m. \<not> has_prefix m p \<Longrightarrow> D m" and "0 < ttl"
  shows "passes ttl srv D 0 (rd_zsets s k) (rd_zsets (snd (cleanupStaleMembers c srv spec p members s)) k)"
proof (induction members arbitrary: s)
  case (Cons m members)
  show ?case
  proof (cases "indexId m")
    case None
    obtain kept stale s2 where "cleanupStaleMembers c srv spec p members s = ((kept, stale), s2)" by (metis prod.exhaust)
    then show ?thesis using Cons.IH [of s] None by simp
  next
    case (Some i)
    obtain n r s1 where l: "startupCleanupSlotScript srv (si_slotKey spec i) p (slotTTLSeconds c) s = ((n, r), s1)"
      by (metis prod.exhaust)
    let ?s1 = "DEL (si_waitKey spec i) s1"
    obtain kept stale s2 where c: "cleanupStaleMembers c srv spec p members ?s1 = ((kept, stale), s2)"
      by (metis prod.exhaust)
    have "passes ttl srv D 0 (rd_zsets s k)
        (rd_zsets (snd (startupCleanupSlotScript srv (si_slotKey spec i) p (slotTTLSeconds c) s)) k)"
      by (rule startupScript_passes) (use assms in auto)
    then have q: "passes ttl srv D 0 (rd_zsets s k) (rd_zsets s1 k)" using l by simp
    have "k \<noteq> si_waitKey spec i" using assms(2) [of i] by simp
    then have "rd_zsets ?s1 k = rd_zsets s1 k" by (simp add: zset_frames)
    then show ?thesis using passes_trans [OF q] Cons.IH [of ?s1] Some l c by simp
  qed
qed simp

lemma cleanupStaleIndex_passes:
  assumes "k \<noteq> si_indexKey spec" and "\<And>i. si_slotKey spec i = k \<Longrightarrow> slotTTLSeconds c = ttl"
    and "\<And>i. si_waitKey spec i \<noteq> k" and "\<And>m. \<not> has_prefix m p \<Longrightarrow> D m" and "0 < ttl"
  shows "passes ttl srv D 0 (rd_zsets s k) (rd_zsets (cleanupStaleProcessSlotsForIndex c srv spec p s) k)"
proof -
  obtain kept stale s1 where c: "cleanupStaleMembers c srv spec p (ZRANGE srv (si_indexKey spec) s) s = ((kept, stale), s1)"
    by (metis prod.exhaust)
  have "passes ttl srv D 0 (rd_zsets s k)
      (rd_zsets (snd (cleanupStaleMembers c srv spec p (ZRANGE srv (si_indexKey spec) s) s)) k)"
    by (rule cleanupStale_passes) (use assms in auto)
  then show ?thesis using assms(1) c
    by (simp add: cleanupStaleProcessSlotsForIndex_def removeActiveIndexMembers_def fold_frame zset_frames)
qed


lemma pool_keyD:
  assumes "pool_key c k ttl"
  shows "0 < ttl" "k \<noteq> accountActiveIndexKey" "k \<noteq> userActiveIndexKey" "accountWaitKey i \<noteq> k" "waitQueueKey i \<noteq> k"
    "accountSlotKey i = k \<Longrightarrow> slotTTLSeconds c = ttl" "userSlotKey i = k \<Longrightarrow> slotTTLSeconds c = ttl"
    "apiKeySlotKey i = k \<Longrightarrow> slotTTLSeconds c = ttl"
    "liveAccountSlotKey i = k \<Longrightarrow> ttl = 60" "liveUserSlotKey i = k \<Longrightarrow> ttl = 60"
    "liveAPIKeySlotKey i = k \<Longrightarrow> ttl = 60" "openAIWSIngressLeaseKey i = k \<Longrightarrow> ttl = 60"
  using assms by (auto simp: pool_key_def)

lemma acquire_slot_passes:
  assumes "pool_key c k ttl" and "liveKey = k \<Longrightarrow> ttl = 60" and "key = k \<Longrightarrow> slotTTLSeconds c = ttl"
    and "k \<noteq> indexKey"
  shows "passes ttl srv D (if key = k then 1 else 0) (rd_zsets s k)
     (rd_zsets (snd (case acquireScript srv key liveKey mx (slotTTLSeconds c) r s of
        ((ok, now), s1) \<Rightarrow> (ok, if ok then touchActiveIndexAt srv indexKey i (now + e) s1 else s1))) k)"
proof -
  obtain ok now s1 where a: "acquireScript srv key liveKey mx (slotTTLSeconds c) r s = ((ok, now), s1)"
    by (metis prod.exhaust)
  have "passes ttl srv D (if key = k then 1 else 0) (rd_zsets s k)
      (rd_zsets (snd (acquireScript srv key liveKey mx (slotTTLSeconds c) r s)) k)"
    by (rule acquireScript_passes) (use assms pool_keyD(1) in auto)
  then have p: "passes ttl srv D (if key = k then 1 else 0) (rd_zsets s k) (rd_zsets s1 k)"
    by (simp only: a snd_conv)
  have "rd_zsets (if ok then touchActiveIndexAt srv indexKey i (now + e) s1 else s1) k = rd_zsets s1 k"
    using assms(4) by (simp add: zset_frames)
  then show ?thesis using p by (simp only: a prod.case snd_conv)
qed

lemma wait_passes:
  assumes "k \<noteq> indexKey"
  shows "passes ttl srv D n (rd_zsets s k)
     (rd_zsets (snd (case incrementWaitScript srv key mx t s of
        ((ok, now), s1) \<Rightarrow> (ok, if ok then touchActiveIndexAt srv indexKey i (now + e) s1 else s1))) k)"
  using assms by (auto simp: incrementWaitScript_def Let_def zset_frames split: prod.split)

lemma zsets_decrementWait [zset_frames]: "rd_zsets (decrementWaitScript srv key s) k = rd_zsets s k"
  by (simp add: decrementWaitScript_def zset_frames split: option.split)

lemma refreshIndices_passes:
  assumes "pool_key c k ttl"
  shows "passes ttl srv D 0 (rd_zsets s k) (rd_zsets (refreshAccountActiveIndex c srv i s) k)"
    "passes ttl srv D 0 (rd_zsets s k) (rd_zsets (refreshUserActiveIndex c srv i s) k)"
  unfolding refreshAccountActiveIndex_def refreshUserActiveIndex_def
  by (rule refreshIndex_passes; use pool_keyD [OF assms] in auto)+

lemma release_passes:
  assumes "key = k \<Longrightarrow> D r" and "\<And>s. passes ttl srv D 0 (rd_zsets s k) (rd_zsets (f s) k)"
  shows "passes ttl srv D 0 (rd_zsets s k) (rd_zsets (f (ZREM srv key r s)) k)"
  by (rule passes_trans [OF passes_ZREM [where n = 0] assms(2)]) (use assms(1) in auto)

lemma ingress_passes:
  assumes "openAIWSIngressLeaseKey i = k \<Longrightarrow> ttl = 60" and "0 < ttl"
  shows "passes ttl srv D (if openAIWSIngressLeaseKey i = k then 1 else 0) (rd_zsets s k)
      (rd_zsets (snd (AcquireOpenAIWSIngressLease srv i mx l s)) k)"
    and "passes ttl srv D 0 (rd_zsets s k) (rd_zsets (snd (RefreshOpenAIWSIngressLease srv i l s)) k)"
proof -
  let ?key = "openAIWSIngressLeaseKey i"
  define s1 where "s1 = ZREMRANGEBYSCORE srv ?key (unixSeconds srv - openAIWSIngressLeaseTTLSeconds) s"
  define s2 where "s2 = takeSlot srv ?key openAIWSIngressLeaseTTLSeconds l s1"
  have p: "passes ttl srv D 0 (rd_zsets s k) (rd_zsets s1 k)"
    unfolding s1_def by (rule passes_ZREMRANGE) (use assms in \<open>auto simp: openAIWSIngressLeaseTTLSeconds_def\<close>)
  have "passes ttl srv D (if ?key = k then 1 else 0) (rd_zsets s1 k) (rd_zsets s2 k)"
    unfolding s2_def by (rule passes_takeSlot) (use assms in \<open>auto simp: openAIWSIngressLeaseTTLSeconds_def\<close>)
  from passes_trans [OF p this] have q: "passes ttl srv D (if ?key = k then 1 else 0) (rd_zsets s k) (rd_zsets s2 k)"
    by simp
  have "snd (AcquireOpenAIWSIngressLease srv i mx l s) \<in> {s, s1, s2}"
    by (simp add: AcquireOpenAIWSIngressLease_def acquireOpenAIWSIngressLeaseScript_def Let_def s1_def s2_def)
  then show "passes ttl srv D (if ?key = k then 1 else 0) (rd_zsets s k)
      (rd_zsets (snd (AcquireOpenAIWSIngressLease srv i mx l s)) k)"
    using q passes_more [OF p] by auto
  have "passes ttl srv D 0 (rd_zsets s1 k) (rd_zsets s2 k)" if "ZSCORE srv ?key l s1 \<noteq> None"
    unfolding s2_def by (rule passes_takeSlot) (use assms that in \<open>auto simp: openAIWSIngressLeaseTTLSeconds_def\<close>)
  then have r: "passes ttl srv D 0 (rd_zsets s k) (rd_zsets s2 k)" if "ZSCORE srv ?key l s1 \<noteq> None"
    using passes_trans [OF p] that by simp
  have "snd (RefreshOpenAIWSIngressLease srv i l s) \<in> {s, s1} \<or>
      ZSCORE srv ?key l s1 \<noteq> None \<and> snd (RefreshOpenAIWSIngressLease srv i l s) = s2"
    by (simp add: RefreshOpenAIWSIngressLease_def refreshOpenAIWSIngressLeaseScript_def Let_def s1_def s2_def)
  then show "passes ttl srv D 0 (rd_zsets s k) (rd_zsets (snd (RefreshOpenAIWSIngressLease srv i l s)) k)"
    using p r by auto
qed

lemma live_passes:
  assumes "pool_key c k ttl"
  shows "passes ttl srv D (if k \<in> set (liveLeaseKeys a u i) then 1 else 0) (rd_zsets s k)
      (rd_zsets (snd (AcquireLiveLease srv a am u um i l repl s)) k)"
    and "passes ttl srv D 0 (rd_zsets s k) (rd_zsets (snd (RefreshLiveLease srv a u i l s)) k)"
    and "(k \<in> set (liveLeaseKeys a u i) \<Longrightarrow> D l) \<Longrightarrow>
      passes ttl srv D 0 (rd_zsets s k) (rd_zsets (ReleaseLiveLease srv a u i l s) k)"
proof -
  have t: "k \<in> set (liveLeaseKeys a u i) \<Longrightarrow> liveLeaseTTLSeconds = ttl"
    using pool_keyD [OF assms] by (auto simp: liveLeaseKeys_def liveLeaseTTLSeconds_def)
  have d: "distinct [liveAccountSlotKey a, liveUserSlotKey u, liveAPIKeySlotKey i]" by simp
  have "passes ttl srv D 0 (rd_zsets s k)
      (rd_zsets (snd (refreshLiveLeaseScript srv (liveLeaseKeys a u i) liveLeaseTTLSeconds l s)) k)"
    by (rule refreshLive_passes [OF live_lease_keys_distinct t pool_keyD(1) [OF assms]])
  then show "passes ttl srv D 0 (rd_zsets s k) (rd_zsets (snd (RefreshLiveLease srv a u i l s)) k)"
    by (simp add: RefreshLiveLease_def)
  show "passes ttl srv D 0 (rd_zsets s k) (rd_zsets (ReleaseLiveLease srv a u i l s) k)"
    if "k \<in> set (liveLeaseKeys a u i) \<Longrightarrow> D l"
    unfolding ReleaseLiveLease_def using that by (auto intro!: passes_fold passes_ZREM)
  show "passes ttl srv D (if k \<in> set (liveLeaseKeys a u i) then 1 else 0) (rd_zsets s k)
      (rd_zsets (snd (AcquireLiveLease srv a am u um i l repl s)) k)"
  proof (cases "k \<in> set (liveLeaseKeys a u i)")
    case True
    have "passes ttl srv D 1 (rd_zsets s k) (rd_zsets (snd (acquireLiveLeaseScript srv (accountSlotKey a)
        (liveAccountSlotKey a) (userSlotKey u) (liveUserSlotKey u) (liveAPIKeySlotKey i) am um
        liveLeaseTTLSeconds l (if repl then 1 else 0) s)) k)"
      by (rule acquireLive_passes [OF _ d pool_keyD(1) [OF assms]]) (use t True in simp)
    then show ?thesis using True by (simp add: AcquireLiveLease_def)
  next
    case False
    then have "k \<noteq> liveAccountSlotKey a" "k \<noteq> liveUserSlotKey u" "k \<noteq> liveAPIKeySlotKey i"
      by (auto simp: liveLeaseKeys_def)
    then show ?thesis using False by (simp add: AcquireLiveLease_def acquireLiveLeaseScript_def Let_def zset_frames)
  qed
qed

lemma op_passes:
  assumes pk: "pool_key c k ttl" and D: "\<And>m. removes op k m \<Longrightarrow> D m"
  shows "passes ttl srv D (if grows op k then 1 else 0) (rd_zsets s k) (rd_zsets (snd (slot_step c srv op s)) k)"
proof (cases op)
  case (AcquireAccount a mx r)
  show ?thesis unfolding AcquireAccount slot_step.simps grows.simps AcquireAccountSlot_def
    by (rule acquire_slot_passes [OF pk]) (use pool_keyD [OF pk] in auto)
next
  case (ReleaseAccount a r)
  have "passes ttl srv D 0 (rd_zsets s k) (rd_zsets (ReleaseAccountSlot c srv a r s) k)"
    unfolding ReleaseAccountSlot_def
    by (rule release_passes [OF _ refreshIndices_passes(1) [OF pk]]) (use D ReleaseAccount in auto)
  then show ?thesis using ReleaseAccount by simp
next
  case (AcquireUser u mx r)
  show ?thesis unfolding AcquireUser slot_step.simps grows.simps AcquireUserSlot_def
    by (rule acquire_slot_passes [OF pk]) (use pool_keyD [OF pk] in auto)
next
  case (ReleaseUser u r)
  have "passes ttl srv D 0 (rd_zsets s k) (rd_zsets (ReleaseUserSlot c srv u r s) k)"
    unfolding ReleaseUserSlot_def
    by (rule release_passes [OF _ refreshIndices_passes(2) [OF pk]]) (use D ReleaseUser in auto)
  then show ?thesis using ReleaseUser by simp
next
  case (TrackKey i r)
  have "passes ttl srv D 0 (rd_zsets s k)
      (rd_zsets (ZREMRANGEBYSCORE srv (apiKeySlotKey i) (unixSeconds srv - slotTTLSeconds c) s) k)"
    by (rule passes_ZREMRANGE) (use pool_keyD(8) [OF pk] in auto)
  moreover have "passes ttl srv D (if apiKeySlotKey i = k then 1 else 0) (rd_zsets s' k)
      (rd_zsets (takeSlot srv (apiKeySlotKey i) (slotTTLSeconds c) r s') k)" for s'
    by (rule passes_takeSlot) (use pool_keyD [OF pk] in auto)
  ultimately have "passes ttl srv D (if apiKeySlotKey i = k then 1 else 0) (rd_zsets s k)
      (rd_zsets (TrackAPIKeySlot c srv i r s) k)"
    unfolding TrackAPIKeySlot_def trackSlotScript_def by (rule passes_trans) simp
  then show ?thesis using TrackKey by simp
next
  case (ReleaseKey i r)
  then show ?thesis using D by (auto simp: ReleaseAPIKeySlot_def intro: passes_ZREM)
next
  case (AcquireIngress i mx l)
  then show ?thesis using ingress_passes(1) [OF pool_keyD(12) [OF pk] pool_keyD(1) [OF pk]] by simp
next
  case (RefreshIngress i l)
  then show ?thesis using ingress_passes(2) [OF pool_keyD(12) [OF pk] pool_keyD(1) [OF pk]] by simp
next
  case (ReleaseIngress i l)
  then show ?thesis using D by (auto simp: ReleaseOpenAIWSIngressLease_def intro: passes_ZREM)
next
  case (AcquireLive a am u um i l repl)
  show ?thesis unfolding AcquireLive slot_step.simps grows.simps by (rule live_passes(1) [OF pk])
next
  case (RefreshLive a u i l)
  then show ?thesis using live_passes(2) [OF pk] by simp
next
  case (ReleaseLive a u i l)
  have "passes ttl srv D 0 (rd_zsets s k) (rd_zsets (ReleaseLiveLease srv a u i l s) k)"
    by (rule live_passes(3) [OF pk]) (use D ReleaseLive in auto)
  then show ?thesis using ReleaseLive by simp
next
  case (WaitUser u mx)
  show ?thesis unfolding WaitUser slot_step.simps IncrementWaitCount_def
    by (rule wait_passes) (use pool_keyD [OF pk] in auto)
next
  case (LeaveUser u)
  then show ?thesis using refreshIndices_passes(2) [OF pk, of srv D "decrementWaitScript srv (waitQueueKey u) s" u]
    by (simp add: DecrementWaitCount_def zset_frames)
next
  case (WaitAccount a mx)
  show ?thesis unfolding WaitAccount slot_step.simps IncrementAccountWaitCount_def
    by (rule wait_passes) (use pool_keyD [OF pk] in auto)
next
  case (LeaveAccount a)
  then show ?thesis using refreshIndices_passes(1) [OF pk, of srv D "decrementWaitScript srv (accountWaitKey a) s" a]
    by (simp add: DecrementAccountWaitCount_def zset_frames)
next
  case (CountAccount a)
  then show ?thesis
    using purge_two [of "accountSlotKey a" k "slotTTLSeconds c" ttl "liveAccountSlotKey a" srv D s] pool_keyD [OF pk]
    by (simp add: GetAccountConcurrency_def getCountScript_def Let_def)
next
  case (CountUser u)
  then show ?thesis
    using purge_two [of "userSlotKey u" k "slotTTLSeconds c" ttl "liveUserSlotKey u" srv D s] pool_keyD [OF pk]
    by (simp add: GetUserConcurrency_def getCountScript_def Let_def)
next
  case (CountAccounts as)
  have "passes ttl srv D 0 (rd_zsets s k) (rd_zsets (snd (GetAccountConcurrencyBatch c srv as s)) k)"
    unfolding GetAccountConcurrencyBatch_def by (rule count_fold_passes) (use pool_keyD [OF pk] in auto)
  then show ?thesis using CountAccounts by simp
next
  case (CountKeys ks)
  have "passes ttl srv D 0 (rd_zsets s k) (rd_zsets (snd (GetAPIKeyConcurrencyBatch c srv ks s)) k)"
    unfolding GetAPIKeyConcurrencyBatch_def by (rule count_fold_passes) (use pool_keyD [OF pk] in auto)
  then show ?thesis using CountKeys by simp
next
  case (LoadAccounts as)
  have "passes ttl srv D 0 (rd_zsets s k) (rd_zsets (snd (GetAccountsLoadBatch c srv as s)) k)"
    unfolding GetAccountsLoadBatch_def
    by (rule count_fold_passes [where slotKey = "\<lambda>a. accountSlotKey (wc_ID a)"]) (use pool_keyD [OF pk] in auto)
  then show ?thesis using LoadAccounts by simp
next
  case (LoadUsers us)
  have "passes ttl srv D 0 (rd_zsets s k) (rd_zsets (snd (GetUsersLoadBatch c srv us s)) k)"
    unfolding GetUsersLoadBatch_def
    by (rule count_fold_passes [where slotKey = "\<lambda>a. userSlotKey (wc_ID a)"]) (use pool_keyD [OF pk] in auto)
  then show ?thesis using LoadUsers by simp
next
  case (CleanAccount a)
  let ?s1 = "ZREMRANGEBYSCORE srv (accountSlotKey a) (unixSeconds srv - slotTTLSeconds c) s"
  have p: "passes ttl srv D 0 (rd_zsets s k) (rd_zsets ?s1 k)"
    by (rule passes_ZREMRANGE) (use pool_keyD(6) [OF pk] in auto)
  have "passes ttl srv D 0 (rd_zsets s k) (rd_zsets (DEL (accountSlotKey a) ?s1) k)"
    if "ZCARD srv (accountSlotKey a) ?s1 = 0"
    by (rule passes_trans [OF p passes_DEL [where n = 0]]) (use that in auto)
  moreover have "passes ttl srv D 0 (rd_zsets s k) (rd_zsets (EXPIRE srv (accountSlotKey a) (slotTTLSeconds c) ?s1) k)"
    by (rule passes_trans [OF p passes_EXPIRE [where n = 0]]) (use pool_keyD [OF pk] in auto)
  ultimately have q: "passes ttl srv D 0 (rd_zsets s k)
      (rd_zsets (cleanupExpiredSlotsScript srv (accountSlotKey a) (slotTTLSeconds c) s) k)"
    by (simp add: cleanupExpiredSlotsScript_def Let_def)
  show ?thesis using passes_trans [OF q refreshIndices_passes(1) [OF pk, where i = a], of 0] CleanAccount
    by (simp add: CleanupExpiredAccountSlots_def)
next
  case CleanIndices
  have "passes ttl srv D 0 (rd_zsets s k) (rd_zsets (CleanupExpiredAccountSlotKeys c srv s) k)"
    unfolding CleanupExpiredAccountSlotKeys_def
    by (rule passes_trans [OF reconcile_passes reconcile_passes])
      (use pool_keyD [OF pk] in \<open>auto simp: accountSlotIndex_def userSlotIndex_def\<close>)
  then show ?thesis using CleanIndices by simp
next
  case (Startup p)
  have "passes ttl srv D 0 (rd_zsets s k) (rd_zsets (CleanupStaleProcessSlots c srv p s) k)"
  proof (cases "p = []")
    case False
    have "passes ttl srv D 0 (rd_zsets (sweepLegacyWaitKeysOnce s) k)
        (rd_zsets (cleanupStaleProcessSlotsForIndex c srv userSlotIndex p
          (cleanupStaleProcessSlotsForIndex c srv accountSlotIndex p (sweepLegacyWaitKeysOnce s))) k)"
      by (rule passes_trans [OF cleanupStaleIndex_passes cleanupStaleIndex_passes])
        (use pool_keyD [OF pk] D False Startup in \<open>auto simp: accountSlotIndex_def userSlotIndex_def\<close>)
    then show ?thesis using False by (simp add: CleanupStaleProcessSlots_def zset_frames)
  qed (simp add: CleanupStaleProcessSlots_def)
  then show ?thesis using Startup by simp
qed

end
