(* ===== verification/SlotLimits.thy ===== *)
theory SlotLimits
  imports SlotRuns
begin

text \<open>
  The pools of the concurrency cache: an account and a user with their slots and live leases, and
  an API key with its connections. Each is an instance of \<open>leased_pool\<close>, so that no sequence of
  operations lets more holders run than the limit. The queues of waiting requests are bounded as
  well, and a second process that starts up frees slots that are still in use.
\<close>

subsection \<open>Accounts and users\<close>

datatype slot_holder = Slot gostring | Lease gostring

datatype slot_pool = AccountPool int | UserPool int

fun regularKey :: "slot_pool \<Rightarrow> gostring" where
  "regularKey (AccountPool a) = accountSlotKey a"
| "regularKey (UserPool u) = userSlotKey u"

fun liveKey :: "slot_pool \<Rightarrow> gostring" where
  "liveKey (AccountPool a) = liveAccountSlotKey a"
| "liveKey (UserPool u) = liveUserSlotKey u"

definition holders_of :: "zset_key \<Rightarrow> zset_key \<Rightarrow> (slot_holder, int) gomap" where
  "holders_of z l = map (map_prod Slot id) (zk_members z) @ map (map_prod Lease id) (zk_members l)"

definition pool_members :: "slot_pool \<Rightarrow> redis \<Rightarrow> (slot_holder, int) gomap" where
  "pool_members pool s = holders_of (rd_zsets s (regularKey pool)) (rd_zsets s (liveKey pool))"

definition holder_ttl :: "concurrencyCache \<Rightarrow> slot_holder \<Rightarrow> int" where
  "holder_ttl c h = (case h of Slot _ \<Rightarrow> slotTTLSeconds c | Lease _ \<Rightarrow> liveLeaseTTLSeconds)"

text \<open>A lease that the account still has is not taken again.\<close>

definition leaseFresh :: "int \<Rightarrow> int \<Rightarrow> gostring \<Rightarrow> redis \<Rightarrow> bool" where
  "leaseFresh srv a l s \<longleftrightarrow>
     ZSCORE srv (liveAccountSlotKey a) l
       (ZREMRANGEBYSCORE srv (liveAccountSlotKey a) (unixSeconds srv - liveLeaseTTLSeconds) s) = None"

fun pool_asks :: "slot_pool \<Rightarrow> int \<Rightarrow> redis \<Rightarrow> slot_op \<Rightarrow> slot_holder option" where
  "pool_asks pool srv s (AcquireAccount a mx r) = (if pool = AccountPool a then Some (Slot r) else None)"
| "pool_asks pool srv s (AcquireUser u mx r) = (if pool = UserPool u then Some (Slot r) else None)"
| "pool_asks pool srv s (AcquireLive a am u um i l repl) =
     (if pool \<in> {AccountPool a, UserPool u} \<and> leaseFresh srv a l s then Some (Lease l) else None)"
| "pool_asks pool srv s (RefreshLive a u i l) =
     (if pool \<in> {AccountPool a, UserPool u} then Some (Lease l) else None)"
| "pool_asks pool srv s op = None"

fun pool_drops :: "slot_pool \<Rightarrow> slot_op \<Rightarrow> slot_holder \<Rightarrow> bool" where
  "pool_drops pool (ReleaseAccount a r) h \<longleftrightarrow> pool = AccountPool a \<and> h = Slot r"
| "pool_drops pool (ReleaseUser u r) h \<longleftrightarrow> pool = UserPool u \<and> h = Slot r"
| "pool_drops pool (ReleaseLive a u i l) h \<longleftrightarrow> pool \<in> {AccountPool a, UserPool u} \<and> h = Lease l"
| "pool_drops pool (Startup p) h \<longleftrightarrow> p \<noteq> [] \<and> \<not> has_prefix (case h of Slot r \<Rightarrow> r | Lease r \<Rightarrow> r) p"
| "pool_drops pool op h \<longleftrightarrow> False"

fun pool_allowed :: "int \<Rightarrow> slot_pool \<Rightarrow> slot_op \<Rightarrow> bool" where
  "pool_allowed limit pool (AcquireAccount a mx r) \<longleftrightarrow> (pool = AccountPool a \<longrightarrow> mx \<le> limit)"
| "pool_allowed limit pool (AcquireUser u mx r) \<longleftrightarrow> (pool = UserPool u \<longrightarrow> mx \<le> limit)"
| "pool_allowed limit pool (AcquireLive a am u um i l repl) \<longleftrightarrow>
     (pool = AccountPool a \<longrightarrow> 0 < am \<and> am + (if repl then 1 else 0) \<le> limit) \<and>
     (pool = UserPool u \<longrightarrow> 0 < um \<and> um + (if repl then 1 else 0) \<le> limit)"
| "pool_allowed limit pool op \<longleftrightarrow> True"

definition pool_good :: "concurrencyCache \<Rightarrow> slot_pool \<Rightarrow> int \<Rightarrow> int \<Rightarrow> redis \<Rightarrow> bool" where
  "pool_good c pool limit srv s \<longleftrightarrow>
     0 < slotTTLSeconds c \<and> pool_ok (slotTTLSeconds c) (regularKey pool) (liveKey pool) limit srv s"

lemma holders_get [simp]:
  "map_get (holders_of z l) (Slot r) = map_get (zk_members z) r"
  "map_get (holders_of z l) (Lease r) = map_get (zk_members l) r"
proof -
  have "map_get (map (map_prod Slot id) m) (Slot r) = map_get m r"
    "map_get (map (map_prod Slot id) m) (Lease r) = None"
    "map_get (map (map_prod Lease id) m) (Lease r) = map_get m r"
    "map_get (map (map_prod Lease id) m) (Slot r) = None" for m :: "(gostring, int) gomap"
    by (induction m) auto
  then show "map_get (holders_of z l) (Slot r) = map_get (zk_members z) r"
    "map_get (holders_of z l) (Lease r) = map_get (zk_members l) r"
    by (simp_all add: holders_of_def map_add_def split: option.split)
qed

lemma alive_holders:
  assumes "slot_ok (slotTTLSeconds c) srv z" and "slot_ok liveLeaseTTLSeconds srv l"
  shows "length (filter (\<lambda>(h, t). unixSeconds srv - t < holder_ttl c h) (holders_of z l)) \<le>
     zset_size srv z + zset_size srv l"
  using alive_size [OF assms(1)] alive_size [OF assms(2)]
  by (simp add: holders_of_def filter_map o_def holder_ttl_def split_def)

lemma regular_pool_key: "0 < slotTTLSeconds c \<Longrightarrow> pool_key c (regularKey pool) (slotTTLSeconds c)"
  by (cases pool) (simp_all add: pool_key_def)

lemma live_pool_key: "pool_key c (liveKey pool) liveLeaseTTLSeconds"
  by (cases pool) (simp_all add: pool_key_def liveLeaseTTLSeconds_def)

lemma pool_removes:
  "removes op (regularKey pool) m \<Longrightarrow> pool_drops pool op (Slot m)"
  "removes op (liveKey pool) m \<Longrightarrow> pool_drops pool op (Lease m)"
  by (cases op; cases pool; auto simp: liveLeaseKeys_def)+

lemma pool_keys_differ [simp]: "regularKey pool \<noteq> liveKey pool"
  by (cases pool) simp_all

lemma pool_good_later: "pool_good c pool limit srv s \<Longrightarrow> srv \<le> srv' \<Longrightarrow> pool_good c pool limit srv' s"
  using zset_size_later [of srv srv' "rd_zsets s (regularKey pool)"]
    zset_size_later [of srv srv' "rd_zsets s (liveKey pool)"]
  by (auto simp: pool_good_def pool_ok_def pool_size_def ZCARD_size intro: slot_ok_later)

lemma pool_keeps:
  assumes "pool_good c pool limit srv s"
  shows "passes (slotTTLSeconds c) srv (\<lambda>m. pool_drops pool op (Slot m)) (if grows op (regularKey pool) then 1 else 0)
      (rd_zsets s (regularKey pool)) (rd_zsets (snd (slot_step c srv op s)) (regularKey pool))"
    and "passes liveLeaseTTLSeconds srv (\<lambda>m. pool_drops pool op (Lease m)) (if grows op (liveKey pool) then 1 else 0)
      (rd_zsets s (liveKey pool)) (rd_zsets (snd (slot_step c srv op s)) (liveKey pool))"
  by (rule op_passes; use assms in \<open>auto simp: pool_good_def intro: regular_pool_key live_pool_key pool_removes\<close>)+

lemma touched_size: "k \<noteq> key \<Longrightarrow> l \<noteq> key \<Longrightarrow>
    pool_size srv k l (touchActiveIndexAt srv key i e s) = pool_size srv k l s"
  by (simp add: pool_size_def ZCARD_zsets zset_frames)

lemma acquired_size:
  assumes "pool_ok ttl key lkey limit srv s" and "key \<noteq> lkey" and "0 < ttl" and "mx \<le> limit"
    and "key \<noteq> indexKey" and "lkey \<noteq> indexKey"
  shows "pool_size srv key lkey (snd (case acquireScript srv key lkey mx ttl r s of
        ((ok, now), s1) \<Rightarrow> (ok, if ok then touchActiveIndexAt srv indexKey i (now + e) s1 else s1))) \<le> limit"
  using acquireScript_room [OF assms(2,3,4,1), of r] assms(5,6) by (auto simp: touched_size split: prod.split)

lemma live_acquired_size:
  assumes "pool_good c pool limit srv s" and "pool_allowed limit pool (AcquireLive a am u um i l repl)"
    and "pool \<in> {AccountPool a, UserPool u}"
  shows "pool_size srv (regularKey pool) (liveKey pool) (snd (AcquireLiveLease srv a am u um i l repl s)) \<le> limit"
proof -
  have "pool_size srv (regularKey pool) (liveKey pool) (snd (acquireLiveLeaseScript srv (accountSlotKey a)
      (liveAccountSlotKey a) (userSlotKey u) (liveUserSlotKey u) (liveAPIKeySlotKey i) am um
      liveLeaseTTLSeconds l (if repl then 1 else 0) s)) \<le> limit"
    by (rule acquireLive_room [where m = "case pool of AccountPool _ \<Rightarrow> am | UserPool _ \<Rightarrow> um"])
      (use assms in \<open>auto simp: pool_good_def\<close>)
  then show ?thesis using assms(1) by (simp add: AcquireLiveLease_def pool_good_def pool_ok_def)
qed

lemma pool_step_size:
  assumes "pool_good c pool limit srv s" and "pool_allowed limit pool op"
  shows "pool_size srv (regularKey pool) (liveKey pool) (snd (slot_step c srv op s)) \<le> limit"
proof (cases "grows op (regularKey pool) \<or> grows op (liveKey pool)")
  case False
  have ok: "pool_ok (slotTTLSeconds c) (regularKey pool) (liveKey pool) limit srv s"
    using assms(1) by (simp add: pool_good_def)
  show ?thesis
    using passes_size [OF pool_keeps(1) [OF assms(1), of op]] passes_size [OF pool_keeps(2) [OF assms(1), of op]] ok False
    by (auto simp: pool_ok_def pool_size_def ZCARD_size)
next
  case True
  then consider a mx r where "op = AcquireAccount a mx r" "pool = AccountPool a"
    | u mx r where "op = AcquireUser u mx r" "pool = UserPool u"
    | a am u um i l repl where "op = AcquireLive a am u um i l repl" "pool \<in> {AccountPool a, UserPool u}"
    by (cases op; cases pool) (auto simp: liveLeaseKeys_def)
  then show ?thesis
  proof cases
    case 1
    then show ?thesis unfolding 1 slot_step.simps AcquireAccountSlot_def regularKey.simps liveKey.simps
      by (intro acquired_size) (use assms 1 in \<open>auto simp: pool_good_def\<close>)
  next
    case 2
    then show ?thesis unfolding 2 slot_step.simps AcquireUserSlot_def regularKey.simps liveKey.simps
      by (intro acquired_size) (use assms 2 in \<open>auto simp: pool_good_def\<close>)
  next
    case 3
    then show ?thesis using live_acquired_size [OF assms(1), of a am u um i l repl] assms(2) by simp
  qed
qed

lemma pool_grants:
  assumes "pool_good c pool limit srv s" and "pool_asks pool srv s op = Some h" and "fst (slot_step c srv op s)"
  shows "map_get (pool_members pool (snd (slot_step c srv op s))) h = Some (unixSeconds srv)"
proof -
  have t: "0 < slotTTLSeconds c" using assms(1) by (simp add: pool_good_def)
  consider a mx r where "op = AcquireAccount a mx r" "pool = AccountPool a" "h = Slot r"
    | u mx r where "op = AcquireUser u mx r" "pool = UserPool u" "h = Slot r"
    | a am u um i l repl where "op = AcquireLive a am u um i l repl" "pool \<in> {AccountPool a, UserPool u}"
        "leaseFresh srv a l s" "h = Lease l"
    | a u i l where "op = RefreshLive a u i l" "pool \<in> {AccountPool a, UserPool u}" "h = Lease l"
    using assms(2) by (cases op) (auto split: if_splits)
  then show ?thesis
  proof cases
    case 1
    obtain now s1 where a: "acquireScript srv (accountSlotKey a) (liveAccountSlotKey a) mx (slotTTLSeconds c) r s = ((True, now), s1)"
      using assms(3) 1 by (auto simp: AcquireAccountSlot_def split: prod.splits)
    then show ?thesis using acquireScript_grants [OF t, of srv "accountSlotKey a" "liveAccountSlotKey a" mx r s] 1
      by (simp add: AcquireAccountSlot_def pool_members_def zset_frames)
  next
    case 2
    obtain now s1 where a: "acquireScript srv (userSlotKey u) (liveUserSlotKey u) mx (slotTTLSeconds c) r s = ((True, now), s1)"
      using assms(3) 2 by (auto simp: AcquireUserSlot_def split: prod.splits)
    then show ?thesis using acquireScript_grants [OF t, of srv "userSlotKey u" "liveUserSlotKey u" mx r s] 2
      by (simp add: AcquireUserSlot_def pool_members_def zset_frames)
  next
    case 3
    have "map_get (zk_members (rd_zsets (snd (acquireLiveLeaseScript srv (accountSlotKey a)
      (liveAccountSlotKey a) (userSlotKey u) (liveUserSlotKey u) (liveAPIKeySlotKey i) am um
      liveLeaseTTLSeconds l (if repl then 1 else 0) s)) (liveKey pool))) l = Some (unixSeconds srv)"
      by (rule acquireLive_grants)
        (use assms(3) 3 in \<open>auto simp: AcquireLiveLease_def leaseFresh_def liveLeaseTTLSeconds_def split: if_splits\<close>)
    then show ?thesis using 3 assms(3)
      by (auto simp: AcquireLiveLease_def pool_members_def split: if_splits)
  next
    case 4
    have "map_get (zk_members (rd_zsets (snd (refreshLiveLeaseScript srv (liveLeaseKeys a u i) liveLeaseTTLSeconds l s))
        (liveKey pool))) l = Some (unixSeconds srv)"
      by (rule refreshLive_grants [OF live_lease_keys_distinct])
        (use assms(3) 4 in \<open>auto simp: RefreshLiveLease_def liveLeaseKeys_def liveLeaseTTLSeconds_def split: if_splits\<close>)
    then show ?thesis using 4 assms(3)
      by (auto simp: RefreshLiveLease_def pool_members_def split: if_splits)
  qed
qed

interpretation slots: leased_pool "slot_step c" "pool_asks pool" "pool_drops pool" "pool_members pool"
  "holder_ttl c" "pool_good c pool limit" "pool_allowed limit pool" limit
proof
  fix srv srv' s op
  show "pool_good c pool limit srv s \<Longrightarrow> srv \<le> srv' \<Longrightarrow> pool_good c pool limit srv' s" by (rule pool_good_later)
next
  fix srv s op
  assume ok: "pool_good c pool limit srv s" and al: "pool_allowed limit pool op"
  then show "pool_good c pool limit srv (snd (slot_step c srv op s))"
    using pool_keeps [OF ok, of op] pool_step_size [OF ok al] by (auto simp: pool_good_def pool_ok_def passes_def)
next
  fix srv s op h t
  assume ok: "pool_good c pool limit srv s" and h: "map_get (pool_members pool s) h = Some t"
    "unixSeconds srv - t < holder_ttl c h" "\<not> pool_drops pool op h"
  show "\<exists>t' \<ge> t. map_get (pool_members pool (snd (slot_step c srv op s))) h = Some t'"
  proof (cases h)
    case (Slot r)
    then show ?thesis using pool_keeps(1) [OF ok, of op] ok h
      by (simp add: passes_def pool_good_def pool_ok_def pool_members_def holder_ttl_def)
  next
    case (Lease r)
    then show ?thesis using pool_keeps(2) [OF ok, of op] ok h
      by (simp add: passes_def pool_good_def pool_ok_def pool_members_def holder_ttl_def)
  qed
next
  fix srv s op h
  assume "pool_good c pool limit srv s" "pool_asks pool srv s op = Some h" "fst (slot_step c srv op s)"
  then show "map_get (pool_members pool (snd (slot_step c srv op s))) h = Some (unixSeconds srv)" by (rule pool_grants)
next
  fix srv s
  assume "pool_good c pool limit srv s"
  then show "int (length (filter (\<lambda>(h, t). unixSeconds srv - t < holder_ttl c h) (pool_members pool s))) \<le> limit"
    using alive_holders [of c srv "rd_zsets s (regularKey pool)" "rd_zsets s (liveKey pool)"]
    by (simp add: pool_good_def pool_ok_def pool_size_def ZCARD_size pool_members_def)
qed


lemma new_cache_ttl [simp]: "0 < slotTTLSeconds (NewConcurrencyCache m w)"
  by (simp add: NewConcurrencyCache_def Let_def defaultSlotTTLMinutes_def)

lemma empty_pool: "0 < slotTTLSeconds c \<Longrightarrow> 0 \<le> limit \<Longrightarrow> pool_good c pool limit srv emptyRedis"
  by (cases pool) (simp_all add: pool_good_def pool_ok_def pool_size_def ZCARD_size emptyRedis_def)

definition slot_run :: "concurrencyCache \<Rightarrow> slot_pool \<Rightarrow> (int \<times> slot_op) list \<Rightarrow> (slot_holder, int) gomap" where
  "slot_run c pool ops =
     snd (fold (held_step (slot_step c) (pool_asks pool) (pool_drops pool)) ops (emptyRedis, []))"

text \<open>C15: Whatever the instances of the gateway do with the slots of an account or a user -- acquire,
  release, retry, lease, refresh, count, clean up, start up -- if every acquisition names a limit of
  at most \<open>limit\<close>, then at any moment at most \<open>limit\<close> requests and live sessions hold a slot that was
  granted or confirmed within its time to live and was neither released nor swept by a process that
  started up. Live leases and ordinary slots count together; a lease that replaces ordinary slots may
  use one more.\<close>

theorem running_requests_bounded:
  assumes "0 \<le> limit" and "ordered_from start ops" and "\<forall>x \<in> set ops. pool_allowed limit pool (snd x)"
    and "end_time start ops \<le> now"
  shows "int (length (running (holder_ttl (NewConcurrencyCache m w)) now
     (slot_run (NewConcurrencyCache m w) pool ops))) \<le> limit"
  unfolding slot_run_def
  by (rule slots.running_bounded [where srv = start and limit = limit]) (use assms in \<open>simp_all add: empty_pool\<close>)

definition demo_slots :: "(int \<times> slot_op) list" where
  "demo_slots = [(1000, AcquireAccount 7 1 ''ra-1''), (2000, AcquireAccount 7 1 ''ra-2''),
     (3000, ReleaseAccount 7 ''ra-1''), (4000, AcquireAccount 7 1 ''ra-3'')]"

lemma demo_slots_run:
  "slot_run (NewConcurrencyCache 15 0) (AccountPool 7) demo_slots = [(Slot ''ra-3'', 4)]"
  by code_simp

theorem running_requests_bounded_witness:
  "map fst (slot_run (NewConcurrencyCache 15 0) (AccountPool 7) demo_slots) = [Slot ''ra-3''] \<and>
   int (length (running (holder_ttl (NewConcurrencyCache 15 0)) 5000
     (slot_run (NewConcurrencyCache 15 0) (AccountPool 7) demo_slots))) \<le> 1"
proof -
  have "ordered_from 0 demo_slots" "end_time 0 demo_slots \<le> 5000"
    "\<forall>x \<in> set demo_slots. pool_allowed 1 (AccountPool 7) (snd x)"
    by (simp_all add: demo_slots_def)
  from running_requests_bounded [OF _ this(1,3,2), of 15 0] show ?thesis by (simp add: demo_slots_run)
qed


definition sweptRedis :: redis where
  "sweptRedis = emptyRedis\<lparr>rd_flags := (\<lambda>_. True)\<rparr>"

fun slot_answers :: "concurrencyCache \<Rightarrow> (int \<times> slot_op) list \<Rightarrow> redis \<Rightarrow> bool list" where
  "slot_answers c [] s = []"
| "slot_answers c ((srv, op) # ops) s = (case slot_step c srv op s of (ok, s') \<Rightarrow> ok # slot_answers c ops s')"

lemma acquire_unused:
  assumes "rd_zsets s (accountSlotKey a) = noZset" and "rd_zsets s (liveAccountSlotKey a) = noZset" and "0 < mx"
  shows "fst (slot_step c srv (AcquireAccount a mx r) s)"
  using assms by (simp add: AcquireAccountSlot_def acquireScript_def Let_def ZCARD_def zsetNow_def ZREMRANGEBYSCORE_def
      zset_frames zset_at_def noZset_def zset_tidy_def split: prod.split)

definition demo_startup :: redis where
  "demo_startup = snd (slot_step (NewConcurrencyCache 15 0) 2000 (Startup ''rb'')
     (snd (slot_step (NewConcurrencyCache 15 0) 1000 (AcquireAccount 7 1 ''ra-1'') sweptRedis)))"

lemma demo_startup_zsets:
  "rd_zsets demo_startup (accountSlotKey 7) = noZset" "rd_zsets demo_startup (liveAccountSlotKey 7) = noZset"
  by code_simp+


subsection \<open>Connections of an API key\<close>

fun conn_asks :: "int \<Rightarrow> int \<Rightarrow> redis \<Rightarrow> slot_op \<Rightarrow> gostring option" where
  "conn_asks i srv s (AcquireIngress j mx l) = (if i = j then Some l else None)"
| "conn_asks i srv s (RefreshIngress j l) = (if i = j then Some l else None)"
| "conn_asks i srv s op = None"

fun conn_drops :: "int \<Rightarrow> slot_op \<Rightarrow> gostring \<Rightarrow> bool" where
  "conn_drops i (ReleaseIngress j l) h \<longleftrightarrow> i = j \<and> h = l"
| "conn_drops i (Startup p) h \<longleftrightarrow> p \<noteq> [] \<and> \<not> has_prefix h p"
| "conn_drops i op h \<longleftrightarrow> False"

fun conn_allowed :: "int \<Rightarrow> int \<Rightarrow> slot_op \<Rightarrow> bool" where
  "conn_allowed limit i (AcquireIngress j mx l) \<longleftrightarrow> (i = j \<longrightarrow> mx \<le> limit)"
| "conn_allowed limit i op \<longleftrightarrow> True"

definition conn_good :: "int \<Rightarrow> int \<Rightarrow> int \<Rightarrow> redis \<Rightarrow> bool" where
  "conn_good limit i srv s \<longleftrightarrow> slot_ok openAIWSIngressLeaseTTLSeconds srv (rd_zsets s (openAIWSIngressLeaseKey i)) \<and>
     ZCARD srv (openAIWSIngressLeaseKey i) s \<le> limit"

definition conn_members :: "int \<Rightarrow> redis \<Rightarrow> (gostring, int) gomap" where
  "conn_members i s = zk_members (rd_zsets s (openAIWSIngressLeaseKey i))"

lemma ingress_pool_key: "pool_key c (openAIWSIngressLeaseKey i) openAIWSIngressLeaseTTLSeconds"
  by (simp add: pool_key_def openAIWSIngressLeaseTTLSeconds_def)

lemma conn_keeps:
  "passes openAIWSIngressLeaseTTLSeconds srv (conn_drops i op) (if grows op (openAIWSIngressLeaseKey i) then 1 else 0)
     (rd_zsets s (openAIWSIngressLeaseKey i)) (rd_zsets (snd (slot_step c srv op s)) (openAIWSIngressLeaseKey i))"
  by (rule op_passes [OF ingress_pool_key]) (cases op; auto simp: liveLeaseKeys_def)

lemma conn_acquired_size:
  assumes "conn_good limit i srv s" and "mx \<le> limit"
  shows "ZCARD srv (openAIWSIngressLeaseKey i) (snd (AcquireOpenAIWSIngressLease srv i mx l s)) \<le> limit"
proof -
  let ?k = "openAIWSIngressLeaseKey i"
  let ?t = openAIWSIngressLeaseTTLSeconds
  define s1 where "s1 = ZREMRANGEBYSCORE srv ?k (unixSeconds srv - ?t) s"
  have "passes ?t srv (\<lambda>_. False) 0 (rd_zsets s ?k) (rd_zsets s1 ?k)"
    unfolding s1_def by (rule passes_ZREMRANGE) simp
  from passes_size [OF this] have one: "ZCARD srv ?k s1 \<le> limit"
    using assms(1) by (simp add: conn_good_def ZCARD_size)
  have two: "ZCARD srv ?k (takeSlot srv ?k ?t l s1) \<le> ZCARD srv ?k s1 + (if ZSCORE srv ?k l s1 = None then 1 else 0)"
    by (rule takeSlot_card) (simp add: openAIWSIngressLeaseTTLSeconds_def)
  have "ZCARD srv ?k s \<le> limit" using assms(1) by (simp add: conn_good_def)
  then show ?thesis using one two assms(2)
    by (auto simp: AcquireOpenAIWSIngressLease_def acquireOpenAIWSIngressLeaseScript_def Let_def simp flip: s1_def
        split: if_splits)
qed

lemma conn_step_size:
  assumes "conn_good limit i srv s" and "conn_allowed limit i op"
  shows "ZCARD srv (openAIWSIngressLeaseKey i) (snd (slot_step c srv op s)) \<le> limit"
proof (cases "grows op (openAIWSIngressLeaseKey i)")
  case True
  then obtain mx l where "op = AcquireIngress i mx l" by (cases op) (auto simp: liveLeaseKeys_def)
  then show ?thesis using conn_acquired_size [OF assms(1), of mx l] assms(2) by simp
next
  case False
  then show ?thesis using passes_size [OF conn_keeps [of srv i op s c]] assms(1)
    by (simp add: conn_good_def ZCARD_size)
qed

lemma conn_grants:
  assumes "conn_asks i srv s op = Some l" and "fst (slot_step c srv op s)"
  shows "map_get (conn_members i (snd (slot_step c srv op s))) l = Some (unixSeconds srv)"
proof -
  have t: "0 < openAIWSIngressLeaseTTLSeconds" by (simp add: openAIWSIngressLeaseTTLSeconds_def)
  consider mx where "op = AcquireIngress i mx l" | "op = RefreshIngress i l"
    using assms(1) by (cases op) (auto split: if_splits)
  then show ?thesis
    using assms(2)
    by cases (auto simp: AcquireOpenAIWSIngressLease_def acquireOpenAIWSIngressLeaseScript_def
        RefreshOpenAIWSIngressLease_def refreshOpenAIWSIngressLeaseScript_def Let_def conn_members_def
        takeSlot_members [OF t] split: if_splits)
qed

interpretation conns: leased_pool "slot_step c" "conn_asks i" "conn_drops i" "conn_members i"
  "\<lambda>_. openAIWSIngressLeaseTTLSeconds" "conn_good limit i" "conn_allowed limit i" limit
proof
  fix srv srv' s op
  show "conn_good limit i srv s \<Longrightarrow> srv \<le> srv' \<Longrightarrow> conn_good limit i srv' s"
    using zset_size_later [of srv srv' "rd_zsets s (openAIWSIngressLeaseKey i)"]
    by (auto simp: conn_good_def ZCARD_size intro: slot_ok_later)
next
  fix srv s op
  assume "conn_good limit i srv s" "conn_allowed limit i op"
  then show "conn_good limit i srv (snd (slot_step c srv op s))"
    using conn_keeps [of srv i op s c] conn_step_size [of limit i srv s op c] by (simp add: conn_good_def passes_def)
next
  fix srv s op h t
  assume "conn_good limit i srv s" "map_get (conn_members i s) h = Some t"
    "unixSeconds srv - t < openAIWSIngressLeaseTTLSeconds" "\<not> conn_drops i op h"
  then show "\<exists>t' \<ge> t. map_get (conn_members i (snd (slot_step c srv op s))) h = Some t'"
    using conn_keeps [of srv i op s c] by (simp add: conn_good_def passes_def conn_members_def)
next
  fix srv s op h
  assume "conn_asks i srv s op = Some h" "fst (slot_step c srv op s)"
  then show "map_get (conn_members i (snd (slot_step c srv op s))) h = Some (unixSeconds srv)" by (rule conn_grants)
next
  fix srv s
  assume "conn_good limit i srv s"
  then show "int (length (filter (\<lambda>(h, t). unixSeconds srv - t < openAIWSIngressLeaseTTLSeconds) (conn_members i s))) \<le> limit"
    using alive_size [of openAIWSIngressLeaseTTLSeconds srv "rd_zsets s (openAIWSIngressLeaseKey i)"]
    by (simp add: conn_good_def ZCARD_size conn_members_def)
qed

lemma empty_conns: "0 \<le> limit \<Longrightarrow> conn_good limit i srv emptyRedis"
  by (simp add: conn_good_def ZCARD_size emptyRedis_def)

text \<open>A refresh never brings a lost lease back.\<close>

lemma lost_lease_refused:
  assumes "fst (RefreshOpenAIWSIngressLease srv i l s)"
  shows "ZSCORE srv (openAIWSIngressLeaseKey i) l
    (ZREMRANGEBYSCORE srv (openAIWSIngressLeaseKey i) (unixSeconds srv - openAIWSIngressLeaseTTLSeconds) s) \<noteq> None"
  using assms by (auto simp: RefreshOpenAIWSIngressLease_def refreshOpenAIWSIngressLeaseScript_def Let_def split: if_splits)

subsection \<open>Waiting requests\<close>

fun wait_allowed :: "int \<Rightarrow> gostring \<Rightarrow> slot_op \<Rightarrow> bool" where
  "wait_allowed mx key (WaitUser u m) \<longleftrightarrow> (waitQueueKey u = key \<longrightarrow> m \<le> mx)"
| "wait_allowed mx key (WaitAccount a m) \<longleftrightarrow> (accountWaitKey a = key \<longrightarrow> m \<le> mx)"
| "wait_allowed mx key op \<longleftrightarrow> True"

definition wait_ok :: "int \<Rightarrow> gostring \<Rightarrow> redis \<Rightarrow> bool" where
  "wait_ok mx key s \<longleftrightarrow> (case rd_counts s key of None \<Rightarrow> True | Some (n, _) \<Rightarrow> 0 \<le> n \<and> n \<le> mx)"


named_theorems count_frames "what leaves the counters alone"

lemma counts_zsets [count_frames]:
  "rd_counts (ZADD srv k score m s) = rd_counts s" "rd_counts (ZREM srv k m s) = rd_counts s"
  "rd_counts (ZREMRANGEBYSCORE srv k cutoff s) = rd_counts s" "rd_counts (EXPIRE srv k ttl s) = rd_counts s"
  by (simp_all add: ZADD_def ZREM_def ZREMRANGEBYSCORE_def EXPIRE_def zsetPut_def Let_def)

lemma counts_scripts [count_frames]:
  "rd_counts (takeSlot srv k ttl m s) = rd_counts s"
  "rd_counts (touchActiveIndexAt srv k i e s) = rd_counts s"
  by (simp_all add: takeSlot_def touchActiveIndexAt_def count_frames)

lemma counts_marked [count_frames]:
  "rd_counts (snd (case r of ((ok, now), s1) \<Rightarrow>
      (ok, if ok then touchActiveIndexAt srv k i (now + e) s1 else s1))) = rd_counts (snd r)"
  by (simp add: count_frames split: prod.split)

lemma counts_fold: "(\<And>x s. rd_counts (f x s) = rd_counts s) \<Longrightarrow> rd_counts (fold f xs s) = rd_counts s"
  by (induction xs arbitrary: s) simp_all

lemma counts_acquire [count_frames]: "rd_counts (snd (acquireScript srv k l mx ttl r s)) = rd_counts s"
  by (simp add: acquireScript_def Let_def count_frames)

lemma counts_leaseHeld [count_frames]: "rd_counts (snd (leaseHeld srv e l keys s)) = rd_counts s"
  by (induction keys arbitrary: s) (simp_all add: Let_def count_frames)

lemma counts_refreshLive [count_frames]: "rd_counts (snd (refreshLiveLeaseScript srv keys ttl l s)) = rd_counts s"
proof -
  obtain held s1 where h: "leaseHeld srv (unixSeconds srv - ttl) l keys s = (held, s1)" by fastforce
  then have "rd_counts s1 = rd_counts s" using counts_leaseHeld [of srv "unixSeconds srv - ttl" l keys s] by simp
  then show ?thesis by (cases held) (simp_all add: refreshLiveLeaseScript_def h counts_fold count_frames)
qed

lemma counts_readLoad [count_frames]: "rd_counts (snd (readActiveLoadForKey c srv m k w s)) = rd_counts s"
  by (simp add: readActiveLoadForKey_def Let_def count_frames)

lemma counts_refreshIndex [count_frames]: "rd_counts (refreshActiveIndex c srv k i sk wk s) = rd_counts s"
proof -
  obtain load s1 where l: "readActiveLoadForKey c srv (itoa i) sk wk s = (load, s1)" by fastforce
  then have "rd_counts s1 = rd_counts s" using counts_readLoad [of c srv "itoa i" sk wk s] by simp
  then show ?thesis by (simp add: refreshActiveIndex_def l Let_def count_frames)
qed

lemma counts_countSlots [count_frames]: "rd_counts (snd (countSlots c srv k l s)) = rd_counts s"
  by (simp add: countSlots_def Let_def count_frames)

lemma counts_count_fold:
  "rd_counts (snd (fold (\<lambda>x (result, s). case countSlots c srv (f x) (h x) s of
      (n, s1) \<Rightarrow> (g x n s1 result, s1)) xs (r, s))) = rd_counts s"
proof (induction xs arbitrary: r s)
  case (Cons x xs)
  obtain n s1 where l: "countSlots c srv (f x) (h x) s = (n, s1)" by fastforce
  then have "rd_counts s1 = rd_counts s" using counts_countSlots [of c srv "f x" "h x" s] by simp
  then show ?case using Cons.IH [of "g x n s1 r" s1] l by simp
qed simp

lemma counts_readIndexLoads [count_frames]: "rd_counts (snd (readIndexLoads c srv spec ms s)) = rd_counts s"
proof (induction ms arbitrary: s)
  case (Cons m ms)
  show ?case
  proof (cases "indexId m")
    case None
    obtain loads stale s2 where "readIndexLoads c srv spec ms s = ((loads, stale), s2)" by (metis prod.exhaust)
    then show ?thesis using Cons.IH [of s] None by simp
  next
    case (Some i)
    obtain load s1 where l: "readActiveLoadForKey c srv m (si_slotKey spec i) (si_waitKey spec i) s = (load, s1)"
      by fastforce
    then have "rd_counts s1 = rd_counts s"
      using counts_readLoad [of c srv m "si_slotKey spec i" "si_waitKey spec i" s] by simp
    moreover obtain loads stale s2 where "readIndexLoads c srv spec ms s1 = ((loads, stale), s2)"
      by (metis prod.exhaust)
    ultimately show ?thesis using Cons.IH [of s1] Some l by simp
  qed
qed simp

lemma counts_reconcile [count_frames]: "rd_counts (reconcileExpiredIndexCandidates c srv spec s) = rd_counts s"
proof -
  let ?ms = "ZRANGEBYSCORE srv (si_indexKey spec) (unixSeconds srv) activeIndexCleanupBatchSize s"
  obtain loads stale s1 where r: "readIndexLoads c srv spec ?ms s = ((loads, stale), s1)" by (metis prod.exhaust)
  then have "rd_counts s1 = rd_counts s" using counts_readIndexLoads [of c srv spec ?ms s] by simp
  then show ?thesis
    by (simp add: reconcileExpiredIndexCandidates_def r removeActiveIndexMembers_def Let_def counts_fold count_frames)
qed

text \<open>The cleanup deletes counters, and changes none.\<close>

definition fewer_counts :: "redis \<Rightarrow> redis \<Rightarrow> bool" where
  "fewer_counts s s' \<longleftrightarrow> (\<forall>k. rd_counts s' k = rd_counts s k \<or> rd_counts s' k = None)"

lemma fewer_counts_trans: "fewer_counts s s' \<Longrightarrow> fewer_counts s' s'' \<Longrightarrow> fewer_counts s s''"
  unfolding fewer_counts_def by metis

lemma fewer_counts_same: "rd_counts s' = rd_counts s \<Longrightarrow> fewer_counts s s'"
  by (simp add: fewer_counts_def)

lemma fewer_counts_DEL: "fewer_counts s (DEL k s)"
  by (simp add: fewer_counts_def DEL_def)

lemma fewer_counts_startup: "fewer_counts s (snd (startupCleanupSlotScript srv k p ttl s))"
proof -
  let ?s1 = "fold (ZREM srv k) (filter (\<lambda>m. \<not> has_prefix m p) (ZRANGE srv k s)) s"
  have "rd_counts ?s1 = rd_counts s" by (rule counts_fold) (simp add: count_frames)
  then show ?thesis
    by (auto simp: startupCleanupSlotScript_def Let_def count_frames fewer_counts_def DEL_def)
qed

lemma fewer_counts_members: "fewer_counts s (snd (cleanupStaleMembers c srv spec p ms s))"
proof (induction ms arbitrary: s)
  case (Cons m ms)
  show ?case
  proof (cases "indexId m")
    case None
    obtain kept stale s2 where "cleanupStaleMembers c srv spec p ms s = ((kept, stale), s2)" by (metis prod.exhaust)
    then show ?thesis using Cons.IH [of s] None by simp
  next
    case (Some i)
    obtain n r s1 where l: "startupCleanupSlotScript srv (si_slotKey spec i) p (slotTTLSeconds c) s = ((n, r), s1)"
      by (metis prod.exhaust)
    let ?s1 = "DEL (si_waitKey spec i) s1"
    obtain kept stale s2 where k: "cleanupStaleMembers c srv spec p ms ?s1 = ((kept, stale), s2)"
      by (metis prod.exhaust)
    have "fewer_counts s s1" using fewer_counts_startup [of s srv "si_slotKey spec i" p "slotTTLSeconds c"] l by simp
    moreover have "fewer_counts ?s1 s2" using Cons.IH [of ?s1] k by simp
    ultimately have "fewer_counts s s2" using fewer_counts_DEL [of s1 "si_waitKey spec i"] fewer_counts_trans by blast
    then show ?thesis using Some l k by simp
  qed
qed (simp add: fewer_counts_same)

lemma fewer_counts_index: "fewer_counts s (cleanupStaleProcessSlotsForIndex c srv spec p s)"
proof -
  obtain kept stale s1 where k: "cleanupStaleMembers c srv spec p (ZRANGE srv (si_indexKey spec) s) s = ((kept, stale), s1)"
    by (metis prod.exhaust)
  then have "fewer_counts s s1"
    using fewer_counts_members [of s c srv spec p "ZRANGE srv (si_indexKey spec) s"] by simp
  then show ?thesis
    by (simp add: cleanupStaleProcessSlotsForIndex_def k removeActiveIndexMembers_def counts_fold count_frames
        fewer_counts_def)
qed

lemma fewer_counts_sweep: "fewer_counts s (sweepLegacyWaitKeysOnce s)"
  by (simp add: fewer_counts_def sweepLegacyWaitKeysOnce_def)

lemma wait_ok_fewer: "wait_ok mx key s \<Longrightarrow> fewer_counts s s' \<Longrightarrow> wait_ok mx key s'"
  by (auto simp: wait_ok_def fewer_counts_def split: option.splits prod.splits dest: spec [of _ key])

lemma wait_ok_same: "wait_ok mx key s \<Longrightarrow> rd_counts s' = rd_counts s \<Longrightarrow> wait_ok mx key s'"
  by (simp add: wait_ok_def)

lemma wait_ok_GET: "wait_ok mx key s \<Longrightarrow> GET srv key s = Some n \<Longrightarrow> 0 \<le> n \<and> n \<le> mx"
  by (auto simp: wait_ok_def GET_def split: option.splits prod.splits if_splits)

lemma wait_ok_INCRBY:
  assumes "wait_ok mx key s" and "k = key \<Longrightarrow> (let n = (case GET srv k s of None \<Rightarrow> 0 | Some n \<Rightarrow> n) + d in 0 \<le> n \<and> n \<le> mx)"
  shows "wait_ok mx key (INCRBY srv k d s)"
  using assms by (cases "k = key") (auto simp: wait_ok_def INCRBY_def countPut_def Let_def)

lemma wait_ok_EXPIRE: "wait_ok mx key s \<Longrightarrow> wait_ok mx key (EXPIRE_count srv k ttl s)"
  using wait_ok_GET [of mx key s srv]
  by (cases "k = key") (auto simp: EXPIRE_count_def countPut_def wait_ok_def split: option.split)

lemma wait_ok_increment:
  assumes "wait_ok mx key s" and "k = key \<Longrightarrow> m \<le> mx"
  shows "wait_ok mx key (snd (incrementWaitScript srv k m ttl s))"
proof -
  let ?n = "case GET srv k s of None \<Rightarrow> 0 | Some n \<Rightarrow> n"
  have "wait_ok mx key (INCRBY srv k 1 s)" if "\<not> m \<le> ?n"
    using that assms wait_ok_GET [OF assms(1), of srv]
    by (intro wait_ok_INCRBY) (auto simp: Let_def split: option.splits)
  then show ?thesis using assms(1) by (auto simp: incrementWaitScript_def Let_def intro: wait_ok_EXPIRE)
qed

lemma wait_ok_decrement:
  assumes "wait_ok mx key s"
  shows "wait_ok mx key (decrementWaitScript srv k s)"
  using assms wait_ok_GET [OF assms, of srv]
  by (auto simp: decrementWaitScript_def Let_def split: option.split intro!: wait_ok_INCRBY)

lemma wait_ok_touch:
  "wait_ok mx key s1 \<Longrightarrow> wait_ok mx key (if ok then touchActiveIndexAt srv k i e s1 else s1)"
  by (auto intro: wait_ok_same simp: count_frames)

lemma wait_ok_step:
  assumes "wait_ok mx key s" and "wait_allowed mx key op"
  shows "wait_ok mx key (snd (slot_step c srv op s))"
proof (cases op)
  case (WaitUser u m)
  then show ?thesis using wait_ok_increment [OF assms(1), of "waitQueueKey u" m srv "waitQueueTTLSeconds c"] assms(2)
    by (auto simp: IncrementWaitCount_def intro: wait_ok_same simp: count_frames split: prod.split)
next
  case (WaitAccount a m)
  then show ?thesis using wait_ok_increment [OF assms(1), of "accountWaitKey a" m srv "waitQueueTTLSeconds c"] assms(2)
    by (auto simp: IncrementAccountWaitCount_def intro: wait_ok_same simp: count_frames split: prod.split)
next
  case (LeaveUser u)
  then show ?thesis using wait_ok_decrement [OF assms(1), of srv "waitQueueKey u"]
    by (auto simp: DecrementWaitCount_def refreshUserActiveIndex_def intro: wait_ok_same simp: count_frames)
next
  case (LeaveAccount a)
  then show ?thesis using wait_ok_decrement [OF assms(1), of srv "accountWaitKey a"]
    by (auto simp: DecrementAccountWaitCount_def refreshAccountActiveIndex_def intro: wait_ok_same simp: count_frames)
next
  case (Startup p)
  have "fewer_counts s (CleanupStaleProcessSlots c srv p s)"
    using fewer_counts_trans [OF fewer_counts_trans [OF fewer_counts_sweep fewer_counts_index] fewer_counts_index]
    by (simp add: CleanupStaleProcessSlots_def fewer_counts_same)
  then show ?thesis using wait_ok_fewer [OF assms(1)] Startup by simp
next
  case (CleanAccount a)
  have "fewer_counts s (CleanupExpiredAccountSlots c srv a s)"
    by (simp add: CleanupExpiredAccountSlots_def refreshAccountActiveIndex_def cleanupExpiredSlotsScript_def Let_def
        count_frames fewer_counts_def DEL_def)
  then show ?thesis using wait_ok_fewer [OF assms(1)] CleanAccount by simp
qed (rule wait_ok_same [OF assms(1)];
  simp add: AcquireAccountSlot_def AcquireUserSlot_def ReleaseAccountSlot_def ReleaseUserSlot_def TrackAPIKeySlot_def
    trackSlotScript_def ReleaseAPIKeySlot_def AcquireOpenAIWSIngressLease_def acquireOpenAIWSIngressLeaseScript_def
    RefreshOpenAIWSIngressLease_def refreshOpenAIWSIngressLeaseScript_def ReleaseOpenAIWSIngressLease_def
    AcquireLiveLease_def acquireLiveLeaseScript_def RefreshLiveLease_def ReleaseLiveLease_def
    refreshAccountActiveIndex_def refreshUserActiveIndex_def GetAccountConcurrency_def GetUserConcurrency_def
    getCountScript_def GetAccountConcurrencyBatch_def GetAPIKeyConcurrencyBatch_def GetAccountsLoadBatch_def
    GetUsersLoadBatch_def CleanupExpiredAccountSlotKeys_def Let_def counts_fold counts_count_fold count_frames)+


definition slot_state :: "concurrencyCache \<Rightarrow> (int \<times> slot_op) list \<Rightarrow> redis" where
  "slot_state c ops = fold (\<lambda>(srv, op) s. snd (slot_step c srv op s)) ops emptyRedis"

text \<open>The counter of the requests that wait for an account or a user never goes below zero nor above
  the largest queue that a caller allows, in any sequence of the operations of the cache, with its
  expiries, cleanups and start-ups.\<close>

theorem wait_queue_bounded:
  assumes "\<forall>x \<in> set ops. wait_allowed mx key (snd x)" and "GET now key (slot_state c ops) = Some n"
  shows "0 \<le> n \<and> n \<le> mx"
proof -
  have "wait_ok mx key s \<Longrightarrow> wait_ok mx key (fold (\<lambda>(srv, op) s. snd (slot_step c srv op s)) ops s)" for s
    using assms(1)
  proof (induction ops arbitrary: s)
    case (Cons x ops)
    obtain srv op where x: "x = (srv, op)" by (cases x)
    have "wait_ok mx key (snd (slot_step c srv op s))" using Cons.prems x by (intro wait_ok_step) auto
    then show ?case using Cons x by simp
  qed simp
  moreover have "wait_ok mx key emptyRedis" by (simp add: wait_ok_def emptyRedis_def)
  ultimately have "wait_ok mx key (slot_state c ops)" by (simp add: slot_state_def)
  then show ?thesis using assms(2) by (rule wait_ok_GET)
qed

definition demo_waits :: "(int \<times> slot_op) list" where
  "demo_waits = [(1000, WaitUser 7 2), (2000, WaitUser 7 2), (3000, WaitUser 7 2), (4000, LeaveUser 7)]"

lemma demo_waits_state: "GET 5000 (waitQueueKey 7) (slot_state (NewConcurrencyCache 15 0) demo_waits) = Some 1"
  by code_simp

theorem wait_queue_bounded_witness:
  "GET 5000 (waitQueueKey 7) (slot_state (NewConcurrencyCache 15 0) demo_waits) = Some 1 \<and> (0::int) \<le> 1 \<and> (1::int) \<le> 2"
proof -
  have "\<forall>x \<in> set demo_waits. wait_allowed 2 (waitQueueKey 7) (snd x)" by (simp add: demo_waits_def)
  from wait_queue_bounded [OF this demo_waits_state] show ?thesis using demo_waits_state by simp
qed

definition conn_run :: "concurrencyCache \<Rightarrow> int \<Rightarrow> (int \<times> slot_op) list \<Rightarrow> (gostring, int) gomap" where
  "conn_run c i ops = snd (fold (held_step (slot_step c) (conn_asks i) (conn_drops i)) ops (emptyRedis, []))"

text \<open>At any moment an API key has at most \<open>limit\<close> connections whose lease was acquired or refreshed
  within the last minute and not released, across all instances, if no acquisition names a larger
  limit; a refresh of a lease that was lost does not count as one.\<close>

theorem connections_bounded:
  assumes "0 \<le> limit" and "ordered_from start ops" and "\<forall>x \<in> set ops. conn_allowed limit i (snd x)"
    and "end_time start ops \<le> now"
  shows "int (length (running (\<lambda>_. openAIWSIngressLeaseTTLSeconds) now (conn_run c i ops))) \<le> limit"
  unfolding conn_run_def
  by (rule conns.running_bounded [where srv = start and limit = limit]) (use assms in \<open>simp_all add: empty_conns\<close>)

definition demo_conns :: "(int \<times> slot_op) list" where
  "demo_conns = [(1000, AcquireIngress 3 1 ''a''), (20000, RefreshIngress 3 ''a''), (30000, AcquireIngress 3 1 ''b'')]"

lemma demo_conns_run: "conn_run (NewConcurrencyCache 15 0) 3 demo_conns = [(''a'', 20)]"
  by code_simp

theorem connections_bounded_witness:
  "conn_run (NewConcurrencyCache 15 0) 3 demo_conns = [(''a'', 20)] \<and>
   int (length (running (\<lambda>_. openAIWSIngressLeaseTTLSeconds) 40000 (conn_run (NewConcurrencyCache 15 0) 3 demo_conns))) \<le> 1"
proof -
  have "ordered_from 0 demo_conns" "end_time 0 demo_conns \<le> 40000" "\<forall>x \<in> set demo_conns. conn_allowed 1 3 (snd x)"
    by (simp_all add: demo_conns_def)
  from connections_bounded [OF _ this(1,3,2), of "NewConcurrencyCache 15 0"] show ?thesis by (simp add: demo_conns_run)
qed

end
