(* ===== verification/JsonFuel.thy ===== *)
theory JsonFuel
  imports JsonText
begin

text \<open>
  The fuel of the scanners of \<open>JsonText\<close> is enough: more of it never changes an answer, so a text is
  invalid because no value is there and not because the scanner gave up.
\<close>

lemma consumed_shorter: "consumed s r \<Longrightarrow> length r < length s"
  by (auto simp: consumed_def)

lemma skip_space_le: "length (skip_space s) \<le> length s"
  by (simp add: skip_space_def length_dropWhile_le)

lemma skip_space_Cons_le: "skip_space s = d # u \<Longrightarrow> length u < length s"
  using skip_space_le [of s] by simp

lemma scan_value_shorter: "scan_value n s = Some r \<Longrightarrow> length r < length s"
  by (rule consumed_shorter) (rule scan_consumed)

lemma scan_string_shorter: "scan_string s = Some r \<Longrightarrow> length r < length s"
  by (rule consumed_shorter) (rule scan_string_consumed)

lemma scan_step:
  "2 * length s + 1 \<le> n \<Longrightarrow> scan_value (Suc n) s = scan_value n s"
  "2 * length s + 2 \<le> n \<Longrightarrow> scan_items (Suc n) s = scan_items n s"
  "2 * length s + 2 \<le> n \<Longrightarrow> scan_members (Suc n) s = scan_members n s"
proof (induction n arbitrary: s)
  case (Suc n)
  {
    case 1
    show ?case
    proof (cases s)
      case (Cons c t)
      have "2 * length (skip_space t) + 2 \<le> n" using 1 Cons skip_space_le [of t] by simp
      then have "scan_items (Suc n) (skip_space t) = scan_items n (skip_space t)"
        "scan_members (Suc n) (skip_space t) = scan_members n (skip_space t)"
        by (rule Suc.IH(2), rule Suc.IH(3))
      then show ?thesis
        by (simp only: Cons scan_value.simps(2) [of "Suc n"] scan_value.simps(2) [of n] list.case)
    qed simp
  next
    case 2
    have v: "scan_value (Suc n) s = scan_value n s" using 2 by (intro Suc.IH(1)) simp
    have "scan_items (Suc n) (skip_space u) = scan_items n (skip_space u)"
      if "scan_value n s = Some r" "skip_space r = d # u" for r d u
      using 2 scan_value_shorter [OF that(1)] skip_space_Cons_le [OF that(2)] skip_space_le [of u]
      by (intro Suc.IH(2)) simp
    from this show ?case
      by (simp only: scan_items.simps(2) [of "Suc n"] scan_items.simps(2) [of n] v cong: option.case_cong list.case_cong)
  next
    case 3
    have v: "scan_value (Suc n) (skip_space u) = scan_value n (skip_space u)"
      if "s = q # t" "scan_string t = Some r" "skip_space r = d # u" for q t r d u
      using 3 that(1) scan_string_shorter [OF that(2)] skip_space_Cons_le [OF that(3)] skip_space_le [of u]
      by (intro Suc.IH(1)) simp
    have "scan_members (Suc n) (skip_space w) = scan_members n (skip_space w)"
      if "s = q # t" "scan_string t = Some r" "skip_space r = d # u" "scan_value n (skip_space u) = Some v"
        "skip_space v = e # w" for q t r d u v e w
      using 3 that(1) scan_string_shorter [OF that(2)] skip_space_Cons_le [OF that(3)] skip_space_le [of u]
        scan_value_shorter [OF that(4)] skip_space_Cons_le [OF that(5)] skip_space_le [of w]
      by (intro Suc.IH(3)) simp
    from this v show ?case
      by (simp only: scan_members.simps(2) [of "Suc n"] scan_members.simps(2) [of n] cong: option.case_cong list.case_cong)
  }
qed auto

lemma scan_value_fuel: "json_fuel s \<le> n \<Longrightarrow> scan_value n s = scan_value (json_fuel s) s"
proof (induction n rule: dec_induct)
  case (step n)
  then have "scan_value (Suc n) s = scan_value n s" by (intro scan_step) (simp add: json_fuel_def)
  then show ?case using step by simp
qed simp

lemma object_members_fuel: "length s \<le> n \<Longrightarrow> object_members n s = object_members (length s) s"
proof (induction "length s" arbitrary: s n rule: less_induct)
  case less
  show ?case
  proof (cases s)
    case Nil
    then show ?thesis by (cases n) simp_all
  next
    case (Cons q t)
    then obtain m where n: "n = Suc m" "length t \<le> m" using less.prems by (cases n) auto
    have "object_members m (skip_space w) = object_members (length t) (skip_space w)"
      if "scan_string t = Some r" "scan_value k (skip_space (drop 1 (skip_space r))) = Some v" "skip_space v = e # w"
      for r v e w k
    proof -
      have "length (skip_space w) < length t"
        using scan_string_shorter [OF that(1)] scan_value_shorter [OF that(2)] skip_space_Cons_le [OF that(3)]
          skip_space_le [of "drop 1 (skip_space r)"] skip_space_le [of r] skip_space_le [of w] by simp
      then show ?thesis
        using less.hyps [of "skip_space w" m] less.hyps [of "skip_space w" "length t"] n(2) Cons by simp
    qed
    from this show ?thesis
      by (simp only: n Cons length_Cons object_members.simps(2) Let_def list.case cong: option.case_cong list.case_cong)
  qed
qed

text \<open>The JSON scanner always comes to an answer within its fuel: with any larger amount it accepts and
  rejects the same texts, leaves the same rest and decodes the same members, so running out of fuel is
  never the reason for an answer.\<close>

theorem json_scanner_terminates:
  "(\<forall>n. json_fuel s \<le> n \<longrightarrow> scan_value n s = scan_value (json_fuel s) s) \<and>
   (\<forall>n. length s \<le> n \<longrightarrow> object_members n s = object_members (length s) s)"
  by (intro conjI allI impI scan_value_fuel object_members_fuel)

theorem json_scanner_terminates_witness:
  "scan_value 100 ''{}x'' = scan_value (json_fuel ''{}x'') ''{}x'' \<and> scan_value (json_fuel ''{}x'') ''{}x'' = Some ''x''"
proof
  have "json_fuel ''{}x'' \<le> 100" by (simp add: json_fuel_def)
  then show "scan_value 100 ''{}x'' = scan_value (json_fuel ''{}x'') ''{}x''"
    by (rule json_scanner_terminates [THEN conjunct1, THEN spec, THEN mp])
  show "scan_value (json_fuel ''{}x'') ''{}x'' = Some ''x''" by code_simp
qed

end
