(* ===== verification/Accounts.thy ===== *)
theory Accounts
  imports CompositeRoute Complex_Main
begin

text \<open>
  The settings of an upstream account that the modelled code reads, from \<open>service/account.go\<close>.
  \<open>Credentials\<close> and \<open>Extra\<close> are decoded JSON objects: a key that is absent is not in the map. A
  \<open>float64\<close> is the real number it stands for, and \<open>int(v)\<close> of one in the range of \<open>int\<close> cuts
  towards zero.
\<close>

datatype any_value =
    AnyNil
  | AnyBool bool
  | AnyInt int
  | AnyInt64 int
  | AnyFloat64 real
  | AnyNumber gostring
  | AnyString gostring
  | AnyObject

definition AccountTypeOAuth :: gostring where "AccountTypeOAuth = ''oauth''"
definition AccountTypeSetupToken :: gostring where "AccountTypeSetupToken = ''setup-token''"
definition AccountTypeAPIKey :: gostring where "AccountTypeAPIKey = ''apikey''"
definition AccountTypeBedrock :: gostring where "AccountTypeBedrock = ''bedrock''"
definition AccountTypeKiro :: gostring where "AccountTypeKiro = ''kiro''"

lemmas account_types = AccountTypeOAuth_def AccountTypeSetupToken_def AccountTypeAPIKey_def
  AccountTypeBedrock_def AccountTypeKiro_def

text \<open>A nil map has no entry, so that looking one up needs no test of its own.\<close>

record account =
  ac_ID :: int
  ac_Platform :: gostring
  ac_Type :: gostring
  ac_Credentials :: "(gostring, any_value) gomap"
  ac_Extra :: "(gostring, any_value) gomap"

definition int_of_float :: "real \<Rightarrow> int" where
  "int_of_float x = (if 0 \<le> x then \<lfloor>x\<rfloor> else \<lceil>x\<rceil>)"

fun parse_any_int :: "int \<Rightarrow> any_value \<Rightarrow> int" where
  "parse_any_int d (AnyInt i) = i"
| "parse_any_int d (AnyInt64 i) = i"
| "parse_any_int d (AnyFloat64 x) = int_of_float x"
| "parse_any_int d (AnyNumber s) = (case parse_int64 s of Some i \<Rightarrow> i | None \<Rightarrow> d)"
| "parse_any_int d (AnyString s) = (case parse_int64 (trim_space s) of Some i \<Rightarrow> i | None \<Rightarrow> d)"
| "parse_any_int d _ = d"

definition defaultPoolModeRetryCount :: int where "defaultPoolModeRetryCount = 3"
definition maxPoolModeRetryCount :: int where "maxPoolModeRetryCount = 10"

definition parsePoolModeRetryCount :: "any_value \<Rightarrow> int" where
  "parsePoolModeRetryCount v = parse_any_int defaultPoolModeRetryCount v"

definition parseExtraInt :: "any_value \<Rightarrow> int" where
  "parseExtraInt v = parse_any_int 0 v"

definition IsAPIKeyOrBedrock :: "account \<Rightarrow> bool" where
  "IsAPIKeyOrBedrock a \<longleftrightarrow> ac_Type a = AccountTypeAPIKey \<or> ac_Type a = AccountTypeBedrock"

definition SupportsPoolMode :: "account \<Rightarrow> bool" where
  "SupportsPoolMode a \<longleftrightarrow> IsAPIKeyOrBedrock a \<or> ac_Type a = AccountTypeKiro"

definition IsPoolMode :: "account \<Rightarrow> bool" where
  "IsPoolMode a \<longleftrightarrow> SupportsPoolMode a \<and> map_get (ac_Credentials a) ''pool_mode'' = Some (AnyBool True)"

definition GetPoolModeRetryCount :: "account \<Rightarrow> int" where
  "GetPoolModeRetryCount a =
     (if \<not> IsPoolMode a then defaultPoolModeRetryCount
      else case map_get (ac_Credentials a) ''pool_mode_retry_count'' of
             None \<Rightarrow> defaultPoolModeRetryCount
           | Some raw \<Rightarrow>
               if raw = AnyNil then defaultPoolModeRetryCount
               else let count = parsePoolModeRetryCount raw in
                    if count < 0 then 0
                    else if maxPoolModeRetryCount < count then maxPoolModeRetryCount
                    else count)"

definition IsAnthropicOAuthOrSetupToken :: "account \<Rightarrow> bool" where
  "IsAnthropicOAuthOrSetupToken a \<longleftrightarrow> ac_Platform a = PlatformAnthropic \<and>
     (ac_Type a = AccountTypeOAuth \<or> ac_Type a = AccountTypeSetupToken)"

definition GetMaxSessions :: "account \<Rightarrow> int" where
  "GetMaxSessions a =
     (case map_get (ac_Extra a) ''max_sessions'' of Some v \<Rightarrow> parseExtraInt v | None \<Rightarrow> 0)"

definition GetSessionIdleTimeoutMinutes :: "account \<Rightarrow> int" where
  "GetSessionIdleTimeoutMinutes a =
     (case map_get (ac_Extra a) ''session_idle_timeout_minutes'' of
        Some v \<Rightarrow> if 0 < parseExtraInt v then parseExtraInt v else 5
      | None \<Rightarrow> 5)"

definition GetBaseRPM :: "account \<Rightarrow> int" where
  "GetBaseRPM a =
     (case map_get (ac_Extra a) ''base_rpm'' of
        Some v \<Rightarrow> if 0 < parseExtraInt v then parseExtraInt v else 0
      | None \<Rightarrow> 0)"

lemma pool_retries_bounded: "0 \<le> GetPoolModeRetryCount a \<and> GetPoolModeRetryCount a \<le> 10"
  by (simp add: GetPoolModeRetryCount_def defaultPoolModeRetryCount_def maxPoolModeRetryCount_def Let_def
      split: option.split)

end
