(* ===== verification/Failover.thy ===== *)
theory Failover
  imports Accounts
begin

text \<open>
  What the gateway does when an upstream request fails, from \<open>handler/failover_loop.go\<close>: retry on the
  same account, move to another one, back off, or give up. The clock is an argument; whether the
  context of the request was cancelled before a step or during a sleep is one too. Sleeping and
  banning an account are effects, listed in the order in which they happen.
\<close>

datatype next_account_action = NextAccountLegacyRetry | NextAccountRetry | NextAccountStop

record failoverError =
  fe_StatusCode :: int
  fe_ForceCacheBilling :: bool
  fe_RetryableOnSameAccount :: bool
  fe_SameAccountRetryDelay :: goduration
  fe_SameAccountRetryDeadline :: gotime
  fe_SameAccountRetryMax :: int
  fe_RequestScopedTransient :: bool
  fe_NextAccountAction :: next_account_action

definition ShouldRetryNextAccount :: "failoverError option \<Rightarrow> bool" where
  "ShouldRetryNextAccount e =
     (case e of None \<Rightarrow> False | Some e \<Rightarrow> fe_NextAccountAction e \<noteq> NextAccountStop)"

datatype account_ban = GoogleConfigError | EmptyResponse

definition TempUnscheduleRetryableError :: "failoverError option \<Rightarrow> account_ban option" where
  "TempUnscheduleRetryableError err =
     (case err of
        None \<Rightarrow> None
      | Some e \<Rightarrow>
          if \<not> fe_RetryableOnSameAccount e then None
          else if fe_RequestScopedTransient e then None
          else if fe_StatusCode e = 400 then Some GoogleConfigError
          else if fe_StatusCode e = 502 then Some EmptyResponse
          else None)"

datatype failover_action = FailoverContinue | FailoverExhausted | FailoverCanceled

definition sameAccountRetryDelay :: goduration where "sameAccountRetryDelay = 500 * millisecond"
definition maxRequestScopedRetryDelay :: goduration where "maxRequestScopedRetryDelay = 8 * second"
definition singleAccountBackoffDelay :: goduration where "singleAccountBackoffDelay = 2 * second"
definition maxProfitVetoAttempts :: int where "maxProfitVetoAttempts = 10"

lemmas failover_constants = sameAccountRetryDelay_def maxRequestScopedRetryDelay_def
  singleAccountBackoffDelay_def maxProfitVetoAttempts_def millisecond_def second_def

fun doubledDelay :: "nat \<Rightarrow> goduration \<Rightarrow> goduration" where
  "doubledDelay 0 delay = delay"
| "doubledDelay (Suc n) delay =
     (if quot maxRequestScopedRetryDelay 2 \<le> delay then maxRequestScopedRetryDelay
      else doubledDelay n (delay * 2))"

definition sameAccountRetryDelayFor :: "failoverError option \<Rightarrow> int \<Rightarrow> goduration" where
  "sameAccountRetryDelayFor err retryCount =
     (case err of
        None \<Rightarrow> sameAccountRetryDelay
      | Some e \<Rightarrow>
          if 0 < fe_SameAccountRetryDelay e then fe_SameAccountRetryDelay e
          else if \<not> fe_RequestScopedTransient e \<or> retryCount \<le> 1 then sameAccountRetryDelay
          else doubledDelay (nat (retryCount - 1)) sameAccountRetryDelay)"

definition sameAccountRetryDeadlineAllows :: "gotime \<Rightarrow> failoverError option \<Rightarrow> bool" where
  "sameAccountRetryDeadlineAllows now err =
     (case err of
        None \<Rightarrow> True
      | Some e \<Rightarrow> time_is_zero (fe_SameAccountRetryDeadline e) \<or> now < fe_SameAccountRetryDeadline e)"

definition sameAccountRetryAllowed :: "gotime \<Rightarrow> failoverError option \<Rightarrow> int \<Rightarrow> int \<Rightarrow> bool" where
  "sameAccountRetryAllowed now err retryCount retryLimit =
     (case err of
        None \<Rightarrow> False
      | Some e \<Rightarrow>
          if \<not> fe_RetryableOnSameAccount e then False
          else if \<not> sameAccountRetryDeadlineAllows now err then False
          else if 0 < fe_SameAccountRetryMax e then
            if retryLimit \<le> 0 then False
            else retryCount < (if fe_SameAccountRetryMax e < retryLimit then fe_SameAccountRetryMax e else retryLimit)
          else if \<not> time_is_zero (fe_SameAccountRetryDeadline e) then True
          else 0 < retryLimit \<and> retryCount < retryLimit)"

definition effectiveSameAccountRetryLimit :: "failoverError option \<Rightarrow> account option \<Rightarrow> int" where
  "effectiveSameAccountRetryLimit err acc =
     (case acc of
        None \<Rightarrow> 0
      | Some a \<Rightarrow>
          let limit = GetPoolModeRetryCount a in
          case err of
            None \<Rightarrow> limit
          | Some e \<Rightarrow>
              if 0 < limit \<and> 0 < fe_SameAccountRetryMax e \<and> fe_SameAccountRetryMax e < limit
              then fe_SameAccountRetryMax e else limit)"

subsection \<open>The state of one request\<close>

record FailoverState =
  fs_SwitchCount :: int
  fs_MaxSwitches :: int
  fs_FailedAccountIDs :: "int set"
  fs_SameAccountRetryCount :: "(int, int) gomap"
  fs_LastFailoverErr :: "failoverError option"
  fs_ForceCacheBilling :: bool
  fs_hasBoundSession :: bool
  fs_profitVetoedAccountIDs :: "int set"
  fs_profitVetoCount :: int

definition NewFailoverState :: "int \<Rightarrow> bool \<Rightarrow> FailoverState" where
  "NewFailoverState maxSwitches hasBoundSession =
     \<lparr>fs_SwitchCount = 0, fs_MaxSwitches = maxSwitches, fs_FailedAccountIDs = {},
      fs_SameAccountRetryCount = [], fs_LastFailoverErr = None, fs_ForceCacheBilling = False,
      fs_hasBoundSession = hasBoundSession, fs_profitVetoedAccountIDs = {}, fs_profitVetoCount = 0\<rparr>"

definition RecordProfitVeto :: "int \<Rightarrow> FailoverState \<Rightarrow> failover_action \<times> FailoverState" where
  "RecordProfitVeto accountID s =
     (let s' = s\<lparr>fs_FailedAccountIDs := insert accountID (fs_FailedAccountIDs s),
                 fs_profitVetoedAccountIDs := insert accountID (fs_profitVetoedAccountIDs s),
                 fs_profitVetoCount := fs_profitVetoCount s + 1\<rparr>
      in (if maxProfitVetoAttempts \<le> fs_profitVetoCount s' then FailoverExhausted else FailoverContinue, s'))"

definition allExclusionsAreProfitVetoed :: "FailoverState \<Rightarrow> bool" where
  "allExclusionsAreProfitVetoed s \<longleftrightarrow>
     fs_profitVetoedAccountIDs s \<noteq> {} \<and> fs_FailedAccountIDs s \<noteq> {} \<and>
     fs_FailedAccountIDs s \<subseteq> fs_profitVetoedAccountIDs s"

datatype failover_effect = Slept goduration | Banned int "account_ban option"

text \<open>\<open>slept\<close> is false when the context is cancelled while \<open>sleepWithContext\<close> waits.\<close>

definition sleepWithContext :: "bool \<Rightarrow> goduration \<Rightarrow> bool \<times> failover_effect list" where
  "sleepWithContext slept d = (if d \<le> 0 then (True, []) else (slept, [Slept d]))"

definition needForceCacheBilling :: "bool \<Rightarrow> failoverError option \<Rightarrow> bool \<Rightarrow> bool" where
  "needForceCacheBilling hasBoundSession err sameAccountRetry \<longleftrightarrow>
     (hasBoundSession \<and> \<not> sameAccountRetry) \<or> (case err of None \<Rightarrow> False | Some e \<Rightarrow> fe_ForceCacheBilling e)"

definition retriesOf :: "int \<Rightarrow> FailoverState \<Rightarrow> int" where
  "retriesOf accountID s =
     (case map_get (fs_SameAccountRetryCount s) accountID of None \<Rightarrow> 0 | Some n \<Rightarrow> n)"

definition HandleFailoverError ::
  "gotime \<Rightarrow> bool \<Rightarrow> bool \<Rightarrow> int \<Rightarrow> gostring \<Rightarrow> int \<Rightarrow> failoverError option \<Rightarrow> FailoverState \<Rightarrow>
   failover_action \<times> failover_effect list \<times> FailoverState" where
  "HandleFailoverError now ctxErr slept accountID plat retryLimit err s =
     (if ctxErr then (FailoverCanceled, [], s)
      else
        let s1 = s\<lparr>fs_LastFailoverErr := err\<rparr> in
        if \<not> ShouldRetryNextAccount err then (FailoverExhausted, [], s1)
        else
          let retryCount = retriesOf accountID s1;
              sameAccountRetry = sameAccountRetryAllowed now err retryCount retryLimit;
              s2 = (if needForceCacheBilling (fs_hasBoundSession s1) err sameAccountRetry
                    then s1\<lparr>fs_ForceCacheBilling := True\<rparr> else s1) in
          if sameAccountRetry then
            let s3 = s2\<lparr>fs_SameAccountRetryCount :=
                         map_put accountID (retryCount + 1) (fs_SameAccountRetryCount s2)\<rparr>;
                (ok, fx) = sleepWithContext slept (sameAccountRetryDelayFor err (retriesOf accountID s3))
            in (if ok then FailoverContinue else FailoverCanceled, fx, s3)
          else
            let bans = (case err of
                          Some e \<Rightarrow> if fe_RetryableOnSameAccount e
                                    then [Banned accountID (TempUnscheduleRetryableError err)] else []
                        | None \<Rightarrow> []);
                s3 = s2\<lparr>fs_FailedAccountIDs := insert accountID (fs_FailedAccountIDs s2)\<rparr> in
            if fs_MaxSwitches s3 \<le> fs_SwitchCount s3 then (FailoverExhausted, bans, s3)
            else
              let s4 = s3\<lparr>fs_SwitchCount := fs_SwitchCount s3 + 1\<rparr> in
              if plat = PlatformAntigravity then
                let (ok, fx) = sleepWithContext slept ((fs_SwitchCount s4 - 1) * second)
                in (if ok then FailoverContinue else FailoverCanceled, bans @ fx, s4)
              else (FailoverContinue, bans, s4))"

definition HandleSelectionExhausted ::
  "bool \<Rightarrow> bool \<Rightarrow> FailoverState \<Rightarrow> failover_action \<times> failover_effect list \<times> FailoverState" where
  "HandleSelectionExhausted ctxErr slept s =
     (if ctxErr then (FailoverCanceled, [], s)
      else case fs_LastFailoverErr s of
        None \<Rightarrow> (FailoverExhausted, [], s)
      | Some e \<Rightarrow>
          if fe_StatusCode e = 503 \<and> fs_SwitchCount s \<le> fs_MaxSwitches s then
            if allExclusionsAreProfitVetoed s then (FailoverExhausted, [], s)
            else
              let (ok, fx) = sleepWithContext slept singleAccountBackoffDelay in
              if \<not> ok then (FailoverCanceled, fx, s)
              else (FailoverContinue, fx, s\<lparr>fs_FailedAccountIDs := fs_profitVetoedAccountIDs s\<rparr>)
          else (FailoverExhausted, [], s))"

subsection \<open>What one decision changes\<close>

lemma doubledDelay_pos: "0 < delay \<Longrightarrow> 0 < doubledDelay n delay"
  by (induction n delay rule: doubledDelay.induct) (auto simp: failover_constants)

lemma doubledDelay_bound: "delay \<le> maxRequestScopedRetryDelay \<Longrightarrow> doubledDelay n delay \<le> maxRequestScopedRetryDelay"
  by (induction n delay rule: doubledDelay.induct) (auto simp: failover_constants quot_def)

lemma retry_delay_pos: "0 < sameAccountRetryDelayFor err n"
  by (auto simp: sameAccountRetryDelayFor_def failover_constants intro!: doubledDelay_pos split: option.split)

end
