(* ===== verification/GatewayLoop.thy ===== *)
theory GatewayLoop
  imports Failover
begin

text \<open>
  The loops of \<open>handler/gateway_handler.go\<close> that serve one request of the Messages API: select an
  account, take a slot, pass the profit gate, forward, and fail over. What the scheduler, the slots,
  the gate and upstream answer in one iteration is the record \<open>attempt\<close>; what the loop does to
  the shared state is its log. The caller has already admitted the request.
\<close>

subsection \<open>Answers from outside and effects\<close>

record fallback_group =
  fg_ID :: int
  fg_Platform :: gostring
  fg_Subscription :: bool
  fg_FallbackGroupIDOnInvalidRequest :: "int option"

text \<open>
  What \<open>Forward\<close> came to: an answer; an error that the policy, the length of the prompt or upstream
  caused; or another error, with the usage that was metered before it. With \<open>PromptTooLong\<close> come
  the group that \<open>ResolveGroupByID\<close> finds and whether billing admits the request there; with
  \<open>UpstreamFailed\<close>, whether bytes had been written to the client.
\<close>

datatype forward_outcome =
    Answered
  | BetaBlocked
  | PromptTooLong "fallback_group option" bool
  | UpstreamFailed failoverError bool
  | OtherFailure bool

record attempt =
  at_parsed :: bool
  at_elapsed :: goduration
  at_canceled :: bool
  at_slept :: bool
  at_selected :: "account option"
  at_intercepted :: bool
  at_acquired :: bool
  at_waitPlan :: bool
  at_canWait :: "bool option"
  at_slot :: bool
  at_latest :: account
  at_vetoed :: bool
  at_gateActive :: bool
  at_queueLock :: bool
  at_replaced :: bool
  at_outcome :: forward_outcome

record messages_request =
  rq_sessionKey :: gostring
  rq_boundAccountID :: int
  rq_maxSwitches :: int
  rq_fallbackGroupID :: "int option"

definition hasBoundSession :: "messages_request \<Rightarrow> bool" where
  "hasBoundSession rq \<longleftrightarrow> rq_sessionKey rq \<noteq> [] \<and> 0 < rq_boundAccountID rq"

datatype gateway_effect =
    SessionRegistered int
  | SessionReleased int
  | SlotTaken int
  | SlotReleased int
  | WaitJoined int
  | WaitLeft int
  | QueueLocked int
  | QueueReleased int
  | ProfitVetoed int
  | StickyAdmitted int
  | StickyBound int
  | Forwarded int
  | UsageSubmitted int
  | RPMCounted int
  | GroupSwitched int
  | Failover failover_effect

datatype gateway_answer =
    BadRequest
  | NoAccount
  | ClientGone
  | Exhausted "failoverError option"
  | Intercepted
  | NoSlot
  | QueueFull
  | SlotFailed
  | VetoExhausted
  | PolicyDenied
  | MappedError
  | BillingRefused
  | ForwardFailed
  | Delivered

datatype loop_next = Again | RetryWithFallback | Return gateway_answer

text \<open>
  \<open>ms_pending\<close> are the releases that \<open>wrapReleaseOnDone\<close> has hooked to the end of the request;
  \<open>ms_slotAccounts\<close> is \<open>sessionSlotAccounts\<close>.
\<close>

record messages_state =
  ms_fs :: FailoverState
  ms_clock :: gotime
  ms_fallbackUsed :: bool
  ms_slotAccounts :: "(int, account) gomap"
  ms_served :: bool
  ms_pending :: "gateway_effect list"
  ms_log :: "gateway_effect list"

definition emit :: "gateway_effect list \<Rightarrow> messages_state \<Rightarrow> messages_state" where
  "emit fx st = st\<lparr>ms_log := ms_log st @ fx\<rparr>"

subsection \<open>Sessions of an account\<close>

definition limitsSessions :: "gostring \<Rightarrow> account \<Rightarrow> bool" where
  "limitsSessions sessionKey a \<longleftrightarrow> IsAnthropicOAuthOrSetupToken a \<and> 0 < GetMaxSessions a \<and> sessionKey \<noteq> []"

definition registerSession :: "gostring \<Rightarrow> account \<Rightarrow> messages_state \<Rightarrow> messages_state" where
  "registerSession key a st = (if limitsSessions key a then emit [SessionRegistered (ac_ID a)] st else st)"

definition releaseSession :: "gostring \<Rightarrow> account \<Rightarrow> messages_state \<Rightarrow> messages_state" where
  "releaseSession key a st = (if limitsSessions key a then emit [SessionReleased (ac_ID a)] st else st)"

definition releaseAllSessions :: "gostring \<Rightarrow> messages_state \<Rightarrow> messages_state" where
  "releaseAllSessions key st = fold (\<lambda>(_, a). releaseSession key a) (ms_slotAccounts st) st"

subsection \<open>The steps of an iteration\<close>

definition spend :: "failover_effect list \<Rightarrow> messages_state \<Rightarrow> messages_state" where
  "spend fx st =
     emit (map Failover fx) (st\<lparr>ms_clock := ms_clock st + sum_list (map (\<lambda>e. case e of Slept d \<Rightarrow> d | _ \<Rightarrow> 0) fx)\<rparr>)"

definition selectionFailed :: "attempt \<Rightarrow> messages_state \<Rightarrow> loop_next \<times> messages_state" where
  "selectionFailed ans st =
     (if at_canceled ans then (Return ClientGone, st)
      else if fs_FailedAccountIDs (ms_fs st) = {} then (Return NoAccount, st)
      else case HandleSelectionExhausted (at_canceled ans) (at_slept ans) (ms_fs st) of
        (action, fx, fs) \<Rightarrow>
          let st' = spend fx (st\<lparr>ms_fs := fs\<rparr>) in
          case action of
            FailoverContinue \<Rightarrow> (Again, st')
          | FailoverCanceled \<Rightarrow> (Return ClientGone, st')
          | FailoverExhausted \<Rightarrow> (Return (Exhausted (fs_LastFailoverErr fs)), st'))"

text \<open>A slot that the selection already holds, or one waited for in the queue of the account.\<close>

definition acquireSlot :: "attempt \<Rightarrow> int \<Rightarrow> messages_state \<Rightarrow> gateway_answer option \<times> messages_state" where
  "acquireSlot ans i st =
     (if at_acquired ans then (None, st)
      else if \<not> at_waitPlan ans then (Some NoSlot, st)
      else if at_canWait ans = Some False then (Some QueueFull, st)
      else
        let counted = (at_canWait ans = Some True);
            st1 = (if counted then emit [WaitJoined i] st else st) in
        if \<not> at_slot ans then (Some SlotFailed, if counted then emit [WaitLeft i] st1 else st1)
        else (None, let st2 = emit [SlotTaken i] st1 in if counted then emit [WaitLeft i] st2 else st2))"

text \<open>The account exceeds the profit bounds of the group.\<close>

definition vetoedAccount :: "gostring \<Rightarrow> account \<Rightarrow> messages_state \<Rightarrow> loop_next \<times> messages_state" where
  "vetoedAccount key a st =
     (case RecordProfitVeto (ac_ID a) (ms_fs st) of
        (action, fs) \<Rightarrow>
          let st1 = emit [SlotReleased (ac_ID a), ProfitVetoed (ac_ID a)] (st\<lparr>ms_fs := fs\<rparr>) in
          if action = FailoverExhausted then (Return VetoExhausted, st1)
          else (Again, (releaseSession key a st1)\<lparr>ms_slotAccounts := map_del (ac_ID a) (ms_slotAccounts st1)\<rparr>))"

definition fallbackAccepts :: "fallback_group \<Rightarrow> bool" where
  "fallbackAccepts g \<longleftrightarrow> fg_Platform g = PlatformAnthropic \<and> \<not> fg_Subscription g \<and>
     fg_FallbackGroupIDOnInvalidRequest g = None"

definition promptTooLong ::
  "messages_request \<Rightarrow> fallback_group option \<Rightarrow> bool \<Rightarrow> messages_state \<Rightarrow> loop_next \<times> messages_state" where
  "promptTooLong rq found admitted st =
     (if \<not> ms_fallbackUsed st \<and> (case rq_fallbackGroupID rq of None \<Rightarrow> False | Some i \<Rightarrow> 0 < i) then
        (case found of
           None \<Rightarrow> (Return MappedError, st)
         | Some g \<Rightarrow>
             if \<not> fallbackAccepts g then (Return MappedError, st)
             else if \<not> admitted then (Return BillingRefused, st)
             else (RetryWithFallback,
                   (releaseAllSessions (rq_sessionKey rq)
                      (emit [GroupSwitched (fg_ID g)] (st\<lparr>ms_fallbackUsed := True\<rparr>)))\<lparr>ms_slotAccounts := []\<rparr>))
      else (Return MappedError, st))"

definition upstreamFailed ::
  "messages_request \<Rightarrow> attempt \<Rightarrow> account \<Rightarrow> failoverError \<Rightarrow> bool \<Rightarrow> messages_state \<Rightarrow> loop_next \<times> messages_state" where
  "upstreamFailed rq ans a e wrote st =
     (if wrote then (Return (Exhausted (Some e)), st)
      else case HandleFailoverError (ms_clock st) (at_canceled ans) (at_slept ans) (ac_ID a) (ac_Platform a)
                  (GetPoolModeRetryCount a) (Some e) (ms_fs st) of
        (action, fx, fs) \<Rightarrow>
          let st1 = spend fx (st\<lparr>ms_fs := fs\<rparr>) in
          case action of
            FailoverContinue \<Rightarrow>
              (Again, (releaseSession (rq_sessionKey rq) a st1)\<lparr>ms_slotAccounts := map_del (ac_ID a) (ms_slotAccounts st1)\<rparr>)
          | FailoverExhausted \<Rightarrow> (Return (Exhausted (fs_LastFailoverErr fs)), st1)
          | FailoverCanceled \<Rightarrow> (Return ClientGone, st1))"

definition deliveredAnswer :: "messages_request \<Rightarrow> account \<Rightarrow> messages_state \<Rightarrow> loop_next \<times> messages_state" where
  "deliveredAnswer rq a st =
     (Return Delivered,
      (emit ((if IsAnthropicOAuthOrSetupToken a \<and> 0 < GetBaseRPM a then [RPMCounted (ac_ID a)] else []) @
             (if rq_sessionKey rq \<noteq> [] \<and> (rq_boundAccountID rq = 0 \<or> rq_boundAccountID rq = ac_ID a)
              then [StickyBound (ac_ID a)] else []) @
             [UsageSubmitted (ac_ID a)]) st)\<lparr>ms_served := True\<rparr>)"

definition forwardAttempt ::
  "messages_request \<Rightarrow> attempt \<Rightarrow> account \<Rightarrow> messages_state \<Rightarrow> loop_next \<times> messages_state" where
  "forwardAttempt rq ans a st =
     (let st1 = (emit (Forwarded (ac_ID a) # rev (ms_pending st)) st)\<lparr>ms_pending := []\<rparr> in
      case at_outcome ans of
        Answered \<Rightarrow> deliveredAnswer rq a st1
      | BetaBlocked \<Rightarrow> (Return PolicyDenied, st1)
      | PromptTooLong found admitted \<Rightarrow> promptTooLong rq found admitted st1
      | UpstreamFailed e wrote \<Rightarrow> upstreamFailed rq ans a e wrote st1
      | OtherFailure metered \<Rightarrow>
          (Return ForwardFailed,
           if metered then (emit [UsageSubmitted (ac_ID a)] st1)\<lparr>ms_served := True\<rparr> else st1))"

text \<open>The gate let the account through: from here on it is the one that the gate reloaded.\<close>

definition admittedAccount ::
  "messages_request \<Rightarrow> attempt \<Rightarrow> account \<Rightarrow> messages_state \<Rightarrow> loop_next \<times> messages_state" where
  "admittedAccount rq ans a st =
     (let l = at_latest ans;
          st1 = st\<lparr>ms_slotAccounts := map_put (ac_ID l) l (ms_slotAccounts st), ms_pending := [SlotReleased (ac_ID a)]\<rparr>;
          st2 = (if at_gateActive ans \<or> \<not> at_acquired ans then emit [StickyAdmitted (ac_ID l)] st1 else st1);
          st3 = (if at_queueLock ans
                 then (emit [QueueLocked (ac_ID l)] st2)\<lparr>ms_pending := ms_pending st2 @ [QueueReleased (ac_ID l)]\<rparr>
                 else st2) in
      if \<not> at_replaced ans then (Return BadRequest, st3) else forwardAttempt rq ans l st3)"

definition messagesAttempt :: "messages_request \<Rightarrow> attempt \<Rightarrow> messages_state \<Rightarrow> loop_next \<times> messages_state" where
  "messagesAttempt rq ans st0 =
     (let st = st0\<lparr>ms_clock := ms_clock st0 + at_elapsed ans\<rparr> in
      if \<not> at_parsed ans then (Return BadRequest, st)
      else case at_selected ans of
        None \<Rightarrow> selectionFailed ans st
      | Some a \<Rightarrow>
          let st1 = registerSession (rq_sessionKey rq) a st;
              st2 = (if at_acquired ans then emit [SlotTaken (ac_ID a)] st1 else st1) in
          if at_intercepted ans then
            (Return Intercepted, if at_acquired ans then emit [SlotReleased (ac_ID a)] st2 else st2)
          else case acquireSlot ans (ac_ID a) st2 of
            (Some answer, st3) \<Rightarrow> (Return answer, st3)
          | (None, st3) \<Rightarrow>
              if at_vetoed ans then vetoedAccount (rq_sessionKey rq) a st3 else admittedAccount rq ans a st3)"

subsection \<open>The loop\<close>

text \<open>When the handler returns, its deferred function and the hooks of the request's context run.\<close>

definition finishMessages :: "messages_request \<Rightarrow> messages_state \<Rightarrow> messages_state" where
  "finishMessages rq st =
     (let st1 = (if ms_served st then st else releaseAllSessions (rq_sessionKey rq) st)
      in (emit (ms_pending st1) st1)\<lparr>ms_pending := []\<rparr>)"

definition restart :: "messages_request \<Rightarrow> messages_state \<Rightarrow> messages_state" where
  "restart rq st = st\<lparr>ms_fs := NewFailoverState (rq_maxSwitches rq) (hasBoundSession rq)\<rparr>"

definition startMessages :: "messages_request \<Rightarrow> gotime \<Rightarrow> messages_state" where
  "startMessages rq now =
     \<lparr>ms_fs = NewFailoverState (rq_maxSwitches rq) (hasBoundSession rq), ms_clock = now, ms_fallbackUsed = False,
      ms_slotAccounts = [], ms_served = False, ms_pending = [], ms_log = []\<rparr>"

text \<open>\<open>env i st\<close> are the answers in iteration \<open>i\<close>; a loop that never returns has the value \<open>None\<close>.\<close>

partial_function (option) messagesLoop ::
  "messages_request \<Rightarrow> (nat \<Rightarrow> messages_state \<Rightarrow> attempt) \<Rightarrow> nat \<Rightarrow> messages_state \<Rightarrow>
   (gateway_answer \<times> messages_state) option" where
  "messagesLoop rq env i st =
     (case messagesAttempt rq (env i st) st of
        (Return answer, st') \<Rightarrow> Some (answer, finishMessages rq st')
      | (Again, st') \<Rightarrow> messagesLoop rq env (Suc i) st'
      | (RetryWithFallback, st') \<Rightarrow> messagesLoop rq env (Suc i) (restart rq st'))"

subsection \<open>Examples\<close>

definition demo_account :: account where
  "demo_account = \<lparr>ac_ID = 7, ac_Platform = PlatformAnthropic, ac_Type = AccountTypeOAuth, ac_Credentials = [],
     ac_Extra = [(''max_sessions'', AnyInt 1)]\<rparr>"

definition demo_error :: failoverError where
  "demo_error = \<lparr>fe_StatusCode = 503, fe_ForceCacheBilling = False, fe_RetryableOnSameAccount = True,
     fe_SameAccountRetryDelay = 0, fe_SameAccountRetryDeadline = 0, fe_SameAccountRetryMax = 0,
     fe_RequestScopedTransient = False, fe_NextAccountAction = NextAccountLegacyRetry\<rparr>"

definition demo_attempt :: attempt where
  "demo_attempt = \<lparr>at_parsed = True, at_elapsed = 0, at_canceled = False, at_slept = True,
     at_selected = Some demo_account, at_intercepted = False, at_acquired = True, at_waitPlan = False,
     at_canWait = None, at_slot = False, at_latest = demo_account, at_vetoed = False, at_gateActive = False,
     at_queueLock = True, at_replaced = True, at_outcome = UpstreamFailed demo_error False\<rparr>"

definition demo_request :: messages_request where
  "demo_request = \<lparr>rq_sessionKey = ''s'', rq_boundAccountID = 0, rq_maxSwitches = 2, rq_fallbackGroupID = None\<rparr>"

text \<open>The account fails once, is tried again and serves the request; it is not selected while excluded.\<close>

definition demo_env :: "nat \<Rightarrow> messages_state \<Rightarrow> attempt" where
  "demo_env i st =
     (if 7 \<in> fs_FailedAccountIDs (ms_fs st) then demo_attempt\<lparr>at_selected := None\<rparr>
      else if i = 0 then demo_attempt
      else demo_attempt\<lparr>at_outcome := Answered\<rparr>)"

text \<open>The queue of the account is full.\<close>

definition full_env :: "nat \<Rightarrow> messages_state \<Rightarrow> attempt" where
  "full_env i st = demo_attempt\<lparr>at_acquired := False, at_waitPlan := True, at_canWait := Some False\<rparr>"

end
