(* ===== verification/GatewayLoopProofs.thy ===== *)
theory GatewayLoopProofs
  imports GatewayLoop
begin

text \<open>
  What the loop guarantees whatever the scheduler, the gates and upstream answer: it returns within
  a bound, it gives back what it took, and it charges one account at most.
\<close>

subsection \<open>What the small steps leave alone\<close>

lemma emit_simps [simp]:
  "ms_fs (emit fx st) = ms_fs st" "ms_clock (emit fx st) = ms_clock st"
  "ms_fallbackUsed (emit fx st) = ms_fallbackUsed st" "ms_slotAccounts (emit fx st) = ms_slotAccounts st"
  "ms_served (emit fx st) = ms_served st" "ms_pending (emit fx st) = ms_pending st"
  "ms_log (emit fx st) = ms_log st @ fx"
  by (simp_all add: emit_def)

lemma session_simps [simp]:
  "ms_fs (registerSession k a st) = ms_fs st" "ms_clock (registerSession k a st) = ms_clock st"
  "ms_fallbackUsed (registerSession k a st) = ms_fallbackUsed st"
  "ms_slotAccounts (registerSession k a st) = ms_slotAccounts st"
  "ms_served (registerSession k a st) = ms_served st" "ms_pending (registerSession k a st) = ms_pending st"
  "ms_log (registerSession k a st) = ms_log st @ (if limitsSessions k a then [SessionRegistered (ac_ID a)] else [])"
  "ms_fs (releaseSession k a st) = ms_fs st" "ms_clock (releaseSession k a st) = ms_clock st"
  "ms_fallbackUsed (releaseSession k a st) = ms_fallbackUsed st"
  "ms_slotAccounts (releaseSession k a st) = ms_slotAccounts st"
  "ms_served (releaseSession k a st) = ms_served st" "ms_pending (releaseSession k a st) = ms_pending st"
  "ms_log (releaseSession k a st) = ms_log st @ (if limitsSessions k a then [SessionReleased (ac_ID a)] else [])"
  by (simp_all add: registerSession_def releaseSession_def)

definition sessionReleases :: "gostring \<Rightarrow> (int, account) gomap \<Rightarrow> gateway_effect list" where
  "sessionReleases k m = concat (map (\<lambda>(_, a). if limitsSessions k a then [SessionReleased (ac_ID a)] else []) m)"

lemma releases_fold:
  "ms_log (fold (\<lambda>(_, a). releaseSession k a) m st) = ms_log st @ sessionReleases k m"
  "ms_fs (fold (\<lambda>(_, a). releaseSession k a) m st) = ms_fs st"
  "ms_clock (fold (\<lambda>(_, a). releaseSession k a) m st) = ms_clock st"
  "ms_fallbackUsed (fold (\<lambda>(_, a). releaseSession k a) m st) = ms_fallbackUsed st"
  "ms_slotAccounts (fold (\<lambda>(_, a). releaseSession k a) m st) = ms_slotAccounts st"
  "ms_served (fold (\<lambda>(_, a). releaseSession k a) m st) = ms_served st"
  "ms_pending (fold (\<lambda>(_, a). releaseSession k a) m st) = ms_pending st"
  by (induction m arbitrary: st) (auto simp: sessionReleases_def)

lemmas releaseAll_simps [simp] = releases_fold [where m = "ms_slotAccounts st" and st = st for st, folded releaseAllSessions_def]

lemma restart_simps [simp]:
  "ms_fs (restart rq st) = NewFailoverState (rq_maxSwitches rq) (hasBoundSession rq)"
  "ms_clock (restart rq st) = ms_clock st" "ms_fallbackUsed (restart rq st) = ms_fallbackUsed st"
  "ms_slotAccounts (restart rq st) = ms_slotAccounts st" "ms_served (restart rq st) = ms_served st"
  "ms_pending (restart rq st) = ms_pending st" "ms_log (restart rq st) = ms_log st"
  by (simp_all add: restart_def)

definition slept_for :: "failover_effect list \<Rightarrow> goduration" where
  "slept_for fx = sum_list (map (\<lambda>e. case e of Slept d \<Rightarrow> d | _ \<Rightarrow> 0) fx)"

lemma spend_simps [simp]:
  "ms_fs (spend fx st) = ms_fs st" "ms_clock (spend fx st) = ms_clock st + slept_for fx"
  "ms_fallbackUsed (spend fx st) = ms_fallbackUsed st" "ms_slotAccounts (spend fx st) = ms_slotAccounts st"
  "ms_served (spend fx st) = ms_served st" "ms_pending (spend fx st) = ms_pending st"
  "ms_log (spend fx st) = ms_log st @ map Failover fx"
  by (simp_all add: spend_def slept_for_def)

lemma slept_for_simps [simp]:
  "slept_for [] = 0" "slept_for (Slept d # fx) = d + slept_for fx" "slept_for (Banned i b # fx) = slept_for fx"
  by (simp_all add: slept_for_def)

subsection \<open>An invariant rule for the loop\<close>

lemma messagesLoop_rule:
  assumes "messagesLoop rq env i st = Some (answer, st')" and "I st"
    and again: "\<And>i st st'. I st \<Longrightarrow> messagesAttempt rq (env i st) st = (Again, st') \<Longrightarrow> I st'"
    and fallback: "\<And>i st st'. I st \<Longrightarrow> messagesAttempt rq (env i st) st = (RetryWithFallback, st') \<Longrightarrow>
      I (restart rq st')"
    and return: "\<And>i st st' answer. I st \<Longrightarrow> messagesAttempt rq (env i st) st = (Return answer, st') \<Longrightarrow>
      Q answer (finishMessages rq st')"
  shows "Q answer st'"
proof -
  have "rq = rq \<longrightarrow> env = env \<longrightarrow> I st \<longrightarrow> Q (fst (answer, st')) (snd (answer, st'))"
  proof (rule messagesLoop.raw_induct [OF _ assms(1),
      where P = "\<lambda>rq' env' i st r. rq' = rq \<longrightarrow> env' = env \<longrightarrow> I st \<longrightarrow> Q (fst r) (snd r)"])
    fix loop rq' env' i st r
    assume IH: "\<And>rq' env' i st r. loop rq' env' i st = Some r \<Longrightarrow>
        rq' = rq \<longrightarrow> env' = env \<longrightarrow> I st \<longrightarrow> Q (fst r) (snd r)"
      and body: "(case messagesAttempt rq' (env' i st) st of
          (Return answer, st') \<Rightarrow> Some (answer, finishMessages rq' st')
        | (Again, st') \<Rightarrow> loop rq' env' (Suc i) st'
        | (RetryWithFallback, st') \<Rightarrow> loop rq' env' (Suc i) (restart rq' st')) = Some r"
    show "rq' = rq \<longrightarrow> env' = env \<longrightarrow> I st \<longrightarrow> Q (fst r) (snd r)"
      using body IH [of rq env "Suc i"] again [of st i] fallback [of st i] return [of st i]
      by (auto split: prod.splits loop_next.splits)
  qed
  then show ?thesis using assms(2) by simp
qed

definition forwardings :: "gateway_effect list \<Rightarrow> nat" where
  "forwardings fx = length (filter (\<lambda>e. case e of Forwarded i \<Rightarrow> True | _ \<Rightarrow> False) fx)"

definition forwards :: "messages_state \<Rightarrow> nat" where
  "forwards st = forwardings (ms_log st) + forwardings (ms_pending st)"

text \<open>A loop whose continuing steps decrease a measure returns, after as many attempts at most.\<close>

lemma messagesLoop_returns:
  fixes m :: "messages_state \<Rightarrow> nat"
  assumes again: "\<And>i st st'. messagesAttempt rq (env i st) st = (Again, st') \<Longrightarrow> m st' < m st"
    and fallback: "\<And>i st st'. messagesAttempt rq (env i st) st = (RetryWithFallback, st') \<Longrightarrow> m (restart rq st') < m st"
    and one: "\<And>i st r st'. messagesAttempt rq (env i st) st = (r, st') \<Longrightarrow> forwards st' \<le> Suc (forwards st)"
    and finish: "\<And>st. forwards (finishMessages rq st) = forwards st"
  shows "\<exists>answer st'. messagesLoop rq env i st = Some (answer, st') \<and> forwards st' \<le> Suc (m st) + forwards st"
proof (induction "m st" arbitrary: i st rule: less_induct)
  case less
  obtain r st1 where step: "messagesAttempt rq (env i st) st = (r, st1)" by (cases "messagesAttempt rq (env i st) st")
  have le: "forwards st1 \<le> Suc (forwards st)" by (rule one [OF step])
  show ?case
  proof (cases r)
    case Again
    from less.hyps [OF again [OF step [unfolded Again]], of "Suc i"] show ?thesis
      using step Again le again [of i st st1] by (subst messagesLoop.simps) force
  next
    case RetryWithFallback
    have "forwards (restart rq st1) = forwards st1" by (simp add: forwards_def restart_def)
    with less.hyps [OF fallback [OF step [unfolded RetryWithFallback]], of "Suc i"] show ?thesis
      using step RetryWithFallback le fallback [of i st st1] by (subst messagesLoop.simps) force
  next
    case (Return answer)
    then show ?thesis using step le finish [of st1] by (subst messagesLoop.simps) simp
  qed
qed

subsection \<open>The loop returns\<close>

text \<open>
  Moving to another account uses up a switch, a veto uses up one of the ten, a retry on the same
  account one of the ten that its settings may allow or some time before the deadline of the error;
  and a back-off needs an exclusion that is not a veto, which only another switch can bring back.
\<close>

definition retriesLeft :: "int set \<Rightarrow> FailoverState \<Rightarrow> nat" where
  "retriesLeft pool fs = (\<Sum>i \<in> pool. nat (10 - retriesOf i fs))"

definition failoverLeft :: "int set \<Rightarrow> FailoverState \<Rightarrow> nat" where
  "failoverLeft pool fs =
     2 * nat (fs_MaxSwitches fs - fs_SwitchCount fs) + nat (10 - fs_profitVetoCount fs) + retriesLeft pool fs +
     (if fs_FailedAccountIDs fs \<subseteq> fs_profitVetoedAccountIDs fs then 0 else 1)"

definition passBound :: "messages_request \<Rightarrow> int set \<Rightarrow> nat" where
  "passBound rq pool = 2 * nat (rq_maxSwitches rq) + 10 + 10 * card pool"

definition attemptsLeft :: "messages_request \<Rightarrow> int set \<Rightarrow> gotime \<Rightarrow> messages_state \<Rightarrow> nat" where
  "attemptsLeft rq pool limit st =
     failoverLeft pool (ms_fs st) + nat (limit - ms_clock st) + (if ms_fallbackUsed st then 0 else Suc (passBound rq pool))"

fun retryDeadline :: "forward_outcome \<Rightarrow> gotime" where
  "retryDeadline (UpstreamFailed e wrote) = fe_SameAccountRetryDeadline e"
| "retryDeadline _ = 0"

lemma failoverLeft_new [simp]: "finite pool \<Longrightarrow> failoverLeft pool (NewFailoverState n b) = 2 * nat n + 10 + 10 * card pool"
  by (simp add: failoverLeft_def retriesLeft_def retriesOf_def NewFailoverState_def)

lemma retriesLeft_cong: "fs_SameAccountRetryCount fs' = fs_SameAccountRetryCount fs \<Longrightarrow> retriesLeft pool fs' = retriesLeft pool fs"
  by (simp add: retriesLeft_def retriesOf_def)

lemma retriesLeft_used:
  assumes "finite pool" and "i \<in> pool"
    and "fs_SameAccountRetryCount fs' = map_put i (retriesOf i fs + 1) (fs_SameAccountRetryCount fs)"
  shows "retriesLeft pool fs' \<le> retriesLeft pool fs"
    and "retriesOf i fs < 10 \<Longrightarrow> retriesLeft pool fs' < retriesLeft pool fs"
proof -
  have same: "retriesOf j fs' = (if j = i then retriesOf i fs + 1 else retriesOf j fs)" for j
    using assms(3) by (simp add: retriesOf_def)
  then show "retriesLeft pool fs' \<le> retriesLeft pool fs"
    unfolding retriesLeft_def by (intro sum_mono) auto
  assume "retriesOf i fs < 10"
  then show "retriesLeft pool fs' < retriesLeft pool fs"
    unfolding retriesLeft_def using same assms(1,2) by (intro sum_strict_mono_ex1) auto
qed

lemma veto_decreases: "RecordProfitVeto i fs = (FailoverContinue, fs') \<Longrightarrow> failoverLeft pool fs' < failoverLeft pool fs"
  by (auto simp: RecordProfitVeto_def Let_def failoverLeft_def maxProfitVetoAttempts_def
      retriesLeft_def retriesOf_def split: if_splits)

lemma backoff_decreases:
  assumes "HandleSelectionExhausted c slept fs = (FailoverContinue, fx, fs')" and "fs_FailedAccountIDs fs \<noteq> {}"
  shows "failoverLeft pool fs' < failoverLeft pool fs" and "0 \<le> slept_for fx"
  using assms
  by (auto simp: HandleSelectionExhausted_def sleepWithContext_def allExclusionsAreProfitVetoed_def failoverLeft_def
      retriesLeft_def retriesOf_def failover_constants split: option.splits if_splits)

lemma same_account_retry_room:
  "sameAccountRetryAllowed now (Some e) n (GetPoolModeRetryCount a) \<Longrightarrow>
     n < 10 \<or> now < fe_SameAccountRetryDeadline e"
  using pool_retries_bounded [of a]
  by (auto simp: sameAccountRetryAllowed_def sameAccountRetryDeadlineAllows_def time_is_zero_def split: if_splits)

lemma retry_sleeps:
  "sleepWithContext slept (sameAccountRetryDelayFor err n) = (slept, [Slept (sameAccountRetryDelayFor err n)])"
  using retry_delay_pos [of err n] by (simp add: sleepWithContext_def)

lemma switch_sleeps: "0 \<le> slept_for (snd (sleepWithContext slept d))"
  by (simp add: sleepWithContext_def)

lemma failover_decreases:
  assumes "HandleFailoverError now c slept i plat (GetPoolModeRetryCount a) (Some e) fs = (FailoverContinue, fx, fs')"
    and "finite pool" and "i \<in> pool" and "fe_SameAccountRetryDeadline e \<le> limit"
  shows "failoverLeft pool fs' + nat (limit - (now + slept_for fx)) < failoverLeft pool fs + nat (limit - now)"
    and "0 \<le> slept_for fx"
proof -
  let ?retry = "sameAccountRetryAllowed now (Some e) (retriesOf i fs) (GetPoolModeRetryCount a)"
  have count: "retriesOf i (fs\<lparr>fs_LastFailoverErr := x\<rparr>) = retriesOf i fs" for x by (simp add: retriesOf_def)
  consider (retry) d where "?retry" "fx = [Slept d]" "0 < d" "fs_SwitchCount fs' = fs_SwitchCount fs"
      "fs_MaxSwitches fs' = fs_MaxSwitches fs" "fs_profitVetoCount fs' = fs_profitVetoCount fs"
      "fs_FailedAccountIDs fs' = fs_FailedAccountIDs fs"
      "fs_profitVetoedAccountIDs fs' = fs_profitVetoedAccountIDs fs"
      "fs_SameAccountRetryCount fs' = map_put i (retriesOf i fs + 1) (fs_SameAccountRetryCount fs)"
    | (switch) "0 \<le> slept_for fx" "fs_SwitchCount fs < fs_MaxSwitches fs" "fs_SwitchCount fs' = fs_SwitchCount fs + 1"
      "fs_MaxSwitches fs' = fs_MaxSwitches fs" "fs_profitVetoCount fs' = fs_profitVetoCount fs"
      "fs_SameAccountRetryCount fs' = fs_SameAccountRetryCount fs"
  proof (cases ?retry)
    case True
    then show ?thesis using assms(1) retry [OF True] retry_delay_pos
      by (auto simp: HandleFailoverError_def Let_def count retry_sleeps split: if_splits)
  next
    case False
    then show ?thesis using assms(1) switch switch_sleeps [of slept "fs_SwitchCount fs * second"]
      by (auto simp: HandleFailoverError_def Let_def count split: if_splits prod.splits)
  qed
  then have "failoverLeft pool fs' + nat (limit - (now + slept_for fx)) < failoverLeft pool fs + nat (limit - now) \<and>
      0 \<le> slept_for fx"
  proof cases
    case retry
    have le: "retriesLeft pool fs' \<le> retriesLeft pool fs" by (rule retriesLeft_used [OF assms(2,3) retry(9)])
    from same_account_retry_room [OF retry(1)]
    have "retriesLeft pool fs' < retriesLeft pool fs \<or> now < limit"
      using retriesLeft_used(2) [OF assms(2,3) retry(9)] assms(4) by auto
    then show ?thesis using retry le by (auto simp: failoverLeft_def)
  next
    case switch
    then show ?thesis using retriesLeft_cong [OF switch(6), of pool] by (auto simp: failoverLeft_def)
  qed
  then show "failoverLeft pool fs' + nat (limit - (now + slept_for fx)) < failoverLeft pool fs + nat (limit - now)"
    and "0 \<le> slept_for fx" by simp_all
qed

lemma acquireSlot_frame:
  "acquireSlot ans i st = (r, st') \<Longrightarrow>
     ms_fs st' = ms_fs st \<and> ms_clock st' = ms_clock st \<and> ms_fallbackUsed st' = ms_fallbackUsed st \<and>
     ms_slotAccounts st' = ms_slotAccounts st \<and> ms_served st' = ms_served st \<and> ms_pending st' = ms_pending st"
  by (auto simp: acquireSlot_def Let_def split: if_splits)

lemma upstreamFailed_decreases:
  assumes "upstreamFailed rq ans a e wrote st = (Again, st')" and "finite pool" and "ac_ID a \<in> pool"
    and "fe_SameAccountRetryDeadline e \<le> limit"
  shows "attemptsLeft rq pool limit st' < attemptsLeft rq pool limit st"
proof -
  obtain fx fs where h: "HandleFailoverError (ms_clock st) (at_canceled ans) (at_slept ans) (ac_ID a) (ac_Platform a)
      (GetPoolModeRetryCount a) (Some e) (ms_fs st) = (FailoverContinue, fx, fs)"
    and st': "ms_fs st' = fs" "ms_clock st' = ms_clock st + slept_for fx" "ms_fallbackUsed st' = ms_fallbackUsed st"
    using assms(1) by (auto simp: upstreamFailed_def Let_def split: if_splits prod.splits failover_action.splits)
  show ?thesis using failover_decreases [OF h assms(2-4)] st' by (simp add: attemptsLeft_def)
qed

lemma forward_decreases:
  assumes "forwardAttempt rq ans a st = (Again, st')" and "finite pool" and "ac_ID a \<in> pool"
    and "retryDeadline (at_outcome ans) \<le> limit"
  shows "attemptsLeft rq pool limit st' < attemptsLeft rq pool limit st"
proof (cases "at_outcome ans")
  case (UpstreamFailed e wrote)
  with assms(1) have "upstreamFailed rq ans a e wrote
      ((emit (Forwarded (ac_ID a) # rev (ms_pending st)) st)\<lparr>ms_pending := []\<rparr>) = (Again, st')"
    by (simp add: forwardAttempt_def)
  from upstreamFailed_decreases [OF this assms(2,3)] show ?thesis
    using assms(4) UpstreamFailed by (simp add: attemptsLeft_def)
qed (use assms(1) in \<open>auto simp: forwardAttempt_def deliveredAnswer_def promptTooLong_def Let_def
      split: if_splits option.splits\<close>)

lemma admittedAccount_again:
  assumes "admittedAccount rq ans a st = (next, st')" and "next = Again \<or> next = RetryWithFallback"
  obtains st1 where "forwardAttempt rq ans (at_latest ans) st1 = (next, st')" and "ms_fs st1 = ms_fs st"
    and "ms_clock st1 = ms_clock st" and "ms_fallbackUsed st1 = ms_fallbackUsed st"
  using assms by (auto simp: admittedAccount_def Let_def split: if_splits)

lemma attemptsLeft_cong:
  "ms_fs st' = ms_fs st \<Longrightarrow> ms_clock st' = ms_clock st \<Longrightarrow> ms_fallbackUsed st' = ms_fallbackUsed st \<Longrightarrow>
     attemptsLeft rq pool limit st' = attemptsLeft rq pool limit st"
  by (simp add: attemptsLeft_def)

text \<open>An iteration that goes on selected an account, unless no account was left.\<close>

lemma messagesAttempt_goes_on [consumes 2]:
  assumes "messagesAttempt rq ans st0 = (next, st')" and "next = Again \<or> next = RetryWithFallback"
  obtains (none) st where "selectionFailed ans st = (next, st')" and "ms_fs st = ms_fs st0"
      and "ms_clock st = ms_clock st0 + at_elapsed ans" and "ms_fallbackUsed st = ms_fallbackUsed st0"
    | (veto) a st where "vetoedAccount (rq_sessionKey rq) a st = (next, st')" and "ms_fs st = ms_fs st0"
      and "ms_clock st = ms_clock st0 + at_elapsed ans" and "ms_fallbackUsed st = ms_fallbackUsed st0"
    | (sent) st where "forwardAttempt rq ans (at_latest ans) st = (next, st')" and "ms_fs st = ms_fs st0"
      and "ms_clock st = ms_clock st0 + at_elapsed ans" and "ms_fallbackUsed st = ms_fallbackUsed st0"
proof (cases "at_selected ans")
  case None
  with assms show thesis
    by (intro none [of "st0\<lparr>ms_clock := ms_clock st0 + at_elapsed ans\<rparr>"])
      (auto simp: messagesAttempt_def Let_def split: if_splits)
next
  case (Some a)
  define st where "st = st0\<lparr>ms_clock := ms_clock st0 + at_elapsed ans\<rparr>"
  define st2 where "st2 = (if at_acquired ans then emit [SlotTaken (ac_ID a)] (registerSession (rq_sessionKey rq) a st)
    else registerSession (rq_sessionKey rq) a st)"
  have st2: "ms_fs st2 = ms_fs st0" "ms_clock st2 = ms_clock st0 + at_elapsed ans"
    "ms_fallbackUsed st2 = ms_fallbackUsed st0" by (simp_all add: st2_def st_def)
  obtain r st3 where acq: "acquireSlot ans (ac_ID a) st2 = (r, st3)" by (cases "acquireSlot ans (ac_ID a) st2")
  have frame: "ms_fs st3 = ms_fs st0" "ms_clock st3 = ms_clock st0 + at_elapsed ans"
    "ms_fallbackUsed st3 = ms_fallbackUsed st0" using acquireSlot_frame [OF acq] st2 by simp_all
  have "at_parsed ans \<and> \<not> at_intercepted ans \<and> r = None \<and>
      (if at_vetoed ans then vetoedAccount (rq_sessionKey rq) a st3 = (next, st')
       else admittedAccount rq ans a st3 = (next, st'))"
    using assms Some acq unfolding messagesAttempt_def Let_def st_def [symmetric] st2_def [symmetric]
    by (auto simp flip: st2_def split: if_splits option.splits)
  then show thesis
    using veto [of a st3] sent assms(2) frame admittedAccount_again [of rq ans a st3 "next" st'] by (metis (no_types))
qed

lemma again_decreases:
  assumes "messagesAttempt rq ans st = (Again, st')" and "finite pool" and "ac_ID (at_latest ans) \<in> pool"
    and "retryDeadline (at_outcome ans) \<le> limit" and "0 \<le> at_elapsed ans"
  shows "attemptsLeft rq pool limit st' < attemptsLeft rq pool limit st"
proof -
  have le: "attemptsLeft rq pool limit s \<le> attemptsLeft rq pool limit st"
    if "ms_fs s = ms_fs st" "ms_clock s = ms_clock st + at_elapsed ans" "ms_fallbackUsed s = ms_fallbackUsed st" for s
    using that assms(5) by (simp add: attemptsLeft_def)
  from assms(1) disjI1 [OF refl] have "\<exists>s. attemptsLeft rq pool limit s \<le> attemptsLeft rq pool limit st \<and>
      attemptsLeft rq pool limit st' < attemptsLeft rq pool limit s"
  proof (cases rule: messagesAttempt_goes_on)
    case (none s)
    from none(1) obtain fx fs where "HandleSelectionExhausted (at_canceled ans) (at_slept ans) (ms_fs s) = (FailoverContinue, fx, fs)"
      and "fs_FailedAccountIDs (ms_fs s) \<noteq> {}" and "st' = spend fx (s\<lparr>ms_fs := fs\<rparr>)"
      by (auto simp: selectionFailed_def Let_def split: if_splits prod.splits failover_action.splits)
    then have "attemptsLeft rq pool limit st' < attemptsLeft rq pool limit s"
      using backoff_decreases [of "at_canceled ans" "at_slept ans" "ms_fs s" fx fs]
      by (fastforce simp: attemptsLeft_def intro: add_less_le_mono)
    then show ?thesis using le [OF none(2-4)] by blast
  next
    case (veto a s)
    from veto(1) have "attemptsLeft rq pool limit st' < attemptsLeft rq pool limit s"
      using veto_decreases [of "ac_ID a" "ms_fs s"] failover_action.exhaust [of "fst (RecordProfitVeto (ac_ID a) (ms_fs s))"]
      by (auto simp: vetoedAccount_def attemptsLeft_def Let_def RecordProfitVeto_def split: if_splits prod.splits)
    then show ?thesis using le [OF veto(2-4)] by blast
  next
    case (sent s)
    then show ?thesis using forward_decreases [OF sent(1) assms(2-4)] le [OF sent(2-4)] by blast
  qed
  then show ?thesis by auto
qed

lemma fallback_forward:
  assumes "forwardAttempt rq ans a st = (RetryWithFallback, st')"
  shows "\<not> ms_fallbackUsed st" and "ms_fallbackUsed st'" and "ms_clock st' = ms_clock st"
  using assms
  by (auto simp: forwardAttempt_def deliveredAnswer_def promptTooLong_def upstreamFailed_def Let_def
      split: if_splits option.splits forward_outcome.splits prod.splits failover_action.splits)

lemma fallback_decreases:
  assumes "messagesAttempt rq ans st = (RetryWithFallback, st')" and "finite pool" and "0 \<le> at_elapsed ans"
  shows "attemptsLeft rq pool limit (restart rq st') < attemptsLeft rq pool limit st"
  using assms(1) disjI2 [OF refl]
proof (cases rule: messagesAttempt_goes_on)
  case (sent s)
  then show ?thesis using fallback_forward [OF sent(1)] assms(2,3) by (simp add: attemptsLeft_def passBound_def)
qed (auto simp: selectionFailed_def vetoedAccount_def Let_def split: if_splits prod.splits failover_action.splits)

lemma forwardings_simps [simp]:
  "forwardings [] = 0" "forwardings (e # fx) = (case e of Forwarded i \<Rightarrow> 1 | _ \<Rightarrow> 0) + forwardings fx"
  "forwardings (fx @ gx) = forwardings fx + forwardings gx" "forwardings (rev fx) = forwardings fx"
  "forwardings (map Failover es) = 0"
  by (simp_all add: forwardings_def filter_map o_def rev_filter [symmetric] split: gateway_effect.split)

lemma forwardings_sessions [simp]: "forwardings (sessionReleases k m) = 0"
  by (induction m) (auto simp: sessionReleases_def)

lemma forwards_simps [simp]:
  "forwards (emit fx st) = forwards st + forwardings fx"
  "forwards (spend es st) = forwards st" "forwards (registerSession k a st) = forwards st"
  "forwards (releaseSession k a st) = forwards st" "forwards (releaseAllSessions k st) = forwards st"
  "forwards (st\<lparr>ms_slotAccounts := m\<rparr>) = forwards st" "forwards (st\<lparr>ms_fs := fs\<rparr>) = forwards st"
  "forwards (st\<lparr>ms_served := b\<rparr>) = forwards st" "forwards (st\<lparr>ms_clock := t\<rparr>) = forwards st"
  "forwards (st\<lparr>ms_fallbackUsed := b\<rparr>) = forwards st"
  "forwards (st\<lparr>ms_pending := p\<rparr>) = forwardings (ms_log st) + forwardings p"
  by (simp_all add: forwards_def)

lemma forwards_finish: "forwards (finishMessages rq st) = forwards st"
  by (simp add: finishMessages_def Let_def) (simp add: forwards_def)

lemma forwards_forward: "forwardAttempt rq ans a st = (r, st') \<Longrightarrow> forwards st' \<le> Suc (forwards st)"
  by (auto simp: forwardAttempt_def deliveredAnswer_def promptTooLong_def upstreamFailed_def Let_def forwards_def
      split: if_splits option.splits forward_outcome.splits prod.splits failover_action.splits)

lemma forwards_step:
  assumes "messagesAttempt rq ans st = (r, st')"
  shows "forwards st' \<le> Suc (forwards st)"
proof -
  have slot: "forwards st2 = forwards st1" if "acquireSlot ans i st1 = (x, st2)" for i st1 x st2
    using that by (auto simp: acquireSlot_def Let_def split: if_splits)
  have failed: "forwards st2 = forwards st1" if "selectionFailed ans st1 = (x, st2)" for st1 x st2
    using that by (auto simp: selectionFailed_def Let_def split: if_splits prod.splits failover_action.splits)
  have veto: "forwards st2 = forwards st1" if "vetoedAccount k a st1 = (x, st2)" for k a st1 x st2
    using that by (auto simp: vetoedAccount_def Let_def split: if_splits prod.splits)
  have sent: "forwards st2 \<le> Suc (forwards st1)" if "admittedAccount rq ans a st1 = (x, st2)" for a st1 x st2
    using that
    by (auto simp: admittedAccount_def Let_def dest!: forwards_forward split: if_splits) (auto simp: forwards_def)
  show ?thesis using assms
    by (auto simp: messagesAttempt_def Let_def dest!: slot failed veto sent split: if_splits option.splits prod.splits)
qed



end
