(* ===== verification/GatewayResources.thy ===== *)
theory GatewayResources
  imports GatewayLoopProofs
begin

text \<open>
  What one request takes and gives back: the slots of accounts, places in their queues, the locks of the
  user message queue and the sessions registered with accounts that limit them.
\<close>

subsection \<open>Balances over the log\<close>

definition holds_exactly :: "(int \<Rightarrow> gateway_effect) \<Rightarrow> (int \<Rightarrow> gateway_effect) \<Rightarrow> int option \<Rightarrow> gateway_effect list \<Rightarrow> bool" where
  "holds_exactly taken given h fx \<longleftrightarrow>
     (\<forall>i. count_list fx (taken i) = count_list fx (given i) + (if h = Some i then 1 else 0))"

definition session_step :: "gateway_effect \<Rightarrow> int set \<Rightarrow> int set" where
  "session_step e S =
     (case e of SessionRegistered i \<Rightarrow> insert i S | SessionReleased i \<Rightarrow> S - {i} | _ \<Rightarrow> S)"

definition openSessions :: "gateway_effect list \<Rightarrow> int set" where
  "openSessions fx = fold session_step fx {}"

definition resources :: "int option \<Rightarrow> int option \<Rightarrow> int set \<Rightarrow> gateway_effect list \<Rightarrow> bool" where
  "resources slot lock sessions fx \<longleftrightarrow>
     holds_exactly SlotTaken SlotReleased slot fx \<and> holds_exactly WaitJoined WaitLeft None fx \<and>
     holds_exactly QueueLocked QueueReleased lock fx \<and> openSessions fx = sessions"

lemma holds_exactly_Nil: "holds_exactly taken given None []"
  by (simp add: holds_exactly_def)

lemma openSessions_append [simp]: "openSessions (fx @ gx) = fold session_step gx (openSessions fx)"
  by (simp add: openSessions_def)

lemma session_step_simps [simp]:
  "session_step (SessionRegistered i) S = insert i S" "session_step (SessionReleased i) S = S - {i}"
  "session_step (SlotTaken i) S = S" "session_step (SlotReleased i) S = S" "session_step (WaitJoined i) S = S"
  "session_step (WaitLeft i) S = S" "session_step (QueueLocked i) S = S" "session_step (QueueReleased i) S = S"
  "session_step (ProfitVetoed i) S = S" "session_step (StickyAdmitted i) S = S" "session_step (StickyBound i) S = S"
  "session_step (Forwarded i) S = S" "session_step (UsageSubmitted i) S = S" "session_step (RPMCounted i) S = S"
  "session_step (GroupSwitched i) S = S" "session_step (Failover e) S = S"
  by (simp_all add: session_step_def)

lemma session_failovers [simp]: "fold session_step (map Failover es) S = S"
  by (induction es) simp_all

lemma count_failovers [simp]:
  "(\<And>f. e \<noteq> Failover f) \<Longrightarrow> count_list (map Failover es) e = 0"
  by (induction es) auto

lemmas resources_simps = resources_def holds_exactly_def

subsection \<open>The steps\<close>

definition leaves_session :: "gateway_answer \<Rightarrow> bool" where
  "leaves_session answer \<longleftrightarrow> answer \<in> {Intercepted, NoSlot, QueueFull, SlotFailed, VetoExhausted}"

text \<open>Between two iterations nothing is held; inside one, what \<open>sessionSlotAccounts\<close> has will be released.\<close>

definition idle :: "messages_state \<Rightarrow> bool" where
  "idle st \<longleftrightarrow> ms_pending st = [] \<and> ms_slotAccounts st = [] \<and> \<not> ms_served st \<and> resources None None {} (ms_log st)"

definition settled :: "gateway_answer \<Rightarrow> messages_state \<Rightarrow> bool" where
  "settled answer st \<longleftrightarrow> ms_pending st = [] \<and>
     resources None None (if ms_served st \<or> leaves_session answer then openSessions (ms_log st) else {}) (ms_log st)"

definition same_account :: "gostring \<Rightarrow> attempt \<Rightarrow> bool" where
  "same_account key ans \<longleftrightarrow>
     (case at_selected ans of
        None \<Rightarrow> True
      | Some a \<Rightarrow> ac_ID (at_latest ans) = ac_ID a \<and> limitsSessions key (at_latest ans) = limitsSessions key a)"

definition sessionsOf :: "gostring \<Rightarrow> account \<Rightarrow> int set" where
  "sessionsOf key a = (if limitsSessions key a then {ac_ID a} else {})"

lemma acquireSlot_resources:
  assumes "acquireSlot ans i st = (r, st')" and "resources (if at_acquired ans then Some i else None) None S (ms_log st)"
  shows "resources (if r = None then Some i else None) None S (ms_log st')"
    and "r = Some answer \<Longrightarrow> leaves_session answer"
  using assms
  by (auto simp: acquireSlot_def Let_def leaves_session_def resources_simps split: if_splits)

lemma finish_pending: "ms_pending (finishMessages rq st) = []" 
  by (simp add: finishMessages_def Let_def)

lemma finish_log: "ms_log (finishMessages rq st) = ms_log st @
    (if ms_served st then [] else sessionReleases (rq_sessionKey rq) (ms_slotAccounts st)) @ ms_pending st"
  by (simp add: finishMessages_def Let_def)

lemma finish_served [simp]: "ms_served (finishMessages rq st) = ms_served st"
  by (simp add: finishMessages_def Let_def)

lemma sessionReleases_simps [simp]:
  "sessionReleases key [] = []"
  "sessionReleases key ((i, a) # m) = (if limitsSessions key a then [SessionReleased (ac_ID a)] else []) @ sessionReleases key m"
  by (simp_all add: sessionReleases_def)

lemma vetoed_resources:
  assumes "vetoedAccount key a st = (r, st')" and "resources (Some (ac_ID a)) None (sessionsOf key a) (ms_log st)"
    and "ms_pending st = []" and "ms_slotAccounts st = []" and "\<not> ms_served st"
  shows "r = Again \<and> idle st' \<or> r = Return VetoExhausted \<and> settled VetoExhausted (finishMessages rq st')"
  using assms
  by (auto simp: vetoedAccount_def Let_def idle_def settled_def leaves_session_def finish_log finish_pending
      resources_simps sessionsOf_def split: if_splits prod.splits)

text \<open>A forwarded attempt has given back its slot and its lock; only its session is still open.\<close>

definition sent_off :: "gostring \<Rightarrow> account \<Rightarrow> messages_state \<Rightarrow> bool" where
  "sent_off key a st \<longleftrightarrow> ms_pending st = [] \<and> ms_slotAccounts st = [(ac_ID a, a)] \<and> \<not> ms_served st \<and>
     resources None None (sessionsOf key a) (ms_log st)"

definition after_step :: "messages_request \<Rightarrow> loop_next \<Rightarrow> messages_state \<Rightarrow> bool" where
  "after_step rq r st =
     (case r of
        Again \<Rightarrow> idle st
      | RetryWithFallback \<Rightarrow> idle st
      | Return answer \<Rightarrow> settled answer (finishMessages rq st))"

lemma spend_resources: "resources slot lock S (fx @ map Failover es) = resources slot lock S fx"
  by (simp add: resources_simps)

lemma upstreamFailed_resources:
  assumes "upstreamFailed rq ans a e wrote st = (r, st')" and "sent_off (rq_sessionKey rq) a st"
  shows "after_step rq r st'"
  using assms
  by (auto simp: upstreamFailed_def Let_def after_step_def idle_def settled_def sent_off_def finish_log finish_pending
      leaves_session_def resources_simps sessionsOf_def split: if_splits prod.splits failover_action.splits)

lemma promptTooLong_resources:
  assumes "promptTooLong rq found admitted st = (r, st')" and "sent_off (rq_sessionKey rq) a st"
  shows "after_step rq r st'"
  using assms
  by (auto simp: promptTooLong_def Let_def after_step_def idle_def settled_def sent_off_def finish_log finish_pending
      leaves_session_def resources_simps sessionsOf_def split: if_splits option.splits)

lemma settled_served:
  assumes "ms_served st'" and "resources None None (openSessions (ms_log st')) (ms_log st')" and "ms_pending st' = []"
  shows "settled answer (finishMessages rq st')"
  using assms by (simp add: settled_def finish_log finish_pending)

lemma forward_resources:
  assumes "forwardAttempt rq ans a st = (r, st')" and "ms_slotAccounts st = [(ac_ID a, a)]" and "\<not> ms_served st"
    and "ms_pending st = SlotReleased (ac_ID a) # (if lock then [QueueReleased (ac_ID a)] else [])"
    and "resources (Some (ac_ID a)) (if lock then Some (ac_ID a) else None) (sessionsOf (rq_sessionKey rq) a) (ms_log st)"
  shows "after_step rq r st'"
proof -
  define st1 where "st1 = (emit (Forwarded (ac_ID a) # rev (ms_pending st)) st)\<lparr>ms_pending := []\<rparr>"
  have sent: "sent_off (rq_sessionKey rq) a st1"
    using assms(2-5) by (auto simp: st1_def sent_off_def resources_simps)
  show ?thesis
  proof (cases "at_outcome ans")
    case (PromptTooLong found admitted)
    then show ?thesis using assms(1) sent promptTooLong_resources [of rq found admitted st1]
      by (simp add: forwardAttempt_def st1_def)
  next
    case (UpstreamFailed e wrote)
    then show ?thesis using assms(1) sent upstreamFailed_resources [of rq ans a e wrote st1]
      by (simp add: forwardAttempt_def st1_def)
  next
    case Answered
    then show ?thesis using assms(1) sent
      by (auto simp: forwardAttempt_def deliveredAnswer_def after_step_def sent_off_def resources_simps
          simp flip: st1_def intro!: settled_served)
  next
    case BetaBlocked
    then show ?thesis using assms(1) sent
      by (auto simp: forwardAttempt_def after_step_def sent_off_def settled_def finish_log finish_pending leaves_session_def
          resources_simps sessionsOf_def simp flip: st1_def split: if_splits)
  next
    case (OtherFailure metered)
    then show ?thesis using assms(1) sent
      by (auto simp: forwardAttempt_def after_step_def sent_off_def settled_def finish_log finish_pending leaves_session_def
          resources_simps sessionsOf_def simp flip: st1_def split: if_splits)
  qed
qed

lemma admitted_resources:
  assumes "admittedAccount rq ans a st = (r, st')" and "ms_slotAccounts st = []" and "\<not> ms_served st"
    and "ac_ID (at_latest ans) = ac_ID a" and "limitsSessions (rq_sessionKey rq) (at_latest ans) = limitsSessions (rq_sessionKey rq) a"
    and "resources (Some (ac_ID a)) None (sessionsOf (rq_sessionKey rq) a) (ms_log st)"
  shows "after_step rq r st'"
proof -
  let ?l = "at_latest ans"
  define st1 where "st1 = st\<lparr>ms_slotAccounts := map_put (ac_ID ?l) ?l (ms_slotAccounts st), ms_pending := [SlotReleased (ac_ID a)]\<rparr>"
  define st2 where "st2 = (if at_gateActive ans \<or> \<not> at_acquired ans then emit [StickyAdmitted (ac_ID ?l)] st1 else st1)"
  define st3 where "st3 = (if at_queueLock ans
      then (emit [QueueLocked (ac_ID ?l)] st2)\<lparr>ms_pending := ms_pending st2 @ [QueueReleased (ac_ID ?l)]\<rparr> else st2)"
  have st3: "ms_slotAccounts st3 = [(ac_ID ?l, ?l)]" "\<not> ms_served st3"
    "ms_pending st3 = SlotReleased (ac_ID ?l) # (if at_queueLock ans then [QueueReleased (ac_ID ?l)] else [])"
    "resources (Some (ac_ID ?l)) (if at_queueLock ans then Some (ac_ID ?l) else None) (sessionsOf (rq_sessionKey rq) ?l) (ms_log st3)"
    using assms(2-6) by (auto simp: st1_def st2_def st3_def resources_simps sessionsOf_def)
  have "(if \<not> at_replaced ans then (Return BadRequest, st3) else forwardAttempt rq ans ?l st3) = (r, st')"
    using assms(1) unfolding admittedAccount_def Let_def st1_def st2_def st3_def .
  then show ?thesis
    using forward_resources [OF _ st3] st3
    by (auto simp: after_step_def settled_def finish_log finish_pending leaves_session_def resources_simps sessionsOf_def
        split: if_splits)
qed

lemma selectionFailed_resources:
  assumes "selectionFailed ans st = (r, st')" and "idle st"
  shows "after_step rq r st'"
  using assms
  by (auto simp: selectionFailed_def Let_def after_step_def idle_def settled_def finish_log finish_pending
      leaves_session_def resources_simps split: if_splits prod.splits failover_action.splits)

lemma attempt_resources:
  assumes "messagesAttempt rq ans st0 = (r, st')" and "idle st0" and "same_account (rq_sessionKey rq) ans"
  shows "after_step rq r st'"
proof -
  define st where "st = st0\<lparr>ms_clock := ms_clock st0 + at_elapsed ans\<rparr>"
  have st: "idle st" using assms(2) by (simp add: st_def idle_def)
  show ?thesis
  proof (cases "at_parsed ans")
    case False
    then show ?thesis using assms(1) st
      by (auto simp: messagesAttempt_def after_step_def settled_def idle_def leaves_session_def finish_log finish_pending
          simp flip: st_def)
  next
    case parsed: True
    show ?thesis
    proof (cases "at_selected ans")
      case None
      then show ?thesis using assms(1) parsed selectionFailed_resources [OF _ st]
        by (simp add: messagesAttempt_def Let_def st_def)
    next
      case (Some a)
      define st2 where "st2 = (if at_acquired ans
        then emit [SlotTaken (ac_ID a)] (registerSession (rq_sessionKey rq) a st)
        else registerSession (rq_sessionKey rq) a st)"
      have st2: "ms_slotAccounts st2 = []" "\<not> ms_served st2" "ms_pending st2 = []"
        "resources (if at_acquired ans then Some (ac_ID a) else None) None (sessionsOf (rq_sessionKey rq) a) (ms_log st2)"
        using st by (auto simp: st2_def idle_def resources_simps sessionsOf_def)
      obtain x st3 where acq: "acquireSlot ans (ac_ID a) st2 = (x, st3)" by (cases "acquireSlot ans (ac_ID a) st2")
      note res = acquireSlot_resources [OF acq st2(4)]
      have st3: "ms_slotAccounts st3 = []" "\<not> ms_served st3" "ms_pending st3 = []"
        using acquireSlot_frame [OF acq] st2 by simp_all
      have step: "(if at_intercepted ans
          then (Return Intercepted, if at_acquired ans then emit [SlotReleased (ac_ID a)] st2 else st2)
          else case (x, st3) of
            (Some answer, st3) \<Rightarrow> (Return answer, st3)
          | (None, st3) \<Rightarrow>
              if at_vetoed ans then vetoedAccount (rq_sessionKey rq) a st3 else admittedAccount rq ans a st3) = (r, st')"
        unfolding acq [symmetric] assms(1) [symmetric]
        by (simp add: messagesAttempt_def Let_def Some parsed st_def st2_def)
      consider (intercepted) "r = Return Intercepted" "st' = (if at_acquired ans then emit [SlotReleased (ac_ID a)] st2 else st2)"
        | (noSlot) answer where "x = Some answer" "r = Return answer" "st' = st3"
        | (veto) "x = None" "vetoedAccount (rq_sessionKey rq) a st3 = (r, st')"
        | (sent) "x = None" "admittedAccount rq ans a st3 = (r, st')"
        using step by (auto split: if_splits option.splits)
      then show ?thesis
      proof cases
        case intercepted
        then show ?thesis using st2
          by (auto simp: after_step_def settled_def finish_log finish_pending leaves_session_def resources_simps split: if_splits)
      next
        case (noSlot answer)
        then show ?thesis using res st3
          by (auto simp: after_step_def settled_def finish_log finish_pending resources_simps)
      next
        case veto
        then show ?thesis using vetoed_resources [OF veto(2) _ st3(3,1,2), of rq] res(1)
          by (auto simp: after_step_def)
      next
        case sent
        show ?thesis
          by (rule admitted_resources [OF sent(2) st3(1,2)])
            (use assms(3) Some res(1) sent(1) in \<open>simp_all add: same_account_def\<close>)
      qed
    qed
  qed
qed

lemma restart_idle [simp]: "idle (restart rq st) = idle st"
  by (simp add: idle_def)

lemma start_idle [simp]: "idle (startMessages rq now)"
  by (simp add: idle_def startMessages_def resources_def holds_exactly_Nil openSessions_def)


subsection \<open>Examples\<close>

definition demo_second :: messages_state where
  "demo_second = snd (messagesAttempt demo_request demo_attempt (startMessages demo_request 0))"

definition demo_third :: messages_state where
  "demo_third = snd (messagesAttempt demo_request (demo_attempt\<lparr>at_outcome := Answered\<rparr>) demo_second)"

lemma demo_steps:
  "fst (messagesAttempt demo_request demo_attempt (startMessages demo_request 0)) = Again"
  "fst (messagesAttempt demo_request (demo_attempt\<lparr>at_outcome := Answered\<rparr>) demo_second) = Return Delivered"
  "7 \<notin> fs_FailedAccountIDs (ms_fs (startMessages demo_request 0))"
  "7 \<notin> fs_FailedAccountIDs (ms_fs demo_second)"
  by code_simp+

lemma demo_runs:
  "messagesLoop demo_request demo_env 0 (startMessages demo_request 0) = Some (Delivered, finishMessages demo_request demo_third)"
proof -
  have "messagesAttempt demo_request demo_attempt (startMessages demo_request 0) = (Again, demo_second)"
    "messagesAttempt demo_request (demo_attempt\<lparr>at_outcome := Answered\<rparr>) demo_second = (Return Delivered, demo_third)"
    using demo_steps by (simp_all add: demo_second_def demo_third_def prod_eq_iff)
  then show ?thesis
    by (subst messagesLoop.simps) (simp add: demo_env_def demo_steps messagesLoop.simps [of _ _ "Suc 0"])
qed

lemma demo_log: "ms_log (finishMessages demo_request demo_third) =
  [SessionRegistered 7, SlotTaken 7, QueueLocked 7, Forwarded 7, QueueReleased 7, SlotReleased 7,
    Failover (Slept 500000000), SessionReleased 7, SessionRegistered 7, SlotTaken 7, QueueLocked 7, Forwarded 7,
    QueueReleased 7, SlotReleased 7, StickyBound 7, UsageSubmitted 7]"
  by code_simp


text \<open>A request that finds the queue of its account full keeps its session registered with that
  account: the selection has registered the session, but the handler answers before it notes the
  account among those whose sessions it releases. The session stays open until it has been idle for
  the whole timeout, as if upstream had served it.\<close>

theorem queue_full_keeps_session:
  "\<exists>st'. messagesLoop demo_request full_env 0 (startMessages demo_request now) = Some (QueueFull, st') \<and>
    \<not> ms_served st' \<and> forwards st' = 0 \<and> openSessions (ms_log st') = {7}"
proof -
  let ?a = "demo_attempt\<lparr>at_acquired := False, at_waitPlan := True, at_canWait := Some False\<rparr>"
  have lim: "limitsSessions ''s'' demo_account" by code_simp
  have "messagesAttempt demo_request ?a (startMessages demo_request now) =
      (Return QueueFull, emit [SessionRegistered 7] (startMessages demo_request now))"
    using lim by (simp add: messagesAttempt_def Let_def acquireSlot_def registerSession_def demo_attempt_def demo_request_def
        demo_account_def startMessages_def emit_def)
  then show ?thesis
    by (subst messagesLoop.simps)
      (simp add: full_env_def finish_log openSessions_def startMessages_def finishMessages_def Let_def forwards_def)
qed

end
