(* ===== verification/GatewayConduct.thy ===== *)
theory GatewayConduct
  imports GatewayResources StreamRun
begin

text \<open>
  The order of what a request does: a monitor over the log forbids forwarding to an account after the profit
  gate vetoed it, charging any account but the one that was forwarded to last, and doing anything
  of the kind after the charge.
\<close>

type_synonym conduct_state = "int set \<times> int option \<times> bool"

fun conduct :: "conduct_state \<Rightarrow> gateway_effect \<Rightarrow> conduct_state option" where
  "conduct (V, cur, charged) (Forwarded i) = (if i \<in> V \<or> charged then None else Some (V, Some i, charged))"
| "conduct (V, cur, charged) (UsageSubmitted i) = (if cur \<noteq> Some i \<or> charged then None else Some (V, cur, True))"
| "conduct (V, cur, charged) (RPMCounted i) = (if cur \<noteq> Some i then None else Some (V, cur, charged))"
| "conduct (V, cur, charged) (StickyBound i) = (if cur \<noteq> Some i then None else Some (V, cur, charged))"
| "conduct (V, cur, charged) (ProfitVetoed i) = Some (insert i V, cur, charged)"
| "conduct (V, cur, charged) (GroupSwitched g) = Some ({}, cur, charged)"
| "conduct (V, cur, charged) _ = Some (V, cur, charged)"

definition conduct_end :: "gateway_effect list \<Rightarrow> conduct_state option" where
  "conduct_end fx = monitor_run conduct ({}, None, False) fx"

lemma conduct_failovers [simp]: "monitor_run conduct m (map Failover fx) = Some m"
  by (cases m) (induction fx; simp)

lemma conduct_releases [simp]: "monitor_run conduct m (sessionReleases k a) = Some m"
  by (cases m) (induction a; auto)

lemma conduct_skip [simp]:
  "monitor_run conduct m (map Failover fx @ gx) = monitor_run conduct m gx"
  "monitor_run conduct m (sessionReleases k a @ gx) = monitor_run conduct m gx"
  by (simp_all add: monitor_run_append)

lemma conduct_append [simp]:
  "conduct_end (fx @ gx) = (case conduct_end fx of None \<Rightarrow> None | Some m \<Rightarrow> monitor_run conduct m gx)"
  by (simp add: conduct_end_def monitor_run_append)

definition proper :: "messages_state \<Rightarrow> bool" where
  "proper st \<longleftrightarrow> ms_pending st = [] \<and> \<not> ms_served st \<and>
     fs_profitVetoedAccountIDs (ms_fs st) \<subseteq> fs_FailedAccountIDs (ms_fs st) \<and>
     (\<exists>cur. conduct_end (ms_log st) = Some (fs_profitVetoedAccountIDs (ms_fs st), cur, False))"

definition proper_end :: "messages_request \<Rightarrow> loop_next \<Rightarrow> messages_state \<Rightarrow> bool" where
  "proper_end rq r st =
     (case r of
        Again \<Rightarrow> proper st
      | RetryWithFallback \<Rightarrow> proper (restart rq st)
      | Return answer \<Rightarrow> \<exists>V cur. conduct_end (ms_log (finishMessages rq st)) = Some (V, cur, ms_served st))"

definition excluded_not_selected :: "attempt \<Rightarrow> messages_state \<Rightarrow> bool" where
  "excluded_not_selected ans st \<longleftrightarrow>
     (case at_selected ans of
        None \<Rightarrow> True
      | Some a \<Rightarrow> ac_ID a \<notin> fs_FailedAccountIDs (ms_fs st) \<and> ac_ID (at_latest ans) = ac_ID a)"

lemma failover_vetoes:
  assumes "HandleFailoverError now c slept i plat n e fs = (action, fx, fs')"
  shows "fs_profitVetoedAccountIDs fs' = fs_profitVetoedAccountIDs fs \<and>
    (\<forall>i. i \<in> fs_FailedAccountIDs fs \<longrightarrow> i \<in> fs_FailedAccountIDs fs')"
  using assms by (auto simp: HandleFailoverError_def Let_def split: if_splits prod.splits)

lemma backoff_vetoes:
  assumes "HandleSelectionExhausted c slept fs = (action, fx, fs')"
  shows "fs_profitVetoedAccountIDs fs' = fs_profitVetoedAccountIDs fs \<and>
    (fs_FailedAccountIDs fs' = fs_FailedAccountIDs fs \<or> fs_FailedAccountIDs fs' = fs_profitVetoedAccountIDs fs)"
  using assms by (auto simp: HandleSelectionExhausted_def Let_def split: if_splits prod.splits option.splits)

lemma selectionFailed_proper:
  assumes "selectionFailed ans st = (r, st')" and "proper st"
  shows "proper_end rq r st'"
  using assms
  by (auto simp: selectionFailed_def Let_def proper_def proper_end_def finish_log
      dest!: backoff_vetoes split: if_splits prod.splits failover_action.splits)

lemma vetoed_proper:
  assumes "vetoedAccount key a st = (r, st')" and "proper st"
  shows "proper_end rq r st'"
  using assms
  by (auto simp: vetoedAccount_def Let_def proper_def proper_end_def finish_log RecordProfitVeto_def
      split: if_splits prod.splits)

lemma promptTooLong_proper:
  assumes "promptTooLong rq found ok st = (r, st')" and "proper st"
  shows "proper_end rq r st'"
  using assms
  by (auto simp: promptTooLong_def Let_def proper_def proper_end_def finish_log NewFailoverState_def
      split: if_splits option.splits)

lemma upstreamFailed_proper:
  assumes "upstreamFailed rq ans a e wrote st = (r, st')" and "proper st"
  shows "proper_end rq r st'"
  using assms
  by (auto simp: upstreamFailed_def Let_def proper_def proper_end_def finish_log
      dest!: failover_vetoes split: if_splits prod.splits failover_action.splits)

lemma forward_proper:
  assumes "forwardAttempt rq ans a st = (r, st')" and "ac_ID a \<notin> fs_FailedAccountIDs (ms_fs st)"
    and "proper (st\<lparr>ms_pending := []\<rparr>)" and "\<And>m. monitor_run conduct m (rev (ms_pending st)) = Some m"
  shows "proper_end rq r st'"
proof -
  define st1 where "st1 = (emit (Forwarded (ac_ID a) # rev (ms_pending st)) st)\<lparr>ms_pending := []\<rparr>"
  have p: "proper st1" and cur: "conduct_end (ms_log st1) = Some (fs_profitVetoedAccountIDs (ms_fs st1), Some (ac_ID a), False)"
    using assms(2-4) by (auto simp: proper_def st1_def)
  have frame: "ms_pending st1 = []" "ms_served st1 = False" using p by (simp_all add: proper_def)
  show ?thesis
  proof (cases "at_outcome ans")
    case (PromptTooLong found ok)
    then show ?thesis using assms(1) promptTooLong_proper [OF _ p] by (simp add: forwardAttempt_def st1_def)
  next
    case (UpstreamFailed e wrote)
    then show ?thesis using assms(1) upstreamFailed_proper [OF _ p] by (simp add: forwardAttempt_def st1_def)
  qed (use assms(1) cur frame in \<open>auto simp: forwardAttempt_def deliveredAnswer_def proper_end_def finish_log
      simp flip: st1_def split: if_splits\<close>)
qed

lemma admitted_proper:
  assumes "admittedAccount rq ans a st = (r, st')" and "ac_ID (at_latest ans) \<notin> fs_FailedAccountIDs (ms_fs st)"
    and "proper st"
  shows "proper_end rq r st'"
proof -
  let ?l = "at_latest ans"
  define st1 where "st1 = st\<lparr>ms_slotAccounts := map_put (ac_ID ?l) ?l (ms_slotAccounts st), ms_pending := [SlotReleased (ac_ID a)]\<rparr>"
  define st2 where "st2 = (if at_gateActive ans \<or> \<not> at_acquired ans then emit [StickyAdmitted (ac_ID ?l)] st1 else st1)"
  define st3 where "st3 = (if at_queueLock ans
      then (emit [QueueLocked (ac_ID ?l)] st2)\<lparr>ms_pending := ms_pending st2 @ [QueueReleased (ac_ID ?l)]\<rparr> else st2)"
  have st3: "ac_ID ?l \<notin> fs_FailedAccountIDs (ms_fs st3)" "proper (st3\<lparr>ms_pending := []\<rparr>)"
    "monitor_run conduct m (rev (ms_pending st3)) = Some m" "monitor_run conduct m (ms_pending st3) = Some m"
    "\<not> ms_served st3" for m
    using assms(2,3) by (cases m; auto simp: proper_def st1_def st2_def st3_def)+
  have "(if \<not> at_replaced ans then (Return BadRequest, st3) else forwardAttempt rq ans ?l st3) = (r, st')"
    using assms(1) unfolding admittedAccount_def Let_def st1_def st2_def st3_def .
  moreover have "proper_end rq (Return BadRequest) st3"
    using st3 by (auto simp: proper_end_def finish_log proper_def)
  ultimately show ?thesis using forward_proper [OF _ st3(1-3)] by (auto split: if_splits)
qed

lemma acquireSlot_proper:
  assumes "acquireSlot ans i st = (r, st')" and "proper st"
  shows "proper st'"
  using assms by (auto simp: acquireSlot_def Let_def proper_def split: if_splits)

lemma attempt_proper:
  assumes "messagesAttempt rq ans st0 = (r, st')" and "proper st0" and "excluded_not_selected ans st0"
  shows "proper_end rq r st'"
proof -
  have returned: "proper_end rq (Return answer) st" if "proper st" for answer st
    using that by (auto simp: proper_end_def proper_def finish_log)
  show ?thesis
  proof (cases "at_selected ans")
    case None
    have "proper (st0\<lparr>ms_clock := ms_clock st0 + at_elapsed ans\<rparr>)" using assms(2) by (simp add: proper_def)
    with None assms(1) show ?thesis
      by (auto simp: messagesAttempt_def Let_def dest: selectionFailed_proper returned split: if_splits)
  next
    case (Some a)
    define st2 where "st2 = (if at_acquired ans
      then emit [SlotTaken (ac_ID a)] (registerSession (rq_sessionKey rq) a (st0\<lparr>ms_clock := ms_clock st0 + at_elapsed ans\<rparr>))
      else registerSession (rq_sessionKey rq) a (st0\<lparr>ms_clock := ms_clock st0 + at_elapsed ans\<rparr>))"
    have st2: "proper st2" "ms_fs st2 = ms_fs st0" using assms(2) by (auto simp: st2_def proper_def)
    obtain x st3 where acq: "acquireSlot ans (ac_ID a) st2 = (x, st3)" by (cases "acquireSlot ans (ac_ID a) st2")
    have st3: "proper st3" "ms_fs st3 = ms_fs st0"
      using acquireSlot_proper [OF acq st2(1)] acquireSlot_frame [OF acq] st2(2) by simp_all
    have latest: "ac_ID (at_latest ans) \<notin> fs_FailedAccountIDs (ms_fs st3)"
      using assms(3) Some st3(2) by (simp add: excluded_not_selected_def)
    have "messagesAttempt rq ans st0 =
       (if \<not> at_parsed ans then (Return BadRequest, st0\<lparr>ms_clock := ms_clock st0 + at_elapsed ans\<rparr>)
        else if at_intercepted ans
        then (Return Intercepted, if at_acquired ans then emit [SlotReleased (ac_ID a)] st2 else st2)
        else case x of
          Some answer \<Rightarrow> (Return answer, st3)
        | None \<Rightarrow> if at_vetoed ans then vetoedAccount (rq_sessionKey rq) a st3 else admittedAccount rq ans a st3)"
      using acq by (simp add: messagesAttempt_def Let_def Some st2_def)
    moreover have "proper_end rq (Return BadRequest) (st0\<lparr>ms_clock := ms_clock st0 + at_elapsed ans\<rparr>)"
      "proper_end rq (Return Intercepted) (if at_acquired ans then emit [SlotReleased (ac_ID a)] st2 else st2)"
      using assms(2) st2 by (auto intro!: returned simp: proper_def)
    ultimately show ?thesis
      using assms(1) returned [OF st3(1)] vetoed_proper [OF _ st3(1)] admitted_proper [OF _ latest st3(1)]
      by (auto split: if_splits option.splits)
  qed
qed

lemma start_proper: "proper (startMessages rq now)"
  by (simp add: proper_def startMessages_def NewFailoverState_def conduct_end_def)

text \<open>C12: A request is charged to the account that served it, once, and only if one did. Between the start
  and the return of the Messages handler no account is forwarded to after the profit gate vetoed it in
  that group, not even when a back-off lifts the other exclusions; usage is submitted for the
  account forwarded to last, at most once, after which nothing is forwarded; and it has been
  submitted exactly when the handler counts the session as served.\<close>

theorem charged_once_for_server:
  assumes "\<And>i st. excluded_not_selected (env i st) st"
    and "messagesLoop rq env 0 (startMessages rq now) = Some (answer, st')"
  shows "\<exists>V cur. monitor_run conduct ({}, None, False) (ms_log st') = Some (V, cur, ms_served st')"
proof -
  have "\<exists>V cur. conduct_end (ms_log st') = Some (V, cur, ms_served st')"
    using assms(2) start_proper
  proof (rule messagesLoop_rule)
    fix i st st' answer
    assume "proper st"
    then show "messagesAttempt rq (env i st) st = (Again, st') \<Longrightarrow> proper st'"
      and "messagesAttempt rq (env i st) st = (RetryWithFallback, st') \<Longrightarrow> proper (restart rq st')"
      and "messagesAttempt rq (env i st) st = (Return answer, st') \<Longrightarrow>
        \<exists>V cur. conduct_end (ms_log (finishMessages rq st')) = Some (V, cur, ms_served (finishMessages rq st'))"
      using attempt_proper [OF _ _ assms(1)] by (fastforce simp: proper_end_def)+
  qed
  then show ?thesis by (simp add: conduct_end_def)
qed

theorem charged_once_for_server_witness:
  "\<exists>V cur. monitor_run conduct ({}, None, False) (ms_log (finishMessages demo_request demo_third)) = Some (V, cur, True)"
proof -
  have "excluded_not_selected (demo_env i st) st" for i st
    by (simp add: excluded_not_selected_def demo_env_def demo_attempt_def demo_account_def)
  from charged_once_for_server [OF this demo_runs]
  have "\<exists>V cur. monitor_run conduct ({}, None, False) (ms_log (finishMessages demo_request demo_third)) =
      Some (V, cur, ms_served demo_third)" by simp
  moreover have "ms_served demo_third" by code_simp
  ultimately show ?thesis by simp
qed

end
