(* ===== verification/SessionLimit.thy ===== *)
theory SessionLimit
  imports SlotProofs Accounts
begin

text \<open>
  The sessions that accounts with \<open>max_sessions\<close> serve at the same time: the Redis scripts of
  \<open>repository/session_limit_cache.go\<close> and the calls in \<open>service/gateway_scheduling.go\<close>. A connection
  error is the answer \<open>None\<close>; the service lets such a request pass. The sessions of an account are
  a bounded pool in the sense of \<open>leased_pool\<close>.
\<close>

definition sessionLimitKeyPrefix :: gostring where "sessionLimitKeyPrefix = ''session_limit:account:''"

definition registerSessionScript :: "int \<Rightarrow> gostring \<Rightarrow> int \<Rightarrow> int \<Rightarrow> gostring \<Rightarrow> redis \<Rightarrow> bool \<times> redis" where
  "registerSessionScript srv key maxSessions idleTimeout sessionUUID s =
     (let s1 = ZREMRANGEBYSCORE srv key (unixSeconds srv - idleTimeout) s in
      if ZSCORE srv key sessionUUID s1 \<noteq> None then (True, takeSlot srv key (idleTimeout + 60) sessionUUID s1)
      else if ZCARD srv key s1 < maxSessions then (True, takeSlot srv key (idleTimeout + 60) sessionUUID s1)
      else (False, s1))"

definition refreshSessionScript :: "int \<Rightarrow> gostring \<Rightarrow> int \<Rightarrow> gostring \<Rightarrow> redis \<Rightarrow> redis" where
  "refreshSessionScript srv key idleTimeout sessionUUID s =
     (if ZSCORE srv key sessionUUID s \<noteq> None then takeSlot srv key (idleTimeout + 60) sessionUUID s else s)"

definition getActiveSessionCountScript :: "int \<Rightarrow> gostring \<Rightarrow> int \<Rightarrow> redis \<Rightarrow> int \<times> redis" where
  "getActiveSessionCountScript srv key idleTimeout s =
     (let s1 = ZREMRANGEBYSCORE srv key (unixSeconds srv - idleTimeout) s in (ZCARD srv key s1, s1))"

definition isSessionActiveScript :: "int \<Rightarrow> gostring \<Rightarrow> int \<Rightarrow> gostring \<Rightarrow> redis \<Rightarrow> bool" where
  "isSessionActiveScript srv key idleTimeout sessionUUID s =
     (case ZSCORE srv key sessionUUID s of
        None \<Rightarrow> False
      | Some score \<Rightarrow> \<not> score \<le> unixSeconds srv - idleTimeout)"

subsection \<open>The cache\<close>

record sessionLimitCache =
  sl_defaultIdleTimeout :: goduration

definition NewSessionLimitCache :: "int \<Rightarrow> sessionLimitCache" where
  "NewSessionLimitCache defaultIdleTimeoutMinutes =
     \<lparr>sl_defaultIdleTimeout = (if defaultIdleTimeoutMinutes \<le> 0 then 5 else defaultIdleTimeoutMinutes) * minute\<rparr>"

definition sessionLimitKey :: "int \<Rightarrow> gostring" where
  "sessionLimitKey accountID = sessionLimitKeyPrefix @ itoa accountID"

definition wholeSeconds :: "goduration \<Rightarrow> int" where
  "wholeSeconds d = quot d second"

definition idleSeconds :: "sessionLimitCache \<Rightarrow> goduration \<Rightarrow> int" where
  "idleSeconds c idleTimeout =
     (if wholeSeconds idleTimeout \<le> 0 then wholeSeconds (sl_defaultIdleTimeout c) else wholeSeconds idleTimeout)"

definition RegisterSession ::
  "sessionLimitCache \<Rightarrow> int \<Rightarrow> int \<Rightarrow> gostring \<Rightarrow> int \<Rightarrow> goduration \<Rightarrow> redis \<Rightarrow> bool \<times> redis" where
  "RegisterSession c srv accountID sessionUUID maxSessions idleTimeout s =
     (if sessionUUID = [] \<or> maxSessions \<le> 0 then (True, s)
      else registerSessionScript srv (sessionLimitKey accountID) maxSessions (idleSeconds c idleTimeout) sessionUUID s)"

definition UnregisterSession :: "int \<Rightarrow> int \<Rightarrow> gostring \<Rightarrow> redis \<Rightarrow> redis" where
  "UnregisterSession srv accountID sessionUUID s =
     (if sessionUUID = [] then s else ZREM srv (sessionLimitKey accountID) sessionUUID s)"

definition RefreshSession :: "sessionLimitCache \<Rightarrow> int \<Rightarrow> int \<Rightarrow> gostring \<Rightarrow> goduration \<Rightarrow> redis \<Rightarrow> redis" where
  "RefreshSession c srv accountID sessionUUID idleTimeout s =
     (if sessionUUID = [] then s
      else refreshSessionScript srv (sessionLimitKey accountID) (idleSeconds c idleTimeout) sessionUUID s)"

definition GetActiveSessionCount :: "sessionLimitCache \<Rightarrow> int \<Rightarrow> int \<Rightarrow> redis \<Rightarrow> int \<times> redis" where
  "GetActiveSessionCount c srv accountID s =
     getActiveSessionCountScript srv (sessionLimitKey accountID) (wholeSeconds (sl_defaultIdleTimeout c)) s"

definition batchIdle :: "sessionLimitCache \<Rightarrow> (int, goduration) gomap \<Rightarrow> int \<Rightarrow> int" where
  "batchIdle c idleTimeouts accountID =
     wholeSeconds (case map_get idleTimeouts accountID of
                     Some t \<Rightarrow> if 0 < t then t else sl_defaultIdleTimeout c
                   | None \<Rightarrow> sl_defaultIdleTimeout c)"

fun GetActiveSessionCountBatch ::
  "sessionLimitCache \<Rightarrow> int \<Rightarrow> (int, goduration) gomap \<Rightarrow> int list \<Rightarrow> redis \<Rightarrow> (int, int) gomap \<times> redis" where
  "GetActiveSessionCountBatch c srv idleTimeouts [] s = ([], s)"
| "GetActiveSessionCountBatch c srv idleTimeouts (accountID # rest) s =
     (let (n, s1) = getActiveSessionCountScript srv (sessionLimitKey accountID) (batchIdle c idleTimeouts accountID) s;
          (m, s2) = GetActiveSessionCountBatch c srv idleTimeouts rest s1
      in (if map_get m accountID = None then map_put accountID n m else m, s2))"

definition IsSessionActive :: "sessionLimitCache \<Rightarrow> int \<Rightarrow> int \<Rightarrow> gostring \<Rightarrow> redis \<Rightarrow> bool" where
  "IsSessionActive c srv accountID sessionUUID s =
     (if sessionUUID = [] then False
      else isSessionActiveScript srv (sessionLimitKey accountID) (wholeSeconds (sl_defaultIdleTimeout c)) sessionUUID s)"

subsection \<open>The calls of the gateway\<close>

text \<open>\<open>reachable\<close> is false when Redis cannot be reached.\<close>

definition checkAndRegisterSession ::
  "sessionLimitCache option \<Rightarrow> bool \<Rightarrow> int \<Rightarrow> account \<Rightarrow> gostring \<Rightarrow> redis \<Rightarrow> bool \<times> redis" where
  "checkAndRegisterSession cache reachable srv a sessionID s =
     (if \<not> IsAnthropicOAuthOrSetupToken a then (True, s)
      else if GetMaxSessions a \<le> 0 \<or> sessionID = [] then (True, s)
      else case cache of
        None \<Rightarrow> (True, s)
      | Some c \<Rightarrow>
          if \<not> reachable then (True, s)
          else RegisterSession c srv (ac_ID a) sessionID (GetMaxSessions a)
                 (GetSessionIdleTimeoutMinutes a * minute) s)"

definition ReleaseAccountSession ::
  "sessionLimitCache option \<Rightarrow> bool \<Rightarrow> int \<Rightarrow> account \<Rightarrow> gostring \<Rightarrow> redis \<Rightarrow> redis" where
  "ReleaseAccountSession cache reachable srv a sessionID s =
     (if cache = None \<or> sessionID = [] then s
      else if \<not> IsAnthropicOAuthOrSetupToken a then s
      else if GetMaxSessions a \<le> 0 then s
      else if \<not> reachable then s
      else UnregisterSession srv (ac_ID a) sessionID s)"

subsection \<open>The pool of an account\<close>

datatype session_op =
    Register int gostring int goduration
  | Unregister int gostring
  | Refresh int gostring goduration
  | CountSessions "int list" "(int, goduration) gomap"

fun session_op_step :: "sessionLimitCache \<Rightarrow> int \<Rightarrow> session_op \<Rightarrow> redis \<Rightarrow> bool \<times> redis" where
  "session_op_step c srv (Register a u mx idle) s = RegisterSession c srv a u mx idle s"
| "session_op_step c srv (Unregister a u) s = (False, UnregisterSession srv a u s)"
| "session_op_step c srv (Refresh a u idle) s = (False, RefreshSession c srv a u idle s)"
| "session_op_step c srv (CountSessions as idles) s = (False, snd (GetActiveSessionCountBatch c srv idles as s))"

fun session_asks :: "int \<Rightarrow> int \<Rightarrow> redis \<Rightarrow> session_op \<Rightarrow> gostring option" where
  "session_asks i srv s (Register a u mx idle) = (if i = a then Some u else None)"
| "session_asks i srv s op = None"

fun session_drops :: "int \<Rightarrow> session_op \<Rightarrow> gostring \<Rightarrow> bool" where
  "session_drops i (Unregister a u) h \<longleftrightarrow> i = a \<and> h = u"
| "session_drops i op h \<longleftrightarrow> False"

text \<open>The settings of the account do not change: \<open>idle\<close> is its timeout and \<open>limit\<close> its sessions.\<close>

fun session_allowed :: "sessionLimitCache \<Rightarrow> goduration \<Rightarrow> int \<Rightarrow> int \<Rightarrow> session_op \<Rightarrow> bool" where
  "session_allowed c T limit i (Register a u mx idle) \<longleftrightarrow> i = a \<longrightarrow> idle = T \<and> 0 < mx \<and> mx \<le> limit \<and> u \<noteq> []"
| "session_allowed c T limit i (Refresh a u idle) \<longleftrightarrow> i = a \<longrightarrow> idle = T"
| "session_allowed c T limit i (CountSessions as idles) \<longleftrightarrow> i \<in> set as \<longrightarrow> map_get idles i = Some T"
| "session_allowed c T limit i op \<longleftrightarrow> True"

definition session_members :: "int \<Rightarrow> redis \<Rightarrow> (gostring, int) gomap" where
  "session_members i s = zk_members (rd_zsets s (sessionLimitKey i))"

definition session_good :: "goduration \<Rightarrow> int \<Rightarrow> int \<Rightarrow> int \<Rightarrow> redis \<Rightarrow> bool" where
  "session_good T limit i srv s \<longleftrightarrow> second \<le> T \<and> slot_ok (wholeSeconds T) srv (rd_zsets s (sessionLimitKey i)) \<and>
     ZCARD srv (sessionLimitKey i) s \<le> limit"

lemma session_key [simp]: "sessionLimitKey i = sessionLimitKey j \<longleftrightarrow> i = j"
  by (simp add: sessionLimitKey_def)

lemma idle_whole: "second \<le> T \<Longrightarrow> 0 < wholeSeconds T \<and> idleSeconds c T = wholeSeconds T"
  by (auto simp: idleSeconds_def wholeSeconds_def quot_def second_def)

lemma register_shape:
  assumes "registerSessionScript srv key mx ttl u s = (ok, s')"
  defines "s1 \<equiv> ZREMRANGEBYSCORE srv key (unixSeconds srv - ttl) s"
  shows "s' = (if ok then takeSlot srv key (ttl + 60) u s1 else s1)"
    and "ok \<Longrightarrow> ZSCORE srv key u s1 = None \<Longrightarrow> ZCARD srv key s1 < mx"
  using assms(1) by (auto simp: registerSessionScript_def s1_def Let_def split: if_splits)

lemma purge_passes:
  "(key = k \<Longrightarrow> ttl \<le> n) \<Longrightarrow>
     passes ttl srv D 0 (rd_zsets s k) (rd_zsets (ZREMRANGEBYSCORE srv key (unixSeconds srv - n) s) k)"
  by (rule passes_ZREMRANGE) simp

lemma count_batch_passes:
  assumes "i \<in> set as \<Longrightarrow> map_get idles i = Some T" and "second \<le> T"
  shows "passes (wholeSeconds T) srv D 0 (rd_zsets s (sessionLimitKey i))
    (rd_zsets (snd (GetActiveSessionCountBatch c srv idles as s)) (sessionLimitKey i))"
  using assms(1)
proof (induction as arbitrary: s)
  case (Cons a as)
  let ?s1 = "snd (getActiveSessionCountScript srv (sessionLimitKey a) (batchIdle c idles a) s)"
  have "i = a \<Longrightarrow> batchIdle c idles a = wholeSeconds T"
    using Cons.prems assms(2) by (simp add: batchIdle_def second_def)
  then have "passes (wholeSeconds T) srv D 0 (rd_zsets s (sessionLimitKey i)) (rd_zsets ?s1 (sessionLimitKey i))"
    by (auto simp: getActiveSessionCountScript_def Let_def intro: purge_passes)
  moreover have "passes (wholeSeconds T) srv D 0 (rd_zsets ?s1 (sessionLimitKey i))
      (rd_zsets (snd (GetActiveSessionCountBatch c srv idles as ?s1)) (sessionLimitKey i))"
    by (rule Cons.IH) (use Cons.prems in auto)
  ultimately show ?case
    using passes_trans [where i = 0 and j = 0 and n = 0] by (fastforce simp: Let_def split: prod.splits)
qed simp

lemma session_keeps:
  assumes "session_allowed c T limit i op" and "second \<le> T"
  shows "\<exists>n. passes (wholeSeconds T) srv (session_drops i op) n (rd_zsets s (sessionLimitKey i))
    (rd_zsets (snd (session_op_step c srv op s)) (sessionLimitKey i))"
proof (cases op)
  case (Register a u mx idle)
  show ?thesis
  proof (cases "u = [] \<or> mx \<le> 0")
    case False
    obtain ok s' where r: "registerSessionScript srv (sessionLimitKey a) mx (idleSeconds c idle) u s = (ok, s')"
      by (cases "registerSessionScript srv (sessionLimitKey a) mx (idleSeconds c idle) u s")
    let ?s1 = "ZREMRANGEBYSCORE srv (sessionLimitKey a) (unixSeconds srv - idleSeconds c idle) s"
    have ttl: "sessionLimitKey a = sessionLimitKey i \<Longrightarrow> idleSeconds c idle = wholeSeconds T"
      using assms Register idle_whole [of T c] by simp
    have p: "passes (wholeSeconds T) srv (session_drops i op) 0 (rd_zsets s (sessionLimitKey i)) (rd_zsets ?s1 (sessionLimitKey i))"
      by (rule purge_passes) (simp add: ttl)
    have "passes (wholeSeconds T) srv (session_drops i op) 1 (rd_zsets ?s1 (sessionLimitKey i))
        (rd_zsets (takeSlot srv (sessionLimitKey a) (idleSeconds c idle + 60) u ?s1) (sessionLimitKey i))"
      by (rule passes_takeSlot) (use ttl idle_whole [OF assms(2), of c] in auto)
    from passes_trans [OF p this, of 1] p show ?thesis
      using register_shape(1) [OF r] r Register False
      by (auto simp: RegisterSession_def split: if_splits)
  qed (auto simp: Register RegisterSession_def)
next
  case (Unregister a u)
  then show ?thesis
    by (auto simp: UnregisterSession_def intro!: exI [of _ 0] passes_ZREM)
next
  case (Refresh a u idle)
  have "passes (wholeSeconds T) srv (session_drops i op) 1 (rd_zsets s (sessionLimitKey i))
      (rd_zsets (takeSlot srv (sessionLimitKey a) (idleSeconds c idle + 60) u s) (sessionLimitKey i))"
    by (rule passes_takeSlot) (use assms Refresh idle_whole [OF assms(2), of c] in auto)
  then show ?thesis by (auto simp: Refresh RefreshSession_def refreshSessionScript_def)
next
  case (CountSessions as idles)
  then show ?thesis using count_batch_passes [of i as idles T srv _ s c] assms by (auto intro!: exI [of _ 0])
qed

lemma session_room:
  assumes "session_good T limit i srv s" and "session_allowed c T limit i op"
  shows "ZCARD srv (sessionLimitKey i) (snd (session_op_step c srv op s)) \<le> limit"
proof -
  let ?k = "sessionLimitKey i"
  have T: "second \<le> T" and card: "ZCARD srv ?k s \<le> limit"
    and ok: "slot_ok (wholeSeconds T) srv (rd_zsets s ?k)" using assms(1) by (simp_all add: session_good_def)
  have smaller: "ZCARD srv ?k s' \<le> ZCARD srv ?k s"
    if "passes (wholeSeconds T) srv D 0 (rd_zsets s ?k) (rd_zsets s' ?k)" for D s'
    using passes_size [OF that ok] by (simp add: ZCARD_size)
  show ?thesis
  proof (cases op)
    case (Register a u mx idle)
    show ?thesis
    proof (cases "i = a")
      case True
      have idle: "idleSeconds c idle = wholeSeconds T" "mx \<le> limit" and live: "u \<noteq> []" "0 < mx"
        using assms(2) T Register True idle_whole [of T c] by auto
      obtain good s' where r: "registerSessionScript srv ?k mx (wholeSeconds T) u s = (good, s')"
        by (cases "registerSessionScript srv ?k mx (wholeSeconds T) u s")
      let ?s1 = "ZREMRANGEBYSCORE srv ?k (unixSeconds srv - wholeSeconds T) s"
      have "passes (wholeSeconds T) srv (\<lambda>_. False) 0 (rd_zsets s ?k) (rd_zsets ?s1 ?k)"
        by (rule purge_passes) simp
      from smaller [OF this] card have one: "ZCARD srv ?k ?s1 \<le> limit" by simp
      have "ZCARD srv ?k (takeSlot srv ?k (wholeSeconds T + 60) u ?s1) \<le>
          ZCARD srv ?k ?s1 + (if ZSCORE srv ?k u ?s1 = None then 1 else 0)"
        by (rule takeSlot_card) (use idle_whole [OF T, of c] in simp)
      then have "ZCARD srv ?k s' \<le> limit"
        using register_shape [OF r] one idle(2) by (auto split: if_splits)
      then show ?thesis using r Register True idle live by (simp add: RegisterSession_def)
    next
      case False
      obtain good s' where r: "registerSessionScript srv (sessionLimitKey a) mx (idleSeconds c idle) u s = (good, s')"
        by (cases "registerSessionScript srv (sessionLimitKey a) mx (idleSeconds c idle) u s")
      have "rd_zsets s' ?k = rd_zsets s ?k"
        using register_shape(1) [OF r] False by (simp add: zset_frames)
      then show ?thesis using card r Register by (simp add: RegisterSession_def ZCARD_zsets)
    qed
  next
    case (Unregister a u)
    have "passes (wholeSeconds T) srv (\<lambda>_. True) 0 (rd_zsets s ?k) (rd_zsets (ZREM srv (sessionLimitKey a) u s) ?k)"
      by (rule passes_ZREM) simp
    from smaller [OF this] show ?thesis using Unregister card by (simp add: UnregisterSession_def)
  next
    case (Refresh a u idle)
    have "ZCARD srv ?k (takeSlot srv (sessionLimitKey a) (idleSeconds c idle + 60) u s) \<le> ZCARD srv ?k s"
      if "ZSCORE srv (sessionLimitKey a) u s \<noteq> None"
    proof (cases "i = a")
      case True
      then show ?thesis using takeSlot_card [of "idleSeconds c idle + 60" srv ?k u s] that assms(2) Refresh idle_whole [OF T, of c]
        by simp
    qed (simp add: ZCARD_zsets zset_frames)
    then show ?thesis using Refresh card by (auto simp: RefreshSession_def refreshSessionScript_def)
  next
    case (CountSessions as idles)
    then show ?thesis using smaller [OF count_batch_passes [of i as idles T srv "\<lambda>_. False" s c]] assms(2) T card by simp
  qed
qed

lemma session_grants:
  assumes "session_asks i srv s op = Some u" and "session_allowed c T limit i op" and "second \<le> T"
    and "fst (session_op_step c srv op s)"
  shows "map_get (session_members i (snd (session_op_step c srv op s))) u = Some (unixSeconds srv)"
proof -
  obtain mx idle where op: "op = Register i u mx idle" using assms(1) by (cases op) (auto split: if_splits)
  obtain s' where r: "registerSessionScript srv (sessionLimitKey i) mx (idleSeconds c idle) u s = (True, s')"
    using assms(2,4) op by (auto simp: RegisterSession_def prod_eq_iff)
  have "0 < idleSeconds c idle" using assms(2,3) op idle_whole [of T c] by simp
  then show ?thesis
    using register_shape(1) [OF r] r assms(2) op takeSlot_members [of "idleSeconds c idle + 60"]
    by (simp add: RegisterSession_def session_members_def)
qed

interpretation sessions: leased_pool "session_op_step c" "session_asks i" "session_drops i" "session_members i"
  "\<lambda>_. wholeSeconds T" "session_good T limit i" "session_allowed c T limit i" limit
proof
  fix srv srv' s
  show "session_good T limit i srv s \<Longrightarrow> srv \<le> srv' \<Longrightarrow> session_good T limit i srv' s"
    using zset_size_later [of srv srv' "rd_zsets s (sessionLimitKey i)"]
    by (auto simp: session_good_def ZCARD_size intro: slot_ok_later)
next
  fix srv s op
  assume "session_good T limit i srv s" "session_allowed c T limit i op"
  then show "session_good T limit i srv (snd (session_op_step c srv op s))"
    using session_keeps [of c T limit i op srv s] session_room by (auto simp: session_good_def passes_def)
next
  fix srv s op h t
  assume "session_good T limit i srv s" "session_allowed c T limit i op" "map_get (session_members i s) h = Some t"
    "unixSeconds srv - t < wholeSeconds T" "\<not> session_drops i op h"
  then show "\<exists>t' \<ge> t. map_get (session_members i (snd (session_op_step c srv op s))) h = Some t'"
    using session_keeps [of c T limit i op srv s] by (auto simp: session_good_def passes_def session_members_def)
next
  fix srv s op h
  assume "session_good T limit i srv s" "session_allowed c T limit i op" "session_asks i srv s op = Some h"
    "fst (session_op_step c srv op s)"
  then show "map_get (session_members i (snd (session_op_step c srv op s))) h = Some (unixSeconds srv)"
    using session_grants by (simp add: session_good_def)
next
  fix srv s
  assume "session_good T limit i srv s"
  then show "int (length (filter (\<lambda>(h, t). unixSeconds srv - t < wholeSeconds T) (session_members i s))) \<le> limit"
    using alive_size [of "wholeSeconds T" srv "rd_zsets s (sessionLimitKey i)"]
    by (simp add: session_good_def ZCARD_size session_members_def)
qed

definition session_run :: "sessionLimitCache \<Rightarrow> int \<Rightarrow> (int \<times> session_op) list \<Rightarrow> (gostring, int) gomap" where
  "session_run c i ops =
     snd (fold (held_step (session_op_step c) (session_asks i) (session_drops i)) ops (emptyRedis, []))"

lemma empty_sessions: "second \<le> T \<Longrightarrow> 0 \<le> limit \<Longrightarrow> session_good T limit i srv emptyRedis"
  by (simp add: session_good_def ZCARD_size emptyRedis_def)

text \<open>C14: At any moment an account serves at most \<open>limit\<close> sessions that were registered less than the idle
  timeout ago and not released since, across all instances and whatever else they do, if the account's
  settings stay the same.\<close>

theorem sessions_bounded:
  assumes "second \<le> T" and "0 \<le> limit" and "ordered_from start ops"
    and "\<forall>x \<in> set ops. session_allowed c T limit i (snd x)" and "end_time start ops \<le> now"
  shows "int (length (running (\<lambda>_. wholeSeconds T) now (session_run c i ops))) \<le> limit"
  unfolding session_run_def
  by (rule sessions.running_bounded [where srv = start and limit = limit]) (use assms in \<open>simp_all add: empty_sessions\<close>)

definition demo_sessions :: "(int \<times> session_op) list" where
  "demo_sessions = [(0, Register 7 ''a'' 1 (5 * minute)), (60000, Register 7 ''b'' 1 (5 * minute)),
     (90000, CountSessions [7, 8] [(7, 5 * minute)]), (100000, Register 7 ''a'' 1 (5 * minute)),
     (500000, Register 7 ''b'' 1 (5 * minute))]"

lemma demo_sessions_run: "session_run (NewSessionLimitCache 0) 7 demo_sessions = [(''a'', 100), (''b'', 500)]"
  by code_simp

theorem sessions_bounded_witness:
  "session_run (NewSessionLimitCache 0) 7 demo_sessions = [(''a'', 100), (''b'', 500)] \<and>
   int (length (running (\<lambda>_. wholeSeconds (5 * minute)) 500000 (session_run (NewSessionLimitCache 0) 7 demo_sessions))) \<le> 1"
proof -
  have "ordered_from 0 demo_sessions" "end_time 0 demo_sessions \<le> 500000"
    "\<forall>x \<in> set demo_sessions. session_allowed (NewSessionLimitCache 0) (5 * minute) 1 7 (snd x)"
    by (simp_all add: demo_sessions_def)
  from sessions_bounded [OF _ _ this(1,3,2)] show ?thesis by (simp add: demo_sessions_run minute_def second_def)
qed

text \<open>
  An account of one session. The session \<open>a\<close> has been served once; a second request of it fails and
  gives the session back, so that the session \<open>b\<close> is admitted while \<open>a\<close> is not idle yet.
\<close>

definition oneSession :: account where
  "oneSession = \<lparr>ac_ID = 7, ac_Platform = PlatformAnthropic, ac_Type = AccountTypeOAuth, ac_Credentials = [],
     ac_Extra = [(''max_sessions'', AnyInt 1)]\<rparr>"

definition registeredAt :: "int \<Rightarrow> gostring \<Rightarrow> redis \<Rightarrow> bool \<times> redis" where
  "registeredAt srv u s = checkAndRegisterSession (Some (NewSessionLimitCache 0)) True srv oneSession u s"

text \<open>A request that fails takes the session slot from earlier requests of the same session that upstream
  did serve: with one session allowed, a second session is refused while the first is in use, but
  admitted once a later request of the first has failed, long before the first has been idle for the timeout.\<close>

theorem failed_request_frees_served_session:
  "let s1 = snd (registeredAt 0 ''a'' emptyRedis);
       s2 = snd (registeredAt 10000 ''a'' s1);
       s3 = ReleaseAccountSession (Some (NewSessionLimitCache 0)) True 11000 oneSession ''a'' s2
   in fst (registeredAt 0 ''a'' emptyRedis) \<and> fst (registeredAt 10000 ''a'' s1) \<and>
      \<not> fst (registeredAt 12000 ''b'' s2) \<and> fst (registeredAt 12000 ''b'' s3)"
  by code_simp

end
