(* ===== verification/PaymentOrders.thy ===== *)
theory PaymentOrders
  imports GoPrelude Complex_Main
begin

text \<open>
  Orders of the payment service: \<open>payment/types.go\<close>, \<open>payment/currency.go\<close>,
  \<open>service/payment_currency.go\<close>, \<open>service/payment_order_provider_snapshot.go\<close> and the checks
  a payment notification passes in \<open>service/payment_fulfillment.go\<close>.

  \<^item> Amounts that come from the database are reals: the columns are decimal. The amount of a
    notification is a \<open>float64\<close> of the provider, so it can also be infinite or not a number.
  \<^item> \<open>strings.EqualFold\<close> compares under \<open>to_lower\<close>, which folds the ASCII letters.
  \<^item> The rounding of \<open>shopspring/decimal\<close> is a parameter \<open>rnd\<close> (digits, value).
  \<^item> The provider registry and the provider instance bound to an order are parameters: the key
    that was found, or the empty string.
\<close>

subsection \<open>Statuses, types and the row of an order\<close>

datatype order_status =
  OrderStatusPending | OrderStatusPaid | OrderStatusRecharging | OrderStatusCompleted
| OrderStatusExpired | OrderStatusCancelled | OrderStatusFailed | OrderStatusRefundRequested
| OrderStatusRefunding | OrderStatusRefundPending | OrderStatusPartiallyRefunded
| OrderStatusRefunded | OrderStatusRefundFailed

definition OrderTypeBalance :: gostring where "OrderTypeBalance = ''balance''"
definition OrderTypeSubscription :: gostring where "OrderTypeSubscription = ''subscription''"

record paymentOrderProviderSnapshot =
  SnapSchemaVersion :: int
  SnapProviderInstanceID :: gostring
  SnapProviderKey :: gostring
  SnapPaymentMode :: gostring
  SnapMerchantAppID :: gostring
  SnapMerchantID :: gostring
  SnapCurrency :: gostring

record PaymentOrder =
  OrdID :: int
  OrdUserID :: int
  OrdAmount :: real
  OrdPayAmount :: real
  OrdBonusAmount :: real
  OrdRechargeCode :: gostring
  OrdOutTradeNo :: gostring
  OrdPaymentType :: gostring
  OrdPaymentTradeNo :: gostring
  OrdOrderType :: gostring
  OrdSubscriptionGroupID :: "int option"
  OrdSubscriptionDays :: "int option"
  OrdProviderKey :: "gostring option"
  OrdProviderSnapshot :: "paymentOrderProviderSnapshot option"
  OrdStatus :: order_status
  OrdExpiresAt :: gotime
  OrdPaidAt :: "gotime option"
  OrdUpdatedAt :: gotime
  OrdRefundAmount :: real
  OrdForceRefund :: bool

definition psIsRefundStatus :: "order_status \<Rightarrow> bool" where
  "psIsRefundStatus s \<longleftrightarrow> s \<in> {OrderStatusRefundRequested, OrderStatusRefunding, OrderStatusRefundPending,
     OrderStatusPartiallyRefunded, OrderStatusRefunded, OrderStatusRefundFailed}"

definition isSupportedPaymentOrderType :: "gostring \<Rightarrow> bool" where
  "isSupportedPaymentOrderType t \<longleftrightarrow> t = OrderTypeBalance \<or> t = OrderTypeSubscription"

definition TypeAlipay :: gostring where "TypeAlipay = ''alipay''"
definition TypeWxpay :: gostring where "TypeWxpay = ''wxpay''"
definition TypeStripe :: gostring where "TypeStripe = ''stripe''"
definition TypeCard :: gostring where "TypeCard = ''card''"
definition TypeLink :: gostring where "TypeLink = ''link''"
definition TypeEasyPay :: gostring where "TypeEasyPay = ''easypay''"
definition TypeAirwallex :: gostring where "TypeAirwallex = ''airwallex''"

definition GetBasePaymentType :: "gostring \<Rightarrow> gostring" where
  "GetBasePaymentType t =
     (if t = TypeEasyPay then TypeEasyPay
      else if t = TypeAirwallex then TypeAirwallex
      else if t = TypeStripe \<or> t = TypeCard \<or> t = TypeLink then TypeStripe
      else if has_prefix t TypeAlipay then TypeAlipay
      else if has_prefix t TypeWxpay then TypeWxpay
      else t)"

subsection \<open>Currencies\<close>

definition DefaultPaymentCurrency :: gostring where "DefaultPaymentCurrency = ''CNY''"

definition NormalizePaymentCurrency :: "gostring \<Rightarrow> gostring option" where
  "NormalizePaymentCurrency raw =
     (let currency = to_upper (trim_space raw)
      in if currency = [] then Some DefaultPaymentCurrency
         else if length currency \<noteq> 3 then None
         else if list_all (\<lambda>ch. of_char ch \<in> {65..90 :: nat}) currency then Some currency
         else None)"

text \<open>A unit is the pair of \<open>apiMinorUnit\<close> and \<open>maxFractionDigits\<close>.\<close>

type_synonym paymentCurrencyAmountUnit = "nat \<times> nat"

definition zeroDecimalAmountUnit :: paymentCurrencyAmountUnit where "zeroDecimalAmountUnit = (0, 0)"
definition twoDecimalAmountUnit :: paymentCurrencyAmountUnit where "twoDecimalAmountUnit = (2, 2)"
definition threeDecimalAmountUnit :: paymentCurrencyAmountUnit where "threeDecimalAmountUnit = (3, 3)"
definition stripeLegacyZeroAmount :: paymentCurrencyAmountUnit where "stripeLegacyZeroAmount = (2, 0)"

definition paymentCurrencyAmountUnits :: "(gostring, paymentCurrencyAmountUnit) gomap" where
  "paymentCurrencyAmountUnits =
     [(''BIF'', zeroDecimalAmountUnit), (''CLP'', zeroDecimalAmountUnit), (''DJF'', zeroDecimalAmountUnit),
      (''GNF'', zeroDecimalAmountUnit), (''JPY'', zeroDecimalAmountUnit), (''KMF'', zeroDecimalAmountUnit),
      (''KRW'', zeroDecimalAmountUnit), (''MGA'', zeroDecimalAmountUnit), (''PYG'', zeroDecimalAmountUnit),
      (''RWF'', zeroDecimalAmountUnit), (''VND'', zeroDecimalAmountUnit), (''VUV'', zeroDecimalAmountUnit),
      (''XAF'', zeroDecimalAmountUnit), (''XOF'', zeroDecimalAmountUnit), (''XPF'', zeroDecimalAmountUnit),
      (''ISK'', stripeLegacyZeroAmount), (''UGX'', stripeLegacyZeroAmount),
      (''BHD'', threeDecimalAmountUnit), (''IQD'', threeDecimalAmountUnit), (''JOD'', threeDecimalAmountUnit),
      (''KWD'', threeDecimalAmountUnit), (''LYD'', threeDecimalAmountUnit), (''OMR'', threeDecimalAmountUnit),
      (''TND'', threeDecimalAmountUnit)]"

definition paymentCurrencyAmountUnitFor :: "gostring \<Rightarrow> paymentCurrencyAmountUnit" where
  "paymentCurrencyAmountUnitFor currency =
     (case NormalizePaymentCurrency currency of
        None \<Rightarrow> twoDecimalAmountUnit
      | Some normalized \<Rightarrow>
          (case map_get paymentCurrencyAmountUnits normalized of
             Some amountUnit \<Rightarrow> amountUnit
           | None \<Rightarrow> twoDecimalAmountUnit))"

definition CurrencyMinorUnit :: "gostring \<Rightarrow> nat" where
  "CurrencyMinorUnit currency = fst (paymentCurrencyAmountUnitFor currency)"

definition CurrencyMaxFractionDigits :: "gostring \<Rightarrow> nat" where
  "CurrencyMaxFractionDigits currency = snd (paymentCurrencyAmountUnitFor currency)"

text \<open>
  \<open>AmountToMinorUnit\<close> on the parsed amount, and its inverse. \<open>IntPart\<close> truncates towards zero.
\<close>

definition int_part :: "real \<Rightarrow> int" where
  "int_part x = (if x < 0 then - \<lfloor>- x\<rfloor> else \<lfloor>x\<rfloor>)"

definition AmountToMinorUnit :: "real \<Rightarrow> gostring \<Rightarrow> int option" where
  "AmountToMinorUnit d currency =
     (case NormalizePaymentCurrency currency of
        None \<Rightarrow> None
      | Some normalizedCurrency \<Rightarrow>
          let amountUnit = paymentCurrencyAmountUnitFor normalizedCurrency;
              scaledForPrecision = d * 10 ^ snd amountUnit
          in if scaledForPrecision \<noteq> real_of_int (int_part scaledForPrecision) then None
             else Some (int_part (d * 10 ^ fst amountUnit)))"

definition MinorUnitToAmount :: "int \<Rightarrow> gostring \<Rightarrow> real" where
  "MinorUnitToAmount v currency = real_of_int v / 10 ^ CurrencyMinorUnit currency"

definition amountToleranceCNY :: real where "amountToleranceCNY = 1 / 100"

definition paymentAmountToleranceForCurrency :: "gostring \<Rightarrow> real" where
  "paymentAmountToleranceForCurrency currency =
     (let minorUnit = CurrencyMinorUnit currency
      in if minorUnit \<le> 2 then amountToleranceCNY else 1 / 10 ^ minorUnit / 2)"

definition PaymentOrderCurrency :: "PaymentOrder \<Rightarrow> gostring" where
  "PaymentOrderCurrency order =
     (case OrdProviderSnapshot order of
        None \<Rightarrow> DefaultPaymentCurrency
      | Some snapshot \<Rightarrow>
          (case NormalizePaymentCurrency (SnapCurrency snapshot) of
             Some currency \<Rightarrow> currency
           | None \<Rightarrow> DefaultPaymentCurrency))"

subsection \<open>What a notification has to match\<close>

datatype gofloat = Finite real | NotANumber | Infinite

definition isValidProviderAmount :: "gofloat \<Rightarrow> bool" where
  "isValidProviderAmount amount = (case amount of Finite x \<Rightarrow> x > 0 | NotANumber \<Rightarrow> False | Infinite \<Rightarrow> False)"

record PaymentNotification =
  NTradeNo :: gostring
  NOrderID :: gostring
  NAmount :: gofloat
  NStatus :: gostring
  NMetadata :: "(gostring, gostring) gomap"

definition NotificationStatusSuccess :: gostring where "NotificationStatusSuccess = ''success''"
definition orderIDPrefix :: gostring where "orderIDPrefix = ''sub2_''"

definition EqualFold :: "gostring \<Rightarrow> gostring \<Rightarrow> bool" where
  "EqualFold s t \<longleftrightarrow> to_lower s = to_lower t"

definition parseLegacyPaymentOrderID :: "gostring \<Rightarrow> bool \<Rightarrow> int option" where
  "parseLegacyPaymentOrderID orderID notFound =
     (if \<not> notFound then None
      else let orderID = trim_space orderID
           in if \<not> has_prefix orderID orderIDPrefix then None
              else let trimmed = trim_prefix orderID orderIDPrefix
                   in if trimmed = [] \<or> trimmed = orderID then None
                      else (case parse_int64 trimmed of
                              None \<Rightarrow> None
                            | Some oid \<Rightarrow> if oid \<le> 0 then None else Some oid))"

definition expectedNotificationProviderKey :: "gostring \<Rightarrow> gostring \<Rightarrow> gostring \<Rightarrow> gostring \<Rightarrow> gostring" where
  "expectedNotificationProviderKey registryKey orderPaymentType orderProviderKey instanceProviderKey =
     (if trim_space instanceProviderKey \<noteq> [] then trim_space instanceProviderKey
      else if trim_space orderProviderKey \<noteq> [] then trim_space orderProviderKey
      else if trim_space registryKey \<noteq> [] then trim_space registryKey
      else trim_space orderPaymentType)"

definition expectedNotificationProviderKeyForOrder :: "gostring \<Rightarrow> PaymentOrder \<Rightarrow> gostring \<Rightarrow> gostring" where
  "expectedNotificationProviderKeyForOrder registryKey order instanceProviderKey =
     (let orderProviderKey = (case OrdProviderSnapshot order of
            Some snapshot \<Rightarrow> if SnapProviderKey snapshot \<noteq> [] then SnapProviderKey snapshot
                             else (case OrdProviderKey order of Some k \<Rightarrow> k | None \<Rightarrow> [])
          | None \<Rightarrow> (case OrdProviderKey order of Some k \<Rightarrow> k | None \<Rightarrow> []))
      in expectedNotificationProviderKey registryKey (OrdPaymentType order) orderProviderKey instanceProviderKey)"

text \<open>One field of the snapshot against one entry of the metadata: an absent entry counts as empty.\<close>

definition metadataValue :: "(gostring, gostring) gomap \<Rightarrow> gostring \<Rightarrow> gostring" where
  "metadataValue metadata key = (case map_get metadata key of Some v \<Rightarrow> v | None \<Rightarrow> [])"

definition identityMatches :: "(gostring, gostring) gomap \<Rightarrow> gostring \<Rightarrow> gostring \<Rightarrow> bool" where
  "identityMatches metadata expected key \<longleftrightarrow>
     trim_space expected = [] \<or>
     trim_space (metadataValue metadata key) \<noteq> [] \<and>
     EqualFold (trim_space expected) (trim_space (metadataValue metadata key))"

definition currencyMatches :: "(gostring, gostring) gomap \<Rightarrow> gostring \<Rightarrow> bool" where
  "currencyMatches metadata expected \<longleftrightarrow>
     trim_space expected = [] \<or>
     to_upper (trim_space (metadataValue metadata ''currency'')) \<noteq> [] \<and>
     EqualFold (trim_space expected) (to_upper (trim_space (metadataValue metadata ''currency'')))"

definition stateMatches :: "(gostring, gostring) gomap \<Rightarrow> gostring \<Rightarrow> gostring \<Rightarrow> bool" where
  "stateMatches metadata key wanted \<longleftrightarrow>
     trim_space (metadataValue metadata key) = [] \<or> EqualFold (trim_space (metadataValue metadata key)) wanted"

definition validateProviderSnapshotMetadata :: "PaymentOrder \<Rightarrow> gostring \<Rightarrow> (gostring, gostring) gomap \<Rightarrow> bool" where
  "validateProviderSnapshotMetadata order providerKey metadata =
     (if metadata = [] then True
      else case OrdProviderSnapshot order of
        None \<Rightarrow> True
      | Some snapshot \<Rightarrow>
          let key = trim_space providerKey
          in if key = TypeWxpay then
               identityMatches metadata (SnapMerchantAppID snapshot) ''appid'' \<and>
               identityMatches metadata (SnapMerchantID snapshot) ''mchid'' \<and>
               currencyMatches metadata (SnapCurrency snapshot) \<and>
               stateMatches metadata ''trade_state'' ''SUCCESS''
             else if key = TypeAlipay then identityMatches metadata (SnapMerchantAppID snapshot) ''app_id''
             else if key = TypeEasyPay then identityMatches metadata (SnapMerchantID snapshot) ''pid''
             else if key = TypeStripe then currencyMatches metadata (SnapCurrency snapshot)
             else if key = TypeAirwallex then
               identityMatches metadata (SnapMerchantID snapshot) ''account_id'' \<and>
               currencyMatches metadata (SnapCurrency snapshot) \<and>
               stateMatches metadata ''status'' ''SUCCEEDED''
             else True)"

subsection \<open>Amounts\<close>

definition paymentOrderAmountWithoutBonus :: "(nat \<Rightarrow> real \<Rightarrow> real) \<Rightarrow> PaymentOrder \<Rightarrow> real" where
  "paymentOrderAmountWithoutBonus rnd o1 =
     (if OrdOrderType o1 \<noteq> OrderTypeBalance \<or> OrdBonusAmount o1 \<le> 0 then OrdAmount o1
      else let base = rnd 2 (OrdAmount o1 - OrdBonusAmount o1) in if base < 0 then 0 else base)"

definition affiliateRebateBaseAmount :: "(nat \<Rightarrow> real \<Rightarrow> real) \<Rightarrow> PaymentOrder \<Rightarrow> real" where
  "affiliateRebateBaseAmount rnd o1 =
     (if OrdOrderType o1 = OrderTypeBalance then paymentOrderAmountWithoutBonus rnd o1
      else if OrdOrderType o1 = OrderTypeSubscription then OrdAmount o1
      else 0)"

definition calculateGatewayRefundAmount :: "(nat \<Rightarrow> real \<Rightarrow> real) \<Rightarrow> real \<Rightarrow> real \<Rightarrow> real \<Rightarrow> gostring \<Rightarrow> real" where
  "calculateGatewayRefundAmount rnd orderAmount payAmount refundAmount currency =
     (if orderAmount \<le> 0 \<or> payAmount \<le> 0 \<or> refundAmount \<le> 0 then 0
      else let fractionDigits = CurrencyMaxFractionDigits currency
           in if \<bar>refundAmount - orderAmount\<bar> \<le> paymentAmountToleranceForCurrency currency
              then rnd fractionDigits payAmount
              else rnd fractionDigits (payAmount * refundAmount / orderAmount))"

end
