(* ===== verification/Payments.thy ===== *)
theory Payments
  imports PaymentOrders
begin

text \<open>
  Fulfilment of payment orders: \<open>service/payment_fulfillment.go\<close>, the cancelling and expiring of
  \<open>service/payment_order_lifecycle.go\<close>, and the redemption of codes in
  \<open>service/redeem_service.go\<close> and \<open>repository/redeem_code_repo.go\<close>.

  The database is a record of tables. A statement or a transaction is one atomic step of a
  worker, and between two steps of a worker any other worker can run: a worker is a program
  counter with the local variables of the Go function it stands in. Every step has an outcome: it
  succeeds, it fails, or it takes effect while its reply is lost, in which case the code sees an
  error. The audit rows a handler writes with \<open>writeAuditLog\<close> are written or lost with the step
  before them. A table is a list of rows; \<open>updated_at\<close> is set by every update that does not set it,
  as the schema says.

  The last fields of the database record what happened and are read by no operation, except for
  the notes of the subscriptions.
\<close>

subsection \<open>Redeem codes\<close>

datatype redeem_status = StatusUnused | StatusUsed | StatusExpired | StatusDisabled

definition RedeemTypeBalance :: gostring where "RedeemTypeBalance = ''balance''"
definition RedeemTypeConcurrency :: gostring where "RedeemTypeConcurrency = ''concurrency''"
definition RedeemTypeSubscription :: gostring where "RedeemTypeSubscription = ''subscription''"
definition RedeemTypeInvitation :: gostring where "RedeemTypeInvitation = ''invitation''"

record RedeemCode =
  RcID :: int
  RcCode :: gostring
  RcType :: gostring
  RcValue :: real
  RcStatus :: redeem_status
  RcUsedBy :: "int option"
  RcExpiresAt :: "gotime option"
  RcGroupID :: "int option"

definition IsUsed :: "RedeemCode \<Rightarrow> bool" where
  "IsUsed r \<longleftrightarrow> RcStatus r = StatusUsed"

definition IsExpiredAt :: "RedeemCode \<Rightarrow> gotime \<Rightarrow> bool" where
  "IsExpiredAt r now \<longleftrightarrow> RcStatus r = StatusExpired \<or>
     RcStatus r = StatusUnused \<and> (case RcExpiresAt r of None \<Rightarrow> False | Some e \<Rightarrow> e \<le> now)"

definition CanUse :: "RedeemCode \<Rightarrow> gotime \<Rightarrow> bool" where
  "CanUse r now \<longleftrightarrow> RcStatus r = StatusUnused \<and> \<not> IsExpiredAt r now"

datatype redeemAction = redeemActionCreate | redeemActionRedeem | redeemActionSkipCompleted

text \<open>The lookup: \<open>None\<close> for an error, \<open>Some None\<close> for a code that is not there.\<close>

definition resolveRedeemAction :: "RedeemCode option option \<Rightarrow> redeemAction option" where
  "resolveRedeemAction lookup =
     (case lookup of
        None \<Rightarrow> None
      | Some None \<Rightarrow> Some redeemActionCreate
      | Some (Some existing) \<Rightarrow>
          Some (if IsUsed existing then redeemActionSkipCompleted else redeemActionRedeem))"

definition validatePaymentRedeemCode :: "PaymentOrder \<Rightarrow> RedeemCode \<Rightarrow> bool" where
  "validatePaymentRedeemCode o1 code =
     (if RcCode code \<noteq> OrdRechargeCode o1 then False
      else if RcType code \<noteq> RedeemTypeBalance then False
      else if \<bar>RcValue code - OrdAmount o1\<bar> > 1 / 10 ^ 8 then False
      else case RcStatus code of
        StatusUnused \<Rightarrow> RcUsedBy code = None
      | StatusUsed \<Rightarrow> RcUsedBy code = Some (OrdUserID o1)
      | _ \<Rightarrow> False)"

subsection \<open>Tables\<close>

record pay_db =
  orders :: "PaymentOrder list"
  order_seq :: int
  codes :: "RedeemCode list"
  code_seq :: int
  balances :: "int \<Rightarrow> real option"
  audits :: "(int \<times> gostring) list"
  sub_notes :: "int \<times> int \<Rightarrow> gostring option"
  credits :: "(gostring \<times> int \<times> real) list"
  rebates :: "(int \<times> real) list"
  grants :: "(int \<times> int \<times> int \<times> int) list"
  confirmed :: "int list"

definition update_rows :: "('a \<Rightarrow> bool) \<Rightarrow> ('a \<Rightarrow> 'a) \<Rightarrow> 'a list \<Rightarrow> 'a list" where
  "update_rows p f rows = map (\<lambda>r. if p r then f r else r) rows"

definition getOrder :: "pay_db \<Rightarrow> int \<Rightarrow> PaymentOrder option" where
  "getOrder db oid = find (\<lambda>r. OrdID r = oid) (orders db)"

definition GetByCode :: "pay_db \<Rightarrow> gostring \<Rightarrow> RedeemCode option" where
  "GetByCode db code = find (\<lambda>r. RcCode r = code) (codes db)"

definition update_orders :: "(PaymentOrder \<Rightarrow> bool) \<Rightarrow> (PaymentOrder \<Rightarrow> PaymentOrder) \<Rightarrow> pay_db \<Rightarrow> pay_db" where
  "update_orders p f db = db\<lparr>orders := update_rows p f (orders db)\<rparr>"

definition matching_orders :: "(PaymentOrder \<Rightarrow> bool) \<Rightarrow> pay_db \<Rightarrow> bool" where
  "matching_orders p db \<longleftrightarrow> list_ex p (orders db)"

text \<open>
  The audit table has a unique index on order and action: an insertion of a pair that is there
  fails. \<open>writeAuditLog\<close> only logs the failure.
\<close>

definition hasAuditLog :: "pay_db \<Rightarrow> int \<Rightarrow> gostring \<Rightarrow> bool" where
  "hasAuditLog db oid action \<longleftrightarrow> (oid, action) \<in> set (audits db)"

definition writeAuditLog :: "bool \<Rightarrow> int \<Rightarrow> gostring \<Rightarrow> pay_db \<Rightarrow> pay_db" where
  "writeAuditLog ok oid action db =
     (if ok \<and> \<not> hasAuditLog db oid action then db\<lparr>audits := (oid, action) # audits db\<rparr> else db)"

subsection \<open>Outcomes and the environment of a step\<close>

datatype db_outcome = DbOk | DbError | DbLostReply

definition reply_ok :: "db_outcome \<Rightarrow> bool" where "reply_ok x \<longleftrightarrow> x = DbOk"

text \<open>The state after a write: unchanged when the write failed.\<close>

definition written :: "db_outcome \<Rightarrow> 's \<Rightarrow> 's \<Rightarrow> 's" where
  "written x old new = (if x = DbError then old else new)"

datatype provider_answer =
  QueryUnavailable
| QueryUnpaid
| QueryPaid gostring gofloat "(gostring, gostring) gomap"

record pay_env =
  env_now :: gotime
  env_db :: db_outcome
  env_audit :: bool
  env_lock :: bool
  env_group_active :: bool
  env_assign :: bool
  env_cache :: bool
  env_affiliate :: bool
  env_rebate :: "real option"
  env_registry_key :: gostring
  env_instance_key :: gostring
  env_provider_key :: gostring
  env_query :: provider_answer
  env_requery :: provider_answer
  env_round :: "nat \<Rightarrow> real \<Rightarrow> real"

subsection \<open>Workers\<close>

text \<open>Who redeems: the fulfilment of an order under a lease, or a user.\<close>

datatype redeem_caller = ForOrder PaymentOrder gotime | ForPublic

datatype pay_worker =
  AtNotify PaymentNotification gostring
| AtConfirm int gostring gofloat gostring "(gostring, gostring) gomap"
| AtToPaid PaymentOrder gostring real
| AtAlready PaymentOrder
| AtExecute int
| AtReject PaymentOrder
| AtFulfilBalance int
| AtFulfilSubscription int
| AtLease PaymentOrder
| AtLeaseRefused int
| AtReload PaymentOrder
| AtLookup PaymentOrder gotime
| AtCreateCode PaymentOrder gotime
| AtRedeem redeem_caller int gostring
| AtRedeemTx redeem_caller int RedeemCode
| AtReread redeem_caller int
| AtGroup PaymentOrder gotime
| AtAssign PaymentOrder gotime
| AtRebate PaymentOrder gotime gostring
| AtComplete PaymentOrder gotime gostring
| AtCheckCompleted PaymentOrder gotime
| AtMarkFailed int gotime
| AtRetry int
| AtCancel int "int option"
| AtExpire int
| AtVerify gostring int
| AtCheckPaid PaymentOrder "order_status option"
| AtPersistTradeNo PaymentOrder gostring PaymentNotification gostring
| AtCancelWrite PaymentOrder order_status
| AtInvokeFailed int
| Done bool

definition paymentGrace :: goduration where "paymentGrace = 5 * minute"
definition paymentFulfillmentLeaseDuration :: goduration where
  "paymentFulfillmentLeaseDuration = 5 * minute"


subsection \<open>Notification and confirmation\<close>

definition ordersByOutTradeNo :: "pay_db \<Rightarrow> gostring \<Rightarrow> PaymentOrder list" where
  "ordersByOutTradeNo db outTradeNo = filter (\<lambda>r. OrdOutTradeNo r = outTradeNo) (orders db)"

definition HandlePaymentNotification ::
    "pay_env \<Rightarrow> PaymentNotification \<Rightarrow> gostring \<Rightarrow> pay_db \<Rightarrow> pay_worker \<times> pay_db" where
  "HandlePaymentNotification e n pk db =
     (if NStatus n \<noteq> NotificationStatusSuccess then (Done True, db)
      else if \<not> reply_ok (env_db e) then (Done False, db)
      else case ordersByOutTradeNo db (NOrderID n) of
        [] \<Rightarrow> (case parseLegacyPaymentOrderID (NOrderID n) True of
                 Some oid \<Rightarrow> (AtConfirm oid (NTradeNo n) (NAmount n) pk (NMetadata n), db)
               | None \<Rightarrow> (Done False, db))
      | [order] \<Rightarrow> (AtConfirm (OrdID order) (NTradeNo n) (NAmount n) pk (NMetadata n), db)
      | _ \<Rightarrow> (Done False, db))"

definition confirmPayment ::
    "pay_env \<Rightarrow> int \<Rightarrow> gostring \<Rightarrow> gofloat \<Rightarrow> gostring \<Rightarrow> (gostring, gostring) gomap \<Rightarrow> pay_db \<Rightarrow> pay_worker \<times> pay_db" where
  "confirmPayment e oid tradeNo paid pk metadata db =
     (case (if reply_ok (env_db e) then getOrder db oid else None) of
        None \<Rightarrow> (Done True, db)
      | Some o1 \<Rightarrow>
          let expected = expectedNotificationProviderKeyForOrder (env_registry_key e) o1 (env_instance_key e)
          in if expected \<noteq> [] \<and> trim_space pk \<noteq> [] \<and> \<not> EqualFold expected (trim_space pk)
             then (Done False, writeAuditLog (env_audit e) oid ''PAYMENT_PROVIDER_MISMATCH'' db)
             else if \<not> validateProviderSnapshotMetadata o1 pk metadata
             then (Done False, writeAuditLog (env_audit e) oid ''PAYMENT_PROVIDER_METADATA_MISMATCH'' db)
             else (case paid of
                 Finite amount \<Rightarrow>
                   if \<not> isValidProviderAmount paid
                   then (Done False, writeAuditLog (env_audit e) oid ''PAYMENT_INVALID_AMOUNT'' db)
                   else if \<bar>amount - OrdPayAmount o1\<bar> > paymentAmountToleranceForCurrency (PaymentOrderCurrency o1)
                   then (Done False, writeAuditLog (env_audit e) oid ''PAYMENT_AMOUNT_MISMATCH'' db)
                   else (AtToPaid o1 tradeNo amount, db\<lparr>confirmed := oid # confirmed db\<rparr>)
               | _ \<Rightarrow> (Done False, writeAuditLog (env_audit e) oid ''PAYMENT_INVALID_AMOUNT'' db)))"

definition canBecomePaid :: "int \<Rightarrow> gotime \<Rightarrow> PaymentOrder \<Rightarrow> bool" where
  "canBecomePaid oid grace r \<longleftrightarrow> OrdID r = oid \<and>
     (OrdStatus r = OrderStatusPending \<or> OrdStatus r = OrderStatusCancelled \<or>
      OrdStatus r = OrderStatusExpired \<and> grace \<le> OrdUpdatedAt r)"

definition toPaid ::
    "pay_env \<Rightarrow> PaymentOrder \<Rightarrow> gostring \<Rightarrow> real \<Rightarrow> pay_db \<Rightarrow> pay_worker \<times> pay_db" where
  "toPaid e o1 tradeNo paid db =
     (let now = env_now e;
          p = canBecomePaid (OrdID o1) (now - paymentGrace);
          db' = written (env_db e) db
                  (update_orders p (\<lambda>r. r\<lparr>OrdStatus := OrderStatusPaid, OrdPayAmount := paid,
                     OrdPaymentTradeNo := tradeNo, OrdPaidAt := Some now, OrdUpdatedAt := now\<rparr>) db)
      in if \<not> reply_ok (env_db e) then (Done False, db')
         else if \<not> matching_orders p db then (AtAlready o1, db')
         else let recovered = (if OrdStatus o1 = OrderStatusCancelled \<or> OrdStatus o1 = OrderStatusExpired
                               then writeAuditLog (env_audit e) (OrdID o1) ''ORDER_RECOVERED'' db' else db')
              in (AtExecute (OrdID o1), writeAuditLog (env_audit e) (OrdID o1) ''ORDER_PAID'' recovered))"

definition alreadyProcessed :: "pay_env \<Rightarrow> PaymentOrder \<Rightarrow> pay_db \<Rightarrow> pay_worker \<times> pay_db" where
  "alreadyProcessed e o1 db =
     (case (if reply_ok (env_db e) then getOrder db (OrdID o1) else None) of
        None \<Rightarrow> (Done True, db)
      | Some cur \<Rightarrow>
          (case OrdStatus cur of
             OrderStatusFailed \<Rightarrow> (AtExecute (OrdID o1), db)
           | OrderStatusPaid \<Rightarrow> (AtExecute (OrdID o1), db)
           | OrderStatusRecharging \<Rightarrow> (AtExecute (OrdID o1), db)
           | OrderStatusExpired \<Rightarrow>
               (Done True, writeAuditLog (env_audit e) (OrdID o1) ''PAYMENT_AFTER_EXPIRY'' db)
           | _ \<Rightarrow> (Done True, db)))"

subsection \<open>Fulfilment and its lease\<close>

definition executeFulfillment :: "pay_env \<Rightarrow> int \<Rightarrow> pay_db \<Rightarrow> pay_worker \<times> pay_db" where
  "executeFulfillment e oid db =
     (case (if reply_ok (env_db e) then getOrder db oid else None) of
        None \<Rightarrow> (Done False, db)
      | Some o1 \<Rightarrow>
          if OrdOrderType o1 = OrderTypeSubscription then (AtFulfilSubscription oid, db)
          else if OrdOrderType o1 = OrderTypeBalance then (AtFulfilBalance oid, db)
          else (AtReject o1, db))"

definition rejectUnsupportedOrderType :: "pay_env \<Rightarrow> PaymentOrder \<Rightarrow> pay_db \<Rightarrow> pay_worker \<times> pay_db" where
  "rejectUnsupportedOrderType e o1 db =
     (let p = (\<lambda>r. OrdID r = OrdID o1 \<and> (OrdStatus r = OrderStatusPaid \<or> OrdStatus r = OrderStatusRecharging));
          db' = written (env_db e) db
                  (update_orders p (\<lambda>r. r\<lparr>OrdStatus := OrderStatusFailed, OrdUpdatedAt := env_now e\<rparr>) db)
      in (Done True,
          if reply_ok (env_db e) \<and> matching_orders p db
          then writeAuditLog (env_audit e) (OrdID o1) ''FULFILLMENT_FAILED'' db' else db'))"

definition fulfillable :: "order_status \<Rightarrow> bool" where
  "fulfillable s \<longleftrightarrow> s = OrderStatusPaid \<or> s = OrderStatusFailed \<or> s = OrderStatusRecharging"

definition ExecuteBalanceFulfillment :: "pay_env \<Rightarrow> int \<Rightarrow> pay_db \<Rightarrow> pay_worker \<times> pay_db" where
  "ExecuteBalanceFulfillment e oid db =
     (case (if reply_ok (env_db e) then getOrder db oid else None) of
        None \<Rightarrow> (Done False, db)
      | Some o1 \<Rightarrow>
          if OrdOrderType o1 \<noteq> OrderTypeBalance then (Done False, db)
          else if OrdStatus o1 = OrderStatusCompleted then (Done True, db)
          else if psIsRefundStatus (OrdStatus o1) then (Done False, db)
          else if \<not> fulfillable (OrdStatus o1) then (Done False, db)
          else (AtLease o1, db))"

definition ExecuteSubscriptionFulfillment :: "pay_env \<Rightarrow> int \<Rightarrow> pay_db \<Rightarrow> pay_worker \<times> pay_db" where
  "ExecuteSubscriptionFulfillment e oid db =
     (case (if reply_ok (env_db e) then getOrder db oid else None) of
        None \<Rightarrow> (Done False, db)
      | Some o1 \<Rightarrow>
          if OrdStatus o1 = OrderStatusCompleted then (Done True, db)
          else if psIsRefundStatus (OrdStatus o1) then (Done False, db)
          else if \<not> fulfillable (OrdStatus o1) then (Done False, db)
          else if OrdSubscriptionGroupID o1 = None \<or> OrdSubscriptionDays o1 = None then (Done False, db)
          else (AtLease o1, db))"

text \<open>\<open>Truncate(time.Microsecond)\<close>\<close>

definition truncMicro :: "gotime \<Rightarrow> gotime" where
  "truncMicro t = t - t mod 1000"

definition canBeLeased :: "int \<Rightarrow> gotime \<Rightarrow> PaymentOrder \<Rightarrow> bool" where
  "canBeLeased oid staleBefore r \<longleftrightarrow> OrdID r = oid \<and>
     (OrdStatus r = OrderStatusPaid \<or> OrdStatus r = OrderStatusFailed \<or>
      OrdStatus r = OrderStatusRecharging \<and> OrdUpdatedAt r \<le> staleBefore)"

definition acquirePaymentFulfillmentLease :: "pay_env \<Rightarrow> PaymentOrder \<Rightarrow> pay_db \<Rightarrow> pay_worker \<times> pay_db" where
  "acquirePaymentFulfillmentLease e o1 db =
     (let now = truncMicro (env_now e);
          p = canBeLeased (OrdID o1) (now - paymentFulfillmentLeaseDuration);
          db' = written (env_db e) db
                  (update_orders p (\<lambda>r. r\<lparr>OrdStatus := OrderStatusRecharging, OrdUpdatedAt := now\<rparr>) db)
      in if \<not> reply_ok (env_db e) then (Done False, db')
         else if \<not> matching_orders p db then (AtLeaseRefused (OrdID o1), db')
         else (AtReload o1, db'))"

definition leaseRefused :: "pay_env \<Rightarrow> int \<Rightarrow> pay_db \<Rightarrow> pay_worker \<times> pay_db" where
  "leaseRefused e oid db =
     (case (if reply_ok (env_db e) then getOrder db oid else None) of
        None \<Rightarrow> (Done False, db)
      | Some current \<Rightarrow> (Done (OrdStatus current = OrderStatusCompleted), db))"

definition reloadLease :: "pay_env \<Rightarrow> PaymentOrder \<Rightarrow> pay_db \<Rightarrow> pay_worker \<times> pay_db" where
  "reloadLease e o1 db =
     (case (if reply_ok (env_db e) then getOrder db (OrdID o1) else None) of
        None \<Rightarrow> (Done False, db)
      | Some claimed \<Rightarrow>
          if OrdStatus claimed \<noteq> OrderStatusRecharging then (Done False, db)
          else if OrdOrderType o1 = OrderTypeBalance then (AtLookup o1 (OrdUpdatedAt claimed), db)
          else (AtGroup o1 (OrdUpdatedAt claimed), db))"

subsection \<open>Crediting a balance order\<close>

definition doBalance :: "pay_env \<Rightarrow> PaymentOrder \<Rightarrow> gotime \<Rightarrow> pay_db \<Rightarrow> pay_worker \<times> pay_db" where
  "doBalance e o1 lease db =
     (let lookup = (if reply_ok (env_db e) then Some (GetByCode db (OrdRechargeCode o1)) else None)
      in case resolveRedeemAction lookup of
        None \<Rightarrow> (AtMarkFailed (OrdID o1) lease, db)
      | Some action \<Rightarrow>
          if (case lookup of Some (Some existing) \<Rightarrow> \<not> validatePaymentRedeemCode o1 existing | _ \<Rightarrow> False)
          then (AtMarkFailed (OrdID o1) lease, db)
          else (case action of
                  redeemActionSkipCompleted \<Rightarrow> (AtRebate o1 lease ''RECHARGE_SUCCESS'', db)
                | redeemActionCreate \<Rightarrow> (AtCreateCode o1 lease, db)
                | redeemActionRedeem \<Rightarrow> (AtRedeem (ForOrder o1 lease) (OrdUserID o1) (OrdRechargeCode o1), db)))"

text \<open>
  \<open>CreateCode\<close> on a code; the unique index refuses a code that is there. The result says
  whether the row was accepted.
\<close>

definition insertCode :: "RedeemCode \<Rightarrow> pay_db \<Rightarrow> pay_db option" where
  "insertCode rc db =
     (if list_ex (\<lambda>r. RcCode r = RcCode rc) (codes db) then None
      else Some (db\<lparr>codes := rc\<lparr>RcID := code_seq db\<rparr> # codes db, code_seq := code_seq db + 1\<rparr>))"

definition CreateCode :: "db_outcome \<Rightarrow> gotime \<Rightarrow> RedeemCode \<Rightarrow> pay_db \<Rightarrow> bool \<times> pay_db" where
  "CreateCode x now code db =
     (let code = code\<lparr>RcCode := trim_space (RcCode code)\<rparr>;
          code = code\<lparr>RcType := (if RcType code = [] then RedeemTypeBalance else RcType code)\<rparr>
      in if RcCode code = [] then (False, db)
         else if RcType code \<noteq> RedeemTypeInvitation \<and> RcValue code = 0 then (False, db)
         else if IsExpiredAt code now then (False, db)
         else (case insertCode code db of
                 None \<Rightarrow> (False, db)
               | Some db' \<Rightarrow> (reply_ok x, written x db db')))"

definition paymentCode :: "PaymentOrder \<Rightarrow> RedeemCode" where
  "paymentCode o1 = \<lparr>RcID = 0, RcCode = OrdRechargeCode o1, RcType = RedeemTypeBalance,
     RcValue = OrdAmount o1, RcStatus = StatusUnused, RcUsedBy = None, RcExpiresAt = None, RcGroupID = None\<rparr>"

definition createPaymentCode :: "pay_env \<Rightarrow> PaymentOrder \<Rightarrow> gotime \<Rightarrow> pay_db \<Rightarrow> pay_worker \<times> pay_db" where
  "createPaymentCode e o1 lease db =
     (let (accepted, db') = CreateCode (env_db e) (env_now e) (paymentCode o1) db
      in (if accepted then AtRedeem (ForOrder o1 lease) (OrdUserID o1) (OrdRechargeCode o1)
          else AtMarkFailed (OrdID o1) lease, db'))"

text \<open>Where an error of \<open>redeem\<close> leads its caller.\<close>

definition redeemFailed :: "redeem_caller \<Rightarrow> pay_worker" where
  "redeemFailed caller =
     (case caller of ForOrder o1 lease \<Rightarrow> AtMarkFailed (OrdID o1) lease | ForPublic \<Rightarrow> Done False)"

definition redeemLookup :: "pay_env \<Rightarrow> redeem_caller \<Rightarrow> int \<Rightarrow> gostring \<Rightarrow> pay_db \<Rightarrow> pay_worker \<times> pay_db" where
  "redeemLookup e caller userID code db =
     (if \<not> env_lock e then (redeemFailed caller, db)
      else case (if reply_ok (env_db e) then GetByCode db code else None) of
        None \<Rightarrow> (redeemFailed caller, db)
      | Some redeemCode \<Rightarrow>
          if IsExpiredAt redeemCode (env_now e) then (redeemFailed caller, db)
          else if \<not> CanUse redeemCode (env_now e) then (redeemFailed caller, db)
          else if RcType redeemCode \<notin> {RedeemTypeBalance, RedeemTypeConcurrency, RedeemTypeSubscription}
          then (redeemFailed caller, db)
          else if RcType redeemCode = RedeemTypeSubscription \<and> RcGroupID redeemCode = None
          then (redeemFailed caller, db)
          else if balances db userID = None then (redeemFailed caller, db)
          else (AtRedeemTx caller userID redeemCode, db))"

text \<open>\<open>Use\<close>: the rows it changes are those with the id whose status is still unused.\<close>

definition unusedRow :: "int \<Rightarrow> RedeemCode \<Rightarrow> bool" where
  "unusedRow i r \<longleftrightarrow> RcID r = i \<and> RcStatus r = StatusUnused"

definition Use :: "int \<Rightarrow> int \<Rightarrow> pay_db \<Rightarrow> pay_db option" where
  "Use i userID db =
     (if list_ex (unusedRow i) (codes db)
      then Some (db\<lparr>codes := update_rows (unusedRow i)
                     (\<lambda>r. r\<lparr>RcStatus := StatusUsed, RcUsedBy := Some userID\<rparr>) (codes db)\<rparr>)
      else None)"

definition UpdateBalance :: "int \<Rightarrow> real \<Rightarrow> pay_db \<Rightarrow> pay_db option" where
  "UpdateBalance i amount db =
     (case balances db i of
        None \<Rightarrow> None
      | Some b \<Rightarrow> Some (db\<lparr>balances := (balances db)(i \<mapsto> b + amount)\<rparr>))"

definition ApplyRedeemBalanceAdjustment :: "int \<Rightarrow> real \<Rightarrow> pay_db \<Rightarrow> pay_db option" where
  "ApplyRedeemBalanceAdjustment i delta db =
     (case balances db i of
        None \<Rightarrow> None
      | Some b \<Rightarrow> Some (db\<lparr>balances := (balances db)(i \<mapsto> max (b + delta) 0)\<rparr>))"

text \<open>
  The transaction of \<open>redeem\<close>: the code is marked first, then the entitlement is given. What a
  concurrency or subscription code gives is kept in tables that are not part of this state.
\<close>

definition redeemTx :: "int \<Rightarrow> RedeemCode \<Rightarrow> pay_db \<Rightarrow> pay_db option" where
  "redeemTx userID redeemCode db =
     (case Use (RcID redeemCode) userID db of
        None \<Rightarrow> None
      | Some db1 \<Rightarrow>
          if RcType redeemCode \<noteq> RedeemTypeBalance then Some db1
          else (case (if RcValue redeemCode < 0
                      then ApplyRedeemBalanceAdjustment userID (RcValue redeemCode) db1
                      else UpdateBalance userID (RcValue redeemCode) db1) of
                  None \<Rightarrow> None
                | Some db2 \<Rightarrow>
                    Some (db2\<lparr>credits := (RcCode redeemCode, userID, RcValue redeemCode) # credits db2\<rparr>)))"

definition redeemCommit :: "pay_env \<Rightarrow> redeem_caller \<Rightarrow> int \<Rightarrow> RedeemCode \<Rightarrow> pay_db \<Rightarrow> pay_worker \<times> pay_db" where
  "redeemCommit e caller userID redeemCode db =
     (case redeemTx userID redeemCode db of
        None \<Rightarrow> (redeemFailed caller, db)
      | Some db' \<Rightarrow>
          (if reply_ok (env_db e) then AtReread caller (RcID redeemCode) else redeemFailed caller,
           written (env_db e) db db'))"

definition redeemReread :: "pay_env \<Rightarrow> redeem_caller \<Rightarrow> int \<Rightarrow> pay_db \<Rightarrow> pay_worker \<times> pay_db" where
  "redeemReread e caller i db =
     (if reply_ok (env_db e) \<and> list_ex (\<lambda>r. RcID r = i) (codes db)
      then (case caller of ForOrder o1 lease \<Rightarrow> AtRebate o1 lease ''RECHARGE_SUCCESS'' | ForPublic \<Rightarrow> Done True, db)
      else (redeemFailed caller, db))"

end
