(* ===== verification/PaymentSteps.thy ===== *)
theory PaymentSteps
  imports Payments
begin

text \<open>
  The rest of the payment workers: subscriptions, rebates and completion of
  \<open>service/payment_fulfillment.go\<close>, the cancelling, expiring and checking of
  \<open>service/payment_order_lifecycle.go\<close>, the creation of orders in \<open>service/payment_order.go\<close>, and the
  world in which any number of workers run beside administrators.
\<close>

subsection \<open>Assigning a subscription\<close>

definition doSub :: "pay_env \<Rightarrow> PaymentOrder \<Rightarrow> gotime \<Rightarrow> pay_db \<Rightarrow> pay_worker \<times> pay_db" where
  "doSub e o1 lease db =
     (if \<not> reply_ok (env_db e) \<or> \<not> env_group_active e then (AtMarkFailed (OrdID o1) lease, db)
      else (AtAssign o1 lease, db))"

definition hasPaymentSubscriptionAssignmentAudit :: "pay_db \<Rightarrow> int \<Rightarrow> bool" where
  "hasPaymentSubscriptionAssignmentAudit db oid \<longleftrightarrow>
     hasAuditLog db oid ''SUBSCRIPTION_ASSIGNED'' \<or> hasAuditLog db oid ''SUBSCRIPTION_SUCCESS''"

definition paymentSubscriptionOrderNote :: "int \<Rightarrow> gostring" where
  "paymentSubscriptionOrderNote oid = ''payment order '' @ itoa oid"

text \<open>The lines of a note: \<open>strings.Split\<close> at newlines, after CRLF became LF.\<close>

fun noteLines :: "gostring \<Rightarrow> gostring \<Rightarrow> gostring list" where
  "noteLines acc [] = [rev acc]"
| "noteLines acc (c # d # s) =
     (if c = CHR 0x0D \<and> d = CHR 0x0A then rev acc # noteLines [] s
      else if c = CHR 0x0A then rev acc # noteLines [] (d # s)
      else noteLines (c # acc) (d # s))"
| "noteLines acc [c] = (if c = CHR 0x0A then [rev acc, []] else [rev (c # acc)])"

definition hasPaymentSubscriptionOrderNote :: "gostring \<Rightarrow> gostring \<Rightarrow> bool" where
  "hasPaymentSubscriptionOrderNote ns orderNote \<longleftrightarrow> list_ex (\<lambda>line. trim_space line = orderNote) (noteLines [] ns)"

text \<open>
  \<open>assignOrExtendSubscription\<close>, seen from here: it gives days to the user in the group and adds the
  note of the order to the subscription, on a line of its own when there are notes.
\<close>

definition appendNote :: "gostring option \<Rightarrow> gostring \<Rightarrow> gostring" where
  "appendNote old note = (case old of None \<Rightarrow> note | Some ns \<Rightarrow> if ns = [] then note else ns @ [CHR 0x0A] @ note)"

definition assignForOrder :: "PaymentOrder \<Rightarrow> int \<Rightarrow> int \<Rightarrow> pay_db \<Rightarrow> pay_db" where
  "assignForOrder o1 gid days db =
     db\<lparr>sub_notes := (sub_notes db)((OrdUserID o1, gid) \<mapsto>
          appendNote (sub_notes db (OrdUserID o1, gid)) (paymentSubscriptionOrderNote (OrdID o1))),
        grants := (OrdID o1, OrdUserID o1, gid, days) # grants db\<rparr>"

definition assignmentTx :: "pay_env \<Rightarrow> PaymentOrder \<Rightarrow> int \<Rightarrow> int \<Rightarrow> pay_db \<Rightarrow> pay_db option" where
  "assignmentTx e o1 gid days db =
     (if hasPaymentSubscriptionAssignmentAudit db (OrdID o1) then Some db
      else
        let recovered = (case sub_notes db (OrdUserID o1, gid) of
              Some ns \<Rightarrow> hasPaymentSubscriptionOrderNote ns (paymentSubscriptionOrderNote (OrdID o1))
            | None \<Rightarrow> False)
        in if \<not> recovered \<and> \<not> env_assign e then None
           else Some (writeAuditLog True (OrdID o1) ''SUBSCRIPTION_ASSIGNED''
                       (if recovered then db else assignForOrder o1 gid days db)))"

definition ensurePaymentSubscriptionAssigned :: "pay_env \<Rightarrow> PaymentOrder \<Rightarrow> gotime \<Rightarrow> pay_db \<Rightarrow> pay_worker \<times> pay_db" where
  "ensurePaymentSubscriptionAssigned e o1 lease db =
     (case (OrdSubscriptionGroupID o1, OrdSubscriptionDays o1) of
        (Some gid, Some days) \<Rightarrow>
          (case assignmentTx e o1 gid days db of
             None \<Rightarrow> (AtMarkFailed (OrdID o1) lease, db)
           | Some db' \<Rightarrow>
               (if reply_ok (env_db e) \<and> env_cache e then AtRebate o1 lease ''SUBSCRIPTION_SUCCESS''
                else AtMarkFailed (OrdID o1) lease, written (env_db e) db db'))
      | _ \<Rightarrow> (AtMarkFailed (OrdID o1) lease, db))"

subsection \<open>The rebate of the inviter\<close>

definition tryClaimAffiliateRebateAudit :: "int \<Rightarrow> pay_db \<Rightarrow> pay_db option" where
  "tryClaimAffiliateRebateAudit oid db =
     (if hasAuditLog db oid ''AFFILIATE_REBATE_APPLIED'' \<or> hasAuditLog db oid ''AFFILIATE_REBATE_SKIPPED''
      then None
      else Some (db\<lparr>audits := (oid, ''AFFILIATE_REBATE_APPLIED'') # audits db\<rparr>))"

definition updateClaimedAffiliateRebateAudit :: "int \<Rightarrow> gostring \<Rightarrow> pay_db \<Rightarrow> pay_db" where
  "updateClaimedAffiliateRebateAudit oid action db =
     db\<lparr>audits := update_rows (\<lambda>a. a = (oid, ''AFFILIATE_REBATE_APPLIED'')) (\<lambda>_. (oid, action)) (audits db)\<rparr>"

definition applyAffiliateRebateForOrder ::
    "pay_env \<Rightarrow> PaymentOrder \<Rightarrow> gotime \<Rightarrow> gostring \<Rightarrow> pay_db \<Rightarrow> pay_worker \<times> pay_db" where
  "applyAffiliateRebateForOrder e o1 lease action db =
     (let failed = (\<lambda>db. (AtMarkFailed (OrdID o1) lease,
                          writeAuditLog (env_audit e) (OrdID o1) ''AFFILIATE_REBATE_FAILED'' db));
          baseAmount = affiliateRebateBaseAmount (env_round e) o1
      in if baseAmount \<le> 0 \<or> \<not> env_affiliate e then (AtComplete o1 lease action, db)
         else case tryClaimAffiliateRebateAudit (OrdID o1) db of
           None \<Rightarrow> if reply_ok (env_db e) then (AtComplete o1 lease action, db) else failed db
         | Some db1 \<Rightarrow>
             (case env_rebate e of
                None \<Rightarrow> failed db
              | Some rebateAmount \<Rightarrow>
                  let db2 = (if rebateAmount \<le> 0
                             then updateClaimedAffiliateRebateAudit (OrdID o1) ''AFFILIATE_REBATE_SKIPPED'' db1
                             else updateClaimedAffiliateRebateAudit (OrdID o1) ''AFFILIATE_REBATE_APPLIED''
                                    (db1\<lparr>rebates := (OrdID o1, rebateAmount) # rebates db1\<rparr>))
                  in if reply_ok (env_db e) then (AtComplete o1 lease action, db2)
                     else failed (written (env_db e) db db2)))"

subsection \<open>Completion and failure\<close>

definition heldBy :: "int \<Rightarrow> gotime \<Rightarrow> PaymentOrder \<Rightarrow> bool" where
  "heldBy oid lease r \<longleftrightarrow> OrdID r = oid \<and> OrdStatus r = OrderStatusRecharging \<and> OrdUpdatedAt r = lease"

definition markCompleted :: "pay_env \<Rightarrow> PaymentOrder \<Rightarrow> gotime \<Rightarrow> gostring \<Rightarrow> pay_db \<Rightarrow> pay_worker \<times> pay_db" where
  "markCompleted e o1 lease auditAction db =
     (let p = heldBy (OrdID o1) lease;
          db' = written (env_db e) db
                  (update_orders p (\<lambda>r. r\<lparr>OrdStatus := OrderStatusCompleted, OrdUpdatedAt := env_now e\<rparr>) db)
      in if \<not> reply_ok (env_db e) then (AtMarkFailed (OrdID o1) lease, db')
         else if \<not> matching_orders p db then (AtCheckCompleted o1 lease, db')
         else (Done True, writeAuditLog (env_audit e) (OrdID o1) auditAction db'))"

definition checkCompleted :: "pay_env \<Rightarrow> PaymentOrder \<Rightarrow> gotime \<Rightarrow> pay_db \<Rightarrow> pay_worker \<times> pay_db" where
  "checkCompleted e o1 lease db =
     (case (if reply_ok (env_db e) then getOrder db (OrdID o1) else None) of
        Some current \<Rightarrow> if OrdStatus current = OrderStatusCompleted then (Done True, db)
                         else (AtMarkFailed (OrdID o1) lease, db)
      | None \<Rightarrow> (AtMarkFailed (OrdID o1) lease, db))"

definition markFailed :: "pay_env \<Rightarrow> int \<Rightarrow> gotime \<Rightarrow> pay_db \<Rightarrow> pay_worker \<times> pay_db" where
  "markFailed e oid lease db =
     (let p = heldBy oid lease;
          db' = written (env_db e) db
                  (update_orders p (\<lambda>r. r\<lparr>OrdStatus := OrderStatusFailed, OrdUpdatedAt := env_now e\<rparr>) db)
      in (Done False,
          if reply_ok (env_db e) \<and> matching_orders p db
          then writeAuditLog (env_audit e) oid ''FULFILLMENT_FAILED'' db' else db'))"

definition RetryFulfillment :: "pay_env \<Rightarrow> int \<Rightarrow> pay_db \<Rightarrow> pay_worker \<times> pay_db" where
  "RetryFulfillment e oid db =
     (case (if reply_ok (env_db e) then getOrder db oid else None) of
        None \<Rightarrow> (Done False, db)
      | Some o1 \<Rightarrow>
          if OrdPaidAt o1 = None then (Done False, db)
          else if psIsRefundStatus (OrdStatus o1) then (Done False, db)
          else if OrdStatus o1 = OrderStatusCompleted then (Done False, db)
          else if \<not> fulfillable (OrdStatus o1) then (Done False, db)
          else if \<not> isSupportedPaymentOrderType (OrdOrderType o1) then (Done False, db)
          else (AtExecute oid, writeAuditLog (env_audit e) oid ''RECHARGE_RETRY'' db))"

subsection \<open>Cancelling, expiring and checking\<close>

text \<open>\<open>CancelOrder\<close> of a user and \<open>AdminCancelOrder\<close>; then \<open>cancelCore\<close>.\<close>

definition cancelCore :: "PaymentOrder \<Rightarrow> order_status \<Rightarrow> pay_worker" where
  "cancelCore o1 fs =
     (if OrdPaymentTradeNo o1 \<noteq> [] \<or> OrdPaymentType o1 \<noteq> [] then AtCheckPaid o1 (Some fs)
      else AtCancelWrite o1 fs)"

definition CancelOrder :: "pay_env \<Rightarrow> int \<Rightarrow> int option \<Rightarrow> pay_db \<Rightarrow> pay_worker \<times> pay_db" where
  "CancelOrder e oid user db =
     (case (if reply_ok (env_db e) then getOrder db oid else None) of
        None \<Rightarrow> (Done False, db)
      | Some o1 \<Rightarrow>
          if user \<noteq> None \<and> user \<noteq> Some (OrdUserID o1) then (Done False, db)
          else if OrdStatus o1 \<noteq> OrderStatusPending then (Done False, db)
          else (cancelCore o1 OrderStatusCancelled, db))"

text \<open>One order of the sweep \<open>ExpireTimedOutOrders\<close>: the sweep has read it as pending and past its time.\<close>

definition expireOrder :: "pay_env \<Rightarrow> int \<Rightarrow> pay_db \<Rightarrow> pay_worker \<times> pay_db" where
  "expireOrder e oid db =
     (case (if reply_ok (env_db e) then getOrder db oid else None) of
        None \<Rightarrow> (Done False, db)
      | Some o1 \<Rightarrow>
          if OrdStatus o1 = OrderStatusPending \<and> OrdExpiresAt o1 \<le> env_now e
          then (cancelCore o1 OrderStatusExpired, db) else (Done True, db))"

definition cancelWrite :: "pay_env \<Rightarrow> PaymentOrder \<Rightarrow> order_status \<Rightarrow> pay_db \<Rightarrow> pay_worker \<times> pay_db" where
  "cancelWrite e o1 fs db =
     (let p = (\<lambda>r. OrdID r = OrdID o1 \<and> OrdStatus r = OrderStatusPending);
          db' = written (env_db e) db
                  (update_orders p (\<lambda>r. r\<lparr>OrdStatus := fs, OrdUpdatedAt := env_now e\<rparr>) db)
      in if \<not> reply_ok (env_db e) then (Done False, db')
         else (Done True,
               if matching_orders p db
               then writeAuditLog (env_audit e) (OrdID o1)
                      (if fs = OrderStatusExpired then ''ORDER_EXPIRED'' else ''ORDER_CANCELLED'') db'
               else db'))"

definition paymentOrderQueryReference :: "PaymentOrder \<Rightarrow> gostring \<Rightarrow> gostring" where
  "paymentOrderQueryReference order provKey =
     (let snapKey = (case OrdProviderSnapshot order of Some snapshot \<Rightarrow> trim_space (SnapProviderKey snapshot) | None \<Rightarrow> []);
          colKey = (case OrdProviderKey order of Some k \<Rightarrow> trim_space k | None \<Rightarrow> []);
          providerKey = (if trim_space provKey \<noteq> [] then trim_space provKey
                         else if snapKey \<noteq> [] then snapKey
                         else if colKey \<noteq> [] then colKey
                         else trim_space (OrdPaymentType order));
          base = GetBasePaymentType providerKey
      in if base = TypeAlipay \<or> base = TypeEasyPay \<or> base = TypeWxpay then trim_space (OrdOutTradeNo order)
         else if trim_space (OrdPaymentTradeNo order) \<noteq> [] then trim_space (OrdPaymentTradeNo order)
         else trim_space (OrdOutTradeNo order))"

definition paymentOrderShouldPersistUpstreamTradeNo :: "gostring \<Rightarrow> gostring \<Rightarrow> gostring \<Rightarrow> bool" where
  "paymentOrderShouldPersistUpstreamTradeNo queryRef upstreamTradeNo currentTradeNo \<longleftrightarrow>
     trim_space upstreamTradeNo \<noteq> [] \<and>
     \<not> EqualFold (trim_space upstreamTradeNo) (trim_space currentTradeNo) \<and>
     \<not> EqualFold (trim_space upstreamTradeNo) (trim_space queryRef)"

text \<open>
  \<open>checkPaid\<close> and \<open>reconcilePaid\<close> (no status to write when unpaid). A paid order goes on as a
  notification, whose result does not change the answer ``already paid''.
\<close>

definition paidNotification :: "PaymentOrder \<Rightarrow> gostring \<Rightarrow> gofloat \<Rightarrow> (gostring, gostring) gomap \<Rightarrow> PaymentNotification" where
  "paidNotification o1 tradeNo amount metadata =
     \<lparr>NTradeNo = tradeNo, NOrderID = OrdOutTradeNo o1, NAmount = amount,
      NStatus = NotificationStatusSuccess, NMetadata = metadata\<rparr>"

definition notPaid :: "PaymentOrder \<Rightarrow> order_status option \<Rightarrow> pay_worker" where
  "notPaid o1 fs = (case fs of Some s \<Rightarrow> AtCancelWrite o1 s | None \<Rightarrow> Done True)"

definition requeryPaidOrderOnce :: "provider_answer \<Rightarrow> (gostring \<times> gofloat \<times> (gostring, gostring) gomap) option" where
  "requeryPaidOrderOnce answer =
     (case answer of
        QueryPaid tradeNo amount metadata \<Rightarrow>
          if isValidProviderAmount amount then Some (tradeNo, amount, metadata) else None
      | _ \<Rightarrow> None)"

definition checkPaidWithOptions :: "pay_env \<Rightarrow> PaymentOrder \<Rightarrow> order_status option \<Rightarrow> pay_db \<Rightarrow> pay_worker \<times> pay_db" where
  "checkPaidWithOptions e o1 fs db =
     (let queryRef = paymentOrderQueryReference o1 (env_provider_key e)
      in if queryRef = [] then (notPaid o1 fs, db)
         else case env_query e of
           QueryUnavailable \<Rightarrow> (notPaid o1 fs, db)
         | QueryUnpaid \<Rightarrow> (notPaid o1 fs, db)
         | QueryPaid tradeNo amount metadata \<Rightarrow>
             let db' = (if isValidProviderAmount amount then db
                        else writeAuditLog (env_audit e) (OrdID o1) ''PAYMENT_INVALID_AMOUNT'' db)
             in case (if isValidProviderAmount amount then Some (tradeNo, amount, metadata)
                      else requeryPaidOrderOnce (env_requery e)) of
               None \<Rightarrow> (notPaid o1 fs, db')
             | Some (t, a, m) \<Rightarrow>
                 if paymentOrderShouldPersistUpstreamTradeNo queryRef (trim_space t) (OrdPaymentTradeNo o1)
                 then (AtPersistTradeNo o1 (trim_space t) (paidNotification o1 (trim_space t) a m) (env_provider_key e), db')
                 else (AtNotify (paidNotification o1 (OrdPaymentTradeNo o1) a m) (env_provider_key e), db'))"

definition persistTradeNo ::
    "pay_env \<Rightarrow> PaymentOrder \<Rightarrow> gostring \<Rightarrow> PaymentNotification \<Rightarrow> gostring \<Rightarrow> pay_db \<Rightarrow> pay_worker \<times> pay_db" where
  "persistTradeNo e o1 tradeNo n pk db =
     (AtNotify n pk,
      written (env_db e) db
        (update_orders (\<lambda>r. OrdID r = OrdID o1)
           (\<lambda>r. r\<lparr>OrdPaymentTradeNo := tradeNo, OrdUpdatedAt := env_now e\<rparr>) db))"

text \<open>\<open>VerifyOrderByOutTradeNo\<close>, and the sweep \<open>ReconcilePendingPaymentOrders\<close> on one order.\<close>

definition normalizeOrderLookupOutTradeNo :: "gostring \<Rightarrow> gostring option" where
  "normalizeOrderLookupOutTradeNo raw =
     (let outTradeNo = trim_space raw
      in if outTradeNo = [] then None
         else if length outTradeNo > 64 then None
         else if list_all (\<lambda>ch. of_char ch \<in> {97..122 :: nat} \<or> of_char ch \<in> {65..90 :: nat} \<or> of_char ch \<in> {48..57 :: nat} \<or>
                             ch = CHR ''_'' \<or> ch = CHR ''-'') outTradeNo
         then Some outTradeNo else None)"

definition VerifyOrderByOutTradeNo :: "pay_env \<Rightarrow> gostring \<Rightarrow> int \<Rightarrow> pay_db \<Rightarrow> pay_worker \<times> pay_db" where
  "VerifyOrderByOutTradeNo e raw userID db =
     (case normalizeOrderLookupOutTradeNo raw of
        None \<Rightarrow> (Done False, db)
      | Some outTradeNo \<Rightarrow>
          (case (if reply_ok (env_db e) then ordersByOutTradeNo db outTradeNo else []) of
             [o1] \<Rightarrow>
               if OrdUserID o1 \<noteq> userID then (Done False, db)
               else if OrdStatus o1 = OrderStatusPending \<or> OrdStatus o1 = OrderStatusExpired
               then (AtCheckPaid o1 None, db) else (Done True, db)
           | _ \<Rightarrow> (Done False, db)))"

subsection \<open>Creating orders\<close>

text \<open>
  \<open>createOrderInTx\<close>: the row gets the next id and a recharge code made of the id and the clock.
  The limits on pending orders and daily amounts only refuse orders.
\<close>

definition rechargeCode :: "int \<Rightarrow> gotime \<Rightarrow> gostring" where
  "rechargeCode oid now = ''PAY-'' @ itoa oid @ ''-'' @ itoa (now mod 100000)"

definition createOrderInTx :: "pay_env \<Rightarrow> PaymentOrder \<Rightarrow> pay_db \<Rightarrow> pay_db" where
  "createOrderInTx e req db =
     (let oid = order_seq db;
          order = req\<lparr>OrdID := oid, OrdRechargeCode := rechargeCode oid (env_now e), OrdPaymentTradeNo := [],
                      OrdStatus := OrderStatusPending, OrdPaidAt := None, OrdUpdatedAt := env_now e,
                      OrdRefundAmount := 0, OrdForceRefund := False\<rparr>
      in written (env_db e) db (db\<lparr>orders := order # orders db, order_seq := oid + 1\<rparr>))"

text \<open>The update of \<open>CreateOrder\<close> after the provider refused the payment; it has no condition on the status.\<close>

definition invokeFailed :: "pay_env \<Rightarrow> int \<Rightarrow> pay_db \<Rightarrow> pay_worker \<times> pay_db" where
  "invokeFailed e oid db =
     (Done False,
      written (env_db e) db
        (update_orders (\<lambda>r. OrdID r = oid) (\<lambda>r. r\<lparr>OrdStatus := OrderStatusFailed, OrdUpdatedAt := env_now e\<rparr>) db))"

subsection \<open>The step of a worker\<close>

fun worker_step :: "pay_env \<Rightarrow> pay_worker \<Rightarrow> pay_db \<Rightarrow> pay_worker \<times> pay_db" where
  "worker_step e (AtNotify n pk) db = HandlePaymentNotification e n pk db"
| "worker_step e (AtConfirm oid tradeNo paid pk metadata) db = confirmPayment e oid tradeNo paid pk metadata db"
| "worker_step e (AtToPaid o1 tradeNo paid) db = toPaid e o1 tradeNo paid db"
| "worker_step e (AtAlready o1) db = alreadyProcessed e o1 db"
| "worker_step e (AtExecute oid) db = executeFulfillment e oid db"
| "worker_step e (AtReject o1) db = rejectUnsupportedOrderType e o1 db"
| "worker_step e (AtFulfilBalance oid) db = ExecuteBalanceFulfillment e oid db"
| "worker_step e (AtFulfilSubscription oid) db = ExecuteSubscriptionFulfillment e oid db"
| "worker_step e (AtLease o1) db = acquirePaymentFulfillmentLease e o1 db"
| "worker_step e (AtLeaseRefused oid) db = leaseRefused e oid db"
| "worker_step e (AtReload o1) db = reloadLease e o1 db"
| "worker_step e (AtLookup o1 lease) db = doBalance e o1 lease db"
| "worker_step e (AtCreateCode o1 lease) db = createPaymentCode e o1 lease db"
| "worker_step e (AtRedeem caller userID code) db = redeemLookup e caller userID code db"
| "worker_step e (AtRedeemTx caller userID rc) db = redeemCommit e caller userID rc db"
| "worker_step e (AtReread caller i) db = redeemReread e caller i db"
| "worker_step e (AtGroup o1 lease) db = doSub e o1 lease db"
| "worker_step e (AtAssign o1 lease) db = ensurePaymentSubscriptionAssigned e o1 lease db"
| "worker_step e (AtRebate o1 lease action) db = applyAffiliateRebateForOrder e o1 lease action db"
| "worker_step e (AtComplete o1 lease action) db = markCompleted e o1 lease action db"
| "worker_step e (AtCheckCompleted o1 lease) db = checkCompleted e o1 lease db"
| "worker_step e (AtMarkFailed oid lease) db = markFailed e oid lease db"
| "worker_step e (AtRetry oid) db = RetryFulfillment e oid db"
| "worker_step e (AtCancel oid user) db = CancelOrder e oid user db"
| "worker_step e (AtExpire oid) db = expireOrder e oid db"
| "worker_step e (AtVerify outTradeNo userID) db = VerifyOrderByOutTradeNo e outTradeNo userID db"
| "worker_step e (AtCheckPaid o1 fs) db = checkPaidWithOptions e o1 fs db"
| "worker_step e (AtPersistTradeNo o1 tradeNo n pk) db = persistTradeNo e o1 tradeNo n pk db"
| "worker_step e (AtCancelWrite o1 fs) db = cancelWrite e o1 fs db"
| "worker_step e (AtInvokeFailed oid) db = invokeFailed e oid db"
| "worker_step e (Done r) db = (Done r, db)"

end
