(* ===== verification/PaymentWorld.thy ===== *)
theory PaymentWorld
  imports PaymentSteps
begin

text \<open>
  All workers of the payment service beside administrators and refunds, as one step function over
  labels, and the invariant of every run: which rows belong together, what a credit means, and
  what each worker knows at its program counter.
\<close>

subsection \<open>The world\<close>

record pay_world =
  wdb :: pay_db
  workers :: "nat \<Rightarrow> pay_worker"

text \<open>
  \<open>WriteCode\<close> is what \<open>batchUpdate\<close> and \<open>ExpireRedeemCode\<close> do to the status and the user of a row, and
  \<open>DeleteCode\<close> what \<open>DeleteRedeemCode\<close> does; both read the row, if at all, in a statement before.
  \<open>RefundMove\<close> stands for the statements of the refund flow, which has a theory of its own: they
  give an order that has been served, balance orders by their credit, a status of that flow.
\<close>

datatype pay_label =
  Start nat pay_worker
| Run nat pay_env
| Crash nat
| NewOrder pay_env PaymentOrder
| AddCode db_outcome gotime RedeemCode
| WriteCode int redeem_status "int option"
| DeleteCode int
| RefundMove int order_status gotime

fun entry_point :: "pay_db \<Rightarrow> pay_worker \<Rightarrow> bool" where
  "entry_point db (AtNotify n pk) = True"
| "entry_point db (AtRetry oid) = True"
| "entry_point db (AtCancel oid user) = True"
| "entry_point db (AtExpire oid) = True"
| "entry_point db (AtVerify outTradeNo userID) = True"
| "entry_point db (AtCheckPaid o1 None) = (o1 \<in> set (orders db))"
| "entry_point db (AtRedeem ForPublic userID code) = True"
| "entry_point db (AtInvokeFailed oid) = True"
| "entry_point db w = False"

definition credited :: "pay_db \<Rightarrow> PaymentOrder \<Rightarrow> bool" where
  "credited db r \<longleftrightarrow> (OrdRechargeCode r, OrdUserID r, OrdAmount r) \<in> set (credits db)"

definition served :: "pay_db \<Rightarrow> PaymentOrder \<Rightarrow> bool" where
  "served db o1 \<longleftrightarrow> (OrdOrderType o1 = OrderTypeBalance \<longrightarrow> credited db o1)"

definition wasCompleted :: "order_status \<Rightarrow> bool" where
  "wasCompleted s \<longleftrightarrow> s = OrderStatusCompleted \<or> psIsRefundStatus s"

definition code_row :: "int \<Rightarrow> RedeemCode \<Rightarrow> bool" where
  "code_row i r \<longleftrightarrow> RcID r = i"

fun pay_step :: "pay_label \<Rightarrow> pay_world \<Rightarrow> pay_world" where
  "pay_step (Start i w) s =
     (if (\<exists>r. workers s i = Done r) \<and> entry_point (wdb s) w then s\<lparr>workers := (workers s)(i := w)\<rparr> else s)"
| "pay_step (Run i e) s =
     (let (w, db) = worker_step e (workers s i) (wdb s)
      in s\<lparr>workers := (workers s)(i := w), wdb := db\<rparr>)"
| "pay_step (Crash i) s = s\<lparr>workers := (workers s)(i := Done False)\<rparr>"
| "pay_step (NewOrder e req) s = s\<lparr>wdb := createOrderInTx e req (wdb s)\<rparr>"
| "pay_step (AddCode x now code) s = s\<lparr>wdb := snd (CreateCode x now code (wdb s))\<rparr>"
| "pay_step (WriteCode i st user) s =
     s\<lparr>wdb := (wdb s)\<lparr>codes := update_rows (code_row i) (\<lambda>r. r\<lparr>RcStatus := st, RcUsedBy := user\<rparr>) (codes (wdb s))\<rparr>\<rparr>"
| "pay_step (DeleteCode i) s = s\<lparr>wdb := (wdb s)\<lparr>codes := filter (\<lambda>r. \<not> code_row i r) (codes (wdb s))\<rparr>\<rparr>"
| "pay_step (RefundMove oid st now) s =
     s\<lparr>wdb := update_orders (\<lambda>r. OrdID r = oid \<and> served (wdb s) r)
                (\<lambda>r. if wasCompleted st then r\<lparr>OrdStatus := st, OrdUpdatedAt := now\<rparr> else r) (wdb s)\<rparr>"

fun pay_run :: "pay_label list \<Rightarrow> pay_world \<Rightarrow> pay_world" where
  "pay_run [] s = s"
| "pay_run (l # ls) s = pay_run ls (pay_step l s)"

definition pay_start :: "(int \<Rightarrow> real option) \<Rightarrow> pay_world" where
  "pay_start users =
     \<lparr>wdb = \<lparr>orders = [], order_seq = 1, codes = [], code_seq = 1, balances = users, audits = [],
             sub_notes = (\<lambda>_. None), credits = [], rebates = [], grants = [], confirmed = []\<rparr>,
      workers = (\<lambda>_. Done True)\<rparr>"

text \<open>
  What administrators have to leave alone: the row of a code that has been credited is neither
  deleted nor made unused again, and codes entered by hand are new and do not look like a
  payment's.
\<close>

definition spent :: "pay_db \<Rightarrow> int \<Rightarrow> bool" where
  "spent db i \<longleftrightarrow> list_ex (\<lambda>r. RcID r = i \<and> RcCode r \<in> fst ` set (credits db)) (codes db)"

fun careful :: "pay_label \<Rightarrow> pay_db \<Rightarrow> bool" where
  "careful (NewOrder e req) db = (OrdAmount req \<noteq> 0)"
| "careful (AddCode x now code) db =
     (RcStatus code = StatusUnused \<and> RcUsedBy code = None \<and> \<not> has_prefix (trim_space (RcCode code)) ''PAY-'')"
| "careful (WriteCode i st user) db = (st \<noteq> StatusUsed \<and> (st = StatusUnused \<longrightarrow> user = None \<and> \<not> spent db i))"
| "careful (DeleteCode i) db = (\<not> spent db i)"
| "careful l db = True"

fun careful_run :: "pay_label list \<Rightarrow> pay_world \<Rightarrow> bool" where
  "careful_run [] s = True"
| "careful_run (l # ls) s = (careful l (wdb s) \<and> careful_run ls (pay_step l s))"

subsection \<open>The invariant\<close>

type_synonym order_core = "int \<times> int \<times> real \<times> gostring \<times> gostring"

definition order_core :: "PaymentOrder \<Rightarrow> order_core" where
  "order_core r = (OrdID r, OrdUserID r, OrdAmount r, OrdRechargeCode r, OrdOrderType r)"

definition cores :: "pay_db \<Rightarrow> order_core set" where
  "cores db = order_core ` set (orders db)"

definition code_core :: "RedeemCode \<Rightarrow> int \<times> gostring \<times> gostring \<times> real" where
  "code_core r = (RcID r, RcCode r, RcType r, RcValue r)"

definition order_ok :: "pay_db \<Rightarrow> PaymentOrder \<Rightarrow> bool" where
  "order_ok db r \<longleftrightarrow>
     (wasCompleted (OrdStatus r) \<longrightarrow> OrdOrderType r = OrderTypeBalance \<longrightarrow> credited db r) \<and>
     (OrdPaidAt r \<noteq> None \<longrightarrow> OrdID r \<in> set (confirmed db)) \<and>
     (OrdPaidAt r \<noteq> None \<longrightarrow> OrdStatus r \<notin> {OrderStatusPending, OrderStatusCancelled, OrderStatusExpired}) \<and>
     OrdID r < order_seq db \<and> (\<exists>t. OrdRechargeCode r = rechargeCode (OrdID r) t) \<and> OrdAmount r \<noteq> 0"

definition code_ok :: "pay_db \<Rightarrow> RedeemCode \<Rightarrow> bool" where
  "code_ok db r \<longleftrightarrow>
     RcID r < code_seq db \<and>
     (RcStatus r = StatusUsed \<longrightarrow> RcType r = RedeemTypeBalance \<longrightarrow>
        (\<exists>u. RcUsedBy r = Some u \<and> (RcCode r, u, RcValue r) \<in> set (credits db))) \<and>
     (RcStatus r = StatusUnused \<longrightarrow> RcCode r \<notin> fst ` set (credits db)) \<and>
     (has_prefix (RcCode r) ''PAY-'' \<longrightarrow>
        (\<exists>i u t. (i, u, RcValue r, RcCode r, t) \<in> cores db \<and> i \<in> set (confirmed db)) \<and> RcType r = RedeemTypeBalance)"

definition pay_inv :: "pay_db \<Rightarrow> bool" where
  "pay_inv db \<longleftrightarrow>
     distinct (map OrdID (orders db)) \<and>
     distinct (map RcID (codes db)) \<and> distinct (map RcCode (codes db)) \<and>
     (\<forall>r \<in> set (orders db). order_ok db r) \<and>
     (\<forall>r \<in> set (codes db). code_ok db r) \<and>
     distinct (map fst (credits db)) \<and>
     (\<forall>c \<in> fst ` set (credits db). c \<in> RcCode ` set (codes db))"

text \<open>What one worker knows, and why no other worker can take it away: the order \<open>pay_le\<close>.\<close>

definition known_order :: "pay_db \<Rightarrow> PaymentOrder \<Rightarrow> bool" where
  "known_order db o1 \<longleftrightarrow> order_core o1 \<in> cores db \<and> OrdID o1 \<in> set (confirmed db)"

definition known_code :: "pay_db \<Rightarrow> RedeemCode \<Rightarrow> bool" where
  "known_code db rc \<longleftrightarrow> RcID rc < code_seq db \<and>
     (\<forall>r \<in> set (codes db). RcID r = RcID rc \<longrightarrow> code_core r = code_core rc)"

fun worker_ok :: "pay_db \<Rightarrow> pay_worker \<Rightarrow> bool" where
  "worker_ok db (AtConfirm oid tradeNo paid pk metadata) = True"
| "worker_ok db (AtToPaid o1 tradeNo paid) = known_order db o1"
| "worker_ok db (AtAlready o1) = known_order db o1"
| "worker_ok db (AtExecute oid) = (oid \<in> set (confirmed db))"
| "worker_ok db (AtReject o1) = True"
| "worker_ok db (AtFulfilBalance oid) = (oid \<in> set (confirmed db))"
| "worker_ok db (AtFulfilSubscription oid) = (oid \<in> set (confirmed db))"
| "worker_ok db (AtLease o1) = known_order db o1"
| "worker_ok db (AtReload o1) = known_order db o1"
| "worker_ok db (AtLookup o1 lease) = (known_order db o1 \<and> OrdOrderType o1 = OrderTypeBalance)"
| "worker_ok db (AtCreateCode o1 lease) = (known_order db o1 \<and> OrdOrderType o1 = OrderTypeBalance)"
| "worker_ok db (AtRedeem (ForOrder o1 lease) userID code) =
     (known_order db o1 \<and> userID = OrdUserID o1 \<and> code = OrdRechargeCode o1)"
| "worker_ok db (AtRedeemTx caller userID rc) =
     (known_code db rc \<and>
      (case caller of ForPublic \<Rightarrow> True
       | ForOrder o1 lease \<Rightarrow> known_order db o1 \<and> userID = OrdUserID o1 \<and> RcCode rc = OrdRechargeCode o1 \<and>
           RcType rc = RedeemTypeBalance \<and> RcValue rc = OrdAmount o1))"
| "worker_ok db (AtReread (ForOrder o1 lease) i) = (known_order db o1 \<and> credited db o1)"
| "worker_ok db (AtGroup o1 lease) = (known_order db o1 \<and> OrdOrderType o1 \<noteq> OrderTypeBalance)"
| "worker_ok db (AtAssign o1 lease) = (known_order db o1 \<and> OrdOrderType o1 \<noteq> OrderTypeBalance)"
| "worker_ok db (AtRebate o1 lease action) = (known_order db o1 \<and> served db o1)"
| "worker_ok db (AtComplete o1 lease action) = (known_order db o1 \<and> served db o1)"
| "worker_ok db (AtCheckPaid o1 fs) = (fs \<in> {None, Some OrderStatusCancelled, Some OrderStatusExpired})"
| "worker_ok db (AtCancelWrite o1 fs) = (fs \<in> {OrderStatusCancelled, OrderStatusExpired})"
| "worker_ok db w = True"

definition pay_le :: "pay_db \<Rightarrow> pay_db \<Rightarrow> bool" where
  "pay_le db db' \<longleftrightarrow>
     cores db \<subseteq> cores db' \<and> set (credits db) \<subseteq> set (credits db') \<and> set (confirmed db) \<subseteq> set (confirmed db') \<and>
     code_seq db \<le> code_seq db' \<and>
     (\<forall>r' \<in> set (codes db'). RcID r' < code_seq db \<longrightarrow> code_core r' \<in> code_core ` set (codes db))"

end
