(* ===== verification/PaymentProofs.thy ===== *)
theory PaymentProofs
  imports PaymentWorld
begin

text \<open>
  The invariant of the payment world, step by step, and what follows for orders: a balance order
  is credited once, only when its payment was confirmed, and always when it is completed.
\<close>

subsection \<open>Codes of payments\<close>

lemma nat_digits_then_dash: "takeWhile decimal_char (nat_digits n @ CHR ''-'' # z) = nat_digits n"
  using nat_digits_decimal [of n] by (simp add: list_all_iff decimal_char_def)

lemma nat_digits_dash_inject: "nat_digits m @ CHR ''-'' # x = nat_digits n @ CHR ''-'' # y \<Longrightarrow> m = n"
  by (metis nat_digits_then_dash nat_digits_inject)

lemma nat_digits_no_dash: "nat_digits n @ z \<noteq> CHR ''-'' # z'"
proof -
  obtain c t where "nat_digits n = c # t" "decimal_char c"
    using nat_digits_decimal [of n] by (cases "nat_digits n") auto
  then show ?thesis by (auto simp: decimal_char_def)
qed

lemma itoa_dash_inject:
  assumes "itoa i @ CHR ''-'' # x = itoa j @ CHR ''-'' # y"
  shows "i = j"
proof (cases "i < 0"; cases "j < 0")
  assume "i < 0" "j < 0"
  with assms show ?thesis using nat_digits_dash_inject [of "nat (- i)" x "nat (- j)" y] by (simp add: itoa_def)
next
  assume "i < 0" "\<not> j < 0"
  with assms show ?thesis using nat_digits_no_dash [of "nat j"] by (simp add: itoa_def) (metis append.simps(2))
next
  assume "\<not> i < 0" "j < 0"
  with assms show ?thesis using nat_digits_no_dash [of "nat i"] by (simp add: itoa_def)
next
  assume "\<not> i < 0" "\<not> j < 0"
  with assms show ?thesis using nat_digits_dash_inject [of "nat i" x "nat j" y] by (simp add: itoa_def)
qed

lemma rechargeCode_inject [dest]: "rechargeCode i t = rechargeCode j u \<Longrightarrow> i = j"
  by (auto simp: rechargeCode_def dest: itoa_dash_inject)

lemma rechargeCode_prefix [simp]: "has_prefix (rechargeCode i t) ''PAY-''"
  by (simp add: rechargeCode_def has_prefix_iff)

lemma strip_none:
  assumes "s = c # t" and "\<forall>p \<in> set ps. \<exists>d q. p = d # q \<and> d \<noteq> c"
  shows "strip_all n ps s = s"
proof -
  have "find (has_prefix s) ps = None"
    using assms by (fastforce simp: find_None_iff has_prefix_iff)
  then show ?thesis by (cases n) (simp_all add: strip_one_def)
qed

lemma trim_rechargeCode [simp]: "trim_space (rechargeCode i t) = rechargeCode i t"
proof -
  have l: "trim_left (rechargeCode i t) = rechargeCode i t"
    unfolding trim_left_def rechargeCode_def by (rule strip_none) (auto simp: space_encodings_def)
  obtain c s where s: "rev (itoa (t mod 100000)) = c # s" "decimal_char c"
  proof -
    have "0 \<le> t mod 100000" by simp
    then have "itoa (t mod 100000) = nat_digits (nat (t mod 100000))" by (simp add: itoa_def)
    then have "list_all decimal_char (rev (itoa (t mod 100000))) \<and> rev (itoa (t mod 100000)) \<noteq> []"
      using nat_digits_decimal [of "nat (t mod 100000)"] by (simp add: list_all_iff)
    then show ?thesis using that by (cases "rev (itoa (t mod 100000))") auto
  qed
  have "rev (rechargeCode i t) = c # (s @ CHR ''-'' # rev (itoa i) @ rev ''PAY-'')"
    using s(1) by (simp add: rechargeCode_def)
  moreover have "\<forall>p \<in> set (map rev space_encodings). \<exists>d q. p = d # q \<and> d \<noteq> c"
    using s(2) by (auto simp: space_encodings_def decimal_char_def)
  ultimately have "strip_all n (map rev space_encodings) (rev (rechargeCode i t)) = rev (rechargeCode i t)" for n
    by (rule strip_none)
  then show ?thesis by (simp add: trim_space_def trim_right_def l)
qed


subsection \<open>Growing databases\<close>

named_theorems pay_defs "unfolding rules of the payment model"
named_theorems good_intros "changes of the database that keep the invariant"

lemmas [pay_defs] = order_core_def cores_def code_core_def credited_def known_order_def served_def known_code_def

definition good :: "pay_db \<Rightarrow> pay_db \<Rightarrow> bool" where
  "good db db' \<longleftrightarrow> pay_inv db' \<and> pay_le db db'"

lemma pay_le_refl [simp]: "pay_le db db"
  by (auto simp: pay_le_def)

lemma good_refl [good_intros]: "pay_inv db \<Longrightarrow> good db db"
  by (simp add: good_def)

lemma known_order_mono: "known_order db o1 \<Longrightarrow> pay_le db db' \<Longrightarrow> known_order db' o1"
  by (auto simp: known_order_def pay_le_def)

lemma credited_mono: "credited db o1 \<Longrightarrow> pay_le db db' \<Longrightarrow> credited db' o1"
  by (auto simp: credited_def pay_le_def)

lemma served_mono: "served db o1 \<Longrightarrow> pay_le db db' \<Longrightarrow> served db' o1"
  by (auto simp: served_def dest: credited_mono)

lemma confirmed_mono: "i \<in> set (confirmed db) \<Longrightarrow> pay_le db db' \<Longrightarrow> i \<in> set (confirmed db')"
  by (auto simp: pay_le_def)

lemma known_code_mono:
  assumes "known_code db rc" and le: "pay_le db db'"
  shows "known_code db' rc"
proof -
  have old: "RcID rc < code_seq db" and same: "\<forall>r \<in> set (codes db). RcID r = RcID rc \<longrightarrow> code_core r = code_core rc"
    using assms(1) by (simp_all add: known_code_def)
  have "code_core r' = code_core rc" if r': "r' \<in> set (codes db')" "RcID r' = RcID rc" for r'
  proof -
    have "code_core r' \<in> code_core ` set (codes db)" using le old r' by (simp add: pay_le_def)
    then obtain r where r: "r \<in> set (codes db)" "code_core r' = code_core r" by auto
    then have "RcID r = RcID rc" using r'(2) by (simp add: code_core_def)
    with same r show ?thesis by simp
  qed
  with old le show ?thesis by (auto simp: known_code_def pay_le_def)
qed

lemma worker_ok_mono: "worker_ok db w \<Longrightarrow> pay_le db db' \<Longrightarrow> worker_ok db' w"
proof (induction db w rule: worker_ok.induct)
qed (auto intro: known_order_mono credited_mono served_mono confirmed_mono known_code_mono
       split: redeem_caller.splits)

text \<open>The fields the invariant reads; every other field may change freely.\<close>

definition same_books :: "pay_db \<Rightarrow> pay_db \<Rightarrow> bool" where
  "same_books db db' \<longleftrightarrow> orders db' = orders db \<and> order_seq db' = order_seq db \<and> codes db' = codes db \<and>
     code_seq db' = code_seq db \<and> credits db' = credits db \<and> confirmed db' = confirmed db"

lemma good_same_books: "good db db' \<Longrightarrow> same_books db' db'' \<Longrightarrow> good db db''"
  by (simp add: good_def same_books_def pay_inv_def pay_le_def order_ok_def code_ok_def credited_def cores_def)

lemma same_books_audit [simp]: "same_books db (writeAuditLog ok oid action db)"
  by (simp add: same_books_def writeAuditLog_def)

lemma good_audit [good_intros]: "good db db' \<Longrightarrow> good db (writeAuditLog ok oid action db')"
  by (erule good_same_books) simp

lemma good_written [good_intros]: "pay_inv db \<Longrightarrow> good db db' \<Longrightarrow> good db (written x db db')"
  by (simp add: written_def good_refl)

lemma good_if [good_intros]: "(b \<Longrightarrow> good db x) \<Longrightarrow> (\<not> b \<Longrightarrow> good db y) \<Longrightarrow> good db (if b then x else y)"
  by simp

lemma order_ok_mono:
  assumes "order_ok db r" and "set (credits db) \<subseteq> set (credits db')"
    and "set (confirmed db) \<subseteq> set (confirmed db')" and "order_seq db \<le> order_seq db'"
  shows "order_ok db' r"
  using assms by (auto simp: order_ok_def credited_def)

lemma code_ok_mono:
  assumes "code_ok db r" and "set (credits db') = set (credits db)" and "cores db \<subseteq> cores db'"
    and "set (confirmed db) \<subseteq> set (confirmed db')" and "code_seq db \<le> code_seq db'"
  shows "code_ok db' r"
  using assms unfolding code_ok_def by (simp add: subset_iff) blast

subsection \<open>Changes of single tables\<close>

lemma good_confirm [good_intros]:
  assumes "pay_inv db"
  shows "good db (db\<lparr>confirmed := oid # confirmed db\<rparr>)"
proof -
  let ?db = "db\<lparr>confirmed := oid # confirmed db\<rparr>"
  have "order_ok ?db r" if "r \<in> set (orders db)" for r
    by (rule order_ok_mono [of db]) (use assms that in \<open>auto simp: pay_inv_def\<close>)
  moreover have "code_ok ?db r" if "r \<in> set (codes db)" for r
    by (rule code_ok_mono [of db]) (use assms that in \<open>simp_all add: pay_inv_def cores_def subset_insertI\<close>)
  ultimately show ?thesis
    using assms by (simp add: good_def pay_inv_def pay_le_def cores_def subset_insertI)
qed

lemma cores_update:
  assumes "\<And>r. r \<in> set (orders db) \<Longrightarrow> p r \<Longrightarrow> order_core (f r) = order_core r"
  shows "cores (update_orders p f db) = cores db"
proof -
  have rows: "orders (update_orders p f db) = map (\<lambda>r. if p r then f r else r) (orders db)"
    by (simp add: update_orders_def update_rows_def)
  show ?thesis
    unfolding cores_def rows set_map image_image by (rule image_cong) (simp_all add: assms)
qed

lemma good_update_orders:
  assumes inv: "pay_inv db"
    and step: "\<And>r. r \<in> set (orders db) \<Longrightarrow> order_ok db r \<Longrightarrow> p r \<Longrightarrow> order_core (f r) = order_core r \<and> order_ok db (f r)"
  shows "good db (update_orders p f db)"
proof -
  have ok: "order_ok db r" if "r \<in> set (orders db)" for r using inv that by (simp add: pay_inv_def)
  have core: "order_core (f r) = order_core r" if "r \<in> set (orders db)" "p r" for r using step that ok by blast
  have cores: "cores (update_orders p f db) = cores db" using core by (rule cores_update)
  have ids: "map OrdID (orders (update_orders p f db)) = map OrdID (orders db)"
    using core by (auto simp: update_orders_def update_rows_def order_core_def)
  have "\<forall>r \<in> set (orders (update_orders p f db)). order_ok (update_orders p f db) r"
    using step ok by (fastforce simp: update_orders_def update_rows_def order_ok_def credited_def)
  moreover have "\<forall>r \<in> set (codes db). code_ok (update_orders p f db) r"
    using inv cores by (simp add: pay_inv_def code_ok_def update_orders_def)
  ultimately show ?thesis
    using inv cores ids by (simp add: good_def pay_inv_def pay_le_def update_orders_def)
qed


text \<open>A new code.\<close>

definition fitting_code :: "pay_db \<Rightarrow> RedeemCode \<Rightarrow> bool" where
  "fitting_code db code \<longleftrightarrow> RcStatus code = StatusUnused \<and>
     (has_prefix (trim_space (RcCode code)) ''PAY-'' \<longrightarrow>
        (\<exists>i u t. (i, u, RcValue code, trim_space (RcCode code), t) \<in> cores db \<and> i \<in> set (confirmed db)) \<and>
        RcType code = RedeemTypeBalance)"

lemma good_insertCode:
  assumes inv: "pay_inv db" and ins: "insertCode code db = Some db'"
    and unused: "RcStatus code = StatusUnused"
    and fits: "has_prefix (RcCode code) ''PAY-'' \<Longrightarrow>
        (\<exists>i u t. (i, u, RcValue code, RcCode code, t) \<in> cores db \<and> i \<in> set (confirmed db)) \<and>
        RcType code = RedeemTypeBalance"
  shows "good db db'"
proof -
  let ?r = "code\<lparr>RcID := code_seq db\<rparr>"
  have new: "RcCode code \<notin> RcCode ` set (codes db)"
    and db': "db' = db\<lparr>codes := ?r # codes db, code_seq := code_seq db + 1\<rparr>"
    using ins by (auto simp: insertCode_def list_ex_iff split: if_splits)
  have old: "RcID r < code_seq db" if "r \<in> set (codes db)" for r
    using inv that by (simp add: pay_inv_def code_ok_def)
  have "code_ok db' r" if "r \<in> set (codes db)" for r
    by (rule code_ok_mono [of db]) (use inv that db' in \<open>simp_all add: pay_inv_def cores_def\<close>)
  moreover have "code_ok db' ?r"
  proof -
    have "RcCode code \<notin> fst ` set (credits db)" using inv new by (auto simp: pay_inv_def)
    then show ?thesis using unused fits db' by (simp add: code_ok_def cores_def)
  qed
  moreover have "order_ok db' r" if "r \<in> set (orders db)" for r
    by (rule order_ok_mono [of db]) (use inv that db' in \<open>simp_all add: pay_inv_def\<close>)
  moreover have "code_seq db \<notin> RcID ` set (codes db)" using old by fastforce
  ultimately show ?thesis
    using inv new db' by (auto simp: good_def pay_inv_def pay_le_def cores_def)
qed

lemma good_CreateCode:
  assumes "pay_inv db" and "fitting_code db code"
  shows "good db (snd (CreateCode x now code db))"
proof -
  have "good db db'"
    if "insertCode (code\<lparr>RcCode := trim_space (RcCode code),
          RcType := (if RcType code = [] then RedeemTypeBalance else RcType code)\<rparr>) db = Some db'" for db'
    by (rule good_insertCode [OF assms(1) that]) (use assms(2) in \<open>auto simp: fitting_code_def\<close>)
  then show ?thesis
    using assms(1) by (auto simp: CreateCode_def Let_def good_refl written_def split: option.splits)
qed

text \<open>Rows of the code table that change in place.\<close>

lemma good_map_codes:
  assumes inv: "pay_inv db" and rows: "codes db' = map g (codes db)"
    and core: "\<And>r. code_core (g r) = code_core r"
    and code: "\<And>r. r \<in> set (codes db) \<Longrightarrow> code_ok db r \<Longrightarrow> code_ok db' (g r)"
    and same: "orders db' = orders db" "order_seq db' = order_seq db" "code_seq db' = code_seq db" "confirmed db' = confirmed db"
    and more: "set (credits db) \<subseteq> set (credits db')" and once: "distinct (map fst (credits db'))"
    and known: "fst ` set (credits db') \<subseteq> RcCode ` set (codes db)"
  shows "good db db'"
proof -
  have cores: "cores db' = cores db" by (simp add: cores_def same)
  have "\<forall>r \<in> set (codes db). code_ok db r" using inv by (simp add: pay_inv_def)
  then have codes: "\<forall>r \<in> set (codes db'). code_ok db' r"
    unfolding rows set_map using code by blast
  have "order_ok db' r" if "r \<in> set (orders db)" for r
    by (rule order_ok_mono [of db]) (use inv that more in \<open>simp_all add: pay_inv_def same\<close>)
  then have orders: "\<forall>r \<in> set (orders db'). order_ok db' r" unfolding same(1) by (rule ballI)
  have ids: "map RcID xs = map fst (map code_core xs)" "map RcCode xs = map (fst \<circ> snd) (map code_core xs)" for xs
    by (simp_all add: code_core_def)
  have "map code_core (codes db') = map code_core (codes db)" unfolding rows by (simp add: core)
  then have maps: "map RcID (codes db') = map RcID (codes db)" "map RcCode (codes db') = map RcCode (codes db)"
    by (simp_all only: ids)
  have "RcCode ` set (codes db') = RcCode ` set (codes db)" by (metis maps(2) set_map)
  with known have "\<forall>c \<in> fst ` set (credits db'). c \<in> RcCode ` set (codes db')" by (simp only: subset_eq)
  moreover have "distinct (map OrdID (orders db'))" "distinct (map RcID (codes db))" "distinct (map RcCode (codes db))"
    using inv by (simp_all add: pay_inv_def same)
  ultimately have "pay_inv db'" unfolding pay_inv_def using codes orders maps once by metis
  moreover have "code_core r' \<in> code_core ` set (codes db)" if "r' \<in> set (codes db')" for r'
    using that unfolding rows set_map by (rule imageE) (simp only: core imageI)
  ultimately show ?thesis using more by (simp add: good_def pay_le_def cores same)
qed

text \<open>The transaction that uses a code.\<close>

lemma good_use:
  assumes inv: "pay_inv db" and row: "r0 \<in> set (codes db)" "RcID r0 = i" "RcStatus r0 = StatusUnused"
    and db': "db' = db\<lparr>codes := update_rows (unusedRow i) (\<lambda>r. r\<lparr>RcStatus := StatusUsed, RcUsedBy := Some u\<rparr>) (codes db),
                       balances := b, credits := cr\<rparr>"
    and cr: "if RcType r0 = RedeemTypeBalance then cr = (RcCode r0, u, RcValue r0) # credits db else cr = credits db"
  shows "good db db'"
proof (rule good_map_codes [OF inv])
  let ?g = "\<lambda>r. if unusedRow i r then r\<lparr>RcStatus := StatusUsed, RcUsedBy := Some u\<rparr> else r"
  show "codes db' = map ?g (codes db)" using db' by (simp add: update_rows_def)
  show "code_core (?g r) = code_core r" for r by (simp add: code_core_def)
  have fresh: "RcCode r0 \<notin> fst ` set (credits db)" using inv row by (simp add: pay_inv_def code_ok_def)
  have only: "r = r0" if "r \<in> set (codes db)" "RcID r = i \<or> RcCode r = RcCode r0" for r
    using inv that row by (auto simp: pay_inv_def distinct_map dest: inj_onD)
  have fsts: "fst ` set cr \<subseteq> insert (RcCode r0) (fst ` set (credits db))" using cr by (auto split: if_splits)
  show more: "set (credits db) \<subseteq> set (credits db')" using cr db' by (auto split: if_splits)
  have "distinct (map fst (credits db))" using inv by (simp add: pay_inv_def)
  then show "distinct (map fst (credits db'))" using cr fresh db' by (auto split: if_splits)
  have "fst ` set (credits db) \<subseteq> RcCode ` set (codes db)" using inv by (auto simp: pay_inv_def)
  with row(1) have "insert (RcCode r0) (fst ` set (credits db)) \<subseteq> RcCode ` set (codes db)" by simp
  with fsts have "fst ` set cr \<subseteq> RcCode ` set (codes db)" by (rule subset_trans)
  then show "fst ` set (credits db') \<subseteq> RcCode ` set (codes db)" using db' by simp
  show "code_ok db' (?g r)" if r: "r \<in> set (codes db)" "code_ok db r" for r
  proof (cases "r = r0")
    case True
    with r row cr db' show ?thesis by (auto simp: code_ok_def unusedRow_def cores_def)
  next
    case False
    with only r have "RcID r \<noteq> i" "RcCode r \<noteq> RcCode r0" by blast+
    with r more fsts db' show ?thesis by (auto simp: code_ok_def unusedRow_def cores_def)
  qed
qed (simp_all add: db')

lemma good_redeemTx:
  assumes inv: "pay_inv db" and known: "known_code db rc" and tx: "redeemTx u rc db = Some db'"
  shows "good db db' \<and> (RcType rc = RedeemTypeBalance \<longrightarrow> (RcCode rc, u, RcValue rc) \<in> set (credits db'))"
proof -
  obtain db1 where use: "Use (RcID rc) u db = Some db1" using tx by (auto simp: redeemTx_def split: option.splits)
  then obtain r0 where r0: "r0 \<in> set (codes db)" "RcID r0 = RcID rc" "RcStatus r0 = StatusUnused"
    by (auto simp: Use_def list_ex_iff unusedRow_def split: if_splits)
  then have core: "RcCode r0 = RcCode rc" "RcType r0 = RcType rc" "RcValue r0 = RcValue rc"
    using known by (auto simp: known_code_def code_core_def)
  define b where "b = balances db'"
  define cr where "cr = credits db'"
  have "if RcType r0 = RedeemTypeBalance then cr = (RcCode r0, u, RcValue r0) # credits db else cr = credits db"
    and "db' = db\<lparr>codes := update_rows (unusedRow (RcID rc)) (\<lambda>r. r\<lparr>RcStatus := StatusUsed, RcUsedBy := Some u\<rparr>) (codes db),
                  balances := b, credits := cr\<rparr>"
    using tx use core unfolding b_def cr_def
    by (auto simp: redeemTx_def Use_def UpdateBalance_def ApplyRedeemBalanceAdjustment_def split: if_splits option.splits)
  with good_use [OF inv r0] core show ?thesis by (auto split: if_splits)
qed

text \<open>The labels of administrators and of new orders.\<close>

lemma good_createOrderInTx:
  assumes inv: "pay_inv db" and amount: "OrdAmount req \<noteq> 0"
  shows "good db (createOrderInTx e req db)"
proof -
  let ?o = "req\<lparr>OrdID := order_seq db, OrdRechargeCode := rechargeCode (order_seq db) (env_now e), OrdPaymentTradeNo := [],
              OrdStatus := OrderStatusPending, OrdPaidAt := None, OrdUpdatedAt := env_now e,
              OrdRefundAmount := 0, OrdForceRefund := False\<rparr>"
  let ?db = "db\<lparr>orders := ?o # orders db, order_seq := order_seq db + 1\<rparr>"
  have fresh: "order_seq db \<notin> OrdID ` set (orders db)"
    using inv by (fastforce simp: pay_inv_def order_ok_def)
  have "order_ok ?db r" if "r \<in> set (orders db)" for r
    by (rule order_ok_mono [of db]) (use inv that in \<open>simp_all add: pay_inv_def\<close>)
  moreover have "order_ok ?db ?o" using amount by (auto simp: order_ok_def wasCompleted_def psIsRefundStatus_def)
  moreover have "code_ok ?db r" if "r \<in> set (codes db)" for r
    by (rule code_ok_mono [of db]) (use inv that in \<open>simp_all add: pay_inv_def cores_def subset_insertI\<close>)
  ultimately have "good db ?db"
    using inv fresh by (simp add: good_def pay_inv_def pay_le_def cores_def subset_insertI)
  then show ?thesis using inv by (simp add: createOrderInTx_def Let_def good_written)
qed

lemma good_write_code:
  assumes inv: "pay_inv db" and st: "st \<noteq> StatusUsed" "st = StatusUnused \<longrightarrow> \<not> spent db i"
  shows "good db (db\<lparr>codes := update_rows (code_row i) (\<lambda>r. r\<lparr>RcStatus := st, RcUsedBy := user\<rparr>) (codes db)\<rparr>)"
    (is "good db ?db")
proof (rule good_map_codes [OF inv])
  let ?g = "\<lambda>r. if code_row i r then r\<lparr>RcStatus := st, RcUsedBy := user\<rparr> else r"
  show "codes ?db = map ?g (codes db)" by (simp add: update_rows_def)
  show "code_core (?g r) = code_core r" for r by (simp add: code_core_def)
  show "code_ok ?db (?g r)" if r: "r \<in> set (codes db)" "code_ok db r" for r
  proof (cases "RcID r = i")
    case True
    have "st = StatusUnused \<Longrightarrow> RcCode r \<notin> fst ` set (credits db)"
      using st(2) r True by (auto simp: spent_def list_ex_iff)
    with r st(1) True show ?thesis by (simp add: code_ok_def code_row_def cores_def)
  next
    case False
    with r show ?thesis by (simp add: code_ok_def code_row_def cores_def)
  qed
qed (use inv in \<open>auto simp: pay_inv_def\<close>)

lemma good_delete_code:
  assumes inv: "pay_inv db" and free: "\<not> spent db i"
  shows "good db (db\<lparr>codes := filter (\<lambda>r. \<not> code_row i r) (codes db)\<rparr>)"
proof -
  let ?db = "db\<lparr>codes := filter (\<lambda>r. \<not> code_row i r) (codes db)\<rparr>"
  have "code_ok ?db r" if "r \<in> set (codes db)" for r
    by (rule code_ok_mono [of db]) (use inv that in \<open>simp_all add: pay_inv_def cores_def\<close>)
  moreover have "order_ok ?db r" if "r \<in> set (orders db)" for r
    by (rule order_ok_mono [of db]) (use inv that in \<open>simp_all add: pay_inv_def\<close>)
  moreover have "c \<in> RcCode ` set (codes ?db)" if c: "c \<in> fst ` set (credits db)" for c
  proof -
    obtain r where r: "r \<in> set (codes db)" "c = RcCode r" using inv c unfolding pay_inv_def by blast
    then have "RcID r \<noteq> i" using free c by (auto simp: spent_def list_ex_iff)
    with r show ?thesis by (auto simp: code_row_def)
  qed
  ultimately show ?thesis
    using inv by (auto simp: good_def pay_inv_def pay_le_def cores_def distinct_map_filter)
qed


subsection \<open>Every step of a worker keeps the invariant\<close>

definition step_ok :: "pay_db \<Rightarrow> pay_worker \<times> pay_db \<Rightarrow> bool" where
  "step_ok db p \<longleftrightarrow> good db (snd p) \<and> worker_ok (snd p) (fst p)"

lemma step_ok_pair [simp]: "step_ok db (w, db') \<longleftrightarrow> good db db' \<and> worker_ok db' w"
  by (simp add: step_ok_def)

lemma good_le: "good db db' \<Longrightarrow> pay_le db db'"
  by (simp add: good_def)

lemma worker_ok_good: "worker_ok db w \<Longrightarrow> good db db' \<Longrightarrow> worker_ok db' w"
  by (blast intro: worker_ok_mono good_le)

lemma getOrderD: "getOrder db oid = Some o1 \<Longrightarrow> o1 \<in> set (orders db) \<and> OrdID o1 = oid"
  by (auto simp: getOrder_def dest: find_SomeD)

lemma GetByCodeD: "GetByCode db code = Some rc \<Longrightarrow> rc \<in> set (codes db) \<and> RcCode rc = code"
  by (auto simp: GetByCode_def dest: find_SomeD)

lemma known_row: "o1 \<in> set (orders db) \<Longrightarrow> OrdID o1 \<in> set (confirmed db) \<Longrightarrow> known_order db o1"
  by (simp add: known_order_def cores_def)

lemma same_core:
  assumes "pay_inv db" and "r \<in> set (orders db)" and "known_order db o1" and "OrdID r = OrdID o1"
  shows "order_core r = order_core o1"
proof -
  obtain q where "q \<in> set (orders db)" "order_core q = order_core o1"
    using assms(3) by (auto simp: known_order_def cores_def)
  moreover from this have "OrdID q = OrdID r" using assms(4) by (simp add: order_core_def)
  ultimately show ?thesis
    using assms(1,2) by (auto simp: pay_inv_def distinct_map dest: inj_onD)
qed

lemma known_order_row:
  assumes "pay_inv db" and "known_order db o1"
  shows "\<exists>t. OrdRechargeCode o1 = rechargeCode (OrdID o1) t" and "OrdAmount o1 \<noteq> 0"
proof -
  obtain q where "q \<in> set (orders db)" "order_core q = order_core o1"
    using assms(2) by (auto simp: known_order_def cores_def)
  moreover from this have "order_ok db q" using assms(1) by (simp add: pay_inv_def)
  ultimately show "\<exists>t. OrdRechargeCode o1 = rechargeCode (OrdID o1) t" and "OrdAmount o1 \<noteq> 0"
    by (auto simp: order_ok_def order_core_def)
qed

lemma payment_code_row:
  assumes inv: "pay_inv db" and r: "r \<in> set (codes db)" and o1: "known_order db o1" and code: "RcCode r = OrdRechargeCode o1"
  shows "RcType r = RedeemTypeBalance \<and> RcValue r = OrdAmount o1"
proof -
  obtain t where t: "OrdRechargeCode o1 = rechargeCode (OrdID o1) t" using known_order_row [OF inv o1] by blast
  have "code_ok db r" using inv r by (simp add: pay_inv_def)
  then obtain i u k where core: "(i, u, RcValue r, RcCode r, k) \<in> cores db" and ty: "RcType r = RedeemTypeBalance"
    using code t by (auto simp: code_ok_def)
  obtain q where q: "q \<in> set (orders db)" "order_core q = (i, u, RcValue r, RcCode r, k)"
    using core by (auto simp: cores_def)
  then have "order_ok db q" using inv by (simp add: pay_inv_def)
  then have "OrdID q = OrdID o1" using q(2) code t by (auto simp: order_ok_def order_core_def)
  with same_core [OF inv q(1) o1] q(2) ty show ?thesis by (simp add: order_core_def)
qed

lemma row_known:
  assumes "pay_inv db" and "r \<in> set (codes db)"
  shows "known_code db r"
  using assms by (auto simp: known_code_def pay_inv_def code_ok_def distinct_map dest: inj_onD)

lemma order_ok_statusI:
  assumes "order_ok db r" and "\<not> wasCompleted st"
    and "st \<in> {OrderStatusPending, OrderStatusCancelled, OrderStatusExpired} \<Longrightarrow> OrdPaidAt r = None"
  shows "order_ok db (r\<lparr>OrdStatus := st, OrdUpdatedAt := now\<rparr>)"
  using assms by (auto simp: order_ok_def credited_def)

lemmas not_completed [simp] =
  wasCompleted_def [of OrderStatusPaid] wasCompleted_def [of OrderStatusFailed]
  wasCompleted_def [of OrderStatusRecharging] wasCompleted_def [of OrderStatusCancelled]
  wasCompleted_def [of OrderStatusExpired] wasCompleted_def [of OrderStatusPending] psIsRefundStatus_def

lemma good_status:
  assumes "pay_inv db" and "\<not> wasCompleted st"
    and "\<And>r. p r \<Longrightarrow> order_ok db r \<Longrightarrow> st \<in> {OrderStatusPending, OrderStatusCancelled, OrderStatusExpired} \<Longrightarrow> OrdPaidAt r = None"
  shows "good db (update_orders p (\<lambda>r. r\<lparr>OrdStatus := st, OrdUpdatedAt := now\<rparr>) db)"
  by (rule good_update_orders [OF assms(1)])
    (use assms(2,3) in \<open>auto simp: order_core_def intro: order_ok_statusI\<close>)

lemma notification_ok: "pay_inv db \<Longrightarrow> step_ok db (HandlePaymentNotification e n pk db)"
  by (auto simp: HandlePaymentNotification_def good_refl split: list.splits option.splits)

lemma confirm_ok:
  assumes "pay_inv db"
  shows "step_ok db (confirmPayment e oid tradeNo paid pk metadata db)"
proof -
  have "known_order (db\<lparr>confirmed := oid # confirmed db\<rparr>) o1" if "getOrder db oid = Some o1" for o1
    using getOrderD [OF that] by (simp add: known_order_def cores_def)
  then show ?thesis
    using assms by (auto simp: confirmPayment_def Let_def good_intros split: option.splits gofloat.splits)
qed

lemma toPaid_ok:
  assumes inv: "pay_inv db" and o1: "known_order db o1"
  shows "step_ok db (toPaid e o1 tradeNo paid db)"
proof -
  let ?f = "\<lambda>r. r\<lparr>OrdStatus := OrderStatusPaid, OrdPayAmount := paid, OrdPaymentTradeNo := tradeNo,
      OrdPaidAt := Some (env_now e), OrdUpdatedAt := env_now e\<rparr>"
  have "good db (update_orders (canBecomePaid (OrdID o1) g) ?f db)" for g
    by (rule good_update_orders [OF inv])
      (use o1 in \<open>auto simp: canBecomePaid_def order_core_def order_ok_def credited_def known_order_def\<close>)
  note g = good_written [OF inv this]
  have "known_order db' o1" "OrdID o1 \<in> set (confirmed db')" if "good db db'" for db'
    using known_order_mono [OF o1 good_le [OF that]] by (simp_all add: known_order_def)
  with g show ?thesis by (auto simp: toPaid_def Let_def good_audit)
qed

lemma already_ok: "pay_inv db \<Longrightarrow> known_order db o1 \<Longrightarrow> step_ok db (alreadyProcessed e o1 db)"
  by (auto simp: alreadyProcessed_def good_intros known_order_def split: option.splits order_status.splits)

lemma execute_ok: "pay_inv db \<Longrightarrow> oid \<in> set (confirmed db) \<Longrightarrow> step_ok db (executeFulfillment e oid db)"
  by (auto simp: executeFulfillment_def good_intros split: option.splits)

lemma reject_ok: "pay_inv db \<Longrightarrow> step_ok db (rejectUnsupportedOrderType e o1 db)"
  by (auto simp: rejectUnsupportedOrderType_def Let_def intro!: good_audit good_written good_status)

lemma fulfil_balance_ok:
  "pay_inv db \<Longrightarrow> oid \<in> set (confirmed db) \<Longrightarrow> step_ok db (ExecuteBalanceFulfillment e oid db)"
  by (auto simp: ExecuteBalanceFulfillment_def good_intros split: option.splits dest!: getOrderD intro: known_row)

lemma fulfil_subscription_ok:
  "pay_inv db \<Longrightarrow> oid \<in> set (confirmed db) \<Longrightarrow> step_ok db (ExecuteSubscriptionFulfillment e oid db)"
  by (auto simp: ExecuteSubscriptionFulfillment_def good_intros split: option.splits dest!: getOrderD intro: known_row)

lemma lease_ok:
  assumes inv: "pay_inv db" and o1: "known_order db o1"
  shows "step_ok db (acquirePaymentFulfillmentLease e o1 db)"
proof -
  have g: "good db (written x db (update_orders p (\<lambda>r. r\<lparr>OrdStatus := OrderStatusRecharging, OrdUpdatedAt := n\<rparr>) db))" for x p n
    by (rule good_written [OF inv good_status [OF inv]]) auto
  have "known_order db' o1" if "good db db'" for db' using known_order_mono [OF o1 good_le [OF that]] .
  with g show ?thesis by (auto simp: acquirePaymentFulfillmentLease_def Let_def)
qed

lemma reload_ok: "pay_inv db \<Longrightarrow> known_order db o1 \<Longrightarrow> step_ok db (reloadLease e o1 db)"
  by (auto simp: reloadLease_def good_intros split: option.splits)


lemma doBalance_ok:
  assumes inv: "pay_inv db" and o1: "known_order db o1" and ty: "OrdOrderType o1 = OrderTypeBalance"
  shows "step_ok db (doBalance e o1 lease db)"
proof -
  have "credited db o1"
    if c: "GetByCode db (OrdRechargeCode o1) = Some rc" "IsUsed rc" "validatePaymentRedeemCode o1 rc" for rc
  proof -
    have rc: "rc \<in> set (codes db)" "RcCode rc = OrdRechargeCode o1" using GetByCodeD [OF c(1)] by simp_all
    have "code_ok db rc" using inv rc(1) by (simp add: pay_inv_def)
    with c(2,3) rc(2) payment_code_row [OF inv rc(1) o1 rc(2)] show ?thesis
      by (auto simp: code_ok_def IsUsed_def validatePaymentRedeemCode_def credited_def split: if_splits)
  qed
  then show ?thesis
    using inv o1 ty
    by (auto simp: doBalance_def resolveRedeemAction_def good_refl served_def Let_def
        split: option.splits redeemAction.splits)
qed

lemma createCode_ok:
  assumes inv: "pay_inv db" and o1: "known_order db o1" and ty: "OrdOrderType o1 = OrderTypeBalance"
  shows "step_ok db (createPaymentCode e o1 lease db)"
proof -
  obtain t where t: "OrdRechargeCode o1 = rechargeCode (OrdID o1) t" using known_order_row [OF inv o1] by blast
  have core: "(OrdID o1, OrdUserID o1, OrdAmount o1, OrdRechargeCode o1, OrdOrderType o1) \<in> cores db"
    "OrdID o1 \<in> set (confirmed db)" using o1 by (simp_all add: known_order_def order_core_def)
  have "trim_space (OrdRechargeCode o1) = OrdRechargeCode o1" using t by simp
  then have "fitting_code db (paymentCode o1)" using core by (auto simp: fitting_code_def paymentCode_def)
  from good_CreateCode [OF inv this]
  have g: "good db (snd (CreateCode (env_db e) (env_now e) (paymentCode o1) db))" .
  have "known_order db' o1" if "good db db'" for db' using known_order_mono [OF o1 good_le [OF that]] .
  with g show ?thesis by (auto simp: createPaymentCode_def split: prod.splits)
qed

lemma redeemFailed_ok [simp]: "worker_ok db (redeemFailed caller)"
  by (cases caller) (simp_all add: redeemFailed_def)

lemma redeemLookup_ok:
  assumes inv: "pay_inv db" and w: "worker_ok db (AtRedeem caller userID code)"
  shows "step_ok db (redeemLookup e caller userID code db)"
proof -
  have "worker_ok db (AtRedeemTx caller userID rc)" if "GetByCode db code = Some rc" for rc
  proof -
    have rc: "rc \<in> set (codes db)" "RcCode rc = code" using GetByCodeD [OF that] by simp_all
    show ?thesis
      using row_known [OF inv rc(1)] w payment_code_row [OF inv rc(1)] rc(2)
      by (cases caller) auto
  qed
  then show ?thesis
    using inv by (auto simp: redeemLookup_def good_refl split: option.splits simp del: worker_ok.simps)
qed

lemma redeemCommit_ok:
  assumes inv: "pay_inv db" and w: "worker_ok db (AtRedeemTx caller userID rc)"
  shows "step_ok db (redeemCommit e caller userID rc db)"
proof (cases "redeemTx userID rc db")
  case None
  with inv show ?thesis by (simp add: redeemCommit_def good_refl)
next
  case (Some db')
  have known: "known_code db rc" using w by simp
  from good_redeemTx [OF inv known Some]
  have g: "good db db'" and c: "RcType rc = RedeemTypeBalance \<Longrightarrow> (RcCode rc, userID, RcValue rc) \<in> set (credits db')"
    by blast+
  have "worker_ok db' (AtReread caller (RcID rc))"
    using w c known_order_mono [OF _ good_le [OF g]] by (cases caller) (auto simp: credited_def)
  then show ?thesis
    using Some g good_written [OF inv g, of "env_db e"]
    by (auto simp: redeemCommit_def reply_ok_def written_def simp del: worker_ok.simps)
qed

lemma reread_ok: "pay_inv db \<Longrightarrow> worker_ok db (AtReread caller i) \<Longrightarrow> step_ok db (redeemReread e caller i db)"
  by (cases caller) (auto simp: redeemReread_def good_refl served_def redeemFailed_def)

lemma doSub_ok: "pay_inv db \<Longrightarrow> worker_ok db (AtGroup o1 lease) \<Longrightarrow> step_ok db (doSub e o1 lease db)"
  by (simp add: doSub_def good_refl)

lemma same_booksI [simp]:
  "same_books db (db\<lparr>audits := a\<rparr>)"
  "same_books db (db\<lparr>audits := a, rebates := r\<rparr>)"
  "same_books db (db\<lparr>rebates := r, audits := a\<rparr>)"
  "same_books db (db\<lparr>sub_notes := n, grants := g\<rparr>)"
  by (simp_all add: same_books_def)

lemma good_same: "pay_inv db \<Longrightarrow> same_books db db' \<Longrightarrow> good db db'"
  by (blast intro: good_same_books good_refl)

lemma assign_ok:
  assumes inv: "pay_inv db" and w: "worker_ok db (AtAssign o1 lease)"
  shows "step_ok db (ensurePaymentSubscriptionAssigned e o1 lease db)"
proof -
  have g: "good db db'" if "assignmentTx e o1 gid days db = Some db'" for gid days db'
    using that inv
    by (auto simp: assignmentTx_def Let_def assignForOrder_def good_audit good_refl good_same split: if_splits)
  have "worker_ok db' (AtRebate o1 lease a)" if "good db db'" for db' a
    using w known_order_mono [OF _ good_le [OF that]] by (auto simp: served_def)
  then show ?thesis
    using g inv by (auto simp: ensurePaymentSubscriptionAssigned_def good_refl good_written
        split: option.splits simp del: worker_ok.simps(17))
qed

lemma rebate_ok:
  assumes inv: "pay_inv db" and w: "worker_ok db (AtRebate o1 lease action)"
  shows "step_ok db (applyAffiliateRebateForOrder e o1 lease action db)"
proof -
  have k: "worker_ok db' (AtComplete o1 lease action)" if "good db db'" for db'
    using w known_order_mono [OF _ good_le [OF that]] served_mono [OF _ good_le [OF that]] by auto
  have claim: "good db db1" if "tryClaimAffiliateRebateAudit i db = Some db1" for i db1
    using that inv by (auto simp: tryClaimAffiliateRebateAudit_def good_same split: if_splits)
  have upd: "good db (updateClaimedAffiliateRebateAudit i a (db1\<lparr>rebates := r\<rparr>))"
    "good db (updateClaimedAffiliateRebateAudit i a db1)" if "good db db1" for i a r db1
    using that by (auto simp: updateClaimedAffiliateRebateAudit_def intro: good_same_books)
  show ?thesis
    using inv k claim upd
    by (auto simp: applyAffiliateRebateForOrder_def Let_def good_audit good_refl good_written
        split: option.splits simp del: worker_ok.simps(18))
qed

lemma complete_ok:
  assumes inv: "pay_inv db" and w: "worker_ok db (AtComplete o1 lease action)"
  shows "step_ok db (markCompleted e o1 lease action db)"
proof -
  have o1: "known_order db o1" and s: "served db o1" using w by simp_all
  have "good db (update_orders (heldBy (OrdID o1) lease) (\<lambda>r. r\<lparr>OrdStatus := OrderStatusCompleted, OrdUpdatedAt := n\<rparr>) db)" for n
  proof (rule good_update_orders [OF inv], rule conjI)
    fix r assume r: "r \<in> set (orders db)" "order_ok db r" "heldBy (OrdID o1) lease r"
    then have "order_core r = order_core o1" using same_core [OF inv r(1) o1] by (simp add: heldBy_def)
    with r s show "order_ok db (r\<lparr>OrdStatus := OrderStatusCompleted, OrdUpdatedAt := n\<rparr>)"
      by (auto simp: order_ok_def served_def credited_def order_core_def heldBy_def)
  qed (simp add: order_core_def)
  note g = good_written [OF inv this]
  then show ?thesis by (simp add: markCompleted_def Let_def good_audit)
qed

lemma markFailed_ok: "pay_inv db \<Longrightarrow> step_ok db (markFailed e oid lease db)"
  by (auto simp: markFailed_def Let_def intro!: good_audit good_written good_status)

lemma retry_ok: "pay_inv db \<Longrightarrow> step_ok db (RetryFulfillment e oid db)"
  by (auto simp: RetryFulfillment_def good_intros pay_inv_def order_ok_def writeAuditLog_def
      split: option.splits dest!: getOrderD intro!: good_same)


lemma cancelCore_ok [simp]: "fs \<in> {OrderStatusCancelled, OrderStatusExpired} \<Longrightarrow> worker_ok db (cancelCore o1 fs)"
  by (auto simp: cancelCore_def)

lemma notPaid_ok: "fs \<in> {None, Some OrderStatusCancelled, Some OrderStatusExpired} \<Longrightarrow> worker_ok db (notPaid o1 fs)"
  by (auto simp: notPaid_def)

lemma checkPaid_ok:
  assumes "pay_inv db" and "fs \<in> {None, Some OrderStatusCancelled, Some OrderStatusExpired}"
  shows "step_ok db (checkPaidWithOptions e o1 fs db)"
  using assms notPaid_ok [OF assms(2)]
  by (auto simp: checkPaidWithOptions_def Let_def good_intros
      split: provider_answer.splits option.splits prod.splits)

lemma cancelWrite_ok:
  assumes "pay_inv db" and "fs \<in> {OrderStatusCancelled, OrderStatusExpired}"
  shows "step_ok db (cancelWrite e o1 fs db)"
proof -
  have "good db (update_orders (\<lambda>r. OrdID r = OrdID o1 \<and> OrdStatus r = OrderStatusPending)
           (\<lambda>r. r\<lparr>OrdStatus := fs, OrdUpdatedAt := n\<rparr>) db)" for n
    by (rule good_status) (use assms in \<open>auto simp: order_ok_def\<close>)
  from good_written [OF assms(1) this] show ?thesis by (simp add: cancelWrite_def Let_def good_audit)
qed

lemma persist_ok: "pay_inv db \<Longrightarrow> step_ok db (persistTradeNo e o1 tradeNo n pk db)"
  by (auto simp: persistTradeNo_def order_core_def order_ok_def credited_def intro!: good_written good_update_orders)

lemma verify_ok: "pay_inv db \<Longrightarrow> step_ok db (VerifyOrderByOutTradeNo e outTradeNo userID db)"
  by (auto simp: VerifyOrderByOutTradeNo_def good_refl split: list.splits option.splits)

lemma invokeFailed_ok: "pay_inv db \<Longrightarrow> step_ok db (invokeFailed e oid db)"
  by (auto simp: invokeFailed_def intro!: good_written good_status)

lemmas worker_lemmas = notification_ok confirm_ok toPaid_ok already_ok execute_ok reject_ok fulfil_balance_ok
  fulfil_subscription_ok lease_ok reload_ok doBalance_ok createCode_ok redeemLookup_ok redeemCommit_ok reread_ok
  doSub_ok assign_ok rebate_ok complete_ok markFailed_ok retry_ok checkPaid_ok cancelWrite_ok persist_ok
  verify_ok invokeFailed_ok

lemma worker_step_ok:
  assumes "pay_inv db" and "worker_ok db w"
  shows "step_ok db (worker_step e w db)"
proof (cases w)
  case (AtRedeem caller userID code)
  with assms show ?thesis by (simp only: worker_step.simps redeemLookup_ok)
next
  case (AtRedeemTx caller userID rc)
  with assms show ?thesis by (simp only: worker_step.simps redeemCommit_ok)
next
  case (AtReread caller i)
  with assms show ?thesis by (simp only: worker_step.simps reread_ok)
next
  case (AtRebate o1 lease action)
  with assms show ?thesis by (simp only: worker_step.simps rebate_ok)
next
  case (AtComplete o1 lease action)
  with assms show ?thesis by (simp only: worker_step.simps complete_ok)
next
  case (AtAssign o1 lease)
  with assms show ?thesis by (simp only: worker_step.simps assign_ok)
next
  case (AtGroup o1 lease)
  with assms show ?thesis by (simp only: worker_step.simps doSub_ok)
next
  case (AtLeaseRefused oid)
  with assms show ?thesis by (auto simp: leaseRefused_def good_refl split: option.splits)
next
  case (AtCheckCompleted o1 lease)
  with assms show ?thesis by (auto simp: checkCompleted_def good_refl split: option.splits)
next
  case (AtCancel oid user)
  with assms show ?thesis by (auto simp: CancelOrder_def good_refl split: option.splits)
next
  case (AtExpire oid)
  with assms show ?thesis by (auto simp: expireOrder_def good_refl split: option.splits)
next
  case (AtCheckPaid o1 fs)
  with assms show ?thesis by (simp only: worker_step.simps checkPaid_ok worker_ok.simps)
qed (use assms in \<open>simp_all add: worker_lemmas good_refl\<close>)

subsection \<open>Runs\<close>

definition world_ok :: "pay_world \<Rightarrow> bool" where
  "world_ok s \<longleftrightarrow> pay_inv (wdb s) \<and> (\<forall>i. worker_ok (wdb s) (workers s i))"

lemma world_ok_db: "world_ok s \<Longrightarrow> good (wdb s) db \<Longrightarrow> world_ok (s\<lparr>wdb := db\<rparr>)"
  by (auto simp: world_ok_def good_def intro: worker_ok_mono)

lemma entry_point_ok: "entry_point db w \<Longrightarrow> worker_ok db w"
  by (induction db w rule: entry_point.induct) auto

lemma refund_move_ok:
  assumes "order_ok db r" and "served db r" and "wasCompleted st"
  shows "order_ok db (r\<lparr>OrdStatus := st, OrdUpdatedAt := now\<rparr>)"
proof -
  have "st \<notin> {OrderStatusPending, OrderStatusCancelled, OrderStatusExpired}"
    using assms(3) by (auto simp: wasCompleted_def)
  with assms show ?thesis by (simp add: order_ok_def credited_def served_def)
qed

lemma pay_step_ok:
  assumes ok: "world_ok s" and careful: "careful l (wdb s)"
  shows "world_ok (pay_step l s)"
proof (cases l)
  case (Start i w)
  with ok show ?thesis by (auto simp: world_ok_def entry_point_ok)
next
  case (Run i e)
  obtain w db where step: "worker_step e (workers s i) (wdb s) = (w, db)" by (cases "worker_step e (workers s i) (wdb s)")
  have "step_ok (wdb s) (worker_step e (workers s i) (wdb s))"
    using ok by (intro worker_step_ok) (simp_all add: world_ok_def)
  with step have g: "good (wdb s) db" "worker_ok db w" by simp_all
  with ok have "worker_ok db (workers s j)" for j by (auto simp: world_ok_def intro: worker_ok_good)
  with g Run step show ?thesis by (simp add: world_ok_def good_def)
next
  case (Crash i)
  with ok show ?thesis by (simp add: world_ok_def)
next
  case (NewOrder e req)
  with ok careful show ?thesis by (simp add: world_ok_db world_ok_def [of s] good_createOrderInTx)
next
  case (AddCode x now code)
  with ok careful show ?thesis by (simp add: world_ok_db world_ok_def [of s] good_CreateCode fitting_code_def)
next
  case (WriteCode i st user)
  with ok careful show ?thesis by (simp add: world_ok_db world_ok_def [of s] good_write_code)
next
  case (DeleteCode i)
  with ok careful show ?thesis by (simp add: world_ok_db world_ok_def [of s] good_delete_code)
next
  case (RefundMove oid st now)
  have g: "good db (update_orders (\<lambda>r. OrdID r = oid \<and> served db r)
                (\<lambda>r. if wasCompleted st then r\<lparr>OrdStatus := st, OrdUpdatedAt := now\<rparr> else r) db)"
    if "pay_inv db" for db
    by (rule good_update_orders [OF that]) (auto simp: order_core_def intro: refund_move_ok)
  with ok RefundMove show ?thesis by (simp add: world_ok_db world_ok_def [of s])
qed

lemma pay_run_ok: "world_ok s \<Longrightarrow> careful_run ls s \<Longrightarrow> world_ok (pay_run ls s)"
  by (induction ls arbitrary: s) (simp_all add: pay_step_ok)

lemma pay_start_ok: "world_ok (pay_start users)"
  by (simp add: world_ok_def pay_start_def pay_inv_def)

end
