(* ===== verification/PaymentClaims.thy ===== *)
theory PaymentClaims
  imports PaymentProofs
begin

text \<open>
  What holds of orders in every run of the payment world: credited once and only when paid for,
  rebates and subscriptions given once, balances that are the sum of the credits.
\<close>

subsection \<open>Rebates and subscriptions\<close>

definition marked :: "(int \<times> 'a) list \<Rightarrow> gostring \<Rightarrow> (int \<times> gostring) list \<Rightarrow> bool" where
  "marked xs a as \<longleftrightarrow> distinct (map fst xs) \<and> fst ` set xs \<subseteq> {i. (i, a) \<in> set as}"

lemma marked_mono: "marked xs a as \<Longrightarrow> (\<And>i. (i, a) \<in> set as \<Longrightarrow> (i, a) \<in> set bs) \<Longrightarrow> marked xs a bs"
  by (auto simp: marked_def)

lemma marked_Cons:
  "marked xs a as \<Longrightarrow> (i, a) \<notin> set as \<Longrightarrow> (\<And>j. (j, a) \<in> set as \<Longrightarrow> (j, a) \<in> set bs) \<Longrightarrow> (i, a) \<in> set bs \<Longrightarrow>
   marked ((i, x) # xs) a bs"
  by (auto simp: marked_def)

definition once_inv :: "pay_db \<Rightarrow> bool" where
  "once_inv db \<longleftrightarrow> marked (rebates db) ''AFFILIATE_REBATE_APPLIED'' (audits db) \<and>
     marked (grants db) ''SUBSCRIPTION_ASSIGNED'' (audits db)"

definition once_le :: "pay_db \<Rightarrow> pay_db \<Rightarrow> bool" where
  "once_le db db' \<longleftrightarrow> rebates db' = rebates db \<and> grants db' = grants db \<and> set (audits db) \<subseteq> set (audits db')"

lemma once_inv_le: "once_inv db \<Longrightarrow> once_le db db' \<Longrightarrow> once_inv db'"
  by (auto simp: once_inv_def once_le_def intro: marked_mono)

lemma once_le_refl [simp]: "once_le db db"
  by (simp add: once_le_def)

lemma once_le_audit [simp]: "once_le db db' \<Longrightarrow> once_le db (writeAuditLog ok oid action db')"
  by (auto simp: once_le_def writeAuditLog_def)

lemma once_le_orders [simp]: "once_le db (update_orders p f db') = once_le db db'"
  by (simp add: once_le_def update_orders_def)

lemma once_le_written [simp]: "once_le db db' \<Longrightarrow> once_le db (written x db db')"
  by (simp add: written_def)

lemma once_le_fields [simp]:
  "once_le db (db'\<lparr>confirmed := c\<rparr>) = once_le db db'"
  "once_le db (db'\<lparr>codes := cs\<rparr>) = once_le db db'"
  "once_le db (db'\<lparr>credits := cr\<rparr>) = once_le db db'"
  "once_le db (db'\<lparr>balances := b\<rparr>) = once_le db db'"
  by (simp_all add: once_le_def)

lemma once_le_CreateCode [simp]: "once_le db (snd (CreateCode x now code db))"
  by (auto simp: CreateCode_def Let_def insertCode_def written_def once_le_def split: option.splits if_splits)

lemma once_le_redeemTx: "redeemTx u rc db = Some db' \<Longrightarrow> once_le db db'"
  by (auto simp: redeemTx_def Use_def UpdateBalance_def ApplyRedeemBalanceAdjustment_def once_le_def
      split: option.splits if_splits)

lemma once_assign:
  assumes "once_inv db"
  shows "once_inv (snd (ensurePaymentSubscriptionAssigned e o1 lease db))"
proof -
  have "once_inv db'" if tx: "assignmentTx e o1 gid days db = Some db'" for gid days db'
  proof (cases "hasPaymentSubscriptionAssignmentAudit db (OrdID o1)")
    case True
    with tx assms show ?thesis by (simp add: assignmentTx_def)
  next
    case False
    then have new: "(OrdID o1, ''SUBSCRIPTION_ASSIGNED'') \<notin> set (audits db)"
      by (simp add: hasPaymentSubscriptionAssignmentAudit_def hasAuditLog_def)
    have "audits db' = (OrdID o1, ''SUBSCRIPTION_ASSIGNED'') # audits db" "rebates db' = rebates db"
      and "grants db' = grants db \<or> grants db' = (OrdID o1, OrdUserID o1, gid, days) # grants db"
      using tx False new
      by (auto simp: assignmentTx_def Let_def assignForOrder_def writeAuditLog_def hasAuditLog_def split: if_splits)
    moreover have "marked (rebates db) ''AFFILIATE_REBATE_APPLIED'' ((OrdID o1, ''SUBSCRIPTION_ASSIGNED'') # audits db)"
      "marked (grants db) ''SUBSCRIPTION_ASSIGNED'' ((OrdID o1, ''SUBSCRIPTION_ASSIGNED'') # audits db)"
      using assms by (auto simp: once_inv_def elim: marked_mono)
    moreover have "marked ((OrdID o1, OrdUserID o1, gid, days) # grants db) ''SUBSCRIPTION_ASSIGNED''
        ((OrdID o1, ''SUBSCRIPTION_ASSIGNED'') # audits db)"
      by (rule marked_Cons [where as = "audits db"]) (use assms new in \<open>auto simp: once_inv_def\<close>)
    ultimately show ?thesis by (auto simp: once_inv_def)
  qed
  with assms show ?thesis
    by (auto simp: ensurePaymentSubscriptionAssigned_def written_def split: option.splits)
qed

lemma claimed_audits:
  assumes "tryClaimAffiliateRebateAudit i db = Some db1"
  shows "(i, ''AFFILIATE_REBATE_APPLIED'') \<notin> set (audits db)"
    and "rebates db1 = rebates db" and "grants db1 = grants db"
    and "set (audits (updateClaimedAffiliateRebateAudit i a db1)) = insert (i, a) (set (audits db))"
proof -
  have db1: "db1 = db\<lparr>audits := (i, ''AFFILIATE_REBATE_APPLIED'') # audits db\<rparr>"
    and new: "(i, ''AFFILIATE_REBATE_APPLIED'') \<notin> set (audits db)"
    using assms by (auto simp: tryClaimAffiliateRebateAudit_def hasAuditLog_def split: if_splits)
  have "update_rows (\<lambda>a. a = (i, ''AFFILIATE_REBATE_APPLIED'')) (\<lambda>_. (i, a)) (audits db) = audits db"
    using new unfolding update_rows_def by (intro map_idI) auto
  then show "set (audits (updateClaimedAffiliateRebateAudit i a db1)) = insert (i, a) (set (audits db))"
    unfolding db1 by (simp add: updateClaimedAffiliateRebateAudit_def update_rows_def)
  show "(i, ''AFFILIATE_REBATE_APPLIED'') \<notin> set (audits db)" by (rule new)
  show "rebates db1 = rebates db" "grants db1 = grants db" unfolding db1 by simp_all
qed

lemma once_rebate:
  assumes inv: "once_inv db"
  shows "once_inv (snd (applyAffiliateRebateForOrder e o1 lease action db))"
proof -
  let ?i = "OrdID o1"
  have audit: "once_inv (writeAuditLog ok i a db')" if "once_inv db'" for ok i a db'
    using once_inv_le [OF that] by simp
  have "once_inv (updateClaimedAffiliateRebateAudit ?i ''AFFILIATE_REBATE_SKIPPED'' db1)"
    and "once_inv (updateClaimedAffiliateRebateAudit ?i ''AFFILIATE_REBATE_APPLIED'' (db1\<lparr>rebates := (?i, x) # rebates db1\<rparr>))"
    if "tryClaimAffiliateRebateAudit ?i db = Some db1" for db1 x
  proof -
    note c = claimed_audits [OF that]
    have u: "rebates (updateClaimedAffiliateRebateAudit ?i a d) = rebates d" "grants (updateClaimedAffiliateRebateAudit ?i a d) = grants d"
      "audits (updateClaimedAffiliateRebateAudit ?i a (d\<lparr>rebates := r\<rparr>)) = audits (updateClaimedAffiliateRebateAudit ?i a d)"
      "rebates (d\<lparr>rebates := r\<rparr>) = r" "grants (d\<lparr>rebates := r\<rparr>) = grants d" for a d r
      by (simp_all add: updateClaimedAffiliateRebateAudit_def)
    show "once_inv (updateClaimedAffiliateRebateAudit ?i ''AFFILIATE_REBATE_APPLIED'' (db1\<lparr>rebates := (?i, x) # rebates db1\<rparr>))"
      unfolding once_inv_def u c(2,3)
      by (intro conjI, rule marked_Cons [where as = "audits db"])
        (use inv c in \<open>auto simp: once_inv_def elim: marked_mono\<close>)
    show "once_inv (updateClaimedAffiliateRebateAudit ?i ''AFFILIATE_REBATE_SKIPPED'' db1)"
      unfolding once_inv_def u c(2,3) using inv c by (auto simp: once_inv_def elim: marked_mono)
  qed
  then show ?thesis
    using inv audit by (auto simp: applyAffiliateRebateForOrder_def Let_def written_def split: option.splits)
qed

lemmas handler_defs = HandlePaymentNotification_def confirmPayment_def toPaid_def alreadyProcessed_def
  executeFulfillment_def rejectUnsupportedOrderType_def ExecuteBalanceFulfillment_def ExecuteSubscriptionFulfillment_def
  acquirePaymentFulfillmentLease_def leaseRefused_def reloadLease_def doBalance_def redeemLookup_def redeemReread_def
  doSub_def markCompleted_def checkCompleted_def markFailed_def RetryFulfillment_def CancelOrder_def expireOrder_def
  VerifyOrderByOutTradeNo_def checkPaidWithOptions_def persistTradeNo_def cancelWrite_def invokeFailed_def

lemma once_step: "once_inv db \<Longrightarrow> once_inv (snd (worker_step e w db))"
proof (cases w)
  case (AtAssign o1 lease)
  then show "once_inv db \<Longrightarrow> ?thesis" by (simp add: once_assign)
next
  case (AtRebate o1 lease action)
  then show "once_inv db \<Longrightarrow> ?thesis" by (simp add: once_rebate)
next
  case (AtCreateCode o1 lease)
  then show "once_inv db \<Longrightarrow> ?thesis"
    by (metis (no_types, lifting) once_inv_le once_le_CreateCode createPaymentCode_def worker_step.simps(13) prod.case_eq_if snd_conv)
next
  case (AtRedeemTx caller userID rc)
  then show "once_inv db \<Longrightarrow> ?thesis"
    by (auto simp: redeemCommit_def intro: once_inv_le [OF _ once_le_written] once_le_redeemTx split: option.splits)
qed (auto simp: handler_defs Let_def intro!: once_inv_le [of db] split: option.splits list.splits gofloat.splits
    order_status.splits redeemAction.splits provider_answer.splits)


text \<open>A run keeps what every worker step and every change by label keeps.\<close>

lemma pay_run_keeps:
  assumes worker: "\<And>e w db. P db \<Longrightarrow> P (snd (worker_step e w db))"
    and order: "\<And>e req db. P db \<Longrightarrow> P (createOrderInTx e req db)"
    and code: "\<And>x now c db. P db \<Longrightarrow> P (snd (CreateCode x now c db))"
    and rows: "\<And>cs db. P db \<Longrightarrow> P (db\<lparr>codes := cs\<rparr>)"
    and refund: "\<And>p f db. P db \<Longrightarrow> P (update_orders p f db)"
  shows "P (wdb s) \<Longrightarrow> P (wdb (pay_run ls s))"
proof (induction ls arbitrary: s)
  case (Cons l ls)
  have "P (wdb (pay_step l s))"
    using Cons.prems worker [of "wdb s"] order code rows refund
    by (cases l) (auto split: prod.splits, (metis snd_conv)+)
  with Cons.IH show ?case by simp
qed simp

lemma once_createOrder: "once_inv db \<Longrightarrow> once_inv (createOrderInTx e req db)"
  by (simp add: createOrderInTx_def Let_def written_def once_inv_def)

lemma once_CreateCode: "once_inv db \<Longrightarrow> once_inv (snd (CreateCode x now c db))"
  by (erule once_inv_le) simp

lemma once_codes: "once_inv db \<Longrightarrow> once_inv (db\<lparr>codes := cs\<rparr>)"
  by (simp add: once_inv_def)

lemma once_orders: "once_inv db \<Longrightarrow> once_inv (update_orders p f db)"
  by (simp add: once_inv_def update_orders_def)

lemmas once_run = pay_run_keeps [where P = once_inv, OF once_step once_createOrder once_CreateCode once_codes once_orders]

subsection \<open>Balances\<close>

definition credit_sum :: "int \<Rightarrow> (gostring \<times> int \<times> real) list \<Rightarrow> real" where
  "credit_sum u cs = sum_list (map (\<lambda>c. snd (snd c)) (filter (\<lambda>c. fst (snd c) = u) cs))"

definition no_charges :: "pay_db \<Rightarrow> bool" where
  "no_charges db \<longleftrightarrow> (\<forall>c \<in> set (credits db). 0 \<le> snd (snd c))"

definition books_inv :: "(int \<Rightarrow> real option) \<Rightarrow> pay_db \<Rightarrow> bool" where
  "books_inv users db \<longleftrightarrow>
     (no_charges db \<longrightarrow> (\<forall>u. balances db u = map_option (\<lambda>b. b + credit_sum u (credits db)) (users u)))"

lemma books_same: "books_inv users db \<Longrightarrow> balances db' = balances db \<Longrightarrow> credits db' = credits db \<Longrightarrow> books_inv users db'"
  by (simp add: books_inv_def no_charges_def)

lemma books_fields [simp]:
  "balances (writeAuditLog ok i a db) = balances db" "credits (writeAuditLog ok i a db) = credits db"
  "balances (update_orders p f db) = balances db" "credits (update_orders p f db) = credits db"
  "balances (assignForOrder o1 gid days db) = balances db" "credits (assignForOrder o1 gid days db) = credits db"
  "balances (updateClaimedAffiliateRebateAudit i a db) = balances db"
  "credits (updateClaimedAffiliateRebateAudit i a db) = credits db"
  "balances (snd (CreateCode x now c db)) = balances db" "credits (snd (CreateCode x now c db)) = credits db"
  by (auto simp: writeAuditLog_def update_orders_def assignForOrder_def updateClaimedAffiliateRebateAudit_def
      CreateCode_def insertCode_def written_def Let_def split: option.splits if_splits)

lemma books_redeemTx:
  assumes inv: "books_inv users db" and tx: "redeemTx u rc db = Some db'"
  shows "books_inv users db'"
proof -
  have step: "balances db' = balances db \<and> credits db' = credits db \<or>
      credits db' = (RcCode rc, u, RcValue rc) # credits db \<and>
      (RcValue rc < 0 \<or> (\<exists>b. balances db u = Some b \<and> balances db' = (balances db)(u \<mapsto> b + RcValue rc)))"
    using tx by (auto simp: redeemTx_def Use_def UpdateBalance_def ApplyRedeemBalanceAdjustment_def
        split: option.splits if_splits)
  show ?thesis
  proof (cases "no_charges db'")
    case True
    then have "no_charges db" and "RcValue rc < 0 \<Longrightarrow> credits db' \<noteq> (RcCode rc, u, RcValue rc) # credits db"
      using step by (auto simp: no_charges_def)
    with step inv show ?thesis by (auto simp: books_inv_def credit_sum_def)
  qed (simp add: books_inv_def)
qed

lemma books_step: "books_inv users db \<Longrightarrow> books_inv users (snd (worker_step e w db))"
proof (cases w)
  case (AtRedeemTx caller userID rc)
  then show "books_inv users db \<Longrightarrow> ?thesis"
    by (auto simp: redeemCommit_def written_def books_redeemTx split: option.splits)
next
  case (AtCreateCode o1 lease)
  then show "books_inv users db \<Longrightarrow> ?thesis"
    by (auto simp: createPaymentCode_def split_def Let_def elim!: books_same)
qed (auto simp: handler_defs written_def ensurePaymentSubscriptionAssigned_def assignmentTx_def
    applyAffiliateRebateForOrder_def tryClaimAffiliateRebateAudit_def Let_def elim!: books_same
    split: option.splits list.splits gofloat.splits order_status.splits redeemAction.splits provider_answer.splits)

lemma books_createOrder: "books_inv users db \<Longrightarrow> books_inv users (createOrderInTx e req db)"
  by (erule books_same) (simp_all add: createOrderInTx_def Let_def written_def)

lemma books_CreateCode: "books_inv users db \<Longrightarrow> books_inv users (snd (CreateCode x now c db))"
  by (erule books_same) simp_all

lemma books_codes: "books_inv users db \<Longrightarrow> books_inv users (db\<lparr>codes := cs\<rparr>)"
  by (erule books_same) simp_all

lemma books_orders: "books_inv users db \<Longrightarrow> books_inv users (update_orders p f db)"
  by (erule books_same) simp_all

lemma books_run:
  assumes "books_inv users (wdb s)"
  shows "books_inv users (wdb (pay_run ls s))"
  using books_step books_createOrder books_CreateCode books_codes books_orders assms
  by (rule pay_run_keeps [where P = "books_inv users"])

subsection \<open>Properties\<close>

definition demo_env :: "gotime \<Rightarrow> pay_env" where
  "demo_env t = \<lparr>env_now = t, env_db = DbOk, env_audit = True, env_lock = True, env_group_active = True, env_assign = True,
     env_cache = True, env_affiliate = True, env_rebate = Some 1, env_registry_key = [], env_instance_key = ''alipay'',
     env_provider_key = ''alipay'', env_query = QueryUnpaid, env_requery = QueryUnpaid, env_round = (\<lambda>_ x. x)\<rparr>"

definition demo_order :: PaymentOrder where
  "demo_order = \<lparr>OrdID = 0, OrdUserID = 7, OrdAmount = 10, OrdPayAmount = 70, OrdBonusAmount = 0, OrdRechargeCode = [],
     OrdOutTradeNo = ''sub2_x'', OrdPaymentType = ''alipay'', OrdPaymentTradeNo = [], OrdOrderType = OrderTypeBalance,
     OrdSubscriptionGroupID = None, OrdSubscriptionDays = None, OrdProviderKey = None, OrdProviderSnapshot = None,
     OrdStatus = OrderStatusPending, OrdExpiresAt = 0, OrdPaidAt = None, OrdUpdatedAt = 0, OrdRefundAmount = 0,
     OrdForceRefund = False\<rparr>"

definition demo_notification :: PaymentNotification where
  "demo_notification = \<lparr>NTradeNo = ''T'', NOrderID = ''sub2_x'', NAmount = Finite 70, NStatus = ''success'', NMetadata = []\<rparr>"

definition demo_users :: "int \<Rightarrow> real option" where
  "demo_users = [7 \<mapsto> 5]"

definition demo_pay :: "pay_label list" where
  "demo_pay = [NewOrder (demo_env 1000) demo_order, Start 0 (AtNotify demo_notification ''alipay'')] @
     replicate 16 (Run 0 (demo_env 2000))"

lemma pay_run_inv:
  assumes "careful_run ls (pay_start users)"
  shows "pay_inv (wdb (pay_run ls (pay_start users)))"
  using pay_run_ok [OF pay_start_ok assms] by (simp add: world_ok_def)

lemma distinct_fst_once: "distinct (map fst cs) \<Longrightarrow> length (filter (\<lambda>c. fst c = x) cs) \<le> Suc 0"
proof (induction cs)
  case (Cons c cs)
  moreover have "filter (\<lambda>c. fst c = x) cs = []" if "fst c = x" "fst c \<notin> fst ` set cs"
    using that by (metis (mono_tags, lifting) filter_False imageI)
  ultimately show ?case by auto
qed simp

lemma credited_confirmed:
  assumes inv: "pay_inv db" and ok: "order_ok db o1" and c: "OrdRechargeCode o1 \<in> fst ` set (credits db)"
  shows "OrdID o1 \<in> set (confirmed db)"
proof -
  obtain r where r: "r \<in> set (codes db)" "RcCode r = OrdRechargeCode o1"
    using inv c unfolding pay_inv_def by (metis imageE)
  obtain t where t: "OrdRechargeCode o1 = rechargeCode (OrdID o1) t" using ok by (auto simp: order_ok_def)
  have "code_ok db r" using inv r(1) by (simp add: pay_inv_def)
  then obtain i u k where i: "(i, u, RcValue r, RcCode r, k) \<in> cores db" "i \<in> set (confirmed db)"
    using r(2) t by (auto simp: code_ok_def)
  then obtain q where q: "q \<in> set (orders db)" "order_core q = (i, u, RcValue r, RcCode r, k)" by (auto simp: cores_def)
  then have "order_ok db q" using inv by (simp add: pay_inv_def)
  then have "i = OrdID o1" using q(2) r(2) t by (auto simp: order_ok_def order_core_def)
  with i show ?thesis by simp
qed


definition demo_done :: pay_world where "demo_done = pay_run demo_pay (pay_start demo_users)"

lemma demo_run:
  "careful_run demo_pay (pay_start demo_users)"
  "map (\<lambda>r. (OrdID r, OrdStatus r, OrdRechargeCode r)) (orders (wdb demo_done)) = [(1, OrderStatusCompleted, ''PAY-1-1000'')]"
  "credits (wdb demo_done) = [(''PAY-1-1000'', 7, 10)]"
  "confirmed (wdb demo_done) = [1]" "rebates (wdb demo_done) = [(1, 1)]"
  "balances (wdb demo_done) 7 = Some 15"
  by code_simp+



lemma demo_paid: "map (\<lambda>r. (OrdID r, OrdStatus r, OrdPaidAt r)) (orders (wdb (pay_run demo_pay (pay_start demo_users))))
    = [(1, OrderStatusCompleted, Some 2000)]"
  by code_simp


text \<open>Whatever happens, each order gives its inviter at most one rebate and its user at most one subscription term: the audit rows, unique per order and action, are claimed in the transaction that gives.\<close>

theorem rebate_and_subscription_once:
  "distinct (map fst (rebates (wdb (pay_run ls (pay_start users))))) \<and>
   distinct (map fst (grants (wdb (pay_run ls (pay_start users)))))"
  using once_run [of "pay_start users" ls] by (simp add: once_inv_def marked_def pay_start_def)

text \<open>As long as no credited code has a negative value, every balance is what the user had plus the sum of the credits recorded for the user: no failure between marking a code and crediting it loses or repeats an amount.\<close>

theorem balances_are_credits:
  assumes "no_charges (wdb (pay_run ls (pay_start users)))"
  shows "balances (wdb (pay_run ls (pay_start users))) u =
         map_option (\<lambda>b. b + credit_sum u (credits (wdb (pay_run ls (pay_start users))))) (users u)"
proof -
  have "books_inv users (wdb (pay_start users))"
    by (auto simp: books_inv_def pay_start_def credit_sum_def map_option.identity option.map_ident)
  from books_run [OF this, of ls] assms show ?thesis by (simp add: books_inv_def)
qed

theorem balances_are_credits_witness:
  "balances (wdb (pay_run demo_pay (pay_start demo_users))) 7 = Some 15"
proof -
  have c: "credits (wdb (pay_run demo_pay (pay_start demo_users))) = [(''PAY-1-1000'', 7, 10)]"
    using demo_run(3) by (simp add: demo_done_def)
  then have "no_charges (wdb (pay_run demo_pay (pay_start demo_users)))" by (simp add: no_charges_def)
  from balances_are_credits [OF this, of 7] show ?thesis using c by (simp add: credit_sum_def demo_users_def)
qed

definition demo_delete :: "pay_label list" where
  "demo_delete = [NewOrder (demo_env 1000) demo_order, Start 0 (AtNotify demo_notification ''alipay'')] @
     replicate 16 (Run 0 ((demo_env 2000)\<lparr>env_rebate := None\<rparr>)) @ [DeleteCode 1, Start 1 (AtRetry 1)] @
     replicate 16 (Run 1 (demo_env 9000))"

text \<open>The action of administrators that deletes a code looks neither at its status nor at its order. An order whose rebate failed after the credit is FAILED with a used code; when the code is deleted and the order retried, the user is credited a second time.\<close>

theorem deleted_code_credited_twice:
  "credits (wdb (pay_run demo_delete (pay_start demo_users))) = [(''PAY-1-1000'', 7, 10), (''PAY-1-1000'', 7, 10)] \<and>
   balances (wdb (pay_run demo_delete (pay_start demo_users))) 7 = Some 25 \<and>
   \<not> careful_run demo_delete (pay_start demo_users)"
  by code_simp

end
