(* ===== verification/PaymentProgress.thy ===== *)
theory PaymentProgress
  imports PaymentClaims
begin

text \<open>
  A retry of a paid balance order that meets no failure completes the order: the steps one after
  the other, from any state that a run can reach.
\<close>

fun solo :: "nat \<Rightarrow> pay_env \<Rightarrow> pay_worker \<times> pay_db \<Rightarrow> pay_worker \<times> pay_db" where
  "solo 0 e p = p"
| "solo (Suc n) e p = solo n e (worker_step e (fst p) (snd p))"

definition smooth :: "pay_env \<Rightarrow> bool" where
  "smooth e \<longleftrightarrow> env_db e = DbOk \<and> env_lock e \<and> env_rebate e \<noteq> None"

definition usableCode :: "pay_env \<Rightarrow> pay_db \<Rightarrow> PaymentOrder \<Rightarrow> bool" where
  "usableCode e db o1 \<longleftrightarrow>
     (case GetByCode db (OrdRechargeCode o1) of
        None \<Rightarrow> True
      | Some rc \<Rightarrow> CanUse rc (env_now e) \<and> RcUsedBy rc = None \<or>
                   RcStatus rc = StatusUsed \<and> RcUsedBy rc = Some (OrdUserID o1))"

lemma solo_add: "solo (m + n) e p = solo n e (solo m e p)"
  by (induction m arbitrary: p) simp_all

lemma solo_Done [simp]: "solo n e (Done b, db) = (Done b, db)"
  by (induction n) simp_all

lemma solo_reach: "solo m e p = (Done b, db) \<Longrightarrow> m \<le> n \<Longrightarrow> solo n e p = (Done b, db)"
  using solo_add [of m "n - m" e p] by simp

text \<open>The tables of orders after an update, and after a step that only writes an audit row.\<close>

lemma find_map_keep: "(\<And>r. OrdID (g r) = OrdID r) \<Longrightarrow>
    find (\<lambda>r. OrdID r = oid) (map g rows) = map_option g (find (\<lambda>r. OrdID r = oid) rows)"
  by (induction rows) auto

lemma getOrder_update:
  assumes "\<And>r. OrdID (f r) = OrdID r"
  shows "getOrder (update_orders p f db) oid = map_option (\<lambda>r. if p r then f r else r) (getOrder db oid)"
  unfolding getOrder_def update_orders_def update_rows_def
  by (simp add: find_map_keep [of "\<lambda>r. if p r then f r else r"] assms)

lemma getOrder_same [simp]:
  "getOrder (writeAuditLog ok i a db) oid = getOrder db oid"
  "getOrder (db\<lparr>rebates := x\<rparr>) oid = getOrder db oid"
  "getOrder (db\<lparr>audits := y\<rparr>) oid = getOrder db oid"
  "getOrder (updateClaimedAffiliateRebateAudit i a db) oid = getOrder db oid"
  by (simp_all add: getOrder_def writeAuditLog_def updateClaimedAffiliateRebateAudit_def)

lemma matching_getOrder: "getOrder db oid = Some r \<Longrightarrow> p r \<Longrightarrow> matching_orders p db"
  by (auto simp: matching_orders_def list_ex_iff dest: getOrderD)

lemma audit_fields [simp]:
  "codes (writeAuditLog ok i a db) = codes db" "code_seq (writeAuditLog ok i a db) = code_seq db"
  "codes (update_orders p f db) = codes db" "code_seq (update_orders p f db) = code_seq db"
  by (simp_all add: writeAuditLog_def update_orders_def)

lemma GetByCode_same [simp]:
  "GetByCode (writeAuditLog ok i a db) c = GetByCode db c" "GetByCode (update_orders p f db) c = GetByCode db c"
  by (simp_all add: GetByCode_def)

subsection \<open>The phases of a retry\<close>

definition leased :: "pay_env \<Rightarrow> PaymentOrder \<Rightarrow> pay_db \<Rightarrow> bool" where
  "leased e o1 db \<longleftrightarrow> (\<exists>r. getOrder db (OrdID o1) = Some r \<and> OrdStatus r = OrderStatusRecharging \<and>
     OrdUpdatedAt r = truncMicro (env_now e))"

lemma retry_takes_lease:
  assumes e: "smooth e" and o1: "getOrder db oid = Some o1" and ty: "OrdOrderType o1 = OrderTypeBalance"
    and paid: "OrdPaidAt o1 \<noteq> None" and free: "canBeLeased oid (truncMicro (env_now e) - paymentFulfillmentLeaseDuration) o1"
  shows "\<exists>db1. solo 5 e (AtRetry oid, db) = (AtLookup o1 (truncMicro (env_now e)), db1) \<and> leased e o1 db1 \<and>
     codes db1 = codes db \<and> balances db1 = balances db \<and> credits db1 = credits db"
proof -
  let ?a = "writeAuditLog (env_audit e) oid ''RECHARGE_RETRY'' db"
  let ?p = "canBeLeased oid (truncMicro (env_now e) - paymentFulfillmentLeaseDuration)"
  let ?f = "\<lambda>r. r\<lparr>OrdStatus := OrderStatusRecharging, OrdUpdatedAt := truncMicro (env_now e)\<rparr>"
  have oid: "OrdID o1 = oid" using getOrderD [OF o1] by simp
  have st: "fulfillable (OrdStatus o1)" "\<not> psIsRefundStatus (OrdStatus o1)" "OrdStatus o1 \<noteq> OrderStatusCompleted"
    using free by (auto simp: canBeLeased_def fulfillable_def)
  have row: "getOrder (update_orders ?p ?f ?a) oid = Some (?f o1)"
    using getOrder_update [of ?f ?p ?a oid] o1 free by simp
  have "matching_orders ?p ?a" by (rule matching_getOrder [of _ oid o1]) (use o1 free in simp_all)
  then have "solo 5 e (AtRetry oid, db) = (AtLookup o1 (truncMicro (env_now e)), update_orders ?p ?f ?a)"
    using e o1 ty paid st oid row
    by (simp add: eval_nat_numeral RetryFulfillment_def smooth_def reply_ok_def isSupportedPaymentOrderType_def
        executeFulfillment_def ExecuteBalanceFulfillment_def acquirePaymentFulfillmentLease_def written_def
        reloadLease_def Let_def OrderTypeBalance_def OrderTypeSubscription_def del: psIsRefundStatus_def)
  moreover have "leased e o1 (update_orders ?p ?f ?a)" using row oid by (simp add: leased_def)
  ultimately show ?thesis by auto
qed

text \<open>From the credit on: the rebate and the completion.\<close>

lemma rebate_step:
  assumes "smooth e"
  shows "fst (applyAffiliateRebateForOrder e o1 lease action db) = AtComplete o1 lease action \<and>
     getOrder (snd (applyAffiliateRebateForOrder e o1 lease action db)) i = getOrder db i \<and>
     credits (snd (applyAffiliateRebateForOrder e o1 lease action db)) = credits db"
  using assms
  by (auto simp: applyAffiliateRebateForOrder_def smooth_def reply_ok_def tryClaimAffiliateRebateAudit_def Let_def
        split: option.splits)

lemma rebate_completes:
  assumes e: "smooth e" and held: "leased e o1 db"
  shows "\<exists>db'. solo 2 e (AtRebate o1 (truncMicro (env_now e)) action, db) = (Done True, db') \<and>
     (\<exists>r. getOrder db' (OrdID o1) = Some r \<and> OrdStatus r = OrderStatusCompleted) \<and> credits db' = credits db"
proof -
  obtain db1 where db1: "worker_step e (AtRebate o1 (truncMicro (env_now e)) action) db = (AtComplete o1 (truncMicro (env_now e)) action, db1)"
      "getOrder db1 (OrdID o1) = getOrder db (OrdID o1)" "credits db1 = credits db"
    using rebate_step [OF e] by (metis prod.collapse worker_step.simps(19))
  let ?p = "heldBy (OrdID o1) (truncMicro (env_now e))"
  let ?f = "\<lambda>r. r\<lparr>OrdStatus := OrderStatusCompleted, OrdUpdatedAt := env_now e\<rparr>"
  obtain r where r: "getOrder db1 (OrdID o1) = Some r" "?p r"
    using held db1(2) by (auto simp: leased_def heldBy_def dest: getOrderD)
  then have "matching_orders ?p db1" by (rule matching_getOrder)
  moreover have "getOrder (update_orders ?p ?f db1) (OrdID o1) = Some (?f r)"
    using getOrder_update [of ?f ?p db1] r by simp
  ultimately show ?thesis
    using e db1 by (auto simp: eval_nat_numeral markCompleted_def smooth_def reply_ok_def written_def Let_def)
qed


text \<open>Redeeming a usable code of the order.\<close>

lemma list_ex_update: "(\<And>r. RcID (f r) = RcID r) \<Longrightarrow>
    list_ex (\<lambda>r. RcID r = i) (update_rows p f rows) = list_ex (\<lambda>r. RcID r = i) rows"
  by (induction rows) (auto simp: update_rows_def)

lemma RedeemTypeBalance_not: "RedeemTypeBalance \<noteq> RedeemTypeSubscription"
  by (simp add: RedeemTypeBalance_def RedeemTypeSubscription_def)

lemma redeem_succeeds:
  assumes e: "smooth e" and rc: "GetByCode db (OrdRechargeCode o1) = Some rc" "CanUse rc (env_now e)"
    and ty: "RcType rc = RedeemTypeBalance" and user: "balances db (OrdUserID o1) \<noteq> None" and held: "leased e o1 db"
  shows "\<exists>db'. solo 3 e (AtRedeem (ForOrder o1 lease) (OrdUserID o1) (OrdRechargeCode o1), db) =
       (AtRebate o1 lease ''RECHARGE_SUCCESS'', db') \<and> leased e o1 db' \<and>
     (OrdRechargeCode o1, OrdUserID o1, RcValue rc) \<in> set (credits db')"
proof -
  have row: "rc \<in> set (codes db)" "RcCode rc = OrdRechargeCode o1" using GetByCodeD [OF rc(1)] by simp_all
  have unused: "RcStatus rc = StatusUnused" "\<not> IsExpiredAt rc (env_now e)" using rc(2) by (simp_all add: CanUse_def)
  let ?codes = "update_rows (unusedRow (RcID rc)) (\<lambda>r. r\<lparr>RcStatus := StatusUsed, RcUsedBy := Some (OrdUserID o1)\<rparr>) (codes db)"
  have unusedrow: "list_ex (unusedRow (RcID rc)) (codes db)" using row(1) unused(1) by (auto simp: list_ex_iff unusedRow_def)
  obtain y where y: "balances db (OrdUserID o1) = Some y" using user by blast
  define b where "b = (balances db)(OrdUserID o1 \<mapsto> (if RcValue rc < 0 then max (y + RcValue rc) 0 else y + RcValue rc))"
  have tx: "redeemTx (OrdUserID o1) rc db =
      Some (db\<lparr>codes := ?codes, balances := b, credits := (OrdRechargeCode o1, OrdUserID o1, RcValue rc) # credits db\<rparr>)"
    using ty y row(2) unusedrow
    by (simp add: redeemTx_def Use_def UpdateBalance_def ApplyRedeemBalanceAdjustment_def b_def)
  have "list_ex (\<lambda>r. RcID r = RcID rc) ?codes"
    using row(1) by (subst list_ex_update) (auto simp: list_ex_iff)
  moreover have "leased e o1 (db\<lparr>codes := c, balances := b, credits := cr\<rparr>)" for c cr
    using held by (simp add: leased_def getOrder_def)
  ultimately show ?thesis
    using e rc unused ty y tx RedeemTypeBalance_not
    by (simp add: eval_nat_numeral redeemLookup_def redeemCommit_def redeemReread_def smooth_def reply_ok_def written_def)
qed

lemma create_succeeds:
  assumes e: "smooth e" and none: "GetByCode db (OrdRechargeCode o1) = None"
    and code: "OrdRechargeCode o1 = rechargeCode i t" and amount: "OrdAmount o1 \<noteq> 0" and held: "leased e o1 db"
  shows "\<exists>db'. worker_step e (AtCreateCode o1 lease) db =
       (AtRedeem (ForOrder o1 lease) (OrdUserID o1) (OrdRechargeCode o1), db') \<and>
     GetByCode db' (OrdRechargeCode o1) = Some ((paymentCode o1)\<lparr>RcID := code_seq db\<rparr>) \<and>
     leased e o1 db' \<and> balances db' = balances db"
proof -
  have "\<not> list_ex (\<lambda>r. RcCode r = OrdRechargeCode o1) (codes db)"
    using none by (auto simp: GetByCode_def list_ex_iff find_None_iff)
  moreover have "trim_space (OrdRechargeCode o1) = OrdRechargeCode o1" "OrdRechargeCode o1 \<noteq> []"
    using code by (simp_all add: rechargeCode_def [of i t, symmetric], simp add: rechargeCode_def)
  ultimately show ?thesis
    using e amount held
    by (simp add: createPaymentCode_def CreateCode_def insertCode_def paymentCode_def IsExpiredAt_def Let_def
        smooth_def reply_ok_def written_def GetByCode_def leased_def getOrder_def)
qed

lemma lookup_leads_to_credit:
  assumes e: "smooth e" and inv: "pay_inv db0" and known: "known_order db0 o1"
    and ty: "OrdOrderType o1 = OrderTypeBalance" and codes: "codes db = codes db0" "credits db = credits db0"
    and user: "balances db (OrdUserID o1) \<noteq> None" and usable: "usableCode e db o1" and held: "leased e o1 db"
  shows "\<exists>n db'. n \<le> 5 \<and> solo n e (AtLookup o1 lease, db) = (AtRebate o1 lease ''RECHARGE_SUCCESS'', db') \<and>
     leased e o1 db' \<and> (OrdRechargeCode o1, OrdUserID o1, OrdAmount o1) \<in> set (credits db')"
proof (cases "GetByCode db (OrdRechargeCode o1)")
  case None
  obtain t where "OrdRechargeCode o1 = rechargeCode (OrdID o1) t" "OrdAmount o1 \<noteq> 0"
    using known_order_row [OF inv known] by blast
  from create_succeeds [OF e None this held, of lease]
  obtain db2 where db2: "worker_step e (AtCreateCode o1 lease) db =
        (AtRedeem (ForOrder o1 lease) (OrdUserID o1) (OrdRechargeCode o1), db2)"
      "GetByCode db2 (OrdRechargeCode o1) = Some ((paymentCode o1)\<lparr>RcID := code_seq db\<rparr>)" "leased e o1 db2"
      "balances db2 = balances db" by blast
  have "CanUse ((paymentCode o1)\<lparr>RcID := code_seq db\<rparr>) (env_now e)"
    by (simp add: CanUse_def IsExpiredAt_def paymentCode_def)
  from redeem_succeeds [OF e db2(2) this _ _ db2(3), of lease] user db2(4)
  obtain db3 where db3: "solo 3 e (AtRedeem (ForOrder o1 lease) (OrdUserID o1) (OrdRechargeCode o1), db2) =
        (AtRebate o1 lease ''RECHARGE_SUCCESS'', db3)" "leased e o1 db3"
      "(OrdRechargeCode o1, OrdUserID o1, OrdAmount o1) \<in> set (credits db3)" by (auto simp: paymentCode_def)
  have "solo 1 e (AtLookup o1 lease, db) = (AtCreateCode o1 lease, db)"
    using e None by (simp add: doBalance_def resolveRedeemAction_def smooth_def reply_ok_def)
  then have "solo 5 e (AtLookup o1 lease, db) = (AtRebate o1 lease ''RECHARGE_SUCCESS'', db3)"
    using db2(1) db3(1) by (simp add: eval_nat_numeral)
  with db3(2,3) show ?thesis by blast
next
  case (Some rc)
  have rc: "rc \<in> set (codes db0)" "RcCode rc = OrdRechargeCode o1" using GetByCodeD [OF Some] codes by simp_all
  have row: "RcType rc = RedeemTypeBalance" "RcValue rc = OrdAmount o1"
    using payment_code_row [OF inv rc(1) known rc(2)] by simp_all
  show ?thesis
  proof (cases "IsUsed rc")
    case True
    then have by_user: "RcUsedBy rc = Some (OrdUserID o1)" using usable Some by (auto simp: usableCode_def CanUse_def IsUsed_def)
    have "code_ok db0 rc" using inv rc(1) by (simp add: pay_inv_def)
    then have "(OrdRechargeCode o1, OrdUserID o1, OrdAmount o1) \<in> set (credits db)"
      using True by_user row rc(2) codes(2) by (auto simp: code_ok_def IsUsed_def)
    moreover have "solo 1 e (AtLookup o1 lease, db) = (AtRebate o1 lease ''RECHARGE_SUCCESS'', db)"
      using e Some True by_user row rc(2)
      by (simp add: doBalance_def resolveRedeemAction_def smooth_def reply_ok_def validatePaymentRedeemCode_def IsUsed_def)
    ultimately show ?thesis using held by (intro exI [of _ 1] exI [of _ db]) simp
  next
    case False
    then have use: "CanUse rc (env_now e)" "RcUsedBy rc = None"
      using usable Some by (auto simp: usableCode_def IsUsed_def)
    from redeem_succeeds [OF e Some use(1) row(1) user held, of lease] row(2)
    obtain db3 where db3: "solo 3 e (AtRedeem (ForOrder o1 lease) (OrdUserID o1) (OrdRechargeCode o1), db) =
          (AtRebate o1 lease ''RECHARGE_SUCCESS'', db3)" "leased e o1 db3"
        "(OrdRechargeCode o1, OrdUserID o1, OrdAmount o1) \<in> set (credits db3)" by auto
    have "solo 1 e (AtLookup o1 lease, db) = (AtRedeem (ForOrder o1 lease) (OrdUserID o1) (OrdRechargeCode o1), db)"
      using e Some False use row rc(2)
      by (simp add: doBalance_def resolveRedeemAction_def smooth_def reply_ok_def validatePaymentRedeemCode_def IsUsed_def CanUse_def)
    then have "solo (1 + 3) e (AtLookup o1 lease, db) = (AtRebate o1 lease ''RECHARGE_SUCCESS'', db3)"
      unfolding solo_add using db3(1) by simp
    with db3(2,3) show ?thesis by (intro exI [of _ "1 + 3"] exI [of _ db3]) simp
  qed
qed



text \<open>An order whose rebate failed after its credit.\<close>

definition demo_failed :: "pay_label list" where
  "demo_failed = [NewOrder (demo_env 1000) demo_order, Start 0 (AtNotify demo_notification ''alipay'')] @
     replicate 16 (Run 0 ((demo_env 2000)\<lparr>env_rebate := None\<rparr>))"

lemma demo_failed_run:
  "careful_run demo_failed (pay_start demo_users)"
  "map_option (\<lambda>r. (OrdOrderType r, OrdPaidAt r, OrdStatus r, OrdUserID r, OrdRechargeCode r))
     (getOrder (wdb (pay_run demo_failed (pay_start demo_users))) 1)
     = Some (OrderTypeBalance, Some 2000, OrderStatusFailed, 7, ''PAY-1-1000'')"
  "balances (wdb (pay_run demo_failed (pay_start demo_users))) 7 = Some 15"
  "map_option (\<lambda>r. (RcStatus r, RcUsedBy r)) (GetByCode (wdb (pay_run demo_failed (pay_start demo_users))) ''PAY-1-1000'')
     = Some (StatusUsed, Some 7)"
  by code_simp+


end
