(* ===== verification/Refunds.thy ===== *)
theory Refunds
  imports PaymentProgress
begin

text \<open>
  Refunds of payment orders: \<open>service/payment_refund.go\<close>, with the deduction of
  \<open>repository/user_repo.go\<close>.

  As for the other payment workers, a statement or a transaction is one step, with an outcome, and
  workers interleave at steps. What the provider instance of an order allows, what the gateway
  answers and what the subscription service answers are part of the environment of a step. A
  gateway error that comes with a pending response counts as that response, as in \<open>gwRefund\<close>; the
  provider of an order is its key with the metadata of its merchant.
  \<open>held\<close> records which deductions are outstanding; no operation reads it.
\<close>

subsection \<open>Plans, answers and the state\<close>

datatype deduction_type = DeductionTypeBalance | DeductionTypeSubscription | DeductionTypeNone

record RefundPlan =
  PlOrder :: PaymentOrder
  PlRefundAmount :: real
  PlGatewayAmount :: real
  PlForce :: bool
  PlDeductionType :: deduction_type
  PlBalanceToDeduct :: real
  PlSubDaysToDeduct :: int
  PlSubscriptionID :: int
  PlDeductionHeld :: bool

record refundPendingAuditDetail =
  DtRefundID :: gostring
  DtRefundAmount :: real
  DtForce :: bool
  DtDeductionRollbackOK :: bool
  DtDeductionHeld :: bool
  DtDeductionType :: deduction_type
  DtBalanceDeducted :: real
  DtSubDaysDeducted :: int
  DtSubscriptionID :: int

datatype instance_answer = InstanceError | NoInstance | Instance bool bool
datatype gateway_answer = GatewayError | GatewayResponse gostring gostring
datatype extend_answer = ExtendOk | ExtendWouldExpire | ExtendError

record refund_env =
  re_pay :: pay_env
  re_instance :: instance_answer
  re_provider :: "(gostring \<times> (gostring, gostring) gomap) option"
  re_gateway :: gateway_answer
  re_subscription :: "int option"
  re_extend :: extend_answer
  re_revoke :: bool
  re_audit_read :: bool
  re_return :: bool

record refund_db =
  rdb :: pay_db
  pendings :: "(int \<times> refundPendingAuditDetail) list"
  held :: "(int \<times> real) list"
  heldDays :: "(int \<times> int) list"
  gatewayRefunds :: "int list"

definition re_ok :: "refund_env \<Rightarrow> bool" where "re_ok e \<longleftrightarrow> reply_ok (env_db (re_pay e))"
definition re_now :: "refund_env \<Rightarrow> gotime" where "re_now e = env_now (re_pay e)"

definition re_write :: "refund_env \<Rightarrow> refund_db \<Rightarrow> refund_db \<Rightarrow> refund_db" where
  "re_write e = written (env_db (re_pay e))"

definition re_audit :: "refund_env \<Rightarrow> int \<Rightarrow> gostring \<Rightarrow> refund_db \<Rightarrow> refund_db" where
  "re_audit e oid action s = s\<lparr>rdb := writeAuditLog (env_audit (re_pay e)) oid action (rdb s)\<rparr>"

definition set_orders :: "(PaymentOrder \<Rightarrow> bool) \<Rightarrow> (PaymentOrder \<Rightarrow> PaymentOrder) \<Rightarrow> refund_db \<Rightarrow> refund_db" where
  "set_orders p f s = s\<lparr>rdb := update_orders p f (rdb s)\<rparr>"

definition planID :: "RefundPlan \<Rightarrow> int" where "planID p = OrdID (PlOrder p)"

datatype refund_worker =
  RfRequest int int
| RfRequestBalance PaymentOrder
| RfRequestWrite PaymentOrder
| RfPrepare int gofloat bool bool
| RfPrepDeduct RefundPlan
| RfExecute RefundPlan
| RfDeduct RefundPlan
| RfDeductNow RefundPlan
| RfDeductDays RefundPlan
| RfDeductDaysNow RefundPlan
| RfGateway RefundPlan
| RfRollback RefundPlan
| RfRestore RefundPlan bool
| RfFailed RefundPlan
| RfMarkOk RefundPlan
| RfMarkPending RefundPlan gostring
| RfQuery int
| RfQueryDetail PaymentOrder
| RfQueryGateway PaymentOrder "refundPendingAuditDetail option"
| RfFinalizeOk RefundPlan
| RfFinalizeFailed RefundPlan
| RfFinalizeNoReturn RefundPlan
| RfDone bool

subsection \<open>Requesting and preparing\<close>

definition validateRefundRequest :: "refund_env \<Rightarrow> int \<Rightarrow> int \<Rightarrow> refund_db \<Rightarrow> PaymentOrder option" where
  "validateRefundRequest e oid uid s =
     (case (if re_ok e then getOrder (rdb s) oid else None) of
        None \<Rightarrow> None
      | Some o1 \<Rightarrow>
          if OrdUserID o1 \<noteq> uid then None
          else if OrdOrderType o1 \<noteq> OrderTypeBalance then None
          else if OrdStatus o1 \<noteq> OrderStatusCompleted then None
          else (case re_instance e of Instance _ allowed \<Rightarrow> if allowed then Some o1 else None | _ \<Rightarrow> None))"

definition RequestRefund :: "refund_env \<Rightarrow> int \<Rightarrow> int \<Rightarrow> refund_db \<Rightarrow> refund_worker \<times> refund_db" where
  "RequestRefund e oid uid s =
     (case validateRefundRequest e oid uid s of None \<Rightarrow> (RfDone False, s) | Some o1 \<Rightarrow> (RfRequestBalance o1, s))"

definition requestBalance :: "refund_env \<Rightarrow> PaymentOrder \<Rightarrow> refund_db \<Rightarrow> refund_worker \<times> refund_db" where
  "requestBalance e o1 s =
     (case (if re_ok e then balances (rdb s) (OrdUserID o1) else None) of
        None \<Rightarrow> (RfDone False, s)
      | Some b \<Rightarrow> (if b < OrdAmount o1 then RfDone False else RfRequestWrite o1, s))"

definition requestRow :: "PaymentOrder \<Rightarrow> PaymentOrder \<Rightarrow> bool" where
  "requestRow o1 r \<longleftrightarrow> OrdID r = OrdID o1 \<and> OrdUserID r = OrdUserID o1 \<and> OrdStatus r = OrderStatusCompleted \<and>
     OrdOrderType r = OrderTypeBalance"

definition requestWrite :: "refund_env \<Rightarrow> PaymentOrder \<Rightarrow> refund_db \<Rightarrow> refund_worker \<times> refund_db" where
  "requestWrite e o1 s =
     (let s' = re_write e s (set_orders (requestRow o1)
                 (\<lambda>r. r\<lparr>OrdStatus := OrderStatusRefundRequested, OrdRefundAmount := OrdAmount o1, OrdUpdatedAt := re_now e\<rparr>) s)
      in if \<not> re_ok e \<or> \<not> matching_orders (requestRow o1) (rdb s) then (RfDone False, s')
         else (RfDone True, re_audit e (OrdID o1) ''REFUND_REQUESTED'' s'))"

definition refundable :: "order_status \<Rightarrow> bool" where
  "refundable st \<longleftrightarrow> st \<in> {OrderStatusCompleted, OrderStatusRefundRequested, OrderStatusRefundFailed}"

text \<open>\<open>prepDeduct\<close> for a subscription order; \<open>None\<close> asks for \<open>force\<close>.\<close>

definition prepDeductSubscription :: "refund_env \<Rightarrow> RefundPlan \<Rightarrow> bool \<Rightarrow> RefundPlan option" where
  "prepDeductSubscription e p force =
     (let p1 = p\<lparr>PlDeductionType := DeductionTypeSubscription\<rparr>
      in case (OrdSubscriptionGroupID (PlOrder p), OrdSubscriptionDays (PlOrder p)) of
        (Some gid, Some days) \<Rightarrow>
          (case re_subscription e of
             Some i \<Rightarrow> Some (p1\<lparr>PlSubDaysToDeduct := days, PlSubscriptionID := i\<rparr>)
           | None \<Rightarrow> if force then Some (p1\<lparr>PlSubDaysToDeduct := days\<rparr>) else None)
      | _ \<Rightarrow> Some p1)"

definition newRefundPlan :: "refund_env \<Rightarrow> PaymentOrder \<Rightarrow> real \<Rightarrow> bool \<Rightarrow> RefundPlan" where
  "newRefundPlan e o1 amount force =
     \<lparr>PlOrder = o1, PlRefundAmount = amount,
      PlGatewayAmount = calculateGatewayRefundAmount (env_round (re_pay e)) (OrdAmount o1)
        (OrdPayAmount o1) amount (PaymentOrderCurrency o1),
      PlForce = force, PlDeductionType = DeductionTypeNone, PlBalanceToDeduct = 0,
      PlSubDaysToDeduct = 0, PlSubscriptionID = 0, PlDeductionHeld = False\<rparr>"

definition PrepareRefund :: "refund_env \<Rightarrow> int \<Rightarrow> gofloat \<Rightarrow> bool \<Rightarrow> bool \<Rightarrow> refund_db \<Rightarrow> refund_worker \<times> refund_db" where
  "PrepareRefund e oid amt force deduct s =
     (case (if re_ok e then getOrder (rdb s) oid else None) of
        None \<Rightarrow> (RfDone False, s)
      | Some o1 \<Rightarrow>
          if \<not> refundable (OrdStatus o1) then (RfDone False, s)
          else (case (re_instance e, amt) of
              (Instance True _, Finite given) \<Rightarrow>
                let amount = (if given \<le> 0 then OrdAmount o1 else given);
                    currency = PaymentOrderCurrency o1
                in if amount - OrdAmount o1 > paymentAmountToleranceForCurrency currency then (RfDone False, s)
                   else let p = newRefundPlan e o1 amount force
                        in if \<not> deduct then (RfExecute p, s)
                           else if OrdOrderType o1 = OrderTypeSubscription
                           then (case prepDeductSubscription e p force of
                                   Some p' \<Rightarrow> (RfExecute p', s)
                                 | None \<Rightarrow> (RfDone False, s))
                           else (RfPrepDeduct p, s)
            | _ \<Rightarrow> (RfDone False, s)))"

definition prepDeductBalance :: "refund_env \<Rightarrow> RefundPlan \<Rightarrow> refund_db \<Rightarrow> refund_worker \<times> refund_db" where
  "prepDeductBalance e p s =
     (case (if re_ok e then balances (rdb s) (OrdUserID (PlOrder p)) else None) of
        None \<Rightarrow> (if PlForce p then RfExecute p else RfDone False, s)
      | Some b \<Rightarrow>
          if b < PlRefundAmount p \<and> \<not> PlForce p then (RfDone False, s)
          else (RfExecute (p\<lparr>PlDeductionType := DeductionTypeBalance,
                             PlBalanceToDeduct := max 0 (min (PlRefundAmount p) b)\<rparr>), s))"

subsection \<open>Executing\<close>

definition claimRow :: "int \<Rightarrow> PaymentOrder \<Rightarrow> bool" where
  "claimRow oid r \<longleftrightarrow> OrdID r = oid \<and> refundable (OrdStatus r)"

definition setStatus :: "refund_env \<Rightarrow> order_status \<Rightarrow> PaymentOrder \<Rightarrow> PaymentOrder" where
  "setStatus e st r = r\<lparr>OrdStatus := st, OrdUpdatedAt := re_now e\<rparr>"

definition ExecuteRefund :: "refund_env \<Rightarrow> RefundPlan \<Rightarrow> refund_db \<Rightarrow> refund_worker \<times> refund_db" where
  "ExecuteRefund e p s =
     (let s' = re_write e s (set_orders (claimRow (planID p)) (setStatus e OrderStatusRefunding) s)
      in if \<not> re_ok e \<or> \<not> matching_orders (claimRow (planID p)) (rdb s) then (RfDone False, s')
         else if PlDeductionType p = DeductionTypeBalance \<and> PlBalanceToDeduct p > 0 then (RfDeduct p, s')
         else if PlDeductionType p = DeductionTypeSubscription \<and> PlSubDaysToDeduct p > 0 \<and> PlSubscriptionID p > 0
         then (RfDeductDays p, s')
         else (RfGateway p, s'))"

text \<open>\<open>DeductAvailableBalance\<close>: the amount deducted and the new tables.\<close>

definition DeductAvailableBalance :: "int \<Rightarrow> real \<Rightarrow> pay_db \<Rightarrow> (real \<times> pay_db) option" where
  "DeductAvailableBalance i amount db =
     (if amount < 0 then None
      else case balances db i of
        None \<Rightarrow> None
      | Some b \<Rightarrow> let d = min amount (max b 0) in Some (d, db\<lparr>balances := (balances db)(i \<mapsto> b - d)\<rparr>))"

text \<open>\<open>hasAuditLog\<close> counts a failed read as an absent row.\<close>

definition rollbackFailedBefore :: "refund_env \<Rightarrow> int \<Rightarrow> refund_db \<Rightarrow> bool" where
  "rollbackFailedBefore e oid s \<longleftrightarrow> re_audit_read e \<and> hasAuditLog (rdb s) oid ''REFUND_ROLLBACK_FAILED''"

definition checkMarker :: "refund_env \<Rightarrow> RefundPlan \<Rightarrow> refund_db \<Rightarrow> refund_worker \<times> refund_db" where
  "checkMarker e p s =
     (if rollbackFailedBefore e (planID p) s then RfGateway (p\<lparr>PlBalanceToDeduct := 0\<rparr>) else RfDeductNow p, s)"

definition deductBalance :: "refund_env \<Rightarrow> RefundPlan \<Rightarrow> refund_db \<Rightarrow> refund_worker \<times> refund_db" where
  "deductBalance e p s =
     (case DeductAvailableBalance (OrdUserID (PlOrder p)) (PlBalanceToDeduct p) (rdb s) of
        None \<Rightarrow> (RfRestore p False, s)
      | Some (d, db') \<Rightarrow>
          (if re_ok e then RfGateway (p\<lparr>PlBalanceToDeduct := d\<rparr>) else RfRestore p False,
           re_write e s (s\<lparr>rdb := db', held := (if d > 0 then (planID p, d) # held s else held s)\<rparr>)))"

text \<open>\<open>ExtendSubscription\<close> with negative days, or \<open>RevokeSubscription\<close> when it would expire.\<close>

definition takeDays :: "refund_env \<Rightarrow> bool" where
  "takeDays e \<longleftrightarrow> (case re_extend e of ExtendOk \<Rightarrow> True | ExtendWouldExpire \<Rightarrow> re_revoke e | ExtendError \<Rightarrow> False)"

definition checkMarkerDays :: "refund_env \<Rightarrow> RefundPlan \<Rightarrow> refund_db \<Rightarrow> refund_worker \<times> refund_db" where
  "checkMarkerDays e p s =
     (if rollbackFailedBefore e (planID p) s then RfGateway (p\<lparr>PlSubDaysToDeduct := 0\<rparr>) else RfDeductDaysNow p, s)"

definition deductDays :: "refund_env \<Rightarrow> RefundPlan \<Rightarrow> refund_db \<Rightarrow> refund_worker \<times> refund_db" where
  "deductDays e p s =
     (if takeDays e
      then (RfGateway p, s\<lparr>heldDays := (planID p, PlSubDaysToDeduct p) # heldDays s\<rparr>)
      else (RfRestore p False, s))"

definition ProviderStatusPending :: gostring where "ProviderStatusPending = ''pending''"
definition ProviderStatusSuccess :: gostring where "ProviderStatusSuccess = ''success''"
definition ProviderStatusFailed :: gostring where "ProviderStatusFailed = ''failed''"
definition ProviderStatusRefunded :: gostring where "ProviderStatusRefunded = ''refunded''"

definition validateRefundProviderResponse :: "gostring \<Rightarrow> bool" where
  "validateRefundProviderResponse status \<longleftrightarrow>
     trim_space status \<in> {ProviderStatusSuccess, ProviderStatusRefunded, ProviderStatusPending}"

definition finishRefund :: "RefundPlan \<Rightarrow> gostring \<Rightarrow> gostring \<Rightarrow> refund_worker" where
  "finishRefund p status refundID =
     (if \<not> validateRefundProviderResponse status then RfRollback p
      else if trim_space status = ProviderStatusPending then RfMarkPending p (trim_space refundID)
      else RfMarkOk p)"

definition gwRefund :: "refund_env \<Rightarrow> RefundPlan \<Rightarrow> refund_db \<Rightarrow> refund_worker \<times> refund_db" where
  "gwRefund e p s =
     (if OrdPaymentTradeNo (PlOrder p) = []
      then (finishRefund p ProviderStatusSuccess [], re_audit e (planID p) ''REFUND_NO_TRADE_NO'' s)
      else case re_provider e of
        None \<Rightarrow> (RfRollback p, s)
      | Some (key, identity) \<Rightarrow>
          if \<not> validateProviderSnapshotMetadata (PlOrder p) key identity
          then (RfRollback p, re_audit e (planID p) ''REFUND_PROVIDER_METADATA_MISMATCH'' s)
          else (case re_gateway e of
                  GatewayError \<Rightarrow> (RfRollback p, s)
                | GatewayResponse status refundID \<Rightarrow>
                    (finishRefund p status refundID, s\<lparr>gatewayRefunds := planID p # gatewayRefunds s\<rparr>)))"

subsection \<open>Giving back\<close>

definition returnBalance :: "RefundPlan \<Rightarrow> refund_db \<Rightarrow> refund_db option" where
  "returnBalance p s =
     (case UpdateBalance (OrdUserID (PlOrder p)) (PlBalanceToDeduct p) (rdb s) of
        None \<Rightarrow> None
      | Some db' \<Rightarrow> Some (s\<lparr>rdb := db', held := remove1 (planID p, PlBalanceToDeduct p) (held s)\<rparr>))"

definition returnDays :: "refund_env \<Rightarrow> RefundPlan \<Rightarrow> refund_db \<Rightarrow> refund_db option" where
  "returnDays e p s =
     (if re_extend e = ExtendOk
      then Some (s\<lparr>heldDays := remove1 (planID p, PlSubDaysToDeduct p) (heldDays s)\<rparr>) else None)"

text \<open>\<open>RollbackRefund\<close>, and what \<open>handleGwFail\<close> does after it: \<open>restoreStatus\<close> with an audit row, or \<open>refundFailed\<close>.\<close>

definition RollbackRefund :: "refund_env \<Rightarrow> RefundPlan \<Rightarrow> refund_db \<Rightarrow> refund_worker \<times> refund_db" where
  "RollbackRefund e p s =
     (if PlDeductionType p = DeductionTypeBalance \<and> PlBalanceToDeduct p > 0 then
        (case returnBalance p s of
           None \<Rightarrow> (RfFailed p, re_audit e (planID p) ''REFUND_ROLLBACK_FAILED'' s)
         | Some s' \<Rightarrow>
             if re_ok e then (RfRestore p True, s')
             else (RfFailed p, re_audit e (planID p) ''REFUND_ROLLBACK_FAILED'' (re_write e s s')))
      else if PlDeductionType p = DeductionTypeSubscription \<and> PlSubDaysToDeduct p > 0 \<and> PlSubscriptionID p > 0 then
        (case returnDays e p s of
           None \<Rightarrow> (RfFailed p, re_audit e (planID p) ''REFUND_ROLLBACK_FAILED'' s)
         | Some s' \<Rightarrow> (RfRestore p True, s'))
      else (RfRestore p True, s))"

definition restoreStatus :: "refund_env \<Rightarrow> RefundPlan \<Rightarrow> bool \<Rightarrow> refund_db \<Rightarrow> refund_worker \<times> refund_db" where
  "restoreStatus e p gatewayFailed s =
     (let rs = (if OrdStatus (PlOrder p) = OrderStatusRefundRequested then OrderStatusRefundRequested else OrderStatusCompleted);
          s' = re_write e s (set_orders (\<lambda>r. OrdID r = planID p) (setStatus e rs) s)
      in (RfDone False, if gatewayFailed then re_audit e (planID p) ''REFUND_GATEWAY_FAILED'' s' else s'))"

definition refundFailed :: "refund_env \<Rightarrow> RefundPlan \<Rightarrow> refund_db \<Rightarrow> refund_worker \<times> refund_db" where
  "refundFailed e p s =
     (RfDone False,
      re_audit e (planID p) ''REFUND_FAILED''
        (re_write e s (set_orders (\<lambda>r. OrdID r = planID p) (setStatus e OrderStatusRefundFailed) s)))"

subsection \<open>Recording the answer of the gateway\<close>

definition refundedStatus :: "RefundPlan \<Rightarrow> order_status" where
  "refundedStatus p = (if PlRefundAmount p < OrdAmount (PlOrder p) then OrderStatusPartiallyRefunded else OrderStatusRefunded)"

definition setRefunded :: "refund_env \<Rightarrow> RefundPlan \<Rightarrow> PaymentOrder \<Rightarrow> PaymentOrder" where
  "setRefunded e p r = r\<lparr>OrdStatus := refundedStatus p, OrdRefundAmount := PlRefundAmount p, OrdForceRefund := PlForce p,
     OrdUpdatedAt := re_now e\<rparr>"

definition markRefundOk :: "refund_env \<Rightarrow> RefundPlan \<Rightarrow> refund_db \<Rightarrow> refund_worker \<times> refund_db" where
  "markRefundOk e p s =
     (let s' = re_write e s (set_orders (\<lambda>r. OrdID r = planID p) (setRefunded e p) s)
      in if re_ok e then (RfDone True, re_audit e (planID p) ''REFUND_SUCCESS'' s') else (RfDone False, s'))"

text \<open>An audit row written inside a transaction: a row that is there makes the transaction fail.\<close>

definition createPaymentAuditLogTx :: "int \<Rightarrow> gostring \<Rightarrow> refund_db \<Rightarrow> refund_db option" where
  "createPaymentAuditLogTx oid action s =
     (if hasAuditLog (rdb s) oid action then None
      else Some (s\<lparr>rdb := (rdb s)\<lparr>audits := (oid, action) # audits (rdb s)\<rparr>\<rparr>))"

text \<open>
  The detail of a pending refund, as it is read back: a rollback flag that was left out of the JSON
  keeps its default, true.
\<close>

definition pendingDetail :: "RefundPlan \<Rightarrow> gostring \<Rightarrow> refundPendingAuditDetail" where
  "pendingDetail p refundID =
     \<lparr>DtRefundID = refundID, DtRefundAmount = PlRefundAmount p, DtForce = PlForce p, DtDeductionRollbackOK = True,
      DtDeductionHeld = True, DtDeductionType = PlDeductionType p, DtBalanceDeducted = PlBalanceToDeduct p,
      DtSubDaysDeducted = PlSubDaysToDeduct p, DtSubscriptionID = PlSubscriptionID p\<rparr>"

definition setPending :: "refund_env \<Rightarrow> RefundPlan \<Rightarrow> PaymentOrder \<Rightarrow> PaymentOrder" where
  "setPending e p r = r\<lparr>OrdStatus := OrderStatusRefundPending, OrdRefundAmount := PlRefundAmount p,
     OrdForceRefund := PlForce p, OrdUpdatedAt := re_now e\<rparr>"

definition markRefundPending :: "refund_env \<Rightarrow> RefundPlan \<Rightarrow> gostring \<Rightarrow> refund_db \<Rightarrow> refund_worker \<times> refund_db" where
  "markRefundPending e p refundID s =
     (case createPaymentAuditLogTx (planID p) ''REFUND_PENDING'' (set_orders (\<lambda>r. OrdID r = planID p) (setPending e p) s) of
        None \<Rightarrow> (RfDone False, s)
      | Some s' \<Rightarrow>
          (RfDone False, re_write e s (s'\<lparr>pendings := (planID p, pendingDetail p refundID) # pendings s'\<rparr>)))"


subsection \<open>Querying and finalizing a pending refund\<close>

definition latestRefundPendingDetail :: "int \<Rightarrow> refund_db \<Rightarrow> refundPendingAuditDetail option" where
  "latestRefundPendingDetail oid s = map_of (pendings s) oid"

definition refundFinalizePlan :: "(nat \<Rightarrow> real \<Rightarrow> real) \<Rightarrow> PaymentOrder \<Rightarrow> RefundPlan" where
  "refundFinalizePlan rnd o1 =
     \<lparr>PlOrder = o1, PlRefundAmount = OrdRefundAmount o1,
      PlGatewayAmount = calculateGatewayRefundAmount rnd (OrdAmount o1) (OrdPayAmount o1) (OrdRefundAmount o1) (PaymentOrderCurrency o1),
      PlForce = OrdForceRefund o1, PlDeductionType = DeductionTypeBalance,
      PlBalanceToDeduct = (if OrdOrderType o1 = OrderTypeBalance then OrdRefundAmount o1 else 0),
      PlSubDaysToDeduct = 0, PlSubscriptionID = 0, PlDeductionHeld = False\<rparr>"

definition applyTo :: "refundPendingAuditDetail \<Rightarrow> RefundPlan \<Rightarrow> RefundPlan" where
  "applyTo d p = p\<lparr>PlDeductionHeld := True, PlDeductionType := DtDeductionType d, PlBalanceToDeduct := DtBalanceDeducted d,
     PlSubDaysToDeduct := DtSubDaysDeducted d, PlSubscriptionID := DtSubscriptionID d\<rparr>"

definition QueryAndFinalizeRefund :: "refund_env \<Rightarrow> int \<Rightarrow> refund_db \<Rightarrow> refund_worker \<times> refund_db" where
  "QueryAndFinalizeRefund e oid s =
     (case (if re_ok e then getOrder (rdb s) oid else None) of
        None \<Rightarrow> (RfDone False, s)
      | Some o1 \<Rightarrow>
          if OrdStatus o1 \<noteq> OrderStatusRefundPending then (RfDone False, s)
          else (RfQueryDetail o1, s))"

definition queryDetail :: "refund_env \<Rightarrow> PaymentOrder \<Rightarrow> refund_db \<Rightarrow> refund_worker \<times> refund_db" where
  "queryDetail e o1 s =
     (if re_audit_read e then RfQueryGateway o1 (latestRefundPendingDetail (OrdID o1) s) else RfDone False, s)"

text \<open>The plan: from the detail, or for an order of before the details were written.\<close>

definition finalPlan :: "refund_env \<Rightarrow> PaymentOrder \<Rightarrow> refundPendingAuditDetail option \<Rightarrow> RefundPlan option" where
  "finalPlan e o1 d =
     (let plan = refundFinalizePlan (env_round (re_pay e)) o1
      in case d of
        Some detail \<Rightarrow>
          if DtDeductionHeld detail then Some (applyTo detail plan)
          else if \<not> DtDeductionRollbackOK detail then Some (plan\<lparr>PlBalanceToDeduct := 0, PlSubDaysToDeduct := 0\<rparr>)
          else if OrdOrderType o1 = OrderTypeSubscription then prepDeductSubscription e plan True
          else Some plan
      | None \<Rightarrow>
          if OrdOrderType o1 = OrderTypeSubscription then prepDeductSubscription e plan True else Some plan)"

definition queryGateway :: "refund_env \<Rightarrow> PaymentOrder \<Rightarrow> refundPendingAuditDetail option \<Rightarrow> refund_db \<Rightarrow> refund_worker \<times> refund_db" where
  "queryGateway e o1 d s =
     (case re_gateway e of
        GatewayError \<Rightarrow> (RfDone False, s)
      | GatewayResponse status refundID \<Rightarrow>
          (case finalPlan e o1 d of
             None \<Rightarrow> (RfDone False, s)
           | Some plan \<Rightarrow>
               if \<not> validateRefundProviderResponse status then (RfFinalizeFailed plan, s)
               else if trim_space status = ProviderStatusPending
               then (RfDone False, re_audit e (OrdID o1) ''REFUND_QUERY_PENDING'' s)
               else (RfFinalizeOk plan, s)))"

definition pendingRow :: "int \<Rightarrow> PaymentOrder \<Rightarrow> bool" where
  "pendingRow oid r \<longleftrightarrow> OrdID r = oid \<and> OrdStatus r = OrderStatusRefundPending"

definition applyRefundFinalDeduction :: "refund_env \<Rightarrow> RefundPlan \<Rightarrow> refund_db \<Rightarrow> refund_db option" where
  "applyRefundFinalDeduction e p s =
     (if PlDeductionHeld p then Some s
      else if PlDeductionType p = DeductionTypeBalance \<and> PlBalanceToDeduct p > 0 then
        (case DeductAvailableBalance (OrdUserID (PlOrder p)) (PlBalanceToDeduct p) (rdb s) of
           None \<Rightarrow> None
         | Some (d, db') \<Rightarrow> Some (s\<lparr>rdb := db', held := (if d > 0 then (planID p, d) # held s else held s)\<rparr>))
      else if PlDeductionType p = DeductionTypeSubscription \<and> PlSubDaysToDeduct p > 0 \<and> PlSubscriptionID p > 0 then
        (if takeDays e then Some (s\<lparr>heldDays := (planID p, PlSubDaysToDeduct p) # heldDays s\<rparr>) else None)
      else Some s)"

definition finalizePendingRefundSuccess :: "refund_env \<Rightarrow> RefundPlan \<Rightarrow> refund_db \<Rightarrow> refund_worker \<times> refund_db" where
  "finalizePendingRefundSuccess e p s =
     (if \<not> matching_orders (pendingRow (planID p)) (rdb s) then (RfDone False, s)
      else case applyRefundFinalDeduction e p (set_orders (pendingRow (planID p)) (setStatus e OrderStatusRefunding) s) of
        None \<Rightarrow> (RfDone False, s)
      | Some s1 \<Rightarrow>
          (case createPaymentAuditLogTx (planID p) ''REFUND_SUCCESS''
                  (set_orders (\<lambda>r. OrdID r = planID p) (setRefunded e p) s1) of
             None \<Rightarrow> (RfDone False, s)
           | Some s2 \<Rightarrow> (RfDone (re_ok e), re_write e s s2)))"

definition returnHeldRefundDeduction :: "refund_env \<Rightarrow> RefundPlan \<Rightarrow> refund_db \<Rightarrow> refund_db option" where
  "returnHeldRefundDeduction e p s =
     (if PlDeductionType p = DeductionTypeBalance \<and> PlBalanceToDeduct p > 0
      then (if re_return e then returnBalance p s else None)
      else if PlDeductionType p = DeductionTypeSubscription \<and> PlSubDaysToDeduct p > 0 \<and> PlSubscriptionID p > 0
      then returnDays e p s
      else Some s)"

text \<open>The transaction that gives the deduction back, and the one that only records that it could not be given back.\<close>

definition finalizeRefundFailed :: "refund_env \<Rightarrow> RefundPlan \<Rightarrow> refund_db \<Rightarrow> refund_worker \<times> refund_db" where
  "finalizeRefundFailed e p s =
     (if \<not> matching_orders (pendingRow (planID p)) (rdb s) then (RfDone False, s)
      else let s1 = set_orders (pendingRow (planID p)) (setStatus e OrderStatusRefundFailed) s
           in case (if PlDeductionHeld p then returnHeldRefundDeduction e p s1 else Some s1) of
        None \<Rightarrow> (RfFinalizeNoReturn p, s)
      | Some s2 \<Rightarrow>
          (case createPaymentAuditLogTx (planID p) ''REFUND_FAILED'' s2 of
             None \<Rightarrow> (RfDone False, s)
           | Some s3 \<Rightarrow> (RfDone False, re_write e s s3)))"

definition finalizeWithoutReturn :: "refund_env \<Rightarrow> RefundPlan \<Rightarrow> refund_db \<Rightarrow> refund_worker \<times> refund_db" where
  "finalizeWithoutReturn e p s =
     (if \<not> matching_orders (pendingRow (planID p)) (rdb s) then (RfDone False, s)
      else case createPaymentAuditLogTx (planID p) ''REFUND_ROLLBACK_FAILED''
                  (set_orders (pendingRow (planID p)) (setStatus e OrderStatusRefundFailed) s) of
        None \<Rightarrow> (RfDone False, s)
      | Some s2 \<Rightarrow>
          (case createPaymentAuditLogTx (planID p) ''REFUND_FAILED'' s2 of
             None \<Rightarrow> (RfDone False, s)
           | Some s3 \<Rightarrow> (RfDone False, re_write e s s3)))"

subsection \<open>The world of refunds\<close>

fun refund_step :: "refund_env \<Rightarrow> refund_worker \<Rightarrow> refund_db \<Rightarrow> refund_worker \<times> refund_db" where
  "refund_step e (RfRequest oid uid) s = RequestRefund e oid uid s"
| "refund_step e (RfRequestBalance o1) s = requestBalance e o1 s"
| "refund_step e (RfRequestWrite o1) s = requestWrite e o1 s"
| "refund_step e (RfPrepare oid amt force deduct) s = PrepareRefund e oid amt force deduct s"
| "refund_step e (RfPrepDeduct p) s = prepDeductBalance e p s"
| "refund_step e (RfExecute p) s = ExecuteRefund e p s"
| "refund_step e (RfDeduct p) s = checkMarker e p s"
| "refund_step e (RfDeductNow p) s = deductBalance e p s"
| "refund_step e (RfDeductDays p) s = checkMarkerDays e p s"
| "refund_step e (RfDeductDaysNow p) s = deductDays e p s"
| "refund_step e (RfGateway p) s = gwRefund e p s"
| "refund_step e (RfRollback p) s = RollbackRefund e p s"
| "refund_step e (RfRestore p gw) s = restoreStatus e p gw s"
| "refund_step e (RfFailed p) s = refundFailed e p s"
| "refund_step e (RfMarkOk p) s = markRefundOk e p s"
| "refund_step e (RfMarkPending p i) s = markRefundPending e p i s"
| "refund_step e (RfQuery oid) s = QueryAndFinalizeRefund e oid s"
| "refund_step e (RfQueryDetail o1) s = queryDetail e o1 s"
| "refund_step e (RfQueryGateway o1 d) s = queryGateway e o1 d s"
| "refund_step e (RfFinalizeOk p) s = finalizePendingRefundSuccess e p s"
| "refund_step e (RfFinalizeFailed p) s = finalizeRefundFailed e p s"
| "refund_step e (RfFinalizeNoReturn p) s = finalizeWithoutReturn e p s"
| "refund_step e (RfDone b) s = (RfDone b, s)"

record refund_world =
  fdb :: refund_db
  refunders :: "nat \<Rightarrow> refund_worker"

text \<open>\<open>Spend\<close> is any change of a balance by the rest of the program.\<close>

datatype refund_label =
  RfStart nat refund_worker
| RfRun nat refund_env
| RfCrash nat
| Spend int real

fun refund_entry :: "refund_worker \<Rightarrow> bool" where
  "refund_entry (RfRequest oid uid) = True"
| "refund_entry (RfPrepare oid amt force deduct) = True"
| "refund_entry (RfQuery oid) = True"
| "refund_entry w = False"

fun refund_world_step :: "refund_label \<Rightarrow> refund_world \<Rightarrow> refund_world" where
  "refund_world_step (RfStart i w) s =
     (if (\<exists>r. refunders s i = RfDone r) \<and> refund_entry w then s\<lparr>refunders := (refunders s)(i := w)\<rparr> else s)"
| "refund_world_step (RfRun i e) s =
     (let (w, d) = refund_step e (refunders s i) (fdb s) in s\<lparr>refunders := (refunders s)(i := w), fdb := d\<rparr>)"
| "refund_world_step (RfCrash i) s = s\<lparr>refunders := (refunders s)(i := RfDone False)\<rparr>"
| "refund_world_step (Spend u x) s =
     s\<lparr>fdb := (fdb s)\<lparr>rdb := (rdb (fdb s))\<lparr>balances :=
        (balances (rdb (fdb s)))(u := map_option (\<lambda>b. b + x) (balances (rdb (fdb s)) u))\<rparr>\<rparr>\<rparr>"

fun refund_run :: "refund_label list \<Rightarrow> refund_world \<Rightarrow> refund_world" where
  "refund_run [] s = s"
| "refund_run (l # ls) s = refund_run ls (refund_world_step l s)"

end
