(* ===== verification/RefundProofs.thy ===== *)
theory RefundProofs
  imports Refunds
begin

text \<open>
  What a refund may do to a balance: of one order at most one deduction is outstanding, and balances
  and outstanding deductions add up, whatever workers interleave, fail or die.
\<close>

subsection \<open>What is known of one order\<close>

definition heldOf :: "refund_db \<Rightarrow> int \<Rightarrow> real list" where
  "heldOf s oid = map snd (filter (\<lambda>h. fst h = oid) (held s))"

definition marker :: "refund_db \<Rightarrow> int \<Rightarrow> bool" where
  "marker s oid \<longleftrightarrow> hasAuditLog (rdb s) oid ''REFUND_ROLLBACK_FAILED''"

definition statusOf :: "refund_db \<Rightarrow> int \<Rightarrow> order_status option" where
  "statusOf s oid = map_option OrdStatus (getOrder (rdb s) oid)"

definition pend :: "refund_db \<Rightarrow> int \<Rightarrow> refundPendingAuditDetail option" where
  "pend s oid = latestRefundPendingDetail oid s"

text \<open>The deduction a plan or a detail speaks of is the outstanding one.\<close>

definition accounted :: "refund_db \<Rightarrow> int \<Rightarrow> deduction_type \<Rightarrow> real \<Rightarrow> bool" where
  "accounted s oid ty bal \<longleftrightarrow>
     (if ty = DeductionTypeBalance \<and> bal > 0 then heldOf s oid = [bal] else heldOf s oid = [] \<or> marker s oid)"

definition settled :: "refund_db \<Rightarrow> int \<Rightarrow> bool" where
  "settled s oid \<longleftrightarrow> heldOf s oid = [] \<or> marker s oid"

definition order_fact :: "refund_db \<Rightarrow> int \<Rightarrow> bool" where
  "order_fact s oid \<longleftrightarrow> length (heldOf s oid) \<le> 1 \<and>
     (pend s oid \<noteq> None \<longrightarrow> hasAuditLog (rdb s) oid ''REFUND_PENDING'') \<and>
     (\<forall>d. pend s oid = Some d \<longrightarrow> DtDeductionHeld d) \<and>
     (statusOf s oid = Some OrderStatusRefundPending \<longrightarrow>
        (\<exists>d. pend s oid = Some d \<and> accounted s oid (DtDeductionType d) (DtBalanceDeducted d))) \<and>
     (\<forall>st. statusOf s oid = Some st \<longrightarrow> refundable st \<longrightarrow> settled s oid)"

fun refund_owner :: "refund_worker \<Rightarrow> int option" where
  "refund_owner (RfDeduct p) = Some (planID p)"
| "refund_owner (RfDeductNow p) = Some (planID p)"
| "refund_owner (RfDeductDaysNow p) = Some (planID p)"
| "refund_owner (RfDeductDays p) = Some (planID p)"
| "refund_owner (RfGateway p) = Some (planID p)"
| "refund_owner (RfRollback p) = Some (planID p)"
| "refund_owner (RfRestore p gw) = Some (planID p)"
| "refund_owner (RfFailed p) = Some (planID p)"
| "refund_owner (RfMarkOk p) = Some (planID p)"
| "refund_owner (RfMarkPending p i) = Some (planID p)"
| "refund_owner w = None"

definition known_plan :: "refund_db \<Rightarrow> RefundPlan \<Rightarrow> bool" where
  "known_plan s p \<longleftrightarrow> order_core (PlOrder p) \<in> cores (rdb s)"

definition final_plan_ok :: "refund_db \<Rightarrow> RefundPlan \<Rightarrow> bool" where
  "final_plan_ok s p \<longleftrightarrow> known_plan s p \<and> PlDeductionHeld p \<and>
     (\<exists>d. pend s (planID p) = Some d \<and> PlDeductionType p = DtDeductionType d \<and> PlBalanceToDeduct p = DtBalanceDeducted d)"

fun worker_fact :: "refund_db \<Rightarrow> refund_worker \<Rightarrow> bool" where
  "worker_fact s (RfPrepDeduct p) = known_plan s p"
| "worker_fact s (RfExecute p) = known_plan s p"
| "worker_fact s (RfDeduct p) = (known_plan s p \<and> settled s (planID p) \<and> PlDeductionType p = DeductionTypeBalance)"
| "worker_fact s (RfDeductNow p) = (known_plan s p \<and> heldOf s (planID p) = [] \<and> PlDeductionType p = DeductionTypeBalance)"
| "worker_fact s (RfDeductDaysNow p) = (known_plan s p \<and> settled s (planID p) \<and> PlDeductionType p = DeductionTypeSubscription)"
| "worker_fact s (RfDeductDays p) = (known_plan s p \<and> settled s (planID p) \<and> PlDeductionType p = DeductionTypeSubscription)"
| "worker_fact s (RfGateway p) = (known_plan s p \<and> accounted s (planID p) (PlDeductionType p) (PlBalanceToDeduct p))"
| "worker_fact s (RfRollback p) = (known_plan s p \<and> accounted s (planID p) (PlDeductionType p) (PlBalanceToDeduct p))"
| "worker_fact s (RfRestore p gw) = (known_plan s p \<and> settled s (planID p))"
| "worker_fact s (RfFailed p) = (known_plan s p \<and> settled s (planID p))"
| "worker_fact s (RfMarkOk p) = known_plan s p"
| "worker_fact s (RfMarkPending p i) = (known_plan s p \<and> accounted s (planID p) (PlDeductionType p) (PlBalanceToDeduct p))"
| "worker_fact s (RfQueryDetail o1) = (order_core o1 \<in> cores (rdb s) \<and> (\<exists>d. pend s (OrdID o1) = Some d \<and> DtDeductionHeld d))"
| "worker_fact s (RfQueryGateway o1 d) = (order_core o1 \<in> cores (rdb s) \<and> d \<noteq> None \<and> d = pend s (OrdID o1) \<and>
     (\<forall>x. d = Some x \<longrightarrow> DtDeductionHeld x))"
| "worker_fact s (RfFinalizeOk p) = final_plan_ok s p"
| "worker_fact s (RfFinalizeFailed p) = final_plan_ok s p"
| "worker_fact s (RfFinalizeNoReturn p) = final_plan_ok s p"
| "worker_fact s w = True"

text \<open>The view of one order, and steps that leave it alone.\<close>

definition same_view :: "refund_db \<Rightarrow> refund_db \<Rightarrow> int \<Rightarrow> bool" where
  "same_view s s' oid \<longleftrightarrow> heldOf s' oid = heldOf s oid \<and> marker s' oid = marker s oid \<and>
     statusOf s' oid = statusOf s oid \<and> pend s' oid = pend s oid \<and>
     (hasAuditLog (rdb s) oid ''REFUND_PENDING'' \<longrightarrow> hasAuditLog (rdb s') oid ''REFUND_PENDING'')"

lemma same_view_refl [simp]: "same_view s s oid"
  by (simp add: same_view_def)

lemma order_fact_same: "order_fact s oid \<Longrightarrow> same_view s s' oid \<Longrightarrow> order_fact s' oid"
  by (auto simp: order_fact_def same_view_def accounted_def settled_def)

text \<open>A step of one worker, focused on one order.\<close>

definition focused :: "int \<Rightarrow> refund_db \<Rightarrow> refund_db \<Rightarrow> bool" where
  "focused oid s s' \<longleftrightarrow> cores (rdb s') = cores (rdb s) \<and> (\<forall>i. i \<noteq> oid \<longrightarrow> same_view s s' i) \<and>
     (\<forall>i d. pend s i = Some d \<longrightarrow> pend s' i = Some d)"

lemma worker_fact_same:
  assumes "worker_fact s w" and "cores (rdb s') = cores (rdb s)"
    and "\<And>oid. refund_owner w = Some oid \<Longrightarrow> same_view s s' oid"
    and "\<And>oid d. pend s oid = Some d \<Longrightarrow> pend s' oid = Some d"
  shows "worker_fact s' w"
  using assms
  by (cases w) (auto simp: known_plan_def final_plan_ok_def same_view_def accounted_def settled_def)


text \<open>
  What a step has to show: it changes the view of one order at most, whose facts hold after it;
  and unless the worker owns that order, the order was not being refunded by anyone.
\<close>

definition refund_good :: "refund_db \<Rightarrow> refund_worker \<Rightarrow> refund_worker \<times> refund_db \<Rightarrow> bool" where
  "refund_good s w p \<longleftrightarrow>
     (\<exists>f. focused f s (snd p) \<and> order_fact (snd p) f \<and> worker_fact (snd p) (fst p) \<and>
        map OrdID (orders (rdb (snd p))) = map OrdID (orders (rdb s)) \<and>
        (\<not> same_view s (snd p) f \<longrightarrow> refund_owner w = Some f \<or> statusOf s f \<noteq> Some OrderStatusRefunding) \<and>
        (refund_owner (fst p) \<noteq> None \<longrightarrow>
           refund_owner (fst p) = Some f \<and> statusOf (snd p) f = Some OrderStatusRefunding \<and>
           (refund_owner w = Some f \<or> statusOf s f \<noteq> Some OrderStatusRefunding)))"

definition refund_inv :: "refund_world \<Rightarrow> bool" where
  "refund_inv s \<longleftrightarrow> distinct (map OrdID (orders (rdb (fdb s)))) \<and>
     (\<forall>oid. order_fact (fdb s) oid) \<and> (\<forall>i. worker_fact (fdb s) (refunders s i)) \<and>
     (\<forall>i oid. refund_owner (refunders s i) = Some oid \<longrightarrow> statusOf (fdb s) oid = Some OrderStatusRefunding) \<and>
     (\<forall>i j oid. refund_owner (refunders s i) = Some oid \<longrightarrow> refund_owner (refunders s j) = Some oid \<longrightarrow> i = j)"

lemma refund_inv_step:
  assumes inv: "refund_inv s" and good: "refund_good (fdb s) (refunders s i) (w, d)"
  shows "refund_inv (s\<lparr>refunders := (refunders s)(i := w), fdb := d\<rparr>)"
proof -
  obtain f where foc: "focused f (fdb s) d" and of: "order_fact d f" and wf: "worker_fact d w"
    and ids: "map OrdID (orders (rdb d)) = map OrdID (orders (rdb (fdb s)))"
    and change: "\<not> same_view (fdb s) d f \<Longrightarrow> refund_owner (refunders s i) = Some f \<or> statusOf (fdb s) f \<noteq> Some OrderStatusRefunding"
    and own: "refund_owner w \<noteq> None \<Longrightarrow> refund_owner w = Some f \<and> statusOf d f = Some OrderStatusRefunding \<and>
        (refund_owner (refunders s i) = Some f \<or> statusOf (fdb s) f \<noteq> Some OrderStatusRefunding)"
    using good unfolding refund_good_def by auto
  have others: "same_view (fdb s) d oid" if "j \<noteq> i" "refund_owner (refunders s j) = Some oid" for j oid
  proof (cases "oid = f")
    case True
    have "statusOf (fdb s) f = Some OrderStatusRefunding" "refund_owner (refunders s i) \<noteq> Some f"
      using inv that True by (auto simp: refund_inv_def)
    with change True show ?thesis by blast
  next
    case False
    with foc show ?thesis by (simp add: focused_def)
  qed
  have "order_fact d oid" for oid
    using inv of foc by (cases "oid = f") (auto simp: refund_inv_def focused_def intro: order_fact_same)
  moreover have "worker_fact d (refunders s j)" if "j \<noteq> i" for j
  proof (rule worker_fact_same)
    show "worker_fact (fdb s) (refunders s j)" using inv by (simp add: refund_inv_def)
  qed (use foc that others in \<open>simp_all add: focused_def\<close>)
  moreover have "statusOf d oid = Some OrderStatusRefunding" if "j \<noteq> i" "refund_owner (refunders s j) = Some oid" for j oid
    using others [OF that] inv that by (auto simp: same_view_def refund_inv_def)
  moreover have "refund_owner w \<noteq> Some oid" if "j \<noteq> i" "refund_owner (refunders s j) = Some oid" for j oid
    using own inv that by (fastforce simp: refund_inv_def)
  ultimately show ?thesis
    using inv wf own ids by (auto simp: refund_inv_def)
qed


subsection \<open>Views after the writes of the model\<close>

definition steady :: "refund_env \<Rightarrow> bool" where
  "steady e \<longleftrightarrow> env_db (re_pay e) \<noteq> DbLostReply \<and> env_audit (re_pay e) \<and> re_audit_read e"

lemma re_write_steady: "steady e \<Longrightarrow> re_write e s s' = (if re_ok e then s' else s)"
  by (cases "env_db (re_pay e)") (simp_all add: steady_def re_write_def written_def re_ok_def reply_ok_def)

lemma view_set_orders [simp]:
  "heldOf (set_orders p f s) i = heldOf s i" "marker (set_orders p f s) i = marker s i"
  "pend (set_orders p f s) i = pend s i" "hasAuditLog (rdb (set_orders p f s)) i a = hasAuditLog (rdb s) i a"
  by (simp_all add: heldOf_def marker_def pend_def latestRefundPendingDetail_def set_orders_def hasAuditLog_def update_orders_def)

lemma status_set_orders:
  assumes "\<And>r. OrdID (f r) = OrdID r"
  shows "statusOf (set_orders p f s) i = map_option (\<lambda>r. OrdStatus (if p r then f r else r)) (getOrder (rdb s) i)"
  by (simp add: statusOf_def set_orders_def getOrder_update [OF assms] option.map_comp comp_def)

lemma keeps_core [simp]:
  "order_core (setStatus e st r) = order_core r" "order_core (setRefunded e p r) = order_core r"
  "order_core (setPending e p r) = order_core r"
  "order_core (r\<lparr>OrdStatus := st, OrdRefundAmount := x, OrdUpdatedAt := t\<rparr>) = order_core r"
  by (simp_all add: setStatus_def setRefunded_def setPending_def order_core_def)

lemma core_ID: "order_core r = order_core q \<Longrightarrow> OrdID r = OrdID q"
  by (simp add: order_core_def)

lemma cores_set_orders:
  assumes "\<And>r. order_core (f r) = order_core r"
  shows "cores (rdb (set_orders p f s)) = cores (rdb s)"
    and "map OrdID (orders (rdb (set_orders p f s))) = map OrdID (orders (rdb s))"
  using cores_update [of "rdb s" p f] assms core_ID [OF assms]
  by (simp_all add: set_orders_def update_orders_def update_rows_def)

lemma view_re_audit [simp]:
  "heldOf (re_audit e oid a s) i = heldOf s i" "statusOf (re_audit e oid a s) i = statusOf s i"
  "pend (re_audit e oid a s) i = pend s i" "cores (rdb (re_audit e oid a s)) = cores (rdb s)"
  "orders (rdb (re_audit e oid a s)) = orders (rdb s)"
  "marker (re_audit e oid a s) i \<longleftrightarrow> marker s i \<or> env_audit (re_pay e) \<and> i = oid \<and> a = ''REFUND_ROLLBACK_FAILED''"
  "hasAuditLog (rdb (re_audit e oid a s)) i b \<longleftrightarrow> hasAuditLog (rdb s) i b \<or> env_audit (re_pay e) \<and> i = oid \<and> a = b"
  by (auto simp: re_audit_def heldOf_def statusOf_def pend_def latestRefundPendingDetail_def marker_def hasAuditLog_def
      writeAuditLog_def cores_def getOrder_def)

lemma same_view_audit:
  assumes "same_view s s' i" and "a \<noteq> ''REFUND_ROLLBACK_FAILED''"
  shows "same_view s (re_audit e oid a s') i"
  using assms by (simp add: same_view_def)

lemma good_read:
  "order_fact s f \<Longrightarrow> worker_fact s w' \<Longrightarrow> refund_owner w' = None \<Longrightarrow> refund_good s w (w', s)"
  by (auto simp: refund_good_def focused_def)

text \<open>A write to the row of one order, chosen by its id and perhaps its status.\<close>

lemma good_row:
  assumes rows: "\<And>r. p r \<Longrightarrow> OrdID r = f" and core: "\<And>r. order_core (g r) = order_core r"
    and same: "\<And>i. same_view (set_orders p g s) s' i" "cores (rdb s') = cores (rdb (set_orders p g s))"
      "map OrdID (orders (rdb s')) = map OrdID (orders (rdb (set_orders p g s)))"
    and fact: "order_fact s' f" and wf: "worker_fact s' w'"
    and mine: "refund_owner w = Some f \<or> statusOf s f \<noteq> Some OrderStatusRefunding"
    and own: "refund_owner w' \<noteq> None \<Longrightarrow> refund_owner w' = Some f \<and> statusOf s' f = Some OrderStatusRefunding"
  shows "refund_good s w (w', s')"
proof -
  have "same_view s (set_orders p g s) i" if "i \<noteq> f" for i
  proof -
    have "statusOf (set_orders p g s) i = map_option (\<lambda>r. OrdStatus (if p r then g r else r)) (getOrder (rdb s) i)"
      by (rule status_set_orders) (rule core_ID [OF core])
    also have "\<dots> = statusOf s i"
      unfolding statusOf_def by (rule map_option_cong) (use rows that in \<open>auto dest: getOrderD\<close>)
    finally have "statusOf (set_orders p g s) i = statusOf s i" .
    then show ?thesis by (simp add: same_view_def)
  qed
  then have view: "same_view s s' i" if "i \<noteq> f" for i
    using same(1) [of i] that by (auto simp: same_view_def)
  have "pend s' i = pend s i" for i using same(1) [of i] by (simp add: same_view_def)
  with view same(2,3) cores_set_orders [of g p s, OF core] have "focused f s s'" by (simp add: focused_def)
  with fact wf mine own same(3) cores_set_orders(2) [of g p s, OF core] show ?thesis
    by (auto simp: refund_good_def)
qed


subsection \<open>Every step of a refund worker\<close>

lemma getOrder_Some: "r \<in> set (orders db) \<Longrightarrow> distinct (map OrdID (orders db)) \<Longrightarrow> getOrder db (OrdID r) = Some r"
proof -
  assume r: "r \<in> set (orders db)" and d: "distinct (map OrdID (orders db))"
  obtain q where q: "getOrder db (OrdID r) = Some q"
    using r by (cases "getOrder db (OrdID r)") (auto simp: getOrder_def find_None_iff)
  with getOrderD [OF q] r d show ?thesis by (auto simp: distinct_map dest: inj_onD)
qed

lemma matching_first:
  assumes "distinct (map OrdID (orders db))" and "\<And>r. q r \<Longrightarrow> OrdID r = oid" and "matching_orders q db"
  shows "\<exists>r. getOrder db oid = Some r \<and> q r"
  using assms getOrder_Some by (fastforce simp: matching_orders_def list_ex_iff)

lemma known_plan_row: "known_plan s p \<Longrightarrow> \<exists>r. getOrder (rdb s) (planID p) = Some r"
proof -
  assume "known_plan s p"
  then obtain r where r: "r \<in> set (orders (rdb s))" "OrdID r = planID p"
    by (auto simp: known_plan_def cores_def planID_def order_core_def)
  then show ?thesis by (cases "getOrder (rdb s) (planID p)") (auto simp: getOrder_def find_None_iff)
qed

lemma known_snapshot: "getOrder (rdb s) oid = Some o1 \<Longrightarrow> order_core o1 \<in> cores (rdb s) \<and> OrdID o1 = oid"
  by (auto simp: cores_def dest: getOrderD)

lemma good_readI:
  assumes "\<And>i. order_fact s i" and "snd p = s" and "refund_owner (fst p) = None" and "worker_fact s (fst p)"
  shows "refund_good s w p"
  using assms good_read [of s 0 "fst p" w] by (cases p) simp

lemma request_good:
  assumes "\<And>i. order_fact s i" shows "refund_good s w (RequestRefund e oid uid s)"
  by (rule good_readI [OF assms])
    (auto simp: RequestRefund_def split: option.splits)

lemma request_balance_good:
  assumes "\<And>i. order_fact s i" shows "refund_good s w (requestBalance e o1 s)"
  by (rule good_readI [OF assms]) (auto simp: requestBalance_def split: option.splits)

lemma prepare_good:
  assumes "\<And>i. order_fact s i" shows "refund_good s w (PrepareRefund e oid amt force deduct s)"
proof (cases "if re_ok e then getOrder (rdb s) oid else None")
  case None
  with assms show ?thesis by (intro good_readI) (simp_all add: PrepareRefund_def)
next
  case (Some o1)
  then have known: "order_core o1 \<in> cores (rdb s)" by (auto simp: cores_def dest: getOrderD split: if_splits)
  have sub: "PlOrder q = PlOrder p" if "prepDeductSubscription e p force = Some q" for p q
    using that by (auto simp: prepDeductSubscription_def Let_def split: option.splits if_splits)
  have read: "refund_good s w (w', s)"
    if "w' = RfDone False \<or> (\<exists>p. PlOrder p = o1 \<and> (w' = RfExecute p \<or> w' = RfPrepDeduct p))" for w'
    using assms good_read [of s 0 w' w] that known by (auto simp: known_plan_def)
  show ?thesis
  proof (cases "\<exists>x y. re_instance e = Instance True x \<and> amt = Finite y")
    case False
    then have "PrepareRefund e oid amt force deduct s = (RfDone False, s)"
      by (auto simp: PrepareRefund_def Some split: instance_answer.split gofloat.split bool.split)
    with read show ?thesis by simp
  next
    case True
    then obtain x y where xy: "re_instance e = Instance True x" "amt = Finite y" by blast
    have plan: "PlOrder (newRefundPlan e o1 x force) = o1" for x by (simp add: newRefundPlan_def)
    let ?r = "PrepareRefund e oid amt force deduct s"
    have "snd ?r = s \<and> (fst ?r = RfDone False \<or> (\<exists>p. PlOrder p = o1 \<and> (fst ?r = RfExecute p \<or> fst ?r = RfPrepDeduct p)))"
      using plan sub by (simp add: PrepareRefund_def Some xy Let_def split: option.split)
    then show ?thesis using read [of "fst ?r"] by (metis prod.collapse)
  qed
qed

lemma prepDeduct_good:
  assumes "\<And>i. order_fact s i" and "known_plan s p" shows "refund_good s w (prepDeductBalance e p s)"
  by (rule good_readI [OF assms(1)])
    (use assms(2) in \<open>auto simp: prepDeductBalance_def known_plan_def split: option.splits\<close>)

lemma query_good:
  assumes of: "\<And>i. order_fact s i" shows "refund_good s w (QueryAndFinalizeRefund e oid s)"
proof (rule good_readI [OF assms])
  have "worker_fact s (RfQueryDetail o1)"
    if "getOrder (rdb s) oid = Some o1" "OrdStatus o1 = OrderStatusRefundPending" for o1
    using of [of oid] known_snapshot [OF that(1)] that
    by (auto simp: order_fact_def statusOf_def)
  then show "worker_fact s (fst (QueryAndFinalizeRefund e oid s))"
    by (auto simp: QueryAndFinalizeRefund_def split: option.splits)
qed (auto simp: QueryAndFinalizeRefund_def split: option.splits)

lemma query_detail_good:
  assumes "\<And>i. order_fact s i" and "worker_fact s (RfQueryDetail o1)" shows "refund_good s w (queryDetail e o1 s)"
  by (rule good_readI [OF assms(1)]) (use assms(2) in \<open>auto simp: queryDetail_def pend_def\<close>)

lemma good_audit_step:
  assumes "\<And>i. order_fact s i" and "a \<noteq> ''REFUND_ROLLBACK_FAILED''" and "refund_owner w' = None" and "worker_fact s w'"
  shows "refund_good s w (w', re_audit e oid a s)"
proof -
  have view: "same_view s (re_audit e oid a s) i" for i by (rule same_view_audit) (use assms(2) in simp_all)
  then have pend: "pend (re_audit e oid a s) i = pend s i" for i by (simp add: same_view_def)
  have "order_fact (re_audit e oid a s) 0" by (rule order_fact_same [OF assms(1) view])
  moreover have "worker_fact (re_audit e oid a s) w'" by (rule worker_fact_same [OF assms(4)]) (use view pend in simp_all)
  ultimately show ?thesis
    using view assms(3) by (auto simp: refund_good_def focused_def intro!: exI [of _ 0])
qed

lemma finalPlan_ok:
  assumes w: "worker_fact s (RfQueryGateway o1 d)" and p: "finalPlan e o1 d = Some p"
  shows "final_plan_ok s p"
proof -
  obtain x where x: "d = Some x" "DtDeductionHeld x" "pend s (OrdID o1) = Some x" using w by (cases d) auto
  then have "p = applyTo x (refundFinalizePlan (env_round (re_pay e)) o1)" using p by (simp add: finalPlan_def)
  with w x show ?thesis
    by (simp add: final_plan_ok_def known_plan_def planID_def applyTo_def refundFinalizePlan_def)
qed

lemma query_gateway_good:
  assumes of: "\<And>i. order_fact s i" and w: "worker_fact s (RfQueryGateway o1 d)"
  shows "refund_good s w' (queryGateway e o1 d s)"
proof -
  have read: "refund_good s w' (RfDone False, s)" using of good_read [of s 0 "RfDone False" w'] by simp
  have plan: "refund_good s w' (RfFinalizeFailed p, s)" "refund_good s w' (RfFinalizeOk p, s)" if "final_plan_ok s p" for p
    using of that good_read [of s 0 "RfFinalizeFailed p" w'] good_read [of s 0 "RfFinalizeOk p" w'] by simp_all
  have audit: "refund_good s w' (RfDone False, re_audit e (OrdID o1) ''REFUND_QUERY_PENDING'' s)"
    by (rule good_audit_step [OF of]) simp_all
  show ?thesis
    using read plan [OF finalPlan_ok [OF w]] audit
    by (auto simp: queryGateway_def split: option.splits gateway_answer.splits)
qed

lemma set_orders_none: "\<not> matching_orders p (rdb s) \<Longrightarrow> set_orders p g s = s"
proof -
  assume "\<not> matching_orders p (rdb s)"
  then have "map (\<lambda>r. if p r then g r else r) (orders (rdb s)) = orders (rdb s)"
    by (intro map_idI) (auto simp: matching_orders_def list_ex_iff)
  then show ?thesis by (simp add: set_orders_def update_orders_def update_rows_def)
qed

lemma request_write_good:
  assumes e: "steady e" and dist: "distinct (map OrdID (orders (rdb s)))" and of: "\<And>i. order_fact s i"
  shows "refund_good s w (requestWrite e o1 s)"
proof (cases "re_ok e \<and> matching_orders (requestRow o1) (rdb s)")
  case False
  with e of good_read [of s 0 "RfDone False" w] show ?thesis
    by (auto simp: requestWrite_def Let_def re_write_steady set_orders_none)
next
  case True
  let ?g = "\<lambda>r. r\<lparr>OrdStatus := OrderStatusRefundRequested, OrdRefundAmount := OrdAmount o1, OrdUpdatedAt := re_now e\<rparr>"
  let ?s = "set_orders (requestRow o1) ?g s"
  obtain r where r: "getOrder (rdb s) (OrdID o1) = Some r" "requestRow o1 r"
    using matching_first [OF dist, of "requestRow o1" "OrdID o1"] True by (auto simp: requestRow_def)
  have st: "statusOf s (OrdID o1) = Some OrderStatusCompleted" using r by (simp add: statusOf_def requestRow_def)
  have st': "statusOf ?s (OrdID o1) = Some OrderStatusRefundRequested"
    using r by (subst status_set_orders) auto
  have "order_fact ?s (OrdID o1)"
    using of [of "OrdID o1"] st st' by (auto simp: order_fact_def settled_def refundable_def)
  moreover have view: "same_view ?s (re_audit e (OrdID o1) ''REFUND_REQUESTED'' ?s) i" for i
    by (rule same_view_audit) simp_all
  ultimately have "refund_good s w (RfDone True, re_audit e (OrdID o1) ''REFUND_REQUESTED'' ?s)"
    by (intro good_row [where p = "requestRow o1" and g = ?g and f = "OrdID o1"])
      (auto simp: requestRow_def st intro: order_fact_same)
  with True e show ?thesis by (simp add: requestWrite_def Let_def re_write_steady)
qed


text \<open>The claim: an order is refunded by one worker at a time.\<close>

lemma claim_good:
  assumes e: "steady e" and dist: "distinct (map OrdID (orders (rdb s)))" and of: "\<And>i. order_fact s i"
    and known: "known_plan s p"
  shows "refund_good s w (ExecuteRefund e p s)"
proof (cases "re_ok e \<and> matching_orders (claimRow (planID p)) (rdb s)")
  case False
  with e of good_read [of s 0 "RfDone False" w] show ?thesis
    by (auto simp: ExecuteRefund_def Let_def re_write_steady set_orders_none)
next
  case True
  let ?s = "set_orders (claimRow (planID p)) (setStatus e OrderStatusRefunding) s"
  obtain r where r: "getOrder (rdb s) (planID p) = Some r" "claimRow (planID p) r"
    using matching_first [OF dist, of "claimRow (planID p)" "planID p"] True by (auto simp: claimRow_def)
  have st: "\<exists>st. statusOf s (planID p) = Some st \<and> refundable st" using r by (simp add: statusOf_def claimRow_def)
  have st': "statusOf ?s (planID p) = Some OrderStatusRefunding"
    using r by (subst status_set_orders) (auto simp: setStatus_def)
  have free: "settled s (planID p)" using of [of "planID p"] st by (auto simp: order_fact_def)
  then have free': "settled ?s (planID p)" by (simp add: settled_def)
  have fact: "order_fact ?s (planID p)" using of [of "planID p"] st' by (auto simp: order_fact_def refundable_def)
  have known': "known_plan ?s p" using known by (simp add: known_plan_def cores_set_orders)
  have step: "refund_good s w (w', ?s)" if "worker_fact ?s w'" "refund_owner w' = Some (planID p)" for w'
    by (rule good_row [where p = "claimRow (planID p)" and g = "setStatus e OrderStatusRefunding" and f = "planID p"])
      (use that st st' fact in \<open>auto simp: claimRow_def refundable_def\<close>)
  show ?thesis
    using True e free' known' by (auto simp: ExecuteRefund_def Let_def re_write_steady accounted_def settled_def intro!: step)
qed

text \<open>Steps of the worker that owns the order: the row keeps its status.\<close>

lemma owner_good:
  assumes same: "\<And>i. i \<noteq> f \<Longrightarrow> same_view s s' i" and pend: "\<And>i. pend s' i = pend s i"
    and rows: "orders (rdb s') = orders (rdb s)"
    and own: "refund_owner w = Some f" and st: "statusOf s f = Some OrderStatusRefunding"
    and len: "length (heldOf s' f) \<le> 1" and aud: "hasAuditLog (rdb s) f ''REFUND_PENDING'' \<Longrightarrow> hasAuditLog (rdb s') f ''REFUND_PENDING''"
    and of: "order_fact s f" and wf: "worker_fact s' w'" and next_owner: "refund_owner w' \<in> {None, Some f}"
  shows "refund_good s w (w', s')"
proof -
  have st': "statusOf s' f = Some OrderStatusRefunding" using st rows by (simp add: statusOf_def getOrder_def)
  have "order_fact s' f"
    using of st' len aud pend [of f] by (auto simp: order_fact_def refundable_def)
  moreover have "focused f s s'" using same pend rows by (simp add: focused_def cores_def)
  ultimately show ?thesis
    using wf own next_owner rows st' by (auto simp: refund_good_def)
qed

lemma heldOf_update [simp]:
  "heldOf (s\<lparr>rdb := d, held := h\<rparr>) i = map snd (filter (\<lambda>x. fst x = i) h)"
  "heldOf (s\<lparr>heldDays := hds\<rparr>) i = heldOf s i" "heldOf (s\<lparr>gatewayRefunds := g\<rparr>) i = heldOf s i"
  "pend (s\<lparr>rdb := d, held := h\<rparr>) i = pend s i" "pend (s\<lparr>heldDays := hds\<rparr>) i = pend s i"
  "pend (s\<lparr>gatewayRefunds := g\<rparr>) i = pend s i"
  "marker (s\<lparr>heldDays := hds\<rparr>) i = marker s i" "marker (s\<lparr>gatewayRefunds := g\<rparr>) i = marker s i"
  "statusOf (s\<lparr>heldDays := hds\<rparr>) i = statusOf s i" "statusOf (s\<lparr>gatewayRefunds := g\<rparr>) i = statusOf s i"
  by (simp_all add: heldOf_def pend_def latestRefundPendingDetail_def marker_def statusOf_def)

text \<open>A step that only moves money: the tables of orders and audits stay.\<close>

lemma same_view_money:
  assumes "orders d = orders (rdb s)" "audits d = audits (rdb s)" "filter (\<lambda>x. fst x = i) h = filter (\<lambda>x. fst x = i) (held s)"
  shows "same_view s (s\<lparr>rdb := d, held := h\<rparr>) i"
  using assms by (simp add: same_view_def heldOf_def marker_def hasAuditLog_def statusOf_def getOrder_def)

lemma marker_money: "audits d = audits (rdb s) \<Longrightarrow> marker (s\<lparr>rdb := d, held := h\<rparr>) i = marker s i"
  by (simp add: marker_def hasAuditLog_def)

lemma keep_good:
  assumes "order_fact s (planID p)" and "statusOf s (planID p) = Some OrderStatusRefunding"
    and "refund_owner w = Some (planID p)" and "worker_fact s w'" and "refund_owner w' \<in> {None, Some (planID p)}"
  shows "refund_good s w (w', s)"
  by (rule owner_good [where f = "planID p"]) (use assms in \<open>simp_all add: order_fact_def\<close>)

text \<open>The marker is read before the deduction; nobody else can set it in between.\<close>

lemma marker_good:
  assumes e: "steady e" and of: "\<And>i. order_fact s i" and st: "statusOf s (planID p) = Some OrderStatusRefunding"
    and wf: "worker_fact s (RfDeduct p)"
  shows "refund_good s (RfDeduct p) (checkMarker e p s)"
proof -
  have keep: "refund_good s (RfDeduct p) (w', s)" if "worker_fact s w'" "refund_owner w' = Some (planID p)" for w'
    by (rule keep_good [where p = p]) (use that st of in simp_all)
  have known: "known_plan s p" and free: "settled s (planID p)" and ty: "PlDeductionType p = DeductionTypeBalance" using wf by simp_all
  have "rollbackFailedBefore e (planID p) s \<longleftrightarrow> marker s (planID p)"
    using e by (simp add: rollbackFailedBefore_def marker_def steady_def)
  then show ?thesis
    using keep [of "RfGateway (p\<lparr>PlBalanceToDeduct := 0\<rparr>)"] keep [of "RfDeductNow p"] known free ty
    by (auto simp: checkMarker_def known_plan_def planID_def accounted_def settled_def)
qed

lemma deduct_good:
  assumes e: "steady e" and of: "\<And>i. order_fact s i" and st: "statusOf s (planID p) = Some OrderStatusRefunding"
    and wf: "worker_fact s (RfDeductNow p)"
  shows "refund_good s (RfDeductNow p) (deductBalance e p s)"
proof -
  have known: "known_plan s p" and none: "heldOf s (planID p) = []" and ty: "PlDeductionType p = DeductionTypeBalance" using wf by simp_all
  have restore: "refund_good s (RfDeductNow p) (RfRestore p False, s)"
    by (rule keep_good [where p = p]) (use st of known none in \<open>simp_all add: settled_def\<close>)
  show ?thesis
  proof (cases "DeductAvailableBalance (OrdUserID (PlOrder p)) (PlBalanceToDeduct p) (rdb s)")
    case None
    with restore show ?thesis by (simp add: deductBalance_def)
  next
    case (Some x)
    obtain d db' where x: "x = (d, db')" by (cases x)
    then have db': "orders db' = orders (rdb s)" "audits db' = audits (rdb s)" "cores db' = cores (rdb s)"
      using Some by (auto simp: DeductAvailableBalance_def Let_def cores_def split: option.splits if_splits)
    let ?h = "if d > 0 then (planID p, d) # held s else held s"
    let ?s = "s\<lparr>rdb := db', held := ?h\<rparr>"
    have held: "heldOf ?s (planID p) = (if d > 0 then [d] else [])"
      using none by (simp add: heldOf_def)
    have "refund_good s (RfDeductNow p) (RfGateway (p\<lparr>PlBalanceToDeduct := d\<rparr>), ?s)"
    proof (rule owner_good [where f = "planID p"])
      show "same_view s ?s i" if "i \<noteq> planID p" for i
        by (rule same_view_money) (use db' that in simp_all)
      show "worker_fact ?s (RfGateway (p\<lparr>PlBalanceToDeduct := d\<rparr>))"
      proof -
        have "accounted ?s (planID p) DeductionTypeBalance d" unfolding accounted_def held by simp
        moreover have "known_plan ?s p" using known db'(3) by (simp add: known_plan_def)
        ultimately show ?thesis using ty by (simp only: worker_fact.simps) (simp add: known_plan_def planID_def)
      qed
    qed (use st of db' held in \<open>simp_all add: hasAuditLog_def planID_def\<close>)
    then show ?thesis
      using Some x e restore by (simp add: deductBalance_def re_write_steady)
  qed
qed

lemma days_good:
  assumes e: "steady e" and of: "\<And>i. order_fact s i" and st: "statusOf s (planID p) = Some OrderStatusRefunding"
  shows "worker_fact s (RfDeductDays p) \<Longrightarrow> refund_good s (RfDeductDays p) (checkMarkerDays e p s)"
    and "worker_fact s (RfDeductDaysNow p) \<Longrightarrow> refund_good s (RfDeductDaysNow p) (deductDays e p s)"
proof -
  have sub: "accounted s i DeductionTypeSubscription x = settled s i" for s i x by (simp add: accounted_def settled_def)
  have keep: "refund_good s w (w', s)"
    if "worker_fact s w'" "refund_owner w' = Some (planID p)" "refund_owner w = Some (planID p)" for w w'
    by (rule keep_good [where p = p]) (use that st of in simp_all)
  show "worker_fact s (RfDeductDays p) \<Longrightarrow> refund_good s (RfDeductDays p) (checkMarkerDays e p s)"
    using keep [of "RfGateway (p\<lparr>PlSubDaysToDeduct := 0\<rparr>)" "RfDeductDays p"] keep [of "RfDeductDaysNow p" "RfDeductDays p"]
    by (auto simp: checkMarkerDays_def sub known_plan_def planID_def)
  assume wf: "worker_fact s (RfDeductDaysNow p)"
  have "refund_good s (RfDeductDaysNow p) (RfGateway p, s\<lparr>heldDays := hds\<rparr>)" for hds
    by (rule owner_good [where f = "planID p"])
      (use st of [of "planID p"] wf in \<open>simp_all add: order_fact_def same_view_def sub known_plan_def settled_def\<close>)
  then show "refund_good s (RfDeductDaysNow p) (deductDays e p s)"
    using keep [of "RfRestore p False" "RfDeductDaysNow p"] wf by (simp add: deductDays_def)
qed

lemma gateway_good:
  assumes e: "steady e" and of: "\<And>i. order_fact s i" and st: "statusOf s (planID p) = Some OrderStatusRefunding"
    and wf: "worker_fact s (RfGateway p)"
  shows "refund_good s (RfGateway p) (gwRefund e p s)"
proof -
  have known: "known_plan s p" and acc: "accounted s (planID p) (PlDeductionType p) (PlBalanceToDeduct p)" using wf by simp_all
  have len: "length (heldOf s (planID p)) \<le> 1" using of [of "planID p"] by (simp add: order_fact_def)
  have finish: "worker_fact t (finishRefund p x i) \<and> refund_owner (finishRefund p x i) = Some (planID p)"
    if "worker_fact t (RfRollback p)" for t x i
    using that by (simp add: finishRefund_def)
  let ?s = "s\<lparr>gatewayRefunds := planID p # gatewayRefunds s\<rparr>"
  have "worker_fact ?s (RfRollback p)" using known acc by (simp add: known_plan_def accounted_def)
  then have sent: "refund_good s (RfGateway p) (finishRefund p x i, ?s)" for x i
    by (intro owner_good [where f = "planID p"]) (use st of len finish in \<open>simp_all add: same_view_def\<close>)
  have keep: "refund_good s (RfGateway p) (RfRollback p, s)"
    by (rule keep_good [where p = p]) (use st of known acc in simp_all)
  have audit: "refund_good s (RfGateway p) (w', re_audit e (planID p) a s)"
    if a: "a \<noteq> ''REFUND_ROLLBACK_FAILED''" and w: "w' = RfRollback p \<or> w' = finishRefund p x i" for w' a x i
  proof -
    have "worker_fact (re_audit e (planID p) a s) (RfRollback p)"
      using known acc a by (simp add: known_plan_def accounted_def)
    with finish w have "worker_fact (re_audit e (planID p) a s) w'" "refund_owner w' = Some (planID p)" by auto
    then show ?thesis
      by (intro owner_good [where f = "planID p"]) (use st of len a in \<open>simp_all add: same_view_def\<close>)
  qed
  show ?thesis
    using keep sent audit [of "''REFUND_NO_TRADE_NO''" "finishRefund p ProviderStatusSuccess []" ProviderStatusSuccess "[]"]
      audit [of "''REFUND_PROVIDER_METADATA_MISMATCH''" "RfRollback p"]
    by (simp add: gwRefund_def split: gateway_answer.split option.split)
qed

lemma remove1_filter: "filter (\<lambda>h. fst h = f) hs = [x] \<Longrightarrow> filter (\<lambda>h. fst h = i) (remove1 x hs) = (if i = f then [] else filter (\<lambda>h. fst h = i) hs)"
proof -
  assume one: "filter (\<lambda>h. fst h = f) hs = [x]"
  then have "x \<in> set (filter (\<lambda>h. fst h = f) hs)" by simp
  then have f: "fst x = f" by simp
  have "filter (\<lambda>h. fst h = i) (remove1 x hs) = remove1 x (filter (\<lambda>h. fst h = i) hs)" by (simp add: filter_remove1)
  then show ?thesis using one f by (cases "i = f") (simp_all add: remove1_idem)
qed

lemma heldOf_one: "heldOf s f = [b] \<Longrightarrow> filter (\<lambda>h. fst h = f) (held s) = [(f, b)]"
  unfolding heldOf_def by (auto simp: map_eq_Cons_conv filter_eq_Cons_iff)

text \<open>Giving a deduction back ends it.\<close>

lemma returnBalance_view:
  assumes ret: "returnBalance p s = Some s'" and one: "heldOf s (planID p) = [PlBalanceToDeduct p]"
  shows "heldOf s' (planID p) = []" and "i \<noteq> planID p \<Longrightarrow> heldOf s' i = heldOf s i"
    and "orders (rdb s') = orders (rdb s)" and "audits (rdb s') = audits (rdb s)" and "pendings s' = pendings s"
  using ret remove1_filter [OF heldOf_one [OF one]]
  by (auto simp: returnBalance_def UpdateBalance_def heldOf_def split: option.splits)

lemma views_eq:
  assumes "orders (rdb s') = orders (rdb s)" and "audits (rdb s') = audits (rdb s)" and "pendings s' = pendings s"
  shows "statusOf s' i = statusOf s i" and "marker s' i = marker s i" and "pend s' i = pend s i" and "cores (rdb s') = cores (rdb s)"
    and "hasAuditLog (rdb s') i a = hasAuditLog (rdb s) i a"
  using assms by (simp_all add: statusOf_def getOrder_def marker_def hasAuditLog_def pend_def latestRefundPendingDetail_def cores_def)

lemma rollback_good:
  assumes e: "steady e" and of: "\<And>i. order_fact s i" and st: "statusOf s (planID p) = Some OrderStatusRefunding"
    and wf: "worker_fact s (RfRollback p)"
  shows "refund_good s (RfRollback p) (RollbackRefund e p s)"
proof -
  have known: "known_plan s p" and acc: "accounted s (planID p) (PlDeductionType p) (PlBalanceToDeduct p)" using wf by simp_all
  have len: "length (heldOf s (planID p)) \<le> 1" using of [of "planID p"] by (simp add: order_fact_def)
  have failed: "refund_good s (RfRollback p) (RfFailed p, re_audit e (planID p) ''REFUND_ROLLBACK_FAILED'' s)"
    by (rule owner_good [where f = "planID p"])
      (use e st of len known in \<open>simp_all add: same_view_def known_plan_def settled_def steady_def\<close>)
  have restored: "refund_good s (RfRollback p) (RfRestore p True, s)" if "settled s (planID p)"
    by (rule owner_good [where f = "planID p"])
      (use that st of len known in \<open>simp_all add: same_view_def known_plan_def settled_def\<close>)
  have days: "refund_good s (RfRollback p) (RfRestore p True, s\<lparr>heldDays := hds\<rparr>)"
    if "settled s (planID p)" for hds
    by (rule owner_good [where f = "planID p"])
      (use that st of len known in \<open>simp_all add: same_view_def known_plan_def settled_def\<close>)
  have returned: "refund_good s (RfRollback p) (RfRestore p True, s')"
    if r: "returnBalance p s = Some s'" and b: "PlDeductionType p = DeductionTypeBalance" "PlBalanceToDeduct p > 0" for s'
  proof -
    have one: "heldOf s (planID p) = [PlBalanceToDeduct p]" using acc b by (simp add: accounted_def)
    note v = returnBalance_view [OF r one] and ve = views_eq [OF returnBalance_view(3-5) [OF r one]]
    show ?thesis
      by (rule owner_good [where f = "planID p"])
        (use st of known v ve in \<open>simp_all add: same_view_def known_plan_def settled_def\<close>)
  qed
  have "settled s (planID p)" if "\<not> (PlDeductionType p = DeductionTypeBalance \<and> PlBalanceToDeduct p > 0)"
    using acc that by (auto simp: accounted_def settled_def split: if_splits)
  with failed restored days returned e show ?thesis
    by (auto simp: RollbackRefund_def returnDays_def re_write_steady split: option.splits)
qed

end
