(* ===== verification/RefundRuns.thy ===== *)
theory RefundRuns
  imports RefundProofs
begin

text \<open>
  The last steps of a refund, and runs of many workers: the facts about every order and every worker
  are kept by every step.
\<close>

subsection \<open>The last steps of a refund\<close>

lemma status_set [simp]:
  "OrdStatus (setStatus e st r) = st" "OrdStatus (setRefunded e p r) = refundedStatus p" "OrdStatus (setPending e p r) = OrderStatusRefundPending"
  by (simp_all add: setStatus_def setRefunded_def setPending_def)

lemma refunded_final [simp]: "refundedStatus p \<noteq> OrderStatusRefundPending" "refundedStatus p \<noteq> OrderStatusRefunding" "\<not> refundable (refundedStatus p)"
  by (simp_all add: refundedStatus_def refundable_def)

lemma set_orders_other:
  assumes "\<And>r. p r \<Longrightarrow> OrdID r = f" and "\<And>r. order_core (g r) = order_core r" and "i \<noteq> f"
  shows "same_view s (set_orders p g s) i"
proof -
  have "statusOf (set_orders p g s) i = map_option (\<lambda>r. OrdStatus (if p r then g r else r)) (getOrder (rdb s) i)"
    by (rule status_set_orders) (rule core_ID [OF assms(2)])
  also have "\<dots> = statusOf s i"
    unfolding statusOf_def by (rule map_option_cong) (use assms in \<open>auto dest: getOrderD\<close>)
  finally show ?thesis by (simp add: same_view_def)
qed

lemma same_view_trans: "same_view s t i \<Longrightarrow> same_view t u i \<Longrightarrow> same_view s u i"
  by (simp add: same_view_def)

text \<open>A worker that finishes after writing one order.\<close>

lemma good_done:
  assumes "\<And>i. i \<noteq> f \<Longrightarrow> same_view s s' i" and "\<And>i d. pend s i = Some d \<Longrightarrow> pend s' i = Some d"
    and "cores (rdb s') = cores (rdb s)" and "map OrdID (orders (rdb s')) = map OrdID (orders (rdb s))"
    and "order_fact s' f" and "refund_owner w = Some f \<or> statusOf s f \<noteq> Some OrderStatusRefunding"
  shows "refund_good s w (RfDone b, s')"
  using assms by (auto simp: refund_good_def focused_def intro!: exI [of _ f])

lemma row_status:
  assumes "known_plan s p" and "\<And>r. OrdID (g r) = OrdID r" and "\<And>r. OrdStatus (g r) = st"
  shows "statusOf (set_orders (\<lambda>r. OrdID r = planID p) g s) (planID p) = Some st"
proof -
  obtain r where r: "getOrder (rdb s) (planID p) = Some r" using known_plan_row [OF assms(1)] by blast
  then show ?thesis using assms(3) getOrderD [OF r] by (subst status_set_orders) (simp_all add: assms(2))
qed

text \<open>The writes that end a refund: the row of the order, then perhaps an audit row.\<close>

lemma finish_good:
  assumes known: "known_plan s p" and of: "order_fact s (planID p)" and own: "refund_owner w = Some (planID p)"
    and core: "\<And>r. order_core (g r) = order_core r" and st: "\<And>r. OrdStatus (g r) = st" "st \<noteq> OrderStatusRefundPending"
    and free: "refundable st \<Longrightarrow> settled s (planID p)" and a: "a \<noteq> ''REFUND_ROLLBACK_FAILED''"
  shows "refund_good s w (RfDone b, set_orders (\<lambda>r. OrdID r = planID p) g s)"
    and "refund_good s w (RfDone b, re_audit e (planID p) a (set_orders (\<lambda>r. OrdID r = planID p) g s))"
proof -
  let ?s = "set_orders (\<lambda>r. OrdID r = planID p) g s"
  have new: "statusOf ?s (planID p) = Some st" by (rule row_status [OF known core_ID [OF core] st(1)])
  have fact: "order_fact ?s (planID p)" using of new st(2) free by (auto simp: order_fact_def settled_def)
  have other: "same_view s ?s i" if "i \<noteq> planID p" for i by (rule set_orders_other [OF _ core that]) simp
  show "refund_good s w (RfDone b, ?s)"
    by (rule good_done [where f = "planID p"]) (use other own fact core in \<open>simp_all add: cores_set_orders\<close>)
  have aud: "same_view ?s (re_audit e (planID p) a ?s) i" for i by (rule same_view_audit [OF same_view_refl a])
  show "refund_good s w (RfDone b, re_audit e (planID p) a ?s)"
    by (rule good_done [where f = "planID p"])
      (use other own order_fact_same [OF fact aud] same_view_trans [OF other aud] core in \<open>simp_all add: cores_set_orders\<close>)
qed

lemma restore_good:
  assumes e: "steady e" and of: "\<And>i. order_fact s i" and st: "statusOf s (planID p) = Some OrderStatusRefunding"
    and wf: "worker_fact s (RfRestore p gw)"
  shows "refund_good s (RfRestore p gw) (restoreStatus e p gw s)"
proof -
  have "same_view s (re_audit e (planID p) ''REFUND_GATEWAY_FAILED'' s) i" for i by (rule same_view_audit) simp_all
  then have "refund_good s (RfRestore p gw) (RfDone False, re_audit e (planID p) ''REFUND_GATEWAY_FAILED'' s)"
    by (intro owner_good [where f = "planID p"]) (use of [of "planID p"] st in \<open>simp_all add: order_fact_def same_view_def\<close>)
  moreover have "refund_good s (RfRestore p gw) (RfDone False, s)"
    by (rule keep_good [where p = p]) (use of st in simp_all)
  moreover have
    "refund_good s (RfRestore p gw) (RfDone False, set_orders (\<lambda>r. OrdID r = planID p) (setStatus e x) s)"
    "refund_good s (RfRestore p gw) (RfDone False, re_audit e (planID p) ''REFUND_GATEWAY_FAILED''
       (set_orders (\<lambda>r. OrdID r = planID p) (setStatus e x) s))"
    if "x \<noteq> OrderStatusRefundPending" for x
    by (rule finish_good [where a = "''REFUND_GATEWAY_FAILED''" and st = x], use that wf of in simp_all)+
  ultimately show ?thesis using e by (cases gw; cases "re_ok e") (simp_all add: restoreStatus_def Let_def re_write_steady)
qed

lemma failed_good:
  assumes e: "steady e" and of: "\<And>i. order_fact s i" and st: "statusOf s (planID p) = Some OrderStatusRefunding"
    and wf: "worker_fact s (RfFailed p)"
  shows "refund_good s (RfFailed p) (refundFailed e p s)"
proof -
  have "same_view s (re_audit e (planID p) ''REFUND_FAILED'' s) i" for i by (rule same_view_audit) simp_all
  then have "refund_good s (RfFailed p) (RfDone False, re_audit e (planID p) ''REFUND_FAILED'' s)"
    by (intro owner_good [where f = "planID p"]) (use of [of "planID p"] st in \<open>simp_all add: order_fact_def same_view_def\<close>)
  moreover have "refund_good s (RfFailed p) (RfDone False, re_audit e (planID p) ''REFUND_FAILED''
      (set_orders (\<lambda>r. OrdID r = planID p) (setStatus e OrderStatusRefundFailed) s))"
    by (rule finish_good(2) [where st = OrderStatusRefundFailed]) (use wf of in simp_all)
  ultimately show ?thesis using e by (simp add: refundFailed_def re_write_steady)
qed

lemma mark_ok_good:
  assumes e: "steady e" and of: "\<And>i. order_fact s i" and st: "statusOf s (planID p) = Some OrderStatusRefunding"
    and wf: "worker_fact s (RfMarkOk p)"
  shows "refund_good s (RfMarkOk p) (markRefundOk e p s)"
proof -
  have "refund_good s (RfMarkOk p) (RfDone False, s)"
    by (rule keep_good [where p = p]) (use of st in simp_all)
  moreover have "refund_good s (RfMarkOk p) (RfDone True, re_audit e (planID p) ''REFUND_SUCCESS''
      (set_orders (\<lambda>r. OrdID r = planID p) (setRefunded e p) s))"
    by (rule finish_good(2) [where st = "refundedStatus p"]) (use wf of in simp_all)
  ultimately show ?thesis using e by (simp add: markRefundOk_def Let_def re_write_steady)
qed

text \<open>Recording a pending refund: the detail names the deduction that is outstanding.\<close>

lemma tx_view:
  assumes "createPaymentAuditLogTx oid a s = Some s'"
  shows "heldOf s' i = heldOf s i" "statusOf s' i = statusOf s i" "pend s' i = pend s i" "cores (rdb s') = cores (rdb s)"
    "orders (rdb s') = orders (rdb s)" "marker s' i \<longleftrightarrow> marker s i \<or> i = oid \<and> a = ''REFUND_ROLLBACK_FAILED''"
    "hasAuditLog (rdb s') i b \<longleftrightarrow> hasAuditLog (rdb s) i b \<or> i = oid \<and> a = b" "\<not> hasAuditLog (rdb s) oid a"
  using assms
  by (auto simp: createPaymentAuditLogTx_def heldOf_def statusOf_def pend_def latestRefundPendingDetail_def marker_def
      hasAuditLog_def cores_def getOrder_def split: if_splits)

lemma view_pendings [simp]:
  "heldOf (s\<lparr>pendings := q\<rparr>) i = heldOf s i" "statusOf (s\<lparr>pendings := q\<rparr>) i = statusOf s i" "marker (s\<lparr>pendings := q\<rparr>) i = marker s i"
  "pend (s\<lparr>pendings := (oid, d) # pendings s\<rparr>) i = (if i = oid then Some d else pend s i)"
  by (auto simp: heldOf_def statusOf_def marker_def pend_def latestRefundPendingDetail_def)

lemma mark_pending_good:
  assumes e: "steady e" and of: "\<And>i. order_fact s i" and st: "statusOf s (planID p) = Some OrderStatusRefunding"
    and wf: "worker_fact s (RfMarkPending p i)"
  shows "refund_good s (RfMarkPending p i) (markRefundPending e p i s)"
proof -
  let ?t = "set_orders (\<lambda>r. OrdID r = planID p) (setPending e p) s"
  have known: "known_plan s p" and acc: "accounted s (planID p) (PlDeductionType p) (PlBalanceToDeduct p)" using wf by simp_all
  have keep: "refund_good s (RfMarkPending p i) (RfDone False, s)" by (rule keep_good [where p = p]) (use of st in simp_all)
  show ?thesis
  proof (cases "createPaymentAuditLogTx (planID p) ''REFUND_PENDING'' ?t")
    case None
    with keep show ?thesis by (simp add: markRefundPending_def)
  next
    case (Some t)
    note v = tx_view [OF Some]
    let ?s = "t\<lparr>pendings := (planID p, pendingDetail p i) # pendings t\<rparr>"
    have fresh: "pend s (planID p) = None"
      using of [of "planID p"] v(8) by (auto simp: order_fact_def)
    have now: "statusOf ?s (planID p) = Some OrderStatusRefundPending"
      using row_status [OF known, of "setPending e p" OrderStatusRefundPending] v(2) by (simp add: setPending_def)
    have fact: "order_fact ?s (planID p)"
      using of [of "planID p"] now acc v
      by (simp add: order_fact_def pendingDetail_def accounted_def refundable_def)
    have "refund_good s (RfMarkPending p i) (RfDone False, ?s)"
    proof (rule good_done [where f = "planID p"])
      show "same_view s ?s j" if "j \<noteq> planID p" for j
        using set_orders_other [OF _ _ that, of "\<lambda>r. OrdID r = planID p" "setPending e p" s] v that
        by (simp add: same_view_def)
      show "pend ?s j = Some d" if "pend s j = Some d" for j d using that fresh v by auto
      show "cores (rdb ?s) = cores (rdb s)" "map OrdID (orders (rdb ?s)) = map OrdID (orders (rdb s))"
        using v by (simp_all add: cores_set_orders)
    qed (use fact in simp_all)
    then show ?thesis using Some keep e by (simp add: markRefundPending_def re_write_steady)
  qed
qed

text \<open>Finalizing a pending refund. The plan is the one of the detail, whose deduction is outstanding.\<close>

lemma settle_good:
  assumes "\<And>i. i \<noteq> f \<Longrightarrow> same_view s s' i" and "\<And>i. pend s' i = pend s i"
    and "cores (rdb s') = cores (rdb s)" and "map OrdID (orders (rdb s')) = map OrdID (orders (rdb s))"
    and "order_fact s f" and "refund_owner w = None" and "statusOf s f = Some OrderStatusRefundPending"
    and "\<And>a. hasAuditLog (rdb s) f a \<Longrightarrow> hasAuditLog (rdb s') f a"
    and "statusOf s' f = Some st" and "st \<noteq> OrderStatusRefundPending" and "refundable st \<Longrightarrow> settled s' f"
    and "length (heldOf s' f) \<le> length (heldOf s f)"
  shows "refund_good s w (RfDone b, s')"
  using assms by (intro good_done [where f = f]) (auto simp: order_fact_def)

lemma pending_matched:
  assumes "distinct (map OrdID (orders (rdb s)))" and "matching_orders (pendingRow f) (rdb s)" and "order_fact s f"
  shows "statusOf s f = Some OrderStatusRefundPending"
    and "\<exists>d. pend s f = Some d \<and> accounted s f (DtDeductionType d) (DtBalanceDeducted d)"
proof -
  obtain r where "getOrder (rdb s) f = Some r" "pendingRow f r"
    using matching_first [OF assms(1), of "pendingRow f" f] assms(2) by (auto simp: pendingRow_def)
  then show "statusOf s f = Some OrderStatusRefundPending" by (simp add: statusOf_def pendingRow_def)
  with assms(3) show "\<exists>d. pend s f = Some d \<and> accounted s f (DtDeductionType d) (DtBalanceDeducted d)"
    by (simp add: order_fact_def)
qed

text \<open>The claim of a finalizing transaction.\<close>

lemma pending_claim:
  assumes "statusOf s f = Some OrderStatusRefundPending"
  shows "statusOf (set_orders (pendingRow f) (setStatus e st) s) f = Some st"
    and "i \<noteq> f \<Longrightarrow> same_view s (set_orders (pendingRow f) (setStatus e st) s) i"
    and "cores (rdb (set_orders (pendingRow f) (setStatus e st) s)) = cores (rdb s)"
    and "map OrdID (orders (rdb (set_orders (pendingRow f) (setStatus e st) s))) = map OrdID (orders (rdb s))"
proof -
  obtain r where r: "getOrder (rdb s) f = Some r" "OrdStatus r = OrderStatusRefundPending"
    using assms by (auto simp: statusOf_def)
  then have "pendingRow f r" using getOrderD [OF r(1)] by (simp add: pendingRow_def)
  then show "statusOf (set_orders (pendingRow f) (setStatus e st) s) f = Some st"
    using r by (subst status_set_orders) (simp_all add: core_ID [OF keeps_core(1)])
  show "i \<noteq> f \<Longrightarrow> same_view s (set_orders (pendingRow f) (setStatus e st) s) i"
    by (rule set_orders_other) (auto simp: pendingRow_def)
qed (simp_all add: cores_set_orders)

lemma finalize_ok_good:
  assumes e: "steady e" and dist: "distinct (map OrdID (orders (rdb s)))" and of: "\<And>i. order_fact s i"
    and wf: "worker_fact s (RfFinalizeOk p)"
  shows "refund_good s (RfFinalizeOk p) (finalizePendingRefundSuccess e p s)"
proof -
  let ?f = "planID p"
  let ?s1 = "set_orders (pendingRow ?f) (setStatus e OrderStatusRefunding) s"
  let ?s2 = "set_orders (\<lambda>r. OrdID r = ?f) (setRefunded e p) ?s1"
  have held: "PlDeductionHeld p" and known: "known_plan s p" using wf by (simp_all add: final_plan_ok_def)
  have read: "refund_good s (RfFinalizeOk p) (RfDone b, s)" for b by (rule good_read [OF of [of 0]]) simp_all
  have written: "refund_good s (RfFinalizeOk p) (RfDone b, t)"
    if m: "matching_orders (pendingRow ?f) (rdb s)" and t: "createPaymentAuditLogTx ?f ''REFUND_SUCCESS'' ?s2 = Some t" for t b
  proof -
    note pm = pending_matched [OF dist m of [of ?f]] and v = tx_view [OF t]
    note pc = pending_claim [OF pm(1), where e = e and st = OrderStatusRefunding]
    have known1: "known_plan ?s1 p" using known pc(3) by (simp add: known_plan_def)
    have st: "statusOf t ?f = Some (refundedStatus p)"
      unfolding v(2) by (rule row_status [OF known1 core_ID [OF keeps_core(2)]]) simp
    have other: "same_view s t i" if i: "i \<noteq> ?f" for i
    proof -
      have "same_view ?s1 ?s2 i" by (rule set_orders_other [OF _ _ i]) simp_all
      moreover have "same_view ?s2 t i" using i v by (simp add: same_view_def)
      ultimately show ?thesis by (blast intro: same_view_trans pc(2) [OF i])
    qed
    show ?thesis
      by (rule settle_good [where f = ?f and st = "refundedStatus p"])
        (use other st pm v of in \<open>simp_all add: cores_set_orders\<close>)
  qed
  show ?thesis
    using read written held e
    by (auto simp: finalizePendingRefundSuccess_def applyRefundFinalDeduction_def re_write_steady split: option.split)
qed

text \<open>What giving the deduction of a plan back leaves.\<close>

lemma return_held:
  assumes ret: "returnHeldRefundDeduction e p s = Some s'" and acc: "accounted s (planID p) (PlDeductionType p) (PlBalanceToDeduct p)"
  shows "settled s' (planID p)" and "length (heldOf s' (planID p)) \<le> length (heldOf s (planID p))"
    and "i \<noteq> planID p \<Longrightarrow> same_view s s' i" and "statusOf s' i = statusOf s i" and "pend s' i = pend s i"
    and "cores (rdb s') = cores (rdb s)" and "orders (rdb s') = orders (rdb s)"
    and "hasAuditLog (rdb s') i a = hasAuditLog (rdb s) i a"
proof -
  have "settled s' (planID p) \<and> length (heldOf s' (planID p)) \<le> length (heldOf s (planID p)) \<and>
     (\<forall>i. i \<noteq> planID p \<longrightarrow> same_view s s' i) \<and> (\<forall>i. statusOf s' i = statusOf s i \<and> pend s' i = pend s i) \<and>
     cores (rdb s') = cores (rdb s) \<and> orders (rdb s') = orders (rdb s) \<and>
     (\<forall>i a. hasAuditLog (rdb s') i a = hasAuditLog (rdb s) i a)"
  proof (cases "PlDeductionType p = DeductionTypeBalance \<and> PlBalanceToDeduct p > 0")
    case True
    then have one: "heldOf s (planID p) = [PlBalanceToDeduct p]" using acc by (simp add: accounted_def)
    have r: "returnBalance p s = Some s'" using ret True by (simp add: returnHeldRefundDeduction_def split: if_splits)
    note v = returnBalance_view [OF r one] and ve = views_eq [OF returnBalance_view(3-5) [OF r one]]
    show ?thesis using v ve by (simp add: settled_def same_view_def)
  next
    case False
    then have "settled s (planID p)" using acc by (simp add: accounted_def settled_def)
    with ret False show ?thesis
      by (auto simp: returnHeldRefundDeduction_def returnDays_def settled_def same_view_def split: if_splits)
  qed
  then show "settled s' (planID p)" and "length (heldOf s' (planID p)) \<le> length (heldOf s (planID p))"
    and "i \<noteq> planID p \<Longrightarrow> same_view s s' i" and "statusOf s' i = statusOf s i" and "pend s' i = pend s i"
    and "cores (rdb s') = cores (rdb s)" and "orders (rdb s') = orders (rdb s)"
    and "hasAuditLog (rdb s') i a = hasAuditLog (rdb s) i a"
    by blast+
qed

lemma finalize_failed_good:
  assumes e: "steady e" and dist: "distinct (map OrdID (orders (rdb s)))" and of: "\<And>i. order_fact s i"
    and wf: "worker_fact s (RfFinalizeFailed p)"
  shows "refund_good s (RfFinalizeFailed p) (finalizeRefundFailed e p s)"
proof -
  let ?f = "planID p"
  let ?s1 = "set_orders (pendingRow ?f) (setStatus e OrderStatusRefundFailed) s"
  have held: "PlDeductionHeld p" using wf by (simp add: final_plan_ok_def)
  obtain d where d: "pend s ?f = Some d" "PlDeductionType p = DtDeductionType d" "PlBalanceToDeduct p = DtBalanceDeducted d"
    using wf by (auto simp: final_plan_ok_def)
  have read: "refund_good s (RfFinalizeFailed p) (RfDone b, s)" "refund_good s (RfFinalizeFailed p) (RfFinalizeNoReturn p, s)" for b
    by (rule good_read [OF of [of 0]], use wf in simp_all)+
  have written: "refund_good s (RfFinalizeFailed p) (RfDone b, t)"
    if m: "matching_orders (pendingRow ?f) (rdb s)" and r: "returnHeldRefundDeduction e p ?s1 = Some s2"
      and t: "createPaymentAuditLogTx ?f ''REFUND_FAILED'' s2 = Some t" for s2 t b
  proof -
    note pm = pending_matched [OF dist m of [of ?f]] and v = tx_view [OF t]
    note pc = pending_claim [OF pm(1), where e = e and st = OrderStatusRefundFailed]
    have "accounted s ?f (PlDeductionType p) (PlBalanceToDeduct p)" using pm(2) d by simp
    then have "accounted ?s1 ?f (PlDeductionType p) (PlBalanceToDeduct p)" by (simp add: accounted_def)
    note rh = return_held [OF r this]
    have "settled t ?f" using rh(1) v by (simp add: settled_def)
    moreover have "same_view s t i" if i: "i \<noteq> ?f" for i
      using same_view_trans [OF pc(2) [OF i] rh(3) [OF i]] i v by (simp add: same_view_def)
    ultimately show ?thesis
      by (intro settle_good [where f = ?f and st = OrderStatusRefundFailed])
        (use pm v rh pc of in simp_all)
  qed
  show ?thesis
    using read written held e
    by (auto simp: finalizeRefundFailed_def Let_def re_write_steady split: option.split)
qed

lemma finalize_no_return_good:
  assumes e: "steady e" and dist: "distinct (map OrdID (orders (rdb s)))" and of: "\<And>i. order_fact s i"
  shows "refund_good s (RfFinalizeNoReturn p) (finalizeWithoutReturn e p s)"
proof -
  let ?f = "planID p"
  let ?s1 = "set_orders (pendingRow ?f) (setStatus e OrderStatusRefundFailed) s"
  have read: "refund_good s (RfFinalizeNoReturn p) (RfDone b, s)" for b by (rule good_read [OF of [of 0]]) simp_all
  have written: "refund_good s (RfFinalizeNoReturn p) (RfDone b, t)"
    if m: "matching_orders (pendingRow ?f) (rdb s)" and r: "createPaymentAuditLogTx ?f ''REFUND_ROLLBACK_FAILED'' ?s1 = Some s2"
      and t: "createPaymentAuditLogTx ?f ''REFUND_FAILED'' s2 = Some t" for s2 t b
  proof -
    note pm = pending_matched [OF dist m of [of ?f]] and v = tx_view [OF t] and u = tx_view [OF r]
    note pc = pending_claim [OF pm(1), where e = e and st = OrderStatusRefundFailed]
    have "same_view s t i" if i: "i \<noteq> ?f" for i
      using pc(2) [OF i] i v u by (simp add: same_view_def)
    then show ?thesis
      by (intro settle_good [where f = ?f and st = OrderStatusRefundFailed])
        (use pm v u pc of in \<open>simp_all add: settled_def\<close>)
  qed
  show ?thesis
    using read written e
    by (auto simp: finalizeWithoutReturn_def re_write_steady split: option.split)
qed

subsection \<open>Runs\<close>

lemma refund_step_good:
  assumes e: "steady e" and dist: "distinct (map OrdID (orders (rdb s)))" and of: "\<And>i. order_fact s i"
    and wf: "worker_fact s w" and own: "\<And>f. refund_owner w = Some f \<Longrightarrow> statusOf s f = Some OrderStatusRefunding"
  shows "refund_good s w (refund_step e w s)"
proof (cases w)
  case (RfRequest i u) then show ?thesis using request_good [OF of] by simp
next
  case (RfRequestBalance o1) then show ?thesis using request_balance_good [OF of] by simp
next
  case (RfRequestWrite o1) then show ?thesis using request_write_good [OF e dist of] by simp
next
  case (RfPrepare i x f d) then show ?thesis using prepare_good [OF of] by simp
next
  case (RfPrepDeduct p) then show ?thesis using prepDeduct_good [OF of] wf by simp
next
  case (RfExecute p) then show ?thesis using claim_good [OF e dist of] wf by simp
next
  case (RfDeduct p) then show ?thesis using marker_good [OF e of] wf own by simp
next
  case (RfDeductNow p) then show ?thesis using deduct_good [OF e of] wf own by simp
next
  case (RfDeductDays p) then show ?thesis using days_good(1) [OF e of] wf own by simp
next
  case (RfDeductDaysNow p) then show ?thesis using days_good(2) [OF e of] wf own by simp
next
  case (RfGateway p) then show ?thesis using gateway_good [OF e of] wf own by simp
next
  case (RfRollback p) then show ?thesis using rollback_good [OF e of] wf own by simp
next
  case (RfRestore p gw) then show ?thesis using restore_good [OF e of] wf own by simp
next
  case (RfFailed p) then show ?thesis using failed_good [OF e of] wf own by simp
next
  case (RfMarkOk p) then show ?thesis using mark_ok_good [OF e of] wf own by simp
next
  case (RfMarkPending p i) then show ?thesis using mark_pending_good [OF e of] wf own by simp
next
  case (RfQuery i) then show ?thesis using query_good [OF of] by simp
next
  case (RfQueryDetail o1) then show ?thesis using query_detail_good [OF of wf [unfolded RfQueryDetail]] by simp
next
  case (RfQueryGateway o1 d) then show ?thesis using query_gateway_good [OF of wf [unfolded RfQueryGateway], of w e] by simp
next
  case (RfFinalizeOk p) then show ?thesis using finalize_ok_good [OF e dist of] wf by simp
next
  case (RfFinalizeFailed p) then show ?thesis using finalize_failed_good [OF e dist of] wf by simp
next
  case (RfFinalizeNoReturn p) then show ?thesis using finalize_no_return_good [OF e dist of] by simp
next
  case (RfDone b) then show ?thesis using good_read [OF of [of 0], of "RfDone b" w] by simp
qed

text \<open>
  The runs: every reply of the database arrives, its failures included, and the plain audit rows are
  written and read; workers may start, interleave, fail at any statement and die.
\<close>

fun steady_label :: "refund_label \<Rightarrow> bool" where
  "steady_label (RfRun i e) = steady e"
| "steady_label l = True"

lemma refund_world_inv: "refund_inv s \<Longrightarrow> steady_label l \<Longrightarrow> refund_inv (refund_world_step l s)"
proof (cases l)
  case (RfStart i w)
  have "worker_fact (fdb s) w \<and> refund_owner w = None" if "refund_entry w" using that by (cases w) simp_all
  then show "refund_inv s \<Longrightarrow> ?thesis" by (auto simp: RfStart refund_inv_def)
next
  case (RfRun i e)
  assume inv: "refund_inv s" and st: "steady_label l"
  obtain w d where wd: "refund_step e (refunders s i) (fdb s) = (w, d)" by (cases "refund_step e (refunders s i) (fdb s)")
  have "refund_good (fdb s) (refunders s i) (refund_step e (refunders s i) (fdb s))"
    by (rule refund_step_good) (use inv st RfRun in \<open>auto simp: refund_inv_def\<close>)
  with refund_inv_step [OF inv] wd RfRun show ?thesis by simp
next
  case (RfCrash i)
  then show "refund_inv s \<Longrightarrow> ?thesis" by (auto simp: refund_inv_def)
next
  case (Spend u x)
  let ?d = "fdb (refund_world_step (Spend u x) s)"
  have same: "same_view (fdb s) ?d i" "cores (rdb ?d) = cores (rdb (fdb s))"
    "orders (rdb ?d) = orders (rdb (fdb s))" for i
    by (simp_all add: same_view_def heldOf_def marker_def statusOf_def pend_def latestRefundPendingDetail_def
        hasAuditLog_def getOrder_def cores_def)
  assume inv: "refund_inv s"
  have "order_fact ?d i" for i using inv order_fact_same [OF _ same(1)] by (simp add: refund_inv_def del: refund_world_step.simps)
  moreover have "worker_fact ?d (refunders s i)" for i
    by (rule worker_fact_same [of "fdb s"]) (use inv same in \<open>auto simp: refund_inv_def same_view_def simp del: refund_world_step.simps\<close>)
  moreover have "statusOf ?d i = statusOf (fdb s) i" for i using same(1) by (simp add: same_view_def del: refund_world_step.simps)
  moreover have "refunders (refund_world_step (Spend u x) s) = refunders s" by simp
  ultimately show ?thesis using inv same(3) unfolding Spend refund_inv_def by metis
qed

lemma refund_run_inv: "refund_inv s \<Longrightarrow> list_all steady_label ls \<Longrightarrow> refund_inv (refund_run ls s)"
  by (induction ls arbitrary: s) (simp_all add: refund_world_inv)

text \<open>Before any refund: no deduction is outstanding and nobody is refunding.\<close>

definition refund_start :: "refund_world \<Rightarrow> bool" where
  "refund_start s \<longleftrightarrow> distinct (map OrdID (orders (rdb (fdb s)))) \<and> held (fdb s) = [] \<and> pendings (fdb s) = [] \<and>
     (\<forall>r \<in> set (orders (rdb (fdb s))). OrdStatus r \<noteq> OrderStatusRefundPending) \<and>
     (\<forall>i. \<exists>b. refunders s i = RfDone b)"

lemma refund_start_inv: "refund_start s \<Longrightarrow> refund_inv s"
proof -
  assume start: "refund_start s"
  then have view: "heldOf (fdb s) i = []" "pend (fdb s) i = None" "statusOf (fdb s) i \<noteq> Some OrderStatusRefundPending" for i
    by (auto simp: refund_start_def heldOf_def pend_def latestRefundPendingDetail_def statusOf_def dest: getOrderD)
  have "worker_fact (fdb s) (refunders s i) \<and> refund_owner (refunders s i) = None" for i
  proof -
    obtain b where "refunders s i = RfDone b" using start by (auto simp: refund_start_def)
    then show ?thesis by simp
  qed
  with view start show ?thesis by (simp add: refund_inv_def refund_start_def order_fact_def settled_def)
qed

text \<open>An order that nobody owns stays as it was left.\<close>

lemma unowned_step:
  assumes inv: "refund_inv s" and l: "steady_label l" and st: "statusOf (fdb s) f = Some OrderStatusRefunding"
    and free: "\<And>i. refund_owner (refunders s i) \<noteq> Some f"
  shows "statusOf (fdb (refund_world_step l s)) f = Some OrderStatusRefunding"
    and "heldOf (fdb (refund_world_step l s)) f = heldOf (fdb s) f"
    and "refund_owner (refunders (refund_world_step l s) i) \<noteq> Some f"
proof -
  have "same_view (fdb s) (fdb (refund_world_step l s)) f \<and> (\<forall>i. refund_owner (refunders (refund_world_step l s) i) \<noteq> Some f)"
  proof (cases l)
    case (RfStart i w)
    have "refund_owner w = None" if "refund_entry w" using that by (cases w) simp_all
    with free show ?thesis by (auto simp: RfStart)
  next
    case (RfRun i e)
    obtain w d where wd: "refund_step e (refunders s i) (fdb s) = (w, d)" by (cases "refund_step e (refunders s i) (fdb s)")
    have "refund_good (fdb s) (refunders s i) (refund_step e (refunders s i) (fdb s))"
      by (rule refund_step_good) (use inv l RfRun in \<open>auto simp: refund_inv_def\<close>)
    then have g: "refund_good (fdb s) (refunders s i) (w, d)" using wd by simp
    then obtain x where x: "\<And>j. j \<noteq> x \<Longrightarrow> same_view (fdb s) d j"
        "\<not> same_view (fdb s) d x \<Longrightarrow> refund_owner (refunders s i) = Some x \<or> statusOf (fdb s) x \<noteq> Some OrderStatusRefunding"
        "refund_owner w \<noteq> None \<Longrightarrow> refund_owner w = Some x \<and>
           (refund_owner (refunders s i) = Some x \<or> statusOf (fdb s) x \<noteq> Some OrderStatusRefunding)"
      unfolding refund_good_def focused_def by auto
    have "same_view (fdb s) d f" using x(1,2) st free [of i] by (cases "f = x") auto
    moreover have "refund_owner w \<noteq> Some f" using x(3) st free [of i] by auto
    ultimately have "same_view (fdb s) d f \<and> refund_owner w \<noteq> Some f" by simp
    then show ?thesis using free wd RfRun by simp
  next
    case (RfCrash i)
    with free show ?thesis by simp
  next
    case (Spend u x)
    with free show ?thesis
      by (simp add: same_view_def heldOf_def marker_def statusOf_def pend_def latestRefundPendingDetail_def hasAuditLog_def getOrder_def)
  qed
  then show "statusOf (fdb (refund_world_step l s)) f = Some OrderStatusRefunding"
    and "heldOf (fdb (refund_world_step l s)) f = heldOf (fdb s) f"
    and "refund_owner (refunders (refund_world_step l s) i) \<noteq> Some f"
    using st by (auto simp: same_view_def)
qed

lemma unowned_run:
  assumes "refund_inv s" and "list_all steady_label ls" and "statusOf (fdb s) f = Some OrderStatusRefunding"
    and "\<And>i. refund_owner (refunders s i) \<noteq> Some f"
  shows "statusOf (fdb (refund_run ls s)) f = Some OrderStatusRefunding \<and> heldOf (fdb (refund_run ls s)) f = heldOf (fdb s) f"
  using assms
proof (induction ls arbitrary: s)
  case (Cons l ls)
  then show ?case using unowned_step [of s l f] refund_world_inv [of s l] by simp
qed simp

end
