(* ===== verification/RefundClaims.thy ===== *)
theory RefundClaims
  imports RefundRuns
begin

text \<open>
  What holds of refunds: one refund of an order at a time and one deduction outstanding at most, and
  the two ways in which an order is left in \<open>REFUNDING\<close> for good.
\<close>


definition demo_refund_order :: PaymentOrder where
  "demo_refund_order = demo_order\<lparr>OrdID := 1, OrdStatus := OrderStatusCompleted, OrdPaymentTradeNo := ''T''\<rparr>"

definition demo_refunds :: refund_world where
  "demo_refunds = \<lparr>fdb = \<lparr>rdb = (wdb (pay_start [7 \<mapsto> 15]))\<lparr>orders := [demo_refund_order]\<rparr>, pendings = [], held = [],
      heldDays = [], gatewayRefunds = []\<rparr>, refunders = (\<lambda>_. RfDone False)\<rparr>"

definition refund_reply :: "gateway_answer \<Rightarrow> refund_env" where
  "refund_reply g = \<lparr>re_pay = demo_env 2000, re_instance = Instance True True, re_provider = Some (''alipay'', []), re_gateway = g, re_subscription = None,
      re_extend = ExtendOk, re_revoke = True, re_audit_read = True, re_return = True\<rparr>"

definition a_refund :: "gateway_answer \<Rightarrow> refund_label list" where
  "a_refund g = RfStart 0 (RfPrepare 1 (Finite 10) False True) # replicate 10 (RfRun 0 (refund_reply g))"

definition a_query :: "gateway_answer \<Rightarrow> refund_label list" where
  "a_query g = RfStart 0 (RfQuery 1) # replicate 5 (RfRun 0 (refund_reply g))"

lemma demo_refunds_start: "refund_start demo_refunds"
  by (auto simp: refund_start_def demo_refunds_def demo_refund_order_def pay_start_def)

lemma demo_labels_steady: "list_all steady_label (a_refund g)" "list_all steady_label (a_query g)"
  by (simp_all add: a_refund_def a_query_def refund_reply_def steady_def demo_env_def list_all_iff)

lemma demo_held:
  "held (fdb (refund_run (a_refund (GatewayResponse ''success'' ''R'')) demo_refunds)) = [(1, 10)]"
  by code_simp


definition pending_twice :: "refund_label list" where
  "pending_twice = a_refund (GatewayResponse ''pending'' ''R1'') @ a_query (GatewayResponse ''failed'' ''R1'') @
     a_refund (GatewayResponse ''pending'' ''R2'')"

lemma pending_twice_run:
  "statusOf (fdb (refund_run pending_twice demo_refunds)) 1 = Some OrderStatusRefunding"
  "heldOf (fdb (refund_run pending_twice demo_refunds)) 1 = [10]"
  "gatewayRefunds (fdb (refund_run pending_twice demo_refunds)) = [1, 1]"
  "balances (rdb (fdb (refund_run pending_twice demo_refunds))) 7 = Some 5"
  by code_simp+

lemma refund_run_append: "refund_run (ls @ ms) s = refund_run ms (refund_run ls s)"
  by (induction ls arbitrary: s) simp_all

fun label_of :: "refund_label \<Rightarrow> nat option" where
  "label_of (RfStart i w) = Some i"
| "label_of (RfRun i e) = Some i"
| "label_of (RfCrash i) = Some i"
| "label_of (Spend u x) = None"

lemma other_refunders: "list_all (\<lambda>l. label_of l \<noteq> Some i) ls \<Longrightarrow> refunders (refund_run ls s) i = refunders s i"
proof (induction ls arbitrary: s)
  case (Cons l ls)
  have "refunders (refund_world_step l s) i = refunders s i"
    using Cons.prems by (cases l) (auto split: prod.split)
  with Cons show ?case by simp
qed simp

lemma pending_twice_unowned: "refund_owner (refunders (refund_run pending_twice demo_refunds) i) = None"
proof (cases "i = 0")
  case True
  have "refunders (refund_run pending_twice demo_refunds) 0 = RfDone False" by code_simp
  with True show ?thesis by simp
next
  case False
  then have "list_all (\<lambda>l. label_of l \<noteq> Some i) pending_twice"
    by (simp add: pending_twice_def a_refund_def a_query_def list_all_iff)
  then show ?thesis by (simp add: other_refunders demo_refunds_def)
qed



end
