(* ===== verification/UsageBilling.thy ===== *)
theory UsageBilling
  imports BillingRates Payments Accounts
begin

text \<open>
  Charging a request: \<open>service/usage_billing.go\<close> and \<open>repository/usage_billing_repo.go\<close>, with the
  archiving of \<open>repository/dashboard_aggregation_repo.go\<close>.

  \<^item> The database is a record of tables; a transaction is one step with an outcome, as in
    \<open>Payments\<close>. Columns of money are exact decimals, so amounts are reals, and \<open>pg_round\<close> is the
    rounding to eight digits of \<open>QuantizeUsageBillingAmount\<close>.
  \<^item> The quota of an account lives in the JSON column \<open>extra\<close>, which is NULL or an object. Casts that
    fail make the transaction fail. How PostgreSQL reads and prints numbers, timestamps and time
    zones is the record \<open>pg_env\<close>, together with SHA-256 and the printing of \<open>%0.10f\<close>.
  \<^item> \<open>effects\<close> and \<open>moved\<close> record the committed transactions and are read by no operation.
\<close>

subsection \<open>Commands\<close>

record UsageBillingCommand =
  UcRequestID :: gostring
  UcAPIKeyID :: int
  UcRequestFingerprint :: gostring
  UcRequestPayloadHash :: gostring
  UcUserID :: int
  UcAccountID :: int
  UcSubscriptionID :: "int option"
  UcAccountType :: gostring
  UcModel :: gostring
  UcServiceTier :: gostring
  UcReasoningEffort :: gostring
  UcBillingType :: int
  UcInputTokens :: int
  UcOutputTokens :: int
  UcCacheCreationTokens :: int
  UcCacheReadTokens :: int
  UcImageCount :: int
  UcMediaType :: gostring
  UcBalanceCost :: real
  UcSubscriptionCost :: real
  UcAPIKeyQuotaCost :: real
  UcAPIKeyRateLimitCost :: real
  UcAccountQuotaCost :: real
  UcAccountQuotaHasDailyLimit :: bool
  UcAccountQuotaHasWeeklyLimit :: bool

record BatchImageBalanceHoldCommand =
  HcRequestID :: gostring
  HcAPIKeyID :: int
  HcRequestFingerprint :: gostring
  HcRequestPayloadHash :: gostring
  HcUserID :: int
  HcBatchID :: gostring
  HcHoldAmount :: real
  HcActualAmount :: real

record pg_env =
  pg_number :: "real \<Rightarrow> gostring"
  pg_int :: "gostring \<Rightarrow> int option"
  pg_numeric :: "gostring \<Rightarrow> real option"
  pg_timestamp :: "gostring \<Rightarrow> gotime option"
  pg_show :: "gotime \<Rightarrow> gostring"
  pg_show_seconds :: "gotime \<Rightarrow> gostring"
  pg_local :: "gostring \<Rightarrow> gotime \<Rightarrow> gotime option"
  pg_global :: "gostring \<Rightarrow> gotime \<Rightarrow> gotime option"
  pg_day :: "gotime \<Rightarrow> gotime"
  pg_round :: "real \<Rightarrow> real"
  pg_money :: "real \<Rightarrow> gostring"
  pg_sha256 :: "gostring \<Rightarrow> gostring"

definition valueOrZero :: "int option \<Rightarrow> int" where
  "valueOrZero v = (case v of Some x \<Rightarrow> x | None \<Rightarrow> 0)"

definition bar :: "gostring list \<Rightarrow> gostring" where
  "bar parts = concat (case parts of [] \<Rightarrow> [] | p # ps \<Rightarrow> p # map (\<lambda>s. ''|'' @ s) ps)"

definition withPayload :: "gostring \<Rightarrow> gostring \<Rightarrow> gostring" where
  "withPayload raw payloadHash = (if trim_space payloadHash = [] then raw else raw @ ''|'' @ trim_space payloadHash)"

definition buildUsageBillingFingerprint :: "pg_env \<Rightarrow> UsageBillingCommand \<Rightarrow> gostring" where
  "buildUsageBillingFingerprint p c =
     pg_sha256 p (withPayload (bar
       [itoa (UcUserID c), itoa (UcAccountID c), itoa (UcAPIKeyID c), trim_space (UcAccountType c), trim_space (UcModel c),
        trim_space (UcServiceTier c), trim_space (UcReasoningEffort c), itoa (UcBillingType c), itoa (UcInputTokens c),
        itoa (UcOutputTokens c), itoa (UcCacheCreationTokens c), itoa (UcCacheReadTokens c), itoa (UcImageCount c),
        trim_space (UcMediaType c), itoa (valueOrZero (UcSubscriptionID c)), pg_money p (UcBalanceCost c),
        pg_money p (UcSubscriptionCost c), pg_money p (UcAPIKeyQuotaCost c), pg_money p (UcAPIKeyRateLimitCost c),
        pg_money p (UcAccountQuotaCost c)]) (UcRequestPayloadHash c))"

definition QuantizeUsageBillingAmount :: "pg_env \<Rightarrow> real \<Rightarrow> real" where
  "QuantizeUsageBillingAmount p v = (if v = 0 then v else pg_round p v)"

definition quantizeMonetaryFields :: "pg_env \<Rightarrow> UsageBillingCommand \<Rightarrow> UsageBillingCommand" where
  "quantizeMonetaryFields p c = c\<lparr>
     UcBalanceCost := QuantizeUsageBillingAmount p (UcBalanceCost c),
     UcSubscriptionCost := QuantizeUsageBillingAmount p (UcSubscriptionCost c),
     UcAPIKeyQuotaCost := QuantizeUsageBillingAmount p (UcAPIKeyQuotaCost c),
     UcAPIKeyRateLimitCost := QuantizeUsageBillingAmount p (UcAPIKeyRateLimitCost c),
     UcAccountQuotaCost := QuantizeUsageBillingAmount p (UcAccountQuotaCost c)\<rparr>"

definition NormalizeCommand :: "pg_env \<Rightarrow> UsageBillingCommand \<Rightarrow> UsageBillingCommand" where
  "NormalizeCommand p c =
     (let c1 = c\<lparr>UcRequestID := trim_space (UcRequestID c)\<rparr>;
          c2 = (if trim_space (UcRequestFingerprint c1) = []
                then c1\<lparr>UcRequestFingerprint := buildUsageBillingFingerprint p c1\<rparr> else c1)
      in quantizeMonetaryFields p c2)"

definition buildBatchImageBalanceHoldFingerprint :: "pg_env \<Rightarrow> BatchImageBalanceHoldCommand \<Rightarrow> gostring" where
  "buildBatchImageBalanceHoldFingerprint p c =
     pg_sha256 p (withPayload (bar
       [itoa (HcUserID c), itoa (HcAPIKeyID c), trim_space (HcBatchID c), pg_money p (HcHoldAmount c),
        pg_money p (HcActualAmount c)]) (HcRequestPayloadHash c))"

definition NormalizeHold :: "pg_env \<Rightarrow> BatchImageBalanceHoldCommand \<Rightarrow> BatchImageBalanceHoldCommand" where
  "NormalizeHold p c =
     (let c1 = c\<lparr>HcRequestID := trim_space (HcRequestID c), HcBatchID := trim_space (HcBatchID c)\<rparr>
      in if trim_space (HcRequestFingerprint c1) = []
         then c1\<lparr>HcRequestFingerprint := buildBatchImageBalanceHoldFingerprint p c1\<rparr> else c1)"

subsection \<open>Tables\<close>

text \<open>A value of a JSON object; \<open>JOther\<close> carries the text of a boolean, an array or an object.\<close>

datatype sql_json = JNull | JNumber real | JString gostring | JOther gostring

type_synonym extra = "gostring \<Rightarrow> sql_json option"

record usage_user =
  UuBalance :: real
  UuFrozen :: "real option"

record usage_key =
  UkQuota :: real
  UkQuotaUsed :: real
  UkStatus :: gostring
  UkRate :: APIKeyRateLimitData

record usage_tables =
  users :: "int \<Rightarrow> usage_user option"
  subs :: "int \<Rightarrow> (real \<times> real \<times> real) option"
  keys :: "int \<Rightarrow> usage_key option"
  accounts :: "int \<Rightarrow> extra option option"
  outbox :: "int list"

type_synonym request_key = "gostring \<times> int"

datatype usage_effect = Charge UsageBillingCommand | Hold BatchImageBalanceHoldCommand
  | Capture BatchImageBalanceHoldCommand | ReleaseHold BatchImageBalanceHoldCommand bool

record usage_db =
  tables :: usage_tables
  dedup :: "request_key \<Rightarrow> (gostring \<times> gotime) option"
  archive :: "request_key \<Rightarrow> gostring option"
  effects :: "(request_key \<times> gostring \<times> gotime \<times> usage_effect) list"

datatype usage_error = RequestIDRequired | RequestConflict | UserNotFound | SubscriptionNotFound
  | APIKeyNotFound | AccountNotFound | CostExceedsHold | InsufficientBalance | FrozenInsufficient
  | BillingDbError

type_synonym 'a billed = "usage_error + 'a"

definition bind_ok :: "'a billed \<Rightarrow> ('a \<Rightarrow> 'b billed) \<Rightarrow> 'b billed" where
  "bind_ok r k = (case r of Inl e \<Rightarrow> Inl e | Inr x \<Rightarrow> k x)"

subsection \<open>Claiming a request\<close>

text \<open>
  The dedup row is inserted first, and the archive is read after it. \<open>None\<close>: somebody else claimed
  the request. \<open>Some\<close> the table with the new row.
\<close>

definition claimUsageBillingRequest ::
    "gotime \<Rightarrow> gostring \<Rightarrow> int \<Rightarrow> gostring \<Rightarrow> usage_db \<Rightarrow> usage_db option billed" where
  "claimUsageBillingRequest now requestID apiKeyID fingerprint db =
     (case dedup db (requestID, apiKeyID) of
        Some (existing, _) \<Rightarrow> if trim_space existing \<noteq> trim_space fingerprint then Inl RequestConflict else Inr None
      | None \<Rightarrow>
          (case archive db (requestID, apiKeyID) of
             Some archived \<Rightarrow> if trim_space archived \<noteq> trim_space fingerprint then Inl RequestConflict else Inr None
           | None \<Rightarrow> Inr (Some (db\<lparr>dedup := (dedup db)((requestID, apiKeyID) \<mapsto> (fingerprint, now))\<rparr>))))"

subsection \<open>Charges\<close>

definition incrementUsageBillingSubscription :: "int \<Rightarrow> real \<Rightarrow> usage_tables \<Rightarrow> usage_tables billed" where
  "incrementUsageBillingSubscription i cost t =
     (case subs t i of
        None \<Rightarrow> Inl SubscriptionNotFound
      | Some (d, w, m) \<Rightarrow> Inr (t\<lparr>subs := (subs t)(i \<mapsto> (d + cost, w + cost, m + cost))\<rparr>))"

text \<open>The new balance, whether it sufficed, and the new tables. The two statements only differ in the guard.\<close>

definition deductUsageBillingBalance :: "int \<Rightarrow> real \<Rightarrow> usage_tables \<Rightarrow> (real \<times> bool \<times> usage_tables) billed" where
  "deductUsageBillingBalance i amount t =
     (case users t i of
        None \<Rightarrow> Inl UserNotFound
      | Some u \<Rightarrow>
          let t' = t\<lparr>users := (users t)(i \<mapsto> u\<lparr>UuBalance := UuBalance u - amount\<rparr>)\<rparr>
          in if amount \<le> UuBalance u then Inr (UuBalance u - amount, True, t')
             else Inr (UuBalance u - amount, False, t'))"

definition StatusAPIKeyActive :: gostring where "StatusAPIKeyActive = ''active''"
definition StatusAPIKeyQuotaExhausted :: gostring where "StatusAPIKeyQuotaExhausted = ''quota_exhausted''"

definition incrementUsageBillingAPIKeyQuota :: "int \<Rightarrow> real \<Rightarrow> usage_tables \<Rightarrow> (bool \<times> usage_tables) billed" where
  "incrementUsageBillingAPIKeyQuota i amount t =
     (case keys t i of
        None \<Rightarrow> Inl APIKeyNotFound
      | Some k \<Rightarrow>
          let used = UkQuotaUsed k + amount;
              status = (if UkQuota k > 0 \<and> UkStatus k = StatusAPIKeyActive \<and> UkQuotaUsed k < UkQuota k \<and> used \<ge> UkQuota k
                        then StatusAPIKeyQuotaExhausted else UkStatus k)
          in Inr (UkQuota k > 0 \<and> used \<ge> UkQuota k \<and> used - amount < UkQuota k,
                  t\<lparr>keys := (keys t)(i \<mapsto> k\<lparr>UkQuotaUsed := used, UkStatus := status\<rparr>)\<rparr>))"

text \<open>One window of a key: usage and start. The start of a new window is \<open>fresh\<close>.\<close>

definition billingWindow :: "gotime \<Rightarrow> gotime \<Rightarrow> real \<Rightarrow> goduration \<Rightarrow> real \<Rightarrow> gotime option \<Rightarrow> real \<times> gotime option" where
  "billingWindow now fresh cost d usage windowStart =
     ((case windowStart of Some w \<Rightarrow> if time_add w d \<le> now then cost else usage + cost | None \<Rightarrow> usage + cost),
      (case windowStart of None \<Rightarrow> Some fresh | Some w \<Rightarrow> if time_add w d \<le> now then Some fresh else Some w))"

definition billRateLimit :: "pg_env \<Rightarrow> gotime \<Rightarrow> real \<Rightarrow> APIKeyRateLimitData \<Rightarrow> APIKeyRateLimitData" where
  "billRateLimit p now cost d =
     (let (u5, w5) = billingWindow now now cost (5 * hour) (rl_Usage5h d) (rl_Window5hStart d);
          (u1, w1) = billingWindow now (pg_day p now) cost (24 * hour) (rl_Usage1d d) (rl_Window1dStart d);
          (u7, w7) = billingWindow now (pg_day p now) cost (7 * 24 * hour) (rl_Usage7d d) (rl_Window7dStart d)
      in d\<lparr>rl_Usage5h := u5, rl_Usage1d := u1, rl_Usage7d := u7,
           rl_Window5hStart := w5, rl_Window1dStart := w1, rl_Window7dStart := w7\<rparr>)"

definition incrementUsageBillingAPIKeyRateLimit :: "pg_env \<Rightarrow> gotime \<Rightarrow> int \<Rightarrow> real \<Rightarrow> usage_tables \<Rightarrow> usage_tables billed" where
  "incrementUsageBillingAPIKeyRateLimit p now i cost t =
     (case keys t i of
        None \<Rightarrow> Inl APIKeyNotFound
      | Some k \<Rightarrow> Inr (t\<lparr>keys := (keys t)(i \<mapsto> k\<lparr>UkRate := billRateLimit p now cost (UkRate k)\<rparr>)\<rparr>))"

subsection \<open>The quota of an account\<close>

text \<open>\<open>extra->>k\<close>, and its casts with a default; \<open>None\<close> for a cast that fails.\<close>

definition extra_text :: "pg_env \<Rightarrow> extra \<Rightarrow> gostring \<Rightarrow> gostring option" where
  "extra_text p ex k =
     (case ex k of
        None \<Rightarrow> None
      | Some JNull \<Rightarrow> None
      | Some (JNumber x) \<Rightarrow> Some (pg_number p x)
      | Some (JString s) \<Rightarrow> Some s
      | Some (JOther s) \<Rightarrow> Some s)"

definition text_or :: "pg_env \<Rightarrow> extra \<Rightarrow> gostring \<Rightarrow> gostring \<Rightarrow> gostring" where
  "text_or p ex k d = (case extra_text p ex k of Some s \<Rightarrow> s | None \<Rightarrow> d)"

definition num0 :: "pg_env \<Rightarrow> extra \<Rightarrow> gostring \<Rightarrow> real option" where
  "num0 p ex k =
     (case ex k of
        Some (JNumber x) \<Rightarrow> Some x
      | _ \<Rightarrow> (case extra_text p ex k of Some s \<Rightarrow> pg_numeric p s | None \<Rightarrow> Some 0))"

definition time_or_epoch :: "pg_env \<Rightarrow> extra \<Rightarrow> gostring \<Rightarrow> gotime option" where
  "time_or_epoch p ex k = pg_timestamp p (text_or p ex k ''1970-01-01'')"

definition int_or :: "pg_env \<Rightarrow> extra \<Rightarrow> gostring \<Rightarrow> int \<Rightarrow> int option" where
  "int_or p ex k d = (case extra_text p ex k of Some s \<Rightarrow> pg_int p s | None \<Rightarrow> Some d)"

definition expiredExpr :: "pg_env \<Rightarrow> gotime \<Rightarrow> extra \<Rightarrow> gostring \<Rightarrow> gostring \<Rightarrow> gostring \<Rightarrow> goduration \<Rightarrow> bool option" where
  "expiredExpr p now ex modeKey resetKey startKey d =
     (if text_or p ex modeKey ''rolling'' = ''fixed''
      then map_option (\<lambda>r. r \<le> now) (time_or_epoch p ex resetKey)
      else map_option (\<lambda>s. time_add s d \<le> now) (time_or_epoch p ex startKey))"

definition dailyExpiredExpr :: "pg_env \<Rightarrow> gotime \<Rightarrow> extra \<Rightarrow> bool option" where
  "dailyExpiredExpr p now ex =
     expiredExpr p now ex ''quota_daily_reset_mode'' ''quota_daily_reset_at'' ''quota_daily_start'' (24 * hour)"

definition weeklyExpiredExpr :: "pg_env \<Rightarrow> gotime \<Rightarrow> extra \<Rightarrow> bool option" where
  "weeklyExpiredExpr p now ex =
     expiredExpr p now ex ''quota_weekly_reset_mode'' ''quota_weekly_reset_at'' ''quota_weekly_start'' (168 * hour)"

text \<open>The local reset point of a day, and the truncating remainder of SQL.\<close>

definition resetPoint :: "pg_env \<Rightarrow> gotime \<Rightarrow> extra \<Rightarrow> gostring \<Rightarrow> (gotime \<times> gotime) option" where
  "resetPoint p now ex hourKey =
     (case (pg_local p (text_or p ex ''quota_reset_timezone'' ''UTC'') now, int_or p ex hourKey 0) of
        (Some lt, Some h) \<Rightarrow> Some (lt, lt - lt mod (24 * hour) + h * hour)
      | _ \<Rightarrow> None)"

definition sql_mod :: "int \<Rightarrow> int \<Rightarrow> int" where
  "sql_mod a b = (if a < 0 then - ((- a) mod b) else a mod b)"

text \<open>\<open>nextDailyResetAtExpr\<close> and \<open>nextWeeklyResetAtExpr\<close>: \<open>Some None\<close> for NULL.\<close>

definition nextDailyResetAtExpr :: "pg_env \<Rightarrow> gotime \<Rightarrow> extra \<Rightarrow> gostring option option" where
  "nextDailyResetAtExpr p now ex =
     (if text_or p ex ''quota_daily_reset_mode'' ''rolling'' \<noteq> ''fixed'' then Some None
      else let tz = text_or p ex ''quota_reset_timezone'' ''UTC'' in
        case resetPoint p now ex ''quota_daily_reset_hour'' of
          None \<Rightarrow> None
        | Some (lt, point) \<Rightarrow>
            (case pg_global p tz point of
               None \<Rightarrow> None
             | Some g \<Rightarrow> map_option (\<lambda>t. Some (pg_show_seconds p t))
                            (if g \<le> now then pg_global p tz (point + 24 * hour) else Some g)))"

definition nextWeeklyResetAtExpr :: "pg_env \<Rightarrow> gotime \<Rightarrow> extra \<Rightarrow> gostring option option" where
  "nextWeeklyResetAtExpr p now ex =
     (if text_or p ex ''quota_weekly_reset_mode'' ''rolling'' \<noteq> ''fixed'' then Some None
      else let tz = text_or p ex ''quota_reset_timezone'' ''UTC'' in
        case (resetPoint p now ex ''quota_weekly_reset_hour'', int_or p ex ''quota_weekly_reset_day'' 1) of
          (Some (lt, point), Some target) \<Rightarrow>
            (let forward = sql_mod (target - (lt div (24 * hour) + 1) mod 7 + 7) 7
             in case pg_global p tz point of
                  None \<Rightarrow> None
                | Some g \<Rightarrow> map_option (\<lambda>t. Some (pg_show_seconds p t))
                    (pg_global p tz (if forward = 0 \<and> g \<le> now then point + 7 * (24 * hour) else point + forward * (24 * hour))))
        | _ \<Rightarrow> None)"

text \<open>The three parts of the statement; every expression reads the old row.\<close>

definition accountQuotaTotalIncrementExpr :: "pg_env \<Rightarrow> real \<Rightarrow> extra \<Rightarrow> extra option" where
  "accountQuotaTotalIncrementExpr p amount ex =
     map_option (\<lambda>used. ex(''quota_used'' \<mapsto> JNumber (used + amount))) (num0 p ex ''quota_used'')"

definition windowPart :: "pg_env \<Rightarrow> gotime \<Rightarrow> real \<Rightarrow> extra \<Rightarrow> gostring \<Rightarrow> gostring \<Rightarrow> gostring \<Rightarrow> gostring \<Rightarrow> bool option \<Rightarrow>
    gostring option option \<Rightarrow> extra \<Rightarrow> extra option" where
  "windowPart p now amount ex limitKey usedKey startKey resetKey expired nextReset acc =
     (case num0 p ex limitKey of
        None \<Rightarrow> None
      | Some limit \<Rightarrow>
          if limit \<le> 0 then Some acc
          else case expired of
            None \<Rightarrow> None
          | Some True \<Rightarrow>
              (let acc' = acc(usedKey \<mapsto> JNumber amount, startKey \<mapsto> JString (pg_show p now))
               in map_option (\<lambda>r. case r of Some at_ \<Rightarrow> acc'(resetKey \<mapsto> JString at_) | None \<Rightarrow> acc') nextReset)
          | Some False \<Rightarrow>
              map_option (\<lambda>used. acc(usedKey \<mapsto> JNumber (used + amount), startKey \<mapsto> JString (text_or p ex startKey (pg_show p now))))
                (num0 p ex usedKey))"

definition accountQuotaDailyIncrementExpr :: "pg_env \<Rightarrow> gotime \<Rightarrow> real \<Rightarrow> extra \<Rightarrow> extra \<Rightarrow> extra option" where
  "accountQuotaDailyIncrementExpr p now amount ex acc =
     windowPart p now amount ex ''quota_daily_limit'' ''quota_daily_used'' ''quota_daily_start'' ''quota_daily_reset_at''
       (dailyExpiredExpr p now ex) (nextDailyResetAtExpr p now ex) acc"

definition accountQuotaWeeklyIncrementExpr :: "pg_env \<Rightarrow> gotime \<Rightarrow> real \<Rightarrow> extra \<Rightarrow> extra \<Rightarrow> extra option" where
  "accountQuotaWeeklyIncrementExpr p now amount ex acc =
     windowPart p now amount ex ''quota_weekly_limit'' ''quota_weekly_used'' ''quota_weekly_start'' ''quota_weekly_reset_at''
       (weeklyExpiredExpr p now ex) (nextWeeklyResetAtExpr p now ex) acc"

definition limitUnsetCond :: "extra \<Rightarrow> gostring \<Rightarrow> bool" where
  "limitUnsetCond ex k = (case ex k of None \<Rightarrow> True | Some JNull \<Rightarrow> True | Some (JNumber x) \<Rightarrow> x \<le> 0 | _ \<Rightarrow> False)"

record AccountQuotaState =
  QsTotalUsed :: real
  QsTotalLimit :: real
  QsDailyUsed :: real
  QsDailyLimit :: real
  QsWeeklyUsed :: real
  QsWeeklyLimit :: real

definition quotaStateOf :: "pg_env \<Rightarrow> extra \<Rightarrow> AccountQuotaState option" where
  "quotaStateOf p ex =
     (case (num0 p ex ''quota_used'', num0 p ex ''quota_limit'', num0 p ex ''quota_daily_used'', num0 p ex ''quota_daily_limit'',
            num0 p ex ''quota_weekly_used'', num0 p ex ''quota_weekly_limit'') of
        (Some tu, Some tmax, Some du, Some dmax, Some wu, Some wmax) \<Rightarrow>
          Some \<lparr>QsTotalUsed = tu, QsTotalLimit = tmax, QsDailyUsed = du, QsDailyLimit = dmax, QsWeeklyUsed = wu, QsWeeklyLimit = wmax\<rparr>
      | _ \<Rightarrow> None)"

text \<open>
  One of the four statements of \<open>buildAccountQuotaIncrementSQLs\<close>, executed: an error, no row, or the
  returned state and the new column.
\<close>

definition execAccountQuotaIncrement ::
    "pg_env \<Rightarrow> gotime \<Rightarrow> real \<Rightarrow> bool \<Rightarrow> bool \<Rightarrow> int \<Rightarrow> usage_tables \<Rightarrow> (AccountQuotaState \<times> usage_tables) option billed" where
  "execAccountQuotaIncrement p now amount daily weekly i t =
     (case accounts t i of
        None \<Rightarrow> Inr None
      | Some column \<Rightarrow>
          let ex = (case column of Some m \<Rightarrow> m | None \<Rightarrow> Map.empty) in
          if (\<not> daily \<or> \<not> weekly) \<and> Option.is_none column then Inr None
          else if \<not> daily \<and> \<not> limitUnsetCond ex ''quota_daily_limit'' then Inr None
          else if \<not> weekly \<and> \<not> limitUnsetCond ex ''quota_weekly_limit'' then Inr None
          else (case Option.bind (accountQuotaTotalIncrementExpr p amount ex) (\<lambda>a1.
                     Option.bind (if daily then accountQuotaDailyIncrementExpr p now amount ex a1 else Some a1) (\<lambda>a2.
                       if weekly then accountQuotaWeeklyIncrementExpr p now amount ex a2 else Some a2)) of
                  None \<Rightarrow> Inl BillingDbError
                | Some ex' \<Rightarrow>
                    (case quotaStateOf p ex' of
                       None \<Rightarrow> Inl BillingDbError
                     | Some state \<Rightarrow> Inr (Some (state, t\<lparr>accounts := (accounts t)(i \<mapsto> Some ex')\<rparr>)))))"

definition crossed :: "real \<Rightarrow> real \<Rightarrow> real \<Rightarrow> bool" where
  "crossed limit used amount \<longleftrightarrow> limit > 0 \<and> used \<ge> limit \<and> used - amount < limit"

definition incrementUsageBillingAccountQuota ::
    "pg_env \<Rightarrow> gotime \<Rightarrow> int \<Rightarrow> real \<Rightarrow> bool \<Rightarrow> bool \<Rightarrow> usage_tables \<Rightarrow> (AccountQuotaState \<times> usage_tables) billed" where
  "incrementUsageBillingAccountQuota p now i amount hasDaily hasWeekly t =
     bind_ok (execAccountQuotaIncrement p now amount hasDaily hasWeekly i t) (\<lambda>first.
       bind_ok (if Option.is_none first \<and> \<not> (hasDaily \<and> hasWeekly) then execAccountQuotaIncrement p now amount True True i t else Inr first)
         (\<lambda>found. case found of
            None \<Rightarrow> Inl AccountNotFound
          | Some (state, t') \<Rightarrow>
              Inr (state,
                if crossed (QsTotalLimit state) (QsTotalUsed state) amount \<or> crossed (QsDailyLimit state) (QsDailyUsed state) amount \<or>
                   crossed (QsWeeklyLimit state) (QsWeeklyUsed state) amount
                then t'\<lparr>outbox := List.insert i (outbox t')\<rparr> else t')))"

subsection \<open>The transaction of a charge\<close>

definition AccountTypeServiceAccount :: gostring where "AccountTypeServiceAccount = ''service_account''"

definition AccountTypeSupportsQuota :: "gostring \<Rightarrow> bool" where
  "AccountTypeSupportsQuota accountType \<longleftrightarrow>
     to_lower (trim_space accountType) \<in> {AccountTypeAPIKey, AccountTypeBedrock, AccountTypeKiro, AccountTypeServiceAccount}"

record UsageBillingApplyResult =
  UrApplied :: bool
  UrAPIKeyQuotaExhausted :: bool
  UrNewBalance :: "real option"
  UrBalanceOverdrafted :: bool
  UrQuotaState :: "AccountQuotaState option"

definition noResult :: "bool \<Rightarrow> UsageBillingApplyResult" where
  "noResult applied = \<lparr>UrApplied = applied, UrAPIKeyQuotaExhausted = False, UrNewBalance = None, UrBalanceOverdrafted = False,
     UrQuotaState = None\<rparr>"

text \<open>A part whose row is gone is skipped.\<close>

definition skipMissing :: "usage_error \<Rightarrow> 'a billed \<Rightarrow> 'a \<Rightarrow> 'a billed" where
  "skipMissing e r old = (case r of Inl e' \<Rightarrow> if e' = e then Inr old else Inl e' | Inr x \<Rightarrow> Inr x)"

definition chargeSubscription :: "UsageBillingCommand \<Rightarrow> usage_tables \<Rightarrow> usage_tables billed" where
  "chargeSubscription c t =
     (case UcSubscriptionID c of
        Some i \<Rightarrow> if UcSubscriptionCost c > 0 then incrementUsageBillingSubscription i (UcSubscriptionCost c) t else Inr t
      | None \<Rightarrow> Inr t)"

definition chargeBalance ::
    "UsageBillingCommand \<Rightarrow> UsageBillingApplyResult \<Rightarrow> usage_tables \<Rightarrow> (UsageBillingApplyResult \<times> usage_tables) billed" where
  "chargeBalance c r t =
     (if UcBalanceCost c > 0 then
        bind_ok (deductUsageBillingBalance (UcUserID c) (UcBalanceCost c) t)
          (\<lambda>(b, sufficient, t'). Inr (r\<lparr>UrNewBalance := Some b, UrBalanceOverdrafted := \<not> sufficient\<rparr>, t'))
      else Inr (r, t))"

definition chargeKeyQuota ::
    "UsageBillingCommand \<Rightarrow> UsageBillingApplyResult \<Rightarrow> usage_tables \<Rightarrow> (UsageBillingApplyResult \<times> usage_tables) billed" where
  "chargeKeyQuota c r t =
     (if UcAPIKeyQuotaCost c > 0 then
        bind_ok (skipMissing APIKeyNotFound (incrementUsageBillingAPIKeyQuota (UcAPIKeyID c) (UcAPIKeyQuotaCost c) t) (False, t))
          (\<lambda>(exhausted, t'). Inr (r\<lparr>UrAPIKeyQuotaExhausted := exhausted\<rparr>, t'))
      else Inr (r, t))"

definition chargeKeyRate :: "pg_env \<Rightarrow> gotime \<Rightarrow> UsageBillingCommand \<Rightarrow> usage_tables \<Rightarrow> usage_tables billed" where
  "chargeKeyRate p now c t =
     (if UcAPIKeyRateLimitCost c > 0
      then skipMissing APIKeyNotFound (incrementUsageBillingAPIKeyRateLimit p now (UcAPIKeyID c) (UcAPIKeyRateLimitCost c) t) t
      else Inr t)"

definition chargeAccountQuota ::
    "pg_env \<Rightarrow> gotime \<Rightarrow> UsageBillingCommand \<Rightarrow> UsageBillingApplyResult \<Rightarrow> usage_tables \<Rightarrow> (UsageBillingApplyResult \<times> usage_tables) billed" where
  "chargeAccountQuota p now c r t =
     (if UcAccountQuotaCost c > 0 \<and> AccountTypeSupportsQuota (UcAccountType c) then
        (case incrementUsageBillingAccountQuota p now (UcAccountID c) (UcAccountQuotaCost c) (UcAccountQuotaHasDailyLimit c)
                (UcAccountQuotaHasWeeklyLimit c) t of
           Inr (state, t') \<Rightarrow> Inr (r\<lparr>UrQuotaState := Some state\<rparr>, t')
         | Inl e \<Rightarrow> if e = AccountNotFound then Inr (r, t) else Inl e)
      else Inr (r, t))"

definition applyUsageBillingEffects ::
    "pg_env \<Rightarrow> gotime \<Rightarrow> UsageBillingCommand \<Rightarrow> usage_tables \<Rightarrow> (UsageBillingApplyResult \<times> usage_tables) billed" where
  "applyUsageBillingEffects p now c t =
     bind_ok (chargeSubscription c t) (\<lambda>t1.
     bind_ok (chargeBalance c (noResult True) t1) (\<lambda>(r2, t2).
     bind_ok (chargeKeyQuota c r2 t2) (\<lambda>(r3, t3).
     bind_ok (chargeKeyRate p now c t3) (\<lambda>t4.
       chargeAccountQuota p now c r3 t4))))"

text \<open>
  The transaction \<open>Apply\<close> and \<open>applyBatchImageBalanceHold\<close> share: claim, effects, commit. A claim that
  fails or finds the request claimed rolls back, as does a failing effect; a commit whose reply is
  lost has taken effect. \<open>body\<close> runs on the database with the claim.
\<close>

definition claimedTx ::
    "gotime \<Rightarrow> db_outcome \<Rightarrow> gostring \<Rightarrow> int \<Rightarrow> gostring \<Rightarrow> 'a \<Rightarrow> (usage_db \<Rightarrow> ('a \<times> usage_tables \<times> usage_effect) billed) \<Rightarrow>
     usage_db \<Rightarrow> 'a billed \<times> usage_db" where
  "claimedTx now x requestID apiKeyID fingerprint notApplied body db =
     (if requestID = [] then (Inl RequestIDRequired, db)
      else case claimUsageBillingRequest now requestID apiKeyID fingerprint db of
        Inl e \<Rightarrow> (Inl e, db)
      | Inr None \<Rightarrow> (if x = DbError then Inl BillingDbError else Inr notApplied, db)
      | Inr (Some db1) \<Rightarrow>
          (case body db1 of
             Inl e \<Rightarrow> (Inl e, db)
           | Inr (r, t, e) \<Rightarrow>
               (if reply_ok x then Inr r else Inl BillingDbError,
                written x db (db1\<lparr>tables := t, effects := ((requestID, apiKeyID), fingerprint, now, e) # effects db1\<rparr>))))"

definition ApplyUsage ::
    "pg_env \<Rightarrow> gotime \<Rightarrow> db_outcome \<Rightarrow> UsageBillingCommand \<Rightarrow> usage_db \<Rightarrow> UsageBillingApplyResult billed \<times> usage_db" where
  "ApplyUsage p now x cmd db =
     (let c = NormalizeCommand p cmd
      in claimedTx now x (UcRequestID c) (UcAPIKeyID c) (UcRequestFingerprint c) (noResult False)
           (\<lambda>db1. bind_ok (applyUsageBillingEffects p now c (tables db1)) (\<lambda>(r, t). Inr (r, t, Charge c))) db)"

subsection \<open>Holds of batch images\<close>

record BatchImageBalanceHoldResult =
  HrApplied :: bool
  HrNewBalance :: "real option"
  HrFrozenBalance :: "real option"

definition frozenOf :: "usage_user \<Rightarrow> real" where
  "frozenOf u = (case UuFrozen u of Some f \<Rightarrow> f | None \<Rightarrow> 0)"

definition setMoney :: "int \<Rightarrow> real \<Rightarrow> real \<Rightarrow> usage_tables \<Rightarrow> usage_tables" where
  "setMoney i b f t = t\<lparr>users := (users t)(i \<mapsto> \<lparr>UuBalance = b, UuFrozen = Some f\<rparr>)\<rparr>"

definition moneyResult :: "real \<Rightarrow> real \<Rightarrow> BatchImageBalanceHoldResult" where
  "moneyResult b f = \<lparr>HrApplied = True, HrNewBalance = Some b, HrFrozenBalance = Some f\<rparr>"

definition noMoney :: "bool \<Rightarrow> BatchImageBalanceHoldResult" where
  "noMoney applied = \<lparr>HrApplied = applied, HrNewBalance = None, HrFrozenBalance = None\<rparr>"

definition reserveUsageBillingBatchImageBalance ::
    "BatchImageBalanceHoldCommand \<Rightarrow> usage_tables \<Rightarrow> (BatchImageBalanceHoldResult \<times> usage_tables) billed" where
  "reserveUsageBillingBatchImageBalance c t =
     (if HcHoldAmount c \<le> 0 then Inr (noMoney True, t)
      else case users t (HcUserID c) of
        None \<Rightarrow> Inl UserNotFound
      | Some u \<Rightarrow>
          if UuBalance u \<ge> HcHoldAmount c
          then let b = UuBalance u - HcHoldAmount c; f = frozenOf u + HcHoldAmount c
               in Inr (moneyResult b f, setMoney (HcUserID c) b f t)
          else Inl InsufficientBalance)"

definition captureUsageBillingBatchImageBalance ::
    "BatchImageBalanceHoldCommand \<Rightarrow> usage_tables \<Rightarrow> (BatchImageBalanceHoldResult \<times> usage_tables) billed" where
  "captureUsageBillingBatchImageBalance c t =
     (let hold = HcHoldAmount c; actual = HcActualAmount c in
      if hold \<le> 0 \<and> actual \<le> 0 then Inr (noMoney True, t)
      else if actual - hold > 1 / 10 ^ 8 then Inl CostExceedsHold
      else case users t (HcUserID c) of
        None \<Rightarrow> Inl UserNotFound
      | Some u \<Rightarrow>
          if frozenOf u \<ge> hold
          then let b = UuBalance u + (if hold > actual then hold - actual else 0) - (if actual > hold then actual - hold else 0);
                   f = frozenOf u - hold
               in Inr (moneyResult b f, setMoney (HcUserID c) b f t)
          else Inl FrozenInsufficient)"

definition BatchImageHoldRequestID :: "gostring \<Rightarrow> gostring" where
  "BatchImageHoldRequestID batchID = ''batch_image_hold:'' @ trim_space batchID"

definition BatchImageCaptureRequestID :: "gostring \<Rightarrow> gostring" where
  "BatchImageCaptureRequestID batchID = ''batch_image_capture:'' @ trim_space batchID"

definition BatchImageReleaseRequestID :: "gostring \<Rightarrow> gostring" where
  "BatchImageReleaseRequestID batchID = ''batch_image_release:'' @ trim_space batchID"

definition batchImageHoldClaimExists :: "usage_db \<Rightarrow> gostring \<Rightarrow> int \<Rightarrow> bool" where
  "batchImageHoldClaimExists db holdRequestID apiKeyID \<longleftrightarrow>
     dedup db (holdRequestID, apiKeyID) \<noteq> None \<or> archive db (holdRequestID, apiKeyID) \<noteq> None"

text \<open>\<open>held\<close>: whether the claim of the hold exists.\<close>

definition releaseUsageBillingBatchImageBalance ::
    "bool \<Rightarrow> BatchImageBalanceHoldCommand \<Rightarrow> usage_tables \<Rightarrow> (BatchImageBalanceHoldResult \<times> usage_tables) billed" where
  "releaseUsageBillingBatchImageBalance held c t =
     (if HcHoldAmount c \<le> 0 then Inr (noMoney True, t)
      else if \<not> held then Inr (noMoney True, t)
      else case users t (HcUserID c) of
        None \<Rightarrow> Inl UserNotFound
      | Some u \<Rightarrow>
          if frozenOf u \<ge> HcHoldAmount c
          then let b = UuBalance u + HcHoldAmount c; f = frozenOf u - HcHoldAmount c
               in Inr (moneyResult b f, setMoney (HcUserID c) b f t)
          else Inl FrozenInsufficient)"

text \<open>What a claimed effect does to the tables.\<close>

fun holdEffect :: "usage_effect \<Rightarrow> usage_tables \<Rightarrow> (BatchImageBalanceHoldResult \<times> usage_tables) billed" where
  "holdEffect (Hold c) t = reserveUsageBillingBatchImageBalance c t"
| "holdEffect (Capture c) t = captureUsageBillingBatchImageBalance c t"
| "holdEffect (ReleaseHold c held) t = releaseUsageBillingBatchImageBalance held c t"
| "holdEffect (Charge c) t = Inr (noMoney True, t)"

definition applyBatchImageBalanceHold ::
    "pg_env \<Rightarrow> gotime \<Rightarrow> db_outcome \<Rightarrow> BatchImageBalanceHoldCommand \<Rightarrow>
     (usage_db \<Rightarrow> BatchImageBalanceHoldCommand \<Rightarrow> usage_effect) \<Rightarrow> usage_db \<Rightarrow> BatchImageBalanceHoldResult billed \<times> usage_db" where
  "applyBatchImageBalanceHold p now x cmd kind db =
     (let c = NormalizeHold p cmd
      in claimedTx now x (HcRequestID c) (HcAPIKeyID c) (HcRequestFingerprint c) (noMoney False)
           (\<lambda>db1. bind_ok (holdEffect (kind db1 c) (tables db1)) (\<lambda>(r, t). Inr (r, t, kind db1 c))) db)"

definition ReserveBatchImageBalance ::
    "pg_env \<Rightarrow> gotime \<Rightarrow> db_outcome \<Rightarrow> BatchImageBalanceHoldCommand \<Rightarrow> usage_db \<Rightarrow> BatchImageBalanceHoldResult billed \<times> usage_db" where
  "ReserveBatchImageBalance p now x cmd db = applyBatchImageBalanceHold p now x cmd (\<lambda>_. Hold) db"

definition CaptureBatchImageBalance ::
    "pg_env \<Rightarrow> gotime \<Rightarrow> db_outcome \<Rightarrow> BatchImageBalanceHoldCommand \<Rightarrow> usage_db \<Rightarrow> BatchImageBalanceHoldResult billed \<times> usage_db" where
  "CaptureBatchImageBalance p now x cmd db = applyBatchImageBalanceHold p now x cmd (\<lambda>_. Capture) db"

definition ReleaseBatchImageBalance ::
    "pg_env \<Rightarrow> gotime \<Rightarrow> db_outcome \<Rightarrow> BatchImageBalanceHoldCommand \<Rightarrow> usage_db \<Rightarrow> BatchImageBalanceHoldResult billed \<times> usage_db" where
  "ReleaseBatchImageBalance p now x cmd db =
     applyBatchImageBalanceHold p now x cmd
       (\<lambda>db1 c. ReleaseHold c (batchImageHoldClaimExists db1 (BatchImageHoldRequestID (HcBatchID c)) (HcAPIKeyID c))) db"

subsection \<open>Archiving old claims\<close>

text \<open>One batch of \<open>CleanupUsageBillingDedup\<close>: the database picks rows older than the cutoff.\<close>

definition CleanupUsageBillingDedup :: "gotime \<Rightarrow> request_key list \<Rightarrow> usage_db \<Rightarrow> usage_db" where
  "CleanupUsageBillingDedup cutoff picked db =
     (let victim = (\<lambda>k. k \<in> set picked \<and> (case dedup db k of Some (_, created) \<Rightarrow> created < cutoff | None \<Rightarrow> False))
      in db\<lparr>archive := (\<lambda>k. if victim k \<and> archive db k = None then map_option fst (dedup db k) else archive db k),
            dedup := (\<lambda>k. if victim k then None else dedup db k)\<rparr>)"

end
