(* ===== verification/BatchImage.thy ===== *)
theory BatchImage
  imports UsageBilling
begin

text \<open>
  Batches of images: \<open>service/batch_image.go\<close>, \<open>batch_image_billing_hold.go\<close>,
  \<open>batch_image_billing_recovery.go\<close>, \<open>batch_image_settlement.go\<close>, \<open>Submit\<close> and \<open>Cancel\<close> of
  \<open>batch_image_public.go\<close>, \<open>Process\<close> of \<open>batch_image_processor.go\<close> and the statements of
  \<open>repository/batch_image_repo.go\<close> they use.

  \<^item> A handler is a program of steps: every step is one call to the database, the provider or the
    queue. \<open>BatchWorld\<close> interleaves the steps of all handlers.
  \<^item> \<open>batch_env\<close> says what the outside answers in a step: how a transaction ends, whether the other
    calls succeed, what the provider and the indexer report.
  \<^item> The status of a job is a datatype; the empty status, which no row has, is left out. Of a job's
    columns those are kept that the handlers read or that money depends on; events, logs, the usage
    log and the invalidation of the key cache are not modelled.
\<close>

subsection \<open>Jobs\<close>

datatype batch_status = JobCreated | JobUploading | JobSubmitted | JobRunning | JobIndexing | JobSettling
  | JobCompleted | JobFailed | JobCancelled | JobOutputDeleted

definition IsTerminalBatchImageJobStatus :: "batch_status \<Rightarrow> bool" where
  "IsTerminalBatchImageJobStatus s \<longleftrightarrow> s \<in> {JobCompleted, JobFailed, JobCancelled, JobOutputDeleted}"

definition CanTransitionBatchImageJob :: "batch_status \<Rightarrow> batch_status \<Rightarrow> bool" where
  "CanTransitionBatchImageJob s t =
     (if IsTerminalBatchImageJobStatus s then t = JobOutputDeleted \<and> s \<noteq> JobOutputDeleted
      else if t = JobFailed then True
      else (s, t) \<in> {(JobCreated, JobUploading), (JobCreated, JobSubmitted), (JobCreated, JobCancelled),
        (JobUploading, JobSubmitted), (JobUploading, JobCancelled),
        (JobSubmitted, JobRunning), (JobSubmitted, JobIndexing), (JobSubmitted, JobCancelled),
        (JobRunning, JobRunning), (JobRunning, JobIndexing), (JobRunning, JobCancelled),
        (JobIndexing, JobSettling), (JobSettling, JobCompleted)})"

definition isBatchImageProcessorDoneStatus :: "batch_status \<Rightarrow> bool" where
  "isBatchImageProcessorDoneStatus s \<longleftrightarrow> s = JobSettling \<or> IsTerminalBatchImageJobStatus s"

record BatchImageJob =
  BiBatchID :: gostring
  BiUserID :: int
  BiAPIKeyID :: "int option"
  BiAccountID :: "int option"
  BiProvider :: gostring
  BiModel :: gostring
  BiStatus :: batch_status
  BiProviderJobName :: "gostring option"
  BiProviderOutputRef :: "gostring option"
  BiItemCount :: int
  BiSuccessCount :: int
  BiFailCount :: int
  BiEstimatedCost :: real
  BiHoldAmount :: "real option"
  BiActualCost :: "real option"
  BiBillableUnitPrice :: real
  BiPricingSnapshotVersion :: int
  BiRequestHash :: "gostring option"
  BiManifestHash :: "gostring option"
  BiRetryCount :: int
  BiLastErrorCode :: "gostring option"
  BiUserDeleted :: bool
  BiUpdatedAt :: gotime

type_synonym jobs = "gostring \<Rightarrow> BatchImageJob option"

definition batchImageDerefString :: "gostring option \<Rightarrow> gostring" where
  "batchImageDerefString v = (case v of Some s \<Rightarrow> s | None \<Rightarrow> [])"

text \<open>\<open>NewBatchImageID\<close> on the bytes it draws.\<close>

definition NewBatchImageID :: "gostring \<Rightarrow> gostring" where
  "NewBatchImageID b = ''imgbatch_'' @ hex_encode b"

subsection \<open>The repository\<close>

datatype batch_error = JobNotFound | InvalidTransition | JobExists | IndexStateConflict | AlreadySettled
  | SettlementInvalidStatus | SettlementManifestConflict | BatchDbError

definition updateJob :: "gostring \<Rightarrow> (BatchImageJob \<Rightarrow> batch_error + BatchImageJob) \<Rightarrow> jobs \<Rightarrow> batch_error + jobs" where
  "updateJob bid f js =
     (case js bid of
        None \<Rightarrow> Inl JobNotFound
      | Some j \<Rightarrow> (case f j of Inl e \<Rightarrow> Inl e | Inr j' \<Rightarrow> Inr (js(bid \<mapsto> j'))))"

definition CreateBatchImageJob :: "BatchImageJob \<Rightarrow> jobs \<Rightarrow> batch_error + jobs" where
  "CreateBatchImageJob j js = (if js (BiBatchID j) \<noteq> None then Inl JobExists else Inr (js(BiBatchID j \<mapsto> j)))"

definition TransitionBatchImageJobStatus :: "gotime \<Rightarrow> gostring \<Rightarrow> batch_status \<Rightarrow> gostring option \<Rightarrow> jobs \<Rightarrow> batch_error + jobs" where
  "TransitionBatchImageJobStatus now bid to code =
     updateJob bid (\<lambda>j.
       if \<not> CanTransitionBatchImageJob (BiStatus j) to then Inl InvalidTransition
       else Inr (j\<lparr>BiStatus := to, BiUpdatedAt := now,
                   BiLastErrorCode := if to = JobFailed then code else BiLastErrorCode j\<rparr>))"

text \<open>An update with a guard in its WHERE clause; it also says whether a row was hit.\<close>

definition updateWhere :: "gostring \<Rightarrow> (BatchImageJob \<Rightarrow> bool) \<Rightarrow> (BatchImageJob \<Rightarrow> BatchImageJob) \<Rightarrow> jobs \<Rightarrow> jobs" where
  "updateWhere bid P f js = (case js bid of Some j \<Rightarrow> if P j then js(bid \<mapsto> f j) else js | None \<Rightarrow> js)"

definition rowHit :: "gostring \<Rightarrow> (BatchImageJob \<Rightarrow> bool) \<Rightarrow> jobs \<Rightarrow> bool" where
  "rowHit bid P js = (case js bid of Some j \<Rightarrow> P j | None \<Rightarrow> False)"

definition TouchBatchImageJobSubmitting :: "gotime \<Rightarrow> gostring \<Rightarrow> jobs \<Rightarrow> jobs" where
  "TouchBatchImageJobSubmitting now bid =
     updateWhere bid (\<lambda>j. BiStatus j \<in> {JobCreated, JobUploading}) (\<lambda>j. j\<lparr>BiUpdatedAt := now\<rparr>)"

definition staleUnsubmitted :: "gotime \<Rightarrow> BatchImageJob \<Rightarrow> bool" where
  "staleUnsubmitted cutoff j \<longleftrightarrow>
     BiStatus j \<in> {JobCreated, JobUploading} \<and> BiProviderJobName j = None \<and> BiUpdatedAt j \<le> cutoff"

definition FailStaleUnsubmittedBatchImageJob :: "gotime \<Rightarrow> gostring \<Rightarrow> gotime \<Rightarrow> jobs \<Rightarrow> jobs" where
  "FailStaleUnsubmittedBatchImageJob now bid cutoff =
     updateWhere bid (staleUnsubmitted cutoff)
       (\<lambda>j. j\<lparr>BiStatus := JobFailed, BiLastErrorCode := Some ''SUBMIT_STALE_BEFORE_PROVIDER'', BiUpdatedAt := now\<rparr>)"

definition ListStaleUnsubmittedBatchImageJobs :: "gotime \<Rightarrow> BatchImageJob \<Rightarrow> bool" where
  "ListStaleUnsubmittedBatchImageJobs cutoff j \<longleftrightarrow>
     staleUnsubmitted cutoff j \<and> (case BiHoldAmount j of Some h \<Rightarrow> h | None \<Rightarrow> BiEstimatedCost j) > 0"

definition UpdateBatchImageJobProviderOutputRef :: "gotime \<Rightarrow> gostring \<Rightarrow> gostring \<Rightarrow> jobs \<Rightarrow> batch_error + jobs" where
  "UpdateBatchImageJobProviderOutputRef now bid ref =
     updateJob bid (\<lambda>j. Inr (j\<lparr>BiProviderOutputRef := Some ref, BiUpdatedAt := now\<rparr>))"

definition UpdateBatchImageJobProviderSubmit :: "gotime \<Rightarrow> gostring \<Rightarrow> gostring \<Rightarrow> gostring \<Rightarrow> jobs \<Rightarrow> batch_error + jobs" where
  "UpdateBatchImageJobProviderSubmit now bid jobName outputRef =
     updateJob bid (\<lambda>j.
       if \<not> CanTransitionBatchImageJob (BiStatus j) JobSubmitted then Inl InvalidTransition
       else Inr (j\<lparr>BiStatus := JobSubmitted, BiProviderJobName := Some jobName,
                   BiProviderOutputRef := if outputRef = [] then None else Some outputRef, BiUpdatedAt := now\<rparr>))"

definition RecordBatchImageJobSubmitFailure :: "gotime \<Rightarrow> gostring \<Rightarrow> gostring \<Rightarrow> bool \<Rightarrow> jobs \<Rightarrow> jobs" where
  "RecordBatchImageJobSubmitFailure now bid code markFailed =
     updateWhere bid (\<lambda>_. True)
       (\<lambda>j. j\<lparr>BiStatus := if markFailed then JobFailed else BiStatus j, BiLastErrorCode := Some code, BiUpdatedAt := now\<rparr>)"

definition MarkBatchImageJobSettled :: "gotime \<Rightarrow> gostring \<Rightarrow> real \<Rightarrow> gostring \<Rightarrow> jobs \<Rightarrow> batch_error + jobs" where
  "MarkBatchImageJobSettled now bid cost manifest =
     updateJob bid (\<lambda>j.
       if BiStatus j = JobSettling \<and> batchImageDerefString (BiManifestHash j) \<in> {[], manifest}
       then Inr (j\<lparr>BiStatus := JobCompleted, BiActualCost := Some cost, BiManifestHash := Some manifest, BiUpdatedAt := now\<rparr>)
       else if BiStatus j \<noteq> JobSettling
       then Inl (if BiStatus j = JobCompleted then AlreadySettled else SettlementInvalidStatus)
       else Inl SettlementManifestConflict)"

definition SetBatchImageJobSettlementFailed :: "gotime \<Rightarrow> gostring \<Rightarrow> gostring \<Rightarrow> jobs \<Rightarrow> batch_error + jobs" where
  "SetBatchImageJobSettlementFailed now bid code =
     updateJob bid (\<lambda>j. Inr (j\<lparr>BiLastErrorCode := Some code, BiRetryCount := BiRetryCount j + 1, BiUpdatedAt := now\<rparr>))"

definition ReplaceBatchImageItemsForJob :: "gotime \<Rightarrow> gostring \<Rightarrow> int \<Rightarrow> int \<Rightarrow> jobs \<Rightarrow> batch_error + jobs" where
  "ReplaceBatchImageItemsForJob now bid success fail =
     updateJob bid (\<lambda>j.
       if BiStatus j \<noteq> JobIndexing then Inl IndexStateConflict
       else Inr (j\<lparr>BiSuccessCount := success, BiFailCount := fail, BiUpdatedAt := now\<rparr>))"

definition MarkBatchImageOutputDeleted :: "gotime \<Rightarrow> gostring \<Rightarrow> jobs \<Rightarrow> batch_error + jobs" where
  "MarkBatchImageOutputDeleted now bid =
     updateJob bid (\<lambda>j. Inr (j\<lparr>BiStatus := if BiStatus j = JobCompleted then JobOutputDeleted else BiStatus j, BiUpdatedAt := now\<rparr>))"

definition MarkBatchImageJobUserDeleted :: "gotime \<Rightarrow> int \<Rightarrow> int \<Rightarrow> gostring \<Rightarrow> jobs \<Rightarrow> jobs" where
  "MarkBatchImageJobUserDeleted now user key bid =
     updateWhere bid (\<lambda>j. BiUserID j = user \<and> BiAPIKeyID j = Some key \<and> \<not> BiUserDeleted j \<and> IsTerminalBatchImageJobStatus (BiStatus j))
       (\<lambda>j. j\<lparr>BiUserDeleted := True, BiUpdatedAt := now\<rparr>)"

subsection \<open>The state, and one call\<close>

record batch_world =
  bw_usage :: usage_db
  bw_jobs :: jobs
  bw_queue :: "gostring list"

datatype provider_state = PsQueued | PsRunning | PsSucceeded | PsFailed | PsExpired | PsCancelled | PsOther

record provider_status =
  ps_state :: provider_state
  ps_output_ref :: gostring
  ps_error_code :: gostring

datatype index_answer = Indexed int int | IndexOutputMissing | IndexDuplicate | IndexFailed

record batch_env =
  be_db :: db_outcome
  be_now :: gotime
  be_ok :: bool
  be_submit :: "gostring + gostring \<times> gostring"
  be_status :: "provider_status option option"
  be_index :: index_answer

definition jobsTx :: "batch_env \<Rightarrow> (jobs \<Rightarrow> batch_error + jobs) \<Rightarrow> batch_world \<Rightarrow> batch_error option \<times> batch_world" where
  "jobsTx e f w =
     (case f (bw_jobs w) of
        Inl err \<Rightarrow> (Some err, w)
      | Inr js \<Rightarrow> (if reply_ok (be_db e) then None else Some BatchDbError, written (be_db e) w (w\<lparr>bw_jobs := js\<rparr>)))"

text \<open>A statement whose result the code ignores.\<close>

definition jobsExec :: "batch_env \<Rightarrow> (jobs \<Rightarrow> jobs) \<Rightarrow> batch_world \<Rightarrow> batch_world" where
  "jobsExec e f w = written (be_db e) w (w\<lparr>bw_jobs := f (bw_jobs w)\<rparr>)"

text \<open>\<open>Enqueue\<close>; a job that is already queued is no error for any caller.\<close>

definition EnqueueBatch :: "batch_env \<Rightarrow> gostring \<Rightarrow> batch_world \<Rightarrow> bool \<times> batch_world" where
  "EnqueueBatch e bid w = (if be_ok e then (True, w\<lparr>bw_queue := List.insert bid (bw_queue w)\<rparr>) else (False, w))"

definition AckBatch :: "gostring \<Rightarrow> batch_world \<Rightarrow> batch_world" where
  "AckBatch bid w = w\<lparr>bw_queue := filter (\<lambda>b. b \<noteq> bid) (bw_queue w)\<rparr>"

subsection \<open>Holds\<close>

datatype hold_error = HoldMissingAPIKeyID | HoldInsufficientBalance | HoldFailed

definition holdAmountOf :: "BatchImageJob \<Rightarrow> real" where
  "holdAmountOf j = max 0 (case BiHoldAmount j of Some h \<Rightarrow> h | None \<Rightarrow> BiEstimatedCost j)"

definition buildBatchImageHoldCommand ::
    "BatchImageJob \<Rightarrow> gostring \<Rightarrow> real \<Rightarrow> gostring \<Rightarrow> hold_error + BatchImageBalanceHoldCommand" where
  "buildBatchImageHoldCommand j requestID actualAmount payloadHash =
     (case BiAPIKeyID j of
        None \<Rightarrow> Inl HoldMissingAPIKeyID
      | Some k \<Rightarrow>
          if k \<le> 0 then Inl HoldMissingAPIKeyID
          else Inr \<lparr>HcRequestID = requestID, HcAPIKeyID = k, HcRequestFingerprint = [], HcRequestPayloadHash = trim_space payloadHash,
                    HcUserID = BiUserID j, HcBatchID = BiBatchID j, HcHoldAmount = holdAmountOf j, HcActualAmount = max 0 actualAmount\<rparr>)"

definition reserveBatchImageBalanceHold ::
    "pg_env \<Rightarrow> batch_env \<Rightarrow> BatchImageJob \<Rightarrow> gostring \<Rightarrow> batch_world \<Rightarrow> hold_error option \<times> batch_world" where
  "reserveBatchImageBalanceHold p e j payloadHash w =
     (case buildBatchImageHoldCommand j (BatchImageHoldRequestID (BiBatchID j)) 0 payloadHash of
        Inl err \<Rightarrow> (Some err, w)
      | Inr cmd \<Rightarrow>
          if HcHoldAmount cmd \<le> 0 then (None, w)
          else case ReserveBatchImageBalance p (be_now e) (be_db e) cmd (bw_usage w) of
            (Inr _, u) \<Rightarrow> (None, w\<lparr>bw_usage := u\<rparr>)
          | (Inl err, u) \<Rightarrow> (Some (if err = InsufficientBalance then HoldInsufficientBalance else HoldFailed), w\<lparr>bw_usage := u\<rparr>))"

definition captureBatchImageBalanceHold ::
    "pg_env \<Rightarrow> batch_env \<Rightarrow> BatchImageJob \<Rightarrow> real \<Rightarrow> gostring \<Rightarrow> batch_world \<Rightarrow> hold_error option \<times> batch_world" where
  "captureBatchImageBalanceHold p e j actualAmount payloadHash w =
     (case buildBatchImageHoldCommand j (BatchImageCaptureRequestID (BiBatchID j)) actualAmount payloadHash of
        Inl err \<Rightarrow> (Some err, w)
      | Inr cmd \<Rightarrow>
          (case CaptureBatchImageBalance p (be_now e) (be_db e) cmd (bw_usage w) of
             (Inr _, u) \<Rightarrow> (None, w\<lparr>bw_usage := u\<rparr>)
           | (Inl err, u) \<Rightarrow> (Some HoldFailed, w\<lparr>bw_usage := u\<rparr>)))"

text \<open>A conflict of fingerprints means an earlier release.\<close>

definition releaseBatchImageBalanceHold ::
    "pg_env \<Rightarrow> batch_env \<Rightarrow> BatchImageJob \<Rightarrow> gostring \<Rightarrow> batch_world \<Rightarrow> hold_error option \<times> batch_world" where
  "releaseBatchImageBalanceHold p e j payloadHash w =
     (case buildBatchImageHoldCommand j (BatchImageReleaseRequestID (BiBatchID j)) 0 payloadHash of
        Inl err \<Rightarrow> (Some err, w)
      | Inr cmd \<Rightarrow>
          if HcHoldAmount cmd \<le> 0 then (None, w)
          else case ReleaseBatchImageBalance p (be_now e) (be_db e) cmd (bw_usage w) of
            (Inr _, u) \<Rightarrow> (None, w\<lparr>bw_usage := u\<rparr>)
          | (Inl err, u) \<Rightarrow> (if err = RequestConflict then None else Some HoldFailed, w\<lparr>bw_usage := u\<rparr>))"

definition releaseHold :: "pg_env \<Rightarrow> batch_env \<Rightarrow> BatchImageJob \<Rightarrow> batch_world \<Rightarrow> hold_error option \<times> batch_world" where
  "releaseHold p e j w = releaseBatchImageBalanceHold p e j (batchImageDerefString (BiRequestHash j)) w"

subsection \<open>\<open>Submit\<close>, from the created job on\<close>

text \<open>
  \<open>SubRelease code\<close>: \<open>releaseFailedSubmitHold\<close>, and then the failure is recorded unless the job was
  found in a terminal state.
\<close>

datatype submit_pc = SubReserve | SubItems | SubUpload | SubProvider | SubPersist gostring gostring | SubQueue
  | SubRelease "gostring option" | SubReleaseFailed | SubRetry | SubRecord gostring | SubHide

definition submit_step :: "pg_env \<Rightarrow> batch_env \<Rightarrow> BatchImageJob \<Rightarrow> submit_pc \<Rightarrow> batch_world \<Rightarrow> submit_pc option \<times> batch_world" where
  "submit_step p e j pc w =
     (let now = be_now e; bid = BiBatchID j in
      case pc of
        SubReserve \<Rightarrow>
          (case reserveBatchImageBalanceHold p e j (batchImageDerefString (BiRequestHash j)) w of
             (None, w') \<Rightarrow> (Some SubItems, w')
           | (Some err, w') \<Rightarrow>
               (Some (SubRecord (if err = HoldInsufficientBalance then ''INSUFFICIENT_BALANCE'' else ''BILLING_HOLD_FAILED'')), w'))
      | SubItems \<Rightarrow> (Some (if be_ok e then SubUpload else SubRelease (Some ''ITEM_CREATE_FAILED'')), w)
      | SubUpload \<Rightarrow>
          (case jobsTx e (TransitionBatchImageJobStatus now bid JobUploading None) w of
             (None, w') \<Rightarrow> (Some SubProvider, w')
           | (Some err, w') \<Rightarrow> (Some (SubRelease (if err = InvalidTransition then None else Some ''UPLOAD_TRANSITION_FAILED'')), w'))
      | SubProvider \<Rightarrow>
          (case be_submit e of
             Inr (jobName, outputRef) \<Rightarrow>
               if trim_space jobName = [] then (Some (SubRelease (Some ''PROVIDER_SUBMIT_FAILED'')), w)
               else (Some (SubPersist jobName outputRef), w)
           | Inl reason \<Rightarrow> (Some (SubRelease (Some reason)), w))
      | SubPersist jobName outputRef \<Rightarrow>
          (case jobsTx e (UpdateBatchImageJobProviderSubmit now bid jobName outputRef) w of
             (None, w') \<Rightarrow> (Some SubQueue, w')
           | (Some _, w') \<Rightarrow> (None, w'))
      | SubQueue \<Rightarrow>
          (case EnqueueBatch e bid w of
             (True, w') \<Rightarrow> (None, w')
           | (False, w') \<Rightarrow> (None, jobsExec e (RecordBatchImageJobSubmitFailure now bid ''QUEUE_FAILED'' False) w'))
      | SubRelease code \<Rightarrow>
          (case releaseHold p e j w of
             (None, w') \<Rightarrow> (map_option SubRecord code, w')
           | (Some _, w') \<Rightarrow> (Some SubReleaseFailed, w'))
      | SubReleaseFailed \<Rightarrow> (Some SubRetry, jobsExec e (RecordBatchImageJobSubmitFailure now bid ''BILLING_RELEASE_FAILED'' True) w)
      | SubRetry \<Rightarrow> (None, snd (EnqueueBatch e bid w))
      | SubRecord code \<Rightarrow> (Some SubHide, jobsExec e (RecordBatchImageJobSubmitFailure now bid code True) w)
      | SubHide \<Rightarrow>
          (None, case BiAPIKeyID j of
             Some k \<Rightarrow> jobsExec e (MarkBatchImageJobUserDeleted now (BiUserID j) k bid) w
           | None \<Rightarrow> w))"

subsection \<open>\<open>Cancel\<close> and the recovery of stale jobs\<close>

datatype side_pc = CanStart int int gostring | CanProvider BatchImageJob | CanQueue BatchImageJob | CanTransition BatchImageJob
  | CanRelease BatchImageJob | CanRetry BatchImageJob
  | RecStart gostring gotime | RecFail BatchImageJob gotime | RecRelease BatchImageJob | RecRetry BatchImageJob

text \<open>\<open>Cancel\<close>, and one job of \<open>ReleaseStaleUnsubmittedOnce\<close>.\<close>

definition cancel_step :: "pg_env \<Rightarrow> batch_env \<Rightarrow> side_pc \<Rightarrow> batch_world \<Rightarrow> side_pc option \<times> batch_world" where
  "cancel_step p e pc w =
     (let now = be_now e in
      case pc of
        CanStart user key bid \<Rightarrow>
          (case bw_jobs w bid of
             None \<Rightarrow> (None, w)
           | Some j \<Rightarrow>
               if BiUserID j \<noteq> user \<or> BiAPIKeyID j \<noteq> Some key \<or> BiUserDeleted j then (None, w)
               else if isBatchImageProcessorDoneStatus (BiStatus j)
               then (if BiStatus j \<in> {JobFailed, JobCancelled} then Some (CanRelease j) else None, w)
               else if trim_space (batchImageDerefString (BiProviderJobName j)) \<noteq> [] then (Some (CanProvider j), w)
               else (Some (CanTransition j), w))
      | CanProvider j \<Rightarrow> (if be_ok e \<and> BiAccountID j \<noteq> None then Some (CanQueue j) else None, w)
      | CanQueue j \<Rightarrow> (None, snd (EnqueueBatch e (BiBatchID j) w))
      | CanTransition j \<Rightarrow>
          (case jobsTx e (TransitionBatchImageJobStatus now (BiBatchID j) JobCancelled None) w of
             (None, w') \<Rightarrow> (Some (CanRelease j), w')
           | (Some _, w') \<Rightarrow> (None, w'))
      | CanRelease j \<Rightarrow>
          (case releaseHold p e j w of
             (None, w') \<Rightarrow> (None, w')
           | (Some _, w') \<Rightarrow> (Some (CanRetry j), w'))
      | CanRetry j \<Rightarrow> (None, snd (EnqueueBatch e (BiBatchID j) w))
      | _ \<Rightarrow> (None, w))"

definition recover_step :: "pg_env \<Rightarrow> batch_env \<Rightarrow> side_pc \<Rightarrow> batch_world \<Rightarrow> side_pc option \<times> batch_world" where
  "recover_step p e pc w =
     (let now = be_now e in
      case pc of
        RecStart bid cutoff \<Rightarrow>
          (case bw_jobs w bid of
             Some j \<Rightarrow> (if ListStaleUnsubmittedBatchImageJobs cutoff j then Some (RecFail j cutoff) else None, w)
           | None \<Rightarrow> (None, w))
      | RecFail j cutoff \<Rightarrow>
          (if rowHit (BiBatchID j) (staleUnsubmitted cutoff) (bw_jobs w) \<and> be_db e = DbOk
           then Some (RecRelease j) else None,
           jobsExec e (FailStaleUnsubmittedBatchImageJob now (BiBatchID j) cutoff) w)
      | RecRelease j \<Rightarrow>
          (case releaseHold p e j w of
             (None, w') \<Rightarrow> (None, w')
           | (Some _, w') \<Rightarrow> (Some (RecRetry j), w'))
      | RecRetry j \<Rightarrow> (None, snd (EnqueueBatch e (BiBatchID j) w))
      | _ \<Rightarrow> (None, w))"

definition side_step :: "pg_env \<Rightarrow> batch_env \<Rightarrow> side_pc \<Rightarrow> batch_world \<Rightarrow> side_pc option \<times> batch_world" where
  "side_step p e pc w =
     (case pc of RecStart _ _ \<Rightarrow> recover_step p e pc w | RecFail _ _ \<Rightarrow> recover_step p e pc w | RecRelease _ \<Rightarrow> recover_step p e pc w
      | RecRetry _ \<Rightarrow> recover_step p e pc w | _ \<Rightarrow> cancel_step p e pc w)"

lemma side_step_unfold:
  "side_step p e pc w =
     (let now = be_now e in
      case pc of
        CanStart user key bid \<Rightarrow>
          (case bw_jobs w bid of
             None \<Rightarrow> (None, w)
           | Some j \<Rightarrow>
               if BiUserID j \<noteq> user \<or> BiAPIKeyID j \<noteq> Some key \<or> BiUserDeleted j then (None, w)
               else if isBatchImageProcessorDoneStatus (BiStatus j)
               then (if BiStatus j \<in> {JobFailed, JobCancelled} then Some (CanRelease j) else None, w)
               else if trim_space (batchImageDerefString (BiProviderJobName j)) \<noteq> [] then (Some (CanProvider j), w)
               else (Some (CanTransition j), w))
      | CanProvider j \<Rightarrow> (if be_ok e \<and> BiAccountID j \<noteq> None then Some (CanQueue j) else None, w)
      | CanQueue j \<Rightarrow> (None, snd (EnqueueBatch e (BiBatchID j) w))
      | CanTransition j \<Rightarrow>
          (case jobsTx e (TransitionBatchImageJobStatus now (BiBatchID j) JobCancelled None) w of
             (None, w') \<Rightarrow> (Some (CanRelease j), w')
           | (Some _, w') \<Rightarrow> (None, w'))
      | CanRelease j \<Rightarrow>
          (case releaseHold p e j w of
             (None, w') \<Rightarrow> (None, w')
           | (Some _, w') \<Rightarrow> (Some (CanRetry j), w'))
      | CanRetry j \<Rightarrow> (None, snd (EnqueueBatch e (BiBatchID j) w))
      | RecStart bid cutoff \<Rightarrow>
          (case bw_jobs w bid of
             Some j \<Rightarrow> (if ListStaleUnsubmittedBatchImageJobs cutoff j then Some (RecFail j cutoff) else None, w)
           | None \<Rightarrow> (None, w))
      | RecFail j cutoff \<Rightarrow>
          (if rowHit (BiBatchID j) (staleUnsubmitted cutoff) (bw_jobs w) \<and> be_db e = DbOk
           then Some (RecRelease j) else None,
           jobsExec e (FailStaleUnsubmittedBatchImageJob now (BiBatchID j) cutoff) w)
      | RecRelease j \<Rightarrow>
          (case releaseHold p e j w of
             (None, w') \<Rightarrow> (None, w')
           | (Some _, w') \<Rightarrow> (Some (RecRetry j), w'))
      | RecRetry j \<Rightarrow> (None, snd (EnqueueBatch e (BiBatchID j) w)))"
  by (cases pc) (simp_all add: side_step_def cancel_step_def recover_step_def)

subsection \<open>The worker: \<open>Process\<close> and \<open>Settle\<close>\<close>

definition BuildBatchImageSettlementManifestHash :: "pg_env \<Rightarrow> BatchImageJob \<Rightarrow> gostring" where
  "BuildBatchImageSettlementManifestHash p j =
     pg_sha256 p (concat (map (\<lambda>s. s @ [CHR 0x00])
       [trim_space (BiBatchID j), trim_space (BiProvider j), trim_space (BiModel j), batchImageDerefString (BiProviderJobName j),
        batchImageDerefString (BiProviderOutputRef j), itoa (BiSuccessCount j), itoa (BiFailCount j)]) @ itoa (BiItemCount j))"

definition batchImageSettlementMaxRetries :: int where "batchImageSettlementMaxRetries = 5"
definition batchImageCostEpsilon :: real where "batchImageCostEpsilon = 1 / 10 ^ 8"

definition isBatchImageSettlementRetryExhausted :: "BatchImageJob \<Rightarrow> bool" where
  "isBatchImageSettlementRetryExhausted j \<longleftrightarrow>
     BiStatus j = JobSettling \<and> BiRetryCount j \<ge> batchImageSettlementMaxRetries \<and>
     has_prefix (batchImageDerefString (BiLastErrorCode j)) ''SETTLEMENT_''"

definition settlementUnitPrice :: "(gostring \<Rightarrow> real option) \<Rightarrow> BatchImageJob \<Rightarrow> real option" where
  "settlementUnitPrice pricing j =
     (case (if BiPricingSnapshotVersion j \<ge> 1 then Some (BiBillableUnitPrice j) else pricing (BiModel j)) of
        Some u \<Rightarrow> if u < 0 then None else Some u
      | None \<Rightarrow> None)"

text \<open>\<open>SetFail j code billing\<close>: the failure is being recorded; \<open>billing\<close>: the error is \<open>ErrBatchImageSettlementBillingFailed\<close>.\<close>

datatype worker_pc = WkPipeline | WkSettle | WkProcess | WkGet BatchImageJob | WkPersistRef BatchImageJob provider_status
  | WkAct BatchImageJob provider_state gostring | WkIndex BatchImageJob | WkIndexed BatchImageJob int int
  | WkIndexFail BatchImageJob gostring | WkToSettling BatchImageJob | WkRelease BatchImageJob
  | SetFail BatchImageJob gostring bool | SetExhaust BatchImageJob | SetExhaustFail BatchImageJob | SetFailed BatchImageJob
  | SetCapture BatchImageJob real gostring | SetMark BatchImageJob real gostring | WkReread

text \<open>What \<open>Settle\<close> decides on the job it has read.\<close>

definition settleDecision :: "pg_env \<Rightarrow> (gostring \<Rightarrow> real option) \<Rightarrow> BatchImageJob \<Rightarrow> worker_pc option" where
  "settleDecision p pricing j =
     (let manifest = BuildBatchImageSettlementManifestHash p j; missing = (\<lambda>v. case v of Some k \<Rightarrow> k \<le> 0 | None \<Rightarrow> True) in
      if BiStatus j \<noteq> JobSettling \<or> missing (BiAPIKeyID j) \<or> missing (BiAccountID j) then None
      else if isBatchImageSettlementRetryExhausted j then Some (SetExhaust j)
      else if BiSuccessCount j < 0 \<or> BiFailCount j < 0 \<or> BiItemCount j < 0 \<or> BiSuccessCount j + BiFailCount j > BiItemCount j
      then Some (SetFail j ''SETTLEMENT_INVALID_COUNTS'' False)
      else if trim_space (batchImageDerefString (BiManifestHash j)) \<noteq> [] \<and> batchImageDerefString (BiManifestHash j) \<noteq> manifest
      then Some (SetFail j ''SETTLEMENT_MANIFEST_CONFLICT'' False)
      else case settlementUnitPrice pricing j of
        None \<Rightarrow> Some (SetFail j ''SETTLEMENT_PRICING_MISSING'' False)
      | Some unitPrice \<Rightarrow>
          (let actualCost = real_of_int (BiSuccessCount j) * unitPrice;
               hold = (case BiHoldAmount j of Some h \<Rightarrow> h | None \<Rightarrow> BiEstimatedCost j)
           in if actualCost - hold > batchImageCostEpsilon then Some (SetFail j ''SETTLEMENT_COST_EXCEEDS_HOLD'' False)
              else Some (SetCapture j actualCost manifest)))"

text \<open>
  One step of the worker that holds the lock of job \<open>bid\<close>. Without a next step the job is requeued,
  unless it was acknowledged. \<open>process_step\<close> is \<open>BatchImageProviderProcessor.Process\<close>, \<open>settle_step\<close> is \<open>Settle\<close>, and
  \<open>pipeline_step\<close> is \<open>BatchImagePipelineProcessor.Process\<close>, which chooses between the two.
\<close>

definition process_step ::
    "pg_env \<Rightarrow> batch_env \<Rightarrow> gostring \<Rightarrow> worker_pc \<Rightarrow> batch_world \<Rightarrow> worker_pc option \<times> batch_world" where
  "process_step p e bid pc w =
     (let now = be_now e; transition = (\<lambda>to code. TransitionBatchImageJobStatus now bid to code) in
      case pc of
        WkProcess \<Rightarrow>
          (case bw_jobs w bid of
             None \<Rightarrow> (None, w)
           | Some j \<Rightarrow>
               if BiStatus j \<in> {JobFailed, JobCancelled} then (Some (WkRelease j), w)
               else if isBatchImageProcessorDoneStatus (BiStatus j) then (None, AckBatch bid w)
               else if \<not> be_ok e \<or> (case BiAccountID j of Some a \<Rightarrow> a \<le> 0 | None \<Rightarrow> True) then (None, w)
               else if trim_space (batchImageDerefString (BiProviderJobName j)) = [] then (None, w)
               else (Some (if BiStatus j = JobIndexing then WkIndex j else WkGet j), w))
      | WkGet j \<Rightarrow> (case be_status e of Some (Some st) \<Rightarrow> (Some (WkPersistRef j st), w) | _ \<Rightarrow> (None, w))
      | WkPersistRef j st \<Rightarrow>
          (let ref = trim_space (ps_output_ref st) in
           if ref = [] \<or> batchImageDerefString (BiProviderOutputRef j) = ref then (Some (WkAct j (ps_state st) (ps_error_code st)), w)
           else case jobsTx e (UpdateBatchImageJobProviderOutputRef now bid ref) w of
             (None, w') \<Rightarrow> (Some (WkAct (j\<lparr>BiProviderOutputRef := Some ref\<rparr>) (ps_state st) (ps_error_code st)), w')
           | (Some _, w') \<Rightarrow> (None, w'))
      | WkAct j st code \<Rightarrow>
          (case st of
             PsRunning \<Rightarrow> (None, if BiStatus j \<noteq> JobRunning then snd (jobsTx e (transition JobRunning None) w) else w)
           | PsSucceeded \<Rightarrow>
               (case jobsTx e (transition JobIndexing None) w of
                  (None, w') \<Rightarrow> (Some (WkIndex j), w')
                | (Some _, w') \<Rightarrow> (None, w'))
           | PsCancelled \<Rightarrow>
               (case jobsTx e (transition JobCancelled None) w of
                  (None, w') \<Rightarrow> (Some (WkRelease (j\<lparr>BiStatus := JobCancelled\<rparr>)), w')
                | (Some _, w') \<Rightarrow> (None, w'))
           | _ \<Rightarrow>
               if st \<in> {PsFailed, PsExpired} then
                 (case jobsTx e (transition JobFailed (Some (if trim_space code \<noteq> [] then trim_space code
                           else if st = PsExpired then ''PROVIDER_BATCH_EXPIRED'' else ''PROVIDER_BATCH_FAILED''))) w of
                    (None, w') \<Rightarrow> (Some (WkRelease (j\<lparr>BiStatus := JobFailed\<rparr>)), w')
                  | (Some _, w') \<Rightarrow> (None, w'))
               else (None, w))
      | WkIndex j \<Rightarrow>
          (case be_index e of
             Indexed success fail \<Rightarrow> (Some (WkIndexed j success fail), w)
           | IndexOutputMissing \<Rightarrow> (None, w)
           | IndexDuplicate \<Rightarrow> (Some (WkIndexFail j ''DUPLICATE_CUSTOM_ID_IN_OUTPUT''), w)
           | IndexFailed \<Rightarrow> (Some (WkIndexFail j ''INDEX_PARSE_FAILED''), w))
      | WkIndexed j success fail \<Rightarrow>
          (case jobsTx e (ReplaceBatchImageItemsForJob now bid success fail) w of
             (None, w') \<Rightarrow> (Some (WkToSettling j), w')
           | (Some err, w') \<Rightarrow> (if err = IndexStateConflict then None else Some (WkIndexFail j ''INDEX_PARSE_FAILED''), w'))
      | WkIndexFail j code \<Rightarrow>
          (case jobsTx e (transition JobFailed (Some code)) w of
             (None, w') \<Rightarrow> (Some (WkRelease (j\<lparr>BiStatus := JobFailed\<rparr>)), w')
           | (Some _, w') \<Rightarrow> (None, w'))
      | WkToSettling j \<Rightarrow> (None, snd (jobsTx e (transition JobSettling None) w))
      | WkRelease j \<Rightarrow>
          (case releaseHold p e j w of
             (None, w') \<Rightarrow> (None, AckBatch bid w')
           | (Some _, w') \<Rightarrow> (None, w'))
      | _ \<Rightarrow> (None, w))"

definition settle_step ::
    "pg_env \<Rightarrow> (gostring \<Rightarrow> real option) \<Rightarrow> batch_env \<Rightarrow> gostring \<Rightarrow> worker_pc \<Rightarrow> batch_world \<Rightarrow> worker_pc option \<times> batch_world" where
  "settle_step p pricing e bid pc w =
     (let now = be_now e; transition = (\<lambda>to code. TransitionBatchImageJobStatus now bid to code) in
      case pc of
        WkSettle \<Rightarrow>
          (case bw_jobs w bid of
             None \<Rightarrow> (None, w)
           | Some j \<Rightarrow> if BiStatus j = JobCompleted then (None, AckBatch bid w) else (settleDecision p pricing j, w))
      | SetFail j code billing \<Rightarrow>
          (case jobsTx e (SetBatchImageJobSettlementFailed now bid code) w of
             (None, w') \<Rightarrow>
               (case bw_jobs w' bid of
                  Some j' \<Rightarrow>
                    if BiRetryCount j' \<ge> batchImageSettlementMaxRetries
                    then (Some (SetExhaust (j\<lparr>BiRetryCount := BiRetryCount j', BiLastErrorCode := Some code\<rparr>)), w')
                    else (if billing then Some WkReread else None, w')
                | None \<Rightarrow> (None, w'))
           | (Some _, w') \<Rightarrow> (if billing then Some WkReread else None, w'))
      | SetExhaust j \<Rightarrow>
          (case releaseHold p e j w of
             (None, w') \<Rightarrow> (Some (SetFailed j), w')
           | (Some _, w') \<Rightarrow> (Some (SetExhaustFail j), w'))
      | SetExhaustFail j \<Rightarrow> (Some WkReread, snd (jobsTx e (SetBatchImageJobSettlementFailed now bid ''SETTLEMENT_RELEASE_FAILED'') w))
      | SetFailed j \<Rightarrow>
          (case jobsTx e (transition JobFailed (Some ''SETTLEMENT_BILLING_RETRY_EXHAUSTED'')) w of
             (None, w') \<Rightarrow> (Some WkReread, w')
           | (Some _, w') \<Rightarrow> (None, w'))
      | SetCapture j cost manifest \<Rightarrow>
          (case captureBatchImageBalanceHold p e j cost manifest w of
             (None, w') \<Rightarrow> (Some (SetMark j cost manifest), w')
           | (Some err, w') \<Rightarrow> (Some (SetFail j ''SETTLEMENT_BILLING_FAILED'' (err \<noteq> HoldMissingAPIKeyID)), w'))
      | SetMark j cost manifest \<Rightarrow>
          (case jobsTx e (MarkBatchImageJobSettled now bid cost manifest) w of
             (None, w') \<Rightarrow> (None, AckBatch bid w')
           | (Some _, w') \<Rightarrow> (None, w'))
      | _ \<Rightarrow> (None, w))"

definition pipeline_step ::
    "pg_env \<Rightarrow> (gostring \<Rightarrow> real option) \<Rightarrow> batch_env \<Rightarrow> gostring \<Rightarrow> worker_pc \<Rightarrow> batch_world \<Rightarrow> worker_pc option \<times> batch_world" where
  "pipeline_step p pricing e bid pc w =
     (case pc of
        WkPipeline \<Rightarrow>
          (case bw_jobs w bid of
             None \<Rightarrow> (None, w)
           | Some j \<Rightarrow> (Some (if BiStatus j = JobSettling then WkSettle else WkProcess), w))
      | WkReread \<Rightarrow>
          (None, case bw_jobs w bid of
             Some j \<Rightarrow> if IsTerminalBatchImageJobStatus (BiStatus j) then AckBatch bid w else w
           | None \<Rightarrow> w)
      | WkSettle \<Rightarrow> settle_step p pricing e bid pc w
      | SetFail _ _ _ \<Rightarrow> settle_step p pricing e bid pc w
      | SetExhaust _ \<Rightarrow> settle_step p pricing e bid pc w
      | SetExhaustFail _ \<Rightarrow> settle_step p pricing e bid pc w
      | SetFailed _ \<Rightarrow> settle_step p pricing e bid pc w
      | SetCapture _ _ _ \<Rightarrow> settle_step p pricing e bid pc w
      | SetMark _ _ _ \<Rightarrow> settle_step p pricing e bid pc w
      | _ \<Rightarrow> process_step p e bid pc w)"

lemma pipeline_step_unfold:
  "pipeline_step p pricing e bid pc w =
     (let now = be_now e; transition = (\<lambda>to code. TransitionBatchImageJobStatus now bid to code) in
      case pc of
        WkPipeline \<Rightarrow>
          (case bw_jobs w bid of
             None \<Rightarrow> (None, w)
           | Some j \<Rightarrow> (Some (if BiStatus j = JobSettling then WkSettle else WkProcess), w))
      | WkProcess \<Rightarrow>
          (case bw_jobs w bid of
             None \<Rightarrow> (None, w)
           | Some j \<Rightarrow>
               if BiStatus j \<in> {JobFailed, JobCancelled} then (Some (WkRelease j), w)
               else if isBatchImageProcessorDoneStatus (BiStatus j) then (None, AckBatch bid w)
               else if \<not> be_ok e \<or> (case BiAccountID j of Some a \<Rightarrow> a \<le> 0 | None \<Rightarrow> True) then (None, w)
               else if trim_space (batchImageDerefString (BiProviderJobName j)) = [] then (None, w)
               else (Some (if BiStatus j = JobIndexing then WkIndex j else WkGet j), w))
      | WkGet j \<Rightarrow> (case be_status e of Some (Some st) \<Rightarrow> (Some (WkPersistRef j st), w) | _ \<Rightarrow> (None, w))
      | WkPersistRef j st \<Rightarrow>
          (let ref = trim_space (ps_output_ref st) in
           if ref = [] \<or> batchImageDerefString (BiProviderOutputRef j) = ref then (Some (WkAct j (ps_state st) (ps_error_code st)), w)
           else case jobsTx e (UpdateBatchImageJobProviderOutputRef now bid ref) w of
             (None, w') \<Rightarrow> (Some (WkAct (j\<lparr>BiProviderOutputRef := Some ref\<rparr>) (ps_state st) (ps_error_code st)), w')
           | (Some _, w') \<Rightarrow> (None, w'))
      | WkAct j st code \<Rightarrow>
          (case st of
             PsRunning \<Rightarrow> (None, if BiStatus j \<noteq> JobRunning then snd (jobsTx e (transition JobRunning None) w) else w)
           | PsSucceeded \<Rightarrow>
               (case jobsTx e (transition JobIndexing None) w of
                  (None, w') \<Rightarrow> (Some (WkIndex j), w')
                | (Some _, w') \<Rightarrow> (None, w'))
           | PsCancelled \<Rightarrow>
               (case jobsTx e (transition JobCancelled None) w of
                  (None, w') \<Rightarrow> (Some (WkRelease (j\<lparr>BiStatus := JobCancelled\<rparr>)), w')
                | (Some _, w') \<Rightarrow> (None, w'))
           | _ \<Rightarrow>
               if st \<in> {PsFailed, PsExpired} then
                 (case jobsTx e (transition JobFailed (Some (if trim_space code \<noteq> [] then trim_space code
                           else if st = PsExpired then ''PROVIDER_BATCH_EXPIRED'' else ''PROVIDER_BATCH_FAILED''))) w of
                    (None, w') \<Rightarrow> (Some (WkRelease (j\<lparr>BiStatus := JobFailed\<rparr>)), w')
                  | (Some _, w') \<Rightarrow> (None, w'))
               else (None, w))
      | WkIndex j \<Rightarrow>
          (case be_index e of
             Indexed success fail \<Rightarrow> (Some (WkIndexed j success fail), w)
           | IndexOutputMissing \<Rightarrow> (None, w)
           | IndexDuplicate \<Rightarrow> (Some (WkIndexFail j ''DUPLICATE_CUSTOM_ID_IN_OUTPUT''), w)
           | IndexFailed \<Rightarrow> (Some (WkIndexFail j ''INDEX_PARSE_FAILED''), w))
      | WkIndexed j success fail \<Rightarrow>
          (case jobsTx e (ReplaceBatchImageItemsForJob now bid success fail) w of
             (None, w') \<Rightarrow> (Some (WkToSettling j), w')
           | (Some err, w') \<Rightarrow> (if err = IndexStateConflict then None else Some (WkIndexFail j ''INDEX_PARSE_FAILED''), w'))
      | WkIndexFail j code \<Rightarrow>
          (case jobsTx e (transition JobFailed (Some code)) w of
             (None, w') \<Rightarrow> (Some (WkRelease (j\<lparr>BiStatus := JobFailed\<rparr>)), w')
           | (Some _, w') \<Rightarrow> (None, w'))
      | WkToSettling j \<Rightarrow> (None, snd (jobsTx e (transition JobSettling None) w))
      | WkRelease j \<Rightarrow>
          (case releaseHold p e j w of
             (None, w') \<Rightarrow> (None, AckBatch bid w')
           | (Some _, w') \<Rightarrow> (None, w'))
      | WkSettle \<Rightarrow>
          (case bw_jobs w bid of
             None \<Rightarrow> (None, w)
           | Some j \<Rightarrow> if BiStatus j = JobCompleted then (None, AckBatch bid w) else (settleDecision p pricing j, w))
      | SetFail j code billing \<Rightarrow>
          (case jobsTx e (SetBatchImageJobSettlementFailed now bid code) w of
             (None, w') \<Rightarrow>
               (case bw_jobs w' bid of
                  Some j' \<Rightarrow>
                    if BiRetryCount j' \<ge> batchImageSettlementMaxRetries
                    then (Some (SetExhaust (j\<lparr>BiRetryCount := BiRetryCount j', BiLastErrorCode := Some code\<rparr>)), w')
                    else (if billing then Some WkReread else None, w')
                | None \<Rightarrow> (None, w'))
           | (Some _, w') \<Rightarrow> (if billing then Some WkReread else None, w'))
      | SetExhaust j \<Rightarrow>
          (case releaseHold p e j w of
             (None, w') \<Rightarrow> (Some (SetFailed j), w')
           | (Some _, w') \<Rightarrow> (Some (SetExhaustFail j), w'))
      | SetExhaustFail j \<Rightarrow> (Some WkReread, snd (jobsTx e (SetBatchImageJobSettlementFailed now bid ''SETTLEMENT_RELEASE_FAILED'') w))
      | SetFailed j \<Rightarrow>
          (case jobsTx e (transition JobFailed (Some ''SETTLEMENT_BILLING_RETRY_EXHAUSTED'')) w of
             (None, w') \<Rightarrow> (Some WkReread, w')
           | (Some _, w') \<Rightarrow> (None, w'))
      | SetCapture j cost manifest \<Rightarrow>
          (case captureBatchImageBalanceHold p e j cost manifest w of
             (None, w') \<Rightarrow> (Some (SetMark j cost manifest), w')
           | (Some err, w') \<Rightarrow> (Some (SetFail j ''SETTLEMENT_BILLING_FAILED'' (err \<noteq> HoldMissingAPIKeyID)), w'))
      | SetMark j cost manifest \<Rightarrow>
          (case jobsTx e (MarkBatchImageJobSettled now bid cost manifest) w of
             (None, w') \<Rightarrow> (None, AckBatch bid w')
           | (Some _, w') \<Rightarrow> (None, w'))
      | WkReread \<Rightarrow>
          (None, case bw_jobs w bid of
             Some j \<Rightarrow> if IsTerminalBatchImageJobStatus (BiStatus j) then AckBatch bid w else w
           | None \<Rightarrow> w))"
  by (cases pc) (simp_all add: pipeline_step_def process_step_def settle_step_def Let_def)

end
