(* ===== verification/UsageBillingProofs.thy ===== *)
theory UsageBillingProofs
  imports UsageBilling
begin

text \<open>
  A request is billed exactly once: the claims, which are the dedup rows with their archive, are those
  of the committed transactions, and archiving does not change them. The money of a user moves by
  what the committed transactions say, and the hints about an account's limits do not change what is
  counted.
\<close>

subsection \<open>The claims\<close>

definition claims :: "usage_db \<Rightarrow> request_key \<Rightarrow> gostring option" where
  "claims db k = (case dedup db k of Some (f, _) \<Rightarrow> Some f | None \<Rightarrow> archive db k)"

definition committed :: "usage_db \<Rightarrow> request_key \<Rightarrow> gostring option" where
  "committed db = map_of (map (\<lambda>(k, f, _). (k, f)) (effects db))"

definition dedup_inv :: "usage_db \<Rightarrow> bool" where
  "dedup_inv db \<longleftrightarrow> claims db = committed db \<and> distinct (map fst (effects db)) \<and> dom (dedup db) \<inter> dom (archive db) = {}"

datatype claim_answer = Fresh | Seen | Conflict

definition spec_claim :: "(request_key \<Rightarrow> gostring option) \<Rightarrow> request_key \<Rightarrow> gostring \<Rightarrow> claim_answer" where
  "spec_claim m k fingerprint =
     (case m k of None \<Rightarrow> Fresh | Some f \<Rightarrow> if trim_space f = trim_space fingerprint then Seen else Conflict)"

lemma claimUsageBillingRequest_spec:
  "claimUsageBillingRequest now rid key fingerprint db =
     (case spec_claim (claims db) (rid, key) fingerprint of
        Fresh \<Rightarrow> Inr (Some (db\<lparr>dedup := (dedup db)((rid, key) \<mapsto> (fingerprint, now))\<rparr>))
      | Seen \<Rightarrow> Inr None
      | Conflict \<Rightarrow> Inl RequestConflict)"
  by (simp add: claimUsageBillingRequest_def spec_claim_def claims_def split: option.splits prod.splits)

lemma claim_keeps:
  assumes "claimUsageBillingRequest now rid key fingerprint db = Inr (Some db1)"
  shows "claims db (rid, key) = None" "db1 = db\<lparr>dedup := (dedup db)((rid, key) \<mapsto> (fingerprint, now))\<rparr>"
  using assms by (auto simp: claimUsageBillingRequest_def claims_def split: option.splits prod.splits if_splits)

lemma committed_fst: "committed db k = None \<longleftrightarrow> k \<notin> fst ` set (effects db)"
  unfolding committed_def map_of_eq_None_iff by force

lemma claims_none: "claims db k = None \<longleftrightarrow> dedup db k = None \<and> archive db k = None"
  by (simp add: claims_def split: option.splits)

lemma commit_inv:
  assumes "dedup_inv db" "claims db k = None"
  shows "dedup_inv (db\<lparr>dedup := (dedup db)(k \<mapsto> (f, now)), tables := t, effects := (k, f, now, e) # effects db\<rparr>)"
proof -
  have "k \<notin> fst ` set (effects db)" "archive db k = None"
    using assms(1) assms(2) [unfolded claims_none] committed_fst [of db k] assms(2) by (simp_all add: dedup_inv_def)
  moreover have "claims (db\<lparr>dedup := (dedup db)(k \<mapsto> (f, now)), tables := t, effects := (k, f, now, e) # effects db\<rparr>) = (claims db)(k \<mapsto> f)"
    by (rule ext) (simp add: claims_def split: option.splits)
  ultimately show ?thesis
    using assms by (auto simp: dedup_inv_def committed_def)
qed

subsection \<open>One transaction\<close>

text \<open>What a transaction can do to the database: nothing, or commit one effect with its claim.\<close>

definition commits :: "gotime \<Rightarrow> request_key \<Rightarrow> gostring \<Rightarrow> usage_effect \<Rightarrow> usage_tables \<Rightarrow> usage_db \<Rightarrow> usage_db" where
  "commits now k f e t db =
     db\<lparr>dedup := (dedup db)(k \<mapsto> (f, now)), tables := t, effects := (k, f, now, e) # effects db\<rparr>"

lemma claimedTx_cases:
  assumes "claimedTx now x rid key f na body db = (r, db')"
  obtains (same) "db' = db" "\<And>v. r = Inr v \<Longrightarrow> rid \<noteq> [] \<and> v = na \<and> spec_claim (claims db) (rid, key) f = Seen"
  | (commit) v t e where "rid \<noteq> []" "claims db (rid, key) = None"
      "body (db\<lparr>dedup := (dedup db)((rid, key) \<mapsto> (f, now))\<rparr>) = Inr (v, t, e)"
      "db' = commits now (rid, key) f e t db" "\<And>w. r = Inr w \<Longrightarrow> w = v"
proof (cases "spec_claim (claims db) (rid, key) f")
  case Fresh
  let ?db1 = "db\<lparr>dedup := (dedup db)((rid, key) \<mapsto> (f, now))\<rparr>"
  from Fresh have none: "claims db (rid, key) = None"
    by (auto simp: spec_claim_def split: option.splits if_splits)
  show ?thesis
  proof (cases "body ?db1")
    case (Inl e)
    with assms Fresh that(1) show ?thesis
      by (auto simp: claimedTx_def claimUsageBillingRequest_spec split: if_splits)
  next
    case (Inr y)
    obtain v t e where y: "y = (v, t, e)" by (cases y)
    show ?thesis
    proof (cases "rid = [] \<or> x = DbError")
      case True
      with assms Fresh Inr y that(1) show ?thesis
        by (auto simp: claimedTx_def claimUsageBillingRequest_spec written_def reply_ok_def split: if_splits)
    next
      case False
      with assms Fresh Inr y none that(2) [of v t e] show ?thesis
        by (auto simp: claimedTx_def claimUsageBillingRequest_spec written_def reply_ok_def commits_def split: if_splits)
    qed
  qed
next
  case Seen
  with assms have "db' = db" "\<And>v. r = Inr v \<Longrightarrow> rid \<noteq> [] \<and> v = na"
    by (auto simp: claimedTx_def claimUsageBillingRequest_spec split: if_splits)
  with Seen that(1) show ?thesis by blast
next
  case Conflict
  with assms have "db' = db" "\<And>v. r \<noteq> Inr v"
    by (auto simp: claimedTx_def claimUsageBillingRequest_spec split: if_splits)
  with that(1) show ?thesis by blast
qed

lemma claimedTx_inv:
  assumes "dedup_inv db" "claimedTx now x rid key f na body db = (r, db')"
  shows "dedup_inv db'"
  using assms(2)
proof (cases rule: claimedTx_cases)
  case (commit v t e)
  with assms(1) commit_inv [where k = "(rid, key)"] show ?thesis by (simp add: commits_def)
qed (use assms(1) in simp)


subsection \<open>Runs\<close>

text \<open>The operations, in any order and number; \<open>OpOther\<close> is any other writer of the tables of money and quotas.\<close>

datatype usage_op = OpApply gotime db_outcome UsageBillingCommand
  | OpReserve gotime db_outcome BatchImageBalanceHoldCommand
  | OpCapture gotime db_outcome BatchImageBalanceHoldCommand
  | OpRelease gotime db_outcome BatchImageBalanceHoldCommand
  | OpCleanup gotime "request_key list"
  | OpOther usage_tables

fun usage_step :: "pg_env \<Rightarrow> usage_db \<Rightarrow> usage_op \<Rightarrow> usage_db" where
  "usage_step p db (OpApply now x c) = snd (ApplyUsage p now x c db)"
| "usage_step p db (OpReserve now x c) = snd (ReserveBatchImageBalance p now x c db)"
| "usage_step p db (OpCapture now x c) = snd (CaptureBatchImageBalance p now x c db)"
| "usage_step p db (OpRelease now x c) = snd (ReleaseBatchImageBalance p now x c db)"
| "usage_step p db (OpCleanup cutoff picked) = CleanupUsageBillingDedup cutoff picked db"
| "usage_step p db (OpOther t) = db\<lparr>tables := t\<rparr>"

definition usage_run :: "pg_env \<Rightarrow> usage_db \<Rightarrow> usage_op list \<Rightarrow> usage_db" where
  "usage_run p = foldl (usage_step p)"

definition initial_usage :: "usage_tables \<Rightarrow> usage_db" where
  "initial_usage t = \<lparr>tables = t, dedup = Map.empty, archive = Map.empty, effects = []\<rparr>"

lemma cleanup_claims: "claims (CleanupUsageBillingDedup cutoff picked db) = claims db" if "dedup_inv db"
proof (rule ext)
  fix k
  show "claims (CleanupUsageBillingDedup cutoff picked db) k = claims db k"
  proof (cases "dedup db k")
    case (Some fc)
    then have "archive db k = None" using that by (auto simp: dedup_inv_def)
    with Some show ?thesis by (auto simp: claims_def CleanupUsageBillingDedup_def Let_def split: prod.splits)
  qed (simp add: claims_def CleanupUsageBillingDedup_def Let_def)
qed

lemma archiving_inv:
  assumes inv: "dedup_inv db"
  shows "dedup_inv (CleanupUsageBillingDedup cutoff picked db)"
proof -
  have d: "dedup db k = None \<or> archive db k = None" for k
    using inv unfolding dedup_inv_def by (metis disjoint_iff domI not_Some_eq)
  have "dedup (CleanupUsageBillingDedup cutoff picked db) k = None \<or> archive (CleanupUsageBillingDedup cutoff picked db) k = None" for k
    using d [of k] by (auto simp: CleanupUsageBillingDedup_def Let_def)
  then have "dom (dedup (CleanupUsageBillingDedup cutoff picked db)) \<inter> dom (archive (CleanupUsageBillingDedup cutoff picked db)) = {}"
    unfolding dom_def by (metis (mono_tags, lifting) disjoint_iff mem_Collect_eq)
  moreover have "effects (CleanupUsageBillingDedup cutoff picked db) = effects db"
    by (simp add: CleanupUsageBillingDedup_def Let_def)
  ultimately show ?thesis
    using inv cleanup_claims [OF inv] by (simp add: dedup_inv_def committed_def)
qed

lemma claimedTx_snd_inv: "dedup_inv db \<Longrightarrow> dedup_inv (snd (claimedTx now x rid key f na body db))"
  by (metis claimedTx_inv prod.collapse)

lemma other_inv: "dedup_inv (db\<lparr>tables := t\<rparr>) = dedup_inv db"
proof -
  have "claims (db\<lparr>tables := t\<rparr>) = claims db" by (rule ext) (simp add: claims_def split: option.splits)
  then show ?thesis by (simp add: dedup_inv_def committed_def)
qed

lemmas usage_defs = ApplyUsage_def ReserveBatchImageBalance_def CaptureBatchImageBalance_def ReleaseBatchImageBalance_def
  applyBatchImageBalanceHold_def Let_def

lemma usage_step_inv: "dedup_inv db \<Longrightarrow> dedup_inv (usage_step p db op)"
  by (cases op) (simp_all add: usage_defs claimedTx_snd_inv archiving_inv other_inv)

lemma usage_run_inv: "dedup_inv db \<Longrightarrow> dedup_inv (usage_run p db ops)"
  by (induction ops arbitrary: db) (simp_all add: usage_run_def usage_step_inv)

lemma initial_inv: "dedup_inv (initial_usage t)"
proof -
  have "claims (initial_usage t) = Map.empty" by (rule ext) (simp add: initial_usage_def claims_def)
  then show ?thesis by (simp add: dedup_inv_def committed_def initial_usage_def)
qed

lemma claimedTx_effects: "set (effects db) \<subseteq> set (effects (snd (claimedTx now x rid key f na body db)))"
proof (cases "claimedTx now x rid key f na body db")
  case (Pair r db')
  from Pair have "set (effects db) \<subseteq> set (effects db')"
    by (cases rule: claimedTx_cases) (auto simp: commits_def)
  with Pair show ?thesis by simp
qed

lemma usage_step_effects: "set (effects db) \<subseteq> set (effects (usage_step p db op))"
proof (cases op)
  case (OpCleanup c ks)
  then show ?thesis by (simp add: CleanupUsageBillingDedup_def Let_def)
qed (simp_all add: usage_defs claimedTx_effects)

lemma usage_run_effects: "set (effects db) \<subseteq> set (effects (usage_run p db ops))"
proof (induction ops arbitrary: db)
  case (Cons op ops)
  show ?case using usage_step_effects [of db p op] Cons [of "usage_step p db op"] by (auto simp: usage_run_def)
qed (simp add: usage_run_def)

subsection \<open>Once\<close>

lemma distinct_key_once:
  assumes "distinct (map fst xs)" "k \<in> fst ` set xs"
  shows "length (filter (\<lambda>e. fst e = k) xs) = 1"
  using assms by (induction xs) (auto simp: filter_empty_conv image_iff)

text \<open>An answered transaction has its effect among the committed ones.\<close>

lemma claimedTx_answered:
  assumes "dedup_inv db" "claimedTx now x rid key f na body db = (Inr v, db')"
  shows "\<exists>g w e. ((rid, key), g, w, e) \<in> set (effects db') \<and> trim_space g = trim_space f"
  using assms(2)
proof (cases rule: claimedTx_cases)
  case same
  then have "spec_claim (committed db) (rid, key) f = Seen" using assms(1) by (simp add: dedup_inv_def)
  then obtain g where "committed db (rid, key) = Some g" "trim_space g = trim_space f"
    by (auto simp: spec_claim_def split: option.splits if_splits)
  moreover from this(1) obtain w e where "((rid, key), g, w, e) \<in> set (effects db)"
    unfolding committed_def by (force dest: map_of_SomeD)
  ultimately show ?thesis using same(1) by blast
next
  case (commit v t e)
  then show ?thesis by (auto simp: commits_def)
qed

lemma billed_once:
  assumes "dedup_inv db" "claimedTx now x rid key f na body db = (Inr v, db')"
  shows "length (filter (\<lambda>e. fst e = (rid, key)) (effects (usage_run p db' ops))) = 1"
proof -
  have "(rid, key) \<in> fst ` set (effects db')" using claimedTx_answered [OF assms] by force
  with usage_run_effects [of db' p ops] have "(rid, key) \<in> fst ` set (effects (usage_run p db' ops))" by blast
  moreover have "distinct (map fst (effects (usage_run p db' ops)))"
    using usage_run_inv [OF claimedTx_inv [OF assms]] by (simp add: dedup_inv_def)
  ultimately show ?thesis by (rule distinct_key_once [rotated])
qed


subsection \<open>The books\<close>

fun balance_move :: "int \<Rightarrow> usage_effect \<Rightarrow> real" where
  "balance_move i (Charge c) = (if UcUserID c = i \<and> UcBalanceCost c > 0 then - UcBalanceCost c else 0)"
| "balance_move i (Hold c) = (if HcUserID c = i \<and> HcHoldAmount c > 0 then - HcHoldAmount c else 0)"
| "balance_move i (Capture c) =
     (if HcUserID c = i \<and> (HcHoldAmount c > 0 \<or> HcActualAmount c > 0) then HcHoldAmount c - HcActualAmount c else 0)"
| "balance_move i (ReleaseHold c held) = (if HcUserID c = i \<and> HcHoldAmount c > 0 \<and> held then HcHoldAmount c else 0)"

fun frozen_move :: "int \<Rightarrow> usage_effect \<Rightarrow> real" where
  "frozen_move i (Charge c) = 0"
| "frozen_move i (Hold c) = (if HcUserID c = i \<and> HcHoldAmount c > 0 then HcHoldAmount c else 0)"
| "frozen_move i (Capture c) = (if HcUserID c = i \<and> (HcHoldAmount c > 0 \<or> HcActualAmount c > 0) then - HcHoldAmount c else 0)"
| "frozen_move i (ReleaseHold c held) = (if HcUserID c = i \<and> HcHoldAmount c > 0 \<and> held then - HcHoldAmount c else 0)"

definition moved :: "int \<Rightarrow> real \<Rightarrow> real \<Rightarrow> usage_tables \<Rightarrow> usage_tables \<Rightarrow> bool" where
  "moved i b f t t' \<longleftrightarrow>
     (\<forall>u. users t i = Some u \<longrightarrow> (\<exists>u'. users t' i = Some u' \<and> UuBalance u' = UuBalance u + b \<and> frozenOf u' = frozenOf u + f \<and>
        (frozenOf u \<ge> 0 \<longrightarrow> frozenOf u' \<ge> 0)))"

lemma moved_same: "users t' i = users t i \<Longrightarrow> moved i 0 0 t t'"
  by (simp add: moved_def)

lemma moved_trans: "moved i b f t t' \<Longrightarrow> moved i b' f' t' t'' \<Longrightarrow> moved i (b + b') (f + f') t t''"
  unfolding moved_def by (fastforce simp: add.assoc)

lemma bind_okE:
  assumes "bind_ok r k = Inr y"
  obtains x where "r = Inr x" "k x = Inr y"
  using assms by (auto simp: bind_ok_def split: sum.splits)

lemma execAccountQuotaIncrement_users:
  "execAccountQuotaIncrement p now a d w i t = Inr (Some (st, t')) \<Longrightarrow> users t' = users t"
  by (auto simp: execAccountQuotaIncrement_def Let_def split: option.splits if_splits)

lemma incrementUsageBillingAccountQuota_users:
  "incrementUsageBillingAccountQuota p now i a d w t = Inr (st, t') \<Longrightarrow> users t' = users t"
  unfolding incrementUsageBillingAccountQuota_def
  by (elim bind_okE) (auto dest!: execAccountQuotaIncrement_users split: option.splits if_splits)

lemma charge_users:
  "chargeSubscription c t = Inr t' \<Longrightarrow> users t' = users t"
  "chargeKeyQuota c r t = Inr (r', t') \<Longrightarrow> users t' = users t"
  "chargeKeyRate p now c t = Inr t' \<Longrightarrow> users t' = users t"
  "chargeAccountQuota p now c r t = Inr (r', t') \<Longrightarrow> users t' = users t"
  by (auto simp: chargeSubscription_def chargeKeyQuota_def chargeKeyRate_def chargeAccountQuota_def skipMissing_def
        incrementUsageBillingSubscription_def incrementUsageBillingAPIKeyQuota_def incrementUsageBillingAPIKeyRateLimit_def
        bind_ok_def Let_def dest: incrementUsageBillingAccountQuota_users split: option.splits if_splits sum.splits)

lemma chargeBalance_moved:
  "chargeBalance c r t = Inr (r', t') \<Longrightarrow> moved i (balance_move i (Charge c)) 0 t t'"
  by (auto simp: chargeBalance_def deductUsageBillingBalance_def bind_ok_def moved_def frozenOf_def Let_def
      split: option.splits if_splits sum.splits)

lemma charge_moved:
  assumes "applyUsageBillingEffects p now c t = Inr (r, t')"
  shows "moved i (balance_move i (Charge c)) 0 t t'"
proof -
  from assms obtain t1 r2 t2 r3 t3 t4 where chain: "chargeSubscription c t = Inr t1" "chargeBalance c (noResult True) t1 = Inr (r2, t2)"
      "chargeKeyQuota c r2 t2 = Inr (r3, t3)" "chargeKeyRate p now c t3 = Inr t4" "chargeAccountQuota p now c r3 t4 = Inr (r, t')"
    unfolding applyUsageBillingEffects_def by (elim bind_okE) (auto elim!: bind_okE)
  have "users t1 = users t" "users t' = users t2"
    using charge_users(1) [OF chain(1)] charge_users(2) [OF chain(3)] charge_users(3) [OF chain(4)] charge_users(4) [OF chain(5)] by simp_all
  with chargeBalance_moved [OF chain(2), of i] show ?thesis by (simp add: moved_def)
qed

lemma frozenOf_Some [simp]: "frozenOf \<lparr>UuBalance = b, UuFrozen = Some f\<rparr> = f"
  by (simp add: frozenOf_def)

lemma hold_moved:
  assumes "holdEffect e t = Inr (r, t')" "\<And>c. e \<noteq> Charge c"
  shows "moved i (balance_move i e) (frozen_move i e) t t'"
  using assms
  by (cases e) (auto simp: reserveUsageBillingBatchImageBalance_def captureUsageBillingBatchImageBalance_def
      releaseUsageBillingBatchImageBalance_def moved_def setMoney_def Let_def not_le split: option.splits if_splits)

definition total :: "(usage_effect \<Rightarrow> real) \<Rightarrow> usage_db \<Rightarrow> real" where
  "total f db = sum_list (map (\<lambda>(_, _, _, e). f e) (effects db))"

definition booked :: "int \<Rightarrow> usage_tables \<Rightarrow> usage_db \<Rightarrow> bool" where
  "booked i t db \<longleftrightarrow> moved i (total (balance_move i) db) (total (frozen_move i) db) t (tables db)"

lemma claimedTx_booked:
  assumes "booked i t0 db"
    and "\<And>db1 v t e. body db1 = Inr (v, t, e) \<Longrightarrow> tables db1 = tables db \<Longrightarrow> moved i (balance_move i e) (frozen_move i e) (tables db) t"
  shows "booked i t0 (snd (claimedTx now x rid key f na body db))"
proof (cases "claimedTx now x rid key f na body db")
  case (Pair r db')
  from Pair have "booked i t0 db'"
  proof (cases rule: claimedTx_cases)
    case (commit v t e)
    from assms(2) [OF commit(3)] have "moved i (balance_move i e) (frozen_move i e) (tables db) t" by simp
    from moved_trans [OF assms(1) [unfolded booked_def] this] commit(4) show ?thesis
      by (simp add: booked_def total_def commits_def add.commute)
  qed (use assms(1) in simp)
  with Pair show ?thesis by simp
qed

fun billing_op :: "usage_op \<Rightarrow> bool" where
  "billing_op (OpOther t) = False"
| "billing_op _ = True"

lemma ApplyUsage_booked: "booked i t0 db \<Longrightarrow> booked i t0 (snd (ApplyUsage p now x c db))"
  unfolding ApplyUsage_def Let_def
  by (rule claimedTx_booked) (auto elim!: bind_okE dest: charge_moved [where i = i])

lemma applyBatchImageBalanceHold_booked:
  assumes "booked i t0 db" "\<And>d e c'. kind d e \<noteq> Charge c'"
  shows "booked i t0 (snd (applyBatchImageBalanceHold p now x c kind db))"
  unfolding applyBatchImageBalanceHold_def Let_def
  by (rule claimedTx_booked [OF assms(1)]) (auto elim!: bind_okE dest!: hold_moved [where i = i] simp: assms(2))

lemma usage_step_booked: "booked i t0 db \<Longrightarrow> billing_op op \<Longrightarrow> booked i t0 (usage_step p db op)"
proof (cases op)
  case (OpCleanup cutoff picked)
  assume "booked i t0 db"
  with OpCleanup show ?thesis by (simp add: booked_def total_def CleanupUsageBillingDedup_def Let_def)
qed (simp_all add: ApplyUsage_booked applyBatchImageBalanceHold_booked ReserveBatchImageBalance_def CaptureBatchImageBalance_def
    ReleaseBatchImageBalance_def)

lemma usage_run_booked: "booked i t0 db \<Longrightarrow> list_all billing_op ops \<Longrightarrow> booked i t0 (usage_run p db ops)"
  by (induction ops arbitrary: db) (simp_all add: usage_run_def usage_step_booked)

lemma initial_booked: "booked i t (initial_usage t)"
  by (simp add: booked_def total_def initial_usage_def moved_same)

subsection \<open>The hints\<close>

text \<open>A dimension a statement leaves out is one the complete statement does not touch.\<close>

lemma limitUnset_num0: "limitUnsetCond ex k \<Longrightarrow> \<exists>x. num0 p ex k = Some x \<and> x \<le> 0"
  by (auto simp: limitUnsetCond_def num0_def extra_text_def split: option.splits sql_json.splits)

lemma windowPart_unset: "limitUnsetCond ex limitKey \<Longrightarrow> windowPart p now a ex limitKey u s r e n = Some"
  using limitUnset_num0 [of ex limitKey p] by (auto simp: windowPart_def intro!: ext)

lemma short_statement:
  assumes "execAccountQuotaIncrement p now a d w i t \<noteq> Inr None"
  shows "execAccountQuotaIncrement p now a d w i t = execAccountQuotaIncrement p now a True True i t"
proof (cases "accounts t i")
  case (Some column)
  define ex where "ex = (case column of Some m \<Rightarrow> m | None \<Rightarrow> Map.empty)"
  from Some assms have "d \<or> limitUnsetCond ex ''quota_daily_limit''" "w \<or> limitUnsetCond ex ''quota_weekly_limit''"
      "(d \<and> w) \<or> \<not> Option.is_none column"
    unfolding execAccountQuotaIncrement_def Let_def ex_def by (simp_all split: if_splits)
  then show ?thesis using Some
    by (cases d; cases w; cases column) (simp_all add: execAccountQuotaIncrement_def Let_def ex_def accountQuotaDailyIncrementExpr_def
        accountQuotaWeeklyIncrementExpr_def windowPart_unset)
qed (simp add: execAccountQuotaIncrement_def)

lemma hints_irrelevant:
  "incrementUsageBillingAccountQuota p now i a d w t = incrementUsageBillingAccountQuota p now i a True True t"
proof (cases "d \<and> w")
  case False
  show ?thesis
  proof (cases "execAccountQuotaIncrement p now a d w i t = Inr None")
    case False
    from short_statement [OF this] False \<open>\<not> (d \<and> w)\<close> show ?thesis
      by (auto simp: incrementUsageBillingAccountQuota_def bind_ok_def split: sum.splits)
  qed (use False in \<open>auto simp: incrementUsageBillingAccountQuota_def bind_ok_def split: sum.splits\<close>)
qed simp


lemma charge_hints:
  fixes c :: UsageBillingCommand
  shows "chargeSubscription (c\<lparr>UcAccountQuotaHasDailyLimit := d, UcAccountQuotaHasWeeklyLimit := w\<rparr>) t = chargeSubscription c t"
    "chargeBalance (c\<lparr>UcAccountQuotaHasDailyLimit := d, UcAccountQuotaHasWeeklyLimit := w\<rparr>) r t = chargeBalance c r t"
    "chargeKeyQuota (c\<lparr>UcAccountQuotaHasDailyLimit := d, UcAccountQuotaHasWeeklyLimit := w\<rparr>) r t = chargeKeyQuota c r t"
    "chargeKeyRate p now (c\<lparr>UcAccountQuotaHasDailyLimit := d, UcAccountQuotaHasWeeklyLimit := w\<rparr>) t = chargeKeyRate p now c t"
  by (simp_all add: chargeSubscription_def chargeBalance_def chargeKeyQuota_def chargeKeyRate_def split: option.split)

lemma account_hints:
  fixes c :: UsageBillingCommand
  shows "chargeAccountQuota p now (c\<lparr>UcAccountQuotaHasDailyLimit := d, UcAccountQuotaHasWeeklyLimit := w\<rparr>) r t =
    chargeAccountQuota p now (c\<lparr>UcAccountQuotaHasDailyLimit := True, UcAccountQuotaHasWeeklyLimit := True\<rparr>) r t"
  unfolding chargeAccountQuota_def by (subst hints_irrelevant) simp

subsection \<open>Properties\<close>

text \<open>
  C5: A request whose charge was answered, whether it was applied then or found already applied, is
  among the committed charges exactly once, and stays so: the same request sent again with any reply
  lost, any other requests, the archiving of old claims and any other writer of the balances in any
  order do not charge it a second time. (The request id is kept as long as the archive of claims,
  which nothing deletes.)
\<close>

theorem usage_billed_once:
  assumes "ApplyUsage p now x cmd (usage_run p (initial_usage t) before) = (Inr r, db)"
  defines "c \<equiv> NormalizeCommand p cmd"
  shows "length (filter (\<lambda>e. fst e = (UcRequestID c, UcAPIKeyID c)) (effects (usage_run p db after))) = 1"
  using assms(1) unfolding ApplyUsage_def Let_def c_def
  by (rule billed_once [OF usage_run_inv [OF initial_inv]])


text \<open>
  C10: What the caller believes about an account's daily and weekly limits only chooses the statement
  that is tried first: everything that is counted, the returned state, the errors and the
  announcement to the scheduler are those of the complete statement.
\<close>

theorem account_quota_hints_irrelevant:
  "applyUsageBillingEffects p now (c\<lparr>UcAccountQuotaHasDailyLimit := d, UcAccountQuotaHasWeeklyLimit := w\<rparr>) t =
   applyUsageBillingEffects p now (c\<lparr>UcAccountQuotaHasDailyLimit := True, UcAccountQuotaHasWeeklyLimit := True\<rparr>) t"
  by (simp add: applyUsageBillingEffects_def charge_hints account_hints [where d = d and w = w])

subsection \<open>Witnesses\<close>

definition demo_pg :: pg_env where
  "demo_pg = \<lparr>pg_number = (\<lambda>_. ''0''), pg_int = (\<lambda>_. Some 0), pg_numeric = (\<lambda>_. Some 0), pg_timestamp = (\<lambda>_. Some 0), pg_show = (\<lambda>_. ''t''),
     pg_show_seconds = (\<lambda>_. ''t''), pg_local = (\<lambda>_ t. Some t), pg_global = (\<lambda>_ t. Some t), pg_day = (\<lambda>t. t),
     pg_round = (\<lambda>x. x), pg_money = (\<lambda>_. ''0''), pg_sha256 = (\<lambda>s. ''h'')\<rparr>"

definition demo_cmd :: UsageBillingCommand where
  "demo_cmd = \<lparr>UcRequestID = ''r1'', UcAPIKeyID = 7, UcRequestFingerprint = [], UcRequestPayloadHash = [], UcUserID = 1, UcAccountID = 2,
     UcSubscriptionID = None, UcAccountType = ''apikey'', UcModel = ''m'', UcServiceTier = [], UcReasoningEffort = [], UcBillingType = 0,
     UcInputTokens = 10, UcOutputTokens = 5, UcCacheCreationTokens = 0, UcCacheReadTokens = 0, UcImageCount = 0, UcMediaType = [],
     UcBalanceCost = 3, UcSubscriptionCost = 0, UcAPIKeyQuotaCost = 0, UcAPIKeyRateLimitCost = 0, UcAccountQuotaCost = 0,
     UcAccountQuotaHasDailyLimit = False, UcAccountQuotaHasWeeklyLimit = False\<rparr>"

definition demo_tables :: usage_tables where
  "demo_tables = \<lparr>users = [1 \<mapsto> \<lparr>UuBalance = 10, UuFrozen = None\<rparr>], subs = Map.empty, keys = Map.empty, accounts = Map.empty, outbox = []\<rparr>"

lemma demo_trim: "trim_space ''r1'' = ''r1''" "trim_space [] = []"
  by code_simp+

lemma demo_normal: "NormalizeCommand demo_pg demo_cmd = demo_cmd\<lparr>UcRequestFingerprint := ''h''\<rparr>"
  by (simp add: NormalizeCommand_def Let_def demo_cmd_def demo_pg_def quantizeMonetaryFields_def QuantizeUsageBillingAmount_def
      buildUsageBillingFingerprint_def demo_trim)

lemma demo_tx: "ApplyUsage demo_pg now x demo_cmd db = claimedTx now x ''r1'' 7 ''h'' (noResult False)
    (\<lambda>db1. bind_ok (applyUsageBillingEffects demo_pg now (demo_cmd\<lparr>UcRequestFingerprint := ''h''\<rparr>) (tables db1))
      (\<lambda>(r, t). Inr (r, t, Charge (demo_cmd\<lparr>UcRequestFingerprint := ''h''\<rparr>)))) db"
  by (simp add: ApplyUsage_def Let_def demo_normal) (simp add: demo_cmd_def)

lemma demo_apply:
  "\<exists>r db. ApplyUsage demo_pg 1 DbOk demo_cmd (usage_run demo_pg (initial_usage demo_tables) [OpApply 0 DbLostReply demo_cmd]) = (Inr r, db)"
  unfolding usage_run_def foldl.simps usage_step.simps demo_tx
  by (simp add: claimedTx_def claimUsageBillingRequest_def initial_usage_def
      demo_tables_def applyUsageBillingEffects_def chargeSubscription_def chargeBalance_def chargeKeyQuota_def chargeKeyRate_def
      chargeAccountQuota_def bind_ok_def deductUsageBillingBalance_def written_def demo_cmd_def)

theorem usage_billed_once_witness:
  "\<exists>db. length (filter (\<lambda>e. fst e = (''r1'', 7)) (effects (usage_run demo_pg db [OpApply 2 DbOk demo_cmd, OpCleanup 5 [(''r1'', 7)]]))) = 1"
proof -
  from demo_apply obtain r db where
    "ApplyUsage demo_pg 1 DbOk demo_cmd (usage_run demo_pg (initial_usage demo_tables) [OpApply 0 DbLostReply demo_cmd]) = (Inr r, db)" by blast
  from usage_billed_once [OF this, of "[OpApply 2 DbOk demo_cmd, OpCleanup 5 [(''r1'', 7)]]"]
  show ?thesis unfolding demo_normal by (auto simp: demo_cmd_def)
qed


end
