(* ===== verification/BatchWorld.thy ===== *)
theory BatchWorld
  imports BatchImage UsageBillingProofs
begin

text \<open>
  All handlers of batch images together: an action is one step of one of them, the start or the crash
  of one, or a step of another part of the program. A job has one \<open>Submit\<close>, and one worker at a time,
  the holder of its lock; cancellations and recoveries run beside them in any number.
\<close>

record batch_system =
  bs_world :: batch_world
  bs_submit :: "gostring \<Rightarrow> (BatchImageJob \<times> submit_pc) option"
  bs_worker :: "gostring \<Rightarrow> worker_pc option"
  bs_side :: "side_pc list"

definition newJob :: "BatchImageJob \<Rightarrow> bool" where
  "newJob j \<longleftrightarrow> BiStatus j = JobCreated \<and> BiProviderJobName j = None \<and> BiActualCost j = None \<and> BiManifestHash j = None \<and>
     BiRetryCount j = 0 \<and> \<not> BiUserDeleted j \<and> BiPricingSnapshotVersion j = 1 \<and> (case BiAPIKeyID j of Some k \<Rightarrow> k > 0 | None \<Rightarrow> False)"

definition otherOp :: "pg_env \<Rightarrow> usage_op \<Rightarrow> bool" where
  "otherOp p op =
     (case op of
        OpApply now x c \<Rightarrow> \<not> has_prefix (UcRequestID (NormalizeCommand p c)) ''batch_image_''
      | OpCleanup cutoff picked \<Rightarrow> True
      | OpOther t \<Rightarrow> True
      | _ \<Rightarrow> False)"

datatype batch_action =
    ActCreate batch_env gostring BatchImageJob
  | ActSubmit batch_env gostring
  | ActStart gostring
  | ActWorker batch_env gostring
  | ActCancel int int gostring
  | ActRecover gostring gotime
  | ActSide batch_env nat
  | ActCrashSubmit gostring
  | ActCrashWorker gostring
  | ActCrashSide nat
  | ActTouch batch_env gostring
  | ActOutputDeleted batch_env gostring
  | ActUserDeleted batch_env int int gostring
  | ActUsage usage_op

definition setWorld :: "batch_world \<Rightarrow> batch_system \<Rightarrow> batch_system" where
  "setWorld w s = s\<lparr>bs_world := w\<rparr>"

definition setSide :: "nat \<Rightarrow> side_pc option \<Rightarrow> batch_system \<Rightarrow> batch_system" where
  "setSide n pc s = s\<lparr>bs_side := take n (bs_side s) @ (case pc of Some q \<Rightarrow> [q] | None \<Rightarrow> []) @ drop (Suc n) (bs_side s)\<rparr>"

text \<open>The id of a created job comes from fresh random bytes.\<close>

fun batch_do :: "pg_env \<Rightarrow> (gostring \<Rightarrow> real option) \<Rightarrow> batch_system \<Rightarrow> batch_action \<Rightarrow> batch_system" where
  "batch_do p pricing s (ActCreate e b j) =
     (let j' = j\<lparr>BiBatchID := NewBatchImageID b\<rparr> in
      if b = [] \<or> \<not> newJob j then s
      else case CreateBatchImageJob j' (bw_jobs (bs_world s)) of
        Inl _ \<Rightarrow> s
      | Inr js \<Rightarrow>
          (if be_db e = DbError then s
           else s\<lparr>bs_world := (bs_world s)\<lparr>bw_jobs := js\<rparr>,
                  bs_submit := (bs_submit s)(BiBatchID j' := if be_db e = DbOk then Some (j', SubReserve) else None)\<rparr>))"
| "batch_do p pricing s (ActSubmit e bid) =
     (case bs_submit s bid of
        None \<Rightarrow> s
      | Some (j, pc) \<Rightarrow>
          (case submit_step p e j pc (bs_world s) of
             (pc', w) \<Rightarrow> s\<lparr>bs_world := w, bs_submit := (bs_submit s)(bid := map_option (Pair j) pc')\<rparr>))"
| "batch_do p pricing s (ActStart bid) =
     (if bid \<in> set (bw_queue (bs_world s)) \<and> bs_worker s bid = None then s\<lparr>bs_worker := (bs_worker s)(bid \<mapsto> WkPipeline)\<rparr> else s)"
| "batch_do p pricing s (ActWorker e bid) =
     (case bs_worker s bid of
        None \<Rightarrow> s
      | Some pc \<Rightarrow>
          (case pipeline_step p pricing e bid pc (bs_world s) of
             (pc', w) \<Rightarrow> s\<lparr>bs_world := w, bs_worker := (bs_worker s)(bid := pc')\<rparr>))"
| "batch_do p pricing s (ActCancel user key bid) = s\<lparr>bs_side := CanStart user key bid # bs_side s\<rparr>"
| "batch_do p pricing s (ActRecover bid cutoff) = s\<lparr>bs_side := RecStart bid cutoff # bs_side s\<rparr>"
| "batch_do p pricing s (ActSide e n) =
     (if n < length (bs_side s)
      then case side_step p e (bs_side s ! n) (bs_world s) of (pc', w) \<Rightarrow> setSide n pc' (setWorld w s)
      else s)"
| "batch_do p pricing s (ActCrashSubmit bid) = s\<lparr>bs_submit := (bs_submit s)(bid := None)\<rparr>"
| "batch_do p pricing s (ActCrashWorker bid) = s\<lparr>bs_worker := (bs_worker s)(bid := None)\<rparr>"
| "batch_do p pricing s (ActCrashSide n) = (if n < length (bs_side s) then setSide n None s else s)"
| "batch_do p pricing s (ActTouch e bid) = setWorld (jobsExec e (TouchBatchImageJobSubmitting (be_now e) bid) (bs_world s)) s"
| "batch_do p pricing s (ActOutputDeleted e bid) =
     setWorld (snd (jobsTx e (MarkBatchImageOutputDeleted (be_now e) bid) (bs_world s))) s"
| "batch_do p pricing s (ActUserDeleted e user key bid) =
     setWorld (jobsExec e (MarkBatchImageJobUserDeleted (be_now e) user key bid) (bs_world s)) s"
| "batch_do p pricing s (ActUsage op) =
     (if otherOp p op then setWorld ((bs_world s)\<lparr>bw_usage := usage_step p (bw_usage (bs_world s)) op\<rparr>) s else s)"

definition batch_run :: "pg_env \<Rightarrow> (gostring \<Rightarrow> real option) \<Rightarrow> batch_system \<Rightarrow> batch_action list \<Rightarrow> batch_system" where
  "batch_run p pricing = foldl (batch_do p pricing)"

definition initial_batch :: "usage_tables \<Rightarrow> batch_system" where
  "initial_batch t = \<lparr>bs_world = \<lparr>bw_usage = initial_usage t, bw_jobs = Map.empty, bw_queue = []\<rparr>,
     bs_submit = Map.empty, bs_worker = Map.empty, bs_side = []\<rparr>"

subsection \<open>Keys\<close>

text \<open>A string that begins and ends with bytes no space is made of is its own trimmed form.\<close>

definition edge_bytes :: "gostring" where
  "edge_bytes = map hd space_encodings @ map last space_encodings"

lemma strip_one_edge:
  assumes "s \<noteq> []" "\<forall>p \<in> set ps. p \<noteq> [] \<and> hd p \<noteq> hd s"
  shows "strip_one ps s = None"
proof -
  have "\<not> has_prefix s p" if "p \<in> set ps" for p
  proof
    assume "has_prefix s p"
    then obtain t where "s = p @ t" by (auto simp: has_prefix_iff)
    with assms(2) that show False by auto
  qed
  then have "find (has_prefix s) ps = None" by (auto simp: find_None_iff)
  then show ?thesis by (simp add: strip_one_def)
qed

lemma strip_all_none: "strip_one ps s = None \<Longrightarrow> strip_all n ps s = s"
  by (cases n) simp_all

lemma trim_space_edges:
  assumes "s \<noteq> []" "hd s \<notin> set edge_bytes" "last s \<notin> set edge_bytes"
  shows "trim_space s = s"
proof -
  have nonempty: "\<forall>p \<in> set space_encodings. p \<noteq> []" by (simp add: space_encodings_def)
  have "strip_one space_encodings s = None"
    using assms nonempty by (intro strip_one_edge) (auto simp: edge_bytes_def image_iff)
  then have left: "trim_left s = s" by (simp add: trim_left_def strip_all_none)
  have "strip_one (map rev space_encodings) (rev s) = None"
    using assms nonempty by (intro strip_one_edge) (auto simp: edge_bytes_def hd_rev image_iff)
  then have "trim_right s = s" by (simp add: trim_right_def strip_all_none)
  with left show ?thesis by (simp add: trim_space_def)
qed

lemma hex_digit_edge: "d < 16 \<Longrightarrow> hex_digit d \<notin> set edge_bytes"
proof -
  assume "d < 16"
  have "\<forall>d \<in> set [0..<16]. hex_digit d \<notin> set edge_bytes" by code_simp
  with \<open>d < 16\<close> show ?thesis by auto
qed

lemma hex_encode_last: "b \<noteq> [] \<Longrightarrow> hex_encode b \<noteq> [] \<and> last (hex_encode b) \<notin> set edge_bytes"
proof (induction b)
  case (Cons x xs)
  then show ?case
    by (cases xs) (auto simp: hex_encode_def intro!: hex_digit_edge)
qed simp

lemma prefixed_trim:
  assumes "b \<noteq> []" "pre \<noteq> []" "hd pre \<notin> set edge_bytes"
  shows "trim_space (pre @ hex_encode b) = pre @ hex_encode b"
  using assms hex_encode_last [of b] by (intro trim_space_edges) auto

lemma edge_b: "CHR ''b'' \<notin> set edge_bytes" "CHR ''i'' \<notin> set edge_bytes"
  by code_simp+

lemma id_trim: "b \<noteq> [] \<Longrightarrow> trim_space (NewBatchImageID b) = NewBatchImageID b"
  unfolding NewBatchImageID_def by (rule prefixed_trim) (simp_all add: edge_b)

definition batch_id :: "gostring \<Rightarrow> bool" where
  "batch_id bid \<longleftrightarrow> (\<exists>b. b \<noteq> [] \<and> bid = NewBatchImageID b)"

lemma request_ids:
  assumes "batch_id bid"
  shows "trim_space bid = bid"
    "trim_space (BatchImageHoldRequestID bid) = ''batch_image_hold:'' @ bid" "BatchImageHoldRequestID bid = ''batch_image_hold:'' @ bid"
    "trim_space (BatchImageCaptureRequestID bid) = ''batch_image_capture:'' @ bid" "BatchImageCaptureRequestID bid = ''batch_image_capture:'' @ bid"
    "trim_space (BatchImageReleaseRequestID bid) = ''batch_image_release:'' @ bid" "BatchImageReleaseRequestID bid = ''batch_image_release:'' @ bid"
proof -
  from assms obtain b where b: "b \<noteq> []" "bid = ''imgbatch_'' @ hex_encode b"
    by (auto simp: batch_id_def NewBatchImageID_def)
  then show t: "trim_space bid = bid" using id_trim [of b] by (simp add: NewBatchImageID_def)
  have pre: "trim_space (pre @ bid) = pre @ bid" if "pre \<noteq> []" "hd pre = CHR ''b''" for pre
    using prefixed_trim [of b "pre @ ''imgbatch_''"] b that by (simp add: edge_b)
  show "trim_space (BatchImageHoldRequestID bid) = ''batch_image_hold:'' @ bid" "BatchImageHoldRequestID bid = ''batch_image_hold:'' @ bid"
    "trim_space (BatchImageCaptureRequestID bid) = ''batch_image_capture:'' @ bid" "BatchImageCaptureRequestID bid = ''batch_image_capture:'' @ bid"
    "trim_space (BatchImageReleaseRequestID bid) = ''batch_image_release:'' @ bid" "BatchImageReleaseRequestID bid = ''batch_image_release:'' @ bid"
    using pre [of "''batch_image_hold:''"] pre [of "''batch_image_capture:''"] pre [of "''batch_image_release:''"] t
    by (simp_all add: BatchImageHoldRequestID_def BatchImageCaptureRequestID_def BatchImageReleaseRequestID_def)
qed

end
