(* ===== verification/BatchProofs.thy ===== *)
theory BatchProofs
  imports BatchWorld
begin

text \<open>
  The invariant of the batches: for every job, what its handlers may still do fits its status and the
  committed effects of its three request ids. A step changes one job and adds effects with its keys
  only, so each step is checked on that job (\<open>sys_update\<close>).
\<close>

subsection \<open>The effects of one job\<close>

definition same_batch :: "BatchImageJob \<Rightarrow> BatchImageJob \<Rightarrow> bool" where
  "same_batch i j \<longleftrightarrow> BiBatchID i = BiBatchID j \<and> BiUserID i = BiUserID j \<and> BiAPIKeyID i = BiAPIKeyID j \<and>
     BiEstimatedCost i = BiEstimatedCost j \<and> BiHoldAmount i = BiHoldAmount j \<and>
     BiBillableUnitPrice i = BiBillableUnitPrice j \<and> BiPricingSnapshotVersion i = BiPricingSnapshotVersion j"

lemma same_batch_refl [simp]: "same_batch j j"
  by (simp add: same_batch_def)

definition good_job :: "BatchImageJob \<Rightarrow> bool" where
  "good_job j \<longleftrightarrow> batch_id (BiBatchID j) \<and> (\<exists>k > 0. BiAPIKeyID j = Some k) \<and> BiPricingSnapshotVersion j = 1"

definition holdKey :: "BatchImageJob \<Rightarrow> request_key" where
  "holdKey j = (''batch_image_hold:'' @ BiBatchID j, the (BiAPIKeyID j))"

definition captureKey :: "BatchImageJob \<Rightarrow> request_key" where
  "captureKey j = (''batch_image_capture:'' @ BiBatchID j, the (BiAPIKeyID j))"

definition releaseKey :: "BatchImageJob \<Rightarrow> request_key" where
  "releaseKey j = (''batch_image_release:'' @ BiBatchID j, the (BiAPIKeyID j))"

definition jobKeys :: "BatchImageJob \<Rightarrow> request_key set" where
  "jobKeys j = {holdKey j, captureKey j, releaseKey j}"

definition costOf :: "BatchImageJob \<Rightarrow> real" where
  "costOf j = real_of_int (BiSuccessCount j) * BiBillableUnitPrice j"

definition hasKey :: "usage_db \<Rightarrow> request_key \<Rightarrow> bool" where
  "hasKey u k \<longleftrightarrow> k \<in> fst ` set (effects u)"

definition freed :: "usage_db \<Rightarrow> BatchImageJob \<Rightarrow> bool" where
  "freed u j \<longleftrightarrow> (\<exists>f t c. (releaseKey j, f, t, ReleaseHold c True) \<in> set (effects u))"

definition held :: "usage_db \<Rightarrow> BatchImageJob \<Rightarrow> bool" where
  "held u j \<longleftrightarrow> holdAmountOf j \<le> 0 \<or> hasKey u (holdKey j)"

definition captured :: "usage_db \<Rightarrow> BatchImageJob \<Rightarrow> bool" where
  "captured u j \<longleftrightarrow> hasKey u (captureKey j)"

definition jobCommand :: "BatchImageJob \<Rightarrow> BatchImageBalanceHoldCommand \<Rightarrow> bool" where
  "jobCommand j c \<longleftrightarrow> HcUserID c = BiUserID j \<and> HcHoldAmount c = holdAmountOf j"

fun effectOk :: "usage_db \<Rightarrow> BatchImageJob \<Rightarrow> request_key \<Rightarrow> usage_effect \<Rightarrow> bool" where
  "effectOk u j k (Hold c) \<longleftrightarrow> k = holdKey j \<and> jobCommand j c"
| "effectOk u j k (Capture c) \<longleftrightarrow> k = captureKey j \<and> jobCommand j c \<and> HcActualAmount c = costOf j \<and> costOf j \<ge> 0"
| "effectOk u j k (ReleaseHold c h) \<longleftrightarrow> k = releaseKey j \<and> jobCommand j c \<and> (h \<longrightarrow> hasKey u (holdKey j))"
| "effectOk u j k (Charge c) \<longleftrightarrow> False"

definition effectsOk :: "usage_db \<Rightarrow> BatchImageJob \<Rightarrow> bool" where
  "effectsOk u j \<longleftrightarrow> (\<forall>(k, f, t, e) \<in> set (effects u). k \<in> jobKeys j \<longrightarrow> effectOk u j k e)"

lemma keys_differ [simp]:
  "holdKey i \<noteq> captureKey j" "holdKey i \<noteq> releaseKey j" "captureKey i \<noteq> releaseKey j"
  "captureKey i \<noteq> holdKey j" "releaseKey i \<noteq> holdKey j" "releaseKey i \<noteq> captureKey j"
  by (simp_all add: holdKey_def captureKey_def releaseKey_def)

lemma same_keys:
  "same_batch i j \<Longrightarrow> holdKey i = holdKey j" "same_batch i j \<Longrightarrow> captureKey i = captureKey j"
  "same_batch i j \<Longrightarrow> releaseKey i = releaseKey j" "same_batch i j \<Longrightarrow> holdAmountOf i = holdAmountOf j"
  "same_batch i j \<Longrightarrow> good_job i = good_job j"
  by (auto simp add: same_batch_def holdKey_def captureKey_def releaseKey_def holdAmountOf_def good_job_def split: option.splits)

lemma jobKeys_disjoint: "BiBatchID i \<noteq> BiBatchID j \<Longrightarrow> jobKeys i \<inter> jobKeys j = {}"
  by (auto simp: jobKeys_def holdKey_def captureKey_def releaseKey_def)

subsection \<open>Transactions of one job\<close>

definition adds :: "usage_db \<Rightarrow> usage_db \<Rightarrow> request_key set \<Rightarrow> bool" where
  "adds u u' ks \<longleftrightarrow> dedup_inv u' \<and> (\<exists>new. effects u' = new @ effects u \<and> fst ` set new \<subseteq> ks)"

lemma adds_refl: "dedup_inv u \<Longrightarrow> adds u u ks"
  by (simp add: adds_def)

lemma hold_normal:
  fixes p
  assumes "good_job j" "buildBatchImageHoldCommand j rid a h = Inr cmd" "trim_space rid = rid"
  defines "c \<equiv> NormalizeHold p cmd"
  shows "HcRequestID c = rid" "HcAPIKeyID c = the (BiAPIKeyID j)" "HcUserID c = BiUserID j" "HcHoldAmount c = holdAmountOf j"
    "HcActualAmount c = max 0 a" "HcBatchID c = BiBatchID j" "jobCommand j c"
proof -
  from assms(1) have "trim_space (BiBatchID j) = BiBatchID j" by (simp add: good_job_def request_ids)
  with assms show "HcRequestID c = rid" "HcAPIKeyID c = the (BiAPIKeyID j)" "HcUserID c = BiUserID j" "HcHoldAmount c = holdAmountOf j"
    "HcActualAmount c = max 0 a" "HcBatchID c = BiBatchID j" "jobCommand j c"
    by (auto simp: good_job_def buildBatchImageHoldCommand_def NormalizeHold_def jobCommand_def Let_def split: if_splits)
qed

text \<open>A hold transaction adds nothing, or its one effect; if it is answered, its key is there.\<close>

lemma hold_tx:
  assumes "dedup_inv u" "applyBatchImageBalanceHold p now x cmd kind u = (r, u')"
  defines "c \<equiv> NormalizeHold p cmd"
  defines "k \<equiv> (HcRequestID c, HcAPIKeyID c)"
  shows "dedup_inv u' \<and> (effects u' = effects u \<or>
      (\<exists>f. \<not> hasKey u k \<and> effects u' = (k, f, now, kind (u\<lparr>dedup := (dedup u)(k \<mapsto> (f, now))\<rparr>) c) # effects u)) \<and>
    (\<forall>v. r = Inr v \<longrightarrow> hasKey u' k)"
proof -
  let ?body = "\<lambda>db1. bind_ok (holdEffect (kind db1 c) (tables db1)) (\<lambda>(r, t). Inr (r, t, kind db1 c))"
  from assms(2) have tx: "claimedTx now x (HcRequestID c) (HcAPIKeyID c) (HcRequestFingerprint c) (noMoney False) ?body u = (r, u')"
    by (simp add: applyBatchImageBalanceHold_def Let_def c_def)
  have "\<forall>v. r = Inr v \<longrightarrow> hasKey u' k"
  proof (intro allI impI)
    fix v assume "r = Inr v"
    with claimedTx_answered [OF assms(1), of now x "HcRequestID c" "HcAPIKeyID c" "HcRequestFingerprint c" _ ?body v u'] tx
    show "hasKey u' k" by (force simp: hasKey_def k_def)
  qed
  moreover have "effects u' = effects u \<or>
      (\<exists>f. \<not> hasKey u k \<and> effects u' = (k, f, now, kind (u\<lparr>dedup := (dedup u)(k \<mapsto> (f, now))\<rparr>) c) # effects u)"
    using tx
  proof (cases rule: claimedTx_cases)
    case (commit v t e)
    from commit(3) have "e = kind (u\<lparr>dedup := (dedup u)(k \<mapsto> (HcRequestFingerprint c, now))\<rparr>) c"
      by (auto simp: k_def elim!: bind_okE)
    moreover have "\<not> hasKey u k"
      using commit(2) assms(1) committed_fst [of u k] by (simp add: hasKey_def k_def dedup_inv_def)
    ultimately show ?thesis using commit(4) by (auto simp: commits_def k_def)
  qed simp
  ultimately show ?thesis using claimedTx_inv [OF assms(1) tx] by simp
qed


lemma build_ok: "good_job j \<Longrightarrow> \<exists>cmd. buildBatchImageHoldCommand j rid a h = Inr cmd"
  by (auto simp: good_job_def buildBatchImageHoldCommand_def)

lemma build_fields: "buildBatchImageHoldCommand j rid a h = Inr cmd \<Longrightarrow> HcHoldAmount cmd = holdAmountOf j"
  by (auto simp: buildBatchImageHoldCommand_def split: option.splits if_splits)

lemma job_request_ids:
  assumes "good_job j"
  shows "BatchImageHoldRequestID (BiBatchID j) = fst (holdKey j)" "trim_space (fst (holdKey j)) = fst (holdKey j)"
    "BatchImageCaptureRequestID (BiBatchID j) = fst (captureKey j)" "trim_space (fst (captureKey j)) = fst (captureKey j)"
    "BatchImageReleaseRequestID (BiBatchID j) = fst (releaseKey j)" "trim_space (fst (releaseKey j)) = fst (releaseKey j)"
  using assms request_ids [of "BiBatchID j"]
  by (simp_all add: good_job_def holdKey_def captureKey_def releaseKey_def)

text \<open>What a transaction of job \<open>j\<close> has added: at most the effect \<open>e\<close> with key \<open>k\<close>.\<close>

definition addsOne :: "usage_db \<Rightarrow> usage_db \<Rightarrow> request_key \<Rightarrow> (usage_effect \<Rightarrow> bool) \<Rightarrow> bool" where
  "addsOne u u' k P \<longleftrightarrow> dedup_inv u' \<and> (effects u' = effects u \<or> (\<exists>f t e. \<not> hasKey u k \<and> effects u' = (k, f, t, e) # effects u \<and> P e))"

lemma addsOne_adds: "addsOne u u' k P \<Longrightarrow> k \<in> ks \<Longrightarrow> adds u u' ks"
  by (auto simp: addsOne_def adds_def)

lemma addsOne_refl: "dedup_inv u \<Longrightarrow> addsOne u u k P"
  by (simp add: addsOne_def)

lemma reserve_tx:
  assumes g: "good_job j" and d: "dedup_inv (bw_usage w)" and r: "reserveBatchImageBalanceHold p e j h w = (err, w')"
  shows "\<exists>u'. w' = w\<lparr>bw_usage := u'\<rparr> \<and> addsOne (bw_usage w) u' (holdKey j) (\<lambda>e. \<exists>c. e = Hold c \<and> jobCommand j c) \<and>
           (err = None \<longrightarrow> held u' j)"
proof -
  obtain cmd where cmd: "buildBatchImageHoldCommand j (fst (holdKey j)) 0 h = Inr cmd" using build_ok [OF g] by blast
  note n = hold_normal [OF g cmd job_request_ids(2) [OF g], of p]
  show ?thesis
  proof (cases "HcHoldAmount cmd \<le> 0")
    case True
    with r cmd have "w' = w" "err = None"
      by (auto simp: reserveBatchImageBalanceHold_def job_request_ids(1) [OF g])
    moreover have "held (bw_usage w) j" using True build_fields [OF cmd] by (simp add: held_def)
    ultimately show ?thesis using addsOne_refl [OF d] by (intro exI [of _ "bw_usage w"]) simp
  next
    case False
    obtain q u' where tx: "ReserveBatchImageBalance p (be_now e) (be_db e) cmd (bw_usage w) = (q, u')" by fastforce
    note t = hold_tx [OF d tx [unfolded ReserveBatchImageBalance_def]]
    from r cmd False tx have "w' = w\<lparr>bw_usage := u'\<rparr>" "err = None \<Longrightarrow> \<exists>v. q = Inr v"
      by (auto simp: reserveBatchImageBalanceHold_def job_request_ids(1) [OF g] split: sum.splits if_splits)
    moreover have key: "(HcRequestID (NormalizeHold p cmd), HcAPIKeyID (NormalizeHold p cmd)) = holdKey j"
      using n by (simp add: holdKey_def)
    moreover have "addsOne (bw_usage w) u' (holdKey j) (\<lambda>e. \<exists>c. e = Hold c \<and> jobCommand j c)"
      using t [unfolded key] n(7) unfolding addsOne_def by blast
    ultimately show ?thesis using t [unfolded key] unfolding held_def by blast
  qed
qed

lemma capture_tx:
  assumes g: "good_job j" and d: "dedup_inv (bw_usage w)" and r: "captureBatchImageBalanceHold p e j a h w = (err, w')"
  shows "\<exists>u'. w' = w\<lparr>bw_usage := u'\<rparr> \<and>
           addsOne (bw_usage w) u' (captureKey j) (\<lambda>e. \<exists>c. e = Capture c \<and> jobCommand j c \<and> HcActualAmount c = max 0 a) \<and>
           (err = None \<longrightarrow> captured u' j)"
proof -
  obtain cmd where cmd: "buildBatchImageHoldCommand j (fst (captureKey j)) a h = Inr cmd" using build_ok [OF g] by blast
  note n = hold_normal [OF g cmd job_request_ids(4) [OF g], of p]
  obtain q u' where tx: "CaptureBatchImageBalance p (be_now e) (be_db e) cmd (bw_usage w) = (q, u')" by fastforce
  note t = hold_tx [OF d tx [unfolded CaptureBatchImageBalance_def]]
  from r cmd tx have "w' = w\<lparr>bw_usage := u'\<rparr>" "err = None \<Longrightarrow> \<exists>v. q = Inr v"
    by (auto simp: captureBatchImageBalanceHold_def job_request_ids(3) [OF g] split: sum.splits if_splits)
  moreover have key: "(HcRequestID (NormalizeHold p cmd), HcAPIKeyID (NormalizeHold p cmd)) = captureKey j"
    using n by (simp add: captureKey_def)
  moreover have "addsOne (bw_usage w) u' (captureKey j) (\<lambda>e. \<exists>c. e = Capture c \<and> jobCommand j c \<and> HcActualAmount c = max 0 a)"
    using t [unfolded key] n(5,7) unfolding addsOne_def by blast
  ultimately show ?thesis using t [unfolded key] unfolding captured_def by blast
qed

lemma held_claim:
  assumes "dedup_inv u" "k \<noteq> k'"
  shows "batchImageHoldClaimExists (u\<lparr>dedup := (dedup u)(k' \<mapsto> y)\<rparr>) (fst k) (snd k) = hasKey u k"
proof -
  have "hasKey u k \<longleftrightarrow> claims u k \<noteq> None"
    using assms(1) committed_fst [of u k] by (simp add: hasKey_def dedup_inv_def)
  with assms(2) show ?thesis by (auto simp: batchImageHoldClaimExists_def claims_none)
qed

lemma release_tx:
  assumes g: "good_job j" and d: "dedup_inv (bw_usage w)" and r: "releaseHold p e j w = (err, w')"
  shows "\<exists>u'. w' = w\<lparr>bw_usage := u'\<rparr> \<and>
           addsOne (bw_usage w) u' (releaseKey j)
             (\<lambda>e. \<exists>c. e = ReleaseHold c (hasKey (bw_usage w) (holdKey j)) \<and> jobCommand j c)"
proof -
  let ?h = "batchImageDerefString (BiRequestHash j)"
  obtain cmd where cmd: "buildBatchImageHoldCommand j (fst (releaseKey j)) 0 ?h = Inr cmd" using build_ok [OF g] by blast
  note n = hold_normal [OF g cmd job_request_ids(6) [OF g], of p]
  show ?thesis
  proof (cases "HcHoldAmount cmd \<le> 0")
    case True
    with r cmd have "w' = w"
      by (auto simp: releaseHold_def releaseBatchImageBalanceHold_def job_request_ids(5) [OF g])
    then show ?thesis using addsOne_refl [OF d] by (intro exI [of _ "bw_usage w"]) simp
  next
    case False
    obtain q u' where tx: "ReleaseBatchImageBalance p (be_now e) (be_db e) cmd (bw_usage w) = (q, u')" by fastforce
    note t = hold_tx [OF d tx [unfolded ReleaseBatchImageBalance_def]]
    from r cmd False tx have "w' = w\<lparr>bw_usage := u'\<rparr>"
      by (auto simp: releaseHold_def releaseBatchImageBalanceHold_def job_request_ids(5) [OF g] split: sum.splits if_splits)
    moreover have "batchImageHoldClaimExists ((bw_usage w)\<lparr>dedup := (dedup (bw_usage w))(releaseKey j \<mapsto> y)\<rparr>)
        (BatchImageHoldRequestID (HcBatchID (NormalizeHold p cmd))) (HcAPIKeyID (NormalizeHold p cmd)) = hasKey (bw_usage w) (holdKey j)" for y
      using held_claim [OF d, of "holdKey j" "releaseKey j" y] n by (simp add: job_request_ids(1) [OF g]) (simp add: holdKey_def)
    moreover have key: "(HcRequestID (NormalizeHold p cmd), HcAPIKeyID (NormalizeHold p cmd)) = releaseKey j"
      using n by (simp add: releaseKey_def)
    ultimately show ?thesis using t [unfolded key] n(7) unfolding addsOne_def by auto
  qed
qed


subsection \<open>The invariant of one job\<close>

definition late :: "batch_status \<Rightarrow> bool" where
  "late s \<longleftrightarrow> s \<in> {JobSubmitted, JobRunning, JobIndexing, JobSettling, JobCompleted, JobOutputDeleted}"

definition batch_settled :: "batch_status \<Rightarrow> bool" where
  "batch_settled s \<longleftrightarrow> s \<in> {JobSettling, JobCompleted, JobOutputDeleted}"

definition calledOff :: "batch_status \<Rightarrow> bool" where
  "calledOff s \<longleftrightarrow> s \<in> {JobFailed, JobCancelled}"

definition tired :: "BatchImageJob \<Rightarrow> bool" where
  "tired j \<longleftrightarrow> BiRetryCount j \<ge> batchImageSettlementMaxRetries"

fun submitOk :: "usage_db \<Rightarrow> BatchImageJob \<Rightarrow> submit_pc \<Rightarrow> bool" where
  "submitOk u j SubQueue \<longleftrightarrow> True"
| "submitOk u j SubReserve \<longleftrightarrow> \<not> late (BiStatus j) \<and> (freed u j \<longrightarrow> calledOff (BiStatus j))"
| "submitOk u j SubItems \<longleftrightarrow> \<not> late (BiStatus j) \<and> held u j \<and> (freed u j \<longrightarrow> calledOff (BiStatus j))"
| "submitOk u j SubUpload \<longleftrightarrow> \<not> late (BiStatus j) \<and> held u j \<and> (freed u j \<longrightarrow> calledOff (BiStatus j))"
| "submitOk u j SubProvider \<longleftrightarrow> \<not> late (BiStatus j) \<and> held u j \<and> (freed u j \<longrightarrow> calledOff (BiStatus j))"
| "submitOk u j (SubPersist n r) \<longleftrightarrow> \<not> late (BiStatus j) \<and> held u j \<and> (freed u j \<longrightarrow> calledOff (BiStatus j))"
| "submitOk u j _ \<longleftrightarrow> \<not> late (BiStatus j)"

definition subOk :: "usage_db \<Rightarrow> BatchImageJob \<Rightarrow> (BatchImageJob \<times> submit_pc) option \<Rightarrow> bool" where
  "subOk u j sub \<longleftrightarrow> (case sub of Some (i, pc) \<Rightarrow> same_batch i j \<and> submitOk u j pc | None \<Rightarrow> True)"

fun workerOk :: "usage_db \<Rightarrow> BatchImageJob \<Rightarrow> worker_pc \<Rightarrow> bool" where
  "workerOk u j WkPipeline \<longleftrightarrow> True"
| "workerOk u j WkSettle \<longleftrightarrow> True"
| "workerOk u j WkProcess \<longleftrightarrow> True"
| "workerOk u j WkReread \<longleftrightarrow> True"
| "workerOk u j (WkGet i) \<longleftrightarrow> same_batch i j \<and> \<not> batch_settled (BiStatus j)"
| "workerOk u j (WkPersistRef i st) \<longleftrightarrow> same_batch i j \<and> \<not> batch_settled (BiStatus j)"
| "workerOk u j (WkAct i st code) \<longleftrightarrow> same_batch i j \<and> \<not> batch_settled (BiStatus j)"
| "workerOk u j (WkIndex i) \<longleftrightarrow> same_batch i j \<and> \<not> batch_settled (BiStatus j)"
| "workerOk u j (WkIndexed i n m) \<longleftrightarrow> same_batch i j \<and> \<not> batch_settled (BiStatus j)"
| "workerOk u j (WkIndexFail i code) \<longleftrightarrow> same_batch i j \<and> \<not> batch_settled (BiStatus j)"
| "workerOk u j (WkToSettling i) \<longleftrightarrow> same_batch i j \<and> \<not> batch_settled (BiStatus j)"
| "workerOk u j (WkRelease i) \<longleftrightarrow> same_batch i j \<and> calledOff (BiStatus j)"
| "workerOk u j (SetFail i code b) \<longleftrightarrow> same_batch i j \<and> BiStatus j = JobSettling"
| "workerOk u j (SetExhaust i) \<longleftrightarrow> same_batch i j \<and> BiStatus j = JobSettling \<and> tired j"
| "workerOk u j (SetExhaustFail i) \<longleftrightarrow> BiStatus j = JobSettling \<and> tired j"
| "workerOk u j (SetFailed i) \<longleftrightarrow> BiStatus j = JobSettling \<and> tired j"
| "workerOk u j (SetCapture i cost m) \<longleftrightarrow> same_batch i j \<and> BiStatus j = JobSettling \<and> cost = costOf j \<and> cost \<ge> 0"
| "workerOk u j (SetMark i cost m) \<longleftrightarrow> BiStatus j = JobSettling \<and> captured u j \<and> cost = costOf j"

definition wkOk :: "usage_db \<Rightarrow> BatchImageJob \<Rightarrow> worker_pc option \<Rightarrow> bool" where
  "wkOk u j wk \<longleftrightarrow> (case wk of Some pc \<Rightarrow> workerOk u j pc | None \<Rightarrow> True)"

definition moneyOk :: "usage_db \<Rightarrow> BatchImageJob \<Rightarrow> bool" where
  "moneyOk u j \<longleftrightarrow>
     (late (BiStatus j) \<longrightarrow> held u j \<and> (freed u j \<longrightarrow> tired j)) \<and>
     (captured u j \<longrightarrow> batch_settled (BiStatus j) \<or> BiStatus j = JobFailed \<and> tired j) \<and>
     (BiStatus j \<in> {JobCompleted, JobOutputDeleted} \<longrightarrow> captured u j \<and> BiActualCost j = Some (costOf j))"

definition jobOk :: "usage_db \<Rightarrow> BatchImageJob \<Rightarrow> (BatchImageJob \<times> submit_pc) option \<Rightarrow> worker_pc option \<Rightarrow> bool" where
  "jobOk u j sub wk \<longleftrightarrow> good_job j \<and> effectsOk u j \<and> moneyOk u j \<and> subOk u j sub \<and> wkOk u j wk"

fun sideOk :: "jobs \<Rightarrow> side_pc \<Rightarrow> bool" where
  "sideOk js (CanTransition i) \<longleftrightarrow> (\<exists>j. js (BiBatchID i) = Some j \<and> same_batch i j)"
| "sideOk js (RecFail i c) \<longleftrightarrow> (\<exists>j. js (BiBatchID i) = Some j \<and> same_batch i j)"
| "sideOk js (CanRelease i) \<longleftrightarrow> (\<exists>j. js (BiBatchID i) = Some j \<and> same_batch i j \<and> calledOff (BiStatus j))"
| "sideOk js (RecRelease i) \<longleftrightarrow> (\<exists>j. js (BiBatchID i) = Some j \<and> same_batch i j \<and> calledOff (BiStatus j))"
| "sideOk js _ \<longleftrightarrow> True"

definition ownedKeys :: "usage_db \<Rightarrow> jobs \<Rightarrow> bool" where
  "ownedKeys u js \<longleftrightarrow> (\<forall>k \<in> fst ` set (effects u). has_prefix (fst k) ''batch_image_'' \<longrightarrow>
     (\<exists>bid j. js bid = Some j \<and> k \<in> jobKeys j))"

definition batchInv :: "batch_system \<Rightarrow> bool" where
  "batchInv s \<longleftrightarrow>
     dedup_inv (bw_usage (bs_world s)) \<and>
     (\<forall>bid j. bw_jobs (bs_world s) bid = Some j \<longrightarrow>
        BiBatchID j = bid \<and> jobOk (bw_usage (bs_world s)) j (bs_submit s bid) (bs_worker s bid)) \<and>
     (\<forall>bid. bw_jobs (bs_world s) bid = None \<longrightarrow> bs_submit s bid = None \<and> bs_worker s bid \<in> {None, Some WkPipeline}) \<and>
     list_all (sideOk (bw_jobs (bs_world s))) (bs_side s) \<and>
     ownedKeys (bw_usage (bs_world s)) (bw_jobs (bs_world s))"

subsection \<open>Frames\<close>

definition sameJobEffects :: "usage_db \<Rightarrow> usage_db \<Rightarrow> BatchImageJob \<Rightarrow> bool" where
  "sameJobEffects u u' j \<longleftrightarrow> (\<forall>k f t e. k \<in> jobKeys j \<longrightarrow> (k, f, t, e) \<in> set (effects u') \<longleftrightarrow> (k, f, t, e) \<in> set (effects u))"

lemma adds_sameJob: "adds u u' ks \<Longrightarrow> ks \<inter> jobKeys j = {} \<Longrightarrow> sameJobEffects u u' j"
  by (fastforce simp: adds_def sameJobEffects_def image_subset_iff)

lemma frame_hasKey: "sameJobEffects u u' j \<Longrightarrow> k \<in> jobKeys j \<Longrightarrow> hasKey u' k = hasKey u k"
  by (force simp: sameJobEffects_def hasKey_def image_iff)

lemma frame_facts:
  assumes "sameJobEffects u u' j"
  shows "freed u' j = freed u j" "held u' j = held u j" "captured u' j = captured u j" "effectsOk u' j = effectsOk u j"
proof -
  have k: "hasKey u' (holdKey j) = hasKey u (holdKey j)" "hasKey u' (captureKey j) = hasKey u (captureKey j)"
    using frame_hasKey [OF assms] by (simp_all add: jobKeys_def)
  then show "held u' j = held u j" "captured u' j = captured u j" by (simp_all add: held_def captured_def)
  have "releaseKey j \<in> jobKeys j" by (simp add: jobKeys_def)
  with assms show "freed u' j = freed u j" unfolding freed_def sameJobEffects_def by blast
  have "effectOk u' j key e = effectOk u j key e" for key e using k by (cases e) simp_all
  then show "effectsOk u' j = effectsOk u j" using assms unfolding effectsOk_def sameJobEffects_def by blast
qed

lemma frame_job: "sameJobEffects u u' j \<Longrightarrow> jobOk u' j sub wk = jobOk u j sub wk"
proof -
  assume f: "sameJobEffects u u' j"
  have "submitOk u' j pc = submitOk u j pc" for pc using frame_facts [OF f] by (cases pc) simp_all
  moreover have "workerOk u' j pc = workerOk u j pc" for pc using frame_facts [OF f] by (cases pc) simp_all
  ultimately show ?thesis
    using frame_facts [OF f] by (simp add: jobOk_def moneyOk_def subOk_def wkOk_def split: option.split)
qed

lemma side_frame:
  assumes "sideOk js pc" "js bid = Some j" "same_batch j j'" "calledOff (BiStatus j) \<longrightarrow> calledOff (BiStatus j')"
  shows "sideOk (js(bid \<mapsto> j')) pc"
  using assms by (cases pc) (auto simp: same_batch_def)

subsection \<open>A step on one job\<close>

lemma sys_update:
  assumes inv: "batchInv s" and j: "bw_jobs (bs_world s) bid = Some j"
    and w': "bw_jobs w' = (bw_jobs (bs_world s))(bid \<mapsto> j')"
    and ads: "adds (bw_usage (bs_world s)) (bw_usage w') (jobKeys j)"
    and same: "same_batch j j'" and cl: "calledOff (BiStatus j) \<longrightarrow> calledOff (BiStatus j')"
    and ji: "jobOk (bw_usage w') j' sub' wk'"
    and sd: "list_all (sideOk (bw_jobs w')) side'"
  shows "batchInv \<lparr>bs_world = w', bs_submit = (bs_submit s)(bid := sub'), bs_worker = (bs_worker s)(bid := wk'), bs_side = side'\<rparr>"
proof -
  have keys: "jobKeys j' = jobKeys j" using same_keys [OF same] by (simp add: jobKeys_def)
  have id: "BiBatchID j = bid" using inv j by (simp add: batchInv_def)
  have others: "jobOk (bw_usage w') i sub wk"
    if "bw_jobs (bs_world s) b = Some i" "b \<noteq> bid" "jobOk (bw_usage (bs_world s)) i sub wk" for b i sub wk
  proof -
    from that inv have "BiBatchID i = b" by (simp add: batchInv_def)
    with that(2) id have "jobKeys j \<inter> jobKeys i = {}" by (intro jobKeys_disjoint) simp
    from frame_job [OF adds_sameJob [OF ads this]] that(3) show ?thesis by simp
  qed
  have "ownedKeys (bw_usage w') (bw_jobs w')"
    unfolding ownedKeys_def
  proof (intro ballI impI)
    fix k assume k: "k \<in> fst ` set (effects (bw_usage w'))" "has_prefix (fst k) ''batch_image_''"
    show "\<exists>b i. bw_jobs w' b = Some i \<and> k \<in> jobKeys i"
    proof (cases "k \<in> jobKeys j")
      case True
      with keys w' show ?thesis by (intro exI [of _ bid] exI [of _ j']) simp
    next
      case False
      from ads obtain new where "effects (bw_usage w') = new @ effects (bw_usage (bs_world s))" "fst ` set new \<subseteq> jobKeys j"
        unfolding adds_def by blast
      with k(1) False have "k \<in> fst ` set (effects (bw_usage (bs_world s)))"
        by (simp only: set_append image_Un) blast
      with k(2) inv obtain b i where b: "bw_jobs (bs_world s) b = Some i" "k \<in> jobKeys i"
        unfolding batchInv_def ownedKeys_def by blast
      with False j have "b \<noteq> bid" by auto
      with b w' show ?thesis by auto
    qed
  qed
  with inv others w' ji sd ads id same show ?thesis
    unfolding batchInv_def adds_def by (auto simp: same_batch_def)
qed


subsection \<open>Changes of the row, changes of the effects\<close>

lemma jobsTx_row:
  assumes "jobsTx e (updateJob bid g) w = (r, w')" "bw_jobs w bid = Some j"
  shows "\<exists>j'. w' = w\<lparr>bw_jobs := (bw_jobs w)(bid \<mapsto> j')\<rparr> \<and> (g j = Inr j' \<or> j' = j \<and> r \<noteq> None)"
proof (cases "g j")
  case (Inl err)
  with assms have "w' = w" "r \<noteq> None" by (auto simp: jobsTx_def updateJob_def)
  moreover have "(bw_jobs w)(bid \<mapsto> j) = bw_jobs w" using assms(2) by auto
  ultimately show ?thesis by (intro exI [of _ j]) simp
next
  case (Inr j2)
  show ?thesis
  proof (cases "be_db e = DbError")
    case True
    with assms Inr have "w' = w" "r \<noteq> None" by (auto simp: jobsTx_def updateJob_def written_def reply_ok_def)
    moreover have "(bw_jobs w)(bid \<mapsto> j) = bw_jobs w" using assms(2) by auto
    ultimately show ?thesis by (intro exI [of _ j]) simp
  next
    case False
    with assms Inr have "w' = w\<lparr>bw_jobs := (bw_jobs w)(bid \<mapsto> j2)\<rparr>"
      by (auto simp: jobsTx_def updateJob_def written_def)
    with Inr show ?thesis by blast
  qed
qed

lemma jobsExec_row:
  assumes "jobsExec e (updateWhere bid P f) w = w'" "bw_jobs w bid = Some j"
  shows "\<exists>j'. w' = w\<lparr>bw_jobs := (bw_jobs w)(bid \<mapsto> j')\<rparr> \<and> (j' = j \<or> P j \<and> j' = f j)"
proof -
  have "(bw_jobs w)(bid \<mapsto> j) = bw_jobs w" using assms by auto
  then show ?thesis using assms
    by (cases "be_db e = DbError \<or> \<not> P j") (force simp: jobsExec_def updateWhere_def written_def)+
qed

lemma core_facts:
  assumes "same_batch j j'" "BiSuccessCount j' = BiSuccessCount j"
  shows "effectsOk u j' = effectsOk u j" "freed u j' = freed u j" "held u j' = held u j" "captured u j' = captured u j"
    "costOf j' = costOf j" "good_job j' = good_job j"
proof -
  note k = same_keys [OF assms(1)]
  show c: "costOf j' = costOf j" using assms by (simp add: costOf_def same_batch_def)
  show "freed u j' = freed u j" "held u j' = held u j" "captured u j' = captured u j" "good_job j' = good_job j"
    using k by (simp_all add: freed_def held_def captured_def)
  have "jobCommand j' c = jobCommand j c" for c using assms(1) k(4) by (simp add: jobCommand_def same_batch_def)
  then have "effectOk u j' key e = effectOk u j key e" for key e using k c by (cases e) simp_all
  then show "effectsOk u j' = effectsOk u j" using k by (simp add: effectsOk_def jobKeys_def)
qed

lemma hasKey_grow: "addsOne u u' k P \<Longrightarrow> hasKey u q \<Longrightarrow> hasKey u' q"
  by (auto simp: addsOne_def hasKey_def)

lemma effectOk_grow: "addsOne u u' k P \<Longrightarrow> effectOk u j q e \<Longrightarrow> effectOk u' j q e"
  using hasKey_grow [of u u' k P "holdKey j"] by (cases e) auto

lemma addsOne_effectsOk:
  assumes "addsOne u u' k P" "effectsOk u j" "\<And>e. P e \<Longrightarrow> effectOk u j k e"
  shows "effectsOk u' j"
  unfolding effectsOk_def
proof (clarify)
  fix a b f t e assume x: "((a, b), f, t, e) \<in> set (effects u')" "(a, b) \<in> jobKeys j"
  with assms(1) consider "((a, b), f, t, e) \<in> set (effects u)" | "(a, b) = k" "P e"
    by (auto simp: addsOne_def)
  then show "effectOk u' j (a, b) e"
  proof cases
    case 1
    with x(2) assms(2) have "effectOk u j (a, b) e" by (auto simp: effectsOk_def)
    then show ?thesis by (rule effectOk_grow [OF assms(1)])
  next
    case 2
    with assms(3) show ?thesis by (auto intro: effectOk_grow [OF assms(1)])
  qed
qed

lemma addsOne_facts:
  assumes "addsOne u u' k P"
  shows "held u j \<Longrightarrow> held u' j" "captured u j \<Longrightarrow> captured u' j" "k \<noteq> captureKey j \<Longrightarrow> captured u' j = captured u j"
    "k \<noteq> releaseKey j \<Longrightarrow> freed u' j = freed u j"
proof -
  show "held u j \<Longrightarrow> held u' j" "captured u j \<Longrightarrow> captured u' j"
    using hasKey_grow [OF assms, of "holdKey j"] hasKey_grow [OF assms, of "captureKey j"] by (auto simp: held_def captured_def)
  show "k \<noteq> captureKey j \<Longrightarrow> captured u' j = captured u j"
    using assms by (auto simp: addsOne_def captured_def hasKey_def)
  show "k \<noteq> releaseKey j \<Longrightarrow> freed u' j = freed u j"
    using assms unfolding addsOne_def freed_def by (elim conjE disjE exE) (simp_all only: list.set insert_iff prod.inject, simp_all)
qed

lemma worker_stable:
  assumes "workerOk u j pc" "same_batch j j'" "BiSuccessCount j' = BiSuccessCount j" "batch_settled (BiStatus j') \<longrightarrow> batch_settled (BiStatus j)"
    "BiStatus j = JobSettling \<longrightarrow> BiStatus j' = JobSettling" "calledOff (BiStatus j) \<longrightarrow> calledOff (BiStatus j')" "tired j \<longrightarrow> tired j'"
    "captured u j \<longrightarrow> captured u' j'"
  shows "workerOk u' j' pc"
proof -
  have "same_batch i j \<Longrightarrow> same_batch i j'" for i using assms(2) by (simp add: same_batch_def)
  then show ?thesis using assms core_facts(5) [OF assms(2,3)] by (cases pc) auto
qed

lemma submit_stable:
  assumes "submitOk u j pc" "late (BiStatus j') \<longrightarrow> late (BiStatus j)" "held u j \<longrightarrow> held u' j'"
    "freed u' j' \<longrightarrow> calledOff (BiStatus j') \<or> freed u j" "calledOff (BiStatus j) \<longrightarrow> calledOff (BiStatus j')"
  shows "submitOk u' j' pc"
  using assms by (cases pc) auto


lemma same_command: "same_batch i j \<Longrightarrow> jobCommand i = jobCommand j"
  using same_keys(4) [of i j] by (auto simp: jobCommand_def same_batch_def fun_eq_iff)

text \<open>The transactions of job \<open>j\<close>, run on an earlier reading \<open>i\<close> of it.\<close>

lemma hold_ok:
  assumes "jobOk u j sub wk" "addsOne u u' (holdKey j) (\<lambda>e. \<exists>c. e = Hold c \<and> jobCommand j c)"
  shows "effectsOk u' j" "moneyOk u' j" "submitOk u j pc \<Longrightarrow> submitOk u' j pc" "wkOk u' j wk"
proof -
  note f = addsOne_facts [OF assms(2), of j]
  have fr: "freed u' j = freed u j" and ca: "captured u' j = captured u j" using f(3,4) by simp_all
  show "effectsOk u' j"
    by (rule addsOne_effectsOk [OF assms(2)]) (use assms(1) in \<open>auto simp: jobOk_def\<close>)
  show "moneyOk u' j" using assms(1) f(1) fr ca by (auto simp: jobOk_def moneyOk_def)
  show "submitOk u j pc \<Longrightarrow> submitOk u' j pc" by (erule submit_stable) (use f(1) fr in simp_all)
  show "wkOk u' j wk"
    using assms(1) worker_stable [of u j _ j u'] ca by (auto simp: jobOk_def wkOk_def split: option.splits)
qed

lemma release_ok:
  assumes "jobOk u j sub wk" "late (BiStatus j) \<longrightarrow> tired j"
    "addsOne u u' (releaseKey j) (\<lambda>e. \<exists>c. e = ReleaseHold c (hasKey u (holdKey j)) \<and> jobCommand j c)"
  shows "effectsOk u' j" "moneyOk u' j" "calledOff (BiStatus j) \<Longrightarrow> submitOk u j pc \<Longrightarrow> submitOk u' j pc" "wkOk u' j wk"
proof -
  note f = addsOne_facts [OF assms(3), of j]
  have ca: "captured u' j = captured u j" using f(3) by simp
  show "effectsOk u' j"
    by (rule addsOne_effectsOk [OF assms(3)]) (use assms(1) in \<open>auto simp: jobOk_def\<close>)
  show "moneyOk u' j" using assms(1,2) f(1) ca by (auto simp: jobOk_def moneyOk_def)
  show "calledOff (BiStatus j) \<Longrightarrow> submitOk u j pc \<Longrightarrow> submitOk u' j pc" by (erule submit_stable) (use f(1) in simp_all)
  show "wkOk u' j wk"
    using assms(1) worker_stable [of u j _ j u'] ca by (auto simp: jobOk_def wkOk_def split: option.splits)
qed

lemma capture_ok:
  assumes "jobOk u j sub wk" "BiStatus j = JobSettling" "costOf j \<ge> 0"
    "addsOne u u' (captureKey j) (\<lambda>e. \<exists>c. e = Capture c \<and> jobCommand j c \<and> HcActualAmount c = max 0 (costOf j))"
  shows "effectsOk u' j" "moneyOk u' j" "submitOk u j pc \<Longrightarrow> submitOk u' j pc"
proof -
  note f = addsOne_facts [OF assms(4), of j]
  have fr: "freed u' j = freed u j" using f(4) by simp
  show "effectsOk u' j"
    by (rule addsOne_effectsOk [OF assms(4)]) (use assms(1,3) in \<open>auto simp: jobOk_def\<close>)
  show "moneyOk u' j" using assms(1,2) f(1,2) fr by (auto simp: jobOk_def moneyOk_def batch_settled_def)
  show "submitOk u j pc \<Longrightarrow> submitOk u' j pc" by (erule submit_stable) (use f(1) fr in simp_all)
qed

text \<open>A change of columns that are no core.\<close>

definition rowChange :: "BatchImageJob \<Rightarrow> BatchImageJob \<Rightarrow> bool" where
  "rowChange j j' \<longleftrightarrow> same_batch j j' \<and> BiSuccessCount j' = BiSuccessCount j \<and>
     (batch_settled (BiStatus j') \<longrightarrow> batch_settled (BiStatus j)) \<and> (BiStatus j = JobSettling \<longrightarrow> BiStatus j' = JobSettling) \<and>
     (calledOff (BiStatus j) \<longrightarrow> calledOff (BiStatus j')) \<and> (tired j \<longrightarrow> tired j')"

lemma rowChange_keeps:
  assumes "jobOk u j sub wk" "rowChange j j'"
  shows "good_job j'" "effectsOk u j'" "wkOk u j' wk"
proof -
  from assms(2) have b: "same_batch j j'" "BiSuccessCount j' = BiSuccessCount j" by (simp_all add: rowChange_def)
  note c = core_facts [OF b]
  show "good_job j'" "effectsOk u j'" using assms(1) c by (simp_all add: jobOk_def)
  show "wkOk u j' wk"
    using assms c(4) worker_stable [of u j _ j' u] by (auto simp: jobOk_def wkOk_def rowChange_def split: option.splits)
qed

lemma rowChange_sub:
  assumes "subOk u j sub" "rowChange j j'" "late (BiStatus j') \<longrightarrow> late (BiStatus j)"
  shows "subOk u j' sub"
proof -
  from assms(2) have b: "same_batch j j'" "BiSuccessCount j' = BiSuccessCount j" by (simp_all add: rowChange_def)
  note c = core_facts [OF b]
  have "same_batch i j \<Longrightarrow> same_batch i j'" for i using b(1) by (simp add: same_batch_def)
  then show ?thesis
    using assms c(2,3) submit_stable [of u j _ j' u] by (auto simp: subOk_def rowChange_def split: option.splits)
qed


subsection \<open>The steps\<close>

lemma side_list:
  assumes "list_all (sideOk js) ps" "js bid = Some j" "same_batch j j'" "calledOff (BiStatus j) \<longrightarrow> calledOff (BiStatus j')"
  shows "list_all (sideOk (js(bid \<mapsto> j'))) ps"
  using assms(1) side_frame [of js _ bid j j'] assms(2-4) by (auto simp: list_all_iff)

text \<open>A step of a handler on job \<open>bid\<close> that leaves the others' places alone.\<close>

lemma step_update:
  assumes inv: "batchInv s" and j: "bw_jobs (bs_world s) bid = Some j"
    and w': "bw_jobs w' = (bw_jobs (bs_world s))(bid \<mapsto> j')" "adds (bw_usage (bs_world s)) (bw_usage w') (jobKeys j)"
    and same: "same_batch j j'" "calledOff (BiStatus j) \<longrightarrow> calledOff (BiStatus j')"
    and ji: "jobOk (bw_usage w') j' sub' wk'"
  shows "batchInv (s\<lparr>bs_world := w', bs_submit := (bs_submit s)(bid := sub'), bs_worker := (bs_worker s)(bid := wk')\<rparr>)"
proof -
  have "list_all (sideOk (bw_jobs w')) (bs_side s)"
    unfolding w'(1) by (rule side_list [where j = j]) (use inv j same in \<open>simp_all add: batchInv_def\<close>)
  from sys_update [OF inv j w' same ji this] show ?thesis by (cases s) simp
qed

lemma step_submit:
  assumes "batchInv s" "bw_jobs (bs_world s) bid = Some j"
    "bw_jobs w' = (bw_jobs (bs_world s))(bid \<mapsto> j')" "adds (bw_usage (bs_world s)) (bw_usage w') (jobKeys j)"
    "same_batch j j'" "calledOff (BiStatus j) \<longrightarrow> calledOff (BiStatus j')"
    "jobOk (bw_usage w') j' sub' (bs_worker s bid)"
  shows "batchInv (s\<lparr>bs_world := w', bs_submit := (bs_submit s)(bid := sub')\<rparr>)"
  using step_update [OF assms] by (cases s) simp

lemma step_worker:
  assumes "batchInv s" "bw_jobs (bs_world s) bid = Some j"
    "bw_jobs w' = (bw_jobs (bs_world s))(bid \<mapsto> j')" "adds (bw_usage (bs_world s)) (bw_usage w') (jobKeys j)"
    "same_batch j j'" "calledOff (BiStatus j) \<longrightarrow> calledOff (BiStatus j')"
    "jobOk (bw_usage w') j' (bs_submit s bid) wk'"
  shows "batchInv (s\<lparr>bs_world := w', bs_worker := (bs_worker s)(bid := wk')\<rparr>)"
  using step_update [OF assms] by (cases s) simp

lemma inv_job:
  assumes "batchInv s" "bw_jobs (bs_world s) bid = Some j"
  shows "BiBatchID j = bid" "jobOk (bw_usage (bs_world s)) j (bs_submit s bid) (bs_worker s bid)" "dedup_inv (bw_usage (bs_world s))"
  using assms by (auto simp: batchInv_def)

lemma jobKeys_mem [simp]: "holdKey j \<in> jobKeys j" "captureKey j \<in> jobKeys j" "releaseKey j \<in> jobKeys j"
  by (simp_all add: jobKeys_def)

text \<open>A step that leaves the row and the effects: only the handler moves on.\<close>

lemma only_pc:
  assumes "batchInv s" "bw_jobs (bs_world s) bid = Some j" "bw_jobs w' = bw_jobs (bs_world s)" "bw_usage w' = bw_usage (bs_world s)"
  shows "subOk (bw_usage (bs_world s)) j sub' \<Longrightarrow> batchInv (s\<lparr>bs_world := w', bs_submit := (bs_submit s)(bid := sub')\<rparr>)"
    "wkOk (bw_usage (bs_world s)) j wk' \<Longrightarrow> batchInv (s\<lparr>bs_world := w', bs_worker := (bs_worker s)(bid := wk')\<rparr>)"
proof -
  have js: "bw_jobs w' = (bw_jobs (bs_world s))(bid \<mapsto> j)" using assms by auto
  have ad: "adds (bw_usage (bs_world s)) (bw_usage w') (jobKeys j)"
    using assms(4) inv_job(3) [OF assms(1,2)] by (simp add: adds_refl)
  note J = inv_job(2) [OF assms(1,2)]
  show "subOk (bw_usage (bs_world s)) j sub' \<Longrightarrow> batchInv (s\<lparr>bs_world := w', bs_submit := (bs_submit s)(bid := sub')\<rparr>)"
    using step_submit [OF assms(1,2) js ad] J assms(4) by (simp add: jobOk_def)
  show "wkOk (bw_usage (bs_world s)) j wk' \<Longrightarrow> batchInv (s\<lparr>bs_world := w', bs_worker := (bs_worker s)(bid := wk')\<rparr>)"
    using step_worker [OF assms(1,2) js ad] J assms(4) by (simp add: jobOk_def)
qed

text \<open>A step that changes the row.\<close>

lemma row_submit:
  assumes inv: "batchInv s" and j: "bw_jobs (bs_world s) bid = Some j"
    and w': "w' = (bs_world s)\<lparr>bw_jobs := (bw_jobs (bs_world s))(bid \<mapsto> j')\<rparr>" and rc: "rowChange j j'"
    and money: "moneyOk (bw_usage (bs_world s)) j'" and sub: "subOk (bw_usage (bs_world s)) j' sub'"
  shows "batchInv (s\<lparr>bs_world := w', bs_submit := (bs_submit s)(bid := sub')\<rparr>)"
proof -
  note J = inv_job [OF inv j]
  have ok: "jobOk (bw_usage (bs_world s)) j' sub' (bs_worker s bid)"
    using rowChange_keeps [OF J(2) rc] money sub by (simp add: jobOk_def)
  from step_submit [OF inv j, of w' j' sub'] ok w' rc J(3) show ?thesis by (simp add: adds_refl rowChange_def)
qed

lemma row_worker:
  assumes inv: "batchInv s" and j: "bw_jobs (bs_world s) bid = Some j"
    and w': "w' = (bs_world s)\<lparr>bw_jobs := (bw_jobs (bs_world s))(bid \<mapsto> j')\<rparr>"
    and rc: "same_batch j j'" "calledOff (BiStatus j) \<longrightarrow> calledOff (BiStatus j')"
    and ok: "jobOk (bw_usage (bs_world s)) j' (bs_submit s bid) wk'"
  shows "batchInv (s\<lparr>bs_world := w', bs_worker := (bs_worker s)(bid := wk')\<rparr>)"
  using step_worker [OF inv j, of w' j' wk'] ok w' rc inv_job(3) [OF inv j] by (simp add: adds_refl)


lemma money_u: "moneyOk u j \<Longrightarrow> same_batch j j' \<Longrightarrow> BiSuccessCount j' = BiSuccessCount j \<Longrightarrow> \<not> late (BiStatus j) \<Longrightarrow>
    \<not> late (BiStatus j') \<Longrightarrow> (BiStatus j = JobFailed \<longrightarrow> BiStatus j' = JobFailed) \<Longrightarrow> (tired j \<longrightarrow> tired j') \<Longrightarrow> moneyOk u j'"
  using core_facts(2-4) [of j j' u] core_facts(5) [of j j'] by (auto simp: moneyOk_def late_def batch_settled_def)

lemma money_same: "moneyOk u j \<Longrightarrow> same_batch j j' \<Longrightarrow> BiSuccessCount j' = BiSuccessCount j \<Longrightarrow> BiStatus j' = BiStatus j \<Longrightarrow>
    BiActualCost j' = BiActualCost j \<Longrightarrow> (tired j \<longrightarrow> tired j') \<Longrightarrow> moneyOk u j'"
  using core_facts(2-4) [of j j' u] core_facts(5) [of j j'] by (auto simp: moneyOk_def)

lemma user_deleted_row:
  assumes "bw_jobs w bid = Some j"
  shows "\<exists>j'. jobsExec e (MarkBatchImageJobUserDeleted now user key bid) w = w\<lparr>bw_jobs := (bw_jobs w)(bid \<mapsto> j')\<rparr> \<and>
    same_batch j j' \<and> BiSuccessCount j' = BiSuccessCount j \<and> BiActualCost j' = BiActualCost j \<and> tired j' = tired j \<and>
    BiStatus j' = BiStatus j"
proof -
  obtain w1 where w1: "jobsExec e (MarkBatchImageJobUserDeleted now user key bid) w = w1" by blast
  from jobsExec_row [OF w1 [unfolded MarkBatchImageJobUserDeleted_def] assms] obtain j' where
    w: "w1 = w\<lparr>bw_jobs := (bw_jobs w)(bid \<mapsto> j')\<rparr>" and j': "j' = j \<or> j' = j\<lparr>BiUserDeleted := True, BiUpdatedAt := now\<rparr>" by blast
  show ?thesis unfolding w1 w
    by (rule exI [of _ j']) (use j' in \<open>auto simp: same_batch_def tired_def split: if_splits\<close>)
qed

lemma EnqueueBatch_keeps [simp]:
  "bw_jobs (snd (EnqueueBatch e bid w)) = bw_jobs w" "bw_usage (snd (EnqueueBatch e bid w)) = bw_usage w"
  by (simp_all add: EnqueueBatch_def)

lemma AckBatch_keeps [simp]: "bw_jobs (AckBatch bid w) = bw_jobs w" "bw_usage (AckBatch bid w) = bw_usage w"
  by (simp_all add: AckBatch_def)

text \<open>The row after a recorded failure of \<open>Submit\<close>.\<close>

lemma record_row:
  assumes "bw_jobs w bid = Some j"
  shows "\<exists>j'. jobsExec e (RecordBatchImageJobSubmitFailure now bid code mark) w = w\<lparr>bw_jobs := (bw_jobs w)(bid \<mapsto> j')\<rparr> \<and>
    same_batch j j' \<and> BiSuccessCount j' = BiSuccessCount j \<and> BiActualCost j' = BiActualCost j \<and> tired j' = tired j \<and>
    (BiStatus j' = BiStatus j \<or> mark \<and> BiStatus j' = JobFailed)"
proof -
  obtain w1 where w1: "jobsExec e (RecordBatchImageJobSubmitFailure now bid code mark) w = w1" by blast
  from jobsExec_row [OF w1 [unfolded RecordBatchImageJobSubmitFailure_def] assms] obtain j' where
    w: "w1 = w\<lparr>bw_jobs := (bw_jobs w)(bid \<mapsto> j')\<rparr>" and j': "j' = j \<or> j' = j\<lparr>BiStatus := if mark then JobFailed else BiStatus j, BiLastErrorCode := Some code, BiUpdatedAt := now\<rparr>" by blast
  show ?thesis unfolding w1 w
    by (rule exI [of _ j']) (use j' in \<open>auto simp: same_batch_def tired_def split: if_splits\<close>)
qed

lemma submit_failure:
  assumes "batchInv s" "bw_jobs (bs_world s) bid = Some j" "\<not> late (BiStatus j)"
    "\<And>j'. same_batch j j' \<Longrightarrow> \<not> late (BiStatus j') \<Longrightarrow> subOk (bw_usage (bs_world s)) j' sub'"
  shows "batchInv (s\<lparr>bs_world := jobsExec e (RecordBatchImageJobSubmitFailure now bid code mark) (bs_world s),
            bs_submit := (bs_submit s)(bid := sub')\<rparr>)"
proof -
  from record_row [OF assms(2), of e now code mark] obtain j' where
    w': "jobsExec e (RecordBatchImageJobSubmitFailure now bid code mark) (bs_world s) = (bs_world s)\<lparr>bw_jobs := (bw_jobs (bs_world s))(bid \<mapsto> j')\<rparr>"
    and b: "same_batch j j'" "BiSuccessCount j' = BiSuccessCount j" "tired j' = tired j"
      "BiStatus j' = BiStatus j \<or> BiStatus j' = JobFailed" by blast
  have late: "\<not> late (BiStatus j')" using assms(3) b(4) by (auto simp: late_def)
  have rc: "rowChange j j'" using b assms(3) by (auto simp: rowChange_def late_def batch_settled_def calledOff_def)
  have m: "moneyOk (bw_usage (bs_world s)) j'"
    using money_u [of _ j j'] inv_job(2) [OF assms(1,2)] b assms(3) late by (auto simp: jobOk_def)
  show ?thesis by (rule row_submit [OF assms(1,2) w' rc m assms(4) [OF b(1) late]])
qed

lemma submit_inv:
  assumes inv: "batchInv s" and sub: "bs_submit s bid = Some (i, pc)" and st: "submit_step p e i pc (bs_world s) = (pc', w')"
  shows "batchInv (s\<lparr>bs_world := w', bs_submit := (bs_submit s)(bid := map_option (Pair i) pc')\<rparr>)"
proof -
  let ?u = "bw_usage (bs_world s)"
  obtain j where j: "bw_jobs (bs_world s) bid = Some j" using inv sub unfolding batchInv_def by force
  note J = inv_job [OF inv j]
  have same: "same_batch i j" and so: "submitOk ?u j pc" using J(2) sub by (simp_all add: jobOk_def subOk_def)
  have id: "BiBatchID i = bid" using same J(1) by (simp add: same_batch_def)
  have good: "good_job i" using J(2) same_keys(5) [OF same] by (simp add: jobOk_def)
  note k = same_keys(1-3) [OF same] same_command [OF same]
  have js: "(bw_jobs (bs_world s))(bid \<mapsto> j) = bw_jobs (bs_world s)" using j by auto
  show ?thesis
  proof (cases pc)
    case SubReserve
    obtain err where r: "reserveBatchImageBalanceHold p e i (batchImageDerefString (BiRequestHash i)) (bs_world s) = (err, w')"
      using st SubReserve by (auto simp: submit_step_def split: prod.splits option.splits)
    from reserve_tx [OF good J(3) r] obtain u' where u': "w' = (bs_world s)\<lparr>bw_usage := u'\<rparr>"
      "addsOne ?u u' (holdKey j) (\<lambda>e. \<exists>c. e = Hold c \<and> jobCommand j c)" "err = None \<longrightarrow> held u' j"
      unfolding k same_keys(4) [OF same] held_def by blast
    have so': "submitOk u' j SubReserve"
      by (rule hold_ok(3) [OF J(2) u'(2)]) (use so SubReserve in \<open>simp only:\<close>)
    have "subOk u' j (map_option (Pair i) pc')"
      using st SubReserve r u'(3) so' same by (cases err) (auto simp: submit_step_def subOk_def)
    then have "jobOk u' j (map_option (Pair i) pc') (bs_worker s bid)"
      using hold_ok(1,2,4) [OF J(2) u'(2)] J(2) by (simp add: jobOk_def)
    with step_submit [OF inv j, of w' j] u'(1) js addsOne_adds [OF u'(2) jobKeys_mem(1)] show ?thesis by simp
  next
    case SubItems
    with st so same show ?thesis
      by (intro only_pc(1) [OF inv j]) (auto simp: submit_step_def subOk_def)
  next
    case SubProvider
    with st so same show ?thesis
      by (intro only_pc(1) [OF inv j]) (auto simp: submit_step_def subOk_def split: sum.splits if_splits)
  next
    case SubRetry
    with st show ?thesis
      by (intro only_pc(1) [OF inv j]) (auto simp: submit_step_def subOk_def)
  next
    case SubReleaseFailed
    with st id have w: "map_option (Pair i) pc' = Some (i, SubRetry)"
      "w' = jobsExec e (RecordBatchImageJobSubmitFailure (be_now e) bid ''BILLING_RELEASE_FAILED'' True) (bs_world s)"
      by (auto simp: submit_step_def)
    have "\<not> late (BiStatus j)" using so SubReleaseFailed by simp
    then show ?thesis unfolding w
      by (rule submit_failure [OF inv j]) (use same in \<open>auto simp: subOk_def same_batch_def\<close>)
  next
    case (SubRecord code)
    with st id have w: "map_option (Pair i) pc' = Some (i, SubHide)"
      "w' = jobsExec e (RecordBatchImageJobSubmitFailure (be_now e) bid code True) (bs_world s)"
      by (auto simp: submit_step_def)
    have "\<not> late (BiStatus j)" using so SubRecord by simp
    then show ?thesis unfolding w
      by (rule submit_failure [OF inv j]) (use same in \<open>auto simp: subOk_def same_batch_def\<close>)
  next
    case (SubRelease code)
    obtain err where r: "releaseHold p e i (bs_world s) = (err, w')"
      using st SubRelease by (auto simp: submit_step_def split: prod.splits option.splits)
    from release_tx [OF good J(3) r] obtain u' where u': "w' = (bs_world s)\<lparr>bw_usage := u'\<rparr>"
      "addsOne ?u u' (releaseKey j) (\<lambda>e. \<exists>c. e = ReleaseHold c (hasKey ?u (holdKey j)) \<and> jobCommand j c)"
      unfolding k by blast
    have nl: "\<not> late (BiStatus j)" using so SubRelease by simp
    then have "subOk u' j (map_option (Pair i) pc')"
      using st SubRelease r same by (cases err; cases code) (auto simp: submit_step_def subOk_def)
    then have "jobOk u' j (map_option (Pair i) pc') (bs_worker s bid)"
      using release_ok(1,2,4) [OF J(2) _ u'(2)] nl J(2) by (simp add: jobOk_def)
    with step_submit [OF inv j, of w' j] u'(1) js addsOne_adds [OF u'(2) jobKeys_mem(3)] show ?thesis by simp
  next
    case SubUpload
    obtain r where tx: "jobsTx e (TransitionBatchImageJobStatus (be_now e) bid JobUploading None) (bs_world s) = (r, w')"
      using st SubUpload id by (auto simp: submit_step_def split: prod.splits option.splits)
    from jobsTx_row [OF tx [unfolded TransitionBatchImageJobStatus_def] j] obtain j' where
      w': "w' = (bs_world s)\<lparr>bw_jobs := (bw_jobs (bs_world s))(bid \<mapsto> j')\<rparr>" and
      j': "BiStatus j = JobCreated \<and> j' = j\<lparr>BiStatus := JobUploading, BiUpdatedAt := be_now e\<rparr> \<or> j' = j \<and> r \<noteq> None"
      by (auto simp: CanTransitionBatchImageJob_def IsTerminalBatchImageJobStatus_def split: if_splits)
    have b: "same_batch j j'" "BiSuccessCount j' = BiSuccessCount j" "tired j' = tired j" "rowChange j j'"
      using j' by (auto simp: same_batch_def tired_def rowChange_def batch_settled_def calledOff_def)
    have late: "\<not> late (BiStatus j')" using so SubUpload j' by (auto simp: late_def)
    have m: "moneyOk ?u j'" using money_u [of ?u j j'] J(2) b so SubUpload late j' by (auto simp: jobOk_def)
    have same_i: "same_batch i j'" using same b(1) by (simp add: same_batch_def)
    have "subOk ?u j' (map_option (Pair i) pc')"
    proof (cases r)
      case None
      then have "freed ?u j' = freed ?u j" "held ?u j' = held ?u j" "BiStatus j = JobCreated" "BiStatus j' = JobUploading"
        using j' core_facts(2,3) [OF b(1,2)] by auto
      moreover have "map_option (Pair i) pc' = Some (i, SubProvider)" using st SubUpload id tx None by (simp add: submit_step_def)
      ultimately show ?thesis using so SubUpload same_i late by (simp add: subOk_def calledOff_def)
    next
      case (Some err)
      with st SubUpload id tx have "\<exists>c. map_option (Pair i) pc' = Some (i, SubRelease c)" by (auto simp: submit_step_def)
      with late same_i show ?thesis by (auto simp: subOk_def)
    qed
    from row_submit [OF inv j w' b(4) m this] show ?thesis .
  next
    case (SubPersist n q)
    obtain r where tx: "jobsTx e (UpdateBatchImageJobProviderSubmit (be_now e) bid n q) (bs_world s) = (r, w')"
      using st SubPersist id by (auto simp: submit_step_def split: prod.splits option.splits)
    from jobsTx_row [OF tx [unfolded UpdateBatchImageJobProviderSubmit_def] j] obtain j' where
      w': "w' = (bs_world s)\<lparr>bw_jobs := (bw_jobs (bs_world s))(bid \<mapsto> j')\<rparr>" and
      j': "BiStatus j \<in> {JobCreated, JobUploading} \<and> j' = j\<lparr>BiStatus := JobSubmitted, BiProviderJobName := Some n,
             BiProviderOutputRef := if q = [] then None else Some q, BiUpdatedAt := be_now e\<rparr> \<or> j' = j \<and> r \<noteq> None"
      by (auto simp: CanTransitionBatchImageJob_def IsTerminalBatchImageJobStatus_def split: if_splits)
    have b: "same_batch j j'" "BiSuccessCount j' = BiSuccessCount j" "tired j' = tired j" "rowChange j j'"
      using j' by (auto simp: same_batch_def tired_def rowChange_def batch_settled_def calledOff_def)
    note c = core_facts(2-5) [OF b(1,2)]
    have m: "moneyOk ?u j'"
    proof (cases "j' = j")
      case True
      with J(2) show ?thesis by (simp add: jobOk_def)
    next
      case False
      with j' have st_j: "BiStatus j \<in> {JobCreated, JobUploading}" "BiStatus j' = JobSubmitted" by auto
      have "\<not> captured ?u j" using J(2) st_j(1) by (auto simp: jobOk_def moneyOk_def batch_settled_def)
      moreover have "held ?u j" "\<not> freed ?u j" using so SubPersist st_j(1) by (auto simp: calledOff_def)
      ultimately show ?thesis using c st_j(2) by (simp add: moneyOk_def)
    qed
    have "subOk ?u j' (map_option (Pair i) pc')"
    proof -
      have "map_option (Pair i) pc' \<in> {None, Some (i, SubQueue)}"
        using st SubPersist id tx by (cases r) (auto simp: submit_step_def)
      then show ?thesis using same b(1) by (auto simp: subOk_def same_batch_def)
    qed
    from row_submit [OF inv j w' b(4) m this] show ?thesis .
  next
    case SubQueue
    show ?thesis
    proof (cases "be_ok e")
      case True
      with st SubQueue show ?thesis
        by (intro only_pc(1) [OF inv j]) (auto simp: submit_step_def subOk_def EnqueueBatch_def)
    next
      case False
      with st SubQueue id have w: "pc' = None" "w' = jobsExec e (RecordBatchImageJobSubmitFailure (be_now e) bid ''QUEUE_FAILED'' False) (bs_world s)"
        by (auto simp: submit_step_def EnqueueBatch_def)
      from record_row [OF j, of e "be_now e" "''QUEUE_FAILED''" False] w(2) obtain j' where
        w': "w' = (bs_world s)\<lparr>bw_jobs := (bw_jobs (bs_world s))(bid \<mapsto> j')\<rparr>" and b: "same_batch j j'" "BiSuccessCount j' = BiSuccessCount j"
          "BiActualCost j' = BiActualCost j" "tired j' = tired j" "BiStatus j' = BiStatus j" by auto
      from row_submit [OF inv j w', of None] b money_same [of ?u j j'] J(2) w(1) show ?thesis
        by (auto simp: rowChange_def jobOk_def subOk_def)
    qed
  next
    case SubHide
    then have pn: "pc' = None" using st by (auto simp: submit_step_def)
    from good obtain key where key: "BiAPIKeyID i = Some key" by (auto simp: good_job_def)
    with st SubHide id have "w' = jobsExec e (MarkBatchImageJobUserDeleted (be_now e) (BiUserID i) key bid) (bs_world s)"
      by (auto simp: submit_step_def)
    with user_deleted_row [OF j] obtain j' where
      w': "w' = (bs_world s)\<lparr>bw_jobs := (bw_jobs (bs_world s))(bid \<mapsto> j')\<rparr>" and b: "same_batch j j'" "BiSuccessCount j' = BiSuccessCount j"
          "BiActualCost j' = BiActualCost j" "tired j' = tired j" "BiStatus j' = BiStatus j" by metis
    from row_submit [OF inv j w', of None] b money_same [of ?u j j'] J(2) pn show ?thesis
      by (auto simp: rowChange_def jobOk_def subOk_def)
  qed
qed

end
