(* ===== verification/BatchRuns.thy ===== *)
theory BatchRuns
  imports BatchProofs
begin

text \<open>
  Every action of the batches keeps the invariant, and what follows: what a batch has cost its user.
\<close>

subsection \<open>The worker\<close>

lemma wkOk_same: "wkOk u j (Some pc) = workerOk u j pc" "wkOk u j None"
  by (simp_all add: wkOk_def)

lemma jobOkD:
  assumes "jobOk u j sub wk"
  shows "good_job j" "effectsOk u j" "moneyOk u j" "subOk u j sub" "wkOk u j wk"
  using assms by (simp_all add: jobOk_def)

lemma moneyD:
  assumes "moneyOk u j"
  shows "late (BiStatus j) \<Longrightarrow> held u j" "late (BiStatus j) \<Longrightarrow> freed u j \<Longrightarrow> tired j"
    "captured u j \<Longrightarrow> batch_settled (BiStatus j) \<or> BiStatus j = JobFailed \<and> tired j"
    "BiStatus j \<in> {JobCompleted, JobOutputDeleted} \<Longrightarrow> captured u j \<and> BiActualCost j = Some (costOf j)"
  using assms unfolding moneyOk_def by blast+

lemma moneyI:
  assumes "late (BiStatus j) \<Longrightarrow> held u j" "late (BiStatus j) \<Longrightarrow> freed u j \<Longrightarrow> tired j"
    "captured u j \<Longrightarrow> batch_settled (BiStatus j) \<or> BiStatus j = JobFailed \<and> tired j"
    "BiStatus j \<in> {JobCompleted, JobOutputDeleted} \<Longrightarrow> captured u j \<and> BiActualCost j = Some (costOf j)"
  shows "moneyOk u j"
  using assms unfolding moneyOk_def by blast

text \<open>A transition the worker makes.\<close>

lemma transition_row:
  assumes "jobsTx e (TransitionBatchImageJobStatus now bid to code) w = (r, w')" "bw_jobs w bid = Some j"
  shows "\<exists>j'. w' = w\<lparr>bw_jobs := (bw_jobs w)(bid \<mapsto> j')\<rparr> \<and> same_batch j j' \<and> BiSuccessCount j' = BiSuccessCount j \<and>
    BiActualCost j' = BiActualCost j \<and> tired j' = tired j \<and>
    (CanTransitionBatchImageJob (BiStatus j) to \<and> BiStatus j' = to \<or> j' = j \<and> r \<noteq> None)"
proof -
  from jobsTx_row [OF assms(1) [unfolded TransitionBatchImageJobStatus_def] assms(2)] obtain j' where
    w: "w' = w\<lparr>bw_jobs := (bw_jobs w)(bid \<mapsto> j')\<rparr>" and
    j': "CanTransitionBatchImageJob (BiStatus j) to \<and>
         j' = j\<lparr>BiStatus := to, BiUpdatedAt := now, BiLastErrorCode := if to = JobFailed then code else BiLastErrorCode j\<rparr> \<or> j' = j \<and> r \<noteq> None"
    by (auto split: if_splits)
  show ?thesis unfolding w
    by (rule exI [of _ j']) (use j' in \<open>auto simp: same_batch_def tired_def\<close>)
qed

lemma sub_still:
  assumes "jobOk u j sub wk" "same_batch j j'" "BiSuccessCount j' = BiSuccessCount j"
    "late (BiStatus j') \<longrightarrow> late (BiStatus j)" "calledOff (BiStatus j) \<longrightarrow> calledOff (BiStatus j')"
  shows "subOk u j' sub"
proof -
  note c = core_facts(2,3) [OF assms(2,3)]
  have "same_batch i j \<Longrightarrow> same_batch i j'" for i using assms(2) by (simp add: same_batch_def)
  then show ?thesis
    using assms(1,4,5) c submit_stable [of u j _ j' u] by (auto simp: jobOk_def subOk_def split: option.splits)
qed

lemma transition_facts:
  "CanTransitionBatchImageJob s t \<Longrightarrow> t \<noteq> JobOutputDeleted \<Longrightarrow> \<not> calledOff s"
  "CanTransitionBatchImageJob s t \<Longrightarrow> t \<in> {JobRunning, JobIndexing, JobSettling} \<Longrightarrow> late s"
  by (cases s; cases t; simp add: CanTransitionBatchImageJob_def IsTerminalBatchImageJobStatus_def calledOff_def late_def)+

text \<open>A worker's transition of a job that is not yet settling keeps the books.\<close>

lemma early_transition:
  assumes ok: "jobOk u j sub wk" and b: "same_batch j j'" "BiSuccessCount j' = BiSuccessCount j" "tired j' = tired j"
    and ns: "\<not> batch_settled (BiStatus j)" and ct: "CanTransitionBatchImageJob (BiStatus j) t" "BiStatus j' = t"
    and t: "t \<in> {JobRunning, JobIndexing, JobSettling, JobFailed, JobCancelled}" and wk': "wkOk u j' wk'"
  shows "jobOk u j' sub wk'"
proof -
  note c = core_facts [OF b(1,2)]
  have nc: "\<not> calledOff (BiStatus j)" using transition_facts(1) [OF ct(1)] t by auto
  have ncap: "\<not> captured u j" using moneyD(3) [OF jobOkD(3) [OF ok]] ns nc by (auto simp: calledOff_def)
  have lt: "late t \<longrightarrow> late (BiStatus j)"
    using transition_facts(2) [OF ct(1)] t by (auto simp: late_def)
  have "moneyOk u j'"
  proof (rule moneyI)
    note m = moneyD [OF jobOkD(3) [OF ok]]
    show "late (BiStatus j') \<Longrightarrow> held u j'" "late (BiStatus j') \<Longrightarrow> freed u j' \<Longrightarrow> tired j'"
      using m(1,2) lt ct(2) b(3) c(2,3) by simp_all
    show "captured u j' \<Longrightarrow> batch_settled (BiStatus j') \<or> BiStatus j' = JobFailed \<and> tired j'" using ncap c(4) by simp
    show "BiStatus j' \<in> {JobCompleted, JobOutputDeleted} \<Longrightarrow> captured u j' \<and> BiActualCost j' = Some (costOf j')"
      using ct(2) t by auto
  qed
  moreover have "subOk u j' sub"
    using sub_still [OF ok b(1,2)] lt ct(2) nc by simp
  ultimately show ?thesis using jobOkD [OF ok] c wk' by (simp add: jobOk_def)
qed


lemma settleDecision_ok:
  assumes "good_job j" "settleDecision p pricing j = Some q"
  shows "workerOk u j q"
proof -
  have "settlementUnitPrice pricing j = Some x \<Longrightarrow> x = BiBillableUnitPrice j \<and> x \<ge> 0" for x
    using assms(1) by (auto simp: settlementUnitPrice_def good_job_def split: if_splits)
  with assms(2) show ?thesis
    by (auto simp: settleDecision_def Let_def isBatchImageSettlementRetryExhausted_def tired_def costOf_def split: if_splits option.splits)
qed

text \<open>A recorded failure of the settlement.\<close>

lemma settlement_failure_row:
  assumes "jobsTx e (SetBatchImageJobSettlementFailed now bid code) w = (r, w')" "bw_jobs w bid = Some j"
  shows "\<exists>j'. w' = w\<lparr>bw_jobs := (bw_jobs w)(bid \<mapsto> j')\<rparr> \<and> same_batch j j' \<and> BiSuccessCount j' = BiSuccessCount j \<and>
    BiActualCost j' = BiActualCost j \<and> BiStatus j' = BiStatus j \<and> (tired j \<longrightarrow> tired j')"
proof -
  from jobsTx_row [OF assms(1) [unfolded SetBatchImageJobSettlementFailed_def] assms(2)] obtain j' where
    w: "w' = w\<lparr>bw_jobs := (bw_jobs w)(bid \<mapsto> j')\<rparr>" and
    j': "j' = j\<lparr>BiLastErrorCode := Some code, BiRetryCount := BiRetryCount j + 1, BiUpdatedAt := now\<rparr> \<or> j' = j"
    by auto
  show ?thesis unfolding w
    by (rule exI [of _ j']) (use j' in \<open>auto simp: same_batch_def tired_def\<close>)
qed

lemma sameStatus_ok:
  assumes ok: "jobOk u j sub wk" and b: "same_batch j j'" "BiSuccessCount j' = BiSuccessCount j" "BiActualCost j' = BiActualCost j"
    "BiStatus j' = BiStatus j" "tired j \<longrightarrow> tired j'" and wk': "wkOk u j' wk'"
  shows "jobOk u j' sub wk'"
proof -
  note c = core_facts [OF b(1,2)]
  have "moneyOk u j'" using money_same [OF jobOkD(3) [OF ok] b(1,2,4,3,5)] .
  moreover have "subOk u j' sub" by (rule sub_still [OF ok b(1,2)]) (simp_all add: b(4))
  ultimately show ?thesis using jobOkD [OF ok] c wk' by (simp add: jobOk_def)
qed

text \<open>The end of a settlement that was given up.\<close>

lemma tired_failed_ok:
  assumes ok: "jobOk u j sub wk" and b: "same_batch j j'" "BiSuccessCount j' = BiSuccessCount j" "tired j' = tired j"
    and st: "BiStatus j = JobSettling" "BiStatus j' = JobFailed" "tired j" and wk': "wkOk u j' wk'"
  shows "jobOk u j' sub wk'"
proof -
  note c = core_facts [OF b(1,2)]
  have "moneyOk u j'" by (rule moneyI) (use st b(3) in \<open>auto simp: late_def\<close>)
  moreover have "subOk u j' sub" by (rule sub_still [OF ok b(1,2)]) (simp_all add: st late_def calledOff_def)
  ultimately show ?thesis using jobOkD [OF ok] c wk' by (simp add: jobOk_def)
qed

lemma completed_ok:
  assumes ok: "jobOk u j sub wk" and b: "same_batch j j'" "BiSuccessCount j' = BiSuccessCount j" "tired j' = tired j"
    and st: "BiStatus j = JobSettling" "BiStatus j' = JobCompleted" "captured u j" "BiActualCost j' = Some (costOf j)"
  shows "jobOk u j' sub None"
proof -
  note c = core_facts [OF b(1,2)]
  note m = moneyD [OF jobOkD(3) [OF ok]]
  have "moneyOk u j'"
    by (rule moneyI) (use st b(3) c m(1,2) in \<open>simp_all add: late_def batch_settled_def\<close>)
  moreover have "subOk u j' sub" by (rule sub_still [OF ok b(1,2)]) (simp_all add: st late_def calledOff_def)
  ultimately show ?thesis using jobOkD [OF ok] c by (simp add: jobOk_def wkOk_def)
qed

text \<open>The counts of the indexer, while nothing has been captured.\<close>

lemma indexed_ok:
  assumes ok: "jobOk u j sub wk" and st: "BiStatus j = JobIndexing" and wk': "wkOk u j' wk'"
    and j': "j' = j\<lparr>BiSuccessCount := n, BiFailCount := m, BiUpdatedAt := now\<rparr>"
  shows "jobOk u j' sub wk'"
proof -
  have b: "same_batch j j'" using j' by (simp add: same_batch_def)
  note k = same_keys [OF b] same_command [OF b]
  note M = moneyD [OF jobOkD(3) [OF ok]]
  have ncap: "\<not> captured u j" using M(3) st by (auto simp: batch_settled_def)
  have facts: "freed u j' = freed u j" "held u j' = held u j" "captured u j' = captured u j" "good_job j' = good_job j"
    using k by (simp_all add: freed_def held_def captured_def)
  have eff: "effectsOk u j'"
    unfolding effectsOk_def
  proof (clarify)
    fix a b' f t e assume x: "((a, b'), f, t, e) \<in> set (effects u)" "(a, b') \<in> jobKeys j'"
    have "(a, b') \<noteq> captureKey j" using x(1) ncap by (force simp: captured_def hasKey_def)
    moreover have "effectOk u j (a, b') e" using x k jobOkD(2) [OF ok] by (auto simp: effectsOk_def jobKeys_def)
    ultimately show "effectOk u j' (a, b') e" using k by (cases e) simp_all
  qed
  have "moneyOk u j'"
    by (rule moneyI) (use j' st M facts ncap in \<open>simp_all add: late_def tired_def\<close>)
  moreover have "subOk u j' sub"
  proof -
    have "same_batch i j \<Longrightarrow> same_batch i j'" for i using b by (simp add: same_batch_def)
    moreover have "BiStatus j' = BiStatus j" using j' by simp
    ultimately show ?thesis
      using jobOkD(4) [OF ok] facts submit_stable [of u j _ j' u] by (auto simp: subOk_def split: option.splits)
  qed
  ultimately show ?thesis using jobOkD [OF ok] facts eff wk' by (simp add: jobOk_def)
qed


text \<open>The steps of a worker that only read, call the provider or change the queue.\<close>

lemma worker_reads:
  assumes inv: "batchInv s" and j: "bw_jobs (bs_world s) bid = Some j" and ok: "workerOk (bw_usage (bs_world s)) j pc"
    and pc: "pc \<in> {WkPipeline, WkSettle, WkProcess, WkReread} \<or> (\<exists>i. pc = WkGet i) \<or> (\<exists>i. pc = WkIndex i)"
    and st: "pipeline_step p pricing e bid pc (bs_world s) = (pc', w')"
  shows "wkOk (bw_usage (bs_world s)) j pc' \<and> bw_jobs w' = bw_jobs (bs_world s) \<and> bw_usage w' = bw_usage (bs_world s)"
proof -
  have good: "good_job j" using jobOkD(1) [OF inv_job(2) [OF inv j]] .
  from pc consider "pc = WkPipeline" | "pc = WkSettle" | "pc = WkProcess" | "pc = WkReread" | i where "pc = WkGet i" | i where "pc = WkIndex i"
    by blast
  then show ?thesis
  proof cases
    case 1
    with st j show ?thesis by (auto simp: pipeline_step_unfold wkOk_def)
  next
    case 2
    with st j show ?thesis
      by (auto simp: pipeline_step_unfold wkOk_def intro: settleDecision_ok [OF good] split: if_splits option.splits)
  next
    case 3
    with st j show ?thesis
      by (auto simp: pipeline_step_unfold wkOk_def calledOff_def batch_settled_def isBatchImageProcessorDoneStatus_def
          IsTerminalBatchImageJobStatus_def split: if_splits option.splits)
  next
    case 4
    with st j show ?thesis by (auto simp: pipeline_step_unfold wkOk_def split: if_splits)
  next
    case 5
    with st ok show ?thesis by (auto simp: pipeline_step_unfold wkOk_def split: option.splits)
  next
    case 6
    with st ok show ?thesis by (auto simp: pipeline_step_unfold wkOk_def split: index_answer.splits)
  qed
qed

lemma worker_transition:
  assumes inv: "batchInv s" and j: "bw_jobs (bs_world s) bid = Some j" and ns: "\<not> batch_settled (BiStatus j)"
    and tx: "jobsTx e (TransitionBatchImageJobStatus now bid t code) (bs_world s) = (r, w')"
    and t: "t \<in> {JobRunning, JobIndexing, JobSettling, JobFailed, JobCancelled}"
    and wk: "\<And>j'. same_batch j j' \<Longrightarrow> r = None \<longrightarrow> BiStatus j' = t \<Longrightarrow> wkOk (bw_usage (bs_world s)) j' wk'"
  shows "batchInv (s\<lparr>bs_world := w', bs_worker := (bs_worker s)(bid := wk')\<rparr>)"
proof -
  note ok = inv_job(2) [OF inv j]
  from transition_row [OF tx j] obtain j' where w': "w' = (bs_world s)\<lparr>bw_jobs := (bw_jobs (bs_world s))(bid \<mapsto> j')\<rparr>"
    and b: "same_batch j j'" "BiSuccessCount j' = BiSuccessCount j" "BiActualCost j' = BiActualCost j" "tired j' = tired j"
    and c: "CanTransitionBatchImageJob (BiStatus j) t \<and> BiStatus j' = t \<or> j' = j \<and> r \<noteq> None" by blast
  have wk'': "wkOk (bw_usage (bs_world s)) j' wk'" by (rule wk [OF b(1)]) (use c in auto)
  from c show ?thesis
  proof
    assume c: "CanTransitionBatchImageJob (BiStatus j) t \<and> BiStatus j' = t"
    have "\<not> calledOff (BiStatus j)" using transition_facts(1) [of "BiStatus j" t] c t by auto
    then show ?thesis
      using row_worker [OF inv j w' b(1) _ early_transition [OF ok b(1,2,4) ns _ _ t wk'']] c by simp
  next
    assume "j' = j \<and> r \<noteq> None"
    then show ?thesis
      using row_worker [OF inv j w' b(1) _ sameStatus_ok [OF ok b(1,2,3) _ _ wk'']] by simp
  qed
qed

lemma worker_failure:
  assumes inv: "batchInv s" and j: "bw_jobs (bs_world s) bid = Some j"
    and tx: "jobsTx e (SetBatchImageJobSettlementFailed now bid code) (bs_world s) = (r, w')"
    and wk: "\<And>j'. bw_jobs w' bid = Some j' \<Longrightarrow> same_batch j j' \<Longrightarrow> BiStatus j' = BiStatus j \<Longrightarrow> wkOk (bw_usage (bs_world s)) j' wk'"
  shows "batchInv (s\<lparr>bs_world := w', bs_worker := (bs_worker s)(bid := wk')\<rparr>)"
proof -
  from settlement_failure_row [OF tx j] obtain j' where
    w': "w' = (bs_world s)\<lparr>bw_jobs := (bw_jobs (bs_world s))(bid \<mapsto> j')\<rparr>"
    and b: "same_batch j j'" "BiSuccessCount j' = BiSuccessCount j" "BiActualCost j' = BiActualCost j" "BiStatus j' = BiStatus j"
      "tired j \<longrightarrow> tired j'" by blast
  have "wkOk (bw_usage (bs_world s)) j' wk'" by (rule wk [OF _ b(1,4)]) (simp add: w')
  from sameStatus_ok [OF inv_job(2) [OF inv j] b this] b(4) show ?thesis
    using row_worker [OF inv j w' b(1)] by simp
qed

lemma worker_release:
  assumes inv: "batchInv s" and j: "bw_jobs (bs_world s) bid = Some j" and same: "same_batch i j"
    and ok: "calledOff (BiStatus j) \<or> BiStatus j = JobSettling \<and> tired j"
    and r: "releaseHold p e i (bs_world s) = (err, w1)"
    and w': "bw_jobs w' = bw_jobs w1" "bw_usage w' = bw_usage w1"
    and wk: "\<And>u'. wkOk u' j wk'"
  shows "batchInv (s\<lparr>bs_world := w', bs_worker := (bs_worker s)(bid := wk')\<rparr>)"
proof -
  let ?u = "bw_usage (bs_world s)"
  note J = inv_job [OF inv j]
  have good: "good_job i" using jobOkD(1) [OF J(2)] same_keys(5) [OF same] by simp
  from release_tx [OF good J(3) r] obtain u' where u': "w1 = (bs_world s)\<lparr>bw_usage := u'\<rparr>"
    "addsOne ?u u' (releaseKey j) (\<lambda>e. \<exists>c. e = ReleaseHold c (hasKey ?u (holdKey j)) \<and> jobCommand j c)"
    unfolding same_keys(1-3) [OF same] same_command [OF same] by blast
  have lt: "late (BiStatus j) \<longrightarrow> tired j" using ok by (auto simp: calledOff_def late_def)
  note R = release_ok [OF J(2) lt u'(2)]
  have "subOk u' j (bs_submit s bid)"
    unfolding subOk_def
  proof (clarsimp split: option.splits)
    fix i' pc assume sub: "bs_submit s bid = Some (i', pc)"
    with jobOkD(4) [OF J(2)] have s: "same_batch i' j" "submitOk ?u j pc" by (simp_all add: subOk_def)
    have "submitOk u' j pc"
    proof (cases "calledOff (BiStatus j)")
      case True
      then show ?thesis using R(3) s(2) by blast
    next
      case False
      then have "late (BiStatus j)" using ok by (simp add: late_def)
      with s(2) have "pc = SubQueue" by (cases pc) simp_all
      then show ?thesis by simp
    qed
    with s(1) show "same_batch i' j \<and> submitOk u' j pc" by simp
  qed
  then have "jobOk u' j (bs_submit s bid) wk'" using jobOkD(1) [OF J(2)] R(1,2) wk by (simp add: jobOk_def)
  moreover have "(bw_jobs (bs_world s))(bid \<mapsto> j) = bw_jobs (bs_world s)" using j by auto
  ultimately show ?thesis
    using step_worker [OF inv j, of w' j] w' u'(1) addsOne_adds [OF u'(2) jobKeys_mem(3)] by simp
qed


lemma worker_capture:
  assumes inv: "batchInv s" and j: "bw_jobs (bs_world s) bid = Some j" and same: "same_batch i j"
    and st: "BiStatus j = JobSettling" and cost: "cost = costOf j" "cost \<ge> 0"
    and r: "captureBatchImageBalanceHold p e i cost m (bs_world s) = (err, w')"
    and wk: "\<And>u'. err = None \<longrightarrow> captured u' j \<Longrightarrow> wkOk u' j wk'"
  shows "batchInv (s\<lparr>bs_world := w', bs_worker := (bs_worker s)(bid := wk')\<rparr>)"
proof -
  let ?u = "bw_usage (bs_world s)"
  note J = inv_job [OF inv j]
  have good: "good_job i" using jobOkD(1) [OF J(2)] same_keys(5) [OF same] by simp
  from capture_tx [OF good J(3) r] obtain u' where u': "w' = (bs_world s)\<lparr>bw_usage := u'\<rparr>"
    "addsOne ?u u' (captureKey j) (\<lambda>e. \<exists>c. e = Capture c \<and> jobCommand j c \<and> HcActualAmount c = max 0 (costOf j))"
    "err = None \<longrightarrow> captured u' j"
    unfolding same_keys(1-3) [OF same] same_command [OF same] captured_def cost by blast
  note C = capture_ok [OF J(2) st _ u'(2)]
  have "subOk u' j (bs_submit s bid)"
    using jobOkD(4) [OF J(2)] C(3) cost by (auto simp: subOk_def split: option.splits)
  then have "jobOk u' j (bs_submit s bid) wk'"
    using jobOkD(1) [OF J(2)] C(1,2) cost wk [OF u'(3)] by (simp add: jobOk_def)
  moreover have "(bw_jobs (bs_world s))(bid \<mapsto> j) = bw_jobs (bs_world s)" using j by auto
  ultimately show ?thesis
    using step_worker [OF inv j, of w' j] u'(1) addsOne_adds [OF u'(2) jobKeys_mem(2)] by simp
qed

lemma worker_persist_ref:
  assumes inv: "batchInv s" and j: "bw_jobs (bs_world s) bid = Some j"
    and tx: "jobsTx e (UpdateBatchImageJobProviderOutputRef now bid ref) (bs_world s) = (r, w')"
    and wk: "\<And>j'. same_batch j j' \<Longrightarrow> BiStatus j' = BiStatus j \<Longrightarrow> wkOk (bw_usage (bs_world s)) j' wk'"
  shows "batchInv (s\<lparr>bs_world := w', bs_worker := (bs_worker s)(bid := wk')\<rparr>)"
proof -
  from jobsTx_row [OF tx [unfolded UpdateBatchImageJobProviderOutputRef_def] j] obtain j' where
    w': "w' = (bs_world s)\<lparr>bw_jobs := (bw_jobs (bs_world s))(bid \<mapsto> j')\<rparr>"
    and j': "j' = j\<lparr>BiProviderOutputRef := Some ref, BiUpdatedAt := now\<rparr> \<or> j' = j" by auto
  have b: "same_batch j j'" "BiSuccessCount j' = BiSuccessCount j" "BiActualCost j' = BiActualCost j" "BiStatus j' = BiStatus j"
      "tired j \<longrightarrow> tired j'" using j' by (auto simp: same_batch_def tired_def)
  show ?thesis
    using row_worker [OF inv j w' b(1) _ sameStatus_ok [OF inv_job(2) [OF inv j] b wk [OF b(1,4)]]] b(4) by simp
qed

lemma worker_indexed:
  assumes inv: "batchInv s" and j: "bw_jobs (bs_world s) bid = Some j"
    and tx: "jobsTx e (ReplaceBatchImageItemsForJob now bid n m) (bs_world s) = (r, w')"
    and wk: "\<And>j'. same_batch j j' \<Longrightarrow> BiStatus j' = BiStatus j \<Longrightarrow> wkOk (bw_usage (bs_world s)) j' wk'"
  shows "batchInv (s\<lparr>bs_world := w', bs_worker := (bs_worker s)(bid := wk')\<rparr>)"
proof -
  note ok = inv_job(2) [OF inv j]
  from jobsTx_row [OF tx [unfolded ReplaceBatchImageItemsForJob_def] j] obtain j' where
    w': "w' = (bs_world s)\<lparr>bw_jobs := (bw_jobs (bs_world s))(bid \<mapsto> j')\<rparr>"
    and j': "BiStatus j = JobIndexing \<and> j' = j\<lparr>BiSuccessCount := n, BiFailCount := m, BiUpdatedAt := now\<rparr> \<or> j' = j"
    by (auto split: if_splits)
  have b: "same_batch j j'" "BiStatus j' = BiStatus j" using j' by (auto simp: same_batch_def)
  have "jobOk (bw_usage (bs_world s)) j' (bs_submit s bid) wk'"
    using j'
  proof
    assume "BiStatus j = JobIndexing \<and> j' = j\<lparr>BiSuccessCount := n, BiFailCount := m, BiUpdatedAt := now\<rparr>"
    with indexed_ok [OF ok _ wk [OF b]] show ?thesis by blast
  next
    assume "j' = j"
    with jobOkD [OF ok] wk [OF b] show ?thesis by (simp add: jobOk_def)
  qed
  with row_worker [OF inv j w' b(1)] b(2) show ?thesis by simp
qed

lemma worker_mark:
  assumes inv: "batchInv s" and j: "bw_jobs (bs_world s) bid = Some j"
    and st: "BiStatus j = JobSettling" "captured (bw_usage (bs_world s)) j"
    and tx: "jobsTx e (MarkBatchImageJobSettled now bid (costOf j) m) (bs_world s) = (r, w1)"
    and w': "bw_jobs w' = bw_jobs w1" "bw_usage w' = bw_usage w1"
  shows "batchInv (s\<lparr>bs_world := w', bs_worker := (bs_worker s)(bid := None)\<rparr>)"
proof -
  note ok = inv_job(2) [OF inv j]
  from jobsTx_row [OF tx [unfolded MarkBatchImageJobSettled_def] j] obtain j' where
    w1: "w1 = (bs_world s)\<lparr>bw_jobs := (bw_jobs (bs_world s))(bid \<mapsto> j')\<rparr>"
    and j': "j' = j\<lparr>BiStatus := JobCompleted, BiActualCost := Some (costOf j), BiManifestHash := Some m, BiUpdatedAt := now\<rparr> \<or> j' = j"
    using st(1) by (auto split: if_splits)
  have b: "same_batch j j'" using j' by (auto simp: same_batch_def)
  have "jobOk (bw_usage (bs_world s)) j' (bs_submit s bid) None"
    using j'
  proof
    assume j': "j' = j\<lparr>BiStatus := JobCompleted, BiActualCost := Some (costOf j), BiManifestHash := Some m, BiUpdatedAt := now\<rparr>"
    show ?thesis by (rule completed_ok [OF ok b]) (simp_all add: j' st tired_def)
  next
    assume "j' = j"
    with jobOkD [OF ok] show ?thesis by (simp add: jobOk_def wkOk_def)
  qed
  with step_worker [OF inv j, of w' j' None] w1 w' b st(1) inv_job(3) [OF inv j] show ?thesis
    by (simp add: adds_refl calledOff_def)
qed

lemma worker_failed:
  assumes inv: "batchInv s" and j: "bw_jobs (bs_world s) bid = Some j" and st: "BiStatus j = JobSettling" "tired j"
    and tx: "jobsTx e (TransitionBatchImageJobStatus now bid JobFailed code) (bs_world s) = (r, w')"
    and wk: "\<And>j' u. wkOk u j' wk'"
  shows "batchInv (s\<lparr>bs_world := w', bs_worker := (bs_worker s)(bid := wk')\<rparr>)"
proof -
  note ok = inv_job(2) [OF inv j]
  from transition_row [OF tx j] obtain j' where w': "w' = (bs_world s)\<lparr>bw_jobs := (bw_jobs (bs_world s))(bid \<mapsto> j')\<rparr>"
    and b: "same_batch j j'" "BiSuccessCount j' = BiSuccessCount j" "BiActualCost j' = BiActualCost j" "tired j' = tired j"
    and c: "BiStatus j' = JobFailed \<or> j' = j" by blast
  have "jobOk (bw_usage (bs_world s)) j' (bs_submit s bid) wk'"
    using c
  proof
    assume "BiStatus j' = JobFailed"
    from tired_failed_ok [OF ok b(1,2,4) st(1) this st(2) wk] show ?thesis .
  next
    assume "j' = j"
    with jobOkD [OF ok] wk show ?thesis by (simp add: jobOk_def)
  qed
  with row_worker [OF inv j w' b(1)] st(1) show ?thesis by (simp add: calledOff_def)
qed


lemma worker_missing:
  assumes inv: "batchInv s" and none: "bw_jobs (bs_world s) bid = None" and pc: "bs_worker s bid = Some pc"
    and st: "pipeline_step p pricing e bid pc (bs_world s) = (pc', w')"
  shows "batchInv (s\<lparr>bs_world := w', bs_worker := (bs_worker s)(bid := pc')\<rparr>)"
proof -
  have "bs_worker s bid \<in> {None, Some WkPipeline}" using inv none unfolding batchInv_def by blast
  with pc have "pc = WkPipeline" by simp
  with st none have "pc' = None" "w' = bs_world s" by (auto simp: pipeline_step_unfold)
  with inv none show ?thesis unfolding batchInv_def by auto
qed

lemma worker_inv:
  assumes inv: "batchInv s" and pc: "bs_worker s bid = Some pc" and st: "pipeline_step p pricing e bid pc (bs_world s) = (pc', w')"
  shows "batchInv (s\<lparr>bs_world := w', bs_worker := (bs_worker s)(bid := pc')\<rparr>)"
proof (cases "bw_jobs (bs_world s) bid")
  case None
  from worker_missing [OF inv this pc st] show ?thesis .
next
  case (Some j)
  let ?u = "bw_usage (bs_world s)"
  note j = Some
  have ok: "workerOk ?u j pc" using jobOkD(5) [OF inv_job(2) [OF inv j]] pc by (simp add: wkOk_def)
  have up: "same_batch i j \<Longrightarrow> same_batch j j' \<Longrightarrow> same_batch i j'" for i j' by (simp add: same_batch_def)
  note step = st [unfolded pipeline_step_unfold Let_def]
  show ?thesis
  proof (cases pc)
    case WkPipeline
    with worker_reads [OF inv j ok _ st] show ?thesis by (intro only_pc(2) [OF inv j]) simp_all
  next
    case WkSettle
    with worker_reads [OF inv j ok _ st] show ?thesis by (intro only_pc(2) [OF inv j]) simp_all
  next
    case WkProcess
    with worker_reads [OF inv j ok _ st] show ?thesis by (intro only_pc(2) [OF inv j]) simp_all
  next
    case WkReread
    with worker_reads [OF inv j ok _ st] show ?thesis by (intro only_pc(2) [OF inv j]) simp_all
  next
    case (WkGet i)
    with worker_reads [OF inv j ok _ st] show ?thesis by (intro only_pc(2) [OF inv j]) simp_all
  next
    case (WkIndex i)
    with worker_reads [OF inv j ok _ st] show ?thesis by (intro only_pc(2) [OF inv j]) simp_all
  next
    case (WkPersistRef i ps)
    have ok': "same_batch i j" "\<not> batch_settled (BiStatus j)" using ok WkPersistRef by simp_all
    let ?ref = "trim_space (ps_output_ref ps)"
    show ?thesis
    proof (cases "?ref = [] \<or> batchImageDerefString (BiProviderOutputRef i) = ?ref")
      case True
      with step WkPersistRef ok' show ?thesis by (intro only_pc(2) [OF inv j]) (auto simp: wkOk_def)
    next
      case False
      obtain r where tx: "jobsTx e (UpdateBatchImageJobProviderOutputRef (be_now e) bid ?ref) (bs_world s) = (r, w')"
        using step WkPersistRef False by (auto split: prod.splits option.splits)
      have pc': "pc' = (if r = None then Some (WkAct (i\<lparr>BiProviderOutputRef := Some ?ref\<rparr>) (ps_state ps) (ps_error_code ps)) else None)"
        using step WkPersistRef False tx by (simp split: option.splits)
      have keep: "same_batch i j' \<Longrightarrow> same_batch (i\<lparr>BiProviderOutputRef := Some ?ref\<rparr>) j'" for j' by (simp add: same_batch_def)
      show ?thesis unfolding pc'
        by (rule worker_persist_ref [OF inv j tx]) (use ok'(2) keep up [OF ok'(1)] in \<open>simp add: wkOk_def\<close>)
    qed
  next
    case (WkAct i ps code)
    have ok': "same_batch i j" "\<not> batch_settled (BiStatus j)" using ok WkAct by simp_all
    have none: "wkOk u j' None" for u j' by (simp add: wkOk_def)
    have only: "pc' = None \<Longrightarrow> w' = bs_world s \<Longrightarrow> ?thesis" by (intro only_pc(2) [OF inv j]) (simp_all add: none)
    consider "ps = PsRunning" | "ps = PsSucceeded" | "ps = PsCancelled" | "ps \<in> {PsFailed, PsExpired}" | "ps \<in> {PsQueued, PsOther}"
      by (cases ps) simp_all
    then show ?thesis
    proof cases
      case 1
      show ?thesis
      proof (cases "BiStatus i = JobRunning")
        case True
        with step WkAct 1 only show ?thesis by simp
      next
        case False
        obtain r w1 where tx: "jobsTx e (TransitionBatchImageJobStatus (be_now e) bid JobRunning None) (bs_world s) = (r, w1)" by fastforce
        with step WkAct 1 False have "pc' = None" "w' = w1" by simp_all
        with worker_transition [OF inv j ok'(2) tx _ none] show ?thesis by simp
      qed
    next
      case 2
      obtain r w1 where tx: "jobsTx e (TransitionBatchImageJobStatus (be_now e) bid JobIndexing None) (bs_world s) = (r, w1)" by fastforce
      with step WkAct 2 have w: "w' = w1" "pc' = (if r = None then Some (WkIndex i) else None)" by (cases r; simp)+
      show ?thesis unfolding w
        by (rule worker_transition [OF inv j ok'(2) tx]) (use up [OF ok'(1)] in \<open>auto simp: wkOk_def batch_settled_def\<close>)
    next
      case 3
      obtain r w1 where tx: "jobsTx e (TransitionBatchImageJobStatus (be_now e) bid JobCancelled None) (bs_world s) = (r, w1)" by fastforce
      with step WkAct 3 have w: "w' = w1" "pc' = (if r = None then Some (WkRelease (i\<lparr>BiStatus := JobCancelled\<rparr>)) else None)" by (cases r; simp)+
      show ?thesis unfolding w
        by (rule worker_transition [OF inv j ok'(2) tx]) (use ok'(1) in \<open>auto simp: wkOk_def same_batch_def calledOff_def\<close>)
    next
      case 4
      obtain c where c: "c = Some (if trim_space code \<noteq> [] then trim_space code
                           else if ps = PsExpired then ''PROVIDER_BATCH_EXPIRED'' else ''PROVIDER_BATCH_FAILED'')" by blast
      obtain r w1 where tx: "jobsTx e (TransitionBatchImageJobStatus (be_now e) bid JobFailed c) (bs_world s) = (r, w1)" by fastforce
      with step WkAct 4 have w: "w' = w1" "pc' = (if r = None then Some (WkRelease (i\<lparr>BiStatus := JobFailed\<rparr>)) else None)"
        unfolding c by (cases r; auto)+
      show ?thesis unfolding w
        by (rule worker_transition [OF inv j ok'(2) tx]) (use ok'(1) in \<open>auto simp: wkOk_def same_batch_def calledOff_def\<close>)
    next
      case 5
      with step WkAct have "pc' = None" "w' = bs_world s" by auto
      with only show ?thesis by simp
    qed
  next
    case (WkIndexed i n m)
    have ok': "same_batch i j" "\<not> batch_settled (BiStatus j)" using ok WkIndexed by simp_all
    obtain r where tx: "jobsTx e (ReplaceBatchImageItemsForJob (be_now e) bid n m) (bs_world s) = (r, w')"
      using step WkIndexed by (auto split: prod.splits option.splits)
    have pc': "pc' = (case r of None \<Rightarrow> Some (WkToSettling i)
        | Some err \<Rightarrow> if err = IndexStateConflict then None else Some (WkIndexFail i ''INDEX_PARSE_FAILED''))"
      using step WkIndexed tx by (cases r) auto
    show ?thesis unfolding pc'
      by (rule worker_indexed [OF inv j tx]) (use ok'(2) up [OF ok'(1)] in \<open>simp add: wkOk_def split: option.split\<close>)
  next
    case (WkIndexFail i code)
    have ok': "same_batch i j" "\<not> batch_settled (BiStatus j)" using ok WkIndexFail by simp_all
    obtain r where tx: "jobsTx e (TransitionBatchImageJobStatus (be_now e) bid JobFailed (Some code)) (bs_world s) = (r, w')"
      using step WkIndexFail by (auto split: prod.splits option.splits)
    have pc': "pc' = (if r = None then Some (WkRelease (i\<lparr>BiStatus := JobFailed\<rparr>)) else None)"
      using step WkIndexFail tx by (cases r) auto
    show ?thesis unfolding pc'
      by (rule worker_transition [OF inv j ok'(2) tx]) (use ok'(1) in \<open>auto simp: wkOk_def same_batch_def calledOff_def\<close>)
  next
    case (WkToSettling i)
    have ok': "\<not> batch_settled (BiStatus j)" using ok WkToSettling by simp
    obtain r w1 where tx: "jobsTx e (TransitionBatchImageJobStatus (be_now e) bid JobSettling None) (bs_world s) = (r, w1)" by fastforce
    with step WkToSettling have w: "w' = w1" "pc' = None" by auto
    show ?thesis unfolding w by (rule worker_transition [OF inv j ok' tx]) (simp_all add: wkOk_def)
  next
    case (WkRelease i)
    have ok': "same_batch i j" "calledOff (BiStatus j)" using ok WkRelease by simp_all
    obtain r w1 where tx: "releaseHold p e i (bs_world s) = (r, w1)" by fastforce
    show ?thesis
      by (rule worker_release [OF inv j ok'(1) _ tx]) (use step WkRelease tx ok'(2) in \<open>cases r; auto simp: wkOk_def\<close>)+
  next
    case (SetFail i code b)
    have ok': "same_batch i j" "BiStatus j = JobSettling" using ok SetFail by simp_all
    obtain r w1 where tx: "jobsTx e (SetBatchImageJobSettlementFailed (be_now e) bid code) (bs_world s) = (r, w1)" by fastforce
    with step SetFail have w: "w' = w1" by (auto split: option.splits if_splits)
    show ?thesis unfolding w
    proof (rule worker_failure [OF inv j tx])
      fix j' assume j': "bw_jobs w1 bid = Some j'" "same_batch j j'" "BiStatus j' = BiStatus j"
      show "wkOk ?u j' pc'"
        using step SetFail tx j' ok' up [OF ok'(1) j'(2)]
        by (cases r) (auto simp: wkOk_def tired_def same_batch_def split: if_splits)
    qed
  next
    case (SetExhaust i)
    have ok': "same_batch i j" "BiStatus j = JobSettling" "tired j" using ok SetExhaust by simp_all
    obtain r w1 where tx: "releaseHold p e i (bs_world s) = (r, w1)" by fastforce
    show ?thesis
      by (rule worker_release [OF inv j ok'(1) _ tx]) (use step SetExhaust tx ok' in \<open>cases r; auto simp: wkOk_def\<close>)+
  next
    case (SetExhaustFail i)
    obtain r w1 where tx: "jobsTx e (SetBatchImageJobSettlementFailed (be_now e) bid ''SETTLEMENT_RELEASE_FAILED'') (bs_world s) = (r, w1)" by fastforce
    with step SetExhaustFail have w: "w' = w1" "pc' = Some WkReread" by auto
    show ?thesis unfolding w by (rule worker_failure [OF inv j tx]) (simp add: wkOk_def)
  next
    case (SetFailed i)
    have ok': "BiStatus j = JobSettling" "tired j" using ok SetFailed by simp_all
    obtain r where tx: "jobsTx e (TransitionBatchImageJobStatus (be_now e) bid JobFailed (Some ''SETTLEMENT_BILLING_RETRY_EXHAUSTED'')) (bs_world s) = (r, w')"
      using step SetFailed by (auto split: prod.splits option.splits)
    show ?thesis
      by (rule worker_failed [OF inv j ok' tx]) (use step SetFailed tx in \<open>cases r; auto simp: wkOk_def\<close>)
  next
    case (SetCapture i cost m)
    have ok': "same_batch i j" "BiStatus j = JobSettling" "cost = costOf j" "cost \<ge> 0" using ok SetCapture by simp_all
    obtain r where tx: "captureBatchImageBalanceHold p e i cost m (bs_world s) = (r, w')"
      using step SetCapture by (auto split: prod.splits option.splits)
    have pc': "pc' = (case r of None \<Rightarrow> Some (SetMark i cost m) | Some err \<Rightarrow> Some (SetFail i ''SETTLEMENT_BILLING_FAILED'' (err \<noteq> HoldMissingAPIKeyID)))"
      using step SetCapture tx by (simp split: option.splits)
    show ?thesis unfolding pc'
      by (rule worker_capture [OF inv j ok' tx]) (use ok' in \<open>simp add: wkOk_def split: option.split\<close>)
  next
    case (SetMark i cost m)
    have ok': "BiStatus j = JobSettling" "captured ?u j" "cost = costOf j" using ok SetMark by simp_all
    obtain r w1 where tx: "jobsTx e (MarkBatchImageJobSettled (be_now e) bid (costOf j) m) (bs_world s) = (r, w1)" by fastforce
    have "pc' = None" "bw_jobs w' = bw_jobs w1" "bw_usage w' = bw_usage w1"
      using step SetMark tx ok'(3) by (cases r; auto)+
    with worker_mark [OF inv j ok'(1,2) tx] show ?thesis by simp
  qed
qed


subsection \<open>Cancellations and recoveries\<close>

lemma side_all:
  assumes "list_all (sideOk js) (bs_side s)" "\<And>q. pc' = Some q \<Longrightarrow> sideOk js q"
  shows "list_all (sideOk js) (bs_side (setSide n pc' s))"
  using assms by (auto simp: setSide_def list_all_iff dest: in_set_takeD in_set_dropD split: option.splits)

lemma side_update:
  assumes inv: "batchInv s" and j: "bw_jobs (bs_world s) bid = Some j"
    and w': "bw_jobs w' = (bw_jobs (bs_world s))(bid \<mapsto> j')" "adds (bw_usage (bs_world s)) (bw_usage w') (jobKeys j)"
    and same: "same_batch j j'" "calledOff (BiStatus j) \<longrightarrow> calledOff (BiStatus j')"
    and ji: "jobOk (bw_usage w') j' (bs_submit s bid) (bs_worker s bid)"
    and q: "\<And>q. pc' = Some q \<Longrightarrow> sideOk (bw_jobs w') q"
  shows "batchInv (setSide n pc' (setWorld w' s))"
proof -
  have "list_all (sideOk (bw_jobs w')) (bs_side s)"
    unfolding w'(1) by (rule side_list [where j = j]) (use inv j same in \<open>simp_all add: batchInv_def\<close>)
  from sys_update [OF inv j w' same ji side_all [OF this q]] show ?thesis
    by (cases s) (simp add: setSide_def setWorld_def)
qed

lemma side_only:
  assumes "batchInv s" "bw_jobs w' = bw_jobs (bs_world s)" "bw_usage w' = bw_usage (bs_world s)"
    "\<And>q. pc' = Some q \<Longrightarrow> sideOk (bw_jobs (bs_world s)) q"
  shows "batchInv (setSide n pc' (setWorld w' s))"
proof -
  have "list_all (sideOk (bw_jobs (bs_world s))) (bs_side (setSide n pc' s))"
    by (rule side_all [OF _ assms(4)]) (use assms(1) in \<open>simp add: batchInv_def\<close>)
  with assms show ?thesis
    unfolding batchInv_def by (simp add: setSide_def setWorld_def)
qed

lemma side_transition:
  assumes inv: "batchInv s" and j: "bw_jobs (bs_world s) bid = Some j"
    and w': "w' = (bs_world s)\<lparr>bw_jobs := (bw_jobs (bs_world s))(bid \<mapsto> j')\<rparr>"
    and b: "same_batch j j'" "BiSuccessCount j' = BiSuccessCount j" "tired j' = tired j"
    and c: "CanTransitionBatchImageJob (BiStatus j) t \<and> BiStatus j' = t \<or> j' = j" and ns: "j' \<noteq> j \<Longrightarrow> \<not> batch_settled (BiStatus j)"
    and t: "t \<in> {JobFailed, JobCancelled}"
    and q: "\<And>q. pc' = Some q \<Longrightarrow> sideOk (bw_jobs w') q"
  shows "batchInv (setSide n pc' (setWorld w' s))"
proof (cases "j' = j")
  case True
  with w' j have "w' = bs_world s" by (simp add: fun_upd_idem)
  with side_only [OF inv, of w' pc' n] q show ?thesis by simp
next
  case False
  with c ns have ct: "CanTransitionBatchImageJob (BiStatus j) t" "BiStatus j' = t" and ns: "\<not> batch_settled (BiStatus j)" by auto
  note ok = inv_job(2) [OF inv j]
  have nc: "\<not> calledOff (BiStatus j)" using transition_facts(1) [OF ct(1)] t by auto
  have "rowChange j j'" using b ct(2) t ns nc by (auto simp: rowChange_def batch_settled_def)
  note wk = rowChange_keeps(3) [OF ok this]
  have "jobOk (bw_usage (bs_world s)) j' (bs_submit s bid) (bs_worker s bid)"
    by (rule early_transition [OF ok b ns ct _ wk]) (use t in auto)
  with side_update [OF inv j, of w' j' pc' n] w' b nc q inv_job(3) [OF inv j] show ?thesis by (simp add: adds_refl)
qed

lemma side_release:
  assumes inv: "batchInv s" and i: "\<exists>j. bw_jobs (bs_world s) (BiBatchID i) = Some j \<and> same_batch i j \<and> calledOff (BiStatus j)"
    and r: "releaseHold p e i (bs_world s) = (err, w')" and q: "\<And>q. pc' = Some q \<Longrightarrow> sideOk (bw_jobs (bs_world s)) q"
  shows "batchInv (setSide n pc' (setWorld w' s))"
proof -
  let ?u = "bw_usage (bs_world s)"
  obtain j where j: "bw_jobs (bs_world s) (BiBatchID i) = Some j" and same: "same_batch i j" and co: "calledOff (BiStatus j)"
    using i by blast
  note J = inv_job [OF inv j]
  have good: "good_job i" using jobOkD(1) [OF J(2)] same_keys(5) [OF same] by simp
  from release_tx [OF good J(3) r] obtain u' where u': "w' = (bs_world s)\<lparr>bw_usage := u'\<rparr>"
    "addsOne ?u u' (releaseKey j) (\<lambda>e. \<exists>c. e = ReleaseHold c (hasKey ?u (holdKey j)) \<and> jobCommand j c)"
    unfolding same_keys(1-3) [OF same] same_command [OF same] by blast
  have lt: "late (BiStatus j) \<longrightarrow> tired j" using co by (auto simp: calledOff_def late_def)
  note R = release_ok [OF J(2) lt u'(2)]
  have "subOk u' j (bs_submit s (BiBatchID i))"
    using jobOkD(4) [OF J(2)] R(3) [OF co] by (auto simp: subOk_def split: option.splits)
  then have "jobOk u' j (bs_submit s (BiBatchID i)) (bs_worker s (BiBatchID i))"
    using jobOkD(1) [OF J(2)] R(1,2,4) by (simp add: jobOk_def)
  moreover have "(bw_jobs (bs_world s))(BiBatchID i \<mapsto> j) = bw_jobs (bs_world s)" using j by auto
  ultimately show ?thesis
    using side_update [OF inv j, of w' j pc' n] u'(1) addsOne_adds [OF u'(2) jobKeys_mem(3)] q by simp
qed

lemma side_inv:
  assumes inv: "batchInv s" and n: "n < length (bs_side s)" and st: "side_step p e (bs_side s ! n) (bs_world s) = (pc', w')"
  shows "batchInv (setSide n pc' (setWorld w' s))"
proof -
  let ?w = "bs_world s"
  have ok: "sideOk (bw_jobs ?w) (bs_side s ! n)" using inv n by (auto simp: batchInv_def list_all_iff)
  note only = side_only [OF inv, of w' pc' n]
  note step = st [unfolded side_step_unfold Let_def]
  show ?thesis
  proof (cases "bs_side s ! n")
    case (CanStart user key bid)
    show ?thesis
    proof (rule only)
      show "bw_jobs w' = bw_jobs ?w" "bw_usage w' = bw_usage ?w" using step CanStart by (auto split: option.splits if_splits)
      show "sideOk (bw_jobs ?w) q" if "pc' = Some q" for q
      proof (cases "bw_jobs ?w bid")
        case None
        with step CanStart that show ?thesis by simp
      next
        case (Some j)
        with inv_job(1) [OF inv Some] step CanStart that show ?thesis by (auto simp: calledOff_def split: if_splits)
      qed
    qed
  next
    case (CanProvider i)
    with step show ?thesis by (intro only) (auto split: if_splits)
  next
    case (CanQueue i)
    with step show ?thesis by (intro only) auto
  next
    case (CanRetry i)
    with step show ?thesis by (intro only) auto
  next
    case (RecRetry i)
    with step show ?thesis by (intro only) auto
  next
    case (RecStart bid cutoff)
    show ?thesis
    proof (rule only)
      show "bw_jobs w' = bw_jobs ?w" "bw_usage w' = bw_usage ?w" using step RecStart by (auto split: option.splits if_splits)
      show "sideOk (bw_jobs ?w) q" if "pc' = Some q" for q
      proof (cases "bw_jobs ?w bid")
        case None
        with step RecStart that show ?thesis by simp
      next
        case (Some j)
        with inv_job(1) [OF inv Some] step RecStart that show ?thesis by (auto split: if_splits)
      qed
    qed
  next
    case (CanTransition i)
    obtain j where j: "bw_jobs ?w (BiBatchID i) = Some j" and same: "same_batch i j" using ok CanTransition by auto
    obtain r w1 where tx: "jobsTx e (TransitionBatchImageJobStatus (be_now e) (BiBatchID i) JobCancelled None) ?w = (r, w1)" by fastforce
    have pc': "w1 = w'" "pc' = (if r = None then Some (CanRelease i) else None)"
      using step CanTransition tx by (cases r; simp)+
    from transition_row [OF tx j] obtain j' where w': "w' = ?w\<lparr>bw_jobs := (bw_jobs ?w)(BiBatchID i \<mapsto> j')\<rparr>"
      and b: "same_batch j j'" "BiSuccessCount j' = BiSuccessCount j" "BiActualCost j' = BiActualCost j" "tired j' = tired j"
      and c: "CanTransitionBatchImageJob (BiStatus j) JobCancelled \<and> BiStatus j' = JobCancelled \<or> j' = j \<and> r \<noteq> None"
      unfolding pc'(1) by blast
    have ns: "j' \<noteq> j \<Longrightarrow> \<not> batch_settled (BiStatus j)"
      using c by (cases "BiStatus j") (auto simp: CanTransitionBatchImageJob_def IsTerminalBatchImageJobStatus_def batch_settled_def)
    have "same_batch i j'" using same b(1) by (simp add: same_batch_def)
    then have "sideOk (bw_jobs w') q" if "pc' = Some q" for q
      using that pc'(2) c w' by (auto simp: calledOff_def split: if_splits)
    moreover from c have "CanTransitionBatchImageJob (BiStatus j) JobCancelled \<and> BiStatus j' = JobCancelled \<or> j' = j" by blast
    ultimately show ?thesis by (intro side_transition [OF inv j w' b(1,2,4) _ ns]) auto
  next
    case (RecFail i cutoff)
    obtain j where j: "bw_jobs ?w (BiBatchID i) = Some j" and same: "same_batch i j" using ok RecFail by auto
    have w1: "jobsExec e (FailStaleUnsubmittedBatchImageJob (be_now e) (BiBatchID i) cutoff) ?w = w'" using step RecFail by simp
    from jobsExec_row [OF w1 [unfolded FailStaleUnsubmittedBatchImageJob_def] j] obtain j' where
      w': "w' = ?w\<lparr>bw_jobs := (bw_jobs ?w)(BiBatchID i \<mapsto> j')\<rparr>" and
      j': "j' = j \<or> staleUnsubmitted cutoff j \<and>
           j' = j\<lparr>BiStatus := JobFailed, BiLastErrorCode := Some ''SUBMIT_STALE_BEFORE_PROVIDER'', BiUpdatedAt := be_now e\<rparr>" by blast
    have b: "same_batch j j'" "BiSuccessCount j' = BiSuccessCount j" "tired j' = tired j"
      using j' by (auto simp: same_batch_def tired_def)
    have stale: "staleUnsubmitted cutoff j \<Longrightarrow> BiStatus j = JobCreated \<or> BiStatus j = JobUploading"
      by (auto simp: staleUnsubmitted_def)
    have c: "CanTransitionBatchImageJob (BiStatus j) JobFailed \<and> BiStatus j' = JobFailed \<or> j' = j"
    proof -
      have "CanTransitionBatchImageJob JobCreated JobFailed" "CanTransitionBatchImageJob JobUploading JobFailed"
        by (simp_all add: CanTransitionBatchImageJob_def IsTerminalBatchImageJobStatus_def)
      with stale have "staleUnsubmitted cutoff j \<Longrightarrow> CanTransitionBatchImageJob (BiStatus j) JobFailed" by metis
      with j' show ?thesis by fastforce
    qed
    have ns: "j' \<noteq> j \<Longrightarrow> \<not> batch_settled (BiStatus j)" using j' stale by (auto simp: batch_settled_def)
    have "sideOk (bw_jobs w') q" if q: "pc' = Some q" for q
    proof -
      have "staleUnsubmitted cutoff j" "be_db e = DbOk" "q = RecRelease i"
        using step RecFail q j by (auto simp: rowHit_def split: if_splits)
      then have "bw_jobs w' (BiBatchID i) = Some (j\<lparr>BiStatus := JobFailed, BiLastErrorCode := Some ''SUBMIT_STALE_BEFORE_PROVIDER'', BiUpdatedAt := be_now e\<rparr>)"
        using w1 j by (auto simp: jobsExec_def FailStaleUnsubmittedBatchImageJob_def updateWhere_def written_def)
      with same \<open>q = RecRelease i\<close> show ?thesis by (simp add: same_batch_def calledOff_def)
    qed
    then show ?thesis by (intro side_transition [OF inv j w' b c ns]) auto
  next
    case (CanRelease i)
    obtain r w1 where tx: "releaseHold p e i ?w = (r, w1)" by fastforce
    have "w1 = w'" "\<And>q. pc' = Some q \<Longrightarrow> sideOk (bw_jobs ?w) q" using step CanRelease tx by (cases r; auto)+
    with side_release [OF inv _ tx] ok CanRelease show ?thesis by simp
  next
    case (RecRelease i)
    obtain r w1 where tx: "releaseHold p e i ?w = (r, w1)" by fastforce
    have "w1 = w'" "\<And>q. pc' = Some q \<Longrightarrow> sideOk (bw_jobs ?w) q" using step RecRelease tx by (cases r; auto)+
    with side_release [OF inv _ tx] ok RecRelease show ?thesis by simp
  qed
qed


subsection \<open>Creation, cleanups and other writers\<close>

lemma crash_submit: "batchInv s \<Longrightarrow> batchInv (s\<lparr>bs_submit := (bs_submit s)(bid := None)\<rparr>)"
  by (auto simp: batchInv_def jobOk_def subOk_def)

lemma crash_worker: "batchInv s \<Longrightarrow> batchInv (s\<lparr>bs_worker := (bs_worker s)(bid := None)\<rparr>)"
  by (auto simp: batchInv_def jobOk_def wkOk_def)

lemma start_worker: "batchInv s \<Longrightarrow> batchInv (s\<lparr>bs_worker := (bs_worker s)(bid \<mapsto> WkPipeline)\<rparr>)"
  by (auto simp: batchInv_def jobOk_def wkOk_def)

lemma start_side: "batchInv s \<Longrightarrow> sideOk (bw_jobs (bs_world s)) q \<Longrightarrow> batchInv (s\<lparr>bs_side := q # bs_side s\<rparr>)"
  by (simp add: batchInv_def)

lemma crash_side: "batchInv s \<Longrightarrow> batchInv (setSide n None s)"
  using side_only [of s "bs_world s" None n] by (simp add: setWorld_def)

text \<open>A row change that keeps the status, or turns a completed job into one whose output is deleted.\<close>

lemma quiet_row:
  assumes inv: "batchInv s" and j: "bw_jobs (bs_world s) bid = Some j"
    and w': "w' = (bs_world s)\<lparr>bw_jobs := (bw_jobs (bs_world s))(bid \<mapsto> j')\<rparr>"
    and b: "same_batch j j'" "BiSuccessCount j' = BiSuccessCount j" "BiActualCost j' = BiActualCost j" "tired j' = tired j"
    and st: "BiStatus j' = BiStatus j \<or> BiStatus j = JobCompleted \<and> BiStatus j' = JobOutputDeleted"
  shows "batchInv (setWorld w' s)"
proof -
  note ok = inv_job(2) [OF inv j]
  have rc: "rowChange j j'" using b st by (auto simp: rowChange_def batch_settled_def calledOff_def)
  note keeps = rowChange_keeps [OF ok rc] and c = core_facts [OF b(1,2)] and m = moneyD [OF jobOkD(3) [OF ok]]
  have st': "late (BiStatus j') = late (BiStatus j)" "batch_settled (BiStatus j') = batch_settled (BiStatus j)" "calledOff (BiStatus j') = calledOff (BiStatus j)"
    "BiStatus j' = JobFailed \<longleftrightarrow> BiStatus j = JobFailed" "BiStatus j' \<in> {JobCompleted, JobOutputDeleted} \<longleftrightarrow> BiStatus j \<in> {JobCompleted, JobOutputDeleted}"
    using st by (auto simp: late_def batch_settled_def calledOff_def)
  have "moneyOk (bw_usage (bs_world s)) j'"
    by (rule moneyI) (use m c b st' in simp_all)
  moreover have "subOk (bw_usage (bs_world s)) j' (bs_submit s bid)" by (rule sub_still [OF ok b(1,2)]) (simp_all add: st')
  ultimately have "jobOk (bw_usage (bs_world s)) j' (bs_submit s bid) (bs_worker s bid)" using keeps by (simp add: jobOk_def)
  with step_update [OF inv j, of w' j' "bs_submit s bid" "bs_worker s bid"] w' b(1) st' inv_job(3) [OF inv j] show ?thesis
    by (cases s) (simp add: adds_refl setWorld_def)
qed

lemma touch_inv: "batchInv s \<Longrightarrow> batchInv (setWorld (jobsExec e (TouchBatchImageJobSubmitting now bid) (bs_world s)) s)"
proof (cases "bw_jobs (bs_world s) bid")
  case None
  assume "batchInv s"
  with None show ?thesis by (cases s) (simp add: jobsExec_def TouchBatchImageJobSubmitting_def updateWhere_def written_def setWorld_def)
next
  case (Some j)
  assume inv: "batchInv s"
  obtain w1 where w1: "jobsExec e (TouchBatchImageJobSubmitting now bid) (bs_world s) = w1" by blast
  from jobsExec_row [OF w1 [unfolded TouchBatchImageJobSubmitting_def] Some] obtain j' where
    w': "w1 = (bs_world s)\<lparr>bw_jobs := (bw_jobs (bs_world s))(bid \<mapsto> j')\<rparr>" and j': "j' = j \<or> j' = j\<lparr>BiUpdatedAt := now\<rparr>" by blast
  show ?thesis unfolding w1
    by (rule quiet_row [OF inv Some w']) (use j' in \<open>auto simp: same_batch_def tired_def\<close>)
qed

lemma user_deleted_inv: "batchInv s \<Longrightarrow> batchInv (setWorld (jobsExec e (MarkBatchImageJobUserDeleted now user key bid) (bs_world s)) s)"
proof (cases "bw_jobs (bs_world s) bid")
  case None
  assume "batchInv s"
  with None show ?thesis by (cases s) (simp add: jobsExec_def MarkBatchImageJobUserDeleted_def updateWhere_def written_def setWorld_def)
next
  case (Some j)
  assume inv: "batchInv s"
  from user_deleted_row [OF Some] obtain j' where
    w': "jobsExec e (MarkBatchImageJobUserDeleted now user key bid) (bs_world s) = (bs_world s)\<lparr>bw_jobs := (bw_jobs (bs_world s))(bid \<mapsto> j')\<rparr>"
    and b: "same_batch j j'" "BiSuccessCount j' = BiSuccessCount j" "BiActualCost j' = BiActualCost j" "tired j' = tired j" "BiStatus j' = BiStatus j"
    by blast
  show ?thesis by (rule quiet_row [OF inv Some w']) (use b in simp_all)
qed

lemma output_deleted_inv: "batchInv s \<Longrightarrow> batchInv (setWorld (snd (jobsTx e (MarkBatchImageOutputDeleted now bid) (bs_world s))) s)"
proof (cases "bw_jobs (bs_world s) bid")
  case None
  assume "batchInv s"
  with None show ?thesis by (cases s) (simp add: jobsTx_def MarkBatchImageOutputDeleted_def updateJob_def setWorld_def)
next
  case (Some j)
  assume inv: "batchInv s"
  obtain r w1 where tx: "jobsTx e (MarkBatchImageOutputDeleted now bid) (bs_world s) = (r, w1)" by fastforce
  from jobsTx_row [OF tx [unfolded MarkBatchImageOutputDeleted_def] Some] obtain j' where
    w': "w1 = (bs_world s)\<lparr>bw_jobs := (bw_jobs (bs_world s))(bid \<mapsto> j')\<rparr>" and
    j': "j' = j \<or> j' = j\<lparr>BiStatus := if BiStatus j = JobCompleted then JobOutputDeleted else BiStatus j, BiUpdatedAt := now\<rparr>" by auto
  have "batchInv (setWorld w1 s)"
    by (rule quiet_row [OF inv Some w']) (use j' in \<open>auto simp: same_batch_def tired_def split: if_splits\<close>)
  with tx show ?thesis by simp
qed

text \<open>Another part of the program: the effects of no job change.\<close>

lemma usage_inv:
  assumes inv: "batchInv s" and d: "dedup_inv u'"
    and new: "\<exists>new. effects u' = new @ effects (bw_usage (bs_world s)) \<and> (\<forall>k \<in> fst ` set new. \<not> has_prefix (fst k) ''batch_image_'')"
  shows "batchInv (setWorld ((bs_world s)\<lparr>bw_usage := u'\<rparr>) s)"
proof -
  let ?u = "bw_usage (bs_world s)"
  obtain new where n: "effects u' = new @ effects ?u" "\<forall>k \<in> fst ` set new. \<not> has_prefix (fst k) ''batch_image_''" using new by blast
  have pre: "has_prefix (fst k) ''batch_image_''" if "k \<in> jobKeys j" for k j
    using that by (auto simp: jobKeys_def holdKey_def captureKey_def releaseKey_def has_prefix_iff)
  have "sameJobEffects ?u u' j" for j
    unfolding sameJobEffects_def
  proof (intro allI impI)
    fix k f t e assume "k \<in> jobKeys j"
    with pre n(2) have "k \<notin> fst ` set new" by blast
    then have "(k, f, t, e) \<notin> set new" by force
    then show "(k, f, t, e) \<in> set (effects u') \<longleftrightarrow> (k, f, t, e) \<in> set (effects ?u)" by (simp add: n(1))
  qed
  note frame = frame_job [OF this]
  have "ownedKeys u' (bw_jobs (bs_world s))"
    unfolding ownedKeys_def
  proof (intro ballI impI)
    fix k assume k: "k \<in> fst ` set (effects u')" "has_prefix (fst k) ''batch_image_''"
    with n have "k \<in> fst ` set (effects ?u)" by (auto simp: image_Un)
    with k(2) inv show "\<exists>bid j. bw_jobs (bs_world s) bid = Some j \<and> k \<in> jobKeys j"
      unfolding batchInv_def ownedKeys_def by blast
  qed
  with inv d frame show ?thesis by (simp add: batchInv_def setWorld_def)
qed

lemma other_op:
  assumes "otherOp p op" "dedup_inv u"
  shows "dedup_inv (usage_step p u op)"
    "\<exists>new. effects (usage_step p u op) = new @ effects u \<and> (\<forall>k \<in> fst ` set new. \<not> has_prefix (fst k) ''batch_image_'')"
proof -
  show "dedup_inv (usage_step p u op)" by (rule usage_step_inv [OF assms(2)])
  show "\<exists>new. effects (usage_step p u op) = new @ effects u \<and> (\<forall>k \<in> fst ` set new. \<not> has_prefix (fst k) ''batch_image_'')"
  proof (cases op)
    case (OpApply now x c)
    obtain r u' where a: "ApplyUsage p now x c u = (r, u')" by fastforce
    from a have "effects u' = effects u \<or> (\<exists>y. effects u' = y # effects u \<and> fst (fst y) = UcRequestID (NormalizeCommand p c))"
      unfolding ApplyUsage_def Let_def by (cases rule: claimedTx_cases) (auto simp: commits_def)
    with assms(1) OpApply a show ?thesis by (auto simp: otherOp_def)
  qed (use assms in \<open>simp_all add: otherOp_def CleanupUsageBillingDedup_def Let_def\<close>)
qed

text \<open>A new job: no effect has one of its keys yet.\<close>

lemma create_inv:
  assumes inv: "batchInv s" and b: "b \<noteq> []" and new: "newJob j" and j': "j' = j\<lparr>BiBatchID := NewBatchImageID b\<rparr>"
    and none: "bw_jobs (bs_world s) (BiBatchID j') = None" and sub: "sub \<in> {None, Some (j', SubReserve)}"
  shows "batchInv (s\<lparr>bs_world := (bs_world s)\<lparr>bw_jobs := (bw_jobs (bs_world s))(BiBatchID j' \<mapsto> j')\<rparr>,
            bs_submit := (bs_submit s)(BiBatchID j' := sub)\<rparr>)"
proof -
  let ?u = "bw_usage (bs_world s)" and ?js = "bw_jobs (bs_world s)" and ?b = "BiBatchID j'"
  have good: "good_job j'" using b new j' by (auto simp: good_job_def batch_id_def newJob_def split: option.splits)
  have pre: "has_prefix (fst k) ''batch_image_''" if "k \<in> jobKeys j'" for k
    using that by (auto simp: jobKeys_def holdKey_def captureKey_def releaseKey_def has_prefix_iff)
  have fresh: "k \<notin> fst ` set (effects ?u)" if "k \<in> jobKeys j'" for k
  proof
    assume "k \<in> fst ` set (effects ?u)"
    with pre [OF that] inv obtain bid i where i: "?js bid = Some i" "k \<in> jobKeys i" unfolding batchInv_def ownedKeys_def by blast
    have "BiBatchID i = bid" using inv_job(1) [OF inv i(1)] .
    with i none have "BiBatchID i \<noteq> BiBatchID j'" by auto
    with jobKeys_disjoint [of i j'] i(2) that show False by blast
  qed
  have k: "\<not> hasKey ?u (captureKey j')" "\<not> freed ?u j'" "effectsOk ?u j'"
  proof -
    show "\<not> hasKey ?u (captureKey j')" using fresh [of "captureKey j'"] by (simp add: hasKey_def)
    show "\<not> freed ?u j'" using fresh [of "releaseKey j'"] by (force simp: freed_def)
    show "effectsOk ?u j'" using fresh by (force simp: effectsOk_def)
  qed
  have st: "BiStatus j' = JobCreated" using new j' by (simp add: newJob_def)
  have "moneyOk ?u j'" by (rule moneyI) (use k(1) st in \<open>simp_all add: late_def captured_def\<close>)
  moreover have "subOk ?u j' sub" using sub k st by (auto simp: subOk_def late_def)
  moreover have "wkOk ?u j' (bs_worker s ?b)"
  proof -
    have "bs_worker s ?b \<in> {None, Some WkPipeline}" using inv none unfolding batchInv_def by blast
    then show ?thesis by (auto simp: wkOk_def)
  qed
  ultimately have ok: "jobOk ?u j' sub (bs_worker s ?b)" using good k by (simp add: jobOk_def)
  have side: "list_all (sideOk (?js(?b \<mapsto> j'))) (bs_side s)"
  proof -
    have "sideOk ?js q \<Longrightarrow> sideOk (?js(?b \<mapsto> j')) q" for q using none by (cases q) auto
    then show ?thesis using inv by (auto simp: batchInv_def list_all_iff)
  qed
  have "ownedKeys ?u (?js(?b \<mapsto> j'))"
    unfolding ownedKeys_def
  proof (intro ballI impI)
    fix k assume "k \<in> fst ` set (effects ?u)" "has_prefix (fst k) ''batch_image_''"
    then obtain bid i where i: "?js bid = Some i" "k \<in> jobKeys i" using inv unfolding batchInv_def ownedKeys_def by blast
    with none have "(?js(?b \<mapsto> j')) bid = Some i" by auto
    with i show "\<exists>bid j. (?js(?b \<mapsto> j')) bid = Some j \<and> k \<in> jobKeys j" by blast
  qed
  with inv ok side show ?thesis by (simp add: batchInv_def)
qed

lemma batch_do_inv: "batchInv s \<Longrightarrow> batchInv (batch_do p pricing s a)"
proof (cases a)
  case (ActCreate e b j)
  assume inv: "batchInv s"
  have c: "bw_jobs (bs_world s) (NewBatchImageID b) = None \<Longrightarrow> sub \<in> {None, Some (j\<lparr>BiBatchID := NewBatchImageID b\<rparr>, SubReserve)} \<Longrightarrow>
      b \<noteq> [] \<Longrightarrow> newJob j \<Longrightarrow> batchInv (s\<lparr>bs_world := (bs_world s)\<lparr>bw_jobs := (bw_jobs (bs_world s))(NewBatchImageID b \<mapsto> j\<lparr>BiBatchID := NewBatchImageID b\<rparr>)\<rparr>,
            bs_submit := (bs_submit s)(NewBatchImageID b := sub)\<rparr>)" for sub
    using create_inv [OF inv, of b j "j\<lparr>BiBatchID := NewBatchImageID b\<rparr>" sub] by simp
  with ActCreate inv show ?thesis by (auto simp: CreateBatchImageJob_def Let_def)
next
  case (ActSubmit e bid)
  assume "batchInv s"
  with ActSubmit submit_inv [of s bid] show ?thesis by (auto split: option.splits prod.splits)
next
  case (ActWorker e bid)
  assume "batchInv s"
  with ActWorker worker_inv [of s bid] show ?thesis by (auto split: option.splits prod.splits)
next
  case (ActSide e n)
  assume "batchInv s"
  with ActSide side_inv [of s n] show ?thesis by (auto split: prod.splits)
next
  case (ActUsage op)
  assume inv: "batchInv s"
  then have d: "dedup_inv (bw_usage (bs_world s))" by (simp add: batchInv_def)
  show ?thesis
  proof (cases "otherOp p op")
    case True
    with ActUsage usage_inv [OF inv other_op [OF True d]] show ?thesis by simp
  qed (use ActUsage inv in simp)
qed (simp_all add: start_worker start_side crash_submit crash_worker crash_side touch_inv output_deleted_inv user_deleted_inv)

lemma initial_batchInv: "batchInv (initial_batch t)"
  using initial_inv by (simp add: batchInv_def initial_batch_def ownedKeys_def) (simp add: initial_usage_def)

lemma batch_run_inv: "batchInv s \<Longrightarrow> batchInv (batch_run p pricing s acts)"
  by (induction acts arbitrary: s) (simp_all add: batch_run_def batch_do_inv)

end
