(* ===== verification/BatchClaims.thy ===== *)
theory BatchClaims
  imports BatchRuns
begin

text \<open>What a batch has cost its user, in every reachable state, and where its hold is lost.\<close>

subsection \<open>The sum of a job's effects\<close>

text \<open>What the committed effects with a job's three request ids move, together.\<close>

definition jobTotal :: "(usage_effect \<Rightarrow> real) \<Rightarrow> batch_system \<Rightarrow> BatchImageJob \<Rightarrow> real" where
  "jobTotal f s j = sum_list (map (\<lambda>(k, _, _, e). if k \<in> jobKeys j then f e else 0) (effects (bw_usage (bs_world s))))"

definition effectAt :: "usage_db \<Rightarrow> request_key \<Rightarrow> usage_effect option" where
  "effectAt u = map_of (map (\<lambda>(k, _, _, e). (k, e)) (effects u))"

definition moveAt :: "(usage_effect \<Rightarrow> real) \<Rightarrow> usage_effect option \<Rightarrow> real" where
  "moveAt f x = (case x of Some e \<Rightarrow> f e | None \<Rightarrow> 0)"

lemma sum_one_key:
  assumes "distinct (map fst xs)"
  shows "sum_list (map (\<lambda>(k, _, _, e). if k = q then f e else 0) xs) = moveAt f (map_of (map (\<lambda>(k, _, _, e). (k, e)) xs) q)"
  using assms
proof (induction xs)
  case (Cons x xs)
  obtain k a b e where x: "x = (k, a, b, e)" by (cases x)
  show ?case
  proof (cases "k = q")
    case True
    with Cons.prems x have "q \<notin> fst ` set xs" by simp
    then have "sum_list (map (\<lambda>(k, _, _, e). if k = q then f e else 0) xs) = 0"
      by (induction xs) auto
    with True x show ?thesis by (simp add: moveAt_def)
  next
    case False
    with Cons x show ?thesis by simp
  qed
qed (simp add: moveAt_def)

lemma jobTotal_keys:
  assumes "dedup_inv (bw_usage (bs_world s))"
  shows "jobTotal f s j = moveAt f (effectAt (bw_usage (bs_world s)) (holdKey j)) + moveAt f (effectAt (bw_usage (bs_world s)) (captureKey j)) +
    moveAt f (effectAt (bw_usage (bs_world s)) (releaseKey j))"
proof -
  let ?es = "effects (bw_usage (bs_world s))"
  let ?sum = "\<lambda>q. sum_list (map (\<lambda>(k, _, _, e). if k = q then f e else 0) ?es)"
  have "(\<lambda>(k, _, _, e). if k \<in> jobKeys j then f e else 0) =
      (\<lambda>x :: request_key \<times> gostring \<times> gotime \<times> usage_effect. (case x of (k, _, _, e) \<Rightarrow> if k = holdKey j then f e else 0) +
        (case x of (k, _, _, e) \<Rightarrow> if k = captureKey j then f e else 0) + (case x of (k, _, _, e) \<Rightarrow> if k = releaseKey j then f e else 0))"
    by (rule ext) (auto simp: jobKeys_def)
  then have "jobTotal f s j = ?sum (holdKey j) + ?sum (captureKey j) + ?sum (releaseKey j)"
    unfolding jobTotal_def by (simp only: sum_list_addf)
  then show ?thesis
    using assms sum_one_key [of ?es] by (simp add: dedup_inv_def effectAt_def)
qed

lemma effectAt_some: "effectAt u k = Some e \<Longrightarrow> \<exists>f t. (k, f, t, e) \<in> set (effects u)"
  unfolding effectAt_def by (force dest: map_of_SomeD)

lemma effectAt_none: "effectAt u k = None \<longleftrightarrow> \<not> hasKey u k"
  unfolding effectAt_def map_of_eq_None_iff hasKey_def by force

lemma effectAt_ok: "effectsOk u j \<Longrightarrow> effectAt u k = Some e \<Longrightarrow> k \<in> jobKeys j \<Longrightarrow> effectOk u j k e"
  using effectAt_some [of u k e] by (fastforce simp: effectsOk_def)

text \<open>The three amounts of a job.\<close>

lemma effect_shapes:
  "effectOk u j (holdKey j) e \<Longrightarrow> \<exists>c. e = Hold c \<and> jobCommand j c"
  "effectOk u j (captureKey j) e \<Longrightarrow> \<exists>c. e = Capture c \<and> jobCommand j c \<and> HcActualAmount c = costOf j \<and> costOf j \<ge> 0"
  "effectOk u j (releaseKey j) e \<Longrightarrow> \<exists>c h. e = ReleaseHold c h \<and> jobCommand j c"
  by (cases e; auto)+

lemma amount_nonneg: "holdAmountOf j \<ge> 0"
  by (simp add: holdAmountOf_def)

lemma hold_moves:
  assumes "effectsOk u j"
  shows "moveAt (balance_move (BiUserID j)) (effectAt u (holdKey j)) = (if hasKey u (holdKey j) then - holdAmountOf j else 0)"
    "moveAt (frozen_move (BiUserID j)) (effectAt u (holdKey j)) = (if hasKey u (holdKey j) then holdAmountOf j else 0)"
proof -
  consider "effectAt u (holdKey j) = None" "\<not> hasKey u (holdKey j)"
    | c where "effectAt u (holdKey j) = Some (Hold c)" "jobCommand j c" "hasKey u (holdKey j)"
    using effectAt_ok [OF assms, of "holdKey j"] effectAt_none [of u "holdKey j"] effect_shapes(1) [of u j]
    by (cases "effectAt u (holdKey j)") auto
  then show "moveAt (balance_move (BiUserID j)) (effectAt u (holdKey j)) = (if hasKey u (holdKey j) then - holdAmountOf j else 0)"
    "moveAt (frozen_move (BiUserID j)) (effectAt u (holdKey j)) = (if hasKey u (holdKey j) then holdAmountOf j else 0)"
    using amount_nonneg [of j] by (cases; simp add: moveAt_def jobCommand_def)+
qed

lemma capture_moves:
  assumes "effectsOk u j"
  shows "moveAt (balance_move (BiUserID j)) (effectAt u (captureKey j)) = (if captured u j then holdAmountOf j - costOf j else 0)"
    "moveAt (frozen_move (BiUserID j)) (effectAt u (captureKey j)) = (if captured u j then - holdAmountOf j else 0)"
proof -
  consider "effectAt u (captureKey j) = None" "\<not> captured u j"
    | c where "effectAt u (captureKey j) = Some (Capture c)" "jobCommand j c" "HcActualAmount c = costOf j" "captured u j" "costOf j \<ge> 0"
    using effectAt_ok [OF assms(1), of "captureKey j"] effectAt_none [of u "captureKey j"] effect_shapes(2) [of u j]
    by (cases "effectAt u (captureKey j)") (auto simp: captured_def)
  then show "moveAt (balance_move (BiUserID j)) (effectAt u (captureKey j)) = (if captured u j then holdAmountOf j - costOf j else 0)"
    "moveAt (frozen_move (BiUserID j)) (effectAt u (captureKey j)) = (if captured u j then - holdAmountOf j else 0)"
    using amount_nonneg [of j] by (cases; simp add: moveAt_def jobCommand_def not_less)+
qed

lemma freed_effect:
  assumes "dedup_inv u"
  shows "freed u j \<longleftrightarrow> (\<exists>c. effectAt u (releaseKey j) = Some (ReleaseHold c True))"
proof
  assume "freed u j"
  then obtain f t c where "(releaseKey j, f, t, ReleaseHold c True) \<in> set (effects u)" by (auto simp: freed_def)
  moreover have "distinct (map fst (map (\<lambda>(k, _, _, e). (k, e)) (effects u)))"
    using assms by (simp add: dedup_inv_def comp_def case_prod_beta)
  ultimately have "effectAt u (releaseKey j) = Some (ReleaseHold c True)"
    unfolding effectAt_def by (intro map_of_is_SomeI) force+
  then show "\<exists>c. effectAt u (releaseKey j) = Some (ReleaseHold c True)" by blast
next
  assume "\<exists>c. effectAt u (releaseKey j) = Some (ReleaseHold c True)"
  then show "freed u j" using effectAt_some unfolding freed_def by blast
qed

lemma release_moves:
  assumes "effectsOk u j" "dedup_inv u"
  shows "moveAt (balance_move (BiUserID j)) (effectAt u (releaseKey j)) = (if freed u j then holdAmountOf j else 0)"
    "moveAt (frozen_move (BiUserID j)) (effectAt u (releaseKey j)) = (if freed u j then - holdAmountOf j else 0)"
proof -
  have h: "holdAmountOf j \<ge> 0" by (simp add: holdAmountOf_def)
  note freed_iff = freed_effect [OF assms(2), of j]
  consider "moveAt (balance_move (BiUserID j)) (effectAt u (releaseKey j)) = 0" "moveAt (frozen_move (BiUserID j)) (effectAt u (releaseKey j)) = 0" "\<not> freed u j"
    | c where "effectAt u (releaseKey j) = Some (ReleaseHold c True)" "jobCommand j c" "freed u j"
  proof (cases "effectAt u (releaseKey j)")
    case None
    with freed_iff that(1) show ?thesis by (simp add: moveAt_def)
  next
    case (Some e)
    with effect_shapes(3) [OF effectAt_ok [OF assms(1) Some]] obtain c h where e: "e = ReleaseHold c h" "jobCommand j c" by (auto simp: jobKeys_def)
    with Some freed_iff that show ?thesis by (cases h) (simp_all add: moveAt_def)
  qed
  then show "moveAt (balance_move (BiUserID j)) (effectAt u (releaseKey j)) = (if freed u j then holdAmountOf j else 0)"
    "moveAt (frozen_move (BiUserID j)) (effectAt u (releaseKey j)) = (if freed u j then - holdAmountOf j else 0)"
    using h by (cases; simp add: moveAt_def jobCommand_def)+
qed



lemma job_books:
  assumes "batchInv s" "bw_jobs (bs_world s) bid = Some j"
  defines "u \<equiv> bw_usage (bs_world s)"
  shows "jobTotal (balance_move (BiUserID j)) s j = (if hasKey u (holdKey j) then - holdAmountOf j else 0) +
           (if captured u j then holdAmountOf j - costOf j else 0) + (if freed u j then holdAmountOf j else 0)"
    "jobTotal (frozen_move (BiUserID j)) s j = (if hasKey u (holdKey j) then holdAmountOf j else 0) +
           (if captured u j then - holdAmountOf j else 0) + (if freed u j then - holdAmountOf j else 0)"
proof -
  have d: "dedup_inv (bw_usage (bs_world s))" and e: "effectsOk u j"
    using inv_job(3) [OF assms(1,2)] jobOkD(2) [OF inv_job(2) [OF assms(1,2)]] by (simp_all add: u_def)
  note k = jobTotal_keys [OF d, of _ j]
  show "jobTotal (balance_move (BiUserID j)) s j = (if hasKey u (holdKey j) then - holdAmountOf j else 0) +
           (if captured u j then holdAmountOf j - costOf j else 0) + (if freed u j then holdAmountOf j else 0)"
    "jobTotal (frozen_move (BiUserID j)) s j = (if hasKey u (holdKey j) then holdAmountOf j else 0) +
           (if captured u j then - holdAmountOf j else 0) + (if freed u j then - holdAmountOf j else 0)"
    unfolding k using hold_moves [OF e] capture_moves [OF e] release_moves [OF e] d by (simp_all add: u_def)
qed

lemma held_zero: "held u j \<Longrightarrow> \<not> hasKey u (holdKey j) \<Longrightarrow> holdAmountOf j = 0"
  using amount_nonneg [of j] by (auto simp: held_def)

lemma freed_held:
  assumes "effectsOk u j" "freed u j"
  shows "hasKey u (holdKey j)"
proof -
  from assms(2) obtain f t c where "(releaseKey j, f, t, ReleaseHold c True) \<in> set (effects u)" by (auto simp: freed_def)
  with assms(1) have "effectOk u j (releaseKey j) (ReleaseHold c True)" by (auto simp: effectsOk_def jobKeys_def)
  then show ?thesis by simp
qed

subsection \<open>Properties\<close>

abbreviation batch_state :: "pg_env \<Rightarrow> (gostring \<Rightarrow> real option) \<Rightarrow> usage_tables \<Rightarrow> batch_action list \<Rightarrow> batch_system" where
  "batch_state p pricing t acts \<equiv> batch_run p pricing (initial_batch t) acts"


text \<open>
  C8: While the provider may be working on a batch (it is submitted, running or indexing), its hold is
  kept: the hold is frozen and nothing of it was given back or charged, although cancellations, the
  recovery of stale submissions and dying handlers run beside it. As in the other property, no
  settlement has failed five times and one worker at a time works on the job.
\<close>

theorem working_batch_keeps_hold:
  assumes "bw_jobs (bs_world (batch_state p pricing t acts)) bid = Some j" "BiStatus j \<in> {JobSubmitted, JobRunning, JobIndexing}"
    "BiRetryCount j < 5"
  shows "jobTotal (balance_move (BiUserID j)) (batch_state p pricing t acts) j = - holdAmountOf j \<and>
         jobTotal (frozen_move (BiUserID j)) (batch_state p pricing t acts) j = holdAmountOf j"
proof -
  let ?s = "batch_state p pricing t acts"
  have inv: "batchInv ?s" by (rule batch_run_inv [OF initial_batchInv])
  note m = moneyD [OF jobOkD(3) [OF inv_job(2) [OF inv assms(1)]]]
  have late: "late (BiStatus j)" and nt: "\<not> tired j"
    using assms(2,3) by (auto simp: late_def tired_def batchImageSettlementMaxRetries_def)
  have "\<not> captured (bw_usage (bs_world ?s)) j" "\<not> freed (bw_usage (bs_world ?s)) j"
    using m(3) m(2) [OF late] nt assms(2) by (auto simp: batch_settled_def)
  then show ?thesis
    using job_books [OF inv assms(1)] held_zero [OF m(1) [OF late]] by auto
qed

text \<open>
  C7: A hold is paid out at most once: in every reachable state, unless the settlement of the batch has
  failed five times, its effects have moved nothing, or frozen the hold, or charged the actual cost of
  a hold that is no longer frozen. It is never both released and captured.
\<close>

theorem batch_hold_paid_out_once:
  assumes "bw_jobs (bs_world (batch_state p pricing t acts)) bid = Some j" "BiRetryCount j < 5"
  shows "(jobTotal (balance_move (BiUserID j)) (batch_state p pricing t acts) j, jobTotal (frozen_move (BiUserID j)) (batch_state p pricing t acts) j)
         \<in> {(0, 0), (- holdAmountOf j, holdAmountOf j), (- costOf j, 0)}"
proof -
  let ?s = "batch_state p pricing t acts"
  let ?u = "bw_usage (bs_world ?s)"
  have inv: "batchInv ?s" by (rule batch_run_inv [OF initial_batchInv])
  note J = jobOkD [OF inv_job(2) [OF inv assms(1)]]
  note m = moneyD [OF J(3)]
  have nt: "\<not> tired j" using assms(2) by (simp add: tired_def batchImageSettlementMaxRetries_def)
  show ?thesis
  proof (cases "captured ?u j")
    case True
    then have late: "late (BiStatus j)" using m(3) nt by (auto simp: batch_settled_def late_def)
    with True m(2) nt have "\<not> freed ?u j" by blast
    with True job_books [OF inv assms(1)] held_zero [OF m(1) [OF late]] show ?thesis by auto
  next
    case False
    with job_books [OF inv assms(1)] freed_held [OF J(2)] show ?thesis by auto
  qed
qed


subsection \<open>Where a hold is lost\<close>

text \<open>The effects of a run are kept by what follows.\<close>

lemma claimedTx_keep: "effectAt db k = Some e \<Longrightarrow> effectAt (snd (claimedTx now x rid key f na body db)) k = Some e" if "dedup_inv db"
proof (cases "claimedTx now x rid key f na body db")
  case (Pair r db')
  assume e: "effectAt db k = Some e"
  from Pair have "effectAt db' k = Some e"
  proof (cases rule: claimedTx_cases)
    case (commit v t e')
    have "hasKey db k" using e effectAt_none [of db k] by auto
    moreover have "\<not> hasKey db (rid, key)" using commit(2) that committed_fst [of db "(rid, key)"] by (simp add: hasKey_def dedup_inv_def)
    ultimately have "k \<noteq> (rid, key)" by auto
    with e commit(4) show ?thesis by (auto simp: effectAt_def commits_def)
  qed (use e in simp)
  with Pair show ?thesis by simp
qed

lemma usage_step_keep:
  assumes "dedup_inv u" "effectAt u k = Some e"
  shows "effectAt (usage_step p u op) k = Some e"
proof (cases op)
  case (OpCleanup c ks)
  with assms(2) show ?thesis by (simp add: effectAt_def CleanupUsageBillingDedup_def Let_def)
next
  case (OpOther t)
  with assms(2) show ?thesis by (simp add: effectAt_def)
qed (use assms in \<open>simp_all add: usage_defs claimedTx_keep\<close>)

text \<open>A step of a handler is, for the tables of billing, a hold transaction or nothing.\<close>

definition keeps :: "usage_db \<Rightarrow> usage_db \<Rightarrow> bool" where
  "keeps u u' \<longleftrightarrow> (\<forall>k e. effectAt u k = Some e \<longrightarrow> effectAt u' k = Some e)"

lemma keepsD: "keeps u u' \<Longrightarrow> effectAt u k = Some e \<Longrightarrow> effectAt u' k = Some e"
  unfolding keeps_def by blast

lemma keeps_hasKey: "keeps u u' \<Longrightarrow> hasKey u k \<Longrightarrow> hasKey u' k"
  using effectAt_none [of u k] effectAt_none [of u' k] keepsD [of u u' k] by (cases "effectAt u k") auto

lemma keeps_refl [simp]: "keeps u u"
  by (simp add: keeps_def)

lemma tx_keeps:
  assumes "applyBatchImageBalanceHold p now x c kind u = (q, u')" "dedup_inv u"
  shows "keeps u u'"
proof -
  have "keeps u (snd (applyBatchImageBalanceHold p now x c kind u))"
    by (auto simp: keeps_def applyBatchImageBalanceHold_def Let_def intro: claimedTx_keep [OF assms(2)])
  with assms(1) show ?thesis by simp
qed

lemma jobsTx_usage: "jobsTx e f w = (r, w') \<Longrightarrow> bw_usage w' = bw_usage w"
  by (auto simp: jobsTx_def written_def split: sum.splits if_splits)

lemma jobsTx_snd_usage [simp]: "bw_usage (snd (jobsTx e f w)) = bw_usage w"
  by (auto simp: jobsTx_def written_def split: sum.splits)

lemma jobsExec_usage [simp]: "bw_usage (jobsExec e g w) = bw_usage w"
  by (simp add: jobsExec_def written_def)

lemma reserve_keeps:
  "reserveBatchImageBalanceHold p e j h w = (r, w') \<Longrightarrow> dedup_inv (bw_usage w) \<Longrightarrow> keeps (bw_usage w) (bw_usage w')"
  by (auto simp: reserveBatchImageBalanceHold_def ReserveBatchImageBalance_def intro: tx_keeps split: sum.splits prod.splits if_splits)

lemma capture_keeps:
  "captureBatchImageBalanceHold p e j a h w = (r, w') \<Longrightarrow> dedup_inv (bw_usage w) \<Longrightarrow> keeps (bw_usage w) (bw_usage w')"
  by (auto simp: captureBatchImageBalanceHold_def CaptureBatchImageBalance_def intro: tx_keeps split: sum.splits prod.splits)

lemma release_keeps:
  "releaseHold p e j w = (r, w') \<Longrightarrow> dedup_inv (bw_usage w) \<Longrightarrow> keeps (bw_usage w) (bw_usage w')"
  by (auto simp: releaseHold_def releaseBatchImageBalanceHold_def ReleaseBatchImageBalance_def intro: tx_keeps
      split: sum.splits prod.splits if_splits)

lemma submit_keeps:
  assumes "submit_step p e i pc w = (pc', w')" "dedup_inv (bw_usage w)"
  shows "keeps (bw_usage w) (bw_usage w')"
  using assms
  by (cases pc) (auto simp: submit_step_def EnqueueBatch_def Let_def dest: jobsTx_usage reserve_keeps release_keeps
      split: prod.splits option.splits sum.splits if_splits)

lemma side_keeps:
  assumes "side_step p e pc w = (pc', w')" "dedup_inv (bw_usage w)"
  shows "keeps (bw_usage w) (bw_usage w')"
  using assms
  by (cases pc) (auto simp: side_step_unfold EnqueueBatch_def Let_def dest: jobsTx_usage release_keeps
      split: prod.splits option.splits if_splits)


lemma worker_keeps:
  assumes "pipeline_step p pricing e bid pc w = (pc', w')" "dedup_inv (bw_usage w)"
  shows "keeps (bw_usage w) (bw_usage w')"
proof (cases pc)
  case (WkRelease j)
  with assms show ?thesis by (auto simp: pipeline_step_unfold dest: release_keeps split: prod.splits option.splits)
next
  case (SetExhaust j)
  with assms show ?thesis by (auto simp: pipeline_step_unfold dest: release_keeps split: prod.splits option.splits)
next
  case (SetCapture j c m)
  with assms show ?thesis by (auto simp: pipeline_step_unfold dest: capture_keeps split: prod.splits option.splits)
next
  case (WkAct j ps code)
  with assms show ?thesis
    by (cases ps) (auto simp: pipeline_step_unfold dest: jobsTx_usage split: prod.splits option.splits if_splits)
qed (use assms in \<open>auto simp: pipeline_step_unfold Let_def dest: jobsTx_usage split: prod.splits option.splits sum.splits if_splits index_answer.splits\<close>)


lemma batch_do_keeps:
  assumes "batchInv s"
  shows "keeps (bw_usage (bs_world s)) (bw_usage (bs_world (batch_do p pricing s a)))"
proof -
  have d: "dedup_inv (bw_usage (bs_world s))" using assms by (simp add: batchInv_def)
  show ?thesis
  proof (cases a)
    case (ActCreate e b j)
    then show ?thesis by (simp add: Let_def split: sum.split)
  next
    case (ActSubmit e bid)
    with d show ?thesis by (auto split: option.splits prod.splits dest: submit_keeps)
  next
    case (ActWorker e bid)
    with d show ?thesis by (auto split: option.splits prod.splits dest: worker_keeps)
  next
    case (ActSide e n)
    with d show ?thesis by (auto simp: setSide_def setWorld_def split: option.splits prod.splits dest: side_keeps)
  next
    case (ActUsage op)
    with d show ?thesis by (auto simp: setWorld_def keeps_def intro: usage_step_keep)
  qed (simp_all add: setSide_def setWorld_def)
qed

lemma batch_run_keeps: "batchInv s \<Longrightarrow> keeps (bw_usage (bs_world s)) (bw_usage (bs_world (batch_run p pricing s acts)))"
proof (induction acts arbitrary: s)
  case (Cons a acts)
  from Cons.IH [OF batch_do_inv [OF Cons.prems]] batch_do_keeps [OF Cons.prems]
  show ?case by (fastforce simp: batch_run_def keeps_def)
qed (simp add: batch_run_def)

lemma holdKey_snd [simp]: "snd (holdKey j) = the (BiAPIKeyID j)"
  by (simp add: holdKey_def)

text \<open>The reservation that commits without a reply.\<close>

lemma reserve_lost:
  assumes g: "good_job j" and d: "dedup_inv (bw_usage w)" and k: "\<not> hasKey (bw_usage w) (holdKey j)"
    and u: "users (tables (bw_usage w)) (BiUserID j) = Some u" "UuBalance u \<ge> holdAmountOf j" "holdAmountOf j > 0" and e: "be_db e = DbLostReply"
  shows "\<exists>u'. reserveBatchImageBalanceHold p e j h w = (Some HoldFailed, w\<lparr>bw_usage := u'\<rparr>) \<and> hasKey u' (holdKey j)"
proof -
  obtain cmd where cmd: "buildBatchImageHoldCommand j (fst (holdKey j)) 0 h = Inr cmd" using build_ok [OF g] by blast
  note n = hold_normal [OF g cmd job_request_ids(2) [OF g], of p]
  have nonempty: "fst (holdKey j) \<noteq> []" by (simp add: holdKey_def)
  have key: "(fst (holdKey j), the (BiAPIKeyID j)) = holdKey j" by (simp add: holdKey_def)
  have fresh: "spec_claim (claims (bw_usage w)) (holdKey j) f = Fresh" for f
    using k d committed_fst [of "bw_usage w" "holdKey j"] by (simp add: spec_claim_def dedup_inv_def hasKey_def)
  have "\<exists>u'. ReserveBatchImageBalance p (be_now e) (be_db e) cmd (bw_usage w) = (Inl BillingDbError, u') \<and> hasKey u' (holdKey j)"
    using n nonempty u e
    by (simp add: ReserveBatchImageBalance_def applyBatchImageBalanceHold_def Let_def claimedTx_def claimUsageBillingRequest_spec key fresh
        reserveUsageBillingBatchImageBalance_def bind_ok_def written_def reply_ok_def hasKey_def)
  then obtain u' where "ReserveBatchImageBalance p (be_now e) (be_db e) cmd (bw_usage w) = (Inl BillingDbError, u')" "hasKey u' (holdKey j)" by blast
  moreover have "HcHoldAmount cmd > 0" using build_fields [OF cmd] u(3) by simp
  ultimately show ?thesis
    using cmd by (intro exI [of _ u']) (simp add: reserveBatchImageBalanceHold_def job_request_ids(1) [OF g])
qed

text \<open>The release after a capture.\<close>

lemma release_again:
  assumes g: "good_job j" and d: "dedup_inv (bw_usage w)" and k: "\<not> hasKey (bw_usage w) (releaseKey j)" "hasKey (bw_usage w) (holdKey j)"
    and u: "users (tables (bw_usage w)) (BiUserID j) = Some u" "frozenOf u \<ge> holdAmountOf j" "holdAmountOf j > 0" and e: "be_db e = DbOk"
  shows "\<exists>u'. releaseHold p e j w = (None, w\<lparr>bw_usage := u'\<rparr>) \<and> freed u' j"
proof -
  let ?h = "batchImageDerefString (BiRequestHash j)"
  obtain cmd where cmd: "buildBatchImageHoldCommand j (fst (releaseKey j)) 0 ?h = Inr cmd" using build_ok [OF g] by blast
  note n = hold_normal [OF g cmd job_request_ids(6) [OF g], of p]
  have nonempty: "fst (releaseKey j) \<noteq> []" by (simp add: releaseKey_def)
  have key: "(fst (releaseKey j), the (BiAPIKeyID j)) = releaseKey j" by (simp add: releaseKey_def)
  have fresh: "spec_claim (claims (bw_usage w)) (releaseKey j) f = Fresh" for f
    using k(1) d committed_fst [of "bw_usage w" "releaseKey j"] by (simp add: spec_claim_def dedup_inv_def hasKey_def)
  have hk: "batchImageHoldClaimExists ((bw_usage w)\<lparr>dedup := (dedup (bw_usage w))(releaseKey j \<mapsto> y)\<rparr>) (fst (holdKey j)) (the (BiAPIKeyID j))" for y
    using held_claim [OF d, of "holdKey j" "releaseKey j" y] k(2) by simp
  have "\<exists>v u'. ReleaseBatchImageBalance p (be_now e) (be_db e) cmd (bw_usage w) = (Inr v, u') \<and> freed u' j"
    using n nonempty u e hk
    by (auto simp add: ReleaseBatchImageBalance_def applyBatchImageBalanceHold_def Let_def claimedTx_def claimUsageBillingRequest_spec key fresh
        releaseUsageBillingBatchImageBalance_def bind_ok_def written_def reply_ok_def freed_def job_request_ids(1) [OF g])
  then obtain v u' where "ReleaseBatchImageBalance p (be_now e) (be_db e) cmd (bw_usage w) = (Inr v, u')" "freed u' j" by blast
  moreover have "HcHoldAmount cmd > 0" using build_fields [OF cmd] u(3) by simp
  ultimately show ?thesis
    using cmd by (intro exI [of _ u']) (simp add: releaseHold_def releaseBatchImageBalanceHold_def job_request_ids(5) [OF g])
qed


lemma early_job:
  assumes "batchInv s" "bs_submit s bid = Some (j, SubReserve)" "bw_jobs (bs_world s) bid = Some r"
  shows "same_batch j r" "good_job r" "BiBatchID r = bid" "\<not> late (BiStatus r)"
  using jobOkD [OF inv_job(2) [OF assms(1,3)]] assms inv_job(1) [OF assms(1,3)]
  by (auto simp: subOk_def)

text \<open>Submit after a reservation whose reply is lost.\<close>

lemma lost_reserve_run:
  assumes inv: "batchInv s" and sub: "bs_submit s bid = Some (j, SubReserve)" and r: "bw_jobs (bs_world s) bid = Some r" "BiStatus r = JobCreated"
    and k: "\<not> hasKey (bw_usage (bs_world s)) (holdKey j)"
    and u: "users (tables (bw_usage (bs_world s))) (BiUserID j) = Some u" "UuBalance u \<ge> holdAmountOf j" "holdAmountOf j > 0"
    and e: "be_db e0 = DbLostReply" "be_db e1 = DbOk" "be_db e2 = DbOk"
  shows "\<exists>u' r'. batch_run p pricing s [ActSubmit e0 bid, ActSubmit e1 bid, ActSubmit e2 bid] =
      s\<lparr>bs_world := (bs_world s)\<lparr>bw_usage := u', bw_jobs := (bw_jobs (bs_world s))(bid \<mapsto> r')\<rparr>, bs_submit := (bs_submit s)(bid := None)\<rparr> \<and>
    hasKey u' (holdKey j) \<and> \<not> captured u' j \<and> \<not> freed u' j \<and> same_batch j r' \<and> BiSuccessCount r' = BiSuccessCount r \<and> BiStatus r' = JobFailed \<and> BiUserDeleted r'"
proof -
  note early = early_job [OF inv sub r(1)]
  have g: "good_job j" using early(1,2) by (simp add: same_batch_def good_job_def)
  have id: "BiBatchID j = bid" using early(1,3) by (simp add: same_batch_def)
  obtain kid where kid: "BiAPIKeyID j = Some kid" using g by (auto simp: good_job_def)
  have row: "BiAPIKeyID r = Some kid" "BiUserID r = BiUserID j" using early(1) kid by (simp_all add: same_batch_def)
  note d = inv_job(3) [OF inv r(1)]
  obtain u' where u': "reserveBatchImageBalanceHold p e0 j (batchImageDerefString (BiRequestHash j)) (bs_world s) =
      (Some HoldFailed, (bs_world s)\<lparr>bw_usage := u'\<rparr>)" "hasKey u' (holdKey j)"
    using reserve_lost [OF g d k u e(1)] by blast
  from reserve_tx [OF g d u'(1)] have one: "addsOne (bw_usage (bs_world s)) u' (holdKey j) (\<lambda>e. \<exists>c. e = Hold c \<and> jobCommand j c)"
    by (auto dest!: arg_cong [of _ _ bw_usage])
  have "\<not> captured (bw_usage (bs_world s)) r" "\<not> freed (bw_usage (bs_world s)) r"
    using moneyD(3) [OF jobOkD(3) [OF inv_job(2) [OF inv r(1)]]] r(2) freed_held [OF jobOkD(2) [OF inv_job(2) [OF inv r(1)]]] k same_keys [OF early(1)]
    by (auto simp: batch_settled_def)
  then have nc: "\<not> captured u' j" "\<not> freed u' j"
    using addsOne_facts(3,4) [OF one, of j] same_keys [OF early(1)] by (auto simp: captured_def freed_def)
  let ?r = "r\<lparr>BiStatus := JobFailed, BiLastErrorCode := Some ''BILLING_HOLD_FAILED'', BiUpdatedAt := be_now e1\<rparr>"
  let ?r' = "if BiUserDeleted r then ?r else ?r\<lparr>BiUserDeleted := True, BiUpdatedAt := be_now e2\<rparr>"
  have "batch_run p pricing s [ActSubmit e0 bid, ActSubmit e1 bid, ActSubmit e2 bid] =
      s\<lparr>bs_world := (bs_world s)\<lparr>bw_usage := u', bw_jobs := (bw_jobs (bs_world s))(bid \<mapsto> ?r')\<rparr>, bs_submit := (bs_submit s)(bid := None)\<rparr>"
    using sub r(1) u'(1) row id kid e
    by (simp add: batch_run_def submit_step_def jobsExec_def written_def RecordBatchImageJobSubmitFailure_def MarkBatchImageJobUserDeleted_def
        updateWhere_def IsTerminalBatchImageJobStatus_def Let_def)
  moreover have "same_batch j ?r'" "BiSuccessCount ?r' = BiSuccessCount r" "BiStatus ?r' = JobFailed" "BiUserDeleted ?r'"
    using early(1) by (auto simp: same_batch_def)
  ultimately show ?thesis using u'(2) nc by blast
qed





subsection \<open>Runs that show it\<close>


definition batch_demo_env :: batch_env where
  "batch_demo_env = \<lparr>be_db = DbOk, be_now = 0, be_ok = True, be_submit = Inr (''job'', ''out''),
     be_status = Some (Some \<lparr>ps_state = PsSucceeded, ps_output_ref = ''out'', ps_error_code = []\<rparr>), be_index = Indexed 2 0\<rparr>"

definition demo_job :: BatchImageJob where
  "demo_job = \<lparr>BiBatchID = [], BiUserID = 1, BiAPIKeyID = Some 7, BiAccountID = Some 2, BiProvider = ''vertex'', BiModel = ''m'',
     BiStatus = JobCreated, BiProviderJobName = None, BiProviderOutputRef = None, BiItemCount = 2, BiSuccessCount = 0, BiFailCount = 0,
     BiEstimatedCost = 4, BiHoldAmount = Some 4, BiActualCost = None, BiBillableUnitPrice = 1, BiPricingSnapshotVersion = 1,
     BiRequestHash = Some ''h'', BiManifestHash = None, BiRetryCount = 0, BiLastErrorCode = None, BiUserDeleted = False, BiUpdatedAt = 0\<rparr>"

definition demo_id :: gostring where "demo_id = NewBatchImageID ''x''"

definition lost_env :: batch_env where "lost_env = batch_demo_env\<lparr>be_db := DbLostReply\<rparr>"
definition down_env :: batch_env where "down_env = batch_demo_env\<lparr>be_db := DbError\<rparr>"

definition batch_demo_state :: "usage_tables \<Rightarrow> batch_action list \<Rightarrow> batch_system" where
  "batch_demo_state = batch_state demo_pg (\<lambda>_. None)"

text \<open>What a run has done with the job of the witnesses.\<close>

definition demo_row :: "usage_tables \<Rightarrow> batch_action list \<Rightarrow> BatchImageJob option" where
  "demo_row t acts = bw_jobs (bs_world (batch_demo_state t acts)) demo_id"

definition demo_submitted :: "batch_action list" where
  "demo_submitted = ActCreate batch_demo_env ''x'' demo_job # replicate 6 (ActSubmit batch_demo_env demo_id)"

definition demo_settling :: "batch_action list" where
  "demo_settling = demo_submitted @ [ActStart demo_id] @ replicate 8 (ActWorker batch_demo_env demo_id) @ [ActStart demo_id] @ replicate 2 (ActWorker batch_demo_env demo_id)"

definition demo_completed :: "batch_action list" where
  "demo_completed = demo_settling @ replicate 2 (ActWorker batch_demo_env demo_id)"

definition demo_cancelled :: "batch_action list" where
  "demo_cancelled = [ActCreate batch_demo_env ''x'' demo_job, ActCancel 1 7 demo_id, ActSide batch_demo_env 0, ActSide batch_demo_env 0, ActSide batch_demo_env 0]"

definition demo_retry :: "batch_action list" where
  "demo_retry = [ActStart demo_id, ActWorker batch_demo_env demo_id, ActWorker batch_demo_env demo_id, ActWorker down_env demo_id, ActWorker batch_demo_env demo_id, ActWorker batch_demo_env demo_id]"


definition frozen_tables :: usage_tables where
  "frozen_tables = demo_tables\<lparr>users := [1 \<mapsto> \<lparr>UuBalance = 10, UuFrozen = Some 4\<rparr>]\<rparr>"

definition demo_exhausted :: "batch_action list" where
  "demo_exhausted = demo_settling @
     [ActWorker lost_env demo_id, ActWorker batch_demo_env demo_id, ActWorker batch_demo_env demo_id] @ demo_retry @ demo_retry @ demo_retry @ butlast demo_retry"

definition demo_late_submit :: "batch_action list" where
  "demo_late_submit = replicate 4 (ActSubmit batch_demo_env demo_id)"

lemma demo_completed_row: "(case demo_row demo_tables demo_completed of
    Some j \<Rightarrow> BiStatus j = JobCompleted \<and> BiRetryCount j = 0 \<and> BiUserID j = 1 \<and> BiActualCost j = Some 2 | None \<Rightarrow> False)"
  by code_simp

lemma demo_submitted_row: "(case demo_row demo_tables demo_submitted of
    Some j \<Rightarrow> BiStatus j = JobSubmitted \<and> BiRetryCount j = 0 \<and> BiUserID j = 1 \<and> holdAmountOf j = 4 | None \<Rightarrow> False)"
  by code_simp


theorem working_batch_keeps_hold_witness:
  "\<exists>j. demo_row demo_tables demo_submitted = Some j \<and> jobTotal (balance_move 1) (batch_demo_state demo_tables demo_submitted) j = - 4 \<and>
     jobTotal (frozen_move 1) (batch_demo_state demo_tables demo_submitted) j = 4"
  using demo_submitted_row working_batch_keeps_hold [of demo_pg "\<lambda>_. None" demo_tables demo_submitted demo_id]
  by (auto simp: demo_row_def batch_demo_state_def split: option.splits)

theorem batch_hold_paid_out_once_witness:
  "\<exists>j. demo_row demo_tables demo_submitted = Some j \<and>
     (jobTotal (balance_move 1) (batch_demo_state demo_tables demo_submitted) j, jobTotal (frozen_move 1) (batch_demo_state demo_tables demo_submitted) j)
       \<in> {(0, 0), (- 4, 4), (- costOf j, 0)}"
  using demo_submitted_row batch_hold_paid_out_once [of demo_pg "\<lambda>_. None" demo_tables demo_submitted demo_id]
  by (auto simp: demo_row_def batch_demo_state_def split: option.splits)

definition demo_created :: batch_system where
  "demo_created = batch_demo_state demo_tables [ActCreate batch_demo_env ''x'' demo_job]"

lemma demo_created_facts: "bs_submit demo_created demo_id = Some (demo_job\<lparr>BiBatchID := demo_id\<rparr>, SubReserve)"
    "bw_jobs (bs_world demo_created) demo_id = Some (demo_job\<lparr>BiBatchID := demo_id\<rparr>)"
    "users (tables (bw_usage (bs_world demo_created))) 1 = Some \<lparr>UuBalance = 10, UuFrozen = None\<rparr>"
    "\<not> hasKey (bw_usage (bs_world demo_created)) (holdKey (demo_job\<lparr>BiBatchID := demo_id\<rparr>))"
  by code_simp+

lemma demo_envs: "be_db batch_demo_env = DbOk" "be_db lost_env = DbLostReply"
  by (simp_all add: batch_demo_env_def lost_env_def)


lemma demo_cancelled_facts: "(let s = batch_demo_state demo_tables demo_cancelled; s' = batch_demo_state demo_tables (demo_cancelled @ demo_late_submit) in
    case demo_row demo_tables (demo_cancelled @ demo_late_submit) of
      Some j \<Rightarrow> (case effectAt (bw_usage (bs_world s)) (releaseKey j) of Some (ReleaseHold c h) \<Rightarrow> \<not> h | _ \<Rightarrow> False) \<and>
        BiStatus j = JobCancelled \<and> BiRetryCount j = 0 \<and> hasKey (bw_usage (bs_world s')) (holdKey j) \<and> BiUserID j = 1 \<and> holdAmountOf j = 4
    | None \<Rightarrow> False)"
  by code_simp


definition gives_up :: "batch_system \<Rightarrow> bool" where
  "gives_up s = (case (bs_worker s demo_id, bw_jobs (bs_world s) demo_id, users (tables (bw_usage (bs_world s))) 1) of
      (Some (SetExhaust i), Some j, Some u) \<Rightarrow> captured (bw_usage (bs_world s)) j \<and> hasKey (bw_usage (bs_world s)) (holdKey j) \<and>
        \<not> hasKey (bw_usage (bs_world s)) (releaseKey j) \<and> BiUserID j = 1 \<and> holdAmountOf j = 4 \<and> costOf j = 2 \<and> frozenOf u = 4
    | _ \<Rightarrow> False)"

lemma demo_exhausted_facts: "gives_up (batch_demo_state frozen_tables demo_exhausted)"
  by code_simp


end
