(* ===== verification/Spec2Isabelle.thy ===== *)
theory Spec2Isabelle
  imports AnthropicBlocks AnthropicStreamProofs ResponsesStreamProofs ResponsesContent
    ConverterRoundtrip IdempotencyProofs IdempotencyLease BreakerProofs AuthAbuse
    CompositeRouteProofs SubscriptionProofs InflightHandle
    FixedCharge BillingRateProofs PlatformQuotaProofs BillingGateProofs
    ServiceProofs JsonFuel GatewayConduct SessionLimit
    PaymentClaims PaymentProgress RefundClaims BatchClaims
begin

text \<open>
  A verification library for apipool, a gateway that sells access to LLM providers: it accepts
  requests in the formats of several vendors, decides whether a user may send them, picks an
  upstream account, converts between the formats and charges for the answer. The theories model
  the parts of the Go backend (under \<open>src/backend/internal\<close>) that decide and transform; the code
  around them is I/O.

  \<^bold>\<open>The path of a request.\<close> The middleware checks the API key; \<open>AuthAbuse\<close> is the limiter that
  blocks clients whose keys keep failing. \<open>CheckBillingEligibility\<close> (\<open>BillingGate\<close>) asks, in this
  order, a circuit breaker, the balance or the subscription (\<open>Subscriptions\<close>), the quota on the
  platform (\<open>PlatformQuota\<close>), the windows of the key (\<open>BillingRates\<close>) and the requests per minute.
  The money a request will cost is reserved (\<open>Inflight\<close>) until it is charged. A composite group
  finds its provider with \<open>CompositeRoute\<close>; proxies and models that fail are put aside by
  \<open>Breakers\<close>. The answer is converted by \<open>AnthropicToResponses\<close> or \<open>ResponsesToAnthropic\<close>, as a
  whole or event by event. Requests that change data are made idempotent by \<open>Idempotency\<close>. Users pay
  for their balance and their subscriptions with orders (\<open>Payments\<close>), which administrators can
  refund (\<open>Refunds\<close>).

  \<^bold>\<open>Shared theories.\<close>
  \<^item> \<open>GoPrelude\<close>: strings as bytes, 64 bit integers (\<open>wrap64\<close>), times and durations in
    nanoseconds, the Go maps (association lists whose iteration order is a parameter), and their
    lemmas.
  \<^item> \<open>JsonText\<close>: the JSON texts that the code validates and decodes. The scanner runs on fuel
    \<open>2 * length + 2\<close>; \<open>JsonFuel\<close> proves that more fuel never changes an answer.
  \<^item> \<open>CompatTypes\<close>, \<open>ClaudeModels\<close>: the wire types of \<open>pkg/apicompat/types.go\<close> and the model
    tests of \<open>pkg/claude\<close>.
  \<^item> \<open>StreamRun\<close>: a locale for stateful converters, what a run of a handler over events keeps.

  \<^bold>\<open>Response converters.\<close> \<open>AnthropicToResponses\<close> models
  \<open>pkg/apicompat/anthropic_to_responses_response.go\<close> and \<open>ResponsesToAnthropic\<close> models
  \<open>pkg/apicompat/responses_to_anthropic.go\<close>: a record for the stream state, one definition per
  handler, the dispatch and the finaliser. The properties are about every sequence of events,
  well-formed or not: blocks and items are opened and closed in brackets with increasing indices,
  the terminal event comes once and repeats what was closed (\<open>AnthropicStreamProofs\<close>,
  \<open>ResponsesStreamProofs\<close>); text and tool arguments arrive once, however upstream splits and
  repeats them (\<open>AnthropicBlocks\<close>, \<open>ResponsesContent\<close>); whole responses survive the way there and
  back (\<open>ConverterRoundtrip\<close>).

  \<^bold>\<open>Idempotency.\<close> \<open>Idempotency\<close> models the coordinator \<open>service/idempotency.go\<close> against an
  interface, as a record of functions, and the table of \<open>repository/idempotency_repo.go\<close>.
  \<open>IdempotencyProofs\<close> states the contract of the store as a locale and interprets it on the table:
  one execution per key, replays, conflicts. \<open>IdempotencyLease\<close> runs many requests against one
  table.

  \<^bold>\<open>Breakers and limiter.\<close> \<open>Breakers\<close>, \<open>BreakerProofs\<close>: \<open>service/openai_proxy_stream_circuit.go\<close>
  and \<open>service/openai_account_model_transient.go\<close>, bounded maps with eviction. \<open>AuthAbuse\<close>:
  \<open>service/invalid_auth_abuse_limiter.go\<close> with its shards, hash and overflow bucket. The locale
  \<open>bounded_table\<close> holds what the tables share and is interpreted on each.

  \<^bold>\<open>Concurrency.\<close> \<open>RedisKeys\<close> has the Redis commands on sorted sets and counters;
  \<open>ConcurrencySlots\<close> models the scripts and pipelines of \<open>repository/concurrency_cache.go\<close>, and
  \<open>ConcurrencyService\<close> the service over them, \<open>service/concurrency_service.go\<close>. \<open>SlotPool\<close> states the
  contract of a bounded pool of holders whose claims lapse as the locale \<open>leased_pool\<close>;
  \<open>SlotProofs\<close> and \<open>SlotRuns\<close> say what every operation does to the key of a pool, and \<open>SlotLimits\<close>
  interprets the locale on the slots of accounts and users and on the connections of API keys:
  no sequence of operations of any number of processes lets more holders run than the limit,
  unless a process starts up, whose sweep frees the slots of the others. \<open>ServiceProofs\<close>: request
  ids do not repeat and the cache of loads is a \<open>bounded_table\<close>.

  \<^bold>\<open>The failover loop.\<close> \<open>Accounts\<close> has the settings of an account that the code reads. \<open>Failover\<close>
  models \<open>handler/failover_loop.go\<close>, and \<open>GatewayLoop\<close> the loop of \<open>handler/gateway_handler.go\<close> that serves
  a request of the Messages API: the answers of the scheduler, the profit gate and upstream are a
  function of the iteration and the state, the effects are a log, and the loop is a partial
  function. \<open>GatewayLoopProofs\<close>: it always returns, by a measure of switches, vetoes, retries and
  time; \<open>GatewayResources\<close>: it gives back slots, places in queues, locks and sessions;
  \<open>GatewayConduct\<close>: it charges the account that served, once. \<open>SessionLimit\<close> models
  \<open>repository/session_limit_cache.go\<close> and is a third interpretation of \<open>leased_pool\<close>.

  \<^bold>\<open>Routing.\<close> \<open>CompositeRoute\<close>, \<open>CompositeRouteProofs\<close>: \<open>service/composite_route_resolver.go\<close>,
  \<open>composite_platform.go\<close>, \<open>composite_model_route.go\<close> and \<open>domain/platforms.go\<close>: the most
  specific route wins, whatever the order of the routes.

  \<^bold>\<open>Billing.\<close>
  \<^item> \<open>Subscriptions\<close>, \<open>SubscriptionProofs\<close>: \<open>service/user_subscription.go\<close>, the window part of
    \<open>service/subscription_service.go\<close> and the conditional updates of
    \<open>repository/user_subscription_repo.go\<close>. Maintenance brings a row to its current windows, a
    stale one does nothing, and no subscription is granted more weeks than it has.
  \<^item> \<open>Inflight\<close>: the Redis scripts of \<open>repository/billing_inflight_cache.go\<close> and the reservation
    handle of \<open>service/billing_inflight_reservation.go\<close>. \<open>InflightProofs\<close>: what any sequence of
    operations on the keys of a user keeps. \<open>InflightHandle\<close>: the life of a handle as a
    transition system; a reservation is held until the handler and every task have finished.
  \<^item> \<open>BillingRates\<close>, \<open>BillingRateProofs\<close>: the windows of an API key in the table
    (\<open>repository/api_key_repo.go\<close>) and in the cache (\<open>repository/billing_cache.go\<close>), with a
    simulation between the two.
  \<^item> \<open>PlatformQuota\<close>, \<open>PlatformQuotaProofs\<close>: the same for the quota of a user on a platform
    (\<open>repository/user_platform_quota_repo.go\<close>), and the charge after midnight that the cache
    loses.
  \<^item> \<open>BillingGate\<close>, \<open>BillingGateProofs\<close>: the circuit breaker, the requests per minute
    (\<open>repository/user_rpm_cache.go\<close>) and the whole of \<open>CheckBillingEligibility\<close> in
    \<open>service/billing_cache_service.go\<close>, with the exact conditions of admission.
  \<^item> \<open>FixedCharge\<close>: \<open>ReserveFixedCharge\<close> in its two phases, reserve and then read; concurrent
    requests together stay within the limit.

  \<^bold>\<open>Payments.\<close>
  \<^item> \<open>PaymentOrders\<close>: the row of an order, currencies, tolerances and what a notification of a
    provider has to match (\<open>payment/types.go\<close>, \<open>payment/currency.go\<close>,
    \<open>service/payment_order_provider_snapshot.go\<close>).
  \<^item> \<open>Payments\<close> and \<open>PaymentSteps\<close>: the handlers of \<open>service/payment_fulfillment.go\<close> and
    \<open>service/payment_order_lifecycle.go\<close> and the redemption of codes
    (\<open>service/redeem_service.go\<close>) over a record of tables. A Go function that issues several
    statements is cut at them: \<open>pay_worker\<close> is the program counter with its local variables, and
    \<open>worker_step\<close> runs one statement or transaction, which succeeds, fails, or takes effect while
    its reply is lost.
  \<^item> \<open>PaymentWorld\<close>: any number of workers beside the actions of administrators.
    \<open>PaymentProofs\<close> has the invariant and its preservation by every step; \<open>PaymentClaims\<close>: a code
    is credited at most once and only for a confirmed payment, a paid order stays paid, rebates
    and subscriptions are given once, balances are the sums of the credits, and what deleting a
    used code breaks. \<open>PaymentProgress\<close>: a retry without failures completes an order from
    whatever point an earlier attempt stopped at.
  \<^item> \<open>Refunds\<close>: \<open>service/payment_refund.go\<close> in the same way. \<open>RefundProofs\<close> and \<open>RefundRuns\<close>: what
    every step keeps of an order's deduction and of its refunding worker; \<open>RefundClaims\<close>: at most
    one refund and one outstanding deduction per order, and the second pending refund that gets
    stuck. The runs here assume that the reply of a write arrives and that plain audit rows are
    written and read (\<open>steady\<close>); writes and gateways may fail and workers may die.

  \<^bold>\<open>Conventions.\<close> Structs are records with the fields the modelled code reads or writes; a pointer
  is an \<open>option\<close>; an error is a value of a sum or option type. A mutex-protected method and a Redis
  script are single steps. A clock reading is an argument. Parameters stand for what is not in
  this code: SHA-256 and JSON encoding of payloads, random ids, the calendar of the configured
  time zone, the order in which Go visits a map, the result of a connection. A \<open>float64\<close> amount is
  the real number it stands for, and \<open>fl\<close> rounds the result of an operation; where a property
  needs exact sums it takes the identity for \<open>fl\<close> and says so.

  \<^bold>\<open>Not modelled.\<close> The request converters and the chat completion bridges of \<open>pkg/apicompat\<close>;
  account selection and forwarding in the gateway services; the price tables and the
  estimation of costs in \<open>service/billing_service.go\<close>; assigning and renewing subscriptions; the write queue of the
  billing cache and the flusher of platform quotas; the choice of a payment provider, fees and
  plans, and the clients of the providers. Of these, the first four are logic that a continuation
  would take in this order. HTTP
  handlers, SQL and Redis access beyond the operations above, configuration, the generated
  \<open>ent\<close> client and the frontend are I/O, generated or another language and are left out.
\<close>

end
